(* ===== verification/Prelude.thy ===== *)
theory Prelude
  imports Main "HOL-Library.Word"
begin

text \<open>
  The shared base of the development: the types every component uses for the Go
  types of the source, the collections of facts the component theories fill, and
  generic lemmas on lists, options and words.

  Go's \<open>string\<close> is a \<open>string\<close> of bytes, \<open>int64\<close> and \<open>int\<close> values that never come
  near the ends of their range (Unix milliseconds, counts of rows, ports) are
  \<open>int\<close>, a \<open>uint64\<close> is \<open>64 word\<close>, a pointer that may be nil is an \<open>option\<close>, and a
  function that returns an error beside its result returns a sum with the error on
  the left.
\<close>

type_synonym u8 = "8 word"
type_synonym u16 = "16 word"
type_synonym u32 = "32 word"
type_synonym u64 = "64 word"
type_synonym unix_ms = int

named_theorems state_simps \<open>what an operation does to the parts of its state\<close>
named_theorems inv_intros \<open>preservation of a component's invariant by its operations\<close>

subsection \<open>Results\<close>

text \<open>Go's \<open>if err != nil { return err }\<close>: an error is passed on unchanged.\<close>

definition bind_res :: "'e + 'a \<Rightarrow> ('a \<Rightarrow> 'e + 'b) \<Rightarrow> 'e + 'b" where
  "bind_res r f = (case r of Inl e \<Rightarrow> Inl e | Inr a \<Rightarrow> f a)"

lemma bind_res_simps [simp]:
  "bind_res (Inl e) f = Inl e"
  "bind_res (Inr a) f = f a"
  by (simp_all add: bind_res_def)

lemma bind_res_eq_Inr:
  "bind_res r f = Inr b \<longleftrightarrow> (\<exists>a. r = Inr a \<and> f a = Inr b)"
  by (cases r) auto

lemma bind_res_pair_eq_Inr:
  "bind_res r (\<lambda>(a, b). f a b) = Inr c \<longleftrightarrow> (\<exists>a b. r = Inr (a, b) \<and> f a b = Inr c)"
  by (cases r) auto

lemmas bind_Inr = bind_res_eq_Inr bind_res_pair_eq_Inr

lemma bind_res_eq_Inl:
  "bind_res r f = Inl e \<longleftrightarrow> r = Inl e \<or> (\<exists>a. r = Inr a \<and> f a = Inl e)"
  by (cases r) auto

lemma bind_res_cong [fundef_cong]:
  "r = r' \<Longrightarrow> (\<And>a. r' = Inr a \<Longrightarrow> f a = f' a) \<Longrightarrow> bind_res r f = bind_res r' f'"
  by (cases r') auto

subsection \<open>Words\<close>

lemma unat_u64_lt: "unat (w :: u64) < 18446744073709551616"
  using unsigned_less [of w] by simp

text \<open>Addition of words that does not carry is addition of naturals.\<close>

lemma unat_add_no_carry:
  fixes a b :: "'a::len word"
  assumes "unat a + unat b < 2 ^ LENGTH('a)"
  shows "unat (a + b) = unat a + unat b"
  using assms by (simp add: unat_word_ariths)

subsection \<open>Numbers as text\<close>

text \<open>The verb \<open>%d\<close> of \<open>fmt.Sprintf\<close>.\<close>

fun nat_dec :: "nat \<Rightarrow> string" where
  "nat_dec n = (if n < 10 then [char_of (48 + n)]
                else nat_dec (n div 10) @ [char_of (48 + n mod 10)])"

declare nat_dec.simps [simp del]

definition int_dec :: "int \<Rightarrow> string" where
  "int_dec i = (if i < 0 then CHR ''-'' # nat_dec (nat (- i)) else nat_dec (nat i))"

text \<open>The same on integers, whose numerals evaluate in binary.\<close>

function dec_digits :: "int \<Rightarrow> string" where
  "dec_digits i = (if i < 10 then [char_of (48 + nat i)]
                   else dec_digits (i div 10) @ [char_of (48 + nat (i mod 10))])"
  by auto
termination by (relation "measure nat") auto

declare dec_digits.simps [simp del]

lemma nat_dec_is_dec_digits: "nat_dec n = dec_digits (int n)"
proof (induction n rule: less_induct)
  case (less n)
  show ?case
  proof (cases "n < 10")
    case False
    then have "nat_dec (n div 10) = dec_digits (int n div 10)" using less [of "n div 10"] by (simp add: zdiv_int)
    moreover have "n mod 10 = nat (int n mod 10)" by (simp add: zmod_int [symmetric] nat_mod_distrib)
    ultimately show ?thesis using False by (simp add: nat_dec.simps [of n] dec_digits.simps [of "int n"])
  qed (simp add: nat_dec.simps dec_digits.simps)
qed

lemma int_dec_code [code]: "int_dec i = (if i < 0 then CHR ''-'' # dec_digits (- i) else dec_digits i)"
  by (simp add: int_dec_def nat_dec_is_dec_digits)

subsection \<open>Go's strings\<close>

text \<open>\<open>strings.CutPrefix\<close>, \<open>strings.Cut\<close> at one character, and \<open>strconv.Atoi\<close> on the short
  strings it takes its fast path for: an optional sign and at least one decimal digit.\<close>

fun cut_prefix :: "string \<Rightarrow> string \<Rightarrow> string option" where
  "cut_prefix s [] = Some s"
| "cut_prefix [] (p # ps) = None"
| "cut_prefix (c # s) (p # ps) = (if c = p then cut_prefix s ps else None)"

fun cut :: "char \<Rightarrow> string \<Rightarrow> (string \<times> string) option" where
  "cut sep [] = None"
| "cut sep (c # s) = (if c = sep then Some ([], s)
     else case cut sep s of None \<Rightarrow> None | Some (a, b) \<Rightarrow> Some (c # a, b))"

fun digits_val :: "nat \<Rightarrow> string \<Rightarrow> nat option" where
  "digits_val acc [] = Some acc"
| "digits_val acc (c # s) =
     (if 48 \<le> (of_char c :: nat) \<and> (of_char c :: nat) \<le> 57
      then digits_val (10 * acc + (of_char c - 48)) s else None)"

definition atoi :: "string \<Rightarrow> int option" where
  "atoi s = (case s of [] \<Rightarrow> None
     | c # t \<Rightarrow> if c = CHR ''-'' \<or> c = CHR ''+'' then
         if t = [] then None
         else map_option (\<lambda>n. if c = CHR ''-'' then - int n else int n) (digits_val 0 t)
       else map_option int (digits_val 0 s))"

lemma cut_prefix_eq_Some: "cut_prefix s p = Some r \<longleftrightarrow> s = p @ r"
  by (induction s p rule: cut_prefix.induct) auto

lemma digits_val_bound: "digits_val acc s = Some n \<Longrightarrow> n < (acc + 1) * 10 ^ length s"
proof (induction acc s rule: digits_val.induct)
  case (2 acc c s)
  let ?d = "of_char c - 48 :: nat"
  from 2 have "n < (10 * acc + ?d + 1) * 10 ^ length s" and "?d \<le> 9"
    by (auto split: if_splits)
  moreover have "(10 * acc + ?d + 1) * 10 ^ length s \<le> (10 * acc + 10) * 10 ^ length s"
    using \<open>?d \<le> 9\<close> by (intro mult_right_mono) auto
  ultimately show ?case by (simp add: algebra_simps)
qed simp

lemma atoi_digits:
  assumes "atoi s = Some n"
  obtains t m where "digits_val 0 t = Some m" and "length t \<le> length s" and "\<bar>n\<bar> = int m"
proof (cases s)
  case Nil
  with assms show ?thesis by (simp add: atoi_def)
next
  case (Cons c t)
  show ?thesis
  proof (cases "c = CHR ''-'' \<or> c = CHR ''+''")
    case True
    with assms Cons obtain m where "digits_val 0 t = Some m" "n = int m \<or> n = - int m"
      by (auto simp: atoi_def split: if_splits)
    then show ?thesis using that [of t m] Cons by auto
  next
    case False
    with assms Cons obtain m where "digits_val 0 s = Some m" "n = int m"
      by (auto simp: atoi_def simp del: digits_val.simps)
    then show ?thesis using that [of s m] by simp
  qed
qed

subsection \<open>Runs of a machine\<close>

text \<open>
  A component with state is a step function over events; a run is the fold of the step
  over a list of events. What every step keeps, every run keeps.
\<close>

definition run :: "('e \<Rightarrow> 's \<Rightarrow> 's) \<Rightarrow> 'e list \<Rightarrow> 's \<Rightarrow> 's" where
  "run step es s = fold step es s"

lemma run_simps [simp]:
  "run step [] s = s"
  "run step (e # es) s = run step es (step e s)"
  by (simp_all add: run_def)

lemma run_append: "run step (es @ fs) s = run step fs (run step es s)"
  by (simp add: run_def)

locale machine =
  fixes step :: "'e \<Rightarrow> 's \<Rightarrow> 's"
    and allowed :: "'e \<Rightarrow> bool"
    and good :: "'s \<Rightarrow> bool"
  assumes step_inv: "allowed e \<Longrightarrow> good s \<Longrightarrow> good (step e s)"
begin

lemma run_inv: "list_all allowed es \<Longrightarrow> good s \<Longrightarrow> good (run step es s)"
  by (induction es arbitrary: s) (auto intro: step_inv)

end

text \<open>
  A transaction either commits, or fails and leaves the state as it was
  (\<open>store.Write\<close>: \<open>BEGIN IMMEDIATE .. COMMIT\<close>, with a rollback on an error).
\<close>

definition transact :: "('s \<Rightarrow> 'e + 's \<times> 'a) \<Rightarrow> 's \<Rightarrow> 's \<times> ('e + 'a)" where
  "transact f s = (case f s of Inl e \<Rightarrow> (s, Inl e) | Inr (s', a) \<Rightarrow> (s', Inr a))"

lemma fst_transact_inv:
  "good s \<Longrightarrow> (\<And>s' a. f s = Inr (s', a) \<Longrightarrow> good s') \<Longrightarrow> good (fst (transact f s))"
  by (auto simp: transact_def split: sum.splits)

end
