(* ===== verification/Job_Model.thy ===== *)
theory Job_Model
  imports Prelude
begin

text \<open>
  The job row and its pure functions (\<open>internal/model/jobs.go\<close>): kinds, subjects, states,
  the subject mapping, the boot triage table and the retry backoff. A kind is a Go
  string, so a value outside the eleven named ones exists in the type; the functions
  that answer such a kind with an empty string answer \<open>None\<close> here.
\<close>

section \<open>Kinds, subjects and states\<close>

datatype job_kind =
    JobLlamacppInstall | JobLlamacppActivate | JobLlamacppDelete
  | JobModelDownload | JobModelVerify | JobModelDelete | JobCacheScan
  | JobBenchRun | JobSelfUpdate | JobToolchainProbe | JobMaintenance
  | JobKindOther string

definition job_kind_values :: "job_kind list" where
  "job_kind_values =
     [JobLlamacppInstall, JobLlamacppActivate, JobLlamacppDelete,
      JobModelDownload, JobModelVerify, JobModelDelete, JobCacheScan,
      JobBenchRun, JobSelfUpdate, JobToolchainProbe, JobMaintenance]"

definition job_kind_valid :: "job_kind \<Rightarrow> bool" where
  "job_kind_valid k \<longleftrightarrow> k \<in> set job_kind_values"

datatype subject_type =
    SubjectLlamacppVersion | SubjectModel | SubjectDownload | SubjectCacheScan
  | SubjectBenchRun | SubjectSelfUpdate | SubjectSystem

definition SubjectIDToolchain :: string where "SubjectIDToolchain = ''toolchain''"
definition SubjectIDMaintenance :: string where "SubjectIDMaintenance = ''maintenance''"

fun subject_for :: "job_kind \<Rightarrow> string \<Rightarrow> (subject_type \<times> string) option" where
  "subject_for JobLlamacppInstall d = Some (SubjectLlamacppVersion, d)"
| "subject_for JobLlamacppActivate d = Some (SubjectLlamacppVersion, d)"
| "subject_for JobLlamacppDelete d = Some (SubjectLlamacppVersion, d)"
| "subject_for JobModelDownload d = Some (SubjectDownload, d)"
| "subject_for JobModelVerify d = Some (SubjectModel, d)"
| "subject_for JobModelDelete d = Some (SubjectModel, d)"
| "subject_for JobCacheScan d = Some (SubjectCacheScan, d)"
| "subject_for JobBenchRun d = Some (SubjectBenchRun, d)"
| "subject_for JobSelfUpdate d = Some (SubjectSelfUpdate, d)"
| "subject_for JobToolchainProbe d = Some (SubjectSystem, SubjectIDToolchain)"
| "subject_for JobMaintenance d = Some (SubjectSystem, SubjectIDMaintenance)"
| "subject_for (JobKindOther _) d = None"

datatype job_state =
    JobQueued | JobLeased | JobRunning | JobPaused | JobInterrupted
  | JobSucceeded | JobFailed | JobCanceled

definition live_job_states :: "job_state list" where
  "live_job_states = [JobQueued, JobLeased, JobRunning, JobPaused, JobInterrupted]"

definition is_live :: "job_state \<Rightarrow> bool" where
  "is_live s \<longleftrightarrow> s \<in> set live_job_states"

definition is_terminal :: "job_state \<Rightarrow> bool" where
  "is_terminal s \<longleftrightarrow> s = JobSucceeded \<or> s = JobFailed \<or> s = JobCanceled"

lemma terminal_iff_not_live: "is_terminal s \<longleftrightarrow> \<not> is_live s"
  by (cases s) (simp_all add: is_terminal_def is_live_def live_job_states_def)

lemma is_live_simps [simp]:
  "is_live JobQueued" "is_live JobLeased" "is_live JobRunning" "is_live JobPaused"
  "is_live JobInterrupted" "\<not> is_live JobSucceeded" "\<not> is_live JobFailed"
  "\<not> is_live JobCanceled"
  by (simp_all add: is_live_def live_job_states_def)

lemma is_terminal_simps [simp]:
  "\<not> is_terminal JobQueued" "\<not> is_terminal JobLeased" "\<not> is_terminal JobRunning"
  "\<not> is_terminal JobPaused" "\<not> is_terminal JobInterrupted" "is_terminal JobSucceeded"
  "is_terminal JobFailed" "is_terminal JobCanceled"
  by (simp_all add: is_terminal_def)

text \<open>The state holds a lease: the worker of some daemon is on the job.\<close>

definition holds_lease :: "job_state \<Rightarrow> bool" where
  "holds_lease s \<longleftrightarrow> s = JobLeased \<or> s = JobRunning"

lemma holds_lease_simps [simp]:
  "\<not> holds_lease JobQueued" "holds_lease JobLeased" "holds_lease JobRunning"
  "\<not> holds_lease JobPaused" "\<not> holds_lease JobInterrupted" "\<not> holds_lease JobSucceeded"
  "\<not> holds_lease JobFailed" "\<not> holds_lease JobCanceled"
  by (simp_all add: holds_lease_def)

lemma holds_lease_live: "holds_lease s \<Longrightarrow> is_live s"
  by (cases s) simp_all

section \<open>Boot triage and backoff\<close>

fun job_boot_triage :: "job_kind \<Rightarrow> job_state option" where
  "job_boot_triage JobModelDownload = Some JobQueued"
| "job_boot_triage JobCacheScan = Some JobQueued"
| "job_boot_triage JobToolchainProbe = Some JobQueued"
| "job_boot_triage JobLlamacppInstall = Some JobInterrupted"
| "job_boot_triage JobLlamacppActivate = Some JobInterrupted"
| "job_boot_triage JobBenchRun = Some JobInterrupted"
| "job_boot_triage JobSelfUpdate = Some JobInterrupted"
| "job_boot_triage JobLlamacppDelete = Some JobFailed"
| "job_boot_triage JobModelVerify = Some JobFailed"
| "job_boot_triage JobModelDelete = Some JobFailed"
| "job_boot_triage JobMaintenance = Some JobFailed"
| "job_boot_triage (JobKindOther _) = None"

text \<open>
  \<open>for range attempts { d *= 2; if d >= ceiling { return ceiling } }\<close>, in milliseconds:
  every duration of the function is a whole number of seconds, and the early return keeps
  \<open>d\<close> below two minutes, far from the range of \<open>time.Duration\<close>.
\<close>

definition job_backoff_ceiling :: int where "job_backoff_ceiling = 60000"

fun job_backoff_loop :: "nat \<Rightarrow> int \<Rightarrow> int" where
  "job_backoff_loop 0 d = min d job_backoff_ceiling"
| "job_backoff_loop (Suc n) d =
     (if job_backoff_ceiling \<le> 2 * d then job_backoff_ceiling else job_backoff_loop n (2 * d))"

definition job_backoff :: "int \<Rightarrow> int" where
  "job_backoff attempts =
     (let a = (if attempts < 0 then 0 else attempts) in job_backoff_loop (nat a) 2000)"

lemma job_backoff_loop_closed:
  "0 < d \<Longrightarrow> job_backoff_loop n d = min (d * 2 ^ n) job_backoff_ceiling"
proof (induction n arbitrary: d)
  case 0
  then show ?case by simp
next
  case (Suc n)
  show ?case
  proof (cases "job_backoff_ceiling \<le> 2 * d")
    case True
    have "2 * d * 1 \<le> 2 * d * 2 ^ n"
      using Suc.prems by (intro mult_left_mono) auto
    with True show ?thesis by (simp add: mult.assoc mult.left_commute)
  next
    case False
    with Suc.prems Suc.IH [of "2 * d"] show ?thesis
      by (simp add: mult.assoc mult.left_commute)
  qed
qed

lemma job_backoff_bounds: "2000 \<le> job_backoff a \<and> job_backoff a \<le> 60000"
proof -
  have "(2000::int) * 1 \<le> 2000 * 2 ^ nat a"
    by (rule mult_left_mono) simp_all
  then show ?thesis
    by (simp add: job_backoff_def Let_def job_backoff_loop_closed job_backoff_ceiling_def)
qed

lemma job_backoff_closed: "job_backoff a = min 60000 (2 ^ nat a * 2000)"
  by (simp add: job_backoff_def Let_def job_backoff_loop_closed job_backoff_ceiling_def
      min.commute mult.commute)

text \<open>
  The delay before attempt \<open>n + 1\<close> of a job is the documented
  \<open>min(60 s, 2^n * 2 s)\<close>: the loop, which stops multiplying at the ceiling, computes the
  formula, for every count, negative ones reading as zero.
\<close>

theorem job_backoff_formula:
  "job_backoff attempts = min 60000 (2 ^ nat attempts * 2000)"
  by (rule job_backoff_closed)

section \<open>The row\<close>

record job =
  j_id :: string
  j_kind :: job_kind
  j_subject_type :: subject_type
  j_subject_id :: string
  j_state :: job_state
  j_priority :: int
  j_run_after :: unix_ms
  j_attempts :: int
  j_max_attempts :: int
  j_lease_owner :: "string option"
  j_lease_expires_at :: "unix_ms option"
  j_cancel_requested :: bool
  j_idempotency_key :: "string option"
  j_progress_json :: "string option"
  j_params_json :: "string option"
  j_error_code :: "string option"
  j_error_message :: "string option"
  j_created_at :: unix_ms
  j_started_at :: "unix_ms option"
  j_finished_at :: "unix_ms option"

definition j_subject :: "job \<Rightarrow> subject_type \<times> string" where
  "j_subject j = (j_subject_type j, j_subject_id j)"

record idem_key =
  k_key :: string
  k_route :: string
  k_fingerprint :: string
  k_job_id :: string
  k_created_at :: unix_ms
  k_expires_at :: unix_ms

definition IdempotencyWindow :: int where "IdempotencyWindow = 600000"

end
