(* ===== verification/Job_Store.thy ===== *)
theory Job_Store
  imports Job_Model "HOL-Library.Char_ord" "HOL-Library.List_Lexorder"
    "HOL-Library.Product_Lexorder"
begin

text \<open>
  The statements on the tables \<open>jobs\<close> and \<open>idempotency_keys\<close>
  (\<open>internal/store/jobs.go\<close>, \<open>jobsqueue.go\<close>, \<open>idempotency.go\<close>), over the constraints of
  \<open>migrations/0001_init.sql\<close>. A table is the list of its rows; a statement returns the new
  table or the error the database or the method answers with. I/O errors of the database
  driver are not modelled: a statement fails for the reasons its SQL or its guard gives.
  \<open>json_valid\<close>, SQLite's function behind the JSON checks, is the parameter \<open>json_ok\<close>.
\<close>

section \<open>Errors and constraints\<close>

datatype jobs_error =
    ErrNotFound | ErrConstraint | ErrNotTerminal | ErrIsTerminal | ErrNoBootOutcome
  | ErrUnknownKind | ErrMissingSubject | ErrEmptyKey | ErrKeyReused idem_key
  | ErrJobInFlight job | ErrNotCancelable | ErrNotRetryable | ErrGuard string
  | ErrDomain string | ErrNonTerminalOutcome

type_synonym jobs = "job list"

text \<open>The partial unique index \<open>idx_jobs_one_live_per_subject\<close>.\<close>

definition one_live_per_subject :: "jobs \<Rightarrow> bool" where
  "one_live_per_subject js \<longleftrightarrow> distinct (map j_subject (filter (\<lambda>j. is_live (j_state j)) js))"

text \<open>
  \<open>UPDATE jobs SET .. WHERE ..\<close>: every row the condition selects is rewritten; a result
  that breaks the unique index is refused and the statement has no effect. The number of
  rows changed comes with the new table.
\<close>

definition update_rows :: "(job \<Rightarrow> bool) \<Rightarrow> (job \<Rightarrow> job) \<Rightarrow> jobs \<Rightarrow> jobs" where
  "update_rows p f js = map (\<lambda>j. if p j then f j else j) js"

definition sql_update ::
    "(job \<Rightarrow> bool) \<Rightarrow> (job \<Rightarrow> job) \<Rightarrow> jobs \<Rightarrow> jobs_error + jobs \<times> nat" where
  "sql_update p f js =
     (let js' = update_rows p f js
      in if one_live_per_subject js' then Inr (js', length (filter p js)) else Inl ErrConstraint)"

section \<open>Reads\<close>

definition job_row :: "string \<Rightarrow> jobs \<Rightarrow> jobs_error + job" where
  "job_row i js = (case find (\<lambda>j. j_id j = i) js of None \<Rightarrow> Inl ErrNotFound | Some j \<Rightarrow> Inr j)"

definition live_job_for_subject :: "subject_type \<Rightarrow> string \<Rightarrow> jobs \<Rightarrow> jobs_error + job" where
  "live_job_for_subject t s js =
     (case find (\<lambda>j. j_subject_type j = t \<and> j_subject_id j = s \<and> is_live (j_state j)) js of
        None \<Rightarrow> Inl ErrNotFound | Some j \<Rightarrow> Inr j)"

definition count_live_jobs_by_kind :: "job_kind \<Rightarrow> jobs \<Rightarrow> nat" where
  "count_live_jobs_by_kind k js = length (filter (\<lambda>j. j_kind j = k \<and> is_live (j_state j)) js)"

definition orphaned :: "string \<Rightarrow> job \<Rightarrow> bool" where
  "orphaned boot j \<longleftrightarrow>
     holds_lease (j_state j) \<and> (case j_lease_owner j of None \<Rightarrow> True | Some ow \<Rightarrow> ow \<noteq> boot)"

definition orphaned_jobs :: "string \<Rightarrow> jobs \<Rightarrow> jobs" where
  "orphaned_jobs boot js = sort_key j_id (filter (orphaned boot) js)"

record job_filter =
  f_states :: "job_state list"
  f_kinds :: "job_kind list"
  f_subject_type :: "subject_type option"
  f_subject_id :: string
  f_limit :: int

definition DefaultJobLimit :: int where "DefaultJobLimit = 200"

text \<open>\<open>ORDER BY id DESC LIMIT ?\<close>; the empty subject type is \<open>None\<close>.\<close>

definition jobs_list :: "job_filter \<Rightarrow> jobs \<Rightarrow> jobs" where
  "jobs_list f js =
     (let limit = (if f_limit f \<le> 0 then DefaultJobLimit else f_limit f)
      in take (nat limit) (rev (sort_key j_id (filter (\<lambda>j.
           (f_states f \<noteq> [] \<longrightarrow> j_state j \<in> set (f_states f))
         \<and> (f_kinds f \<noteq> [] \<longrightarrow> j_kind j \<in> set (f_kinds f))
         \<and> (case f_subject_type f of None \<Rightarrow> True
            | Some t \<Rightarrow> f_subject_id f \<noteq> [] \<longrightarrow>
                j_subject_type j = t \<and> j_subject_id j = f_subject_id f)) js))))"

section \<open>Writes\<close>

text \<open>\<open>CHECK (c IS NULL OR json_valid(c))\<close>.\<close>

definition json_check :: "(string \<Rightarrow> bool) \<Rightarrow> string option \<Rightarrow> bool" where
  "json_check json_ok v = (case v of None \<Rightarrow> True | Some x \<Rightarrow> json_ok x)"

definition insert_job :: "(string \<Rightarrow> bool) \<Rightarrow> job \<Rightarrow> jobs \<Rightarrow> jobs_error + jobs" where
  "insert_job json_ok j js =
     (if j_id j \<in> set (map j_id js) \<or> \<not> job_kind_valid (j_kind j)
         \<or> \<not> json_check json_ok (j_params_json j) \<or> \<not> json_check json_ok (j_progress_json j)
         \<or> \<not> one_live_per_subject (js @ [j])
      then Inl ErrConstraint else Inr (js @ [j]))"

record lease_params =
  p_owner :: string
  p_kinds :: "job_kind list"
  p_now :: unix_ms
  p_lease_expires_at :: unix_ms

definition leasable :: "lease_params \<Rightarrow> job \<Rightarrow> bool" where
  "leasable p j \<longleftrightarrow> j_state j = JobQueued \<and> j_run_after j \<le> p_now p
     \<and> (p_kinds p \<noteq> [] \<longrightarrow> j_kind j \<in> set (p_kinds p))"

definition lease_order :: "job \<Rightarrow> int \<times> int \<times> string" where
  "lease_order j = (j_priority j, j_run_after j, j_id j)"

definition take_lease :: "lease_params \<Rightarrow> job \<Rightarrow> job" where
  "take_lease p j = j\<lparr>j_state := JobLeased, j_lease_owner := Some (p_owner p),
     j_lease_expires_at := Some (p_lease_expires_at p), j_attempts := j_attempts j + 1\<rparr>"

definition lease_next_job :: "lease_params \<Rightarrow> jobs \<Rightarrow> jobs_error + jobs \<times> job" where
  "lease_next_job p js =
     (case filter (leasable p) js of
        [] \<Rightarrow> Inl ErrNotFound
      | c # cs \<Rightarrow>
          let w = arg_min_list lease_order (c # cs)
          in bind_res (sql_update (\<lambda>j. j_id j = j_id w) (take_lease p) js)
               (\<lambda>(js', _). Inr (js', take_lease p w)))"

definition held_by :: "string \<Rightarrow> string \<Rightarrow> job \<Rightarrow> bool" where
  "held_by i owner j \<longleftrightarrow>
     j_id j = i \<and> j_lease_owner j = Some owner \<and> holds_lease (j_state j)"

definition heartbeat_job ::
    "string \<Rightarrow> string \<Rightarrow> unix_ms \<Rightarrow> jobs \<Rightarrow> jobs_error + jobs \<times> bool" where
  "heartbeat_job i owner expires js =
     bind_res (sql_update (held_by i owner) (\<lambda>j. j\<lparr>j_lease_expires_at := Some expires\<rparr>) js)
       (\<lambda>(js', n). Inr (js', 0 < n))"

text \<open>The \<open>RETURNING cancel_requested\<close> of \<open>TouchJobLease\<close>; no row is \<open>ErrNotFound\<close>.\<close>

definition touch_job_lease ::
    "string \<Rightarrow> string \<Rightarrow> unix_ms \<Rightarrow> jobs \<Rightarrow> jobs_error + jobs \<times> bool" where
  "touch_job_lease i owner expires js =
     bind_res (sql_update (held_by i owner) (\<lambda>j. j\<lparr>j_lease_expires_at := Some expires\<rparr>) js)
       (\<lambda>(js', _). case find (held_by i owner) js of
          None \<Rightarrow> Inl ErrNotFound
        | Some j \<Rightarrow> Inr (js', j_cancel_requested j))"

definition start_job ::
    "string \<Rightarrow> string \<Rightarrow> unix_ms \<Rightarrow> jobs \<Rightarrow> jobs_error + jobs \<times> bool" where
  "start_job i owner at js =
     bind_res (sql_update
       (\<lambda>j. j_id j = i \<and> j_lease_owner j = Some owner \<and> j_state j = JobLeased)
       (\<lambda>j. j\<lparr>j_state := JobRunning,
               j_started_at := (case j_started_at j of None \<Rightarrow> Some at | Some t \<Rightarrow> Some t)\<rparr>) js)
       (\<lambda>(js', n). Inr (js', 0 < n))"

definition set_job_progress ::
    "(string \<Rightarrow> bool) \<Rightarrow> string \<Rightarrow> string option \<Rightarrow> jobs \<Rightarrow> jobs_error + jobs" where
  "set_job_progress json_ok i p js =
     (if i \<in> set (map j_id js) \<and> \<not> json_check json_ok p
      then Inl ErrConstraint
      else bind_res (sql_update (\<lambda>j. j_id j = i) (\<lambda>j. j\<lparr>j_progress_json := p\<rparr>) js)
             (\<lambda>(js', _). Inr js'))"

definition drop_lease :: "job \<Rightarrow> job" where
  "drop_lease j = j\<lparr>j_lease_owner := None, j_lease_expires_at := None\<rparr>"

definition finish_job ::
    "string \<Rightarrow> job_state \<Rightarrow> string option \<Rightarrow> string option \<Rightarrow> unix_ms \<Rightarrow> jobs
     \<Rightarrow> jobs_error + jobs" where
  "finish_job i st code msg at js =
     (if \<not> is_terminal st then Inl ErrNotTerminal
      else bind_res (sql_update (\<lambda>j. j_id j = i)
             (\<lambda>j. drop_lease (j\<lparr>j_state := st, j_error_code := code, j_error_message := msg,
                     j_finished_at := Some at\<rparr>)) js)
             (\<lambda>(js', _). Inr js'))"

definition reschedule_job :: "string \<Rightarrow> unix_ms \<Rightarrow> jobs \<Rightarrow> jobs_error + jobs" where
  "reschedule_job i run_after js =
     bind_res (sql_update (\<lambda>j. j_id j = i)
       (\<lambda>j. drop_lease (j\<lparr>j_state := JobQueued, j_run_after := run_after\<rparr>)) js)
       (\<lambda>(js', _). Inr js')"

definition set_job_state :: "string \<Rightarrow> job_state \<Rightarrow> jobs \<Rightarrow> jobs_error + jobs" where
  "set_job_state i st js =
     (if is_terminal st then Inl ErrIsTerminal
      else bind_res (sql_update (\<lambda>j. j_id j = i)
             (\<lambda>j. if holds_lease st then j\<lparr>j_state := st\<rparr> else drop_lease (j\<lparr>j_state := st\<rparr>)) js)
             (\<lambda>(js', _). Inr js'))"

definition request_job_cancel :: "string \<Rightarrow> jobs \<Rightarrow> jobs_error + jobs \<times> bool" where
  "request_job_cancel i js =
     bind_res (sql_update (\<lambda>j. j_id j = i \<and> is_live (j_state j))
       (\<lambda>j. j\<lparr>j_cancel_requested := True\<rparr>) js)
       (\<lambda>(js', n). Inr (js', 0 < n))"

definition requeue_job ::
    "string \<Rightarrow> unix_ms \<Rightarrow> string option \<Rightarrow> string option \<Rightarrow> jobs \<Rightarrow> jobs_error + jobs" where
  "requeue_job i run_after code msg js =
     bind_res (sql_update (\<lambda>j. j_id j = i)
       (\<lambda>j. drop_lease (j\<lparr>j_state := JobQueued, j_run_after := run_after,
               j_error_code := code, j_error_message := msg\<rparr>)) js)
       (\<lambda>(js', _). Inr js')"

definition defer_job :: "string \<Rightarrow> unix_ms \<Rightarrow> jobs \<Rightarrow> jobs_error + jobs" where
  "defer_job i run_after js =
     bind_res (sql_update (\<lambda>j. j_id j = i)
       (\<lambda>j. drop_lease (j\<lparr>j_state := JobQueued, j_run_after := run_after,
               j_attempts := max (j_attempts j - 1) 0,
               j_error_code := None, j_error_message := None\<rparr>)) js)
       (\<lambda>(js', _). Inr js')"

definition retryable :: "job_state \<Rightarrow> bool" where
  "retryable s \<longleftrightarrow> s = JobFailed \<or> s = JobCanceled \<or> s = JobInterrupted"

definition retry_job :: "string \<Rightarrow> unix_ms \<Rightarrow> jobs \<Rightarrow> jobs_error + jobs \<times> bool" where
  "retry_job i run_after js =
     bind_res (sql_update (\<lambda>j. j_id j = i \<and> retryable (j_state j))
       (\<lambda>j. drop_lease (j\<lparr>j_state := JobQueued, j_run_after := run_after,
               j_cancel_requested := False, j_error_code := None, j_error_message := None,
               j_finished_at := None,
               j_max_attempts := max (j_max_attempts j) (j_attempts j + 1)\<rparr>)) js)
       (\<lambda>(js', n). Inr (js', 0 < n))"

definition expire_job_leases :: "string \<Rightarrow> unix_ms \<Rightarrow> jobs \<Rightarrow> jobs_error + jobs \<times> nat" where
  "expire_job_leases owner at js =
     sql_update (\<lambda>j. j_lease_owner j = Some owner \<and> holds_lease (j_state j))
       (\<lambda>j. j\<lparr>j_lease_expires_at := Some at\<rparr>) js"

definition daemon_restarted_code :: string where
  "daemon_restarted_code = ''daemon_restarted''"

definition daemon_restarted_message :: string where
  "daemon_restarted_message = ''the daemon restarted while this job was running''"

definition triage_orphaned_job ::
    "job \<Rightarrow> unix_ms \<Rightarrow> jobs \<Rightarrow> jobs_error + jobs \<times> job_state" where
  "triage_orphaned_job j at js =
     (case job_boot_triage (j_kind j) of
        Some JobQueued \<Rightarrow>
          bind_res (sql_update (\<lambda>r. j_id r = j_id j)
            (\<lambda>r. drop_lease (r\<lparr>j_state := JobQueued, j_run_after := at,
                    j_attempts := max (j_attempts r - 1) 0\<rparr>)) js)
            (\<lambda>(js', _). Inr (js', JobQueued))
      | Some JobInterrupted \<Rightarrow>
          bind_res (sql_update (\<lambda>r. j_id r = j_id j)
            (\<lambda>r. drop_lease (r\<lparr>j_state := JobInterrupted\<rparr>)) js)
            (\<lambda>(js', _). Inr (js', JobInterrupted))
      | Some JobFailed \<Rightarrow>
          bind_res (finish_job (j_id j) JobFailed (Some daemon_restarted_code)
                      (Some daemon_restarted_message) at js)
            (\<lambda>js'. Inr (js', JobFailed))
      | _ \<Rightarrow> Inl ErrNoBootOutcome)"

section \<open>Idempotency keys\<close>

definition live_idempotency_key ::
    "string \<Rightarrow> unix_ms \<Rightarrow> idem_key list \<Rightarrow> jobs_error + idem_key" where
  "live_idempotency_key k now ks =
     (case find (\<lambda>r. k_key r = k \<and> now < k_expires_at r) ks of
        None \<Rightarrow> Inl ErrNotFound | Some r \<Rightarrow> Inr r)"

text \<open>The expired row is swept, then the primary key and the foreign key are checked.\<close>

definition insert_idempotency_key ::
    "idem_key \<Rightarrow> unix_ms \<Rightarrow> jobs \<Rightarrow> idem_key list \<Rightarrow> jobs_error + idem_key list" where
  "insert_idempotency_key k now js ks =
     (let ks' = filter (\<lambda>r. \<not> (k_key r = k_key k \<and> k_expires_at r \<le> now)) ks
      in if k_key k \<in> set (map k_key ks') \<or> k_job_id k \<notin> set (map j_id js)
         then Inl ErrConstraint else Inr (ks' @ [k]))"

definition delete_idempotency_keys_before :: "unix_ms \<Rightarrow> idem_key list \<Rightarrow> idem_key list" where
  "delete_idempotency_keys_before cutoff ks = filter (\<lambda>r. \<not> k_expires_at r < cutoff) ks"

section \<open>The table invariant\<close>

definition row_ok :: "job \<Rightarrow> bool" where
  "row_ok j \<longleftrightarrow>
     (holds_lease (j_state j) \<longleftrightarrow> j_lease_owner j \<noteq> None)
   \<and> (j_lease_owner j = None \<longleftrightarrow> j_lease_expires_at j = None)
   \<and> 0 \<le> j_attempts j \<and> job_kind_valid (j_kind j)"

definition jobs_ok :: "jobs \<Rightarrow> bool" where
  "jobs_ok js \<longleftrightarrow> distinct (map j_id js) \<and> one_live_per_subject js \<and> (\<forall>j \<in> set js. row_ok j)"

lemma jobs_ok_Nil [simp]: "jobs_ok []"
  by (simp add: jobs_ok_def one_live_per_subject_def)

lemma jobs_okD:
  assumes "jobs_ok js"
  shows "distinct (map j_id js)" and "one_live_per_subject js"
    and "j \<in> set js \<Longrightarrow> row_ok j"
  using assms by (simp_all add: jobs_ok_def)

lemma drop_lease_sel [simp]:
  "j_id (drop_lease j) = j_id j" "j_kind (drop_lease j) = j_kind j"
  "j_state (drop_lease j) = j_state j" "j_subject (drop_lease j) = j_subject j"
  "j_lease_owner (drop_lease j) = None" "j_lease_expires_at (drop_lease j) = None"
  "j_attempts (drop_lease j) = j_attempts j" "j_max_attempts (drop_lease j) = j_max_attempts j"
  "j_run_after (drop_lease j) = j_run_after j" "j_priority (drop_lease j) = j_priority j"
  "j_cancel_requested (drop_lease j) = j_cancel_requested j"
  "j_error_code (drop_lease j) = j_error_code j"
  "j_error_message (drop_lease j) = j_error_message j"
  "j_finished_at (drop_lease j) = j_finished_at j"
  "j_started_at (drop_lease j) = j_started_at j"
  by (simp_all add: drop_lease_def j_subject_def)

lemma take_lease_sel [simp]:
  "j_id (take_lease p j) = j_id j" "j_kind (take_lease p j) = j_kind j"
  "j_state (take_lease p j) = JobLeased" "j_subject (take_lease p j) = j_subject j"
  "j_lease_owner (take_lease p j) = Some (p_owner p)"
  "j_lease_expires_at (take_lease p j) = Some (p_lease_expires_at p)"
  "j_attempts (take_lease p j) = j_attempts j + 1"
  by (simp_all add: take_lease_def j_subject_def)

lemma j_subject_update [simp]:
  "j_subject (j\<lparr>j_state := st\<rparr>) = j_subject j"
  "j_subject (j\<lparr>j_run_after := t\<rparr>) = j_subject j"
  "j_subject (j\<lparr>j_lease_expires_at := e\<rparr>) = j_subject j"
  "j_subject (j\<lparr>j_cancel_requested := c\<rparr>) = j_subject j"
  "j_subject (j\<lparr>j_error_code := a\<rparr>) = j_subject j"
  "j_subject (j\<lparr>j_error_message := a\<rparr>) = j_subject j"
  "j_subject (j\<lparr>j_finished_at := u\<rparr>) = j_subject j"
  "j_subject (j\<lparr>j_started_at := u\<rparr>) = j_subject j"
  "j_subject (j\<lparr>j_attempts := n\<rparr>) = j_subject j"
  "j_subject (j\<lparr>j_max_attempts := n\<rparr>) = j_subject j"
  "j_subject (j\<lparr>j_progress_json := a\<rparr>) = j_subject j"
  by (simp_all add: j_subject_def)

lemma update_rows_ids:
  "(\<And>j. j \<in> set js \<Longrightarrow> p j \<Longrightarrow> j_id (f j) = j_id j) \<Longrightarrow>
   map j_id (update_rows p f js) = map j_id js"
  by (auto simp: update_rows_def)

lemma set_update_rows:
  "set (update_rows p f js) = {j \<in> set js. \<not> p j} \<union> f ` {j \<in> set js. p j}"
  by (auto simp: update_rows_def)

lemma sql_update_Inr:
  "sql_update p f js = Inr (js', n) \<longleftrightarrow>
     js' = update_rows p f js \<and> n = length (filter p js) \<and> one_live_per_subject js'"
  by (auto simp: sql_update_def Let_def)

lemma jobs_ok_update:
  assumes "jobs_ok js" and "sql_update p f js = Inr (js', n)"
    and "\<And>j. p j \<Longrightarrow> row_ok j \<Longrightarrow> row_ok (f j)"
    and "\<And>j. p j \<Longrightarrow> j_id (f j) = j_id j"
  shows "jobs_ok js'"
  using assms by (auto simp: jobs_ok_def sql_update_Inr update_rows_ids set_update_rows)

text \<open>
  A statement that brings no row to life and moves no subject cannot collide with the
  unique index.
\<close>

lemma one_live_update_rows:
  assumes "one_live_per_subject js"
    and "\<And>j. j \<in> set js \<Longrightarrow> p j \<Longrightarrow> is_live (j_state (f j)) \<Longrightarrow> is_live (j_state j)"
    and "\<And>j. j \<in> set js \<Longrightarrow> p j \<Longrightarrow> j_subject (f j) = j_subject j"
  shows "one_live_per_subject (update_rows p f js)"
proof -
  let ?live = "filter (\<lambda>j. is_live (j_state j))"
  have "set (map j_subject (?live (update_rows p f xs))) \<subseteq> set (map j_subject (?live xs)) \<and>
        (distinct (map j_subject (?live xs)) \<longrightarrow>
         distinct (map j_subject (?live (update_rows p f xs))))"
    if "set xs \<subseteq> set js" for xs
    using that
  proof (induction xs)
    case Nil
    then show ?case by (simp add: update_rows_def)
  next
    case (Cons x xs)
    then have IH: "set (map j_subject (?live (update_rows p f xs)))
        \<subseteq> set (map j_subject (?live xs))"
      "distinct (map j_subject (?live xs)) \<longrightarrow>
         distinct (map j_subject (?live (update_rows p f xs)))" by auto
    have x: "x \<in> set js" using Cons.prems by simp
    have split: "update_rows p f (x # xs) = (if p x then f x else x) # update_rows p f xs"
      by (simp add: update_rows_def)
    show ?case
    proof (cases "p x \<and> \<not> is_live (j_state (f x))")
      case True
      with IH show ?thesis by (auto simp: split)
    next
      case False
      with assms(2) [OF x] assms(3) [OF x] IH show ?thesis
        unfolding split by (auto split: if_splits)
    qed
  qed
  from this [of js] assms(1) show ?thesis
    by (simp add: one_live_per_subject_def)
qed

lemma sql_update_total:
  assumes "jobs_ok js"
    and "\<And>j. j \<in> set js \<Longrightarrow> p j \<Longrightarrow> is_live (j_state (f j)) \<Longrightarrow> is_live (j_state j)"
    and "\<And>j. j \<in> set js \<Longrightarrow> p j \<Longrightarrow> j_subject (f j) = j_subject j"
  shows "sql_update p f js = Inr (update_rows p f js, length (filter p js))"
  using one_live_update_rows [of js p f] assms
  by (simp add: sql_update_def Let_def jobs_ok_def)

lemma live_subject_unique:
  assumes "jobs_ok js" and "j \<in> set js" and "k \<in> set js"
    and "is_live (j_state j)" and "is_live (j_state k)" and "j_subject j = j_subject k"
  shows "j = k"
proof -
  have "inj_on j_subject (set (filter (\<lambda>j. is_live (j_state j)) js))"
    using assms(1) by (simp add: jobs_ok_def one_live_per_subject_def distinct_map)
  then show ?thesis using assms by (auto dest: inj_onD)
qed

lemma job_id_unique:
  "jobs_ok js \<Longrightarrow> j \<in> set js \<Longrightarrow> k \<in> set js \<Longrightarrow> j_id j = j_id k \<Longrightarrow> j = k"
  by (auto simp: jobs_ok_def distinct_map dest: inj_onD)

lemma job_row_Inr: "job_row i js = Inr j \<Longrightarrow> j \<in> set js \<and> j_id j = i"
  by (auto simp: job_row_def find_Some_iff split: option.splits)

lemma job_row_iff: "jobs_ok js \<Longrightarrow> job_row i js = Inr j \<longleftrightarrow> j \<in> set js \<and> j_id j = i"
proof
  assume ok: "jobs_ok js" and j: "j \<in> set js \<and> j_id j = i"
  then obtain k where k: "find (\<lambda>j. j_id j = i) js = Some k"
    by (cases "find (\<lambda>j. j_id j = i) js") (auto simp: find_None_iff)
  then have "k \<in> set js" and "j_id k = i" by (auto simp: find_Some_iff)
  with ok j have "k = j" by (auto dest: job_id_unique)
  with k show "job_row i js = Inr j" by (simp add: job_row_def)
qed (auto dest: job_row_Inr)

lemma job_row_update:
  assumes "jobs_ok js" and "job_row i js = Inr j"
    and "\<And>j. p j \<Longrightarrow> j_id (f j) = j_id j"
  shows "job_row i (update_rows p f js) = Inr (if p j then f j else j)"
proof -
  have "find (\<lambda>j. j_id j = i) (update_rows p f xs) =
        map_option (\<lambda>j. if p j then f j else j) (find (\<lambda>j. j_id j = i) xs)" for xs
    by (induction xs) (auto simp: update_rows_def assms(3))
  with assms(2) show ?thesis
    by (auto simp: job_row_def split: option.splits)
qed

section \<open>Every statement keeps the invariant\<close>

lemma row_ok_update [simp]:
  "row_ok (j\<lparr>j_run_after := t\<rparr>) = row_ok j"
  "row_ok (j\<lparr>j_cancel_requested := c\<rparr>) = row_ok j"
  "row_ok (j\<lparr>j_error_code := a\<rparr>) = row_ok j"
  "row_ok (j\<lparr>j_error_message := a\<rparr>) = row_ok j"
  "row_ok (j\<lparr>j_finished_at := u\<rparr>) = row_ok j"
  "row_ok (j\<lparr>j_progress_json := a\<rparr>) = row_ok j"
  "row_ok (j\<lparr>j_max_attempts := n\<rparr>) = row_ok j"
  "row_ok (j\<lparr>j_started_at := u\<rparr>) = row_ok j"
  by (simp_all add: row_ok_def)

lemma row_ok_drop_lease:
  "row_ok (drop_lease j) \<longleftrightarrow>
     \<not> holds_lease (j_state j) \<and> 0 \<le> j_attempts j \<and> job_kind_valid (j_kind j)"
  by (auto simp: row_ok_def)

lemma insert_job_ok [inv_intros]:
  assumes "jobs_ok js" and "row_ok j" and "insert_job json_ok j js = Inr js'"
  shows "jobs_ok js'"
  using assms by (auto simp: insert_job_def jobs_ok_def split: if_splits)

lemma finish_job_ok [inv_intros]:
  assumes "jobs_ok js" and "finish_job i st code msg at js = Inr js'"
  shows "jobs_ok js'"
proof -
  from assms(2) obtain n where st: "is_terminal st"
    and u: "sql_update (\<lambda>j. j_id j = i)
             (\<lambda>j. drop_lease (j\<lparr>j_state := st, j_error_code := code, j_error_message := msg,
                     j_finished_at := Some at\<rparr>)) js = Inr (js', n)"
    by (auto simp: finish_job_def bind_res_eq_Inr split: if_splits)
  from st have nh: "\<not> holds_lease st"
    using holds_lease_live terminal_iff_not_live by blast
  show ?thesis
    by (rule jobs_ok_update [OF assms(1) u])
      (use nh in \<open>auto simp: row_ok_drop_lease row_ok_def\<close>)
qed

lemma reschedule_job_ok [inv_intros]:
  assumes "jobs_ok js" and "reschedule_job i t js = Inr js'"
  shows "jobs_ok js'"
  using assms unfolding reschedule_job_def bind_res_eq_Inr
  by (auto intro!: jobs_ok_update [OF assms(1)] simp: row_ok_drop_lease row_ok_def
      split: prod.splits)

lemma requeue_job_ok [inv_intros]:
  assumes "jobs_ok js" and "requeue_job i t code msg js = Inr js'"
  shows "jobs_ok js'"
  using assms unfolding requeue_job_def bind_res_eq_Inr
  by (auto intro!: jobs_ok_update [OF assms(1)] simp: row_ok_drop_lease row_ok_def
      split: prod.splits)

lemma defer_job_ok [inv_intros]:
  assumes "jobs_ok js" and "defer_job i t js = Inr js'"
  shows "jobs_ok js'"
  using assms unfolding defer_job_def bind_res_eq_Inr
  by (auto intro!: jobs_ok_update [OF assms(1)] simp: row_ok_drop_lease row_ok_def
      split: prod.splits)

lemma set_job_state_ok [inv_intros]:
  assumes "jobs_ok js" and "\<not> holds_lease st" and "set_job_state i st js = Inr js'"
  shows "jobs_ok js'"
  using assms unfolding set_job_state_def
  by (auto intro!: jobs_ok_update [OF assms(1)] simp: row_ok_drop_lease row_ok_def
      bind_res_eq_Inr split: prod.splits if_splits)

lemma request_job_cancel_ok [inv_intros]:
  assumes "jobs_ok js" and "request_job_cancel i js = Inr (js', b)"
  shows "jobs_ok js'"
  using assms unfolding request_job_cancel_def bind_res_eq_Inr
  by (auto intro!: jobs_ok_update [OF assms(1)] split: prod.splits)

lemma retry_job_ok [inv_intros]:
  assumes "jobs_ok js" and "retry_job i t js = Inr (js', b)"
  shows "jobs_ok js'"
  using assms unfolding retry_job_def bind_res_eq_Inr
  by (auto intro!: jobs_ok_update [OF assms(1)] simp: row_ok_drop_lease row_ok_def
      split: prod.splits)

lemma start_job_ok [inv_intros]:
  assumes "jobs_ok js" and "start_job i owner at js = Inr (js', b)"
  shows "jobs_ok js'"
  using assms unfolding start_job_def bind_res_eq_Inr
  by (auto intro!: jobs_ok_update [OF assms(1)] simp: row_ok_def split: prod.splits)

lemma heartbeat_job_ok [inv_intros]:
  assumes "jobs_ok js" and "heartbeat_job i owner e js = Inr (js', b)"
  shows "jobs_ok js'"
  using assms unfolding heartbeat_job_def bind_res_eq_Inr
  by (auto intro!: jobs_ok_update [OF assms(1)] simp: row_ok_def held_by_def split: prod.splits)

lemma touch_job_lease_ok [inv_intros]:
  assumes "jobs_ok js" and "touch_job_lease i owner e js = Inr (js', b)"
  shows "jobs_ok js'"
proof -
  from assms(2) obtain n where
    u: "sql_update (held_by i owner) (\<lambda>j. j\<lparr>j_lease_expires_at := Some e\<rparr>) js = Inr (js', n)"
    by (auto simp: touch_job_lease_def bind_res_eq_Inr split: prod.splits option.splits)
  show ?thesis
    by (rule jobs_ok_update [OF assms(1) u]) (auto simp: row_ok_def held_by_def)
qed

lemma expire_job_leases_ok [inv_intros]:
  assumes "jobs_ok js" and "expire_job_leases owner at js = Inr (js', n)"
  shows "jobs_ok js'"
  using assms unfolding expire_job_leases_def
  by (auto intro!: jobs_ok_update [OF assms(1)] simp: row_ok_def)

lemma set_job_progress_ok [inv_intros]:
  assumes "jobs_ok js" and "set_job_progress json_ok i p js = Inr js'"
  shows "jobs_ok js'"
  using assms unfolding set_job_progress_def
  by (auto intro!: jobs_ok_update [OF assms(1)] simp: bind_res_eq_Inr
      split: prod.splits if_splits)

lemma triage_orphaned_job_ok [inv_intros]:
  assumes "jobs_ok js" and "triage_orphaned_job j at js = Inr (js', st)"
  shows "jobs_ok js'"
proof (cases "job_boot_triage (j_kind j) = Some JobFailed")
  case True
  with assms(2) have "finish_job (j_id j) JobFailed (Some daemon_restarted_code)
                      (Some daemon_restarted_message) at js = Inr js'"
    by (auto simp: triage_orphaned_job_def bind_res_eq_Inr)
  then show ?thesis by (rule finish_job_ok [OF assms(1)])
next
  case False
  with assms show ?thesis
    unfolding triage_orphaned_job_def
    by (auto intro!: jobs_ok_update [OF assms(1)]
        simp: bind_res_eq_Inr row_ok_drop_lease row_ok_def
        split: prod.splits option.splits job_state.splits)
qed

lemma leasable_queued: "leasable p j \<Longrightarrow> j_state j = JobQueued"
  by (simp add: leasable_def)

lemma lease_next_job_ok [inv_intros]:
  assumes "jobs_ok js" and "lease_next_job p js = Inr (js', w)"
  shows "jobs_ok js'"
proof -
  from assms(2) obtain c cs n where c: "filter (leasable p) js = c # cs"
    and u: "sql_update (\<lambda>j. j_id j = j_id (arg_min_list lease_order (c # cs)))
              (take_lease p) js = Inr (js', n)"
    by (auto simp: lease_next_job_def Let_def bind_res_eq_Inr split: list.splits)
  show ?thesis
    by (rule jobs_ok_update [OF assms(1) u]) (auto simp: row_ok_def take_lease_def)
qed

section \<open>The lease query\<close>

lemma arg_min_list_correct:
  "xs \<noteq> [] \<Longrightarrow> arg_min_list f xs \<in> set xs \<and> (\<forall>x \<in> set xs. f (arg_min_list f xs) \<le> f x)"
  by (simp add: arg_min_list_in f_arg_min_list_f)

text \<open>
  C11. \<open>LeaseNextJob\<close> claims the best ready row and nothing else: the row is queued, due, of
  an asked-for kind, and no other ready row comes before it in \<open>(priority, run_after, id)\<close>;
  it is returned leased to the caller with its attempt counted, every other row is
  untouched; and it fails exactly when no row is ready, never on the unique index.
\<close>

theorem lease_next_job_claims_first_ready:
  assumes ok: "jobs_ok js"
  shows "(lease_next_job p js = Inl ErrNotFound \<longleftrightarrow> (\<forall>j \<in> set js. \<not> leasable p j))
     \<and> (\<forall>js' r. lease_next_job p js = Inr (js', r) \<longrightarrow>
          (\<exists>w \<in> set js. leasable p w \<and> r = take_lease p w
             \<and> (\<forall>j \<in> set js. leasable p j \<longrightarrow> lease_order w \<le> lease_order j)
             \<and> js' = map (\<lambda>j. if j = w then take_lease p w else j) js))
     \<and> (lease_next_job p js = Inl ErrNotFound \<or> (\<exists>js' r. lease_next_job p js = Inr (js', r)))"
proof (cases "filter (leasable p) js")
  case Nil
  then show ?thesis
    by (auto simp: lease_next_job_def filter_empty_conv)
next
  case (Cons c cs)
  define w where "w = arg_min_list lease_order (c # cs)"
  have w: "w \<in> set js" "leasable p w"
    and least: "\<And>j. j \<in> set js \<Longrightarrow> leasable p j \<Longrightarrow> lease_order w \<le> lease_order j"
  proof -
    have ready: "set (c # cs) = {j \<in> set js. leasable p j}"
      unfolding Cons [symmetric] by auto
    have "w \<in> set (c # cs) \<and> (\<forall>x \<in> set (c # cs). lease_order w \<le> lease_order x)"
      unfolding w_def by (rule arg_min_list_correct) simp
    then show "w \<in> set js" and "leasable p w"
      and "\<And>j. j \<in> set js \<Longrightarrow> leasable p j \<Longrightarrow> lease_order w \<le> lease_order j"
      unfolding ready by auto
  qed
  have only: "j_id j = j_id w \<longleftrightarrow> j = w" if "j \<in> set js" for j
    using job_id_unique [OF ok that w(1)] by auto
  have total: "sql_update (\<lambda>j. j_id j = j_id w) (take_lease p) js
      = Inr (update_rows (\<lambda>j. j_id j = j_id w) (take_lease p) js,
             length (filter (\<lambda>j. j_id j = j_id w) js))"
    by (rule sql_update_total [OF ok]) (use only w in \<open>auto simp: leasable_def\<close>)
  have upd: "update_rows (\<lambda>j. j_id j = j_id w) (take_lease p) js
      = map (\<lambda>j. if j = w then take_lease p w else j) js"
    using only by (auto simp: update_rows_def)
  have res: "lease_next_job p js =
      Inr (map (\<lambda>j. if j = w then take_lease p w else j) js, take_lease p w)"
    using total upd by (simp add: lease_next_job_def Cons Let_def flip: w_def)
  show ?thesis
    using w least by (auto simp: res)
qed

end
