(* ===== verification/Job_Queue.thy ===== *)
theory Job_Queue
  imports Job_Store
begin

text \<open>
  The job engine (\<open>internal/jobs\<close>: \<open>enqueue.go\<close>, \<open>control.go\<close>, \<open>runner.go\<close>, \<open>worker.go\<close>,
  \<open>registry.go\<close>): enqueue with its replay window, cancel, retry, pause, resume, boot triage,
  and the life of a task from the claim to the closing write. The Go interfaces a kind's
  worker implements are a record of optional functions over the domain state \<open>'d\<close>; what a
  worker's \<open>Run\<close> returns is an input of the closing step. Publishing to the event stream,
  logging and the wake channel have no effect on the tables and are left out.
\<close>

section \<open>Workers\<close>

datatype 'd start_result = StartOk 'd | StartDefer int | StartError string

record 'd worker =
  w_start :: "(job \<Rightarrow> 'd \<Rightarrow> 'd start_result) option"
  w_set_domain :: "(job \<Rightarrow> job_state \<Rightarrow> 'd \<Rightarrow> string + 'd) option"
  w_check_cancel :: "(job \<Rightarrow> 'd \<Rightarrow> string option) option"

type_synonym 'd registry = "job_kind \<Rightarrow> 'd worker option"

definition registered_kinds :: "'d registry \<Rightarrow> job_kind list" where
  "registered_kinds reg = filter (\<lambda>k. reg k \<noteq> None) job_kind_values"

record 'd jobdb =
  db_jobs :: jobs
  db_keys :: "idem_key list"
  db_domain :: 'd

type_synonym 'd commit = "job_state \<Rightarrow> 'd \<Rightarrow> string + 'd"

definition domain_error :: "string + 'd \<Rightarrow> jobs_error + 'd" where
  "domain_error r = (case r of Inl m \<Rightarrow> Inl (ErrDomain m) | Inr d \<Rightarrow> Inr d)"

definition commit_domain :: "'d registry \<Rightarrow> job \<Rightarrow> job_state \<Rightarrow> 'd \<Rightarrow> jobs_error + 'd" where
  "commit_domain reg j st d =
     (case reg (j_kind j) of
        None \<Rightarrow> Inr d
      | Some w \<Rightarrow> (case w_set_domain w of
          None \<Rightarrow> Inr d
        | Some f \<Rightarrow> domain_error (f j st d)))"

section \<open>Enqueue\<close>

record idempotency =
  i_key :: string
  i_route :: string
  i_fingerprint :: string

text \<open>
  \<open>e_params\<close> is what \<open>marshalJSON\<close> makes of the parameters, its error on the left; a zero
  \<open>RunAfter\<close> is \<open>None\<close>; \<open>e_id\<close> is the ULID \<open>store.NewID\<close> draws.
\<close>

record 'd enqueue_params =
  e_id :: string
  e_kind :: job_kind
  e_domain_id :: string
  e_priority :: int
  e_max_attempts :: int
  e_run_after :: "unix_ms option"
  e_params :: "string + string option"
  e_idempotency :: "idempotency option"
  e_domain :: "(job \<Rightarrow> 'd \<Rightarrow> string + 'd) option"

definition DefaultPriority :: int where "DefaultPriority = 100"

definition new_job ::
    "'d enqueue_params \<Rightarrow> subject_type \<Rightarrow> string \<Rightarrow> string option \<Rightarrow> unix_ms \<Rightarrow> job" where
  "new_job p t i params now =
     \<lparr>j_id = e_id p, j_kind = e_kind p, j_subject_type = t, j_subject_id = i,
      j_state = JobQueued,
      j_priority = (if e_priority p = 0 then DefaultPriority else e_priority p),
      j_run_after = (case e_run_after p of None \<Rightarrow> now | Some r \<Rightarrow> r),
      j_attempts = 0,
      j_max_attempts = (if e_max_attempts p \<le> 0 then 1 else e_max_attempts p),
      j_lease_owner = None, j_lease_expires_at = None, j_cancel_requested = False,
      j_idempotency_key = map_option i_key (e_idempotency p),
      j_progress_json = None, j_params_json = params, j_error_code = None,
      j_error_message = None, j_created_at = now, j_started_at = None, j_finished_at = None\<rparr>"

text \<open>The replay lookup: \<open>Some\<close> is the job to answer with, \<open>None\<close> a miss.\<close>

definition replay_lookup ::
    "idempotency option \<Rightarrow> unix_ms \<Rightarrow> 'd jobdb \<Rightarrow> jobs_error + job option" where
  "replay_lookup idem now s =
     (case idem of
        None \<Rightarrow> Inr None
      | Some k \<Rightarrow>
          if i_key k = [] then Inl ErrEmptyKey
          else case live_idempotency_key (i_key k) now (db_keys s) of
                 Inr hit \<Rightarrow>
                   if k_route hit \<noteq> i_route k \<or> k_fingerprint hit \<noteq> i_fingerprint k
                   then Inl (ErrKeyReused hit)
                   else bind_res (job_row (k_job_id hit) (db_jobs s)) (\<lambda>j. Inr (Some j))
               | Inl _ \<Rightarrow> Inr None)"

definition insert_with_collision ::
    "(string \<Rightarrow> bool) \<Rightarrow> job \<Rightarrow> jobs \<Rightarrow> jobs_error + jobs" where
  "insert_with_collision json_ok j js =
     (case insert_job json_ok j js of
        Inr js' \<Rightarrow> Inr js'
      | Inl e \<Rightarrow> (case live_job_for_subject (j_subject_type j) (j_subject_id j) js of
                   Inr x \<Rightarrow> Inl (ErrJobInFlight x) | Inl _ \<Rightarrow> Inl e))"

text \<open>The result pairs the job with the flag \<open>Replayed\<close>.\<close>

definition enqueue_tx ::
    "(string \<Rightarrow> bool) \<Rightarrow> 'd enqueue_params \<Rightarrow> unix_ms \<Rightarrow> 'd jobdb
     \<Rightarrow> jobs_error + 'd jobdb \<times> (job \<times> bool)" where
  "enqueue_tx json_ok p now s =
     (case subject_for (e_kind p) (e_domain_id p) of
        None \<Rightarrow> Inl ErrUnknownKind
      | Some (t, i) \<Rightarrow>
          if i = [] then Inl ErrMissingSubject
          else bind_res (replay_lookup (e_idempotency p) now s) (\<lambda>hit.
            case hit of
              Some j \<Rightarrow> Inr (s, (j, True))
            | None \<Rightarrow>
                (case e_params p of
                   Inl m \<Rightarrow> Inl (ErrDomain m)
                 | Inr params \<Rightarrow>
                     let j = new_job p t i params now
                     in bind_res (insert_with_collision json_ok j (db_jobs s)) (\<lambda>js.
                        bind_res (case e_idempotency p of
                                    None \<Rightarrow> Inr (db_keys s)
                                  | Some k \<Rightarrow> insert_idempotency_key
                                      \<lparr>k_key = i_key k, k_route = i_route k,
                                       k_fingerprint = i_fingerprint k, k_job_id = j_id j,
                                       k_created_at = now,
                                       k_expires_at = now + IdempotencyWindow\<rparr>
                                      now js (db_keys s)) (\<lambda>ks.
                        bind_res (case e_domain p of
                                    None \<Rightarrow> Inr (db_domain s)
                                  | Some f \<Rightarrow> domain_error (f j (db_domain s))) (\<lambda>d.
                        Inr (\<lparr>db_jobs = js, db_keys = ks, db_domain = d\<rparr>, (j, False))))))))"

section \<open>Cancel, retry, pause and resume\<close>

definition guard_refusal :: "'d registry \<Rightarrow> job \<Rightarrow> 'd \<Rightarrow> string option" where
  "guard_refusal reg j d =
     (case reg (j_kind j) of
        None \<Rightarrow> None
      | Some w \<Rightarrow> (case w_check_cancel w of None \<Rightarrow> None | Some g \<Rightarrow> g j d))"

definition held_here :: "string \<Rightarrow> job \<Rightarrow> bool" where
  "held_here boot j \<longleftrightarrow> holds_lease (j_state j) \<and> j_lease_owner j = Some boot"

definition cancel_tx ::
    "'d registry \<Rightarrow> string \<Rightarrow> string \<Rightarrow> unix_ms \<Rightarrow> 'd jobdb \<Rightarrow> jobs_error + 'd jobdb \<times> job" where
  "cancel_tx reg boot i now s =
     bind_res (job_row i (db_jobs s)) (\<lambda>j.
       if is_terminal (j_state j) then Inl ErrNotCancelable
       else case guard_refusal reg j (db_domain s) of
              Some m \<Rightarrow> Inl (ErrGuard m)
            | None \<Rightarrow>
                bind_res (request_job_cancel i (db_jobs s)) (\<lambda>(js, _).
                  let j1 = j\<lparr>j_cancel_requested := True\<rparr>
                  in if held_here boot j1 then Inr (s\<lparr>db_jobs := js\<rparr>, j1)
                     else bind_res (finish_job i JobCanceled None None now js) (\<lambda>js2.
                          bind_res (commit_domain reg j1 JobCanceled (db_domain s)) (\<lambda>d.
                          Inr (s\<lparr>db_jobs := js2, db_domain := d\<rparr>,
                               drop_lease (j1\<lparr>j_state := JobCanceled,
                                              j_finished_at := Some now\<rparr>))))))"

definition retry_tx ::
    "'d registry \<Rightarrow> string \<Rightarrow> unix_ms \<Rightarrow> 'd jobdb \<Rightarrow> jobs_error + 'd jobdb \<times> job" where
  "retry_tx reg i now s =
     bind_res (job_row i (db_jobs s)) (\<lambda>j.
     bind_res (retry_job i now (db_jobs s)) (\<lambda>(js, ok).
       if \<not> ok then Inl ErrNotRetryable
       else bind_res (commit_domain reg j JobQueued (db_domain s)) (\<lambda>d.
            bind_res (job_row i js) (\<lambda>out.
            Inr (s\<lparr>db_jobs := js, db_domain := d\<rparr>, out)))))"

definition set_live_state_tx ::
    "'d registry \<Rightarrow> string \<Rightarrow> job_state \<Rightarrow> 'd commit option \<Rightarrow> 'd jobdb
     \<Rightarrow> jobs_error + 'd jobdb \<times> unit" where
  "set_live_state_tx reg i st domain s =
     bind_res (job_row i (db_jobs s)) (\<lambda>j.
       if is_terminal (j_state j) then Inl ErrNotCancelable
       else bind_res (set_job_state i st (db_jobs s)) (\<lambda>js.
            bind_res (case domain of
                        Some f \<Rightarrow> domain_error (f st (db_domain s))
                      | None \<Rightarrow> commit_domain reg j st (db_domain s)) (\<lambda>d.
            Inr (s\<lparr>db_jobs := js, db_domain := d\<rparr>, ()))))"

definition pause_tx ::
    "'d registry \<Rightarrow> string \<Rightarrow> 'd commit option \<Rightarrow> 'd jobdb \<Rightarrow> jobs_error + 'd jobdb \<times> unit" where
  "pause_tx reg i domain s = set_live_state_tx reg i JobPaused domain s"

definition resume_tx ::
    "'d registry \<Rightarrow> string \<Rightarrow> 'd commit option \<Rightarrow> 'd jobdb \<Rightarrow> jobs_error + 'd jobdb \<times> unit" where
  "resume_tx reg i domain s = set_live_state_tx reg i JobQueued domain s"

section \<open>Boot triage\<close>

fun triage_loop ::
    "'d registry \<Rightarrow> unix_ms \<Rightarrow> job list \<Rightarrow> 'd jobdb
     \<Rightarrow> jobs_error + 'd jobdb \<times> (job \<times> job_state) list" where
  "triage_loop reg at [] s = Inr (s, [])"
| "triage_loop reg at (j # os) s =
     bind_res (triage_orphaned_job j at (db_jobs s)) (\<lambda>(js, st).
     bind_res (commit_domain reg j st (db_domain s)) (\<lambda>d.
     bind_res (triage_loop reg at os (s\<lparr>db_jobs := js, db_domain := d\<rparr>)) (\<lambda>(s', out).
     Inr (s', (j, st) # out))))"

definition recover_orphans_tx ::
    "'d registry \<Rightarrow> string \<Rightarrow> unix_ms \<Rightarrow> 'd jobdb
     \<Rightarrow> jobs_error + 'd jobdb \<times> (job \<times> job_state) list" where
  "recover_orphans_tx reg boot at s = triage_loop reg at (orphaned_jobs boot (db_jobs s)) s"

definition release_leases_tx ::
    "string \<Rightarrow> unix_ms \<Rightarrow> 'd jobdb \<Rightarrow> jobs_error + 'd jobdb \<times> nat" where
  "release_leases_tx boot at s =
     bind_res (expire_job_leases boot at (db_jobs s)) (\<lambda>(js, n). Inr (s\<lparr>db_jobs := js\<rparr>, n))"

section \<open>A task: claim, start, heartbeat, finish\<close>

record task =
  t_job :: job
  t_cancel_requested :: bool
  t_lease_lost :: bool

record queue_config =
  q_boot :: string
  q_lease_ttl :: int
  q_poll_every :: int

text \<open>With no registered kind nothing is claimed; an idle queue answers no task.\<close>

definition claim ::
    "queue_config \<Rightarrow> 'd registry \<Rightarrow> unix_ms \<Rightarrow> 'd jobdb \<Rightarrow> 'd jobdb \<times> (jobs_error + task option)" where
  "claim cfg reg now s =
     (if registered_kinds reg = [] then (s, Inr None)
      else case lease_next_job \<lparr>p_owner = q_boot cfg, p_kinds = registered_kinds reg,
                   p_now = now, p_lease_expires_at = now + q_lease_ttl cfg\<rparr> (db_jobs s) of
             Inr (js, j) \<Rightarrow> (s\<lparr>db_jobs := js\<rparr>,
                 Inr (Some \<lparr>t_job = j, t_cancel_requested = False, t_lease_lost = False\<rparr>))
           | Inl e \<Rightarrow> (s, if e = ErrNotFound then Inr None else Inl e))"

text \<open>How the start transaction ends when it commits.\<close>

datatype start_outcome_tx = Started job | NotStarted | CanceledBeforeStart | DeferFor int

definition start_tx ::
    "queue_config \<Rightarrow> 'd registry \<Rightarrow> task \<Rightarrow> unix_ms \<Rightarrow> 'd jobdb
     \<Rightarrow> jobs_error + 'd jobdb \<times> start_outcome_tx" where
  "start_tx cfg reg t now s =
     bind_res (job_row (j_id (t_job t)) (db_jobs s)) (\<lambda>cur.
       if j_state cur \<noteq> JobLeased \<or> j_lease_owner cur \<noteq> Some (q_boot cfg)
       then Inr (s, NotStarted)
       else if j_cancel_requested cur
       then bind_res (finish_job (j_id cur) JobCanceled None None now (db_jobs s)) (\<lambda>js.
            bind_res (commit_domain reg cur JobCanceled (db_domain s)) (\<lambda>d.
            Inr (s\<lparr>db_jobs := js, db_domain := d\<rparr>, CanceledBeforeStart)))
       else bind_res (start_job (j_id cur) (q_boot cfg) now (db_jobs s)) (\<lambda>(js, ok).
            if \<not> ok then Inr (s\<lparr>db_jobs := js\<rparr>, NotStarted)
            else let cur' = cur\<lparr>j_state := JobRunning,
                       j_started_at := (case j_started_at cur of None \<Rightarrow> Some now | Some x \<Rightarrow> Some x)\<rparr>
                 in case Option.bind (reg (j_kind cur)) w_start of
                      None \<Rightarrow> Inr (s\<lparr>db_jobs := js\<rparr>, Started cur')
                    | Some f \<Rightarrow> (case f cur' (db_domain s) of
                        StartOk d \<Rightarrow> Inr (s\<lparr>db_jobs := js, db_domain := d\<rparr>, Started cur')
                      | StartDefer a \<Rightarrow> Inr (s, DeferFor a)
                      | StartError m \<Rightarrow> Inl (ErrDomain m))))"

definition defer_tx ::
    "queue_config \<Rightarrow> string \<Rightarrow> int \<Rightarrow> unix_ms \<Rightarrow> 'd jobdb \<Rightarrow> jobs_error + 'd jobdb \<times> unit" where
  "defer_tx cfg i after now s =
     bind_res (defer_job i (now + (if after \<le> 0 then q_poll_every cfg else after)) (db_jobs s))
       (\<lambda>js. Inr (s\<lparr>db_jobs := js\<rparr>, ()))"

text \<open>
  One tick of \<open>heartbeat\<close>: the lease is extended, \<open>cancel_requested\<close> is read, and a row that
  is no longer this boot's marks the lease as lost.
\<close>

definition heartbeat ::
    "queue_config \<Rightarrow> task \<Rightarrow> unix_ms \<Rightarrow> 'd jobdb \<Rightarrow> 'd jobdb \<times> task" where
  "heartbeat cfg t now s =
     (case touch_job_lease (j_id (t_job t)) (q_boot cfg) (now + q_lease_ttl cfg) (db_jobs s) of
        Inr (js, c) \<Rightarrow>
          (s\<lparr>db_jobs := js\<rparr>, t\<lparr>t_cancel_requested := t_cancel_requested t \<or> c\<rparr>)
      | Inl e \<Rightarrow> (s, if e = ErrNotFound then t\<lparr>t_lease_lost := True\<rparr> else t))"

text \<open>
  What a worker returns. The empty Go state is \<open>None\<close>; a bare error is a deferral, one that
  \<open>errors.Is\<close> recognises as \<open>context.Canceled\<close>, or another one with its text.
\<close>

record 'd outcome =
  o_state :: "job_state option"
  o_error_code :: string
  o_error_message :: string
  o_retryable :: bool
  o_after :: int
  o_commit :: "'d commit option"

datatype run_error = RunDeferral int | RunCanceled string | RunOther string

fun run_error_text :: "run_error \<Rightarrow> string" where
  "run_error_text (RunDeferral _) = []"
| "run_error_text (RunCanceled m) = m"
| "run_error_text (RunOther m) = m"

definition empty_outcome :: "'d outcome" where
  "empty_outcome = \<lparr>o_state = None, o_error_code = [], o_error_message = [],
     o_retryable = False, o_after = 0, o_commit = None\<rparr>"

definition retryable_failure :: "string \<Rightarrow> string \<Rightarrow> 'd commit option \<Rightarrow> 'd outcome" where
  "retryable_failure code msg c = empty_outcome\<lparr>o_state := Some JobFailed,
     o_error_code := code, o_error_message := msg, o_retryable := True, o_commit := c\<rparr>"

definition canceled_outcome :: "'d commit option \<Rightarrow> 'd outcome" where
  "canceled_outcome c = empty_outcome\<lparr>o_state := Some JobCanceled, o_commit := c\<rparr>"

definition deferred :: "int \<Rightarrow> 'd outcome" where
  "deferred d = empty_outcome\<lparr>o_state := Some JobQueued, o_after := d\<rparr>"

definition CodeInternalError :: string where "CodeInternalError = ''internal_error''"

definition str_ptr :: "string \<Rightarrow> string option" where
  "str_ptr s = (if s = [] then None else Some s)"

text \<open>
  The disposition the closing write is asked for; \<open>None\<close> leaves the row \<open>running\<close> for the next
  boot. \<open>shutting\<close> is \<open>ctx.Err() != nil\<close>.
\<close>

definition resolve_outcome ::
    "task \<Rightarrow> bool \<Rightarrow> 'd outcome \<Rightarrow> run_error option \<Rightarrow> 'd outcome option" where
  "resolve_outcome t shutting out err =
     (let named = (\<lambda>o1. if o_state o1 = None then o1\<lparr>o_state := Some JobSucceeded\<rparr> else o1)
      in case err of
           None \<Rightarrow> Some (named out)
         | Some (RunDeferral d) \<Rightarrow> Some (deferred d)
         | Some (RunCanceled m) \<Rightarrow>
             if t_cancel_requested t then Some (canceled_outcome (o_commit out))
             else if shutting then None
             else Some (retryable_failure CodeInternalError m (o_commit out))
         | Some (RunOther m) \<Rightarrow> Some (retryable_failure CodeInternalError m (o_commit out)))"

definition commit_outcome ::
    "'d registry \<Rightarrow> job \<Rightarrow> 'd outcome \<Rightarrow> job_state \<Rightarrow> 'd \<Rightarrow> jobs_error + 'd" where
  "commit_outcome reg j out st d =
     (case o_commit out of Some f \<Rightarrow> domain_error (f st d) | None \<Rightarrow> commit_domain reg j st d)"

definition close_tx ::
    "queue_config \<Rightarrow> 'd registry \<Rightarrow> task \<Rightarrow> 'd outcome \<Rightarrow> unix_ms \<Rightarrow> 'd jobdb
     \<Rightarrow> jobs_error + 'd jobdb \<times> unit" where
  "close_tx cfg reg t out now s =
     (let j = t_job t; st = (case o_state out of None \<Rightarrow> JobSucceeded | Some x \<Rightarrow> x)
      in if st = JobQueued then
           bind_res (defer_job (j_id j)
               (now + (if o_after out \<le> 0 then q_poll_every cfg else o_after out)) (db_jobs s))
             (\<lambda>js. Inr (s\<lparr>db_jobs := js\<rparr>, ()))
         else if st = JobFailed \<and> o_retryable out \<and> j_attempts j < j_max_attempts j then
           bind_res (requeue_job (j_id j) (now + job_backoff (j_attempts j))
               (str_ptr (o_error_code out)) (str_ptr (o_error_message out)) (db_jobs s)) (\<lambda>js.
           bind_res (commit_outcome reg j out JobQueued (db_domain s)) (\<lambda>d.
           Inr (s\<lparr>db_jobs := js, db_domain := d\<rparr>, ())))
         else if \<not> is_terminal st then Inl ErrNonTerminalOutcome
         else
           bind_res (finish_job (j_id j) st (str_ptr (o_error_code out))
               (str_ptr (o_error_message out)) now (db_jobs s)) (\<lambda>js.
           bind_res (commit_outcome reg j out st (db_domain s)) (\<lambda>d.
           Inr (s\<lparr>db_jobs := js, db_domain := d\<rparr>, ()))))"

definition recover_unclosed_tx ::
    "'d registry \<Rightarrow> task \<Rightarrow> string \<Rightarrow> unix_ms \<Rightarrow> 'd jobdb \<Rightarrow> jobs_error + 'd jobdb \<times> unit" where
  "recover_unclosed_tx reg t cause now s =
     (let i = j_id (t_job t);
          triage = job_boot_triage (j_kind (t_job t));
          st = (if triage = Some JobQueued \<or> triage = Some JobInterrupted
                then the triage else JobFailed)
      in bind_res
           (if st = JobQueued then defer_job i now (db_jobs s)
            else if st = JobInterrupted then set_job_state i JobInterrupted (db_jobs s)
            else finish_job i JobFailed (str_ptr CodeInternalError) (str_ptr cause) now (db_jobs s))
           (\<lambda>js. bind_res (commit_domain reg (t_job t) st (db_domain s)) (\<lambda>d.
                 Inr (s\<lparr>db_jobs := js, db_domain := d\<rparr>, ()))))"

text \<open>
  The transactions of one call are numbered: \<open>w n\<close> says whether the store carries the \<open>n\<close>-th one
  out, or fails before its commit.
\<close>

type_synonym writes = "nat \<Rightarrow> bool"

definition all_written :: writes where "all_written n = True"

definition stored :: "bool \<Rightarrow> jobs_error + 'a \<Rightarrow> jobs_error + 'a" where
  "stored ok r = (if ok then r else Inl (ErrDomain ''store''))"

text \<open>
  \<open>finish\<close>: the outcome of a lost lease is dropped; a closing write that fails is followed by
  the recovery write. \<open>cls\<close> says what \<open>errors.Is\<close> and \<open>Error()\<close> make of a failure of the store.
\<close>

definition finish ::
    "(jobs_error \<Rightarrow> run_error) \<Rightarrow> queue_config \<Rightarrow> 'd registry \<Rightarrow> task \<Rightarrow> bool \<Rightarrow> writes \<Rightarrow> 'd outcome
     \<Rightarrow> run_error option \<Rightarrow> unix_ms \<Rightarrow> 'd jobdb \<Rightarrow> 'd jobdb" where
  "finish cls cfg reg t shutting w out err now s =
     (if t_lease_lost t then s
      else case resolve_outcome t shutting out err of
             None \<Rightarrow> s
           | Some o1 \<Rightarrow> (case stored (w 0) (close_tx cfg reg t o1 now s) of
               Inr (s', _) \<Rightarrow> s'
             | Inl e \<Rightarrow> fst (transact
                   (\<lambda>s. stored (w 1) (recover_unclosed_tx reg t (run_error_text (cls e)) now s)) s)))"

lemma stored_Inr [simp]: "stored ok r = Inr a \<longleftrightarrow> ok \<and> r = Inr a"
  by (simp add: stored_def)

lemma stored_True [simp]: "stored True r = r"
  by (simp add: stored_def)

end
