(* ===== verification/Job_Engine.thy ===== *)
theory Job_Engine
  imports Job_Queue
begin

text \<open>
  The engine as a machine: the tables, and the concurrency slots of \<open>Queue.Run\<close> with the task
  each holds. Every transaction of the source is one event, so a run is an arbitrary
  interleaving of requests, runners and heartbeats. A failed transaction leaves the state as
  it was; its error goes to the caller or the log.
\<close>

section \<open>State and events\<close>

record slot =
  s_task :: task
  s_running :: bool

record 'd engine =
  e_db :: "'d jobdb"
  e_slots :: "nat \<Rightarrow> slot option"

datatype 'd event =
    EvEnqueue "'d enqueue_params" unix_ms
  | EvCancel string unix_ms
  | EvRetry string unix_ms
  | EvPause string "'d commit option"
  | EvResume string "'d commit option"
  | EvRecover unix_ms
  | EvRelease unix_ms
  | EvProgress string string
  | EvClaim nat unix_ms
  | EvStart nat bool writes unix_ms
  | EvHeartbeat nat unix_ms
  | EvFinish nat bool writes "'d outcome" "run_error option" unix_ms

definition put_db :: "'d engine \<Rightarrow> 'd jobdb \<Rightarrow> 'd engine" where
  "put_db s d = s\<lparr>e_db := d\<rparr>"

definition put_slot :: "nat \<Rightarrow> slot option \<Rightarrow> 'd engine \<Rightarrow> 'd engine" where
  "put_slot n v s = s\<lparr>e_slots := (e_slots s)(n := v)\<rparr>"

text \<open>
  \<open>execute\<close> up to the worker's \<open>Run\<close>: the table after the start, and the slot, empty when
  nothing runs.
\<close>

definition begin_task ::
    "(jobs_error \<Rightarrow> run_error) \<Rightarrow> queue_config \<Rightarrow> 'd registry \<Rightarrow> task \<Rightarrow> bool \<Rightarrow> writes \<Rightarrow> unix_ms
     \<Rightarrow> 'd jobdb \<Rightarrow> 'd jobdb \<times> slot option" where
  "begin_task cls cfg reg t shutting w now s =
     (case reg (j_kind (t_job t)) of
        None \<Rightarrow>
          (fst (transact (\<lambda>s. stored (w 0) (defer_tx cfg (j_id (t_job t)) (q_poll_every cfg) now s)) s), None)
      | Some _ \<Rightarrow>
          (case stored (w 0) (start_tx cfg reg t now s) of
             Inl e \<Rightarrow> (finish cls cfg reg t shutting (\<lambda>n. w (Suc n)) empty_outcome (Some (cls e)) now s, None)
           | Inr (s', Started j) \<Rightarrow>
               (s', Some \<lparr>s_task = t\<lparr>t_job := j\<rparr>, s_running = True\<rparr>)
           | Inr (s', DeferFor a) \<Rightarrow>
               (case stored (w 1) (defer_tx cfg (j_id (t_job t)) a now s') of
                  Inl e \<Rightarrow> (finish cls cfg reg t shutting (\<lambda>n. w (Suc (Suc n))) empty_outcome (Some (cls e)) now s', None)
                | Inr (s'', _) \<Rightarrow> (s'', None))
           | Inr (s', _) \<Rightarrow> (s', None)))"

fun job_step ::
    "(string \<Rightarrow> bool) \<Rightarrow> (jobs_error \<Rightarrow> run_error) \<Rightarrow> queue_config \<Rightarrow> 'd registry
     \<Rightarrow> 'd event \<Rightarrow> 'd engine \<Rightarrow> 'd engine" where
  "job_step json_ok cls cfg reg (EvEnqueue p now) s =
     put_db s (fst (transact (enqueue_tx json_ok p now) (e_db s)))"
| "job_step json_ok cls cfg reg (EvCancel i now) s =
     put_db s (fst (transact (cancel_tx reg (q_boot cfg) i now) (e_db s)))"
| "job_step json_ok cls cfg reg (EvRetry i now) s =
     put_db s (fst (transact (retry_tx reg i now) (e_db s)))"
| "job_step json_ok cls cfg reg (EvPause i domain) s =
     put_db s (fst (transact (pause_tx reg i domain) (e_db s)))"
| "job_step json_ok cls cfg reg (EvResume i domain) s =
     put_db s (fst (transact (resume_tx reg i domain) (e_db s)))"
| "job_step json_ok cls cfg reg (EvRecover now) s =
     put_db s (fst (transact (recover_orphans_tx reg (q_boot cfg) now) (e_db s)))"
| "job_step json_ok cls cfg reg (EvRelease now) s =
     put_db s (fst (transact (release_leases_tx (q_boot cfg) now) (e_db s)))"
| "job_step json_ok cls cfg reg (EvProgress i p) s =
     (case set_job_progress json_ok i (Some p) (db_jobs (e_db s)) of
        Inl e \<Rightarrow> s | Inr js \<Rightarrow> put_db s ((e_db s)\<lparr>db_jobs := js\<rparr>))"
| "job_step json_ok cls cfg reg (EvClaim n now) s =
     (case e_slots s n of
        Some _ \<Rightarrow> s
      | None \<Rightarrow> (case claim cfg reg now (e_db s) of
          (d, Inr (Some t)) \<Rightarrow> put_slot n (Some \<lparr>s_task = t, s_running = False\<rparr>) (put_db s d)
        | _ \<Rightarrow> s))"
| "job_step json_ok cls cfg reg (EvStart n shutting w now) s =
     (case e_slots s n of
        Some sl \<Rightarrow>
          if s_running sl then s
          else (case begin_task cls cfg reg (s_task sl) shutting w now (e_db s) of
                  (d, v) \<Rightarrow> put_slot n v (put_db s d))
      | None \<Rightarrow> s)"
| "job_step json_ok cls cfg reg (EvHeartbeat n now) s =
     (case e_slots s n of
        Some sl \<Rightarrow>
          if s_running sl
          then (case heartbeat cfg (s_task sl) now (e_db s) of
                  (d, t) \<Rightarrow> put_slot n (Some (sl\<lparr>s_task := t\<rparr>)) (put_db s d))
          else s
      | None \<Rightarrow> s)"
| "job_step json_ok cls cfg reg (EvFinish n shutting w out err now) s =
     (case e_slots s n of
        Some sl \<Rightarrow>
          if s_running sl
          then put_slot n None
                 (put_db s (finish cls cfg reg (s_task sl) shutting w out err now (e_db s)))
          else s
      | None \<Rightarrow> s)"

lemma put_simps [simp, state_simps]:
  "e_db (put_db s d) = d" "e_slots (put_db s d) = e_slots s"
  "e_db (put_slot n v s) = e_db s" "e_slots (put_slot n v s) = (e_slots s)(n := v)"
  by (simp_all add: put_db_def put_slot_def)

section \<open>The table invariant over all runs\<close>

lemma new_job_row_ok: "job_kind_valid (e_kind p) \<Longrightarrow> row_ok (new_job p t i params now)"
  by (simp add: row_ok_def new_job_def)

lemma enqueue_tx_ok [inv_intros]:
  assumes "jobs_ok (db_jobs s)" and "enqueue_tx json_ok p now s = Inr (s', r)"
  shows "jobs_ok (db_jobs s')"
proof -
  have ins: "jobs_ok js'" if "insert_with_collision json_ok (new_job p t i params now) js = Inr js'"
    and "jobs_ok js" for t i params js js'
  proof -
    from that(1) have i: "insert_job json_ok (new_job p t i params now) js = Inr js'"
      by (auto simp: insert_with_collision_def split: sum.splits)
    then have "job_kind_valid (e_kind p)"
      by (auto simp: insert_job_def new_job_def split: if_splits)
    with i that(2) show ?thesis by (blast intro: insert_job_ok new_job_row_ok)
  qed
  show ?thesis
    using assms
    by (auto simp: enqueue_tx_def Let_def bind_Inr
        split: option.splits prod.splits if_splits sum.splits) (blast intro: ins)+
qed

lemma cancel_tx_ok [inv_intros]:
  assumes "jobs_ok (db_jobs s)" and "cancel_tx reg boot i now s = Inr (s', r)"
  shows "jobs_ok (db_jobs s')"
  using assms
  by (auto simp: cancel_tx_def Let_def bind_Inr
      intro: request_job_cancel_ok finish_job_ok
      split: option.splits prod.splits if_splits)

lemma retry_tx_ok [inv_intros]:
  assumes "jobs_ok (db_jobs s)" and "retry_tx reg i now s = Inr (s', r)"
  shows "jobs_ok (db_jobs s')"
  using assms
  by (auto simp: retry_tx_def bind_Inr intro: retry_job_ok split: prod.splits if_splits)

lemma set_live_state_tx_ok [inv_intros]:
  assumes "jobs_ok (db_jobs s)" and "\<not> holds_lease st"
    and "set_live_state_tx reg i st domain s = Inr (s', r)"
  shows "jobs_ok (db_jobs s')"
  using assms
  by (auto simp: set_live_state_tx_def bind_Inr intro: set_job_state_ok
      split: if_splits)

lemma triage_loop_ok:
  "triage_loop reg at os s = Inr (s', out) \<Longrightarrow> jobs_ok (db_jobs s) \<Longrightarrow> jobs_ok (db_jobs s')"
  by (induction os arbitrary: s s' out)
    (fastforce simp: bind_Inr intro: triage_orphaned_job_ok split: prod.splits)+

lemma release_leases_tx_ok [inv_intros]:
  assumes "jobs_ok (db_jobs s)" and "release_leases_tx boot at s = Inr (s', r)"
  shows "jobs_ok (db_jobs s')"
  using assms
  by (auto simp: release_leases_tx_def bind_Inr intro: expire_job_leases_ok
      split: prod.splits)

lemma claim_ok [inv_intros]:
  assumes "jobs_ok (db_jobs s)" and "claim cfg reg now s = (s', r)"
  shows "jobs_ok (db_jobs s')"
  using assms by (auto simp: claim_def intro: lease_next_job_ok split: if_splits sum.splits)

text \<open>The ways the start transaction commits.\<close>

lemma start_tx_cases:
  assumes "start_tx cfg reg t now s = Inr (s', r)"
  obtains (taken) "r = NotStarted" and "s' = s"
  | (raced) "r = NotStarted"
      and "start_job (j_id (t_job t)) (q_boot cfg) now (db_jobs s) = Inr (db_jobs s', False)"
  | (canceled) "r = CanceledBeforeStart"
      and "finish_job (j_id (t_job t)) JobCanceled None None now (db_jobs s) = Inr (db_jobs s')"
  | (deferral) a where "r = DeferFor a" and "s' = s"
  | (started) cur where "job_row (j_id (t_job t)) (db_jobs s) = Inr cur"
      and "r = Started (cur\<lparr>j_state := JobRunning,
             j_started_at := (case j_started_at cur of None \<Rightarrow> Some now | Some x \<Rightarrow> Some x)\<rparr>)"
      and "start_job (j_id (t_job t)) (q_boot cfg) now (db_jobs s) = Inr (db_jobs s', True)"
proof -
  from assms obtain cur where cur: "job_row (j_id (t_job t)) (db_jobs s) = Inr cur"
    by (auto simp: start_tx_def bind_res_eq_Inr)
  then have i: "j_id cur = j_id (t_job t)" by (simp add: job_row_Inr)
  consider (t) "j_state cur \<noteq> JobLeased \<or> j_lease_owner cur \<noteq> Some (q_boot cfg)"
    | (c) "\<not> (j_state cur \<noteq> JobLeased \<or> j_lease_owner cur \<noteq> Some (q_boot cfg))"
        "j_cancel_requested cur"
    | (s) "\<not> (j_state cur \<noteq> JobLeased \<or> j_lease_owner cur \<noteq> Some (q_boot cfg))"
        "\<not> j_cancel_requested cur"
    by blast
  then show thesis
  proof cases
    case t
    with assms cur show thesis by (intro taken) (simp_all add: start_tx_def)
  next
    case c
    with assms cur i show thesis by (intro canceled) (auto simp: start_tx_def bind_res_eq_Inr)
  next
    case s
    with assms cur obtain js ok
      where st: "start_job (j_id cur) (q_boot cfg) now (db_jobs s) = Inr (js, ok)"
      by (cases "start_job (j_id cur) (q_boot cfg) now (db_jobs s)") (auto simp: start_tx_def)
    show thesis
    proof (cases ok)
      case False
      with assms cur i s st show thesis by (intro raced) (auto simp: start_tx_def)
    next
      case True
      define f where "f = Option.bind (reg (j_kind cur)) w_start"
      from assms cur s st True have r: "(case f of
            None \<Rightarrow> Inr (s\<lparr>db_jobs := js\<rparr>, Started (cur\<lparr>j_state := JobRunning,
               j_started_at := (case j_started_at cur of None \<Rightarrow> Some now | Some x \<Rightarrow> Some x)\<rparr>))
          | Some f \<Rightarrow> (case f (cur\<lparr>j_state := JobRunning,
               j_started_at := (case j_started_at cur of None \<Rightarrow> Some now | Some x \<Rightarrow> Some x)\<rparr>)
               (db_domain s) of
              StartOk d \<Rightarrow> Inr (s\<lparr>db_jobs := js, db_domain := d\<rparr>, Started (cur\<lparr>j_state := JobRunning,
               j_started_at := (case j_started_at cur of None \<Rightarrow> Some now | Some x \<Rightarrow> Some x)\<rparr>))
            | StartDefer a \<Rightarrow> Inr (s, DeferFor a)
            | StartError m \<Rightarrow> Inl (ErrDomain m))) = Inr (s', r)"
        by (simp add: start_tx_def Let_def f_def [symmetric])
      then show thesis
        using started [OF cur] deferral st True i
        by (auto split: option.splits start_result.splits simp del: option.case_eq_if)
    qed
  qed
qed

lemma start_tx_ok [inv_intros]:
  assumes "jobs_ok (db_jobs s)" and "start_tx cfg reg t now s = Inr (s', r)"
  shows "jobs_ok (db_jobs s')"
  using assms(2) by (cases rule: start_tx_cases)
    (use assms(1) in \<open>auto intro: finish_job_ok start_job_ok\<close>)

lemma defer_tx_ok [inv_intros]:
  assumes "jobs_ok (db_jobs s)" and "defer_tx cfg i after now s = Inr (s', r)"
  shows "jobs_ok (db_jobs s')"
  using assms by (auto simp: defer_tx_def bind_Inr intro: defer_job_ok)

lemma heartbeat_ok [inv_intros]:
  assumes "jobs_ok (db_jobs s)" and "heartbeat cfg t now s = (s', t')"
  shows "jobs_ok (db_jobs s')"
  using assms by (auto simp: heartbeat_def intro: touch_job_lease_ok split: sum.splits)

lemma close_tx_ok [inv_intros]:
  assumes "jobs_ok (db_jobs s)" and "close_tx cfg reg t out now s = Inr (s', r)"
  shows "jobs_ok (db_jobs s')"
  using assms
  by (auto simp: close_tx_def Let_def bind_Inr
      intro: defer_job_ok requeue_job_ok finish_job_ok split: if_splits)

lemma recover_unclosed_tx_ok [inv_intros]:
  assumes "jobs_ok (db_jobs s)" and "recover_unclosed_tx reg t cause now s = Inr (s', r)"
  shows "jobs_ok (db_jobs s')"
  using assms
  by (auto simp: recover_unclosed_tx_def Let_def bind_Inr
      intro: defer_job_ok finish_job_ok set_job_state_ok [where st = JobInterrupted]
      split: if_splits)

lemma finish_ok [inv_intros]:
  assumes "jobs_ok (db_jobs s)"
  shows "jobs_ok (db_jobs (finish cls cfg reg t shutting w out err now s))"
  using assms
  by (auto simp: finish_def intro: close_tx_ok recover_unclosed_tx_ok
      intro!: fst_transact_inv [where good = "\<lambda>s. jobs_ok (db_jobs s)"]
      split: option.splits sum.splits)

lemma begin_task_ok [inv_intros]:
  assumes "jobs_ok (db_jobs s)" and "begin_task cls cfg reg t shutting w now s = (s', v)"
  shows "jobs_ok (db_jobs s')"
  using assms
  by (auto simp: begin_task_def intro: defer_tx_ok
      intro!: fst_transact_inv [where good = "\<lambda>s. jobs_ok (db_jobs s)"] finish_ok
      split: option.splits sum.splits start_outcome_tx.splits)
    (blast intro: start_tx_ok defer_tx_ok)+

lemma job_step_ok:
  assumes "jobs_ok (db_jobs (e_db s))"
  shows "jobs_ok (db_jobs (e_db (job_step json_ok cls cfg reg ev s)))"
proof -
  note tx = fst_transact_inv [where good = "\<lambda>s. jobs_ok (db_jobs s)", OF assms]
  show ?thesis
  proof (cases ev)
    case (EvPause i domain)
    then show ?thesis
      by (auto simp: pause_tx_def intro!: tx
          intro: set_live_state_tx_ok [OF assms, where st = JobPaused])
  next
    case (EvResume i domain)
    then show ?thesis
      by (auto simp: resume_tx_def intro!: tx
          intro: set_live_state_tx_ok [OF assms, where st = JobQueued])
  next
    case (EvRecover now)
    then show ?thesis
      by (auto simp: recover_orphans_tx_def intro!: tx intro: triage_loop_ok [OF _ assms])
  next
    case (EvProgress i p)
    with assms show ?thesis by (auto intro: set_job_progress_ok split: sum.splits)
  next
    case (EvClaim n now)
    with assms show ?thesis
      by (auto intro: claim_ok split: option.splits prod.splits sum.splits)
  next
    case (EvStart n shutting w now)
    with assms show ?thesis by (auto intro: begin_task_ok split: option.splits prod.splits)
  next
    case (EvHeartbeat n now)
    with assms show ?thesis by (auto intro: heartbeat_ok split: option.splits prod.splits)
  next
    case (EvFinish n shutting w out err now)
    with assms show ?thesis by (auto intro: finish_ok split: option.splits)
  qed (auto intro!: tx intro: enqueue_tx_ok [OF assms] cancel_tx_ok [OF assms]
        retry_tx_ok [OF assms] release_leases_tx_ok [OF assms])
qed

interpretation je: machine "job_step json_ok cls cfg reg" "\<lambda>ev. True"
    "\<lambda>s. jobs_ok (db_jobs (e_db s))"
  by unfold_locales (rule job_step_ok)

definition empty_engine :: "'d \<Rightarrow> 'd engine" where
  "empty_engine d = \<lparr>e_db = \<lparr>db_jobs = [], db_keys = [], db_domain = d\<rparr>, e_slots = (\<lambda>_. None)\<rparr>"

lemma run_jobs_ok:
  "jobs_ok (db_jobs (e_db s)) \<Longrightarrow> jobs_ok (db_jobs (e_db (run (job_step json_ok cls cfg reg) evs s)))"
  by (rule je.run_inv) (simp_all add: list_all_iff)

text \<open>
  C8. The tables stay well formed in every run of the engine: whatever the interleaving of
  requests, claims, starts, heartbeats, endings and boot triage, and whatever the workers and
  their domain writers answer, ids are unique, at most one live job exists per subject, a row
  has an owner and a lease expiry exactly when it is leased or running, no attempt count is
  negative and every kind is a known one.
\<close>

theorem every_run_keeps_the_tables_well_formed:
  "jobs_ok (db_jobs (e_db (run (job_step json_ok cls cfg reg) evs (empty_engine d))))"
proof -
  have "jobs_ok (db_jobs (e_db (empty_engine d)))" by (simp add: empty_engine_def)
  then show ?thesis by (rule run_jobs_ok)
qed

end
