(* ===== verification/Job_Fencing.thy ===== *)
theory Job_Fencing
  imports Job_Engine
begin

text \<open>
  Who works on a job. A lease is owned by a boot, not by a runner, so the table alone does not
  keep two runners of one daemon apart: the theory shows that no two slots ever hold the same
  job as long as nothing is paused or resumed, and that a pause followed by a resume within one
  heartbeat interval puts two workers on one job.
\<close>

section \<open>Leases of this boot and what keeps them\<close>

definition held :: "string \<Rightarrow> string \<Rightarrow> jobs \<Rightarrow> bool" where
  "held boot i js \<longleftrightarrow> (\<exists>j \<in> set js. j_id j = i \<and> held_here boot j)"

definition keeps :: "string \<Rightarrow> string set \<Rightarrow> jobs \<Rightarrow> jobs \<Rightarrow> bool" where
  "keeps boot ks js js' \<longleftrightarrow> (\<forall>k. k \<notin> ks \<longrightarrow> held boot k js \<longrightarrow> held boot k js')"

lemma keeps_refl [simp, intro]: "keeps boot ks js js"
  by (simp add: keeps_def)

lemma keeps_trans: "keeps boot ks a b \<Longrightarrow> keeps boot ks b c \<Longrightarrow> keeps boot ks a c"
  by (simp add: keeps_def)

lemma keeps_not_held: "keeps boot {i} js js' \<Longrightarrow> \<not> held boot i js \<Longrightarrow> keeps boot {} js js'"
  by (auto simp: keeps_def)

lemma keeps_mono: "keeps boot {} js js' \<Longrightarrow> keeps boot ks js js'"
  by (simp add: keeps_def)

lemma keeps_update:
  assumes "sql_update p f js = Inr (js', n)"
    and "\<And>j. j \<in> set js \<Longrightarrow> p j \<Longrightarrow> held_here boot j \<Longrightarrow>
           j_id j \<in> ks \<or> (j_id (f j) = j_id j \<and> held_here boot (f j))"
  shows "keeps boot ks js js'"
  unfolding keeps_def
proof (intro allI impI)
  fix k
  assume k: "k \<notin> ks" and h: "held boot k js"
  then obtain j where j: "j \<in> set js" "j_id j = k" "held_here boot j"
    by (auto simp: held_def)
  from assms(1) have js': "js' = update_rows p f js" by (simp add: sql_update_Inr)
  show "held boot k js'"
  proof (cases "p j")
    case True
    with assms(2) [OF j(1) True j(3)] k j have "j_id (f j) = k \<and> held_here boot (f j)" by auto
    with True j show ?thesis by (auto simp: js' held_def set_update_rows)
  next
    case False
    with j show ?thesis by (auto simp: js' held_def set_update_rows)
  qed
qed

named_theorems keep_rules \<open>the leases a statement keeps\<close>

lemma finish_job_keeps [keep_rules]:
  "finish_job i st c m at js = Inr js' \<Longrightarrow> keeps boot {i} js js'"
  by (auto simp: finish_job_def bind_res_eq_Inr intro: keeps_update split: if_splits)

lemma requeue_job_keeps [keep_rules]:
  "requeue_job i t c m js = Inr js' \<Longrightarrow> keeps boot {i} js js'"
  by (auto simp: requeue_job_def bind_res_eq_Inr intro: keeps_update)

lemma defer_job_keeps [keep_rules]: "defer_job i t js = Inr js' \<Longrightarrow> keeps boot {i} js js'"
  by (auto simp: defer_job_def bind_res_eq_Inr intro: keeps_update)

lemma set_job_state_keeps [keep_rules]:
  "set_job_state i st js = Inr js' \<Longrightarrow> keeps boot {i} js js'"
  by (auto simp: set_job_state_def bind_res_eq_Inr intro: keeps_update split: if_splits)

lemma triage_orphaned_job_keeps:
  "triage_orphaned_job j at js = Inr (js', st) \<Longrightarrow> keeps boot {j_id j} js js'"
  by (auto simp: triage_orphaned_job_def bind_res_eq_Inr
      intro: keeps_update finish_job_keeps split: option.splits job_state.splits)

lemma retry_job_keeps [keep_rules]:
  "retry_job i t js = Inr (js', b) \<Longrightarrow> keeps boot {} js js'"
  unfolding retry_job_def bind_res_eq_Inr
  by (auto simp: held_here_def retryable_def intro!: keeps_update)

lemma request_job_cancel_keeps [keep_rules]:
  "request_job_cancel i js = Inr (js', b) \<Longrightarrow> keeps boot {} js js'"
  unfolding request_job_cancel_def bind_res_eq_Inr
  by (auto simp: held_here_def intro!: keeps_update)

lemma start_job_keeps [keep_rules]:
  "start_job i ow at js = Inr (js', b) \<Longrightarrow> keeps boot {} js js'"
  unfolding start_job_def bind_res_eq_Inr
  by (auto simp: held_here_def intro!: keeps_update)

lemma touch_job_lease_keeps [keep_rules]:
  "touch_job_lease i ow e js = Inr (js', b) \<Longrightarrow> keeps boot {} js js'"
  by (auto simp: touch_job_lease_def bind_res_eq_Inr split: option.splits)
    (erule keeps_update, simp add: held_here_def)+

lemma expire_job_leases_keeps [keep_rules]:
  "expire_job_leases ow at js = Inr (js', n) \<Longrightarrow> keeps boot {} js js'"
  unfolding expire_job_leases_def by (auto simp: held_here_def intro!: keeps_update)

lemma set_job_progress_keeps [keep_rules]:
  "set_job_progress json_ok i p js = Inr js' \<Longrightarrow> keeps boot {} js js'"
  by (auto simp: set_job_progress_def bind_res_eq_Inr held_here_def intro!: keeps_update
      split: if_splits)

lemma insert_job_keeps [keep_rules]:
  "insert_job json_ok j js = Inr js' \<Longrightarrow> keeps boot {} js js'"
  by (auto simp: insert_job_def keeps_def held_def split: if_splits)

text \<open>A claim keeps every lease and takes a row that no lease held.\<close>

lemma lease_next_job_takes:
  assumes ok: "jobs_ok js" and "lease_next_job p js = Inr (js', r)" and "p_owner p = boot"
  shows "keeps boot {} js js' \<and> held boot (j_id r) js' \<and> \<not> held boot (j_id r) js"
proof -
  from assms(2) obtain c cs n where c: "filter (leasable p) js = c # cs"
    and u: "sql_update (\<lambda>j. j_id j = j_id (arg_min_list lease_order (c # cs)))
              (take_lease p) js = Inr (js', n)"
    and r: "r = take_lease p (arg_min_list lease_order (c # cs))"
    by (auto simp: lease_next_job_def Let_def bind_res_eq_Inr split: list.splits)
  define w where "w = arg_min_list lease_order (c # cs)"
  have "w \<in> set (filter (leasable p) js)"
    unfolding w_def c using arg_min_list_correct [of "c # cs" lease_order] by simp
  then have w: "w \<in> set js" "j_state w = JobQueued" by (auto simp: leasable_def)
  have other: "\<not> held boot (j_id w) js"
    using w job_id_unique [OF ok] by (auto simp: held_def held_here_def) (metis holds_lease_simps(1))
  have "keeps boot {j_id w} js js'"
    using u unfolding w_def by (rule keeps_update) simp
  moreover have "held boot (j_id w) js'"
  proof -
    have "take_lease p w \<in> set js'"
      using u w(1) by (auto simp: sql_update_Inr set_update_rows simp flip: w_def)
    then show ?thesis
      unfolding held_def using assms(3) by (rule_tac x = "take_lease p w" in bexI)
        (simp_all add: held_here_def)
  qed
  ultimately show ?thesis
    using other keeps_not_held by (auto simp: r simp flip: w_def)
qed

lemma not_held_row:
  "jobs_ok js \<Longrightarrow> job_row i js = Inr j \<Longrightarrow> \<not> held_here boot j \<Longrightarrow> \<not> held boot i js"
  by (auto simp: held_def job_row_iff dest: job_id_unique)

section \<open>The transactions\<close>

lemma enqueue_tx_keeps: "enqueue_tx json_ok p now s = Inr (s', r) \<Longrightarrow>
    keeps boot {} (db_jobs s) (db_jobs s')"
  by (auto simp: enqueue_tx_def Let_def bind_Inr insert_with_collision_def
      split: option.splits prod.splits if_splits sum.splits) (blast intro: insert_job_keeps)+

lemma cancel_tx_keeps:
  assumes ok: "jobs_ok (db_jobs s)" and tx: "cancel_tx reg boot i now s = Inr (s', r)"
  shows "keeps boot {} (db_jobs s) (db_jobs s')"
proof -
  from tx obtain j js b where j: "job_row i (db_jobs s) = Inr j"
    and rc: "request_job_cancel i (db_jobs s) = Inr (js, b)"
    by (auto simp: cancel_tx_def Let_def bind_Inr split: if_splits option.splits)
  have hh: "held_here boot (j\<lparr>j_cancel_requested := True\<rparr>) \<longleftrightarrow> held_here boot j"
    by (simp add: held_here_def)
  have rest: "(held_here boot j \<and> db_jobs s' = js) \<or>
       (\<not> held_here boot j \<and> finish_job i JobCanceled None None now js = Inr (db_jobs s'))"
  proof (cases "held_here boot j")
    case True
    with tx j rc hh show ?thesis
      by (auto simp: cancel_tx_def Let_def split: if_splits option.splits)
  next
    case False
    with tx j rc hh show ?thesis
      by (auto simp: cancel_tx_def Let_def bind_Inr split: if_splits option.splits)
  qed
  note k = request_job_cancel_keeps [OF rc, of boot]
  from rest show ?thesis
  proof
    assume "\<not> held_here boot j \<and> finish_job i JobCanceled None None now js = Inr (db_jobs s')"
    then show ?thesis
      using k keeps_mono keeps_trans keeps_not_held not_held_row [OF ok j] finish_job_keeps
      by metis
  qed (use k in simp)
qed

lemma retry_tx_keeps:
  "retry_tx reg i now s = Inr (s', r) \<Longrightarrow> keeps boot {} (db_jobs s) (db_jobs s')"
  by (auto simp: retry_tx_def bind_Inr intro: retry_job_keeps split: if_splits)

lemma release_leases_tx_keeps:
  "release_leases_tx ow at s = Inr (s', r) \<Longrightarrow> keeps boot {} (db_jobs s) (db_jobs s')"
  by (auto simp: release_leases_tx_def bind_Inr intro: expire_job_leases_keeps)

text \<open>Boot triage touches rows of other boots only.\<close>

lemma triage_loop_keeps:
  assumes "triage_loop reg at os s = Inr (s', out)"
  shows "keeps boot (j_id ` set os) (db_jobs s) (db_jobs s')"
  using assms
proof (induction os arbitrary: s s' out)
  case Nil
  then show ?case by simp
next
  case (Cons j os)
  then obtain js st d s2 out2 where t: "triage_orphaned_job j at (db_jobs s) = Inr (js, st)"
    and l: "triage_loop reg at os (s\<lparr>db_jobs := js, db_domain := d\<rparr>) = Inr (s', out2)"
    by (auto simp: bind_Inr)
  from triage_orphaned_job_keeps [OF t, of boot] Cons.IH [OF l]
  show ?case by (auto simp: keeps_def)
qed

lemma recover_orphans_tx_keeps:
  assumes ok: "jobs_ok (db_jobs s)" and "recover_orphans_tx reg boot at s = Inr (s', r)"
  shows "keeps boot {} (db_jobs s) (db_jobs s')"
proof -
  from assms(2) have "keeps boot (j_id ` set (orphaned_jobs boot (db_jobs s))) (db_jobs s) (db_jobs s')"
    by (auto simp: recover_orphans_tx_def intro: triage_loop_keeps)
  moreover have "\<not> held boot k (db_jobs s)"
    if k: "k \<in> j_id ` set (orphaned_jobs boot (db_jobs s))" for k
  proof
    assume "held boot k (db_jobs s)"
    then obtain j where j: "j \<in> set (db_jobs s)" "j_id j = k" "held_here boot j"
      by (auto simp: held_def)
    from k obtain o1 where o1: "o1 \<in> set (db_jobs s)" "j_id o1 = k" "orphaned boot o1"
      by (auto simp: orphaned_jobs_def)
    from j o1 ok have "j = o1" by (auto dest: job_id_unique)
    with j o1 show False by (auto simp: held_here_def orphaned_def)
  qed
  ultimately show ?thesis by (auto simp: keeps_def)
qed

lemma start_tx_keeps:
  assumes "start_tx cfg reg t now s = Inr (s', r)"
  shows "keeps boot {j_id (t_job t)} (db_jobs s) (db_jobs s')"
  using assms by (cases rule: start_tx_cases)
    (auto intro: keeps_mono start_job_keeps finish_job_keeps)

lemma defer_tx_keeps:
  "defer_tx cfg i a now s = Inr (s', r) \<Longrightarrow> keeps boot {i} (db_jobs s) (db_jobs s')"
  by (auto simp: defer_tx_def bind_res_eq_Inr intro: defer_job_keeps)

lemma close_tx_keeps:
  "close_tx cfg reg t out now s = Inr (s', r) \<Longrightarrow>
   keeps boot {j_id (t_job t)} (db_jobs s) (db_jobs s')"
  by (auto simp: close_tx_def Let_def bind_res_eq_Inr intro: keep_rules split: if_splits)

lemma recover_unclosed_tx_keeps:
  "recover_unclosed_tx reg t cause now s = Inr (s', r) \<Longrightarrow>
   keeps boot {j_id (t_job t)} (db_jobs s) (db_jobs s')"
  by (auto simp: recover_unclosed_tx_def Let_def bind_res_eq_Inr intro: keep_rules
      split: if_splits)

lemma finish_keeps:
  "keeps boot {j_id (t_job t)} (db_jobs s)
     (db_jobs (finish cls cfg reg t shutting w out err now s))"
  by (auto simp: finish_def transact_def intro: close_tx_keeps recover_unclosed_tx_keeps
      split: option.splits sum.splits)

lemma heartbeat_keeps:
  "heartbeat cfg t now s = (s', t') \<Longrightarrow> keeps boot {} (db_jobs s) (db_jobs s')"
  by (auto simp: heartbeat_def intro: touch_job_lease_keeps split: sum.splits)

lemma begin_task_keeps:
  assumes "begin_task cls cfg reg t shutting w now s = (s', v)"
  shows "keeps boot {j_id (t_job t)} (db_jobs s) (db_jobs s')"
proof (cases "reg (j_kind (t_job t))")
  case None
  with assms show ?thesis
    by (auto simp: begin_task_def transact_def intro: defer_tx_keeps split: sum.splits)
next
  case (Some k)
  show ?thesis
  proof (cases "stored (w 0) (start_tx cfg reg t now s)")
    case (Inl e)
    with assms Some show ?thesis by (auto simp: begin_task_def intro: finish_keeps)
  next
    case (Inr p)
    then obtain s1 r where p: "start_tx cfg reg t now s = Inr (s1, r)" and w: "w 0" by (cases p) auto
    note k = start_tx_keeps [OF p, of boot]
    have "keeps boot {j_id (t_job t)} (db_jobs s1) (db_jobs s')"
      using assms Some p w
      by (auto simp: begin_task_def intro: finish_keeps defer_tx_keeps
          split: start_outcome_tx.splits sum.splits)
    with k show ?thesis by (rule keeps_trans)
  qed
qed

section \<open>Without pause and resume, one runner per job\<close>

definition slot_id :: "slot \<Rightarrow> string" where
  "slot_id sl = j_id (t_job (s_task sl))"

definition slots_exclusive :: "string \<Rightarrow> 'd engine \<Rightarrow> bool" where
  "slots_exclusive boot s \<longleftrightarrow>
     (\<forall>n x. e_slots s n = Some x \<longrightarrow> held boot (slot_id x) (db_jobs (e_db s)))
   \<and> (\<forall>n m x y. e_slots s n = Some x \<longrightarrow> e_slots s m = Some y \<longrightarrow> slot_id x = slot_id y \<longrightarrow> n = m)"

fun no_pause :: "'d event \<Rightarrow> bool" where
  "no_pause (EvPause _ _) = False"
| "no_pause (EvResume _ _) = False"
| "no_pause _ = True"

lemma exclusive_put_db:
  assumes "slots_exclusive boot s" and "keeps boot {} (db_jobs (e_db s)) (db_jobs d)"
  shows "slots_exclusive boot (put_db s d)"
  using assms by (fastforce simp: slots_exclusive_def keeps_def)

lemma exclusive_transact:
  assumes "slots_exclusive boot s"
    and "\<And>d r. f (e_db s) = Inr (d, r) \<Longrightarrow> keeps boot {} (db_jobs (e_db s)) (db_jobs d)"
  shows "slots_exclusive boot (put_db s (fst (transact f (e_db s))))"
  using assms by (auto simp: transact_def intro: exclusive_put_db split: sum.splits)

text \<open>A slot's own transaction may end its own lease, when the slot is emptied.\<close>

lemma exclusive_drop_slot:
  assumes ex: "slots_exclusive boot s" and n: "e_slots s n = Some sl"
    and k: "keeps boot {slot_id sl} (db_jobs (e_db s)) (db_jobs d)"
  shows "slots_exclusive boot (put_slot n None (put_db s d))"
proof -
  have "slot_id x \<noteq> slot_id sl" if "e_slots s m = Some x" "m \<noteq> n" for m x
    using ex n that by (fastforce simp: slots_exclusive_def)
  with ex k show ?thesis by (fastforce simp: slots_exclusive_def keeps_def)
qed

lemma exclusive_move_slot:
  assumes ex: "slots_exclusive boot s" and n: "e_slots s n = Some sl"
    and k: "keeps boot {} (db_jobs (e_db s)) (db_jobs d)" and i: "slot_id sl' = slot_id sl"
  shows "slots_exclusive boot (put_slot n (Some sl') (put_db s d))"
proof -
  have "held boot (slot_id sl) (db_jobs d)"
    using ex n k by (auto simp: slots_exclusive_def keeps_def)
  with ex n k i show ?thesis by (fastforce simp: slots_exclusive_def keeps_def)
qed

lemma exclusive_claim:
  assumes ex: "slots_exclusive (q_boot cfg) s" and ok: "jobs_ok (db_jobs (e_db s))"
    and n: "e_slots s n = None" and c: "claim cfg reg now (e_db s) = (d, Inr (Some t))"
  shows "slots_exclusive (q_boot cfg)
     (put_slot n (Some \<lparr>s_task = t, s_running = False\<rparr>) (put_db s d))"
proof -
  from c obtain p js where l: "lease_next_job p (db_jobs (e_db s)) = Inr (js, t_job t)"
    and p: "p_owner p = q_boot cfg" and d: "db_jobs d = js"
    by (fastforce simp: claim_def split: if_splits sum.splits)
  have "keeps (q_boot cfg) {} (db_jobs (e_db s)) (db_jobs d)"
    and h: "held (q_boot cfg) (j_id (t_job t)) (db_jobs d)"
    and f: "\<not> held (q_boot cfg) (j_id (t_job t)) (db_jobs (e_db s))"
    using lease_next_job_takes [OF ok l p] d by simp_all
  moreover have "slot_id x \<noteq> j_id (t_job t)" if "e_slots s m = Some x" for m x
    using ex that f by (metis slots_exclusive_def)
  ultimately show ?thesis
    using ex n by (fastforce simp: slots_exclusive_def keeps_def slot_id_def)
qed

lemma job_step_exclusive:
  assumes ex: "slots_exclusive (q_boot cfg) s" and ok: "jobs_ok (db_jobs (e_db s))"
    and np: "no_pause ev"
  shows "slots_exclusive (q_boot cfg) (job_step json_ok cls cfg reg ev s)"
proof (cases ev)
  case (EvProgress i p)
  with ex show ?thesis
    by (auto intro!: exclusive_put_db intro: set_job_progress_keeps split: sum.splits)
next
  case (EvClaim n now)
  with ex show ?thesis
    by (auto intro: exclusive_claim [OF ex ok] split: option.splits prod.splits sum.splits)
next
  case (EvStart n shutting w now)
  show ?thesis
  proof (cases "e_slots s n")
    case (Some sl)
    obtain d v where b: "begin_task cls cfg reg (s_task sl) shutting w now (e_db s) = (d, v)"
      by fastforce
    have "slots_exclusive (q_boot cfg) (put_slot n v (put_db s d))"
    proof (cases v)
      case None
      then show ?thesis
        using exclusive_drop_slot [OF ex Some] begin_task_keeps [OF b, of "q_boot cfg"]
        by (simp add: slot_id_def)
    next
      case (Some sl')
      then obtain j where "start_tx cfg reg (s_task sl) now (e_db s) = Inr (d, Started j)"
        and sl': "sl' = \<lparr>s_task = (s_task sl)\<lparr>t_job := j\<rparr>, s_running = True\<rparr>"
        using b by (auto simp: begin_task_def
            split: option.splits sum.splits start_outcome_tx.splits)
      then have "keeps (q_boot cfg) {} (db_jobs (e_db s)) (db_jobs d)"
        and "j_id j = j_id (t_job (s_task sl))"
        by (auto elim!: start_tx_cases intro: start_job_keeps dest: job_row_Inr)
      then show ?thesis
        using exclusive_move_slot [OF ex \<open>e_slots s n = Some sl\<close>, of d sl'] Some sl'
        by (simp add: slot_id_def)
    qed
    with Some EvStart b ex show ?thesis by simp
  qed (use ex EvStart in simp)
next
  case (EvHeartbeat n now)
  have "slots_exclusive (q_boot cfg)
          (put_slot n (Some (sl\<lparr>s_task := t\<rparr>)) (put_db s d))"
    if "e_slots s n = Some sl" "heartbeat cfg (s_task sl) now (e_db s) = (d, t)" for sl d t
    using that by (intro exclusive_move_slot [OF ex] heartbeat_keeps)
      (auto simp: slot_id_def heartbeat_def split: sum.splits if_splits)
  with ex EvHeartbeat show ?thesis by (auto split: option.splits prod.splits)
next
  case (EvFinish n shutting w out err now)
  with ex show ?thesis
    by (auto intro!: exclusive_drop_slot [OF ex] simp: slot_id_def intro: finish_keeps
        split: option.splits)
qed (use np in \<open>auto intro!: exclusive_transact [OF ex] intro: enqueue_tx_keeps
      cancel_tx_keeps [OF ok] retry_tx_keeps recover_orphans_tx_keeps [OF ok]
      release_leases_tx_keeps\<close>)

interpretation jx: machine "job_step json_ok cls cfg reg" no_pause
    "\<lambda>s. jobs_ok (db_jobs (e_db s)) \<and> slots_exclusive (q_boot cfg) s"
  by unfold_locales (auto intro: job_step_ok job_step_exclusive)

text \<open>
  C10. As long as no job is paused or resumed, the engine is exclusive: over any interleaving
  of requests, claims, starts, heartbeats and endings, two slots never hold the same job, and
  the row of a job a slot holds is leased or running under this boot.
\<close>

theorem without_pause_one_runner_per_job:
  assumes "list_all no_pause evs"
  shows "slots_exclusive (q_boot cfg) (run (job_step json_ok cls cfg reg) evs (empty_engine d))"
  using jx.run_inv [OF assms, of "empty_engine d" cfg]
  by (simp add: slots_exclusive_def empty_engine_def)

section \<open>A pause and a resume inside one heartbeat\<close>

text \<open>One registered kind, no domain rows, no guards.\<close>

definition plain_worker :: "unit worker" where
  "plain_worker = \<lparr>w_start = None, w_set_domain = None, w_check_cancel = None\<rparr>"

definition plain_registry :: "unit registry" where
  "plain_registry k = (if k = JobModelDownload then Some plain_worker else None)"

definition plain_config :: queue_config where
  "plain_config = \<lparr>q_boot = ''boot'', q_lease_ttl = 60000, q_poll_every = 1000\<rparr>"

definition plain_params :: "string \<Rightarrow> string \<Rightarrow> unit enqueue_params" where
  "plain_params i d = \<lparr>e_id = i, e_kind = JobModelDownload, e_domain_id = d, e_priority = 0,
     e_max_attempts = 3, e_run_after = None, e_params = Inr None, e_idempotency = None,
     e_domain = None\<rparr>"

definition plain_step :: "unit event \<Rightarrow> unit engine \<Rightarrow> unit engine" where
  "plain_step = job_step (\<lambda>_. True) (\<lambda>_. RunOther ''error'') plain_config plain_registry"

definition resumed_under_worker :: "unit event list" where
  "resumed_under_worker =
     [EvEnqueue (plain_params ''J'' ''D'') 0, EvClaim 0 1, EvStart 0 False all_written 1,
      EvPause ''J'' None, EvResume ''J'' None, EvClaim 1 2, EvStart 1 False all_written 2,
      EvHeartbeat 0 15000, EvHeartbeat 1 15000]"

lemma registered_plain: "registered_kinds plain_registry = [JobModelDownload]"
  by (simp add: registered_kinds_def job_kind_values_def plain_registry_def)

lemmas plain_simps = plain_step_def plain_config_def plain_params_def plain_registry_def
  plain_worker_def empty_engine_def transact_def enqueue_tx_def replay_lookup_def new_job_def
  insert_with_collision_def insert_job_def json_check_def job_kind_valid_def
  job_kind_values_def one_live_per_subject_def j_subject_def claim_def lease_next_job_def
  leasable_def take_lease_def sql_update_def update_rows_def begin_task_def start_tx_def
  job_row_def start_job_def pause_tx_def resume_tx_def set_live_state_tx_def set_job_state_def
  commit_domain_def heartbeat_def touch_job_lease_def held_by_def drop_lease_def
  DefaultPriority_def held_here_def holds_lease_def Let_def finish_def all_written_def resolve_outcome_def
  close_tx_def empty_outcome_def finish_job_def commit_outcome_def str_ptr_def

text \<open>
  The lease does not keep two runners of one daemon apart. In this run a download is paused and
  resumed before the next heartbeat: a second slot claims and starts it while the first worker
  still runs; both heartbeats succeed, because both look for the same boot, so neither worker
  learns of the other. When the first worker ends, its closing write, which asks for no owner,
  closes the job under the second one.
\<close>

theorem pause_resume_gives_two_runners:
  "let working = (\<lambda>s n. map_option (\<lambda>x. (slot_id x, s_running x, t_lease_lost (s_task x)))
                            (e_slots s n));
       s = run plain_step resumed_under_worker (empty_engine ());
       s' = plain_step (EvFinish 0 False all_written empty_outcome None 16000) s
   in working s 0 = Some (''J'', True, False) \<and> working s 1 = Some (''J'', True, False)
    \<and> map j_state (db_jobs (e_db s')) = [JobSucceeded]
    \<and> working s' 0 = None \<and> working s' 1 = Some (''J'', True, False)"
  unfolding resumed_under_worker_def Let_def
  by (simp add: plain_simps registered_plain slot_id_def)

theorem without_pause_one_runner_per_job_witness:
  "slots_exclusive ''boot'' (run plain_step
     [EvEnqueue (plain_params ''J'' ''D'') 0, EvClaim 0 1, EvStart 0 False all_written 1, EvClaim 1 2,
      EvHeartbeat 0 15000, EvFinish 0 False all_written empty_outcome None 16000] (empty_engine ()))"
  using without_pause_one_runner_per_job [of
     "[EvEnqueue (plain_params ''J'' ''D'') 0, EvClaim 0 1, EvStart 0 False all_written 1, EvClaim 1 2,
      EvHeartbeat 0 15000, EvFinish 0 False all_written empty_outcome None 16000]" plain_config
     "\<lambda>_. True" "\<lambda>_. RunOther ''error''" plain_registry "()"]
  unfolding plain_step_def by (simp add: plain_config_def)

end
