(* ===== verification/Job_Properties.thy ===== *)
theory Job_Properties
  imports Job_Fencing
begin

text \<open>
  What the operations of the job engine promise their callers: replay and refusal of a second
  enqueue, boot triage, the closing write, and retry.
\<close>

section \<open>Rows after a statement\<close>

lemma update_one:
  assumes "jobs_ok js" and "j \<in> set js"
  shows "update_rows (\<lambda>r. j_id r = j_id j) f js = map (\<lambda>r. if r = j then f j else r) js"
  using assms by (auto simp: update_rows_def dest: job_id_unique)

lemma sql_update_live:
  assumes "jobs_ok js" and "j \<in> set js" and "is_live (j_state j)" and "j_subject (f j) = j_subject j"
  shows "\<exists>n. sql_update (\<lambda>r. j_id r = j_id j) f js
           = Inr (map (\<lambda>r. if r = j then f j else r) js, n)"
proof -
  have "sql_update (\<lambda>r. j_id r = j_id j) f js = Inr (update_rows (\<lambda>r. j_id r = j_id j) f js,
          length (filter (\<lambda>r. j_id r = j_id j) js))"
    using assms by (intro sql_update_total) (auto dest: job_id_unique)
  then show ?thesis using update_one [OF assms(1,2)] by simp
qed

lemma job_row_replaced:
  assumes "jobs_ok js" and "j \<in> set js" and "j_id (f j) = j_id j"
  shows "job_row (j_id j) (map (\<lambda>r. if r = j then f j else r) js) = Inr (f j)"
proof -
  have "map (\<lambda>r. if r = j then f j else r) js = update_rows (\<lambda>r. r = j) f js"
    by (simp add: update_rows_def)
  then show ?thesis
    using assms job_row_update [OF assms(1), of "j_id j" j "\<lambda>r. r = j" f]
    by (simp add: job_row_iff)
qed

section \<open>Boot triage\<close>

text \<open>What triage makes of one orphan.\<close>

definition triaged :: "unix_ms \<Rightarrow> job \<Rightarrow> job" where
  "triaged at j =
     (case job_boot_triage (j_kind j) of
        Some JobQueued \<Rightarrow> drop_lease (j\<lparr>j_state := JobQueued, j_run_after := at,
                            j_attempts := max (j_attempts j - 1) 0\<rparr>)
      | Some JobInterrupted \<Rightarrow> drop_lease (j\<lparr>j_state := JobInterrupted\<rparr>)
      | _ \<Rightarrow> drop_lease (j\<lparr>j_state := JobFailed, j_error_code := Some daemon_restarted_code,
               j_error_message := Some daemon_restarted_message, j_finished_at := Some at\<rparr>))"

lemma triage_defined: "job_kind_valid k \<Longrightarrow>
    job_boot_triage k \<in> {Some JobQueued, Some JobInterrupted, Some JobFailed}"
  by (cases k) (simp_all add: job_kind_valid_def job_kind_values_def)

lemma triaged_id [simp]: "j_id (triaged at j) = j_id j"
  by (simp add: triaged_def split: option.splits job_state.splits)

lemma triaged_state:
  assumes "job_kind_valid (j_kind j)"
  shows "Some (j_state (triaged at j)) = job_boot_triage (j_kind j)"
    and "j_lease_owner (triaged at j) = None" and "\<not> holds_lease (j_state (triaged at j))"
  using triage_defined [OF assms] by (auto simp: triaged_def)

lemma triage_orphaned_job_row:
  assumes "jobs_ok js" and "j \<in> set js" and "is_live (j_state j)"
  shows "\<exists>st. triage_orphaned_job j at js
           = Inr (map (\<lambda>r. if r = j then triaged at j else r) js, st)"
proof -
  have "job_kind_valid (j_kind j)" using assms by (simp add: jobs_ok_def row_ok_def)
  then consider "job_boot_triage (j_kind j) = Some JobQueued"
    | "job_boot_triage (j_kind j) = Some JobInterrupted"
    | "job_boot_triage (j_kind j) = Some JobFailed"
    using triage_defined by fastforce
  then show ?thesis
  proof cases
    case 1
    obtain n where "sql_update (\<lambda>r. j_id r = j_id j)
        (\<lambda>r. drop_lease (r\<lparr>j_state := JobQueued, j_run_after := at,
                j_attempts := max (j_attempts r - 1) 0\<rparr>)) js
      = Inr (map (\<lambda>r. if r = j then triaged at j else r) js, n)"
      using sql_update_live [OF assms, of "\<lambda>r. drop_lease (r\<lparr>j_state := JobQueued,
          j_run_after := at, j_attempts := max (j_attempts r - 1) 0\<rparr>)"] 1
      by (auto simp: triaged_def)
    with 1 show ?thesis by (simp add: triage_orphaned_job_def)
  next
    case 2
    obtain n where "sql_update (\<lambda>r. j_id r = j_id j)
        (\<lambda>r. drop_lease (r\<lparr>j_state := JobInterrupted\<rparr>)) js
      = Inr (map (\<lambda>r. if r = j then triaged at j else r) js, n)"
      using sql_update_live [OF assms, of "\<lambda>r. drop_lease (r\<lparr>j_state := JobInterrupted\<rparr>)"] 2
      by (auto simp: triaged_def)
    with 2 show ?thesis by (simp add: triage_orphaned_job_def)
  next
    case 3
    define f where "f = (\<lambda>r. drop_lease (r\<lparr>j_state := JobFailed,
        j_error_code := Some daemon_restarted_code,
        j_error_message := Some daemon_restarted_message, j_finished_at := Some at\<rparr>))"
    obtain n where "sql_update (\<lambda>r. j_id r = j_id j) f js
      = Inr (map (\<lambda>r. if r = j then triaged at j else r) js, n)"
      using sql_update_live [OF assms, of f] 3 by (auto simp: triaged_def f_def)
    with 3 show ?thesis by (simp add: triage_orphaned_job_def finish_job_def f_def)
  qed
qed

lemma triage_loop_rows:
  assumes "\<And>j st d. \<exists>d'. commit_domain reg j st d = Inr d'"
    and "jobs_ok (db_jobs s)" and "set os \<subseteq> set (db_jobs s)" and "distinct (map j_id os)"
    and "\<forall>j \<in> set os. is_live (j_state j)"
  shows "\<exists>s' out. triage_loop reg at os s = Inr (s', out) \<and> map fst out = os
           \<and> db_jobs s' = map (\<lambda>r. if r \<in> set os then triaged at r else r) (db_jobs s)"
  using assms(2-)
proof (induction os arbitrary: s)
  case Nil
  then show ?case by simp
next
  case (Cons j os)
  let ?js = "map (\<lambda>r. if r = j then triaged at j else r) (db_jobs s)"
  from Cons.prems obtain st where t: "triage_orphaned_job j at (db_jobs s) = Inr (?js, st)"
    using triage_orphaned_job_row [of "db_jobs s" j at] by auto
  from assms(1) obtain d where d: "commit_domain reg j st (db_domain s) = Inr d" by blast
  define s1 where "s1 = s\<lparr>db_jobs := ?js, db_domain := d\<rparr>"
  have ok: "jobs_ok (db_jobs s1)"
    using triage_orphaned_job_ok [OF Cons.prems(1) t] by (simp add: s1_def)
  have notin: "j \<notin> set os" "triaged at j \<notin> set os"
    using Cons.prems(3) by (auto simp: image_iff)
  have sub: "set os \<subseteq> set (db_jobs s1)"
    using Cons.prems(2) notin by (auto simp: s1_def)
  from Cons.IH [OF ok sub] Cons.prems obtain s' out where
    l: "triage_loop reg at os s1 = Inr (s', out)" and o1: "map fst out = os"
    and r: "db_jobs s' = map (\<lambda>r. if r \<in> set os then triaged at r else r) (db_jobs s1)"
    by auto
  have "db_jobs s' = map (\<lambda>r. if r \<in> set (j # os) then triaged at r else r) (db_jobs s)"
    using notin by (auto simp: r s1_def)
  with t d l o1 show ?case by (simp flip: s1_def)
qed

text \<open>
  C15. Boot triage leaves no orphan: with domain writers that accept their row, the pass
  commits; it answers the orphans in the order of their ids; every one of them ends without a
  lease in the state the table gives its kind; and every other row (queued, paused, held by
  this boot, closed) is exactly as it was.
\<close>

theorem recover_orphans_settles_every_orphan:
  assumes "\<And>j st d. \<exists>d'. commit_domain reg j st d = Inr d'" and ok: "jobs_ok (db_jobs s)"
  shows "\<exists>s' out. recover_orphans_tx reg boot at s = Inr (s', out)
     \<and> map fst out = orphaned_jobs boot (db_jobs s)
     \<and> orphaned_jobs boot (db_jobs s') = []
     \<and> db_jobs s' = map (\<lambda>j. if orphaned boot j then triaged at j else j) (db_jobs s)
     \<and> (\<forall>j \<in> set (db_jobs s). orphaned boot j \<longrightarrow>
          Some (j_state (triaged at j)) = job_boot_triage (j_kind j))"
proof -
  let ?os = "orphaned_jobs boot (db_jobs s)"
  have set_os: "set ?os = {j \<in> set (db_jobs s). orphaned boot j}"
    by (auto simp: orphaned_jobs_def)
  have "distinct (map j_id (filter (orphaned boot) (db_jobs s)))"
    using ok by (simp add: jobs_ok_def distinct_map_filter)
  then have dist: "distinct (map j_id ?os)"
    by (auto simp: orphaned_jobs_def distinct_map)
  have live: "\<forall>j \<in> set ?os. is_live (j_state j)"
    using set_os by (auto simp: orphaned_def intro: holds_lease_live)
  have valid: "job_kind_valid (j_kind j)" if "j \<in> set (db_jobs s)" for j
    using ok that by (simp add: jobs_ok_def row_ok_def)
  obtain s' out where l: "triage_loop reg at ?os s = Inr (s', out)" and o1: "map fst out = ?os"
    and r: "db_jobs s' = map (\<lambda>r. if r \<in> set ?os then triaged at r else r) (db_jobs s)"
    using triage_loop_rows [OF assms(1) ok _ dist live] set_os by fastforce
  have r': "db_jobs s' = map (\<lambda>j. if orphaned boot j then triaged at j else j) (db_jobs s)"
    using set_os by (auto simp: r)
  have "\<not> orphaned boot j" if "j \<in> set (db_jobs s')" for j
    using that valid triaged_state(3) by (auto simp: r' orphaned_def split: if_splits)
  then have "orphaned_jobs boot (db_jobs s') = []"
    by (simp add: orphaned_jobs_def)
  with l o1 r' valid triaged_state(1) show ?thesis
    by (auto simp: recover_orphans_tx_def)
qed

text \<open>A download that a dead boot was running, beside a paused one.\<close>

definition sample_job :: "string \<Rightarrow> job_kind \<Rightarrow> subject_type \<Rightarrow> job_state \<Rightarrow> string option \<Rightarrow> job" where
  "sample_job i k t st ow =
     \<lparr>j_id = i, j_kind = k, j_subject_type = t, j_subject_id = i, j_state = st,
      j_priority = 100, j_run_after = 0, j_attempts = 1, j_max_attempts = 3,
      j_lease_owner = ow, j_lease_expires_at = map_option (\<lambda>_. 60000) ow,
      j_cancel_requested = False, j_idempotency_key = None, j_progress_json = None,
      j_params_json = None, j_error_code = None, j_error_message = None, j_created_at = 0,
      j_started_at = Some 1, j_finished_at = None\<rparr>"

definition sample_db :: "unit jobdb" where
  "sample_db = \<lparr>db_jobs =
     [sample_job ''J1'' JobModelDownload SubjectDownload JobRunning (Some ''dead''),
      sample_job ''J2'' JobModelDownload SubjectDownload JobPaused None,
      sample_job ''J3'' JobModelDownload SubjectDownload JobRunning (Some ''boot'')],
     db_keys = [], db_domain = ()\<rparr>"

lemma sample_db_ok: "jobs_ok (db_jobs sample_db)"
  by (simp add: sample_db_def sample_job_def jobs_ok_def one_live_per_subject_def j_subject_def
      row_ok_def job_kind_valid_def job_kind_values_def)

lemma plain_commit: "commit_domain plain_registry j st d = Inr d"
  by (simp add: commit_domain_def plain_registry_def plain_worker_def)

theorem recover_orphans_settles_every_orphan_witness:
  "\<exists>s' out. recover_orphans_tx plain_registry ''boot'' 9 sample_db = Inr (s', out)
     \<and> orphaned_jobs ''boot'' (db_jobs s') = []"
  using recover_orphans_settles_every_orphan [of plain_registry sample_db "''boot''" 9]
    plain_commit sample_db_ok by blast

section \<open>The closing write\<close>

lemma defer_job_row:
  assumes "jobs_ok js" and "j \<in> set js" and "is_live (j_state j)"
  shows "\<exists>js' j'. defer_job (j_id j) t js = Inr js' \<and> job_row (j_id j) js' = Inr j'
           \<and> j_state j' = JobQueued \<and> j_lease_owner j' = None \<and> j_run_after j' = t"
proof -
  define f where "f = (\<lambda>j. drop_lease (j\<lparr>j_state := JobQueued, j_run_after := t,
      j_attempts := max (j_attempts j - 1) 0, j_error_code := None, j_error_message := None\<rparr>))"
  obtain n where "sql_update (\<lambda>r. j_id r = j_id j) f js
      = Inr (map (\<lambda>r. if r = j then f j else r) js, n)"
    using sql_update_live [OF assms, of f] by (auto simp: f_def)
  moreover have "job_row (j_id j) (map (\<lambda>r. if r = j then f j else r) js) = Inr (f j)"
    using assms by (intro job_row_replaced) (simp_all add: f_def)
  ultimately show ?thesis by (simp add: defer_job_def f_def)
qed

lemma set_job_state_row:
  assumes "jobs_ok js" and "j \<in> set js" and "is_live (j_state j)"
    and "\<not> is_terminal st" and "\<not> holds_lease st"
  shows "\<exists>js' j'. set_job_state (j_id j) st js = Inr js' \<and> job_row (j_id j) js' = Inr j'
           \<and> j_state j' = st \<and> j_lease_owner j' = None"
proof -
  define f where "f = (\<lambda>j. drop_lease (j\<lparr>j_state := st\<rparr>))"
  obtain n where "sql_update (\<lambda>r. j_id r = j_id j) f js
      = Inr (map (\<lambda>r. if r = j then f j else r) js, n)"
    using sql_update_live [OF assms(1-3), of f] by (auto simp: f_def)
  moreover have "job_row (j_id j) (map (\<lambda>r. if r = j then f j else r) js) = Inr (f j)"
    using assms by (intro job_row_replaced) (simp_all add: f_def)
  ultimately show ?thesis using assms(4,5) by (simp add: set_job_state_def f_def)
qed

lemma finish_job_row:
  assumes "jobs_ok js" and "j \<in> set js" and "is_live (j_state j)" and "is_terminal st"
  shows "\<exists>js' j'. finish_job (j_id j) st c m at js = Inr js' \<and> job_row (j_id j) js' = Inr j'
           \<and> j_state j' = st \<and> j_lease_owner j' = None \<and> j_error_code j' = c
           \<and> j_finished_at j' = Some at"
proof -
  define f where "f = (\<lambda>j. drop_lease (j\<lparr>j_state := st, j_error_code := c,
      j_error_message := m, j_finished_at := Some at\<rparr>))"
  obtain n where "sql_update (\<lambda>r. j_id r = j_id j) f js
      = Inr (map (\<lambda>r. if r = j then f j else r) js, n)"
    using sql_update_live [OF assms(1-3), of f] by (auto simp: f_def)
  moreover have "job_row (j_id j) (map (\<lambda>r. if r = j then f j else r) js) = Inr (f j)"
    using assms by (intro job_row_replaced) (simp_all add: f_def)
  ultimately show ?thesis using assms(4) by (simp add: finish_job_def f_def)
qed

lemma requeue_job_row:
  assumes "jobs_ok js" and "j \<in> set js" and "is_live (j_state j)"
  shows "\<exists>js' j'. requeue_job (j_id j) t c m js = Inr js' \<and> job_row (j_id j) js' = Inr j'
           \<and> j_state j' = JobQueued \<and> j_lease_owner j' = None \<and> j_run_after j' = t
           \<and> j_attempts j' = j_attempts j \<and> j_error_code j' = c"
proof -
  define f where "f = (\<lambda>j. drop_lease (j\<lparr>j_state := JobQueued, j_run_after := t,
      j_error_code := c, j_error_message := m\<rparr>))"
  obtain n where "sql_update (\<lambda>r. j_id r = j_id j) f js
      = Inr (map (\<lambda>r. if r = j then f j else r) js, n)"
    using sql_update_live [OF assms, of f] by (auto simp: f_def)
  moreover have "job_row (j_id j) (map (\<lambda>r. if r = j then f j else r) js) = Inr (f j)"
    using assms by (intro job_row_replaced) (simp_all add: f_def)
  ultimately show ?thesis by (simp add: requeue_job_def f_def)
qed

lemma close_tx_releases:
  assumes ok: "jobs_ok (db_jobs s)" and j: "job_row (j_id (t_job t)) (db_jobs s) = Inr j"
    and live: "is_live (j_state j)" and c: "close_tx cfg reg t out now s = Inr (s', r)"
  shows "\<exists>j'. job_row (j_id (t_job t)) (db_jobs s') = Inr j'
           \<and> \<not> holds_lease (j_state j') \<and> j_lease_owner j' = None"
proof -
  have i: "j_id (t_job t) = j_id j" and jm: "j \<in> set (db_jobs s)"
    using job_row_Inr [OF j] by simp_all
  define st where "st = (case o_state out of None \<Rightarrow> JobSucceeded | Some x \<Rightarrow> x)"
  have nh: "\<not> holds_lease x" if "is_terminal x" for x
    using that by (cases x) simp_all
  consider (d) "st = JobQueued"
    | (q) "st = JobFailed" "o_retryable out" "j_attempts (t_job t) < j_max_attempts (t_job t)"
    | (f) "st \<noteq> JobQueued" "is_terminal st"
        "\<not> (st = JobFailed \<and> o_retryable out \<and> j_attempts (t_job t) < j_max_attempts (t_job t))"
    using c by (fastforce simp: close_tx_def st_def Let_def split: if_splits)
  then show ?thesis
  proof cases
    case d
    then obtain a where "defer_job (j_id j) a (db_jobs s) = Inr (db_jobs s')"
      using c by (auto simp: close_tx_def Let_def bind_res_eq_Inr i simp flip: st_def)
    with defer_job_row [OF ok jm live, of a] show ?thesis by (auto simp: i)
  next
    case q
    then obtain a co m where "requeue_job (j_id j) a co m (db_jobs s) = Inr (db_jobs s')"
      using c by (auto simp: close_tx_def Let_def bind_res_eq_Inr i simp flip: st_def)
    with requeue_job_row [OF ok jm live, of a co m] show ?thesis by (auto simp: i)
  next
    case f
    then obtain co m where "finish_job (j_id j) st co m now (db_jobs s) = Inr (db_jobs s')"
      using c by (auto simp: close_tx_def Let_def bind_res_eq_Inr i simp flip: st_def
          split: if_splits)
    with finish_job_row [OF ok jm live f(2), of co m now] nh [OF f(2)] show ?thesis
      by (auto simp: i)
  qed
qed

text \<open>The state the recovery write gives a row, and when it goes through.\<close>

definition recovery_state :: "job_kind \<Rightarrow> job_state" where
  "recovery_state k = (case job_boot_triage k of
     Some JobQueued \<Rightarrow> JobQueued | Some JobInterrupted \<Rightarrow> JobInterrupted | _ \<Rightarrow> JobFailed)"

lemma recovery_state_eq:
  "(if job_boot_triage k = Some JobQueued \<or> job_boot_triage k = Some JobInterrupted
    then the (job_boot_triage k) else JobFailed) = recovery_state k"
  by (auto simp: recovery_state_def split: option.split job_state.split)

lemma recover_unclosed_tx_eq:
  assumes ok: "jobs_ok (db_jobs s)" and j: "job_row (j_id (t_job t)) (db_jobs s) = Inr j"
    and live: "is_live (j_state j)"
  obtains js j' where "recover_unclosed_tx reg t cause now s =
        bind_res (commit_domain reg (t_job t) (recovery_state (j_kind (t_job t))) (db_domain s))
          (\<lambda>d. Inr (s\<lparr>db_jobs := js, db_domain := d\<rparr>, ()))"
    and "job_row (j_id (t_job t)) js = Inr j'" and "\<not> holds_lease (j_state j')" and "j_lease_owner j' = None"
proof -
  have i: "j_id (t_job t) = j_id j" and jm: "j \<in> set (db_jobs s)"
    using job_row_Inr [OF j] by simp_all
  let ?st = "recovery_state (j_kind (t_job t))"
  consider (q) "?st = JobQueued" | (n) "?st = JobInterrupted" | (x) "?st = JobFailed"
    by (cases "job_boot_triage (j_kind (t_job t))"; cases "the (job_boot_triage (j_kind (t_job t)))")
      (simp_all add: recovery_state_def)
  then show thesis
  proof cases
    case q
    from defer_job_row [OF ok jm live, of now] obtain js j' where "defer_job (j_id j) now (db_jobs s) = Inr js"
      "job_row (j_id j) js = Inr j'" "\<not> holds_lease (j_state j')" "j_lease_owner j' = None" by auto
    with q show thesis by (intro that [of js j']) (simp_all add: recover_unclosed_tx_def recovery_state_eq i)
  next
    case n
    from set_job_state_row [OF ok jm live, of JobInterrupted] obtain js j' where
      "set_job_state (j_id j) JobInterrupted (db_jobs s) = Inr js"
      "job_row (j_id j) js = Inr j'" "\<not> holds_lease (j_state j')" "j_lease_owner j' = None" by auto
    with n show thesis by (intro that [of js j']) (simp_all add: recover_unclosed_tx_def recovery_state_eq i)
  next
    case x
    from finish_job_row [OF ok jm live, of JobFailed "str_ptr CodeInternalError" "str_ptr cause" now]
    obtain js j' where "finish_job (j_id j) JobFailed (str_ptr CodeInternalError) (str_ptr cause) now (db_jobs s) = Inr js"
      "job_row (j_id j) js = Inr j'" "\<not> holds_lease (j_state j')" "j_lease_owner j' = None" by auto
    with x show thesis by (intro that [of js j']) (simp_all add: recover_unclosed_tx_def recovery_state_eq i)
  qed
qed

text \<open>
  C13. When a job stays under this boot's lease. Whatever the worker returned (an error, a
  non-terminal state, a domain write that fails), whatever the store does to the two writes of
  \<open>finish\<close>: if the closing write or the recovery write goes through, the row ends without a lease
  and without an owner. \<open>finish\<close> writes nothing, and so leaves the lease where it is, exactly when
  it hands the row on on purpose (the lease was lost, or the worker stopped for the shutdown) or
  when both writes fail: the closing one in the store, for its state or by its domain write, and
  the recovery one in the store or because the domain writer of the kind refuses the state.
\<close>

theorem a_lease_stays_only_when_both_writes_fail:
  assumes "jobs_ok (db_jobs s)" and "job_row (j_id (t_job t)) (db_jobs s) = Inr j" and "holds_lease (j_state j)"
  shows "let s' = finish cls cfg reg t shutting w out err now s;
      handed_on = (t_lease_lost t \<or> shutting \<and> \<not> t_cancel_requested t \<and> (\<exists>m. err = Some (RunCanceled m)));
      closed = (w 0 \<and> (\<exists>o1 s1. resolve_outcome t shutting out err = Some o1
                          \<and> close_tx cfg reg t o1 now s = Inr (s1, ())));
      recovered = (w 1 \<and> (\<exists>d. commit_domain reg (t_job t) (recovery_state (j_kind (t_job t))) (db_domain s) = Inr d))
    in if \<not> handed_on \<and> (closed \<or> recovered)
       then \<exists>j'. job_row (j_id (t_job t)) (db_jobs s') = Inr j' \<and> \<not> holds_lease (j_state j') \<and> j_lease_owner j' = None
       else s' = s"
proof -
  define s' where "s' = finish cls cfg reg t shutting w out err now s"
  define handed_on where "handed_on \<longleftrightarrow> t_lease_lost t \<or> shutting \<and> \<not> t_cancel_requested t \<and> (\<exists>m. err = Some (RunCanceled m))"
  define closed where "closed \<longleftrightarrow> w 0 \<and> (\<exists>o1 s1. resolve_outcome t shutting out err = Some o1 \<and> close_tx cfg reg t o1 now s = Inr (s1, ()))"
  define recovered where "recovered \<longleftrightarrow> w 1 \<and> (\<exists>d. commit_domain reg (t_job t) (recovery_state (j_kind (t_job t))) (db_domain s) = Inr d)"
  let ?goal = "if \<not> handed_on \<and> (closed \<or> recovered)
    then \<exists>j'. job_row (j_id (t_job t)) (db_jobs s') = Inr j' \<and> \<not> holds_lease (j_state j') \<and> j_lease_owner j' = None
    else s' = s"
  have live: "is_live (j_state j)" using assms(3) by (cases "j_state j") simp_all
  have on: "handed_on \<longleftrightarrow> t_lease_lost t \<or> resolve_outcome t shutting out err = None"
    by (cases err; cases "the err") (auto simp: handed_on_def resolve_outcome_def Let_def)
  have ?goal
  proof (cases "t_lease_lost t \<or> resolve_outcome t shutting out err = None")
    case True
    then show ?goal using on by (auto simp: s'_def finish_def)
  next
    case False
    then obtain o1 where o1: "resolve_outcome t shutting out err = Some o1" and nl: "\<not> t_lease_lost t" by auto
    show ?goal
    proof (cases "stored (w 0) (close_tx cfg reg t o1 now s)")
      case (Inr p)
      then obtain s1 where s1: "close_tx cfg reg t o1 now s = Inr (s1, ())" "w 0" by (cases p) auto
      then have "s' = s1" by (simp add: s'_def finish_def nl o1)
      with close_tx_releases [OF assms(1,2) live s1(1)] s1 o1 on False show ?goal by (auto simp: closed_def)
    next
      case (Inl x)
      then have nc: "\<not> closed" by (auto simp: closed_def o1 stored_def split: if_splits)
      obtain js j' where r: "recover_unclosed_tx reg t (run_error_text (cls x)) now s =
          bind_res (commit_domain reg (t_job t) (recovery_state (j_kind (t_job t))) (db_domain s))
            (\<lambda>d. Inr (s\<lparr>db_jobs := js, db_domain := d\<rparr>, ()))"
        and j': "job_row (j_id (t_job t)) js = Inr j'" "\<not> holds_lease (j_state j')" "j_lease_owner j' = None"
        using recover_unclosed_tx_eq [OF assms(1,2) live] by blast
      have "s' = fst (transact (\<lambda>s. stored (w 1) (recover_unclosed_tx reg t (run_error_text (cls x)) now s)) s)"
        by (simp add: s'_def finish_def nl o1 Inl)
      then show ?goal
        using nc on False j' r
        by (cases "commit_domain reg (t_job t) (recovery_state (j_kind (t_job t))) (db_domain s)")
          (auto simp: recovered_def transact_def stored_def)
    qed
  qed
  then show ?thesis unfolding Let_def s'_def handed_on_def closed_def recovered_def .
qed

text \<open>A worker whose domain write fails, on the third sample row; then the recovery write fails too.\<close>

definition sample_task :: task where
  "sample_task = \<lparr>t_job = sample_job ''J3'' JobModelDownload SubjectDownload JobRunning (Some ''boot''),
     t_cancel_requested = False, t_lease_lost = False\<rparr>"

definition refused_write :: "unit outcome" where
  "refused_write = empty_outcome\<lparr>o_commit := Some (\<lambda>_ _. Inl ''disk full'')\<rparr>"

theorem a_lease_stays_only_when_both_writes_fail_witness:
  "(\<exists>j'. job_row ''J3'' (db_jobs (finish (\<lambda>_. RunOther []) plain_config plain_registry sample_task
       False all_written refused_write None 9 sample_db)) = Inr j'
     \<and> \<not> holds_lease (j_state j') \<and> j_lease_owner j' = None)
   \<and> finish (\<lambda>_. RunOther []) plain_config plain_registry sample_task False (\<lambda>_. False) refused_write None 9 sample_db
       = sample_db"
proof -
  have i: "j_id (t_job sample_task) = ''J3''" by (simp add: sample_task_def sample_job_def)
  have row: "job_row (j_id (t_job sample_task)) (db_jobs sample_db) = Inr (t_job sample_task)"
    by (simp add: sample_task_def sample_db_def sample_job_def job_row_def)
  have own: "\<not> t_lease_lost sample_task" by (simp add: sample_task_def)
  have held: "holds_lease (j_state (t_job sample_task))" by (simp add: sample_task_def sample_job_def)
  have ok: "\<exists>d. commit_domain plain_registry (t_job sample_task) (recovery_state (j_kind (t_job sample_task))) (db_domain sample_db) = Inr d"
    using plain_commit by blast
  from a_lease_stays_only_when_both_writes_fail [OF sample_db_ok row held, of "\<lambda>_. RunOther []" plain_config plain_registry
      False all_written refused_write None 9]
    a_lease_stays_only_when_both_writes_fail [OF sample_db_ok row held, of "\<lambda>_. RunOther []" plain_config plain_registry
      False "\<lambda>_. False" refused_write None 9] ok
  show ?thesis by (simp add: i own all_written_def)
qed

text \<open>
  A retryable failure whose domain write is accepted is retried exactly while the budget
  lasts: before the last attempt the row goes back to \<open>queued\<close> with the backoff delay, its
  attempts unchanged and the error visible; on the attempt that spends the budget it is closed
  \<open>failed\<close> with the same error.
\<close>

theorem retryable_failure_spends_the_budget:
  assumes "jobs_ok (db_jobs s)" and "job_row (j_id (t_job t)) (db_jobs s) = Inr j"
    and "is_live (j_state j)" and "j_attempts j = j_attempts (t_job t)"
    and "\<And>st. \<exists>d. commit_outcome reg (t_job t) (retryable_failure code msg c) st (db_domain s) = Inr d"
  shows "\<exists>s' j'. close_tx cfg reg t (retryable_failure code msg c) now s = Inr (s', ())
     \<and> job_row (j_id (t_job t)) (db_jobs s') = Inr j' \<and> j_error_code j' = str_ptr code
     \<and> (if j_attempts (t_job t) < j_max_attempts (t_job t)
        then j_state j' = JobQueued \<and> j_attempts j' = j_attempts j
             \<and> j_run_after j' = now + min 60000 (2 ^ nat (j_attempts j) * 2000)
        else j_state j' = JobFailed \<and> j_finished_at j' = Some now)"
proof -
  have i: "j_id (t_job t) = j_id j" and jm: "j \<in> set (db_jobs s)"
    using job_row_Inr [OF assms(2)] by simp_all
  obtain f where f:
    "\<And>st. commit_outcome reg (t_job t) (retryable_failure code msg c) st (db_domain s) = Inr (f st)"
    using assms(5) by metis
  have o1: "o_state (retryable_failure code msg c) = Some JobFailed"
    "o_retryable (retryable_failure code msg c)"
    "o_error_code (retryable_failure code msg c) = code"
    "o_error_message (retryable_failure code msg c) = msg"
    by (simp_all add: retryable_failure_def)
  show ?thesis
  proof (cases "j_attempts (t_job t) < j_max_attempts (t_job t)")
    case True
    from requeue_job_row [OF assms(1) jm assms(3)]
    obtain js' j' where "requeue_job (j_id j) (now + job_backoff (j_attempts (t_job t)))
          (str_ptr code) (str_ptr msg) (db_jobs s) = Inr js'"
      and "job_row (j_id j) js' = Inr j'" "j_state j' = JobQueued"
      "j_run_after j' = now + job_backoff (j_attempts (t_job t))"
      "j_attempts j' = j_attempts j" "j_error_code j' = str_ptr code" by blast
    with True f assms(4) show ?thesis
      by (simp add: close_tx_def Let_def o1 i job_backoff_closed)
  next
    case False
    from finish_job_row [OF assms(1) jm assms(3), of JobFailed]
    obtain js' j' where "finish_job (j_id j) JobFailed (str_ptr code) (str_ptr msg) now (db_jobs s)
          = Inr js'"
      and "job_row (j_id j) js' = Inr j'" "j_state j' = JobFailed"
      "j_error_code j' = str_ptr code" "j_finished_at j' = Some now" by fastforce
    with False f show ?thesis by (simp add: close_tx_def Let_def o1 i)
  qed
qed

theorem retryable_failure_spends_the_budget_witness:
  "\<exists>s' j'. close_tx plain_config plain_registry sample_task (retryable_failure ''code'' [] None) 9 sample_db
       = Inr (s', ()) \<and> job_row ''J3'' (db_jobs s') = Inr j'
     \<and> j_state j' = JobQueued \<and> j_run_after j' = 4009"
proof -
  have "job_row (j_id (t_job sample_task)) (db_jobs sample_db) = Inr (t_job sample_task)"
    by (simp add: sample_db_def sample_task_def sample_job_def job_row_def)
  then show ?thesis
    using retryable_failure_spends_the_budget [of sample_db sample_task "t_job sample_task"
        plain_registry "''code''" "[]" None plain_config 9] plain_commit sample_db_ok
    by (auto simp: sample_task_def sample_job_def commit_outcome_def retryable_failure_def
        empty_outcome_def)
qed

section \<open>Enqueue\<close>

lemma find_append_new: "\<forall>x \<in> set xs. \<not> p x \<Longrightarrow> p y \<Longrightarrow> find p (xs @ [y]) = Some y"
  by (induction xs) auto

lemma find_unique_key:
  assumes "insert_idempotency_key k now js ks = Inr ks'" and "t < k_expires_at k"
  shows "live_idempotency_key (k_key k) t ks' = Inr k"
proof -
  define old where "old = filter (\<lambda>r. \<not> (k_key r = k_key k \<and> k_expires_at r \<le> now)) ks"
  from assms(1) have ks': "ks' = old @ [k]" and "k_key k \<notin> set (map k_key old)"
    by (auto simp: insert_idempotency_key_def Let_def old_def split: if_splits)
  then have "\<forall>r \<in> set old. \<not> (k_key r = k_key k \<and> t < k_expires_at r)"
    by (auto simp: image_iff)
  then have "find (\<lambda>r. k_key r = k_key k \<and> t < k_expires_at r) ks' = Some k"
    using assms(2) by (simp add: ks' find_append_new)
  then show ?thesis by (simp add: live_idempotency_key_def)
qed

lemma insert_with_collision_row:
  assumes "insert_with_collision json_ok j js = Inr js'"
  shows "js' = js @ [j]" and "job_row (j_id j) js' = Inr j" and "one_live_per_subject js'"
proof -
  from assms have i: "insert_job json_ok j js = Inr js'"
    by (auto simp: insert_with_collision_def split: sum.splits)
  then show js': "js' = js @ [j]" and "one_live_per_subject js'"
    by (auto simp: insert_job_def split: if_splits)
  from i have "\<forall>x \<in> set js. j_id x \<noteq> j_id j"
    by (auto simp: insert_job_def image_iff split: if_splits)
  then show "job_row (j_id j) js' = Inr j"
    by (simp add: job_row_def js' find_append_new)
qed

lemma new_job_sel [simp]:
  "j_id (new_job p t i params now) = e_id p"
  "j_subject_type (new_job p t i params now) = t" "j_subject_id (new_job p t i params now) = i"
  "j_state (new_job p t i params now) = JobQueued"
  by (simp_all add: new_job_def)

lemma enqueue_tx_fresh:
  assumes "enqueue_tx json_ok p now s = Inr (s', (j, False))"
  obtains t i params d where "subject_for (e_kind p) (e_domain_id p) = Some (t, i)" and "i \<noteq> []"
    and "j = new_job p t i params now" and "db_jobs s' = db_jobs s @ [j]"
    and "job_row (j_id j) (db_jobs s') = Inr j" and "one_live_per_subject (db_jobs s')"
    and "\<And>k. e_idempotency p = Some k \<Longrightarrow>
       insert_idempotency_key \<lparr>k_key = i_key k, k_route = i_route k,
         k_fingerprint = i_fingerprint k, k_job_id = j_id j, k_created_at = now,
         k_expires_at = now + IdempotencyWindow\<rparr> now (db_jobs s') (db_keys s) = Inr (db_keys s')
       \<and> i_key k \<noteq> []"
proof -
  from assms obtain t i params js ks d where
    sub: "subject_for (e_kind p) (e_domain_id p) = Some (t, i)" "i \<noteq> []"
    and r: "replay_lookup (e_idempotency p) now s = Inr None"
    and j: "j = new_job p t i params now"
    and ins: "insert_with_collision json_ok j (db_jobs s) = Inr js"
    and ks: "(case e_idempotency p of None \<Rightarrow> Inr (db_keys s)
        | Some k \<Rightarrow> insert_idempotency_key
            \<lparr>k_key = i_key k, k_route = i_route k, k_fingerprint = i_fingerprint k,
             k_job_id = j_id j, k_created_at = now, k_expires_at = now + IdempotencyWindow\<rparr>
            now js (db_keys s)) = Inr ks"
    and s': "s' = \<lparr>db_jobs = js, db_keys = ks, db_domain = d\<rparr>"
    by (auto simp: enqueue_tx_def Let_def bind_res_eq_Inr
        split: option.splits prod.splits if_splits sum.splits)
  have "i_key k \<noteq> []" if "e_idempotency p = Some k" for k
    using r that by (auto simp: replay_lookup_def)
  moreover have "insert_idempotency_key \<lparr>k_key = i_key k, k_route = i_route k,
         k_fingerprint = i_fingerprint k, k_job_id = j_id j, k_created_at = now,
         k_expires_at = now + IdempotencyWindow\<rparr> now (db_jobs s') (db_keys s) = Inr (db_keys s')"
    if "e_idempotency p = Some k" for k
    using ks s' that by simp
  ultimately show thesis
    using insert_with_collision_row [OF ins] s' by (intro that [OF sub j]) auto
qed

text \<open>
  A second submission never makes a second job. After an enqueue with an idempotency key
  has committed, any submission with that key inside the ten-minute window leaves the state
  alone: with the same route and body it replays the very job, with another route or body it
  is refused; and any submission for the same subject without a key is refused by naming the
  job in flight.
\<close>

theorem second_submission_never_enqueues:
  assumes first: "enqueue_tx json_ok p now s = Inr (s', (j, False))"
    and key: "e_idempotency p = Some k" and late: "t < now + IdempotencyWindow"
    and q: "subject_for (e_kind q) (e_domain_id q) = Some (qt, qi)" "qi \<noteq> []"
  shows "(e_idempotency q = Some k \<longrightarrow> enqueue_tx json_ok q t s' = Inr (s', (j, True)))
     \<and> (\<forall>k'. e_idempotency q = Some k' \<and> i_key k' = i_key k \<and> k' \<noteq> k \<longrightarrow>
          (\<exists>hit. enqueue_tx json_ok q t s' = Inl (ErrKeyReused hit) \<and> k_job_id hit = j_id j))
     \<and> (e_idempotency q = None \<and> (qt, qi) = j_subject j \<and> jobs_ok (db_jobs s')
          \<and> e_params q = Inr v \<longrightarrow> enqueue_tx json_ok q t s' = Inl (ErrJobInFlight j))"
proof -
  obtain jt ji params where j: "j = new_job p jt ji params now"
    and app: "db_jobs s' = db_jobs s @ [j]"
    and row: "job_row (j_id j) (db_jobs s') = Inr j"
    and ins: "insert_idempotency_key \<lparr>k_key = i_key k, k_route = i_route k,
         k_fingerprint = i_fingerprint k, k_job_id = j_id j, k_created_at = now,
         k_expires_at = now + IdempotencyWindow\<rparr> now (db_jobs s') (db_keys s) = Inr (db_keys s')"
    and ne: "i_key k \<noteq> []"
    using enqueue_tx_fresh [OF first] key by metis
  have hit: "live_idempotency_key (i_key k) t (db_keys s') = Inr \<lparr>k_key = i_key k,
      k_route = i_route k, k_fingerprint = i_fingerprint k, k_job_id = j_id j,
      k_created_at = now, k_expires_at = now + IdempotencyWindow\<rparr>"
    using find_unique_key [OF ins, of t] late by simp
  have live: "is_live (j_state j)" by (simp add: j new_job_def)
  have first_live: "live_job_for_subject (j_subject_type j) (j_subject_id j) (db_jobs s') = Inr j"
    if ok: "jobs_ok (db_jobs s')"
  proof -
    have "\<forall>x \<in> set (db_jobs s). \<not> (j_subject_type x = j_subject_type j
            \<and> j_subject_id x = j_subject_id j \<and> is_live (j_state x))"
    proof (intro ballI notI)
      fix x assume x: "x \<in> set (db_jobs s)" and m: "j_subject_type x = j_subject_type j
            \<and> j_subject_id x = j_subject_id j \<and> is_live (j_state x)"
      then have "x = j"
        using live_subject_unique [OF ok, of x j] live app by (auto simp: j_subject_def)
      with x ok app show False by (auto simp: jobs_ok_def)
    qed
    then show ?thesis
      using live by (simp add: live_job_for_subject_def app find_append_new)
  qed
  have blocked: "insert_job json_ok (new_job q qt qi v t) (db_jobs s') = Inl ErrConstraint"
    if "(qt, qi) = j_subject j" for v
  proof -
    have "\<not> one_live_per_subject (db_jobs s' @ [new_job q qt qi v t])"
      using that live app by (auto simp: one_live_per_subject_def j_subject_def new_job_def)
    then show ?thesis by (simp add: insert_job_def)
  qed
  show ?thesis
    using q hit ne row blocked first_live
    by (auto simp: enqueue_tx_def replay_lookup_def insert_with_collision_def j_subject_def
        Let_def)
qed

definition keyed_params :: "unit enqueue_params" where
  "keyed_params = (plain_params ''J'' ''D'')\<lparr>e_idempotency :=
     Some \<lparr>i_key = ''key'', i_route = ''/downloads'', i_fingerprint = ''body''\<rparr>\<rparr>"

theorem second_submission_never_enqueues_witness:
  "\<exists>s j. enqueue_tx (\<lambda>_. True) keyed_params 0 \<lparr>db_jobs = [], db_keys = [], db_domain = ()\<rparr>
            = Inr (s, (j, False))
       \<and> enqueue_tx (\<lambda>_. True) keyed_params 599999 s = Inr (s, (j, True))"
proof -
  have "\<exists>s j. enqueue_tx (\<lambda>_. True) keyed_params 0 \<lparr>db_jobs = [], db_keys = [], db_domain = ()\<rparr>
            = Inr (s, (j, False))"
    by (simp add: keyed_params_def plain_simps insert_idempotency_key_def
        live_idempotency_key_def)
  then show ?thesis
    using second_submission_never_enqueues [of "\<lambda>_. True" keyed_params 0
        "\<lparr>db_jobs = [], db_keys = [], db_domain = ()\<rparr>" _ _
        "\<lparr>i_key = ''key'', i_route = ''/downloads'', i_fingerprint = ''body''\<rparr>" 599999
        keyed_params SubjectDownload "''D''"]
    by (fastforce simp: keyed_params_def plain_params_def IdempotencyWindow_def)
qed

section \<open>Retry\<close>

text \<open>
  Retry gives a job that can be claimed again, or refuses. On success the job was failed,
  canceled or interrupted, and its row is queued for now with no lease, no pending cancel, no
  error and room for at least one more attempt; a live job is refused with
  \<open>ErrNotRetryable\<close>, a missing one with \<open>ErrNotFound\<close>, and a refusal changes nothing.
\<close>

theorem retry_makes_the_job_claimable:
  assumes ok: "jobs_ok (db_jobs s)"
  shows "(\<forall>s' out. retry_tx reg i now s = Inr (s', out) \<longrightarrow>
            (\<exists>j \<in> set (db_jobs s). j_id j = i \<and> retryable (j_state j)
               \<and> j_attempts out = j_attempts j)
          \<and> job_row i (db_jobs s') = Inr out \<and> j_state out = JobQueued \<and> j_run_after out = now
          \<and> j_lease_owner out = None \<and> \<not> j_cancel_requested out \<and> j_error_code out = None
          \<and> j_attempts out < j_max_attempts out)
     \<and> (\<forall>j. job_row i (db_jobs s) = Inr j \<and> \<not> retryable (j_state j) \<longrightarrow>
          retry_tx reg i now s = Inl ErrNotRetryable)
     \<and> (job_row i (db_jobs s) = Inl ErrNotFound \<longrightarrow> retry_tx reg i now s = Inl ErrNotFound)
     \<and> (\<forall>e. retry_tx reg i now s = Inl e \<longrightarrow> transact (retry_tx reg i now) s = (s, Inl e))"
proof -
  define p where "p = (\<lambda>j :: job. j_id j = i \<and> retryable (j_state j))"
  define f where "f = (\<lambda>j :: job. drop_lease (j\<lparr>j_state := JobQueued, j_run_after := now,
      j_cancel_requested := False, j_error_code := None, j_error_message := None,
      j_finished_at := None, j_max_attempts := max (j_max_attempts j) (j_attempts j + 1)\<rparr>))"
  have rj: "retry_job i now js = bind_res (sql_update p f js) (\<lambda>(js', n). Inr (js', 0 < n))" for js
    by (simp add: retry_job_def p_def f_def)
  have good: "\<exists>j \<in> set (db_jobs s). j_id j = i \<and> retryable (j_state j)
       \<and> job_row i (db_jobs s') = Inr (f j) \<and> out = f j"
    if "retry_tx reg i now s = Inr (s', out)" for s' out
  proof -
    from that obtain j js n where j: "job_row i (db_jobs s) = Inr j"
      and u: "sql_update p f (db_jobs s) = Inr (js, n)" and n: "0 < n"
      and js: "db_jobs s' = js" and out: "job_row i js = Inr out"
      by (auto simp: retry_tx_def rj bind_Inr split: if_splits)
    from n u obtain x where "x \<in> set (db_jobs s)" "p x"
      by (auto simp: sql_update_Inr dest: length_pos_if_in_set)
        (metis length_greater_0_conv filter_False)
    with j ok have pj: "p j" by (auto simp: job_row_iff p_def dest: job_id_unique)
    moreover have "job_row i js = Inr (if p j then f j else j)"
      using u job_row_update [OF ok j, of p f] by (simp add: sql_update_Inr f_def)
    ultimately show ?thesis
      using j job_row_Inr [OF j] js out by (auto simp: p_def)
  qed
  have refuse: "retry_tx reg i now s = Inl ErrNotRetryable"
    if j: "job_row i (db_jobs s) = Inr j" and nr: "\<not> retryable (j_state j)" for j
  proof -
    have none: "\<not> p x" if "x \<in> set (db_jobs s)" for x
      using j nr that ok by (auto simp: p_def job_row_iff dest: job_id_unique)
    then have "update_rows p f (db_jobs s) = db_jobs s"
      by (auto simp: update_rows_def intro: map_idI)
    with none ok have "sql_update p f (db_jobs s) = Inr (db_jobs s, 0)"
      by (simp add: sql_update_def Let_def jobs_ok_def)
    with j show ?thesis by (simp add: retry_tx_def rj)
  qed
  have missing: "retry_tx reg i now s = Inl ErrNotFound"
    if "job_row i (db_jobs s) = Inl ErrNotFound"
    using that by (simp add: retry_tx_def)
  show ?thesis
    using refuse missing by (auto dest!: good simp: f_def transact_def)
qed

theorem retry_makes_the_job_claimable_witness:
  "retry_tx plain_registry ''J2'' 5 sample_db = Inl ErrNotRetryable"
  using retry_makes_the_job_claimable [OF sample_db_ok, of plain_registry "''J2''" 5]
  by (simp add: sample_db_def sample_job_def job_row_def retryable_def)

section \<open>The claim, on the sample rows\<close>

theorem lease_next_job_claims_first_ready_witness:
  "lease_next_job \<lparr>p_owner = ''boot'', p_kinds = [JobModelDownload], p_now = 5,
      p_lease_expires_at = 60005\<rparr> (db_jobs sample_db) = Inl ErrNotFound"
  using lease_next_job_claims_first_ready [OF sample_db_ok, of "\<lparr>p_owner = ''boot'',
      p_kinds = [JobModelDownload], p_now = 5, p_lease_expires_at = 60005\<rparr>"]
  by (simp add: sample_db_def sample_job_def leasable_def)

end
