(* ===== verification/Restart_Policy.thy ===== *)
theory Restart_Policy
  imports Prelude
begin

text \<open>
  The restart policy and the crash-loop cutoff of the instance supervisor
  (\<open>internal/supervisor/policy.go\<close>), with the enumerations it reads
  (\<open>internal/model/instances.go\<close>) and the derived \<open>inhibited\<close> badge of
  \<open>InstanceView.Derived\<close>. Instants are Unix milliseconds; durations are milliseconds,
  which every duration of this file is a whole number of.
\<close>

section \<open>The enumerations\<close>

datatype instance_state =
    InstanceUnknown | InstanceStopped | InstanceStarting | InstanceLoading
  | InstanceReady | InstanceDegraded | InstanceStopping | InstanceFailed
  | InstanceCrashLooping

text \<open>
  \<open>RestartPolicy\<close> is a Go string: a value outside the three named ones is possible in the
  type and has a branch of its own in \<open>EvaluateStart\<close>.
\<close>

datatype restart_policy =
    RestartAlways | RestartOnFailure | RestartNever | RestartOther string

datatype desired_state = DesiredRunning | DesiredStopped

datatype start_outcome = OutcomeFailed | OutcomeInhibited | OutcomeStopped

datatype inhibit_reason = InhibitPolicyNever | InhibitCrashLoop | InhibitCleanExit

datatype decision = DecideStart | DecideInhibit | DecideWait

section \<open>The policy\<close>

text \<open>
  Of \<open>LastClosed\<close>, a pointer to a ledger row, the policy reads the outcome alone: \<open>None\<close> is
  a nil row and \<open>Some None\<close> a row whose outcome is NULL.
\<close>

record start_input =
  si_state :: instance_state
  si_policy :: restart_policy
  si_restart_max :: int
  si_last_closed :: "start_outcome option option"
  si_failed_in_window :: int
  si_backoff_until :: "unix_ms option"
  si_runtime_ready :: bool
  si_now :: unix_ms

record start_verdict =
  sv_decision :: decision
  sv_reason :: "inhibit_reason option"
  sv_crash_looping :: bool

definition verdict_start :: start_verdict where
  "verdict_start = \<lparr>sv_decision = DecideStart, sv_reason = None, sv_crash_looping = False\<rparr>"

definition verdict_wait :: start_verdict where
  "verdict_wait = \<lparr>sv_decision = DecideWait, sv_reason = None, sv_crash_looping = False\<rparr>"

definition verdict_inhibit :: "inhibit_reason \<Rightarrow> bool \<Rightarrow> start_verdict" where
  "verdict_inhibit r l =
     \<lparr>sv_decision = DecideInhibit, sv_reason = Some r, sv_crash_looping = l\<rparr>"

definition backing_off :: "start_input \<Rightarrow> bool" where
  "backing_off i = (case si_backoff_until i of None \<Rightarrow> False | Some u \<Rightarrow> si_now i < u)"

definition evaluate_start :: "start_input \<Rightarrow> start_verdict" where
  "evaluate_start i =
     (if \<not> si_runtime_ready i then verdict_wait
      else if backing_off i then verdict_wait
      else if si_state i \<noteq> InstanceFailed \<and> si_state i \<noteq> InstanceCrashLooping then verdict_start
      else if si_state i = InstanceCrashLooping then verdict_inhibit InhibitCrashLoop False
      else if si_restart_max i < si_failed_in_window i then verdict_inhibit InhibitCrashLoop True
      else (case si_policy i of
              RestartAlways \<Rightarrow> verdict_start
            | RestartNever \<Rightarrow> verdict_inhibit InhibitPolicyNever False
            | RestartOnFailure \<Rightarrow>
                (if si_last_closed i = Some (Some OutcomeStopped)
                 then verdict_inhibit InhibitCleanExit False else verdict_start)
            | RestartOther _ \<Rightarrow> verdict_start))"

section \<open>The backoff\<close>

definition BackoffMin :: int where "BackoffMin = 5000"
definition BackoffMax :: int where "BackoffMax = 300000"

text \<open>
  The loop \<open>for i := 1; i < failures; i++\<close> with its early return; \<open>n\<close> is the number of
  turns that are left.
\<close>

fun backoff_loop :: "nat \<Rightarrow> int \<Rightarrow> int" where
  "backoff_loop 0 d = d"
| "backoff_loop (Suc n) d = (if BackoffMax \<le> 2 * d then BackoffMax else backoff_loop n (2 * d))"

definition backoff_for :: "int \<Rightarrow> int" where
  "backoff_for failures =
     (if failures \<le> 1 then BackoffMin else backoff_loop (nat (failures - 1)) BackoffMin)"

definition crash_window_start :: "unix_ms \<Rightarrow> int \<Rightarrow> unix_ms \<Rightarrow> unix_ms" where
  "crash_window_start now window_sec reset_at =
     (let from = now - window_sec * 1000 in if from < reset_at then reset_at else from)"

section \<open>The derived badge\<close>

text \<open>The \<open>inhibited\<close> clause of \<open>InstanceView.Derived\<close>, on the fields it reads.\<close>

definition derived_inhibit ::
    "instance_state \<Rightarrow> desired_state \<Rightarrow> restart_policy \<Rightarrow> start_outcome option
     \<Rightarrow> inhibit_reason option" where
  "derived_inhibit st desired pol last_outcome =
     (if (st = InstanceFailed \<or> st = InstanceCrashLooping) \<and> desired = DesiredRunning
      then (if pol = RestartNever then Some InhibitPolicyNever
            else if st = InstanceCrashLooping then Some InhibitCrashLoop
            else if pol = RestartOnFailure \<and> last_outcome = Some OutcomeStopped
                 then Some InhibitCleanExit
            else None)
      else None)"

section \<open>Properties of the policy\<close>

lemmas verdict_defs = verdict_start_def verdict_wait_def verdict_inhibit_def

lemma verdict_decision [simp]:
  "sv_decision verdict_start = DecideStart"
  "sv_decision verdict_wait = DecideWait"
  "sv_decision (verdict_inhibit r l) = DecideInhibit"
  by (simp_all add: verdict_defs)

text \<open>A state that is not a failure is not a restart: the policy is not consulted.\<close>

lemma evaluate_start_not_failure:
  "si_runtime_ready i \<Longrightarrow> \<not> backing_off i \<Longrightarrow>
   si_state i \<noteq> InstanceFailed \<Longrightarrow> si_state i \<noteq> InstanceCrashLooping \<Longrightarrow>
   evaluate_start i = verdict_start"
  by (simp add: evaluate_start_def)

lemma evaluate_start_latched:
  "si_runtime_ready i \<Longrightarrow> \<not> backing_off i \<Longrightarrow> si_state i = InstanceCrashLooping \<Longrightarrow>
   evaluate_start i = verdict_inhibit InhibitCrashLoop False"
  by (simp add: evaluate_start_def)

lemma evaluate_start_wait_iff:
  "sv_decision (evaluate_start i) = DecideWait \<longleftrightarrow> \<not> si_runtime_ready i \<or> backing_off i"
  by (auto simp: evaluate_start_def split: restart_policy.splits)

lemma evaluate_start_reason_iff:
  "sv_reason (evaluate_start i) = None \<longleftrightarrow> sv_decision (evaluate_start i) \<noteq> DecideInhibit"
  by (auto simp: evaluate_start_def verdict_defs split: restart_policy.splits)

text \<open>The latch is set by the pass that finds the cutoff exceeded, and by no other.\<close>

lemma evaluate_start_crash_looping_iff:
  "sv_crash_looping (evaluate_start i) \<longleftrightarrow>
     si_runtime_ready i \<and> \<not> backing_off i \<and> si_state i = InstanceFailed
     \<and> si_restart_max i < si_failed_in_window i"
  by (auto simp: evaluate_start_def verdict_defs split: restart_policy.splits)

lemma backoff_loop_closed:
  assumes "0 < d" and "d < BackoffMax"
  shows "backoff_loop n d = min (d * 2 ^ n) BackoffMax"
  using assms
proof (induction n arbitrary: d)
  case 0
  then show ?case by simp
next
  case (Suc n)
  show ?case
  proof (cases "BackoffMax \<le> 2 * d")
    case True
    have "2 * d * 1 \<le> 2 * d * 2 ^ n"
      using Suc.prems by (intro mult_left_mono) auto
    with True show ?thesis by (simp add: mult.assoc mult.left_commute)
  next
    case False
    with Suc.prems Suc.IH [of "2 * d"] show ?thesis
      by (simp add: mult.assoc mult.left_commute)
  qed
qed

lemma backoff_for_exponential:
  "1 \<le> failures \<Longrightarrow> backoff_for failures = min (BackoffMin * 2 ^ nat (failures - 1)) BackoffMax"
  by (auto simp: backoff_for_def backoff_loop_closed BackoffMin_def BackoffMax_def)

text \<open>
  The retry interval of a failing instance doubles from five seconds with each
  failure in the window, saturates at five minutes, never decreases as failures
  accumulate, and is never shorter than the minimum, whatever the count.
\<close>

theorem backoff_for_doubles_and_saturates:
  shows "backoff_for failures =
           (if failures \<le> 1 then BackoffMin
            else min (BackoffMin * 2 ^ nat (failures - 1)) BackoffMax)
         \<and> BackoffMin \<le> backoff_for failures \<and> backoff_for failures \<le> BackoffMax
         \<and> backoff_for failures \<le> backoff_for (failures + 1)"
proof -
  have closed: "backoff_for n = min (BackoffMin * 2 ^ nat (n - 1)) BackoffMax" for n
  proof (cases "1 \<le> n")
    case True
    then show ?thesis by (rule backoff_for_exponential)
  next
    case False
    then show ?thesis by (simp add: backoff_for_def BackoffMin_def BackoffMax_def)
  qed
  have pow: "(1::int) \<le> 2 ^ k" for k :: nat by simp
  have mono: "backoff_for failures \<le> backoff_for (failures + 1)"
    unfolding closed
    by (rule min.mono) (auto intro!: mult_left_mono power_increasing simp: BackoffMin_def)
  have low: "BackoffMin \<le> backoff_for failures"
    using pow [of "nat (failures - 1)"] by (simp add: closed BackoffMin_def BackoffMax_def)
  have closed_form: "backoff_for failures =
      (if failures \<le> 1 then BackoffMin
       else min (BackoffMin * 2 ^ nat (failures - 1)) BackoffMax)"
    by (simp add: closed) (simp add: BackoffMin_def BackoffMax_def)
  show ?thesis
    using mono low closed_form by (simp add: closed)
qed

text \<open>
  The \<open>inhibited\<close> badge a client sees agrees with the decision the supervisor takes:
  for an instance that is wanted running, whose runtime is ready, whose backoff has
  expired and whose crash-loop cutoff is not exceeded by failures the latch does not show
  yet, the badge carries exactly the reason of the verdict, unless the instance is latched
  \<open>crash-looping\<close> under the policy \<open>never\<close>, where the badge names the policy and the
  ledger row the crash loop.
\<close>

theorem badge_agrees_with_verdict:
  assumes "si_runtime_ready i" and "\<not> backing_off i"
    and "si_state i = InstanceFailed \<Longrightarrow> si_failed_in_window i \<le> si_restart_max i"
  shows "derived_inhibit (si_state i) DesiredRunning (si_policy i)
           (case si_last_closed i of None \<Rightarrow> None | Some r \<Rightarrow> r) =
         (if si_state i = InstanceCrashLooping \<and> si_policy i = RestartNever
          then Some InhibitPolicyNever else sv_reason (evaluate_start i))
         \<and> (si_state i = InstanceCrashLooping \<and> si_policy i = RestartNever \<longrightarrow>
             sv_reason (evaluate_start i) = Some InhibitCrashLoop)"
  using assms
  by (cases "si_state i")
    (auto simp: evaluate_start_def derived_inhibit_def verdict_defs
       split: restart_policy.splits option.splits)

definition sample_clean_exit :: start_input where
  "sample_clean_exit =
     \<lparr>si_state = InstanceFailed, si_policy = RestartOnFailure, si_restart_max = 3,
      si_last_closed = Some (Some OutcomeStopped), si_failed_in_window = 1,
      si_backoff_until = Some 900, si_runtime_ready = True, si_now = 1000\<rparr>"

theorem badge_agrees_with_verdict_witness:
  "sv_reason (evaluate_start sample_clean_exit) = Some InhibitCleanExit
   \<and> derived_inhibit InstanceFailed DesiredRunning RestartOnFailure (Some OutcomeStopped)
      = Some InhibitCleanExit"
proof -
  have "si_runtime_ready sample_clean_exit" and "\<not> backing_off sample_clean_exit"
    and "si_failed_in_window sample_clean_exit \<le> si_restart_max sample_clean_exit"
    by (simp_all add: sample_clean_exit_def backing_off_def)
  from badge_agrees_with_verdict [OF this] show ?thesis
    by (simp add: sample_clean_exit_def evaluate_start_def backing_off_def verdict_defs)
qed

text \<open>The divergence C2 allows for is reached.\<close>

lemma badge_and_ledger_reason_differ:
  "\<exists>i. derived_inhibit (si_state i) DesiredRunning (si_policy i) None
        = Some InhibitPolicyNever
     \<and> sv_reason (evaluate_start i) = Some InhibitCrashLoop"
  by (rule exI [of _ "\<lparr>si_state = InstanceCrashLooping, si_policy = RestartNever,
        si_restart_max = 3, si_last_closed = None, si_failed_in_window = 4,
        si_backoff_until = None, si_runtime_ready = True, si_now = 0\<rparr>"])
    (simp add: derived_inhibit_def evaluate_start_def backing_off_def verdict_defs)

end
