(* ===== verification/Start_Ledger.thy ===== *)
theory Start_Ledger
  imports Restart_Policy "HOL-Library.Char_ord" "HOL-Library.List_Lexorder"
    "HOL-Library.Product_Lexorder"
begin

text \<open>
  The start ledger (\<open>internal/store/instancestarts.go\<close>) with the row of
  \<open>internal/model/instances.go\<close> and the exit-code contract of
  \<open>internal/supervisor/contract.go\<close>. The table is the list of its rows; the primary key and
  the partial unique index \<open>idx_instance_starts_open\<close> are the two constraints a statement can
  fail on.
\<close>

section \<open>Rows\<close>

datatype start_trigger =
    StartByUser | StartByAutostart | StartBySupervisorRestart | StartByRolling
  | StartByBenchRestore | StartBySafeStart | StartByExternal

record start_row =
  st_id :: string
  st_instance_id :: string
  st_at :: unix_ms
  st_trigger :: start_trigger
  st_config_hash :: string
  st_effective_config_hash :: "string option"
  st_override_json :: "string option"
  st_argv_json :: "string option"
  st_llamacpp_version_id :: "string option"
  st_ready_at :: "unix_ms option"
  st_outcome :: "start_outcome option"
  st_exit_code :: "int option"
  st_error_code :: "string option"
  st_error_message :: "string option"
  st_detail_json :: "string option"
  st_ended_at :: "unix_ms option"

type_synonym ledger = "start_row list"

record start_closure =
  c_outcome :: start_outcome
  c_exit_code :: "int option"
  c_error_code :: "string option"
  c_error_message :: "string option"
  c_detail_json :: "string option"
  c_ended_at :: unix_ms

section \<open>Exit statuses and error codes\<close>

definition ExitInstanceMissing :: int where "ExitInstanceMissing = 64"
definition ExitBadFlags :: int where "ExitBadFlags = 65"
definition ExitRuntimeMissing :: int where "ExitRuntimeMissing = 69"
definition ExitDBUnavailable :: int where "ExitDBUnavailable = 70"
definition ExitModelMissing :: int where "ExitModelMissing = 72"
definition ExitSchemaMismatch :: int where "ExitSchemaMismatch = 75"
definition ExitPortConflict :: int where "ExitPortConflict = 78"

lemmas exit_defs = ExitInstanceMissing_def ExitBadFlags_def ExitRuntimeMissing_def
  ExitDBUnavailable_def ExitModelMissing_def ExitSchemaMismatch_def ExitPortConflict_def

definition ErrBadFlags :: string where "ErrBadFlags = ''bad_flags''"
definition ErrRuntimeMissing :: string where "ErrRuntimeMissing = ''runtime_missing''"
definition ErrLauncherDBUnavailable :: string where
  "ErrLauncherDBUnavailable = ''launcher_db_unavailable''"
definition ErrModelMissing :: string where "ErrModelMissing = ''model_missing''"
definition ErrSchemaMismatch :: string where "ErrSchemaMismatch = ''schema_mismatch''"
definition ErrPortConflict :: string where "ErrPortConflict = ''port_conflict''"
definition ErrDaemonRestarted :: string where "ErrDaemonRestarted = ''daemon_restarted''"
definition ErrStartTimeout :: string where "ErrStartTimeout = ''start_timeout''"
definition ErrUnitFailed :: string where "ErrUnitFailed = ''unit_failed''"

definition synthesized_error_code :: "int \<Rightarrow> string option" where
  "synthesized_error_code status =
     (if status = ExitDBUnavailable then Some ErrLauncherDBUnavailable
      else if status = ExitSchemaMismatch then Some ErrSchemaMismatch
      else None)"

definition writes_own_ledger_row :: "int \<Rightarrow> bool" where
  "writes_own_ledger_row status \<longleftrightarrow>
     \<not> (status = ExitDBUnavailable \<or> status = ExitSchemaMismatch \<or> status = ExitInstanceMissing)"

definition launcher_error_code :: "int \<Rightarrow> string option" where
  "launcher_error_code status =
     (if status = ExitBadFlags then Some ErrBadFlags
      else if status = ExitRuntimeMissing then Some ErrRuntimeMissing
      else if status = ExitModelMissing then Some ErrModelMissing
      else if status = ExitPortConflict then Some ErrPortConflict
      else None)"

section \<open>Statements\<close>

definition is_open :: "start_row \<Rightarrow> bool" where
  "is_open r \<longleftrightarrow> st_outcome r = None"

definition insert_start :: "start_row \<Rightarrow> ledger \<Rightarrow> ledger option" where
  "insert_start r rows =
     (if st_id r \<in> set (map st_id rows)
         \<or> (is_open r \<and> (\<exists>x \<in> set rows. is_open x \<and> st_instance_id x = st_instance_id r))
      then None else Some (rows @ [r]))"

definition apply_closure :: "start_closure \<Rightarrow> start_row \<Rightarrow> start_row" where
  "apply_closure c r = r\<lparr>st_outcome := Some (c_outcome c), st_exit_code := c_exit_code c,
     st_error_code := c_error_code c, st_error_message := c_error_message c,
     st_detail_json := c_detail_json c, st_ended_at := Some (c_ended_at c)\<rparr>"

definition close_start :: "string \<Rightarrow> start_closure \<Rightarrow> ledger \<Rightarrow> ledger \<times> bool" where
  "close_start i c rows =
     (map (\<lambda>r. if st_id r = i \<and> is_open r then apply_closure c r else r) rows,
      \<exists>r \<in> set rows. st_id r = i \<and> is_open r)"

definition close_open_start :: "string \<Rightarrow> start_closure \<Rightarrow> ledger \<Rightarrow> ledger \<times> bool" where
  "close_open_start inst c rows =
     (map (\<lambda>r. if st_instance_id r = inst \<and> is_open r then apply_closure c r else r) rows,
      \<exists>r \<in> set rows. st_instance_id r = inst \<and> is_open r)"

definition stamp_ready :: "string \<Rightarrow> unix_ms \<Rightarrow> ledger \<Rightarrow> ledger \<times> bool" where
  "stamp_ready i at rows =
     (map (\<lambda>r. if st_id r = i \<and> is_open r \<and> st_ready_at r = None
                then r\<lparr>st_ready_at := Some at\<rparr> else r) rows,
      \<exists>r \<in> set rows. st_id r = i \<and> is_open r \<and> st_ready_at r = None)"

definition update_start_render ::
    "string \<Rightarrow> string option \<Rightarrow> string option \<Rightarrow> string option \<Rightarrow> ledger \<Rightarrow> ledger \<times> bool" where
  "update_start_render i argv hash version rows =
     (map (\<lambda>r. if st_id r = i \<and> is_open r
                then r\<lparr>st_argv_json := argv, st_effective_config_hash := hash,
                       st_llamacpp_version_id := version\<rparr> else r) rows,
      \<exists>r \<in> set rows. st_id r = i \<and> is_open r)"

definition open_start :: "string \<Rightarrow> ledger \<Rightarrow> start_row option" where
  "open_start inst rows = find (\<lambda>r. st_instance_id r = inst \<and> is_open r) rows"

definition newest_first :: "start_row list \<Rightarrow> start_row list" where
  "newest_first rows = rev (sort_key (\<lambda>r. (st_at r, st_id r)) rows)"

definition is_run_closed :: "string \<Rightarrow> start_row \<Rightarrow> bool" where
  "is_run_closed inst r \<longleftrightarrow> st_instance_id r = inst
     \<and> st_outcome r \<noteq> None \<and> st_outcome r \<noteq> Some OutcomeInhibited"

definition last_closed_start :: "string \<Rightarrow> ledger \<Rightarrow> start_row option" where
  "last_closed_start inst rows =
     (case newest_first (filter (is_run_closed inst) rows) of [] \<Rightarrow> None | r # _ \<Rightarrow> Some r)"

definition DefaultStartLimit :: int where "DefaultStartLimit = 100"

definition instance_starts :: "string \<Rightarrow> int \<Rightarrow> ledger \<Rightarrow> start_row list" where
  "instance_starts inst limit rows =
     take (nat (if limit \<le> 0 then DefaultStartLimit else limit))
       (newest_first (filter (\<lambda>r. st_instance_id r = inst) rows))"

definition crash_loop_excluded :: "string list" where
  "crash_loop_excluded = [''schema_mismatch'', ''schema_ahead'', ''launcher_superseded'']"

definition counts_as_failure :: "string \<Rightarrow> unix_ms \<Rightarrow> start_row \<Rightarrow> bool" where
  "counts_as_failure inst after r \<longleftrightarrow>
     st_instance_id r = inst \<and> st_outcome r = Some OutcomeFailed \<and> after < st_at r
   \<and> (case st_error_code r of None \<Rightarrow> True | Some c \<Rightarrow> c \<notin> set crash_loop_excluded)"

definition count_failed_starts_since :: "string \<Rightarrow> unix_ms \<Rightarrow> ledger \<Rightarrow> int" where
  "count_failed_starts_since inst after rows =
     int (length (filter (counts_as_failure inst after) rows))"

definition has_inhibited_start_since :: "string \<Rightarrow> string \<Rightarrow> unix_ms \<Rightarrow> ledger \<Rightarrow> bool" where
  "has_inhibited_start_since inst reason after rows \<longleftrightarrow>
     (\<exists>r \<in> set rows. st_instance_id r = inst \<and> st_outcome r = Some OutcomeInhibited
        \<and> st_error_code r = Some reason \<and> after < st_at r)"

definition instances_with_open_starts :: "ledger \<Rightarrow> string list" where
  "instances_with_open_starts rows = sort (map st_instance_id (filter is_open rows))"

section \<open>The invariant and the history\<close>

definition ledger_ok :: "ledger \<Rightarrow> bool" where
  "ledger_ok rows \<longleftrightarrow> distinct (map st_id rows)
     \<and> distinct (map st_instance_id (filter is_open rows))"

text \<open>A closed row is never touched again.\<close>

definition history_kept :: "ledger \<Rightarrow> ledger \<Rightarrow> bool" where
  "history_kept rows rows' \<longleftrightarrow>
     (\<forall>r \<in> set rows. \<not> is_open r \<longrightarrow> r \<in> set rows')
   \<and> (\<forall>r \<in> set rows. \<exists>r' \<in> set rows'. st_id r' = st_id r \<and> st_at r' = st_at r
        \<and> st_instance_id r' = st_instance_id r)"

lemma history_refl [simp]: "history_kept rows rows"
  by (auto simp: history_kept_def)

lemma history_trans: "history_kept a b \<Longrightarrow> history_kept b c \<Longrightarrow> history_kept a c"
  unfolding history_kept_def by (metis (no_types, lifting))

text \<open>A statement that rewrites open rows only keeps ids, times and every closed row.\<close>

lemma history_map:
  assumes "\<And>r. \<not> is_open r \<Longrightarrow> f r = r"
    and "\<And>r. st_id (f r) = st_id r \<and> st_at (f r) = st_at r \<and> st_instance_id (f r) = st_instance_id r"
  shows "history_kept rows (map f rows)"
  using assms unfolding history_kept_def
  by (auto simp: image_iff) (metis)+

lemma ledger_ok_map:
  assumes "ledger_ok rows" and "\<And>r. st_id (f r) = st_id r \<and> st_instance_id (f r) = st_instance_id r"
    and "\<And>r. is_open (f r) \<Longrightarrow> is_open r"
  shows "ledger_ok (map f rows)"
proof -
  have ids: "map (st_id \<circ> f) rows = map st_id rows" using assms(2) by simp
  have "set (map st_instance_id (filter is_open (map f xs)))
          \<subseteq> set (map st_instance_id (filter is_open xs))
      \<and> (distinct (map st_instance_id (filter is_open xs)) \<longrightarrow>
          distinct (map st_instance_id (filter is_open (map f xs))))" for xs
    using assms(2,3) by (induction xs) auto
  with assms(1) show ?thesis unfolding ledger_ok_def map_map ids by blast
qed

lemma apply_closure_sel [simp]:
  "st_id (apply_closure c r) = st_id r" "st_at (apply_closure c r) = st_at r"
  "st_instance_id (apply_closure c r) = st_instance_id r" "\<not> is_open (apply_closure c r)"
  "st_outcome (apply_closure c r) = Some (c_outcome c)"
  "st_exit_code (apply_closure c r) = c_exit_code c"
  "st_detail_json (apply_closure c r) = c_detail_json c"
  "st_ended_at (apply_closure c r) = Some (c_ended_at c)"
  by (simp_all add: apply_closure_def is_open_def)

lemma close_start_ok [inv_intros]:
  "ledger_ok rows \<Longrightarrow> ledger_ok (fst (close_start i c rows))"
  by (auto simp: close_start_def intro!: ledger_ok_map split: if_splits)

lemma close_start_history: "history_kept rows (fst (close_start i c rows))"
  by (auto simp: close_start_def intro!: history_map)

lemma close_open_start_ok [inv_intros]:
  "ledger_ok rows \<Longrightarrow> ledger_ok (fst (close_open_start i c rows))"
  by (auto simp: close_open_start_def intro!: ledger_ok_map split: if_splits)

lemma close_open_start_history: "history_kept rows (fst (close_open_start i c rows))"
  by (auto simp: close_open_start_def intro!: history_map)

lemma stamp_ready_ok [inv_intros]:
  "ledger_ok rows \<Longrightarrow> ledger_ok (fst (stamp_ready i at rows))"
  by (auto simp: stamp_ready_def is_open_def intro!: ledger_ok_map split: if_splits)

lemma stamp_ready_history: "history_kept rows (fst (stamp_ready i at rows))"
  by (auto simp: stamp_ready_def intro!: history_map)

lemma insert_start_ok [inv_intros]:
  "ledger_ok rows \<Longrightarrow> insert_start r rows = Some rows' \<Longrightarrow> ledger_ok rows'"
  by (auto simp: insert_start_def ledger_ok_def split: if_splits) metis

lemma insert_start_history: "insert_start r rows = Some rows' \<Longrightarrow> history_kept rows rows'"
  by (auto simp: insert_start_def history_kept_def split: if_splits)

text \<open>The row \<open>LAST_CLOSED\<close> names.\<close>

lemma last_closed_start_Some:
  assumes "last_closed_start inst rows = Some r"
  shows "r \<in> set rows \<and> is_run_closed inst r
     \<and> (\<forall>x \<in> set rows. is_run_closed inst x \<longrightarrow> (st_at x, st_id x) \<le> (st_at r, st_id r))"
proof -
  let ?k = "\<lambda>r. (st_at r, st_id r)" and ?f = "filter (is_run_closed inst) rows"
  from assms obtain rs where rs: "rev (sort_key ?k ?f) = r # rs"
    by (auto simp: last_closed_start_def newest_first_def split: list.splits)
  then have s: "sort_key ?k ?f = rev rs @ [r]" by (simp add: rev_swap)
  have set: "set (rev rs @ [r]) = {x \<in> set rows. is_run_closed inst x}"
    using arg_cong [OF s, of set] by auto
  have "sorted (map ?k (rev rs @ [r]))" using s by (metis sorted_sort_key)
  then have "\<forall>x \<in> set (rev rs @ [r]). ?k x \<le> ?k r" by (auto simp: sorted_append)
  with set show ?thesis by auto
qed

end
