(* ===== verification/Supervisor.thy ===== *)
theory Supervisor
  imports Start_Ledger
begin

text \<open>
  One reconcile pass of the instance supervisor (\<open>internal/supervisor\<close>: \<open>reconcile.go\<close>,
  \<open>act.go\<close>, \<open>health.go\<close>): observe, record in one transaction, then act at most once. The state
  is the instance row, its observed status, the ledger table and the supervisor's memory for
  this instance; what the pass reads from outside (systemd, the probe, settings, other
  instances' ports) and whether its two transactions commit are the environment. The GPU
  attribution and the fit observation of the pass write columns that no decision reads and are
  left out, with those columns.
\<close>

section \<open>The instance, its status and the supervisor's memory\<close>

record inst =
  in_id :: string
  in_name :: string
  in_internal_port :: int
  in_autostart :: bool
  in_restart_policy :: restart_policy
  in_restart_max :: int
  in_restart_window :: int
  in_config_hash :: string
  in_desired :: desired_state
  in_pending_trigger :: "start_trigger option"
  in_pending_override :: "string option"
  in_updated_at :: unix_ms
  in_deleted_at :: "unix_ms option"

record istatus =
  os_state :: instance_state
  os_systemd_active :: "string option"
  os_systemd_sub :: "string option"
  os_systemd_result :: "string option"
  os_main_pid :: "int option"
  os_exe_version :: "string option"
  os_applied_hash :: "string option"
  os_ready_at :: "unix_ms option"
  os_last_change :: unix_ms
  os_last_health :: "unix_ms option"
  os_health_code :: "int option"
  os_slots_total :: "int option"
  os_ctx_size :: "int option"
  os_last_exit :: "int option"
  os_last_error :: "string option"
  os_backoff_until :: "unix_ms option"
  os_window_reset :: unix_ms

record sup =
  u_inst :: inst
  u_status :: istatus
  u_rows :: ledger
  u_fails :: int
  u_timed_out :: "string list"
  u_synthesized :: "unix_ms option"
  u_applied_autostart :: "bool option"
  u_events :: "string list"

section \<open>Observation\<close>

datatype unit_state =
  UnitUnknown | UnitInactive | UnitActivating | UnitActive | UnitDeactivating | UnitFailed

definition active_state_of :: "string \<Rightarrow> unit_state" where
  "active_state_of s =
     (if s = ''active'' \<or> s = ''reloading'' then UnitActive
      else if s = ''activating'' then UnitActivating
      else if s = ''deactivating'' then UnitDeactivating
      else if s = ''failed'' then UnitFailed
      else if s = ''inactive'' then UnitInactive
      else UnitUnknown)"

fun active_state_name :: "unit_state \<Rightarrow> string" where
  "active_state_name UnitActive = ''active''"
| "active_state_name UnitActivating = ''activating''"
| "active_state_name UnitDeactivating = ''deactivating''"
| "active_state_name UnitFailed = ''failed''"
| "active_state_name UnitInactive = ''inactive''"
| "active_state_name UnitUnknown = ''unknown''"

record unit_props =
  p_active_state :: string
  p_sub_state :: string
  p_result :: string
  p_main_pid :: int
  p_exec_main_status :: int
  p_exec_main_exit :: "unix_ms option"

definition no_props :: unit_props where
  "no_props = \<lparr>p_active_state = [], p_sub_state = [], p_result = [], p_main_pid = 0,
     p_exec_main_status = 0, p_exec_main_exit = None\<rparr>"

record observation =
  ob_unit :: unit_state
  ob_props :: unit_props
  ob_health :: int
  ob_probed :: bool
  ob_server :: "(int option \<times> int option) option"

definition health_ok :: "int \<Rightarrow> bool" where "health_ok code \<longleftrightarrow> code = 200"
definition health_loading :: "int \<Rightarrow> bool" where "health_loading code \<longleftrightarrow> code = 503"

text \<open>
  \<open>control\<close> says whether there is a control channel, \<open>props\<close> is what it answers, \<open>code\<close> and
  \<open>server\<close> are what \<open>/health\<close> and \<open>/props\<close> would answer to a probe.
\<close>

definition observe ::
    "bool \<Rightarrow> unit_props option \<Rightarrow> int \<Rightarrow> (int option \<times> int option) option \<Rightarrow> istatus
     \<Rightarrow> observation" where
  "observe control props code server st =
     (let blind = \<lparr>ob_unit = UnitUnknown, ob_props = no_props, ob_health = 0,
                   ob_probed = False, ob_server = None\<rparr>
      in if \<not> control then blind
         else case props of
                None \<Rightarrow> blind
              | Some p \<Rightarrow>
                  (let u = active_state_of (p_active_state p)
                   in if u \<noteq> UnitActive
                      then \<lparr>ob_unit = u, ob_props = p, ob_health = 0, ob_probed = False,
                            ob_server = None\<rparr>
                      else \<lparr>ob_unit = u, ob_props = p, ob_health = code, ob_probed = True,
                            ob_server = (if health_ok code \<and> os_state st \<noteq> InstanceReady
                                         then server else None)\<rparr>))"

section \<open>The environment of a pass\<close>

record penv =
  pe_now :: unix_ms
  pe_control :: bool
  pe_runtime_ready :: bool
  pe_active_id :: string
  pe_active_dir :: string
  pe_exe :: "int \<Rightarrow> string option"
  pe_start_timeout :: "int option"
  pe_port_min :: "int option"
  pe_port_max :: "int option"
  pe_holders :: "(string \<times> int \<times> int) list"
  pe_probe :: "int \<Rightarrow> bool"
  pe_detail_port :: "string \<Rightarrow> int option"
  pe_manage_units :: bool
  pe_enabled :: "bool option"
  pe_enable_ok :: bool
  pe_synth_id :: string
  pe_refusal_id :: string
  pe_record_ok :: bool
  pe_act_ok :: bool

definition setting_int :: "int option \<Rightarrow> int \<Rightarrow> int" where
  "setting_int v def = (case v of None \<Rightarrow> def | Some x \<Rightarrow> if x \<le> 0 then def else x)"

section \<open>Record\<close>

definition prefix_of :: "string \<Rightarrow> string \<Rightarrow> bool" where
  "prefix_of d s \<longleftrightarrow> take (length d) s = d"

text \<open>\<open>strings.Index\<close>: what follows the first occurrence of \<open>d\<close>, when there is one.\<close>

fun after_first :: "string \<Rightarrow> string \<Rightarrow> string option" where
  "after_first d [] = (if d = [] then Some [] else None)"
| "after_first d (c # cs) =
     (if prefix_of d (c # cs) then Some (drop (length d) (c # cs)) else after_first d cs)"

definition exe_version_id :: "string \<Rightarrow> string" where
  "exe_version_id exe =
     (case after_first ''/versions/'' exe of
        None \<Rightarrow> exe
      | Some rest \<Rightarrow> takeWhile (\<lambda>c. c \<noteq> CHR ''/'') rest)"

definition stamp_exe_version :: "penv \<Rightarrow> observation \<Rightarrow> istatus \<Rightarrow> istatus" where
  "stamp_exe_version e obs next =
     (let pid = p_main_pid (ob_props obs)
      in if pid = 0 then next
         else case pe_exe e pid of
                None \<Rightarrow> next
              | Some exe \<Rightarrow>
                  if pe_active_dir e = [] then next
                  else if length (pe_active_dir e) < length exe \<and> prefix_of (pe_active_dir e) exe
                  then next\<lparr>os_exe_version := Some (pe_active_id e)\<rparr>
                  else next\<lparr>os_exe_version := Some (exe_version_id exe)\<rparr>)"

definition exit_instant :: "unix_ms \<Rightarrow> observation \<Rightarrow> unix_ms" where
  "exit_instant now obs =
     (case p_exec_main_exit (ob_props obs) of None \<Rightarrow> now | Some t \<Rightarrow> t)"

definition ledger_closure ::
    "inst \<Rightarrow> observation \<Rightarrow> start_row option \<Rightarrow> string list \<Rightarrow> unix_ms \<Rightarrow> start_closure option" where
  "ledger_closure i obs open timed now =
     (case open of
        None \<Rightarrow> None
      | Some r \<Rightarrow>
          if ob_unit obs \<noteq> UnitInactive \<and> ob_unit obs \<noteq> UnitFailed then None
          else
            let status = p_exec_main_status (ob_props obs);
                result = p_result (ob_props obs);
                c = \<lparr>c_outcome = OutcomeStopped, c_exit_code = Some status, c_error_code = None,
                     c_error_message = None, c_detail_json = None,
                     c_ended_at = exit_instant now obs\<rparr>
            in if in_desired i = DesiredStopped then Some c
               else if st_id r \<in> set timed
               then Some (c\<lparr>c_outcome := OutcomeFailed, c_error_code := Some ErrStartTimeout,
                     c_error_message :=
                       Some ''the instance did not become ready within start_timeout_sec''\<rparr>)
               else if status \<noteq> 0 \<or> (result \<noteq> [] \<and> result \<noteq> ''success'')
               then Some (c\<lparr>c_outcome := OutcomeFailed,
                     c_error_code :=
                       (case (if writes_own_ledger_row status \<and> status \<noteq> 0 \<and> st_argv_json r = None
                              then launcher_error_code status else None) of
                          None \<Rightarrow> Some ErrUnitFailed | Some code \<Rightarrow> Some code)\<rparr>)
               else Some c)"

text \<open>The state, the failure count and whether this pass gave the open row up.\<close>

definition derive_state ::
    "inst \<Rightarrow> istatus \<Rightarrow> observation \<Rightarrow> start_row option \<Rightarrow> int \<Rightarrow> int \<Rightarrow> unix_ms
     \<Rightarrow> instance_state \<times> int \<times> bool" where
  "derive_state i st obs open fails0 timeout now =
     (case ob_unit obs of
        UnitUnknown \<Rightarrow> (InstanceUnknown, 0, False)
      | UnitActivating \<Rightarrow> (InstanceStarting, 0, False)
      | UnitDeactivating \<Rightarrow> (InstanceStopping, 0, False)
      | UnitActive \<Rightarrow>
          if health_ok (ob_health obs) then (InstanceReady, 0, False)
          else if health_loading (ob_health obs) then (InstanceLoading, 0, False)
          else
            let fails = fails0 + 1
            in if os_state st = InstanceReady \<or> os_state st = InstanceDegraded
               then (if 3 \<le> fails then InstanceDegraded else os_state st, fails, False)
               else if (case open of None \<Rightarrow> False
                        | Some r \<Rightarrow> st_ready_at r = None \<and> timeout * 1000 < now - st_at r)
               then (InstanceFailed, fails, True)
               else if os_state st = InstanceLoading then (InstanceLoading, fails, False)
               else (InstanceStarting, fails, False)
      | _ \<Rightarrow>
          if in_desired i = DesiredStopped then (InstanceStopped, 0, False)
          else if os_state st = InstanceCrashLooping \<or> os_state st = InstanceFailed
          then (os_state st, 0, False)
          else if ob_unit obs = UnitFailed then (InstanceFailed, 0, False)
          else if open \<noteq> None then (InstanceFailed, 0, False)
          else (InstanceStopped, 0, False))"

definition synth_message :: string where
  "synth_message = ''the launcher exited before it could open a start row''"

text \<open>
  \<open>synthesizeIfOwed\<close>: the supervisor's memory after it, and the row it inserts. The memory
  changes whether or not the transaction commits.
\<close>

definition synthesize_if_owed ::
    "penv \<Rightarrow> inst \<Rightarrow> observation \<Rightarrow> start_row option \<Rightarrow> start_row option \<Rightarrow> unix_ms option
     \<Rightarrow> unix_ms option \<times> start_row option" where
  "synthesize_if_owed e i obs open prev memory =
     (if ob_unit obs \<noteq> UnitFailed \<or> open \<noteq> None then (None, None)
      else case synthesized_error_code (p_exec_main_status (ob_props obs)) of
             None \<Rightarrow> (memory, None)
           | Some code \<Rightarrow>
               let at = exit_instant (pe_now e) obs
               in if memory = Some at then (memory, None)
                  else if (case prev of None \<Rightarrow> False
                           | Some r \<Rightarrow> (case st_ended_at r of None \<Rightarrow> False | Some t \<Rightarrow> at \<le> t))
                  then (Some at, None)
                  else (Some at, Some \<lparr>st_id = pe_synth_id e, st_instance_id = in_id i, st_at = at,
                          st_trigger = StartByExternal, st_config_hash = in_config_hash i,
                          st_effective_config_hash = None, st_override_json = None,
                          st_argv_json = None, st_llamacpp_version_id = None, st_ready_at = None,
                          st_outcome = Some OutcomeFailed,
                          st_exit_code = Some (p_exec_main_status (ob_props obs)),
                          st_error_code = Some code, st_error_message = Some synth_message,
                          st_detail_json = None, st_ended_at = Some at\<rparr>))"

definition ReadySettleSec :: int where "ReadySettleSec = 60"

definition first_ready :: "observation \<Rightarrow> start_row option \<Rightarrow> bool" where
  "first_ready obs open \<longleftrightarrow> ob_probed obs \<and> health_ok (ob_health obs)
     \<and> (case open of None \<Rightarrow> False | Some r \<Rightarrow> st_ready_at r = None)"

text \<open>The columns of the status row, in the order the record phase fills them.\<close>

definition unit_columns :: "penv \<Rightarrow> observation \<Rightarrow> istatus \<Rightarrow> istatus" where
  "unit_columns e obs st =
     (let known = ob_unit obs \<noteq> UnitUnknown; p = ob_props obs
      in st\<lparr>os_systemd_active := (if known then Some (active_state_name (ob_unit obs)) else None),
            os_systemd_sub := (if known then Some (p_sub_state p) else None),
            os_systemd_result := (if known then Some (p_result p) else None),
            os_main_pid := (if known \<and> p_main_pid p \<noteq> 0 then Some (p_main_pid p) else None)\<rparr>)"

definition probe_columns :: "penv \<Rightarrow> observation \<Rightarrow> istatus \<Rightarrow> istatus" where
  "probe_columns e obs st =
     (if ob_probed obs
      then st\<lparr>os_last_health := Some (pe_now e), os_health_code := Some (ob_health obs)\<rparr> else st)"

definition state_columns :: "penv \<Rightarrow> instance_state \<Rightarrow> istatus \<Rightarrow> istatus" where
  "state_columns e state' st =
     st\<lparr>os_last_change := (if state' \<noteq> os_state st then pe_now e else os_last_change st),
        os_ready_at := (if state' = InstanceReady \<and> os_state st \<noteq> InstanceReady
                        then Some (pe_now e) else os_ready_at st),
        os_state := state'\<rparr>"

definition applied_column :: "observation \<Rightarrow> start_row option \<Rightarrow> istatus \<Rightarrow> istatus" where
  "applied_column obs open st =
     (if first_ready obs open
      then (case Option.bind open st_effective_config_hash of
              None \<Rightarrow> st | Some h \<Rightarrow> st\<lparr>os_applied_hash := Some h\<rparr>)
      else st)"

definition server_columns :: "observation \<Rightarrow> istatus \<Rightarrow> istatus" where
  "server_columns obs st =
     (case ob_server obs of None \<Rightarrow> st
      | Some (ctx, slots) \<Rightarrow> st\<lparr>os_ctx_size := ctx, os_slots_total := slots\<rparr>)"

definition closure_columns :: "start_closure option \<Rightarrow> istatus \<Rightarrow> istatus" where
  "closure_columns closure st =
     (case closure of None \<Rightarrow> st
      | Some c \<Rightarrow> if c_exit_code c \<noteq> None
                  then st\<lparr>os_last_exit := c_exit_code c, os_last_error := c_error_code c\<rparr> else st)"

definition window_column :: "penv \<Rightarrow> start_row option \<Rightarrow> istatus \<Rightarrow> istatus" where
  "window_column e open st =
     (case Option.bind open st_ready_at of None \<Rightarrow> st
      | Some ra \<Rightarrow> if ReadySettleSec \<le> pe_now e div 1000 - ra div 1000 \<and> os_window_reset st < ra
                   then st\<lparr>os_window_reset := ra\<rparr> else st)"

definition next_status ::
    "penv \<Rightarrow> observation \<Rightarrow> istatus \<Rightarrow> instance_state \<Rightarrow> start_row option
     \<Rightarrow> start_closure option \<Rightarrow> istatus" where
  "next_status e obs st state' open closure =
     window_column e open (closure_columns closure (server_columns obs (applied_column obs open
       (state_columns e state' (stamp_exe_version e obs (probe_columns e obs
         (unit_columns e obs st)))))))"

text \<open>
  The record transaction on the ledger. It fails when the synthesized row breaks a constraint.
\<close>

definition settle_open ::
    "penv \<Rightarrow> start_row option \<Rightarrow> start_closure option \<Rightarrow> bool \<Rightarrow> ledger \<Rightarrow> ledger" where
  "settle_open e open closure ready rows =
     (case open of
        None \<Rightarrow> rows
      | Some r \<Rightarrow>
          let r1 = (case closure of None \<Rightarrow> rows | Some c \<Rightarrow> fst (close_start (st_id r) c rows))
          in if ready then fst (stamp_ready (st_id r) (pe_now e) r1) else r1)"

definition record_rows ::
    "penv \<Rightarrow> start_row option \<Rightarrow> start_closure option \<Rightarrow> bool \<Rightarrow> start_row option \<Rightarrow> ledger
     \<Rightarrow> ledger option" where
  "record_rows e open closure ready synth rows =
     (let settled = settle_open e open closure ready rows
      in case synth of None \<Rightarrow> Some settled | Some row \<Rightarrow> insert_start row settled)"

definition closed_row :: "start_row \<Rightarrow> start_closure \<Rightarrow> start_row" where
  "closed_row r c = apply_closure c r"

section \<open>Act\<close>

datatype action =
    ActStop | ActStart | ActEnable | ActDisable | ActMovePort int | ActPoolExhausted
  | ActInhibit inhibit_reason

fun inhibit_reason_text :: "inhibit_reason \<Rightarrow> string" where
  "inhibit_reason_text InhibitPolicyNever = ''policy_never''"
| "inhibit_reason_text InhibitCrashLoop = ''crash_loop''"
| "inhibit_reason_text InhibitCleanExit = ''clean_exit''"

definition quoted :: "string \<Rightarrow> string" where
  "quoted s = [CHR 0x27] @ s @ [CHR 0x27]"

fun inhibit_message :: "inhibit_reason \<Rightarrow> inst \<Rightarrow> string" where
  "inhibit_message InhibitPolicyNever i =
     ''not restarting '' @ in_name i @ '': restart_policy is '' @ quoted ''never''"
| "inhibit_message InhibitCrashLoop i =
     ''not restarting '' @ in_name i @ '': more than '' @ int_dec (in_restart_max i)
       @ '' failed starts in '' @ int_dec (in_restart_window i) @ '' s''"
| "inhibit_message InhibitCleanExit i =
     ''not restarting '' @ in_name i @ '': it exited cleanly and restart_policy is ''
       @ quoted ''on-failure''"

definition log_event :: "string \<Rightarrow> sup \<Rightarrow> sup" where
  "log_event a s = s\<lparr>u_events := u_events s @ [a]\<rparr>"

definition stop_if_running :: "observation \<Rightarrow> action list" where
  "stop_if_running obs =
     (if ob_unit obs = UnitActive \<or> ob_unit obs = UnitActivating then [ActStop] else [])"

text \<open>The stamp and the backoff are one transaction; only when it commits is the unit started.\<close>

definition start_instance :: "penv \<Rightarrow> int \<Rightarrow> sup \<Rightarrow> sup \<times> action list" where
  "start_instance e failed s =
     (if \<not> pe_act_ok e then (s, [])
      else (log_event ''start_requested''
              (s\<lparr>u_inst := (u_inst s)\<lparr>in_pending_trigger := Some StartBySupervisorRestart,
                              in_pending_override := None, in_updated_at := pe_now e\<rparr>,
                 u_status := (u_status s)\<lparr>os_backoff_until :=
                              Some (pe_now e + backoff_for (failed + 1))\<rparr>\<rparr>),
            [ActStart]))"

definition refusal_row :: "penv \<Rightarrow> inst \<Rightarrow> inhibit_reason \<Rightarrow> start_row" where
  "refusal_row e i reason =
     \<lparr>st_id = pe_refusal_id e, st_instance_id = in_id i, st_at = pe_now e,
      st_trigger = StartBySupervisorRestart, st_config_hash = in_config_hash i,
      st_effective_config_hash = None, st_override_json = None, st_argv_json = None,
      st_llamacpp_version_id = None, st_ready_at = None, st_outcome = Some OutcomeInhibited,
      st_exit_code = None, st_error_code = Some (inhibit_reason_text reason),
      st_error_message = Some (inhibit_message reason i), st_detail_json = None,
      st_ended_at = Some (pe_now e)\<rparr>"

definition inhibit ::
    "penv \<Rightarrow> start_row option \<Rightarrow> inhibit_reason \<Rightarrow> bool \<Rightarrow> sup \<Rightarrow> sup" where
  "inhibit e prev reason latch s =
     (let after = (case prev of None \<Rightarrow> 0 | Some r \<Rightarrow> st_at r);
          s1 = (if latch \<and> os_state (u_status s) \<noteq> InstanceCrashLooping
                then log_event ''crash_looping'' (s\<lparr>u_status := (u_status s)\<lparr>
                       os_state := InstanceCrashLooping, os_last_change := pe_now e\<rparr>\<rparr>)
                else s)
      in if \<not> pe_act_ok e then s
         else if has_inhibited_start_since (in_id (u_inst s)) (inhibit_reason_text reason) after
                (u_rows s)
         then log_event ''restart_inhibited'' s1
         else case insert_start (refusal_row e (u_inst s) reason) (u_rows s) of
                None \<Rightarrow> s
              | Some rows \<Rightarrow> log_event ''restart_inhibited'' (s1\<lparr>u_rows := rows\<rparr>))"

definition needs_port_reassignment :: "penv \<Rightarrow> inst \<Rightarrow> start_row option \<Rightarrow> bool" where
  "needs_port_reassignment e i prev =
     (case prev of
        None \<Rightarrow> False
      | Some r \<Rightarrow>
          if st_exit_code r \<noteq> Some ExitPortConflict then False
          else case st_detail_json r of
                 None \<Rightarrow> True
               | Some d \<Rightarrow> (case pe_detail_port e d of
                   None \<Rightarrow> True | Some p \<Rightarrow> p = in_internal_port i))"

definition ports_taken :: "penv \<Rightarrow> inst \<Rightarrow> int set" where
  "ports_taken e i =
     (\<Union>(h, pub, internal) \<in> set (pe_holders e). if h = in_id i then {} else {internal, pub})"

definition port_free :: "penv \<Rightarrow> inst \<Rightarrow> int \<Rightarrow> bool" where
  "port_free e i p \<longleftrightarrow> p \<noteq> in_internal_port i \<and> p \<notin> ports_taken e i \<and> pe_probe e p"

definition pick_port :: "penv \<Rightarrow> inst \<Rightarrow> int option" where
  "pick_port e i =
     (case find (port_free e i)
             [setting_int (pe_port_min e) 21000 .. setting_int (pe_port_max e) 21999] of
        None \<Rightarrow> None | Some p \<Rightarrow> if p = 0 then None else Some p)"

definition reassign_internal_port :: "penv \<Rightarrow> int \<Rightarrow> sup \<Rightarrow> sup" where
  "reassign_internal_port e p s =
     (if \<not> pe_act_ok e then s
      else log_event ''internal_port_reassigned''
        (if in_deleted_at (u_inst s) = None
         then s\<lparr>u_inst := (u_inst s)\<lparr>in_internal_port := p, in_updated_at := pe_now e\<rparr>\<rparr>
         else s))"

definition mark_port_pool_exhausted :: "penv \<Rightarrow> sup \<Rightarrow> sup" where
  "mark_port_pool_exhausted e s =
     (if \<not> pe_act_ok e then s
      else log_event ''internal_port_pool_exhausted''
        (s\<lparr>u_status := (u_status s)\<lparr>os_state := InstanceFailed, os_last_change := pe_now e,
             os_last_error := Some ErrPortConflict\<rparr>\<rparr>))"

text \<open>The verdict on the recorded state, and whether the pass's one action was taken.\<close>

definition start_verdict_of :: "penv \<Rightarrow> start_row option \<Rightarrow> sup \<Rightarrow> int \<times> start_verdict" where
  "start_verdict_of e prev s =
     (let i = u_inst s; st = u_status s;
          failed = count_failed_starts_since (in_id i)
                     (crash_window_start (pe_now e) (in_restart_window i) (os_window_reset st))
                     (u_rows s)
      in (failed, evaluate_start \<lparr>si_state = os_state st, si_policy = in_restart_policy i,
            si_restart_max = in_restart_max i, si_last_closed = map_option st_outcome prev,
            si_failed_in_window = failed, si_backoff_until = os_backoff_until st,
            si_runtime_ready = pe_runtime_ready e, si_now = pe_now e\<rparr>))"

definition start_if_policy_allows ::
    "penv \<Rightarrow> start_row option \<Rightarrow> sup \<Rightarrow> sup \<times> action list \<times> bool" where
  "start_if_policy_allows e prev s =
     (case start_verdict_of e prev s of (failed, v) \<Rightarrow>
      case sv_decision v of
        DecideWait \<Rightarrow> (s, [], False)
      | DecideInhibit \<Rightarrow>
          (case sv_reason v of
             None \<Rightarrow> (s, [], True)
           | Some reason \<Rightarrow>
               (inhibit e prev reason (sv_crash_looping v) s, [ActInhibit reason], True))
      | DecideStart \<Rightarrow>
          if needs_port_reassignment e (u_inst s) prev
          then (case pick_port e (u_inst s) of
                  Some p \<Rightarrow> (reassign_internal_port e p s, [ActMovePort p], True)
                | None \<Rightarrow> (mark_port_pool_exhausted e s, [ActPoolExhausted], True))
          else (case start_instance e failed s of (s', as) \<Rightarrow> (s', as, True)))"

definition reconcile_autostart :: "penv \<Rightarrow> sup \<Rightarrow> sup \<times> action list" where
  "reconcile_autostart e s =
     (let want = in_autostart (u_inst s)
      in if \<not> pe_manage_units e then (s, [])
         else if pe_enabled e = None \<and> u_applied_autostart s = Some want then (s, [])
         else if pe_enabled e = Some want then (s, [])
         else (if pe_enable_ok e then s\<lparr>u_applied_autostart := Some want\<rparr> else s,
               [if want then ActEnable else ActDisable]))"

definition act :: "penv \<Rightarrow> observation \<Rightarrow> start_row option \<Rightarrow> sup \<Rightarrow> sup \<times> action list" where
  "act e obs prev s =
     (if \<not> pe_control e \<or> ob_unit obs = UnitUnknown then (s, [])
      else if in_deleted_at (u_inst s) \<noteq> None then (s, stop_if_running obs)
      else if in_desired (u_inst s) = DesiredStopped
      then (if ob_unit obs = UnitActive \<or> ob_unit obs = UnitActivating
            then (s, stop_if_running obs)
            else (case reconcile_autostart e s of (s', as) \<Rightarrow> (s', stop_if_running obs @ as)))
      else if os_state (u_status s) \<in> {InstanceStopped, InstanceFailed, InstanceCrashLooping}
      then (case start_if_policy_allows e prev s of (s', as, acted) \<Rightarrow>
              if acted then (s', as)
              else (case reconcile_autostart e s' of (s'', as') \<Rightarrow> (s'', as @ as')))
      else reconcile_autostart e s)"

section \<open>The pass\<close>

text \<open>
  The memory of the supervisor changes before the record transaction commits; when the
  transaction fails the pass ends there, with the tables as they were.
\<close>

definition remember ::
    "observation \<Rightarrow> start_row option \<Rightarrow> int \<Rightarrow> bool \<Rightarrow> unix_ms option \<Rightarrow> sup \<Rightarrow> sup" where
  "remember obs open fails gave_up memory s =
     s\<lparr>u_fails := (if ob_unit obs = UnitActive then fails else 0),
       u_timed_out := (case open of None \<Rightarrow> u_timed_out s
                       | Some r \<Rightarrow> if gave_up then st_id r # u_timed_out s else u_timed_out s),
       u_synthesized := memory\<rparr>"

definition act_after_record ::
    "penv \<Rightarrow> observation \<Rightarrow> start_row option \<Rightarrow> start_closure option \<Rightarrow> start_row option \<Rightarrow> sup
     \<Rightarrow> sup \<times> action list" where
  "act_after_record e obs open closure prev s =
     (case (open, closure) of
        (Some r, Some c) \<Rightarrow> act e obs (Some (closed_row r c))
                              (s\<lparr>u_timed_out := removeAll (st_id r) (u_timed_out s)\<rparr>)
      | _ \<Rightarrow> act e obs prev s)"

definition pass :: "penv \<Rightarrow> observation \<Rightarrow> sup \<Rightarrow> sup \<times> action list" where
  "pass e obs s =
     (let i = u_inst s; st = u_status s;
          open = open_start (in_id i) (u_rows s);
          prev = last_closed_start (in_id i) (u_rows s);
          closure = ledger_closure i obs open (u_timed_out s) (pe_now e)
      in case derive_state i st obs open (u_fails s)
                (setting_int (pe_start_timeout e) 900) (pe_now e) of (state', fails, gave_up) \<Rightarrow>
         case synthesize_if_owed e i obs open prev (u_synthesized s) of (memory, synth) \<Rightarrow>
         let s1 = remember obs open fails gave_up memory s
         in case record_rows e open closure (first_ready obs open) synth (u_rows s) of
              None \<Rightarrow> (s1, [])
            | Some rows \<Rightarrow>
                if \<not> pe_record_ok e then (s1, [])
                else let s2 = s1\<lparr>u_rows := rows, u_status := next_status e obs st state' open closure\<rparr>;
                         s3 = (if state' \<noteq> os_state st then log_event ''state_changed'' s2 else s2)
                     in act_after_record e obs open closure prev s3)"

end
