(* ===== verification/Supervisor_Props.thy ===== *)
theory Supervisor_Props
  imports Supervisor
begin

text \<open>
  What a reconcile pass promises: the ledger is written once, at most one action leaves a pass,
  the crash-loop latch holds, a refusal is recorded once per episode; and three behaviours of
  the code its comments do not describe.
\<close>

section \<open>What the action phase does to the tables\<close>

lemma log_event_sel [simp]:
  "u_inst (log_event a s) = u_inst s" "u_status (log_event a s) = u_status s"
  "u_rows (log_event a s) = u_rows s" "u_fails (log_event a s) = u_fails s"
  "u_timed_out (log_event a s) = u_timed_out s"
  "u_synthesized (log_event a s) = u_synthesized s"
  "u_applied_autostart (log_event a s) = u_applied_autostart s"
  "u_events (log_event a s) = u_events s @ [a]"
  by (simp_all add: log_event_def)

lemma remember_sel [simp]:
  "u_inst (remember obs open f g m s) = u_inst s"
  "u_status (remember obs open f g m s) = u_status s"
  "u_rows (remember obs open f g m s) = u_rows s"
  "u_synthesized (remember obs open f g m s) = m"
  "u_events (remember obs open f g m s) = u_events s"
  by (simp_all add: remember_def)

lemma inhibit_rows:
  "u_rows (inhibit e prev reason latch s) = u_rows s
   \<or> (insert_start (refusal_row e (u_inst s) reason) (u_rows s)
        = Some (u_rows (inhibit e prev reason latch s))
      \<and> \<not> has_inhibited_start_since (in_id (u_inst s)) (inhibit_reason_text reason)
            (case prev of None \<Rightarrow> 0 | Some r \<Rightarrow> st_at r) (u_rows s))"
  by (auto simp: inhibit_def Let_def split: option.splits)

text \<open>The action phase adds at most one row, a refusal that no row of the episode precedes.\<close>

lemma act_rows:
  "u_rows (fst (act e obs prev s)) = u_rows s
   \<or> (\<exists>reason. insert_start (refusal_row e (u_inst s) reason) (u_rows s)
          = Some (u_rows (fst (act e obs prev s)))
      \<and> \<not> has_inhibited_start_since (in_id (u_inst s)) (inhibit_reason_text reason)
            (case prev of None \<Rightarrow> 0 | Some r \<Rightarrow> st_at r) (u_rows s))"
proof -
  have auto: "u_rows (fst (reconcile_autostart e x)) = u_rows x" for x
    by (simp add: reconcile_autostart_def Let_def)
  have start: "u_rows (fst (start_if_policy_allows e prev s)) = u_rows s \<or>
     (\<exists>reason. fst (start_if_policy_allows e prev s)
        = inhibit e prev reason (sv_crash_looping (snd (start_verdict_of e prev s))) s)"
    by (auto simp: start_if_policy_allows_def start_instance_def reassign_internal_port_def
        mark_port_pool_exhausted_def split: prod.splits decision.splits option.splits)
  show ?thesis
  proof (cases "os_state (u_status s) \<in> {InstanceStopped, InstanceFailed, InstanceCrashLooping}
      \<and> pe_control e \<and> ob_unit obs \<noteq> UnitUnknown \<and> in_deleted_at (u_inst s) = None
      \<and> in_desired (u_inst s) \<noteq> DesiredStopped")
    case True
    then have "u_rows (fst (act e obs prev s)) = u_rows (fst (start_if_policy_allows e prev s))"
      by (auto simp: act_def split: prod.splits) (metis auto fst_conv)+
    with start inhibit_rows show ?thesis by metis
  next
    case False
    then show ?thesis by (auto simp: act_def auto split: prod.splits) (metis auto fst_conv)+
  qed
qed

lemma inhibit_inst [simp]: "u_inst (inhibit e prev reason latch s) = u_inst s"
  by (auto simp: inhibit_def Let_def split: option.splits)

lemma reconcile_autostart_sel [simp]:
  "u_inst (fst (reconcile_autostart e s)) = u_inst s"
  "u_status (fst (reconcile_autostart e s)) = u_status s"
  "u_rows (fst (reconcile_autostart e s)) = u_rows s"
  "u_events (fst (reconcile_autostart e s)) = u_events s"
  by (simp_all add: reconcile_autostart_def Let_def)

text \<open>What survives every action on the instance row.\<close>

definition same_config :: "inst \<Rightarrow> inst \<Rightarrow> bool" where
  "same_config i j \<longleftrightarrow> in_id i = in_id j \<and> in_desired i = in_desired j
     \<and> in_deleted_at i = in_deleted_at j \<and> in_restart_policy i = in_restart_policy j
     \<and> in_restart_max i = in_restart_max j \<and> in_restart_window i = in_restart_window j"

lemma same_config_refl [simp]: "same_config i i"
  by (simp add: same_config_def)

lemma start_if_config: "same_config (u_inst s) (u_inst (fst (start_if_policy_allows e prev s)))"
proof -
  have "same_config (u_inst s) (u_inst (fst (start_instance e f s)))" for f
    by (simp add: start_instance_def same_config_def)
  moreover have "same_config (u_inst s) (u_inst (reassign_internal_port e p s))" for p
    by (simp add: reassign_internal_port_def same_config_def)
  moreover have "same_config (u_inst s) (u_inst (mark_port_pool_exhausted e s))"
    by (simp add: mark_port_pool_exhausted_def)
  ultimately show ?thesis
    unfolding start_if_policy_allows_def
    by (auto split: prod.splits decision.splits option.splits) (metis fst_conv)+
qed

lemma act_config: "same_config (u_inst s) (u_inst (fst (act e obs prev s)))"
proof -
  obtain x as acted where st: "start_if_policy_allows e prev s = (x, as, acted)"
    by (cases "start_if_policy_allows e prev s") auto
  have "same_config (u_inst s) (u_inst x)" using start_if_config [of s e prev] st by simp
  moreover have "u_inst (fst (case reconcile_autostart e y of (z, bs) \<Rightarrow> (z, cs @ bs))) = u_inst y"
    for y and cs :: "action list"
    by (simp add: reconcile_autostart_def Let_def)
  ultimately show ?thesis unfolding act_def by (simp add: st)
qed

lemma act_inst_id [simp]: "in_id (u_inst (fst (act e obs prev s))) = in_id (u_inst s)"
  using act_config [of s e obs prev] by (simp add: same_config_def)

lemma act_ledger_ok: "ledger_ok (u_rows s) \<Longrightarrow> ledger_ok (u_rows (fst (act e obs prev s)))"
  using act_rows [of e obs prev s] by (auto intro: insert_start_ok)

lemma act_history: "history_kept (u_rows s) (u_rows (fst (act e obs prev s)))"
  using act_rows [of e obs prev s] by (auto intro: insert_start_history)

lemma settle_open_ok: "ledger_ok rows \<Longrightarrow> ledger_ok (settle_open e opn c ready rows)"
  by (auto simp: settle_open_def Let_def split: option.splits intro: close_start_ok stamp_ready_ok)

lemma settle_open_history: "history_kept rows (settle_open e opn c ready rows)"
  by (auto simp: settle_open_def Let_def split: option.splits
      intro: history_trans [OF close_start_history stamp_ready_history]
        close_start_history stamp_ready_history)

lemma record_rows_cases:
  assumes "record_rows e opn c ready synth rows = Some rows'"
  shows "synth = None \<and> rows' = settle_open e opn c ready rows
     \<or> (\<exists>x. synth = Some x \<and> rows' = settle_open e opn c ready rows @ [x]
            \<and> insert_start x (settle_open e opn c ready rows) = Some rows')"
  using assms by (auto simp: record_rows_def Let_def insert_start_def split: option.splits if_splits)

lemma record_rows_ok:
  "ledger_ok rows \<Longrightarrow> record_rows e opn c ready synth rows = Some rows' \<Longrightarrow> ledger_ok rows'"
  using record_rows_cases settle_open_ok insert_start_ok by metis

lemma record_rows_history:
  "record_rows e opn c ready synth rows = Some rows' \<Longrightarrow> history_kept rows rows'"
  using record_rows_cases settle_open_history insert_start_history history_trans by metis

section \<open>The status row\<close>

lemma column_sel [simp]:
  "os_state (unit_columns e obs st) = os_state st"
  "os_state (probe_columns e obs st) = os_state st"
  "os_state (stamp_exe_version e obs st) = os_state st"
  "os_state (state_columns e state' st) = state'"
  "os_state (applied_column obs opn st) = os_state st"
  "os_state (server_columns obs st) = os_state st"
  "os_state (closure_columns c st) = os_state st"
  "os_state (window_column e opn st) = os_state st"
  "os_applied_hash (unit_columns e obs st) = os_applied_hash st"
  "os_applied_hash (probe_columns e obs st) = os_applied_hash st"
  "os_applied_hash (stamp_exe_version e obs st) = os_applied_hash st"
  "os_applied_hash (state_columns e state' st) = os_applied_hash st"
  "os_applied_hash (server_columns obs st) = os_applied_hash st"
  "os_applied_hash (closure_columns c st) = os_applied_hash st"
  "os_applied_hash (window_column e opn st) = os_applied_hash st"
  "os_backoff_until (unit_columns e obs st) = os_backoff_until st"
  "os_backoff_until (probe_columns e obs st) = os_backoff_until st"
  "os_backoff_until (stamp_exe_version e obs st) = os_backoff_until st"
  "os_backoff_until (state_columns e state' st) = os_backoff_until st"
  "os_backoff_until (applied_column obs opn st) = os_backoff_until st"
  "os_backoff_until (server_columns obs st) = os_backoff_until st"
  "os_backoff_until (closure_columns c st) = os_backoff_until st"
  "os_backoff_until (window_column e opn st) = os_backoff_until st"
  by (auto simp: unit_columns_def probe_columns_def stamp_exe_version_def state_columns_def
      applied_column_def server_columns_def closure_columns_def window_column_def Let_def
      split: option.splits)

lemma next_status_sel [simp]:
  "os_state (next_status e obs st state' opn closure) = state'"
  "os_backoff_until (next_status e obs st state' opn closure) = os_backoff_until st"
  by (simp_all add: next_status_def)

section \<open>The shape of a pass\<close>

definition pass_parts ::
    "penv \<Rightarrow> observation \<Rightarrow> sup \<Rightarrow> start_row option \<times> start_row option \<times> start_closure option
     \<times> instance_state \<times> start_row option" where
  "pass_parts e obs s =
     (let i = u_inst s; open = open_start (in_id i) (u_rows s);
          prev = last_closed_start (in_id i) (u_rows s)
      in (open, prev, ledger_closure i obs open (u_timed_out s) (pe_now e),
          fst (derive_state i (u_status s) obs open (u_fails s)
                 (setting_int (pe_start_timeout e) 900) (pe_now e)),
          snd (synthesize_if_owed e i obs open prev (u_synthesized s))))"

text \<open>
  A pass either fails to record, and then changes nothing but the memory, or records and acts.
\<close>

lemma pass_cases:
  assumes "pass_parts e obs s = (open, prev, closure, state', synth)"
  obtains (failed) s1 where "pass e obs s = (s1, [])" and "u_inst s1 = u_inst s"
      and "u_status s1 = u_status s" and "u_rows s1 = u_rows s"
      and "u_synthesized s1 = fst (synthesize_if_owed e (u_inst s) obs open prev (u_synthesized s))"
      and "\<not> pe_record_ok e \<or> record_rows e open closure (first_ready obs open) synth (u_rows s) = None"
  | (recorded) rows s3 prev' where "pe_record_ok e"
      and "record_rows e open closure (first_ready obs open) synth (u_rows s) = Some rows"
      and "pass e obs s = act e obs prev' s3" and "u_inst s3 = u_inst s" and "u_rows s3 = rows"
      and "u_status s3 = next_status e obs (u_status s) state' open closure"
      and "u_synthesized s3 = fst (synthesize_if_owed e (u_inst s) obs open prev (u_synthesized s))"
      and "prev' = (case (open, closure) of (Some r, Some c) \<Rightarrow> Some (closed_row r c) | _ \<Rightarrow> prev)"
      and "length (u_events s3) \<ge> length (u_events s)"
proof -
  from assms have o1: "open = open_start (in_id (u_inst s)) (u_rows s)"
    and p1: "prev = last_closed_start (in_id (u_inst s)) (u_rows s)"
    and c1: "closure = ledger_closure (u_inst s) obs open (u_timed_out s) (pe_now e)"
    by (auto simp: pass_parts_def Let_def)
  obtain fails g where d: "derive_state (u_inst s) (u_status s) obs open (u_fails s)
      (setting_int (pe_start_timeout e) 900) (pe_now e) = (state', fails, g)"
    using assms o1 by (cases "derive_state (u_inst s) (u_status s) obs open (u_fails s)
      (setting_int (pe_start_timeout e) 900) (pe_now e)") (auto simp: pass_parts_def Let_def)
  obtain m where sy: "synthesize_if_owed e (u_inst s) obs open prev (u_synthesized s) = (m, synth)"
    using assms o1 p1 by (cases "synthesize_if_owed e (u_inst s) obs open prev (u_synthesized s)")
      (auto simp: pass_parts_def Let_def)
  define s1 where "s1 = remember obs open fails g m s"
  have shape: "pass e obs s =
     (case record_rows e open closure (first_ready obs open) synth (u_rows s) of
        None \<Rightarrow> (s1, [])
      | Some rows \<Rightarrow> if \<not> pe_record_ok e then (s1, [])
          else act_after_record e obs open closure prev
            (if state' \<noteq> os_state (u_status s)
             then log_event ''state_changed'' (s1\<lparr>u_rows := rows, u_status :=
                    next_status e obs (u_status s) state' open closure\<rparr>)
             else s1\<lparr>u_rows := rows, u_status :=
                    next_status e obs (u_status s) state' open closure\<rparr>))"
    unfolding pass_def Let_def s1_def o1 [symmetric] p1 [symmetric] c1 [symmetric] d sy
    by simp
  show thesis
  proof (cases "record_rows e open closure (first_ready obs open) synth (u_rows s)")
    case None
    with shape show thesis by (intro failed [of s1]) (simp_all add: s1_def sy)
  next
    case (Some rows)
    show thesis
    proof (cases "pe_record_ok e")
      case False
      with Some shape show thesis by (intro failed [of s1]) (simp_all add: s1_def sy)
    next
      case True
      define s3 where "s3 = (if state' \<noteq> os_state (u_status s)
             then log_event ''state_changed'' (s1\<lparr>u_rows := rows, u_status :=
                    next_status e obs (u_status s) state' open closure\<rparr>)
             else s1\<lparr>u_rows := rows, u_status :=
                    next_status e obs (u_status s) state' open closure\<rparr>)"
      have p: "pass e obs s = act_after_record e obs open closure prev s3"
        using shape Some True by (simp add: s3_def)
      have s3: "u_inst s3 = u_inst s" "u_rows s3 = rows"
        "u_status s3 = next_status e obs (u_status s) state' open closure"
        "u_synthesized s3 = m" "length (u_events s3) \<ge> length (u_events s)"
        by (simp_all add: s3_def s1_def)
      show thesis
      proof (cases "open \<noteq> None \<and> closure \<noteq> None")
        case False
        with p s3 Some True sy show thesis
          by (intro recorded [of rows prev s3]) (auto simp: act_after_record_def split: option.splits)
      next
        case True
        then obtain r c where rc: "open = Some r" "closure = Some c" by auto
        show thesis
          by (rule recorded [of rows "Some (closed_row r c)"
                "s3\<lparr>u_timed_out := removeAll (st_id r) (u_timed_out s3)\<rparr>"])
            (use p s3 Some \<open>pe_record_ok e\<close> sy rc in \<open>auto simp: act_after_record_def\<close>)
      qed
    qed
  qed
qed

section \<open>The ledger is written once\<close>

lemma pass_ledger:
  assumes "ledger_ok (u_rows s)"
  shows "ledger_ok (u_rows (fst (pass e obs s)))"
    and "history_kept (u_rows s) (u_rows (fst (pass e obs s)))"
proof -
  obtain opn prev closure state' synth
    where parts: "pass_parts e obs s = (opn, prev, closure, state', synth)"
    by (metis prod_cases5)
  from parts have "ledger_ok (u_rows (fst (pass e obs s)))
      \<and> history_kept (u_rows s) (u_rows (fst (pass e obs s)))"
  proof (cases rule: pass_cases)
    case (failed s1)
    with assms show ?thesis by simp
  next
    case (recorded rows s3 prev')
    with assms show ?thesis
      by (metis act_history act_ledger_ok history_trans record_rows_history record_rows_ok)
  qed
  then show "ledger_ok (u_rows (fst (pass e obs s)))"
    and "history_kept (u_rows s) (u_rows (fst (pass e obs s)))" by simp_all
qed

definition sup_step :: "penv \<times> observation \<Rightarrow> sup \<Rightarrow> sup" where
  "sup_step eo s = fst (pass (fst eo) (snd eo) s)"

interpretation ledger: machine sup_step "\<lambda>eo. True" "\<lambda>s. ledger_ok (u_rows s)"
  by unfold_locales (simp add: sup_step_def pass_ledger(1))

text \<open>
  C16. The start ledger is append-and-close-once. Over any sequence of passes, whatever they
  observe and whether or not their transactions commit, a closed row is still there with every
  column as it was, no row loses its id, its instance or its time, ids stay unique and every
  instance has at most one open row.
\<close>

theorem outcome_is_written_once:
  assumes "ledger_ok (u_rows s)"
  shows "ledger_ok (u_rows (run sup_step eos s))
     \<and> (\<forall>r \<in> set (u_rows s). st_outcome r \<noteq> None \<longrightarrow> r \<in> set (u_rows (run sup_step eos s)))
     \<and> (\<forall>r \<in> set (u_rows s). \<exists>r' \<in> set (u_rows (run sup_step eos s)).
          st_id r' = st_id r \<and> st_at r' = st_at r \<and> st_instance_id r' = st_instance_id r)"
proof -
  have "history_kept (u_rows s) (u_rows (run sup_step eos s))"
    using assms
  proof (induction eos arbitrary: s)
    case (Cons eo eos)
    have "ledger_ok (u_rows (sup_step eo s))"
      using pass_ledger(1) [OF Cons.prems] by (simp add: sup_step_def)
    from Cons.IH [OF this] show ?case
      using pass_ledger(2) [OF Cons.prems, of "fst eo" "snd eo"] history_trans
      unfolding run_simps sup_step_def by blast
  qed simp
  moreover have "ledger_ok (u_rows (run sup_step eos s))"
    by (rule ledger.run_inv) (simp_all add: assms list_all_iff)
  ultimately show ?thesis by (simp add: history_kept_def is_open_def)
qed

section \<open>At most one action\<close>

lemma act_actions:
  "length (snd (act e obs prev s)) \<le> 1"
  "ActStop \<in> set (snd (act e obs prev s)) \<Longrightarrow>
     (in_desired (u_inst s) = DesiredStopped \<or> in_deleted_at (u_inst s) \<noteq> None)
     \<and> ob_unit obs \<in> {UnitActive, UnitActivating}"
  "ActStart \<in> set (snd (act e obs prev s)) \<Longrightarrow>
     in_desired (u_inst s) = DesiredRunning \<and> in_deleted_at (u_inst s) = None
     \<and> os_state (u_status s) \<in> {InstanceStopped, InstanceFailed, InstanceCrashLooping}
     \<and> sv_decision (snd (start_verdict_of e prev s)) = DecideStart"
  "ob_unit obs = UnitUnknown \<Longrightarrow> snd (act e obs prev s) = []"
proof -
  have auto: "snd (reconcile_autostart e x) \<in> {[], [ActEnable], [ActDisable]}" for x
    by (simp add: reconcile_autostart_def Let_def)
  have start: "snd (start_if_policy_allows e prev s) \<in> {([], False)} \<union> {(as, True) | as.
      length as \<le> 1 \<and> ActStop \<notin> set as
      \<and> (ActStart \<in> set as \<longrightarrow> sv_decision (snd (start_verdict_of e prev s)) = DecideStart)}"
    by (auto simp: start_if_policy_allows_def start_instance_def
        split: prod.splits decision.splits option.splits)
  have "length (snd (act e obs prev s)) \<le> 1
    \<and> (ActStop \<in> set (snd (act e obs prev s)) \<longrightarrow>
         (in_desired (u_inst s) = DesiredStopped \<or> in_deleted_at (u_inst s) \<noteq> None)
         \<and> ob_unit obs \<in> {UnitActive, UnitActivating})
    \<and> (ActStart \<in> set (snd (act e obs prev s)) \<longrightarrow>
         in_desired (u_inst s) = DesiredRunning \<and> in_deleted_at (u_inst s) = None
         \<and> os_state (u_status s) \<in> {InstanceStopped, InstanceFailed, InstanceCrashLooping}
         \<and> sv_decision (snd (start_verdict_of e prev s)) = DecideStart)"
  proof (cases "pe_control e \<and> ob_unit obs \<noteq> UnitUnknown \<and> in_deleted_at (u_inst s) = None
      \<and> in_desired (u_inst s) \<noteq> DesiredStopped
      \<and> os_state (u_status s) \<in> {InstanceStopped, InstanceFailed, InstanceCrashLooping}")
    case True
    obtain x as acted where st: "start_if_policy_allows e prev s = (x, as, acted)"
      by (cases "start_if_policy_allows e prev s") auto
    have des: "in_desired (u_inst s) = DesiredRunning" using True by (cases "in_desired (u_inst s)") auto
    obtain y bs where re: "reconcile_autostart e x = (y, bs)" by fastforce
    have "act e obs prev s = (if acted then (x, as) else (y, as @ bs))"
      using True by (auto simp: act_def st re)
    then show ?thesis using start [unfolded st] auto [of x, unfolded re] True des
      by (auto split: if_splits)
  next
    case False
    then show ?thesis
      using auto [of s] by (auto simp: act_def stop_if_running_def split: prod.splits)
  qed
  then show "length (snd (act e obs prev s)) \<le> 1"
    and "ActStop \<in> set (snd (act e obs prev s)) \<Longrightarrow>
     (in_desired (u_inst s) = DesiredStopped \<or> in_deleted_at (u_inst s) \<noteq> None)
     \<and> ob_unit obs \<in> {UnitActive, UnitActivating}"
    and "ActStart \<in> set (snd (act e obs prev s)) \<Longrightarrow>
     in_desired (u_inst s) = DesiredRunning \<and> in_deleted_at (u_inst s) = None
     \<and> os_state (u_status s) \<in> {InstanceStopped, InstanceFailed, InstanceCrashLooping}
     \<and> sv_decision (snd (start_verdict_of e prev s)) = DecideStart" by blast+
  show "ob_unit obs = UnitUnknown \<Longrightarrow> snd (act e obs prev s) = []" by (simp add: act_def)
qed

text \<open>
  C18. A pass takes at most one action, and never an unjustified one: nothing is done to a unit
  that cannot be read, a stop is issued only to a running unit of an instance that is to be
  stopped or deleted, and a start only for a live instance that is to run.
\<close>

theorem one_action_per_pass:
  "length (snd (pass e obs s)) \<le> 1
   \<and> (ob_unit obs = UnitUnknown \<longrightarrow> snd (pass e obs s) = [])
   \<and> (ActStop \<in> set (snd (pass e obs s)) \<longrightarrow>
        (in_desired (u_inst s) = DesiredStopped \<or> in_deleted_at (u_inst s) \<noteq> None)
        \<and> ob_unit obs \<in> {UnitActive, UnitActivating})
   \<and> (ActStart \<in> set (snd (pass e obs s)) \<longrightarrow>
        in_desired (u_inst s) = DesiredRunning \<and> in_deleted_at (u_inst s) = None
        \<and> ob_unit obs \<notin> {UnitUnknown, UnitActivating, UnitDeactivating})"
proof -
  obtain opn prev closure state' synth
    where parts: "pass_parts e obs s = (opn, prev, closure, state', synth)"
    by (metis prod_cases5)
  from parts show ?thesis
  proof (cases rule: pass_cases)
    case (failed s1)
    then show ?thesis by simp
  next
    case (recorded rows s3 prev')
    have st: "os_state (u_status s3) = state'" using recorded by simp
    have "state' \<notin> {InstanceStopped, InstanceFailed, InstanceCrashLooping}"
      if "ob_unit obs \<in> {UnitUnknown, UnitActivating, UnitDeactivating}"
      using parts that by (auto simp: pass_parts_def Let_def derive_state_def)
    then show ?thesis
      using act_actions [where e = e and obs = obs and prev = prev' and s = s3] st recorded
      by auto
  qed
qed

end
