(* ===== verification/Supervisor_Claims.thy ===== *)
theory Supervisor_Claims
  imports Supervisor_Props
begin

text \<open>
  The latch, the refusal episodes, the applied configuration and the port repair, over runs of
  passes.
\<close>

section \<open>The crash-loop latch\<close>

definition latched :: "sup \<Rightarrow> bool" where
  "latched s \<longleftrightarrow> os_state (u_status s) = InstanceCrashLooping
     \<and> in_desired (u_inst s) = DesiredRunning \<and> in_deleted_at (u_inst s) = None"

definition unit_down :: "penv \<times> observation \<Rightarrow> bool" where
  "unit_down eo \<longleftrightarrow> ob_unit (snd eo) \<in> {UnitInactive, UnitFailed}"

lemma latched_verdict:
  "os_state (u_status s) = InstanceCrashLooping \<Longrightarrow>
   sv_decision (snd (start_verdict_of e prev s)) \<noteq> DecideStart
   \<and> \<not> sv_crash_looping (snd (start_verdict_of e prev s))"
  by (simp add: start_verdict_of_def Let_def evaluate_start_def verdict_defs)

lemma inhibit_status: "u_status (inhibit e prev reason False s) = u_status s"
  by (auto simp: inhibit_def Let_def split: option.splits)

lemma act_latched:
  assumes "os_state (u_status s) = InstanceCrashLooping"
  shows "u_status (fst (act e obs prev s)) = u_status s"
proof -
  obtain f v where v: "start_verdict_of e prev s = (f, v)" by fastforce
  have "u_status (fst (start_if_policy_allows e prev s)) = u_status s"
    using latched_verdict [OF assms, of e prev] v
    by (auto simp: start_if_policy_allows_def inhibit_status split: decision.splits option.splits)
  moreover obtain x as acted where x: "start_if_policy_allows e prev s = (x, as, acted)"
    by (cases "start_if_policy_allows e prev s") auto
  moreover obtain y bs where "reconcile_autostart e x = (y, bs)" by fastforce
  moreover obtain z cs where "reconcile_autostart e s = (z, cs)" by fastforce
  ultimately show ?thesis
    using reconcile_autostart_sel(2) [of e x] reconcile_autostart_sel(2) [of e s]
    by (auto simp: act_def)
qed

lemma pass_latched:
  assumes l: "latched s" and down: "ob_unit obs \<in> {UnitInactive, UnitFailed}"
  shows "latched (fst (pass e obs s)) \<and> ActStart \<notin> set (snd (pass e obs s))"
proof -
  obtain opn prev closure state' synth
    where parts: "pass_parts e obs s = (opn, prev, closure, state', synth)"
    by (metis prod_cases5)
  have cl: "state' = InstanceCrashLooping"
    using parts l down by (auto simp: pass_parts_def Let_def derive_state_def latched_def)
  from parts show ?thesis
  proof (cases rule: pass_cases)
    case (failed s1)
    with l show ?thesis by (simp add: latched_def)
  next
    case (recorded rows s3 prev')
    then have "os_state (u_status s3) = InstanceCrashLooping" using cl by simp
    then show ?thesis
      using recorded l act_latched [of s3 e obs prev'] act_config [of s3 e obs prev']
        latched_verdict [of s3 e prev'] act_actions(3) [where e = e and obs = obs and s = s3]
      by (auto simp: latched_def same_config_def)
  qed
qed

interpretation latch: machine sup_step unit_down latched
  by unfold_locales (simp add: sup_step_def unit_down_def pass_latched)

text \<open>
  C20. A crash-looping instance stays down. As long as it is to run, is not deleted and its unit
  stays down, no sequence of passes ever starts it or moves it out of \<open>crash-looping\<close>, whatever
  its policy, its backoff and the age of its failures: only a requested stop, a reset or a
  start from outside does.
\<close>

theorem crash_loop_latch_holds:
  assumes "latched s" and "list_all unit_down eos" and "ob_unit obs \<in> {UnitInactive, UnitFailed}"
  shows "os_state (u_status (run sup_step eos s)) = InstanceCrashLooping
     \<and> ActStart \<notin> set (snd (pass e obs (run sup_step eos s)))"
  using latch.run_inv [OF assms(2,1)] pass_latched [OF _ assms(3)]
  by (auto simp: latched_def)

section \<open>One refusal per episode\<close>

definition is_refusal :: "string \<Rightarrow> string \<Rightarrow> unix_ms \<Rightarrow> start_row \<Rightarrow> bool" where
  "is_refusal i reason after r \<longleftrightarrow> st_instance_id r = i \<and> st_outcome r = Some OutcomeInhibited
     \<and> st_error_code r = Some reason \<and> after < st_at r"

definition refusals :: "string \<Rightarrow> string \<Rightarrow> unix_ms \<Rightarrow> ledger \<Rightarrow> nat" where
  "refusals i reason after rows = length (filter (is_refusal i reason after) rows)"

definition row_at :: "start_row option \<Rightarrow> unix_ms" where
  "row_at prev = (case prev of None \<Rightarrow> 0 | Some r \<Rightarrow> st_at r)"

definition episode_start :: "string \<Rightarrow> ledger \<Rightarrow> unix_ms" where
  "episode_start i rows = row_at (last_closed_start i rows)"

definition episode_ok :: "sup \<Rightarrow> bool" where
  "episode_ok s \<longleftrightarrow> (\<forall>r \<in> set (u_rows s). 0 \<le> st_at r)
     \<and> (\<forall>reason. refusals (in_id (u_inst s)) (inhibit_reason_text reason)
                    (episode_start (in_id (u_inst s)) (u_rows s)) (u_rows s) \<le> 1)"

definition after_epoch :: "penv \<times> observation \<Rightarrow> bool" where
  "after_epoch eo \<longleftrightarrow> 0 \<le> pe_now (fst eo) \<and> 0 \<le> exit_instant (pe_now (fst eo)) (snd eo)"

lemma has_inhibited_iff:
  "has_inhibited_start_since i reason after rows \<longleftrightarrow> 0 < refusals i reason after rows"
  by (auto simp: has_inhibited_start_since_def refusals_def is_refusal_def filter_empty_conv)

lemma refusals_antimono: "a \<le> b \<Longrightarrow> refusals i reason b rows \<le> refusals i reason a rows"
  unfolding refusals_def by (induction rows) (auto simp: is_refusal_def)

lemma refusals_map:
  assumes "\<And>r. \<not> is_open r \<Longrightarrow> f r = r"
    and "\<And>r. is_open r \<Longrightarrow> st_outcome (f r) \<noteq> Some OutcomeInhibited"
  shows "refusals i reason a (map f rows) = refusals i reason a rows"
proof -
  have "is_refusal i reason a (f r) = is_refusal i reason a r" for r
    using assms [of r] by (cases "is_open r") (auto simp: is_refusal_def is_open_def)
  then show ?thesis by (induction rows) (auto simp: refusals_def)
qed

lemma refusals_append [simp]:
  "refusals i reason a (rows @ [r]) = refusals i reason a rows + (if is_refusal i reason a r then 1 else 0)"
  by (simp add: refusals_def)

lemma episode_start_mono:
  assumes "history_kept rows rows'" and "\<forall>r \<in> set rows'. 0 \<le> st_at r"
  shows "episode_start i rows \<le> episode_start i rows'"
    and "r \<in> set rows' \<Longrightarrow> is_run_closed i r \<Longrightarrow> st_at r \<le> episode_start i rows'"
proof -
  have le: "st_at r \<le> episode_start i rows'" if r: "r \<in> set rows'" "is_run_closed i r" for r
  proof (cases "last_closed_start i rows'")
    case None
    then have "sort_key (\<lambda>r. (st_at r, st_id r)) (filter (is_run_closed i) rows') = []"
      by (auto simp: last_closed_start_def newest_first_def split: list.splits)
    then have "filter (is_run_closed i) rows' = []"
      by (metis length_0_conv length_sort)
    with r show ?thesis by (auto simp: filter_empty_conv)
  next
    case (Some x)
    then have "(st_at r, st_id r) \<le> (st_at x, st_id x)"
      using last_closed_start_Some r by blast
    with Some show ?thesis by (auto simp: episode_start_def row_at_def less_eq_prod_def)
  qed
  then show "r \<in> set rows' \<Longrightarrow> is_run_closed i r \<Longrightarrow> st_at r \<le> episode_start i rows'" .
  show "episode_start i rows \<le> episode_start i rows'"
  proof (cases "last_closed_start i rows")
    case None
    then show ?thesis
      using assms(2) last_closed_start_Some
      by (auto simp: episode_start_def row_at_def split: option.splits)
  next
    case (Some x)
    then have x: "x \<in> set rows" "is_run_closed i x" using last_closed_start_Some by blast+
    then have "x \<in> set rows'"
      using assms(1) by (auto simp: history_kept_def is_open_def is_run_closed_def)
    with le x Some show ?thesis by (simp add: episode_start_def row_at_def)
  qed
qed

lemma closure_not_inhibited:
  "ledger_closure i obs opn timed now = Some c \<Longrightarrow> c_outcome c \<noteq> OutcomeInhibited"
  by (auto simp: ledger_closure_def Let_def split: option.splits if_splits)

lemma synth_not_inhibited:
  "synthesize_if_owed e i obs opn prev m = (m', Some r) \<Longrightarrow>
   st_outcome r = Some OutcomeFailed \<and> st_at r = exit_instant (pe_now e) obs \<and> opn = None"
  by (auto simp: synthesize_if_owed_def Let_def split: option.splits if_splits)

text \<open>The record transaction neither adds nor removes a refusal.\<close>

lemma record_rows_refusals:
  assumes "record_rows e opn c ready synth rows = Some rows'"
    and "\<And>x. c = Some x \<Longrightarrow> c_outcome x \<noteq> OutcomeInhibited"
    and "\<And>x. synth = Some x \<Longrightarrow> st_outcome x = Some OutcomeFailed"
  shows "refusals i reason a rows' = refusals i reason a rows"
proof -
  have close: "refusals i reason a (fst (close_start j x rs)) = refusals i reason a rs"
    if "c = Some x" for j x rs
    unfolding close_start_def fst_conv using assms(2) [OF that]
    by (intro refusals_map) (auto simp: is_open_def)
  have stamp: "refusals i reason a (fst (stamp_ready j t rs)) = refusals i reason a rs" for j t rs
    unfolding stamp_ready_def fst_conv by (intro refusals_map) (auto simp: is_open_def)
  have new: "\<not> is_refusal i reason a x" if "synth = Some x" for x
    using assms(3) [OF that] by (simp add: is_refusal_def)
  have "refusals i reason a (settle_open e opn c ready rows) = refusals i reason a rows"
    using close stamp by (auto simp: settle_open_def Let_def split: option.splits)
  with record_rows_cases [OF assms(1)] new show ?thesis by auto
qed

lemma record_rows_times:
  assumes "record_rows e opn c ready synth rows = Some rows'" and "\<forall>r \<in> set rows. 0 \<le> st_at r"
    and "\<And>x. synth = Some x \<Longrightarrow> 0 \<le> st_at x"
  shows "\<forall>r \<in> set rows'. 0 \<le> st_at r"
proof -
  have close: "\<forall>r \<in> set (fst (close_start j x rs)). 0 \<le> st_at r"
    if "\<forall>r \<in> set rs. 0 \<le> st_at r" for j x rs
    using that by (auto simp: close_start_def)
  have stamp: "\<forall>r \<in> set (fst (stamp_ready j x rs)). 0 \<le> st_at r"
    if "\<forall>r \<in> set rs. 0 \<le> st_at r" for j x rs
    using that by (auto simp: stamp_ready_def)
  have "\<forall>r \<in> set (settle_open e opn c ready rows). 0 \<le> st_at r"
    using assms(2)
    by (cases opn; cases c; cases ready; simp add: settle_open_def Let_def; intro close stamp)
  with record_rows_cases [OF assms(1)] assms(3) show ?thesis by auto
qed

lemma closed_row_recorded:
  assumes "record_rows e (Some r) (Some c) ready synth rows = Some rows'" and "r \<in> set rows"
    and "is_open r"
  shows "closed_row r c \<in> set rows'"
proof -
  have "(if st_id r = st_id r \<and> is_open r then apply_closure c r else r)
          \<in> (\<lambda>x. if st_id x = st_id r \<and> is_open x then apply_closure c x else x) ` set rows"
    using assms(2) by (rule imageI)
  then have "closed_row r c \<in> set (fst (close_start (st_id r) c rows))"
    using assms(3) by (simp add: close_start_def closed_row_def)
  moreover have "closed_row r c \<in> set (fst (stamp_ready j t rs))" if "closed_row r c \<in> set rs" for j t rs
  proof -
    have "\<not> is_open (closed_row r c)" by (simp add: closed_row_def)
    then show ?thesis
      using stamp_ready_history [of rs j t] that by (auto simp: history_kept_def)
  qed
  ultimately have "closed_row r c \<in> set (settle_open e (Some r) (Some c) ready rows)"
    by (simp add: settle_open_def Let_def)
  with record_rows_cases [OF assms(1)] show ?thesis by auto
qed

lemma open_start_Some: "open_start i rows = Some r \<Longrightarrow> r \<in> set rows \<and> is_open r \<and> st_instance_id r = i"
  by (auto simp: open_start_def find_Some_iff)

lemma pass_episode:
  assumes ok: "episode_ok s" and t: "after_epoch (e, obs)"
  shows "episode_ok (fst (pass e obs s))"
proof -
  let ?i = "in_id (u_inst s)"
  obtain opn prev closure state' synth
    where parts: "pass_parts e obs s = (opn, prev, closure, state', synth)"
    by (metis prod_cases5)
  then have o1: "opn = open_start ?i (u_rows s)" and p1: "prev = last_closed_start ?i (u_rows s)"
    and c1: "closure = ledger_closure (u_inst s) obs opn (u_timed_out s) (pe_now e)"
    and s1: "synth = snd (synthesize_if_owed e (u_inst s) obs opn prev (u_synthesized s))"
    by (auto simp: pass_parts_def Let_def)
  have cl: "c_outcome x \<noteq> OutcomeInhibited" if "closure = Some x" for x
    using that c1 closure_not_inhibited by metis
  have sy: "st_outcome x = Some OutcomeFailed \<and> 0 \<le> st_at x" if "synth = Some x" for x
    using that s1 synth_not_inhibited [of e "u_inst s" obs opn prev "u_synthesized s" _ x] t
    by (cases "synthesize_if_owed e (u_inst s) obs opn prev (u_synthesized s)")
      (auto simp: after_epoch_def)
  from parts show ?thesis
  proof (cases rule: pass_cases)
    case (failed s2)
    with ok show ?thesis by (simp add: episode_ok_def)
  next
    case (recorded rows s3 prev')
    note rec = recorded(2)
    have times: "\<forall>r \<in> set rows. 0 \<le> st_at r"
      using record_rows_times [OF rec] ok sy by (auto simp: episode_ok_def)
    note mono = episode_start_mono [OF record_rows_history [OF rec] times, where i = ?i]
    have count: "refusals ?i (inhibit_reason_text reason) (episode_start ?i rows) rows \<le> 1" for reason
    proof -
      have "refusals ?i (inhibit_reason_text reason) (episode_start ?i rows) rows
          = refusals ?i (inhibit_reason_text reason) (episode_start ?i rows) (u_rows s)"
        using record_rows_refusals [OF rec] cl sy by blast
      moreover have "refusals ?i (inhibit_reason_text reason)
          (episode_start ?i (u_rows s)) (u_rows s) \<le> 1"
        using ok by (simp add: episode_ok_def)
      ultimately show ?thesis
        using refusals_antimono [OF mono(1), of ?i "inhibit_reason_text reason" "u_rows s"] by simp
    qed
    have prev_le: "row_at prev' \<le> episode_start ?i rows"
    proof (cases "opn \<noteq> None \<and> closure \<noteq> None")
      case True
      then obtain r c where rc: "opn = Some r" "closure = Some c" by auto
      then have r: "r \<in> set (u_rows s)" "is_open r" "st_instance_id r = ?i"
        using open_start_Some o1 by metis+
      have "closed_row r c \<in> set rows" using closed_row_recorded [OF _ r(1,2)] rec rc by blast
      moreover have "is_run_closed ?i (closed_row r c)"
        using cl rc r by (simp add: is_run_closed_def closed_row_def)
      ultimately have "st_at (closed_row r c) \<le> episode_start ?i rows" using mono(2) by blast
      then show ?thesis using recorded rc by (simp add: row_at_def)
    next
      case False
      then have "prev' = prev" using recorded by (auto split: option.splits)
      then show ?thesis using mono(1) p1 by (simp add: episode_start_def)
    qed
    from act_rows [of e obs prev' s3] show ?thesis
    proof
      assume "u_rows (fst (act e obs prev' s3)) = u_rows s3"
      with recorded times count show ?thesis by (simp add: episode_ok_def)
    next
      assume "\<exists>reason. insert_start (refusal_row e (u_inst s3) reason) (u_rows s3)
          = Some (u_rows (fst (act e obs prev' s3)))
        \<and> \<not> has_inhibited_start_since (in_id (u_inst s3)) (inhibit_reason_text reason)
            (case prev' of None \<Rightarrow> 0 | Some r \<Rightarrow> st_at r) (u_rows s3)"
      then obtain reason where ins: "insert_start (refusal_row e (u_inst s) reason) rows
            = Some (u_rows (fst (act e obs prev' s3)))"
        and "\<not> has_inhibited_start_since ?i (inhibit_reason_text reason) (row_at prev') rows"
        unfolding recorded(4,5) row_at_def by blast
      then have none: "refusals ?i (inhibit_reason_text reason) (row_at prev') rows = 0"
        by (simp add: has_inhibited_iff)
      have rows': "u_rows (fst (act e obs prev' s3)) = rows @ [refusal_row e (u_inst s) reason]"
        using ins by (simp add: insert_start_def split: if_splits)
      have "refusals ?i (inhibit_reason_text reason) (episode_start ?i rows) rows = 0"
        using refusals_antimono [OF prev_le, of ?i "inhibit_reason_text reason" rows] none by simp
      moreover have "filter (is_run_closed ?i) (rows @ [refusal_row e (u_inst s) reason])
          = filter (is_run_closed ?i) rows"
        by (simp add: is_run_closed_def refusal_row_def)
      then have "episode_start ?i (rows @ [refusal_row e (u_inst s) reason]) = episode_start ?i rows"
        by (simp add: episode_start_def last_closed_start_def)
      moreover have "\<not> is_refusal ?i (inhibit_reason_text r2) a (refusal_row e (u_inst s) reason)"
        if "r2 \<noteq> reason" for r2 a
        using that by (cases r2; cases reason) (simp_all add: is_refusal_def refusal_row_def)
      ultimately have "refusals ?i (inhibit_reason_text r2)
          (episode_start ?i (rows @ [refusal_row e (u_inst s) reason]))
          (rows @ [refusal_row e (u_inst s) reason]) \<le> 1" for r2
        using count [of r2] by (cases "r2 = reason") auto
      then show ?thesis
        using recorded times t rows' by (auto simp: episode_ok_def refusal_row_def after_epoch_def)
    qed
  qed
qed

interpretation episode: machine sup_step after_epoch episode_ok
  by unfold_locales (auto simp: sup_step_def intro: pass_episode)

text \<open>
  A refusal is recorded once per episode. Over any sequence of passes, for each inhibit
  reason the ledger holds at most one refusal row after the instance's last completed run,
  however many passes decline to start it.
\<close>

theorem one_refusal_row_per_episode:
  assumes "list_all after_epoch eos" and "\<forall>r \<in> set (u_rows s). 0 \<le> st_at r"
    and "\<forall>r \<in> set (u_rows s). st_outcome r \<noteq> Some OutcomeInhibited"
  shows "refusals (in_id (u_inst (run sup_step eos s))) (inhibit_reason_text reason)
           (episode_start (in_id (u_inst (run sup_step eos s))) (u_rows (run sup_step eos s)))
           (u_rows (run sup_step eos s)) \<le> 1"
proof -
  have "filter (is_refusal i t a) (u_rows s) = []" for i t a
    using assms(3) by (auto simp: filter_empty_conv is_refusal_def)
  then have "episode_ok s" using assms(2) by (simp add: episode_ok_def refusals_def)
  from episode.run_inv [OF assms(1) this] show ?thesis by (simp add: episode_ok_def)
qed

section \<open>The applied configuration\<close>

lemma act_applied_hash: "os_applied_hash (u_status (fst (act e obs prev s))) = os_applied_hash (u_status s)"
proof -
  have i: "os_applied_hash (u_status (inhibit e prev r l s)) = os_applied_hash (u_status s)" for r l
    by (auto simp: inhibit_def Let_def split: option.splits)
  have st: "os_applied_hash (u_status (fst (start_instance e f s))) = os_applied_hash (u_status s)" for f
    by (simp add: start_instance_def)
  have "os_applied_hash (u_status (fst (start_if_policy_allows e prev s))) = os_applied_hash (u_status s)"
    using st i by (auto simp: start_if_policy_allows_def reassign_internal_port_def
        mark_port_pool_exhausted_def split: decision.splits option.splits prod.splits)
      (metis fst_conv)+
  moreover obtain x as acted where x: "start_if_policy_allows e prev s = (x, as, acted)"
    by (cases "start_if_policy_allows e prev s") auto
  moreover obtain y bs where "reconcile_autostart e x = (y, bs)" by fastforce
  moreover obtain z cs where "reconcile_autostart e s = (z, cs)" by fastforce
  ultimately show ?thesis
    using reconcile_autostart_sel(2) [of e x] reconcile_autostart_sel(2) [of e s]
    by (auto simp: act_def)
qed

lemma insert_start_subset: "insert_start r rows = Some rows' \<Longrightarrow> set rows \<subseteq> set rows'"
  by (auto simp: insert_start_def split: if_splits)

text \<open>
  \<open>applied_config_hash\<close> records only a configuration that served. When a pass changes it,
  the probe of that pass answered 200 on an active unit, the open row of the instance had not
  been ready before, the new value is the hash that row rendered, and the same transaction
  stamped the row's \<open>ready_at\<close>.
\<close>

theorem applied_hash_only_from_a_ready_run:
  assumes obs: "obs = observe control props code server (u_status s)"
    and change: "os_applied_hash (u_status (fst (pass e obs s))) \<noteq> os_applied_hash (u_status s)"
  shows "code = 200 \<and> ob_unit obs = UnitActive
    \<and> (\<exists>r. open_start (in_id (u_inst s)) (u_rows s) = Some r \<and> st_ready_at r = None
         \<and> st_effective_config_hash r = os_applied_hash (u_status (fst (pass e obs s)))
         \<and> (\<exists>r' \<in> set (u_rows (fst (pass e obs s))). st_id r' = st_id r
              \<and> st_ready_at r' = Some (pe_now e) \<and> is_open r'))"
proof -
  obtain opn prev closure state' synth
    where parts: "pass_parts e obs s = (opn, prev, closure, state', synth)"
    by (metis prod_cases5)
  then have o1: "opn = open_start (in_id (u_inst s)) (u_rows s)"
    and c1: "closure = ledger_closure (u_inst s) obs opn (u_timed_out s) (pe_now e)"
    by (auto simp: pass_parts_def Let_def)
  from parts show ?thesis
  proof (cases rule: pass_cases)
    case (failed s1)
    with change show ?thesis by simp
  next
    case (recorded rows s3 prev')
    let ?n = "next_status e obs (u_status s) state' opn closure"
    have new: "os_applied_hash (u_status (fst (pass e obs s))) = os_applied_hash ?n"
      using recorded by (simp add: act_applied_hash)
    with change have "first_ready obs opn" and "os_applied_hash ?n \<noteq> os_applied_hash (u_status s)"
      by (auto simp: next_status_def applied_column_def split: if_splits)
    then obtain r h where r: "opn = Some r" "st_ready_at r = None" and probed: "ob_probed obs"
      and ok: "health_ok (ob_health obs)" and h: "st_effective_config_hash r = Some h"
      and hn: "os_applied_hash ?n = Some h"
      by (auto simp: first_ready_def next_status_def applied_column_def split: option.splits)
    have act1: "ob_unit obs = UnitActive" and code: "ob_health obs = code"
      using obs probed by (auto simp: observe_def Let_def split: option.splits if_splits)
    then have "closure = None" using c1 r by (simp add: ledger_closure_def)
    moreover have "synth = None"
      using parts act1 by (auto simp: pass_parts_def Let_def synthesize_if_owed_def)
    ultimately have rows: "rows = fst (stamp_ready (st_id r) (pe_now e) (u_rows s))"
      using recorded(2) r \<open>first_ready obs opn\<close>
      by (simp add: record_rows_def settle_open_def)
    have rin: "r \<in> set (u_rows s)" "is_open r" using open_start_Some o1 r by metis+
    have "r\<lparr>st_ready_at := Some (pe_now e)\<rparr> \<in> set rows"
      unfolding rows stamp_ready_def fst_conv set_map
      by (rule image_eqI [where x = r]) (simp_all add: rin r)
    then have "\<exists>r' \<in> set rows. st_id r' = st_id r \<and> st_ready_at r' = Some (pe_now e) \<and> is_open r'"
      using rin(2) by (intro bexI [of _ "r\<lparr>st_ready_at := Some (pe_now e)\<rparr>"])
        (auto simp: is_open_def)
    moreover have "set rows \<subseteq> set (u_rows (fst (act e obs prev' s3)))"
      using act_rows [of e obs prev' s3] insert_start_subset unfolding recorded(5) by blast
    then have "set rows \<subseteq> set (u_rows (fst (pass e obs s)))" by (simp add: recorded(3))
    ultimately show ?thesis
      using r h hn new act1 code ok o1 by (auto simp: health_ok_def)
  qed
qed

section \<open>The port repair\<close>

text \<open>
  The port the supervisor moves an instance to is in the configured pool, is not the one it
  holds, is neither the public nor the internal port of another live instance, passed the bind
  probe, and is the lowest such port; and no port is found exactly when the pool has none.
\<close>

theorem reassigned_port_is_the_lowest_free_one:
  assumes "0 < setting_int (pe_port_min e) 21000"
  shows "(pick_port e i = Some p \<longleftrightarrow>
       setting_int (pe_port_min e) 21000 \<le> p \<and> p \<le> setting_int (pe_port_max e) 21999
       \<and> p \<noteq> in_internal_port i \<and> pe_probe e p
       \<and> (\<forall>(h, pub, internal) \<in> set (pe_holders e). h \<noteq> in_id i \<longrightarrow> p \<noteq> pub \<and> p \<noteq> internal)
       \<and> (\<forall>q. setting_int (pe_port_min e) 21000 \<le> q \<and> q < p \<longrightarrow> \<not> port_free e i q))"
proof -
  define a where "a = setting_int (pe_port_min e) 21000"
  define b where "b = setting_int (pe_port_max e) 21999"
  have find_upto: "find P [x..b] = Some p \<longleftrightarrow> x \<le> p \<and> p \<le> b \<and> P p \<and> (\<forall>q. x \<le> q \<and> q < p \<longrightarrow> \<not> P q)"
    for P x
  proof (induction "nat (b + 1 - x)" arbitrary: x)
    case 0
    then show ?case by auto
  next
    case (Suc n)
    then have IH: "find P [x + 1..b] = Some p \<longleftrightarrow>
        x + 1 \<le> p \<and> p \<le> b \<and> P p \<and> (\<forall>q. x + 1 \<le> q \<and> q < p \<longrightarrow> \<not> P q)" and "x \<le> b"
      by (auto intro: Suc.hyps(1))
    then have "[x..b] = x # [x + 1..b]" by (simp add: upto.simps)
    show ?case
    proof (cases "P x")
      case True
      then show ?thesis using \<open>[x..b] = x # [x + 1..b]\<close> \<open>x \<le> b\<close>
        by (auto intro: antisym dest: spec [of _ x])
    next
      case False
      then show ?thesis using \<open>[x..b] = x # [x + 1..b]\<close> IH
        by auto (metis zle_add1_eq_le not_less order.strict_iff_order)+
    qed
  qed
  have "pick_port e i = Some p \<longleftrightarrow> find (port_free e i) [a..b] = Some p"
    using assms find_upto [of "port_free e i" a]
    by (auto simp: pick_port_def a_def b_def split: option.splits)
  also have "\<dots> \<longleftrightarrow> a \<le> p \<and> p \<le> b \<and> port_free e i p
      \<and> (\<forall>q. a \<le> q \<and> q < p \<longrightarrow> \<not> port_free e i q)" by (rule find_upto)
  also have "port_free e i p \<longleftrightarrow> p \<noteq> in_internal_port i \<and> pe_probe e p
      \<and> (\<forall>(h, pub, internal) \<in> set (pe_holders e). h \<noteq> in_id i \<longrightarrow> p \<noteq> pub \<and> p \<noteq> internal)"
    by (auto simp: port_free_def ports_taken_def split: if_splits)
  finally show ?thesis by (simp add: a_def b_def conj_ac)
qed

text \<open>
  An instance that is to run, whose last completed run ended with the port-conflict status and
  whose closed row carries no detail: what \<open>ledgerClosure\<close> writes when the launcher could not
  close its own row. \<open>b\<close> is an instant from which no backoff holds it.
\<close>

definition conflicted :: "unix_ms \<Rightarrow> sup \<Rightarrow> bool" where
  "conflicted b s \<longleftrightarrow> os_state (u_status s) = InstanceFailed
     \<and> (case os_backoff_until (u_status s) of None \<Rightarrow> True | Some u \<Rightarrow> u \<le> b)
     \<and> in_desired (u_inst s) = DesiredRunning \<and> in_deleted_at (u_inst s) = None
     \<and> in_restart_policy (u_inst s) = RestartAlways
     \<and> int (length (filter (\<lambda>r. st_outcome r = Some OutcomeFailed) (u_rows s)))
         \<le> in_restart_max (u_inst s)
     \<and> open_start (in_id (u_inst s)) (u_rows s) = None
     \<and> (\<exists>r. last_closed_start (in_id (u_inst s)) (u_rows s) = Some r
           \<and> st_exit_code r = Some ExitPortConflict \<and> st_detail_json r = None)"

definition quiet :: "unix_ms \<Rightarrow> penv \<times> observation \<Rightarrow> bool" where
  "quiet b eo \<longleftrightarrow> pe_control (fst eo) \<and> pe_runtime_ready (fst eo) \<and> pe_record_ok (fst eo)
     \<and> pe_act_ok (fst eo) \<and> b \<le> pe_now (fst eo) \<and> ob_unit (snd eo) = UnitFailed
     \<and> p_exec_main_status (ob_props (snd eo)) = ExitPortConflict"

lemma count_failed_le:
  "count_failed_starts_since i a rows
     \<le> int (length (filter (\<lambda>r. st_outcome r = Some OutcomeFailed) rows))"
  unfolding count_failed_starts_since_def
  by (induction rows) (auto simp: counts_as_failure_def)

lemma conflicted_pass:
  assumes c: "conflicted b s" and q: "quiet b (e, obs)"
  shows "conflicted b (fst (pass e obs s))
     \<and> snd (pass e obs s) = (case pick_port e (u_inst s) of
           Some p \<Rightarrow> [ActMovePort p] | None \<Rightarrow> [ActPoolExhausted])"
proof -
  let ?i = "in_id (u_inst s)"
  obtain r where op: "open_start ?i (u_rows s) = None"
    and r: "last_closed_start ?i (u_rows s) = Some r" "st_exit_code r = Some ExitPortConflict"
      "st_detail_json r = None"
    using c by (auto simp: conflicted_def)
  obtain opn prev closure state' synth
    where parts: "pass_parts e obs s = (opn, prev, closure, state', synth)"
    by (metis prod_cases5)
  then have o1: "opn = None" and p1: "prev = Some r" and c1: "closure = None"
    using op r by (auto simp: pass_parts_def Let_def ledger_closure_def)
  have failed: "state' = InstanceFailed" and synth: "synth = None"
    using parts c q op by (auto simp: pass_parts_def Let_def derive_state_def conflicted_def
        quiet_def synthesize_if_owed_def synthesized_error_code_def exit_defs)
  from parts show ?thesis
  proof (cases rule: pass_cases)
    case (failed s1)
    then show ?thesis using q by (simp add: quiet_def synth o1 record_rows_def)
  next
    case (recorded rows s3 prev')
    have rows: "u_rows s3 = u_rows s"
      using recorded(2,5) by (simp add: synth o1 record_rows_def settle_open_def)
    have prev': "prev' = Some r" using recorded(8) o1 p1 by simp
    have st: "os_state (u_status s3) = InstanceFailed"
      "os_backoff_until (u_status s3) = os_backoff_until (u_status s)"
      using recorded(6) failed by simp_all
    obtain f v where v: "start_verdict_of e prev' s3 = (f, v)" by fastforce
    obtain a where "f = count_failed_starts_since ?i a (u_rows s)"
      using v by (auto simp: start_verdict_of_def Let_def rows recorded(4))
    then have "f \<le> in_restart_max (u_inst s)"
      using c count_failed_le [of ?i a "u_rows s"] by (simp add: conflicted_def)
    moreover have "\<not> (case os_backoff_until (u_status s) of None \<Rightarrow> False | Some u \<Rightarrow> pe_now e < u)"
      using c q by (auto simp: conflicted_def quiet_def split: option.splits)
    ultimately have start: "sv_decision v = DecideStart"
      using v c q st
      by (cases "os_backoff_until (u_status s)")
        (auto simp: start_verdict_of_def Let_def evaluate_start_def backing_off_def
          conflicted_def quiet_def recorded(4))
    have needs: "needs_port_reassignment e (u_inst s) prev'"
      by (simp add: needs_port_reassignment_def prev' r)
    have act1: "act e obs prev' s3 = (case pick_port e (u_inst s) of
        Some p \<Rightarrow> (reassign_internal_port e p s3, [ActMovePort p])
      | None \<Rightarrow> (mark_port_pool_exhausted e s3, [ActPoolExhausted]))"
      using c q st needs start v
      by (auto simp: act_def start_if_policy_allows_def conflicted_def quiet_def recorded(4)
          split: option.splits)
    show ?thesis
    proof (cases "pick_port e (u_inst s)")
      case None
      then show ?thesis
        using act1 recorded(3) c q st rows recorded(4)
        by (auto simp: conflicted_def mark_port_pool_exhausted_def quiet_def)
    next
      case (Some p)
      then show ?thesis
        using act1 recorded(3) c q st rows recorded(4)
        by (auto simp: conflicted_def reassign_internal_port_def quiet_def)
    qed
  qed
qed

interpretation conflict: machine sup_step "quiet b" "conflicted b"
  by unfold_locales (use conflicted_pass in \<open>auto simp: sup_step_def\<close>)

text \<open>
  A port conflict whose row carries no detail is never repaired. For an instance that is to run
  with \<open>restart_policy=always\<close>, its failures within the budget, its backoff over and the runtime
  ready, and as long as the unit reports exit 78 and the transactions commit: every pass moves the
  instance to another port, or finds the pool exhausted again, and none ever starts it. The closed
  row keeps asking for a reassignment, because it names no port that the move could have changed.
\<close>

theorem port_conflict_without_detail_never_starts:
  assumes "conflicted b s" and "list_all (quiet b) eos" and "quiet b (e, obs)"
  shows "snd (pass e obs (run sup_step eos s)) =
           (case pick_port e (u_inst (run sup_step eos s)) of
              Some p \<Rightarrow> [ActMovePort p] | None \<Rightarrow> [ActPoolExhausted])
     \<and> ActStart \<notin> set (snd (pass e obs (run sup_step eos s)))"
  using conflicted_pass [OF conflict.run_inv [OF assms(2,1)] assms(3)]
  by (auto split: option.splits)

section \<open>The synthesized row\<close>

lemma insert_start_append: "insert_start r rows = Some rows' \<Longrightarrow> rows' = rows @ [r]"
  by (auto simp: insert_start_def split: if_splits)

lemma find_append_not: "\<not> p x \<Longrightarrow> find p (xs @ [x]) = find p xs"
  by (induction xs) auto

definition claimed :: "unix_ms \<Rightarrow> ledger \<Rightarrow> sup \<Rightarrow> bool" where
  "claimed t rows0 s \<longleftrightarrow> u_synthesized s = Some t
     \<and> open_start (in_id (u_inst s)) (u_rows s) = None
     \<and> (\<forall>r \<in> set (u_rows s). st_exit_code r \<noteq> None \<longrightarrow> r \<in> set rows0)"

definition same_exit :: "unix_ms \<Rightarrow> penv \<times> observation \<Rightarrow> bool" where
  "same_exit t eo \<longleftrightarrow> ob_unit (snd eo) = UnitFailed
     \<and> p_exec_main_exit (ob_props (snd eo)) = Some t
     \<and> synthesized_error_code (p_exec_main_status (ob_props (snd eo))) \<noteq> None"

lemma act_synth [simp]: "u_synthesized (fst (act e obs prev s)) = u_synthesized s"
proof -
  have i: "u_synthesized (inhibit e prev r l s) = u_synthesized s" for r l
    by (auto simp: inhibit_def Let_def split: option.splits)
  have "u_synthesized (fst (start_if_policy_allows e prev s)) = u_synthesized s"
    using i by (auto simp: start_if_policy_allows_def reassign_internal_port_def start_instance_def
        mark_port_pool_exhausted_def split: decision.splits option.splits prod.splits)
  moreover have re: "u_synthesized (fst (reconcile_autostart e x)) = u_synthesized x" for x
    by (simp add: reconcile_autostart_def Let_def)
  moreover obtain x as acted where x: "start_if_policy_allows e prev s = (x, as, acted)"
    by (cases "start_if_policy_allows e prev s") auto
  moreover obtain y bs where "reconcile_autostart e x = (y, bs)" by fastforce
  moreover obtain z cs where "reconcile_autostart e s = (z, cs)" by fastforce
  ultimately show ?thesis using re [of x] re [of s] by (auto simp: act_def)
qed

lemma claimed_pass:
  assumes c: "claimed t rows0 s" and o1: "same_exit t (e, obs)"
  shows "claimed t rows0 (fst (pass e obs s))"
proof -
  have op: "open_start (in_id (u_inst s)) (u_rows s) = None" using c by (simp add: claimed_def)
  obtain opn prev closure state' synth
    where parts: "pass_parts e obs s = (opn, prev, closure, state', synth)"
    by (metis prod_cases5)
  then have opn: "opn = None" using op by (auto simp: pass_parts_def Let_def)
  have sy: "synthesize_if_owed e (u_inst s) obs opn prev (u_synthesized s) = (Some t, None)"
    using c o1 opn
    by (auto simp: synthesize_if_owed_def claimed_def same_exit_def exit_instant_def Let_def)
  then have synth: "synth = None" using parts opn op by (auto simp: pass_parts_def Let_def)
  from parts show ?thesis
  proof (cases rule: pass_cases)
    case (failed s1)
    with c sy show ?thesis by (simp add: claimed_def)
  next
    case (recorded rows s3 prev')
    have rows: "u_rows s3 = u_rows s"
      using recorded(2,5) by (simp add: synth opn record_rows_def settle_open_def)
    have new: "u_rows (fst (act e obs prev' s3)) = u_rows s
        \<or> (\<exists>reason. u_rows (fst (act e obs prev' s3)) = u_rows s @ [refusal_row e (u_inst s) reason])"
      using act_rows [of e obs prev' s3] insert_start_append unfolding rows recorded(4) by metis
    have "open_start i (u_rows s @ [refusal_row e x reason]) = open_start i (u_rows s)" for i x reason
      by (simp add: find_append_not open_start_def is_open_def refusal_row_def)
    then show ?thesis
      using new c sy recorded(3,4,7) op
      by (auto simp: claimed_def refusal_row_def)
  qed
qed

interpretation claim: machine sup_step "same_exit t" "claimed t rows0"
  by unfold_locales (auto simp: sup_step_def intro: claimed_pass)

text \<open>
  The row owed for a launcher that exited before it could write one is lost when the pass
  that synthesizes it fails to commit. The claim on the exit is taken in memory inside the
  transaction and is not given back by the rollback, so that no later pass that sees the same
  exit ever inserts a row for it.
\<close>

theorem synthesized_row_lost_after_rollback:
  assumes "same_exit t (e, obs)" and "open_start (in_id (u_inst s)) (u_rows s) = None"
    and "\<not> pe_record_ok e" and "list_all (same_exit t) eos"
  shows "\<forall>r \<in> set (u_rows (run sup_step ((e, obs) # eos) s)).
           st_exit_code r \<noteq> None \<longrightarrow> r \<in> set (u_rows s)"
proof -
  obtain opn prev closure state' synth
    where parts: "pass_parts e obs s = (opn, prev, closure, state', synth)"
    by (metis prod_cases5)
  then have opn: "opn = None" using assms(2) by (auto simp: pass_parts_def Let_def)
  have sy: "fst (synthesize_if_owed e (u_inst s) obs opn prev (u_synthesized s)) = Some t"
    using assms(1) opn
    by (auto simp: synthesize_if_owed_def same_exit_def exit_instant_def Let_def split: option.splits)
  from parts have "claimed t (u_rows s) (fst (pass e obs s))"
  proof (cases rule: pass_cases)
    case (failed s1)
    with assms(2) sy show ?thesis by (simp add: claimed_def)
  next
    case (recorded rows s3 prev')
    with assms(3) show ?thesis by simp
  qed
  then have "claimed t (u_rows s) (run sup_step eos (fst (pass e obs s)))"
    by (rule claim.run_inv [OF assms(4)])
  then show ?thesis by (simp add: claimed_def sup_step_def)
qed

section \<open>The properties at concrete inputs\<close>

definition demo_inst :: inst where
  "demo_inst = \<lparr>in_id = ''i'', in_name = ''qwen'', in_internal_port = 21000, in_autostart = False,
     in_restart_policy = RestartAlways, in_restart_max = 5, in_restart_window = 600,
     in_config_hash = ''h'', in_desired = DesiredRunning, in_pending_trigger = None,
     in_pending_override = None, in_updated_at = 0, in_deleted_at = None\<rparr>"

definition demo_status :: "instance_state \<Rightarrow> istatus" where
  "demo_status st = \<lparr>os_state = st, os_systemd_active = None, os_systemd_sub = None,
     os_systemd_result = None, os_main_pid = None, os_exe_version = None, os_applied_hash = None,
     os_ready_at = None, os_last_change = 0, os_last_health = None, os_health_code = None,
     os_slots_total = None, os_ctx_size = None, os_last_exit = None, os_last_error = None,
     os_backoff_until = None, os_window_reset = 0\<rparr>"

definition demo_row :: "string \<Rightarrow> start_outcome option \<Rightarrow> int option \<Rightarrow> start_row" where
  "demo_row i oc ec = \<lparr>st_id = i, st_instance_id = ''i'', st_at = 10, st_trigger = StartByUser,
     st_config_hash = ''h'', st_effective_config_hash = Some ''h'', st_override_json = None,
     st_argv_json = None, st_llamacpp_version_id = None, st_ready_at = None, st_outcome = oc,
     st_exit_code = ec, st_error_code = None, st_error_message = None, st_detail_json = None,
     st_ended_at = map_option (\<lambda>_. 20) oc\<rparr>"

definition demo_sup :: "instance_state \<Rightarrow> ledger \<Rightarrow> sup" where
  "demo_sup st rows = \<lparr>u_inst = demo_inst, u_status = demo_status st, u_rows = rows, u_fails = 0,
     u_timed_out = [], u_synthesized = None, u_applied_autostart = None, u_events = []\<rparr>"

definition demo_env :: penv where
  "demo_env = \<lparr>pe_now = 1000, pe_control = True, pe_runtime_ready = True, pe_active_id = ''v'',
     pe_active_dir = [], pe_exe = (\<lambda>_. None), pe_start_timeout = None, pe_port_min = None,
     pe_port_max = Some 21002, pe_holders = [(''j'', 8001, 21001)], pe_probe = (\<lambda>_. True),
     pe_detail_port = (\<lambda>_. None), pe_manage_units = False, pe_enabled = None,
     pe_enable_ok = True, pe_synth_id = ''s'', pe_refusal_id = ''r'', pe_record_ok = True,
     pe_act_ok = True\<rparr>"

definition demo_down :: "int \<Rightarrow> observation" where
  "demo_down status = \<lparr>ob_unit = UnitFailed, ob_props = no_props\<lparr>p_exec_main_status := status,
     p_exec_main_exit := Some 900\<rparr>, ob_health = 0, ob_probed = False, ob_server = None\<rparr>"

theorem outcome_is_written_once_witness:
  "demo_row ''a'' (Some OutcomeFailed) (Some 1)
     \<in> set (u_rows (run sup_step [(demo_env, demo_down 1), (demo_env, demo_down 1)]
          (demo_sup InstanceFailed [demo_row ''a'' (Some OutcomeFailed) (Some 1), demo_row ''b'' None None])))"
  using outcome_is_written_once [of "demo_sup InstanceFailed
      [demo_row ''a'' (Some OutcomeFailed) (Some 1), demo_row ''b'' None None]"
      "[(demo_env, demo_down 1), (demo_env, demo_down 1)]"]
  by (simp add: demo_sup_def demo_row_def ledger_ok_def is_open_def)

theorem crash_loop_latch_holds_witness:
  "os_state (u_status (run sup_step [(demo_env, demo_down 1)] (demo_sup InstanceCrashLooping [])))
     = InstanceCrashLooping"
  using crash_loop_latch_holds [of "demo_sup InstanceCrashLooping []" "[(demo_env, demo_down 1)]"
      "demo_down 1" demo_env]
  by (simp add: latched_def unit_down_def demo_sup_def demo_status_def demo_inst_def demo_down_def)

theorem one_refusal_row_per_episode_witness:
  "refusals ''i'' ''crash_loop'' (episode_start ''i'' (u_rows (demo_sup InstanceCrashLooping [])))
     (u_rows (demo_sup InstanceCrashLooping [])) \<le> 1"
  using one_refusal_row_per_episode [of "[]" "demo_sup InstanceCrashLooping []" InhibitCrashLoop]
  by (simp add: demo_sup_def demo_inst_def)

definition demo_ready :: observation where
  "demo_ready = observe True (Some (no_props\<lparr>p_active_state := ''active''\<rparr>)) 200 None
     (demo_status InstanceLoading)"

theorem applied_hash_only_from_a_ready_run_witness:
  "os_applied_hash (u_status (fst (pass demo_env demo_ready
      (demo_sup InstanceLoading [demo_row ''b'' None None])))) = Some ''h''
   \<and> ob_unit demo_ready = UnitActive"
proof -
  let ?s = "demo_sup InstanceLoading [demo_row ''b'' None None]"
  have h: "os_applied_hash (u_status (fst (pass demo_env demo_ready ?s))) = Some ''h''"
    by code_simp
  have "demo_ready = observe True (Some (no_props\<lparr>p_active_state := ''active''\<rparr>)) 200 None (u_status ?s)"
    by (simp add: demo_ready_def demo_sup_def)
  from applied_hash_only_from_a_ready_run [OF this, of demo_env] h
  show ?thesis by (simp add: demo_sup_def demo_status_def)
qed

theorem reassigned_port_is_the_lowest_free_one_witness: "pick_port demo_env demo_inst = Some 21002"
proof -
  have "port_free demo_env demo_inst q \<Longrightarrow> 21000 \<le> q \<Longrightarrow> q < 21002 \<Longrightarrow> False" for q
  proof -
    assume q: "port_free demo_env demo_inst q" "21000 \<le> q" "q < 21002"
    then have "q = 21000 \<or> q = 21001" by auto
    with q(1) show False
      by (auto simp: port_free_def ports_taken_def demo_env_def demo_inst_def)
  qed
  then show ?thesis
    using reassigned_port_is_the_lowest_free_one [of demo_env demo_inst 21002]
    by (auto simp: setting_int_def demo_env_def demo_inst_def)
qed

theorem port_conflict_without_detail_never_starts_witness:
  "snd (pass demo_env (demo_down 78) (run sup_step [(demo_env, demo_down 78)]
      (demo_sup InstanceFailed [demo_row ''a'' (Some OutcomeFailed) (Some 78)]))) \<noteq> [ActStart]"
proof -
  have "conflicted 0 (demo_sup InstanceFailed [demo_row ''a'' (Some OutcomeFailed) (Some 78)])"
    by (simp add: conflicted_def demo_sup_def demo_status_def demo_inst_def demo_row_def
        open_start_def is_open_def last_closed_start_def newest_first_def is_run_closed_def
        ExitPortConflict_def)
  moreover have "quiet 0 (demo_env, demo_down 78)"
    by (simp add: quiet_def demo_env_def demo_down_def ExitPortConflict_def)
  ultimately show ?thesis
    using port_conflict_without_detail_never_starts [of 0 _ "[(demo_env, demo_down 78)]" demo_env
        "demo_down 78"] by force
qed

theorem synthesized_row_lost_after_rollback_witness:
  "filter (\<lambda>r. st_exit_code r \<noteq> None) (u_rows (run sup_step
      [(demo_env\<lparr>pe_record_ok := False\<rparr>, demo_down 70), (demo_env, demo_down 70)]
      (demo_sup InstanceFailed []))) = []"
  using synthesized_row_lost_after_rollback [of 900 "demo_env\<lparr>pe_record_ok := False\<rparr>"
      "demo_down 70" "demo_sup InstanceFailed []" "[(demo_env, demo_down 70)]"]
  by (simp add: same_exit_def demo_down_def synthesized_error_code_def exit_defs demo_sup_def
      open_start_def filter_empty_conv del: run_simps)

theorem one_action_per_pass_witness:
  "snd (pass demo_env demo_ready
     (demo_sup InstanceReady [] \<lparr>u_inst := demo_inst\<lparr>in_desired := DesiredStopped\<rparr>\<rparr>)) = [ActStop]
   \<and> ob_unit demo_ready \<in> {UnitActive, UnitActivating}"
proof -
  let ?s = "demo_sup InstanceReady [] \<lparr>u_inst := demo_inst\<lparr>in_desired := DesiredStopped\<rparr>\<rparr>"
  have "snd (pass demo_env demo_ready ?s) = [ActStop]" by code_simp
  with one_action_per_pass [of demo_env demo_ready ?s] show ?thesis by simp
qed

end
