(* ===== verification/Gguf_Types.thy ===== *)
theory Gguf_Types
  imports Prelude
begin

text \<open>
  The types of a GGUF header (\<open>internal/gguf/types.go\<close> and \<open>errors.go\<close>): the thirteen
  metadata value types with their sizes on disk, the ggml tensor types with the size of
  their quantization blocks, and the sentinel errors the parser wraps.

  A value type is only ever held after \<open>Valid\<close> has accepted its number, so it is a datatype
  and \<open>value_type_of\<close> is the check. A ggml type is kept as the number the file holds,
  because its numbering has holes and \<open>traits\<close> is asked for numbers outside the table.
\<close>

datatype gguf_error = ErrBadMagic | ErrUnsupportedVersion | ErrTruncated | ErrCorrupt
  | ErrHeaderTooLarge | ErrUnknownValueType | ErrUnknownTensorType

section \<open>Metadata value types\<close>

datatype value_type = ValueUint8 | ValueInt8 | ValueUint16 | ValueInt16 | ValueUint32
  | ValueInt32 | ValueFloat32 | ValueBool | ValueString | ValueArray | ValueUint64
  | ValueInt64 | ValueFloat64

definition value_types :: "value_type list" where
  "value_types = [ValueUint8, ValueInt8, ValueUint16, ValueInt16, ValueUint32, ValueInt32,
     ValueFloat32, ValueBool, ValueString, ValueArray, ValueUint64, ValueInt64, ValueFloat64]"

definition value_type_of :: "u32 \<Rightarrow> value_type option" where
  "value_type_of raw =
     (if unat raw < length value_types then Some (value_types ! unat raw) else None)"

fun value_type_num :: "value_type \<Rightarrow> u32" where
  "value_type_num ValueUint8 = 0" | "value_type_num ValueInt8 = 1"
| "value_type_num ValueUint16 = 2" | "value_type_num ValueInt16 = 3"
| "value_type_num ValueUint32 = 4" | "value_type_num ValueInt32 = 5"
| "value_type_num ValueFloat32 = 6" | "value_type_num ValueBool = 7"
| "value_type_num ValueString = 8" | "value_type_num ValueArray = 9"
| "value_type_num ValueUint64 = 10" | "value_type_num ValueInt64 = 11"
| "value_type_num ValueFloat64 = 12"

fun value_type_name :: "value_type \<Rightarrow> string" where
  "value_type_name ValueUint8 = ''uint8''" | "value_type_name ValueInt8 = ''int8''"
| "value_type_name ValueUint16 = ''uint16''" | "value_type_name ValueInt16 = ''int16''"
| "value_type_name ValueUint32 = ''uint32''" | "value_type_name ValueInt32 = ''int32''"
| "value_type_name ValueFloat32 = ''float32''" | "value_type_name ValueBool = ''bool''"
| "value_type_name ValueString = ''string''" | "value_type_name ValueArray = ''array''"
| "value_type_name ValueUint64 = ''uint64''" | "value_type_name ValueInt64 = ''int64''"
| "value_type_name ValueFloat64 = ''float64''"

definition value_type_string :: "u32 \<Rightarrow> string" where
  "value_type_string raw = (case value_type_of raw of
       None \<Rightarrow> ''value_type('' @ nat_dec (unat raw) @ '')''
     | Some t \<Rightarrow> value_type_name t)"

fun wireSize :: "value_type \<Rightarrow> nat" where
  "wireSize ValueUint8 = 1" | "wireSize ValueInt8 = 1" | "wireSize ValueBool = 1"
| "wireSize ValueUint16 = 2" | "wireSize ValueInt16 = 2"
| "wireSize ValueUint32 = 4" | "wireSize ValueInt32 = 4" | "wireSize ValueFloat32 = 4"
| "wireSize ValueUint64 = 8" | "wireSize ValueInt64 = 8" | "wireSize ValueFloat64 = 8"
| "wireSize ValueString = 0" | "wireSize ValueArray = 0"

definition minWireSize :: "value_type \<Rightarrow> nat" where
  "minWireSize t = (case t of ValueString \<Rightarrow> 8 | ValueArray \<Rightarrow> 12 | _ \<Rightarrow> wireSize t)"

lemma value_type_of_num [simp]: "value_type_of (value_type_num t) = Some t"
  by (cases t) (simp_all add: value_type_of_def value_types_def)

lemma value_type_num_of: "value_type_of raw = Some t \<Longrightarrow> value_type_num t = raw"
proof -
  assume a: "value_type_of raw = Some t"
  then have b: "unat raw < 13" by (auto simp: value_type_of_def value_types_def split: if_splits)
  have "list_all (\<lambda>i. unat (value_type_num (value_types ! i)) = i) [0..<13]" by code_simp
  then have "unat (value_type_num (value_types ! i)) = i" if "i < 13" for i
    using that by (simp add: list_all_iff)
  with a b have "unat (value_type_num t) = unat raw"
    by (auto simp: value_type_of_def split: if_splits)
  then show ?thesis by (rule word_unat_eq_iff [THEN iffD2])
qed

lemma wireSize_le_min: "wireSize t \<le> minWireSize t"
  by (cases t) (simp_all add: minWireSize_def)

lemma minWireSize_pos [simp]: "0 < minWireSize t"
  by (cases t) (simp_all add: minWireSize_def)

lemma wireSize_zero: "wireSize t = 0 \<longleftrightarrow> t = ValueString \<or> t = ValueArray"
  by (cases t) simp_all

section \<open>Tensor types\<close>

record tensor_traits =
  tr_name :: string
  tr_blockSize :: nat
  tr_typeSize :: nat

definition traits_row :: "string \<Rightarrow> nat \<Rightarrow> nat \<Rightarrow> tensor_traits option" where
  "traits_row n b s = Some \<lparr>tr_name = n, tr_blockSize = b, tr_typeSize = s\<rparr>"

definition tensorTypeTraits :: "tensor_traits option list" where
  "tensorTypeTraits =
    [traits_row ''f32'' 1 4, traits_row ''f16'' 1 2, traits_row ''q4_0'' 32 18,
     traits_row ''q4_1'' 32 20, None, None, traits_row ''q5_0'' 32 22, traits_row ''q5_1'' 32 24,
     traits_row ''q8_0'' 32 34, traits_row ''q8_1'' 32 36, traits_row ''q2_K'' 256 84,
     traits_row ''q3_K'' 256 110, traits_row ''q4_K'' 256 144, traits_row ''q5_K'' 256 176,
     traits_row ''q6_K'' 256 210, traits_row ''q8_K'' 256 292, traits_row ''iq2_xxs'' 256 66,
     traits_row ''iq2_xs'' 256 74, traits_row ''iq3_xxs'' 256 98, traits_row ''iq1_s'' 256 50,
     traits_row ''iq4_nl'' 32 18, traits_row ''iq3_s'' 256 110, traits_row ''iq2_s'' 256 82,
     traits_row ''iq4_xs'' 256 136, traits_row ''i8'' 1 1, traits_row ''i16'' 1 2,
     traits_row ''i32'' 1 4, traits_row ''i64'' 1 8, traits_row ''f64'' 1 8,
     traits_row ''iq1_m'' 256 56, traits_row ''bf16'' 1 2, None, None, None,
     traits_row ''tq1_0'' 256 54, traits_row ''tq2_0'' 256 66, None, None, None,
     traits_row ''mxfp4'' 32 17]"

definition ggml_traits :: "u32 \<Rightarrow> tensor_traits option" where
  "ggml_traits t = (if length tensorTypeTraits \<le> unat t then None else tensorTypeTraits ! unat t)"

definition ggml_valid :: "u32 \<Rightarrow> bool" where
  "ggml_valid t = (ggml_traits t \<noteq> None)"

definition ggml_string :: "u32 \<Rightarrow> string" where
  "ggml_string t = (case ggml_traits t of Some tr \<Rightarrow> tr_name tr
     | None \<Rightarrow> ''ggml_type('' @ nat_dec (unat t) @ '')'')"

definition BlockSize :: "u32 \<Rightarrow> nat" where
  "BlockSize t = (case ggml_traits t of Some tr \<Rightarrow> tr_blockSize tr | None \<Rightarrow> 0)"

definition TypeSize :: "u32 \<Rightarrow> nat" where
  "TypeSize t = (case ggml_traits t of Some tr \<Rightarrow> tr_typeSize tr | None \<Rightarrow> 0)"

definition Quantized :: "u32 \<Rightarrow> bool" where
  "Quantized t = (BlockSize t > 1)"

lemma traits_rows:
  "list_all (\<lambda>r. case r of None \<Rightarrow> True
     | Some tr \<Rightarrow> tr_blockSize tr \<in> {1, 32, 256} \<and> 0 < tr_typeSize tr \<and> tr_typeSize tr \<le> 292)
   tensorTypeTraits"
  by (simp add: tensorTypeTraits_def traits_row_def)

lemma ggml_traits_row:
  assumes "ggml_traits t = Some tr"
  shows "tr_blockSize tr \<in> {1, 32, 256}" and "0 < tr_typeSize tr" and "tr_typeSize tr \<le> 292"
proof -
  from assms have "Some tr \<in> set tensorTypeTraits"
    unfolding ggml_traits_def by (metis linorder_not_le nth_mem option.distinct(1))
  with traits_rows show "tr_blockSize tr \<in> {1, 32, 256}" "0 < tr_typeSize tr" "tr_typeSize tr \<le> 292"
    by (auto simp: list_all_iff)
qed

lemma ggml_valid_sizes:
  assumes "ggml_valid t"
  shows "0 < BlockSize t" and "BlockSize t \<le> 256" and "0 < TypeSize t" and "TypeSize t \<le> 292"
  using assms ggml_traits_row [of t]
  by (auto simp: ggml_valid_def BlockSize_def TypeSize_def)

section \<open>File types\<close>

definition fileTypeNames :: "(nat \<times> string) list" where
  "fileTypeNames = [(0, ''F32''), (1, ''F16''), (2, ''Q4_0''), (3, ''Q4_1''), (7, ''Q8_0''),
     (8, ''Q5_0''), (9, ''Q5_1''), (10, ''Q2_K''), (11, ''Q3_K_S''), (12, ''Q3_K_M''),
     (13, ''Q3_K_L''), (14, ''Q4_K_S''), (15, ''Q4_K_M''), (16, ''Q5_K_S''), (17, ''Q5_K_M''),
     (18, ''Q6_K''), (19, ''IQ2_XXS''), (20, ''IQ2_XS''), (21, ''Q2_K_S''), (22, ''IQ3_XS''),
     (23, ''IQ3_XXS''), (24, ''IQ1_S''), (25, ''IQ4_NL''), (26, ''IQ3_S''), (27, ''IQ3_M''),
     (28, ''IQ2_S''), (29, ''IQ2_M''), (30, ''IQ4_XS''), (31, ''IQ1_M''), (32, ''BF16''),
     (36, ''TQ1_0''), (37, ''TQ2_0''), (38, ''MXFP4_MOE'')]"

definition FileTypeName :: "u64 \<Rightarrow> string option" where
  "FileTypeName ft = map_of fileTypeNames (unat ft)"

end
