(* ===== verification/Gguf_Tensor.thy ===== *)
theory Gguf_Tensor
  imports Gguf_Types
begin

text \<open>
  The tensor index and what is computed from it (\<open>internal/gguf/tensor.go\<close>): the size of a
  tensor, the block it belongs to, the totals per block and per type, and the type a file's
  quantization is named after. A count or a size is the Go \<open>uint64\<close>, which wraps.
\<close>

definition MaxInt64 :: nat where
  "MaxInt64 = 9223372036854775807"

record tensor_info =
  ti_Name :: string
  ti_Dims :: "u64 list"
  ti_Type :: u32
  ti_Offset :: u64

definition Elements :: "tensor_info \<Rightarrow> u64" where
  "Elements t = fold (\<lambda>d n. n * d) (ti_Dims t) 1"

definition Bytes :: "tensor_info \<Rightarrow> u64" where
  "Bytes t = (case ggml_traits (ti_Type t) of None \<Rightarrow> 0
     | Some tr \<Rightarrow> Elements t div of_nat (tr_blockSize tr) * of_nat (tr_typeSize tr))"

definition LayerIndex :: "tensor_info \<Rightarrow> nat option" where
  "LayerIndex t = (case cut_prefix (ti_Name t) ''blk.'' of None \<Rightarrow> None
     | Some rest \<Rightarrow> (case cut (CHR ''.'') rest of None \<Rightarrow> None
         | Some (digits, _) \<Rightarrow>
             if digits = [] \<or> length digits > 9 then None
             else (case atoi digits of None \<Rightarrow> None
               | Some n \<Rightarrow> if n < 0 then None else Some (nat n))))"

section \<open>Buckets\<close>

record type_usage =
  tu_Type :: u32
  tu_Name :: string
  tu_Tensors :: nat
  tu_Elements :: u64
  tu_Bytes :: u64

record sizes =
  sz_TensorCount :: nat
  sz_Total :: u64
  sz_Layer :: "u64 list"
  sz_Other :: u64
  sz_ByType :: "type_usage list"

definition max_layer :: "tensor_info list \<Rightarrow> int" where
  "max_layer ts = fold (\<lambda>t m. case LayerIndex t of
       Some i \<Rightarrow> if int i > m then int i else m | None \<Rightarrow> m) ts (- 1)"

record size_acc =
  sa_total :: u64
  sa_layer :: "u64 list"
  sa_layer_total :: u64
  sa_by_type :: "u32 \<Rightarrow> type_usage option"

definition size_step :: "tensor_info \<Rightarrow> size_acc \<Rightarrow> size_acc" where
  "size_step t s =
    (let b = Bytes t;
         s1 = s\<lparr>sa_total := sa_total s + b\<rparr>;
         s2 = (case LayerIndex t of None \<Rightarrow> s1
           | Some i \<Rightarrow> s1\<lparr>sa_layer := (sa_layer s1)[i := sa_layer s1 ! i + b],
                          sa_layer_total := sa_layer_total s1 + b\<rparr>);
         u = (case sa_by_type s2 (ti_Type t) of Some u \<Rightarrow> u
           | None \<Rightarrow> \<lparr>tu_Type = 0, tu_Name = [], tu_Tensors = 0, tu_Elements = 0, tu_Bytes = 0\<rparr>);
         u' = \<lparr>tu_Type = ti_Type t, tu_Name = ggml_string (ti_Type t),
               tu_Tensors = tu_Tensors u + 1, tu_Elements = tu_Elements u + Elements t,
               tu_Bytes = tu_Bytes u + b\<rparr>
     in s2\<lparr>sa_by_type := (sa_by_type s2)(ti_Type t \<mapsto> u')\<rparr>)"

text \<open>
  The rows of the map come out of Go in any order and are sorted by their type, which no two
  rows share: so the list is the one in the order of the types.
\<close>

definition Sizes :: "tensor_info list \<Rightarrow> sizes" where
  "Sizes ts =
    (let m = max_layer ts;
         s0 = \<lparr>sa_total = 0, sa_layer = (if m \<ge> 0 then replicate (nat m + 1) 0 else []),
               sa_layer_total = 0, sa_by_type = (\<lambda>_. None)\<rparr>;
         s = fold size_step ts s0
     in \<lparr>sz_TensorCount = length ts, sz_Total = sa_total s, sz_Layer = sa_layer s,
         sz_Other = sa_total s - sa_layer_total s,
         sz_ByType = map (\<lambda>ty. the (sa_by_type s ty)) (sort (remdups (map ti_Type ts)))\<rparr>)"

definition best_usage :: "type_usage list \<Rightarrow> type_usage option" where
  "best_usage us = fold (\<lambda>u best. case best of None \<Rightarrow> Some u
     | Some b \<Rightarrow> if tu_Bytes u > tu_Bytes b then Some u else Some b) us None"

definition DominantType :: "sizes \<Rightarrow> u32 option" where
  "DominantType s =
    (case best_usage (filter (\<lambda>u. Quantized (tu_Type u)) (sz_ByType s)) of
       Some u \<Rightarrow> Some (tu_Type u)
     | None \<Rightarrow> map_option tu_Type (best_usage (sz_ByType s)))"

section \<open>Facts\<close>

lemma LayerIndex_bound: "LayerIndex t = Some i \<Longrightarrow> i < 1000000000"
proof -
  assume "LayerIndex t = Some i"
  then obtain ds n where ds: "length ds \<le> 9" "atoi ds = Some n" "0 \<le> n" "i = nat n"
    by (auto simp: LayerIndex_def not_less split: option.splits if_splits prod.splits)
  from \<open>atoi ds = Some n\<close> obtain s m
    where "digits_val 0 s = Some m" "length s \<le> length ds" "\<bar>n\<bar> = int m" by (rule atoi_digits)
  moreover have "10 ^ length s \<le> (10 ^ 9 :: nat)" 
    using \<open>length s \<le> length ds\<close> ds(1) by (intro power_increasing) auto
  ultimately show ?thesis using digits_val_bound [of 0 s m] ds by simp
qed

lemma max_layer_ge_acc:
  "m \<le> fold (\<lambda>t m. case LayerIndex t of
       Some i \<Rightarrow> if int i > m then int i else m | None \<Rightarrow> m) ts m"
proof (induction ts arbitrary: m)
  case (Cons t ts)
  show ?case by (auto split: option.split intro: order_trans [OF _ Cons.IH])
qed simp

lemma max_layer_acc:
  "t \<in> set ts \<Longrightarrow> LayerIndex t = Some i \<Longrightarrow>
   int i \<le> fold (\<lambda>t m. case LayerIndex t of
       Some i \<Rightarrow> if int i > m then int i else m | None \<Rightarrow> m) ts m"
proof (induction ts arbitrary: m)
  case (Cons u ts)
  then show ?case
    by (auto simp del: of_nat_less_iff intro: order_trans [OF _ max_layer_ge_acc])
qed simp

lemma max_layer_bound: "t \<in> set ts \<Longrightarrow> LayerIndex t = Some i \<Longrightarrow> int i \<le> max_layer ts"
  unfolding max_layer_def by (rule max_layer_acc)

lemma sa_total_fold: "sa_total (fold size_step ts s) = sa_total s + sum_list (map Bytes ts)"
  by (induction ts arbitrary: s) (auto simp: size_step_def Let_def add.assoc split: option.splits)

lemma sa_layer_length: "length (sa_layer (fold size_step ts s)) = length (sa_layer s)"
  by (induction ts arbitrary: s) (auto simp: size_step_def Let_def split: option.splits)

lemma sa_layer_fold:
  "i < length (sa_layer s) \<Longrightarrow>
   sa_layer (fold size_step ts s) ! i =
   sa_layer s ! i + sum_list (map Bytes (filter (\<lambda>t. LayerIndex t = Some i) ts))"
proof (induction ts arbitrary: s)
  case (Cons t ts)
  have "i < length (sa_layer (size_step t s))"
    using Cons.prems by (auto simp: size_step_def Let_def split: option.splits)
  from Cons.IH [OF this] show ?case using Cons.prems
    by (auto simp: size_step_def Let_def nth_list_update add.assoc split: option.splits)
qed simp

lemma sa_layer_total_fold:
  "sa_layer_total (fold size_step ts s) =
   sa_layer_total s + sum_list (map Bytes (filter (\<lambda>t. LayerIndex t \<noteq> None) ts))"
  by (induction ts arbitrary: s) (auto simp: size_step_def Let_def add.assoc split: option.splits)

lemma sa_by_type_fold:
  "sa_by_type (fold size_step ts s) ty =
   (if ty \<in> ti_Type ` set ts \<or> sa_by_type s ty \<noteq> None then
      let us = filter (\<lambda>t. ti_Type t = ty) ts;
          u0 = (case sa_by_type s ty of Some u \<Rightarrow> u
            | None \<Rightarrow> \<lparr>tu_Type = 0, tu_Name = [], tu_Tensors = 0, tu_Elements = 0, tu_Bytes = 0\<rparr>)
      in Some (if us = [] then u0 else
          \<lparr>tu_Type = ty, tu_Name = ggml_string ty, tu_Tensors = tu_Tensors u0 + length us,
               tu_Elements = tu_Elements u0 + sum_list (map Elements us),
               tu_Bytes = tu_Bytes u0 + sum_list (map Bytes us)\<rparr>)
    else None)"
proof (induction ts arbitrary: s)
  case (Cons t ts)
  have by_type: "sa_by_type (size_step t s) = (sa_by_type s)(ti_Type t \<mapsto>
     (let u0 = (case sa_by_type s (ti_Type t) of Some u \<Rightarrow> u
            | None \<Rightarrow> \<lparr>tu_Type = 0, tu_Name = [], tu_Tensors = 0, tu_Elements = 0, tu_Bytes = 0\<rparr>)
      in \<lparr>tu_Type = ti_Type t, tu_Name = ggml_string (ti_Type t), tu_Tensors = tu_Tensors u0 + 1,
          tu_Elements = tu_Elements u0 + Elements t, tu_Bytes = tu_Bytes u0 + Bytes t\<rparr>))"
    by (simp add: size_step_def Let_def split: option.split)
  show ?case
    unfolding fold.simps comp_def Cons.IH by_type
    by (cases "ti_Type t = ty") (auto simp: Let_def add.assoc)
qed (simp split: option.split)

end
