(* ===== verification/Gguf_Value.thy ===== *)
theory Gguf_Value
  imports Gguf_Tensor
begin

text \<open>
  Decoded metadata values and the metadata table (\<open>internal/gguf/value.go\<close>).

  A value is the Go struct: its type tag and one field for each kind of payload, the others
  at their zero value. A float is kept as the conversion it was produced by, applied to the
  bits the file holds (\<open>gofloat\<close>), because nothing in the header reader computes with one.
\<close>

datatype gofloat = Float32frombits u32 | Float64frombits u64 | FloatOfInt int | FloatOfUint u64

datatype gvalue = Value (v_type: value_type) (v_uint: u64) (v_int: int) (v_float: gofloat)
    (v_bool: bool) (v_string: string) (v_array: "garray option")
  and garray = Array (a_type: value_type) (a_len: u64) (a_values: "gvalue list") (a_elided: bool)

definition zero_value :: "value_type \<Rightarrow> gvalue" where
  "zero_value t = Value t 0 0 (Float64frombits 0) False [] None"

definition uint_value :: "value_type \<Rightarrow> u64 \<Rightarrow> gvalue" where
  "uint_value t n = Value t n 0 (Float64frombits 0) False [] None"

definition int_value :: "value_type \<Rightarrow> int \<Rightarrow> gvalue" where
  "int_value t n = Value t 0 n (Float64frombits 0) False [] None"

definition float_value :: "value_type \<Rightarrow> gofloat \<Rightarrow> gvalue" where
  "float_value t x = Value t 0 0 x False [] None"

definition bool_value :: "bool \<Rightarrow> gvalue" where
  "bool_value b = Value ValueBool 0 0 (Float64frombits 0) b [] None"

definition string_value :: "string \<Rightarrow> gvalue" where
  "string_value s = Value ValueString 0 0 (Float64frombits 0) False s None"

definition array_value :: "garray \<Rightarrow> gvalue" where
  "array_value a = Value ValueArray 0 0 (Float64frombits 0) False [] (Some a)"

lemmas value_defs = zero_value_def uint_value_def int_value_def float_value_def bool_value_def
  string_value_def array_value_def

definition is_uint_type :: "value_type \<Rightarrow> bool" where
  "is_uint_type t = (t \<in> {ValueUint8, ValueUint16, ValueUint32, ValueUint64})"

definition is_int_type :: "value_type \<Rightarrow> bool" where
  "is_int_type t = (t \<in> {ValueInt8, ValueInt16, ValueInt32, ValueInt64})"

definition is_float_type :: "value_type \<Rightarrow> bool" where
  "is_float_type t = (t \<in> {ValueFloat32, ValueFloat64})"

section \<open>Conversions\<close>

definition AsUint :: "gvalue \<Rightarrow> u64 option" where
  "AsUint v =
    (if is_uint_type (v_type v) then Some (v_uint v)
     else if is_int_type (v_type v) then
       if v_int v < 0 then None else Some (word_of_int (v_int v))
     else if v_type v = ValueBool then Some (if v_bool v then 1 else 0)
     else None)"

definition AsInt :: "gvalue \<Rightarrow> int option" where
  "AsInt v =
    (if is_int_type (v_type v) then Some (v_int v)
     else if is_uint_type (v_type v) then
       if unat (v_uint v) > MaxInt64 then None else Some (uint (v_uint v))
     else if v_type v = ValueBool then Some (if v_bool v then 1 else 0)
     else None)"

definition AsFloat :: "gvalue \<Rightarrow> gofloat option" where
  "AsFloat v =
    (if is_float_type (v_type v) then Some (v_float v)
     else if is_int_type (v_type v) then Some (FloatOfInt (v_int v))
     else if is_uint_type (v_type v) then Some (FloatOfUint (v_uint v))
     else None)"

definition AsString :: "gvalue \<Rightarrow> string option" where
  "AsString v = (if v_type v \<noteq> ValueString then None else Some (v_string v))"

definition AsBool :: "gvalue \<Rightarrow> bool option" where
  "AsBool v =
    (if v_type v = ValueBool then Some (v_bool v)
     else if is_uint_type (v_type v) then Some (v_uint v \<noteq> 0)
     else if is_int_type (v_type v) then Some (v_int v \<noteq> 0)
     else None)"

text \<open>A loop that stops at the first element the conversion refuses.\<close>

fun all_or_none :: "('a \<Rightarrow> 'b option) \<Rightarrow> 'a list \<Rightarrow> 'b list option" where
  "all_or_none f [] = Some []"
| "all_or_none f (x # xs) = (case f x of None \<Rightarrow> None
     | Some y \<Rightarrow> (case all_or_none f xs of None \<Rightarrow> None | Some ys \<Rightarrow> Some (y # ys)))"

definition as_list :: "(gvalue \<Rightarrow> 'b option) \<Rightarrow> gvalue \<Rightarrow> 'b list option" where
  "as_list f v =
    (if v_type v \<noteq> ValueArray then map_option (\<lambda>x. [x]) (f v)
     else case v_array v of None \<Rightarrow> None
       | Some a \<Rightarrow> if a_elided a then None else all_or_none f (a_values a))"

definition AsInts :: "gvalue \<Rightarrow> int list option" where
  "AsInts v = as_list AsInt v"

definition AsStrings :: "gvalue \<Rightarrow> string list option" where
  "AsStrings v = as_list AsString v"

definition Count :: "gvalue \<Rightarrow> u64" where
  "Count v = (if v_type v = ValueArray
     then (case v_array v of None \<Rightarrow> 0 | Some a \<Rightarrow> a_len a) else 1)"

lemma all_or_none_length: "all_or_none f xs = Some ys \<Longrightarrow> length ys = length xs"
  by (induction xs arbitrary: ys) (auto split: option.splits)

lemma all_or_none_eq_Some:
  "all_or_none f xs = Some ys \<Longrightarrow> list_all2 (\<lambda>x y. f x = Some y) xs ys"
  by (induction xs arbitrary: ys) (auto split: option.splits)

section \<open>The metadata table\<close>

text \<open>
  \<open>KV\<close> holds the pairs in file order and an index from a key to the position of its pair.
\<close>

record kv_table =
  kv_pairs :: "(string \<times> gvalue) list"
  kv_index :: "string \<Rightarrow> nat option"

definition empty_kv :: kv_table where
  "empty_kv = \<lparr>kv_pairs = [], kv_index = (\<lambda>k. None)\<rparr>"

definition kv_Len :: "kv_table \<Rightarrow> nat" where
  "kv_Len kv = length (kv_pairs kv)"

definition kv_Get :: "kv_table \<Rightarrow> string \<Rightarrow> gvalue option" where
  "kv_Get kv key = (case kv_index kv key of None \<Rightarrow> None | Some i \<Rightarrow> Some (snd (kv_pairs kv ! i)))"

definition kv_Has :: "kv_table \<Rightarrow> string \<Rightarrow> bool" where
  "kv_Has kv key = (kv_index kv key \<noteq> None)"

definition kv_get_as :: "(gvalue \<Rightarrow> 'a option) \<Rightarrow> kv_table \<Rightarrow> string \<Rightarrow> 'a option" where
  "kv_get_as f kv key = (case kv_Get kv key of None \<Rightarrow> None | Some v \<Rightarrow> f v)"

definition kv_String :: "kv_table \<Rightarrow> string \<Rightarrow> string option" where
  "kv_String = kv_get_as AsString"

definition kv_Uint :: "kv_table \<Rightarrow> string \<Rightarrow> u64 option" where
  "kv_Uint = kv_get_as AsUint"

definition kv_Int :: "kv_table \<Rightarrow> string \<Rightarrow> int option" where
  "kv_Int = kv_get_as AsInt"

definition kv_Float :: "kv_table \<Rightarrow> string \<Rightarrow> gofloat option" where
  "kv_Float = kv_get_as AsFloat"

definition kv_Bool :: "kv_table \<Rightarrow> string \<Rightarrow> bool option" where
  "kv_Bool = kv_get_as AsBool"

definition kv_Ints :: "kv_table \<Rightarrow> string \<Rightarrow> int list option" where
  "kv_Ints = kv_get_as AsInts"

definition kv_Strings :: "kv_table \<Rightarrow> string \<Rightarrow> string list option" where
  "kv_Strings = kv_get_as AsStrings"

definition kv_add :: "kv_table \<Rightarrow> string \<Rightarrow> gvalue \<Rightarrow> kv_table option" where
  "kv_add kv key v =
    (if kv_index kv key \<noteq> None then None
     else Some (kv\<lparr>kv_index := (kv_index kv)(key \<mapsto> length (kv_pairs kv)),
                   kv_pairs := kv_pairs kv @ [(key, v)]\<rparr>))"

text \<open>The index is what a search of the pairs would find, and no key is there twice.\<close>

definition kv_ok :: "kv_table \<Rightarrow> bool" where
  "kv_ok kv \<longleftrightarrow> distinct (map fst (kv_pairs kv))
     \<and> (\<forall>k i. kv_index kv k = Some i \<longleftrightarrow> i < length (kv_pairs kv) \<and> fst (kv_pairs kv ! i) = k)"

lemma empty_kv_ok [simp]: "kv_ok empty_kv"
  by (simp add: kv_ok_def empty_kv_def)

lemma kv_index_Some:
  "kv_ok kv \<Longrightarrow> kv_index kv k = Some i \<longleftrightarrow> i < length (kv_pairs kv) \<and> fst (kv_pairs kv ! i) = k"
  by (simp add: kv_ok_def)

lemma kv_index_None: "kv_ok kv \<Longrightarrow> kv_index kv k = None \<longleftrightarrow> k \<notin> fst ` set (kv_pairs kv)"
proof -
  assume ok: "kv_ok kv"
  have "k \<in> fst ` set (kv_pairs kv) \<longleftrightarrow> (\<exists>i < length (kv_pairs kv). fst (kv_pairs kv ! i) = k)"
    unfolding set_map [symmetric] in_set_conv_nth length_map by (metis nth_map)
  also have "\<dots> \<longleftrightarrow> (\<exists>i. kv_index kv k = Some i)" using ok by (simp add: kv_index_Some)
  finally show ?thesis by simp
qed

lemma kv_add_ok:
  assumes "kv_ok kv" and "kv_add kv key v = Some kv'"
  shows "kv_ok kv'"
proof -
  have n: "kv_index kv key = None" and
    e: "kv' = kv\<lparr>kv_index := (kv_index kv)(key \<mapsto> length (kv_pairs kv)),
                 kv_pairs := kv_pairs kv @ [(key, v)]\<rparr>"
    using assms(2) by (auto simp: kv_add_def split: if_splits)
  from n assms(1) have "key \<notin> fst ` set (kv_pairs kv)" by (simp add: kv_index_None)
  then have new: "i < length (kv_pairs kv) \<Longrightarrow> fst (kv_pairs kv ! i) \<noteq> key" for i
    by (metis image_eqI nth_mem)
  note old = kv_index_Some [OF assms(1)]
  have "kv_index kv' k = Some i \<longleftrightarrow>
      i < length (kv_pairs kv') \<and> fst (kv_pairs kv' ! i) = k" for k i
  proof (cases "i < length (kv_pairs kv)")
    case True
    with n show ?thesis by (simp add: e old nth_append new)
  next
    case False
    then show ?thesis
      by (cases "i = length (kv_pairs kv)") (auto simp: e old nth_append)
  qed
  moreover have "distinct (map fst (kv_pairs kv'))"
    using assms(1) \<open>key \<notin> fst ` set (kv_pairs kv)\<close> by (simp add: e kv_ok_def)
  ultimately show ?thesis by (simp add: kv_ok_def)
qed

lemma kv_Get_map_of:
  assumes "kv_ok kv"
  shows "kv_Get kv k = map_of (kv_pairs kv) k"
proof (cases "kv_index kv k")
  case None
  then have "k \<notin> fst ` set (kv_pairs kv)" using assms by (simp add: kv_index_None)
  with None show ?thesis by (metis kv_Get_def map_of_eq_None_iff option.simps(4))
next
  case (Some i)
  then have "i < length (kv_pairs kv)" "fst (kv_pairs kv ! i) = k" "distinct (map fst (kv_pairs kv))"
    using assms by (auto simp: kv_ok_def)
  moreover from this have "map_of (kv_pairs kv) k = Some (snd (kv_pairs kv ! i))"
    by (metis map_of_eq_Some_iff nth_mem prod.collapse)
  ultimately show ?thesis using Some by (simp add: kv_Get_def)
qed

locale lookup_table =
  fixes ok :: "'t \<Rightarrow> bool"
    and get :: "'t \<Rightarrow> 'k \<Rightarrow> 'v option"
    and add :: "'t \<Rightarrow> 'k \<Rightarrow> 'v \<Rightarrow> 't option"
    and keys :: "'t \<Rightarrow> 'k list"
  assumes add_ok: "ok t \<Longrightarrow> add t k v = Some t' \<Longrightarrow> ok t'"
    and get_add: "ok t \<Longrightarrow> add t k v = Some t' \<Longrightarrow> get t' j = (if j = k then Some v else get t j)"
    and add_None: "ok t \<Longrightarrow> add t k v = None \<longleftrightarrow> k \<in> set (keys t)"
    and keys_add: "ok t \<Longrightarrow> add t k v = Some t' \<Longrightarrow> keys t' = keys t @ [k]"
begin

fun add_all :: "'t \<Rightarrow> ('k \<times> 'v) list \<Rightarrow> 't option" where
  "add_all t [] = Some t"
| "add_all t ((k, v) # kvs) = (case add t k v of None \<Rightarrow> None | Some t' \<Rightarrow> add_all t' kvs)"

lemma add_all_keys:
  "ok t \<Longrightarrow> add_all t kvs = Some t' \<Longrightarrow> ok t' \<and> keys t' = keys t @ map fst kvs"
  by (induction t kvs rule: add_all.induct) (auto simp: keys_add dest: add_ok split: option.splits)

lemma add_all_total:
  "ok t \<Longrightarrow> add_all t kvs \<noteq> None \<longleftrightarrow> distinct (map fst kvs) \<and> set (map fst kvs) \<inter> set (keys t) = {}"
proof (induction t kvs rule: add_all.induct)
  case (2 t k v kvs)
  show ?case
  proof (cases "add t k v")
    case None
    then have "k \<in> set (keys t)" using add_None [OF 2(2), of k v] by simp
    with None show ?thesis by simp
  next
    case (Some t')
    moreover have "k \<notin> set (keys t)" using add_None [OF 2(2), of k v] Some by auto
    ultimately show ?thesis
      using 2(1) [OF Some add_ok [OF 2(2) Some]] keys_add [OF 2(2) Some] by auto
  qed
qed simp

lemma get_add_all:
  "ok t \<Longrightarrow> add_all t kvs = Some t' \<Longrightarrow> distinct (map fst kvs) \<Longrightarrow>
   get t' j = (case map_of kvs j of Some v \<Rightarrow> Some v | None \<Rightarrow> get t j)"
proof (induction t kvs rule: add_all.induct)
  case (2 t k v kvs)
  then obtain t1 where t1: "add t k v = Some t1" "add_all t1 kvs = Some t'"
    by (auto split: option.splits)
  have "get t' j = (case map_of kvs j of Some v \<Rightarrow> Some v | None \<Rightarrow> get t1 j)"
    using 2(1) [OF t1(1) add_ok [OF 2(2) t1(1)] t1(2)] 2(4) by simp
  moreover have "map_of kvs k = None" using 2(4) by (simp add: map_of_eq_None_iff)
  ultimately show ?case using get_add [OF 2(2) t1(1), of j] by (auto split: option.splits)
qed simp

end

interpretation meta: lookup_table kv_ok kv_Get kv_add "\<lambda>kv. map fst (kv_pairs kv)"
proof
  fix t k v t' j
  assume ok: "kv_ok t"
  show none: "kv_add t k v = None \<longleftrightarrow> k \<in> set (map fst (kv_pairs t))"
    using kv_index_None [OF ok, of k] by (auto simp: kv_add_def)
  assume add: "kv_add t k v = Some t'"
  show ok': "kv_ok t'" by (rule kv_add_ok [OF ok add])
  have pairs: "kv_pairs t' = kv_pairs t @ [(k, v)]" using add by (auto simp: kv_add_def split: if_splits)
  then show "map fst (kv_pairs t') = map fst (kv_pairs t) @ [k]" by simp
  have "k \<notin> fst ` set (kv_pairs t)" using add none by auto
  then show "kv_Get t' j = (if j = k then Some v else kv_Get t j)"
    unfolding kv_Get_map_of [OF ok] kv_Get_map_of [OF ok'] pairs
    by (auto simp: map_add_def map_of_eq_None_iff [symmetric] split: option.splits)
qed

end
