(* ===== verification/Gguf_Parse.thy ===== *)
theory Gguf_Parse
  imports Gguf_Value
begin

text \<open>
  The header parser (\<open>internal/gguf/parse.go\<close>).

  The cursor's fixed part (the bytes, the byte order, the bounds) is a record and the bytes it
  has consumed are threaded through as an offset, so a method of \<open>*cursor\<close> is a function from
  the record and an offset to an error or a result and the new offset. Offsets are naturals: no
  read passes \<open>limit \<le> size\<close>, an \<open>int64\<close>. The reader behind the cursor is the list of bytes it can
  produce; a list shorter than \<open>size\<close> is an object cut short, and an I/O error of the reader
  itself, which the code passes on as it is, is not modelled.
\<close>

record cursor =
  c_bytes :: "u8 list"
  c_big :: bool
  c_size :: nat
  c_limit :: nat
  c_arrayLimit :: int

type_synonym 'a decoded = "gguf_error + 'a \<times> nat"

definition DefaultArrayLimit :: int where
  "DefaultArrayLimit = 1024"

definition DefaultMaxHeaderBytes :: int where
  "DefaultMaxHeaderBytes = 67108864"

definition DefaultAlignment :: u64 where
  "DefaultAlignment = 32"

definition maxArrayDepth :: nat where
  "maxArrayDepth = 16"

definition maxTensorDims :: nat where
  "maxTensorDims = 4"

definition minKVBytes :: nat where
  "minKVBytes = 13"

definition minTensorInfoBytes :: nat where
  "minTensorInfoBytes = 24"

definition KeyAlignment :: string where
  "KeyAlignment = ''general.alignment''"

section \<open>\<open>math/bits\<close>\<close>

definition Add64 :: "u64 \<Rightarrow> u64 \<Rightarrow> u64 \<times> bool" where
  "Add64 a b = (a + b, 2 ^ 64 \<le> unat a + unat b)"

definition Mul64 :: "u64 \<Rightarrow> u64 \<Rightarrow> u64 \<times> u64" where
  "Mul64 a b = (of_nat (unat a * unat b div 2 ^ 64), a * b)"

definition padUp :: "u64 \<Rightarrow> u64 \<Rightarrow> u64 option" where
  "padUp n align = (case Add64 n (align - 1) of (s, carry) \<Rightarrow>
     if carry then None else Some (and s (not (align - 1))))"

section \<open>Reading\<close>

definition remaining :: "cursor \<Rightarrow> nat \<Rightarrow> nat" where
  "remaining c off = c_size c - off"

definition bound :: "cursor \<Rightarrow> nat \<Rightarrow> nat \<Rightarrow> gguf_error option" where
  "bound c off n =
    (if n > MaxInt64 then Some ErrTruncated
     else if 2 ^ 64 \<le> off + n \<or> off + n > c_size c then Some ErrTruncated
     else if off + n > c_limit c then Some ErrHeaderTooLarge
     else None)"

definition read :: "cursor \<Rightarrow> nat \<Rightarrow> nat \<Rightarrow> u8 list decoded" where
  "read c n off = (case bound c off n of Some e \<Rightarrow> Inl e
     | None \<Rightarrow> if off + n > length (c_bytes c) then Inl ErrTruncated
         else Inr (take n (drop off (c_bytes c)), off + n))"

definition skip :: "cursor \<Rightarrow> nat \<Rightarrow> nat \<Rightarrow> unit decoded" where
  "skip c n off = (case bound c off n of Some e \<Rightarrow> Inl e
     | None \<Rightarrow> if off + n > length (c_bytes c) then Inl ErrTruncated else Inr ((), off + n))"

definition uint_of_bytes :: "cursor \<Rightarrow> u8 list \<Rightarrow> nat" where
  "uint_of_bytes c bs = horner_sum unat 256 (if c_big c then rev bs else bs)"

definition u8 :: "cursor \<Rightarrow> nat \<Rightarrow> u8 decoded" where
  "u8 c off = bind_res (read c 1 off) (\<lambda>(bs, o1). Inr (hd bs, o1))"

definition u16 :: "cursor \<Rightarrow> nat \<Rightarrow> u16 decoded" where
  "u16 c off = bind_res (read c 2 off) (\<lambda>(bs, o1). Inr (of_nat (uint_of_bytes c bs), o1))"

definition u32 :: "cursor \<Rightarrow> nat \<Rightarrow> u32 decoded" where
  "u32 c off = bind_res (read c 4 off) (\<lambda>(bs, o1). Inr (of_nat (uint_of_bytes c bs), o1))"

definition u64 :: "cursor \<Rightarrow> nat \<Rightarrow> u64 decoded" where
  "u64 c off = bind_res (read c 8 off) (\<lambda>(bs, o1). Inr (of_nat (uint_of_bytes c bs), o1))"

definition string_of_bytes :: "u8 list \<Rightarrow> string" where
  "string_of_bytes bs = map (\<lambda>b. char_of (unat b)) bs"

definition str :: "cursor \<Rightarrow> nat \<Rightarrow> string decoded" where
  "str c off = bind_res (u64 c off) (\<lambda>(n, o1).
     case bound c o1 (unat n) of Some e \<Rightarrow> Inl e
     | None \<Rightarrow> if n = 0 then Inr ([], o1)
         else bind_res (read c (unat n) o1) (\<lambda>(bs, o2). Inr (string_of_bytes bs, o2)))"

definition read_value_type :: "cursor \<Rightarrow> nat \<Rightarrow> value_type decoded" where
  "read_value_type c off = bind_res (u32 c off) (\<lambda>(raw, o1).
     case value_type_of raw of None \<Rightarrow> Inl ErrUnknownValueType | Some t \<Rightarrow> Inr (t, o1))"

section \<open>Values\<close>

definition arrayHeader :: "cursor \<Rightarrow> nat \<Rightarrow> nat \<Rightarrow> (value_type \<times> u64) decoded" where
  "arrayHeader c depth off =
    (if depth \<ge> maxArrayDepth then Inl ErrCorrupt
     else bind_res (read_value_type c off) (\<lambda>(et, o1).
       bind_res (u64 c o1) (\<lambda>(n, o2).
         if unat n > remaining c o2 div minWireSize et then Inl ErrTruncated
         else Inr ((et, n), o2))))"

lemma arrayHeader_depth: "arrayHeader c depth off = Inr r \<Longrightarrow> depth < maxArrayDepth"
  by (auto simp: arrayHeader_def split: if_splits)

text \<open>
  \<open>skipElements\<close> and \<open>skipValue\<close>: the loop over \<open>n\<close> elements is \<open>skip_loop\<close>, called only when the
  element's size is not fixed. The depth bound is what makes them terminate.
\<close>

function skipElements :: "cursor \<Rightarrow> value_type \<Rightarrow> u64 \<Rightarrow> nat \<Rightarrow> nat \<Rightarrow> unit decoded"
  and skip_loop :: "cursor \<Rightarrow> value_type \<Rightarrow> nat \<Rightarrow> nat \<Rightarrow> nat \<Rightarrow> unit decoded"
  and skipValue :: "cursor \<Rightarrow> value_type \<Rightarrow> nat \<Rightarrow> nat \<Rightarrow> unit decoded" where
  "skipElements c et n depth off =
    (if wireSize et > 0 then skip c (unat (n * of_nat (wireSize et))) off
     else skip_loop c et (unat n) depth off)"
| "skip_loop c et n depth off =
    (if n = 0 then Inr ((), off)
     else bind_res (skipValue c et depth off) (\<lambda>(_, o1). skip_loop c et (n - 1) depth o1))"
| "skipValue c vt depth off =
    (if vt = ValueString then
       bind_res (u64 c off) (\<lambda>(n, o1).
         case bound c o1 (unat n) of Some e \<Rightarrow> Inl e | None \<Rightarrow> skip c (unat n) o1)
     else if vt = ValueArray then
       bind_res (arrayHeader c depth off) (\<lambda>((et, n), o1). skipElements c et n (depth + 1) o1)
     else Inl ErrUnknownValueType)"
  by pat_completeness auto

termination
proof (relation "inv_image ({(a, b). a < b} <*lex*> {(a, b). a < b})
    (\<lambda>x. case x of
       Inl (c, et, n, depth, off) \<Rightarrow> (maxArrayDepth + 1 - depth, unat n + 2)
     | Inr (Inl (c, et, n, depth, off)) \<Rightarrow> (maxArrayDepth + 1 - depth, n + 1)
     | Inr (Inr (c, vt, depth, off)) \<Rightarrow> (maxArrayDepth + 1 - depth, 0 :: nat))", goal_cases)
  case 1
  then show ?case by (intro wf_inv_image wf_lex_prod wf_less)
qed (auto dest: arrayHeader_depth)

text \<open>
  \<open>value\<close> and \<open>array\<close>; \<open>decode_loop\<close> is the loop over the retained elements. A bool is one byte,
  read as C does.
\<close>

function decode_value :: "cursor \<Rightarrow> value_type \<Rightarrow> nat \<Rightarrow> nat \<Rightarrow> gvalue decoded"
  and decode_array :: "cursor \<Rightarrow> nat \<Rightarrow> nat \<Rightarrow> garray decoded"
  and decode_loop :: "cursor \<Rightarrow> value_type \<Rightarrow> nat \<Rightarrow> nat \<Rightarrow> nat \<Rightarrow> gvalue list decoded" where
  "decode_value c vt depth off = (case vt of
       ValueUint8 \<Rightarrow> bind_res (u8 c off) (\<lambda>(n, o1). Inr (uint_value vt (ucast n), o1))
     | ValueInt8 \<Rightarrow> bind_res (u8 c off) (\<lambda>(n, o1). Inr (int_value vt (sint n), o1))
     | ValueUint16 \<Rightarrow> bind_res (u16 c off) (\<lambda>(n, o1). Inr (uint_value vt (ucast n), o1))
     | ValueInt16 \<Rightarrow> bind_res (u16 c off) (\<lambda>(n, o1). Inr (int_value vt (sint n), o1))
     | ValueUint32 \<Rightarrow> bind_res (u32 c off) (\<lambda>(n, o1). Inr (uint_value vt (ucast n), o1))
     | ValueInt32 \<Rightarrow> bind_res (u32 c off) (\<lambda>(n, o1). Inr (int_value vt (sint n), o1))
     | ValueFloat32 \<Rightarrow> bind_res (u32 c off) (\<lambda>(n, o1). Inr (float_value vt (Float32frombits n), o1))
     | ValueBool \<Rightarrow> bind_res (u8 c off) (\<lambda>(n, o1). Inr (bool_value (n \<noteq> 0), o1))
     | ValueUint64 \<Rightarrow> bind_res (u64 c off) (\<lambda>(n, o1). Inr (uint_value vt n, o1))
     | ValueInt64 \<Rightarrow> bind_res (u64 c off) (\<lambda>(n, o1). Inr (int_value vt (sint n), o1))
     | ValueFloat64 \<Rightarrow> bind_res (u64 c off) (\<lambda>(n, o1). Inr (float_value vt (Float64frombits n), o1))
     | ValueString \<Rightarrow> bind_res (str c off) (\<lambda>(s, o1). Inr (string_value s, o1))
     | ValueArray \<Rightarrow> bind_res (decode_array c depth off) (\<lambda>(a, o1). Inr (array_value a, o1)))"
| "decode_array c depth off =
    bind_res (arrayHeader c depth off) (\<lambda>((et, n), o1).
      if \<not> (c_arrayLimit c < 0 \<or> unat n \<le> nat (c_arrayLimit c)) then
        bind_res (skipElements c et n (depth + 1) o1) (\<lambda>(_, o2). Inr (Array et n [] True, o2))
      else
        bind_res (decode_loop c et (unat n) (depth + 1) o1) (\<lambda>(vs, o2).
          Inr (Array et n vs False, o2)))"
| "decode_loop c et n depth off =
    (if n = 0 then Inr ([], off)
     else bind_res (decode_value c et depth off) (\<lambda>(v, o1).
       bind_res (decode_loop c et (n - 1) depth o1) (\<lambda>(vs, o2). Inr (v # vs, o2))))"
  by pat_completeness auto

termination
proof (relation "inv_image ({(a, b). a < b} <*lex*> {(a, b). a < b})
    (\<lambda>x. case x of
       Inl (c, vt, depth, off) \<Rightarrow> (maxArrayDepth + 1 - depth, 1 :: nat)
     | Inr (Inl (c, depth, off)) \<Rightarrow> (maxArrayDepth + 1 - depth, 0)
     | Inr (Inr (c, et, n, depth, off)) \<Rightarrow> (maxArrayDepth + 1 - depth, n + 2))", goal_cases)
  case 1
  then show ?case by (intro wf_inv_image wf_lex_prod wf_less)
qed (auto dest: arrayHeader_depth)

declare skipElements.simps [simp del] skip_loop.simps [simp del] skipValue.simps [simp del]
  decode_value.simps [simp del] decode_array.simps [simp del] decode_loop.simps [simp del]

section \<open>The tensor index\<close>

fun dims_loop :: "cursor \<Rightarrow> nat \<Rightarrow> u64 \<Rightarrow> u64 list \<Rightarrow> nat \<Rightarrow> (u64 \<times> u64 list) decoded" where
  "dims_loop c 0 elements dims off = Inr ((elements, dims), off)"
| "dims_loop c (Suc k) elements dims off = bind_res (u64 c off) (\<lambda>(d, o1).
     if unat d > MaxInt64 then Inl ErrCorrupt
     else case Mul64 elements d of (hi, lo) \<Rightarrow>
       if hi \<noteq> 0 \<or> unat lo > MaxInt64 then Inl ErrCorrupt
       else dims_loop c k lo (dims @ [d]) o1)"

definition tensorInfo :: "cursor \<Rightarrow> nat \<Rightarrow> tensor_info decoded" where
  "tensorInfo c off =
    bind_res (str c off) (\<lambda>(name, o1).
    bind_res (u32 c o1) (\<lambda>(nd, o2).
    if unat nd > maxTensorDims then Inl ErrCorrupt
    else bind_res (dims_loop c (unat nd) 1 [] o2) (\<lambda>((elements, dims), o3).
    bind_res (u32 c o3) (\<lambda>(raw, o4).
    if \<not> ggml_valid raw then Inl ErrUnknownTensorType
    else if dims \<noteq> [] \<and> unat (hd dims) mod BlockSize raw \<noteq> 0 then Inl ErrCorrupt
    else case Mul64 (elements div of_nat (BlockSize raw)) (of_nat (TypeSize raw)) of (hi, lo) \<Rightarrow>
      if hi \<noteq> 0 \<or> unat lo > MaxInt64 then Inl ErrCorrupt
      else bind_res (u64 c o4) (\<lambda>(ofs, o5).
        Inr (\<lparr>ti_Name = name, ti_Dims = dims, ti_Type = raw, ti_Offset = ofs\<rparr>, o5))))))"

section \<open>The header\<close>

record options =
  op_arrayLimit :: int
  op_maxHeaderBytes :: int

definition defaults :: options where
  "defaults = \<lparr>op_arrayLimit = DefaultArrayLimit, op_maxHeaderBytes = DefaultMaxHeaderBytes\<rparr>"

record gguf_file =
  f_Version :: u32
  f_BigEndian :: bool
  f_TensorCount :: u64
  f_KV :: kv_table
  f_Tensors :: "tensor_info list"
  f_Alignment :: u64
  f_HeaderBytes :: nat
  f_DataOffset :: u64
  f_DataSize :: u64
  f_FileSize :: u64

text \<open>The last three are Go \<open>int64\<close>s, kept as their 64 bits: their sum may wrap.\<close>

definition Complete :: "gguf_file \<Rightarrow> bool" where
  "Complete f = (sint (f_FileSize f) \<ge> sint (f_DataOffset f + f_DataSize f))"

fun kv_loop :: "cursor \<Rightarrow> nat \<Rightarrow> kv_table \<Rightarrow> nat \<Rightarrow> kv_table decoded" where
  "kv_loop c 0 kv off = Inr (kv, off)"
| "kv_loop c (Suc k) kv off =
    bind_res (str c off) (\<lambda>(key, o1).
    bind_res (read_value_type c o1) (\<lambda>(vt, o2).
    bind_res (decode_value c vt 0 o2) (\<lambda>(v, o3).
    case kv_add kv key v of None \<Rightarrow> Inl ErrCorrupt | Some kv' \<Rightarrow> kv_loop c k kv' o3)))"

text \<open>The map \<open>seen\<close> holds the names of the tensors read so far.\<close>

fun tensor_loop ::
  "cursor \<Rightarrow> nat \<Rightarrow> string set \<Rightarrow> tensor_info list \<Rightarrow> nat \<Rightarrow> tensor_info list decoded" where
  "tensor_loop c 0 seen ts off = Inr (ts, off)"
| "tensor_loop c (Suc k) seen ts off =
    bind_res (tensorInfo c off) (\<lambda>(ti, o1).
    if ti_Name ti \<in> seen then Inl ErrCorrupt
    else tensor_loop c k (insert (ti_Name ti) seen) (ts @ [ti]) o1)"

fun layout_loop :: "u64 \<Rightarrow> tensor_info list \<Rightarrow> u64 \<Rightarrow> gguf_error + u64" where
  "layout_loop align [] running = Inr running"
| "layout_loop align (ti # ts) running =
    (if ti_Offset ti \<noteq> running then Inl ErrCorrupt
     else case padUp (Bytes ti) align of None \<Rightarrow> Inl ErrCorrupt
       | Some padded \<Rightarrow> (case Add64 running padded of (nxt, carry) \<Rightarrow>
           if carry \<or> unat nxt > MaxInt64 then Inl ErrCorrupt else layout_loop align ts nxt))"

definition alignment_of :: "kv_table \<Rightarrow> gguf_error + u64" where
  "alignment_of kv = (case kv_Get kv KeyAlignment of None \<Rightarrow> Inr DefaultAlignment
     | Some raw \<Rightarrow> (case AsUint raw of None \<Rightarrow> Inl ErrCorrupt
         | Some a \<Rightarrow> if a = 0 \<or> and a (a - 1) \<noteq> 0 then Inl ErrCorrupt else Inr a))"

definition magic :: "u8 list" where
  "magic = [71, 71, 85, 70]"

text \<open>\<open>bits.ReverseBytes32\<close>.\<close>

definition ReverseBytes32 :: "u32 \<Rightarrow> u32" where
  "ReverseBytes32 w = of_nat (horner_sum unat 256
     (rev (map (\<lambda>i. (ucast (drop_bit (8 * i) w) :: u8)) [0..<4])))"

definition read_version :: "cursor \<Rightarrow> nat \<Rightarrow> (u32 \<times> bool) decoded" where
  "read_version c off = bind_res (u32 c off) (\<lambda>(version, o1).
     let big = (and version 0xFFFF = 0);
         v = (if big then ReverseBytes32 version else version)
     in if v \<noteq> 2 \<and> v \<noteq> 3 then Inl ErrUnsupportedVersion else Inr ((v, big), o1))"

definition read_counts :: "cursor \<Rightarrow> nat \<Rightarrow> (u64 \<times> u64) decoded" where
  "read_counts c off =
    bind_res (u64 c off) (\<lambda>(tensorCount, o1).
    bind_res (u64 c o1) (\<lambda>(kvCount, o2).
    if unat tensorCount > remaining c o2 div minTensorInfoBytes then Inl ErrTruncated
    else if unat kvCount > remaining c o2 div minKVBytes then Inl ErrTruncated
    else Inr ((tensorCount, kvCount), o2)))"

text \<open>Everything that is read, before the layout of the data is checked.\<close>

type_synonym header = "(u32 \<times> bool) \<times> u64 \<times> kv_table \<times> tensor_info list"

definition read_tables :: "cursor \<Rightarrow> nat \<Rightarrow> (u64 \<times> kv_table \<times> tensor_info list) decoded" where
  "read_tables c off =
    bind_res (read_counts c off) (\<lambda>((tensorCount, kvCount), o1).
    bind_res (kv_loop c (unat kvCount) empty_kv o1) (\<lambda>(kv, o2).
    bind_res (tensor_loop c (unat tensorCount) {} [] o2) (\<lambda>(ts, o3).
    Inr ((tensorCount, kv, ts), o3))))"

definition read_header :: "cursor \<Rightarrow> nat \<Rightarrow> header decoded" where
  "read_header c off =
    bind_res (read c 4 off) (\<lambda>(m, o1).
    if m \<noteq> magic then Inl ErrBadMagic
    else bind_res (read_version c o1) (\<lambda>((version, big), o2).
    bind_res (read_tables (c\<lparr>c_big := big\<rparr>) o2) (\<lambda>(tables, o3).
    Inr (((version, big), tables), o3))))"

definition finish_header :: "nat \<Rightarrow> header \<Rightarrow> nat \<Rightarrow> gguf_error + gguf_file" where
  "finish_header objsize h off = (case h of ((version, big), tensorCount, kv, ts) \<Rightarrow>
    bind_res (alignment_of kv) (\<lambda>align.
    case padUp (of_nat off) align of None \<Rightarrow> Inl ErrCorrupt
    | Some dataOffset \<Rightarrow>
        if unat dataOffset > MaxInt64 then Inl ErrCorrupt
        else bind_res (layout_loop align ts 0) (\<lambda>dataSize.
          Inr \<lparr>f_Version = version, f_BigEndian = big, f_TensorCount = tensorCount, f_KV = kv,
               f_Tensors = ts, f_Alignment = align, f_HeaderBytes = off,
               f_DataOffset = dataOffset, f_DataSize = dataSize, f_FileSize = of_nat objsize\<rparr>)))"

definition cursor_for :: "options \<Rightarrow> u8 list \<Rightarrow> nat \<Rightarrow> cursor" where
  "cursor_for opts bs objsize = \<lparr>c_bytes = bs, c_big = False, c_size = objsize,
     c_limit = (if op_maxHeaderBytes opts > 0 \<and> op_maxHeaderBytes opts < int objsize
                then nat (op_maxHeaderBytes opts) else objsize),
     c_arrayLimit = op_arrayLimit opts\<rparr>"

definition Parse :: "options \<Rightarrow> u8 list option \<Rightarrow> int \<Rightarrow> gguf_error + gguf_file" where
  "Parse opts r objsize = (case r of None \<Rightarrow> Inl ErrTruncated
     | Some bs \<Rightarrow> if objsize < 0 then Inl ErrTruncated
         else bind_res (read_header (cursor_for opts bs (nat objsize)) 0) (\<lambda>(h, off).
           finish_header (nat objsize) h off))"

end
