(* ===== verification/Gguf_Reads.thy ===== *)
theory Gguf_Reads
  imports Gguf_Parse
begin

text \<open>
  How far a decoder looks. \<open>reads d\<close> says that a decoder \<open>d\<close> that succeeds has moved forward,
  inside the bounds and inside the bytes there are; that it would have given the same result on
  any other bytes that agree up to where it stopped; and that on an object cut short at \<open>k\<close> it
  either gives the same result or fails with \<open>ErrTruncated\<close>, the latter whenever \<open>k\<close> is before
  the place where it stopped. The rules below build it along the structure of a decoder, so
  that the whole header has it.
\<close>

named_theorems reads_intros

definition cursor_ok :: "cursor \<Rightarrow> nat \<Rightarrow> bool" where
  "cursor_ok c off \<longleftrightarrow> c_limit c \<le> c_size c \<and> c_size c \<le> MaxInt64 \<and> off \<le> c_limit c
     \<and> off \<le> length (c_bytes c)"

definition cut_at :: "nat \<Rightarrow> cursor \<Rightarrow> cursor" where
  "cut_at k c = c\<lparr>c_bytes := take k (c_bytes c), c_size := min k (c_size c),
                  c_limit := min k (c_limit c)\<rparr>"

definition reads :: "(cursor \<Rightarrow> nat \<Rightarrow> 'a decoded) \<Rightarrow> bool" where
  "reads d \<longleftrightarrow> (\<forall>c off a off'. cursor_ok c off \<longrightarrow> d c off = Inr (a, off') \<longrightarrow>
     off \<le> off' \<and> cursor_ok c off'
     \<and> (\<forall>bs. take off' bs = take off' (c_bytes c) \<longrightarrow> d (c\<lparr>c_bytes := bs\<rparr>) off = Inr (a, off'))
     \<and> (\<forall>k. off \<le> k \<longrightarrow> d (cut_at k c) off = Inl ErrTruncated
            \<or> off' \<le> k \<and> d (cut_at k c) off = Inr (a, off')))"

text \<open>What a decoder may depend on beside the bytes and the bounds.\<close>

definition static :: "(cursor \<Rightarrow> 'a) \<Rightarrow> bool" where
  "static g \<longleftrightarrow> (\<forall>c bs k. g (c\<lparr>c_bytes := bs\<rparr>) = g c \<and> g (cut_at k c) = g c)"

lemma static_const [reads_intros]: "static (\<lambda>c. x)"
  by (simp add: static_def)

lemma static_big: "static (\<lambda>c. f (c_big c))"
  by (simp add: static_def cut_at_def)

lemma static_arrayLimit [reads_intros]: "static (\<lambda>c. f (c_arrayLimit c))"
  by (simp add: static_def cut_at_def)

lemma static_uint [reads_intros]: "static (\<lambda>c. f (uint_of_bytes c bs))"
  unfolding uint_of_bytes_def by (rule static_big)

lemma cut_at_ok: "cursor_ok c off \<Longrightarrow> off \<le> k \<Longrightarrow> cursor_ok (cut_at k c) off"
  by (auto simp: cursor_ok_def cut_at_def)

lemma readsD:
  assumes "reads d" and "cursor_ok c off" and "d c off = Inr (a, off')"
  shows "off \<le> off'" and "cursor_ok c off'"
    and "take off' bs = take off' (c_bytes c) \<Longrightarrow> d (c\<lparr>c_bytes := bs\<rparr>) off = Inr (a, off')"
    and "off \<le> k \<Longrightarrow> d (cut_at k c) off = Inl ErrTruncated
           \<or> off' \<le> k \<and> d (cut_at k c) off = Inr (a, off')"
  using assms unfolding reads_def by blast+

lemma readsI:
  assumes "\<And>c off a off'. cursor_ok c off \<Longrightarrow> d c off = Inr (a, off') \<Longrightarrow>
      off \<le> off' \<and> cursor_ok c off'"
    and "\<And>c off a off' bs. cursor_ok c off \<Longrightarrow> d c off = Inr (a, off') \<Longrightarrow>
      take off' bs = take off' (c_bytes c) \<Longrightarrow> d (c\<lparr>c_bytes := bs\<rparr>) off = Inr (a, off')"
    and "\<And>c off a off' k. cursor_ok c off \<Longrightarrow> d c off = Inr (a, off') \<Longrightarrow> off \<le> k \<Longrightarrow>
      d (cut_at k c) off = Inl ErrTruncated \<or> off' \<le> k \<and> d (cut_at k c) off = Inr (a, off')"
  shows "reads d"
  using assms unfolding reads_def by blast

lemma take_le_eq: "take n xs = take n ys \<Longrightarrow> m \<le> n \<Longrightarrow> take m xs = take m ys"
  by (metis min.absorb1 take_take)

section \<open>The rules\<close>

lemma reads_bind [reads_intros]:
  assumes d1: "reads d1" and d2: "\<And>a. reads (d2 a)"
  shows "reads (\<lambda>c off. bind_res (d1 c off) (\<lambda>(a, o1). d2 a c o1))"
  (is "reads ?d")
proof (rule readsI)
  fix c off b off'
  assume ok: "cursor_ok c off" and "?d c off = Inr (b, off')"
  then obtain a o1 where r1: "d1 c off = Inr (a, o1)" and r2: "d2 a c o1 = Inr (b, off')"
    by (auto simp: bind_Inr)
  note f1 = readsD [OF d1 ok r1] and f2 = readsD [OF d2 readsD(2) [OF d1 ok r1] r2]
  show "off \<le> off' \<and> cursor_ok c off'" using f1(1) f2(1,2) by simp
  show "?d (c\<lparr>c_bytes := bs\<rparr>) off = Inr (b, off')"
    if "take off' bs = take off' (c_bytes c)" for bs
    using f1(3) [OF take_le_eq [OF that f2(1)]] f2(3) [OF that] by simp
  show "?d (cut_at k c) off = Inl ErrTruncated \<or> off' \<le> k \<and> ?d (cut_at k c) off = Inr (b, off')"
    if "off \<le> k" for k
    using f1(4) [OF that] f2(4) [of k] by auto
qed

lemma reads_return [reads_intros]: "static g \<Longrightarrow> reads (\<lambda>c off. Inr (g c, off))"
  by (auto simp: static_def reads_def)

lemma reads_error [reads_intros]: "reads (\<lambda>c off. Inl e)"
  by (simp add: reads_def)

lemma reads_prod [reads_intros]:
  "(\<And>x y. reads (f x y)) \<Longrightarrow> reads (\<lambda>c off. (case p of (x, y) \<Rightarrow> (\<lambda>off. f x y c off)) off)"
  by (cases p) simp

lemma reads_prod' [reads_intros]:
  "(\<And>x y. reads (f x y)) \<Longrightarrow> reads (\<lambda>c off. case p of (x, y) \<Rightarrow> f x y c off)"
  by (cases p) simp

lemma reads_if [reads_intros]:
  "static P \<Longrightarrow> reads d1 \<Longrightarrow> reads d2 \<Longrightarrow> reads (\<lambda>c off. if P c then d1 c off else d2 c off)"
  by (rule readsI) (auto simp: static_def dest: readsD split: if_splits)

lemma reads_option [reads_intros]:
  "(\<And>e. reads (d1 e)) \<Longrightarrow> reads d0 \<Longrightarrow>
   reads (\<lambda>c off. case x of None \<Rightarrow> d0 c off | Some e \<Rightarrow> d1 e c off)"
  by (cases x) simp_all

lemma reads_bound [reads_intros]:
  assumes "reads d"
  shows "reads (\<lambda>c off. case bound c off n of Some e \<Rightarrow> Inl e | None \<Rightarrow> d c off)"
proof -
  have same: "bound (c\<lparr>c_bytes := bs\<rparr>) off n = bound c off n" for c off bs by (simp add: bound_def)
  have cut: "bound (cut_at k c) off n \<in> {Some ErrTruncated, None}"
    if "bound c off n = None" for c off k
    using that by (auto simp: bound_def cut_at_def split: if_splits)
  show ?thesis
  proof (rule readsI; simp split: option.splits)
    fix c off a off' k
    assume b: "bound c off n = None" "cursor_ok c off" "d c off = Inr (a, off')" "off \<le> k"
    show "(bound (cut_at k c) off n = None \<longrightarrow>
        d (cut_at k c) off = Inl ErrTruncated \<or> off' \<le> k \<and> d (cut_at k c) off = Inr (a, off')) \<and>
       (\<forall>x2. bound (cut_at k c) off n = Some x2 \<longrightarrow> x2 = ErrTruncated)"
      using cut [OF b(1), of k] readsD(4) [OF assms b(2,3,4)] by auto
  qed (auto simp: same dest: readsD [OF assms])
qed

lemma reads_room [reads_intros]:
  assumes "reads d"
  shows "reads (\<lambda>c off. if x > remaining c off div w then Inl ErrTruncated else d c off)"
proof (rule readsI; simp split: if_splits)
  fix c off a off' k
  assume "cursor_ok c off" "d c off = Inr (a, off')" "off \<le> k"
  from readsD(4) [OF assms this]
  show "\<not> remaining (cut_at k c) off div w < x \<longrightarrow>
      d (cut_at k c) off = Inl ErrTruncated \<or> off' \<le> k \<and> d (cut_at k c) off = Inr (a, off')"
    by blast
qed (auto simp: remaining_def dest: readsD [OF assms])

lemma reads_big [reads_intros]:
  assumes "reads d"
  shows "reads (\<lambda>c off. d (c\<lparr>c_big := b\<rparr>) off)"
proof (rule readsI)
  fix c :: cursor and off a off'
  assume "cursor_ok c off" and r: "d (c\<lparr>c_big := b\<rparr>) off = Inr (a, off')"
  then have ok: "cursor_ok (c\<lparr>c_big := b\<rparr>) off" by (simp add: cursor_ok_def)
  note f = readsD [OF assms ok r]
  show "off \<le> off' \<and> cursor_ok c off'" using f(1,2) by (simp add: cursor_ok_def)
  show "d (c\<lparr>c_bytes := bs, c_big := b\<rparr>) off = Inr (a, off')"
    if "take off' bs = take off' (c_bytes c)" for bs
  proof -
    have swap: "c\<lparr>c_bytes := bs, c_big := b\<rparr> = c\<lparr>c_big := b, c_bytes := bs\<rparr>" by simp
    have "take off' bs = take off' (c_bytes (c\<lparr>c_big := b\<rparr>))" using that by simp
    then show ?thesis unfolding swap by (rule f(3))
  qed
  show "d ((cut_at k c)\<lparr>c_big := b\<rparr>) off = Inl ErrTruncated \<or>
      off' \<le> k \<and> d ((cut_at k c)\<lparr>c_big := b\<rparr>) off = Inr (a, off')" if "off \<le> k" for k
  proof -
    have "(cut_at k c)\<lparr>c_big := b\<rparr> = cut_at k (c\<lparr>c_big := b\<rparr>)" by (simp add: cut_at_def)
    then show ?thesis using f(4) [OF that] by simp
  qed
qed

section \<open>The decoders\<close>

lemma bound_None:
  "cursor_ok c off \<Longrightarrow> bound c off n = None \<longleftrightarrow> off + n \<le> c_limit c"
  by (auto simp: bound_def cursor_ok_def MaxInt64_def)

lemma take_drop_eq:
  assumes "take (off + n) xs = take (off + n) ys"
  shows "take n (drop off xs) = take n (drop off ys)"
  using arg_cong [OF assms, of "drop off"] by (simp add: drop_take)

lemma take_eq_length: "take n xs = take n ys \<Longrightarrow> n \<le> length ys \<Longrightarrow> n \<le> length xs"
  by (metis length_take min.absorb2 min.cobounded1)

lemma reads_chunk:
  assumes "\<And>c off. d c off = (if off + n > length (c_bytes c) then Inl ErrTruncated
     else Inr (take m (f (take n (drop off (c_bytes c)))), off + n))"
  shows "reads (\<lambda>c off. case bound c off n of Some e \<Rightarrow> Inl e | None \<Rightarrow> d c off)"
  (is "reads ?r")
proof (rule readsI)
  fix c off a off'
  assume ok: "cursor_ok c off" and r: "?r c off = Inr (a, off')"
  then have le: "off + n \<le> c_limit c" "off + n \<le> length (c_bytes c)" and off': "off' = off + n"
    and a: "a = take m (f (take n (drop off (c_bytes c))))"
    by (auto simp: assms bound_None split: option.splits if_splits)
  show ok': "off \<le> off' \<and> cursor_ok c off'" using ok le off' by (simp add: cursor_ok_def)
  show "?r (c\<lparr>c_bytes := bs\<rparr>) off = Inr (a, off')"
    if "take off' bs = take off' (c_bytes c)" for bs
    using that le take_eq_length [OF that] ok a
    by (simp add: assms off' bound_def cursor_ok_def MaxInt64_def take_drop_eq [of off n bs "c_bytes c"])
  show "?r (cut_at k c) off = Inl ErrTruncated \<or> off' \<le> k \<and> ?r (cut_at k c) off = Inr (a, off')"
    if "off \<le> k" for k
  proof (cases "off + n \<le> k")
    case True
    then have "min (k - off) n = n" by simp
    with True show ?thesis using le ok a
      by (simp add: assms off' bound_def cursor_ok_def MaxInt64_def cut_at_def drop_take
          min_def)
  next
    case False
    then show ?thesis using le ok by (simp add: bound_def cut_at_def cursor_ok_def MaxInt64_def)
  qed
qed

lemma reads_read [reads_intros]: "reads (\<lambda>c off. read c n off)"
  unfolding read_def by (rule reads_chunk [where m = n and f = id]) simp

lemma reads_skip [reads_intros]: "reads (\<lambda>c off. skip c n off)"
proof -
  have "reads (\<lambda>c off. bind_res (read c n off) (\<lambda>(bs, o1). Inr ((), o1)))"
    by (intro reads_intros)
  moreover have "bind_res (read c n off) (\<lambda>(bs, o1). Inr ((), o1)) = skip c n off" for c off
    by (simp add: read_def skip_def split: option.split)
  ultimately show ?thesis by simp
qed

lemma reads_uints [reads_intros]:
  "reads (\<lambda>c off. u8 c off)" "reads (\<lambda>c off. u16 c off)" "reads (\<lambda>c off. u32 c off)"
  "reads (\<lambda>c off. u64 c off)"
  unfolding u8_def u16_def u32_def u64_def by (intro reads_intros)+

lemma reads_str [reads_intros]: "reads (\<lambda>c off. str c off)"
  unfolding str_def by (intro reads_intros)

lemma reads_value_type [reads_intros]: "reads (\<lambda>c off. read_value_type c off)"
  unfolding read_value_type_def by (intro reads_intros)

lemma reads_arrayHeader [reads_intros]: "reads (\<lambda>c off. arrayHeader c depth off)"
  unfolding arrayHeader_def by (intro reads_intros)

lemma arrayHeader_deep: "maxArrayDepth \<le> depth \<Longrightarrow> arrayHeader c depth off = Inl ErrCorrupt"
  by (simp add: arrayHeader_def)

lemma reads_skipValue_step:
  assumes "depth < maxArrayDepth \<Longrightarrow> (\<And>et n. reads (\<lambda>c off. skipElements c et n (depth + 1) off))"
  shows "reads (\<lambda>c off. skipValue c vt depth off)"
proof (cases "depth < maxArrayDepth")
  case True
  note IH = assms [OF True]
  show ?thesis unfolding skipValue.simps by (intro reads_intros IH)
next
  case False
  then show ?thesis unfolding skipValue.simps
    by (simp only: arrayHeader_deep not_less bind_res_simps) (intro reads_intros)
qed

lemma reads_skip_loop_step:
  assumes "reads (\<lambda>c off. skipValue c et depth off)"
  shows "reads (\<lambda>c off. skip_loop c et n depth off)"
proof (induction n)
  case (Suc n)
  show ?case by (subst skip_loop.simps) (simp, intro reads_intros assms Suc)
qed (subst skip_loop.simps, simp, intro reads_intros)

lemma reads_skipElements [reads_intros]: "reads (\<lambda>c off. skipElements c et n depth off)"
proof (induction "maxArrayDepth - depth" arbitrary: depth et n)
  case 0
  have "reads (\<lambda>c off. skipValue c vt depth off)" for vt
    by (rule reads_skipValue_step) (use 0 in simp)
  then show ?case unfolding skipElements.simps by (intro reads_intros reads_skip_loop_step)
next
  case (Suc k)
  have "reads (\<lambda>c off. skipValue c vt depth off)" for vt
    by (rule reads_skipValue_step) (use Suc in simp)
  then show ?case unfolding skipElements.simps by (intro reads_intros reads_skip_loop_step)
qed

lemma reads_value_step:
  assumes "reads (\<lambda>c off. decode_array c depth off)"
  shows "reads (\<lambda>c off. decode_value c vt depth off)"
  unfolding decode_value.simps by (cases vt) (simp_all only: value_type.case, (intro reads_intros assms)+)

lemma reads_decode_loop_step:
  assumes "reads (\<lambda>c off. decode_value c et depth off)"
  shows "reads (\<lambda>c off. decode_loop c et n depth off)"
proof (induction n)
  case (Suc n)
  show ?case by (subst decode_loop.simps) (simp, intro reads_intros assms Suc)
qed (subst decode_loop.simps, simp, intro reads_intros)

lemma reads_decode_array [reads_intros]: "reads (\<lambda>c off. decode_array c depth off)"
proof (induction "maxArrayDepth - depth" arbitrary: depth)
  case 0
  then have "maxArrayDepth \<le> depth" by simp
  then show ?case unfolding decode_array.simps
    by (simp only: arrayHeader_deep bind_res_simps) (intro reads_intros)
next
  case (Suc k)
  have "reads (\<lambda>c off. decode_value c vt (depth + 1) off)" for vt
    by (rule reads_value_step, rule Suc) (use Suc in simp)
  then show ?case unfolding decode_array.simps by (intro reads_intros reads_decode_loop_step)
qed

lemma reads_decode_value [reads_intros]: "reads (\<lambda>c off. decode_value c vt depth off)"
  by (intro reads_value_step reads_intros)

lemma reads_dims_loop [reads_intros]: "reads (\<lambda>c off. dims_loop c n el ds off)"
proof (induction n arbitrary: el ds)
  case (Suc n)
  show ?case unfolding dims_loop.simps by (intro reads_intros Suc)
qed (unfold dims_loop.simps, intro reads_intros)

lemma reads_tensorInfo [reads_intros]: "reads (\<lambda>c off. tensorInfo c off)"
  unfolding tensorInfo_def by (intro reads_intros)

lemma reads_kv_loop [reads_intros]: "reads (\<lambda>c off. kv_loop c n kv off)"
proof (induction n arbitrary: kv)
  case (Suc n)
  show ?case unfolding kv_loop.simps by (intro reads_intros Suc)
qed (unfold kv_loop.simps, intro reads_intros)

lemma reads_tensor_loop [reads_intros]: "reads (\<lambda>c off. tensor_loop c n seen ts off)"
proof (induction n arbitrary: seen ts)
  case (Suc n)
  show ?case unfolding tensor_loop.simps by (intro reads_intros Suc)
qed (unfold tensor_loop.simps, intro reads_intros)

lemma reads_header: "reads (\<lambda>c off. read_header c off)"
  unfolding read_header_def read_version_def read_tables_def read_counts_def Let_def
  by (intro reads_intros)

end
