(* ===== verification/Gguf_Layout.thy ===== *)
theory Gguf_Layout
  imports Gguf_Reads
begin

text \<open>
  What a header that parsed guarantees about its tensor index: sizes that do not wrap,
  alignment, a consecutive layout, names and keys that are there once.
\<close>

section \<open>Powers of two and padding\<close>

lemma pow2_of_and_pred:
  "0 < (a::nat) \<Longrightarrow> and a (a - 1) = 0 \<Longrightarrow> \<exists>k. a = 2 ^ k"
proof (induction a rule: less_induct)
  case (less a)
  show ?case
  proof (cases "even a")
    case True
    then obtain b where b: "a = 2 * b" by blast
    with less.prems have b0: "0 < b" by simp
    have "a - 1 = 1 + 2 * (b - 1)" using b b0 by simp
    with b less.prems(2) have "and (2 * b) (1 + 2 * (b - 1)) = 0" by simp
    then have "and b (b - 1) = 0" by (subst (asm) and_rec) simp
    with less.IH [of b] b b0 obtain k where "b = 2 ^ k" by auto
    with b have "a = 2 ^ Suc k" by simp
    then show ?thesis by blast
  next
    case False
    then obtain b where b: "a = 1 + 2 * b" by (metis oddE add.commute)
    have "and (1 + 2 * b) (2 * b) = 2 * and b b" by (subst and_rec) simp
    with b less.prems(2) have "b = 0" by simp
    then show ?thesis using b by (intro exI [of _ 0]) simp
  qed
qed

lemma unat_pow2: "unat (2 ^ k :: u64) = 2 ^ k" if "k < 64"
proof -
  have "(2::nat) ^ k < 2 ^ 64" using that by (rule power_strict_increasing) simp
  then have "unat (of_nat (2 ^ k) :: u64) = 2 ^ k"
    by (simp only: unat_of_nat take_bit_eq_mod mod_less) (simp add: take_bit_eq_mod)
  then show ?thesis by simp
qed

lemma pow2_word:
  fixes a :: u64
  assumes "a \<noteq> 0" and "and a (a - 1) = 0"
  obtains k where "a = 2 ^ k" and "k < 64"
proof -
  have "and (unat a) (unat a - 1) = 0"
    using arg_cong [OF assms(2), of unat] assms(1) by (simp add: unsigned_and_eq unat_minus_one)
  moreover have "0 < unat a" using assms(1) by (simp add: unat_gt_0)
  ultimately obtain k where k: "unat a = 2 ^ k" using pow2_of_and_pred by blast
  then have "(2::nat) ^ k < 2 ^ 64" using unat_u64_lt [of a] by simp
  then have "k < 64" by (rule power_less_imp_less_exp [rotated]) simp
  moreover have "a = 2 ^ k" 
    using k unat_pow2 [OF \<open>k < 64\<close>] by (simp add: word_unat_eq_iff)
  ultimately show ?thesis using that by blast
qed

definition pad :: "nat \<Rightarrow> nat \<Rightarrow> nat" where
  "pad a n = a * ((n + a - 1) div a)"

lemma pad_props:
  assumes "0 < a"
  shows "n \<le> pad a n" and "pad a n < n + a" and "a dvd pad a n"
proof -
  have "pad a n + (n + a - 1) mod a = n + a - 1" by (simp add: pad_def)
  moreover have "(n + a - 1) mod a < a" using assms by simp
  ultimately show "n \<le> pad a n" "pad a n < n + a" using assms by linarith+
qed (simp add: pad_def)

lemma padUp_pow2:
  assumes "k < 64"
  shows "padUp n (2 ^ k) =
    (if unat n + 2 ^ k - 1 < 2 ^ 64 then Some (of_nat (pad (2 ^ k) (unat n))) else None)"
proof -
  have one: "unat (2 ^ k - 1 :: u64) = 2 ^ k - 1"
    using assms by (subst unat_minus_one) (auto simp: unat_pow2 dest: arg_cong [of _ _ unat])
  have mask: "(2 ^ k - 1 :: u64) = mask k" by (simp add: mask_eq_decr_exp)
  have clear: "and s (not (mask k)) = of_nat (2 ^ k * (unat s div 2 ^ k))" for s :: u64
  proof -
    have "and s (not (mask k)) = push_bit k (drop_bit k s)"
      by (rule bit_eqI) (auto simp: bit_simps)
    also have "\<dots> = of_nat (2 ^ k * (unat s div 2 ^ k))"
    proof -
      have "drop_bit k s = of_nat (unat (drop_bit k s))" by simp
      also have "\<dots> = of_nat (drop_bit k (unat s))" by (simp only: unat_drop_bit_eq)
      also have "\<dots> = of_nat (unat s div 2 ^ k)" by (simp only: drop_bit_eq_div)
      finally show ?thesis by (simp add: push_bit_eq_mult mult.commute)
    qed
    finally show ?thesis .
  qed
  show ?thesis
  proof (cases "unat n + 2 ^ k - 1 < 2 ^ 64")
    case True
    then have "unat (n + (2 ^ k - 1)) = unat n + (2 ^ k - 1)"
      by (subst unat_add_no_carry) (simp_all add: one)
    with True show ?thesis
      by (simp add: padUp_def Add64_def mask clear pad_def) (simp add: mask [symmetric] one)
  next
    case False
    then show ?thesis by (simp add: padUp_def Add64_def one)
  qed
qed

section \<open>Sizes that do not wrap\<close>

definition nelems :: "tensor_info \<Rightarrow> nat" where
  "nelems t = prod_list (map unat (ti_Dims t))"

definition tensor_ok :: "tensor_info \<Rightarrow> bool" where
  "tensor_ok t \<longleftrightarrow> ggml_valid (ti_Type t) \<and> length (ti_Dims t) \<le> maxTensorDims
     \<and> nelems t \<le> MaxInt64
     \<and> (ti_Dims t \<noteq> [] \<longrightarrow> BlockSize (ti_Type t) dvd unat (hd (ti_Dims t)))
     \<and> nelems t div BlockSize (ti_Type t) * TypeSize (ti_Type t) \<le> MaxInt64"

lemma Mul64_fits:
  fixes a b :: u64
  shows "fst (Mul64 a b) \<noteq> 0 \<or> unat (snd (Mul64 a b)) > MaxInt64
     \<longleftrightarrow> unat a * unat b > MaxInt64"
    and "unat a * unat b \<le> MaxInt64 \<Longrightarrow> unat (snd (Mul64 a b)) = unat a * unat b"
proof -
  let ?p = "unat a * unat b"
  have lo: "unat (a * b) = ?p mod 2 ^ 64" by (simp add: unat_word_ariths)
  then show "?p \<le> MaxInt64 \<Longrightarrow> unat (snd (Mul64 a b)) = ?p" by (simp add: Mul64_def MaxInt64_def)
  have "?p < 2 ^ 64 * 2 ^ 64"
    using unat_u64_lt [of a] unat_u64_lt [of b] by (intro mult_strict_mono) simp_all
  then have "?p div 2 ^ 64 < 2 ^ 64" by (rule less_mult_imp_div_less)
  then have hi: "(of_nat (?p div 2 ^ 64) :: u64) = 0 \<longleftrightarrow> ?p < 2 ^ 64"
    by (simp add: word_unat_eq_iff unat_of_nat take_bit_eq_mod div_eq_0_iff)
  show "fst (Mul64 a b) \<noteq> 0 \<or> unat (snd (Mul64 a b)) > MaxInt64 \<longleftrightarrow> ?p > MaxInt64"
  proof (cases "?p < 2 ^ 64")
    case True
    then show ?thesis using hi lo by (simp add: Mul64_def)
  next
    case False
    then show ?thesis using hi by (simp add: Mul64_def MaxInt64_def)
  qed
qed

lemma Elements_nelems: "Elements t = of_nat (nelems t)"
proof -
  have "fold (\<lambda>d n. n * d) ds acc = acc * of_nat (prod_list (map unat ds))" for ds :: "u64 list" and acc
    by (induction ds arbitrary: acc) (simp_all add: mult.assoc)
  then show ?thesis by (simp add: Elements_def nelems_def)
qed

lemma unat_of_nat_small: "n \<le> MaxInt64 \<Longrightarrow> unat (of_nat n :: u64) = n"
  by (simp add: unat_of_nat take_bit_eq_mod MaxInt64_def)

lemma unat_Elements: "tensor_ok t \<Longrightarrow> unat (Elements t) = nelems t"
  by (simp add: Elements_nelems tensor_ok_def unat_of_nat_small)

lemma Bytes_valid:
  "ggml_valid (ti_Type t) \<Longrightarrow>
   Bytes t = Elements t div of_nat (BlockSize (ti_Type t)) * of_nat (TypeSize (ti_Type t))"
  by (auto simp: Bytes_def ggml_valid_def BlockSize_def TypeSize_def)

lemma unat_block: "ggml_valid ty \<Longrightarrow> unat (of_nat (BlockSize ty) :: u64) = BlockSize ty"
  "ggml_valid ty \<Longrightarrow> unat (of_nat (TypeSize ty) :: u64) = TypeSize ty"
  using ggml_valid_sizes [of ty] by (auto intro!: unat_of_nat_small simp: MaxInt64_def)

lemma unat_Bytes:
  assumes "tensor_ok t"
  shows "unat (Bytes t) = nelems t div BlockSize (ti_Type t) * TypeSize (ti_Type t)"
proof -
  have v: "ggml_valid (ti_Type t)" and
    b: "nelems t div BlockSize (ti_Type t) * TypeSize (ti_Type t) \<le> MaxInt64"
    using assms by (simp_all add: tensor_ok_def)
  have "unat (Elements t div of_nat (BlockSize (ti_Type t))) = nelems t div BlockSize (ti_Type t)"
    by (simp only: unat_div unat_Elements [OF assms] unat_block [OF v])
  then show ?thesis
    using Mul64_fits(2) [of "Elements t div of_nat (BlockSize (ti_Type t))" "of_nat (TypeSize (ti_Type t))"] b
    by (simp only: unat_block [OF v] Bytes_valid [OF v]) (simp add: Mul64_def)
qed

lemma nelems_blocks:
  "tensor_ok t \<Longrightarrow> ti_Dims t \<noteq> [] \<Longrightarrow> BlockSize (ti_Type t) dvd nelems t"
  by (cases "ti_Dims t") (simp_all add: tensor_ok_def nelems_def)

lemma dims_loop_ok:
  "dims_loop c n el ds off = Inr ((el', ds'), off') \<Longrightarrow> unat el = prod_list (map unat ds) \<Longrightarrow>
   unat el \<le> MaxInt64 \<Longrightarrow>
   unat el' = prod_list (map unat ds') \<and> unat el' \<le> MaxInt64 \<and> length ds' = length ds + n"
proof (induction n arbitrary: el ds off)
  case (Suc n)
  from Suc.prems(1) obtain d o1 where d: "u64 c off = Inr (d, o1)" "unat d \<le> MaxInt64"
    and fit: "\<not> (fst (Mul64 el d) \<noteq> 0 \<or> unat (snd (Mul64 el d)) > MaxInt64)"
    and rest: "dims_loop c n (snd (Mul64 el d)) (ds @ [d]) o1 = Inr ((el', ds'), off')"
    by (auto simp: bind_Inr split: if_splits prod.splits)
  from fit have "unat el * unat d \<le> MaxInt64" using Mul64_fits(1) [of el d] by linarith
  with Mul64_fits(2) [OF this] Suc.prems(2) Suc.IH [OF rest] show ?case by simp
qed simp

lemma tensorInfo_ok: "tensorInfo c off = Inr (t, off') \<Longrightarrow> tensor_ok t"
proof -
  assume "tensorInfo c off = Inr (t, off')"
  then obtain nd el o2 o3 raw where
    nd: "unat (nd :: u32) \<le> maxTensorDims" and
    dims: "dims_loop c (unat nd) 1 [] o2 = Inr ((el, ti_Dims t), o3)" and
    ty: "ti_Type t = raw" "ggml_valid raw" and
    hd: "ti_Dims t \<noteq> [] \<longrightarrow> unat (hd (ti_Dims t)) mod BlockSize raw = 0" and
    fit: "\<not> (fst (Mul64 (el div of_nat (BlockSize raw)) (of_nat (TypeSize raw))) \<noteq> 0 \<or>
       unat (snd (Mul64 (el div of_nat (BlockSize raw)) (of_nat (TypeSize raw)))) > MaxInt64)"
    by (auto simp: tensorInfo_def bind_Inr not_less split: if_splits prod.splits)
  have el: "unat el = nelems t" "unat el \<le> MaxInt64" "length (ti_Dims t) = unat nd"
    using dims_loop_ok [OF dims] by (simp_all add: nelems_def MaxInt64_def)
  have "unat (el div of_nat (BlockSize raw)) * unat (of_nat (TypeSize raw) :: u64) \<le> MaxInt64"
    using fit Mul64_fits(1) by (metis not_less)
  then have "nelems t div BlockSize raw * TypeSize raw \<le> MaxInt64"
    by (simp only: unat_div unat_block [OF ty(2)] el(1))
  then show ?thesis using nd el ty hd by (auto simp: tensor_ok_def mod_eq_0_iff_dvd)
qed

section \<open>The tables\<close>

lemma tensor_loop_ok:
  "tensor_loop c n seen ts off = Inr (ts', off') \<Longrightarrow> seen = set (map ti_Name ts) \<Longrightarrow>
   distinct (map ti_Name ts) \<Longrightarrow> list_all tensor_ok ts \<Longrightarrow>
   distinct (map ti_Name ts') \<and> list_all tensor_ok ts' \<and> length ts' = length ts + n"
proof (induction n arbitrary: seen ts off)
  case (Suc n)
  from Suc.prems(1) obtain ti o1 where ti: "tensorInfo c off = Inr (ti, o1)" "ti_Name ti \<notin> seen"
    "tensor_loop c n (insert (ti_Name ti) seen) (ts @ [ti]) o1 = Inr (ts', off')"
    by (auto simp: bind_Inr split: if_splits)
  from Suc.IH [OF ti(3)] Suc.prems tensorInfo_ok [OF ti(1)] ti(2) show ?case by simp
qed simp

lemma kv_loop_ok:
  "kv_loop c n kv off = Inr (kv', off') \<Longrightarrow> kv_ok kv \<Longrightarrow>
   kv_ok kv' \<and> length (kv_pairs kv') = length (kv_pairs kv) + n"
proof (induction n arbitrary: kv off)
  case (Suc n)
  from Suc.prems(1) obtain key v kv1 o3 where a: "kv_add kv key v = Some kv1"
    "kv_loop c n kv1 o3 = Inr (kv', off')"
    by (auto simp: bind_Inr split: option.splits)
  moreover have "length (kv_pairs kv1) = length (kv_pairs kv) + 1"
    using a(1) by (auto simp: kv_add_def split: if_splits)
  ultimately show ?case using Suc.IH [OF a(2)] Suc.prems(2) kv_add_ok by auto
qed simp

lemma alignment_pow2:
  "alignment_of kv = Inr a \<Longrightarrow> \<exists>k < 64. a = 2 ^ k"
proof (cases "kv_Get kv KeyAlignment")
  case None
  assume "alignment_of kv = Inr a"
  with None have "a = 2 ^ 5" by (simp add: alignment_of_def DefaultAlignment_def)
  then show ?thesis by (intro exI [of _ 5]) simp
next
  case (Some raw)
  assume "alignment_of kv = Inr a"
  with Some have "a \<noteq> 0" "and a (a - 1) = 0"
    by (auto simp: alignment_of_def split: option.splits if_splits)
  then show ?thesis by (rule pow2_word) blast
qed

definition data_before :: "nat \<Rightarrow> tensor_info list \<Rightarrow> nat \<Rightarrow> nat" where
  "data_before a ts i = sum_list (map (\<lambda>t. pad a (unat (Bytes t))) (take i ts))"

lemma layout_step:
  assumes "layout_loop (2 ^ k) (ti # ts) running = Inr whole" and "k < 64"
  shows "ti_Offset ti = running"
    and "layout_loop (2 ^ k) ts (running + of_nat (pad (2 ^ k) (unat (Bytes ti)))) = Inr whole"
    and "unat (running + of_nat (pad (2 ^ k) (unat (Bytes ti))))
       = unat running + pad (2 ^ k) (unat (Bytes ti))"
    and "unat running + pad (2 ^ k) (unat (Bytes ti)) \<le> MaxInt64"
proof -
  let ?p = "pad (2 ^ k) (unat (Bytes ti))"
  have parts: "ti_Offset ti = running \<and> unat (Bytes ti) + 2 ^ k - 1 < 2 ^ 64 \<and>
     unat running + unat (of_nat ?p :: u64) < 2 ^ 64 \<and>
     unat (running + of_nat ?p) \<le> MaxInt64 \<and>
     layout_loop (2 ^ k) ts (running + of_nat ?p) = Inr whole"
    using assms(1) by (auto simp: padUp_pow2 [OF assms(2)] Add64_def split: if_splits)
  moreover have "?p < 2 ^ 64"
  proof -
    have "?p < unat (Bytes ti) + 2 ^ k" by (rule pad_props(2)) simp
    with parts show ?thesis by linarith
  qed
  then have p: "unat (of_nat ?p :: u64) = ?p" by (simp add: unat_of_nat take_bit_eq_mod)
  have "unat (running + of_nat ?p) = unat running + unat (of_nat ?p :: u64)"
    using parts by (intro unat_add_no_carry) simp
  then show sum: "unat (running + of_nat ?p) = unat running + ?p" by (simp only: p)
  show "ti_Offset ti = running" "layout_loop (2 ^ k) ts (running + of_nat ?p) = Inr whole"
    using parts by blast+
  show "unat running + ?p \<le> MaxInt64" using parts sum by simp
qed

lemma layout_loop_ok:
  "layout_loop (2 ^ k) ts running = Inr whole \<Longrightarrow> k < 64 \<Longrightarrow> unat running \<le> MaxInt64 \<Longrightarrow>
   (\<forall>i < length ts. unat (ti_Offset (ts ! i)) = unat running + data_before (2 ^ k) ts i)
   \<and> unat whole = unat running + data_before (2 ^ k) ts (length ts) \<and> unat whole \<le> MaxInt64"
proof (induction ts arbitrary: running)
  case (Cons ti ts)
  note st = layout_step [OF Cons.prems(1,2)]
  have "unat (running + of_nat (pad (2 ^ k) (unat (Bytes ti)))) \<le> MaxInt64"
    using st(3,4) by simp
  note IH = Cons.IH [OF st(2) Cons.prems(2) this]
  have "unat (ti_Offset ((ti # ts) ! i)) = unat running + data_before (2 ^ k) (ti # ts) i"
    if "i < length (ti # ts)" for i
  proof (cases i)
    case 0
    then show ?thesis by (simp add: st(1) data_before_def)
  next
    case (Suc j)
    then show ?thesis using that IH st(3) by (simp add: data_before_def)
  qed
  then show ?case using IH st(3) by (simp add: data_before_def)
qed (simp add: data_before_def)

section \<open>A header that parsed\<close>

lemma cursor_for_ok:
  "n \<le> MaxInt64 \<Longrightarrow> cursor_ok (cursor_for opts bs n) 0"
  by (auto simp: cursor_ok_def cursor_for_def)

lemma header_cases [case_names header]:
  fixes h :: header
  obtains version big tc kv ts where "h = ((version, big), tc, kv, ts)"
  by (cases h) (auto simp: prod_eq_iff)

lemma finish_header_eq:
  "finish_header n ((version, big), tc, kv, ts) off = Inr f \<longleftrightarrow>
   (\<exists>align doff ds. alignment_of kv = Inr align \<and> padUp (of_nat off) align = Some doff
      \<and> unat doff \<le> MaxInt64 \<and> layout_loop align ts 0 = Inr ds
      \<and> f = \<lparr>f_Version = version, f_BigEndian = big, f_TensorCount = tc, f_KV = kv,
             f_Tensors = ts, f_Alignment = align, f_HeaderBytes = off, f_DataOffset = doff,
             f_DataSize = ds, f_FileSize = of_nat n\<rparr>)"
proof (cases "alignment_of kv")
  case (Inr align)
  show ?thesis
  proof (cases "padUp (of_nat off) align")
    case (Some doff)
    then show ?thesis using Inr
      by (cases "layout_loop align ts 0") (auto simp: finish_header_def not_less)
  qed (simp add: finish_header_def Inr)
qed (simp add: finish_header_def)

lemma Parse_parts:
  assumes "Parse opts r n = Inr f"
  obtains bs h where "r = Some bs" and "0 \<le> n"
    and "read_header (cursor_for opts bs (nat n)) 0 = Inr (h, f_HeaderBytes f)"
    and "finish_header (nat n) h (f_HeaderBytes f) = Inr f"
proof -
  from assms obtain bs h off where "r = Some bs" "0 \<le> n"
    and "read_header (cursor_for opts bs (nat n)) 0 = Inr (h, off)"
    and fin: "finish_header (nat n) h off = Inr f"
    unfolding Parse_def bind_res_pair_eq_Inr [symmetric]
    by (cases r) (force simp: bind_Inr split: if_splits)+
  moreover have "f_HeaderBytes f = off"
  proof -
    obtain version big tc kv ts where h0: "h = ((version, big), tc, kv, ts)" by (rule header_cases)
    show ?thesis using fin unfolding h0 finish_header_eq by fastforce
  qed
  ultimately show ?thesis using that by blast
qed

lemma finish_header_ok:
  assumes "finish_header n h off = Inr f" and "off \<le> MaxInt64"
  obtains version big k where "h = ((version, big), f_TensorCount f, f_KV f, f_Tensors f)"
    and "k < 64" and "f_Alignment f = 2 ^ k"
    and "unat (f_DataOffset f) = pad (2 ^ k) off"
    and "layout_loop (2 ^ k) (f_Tensors f) 0 = Inr (f_DataSize f)"
    and "f_FileSize f = of_nat n"
proof -
  obtain version big tc kv ts where h0: "h = ((version, big), tc, kv, ts)" by (rule header_cases)
  from assms(1) obtain align doff ds where
    "alignment_of kv = Inr align" and "padUp (of_nat off) align = Some doff" and
    "layout_loop align ts 0 = Inr ds" and
    "f = \<lparr>f_Version = version, f_BigEndian = big, f_TensorCount = tc, f_KV = kv, f_Tensors = ts,
      f_Alignment = align, f_HeaderBytes = off, f_DataOffset = doff, f_DataSize = ds,
      f_FileSize = of_nat n\<rparr>"
    unfolding h0 finish_header_eq by blast
  then have h: "h = ((version, big), f_TensorCount f, f_KV f, f_Tensors f)" and
    al: "alignment_of (f_KV f) = Inr align" "f_Alignment f = align" and
    pu: "padUp (of_nat off) align = Some (f_DataOffset f)" and
    lay: "layout_loop align (f_Tensors f) 0 = Inr (f_DataSize f)" and
    sz: "f_FileSize f = of_nat n"
    by (simp_all add: h0)
  from alignment_pow2 [OF al(1)] obtain k where k: "k < 64" "align = 2 ^ k" by blast
  have off: "unat (of_nat off :: u64) = off" using assms(2) by (rule unat_of_nat_small)
  from pu have pu': "f_DataOffset f = of_nat (pad (2 ^ k) off)" "off + 2 ^ k - 1 < 2 ^ 64"
    by (auto simp: k padUp_pow2 off split: if_splits)
  have "pad (2 ^ k) off < off + 2 ^ k" by (rule pad_props(2)) simp
  then have d: "unat (f_DataOffset f) = pad (2 ^ k) off"
    using pu' by (simp add: unat_of_nat take_bit_eq_mod)
  show ?thesis
    by (rule that [OF h k(1) al(2) [unfolded k(2)] d lay [unfolded k(2)] sz])
qed

lemma read_tables_ok:
  assumes "read_header c 0 = Inr (((version, big), n, kv, ts), off)"
  shows "kv_ok kv" and "distinct (map ti_Name ts)" and "list_all tensor_ok ts"
    and "length ts = unat n" and "version = 2 \<or> version = 3"
proof -
  from assms obtain c' kn o1 o2 o3 where
    kv: "kv_loop c' kn empty_kv o1 = Inr (kv, o2)" and
    ts: "tensor_loop c' (unat n) {} [] o2 = Inr (ts, o3)" and
    v: "version = 2 \<or> version = 3"
    by (auto simp: read_header_def read_version_def read_tables_def bind_Inr Let_def
        split: if_splits)
  show "kv_ok kv" using kv_loop_ok [OF kv] by simp
  show "distinct (map ti_Name ts)" "list_all tensor_ok ts" "length ts = unat n"
    using tensor_loop_ok [OF ts] by simp_all
  show "version = 2 \<or> version = 3" by (rule v)
qed

end
