(* ===== verification/Gguf_Elision.thy ===== *)
theory Gguf_Elision
  imports Gguf_Layout
begin

text \<open>
  Skipping an array is reading it and dropping what was read. The parser walks an array it
  does not retain with \<open>skipElements\<close>, a second decoder beside \<open>value\<close>; here the two are shown to
  accept the same bytes, stop at the same offset and fail with the same error, so that the array
  limit decides nothing but which elements are kept.
\<close>

definition forget :: "'a decoded \<Rightarrow> unit decoded" where
  "forget r = map_sum id (\<lambda>(a, o1). ((), o1)) r"

lemma forget_simps [simp]: "forget (Inl e) = Inl e" "forget (Inr (a, o1)) = Inr ((), o1)"
  by (simp_all add: forget_def)

lemma forget_bind [simp]:
  "forget (bind_res r f) = bind_res r (\<lambda>x. forget (f x))"
  by (cases r) simp_all

text \<open>The whole object is there: no read falls short of the bound it was allowed.\<close>

definition all_there :: "cursor \<Rightarrow> bool" where
  "all_there c \<longleftrightarrow> c_limit c \<le> length (c_bytes c)"

lemma read_all_there:
  assumes "cursor_ok c off" and "all_there c" and "off + n \<le> c_size c"
  shows "forget (read c n off) = (if off + n \<le> c_limit c then Inr ((), off + n) else Inl ErrHeaderTooLarge)"
    and "skip c n off = (if off + n \<le> c_limit c then Inr ((), off + n) else Inl ErrHeaderTooLarge)"
  using assms by (auto simp: read_def skip_def bound_def all_there_def cursor_ok_def MaxInt64_def)

lemma forget_read_skip: "forget (read c n off) = skip c n off"
  by (simp add: read_def skip_def split: option.split)

lemma decode_fixed:
  assumes "0 < wireSize vt"
  shows "forget (decode_value c vt depth off) = forget (read c (wireSize vt) off)"
  using assms
  by (cases vt; cases "read c (wireSize vt) off")
    (auto simp: decode_value.simps u8_def u16_def u32_def u64_def split: prod.splits)

lemma forget_Inr: "forget r = Inr ((), o1) \<longleftrightarrow> (\<exists>a. r = Inr (a, o1))"
  by (cases r) auto

lemma forget_Inl: "forget r = Inl e \<longleftrightarrow> r = Inl e"
  by (cases r) auto

lemma decode_loop_0 [simp]: "decode_loop c et 0 depth off = Inr ([], off)"
  by (subst decode_loop.simps) simp

lemma decode_loop_Suc:
  "decode_loop c et (Suc n) depth off = bind_res (decode_value c et depth off) (\<lambda>(v, o1).
     bind_res (decode_loop c et n depth o1) (\<lambda>(vs, o2). Inr (v # vs, o2)))"
  by (subst decode_loop.simps) simp

lemma skip_loop_0 [simp]: "skip_loop c et 0 depth off = Inr ((), off)"
  by (subst skip_loop.simps) simp

lemma skip_loop_Suc:
  "skip_loop c et (Suc n) depth off =
   bind_res (skipValue c et depth off) (\<lambda>(_, o1). skip_loop c et n depth o1)"
  by (subst skip_loop.simps) simp

lemma decode_loop_fixed:
  "0 < wireSize et \<Longrightarrow> cursor_ok c off \<Longrightarrow> all_there c \<Longrightarrow> off + n * wireSize et \<le> c_size c \<Longrightarrow>
   forget (decode_loop c et n depth off) =
   (if off + n * wireSize et \<le> c_limit c then Inr ((), off + n * wireSize et)
    else Inl ErrHeaderTooLarge)"
proof (induction n arbitrary: off)
  case (Suc n)
  let ?w = "wireSize et"
  have "off + ?w \<le> c_size c" using Suc.prems(4) by simp
  note elem = decode_fixed [OF Suc.prems(1), of c depth off]
    read_all_there(1) [OF Suc.prems(2,3) this]
  show ?case
  proof (cases "off + ?w \<le> c_limit c")
    case True
    with elem obtain v where v: "decode_value c et depth off = Inr (v, off + ?w)"
      by (auto simp: forget_Inr)
    have "cursor_ok c (off + ?w)" using readsD(2) [OF reads_decode_value Suc.prems(2) v] .
    from Suc.IH [OF Suc.prems(1) this Suc.prems(3)] Suc.prems(4) v show ?thesis
      by (simp add: decode_loop_Suc case_prod_unfold add.assoc)
        (cases "decode_loop c et n depth (off + ?w)", auto split: if_splits)
  next
    case False
    with elem have "decode_value c et depth off = Inl ErrHeaderTooLarge" by (simp add: forget_Inl)
    then show ?thesis using False by (simp add: decode_loop_Suc)
  qed
qed (simp add: cursor_ok_def)

lemma skip_str:
  assumes "cursor_ok c off"
  shows "skipValue c ValueString depth off = forget (decode_value c ValueString depth off)"
proof (cases "u64 c off")
  case (Inr p)
  obtain n o1 where p: "p = (n, o1)" by (cases p)
  have "cursor_ok c o1" using readsD(2) [OF reads_uints(4) assms] Inr p by blast
  then have "o1 \<le> length (c_bytes c)" by (simp add: cursor_ok_def)
  then show ?thesis using Inr p
    by (cases "bound c o1 (unat n)")
      (auto simp: skipValue.simps decode_value.simps str_def read_def skip_def)
qed (simp add: skipValue.simps decode_value.simps str_def)

lemma arrayHeader_room:
  assumes "arrayHeader c depth off = Inr ((et, n), o1)" and "cursor_ok c off"
  shows "cursor_ok c o1" and "o1 + unat n * wireSize et \<le> c_size c"
proof -
  show ok: "cursor_ok c o1" using readsD(2) [OF reads_arrayHeader assms(2,1)] .
  have "unat n \<le> remaining c o1 div minWireSize et"
    using assms(1) by (auto simp: arrayHeader_def bind_Inr split: if_splits)
  then have "unat n * minWireSize et \<le> remaining c o1"
    by (simp add: less_eq_div_iff_mult_less_eq)
  moreover have "unat n * wireSize et \<le> unat n * minWireSize et"
    by (intro mult_le_mono2 wireSize_le_min)
  moreover have "o1 \<le> c_size c" using ok by (simp add: cursor_ok_def)
  ultimately show "o1 + unat n * wireSize et \<le> c_size c"
    unfolding remaining_def by linarith
qed

definition skips_as_reads :: "nat \<Rightarrow> bool" where
  "skips_as_reads depth \<longleftrightarrow> (\<forall>c et n off. cursor_ok c off \<longrightarrow> all_there c \<longrightarrow>
     off + unat n * wireSize et \<le> c_size c \<longrightarrow>
     skipElements c et n depth off = forget (decode_loop c et (unat n) depth off))"

lemma skip_array_step:
  assumes "depth < maxArrayDepth \<Longrightarrow> skips_as_reads (depth + 1)"
    and "cursor_ok c off" and "all_there c"
  shows "skipValue c ValueArray depth off = forget (decode_value c ValueArray depth off)"
proof (cases "arrayHeader c depth off")
  case (Inl e)
  then show ?thesis by (simp add: skipValue.simps decode_value.simps decode_array.simps)
next
  case (Inr p)
  obtain et n o1 where p: "p = ((et, n), o1)" by (metis surj_pair)
  have "skips_as_reads (depth + 1)"
    using assms(1) arrayHeader_depth [OF Inr] by blast
  then have same: "skipElements c et n (depth + 1) o1 = forget (decode_loop c et (unat n) (depth + 1) o1)"
    using arrayHeader_room [OF Inr [unfolded p] assms(2)] assms(3) by (simp add: skips_as_reads_def)
  show ?thesis
    using same Inr p
    by (cases "decode_loop c et (unat n) (depth + 1) o1")
      (auto simp: skipValue.simps decode_value.simps decode_array.simps)
qed

lemma skip_loop_reads:
  assumes "\<And>off. cursor_ok c off \<Longrightarrow> skipValue c et depth off = forget (decode_value c et depth off)"
    and "cursor_ok c off"
  shows "skip_loop c et n depth off = forget (decode_loop c et n depth off)"
  using assms(2)
proof (induction n arbitrary: off)
  case (Suc n)
  show ?case
  proof (cases "decode_value c et depth off")
    case (Inl e)
    then show ?thesis using assms(1) [OF Suc.prems] by (simp add: skip_loop_Suc decode_loop_Suc)
  next
    case (Inr p)
    obtain v o1 where p: "p = (v, o1)" by (cases p)
    have "cursor_ok c o1" using readsD(2) [OF reads_decode_value Suc.prems] Inr p by blast
    from Suc.IH [OF this] show ?thesis
      using assms(1) [OF Suc.prems] Inr p
      by (cases "decode_loop c et n depth o1") (auto simp: skip_loop_Suc decode_loop_Suc)
  qed
qed simp

lemma skips_as_reads: "skips_as_reads depth"
proof (induction "maxArrayDepth - depth" arbitrary: depth rule: less_induct)
  case less
  have deeper: "depth < maxArrayDepth \<Longrightarrow> skips_as_reads (depth + 1)"
    by (rule less) simp
  show ?case unfolding skips_as_reads_def
  proof (intro allI impI)
    fix c et and n :: Prelude.u64 and off
    assume ok: "cursor_ok c off" and all: "all_there c"
      and room: "off + unat n * wireSize et \<le> c_size c"
    show "skipElements c et n depth off = forget (decode_loop c et (unat n) depth off)"
    proof (cases "wireSize et > 0")
      case True
      have "unat n * wireSize et < 2 ^ 64" using room ok by (simp add: cursor_ok_def MaxInt64_def)
      moreover have "wireSize et < 2 ^ 64" by (cases et) simp_all
      ultimately have "unat (n * of_nat (wireSize et)) = unat n * wireSize et"
        by (simp add: unat_word_ariths unat_of_nat take_bit_eq_mod)
      then show ?thesis
        using True decode_loop_fixed [OF True ok all room] read_all_there(2) [OF ok all room]
        by (simp add: skipElements.simps)
    next
      case False
      then have "et = ValueString \<or> et = ValueArray" by (simp add: wireSize_zero)
      then have "skipValue c et depth o1 = forget (decode_value c et depth o1)"
        if "cursor_ok c o1" for o1
        using skip_str [OF that] skip_array_step [OF deeper that all] by blast
      then show ?thesis using False by (simp add: skipElements.simps skip_loop_reads ok)
    qed
  qed
qed

section \<open>Values without their elements\<close>

fun erase_array :: "garray \<Rightarrow> garray" where
  "erase_array (Array t n vs e) = Array t n [] True"

fun erase :: "gvalue \<Rightarrow> gvalue" where
  "erase (Value t u i x b s a) = Value t u i x b s (map_option erase_array a)"

definition erased :: "gvalue decoded \<Rightarrow> gvalue decoded" where
  "erased r = map_sum id (map_prod erase id) r"

text \<open>The value a reader that keeps no element of any array would give.\<close>

definition skim_value :: "cursor \<Rightarrow> value_type \<Rightarrow> nat \<Rightarrow> nat \<Rightarrow> gvalue decoded" where
  "skim_value c vt depth off =
    (if vt = ValueArray then
       bind_res (arrayHeader c depth off) (\<lambda>((et, n), o1).
         bind_res (skipElements c et n (depth + 1) o1) (\<lambda>(_, o2).
           Inr (array_value (Array et n [] True), o2)))
     else decode_value c vt depth off)"

lemma erased_decode:
  assumes "cursor_ok c off" and "all_there c"
  shows "erased (decode_value c vt depth off) = skim_value c vt depth off"
proof (cases "vt = ValueArray")
  case False
  then show ?thesis
    by (cases vt; cases "decode_value c vt depth off")
      (auto simp: skim_value_def erased_def decode_value.simps bind_Inr value_defs)
next
  case True
  show ?thesis
  proof (cases "arrayHeader c depth off")
    case (Inl e)
    then show ?thesis using True
      by (simp add: skim_value_def erased_def decode_value.simps decode_array.simps)
  next
    case (Inr p)
    obtain et n o1 where p: "p = ((et, n), o1)" by (metis surj_pair)
    have same: "skipElements c et n (depth + 1) o1
        = forget (decode_loop c et (unat n) (depth + 1) o1)"
      using skips_as_reads [of "depth + 1"] arrayHeader_room [OF Inr [unfolded p] assms(1)] assms(2)
      by (simp add: skips_as_reads_def)
    then show ?thesis using True Inr p
      by (cases "decode_loop c et (unat n) (depth + 1) o1")
        (auto simp: skim_value_def erased_def decode_value.simps decode_array.simps array_value_def)
  qed
qed

section \<open>The array limit\<close>

abbreviation with_limit :: "cursor \<Rightarrow> int \<Rightarrow> cursor" where
  "with_limit c x \<equiv> c\<lparr>c_arrayLimit := x\<rparr>"

lemma limit_bound [simp]: "bound (with_limit c x) off n = bound c off n"
  by (simp add: bound_def)

lemma limit_read [simp]: "read (with_limit c x) n off = read c n off"
  "skip (with_limit c x) n off = skip c n off"
  by (simp_all add: read_def skip_def cong: option.case_cong)

lemma limit_uint [simp]: "uint_of_bytes (with_limit c x) bs = uint_of_bytes c bs"
  by (simp add: uint_of_bytes_def)

lemma limit_uints [simp]: "u8 (with_limit c x) off = u8 c off" "u16 (with_limit c x) off = u16 c off"
  "u32 (with_limit c x) off = u32 c off" "u64 (with_limit c x) off = u64 c off"
  by (simp_all add: u8_def u16_def u32_def u64_def)

lemma limit_header [simp]: "str (with_limit c x) off = str c off"
  "read_value_type (with_limit c x) off = read_value_type c off"
  "arrayHeader (with_limit c x) depth off = arrayHeader c depth off"
  by (simp_all add: str_def read_value_type_def arrayHeader_def remaining_def
      cong: option.case_cong if_cong)

lemma limit_skip:
  "skipElements (with_limit c x) et n depth off = skipElements c et n depth off"
  "skip_loop (with_limit c x) et m depth off = skip_loop c et m depth off"
  "skipValue (with_limit c x) et depth off = skipValue c et depth off"
proof (induction c et n depth off and c et m depth off and c et depth off
    rule: skipElements_skip_loop_skipValue.induct)
  case (1 c et n depth off)
  then show ?case by (subst (1 2) skipElements.simps) auto
next
  case (2 c et n depth off)
  then show ?case by (subst (1 2) skip_loop.simps) (auto intro!: bind_res_cong)
next
  case (3 c vt depth off)
  then show ?case by (subst (1 2) skipValue.simps) (auto intro!: bind_res_cong cong: option.case_cong)
qed

lemma limit_skim [simp]: "skim_value (with_limit c x) vt depth off = skim_value c vt depth off"
  by (cases vt) (simp_all add: skim_value_def limit_skip decode_value.simps)

definition erase_kv :: "kv_table \<Rightarrow> kv_table" where
  "erase_kv kv = kv\<lparr>kv_pairs := map (map_prod id erase) (kv_pairs kv)\<rparr>"

definition erase_file :: "gguf_file \<Rightarrow> gguf_file" where
  "erase_file f = f\<lparr>f_KV := erase_kv (f_KV f)\<rparr>"

lemma erase_type [simp]: "v_type (erase v) = v_type v"
  by (cases v) simp

lemma AsUint_erase [simp]: "AsUint (erase v) = AsUint v"
  by (cases v) (simp add: AsUint_def)

lemma kv_Get_erase: "kv_ok kv \<Longrightarrow> kv_Get (erase_kv kv) k = map_option erase (kv_Get kv k)"
  by (cases "kv_index kv k") (simp_all add: kv_Get_def erase_kv_def kv_index_Some [THEN iffD1])

lemma kv_add_erase:
  "map_option erase_kv (kv_add kv k v) = kv_add (erase_kv kv) k (erase v)"
  by (simp add: kv_add_def erase_kv_def)

lemma with_limit_ok [simp]: "cursor_ok (with_limit c x) off = cursor_ok c off"
  "all_there (with_limit c x) = all_there c"
  by (simp_all add: cursor_ok_def all_there_def)

lemma decode_same:
  assumes "cursor_ok c off" and "all_there c"
  shows "erased (decode_value (with_limit c x) vt depth off) = erased (decode_value c vt depth off)"
  using assms by (simp add: erased_decode)

lemma kv_loop_erase:
  "cursor_ok c off \<Longrightarrow> all_there c \<Longrightarrow> erase_kv kv' = erase_kv kv \<Longrightarrow>
   map_sum id (map_prod erase_kv id) (kv_loop (with_limit c x) n kv' off) =
   map_sum id (map_prod erase_kv id) (kv_loop c n kv off)"
proof (induction n arbitrary: kv kv' off)
  case (Suc n)
  have kind: "str c off = Inr (key, o1) \<Longrightarrow> read_value_type c o1 = Inr (vt, o2) \<Longrightarrow> cursor_ok c o2"
    for key o1 vt o2
    using readsD(2) [OF reads_str Suc.prems(1)] readsD(2) [OF reads_value_type] by blast
  have step: "map_sum id (map_prod erase_kv id)
      (bind_res (decode_value (with_limit c x) vt 0 o2) (\<lambda>(v, o3). case kv_add kv' key v of
         None \<Rightarrow> Inl ErrCorrupt | Some kv2 \<Rightarrow> kv_loop (with_limit c x) n kv2 o3)) =
    map_sum id (map_prod erase_kv id)
      (bind_res (decode_value c vt 0 o2) (\<lambda>(v, o3). case kv_add kv key v of
         None \<Rightarrow> Inl ErrCorrupt | Some kv2 \<Rightarrow> kv_loop c n kv2 o3))"
    if ok: "cursor_ok c o2" for vt key o2
  proof (cases "decode_value c vt 0 o2")
    case (Inl e)
    then have "decode_value (with_limit c x) vt 0 o2 = Inl e"
      using decode_same [OF ok Suc.prems(2), of x vt 0]
      by (cases "decode_value (with_limit c x) vt 0 o2") (auto simp: erased_def)
    with Inl show ?thesis by simp
  next
    case (Inr p)
    obtain v o3 where p: "p = (v, o3)" by (cases p)
    obtain v' where v': "decode_value (with_limit c x) vt 0 o2 = Inr (v', o3)" "erase v' = erase v"
      using decode_same [OF ok Suc.prems(2), of x vt 0] Inr p
      by (cases "decode_value (with_limit c x) vt 0 o2") (auto simp: erased_def)
    have "map_option erase_kv (kv_add kv' key v') = map_option erase_kv (kv_add kv key v)"
      by (simp add: kv_add_erase Suc.prems(3) v'(2))
    moreover have "cursor_ok c o3" using readsD(2) [OF reads_decode_value ok] Inr p by blast
    ultimately show ?thesis using Inr p v'
      by (cases "kv_add kv key v"; cases "kv_add kv' key v'")
        (auto intro!: Suc.IH [OF _ Suc.prems(2)])
  qed
  show ?case
  proof (cases "str c off")
    case (Inr p)
    obtain key o1 where p: "p = (key, o1)" by (cases p)
    show ?thesis
    proof (cases "read_value_type c o1")
      case inner: (Inr q)
      obtain vt o2 where q: "q = (vt, o2)" by (cases q)
      have "cursor_ok c o2" by (rule kind [OF Inr [unfolded p] inner [unfolded q]])
      then show ?thesis
        by (simp only: kv_loop.simps limit_header Inr inner p q bind_res_simps prod.case step)
    qed (simp add: Inr p)
  qed simp
qed simp

lemma limit_dims [simp]: "dims_loop (with_limit c x) n el ds off = dims_loop c n el ds off"
  by (induction n arbitrary: el ds off) (auto intro!: bind_res_cong split: prod.split)

lemma limit_tensors [simp]:
  "tensorInfo (with_limit c x) off = tensorInfo c off"
  "tensor_loop (with_limit c x) n seen ts off = tensor_loop c n seen ts off"
proof -
  show t: "tensorInfo (with_limit c x) off = tensorInfo c off" for off
    by (simp add: tensorInfo_def cong: if_cong)
  show "tensor_loop (with_limit c x) n seen ts off = tensor_loop c n seen ts off"
    by (induction n arbitrary: seen ts off) (simp_all add: t cong: if_cong)
qed

definition erase_header :: "header \<Rightarrow> header" where
  "erase_header h = map_prod id (map_prod id (map_prod erase_kv id)) h"

lemma read_tables_erase:
  assumes "cursor_ok c off" and "all_there c"
  shows "map_sum id (map_prod (map_prod id (map_prod erase_kv id)) id) (read_tables (with_limit c x) off)
       = map_sum id (map_prod (map_prod id (map_prod erase_kv id)) id) (read_tables c off)"
proof -
  have counts: "read_counts (with_limit c x) off = read_counts c off"
    by (simp add: read_counts_def remaining_def cong: if_cong)
  show ?thesis
  proof (cases "read_counts c off")
    case (Inr p)
    obtain t k o1 where p: "p = ((t, k), o1)" by (metis surj_pair)
    have "reads (\<lambda>c off. read_counts c off)" unfolding read_counts_def by (intro reads_intros)
    from readsD(2) [OF this assms(1)] Inr p have "cursor_ok c o1" by blast
    from kv_loop_erase [OF this assms(2) refl, of x "unat k" empty_kv]
    show ?thesis unfolding read_tables_def counts Inr p
      by (cases "kv_loop c (unat k) empty_kv o1"; cases "kv_loop (with_limit c x) (unat k) empty_kv o1")
        (auto simp: case_prod_unfold split: sum.splits
          intro!: arg_cong [where f = "map_sum id _"] simp: bind_res_def)
  qed (simp add: read_tables_def counts)
qed

lemma read_header_erase:
  assumes "cursor_ok c off" and "all_there c"
  shows "map_sum id (map_prod erase_header id) (read_header (with_limit c x) off)
       = map_sum id (map_prod erase_header id) (read_header c off)"
proof (cases "read c 4 off")
  case (Inr p)
  obtain m o1 where p: "p = (m, o1)" by (cases p)
  have v: "read_version (with_limit c x) o1 = read_version c o1" by (simp add: read_version_def)
  have o1: "cursor_ok c o1" using readsD(2) [OF reads_read assms(1)] Inr p by blast
  show ?thesis
  proof (cases "read_version c o1")
    case inner: (Inr q)
    obtain version big o2 where q: "q = ((version, big), o2)" by (metis surj_pair)
    have "reads (\<lambda>c off. read_version c off)"
      unfolding read_version_def Let_def by (intro reads_intros)
    from readsD(2) [OF this o1] inner q have "cursor_ok c o2" by blast
    then have "cursor_ok (c\<lparr>c_big := big\<rparr>) o2" "all_there (c\<lparr>c_big := big\<rparr>)"
      using assms(2) by (simp_all add: cursor_ok_def all_there_def)
    note same = read_tables_erase [OF this, of x]
    have swap: "(with_limit c x)\<lparr>c_big := big\<rparr> = with_limit (c\<lparr>c_big := big\<rparr>) x" by simp
    from same have tables: "map_sum id (map_prod (map_prod id (map_prod erase_kv id)) id)
        (read_tables ((with_limit c x)\<lparr>c_big := big\<rparr>) o2)
      = map_sum id (map_prod (map_prod id (map_prod erase_kv id)) id)
        (read_tables (c\<lparr>c_big := big\<rparr>) o2)" unfolding swap .
    show ?thesis
    proof (cases "m = magic")
      case True
      with tables Inr inner p q show ?thesis
        by (cases "read_tables (c\<lparr>c_big := big\<rparr>) o2";
            cases "read_tables ((with_limit c x)\<lparr>c_big := big\<rparr>) o2")
          (auto simp: read_header_def v erase_header_def)
    qed (simp add: read_header_def Inr p)
  qed (simp add: read_header_def Inr p v)
qed (simp add: read_header_def)

end
