(* ===== verification/Gguf_Build.thy ===== *)
theory Gguf_Build
  imports Gguf_Layout
begin

text \<open>
  The writer of GGUF headers (\<open>internal/gguf/ggufbuild\<close>), which the repository's tests build
  their files with, and the round trip: what it writes, the parser reads back.

  The bits of a float are what \<open>math.Float32bits (float32 (x))\<close> and \<open>math.Float64bits (x)\<close> give,
  two arguments of the writer (the conversion of a signalling NaN need not give its bits back).
\<close>

section \<open>Values\<close>

datatype bval = Val (bv_typ: Prelude.u32) (bv_u: Prelude.u64) (bv_i: int) (bv_f: gofloat)
  (bv_b: bool) (bv_s: string) (bv_elemType: Prelude.u32) (bv_elems: "bval list")
  (bv_raw: "Prelude.u8 list") (bv_isRaw: bool)

abbreviation zf :: gofloat where
  "zf \<equiv> Float64frombits 0"

definition U8 :: "Prelude.u8 \<Rightarrow> bval" where
  "U8 v = Val 0 (ucast v) 0 zf False [] 0 [] [] False"

definition U16 :: "Prelude.u16 \<Rightarrow> bval" where
  "U16 v = Val 2 (ucast v) 0 zf False [] 0 [] [] False"

definition U32 :: "Prelude.u32 \<Rightarrow> bval" where
  "U32 v = Val 4 (ucast v) 0 zf False [] 0 [] [] False"

definition U64 :: "Prelude.u64 \<Rightarrow> bval" where
  "U64 v = Val 10 v 0 zf False [] 0 [] [] False"

definition I8 :: "Prelude.u8 \<Rightarrow> bval" where
  "I8 v = Val 1 0 (sint v) zf False [] 0 [] [] False"

definition I16 :: "Prelude.u16 \<Rightarrow> bval" where
  "I16 v = Val 3 0 (sint v) zf False [] 0 [] [] False"

definition I32 :: "Prelude.u32 \<Rightarrow> bval" where
  "I32 v = Val 5 0 (sint v) zf False [] 0 [] [] False"

definition I64 :: "Prelude.u64 \<Rightarrow> bval" where
  "I64 v = Val 11 0 (sint v) zf False [] 0 [] [] False"

definition F32 :: "Prelude.u32 \<Rightarrow> bval" where
  "F32 v = Val 6 0 0 (Float32frombits v) False [] 0 [] [] False"

definition F64 :: "Prelude.u64 \<Rightarrow> bval" where
  "F64 v = Val 12 0 0 (Float64frombits v) False [] 0 [] [] False"

definition Bool :: "bool \<Rightarrow> bval" where
  "Bool v = Val 7 0 0 zf v [] 0 [] [] False"

definition Str :: "string \<Rightarrow> bval" where
  "Str v = Val 8 0 0 zf False v 0 [] [] False"

definition Arr :: "Prelude.u32 \<Rightarrow> bval list \<Rightarrow> bval" where
  "Arr elemType elems = Val 9 0 0 zf False [] elemType elems [] False"

definition U32s :: "Prelude.u32 list \<Rightarrow> bval" where
  "U32s vs = Arr 4 (map U32 vs)"

definition Strs :: "string list \<Rightarrow> bval" where
  "Strs vs = Arr 8 (map Str vs)"

definition Raw :: "Prelude.u32 \<Rightarrow> Prelude.u8 list \<Rightarrow> bval" where
  "Raw t payload = Val t 0 0 zf False [] 0 [] payload True"

section \<open>The builder\<close>

record tensor_entry =
  te_name :: string
  te_typ :: Prelude.u32
  te_dims :: "Prelude.u64 list"
  te_offset :: Prelude.u64
  te_overrides :: bool

record builder =
  b_version :: Prelude.u32
  b_bigEndian :: bool
  b_alignment :: Prelude.u64
  b_kv :: "(string \<times> bval) list"
  b_tensors :: "tensor_entry list"

definition b_Set :: "string \<Rightarrow> bval \<Rightarrow> builder \<Rightarrow> builder" where
  "b_Set key v b = b\<lparr>b_kv := b_kv b @ [(key, v)]\<rparr>"

definition KeyArchitecture :: string where
  "KeyArchitecture = ''general.architecture''"

definition b_New :: "string \<Rightarrow> builder" where
  "b_New arch =
    (let b = \<lparr>b_version = 3, b_bigEndian = False, b_alignment = 32, b_kv = [], b_tensors = []\<rparr>
     in if arch \<noteq> [] then b_Set KeyArchitecture (Str arch) b else b)"

definition b_Version :: "Prelude.u32 \<Rightarrow> builder \<Rightarrow> builder" where
  "b_Version v b = b\<lparr>b_version := v\<rparr>"

definition b_BigEndian :: "bool \<Rightarrow> builder \<Rightarrow> builder" where
  "b_BigEndian v b = b\<lparr>b_bigEndian := v\<rparr>"

definition b_Alignment :: "Prelude.u64 \<Rightarrow> builder \<Rightarrow> builder" where
  "b_Alignment a b = b_Set KeyAlignment (U32 (ucast a)) (b\<lparr>b_alignment := a\<rparr>)"

definition b_Tensor :: "string \<Rightarrow> Prelude.u32 \<Rightarrow> Prelude.u64 list \<Rightarrow> builder \<Rightarrow> builder" where
  "b_Tensor name t dims b = b\<lparr>b_tensors := b_tensors b @
     [\<lparr>te_name = name, te_typ = t, te_dims = dims, te_offset = 0, te_overrides = False\<rparr>]\<rparr>"

definition b_TensorAt ::
  "string \<Rightarrow> Prelude.u32 \<Rightarrow> Prelude.u64 \<Rightarrow> Prelude.u64 list \<Rightarrow> builder \<Rightarrow> builder" where
  "b_TensorAt name t ofs dims b = b\<lparr>b_tensors := b_tensors b @
     [\<lparr>te_name = name, te_typ = t, te_dims = dims, te_offset = ofs, te_overrides = True\<rparr>]\<rparr>"

definition b_Layer ::
  "Prelude.u64 \<Rightarrow> Prelude.u64 \<Rightarrow> Prelude.u32 \<Rightarrow> nat \<Rightarrow> builder \<Rightarrow> builder" where
  "b_Layer embd ff t i b =
    (let p = ''blk.'' @ nat_dec i @ ''.'' in
     b_Tensor (p @ ''ffn_down.weight'') t [ff, embd]
       (b_Tensor (p @ ''ffn_up.weight'') t [embd, ff]
         (b_Tensor (p @ ''attn_qkv.weight'') t [embd, embd * 3]
           (b_Tensor (p @ ''attn_norm.weight'') 0 [embd] b))))"

definition b_Layers ::
  "nat \<Rightarrow> Prelude.u64 \<Rightarrow> Prelude.u64 \<Rightarrow> Prelude.u32 \<Rightarrow> builder \<Rightarrow> builder" where
  "b_Layers n embd ff t b = fold (b_Layer embd ff t) [0..<n] b"

definition b_padUp :: "Prelude.u64 \<Rightarrow> Prelude.u64 \<Rightarrow> Prelude.u64" where
  "b_padUp n align = (if align = 0 then n else (n + align - 1) div align * align)"

definition bytesOf :: "tensor_entry \<Rightarrow> Prelude.u64" where
  "bytesOf t = Bytes \<lparr>ti_Name = te_name t, ti_Dims = te_dims t, ti_Type = te_typ t, ti_Offset = 0\<rparr>"

definition b_DataSize :: "builder \<Rightarrow> Prelude.u64" where
  "b_DataSize b = fold (\<lambda>t running. running + b_padUp (bytesOf t) (b_alignment b)) (b_tensors b) 0"

section \<open>Writing\<close>

fun le_bytes :: "nat \<Rightarrow> nat \<Rightarrow> Prelude.u8 list" where
  "le_bytes 0 x = []"
| "le_bytes (Suc n) x = of_nat x # le_bytes n (x div 256)"

definition ordered :: "bool \<Rightarrow> Prelude.u8 list \<Rightarrow> Prelude.u8 list" where
  "ordered big bs = (if big then rev bs else bs)"

definition writeU16 :: "bool \<Rightarrow> Prelude.u16 \<Rightarrow> Prelude.u8 list" where
  "writeU16 big v = ordered big (le_bytes 2 (unat v))"

definition writeU32 :: "bool \<Rightarrow> Prelude.u32 \<Rightarrow> Prelude.u8 list" where
  "writeU32 big v = ordered big (le_bytes 4 (unat v))"

definition writeU64 :: "bool \<Rightarrow> Prelude.u64 \<Rightarrow> Prelude.u8 list" where
  "writeU64 big v = ordered big (le_bytes 8 (unat v))"

definition bytes_of_string :: "string \<Rightarrow> Prelude.u8 list" where
  "bytes_of_string s = map (\<lambda>ch. of_nat (of_char ch)) s"

definition writeString :: "bool \<Rightarrow> string \<Rightarrow> Prelude.u8 list" where
  "writeString big s = writeU64 big (of_nat (length s)) @ bytes_of_string s"

record float_bits =
  fb_32 :: "gofloat \<Rightarrow> Prelude.u32"
  fb_64 :: "gofloat \<Rightarrow> Prelude.u64"

fun writeValue :: "float_bits \<Rightarrow> bool \<Rightarrow> bval \<Rightarrow> Prelude.u8 list" where
  "writeValue fb big (Val typ u i f b s et es raw isRaw) =
    (if isRaw then raw
     else case value_type_of typ of None \<Rightarrow> []
     | Some vt \<Rightarrow> (case vt of
         ValueUint8 \<Rightarrow> [ucast u]
       | ValueInt8 \<Rightarrow> [word_of_int i]
       | ValueUint16 \<Rightarrow> writeU16 big (ucast u)
       | ValueInt16 \<Rightarrow> writeU16 big (word_of_int i)
       | ValueUint32 \<Rightarrow> writeU32 big (ucast u)
       | ValueInt32 \<Rightarrow> writeU32 big (word_of_int i)
       | ValueFloat32 \<Rightarrow> writeU32 big (fb_32 fb f)
       | ValueBool \<Rightarrow> [if b then 1 else 0]
       | ValueString \<Rightarrow> writeString big s
       | ValueArray \<Rightarrow> writeU32 big et @ writeU64 big (of_nat (length es))
                       @ concat (map (writeValue fb big) es)
       | ValueUint64 \<Rightarrow> writeU64 big u
       | ValueInt64 \<Rightarrow> writeU64 big (word_of_int i)
       | ValueFloat64 \<Rightarrow> writeU64 big (fb_64 fb f)))"

definition writeKV :: "float_bits \<Rightarrow> bool \<Rightarrow> string \<times> bval \<Rightarrow> Prelude.u8 list" where
  "writeKV fb big e =
     writeString big (fst e) @ writeU32 big (bv_typ (snd e)) @ writeValue fb big (snd e)"

definition writeTensor :: "bool \<Rightarrow> Prelude.u64 \<Rightarrow> tensor_entry \<Rightarrow> Prelude.u8 list" where
  "writeTensor big running t =
     writeString big (te_name t) @ writeU32 big (of_nat (length (te_dims t)))
     @ concat (map (writeU64 big) (te_dims t)) @ writeU32 big (te_typ t)
     @ writeU64 big (if te_overrides t then te_offset t else running)"

fun writeTensors ::
  "bool \<Rightarrow> Prelude.u64 \<Rightarrow> Prelude.u64 \<Rightarrow> tensor_entry list \<Rightarrow> Prelude.u8 list" where
  "writeTensors big align running [] = []"
| "writeTensors big align running (t # ts) =
     writeTensor big running t
     @ writeTensors big align (running + b_padUp (bytesOf t) align) ts"

definition Header :: "float_bits \<Rightarrow> builder \<Rightarrow> Prelude.u8 list" where
  "Header fb b = (let big = b_bigEndian b in
     magic @ writeU32 big (b_version b) @ writeU64 big (of_nat (length (b_tensors b)))
     @ writeU64 big (of_nat (length (b_kv b))) @ concat (map (writeKV fb big) (b_kv b))
     @ writeTensors big (b_alignment b) 0 (b_tensors b))"

definition Full :: "float_bits \<Rightarrow> builder \<Rightarrow> Prelude.u8 list" where
  "Full fb b = (let h = Header fb b;
       whole = b_padUp (of_nat (length h)) (b_alignment b) + b_DataSize b
     in take (unat whole) h @ replicate (unat whole - length h) 0)"

end
