(* ===== verification/Gguf_Roundtrip.thy ===== *)
theory Gguf_Roundtrip
  imports Gguf_Build "HOL-Library.Code_Target_Nat"
begin

text \<open>
  The parser reads back what the writer wrote. \<open>here c off bs\<close> says that the bytes \<open>bs\<close> stand at
  \<open>off\<close> and may be read; it distributes over appending, so that the proof for each record of the
  format is a walk over its fields.
\<close>

definition here :: "cursor \<Rightarrow> nat \<Rightarrow> Prelude.u8 list \<Rightarrow> bool" where
  "here c off bs \<longleftrightarrow> cursor_ok c off \<and> off + length bs \<le> c_limit c
     \<and> off + length bs \<le> length (c_bytes c) \<and> take (length bs) (drop off (c_bytes c)) = bs"

lemma here_append:
  "here c off (xs @ ys) \<longleftrightarrow> here c off xs \<and> here c (off + length xs) ys"
proof -
  have "take (length xs + length ys) (drop off (c_bytes c)) = xs @ ys \<longleftrightarrow>
      take (length xs) (drop off (c_bytes c)) = xs
      \<and> take (length ys) (drop (off + length xs) (c_bytes c)) = ys"
    if "off + (length xs + length ys) \<le> length (c_bytes c)"
    using that by (simp add: take_add append_eq_append_conv add.commute)
  then show ?thesis by (auto simp: here_def cursor_ok_def)
qed

lemma here_ok: "here c off bs \<Longrightarrow> cursor_ok c off"
  by (simp add: here_def)

lemma here_room: "here c off bs \<Longrightarrow> length bs \<le> remaining c off"
  by (auto simp: here_def cursor_ok_def remaining_def)

lemma bound_here: "here c off bs \<Longrightarrow> bound c off (length bs) = None"
  by (auto simp: here_def bound_None)

lemma read_here: "here c off bs \<Longrightarrow> length bs = n \<Longrightarrow> read c n off = Inr (bs, off + n)"
  using bound_here [of c off bs] by (auto simp: read_def here_def)

section \<open>Numbers\<close>

lemma length_le_bytes [simp]: "length (le_bytes n x) = n"
  by (induction n arbitrary: x) simp_all

lemma horner_le_bytes: "horner_sum unat 256 (le_bytes n x) = x mod 256 ^ n"
proof (induction n arbitrary: x)
  case (Suc n)
  have "x mod 256 ^ Suc n = x mod 256 + 256 * (x div 256 mod 256 ^ n)"
    by (simp add: mod_mult2_eq)
  then show ?case by (simp add: Suc unat_of_nat take_bit_eq_mod)
qed simp

lemma length_ordered [simp]: "length (ordered big bs) = length bs"
  by (simp add: ordered_def)

lemma uint_of_ordered:
  "c_big c = big \<Longrightarrow> uint_of_bytes c (ordered big (le_bytes n x)) = x mod 256 ^ n"
  by (simp add: uint_of_bytes_def ordered_def horner_le_bytes)

lemma write_lengths [simp]:
  "length (writeU16 big w) = 2" "length (writeU32 big x) = 4" "length (writeU64 big y) = 8"
  by (simp_all add: writeU16_def writeU32_def writeU64_def)

lemma uints_here:
  assumes "c_big c = big"
  shows "here c off [b] \<Longrightarrow> u8 c off = Inr (b, off + 1)"
    and "here c off (writeU16 big w) \<Longrightarrow> u16 c off = Inr (w, off + 2)"
    and "here c off (writeU32 big x) \<Longrightarrow> u32 c off = Inr (x, off + 4)"
    and "here c off (writeU64 big y) \<Longrightarrow> u64 c off = Inr (y, off + 8)"
proof -
  note d = uint_of_ordered [OF assms]
  show "here c off [b] \<Longrightarrow> u8 c off = Inr (b, off + 1)"
    by (simp add: u8_def read_here)
  have "unat w mod 256 ^ 2 = unat w" using unsigned_less [of w] by (intro mod_less) simp
  then show "here c off (writeU16 big w) \<Longrightarrow> u16 c off = Inr (w, off + 2)"
    by (simp add: u16_def read_here writeU16_def d)
  have "unat x mod 256 ^ 4 = unat x" using unsigned_less [of x] by (intro mod_less) simp
  then show "here c off (writeU32 big x) \<Longrightarrow> u32 c off = Inr (x, off + 4)"
    by (simp add: u32_def read_here writeU32_def d)
  have "unat y mod 256 ^ 8 = unat y" using unat_u64_lt [of y] by (intro mod_less) simp
  then show "here c off (writeU64 big y) \<Longrightarrow> u64 c off = Inr (y, off + 8)"
    by (simp add: u64_def read_here writeU64_def d)
qed

lemma length_writeString [simp]: "length (writeString big s) = 8 + length s"
  by (simp add: writeString_def bytes_of_string_def)

lemma string_bytes [simp]: "string_of_bytes (bytes_of_string s) = s"
  by (simp add: string_of_bytes_def bytes_of_string_def comp_def unat_of_nat take_bit_eq_mod)

lemma str_here:
  assumes "c_big c = big" and "here c off (writeString big s)"
  shows "str c off = Inr (s, off + 8 + length s)"
proof -
  have 1: "here c off (writeU64 big (of_nat (length s)))" and
    2: "here c (off + 8) (bytes_of_string s)"
    using assms(2) by (simp_all add: writeString_def here_append)
  have len: "length (bytes_of_string s) = length s" by (simp add: bytes_of_string_def)
  then have "length s \<le> MaxInt64" using 2 by (auto simp: here_def cursor_ok_def)
  then have n: "unat (of_nat (length s) :: Prelude.u64) = length s" by (rule unat_of_nat_small)
  have "(of_nat (length s) :: Prelude.u64) = 0 \<longleftrightarrow> s = []"
    using n by (metis length_0_conv of_nat_0 unat_eq_zero)
  then show ?thesis
    using uints_here(4) [OF assms(1) 1] bound_here [OF 2] read_here [OF 2 len] n
    by (auto simp: str_def len)
qed

lemma value_type_here:
  assumes "c_big c = big" and "here c off (writeU32 big raw)" and "value_type_of raw = Some vt"
  shows "read_value_type c off = Inr (vt, off + 4)"
  using uints_here(3) [OF assms(1,2)] assms(3) by (simp add: read_value_type_def)

section \<open>Values\<close>

text \<open>
  A value that stands for itself: its payload fits its type, its elements have the array's type,
  and it was not made by \<open>Raw\<close>; \<open>nest\<close> is how deep its arrays go.
\<close>

fun val_ok :: "float_bits \<Rightarrow> bval \<Rightarrow> bool" where
  "val_ok fb (Val typ u i f b s et es raw isRaw) \<longleftrightarrow> \<not> isRaw \<and>
    (case value_type_of typ of None \<Rightarrow> False
     | Some vt \<Rightarrow> (case vt of
         ValueUint8 \<Rightarrow> unat u < 2 ^ 8
       | ValueInt8 \<Rightarrow> - (2 ^ 7) \<le> i \<and> i < 2 ^ 7
       | ValueUint16 \<Rightarrow> unat u < 2 ^ 16
       | ValueInt16 \<Rightarrow> - (2 ^ 15) \<le> i \<and> i < 2 ^ 15
       | ValueUint32 \<Rightarrow> unat u < 2 ^ 32
       | ValueInt32 \<Rightarrow> - (2 ^ 31) \<le> i \<and> i < 2 ^ 31
       | ValueFloat32 \<Rightarrow> f = Float32frombits (fb_32 fb f)
       | ValueBool \<Rightarrow> True
       | ValueString \<Rightarrow> True
       | ValueArray \<Rightarrow> value_type_of et \<noteq> None \<and> list_all (\<lambda>e. bv_typ e = et) es
                       \<and> list_all (val_ok fb) es
       | ValueUint64 \<Rightarrow> True
       | ValueInt64 \<Rightarrow> - (2 ^ 63) \<le> i \<and> i < 2 ^ 63
       | ValueFloat64 \<Rightarrow> f = Float64frombits (fb_64 fb f)))"

fun nest :: "bval \<Rightarrow> nat" where
  "nest (Val typ u i f b s et es raw isRaw) =
    (if typ = 9 then Suc (fold max (map nest es) 0) else 0)"

text \<open>The value the parser gives for it when no element is dropped.\<close>

fun as_gvalue :: "bval \<Rightarrow> gvalue" where
  "as_gvalue (Val typ u i f b s et es raw isRaw) =
    (case value_type_of typ of None \<Rightarrow> zero_value ValueUint8
     | Some vt \<Rightarrow>
         if is_uint_type vt then uint_value vt u
         else if is_int_type vt then int_value vt i
         else if is_float_type vt then float_value vt f
         else if vt = ValueBool then bool_value b
         else if vt = ValueString then string_value s
         else array_value (Array (the (value_type_of et)) (of_nat (length es)) (map as_gvalue es) False))"

lemma nest_elem: "e \<in> set es \<Longrightarrow> nest e \<le> fold max (map nest es) 0"
proof -
  have mono: "a \<le> fold max ns a" for ns and a :: nat
  proof (induction ns arbitrary: a)
    case (Cons n ns)
    show ?case using Cons [of "max n a"] by simp
  qed simp
  have "n \<in> set ns \<Longrightarrow> n \<le> fold max ns a" for n ns and a :: nat
  proof (induction ns arbitrary: a)
    case (Cons m ns)
    then show ?case using mono [of "max m a" ns] by auto
  qed simp
  then show "e \<in> set es \<Longrightarrow> nest e \<le> fold max (map nest es) 0" by simp
qed

lemma writeValue_min:
  "val_ok fb v \<Longrightarrow> value_type_of (bv_typ v) = Some vt \<Longrightarrow>
   minWireSize vt \<le> length (writeValue fb big v)"
  by (cases v; cases vt) (auto simp: minWireSize_def)

lemma sint_word_of_int:
  "- (2 ^ 7) \<le> i \<Longrightarrow> i < 2 ^ 7 \<Longrightarrow> sint (word_of_int i :: Prelude.u8) = i"
  "- (2 ^ 15) \<le> i \<Longrightarrow> i < 2 ^ 15 \<Longrightarrow> sint (word_of_int i :: Prelude.u16) = i"
  "- (2 ^ 31) \<le> i \<Longrightarrow> i < 2 ^ 31 \<Longrightarrow> sint (word_of_int i :: Prelude.u32) = i"
  "- (2 ^ 63) \<le> i \<Longrightarrow> i < 2 ^ 63 \<Longrightarrow> sint (word_of_int i :: Prelude.u64) = i"
  by (simp_all add: signed_of_int signed_take_bit_int_eq_self)

lemma ucast_back:
  "unat u < 2 ^ 8 \<Longrightarrow> ucast (ucast u :: Prelude.u8) = (u :: Prelude.u64)"
  "unat u < 2 ^ 16 \<Longrightarrow> ucast (ucast u :: Prelude.u16) = (u :: Prelude.u64)"
  "unat u < 2 ^ 32 \<Longrightarrow> ucast (ucast u :: Prelude.u32) = (u :: Prelude.u64)"
  by (simp_all add: word_unat_eq_iff unsigned_ucast_eq take_bit_eq_mod unat_mod)

definition elems_back :: "float_bits \<Rightarrow> cursor \<Rightarrow> nat \<Rightarrow> bval list \<Rightarrow> bool" where
  "elems_back fb c depth es \<longleftrightarrow> (\<forall>e \<in> set es. \<forall>off. here c off (writeValue fb (c_big c) e) \<longrightarrow>
     decode_value c (the (value_type_of (bv_typ e))) depth off
     = Inr (as_gvalue e, off + length (writeValue fb (c_big c) e)))"

lemma decode_loop_here:
  assumes "elems_back fb c depth es" and "list_all (\<lambda>e. value_type_of (bv_typ e) = Some et) es"
    and "here c off (concat (map (writeValue fb (c_big c)) es))"
  shows "decode_loop c et (length es) depth off
     = Inr (map as_gvalue es, off + length (concat (map (writeValue fb (c_big c)) es)))"
  using assms
proof (induction es arbitrary: off)
  case Nil
  then show ?case by (subst decode_loop.simps) simp
next
  case (Cons e es)
  from Cons.prems(3) have h: "here c off (writeValue fb (c_big c) e)"
    "here c (off + length (writeValue fb (c_big c) e)) (concat (map (writeValue fb (c_big c)) es))"
    by (simp_all add: here_append)
  have "decode_value c et depth off = Inr (as_gvalue e, off + length (writeValue fb (c_big c) e))"
    using Cons.prems(1,2) h(1) by (simp add: elems_back_def)
  moreover have "elems_back fb c depth es" using Cons.prems(1) by (simp add: elems_back_def)
  ultimately show ?case using Cons.IH [OF _ _ h(2)] Cons.prems(2)
    by (subst decode_loop.simps) simp
qed

lemma concat_min:
  "list_all (\<lambda>x. k \<le> length (f x)) xs \<Longrightarrow> length xs * k \<le> length (concat (map f xs))"
  by (induction xs) auto

lemma array_here:
  assumes "c_arrayLimit c < 0" and "Suc depth \<le> maxArrayDepth"
    and et: "value_type_of et = Some vt" and "list_all (\<lambda>e. bv_typ e = et) es"
    and "list_all (val_ok fb) es" and "elems_back fb c (Suc depth) es"
    and h: "here c off (writeU32 (c_big c) et @ writeU64 (c_big c) (of_nat (length es))
       @ concat (map (writeValue fb (c_big c)) es))"
  shows "decode_array c depth off = Inr (Array vt (of_nat (length es)) (map as_gvalue es) False,
     off + 12 + length (concat (map (writeValue fb (c_big c)) es)))"
proof -
  let ?data = "concat (map (writeValue fb (c_big c)) es)"
  have parts: "here c off (writeU32 (c_big c) et)"
    "here c (off + 4) (writeU64 (c_big c) (of_nat (length es)))" "here c (off + 12) ?data"
    using h by (simp_all add: here_append ac_simps)
  have len: "length es * minWireSize vt \<le> length ?data"
    by (rule concat_min) (use assms(4,5) et in \<open>auto simp: list_all_iff intro: writeValue_min\<close>)
  also have "\<dots> \<le> remaining c (off + 12)" by (rule here_room [OF parts(3)])
  finally have room: "length es \<le> remaining c (off + 12) div minWireSize vt"
    by (simp add: less_eq_div_iff_mult_less_eq)
  have "length es \<le> length es * minWireSize vt" using minWireSize_pos [of vt] by (simp add: Suc_le_eq)
  with len have "length es \<le> length ?data" by linarith
  moreover have "length ?data \<le> MaxInt64" using parts(3) by (simp add: here_def cursor_ok_def)
  ultimately have "length es \<le> MaxInt64" by linarith
  then have n: "unat (of_nat (length es) :: Prelude.u64) = length es" by (rule unat_of_nat_small)
  have "arrayHeader c depth off = Inr ((vt, of_nat (length es)), off + 12)"
    using value_type_here [OF refl parts(1) et] uints_here(4) [OF refl parts(2)] room n assms(2)
    by (simp add: arrayHeader_def ac_simps)
  moreover have "decode_loop c vt (length es) (Suc depth) (off + 12)
      = Inr (map as_gvalue es, off + 12 + length ?data)"
    by (rule decode_loop_here [OF assms(6) _ parts(3)]) (use assms(4) et in \<open>auto simp: list_all_iff\<close>)
  ultimately show ?thesis using assms(1) n by (simp add: decode_array.simps)
qed

lemma value_here:
  assumes "c_arrayLimit c < 0"
  shows "val_ok fb v \<Longrightarrow> depth + nest v \<le> maxArrayDepth \<Longrightarrow> here c off (writeValue fb (c_big c) v) \<Longrightarrow>
   decode_value c (the (value_type_of (bv_typ v))) depth off
   = Inr (as_gvalue v, off + length (writeValue fb (c_big c) v))"
proof (induction v arbitrary: depth off)
  case (Val ty u i f b s et es raw isRaw)
  from Val.prems(1) obtain vt where vt: "value_type_of ty = Some vt" and raw: "\<not> isRaw"
    by (auto split: option.splits)
  note u = uints_here [OF refl, of c]
  show ?case
  proof (cases "vt = ValueArray")
    case True
    have nine: "ty = 9" using value_type_num_of [OF vt] True by simp
    have d: "Suc (depth + fold max (map nest es) 0) \<le> maxArrayDepth"
      using Val.prems(2) nine by simp
    have es: "list_all (\<lambda>e. bv_typ e = et) es" "list_all (val_ok fb) es"
      using Val.prems(1) vt True by simp_all
    obtain evt where evt: "value_type_of et = Some evt" using Val.prems(1) vt True by auto
    have "elems_back fb c (Suc depth) es"
      unfolding elems_back_def
    proof (intro ballI allI impI)
      fix e o1
      assume e: "e \<in> set es" "here c o1 (writeValue fb (c_big c) e)"
      have "Suc depth + nest e \<le> maxArrayDepth" using nest_elem [OF e(1)] d by simp
      then show "decode_value c (the (value_type_of (bv_typ e))) (Suc depth) o1
          = Inr (as_gvalue e, o1 + length (writeValue fb (c_big c) e))"
        using Val.IH [OF e(1)] e es(2) by (simp add: list_all_iff)
    qed
    from array_here [OF assms _ evt es this] d Val.prems(3) vt raw True
    show ?thesis by (simp add: decode_value.simps evt is_uint_type_def is_int_type_def is_float_type_def)
  next
    case False
    then show ?thesis using Val.prems(1,3) vt raw
      by (cases vt)
        (simp_all add: decode_value.simps u str_here is_uint_type_def is_int_type_def
          is_float_type_def sint_word_of_int ucast_back)
  qed
qed

section \<open>The tables\<close>

definition kv_entry_ok :: "float_bits \<Rightarrow> string \<times> bval \<Rightarrow> bool" where
  "kv_entry_ok fb e \<longleftrightarrow> val_ok fb (snd e) \<and> nest (snd e) \<le> maxArrayDepth"

lemma length_writeKV:
  assumes "kv_entry_ok fb e"
  shows "minKVBytes \<le> length (writeKV fb big e)"
proof -
  obtain vt where vt: "value_type_of (bv_typ (snd e)) = Some vt"
    using assms by (cases "snd e") (auto simp: kv_entry_ok_def split: option.splits)
  have "minWireSize vt \<le> length (writeValue fb big (snd e))"
    using assms by (intro writeValue_min vt) (simp add: kv_entry_ok_def)
  with minWireSize_pos [of vt] have "1 \<le> length (writeValue fb big (snd e))" by linarith
  then show ?thesis by (simp add: writeKV_def minKVBytes_def)
qed

lemma kv_step_here:
  assumes "c_arrayLimit c < 0" and "kv_entry_ok fb (k, v)"
    and h: "here c off (writeKV fb (c_big c) (k, v))"
  obtains vt o1 o2 where "str c off = Inr (k, o1)" and "read_value_type c o1 = Inr (vt, o2)"
    and "decode_value c vt 0 o2 = Inr (as_gvalue v, off + length (writeKV fb (c_big c) (k, v)))"
proof -
  have parts: "here c off (writeString (c_big c) k)"
    "here c (off + 8 + length k) (writeU32 (c_big c) (bv_typ v))"
    "here c (off + 8 + length k + 4) (writeValue fb (c_big c) v)"
    using h by (simp_all add: writeKV_def here_append ac_simps)
  obtain vt where vt: "value_type_of (bv_typ v) = Some vt"
    using assms(2) by (cases v) (auto simp: kv_entry_ok_def split: option.splits)
  show ?thesis
  proof (rule that)
    show "str c off = Inr (k, off + 8 + length k)" by (rule str_here [OF refl parts(1)])
    show "read_value_type c (off + 8 + length k) = Inr (vt, off + 8 + length k + 4)"
      by (rule value_type_here [OF refl parts(2) vt])
    show "decode_value c vt 0 (off + 8 + length k + 4)
        = Inr (as_gvalue v, off + length (writeKV fb (c_big c) (k, v)))"
      using value_here [OF assms(1) _ _ parts(3), of 0] assms(2) vt
      by (simp add: kv_entry_ok_def writeKV_def ac_simps)
  qed
qed

definition read_back :: "string \<times> bval \<Rightarrow> string \<times> gvalue" where
  "read_back e = (fst e, as_gvalue (snd e))"

lemma read_back_pair [simp]: "read_back (k, v) = (k, as_gvalue v)"
  by (simp add: read_back_def)

lemma kv_loop_here:
  assumes "c_arrayLimit c < 0"
  shows "list_all (kv_entry_ok fb) kvs \<Longrightarrow> distinct (map fst kvs) \<Longrightarrow> kv_ok kv \<Longrightarrow>
   set (map fst kvs) \<inter> set (map fst (kv_pairs kv)) = {} \<Longrightarrow>
   here c off (concat (map (writeKV fb (c_big c)) kvs)) \<Longrightarrow>
   \<exists>kv'. kv_loop c (length kvs) kv off
       = Inr (kv', off + length (concat (map (writeKV fb (c_big c)) kvs)))
     \<and> meta.add_all kv (map read_back kvs) = Some kv'
     \<and> kv_pairs kv' = kv_pairs kv @ map read_back kvs"
proof (induction kvs arbitrary: kv off)
  case (Cons e kvs)
  obtain k v where e: "e = (k, v)" by (cases e)
  let ?w = "writeKV fb (c_big c) (k, v)"
  have h: "here c off ?w" "here c (off + length ?w) (concat (map (writeKV fb (c_big c)) kvs))"
    using Cons.prems(5) by (simp_all add: here_append e)
  have ok: "kv_entry_ok fb (k, v)" using Cons.prems(1) e by simp
  from kv_step_here [OF assms ok h(1)] obtain vt o1 o2 where st:
    "str c off = Inr (k, o1)" "read_value_type c o1 = Inr (vt, o2)"
    "decode_value c vt 0 o2 = Inr (as_gvalue v, off + length ?w)" .
  have "kv_index kv k = None"
    using kv_index_None [OF Cons.prems(3), of k] Cons.prems(4) e by auto
  then obtain kv1 where kv1: "kv_add kv k (as_gvalue v) = Some kv1"
    and pairs: "kv_pairs kv1 = kv_pairs kv @ [(k, as_gvalue v)]" by (simp add: kv_add_def)
  have ok1: "kv_ok kv1" by (rule kv_add_ok [OF Cons.prems(3) kv1])
  have fresh: "set (map fst kvs) \<inter> set (map fst (kv_pairs kv1)) = {}"
    using Cons.prems(2,4) e pairs by auto
  have rest: "list_all (kv_entry_ok fb) kvs" "distinct (map fst kvs)"
    using Cons.prems(1,2) by simp_all
  from Cons.IH [OF rest ok1 fresh h(2)] obtain kv' where
    "kv_loop c (length kvs) kv1 (off + length ?w)
       = Inr (kv', off + length ?w + length (concat (map (writeKV fb (c_big c)) kvs)))"
    "meta.add_all kv1 (map read_back kvs) = Some kv'"
    "kv_pairs kv' = kv_pairs kv1 @ map read_back kvs"
    by blast
  then show ?case using st kv1 pairs by (simp add: e add.assoc)
qed simp

text \<open>The descriptor the parser gives for a tensor entry written at \<open>running\<close>.\<close>

definition entry_info :: "Prelude.u64 \<Rightarrow> tensor_entry \<Rightarrow> tensor_info" where
  "entry_info running t = \<lparr>ti_Name = te_name t, ti_Dims = te_dims t, ti_Type = te_typ t,
     ti_Offset = (if te_overrides t then te_offset t else running)\<rparr>"

fun entry_infos :: "Prelude.u64 \<Rightarrow> Prelude.u64 \<Rightarrow> tensor_entry list \<Rightarrow> tensor_info list" where
  "entry_infos align running [] = []"
| "entry_infos align running (t # ts) =
     entry_info running t # entry_infos align (running + b_padUp (bytesOf t) align) ts"

text \<open>Every product of the first dimensions is an \<open>int64\<close>, as the parser checks on the way.\<close>

definition dims_fit :: "nat \<Rightarrow> Prelude.u64 list \<Rightarrow> bool" where
  "dims_fit acc ds \<longleftrightarrow> list_all (\<lambda>d. unat d \<le> MaxInt64) ds
     \<and> (\<forall>i \<le> length ds. acc * prod_list (map unat (take i ds)) \<le> MaxInt64)"

definition entry_ok :: "tensor_entry \<Rightarrow> bool" where
  "entry_ok t \<longleftrightarrow> tensor_ok (entry_info 0 t) \<and> dims_fit 1 (te_dims t) \<and> \<not> te_overrides t"

lemma dims_fit_Cons:
  assumes "dims_fit acc (d # ds)"
  shows "unat d \<le> MaxInt64" and "acc * unat d \<le> MaxInt64" and "dims_fit (acc * unat d) ds"
proof -
  have *: "acc * prod_list (map unat (take i (d # ds))) \<le> MaxInt64" if "i \<le> Suc (length ds)" for i
    using assms that by (simp add: dims_fit_def)
  show "unat d \<le> MaxInt64" using assms by (simp add: dims_fit_def)
  show "acc * unat d \<le> MaxInt64" using * [of 1] by simp
  show "dims_fit (acc * unat d) ds"
    using assms * [of "Suc _"] by (auto simp: dims_fit_def mult.assoc)
qed

lemma dims_here:
  "dims_fit (unat el) ds \<Longrightarrow> here c off (concat (map (writeU64 (c_big c)) ds)) \<Longrightarrow>
   \<exists>el'. dims_loop c (length ds) el dims off = Inr ((el', dims @ ds), off + 8 * length ds)
      \<and> unat el' = unat el * prod_list (map unat ds)"
proof (induction ds arbitrary: el dims off)
  case (Cons d ds)
  note fit = dims_fit_Cons [OF Cons.prems(1)]
  have h: "here c off (writeU64 (c_big c) d)" "here c (off + 8) (concat (map (writeU64 (c_big c)) ds))"
    using Cons.prems(2) by (simp_all add: here_append)
  have m: "\<not> (fst (Mul64 el d) \<noteq> 0 \<or> unat (snd (Mul64 el d)) > MaxInt64)"
    and lo: "unat (snd (Mul64 el d)) = unat el * unat d"
    using Mul64_fits [of el d] fit(2) by linarith+
  have "dims_fit (unat (snd (Mul64 el d))) ds" using fit(3) lo by simp
  from Cons.IH [OF this h(2), of "dims @ [d]"] obtain el' where
    "dims_loop c (length ds) (snd (Mul64 el d)) (dims @ [d]) (off + 8)
       = Inr ((el', dims @ d # ds), off + 8 + 8 * length ds)"
    "unat el' = unat el * unat d * prod_list (map unat ds)" by (auto simp: lo)
  then show ?case using uints_here(4) [OF refl h(1)] fit(1) m
    by (auto simp: case_prod_unfold mult.assoc)
qed simp

lemma length_concat_u64 [simp]: "length (concat (map (writeU64 big) ds)) = 8 * length ds"
  by (induction ds) simp_all

lemma length_writeTensor:
  "length (writeTensor big running t) = 24 + length (te_name t) + 8 * length (te_dims t)"
  by (simp add: writeTensor_def)

lemma tensorInfo_here:
  assumes "entry_ok t" and h: "here c off (writeTensor (c_big c) running t)"
  shows "tensorInfo c off = Inr (entry_info running t, off + length (writeTensor (c_big c) running t))"
proof -
  let ?n = "length (te_name t)" and ?d = "length (te_dims t)"
  have ok: "tensor_ok (entry_info 0 t)" "dims_fit (unat (1 :: Prelude.u64)) (te_dims t)"
    "\<not> te_overrides t" using assms(1) by (simp_all add: entry_ok_def)
  have v: "ggml_valid (te_typ t)" and dims: "?d \<le> maxTensorDims"
    and blk: "te_dims t = [] \<or> unat (hd (te_dims t)) mod BlockSize (te_typ t) = 0"
    using ok(1) by (auto simp: tensor_ok_def entry_info_def)
  have parts: "here c off (writeString (c_big c) (te_name t))"
    "here c (off + 8 + ?n) (writeU32 (c_big c) (of_nat ?d))"
    "here c (off + 8 + ?n + 4) (concat (map (writeU64 (c_big c)) (te_dims t)))"
    "here c (off + 8 + ?n + 4 + 8 * ?d) (writeU32 (c_big c) (te_typ t))"
    "here c (off + 8 + ?n + 4 + 8 * ?d + 4) (writeU64 (c_big c) running)"
    using h ok(3) by (simp_all add: writeTensor_def here_append ac_simps)
  have nd: "unat (of_nat ?d :: Prelude.u32) = ?d"
    using dims by (simp add: unat_of_nat take_bit_eq_mod maxTensorDims_def)
  from dims_here [OF ok(2) parts(3), of "[]"] obtain el where
    el: "dims_loop c ?d 1 [] (off + 8 + ?n + 4) = Inr ((el, te_dims t), off + 8 + ?n + 4 + 8 * ?d)"
    "unat el = nelems (entry_info 0 t)" by (auto simp: nelems_def entry_info_def)
  let ?q = "el div of_nat (BlockSize (te_typ t))" and ?s = "of_nat (TypeSize (te_typ t)) :: Prelude.u64"
  have "unat ?q * unat ?s = nelems (entry_info 0 t) div BlockSize (te_typ t) * TypeSize (te_typ t)"
    by (simp only: unat_div unat_block [OF v] el(2))
  then have "unat ?q * unat ?s \<le> MaxInt64" using ok(1) by (simp add: tensor_ok_def entry_info_def)
  then have m: "\<not> (fst (Mul64 ?q ?s) \<noteq> 0 \<or> unat (snd (Mul64 ?q ?s)) > MaxInt64)"
    using Mul64_fits(1) [of ?q ?s] by linarith
  show ?thesis
    using str_here [OF refl parts(1)] uints_here(3) [OF refl parts(2)] nd dims el(1)
      uints_here(3) [OF refl parts(4)] v blk m uints_here(4) [OF refl parts(5)] ok(3)
    by (simp add: tensorInfo_def case_prod_unfold length_writeTensor entry_info_def ac_simps)
qed

lemma tensor_loop_here:
  "list_all entry_ok ts \<Longrightarrow> distinct (map te_name ts) \<Longrightarrow> seen \<inter> set (map te_name ts) = {} \<Longrightarrow>
   here c off (writeTensors (c_big c) align running ts) \<Longrightarrow>
   tensor_loop c (length ts) seen acc off
   = Inr (acc @ entry_infos align running ts, off + length (writeTensors (c_big c) align running ts))"
proof (induction ts arbitrary: seen running acc off)
  case (Cons t ts)
  have h: "here c off (writeTensor (c_big c) running t)"
    "here c (off + length (writeTensor (c_big c) running t))
       (writeTensors (c_big c) align (running + b_padUp (bytesOf t) align) ts)"
    using Cons.prems(4) by (simp_all add: here_append)
  have "tensorInfo c off = Inr (entry_info running t, off + length (writeTensor (c_big c) running t))"
    using Cons.prems(1) h(1) by (intro tensorInfo_here) simp_all
  moreover have "insert (te_name t) seen \<inter> set (map te_name ts) = {}"
    using Cons.prems(2,3) by auto
  ultimately show ?case
    using Cons.IH [OF _ _ _ h(2), of "insert (te_name t) seen" "acc @ [entry_info running t]"] Cons.prems
    by (simp add: entry_info_def add.assoc)
qed simp

section \<open>The header\<close>

lemma version_bytes:
  fixes big :: bool
  assumes "v = 2 \<or> v = 3"
  defines "w \<equiv> of_nat (horner_sum unat 256 (writeU32 big v)) :: Prelude.u32"
  shows "(and w 0xFFFF = 0) = big" and "(if big then ReverseBytes32 w else w) = v"
proof -
  have "list_all (\<lambda>v :: Prelude.u32. list_all (\<lambda>big.
     (and (of_nat (horner_sum unat 256 (writeU32 big v)) :: Prelude.u32) 0xFFFF = 0) = big
     \<and> (if big then ReverseBytes32 (of_nat (horner_sum unat 256 (writeU32 big v)))
        else of_nat (horner_sum unat 256 (writeU32 big v))) = v) [False, True]) [2, 3]"
    by code_simp
  then show "(and w 0xFFFF = 0) = big" "(if big then ReverseBytes32 w else w) = v"
    using assms(1) unfolding w_def by (cases big; auto)+
qed

lemma version_here:
  assumes "\<not> c_big c" and "v = 2 \<or> v = 3" and "here c off (writeU32 big v)"
  shows "read_version c off = Inr ((v, big), off + 4)"
proof -
  have "u32 c off = Inr (of_nat (horner_sum unat 256 (writeU32 big v)), off + 4)"
    using read_here [OF assms(3), of 4] assms(1) by (simp add: u32_def uint_of_bytes_def)
  then show ?thesis using version_bytes [OF assms(2), of big] assms(2)
    by (auto simp: read_version_def Let_def)
qed

definition data_of :: "nat \<Rightarrow> tensor_entry list \<Rightarrow> nat" where
  "data_of a ts = sum_list (map (\<lambda>t. pad a (unat (bytesOf t))) ts)"

lemma b_padUp_pow2:
  assumes "k < 64" and "unat n + 2 ^ k - 1 < 2 ^ 64"
  shows "b_padUp n (2 ^ k) = of_nat (pad (2 ^ k) (unat n))"
proof -
  have pos: "(2 ^ k :: Prelude.u64) \<noteq> 0"
    using unat_pow2 [OF assms(1)] by (metis power_not_zero unat_0 zero_neq_numeral)
  have "unat n + 2 ^ k - 1 = unat n + (2 ^ k - 1)" by simp
  moreover have "unat (2 ^ k - 1 :: Prelude.u64) = 2 ^ k - 1"
    by (simp add: unat_minus_one [OF pos] unat_pow2 [OF assms(1)])
  ultimately have "unat (n + (2 ^ k - 1)) = unat n + 2 ^ k - 1"
    using assms(2) by (subst unat_add_no_carry) simp_all
  then have s: "unat (n + 2 ^ k - 1) = unat n + 2 ^ k - 1" by (simp add: algebra_simps)
  have "(n + 2 ^ k - 1) div 2 ^ k = of_nat (unat ((n + 2 ^ k - 1) div 2 ^ k))" by simp
  also have "\<dots> = of_nat ((unat n + 2 ^ k - 1) div 2 ^ k)"
    by (simp only: unat_div s unat_pow2 [OF assms(1)])
  finally show ?thesis using pos by (simp add: b_padUp_def pad_def mult.commute)
qed

lemma Bytes_entry: "Bytes (entry_info running t) = bytesOf t"
  by (simp add: Bytes_def bytesOf_def entry_info_def Elements_def split: option.split)

lemma entry_offset: "\<not> te_overrides t \<Longrightarrow> ti_Offset (entry_info running t) = running"
  by (simp add: entry_info_def)

lemma pad_fits:
  assumes "k < 64" and "pad (2 ^ k) n \<le> MaxInt64"
  shows "n + 2 ^ k - 1 < 2 ^ 64"
proof -
  have "n \<le> pad (2 ^ k) n" by (rule pad_props(1)) simp
  moreover have "(2::nat) ^ k \<le> 2 ^ 63" using assms(1) by (intro power_increasing) simp_all
  ultimately show ?thesis using assms(2) by (simp add: MaxInt64_def)
qed

lemma layout_here:
  "k < 64 \<Longrightarrow> list_all entry_ok ts \<Longrightarrow> unat running + data_of (2 ^ k) ts \<le> MaxInt64 \<Longrightarrow>
   layout_loop (2 ^ k) (entry_infos (2 ^ k) running ts) running
   = Inr (fold (\<lambda>t running. running + b_padUp (bytesOf t) (2 ^ k)) ts running)"
proof (induction ts arbitrary: running)
  case (Cons t ts)
  let ?p = "pad (2 ^ k) (unat (bytesOf t))"
  have p: "?p \<le> MaxInt64" "unat running + ?p + data_of (2 ^ k) ts \<le> MaxInt64"
    using Cons.prems(3) by (simp_all add: data_of_def)
  note fits = pad_fits [OF Cons.prems(1) p(1)]
  have up: "unat (of_nat ?p :: Prelude.u64) = ?p" by (rule unat_of_nat_small [OF p(1)])
  have sum: "unat (running + of_nat ?p) = unat running + ?p"
    using p by (subst unat_add_no_carry) (simp_all add: up MaxInt64_def)
  have no: "\<not> te_overrides t" using Cons.prems(2) by (simp add: entry_ok_def)
  have "unat (running + of_nat ?p) + data_of (2 ^ k) ts \<le> MaxInt64" using p sum by simp
  from Cons.IH [OF Cons.prems(1) _ this] Cons.prems(2)
  have "layout_loop (2 ^ k) (entry_infos (2 ^ k) (running + of_nat ?p) ts) (running + of_nat ?p)
      = Inr (fold (\<lambda>t running. running + b_padUp (bytesOf t) (2 ^ k)) ts (running + of_nat ?p))"
    by simp
  then show ?case
    using no fits p up sum
    by (simp add: Bytes_entry padUp_pow2 [OF Cons.prems(1)] b_padUp_pow2 [OF Cons.prems(1)]
        Add64_def MaxInt64_def entry_offset)
qed simp

definition kv_of :: "builder \<Rightarrow> kv_table option" where
  "kv_of b = meta.add_all empty_kv (map read_back (b_kv b))"

definition builder_ok :: "float_bits \<Rightarrow> builder \<Rightarrow> bool" where
  "builder_ok fb b \<longleftrightarrow> (b_version b = 2 \<or> b_version b = 3)
     \<and> list_all (kv_entry_ok fb) (b_kv b) \<and> distinct (map fst (b_kv b))
     \<and> list_all entry_ok (b_tensors b) \<and> distinct (map te_name (b_tensors b))
     \<and> (case kv_of b of None \<Rightarrow> False | Some kv \<Rightarrow> alignment_of kv = Inr (b_alignment b))
     \<and> data_of (unat (b_alignment b)) (b_tensors b) \<le> MaxInt64
     \<and> pad (unat (b_alignment b)) (length (Header fb b)) \<le> MaxInt64"

lemma here_big [simp]: "here (c\<lparr>c_big := big\<rparr>) off bs = here c off bs"
  by (simp add: here_def cursor_ok_def)

lemma length_writeTensors:
  "length ts * minTensorInfoBytes \<le> length (writeTensors big align running ts)"
proof (induction ts arbitrary: running)
  case (Cons t ts)
  show ?case using Cons.IH [of "running + b_padUp (bytesOf t) align"]
    by (simp add: length_writeTensor minTensorInfoBytes_def)
qed simp

definition table_bytes :: "float_bits \<Rightarrow> bool \<Rightarrow> builder \<Rightarrow> Prelude.u8 list" where
  "table_bytes fb big b = writeU64 big (of_nat (length (b_tensors b)))
     @ writeU64 big (of_nat (length (b_kv b))) @ concat (map (writeKV fb big) (b_kv b))
     @ writeTensors big (b_alignment b) 0 (b_tensors b)"

lemma Header_tables:
  "Header fb b = magic @ writeU32 (b_bigEndian b) (b_version b) @ table_bytes fb (b_bigEndian b) b"
  by (simp add: Header_def table_bytes_def Let_def)

lemma read_tables_here:
  assumes "builder_ok fb b" and "c_arrayLimit c < 0"
    and h: "here c off (table_bytes fb (c_big c) b)"
  shows "\<exists>kv. read_tables c off = Inr ((of_nat (length (b_tensors b)), kv,
       entry_infos (b_alignment b) 0 (b_tensors b)), off + length (table_bytes fb (c_big c) b))
     \<and> kv_of b = Some kv \<and> kv_pairs kv = map read_back (b_kv b)"
proof -
  let ?kvs = "concat (map (writeKV fb (c_big c)) (b_kv b))"
  let ?ts = "writeTensors (c_big c) (b_alignment b) 0 (b_tensors b)"
  have parts: "here c off (writeU64 (c_big c) (of_nat (length (b_tensors b))))"
    "here c (off + 8) (writeU64 (c_big c) (of_nat (length (b_kv b))))"
    "here c (off + 16) ?kvs" "here c (off + 16 + length ?kvs) ?ts" "here c (off + 16) (?kvs @ ?ts)"
    using h by (simp_all add: table_bytes_def here_append ac_simps)
  have ok: "list_all (kv_entry_ok fb) (b_kv b)" "distinct (map fst (b_kv b))"
    "list_all entry_ok (b_tensors b)" "distinct (map te_name (b_tensors b))"
    using assms(1) by (simp_all add: builder_ok_def)
  have room: "length ?kvs + length ?ts \<le> remaining c (off + 16)" "length ?kvs + length ?ts \<le> MaxInt64"
    using here_room [OF parts(5)] parts(5) by (auto simp: here_def cursor_ok_def)
  have "length (b_kv b) * minKVBytes \<le> length ?kvs"
    by (rule concat_min) (use ok(1) in \<open>auto simp: list_all_iff intro: length_writeKV\<close>)
  then have kv: "length (b_kv b) \<le> remaining c (off + 16) div minKVBytes"
    "length (b_kv b) \<le> MaxInt64" using room
    by (auto simp: less_eq_div_iff_mult_less_eq minKVBytes_def)
  have "length (b_tensors b) * minTensorInfoBytes \<le> length ?ts" by (rule length_writeTensors)
  then have ts: "length (b_tensors b) \<le> remaining c (off + 16) div minTensorInfoBytes"
    "length (b_tensors b) \<le> MaxInt64" using room
    by (auto simp: less_eq_div_iff_mult_less_eq minTensorInfoBytes_def)
  have counts: "read_counts c off
      = Inr ((of_nat (length (b_tensors b)), of_nat (length (b_kv b))), off + 16)"
    using uints_here(4) [OF refl parts(1)] uints_here(4) [OF refl parts(2)] kv ts
    by (simp add: read_counts_def unat_of_nat_small ac_simps)
  obtain kv where kvl: "kv_loop c (length (b_kv b)) empty_kv (off + 16) = Inr (kv, off + 16 + length ?kvs)"
    "meta.add_all empty_kv (map read_back (b_kv b)) = Some kv"
    "kv_pairs kv = kv_pairs empty_kv @ map read_back (b_kv b)"
    using kv_loop_here [OF assms(2) ok(1,2) empty_kv_ok _ parts(3)] by (auto simp: empty_kv_def)
  moreover have "tensor_loop c (length (b_tensors b)) {} [] (off + 16 + length ?kvs)
      = Inr (entry_infos (b_alignment b) 0 (b_tensors b), off + 16 + length ?kvs + length ?ts)"
    using tensor_loop_here [OF ok(3,4) _ parts(4), of "{}" "[]"] by simp
  ultimately show ?thesis using counts kv ts
    by (simp add: read_tables_def unat_of_nat_small kv_of_def empty_kv_def table_bytes_def)
qed

text \<open>
  C9. The parser reads back what the writer wrote. A header built from values that fit their
  types, distinct keys and names and tensors that fit, followed by anything, parses to the version,
  the byte order, the pairs in the order they were set, and the tensors at consecutive offsets,
  with the alignment and the data size the builder computed and exactly its length as the header.
\<close>

theorem parse_reads_back_what_was_built:
  assumes "builder_ok fb b" and "op_arrayLimit opts < 0"
    and "int (length (Header fb b)) \<le> n" and "n \<le> int MaxInt64"
    and "op_maxHeaderBytes opts \<le> 0 \<or> int (length (Header fb b)) \<le> op_maxHeaderBytes opts"
  shows "\<exists>f. Parse opts (Some (Header fb b @ rest)) n = Inr f
     \<and> f_Version f = b_version b \<and> f_BigEndian f = b_bigEndian b
     \<and> kv_pairs (f_KV f) = map read_back (b_kv b)
     \<and> f_Tensors f = entry_infos (b_alignment b) 0 (b_tensors b)
     \<and> f_Alignment f = b_alignment b \<and> f_DataSize f = b_DataSize b
     \<and> f_HeaderBytes f = length (Header fb b)"
proof -
  let ?c = "cursor_for opts (Header fb b @ rest) (nat n)"
  let ?big = "b_bigEndian b"
  have n: "0 \<le> n" "nat n \<le> MaxInt64" using assms(3,4) by linarith+
  have len4: "length magic = 4" by (simp add: magic_def)
  have "length (Header fb b) \<le> c_limit ?c"
    using assms(3,5) n(1) by (auto simp: cursor_for_def le_nat_iff)
  then have "here ?c 0 (Header fb b)"
    using cursor_for_ok [OF n(2), of opts] by (simp add: here_def) (simp add: cursor_for_def)
  then have parts: "here ?c 0 magic" "here ?c 4 (writeU32 ?big (b_version b))"
    "here ?c 8 (table_bytes fb ?big b)"
    by (simp_all add: Header_tables here_append len4)
  have v: "b_version b = 2 \<or> b_version b = 3" using assms(1) by (simp add: builder_ok_def)
  have "c_arrayLimit (?c\<lparr>c_big := ?big\<rparr>) < 0" using assms(2) by (simp add: cursor_for_def)
  from read_tables_here [OF assms(1) this, of 8] parts(3) obtain kv where
    tables: "read_tables (?c\<lparr>c_big := ?big\<rparr>) 8 = Inr ((of_nat (length (b_tensors b)), kv,
       entry_infos (b_alignment b) 0 (b_tensors b)), 8 + length (table_bytes fb ?big b))"
    and kv: "kv_of b = Some kv" "kv_pairs kv = map read_back (b_kv b)" by auto
  have "read_version ?c 4 = Inr ((b_version b, ?big), 8)"
    using version_here [OF _ v parts(2)] by (simp add: cursor_for_def)
  moreover have "read ?c 4 0 = Inr (magic, 4)" using read_here [OF parts(1) len4] by simp
  moreover have len: "length (Header fb b) = 8 + length (table_bytes fb ?big b)"
    by (simp add: Header_tables len4)
  ultimately have hd: "read_header ?c 0 = Inr (((b_version b, ?big), of_nat (length (b_tensors b)), kv,
       entry_infos (b_alignment b) 0 (b_tensors b)), length (Header fb b))"
    using tables by (simp add: read_header_def)
  have al: "alignment_of kv = Inr (b_alignment b)" using assms(1) kv(1) by (simp add: builder_ok_def)
  from alignment_pow2 [OF this] obtain k where k: "k < 64" "b_alignment b = 2 ^ k" by blast
  have a: "unat (b_alignment b) = 2 ^ k" using k by (simp add: unat_pow2)
  have lay: "layout_loop (2 ^ k) (entry_infos (2 ^ k) 0 (b_tensors b)) 0 = Inr (b_DataSize b)"
    using layout_here [OF k(1), of "b_tensors b" 0] assms(1) a
    by (simp add: builder_ok_def b_DataSize_def k(2))
  have p: "pad (2 ^ k) (length (Header fb b)) \<le> MaxInt64"
    using assms(1) a by (simp add: builder_ok_def)
  have "length (Header fb b) \<le> MaxInt64" using assms(3,4) by linarith
  then have hl: "unat (of_nat (length (Header fb b)) :: Prelude.u64) = length (Header fb b)"
    by (rule unat_of_nat_small)
  have "padUp (of_nat (length (Header fb b))) (2 ^ k)
      = Some (of_nat (pad (2 ^ k) (length (Header fb b))))"
    using pad_fits [OF k(1) p] by (simp add: padUp_pow2 [OF k(1)] hl)
  then have "\<exists>f. finish_header (nat n) ((b_version b, ?big), of_nat (length (b_tensors b)), kv,
       entry_infos (b_alignment b) 0 (b_tensors b)) (length (Header fb b)) = Inr f
     \<and> f_Version f = b_version b \<and> f_BigEndian f = ?big \<and> f_KV f = kv
     \<and> f_Tensors f = entry_infos (b_alignment b) 0 (b_tensors b)
     \<and> f_Alignment f = b_alignment b \<and> f_DataSize f = b_DataSize b
     \<and> f_HeaderBytes f = length (Header fb b)"
    using al lay unat_of_nat_small [OF p] p by (simp add: finish_header_eq k(2))
  then show ?thesis using hd n(1) kv(2) by (auto simp: Parse_def)
qed

end
