(* ===== verification/Gguf_Claims.thy ===== *)
theory Gguf_Claims
  imports Gguf_Elision Gguf_Roundtrip
begin

text \<open>
  The properties of the GGUF header parser and of the sizes computed from a parsed index.
\<close>

section \<open>How much of the file is looked at\<close>

lemma cursor_for_cut:
  "k \<le> n \<Longrightarrow> cut_at k (cursor_for opts bs n) = cursor_for opts (take k bs) k"
  by (auto simp: cut_at_def cursor_for_def)

lemma finish_size:
  "finish_header n h off = Inr f \<Longrightarrow> finish_header m h off = Inr (f\<lparr>f_FileSize := of_nat m\<rparr>)"
  by (cases h rule: header_cases) (auto simp: finish_header_eq)

lemma header_local:
  assumes "Parse opts (Some bs) n = Inr f" and "n \<le> int MaxInt64"
    and "take (f_HeaderBytes f) bs' = take (f_HeaderBytes f) bs"
  shows "Parse opts (Some bs') n = Inr f"
    and "int (f_HeaderBytes f) \<le> n"
    and "op_maxHeaderBytes opts > 0 \<longrightarrow> int (f_HeaderBytes f) \<le> op_maxHeaderBytes opts"
proof -
  from assms(1) obtain h where n: "0 \<le> n"
    and rd: "read_header (cursor_for opts bs (nat n)) 0 = Inr (h, f_HeaderBytes f)"
    and fin: "finish_header (nat n) h (f_HeaderBytes f) = Inr f"
    by (rule Parse_parts) auto
  have ok: "cursor_ok (cursor_for opts bs (nat n)) 0" using assms(2) by (intro cursor_for_ok) simp
  note r = readsD [OF reads_header ok rd]
  have "(cursor_for opts bs (nat n))\<lparr>c_bytes := bs'\<rparr> = cursor_for opts bs' (nat n)"
    by (simp add: cursor_for_def)
  then have "read_header (cursor_for opts bs' (nat n)) 0 = Inr (h, f_HeaderBytes f)"
    using r(3) [of bs'] assms(3) by (simp add: cursor_for_def)
  then show "Parse opts (Some bs') n = Inr f" using n fin by (simp add: Parse_def)
  show "int (f_HeaderBytes f) \<le> n"
    "op_maxHeaderBytes opts > 0 \<longrightarrow> int (f_HeaderBytes f) \<le> op_maxHeaderBytes opts"
    using r(2) n by (auto simp: cursor_ok_def cursor_for_def split: if_splits)
qed

text \<open>
  What the parser returns depends on the bytes of the header alone. Whatever follows them,
  a file that agrees with a parsed one up to the end of its header parses to the same result;
  and the header ends inside the file and inside the configured bound. This is what lets a
  remote reader fetch only a prefix.
\<close>

theorem header_read_is_local:
  assumes "Parse opts (Some bs) n = Inr f" and "n \<le> int MaxInt64"
    and "take (f_HeaderBytes f) bs' = take (f_HeaderBytes f) bs"
  shows "Parse opts (Some bs') n = Inr f \<and> int (f_HeaderBytes f) \<le> n
     \<and> (op_maxHeaderBytes opts > 0 \<longrightarrow> int (f_HeaderBytes f) \<le> op_maxHeaderBytes opts)"
  by (intro conjI header_local [OF assms])

text \<open>
  C14. An interrupted download is told from a corrupt file: a file that parses, cut anywhere
  before the end of its header, fails with \<open>ErrTruncated\<close> and with nothing else.
\<close>

theorem every_strict_prefix_is_truncated:
  assumes "Parse opts (Some bs) n = Inr f" and "n \<le> int MaxInt64" and "k < f_HeaderBytes f"
  shows "Parse opts (Some (take k bs)) (int k) = Inl ErrTruncated"
proof -
  from assms(1) obtain h where n: "0 \<le> n"
    and rd: "read_header (cursor_for opts bs (nat n)) 0 = Inr (h, f_HeaderBytes f)"
    by (rule Parse_parts) auto
  have ok: "cursor_ok (cursor_for opts bs (nat n)) 0" using assms(2) by (intro cursor_for_ok) simp
  have "f_HeaderBytes f \<le> nat n"
    using readsD(2) [OF reads_header ok rd] by (simp add: cursor_ok_def cursor_for_def)
  then have "k \<le> nat n" using assms(3) by simp
  from readsD(4) [OF reads_header ok rd, of k] assms(3) this
  show ?thesis by (simp add: cursor_for_cut Parse_def)
qed

section \<open>The tensor index\<close>

lemma index_consistent:
  assumes "Parse opts r n = Inr f" and "n \<le> int MaxInt64"
  defines "a \<equiv> unat (f_Alignment f)" and "ts \<equiv> f_Tensors f"
  shows "kv_ok (f_KV f)" and "distinct (map ti_Name ts)" and "length ts = unat (f_TensorCount f)"
    and "\<exists>k < 64. a = 2 ^ k"
    and "\<forall>t \<in> set ts. tensor_ok t
           \<and> unat (Bytes t) = nelems t div BlockSize (ti_Type t) * TypeSize (ti_Type t)
           \<and> (ti_Dims t \<noteq> [] \<longrightarrow> BlockSize (ti_Type t) dvd nelems t)"
    and "\<forall>i < length ts. unat (ti_Offset (ts ! i)) = data_before a ts i"
    and "unat (f_DataSize f) = data_before a ts (length ts)" and "unat (f_DataSize f) \<le> MaxInt64"
    and "unat (f_DataOffset f) = pad a (f_HeaderBytes f)"
proof -
  from assms(1) obtain bs h where n: "0 \<le> n"
    and rd: "read_header (cursor_for opts bs (nat n)) 0 = Inr (h, f_HeaderBytes f)"
    and fin: "finish_header (nat n) h (f_HeaderBytes f) = Inr f"
    by (rule Parse_parts) auto
  have ok: "cursor_ok (cursor_for opts bs (nat n)) 0" using assms(2) by (intro cursor_for_ok) simp
  have "f_HeaderBytes f \<le> MaxInt64"
    using readsD(2) [OF reads_header ok rd] by (simp add: cursor_ok_def)
  from fin this obtain version big k where
    h: "h = ((version, big), f_TensorCount f, f_KV f, f_Tensors f)" and
    k: "k < 64" "f_Alignment f = 2 ^ k" and off: "unat (f_DataOffset f) = pad (2 ^ k) (f_HeaderBytes f)"
    and lay: "layout_loop (2 ^ k) (f_Tensors f) 0 = Inr (f_DataSize f)"
    by (rule finish_header_ok)
  have a: "a = 2 ^ k" using k by (simp add: a_def unat_pow2)
  note tables = read_tables_ok [OF rd [unfolded h]]
  show "kv_ok (f_KV f)" "distinct (map ti_Name ts)" "length ts = unat (f_TensorCount f)"
    using tables by (simp_all add: ts_def)
  show "\<exists>k < 64. a = 2 ^ k" using a k by blast
  show "\<forall>t \<in> set ts. tensor_ok t
           \<and> unat (Bytes t) = nelems t div BlockSize (ti_Type t) * TypeSize (ti_Type t)
           \<and> (ti_Dims t \<noteq> [] \<longrightarrow> BlockSize (ti_Type t) dvd nelems t)"
    using tables(3) by (auto simp: ts_def list_all_iff unat_Bytes nelems_blocks)
  show "\<forall>i < length ts. unat (ti_Offset (ts ! i)) = data_before a ts i"
    "unat (f_DataSize f) = data_before a ts (length ts)" "unat (f_DataSize f) \<le> MaxInt64"
    using layout_loop_ok [OF lay k(1)] by (simp_all add: ts_def a)
  show "unat (f_DataOffset f) = pad a (f_HeaderBytes f)" by (simp add: off a)
qed

text \<open>
  C12. A tensor index that parsed is consistent. Tensor names and metadata keys occur once; the
  alignment is a power of two; no size wraps, a tensor of at least one dimension is a whole
  number of quantization blocks, and its size is exactly that many blocks; each tensor starts
  where the one before it ends, padded to the alignment; and the data starts at the first
  multiple of the alignment after the header.
\<close>

theorem parsed_index_is_consistent:
  assumes "Parse opts r n = Inr f" and "n \<le> int MaxInt64"
  defines "a \<equiv> unat (f_Alignment f)" and "ts \<equiv> f_Tensors f"
  shows "kv_ok (f_KV f) \<and> distinct (map ti_Name ts) \<and> length ts = unat (f_TensorCount f)
    \<and> (\<exists>k < 64. a = 2 ^ k)
    \<and> (\<forall>t \<in> set ts. tensor_ok t
           \<and> unat (Bytes t) = nelems t div BlockSize (ti_Type t) * TypeSize (ti_Type t)
           \<and> (ti_Dims t \<noteq> [] \<longrightarrow> BlockSize (ti_Type t) dvd nelems t))
    \<and> (\<forall>i < length ts. unat (ti_Offset (ts ! i)) = data_before a ts i)
    \<and> unat (f_DataSize f) = data_before a ts (length ts) \<and> unat (f_DataSize f) \<le> MaxInt64
    \<and> unat (f_DataOffset f) = pad a (f_HeaderBytes f)"
  unfolding a_def ts_def by (intro conjI index_consistent [OF assms(1,2)])

section \<open>The buckets\<close>

lemma unat_sum_list:
  fixes ws :: "u64 list"
  shows "sum_list (map unat ws) < 2 ^ 64 \<Longrightarrow> unat (sum_list ws) = sum_list (map unat ws)"
  by (induction ws) (simp_all add: unat_add_no_carry)

lemma bytes_le_data:
  "0 < a \<Longrightarrow> sum_list (map (\<lambda>t. unat (Bytes t)) ts) \<le> data_before a ts (length ts)"
  by (induction ts) (auto simp: data_before_def intro!: add_mono pad_props(1))

lemma sum_list_filter_split:
  "sum_list (map g xs) = sum_list (map g (filter P xs)) + sum_list (map g (filter (\<lambda>x. \<not> P x) xs))"
  for g :: "'a \<Rightarrow> nat"
  by (induction xs) auto

lemma sum_list_filter_le: "sum_list (map g (filter P xs)) \<le> sum_list (map (g :: 'a \<Rightarrow> nat) xs)"
  by (induction xs) auto

lemma sum_by_key:
  fixes g :: "'a \<Rightarrow> nat" and key :: "'a \<Rightarrow> nat option"
  assumes "\<And>x i. x \<in> set xs \<Longrightarrow> key x = Some i \<Longrightarrow> i < n"
  shows "(\<Sum>i<n. sum_list (map g (filter (\<lambda>x. key x = Some i) xs)))
       = sum_list (map g (filter (\<lambda>x. key x \<noteq> None) xs))"
  using assms
proof (induction xs)
  case (Cons x xs)
  have IH: "(\<Sum>i<n. sum_list (map g (filter (\<lambda>x. key x = Some i) xs)))
       = sum_list (map g (filter (\<lambda>x. key x \<noteq> None) xs))"
    by (rule Cons.IH) (use Cons.prems in auto)
  show ?case
  proof (cases "key x")
    case None
    then show ?thesis using IH by simp
  next
    case (Some j)
    have "j < n" using Cons.prems [of x j] Some by simp
    have "(\<Sum>i<n. sum_list (map g (filter (\<lambda>x. key x = Some i) (x # xs))))
        = (\<Sum>i<n. (if i = j then g x else 0) + sum_list (map g (filter (\<lambda>x. key x = Some i) xs)))"
      using Some by (intro sum.cong) auto
    also have "\<dots> = g x + (\<Sum>i<n. sum_list (map g (filter (\<lambda>x. key x = Some i) xs)))"
      using \<open>j < n\<close> unfolding sum.distrib by (subst sum.delta) simp_all
    finally show ?thesis using IH Some by simp
  qed
qed simp

lemma sizes_account:
  assumes "Parse opts r n = Inr f" and "n \<le> int MaxInt64"
  defines "ts \<equiv> f_Tensors f" and "s \<equiv> Sizes (f_Tensors f)"
  shows "unat (sz_Total s) = (\<Sum>t\<leftarrow>ts. unat (Bytes t))"
    and "\<forall>i < length (sz_Layer s). unat (sz_Layer s ! i)
           = (\<Sum>t\<leftarrow>filter (\<lambda>t. LayerIndex t = Some i) ts. unat (Bytes t))"
    and "unat (sz_Total s) = (\<Sum>i < length (sz_Layer s). unat (sz_Layer s ! i)) + unat (sz_Other s)"
    and "unat (sz_Total s) \<le> unat (f_DataSize f)"
proof -
  note f = index_consistent [OF assms(1,2)]
  define b where "b = (\<lambda>t. unat (Bytes t))"
  have le: "sum_list (map b ts) \<le> unat (f_DataSize f)"
    using f(4,7) bytes_le_data [of "unat (f_Alignment f)" ts] by (auto simp: b_def ts_def)
  then have small: "sum_list (map b (filter P ts)) < 2 ^ 64" for P
    using f(8) sum_list_filter_le [of b P ts] by (simp add: MaxInt64_def)
  have word: "unat (sum_list (map Bytes (filter P ts))) = sum_list (map b (filter P ts))" for P
    using unat_sum_list [of "map Bytes (filter P ts)"] small [of P] by (simp add: b_def comp_def)
  define m where "m = max_layer ts"
  define s0 where "s0 = \<lparr>sa_total = 0, sa_layer = (if m \<ge> 0 then replicate (nat m + 1) 0 else []),
      sa_layer_total = 0, sa_by_type = (\<lambda>_. None)\<rparr>"
  have s: "sz_Total s = sum_list (map Bytes ts)"
    "sz_Layer s = sa_layer (fold size_step ts s0)"
    "sz_Other s = sum_list (map Bytes ts) - sum_list (map Bytes (filter (\<lambda>t. LayerIndex t \<noteq> None) ts))"
    by (simp_all add: s_def Sizes_def Let_def s0_def m_def ts_def sa_total_fold sa_layer_total_fold)
  show total: "unat (sz_Total s) = (\<Sum>t\<leftarrow>ts. unat (Bytes t))"
    using word [of "\<lambda>_. True"] by (simp add: s b_def)
  have len: "length (sz_Layer s) = (if m \<ge> 0 then nat m + 1 else 0)"
    by (simp add: s sa_layer_length s0_def)
  have layer: "unat (sz_Layer s ! i) = sum_list (map b (filter (\<lambda>t. LayerIndex t = Some i) ts))"
    if "i < length (sz_Layer s)" for i
  proof -
    from that have "i < length (sa_layer s0)" by (simp add: s sa_layer_length)
    moreover from this have "sa_layer s0 ! i = 0" by (simp add: s0_def del: replicate_Suc split: if_splits)
    ultimately show ?thesis using sa_layer_fold [of i s0 ts] by (simp add: s(2) word)
  qed
  then show "\<forall>i < length (sz_Layer s). unat (sz_Layer s ! i)
           = (\<Sum>t\<leftarrow>filter (\<lambda>t. LayerIndex t = Some i) ts. unat (Bytes t))"
    by (simp add: b_def)
  have "i < length (sz_Layer s)" if "t \<in> set ts" "LayerIndex t = Some i" for t i
    using max_layer_bound [OF that] len by (auto simp: m_def)
  then have "(\<Sum>i < length (sz_Layer s). unat (sz_Layer s ! i))
      = sum_list (map b (filter (\<lambda>t. LayerIndex t \<noteq> None) ts))"
    using layer by (simp add: sum_by_key)
  moreover have "unat (sz_Other s) = sum_list (map b ts) - sum_list (map b (filter (\<lambda>t. LayerIndex t \<noteq> None) ts))"
    unfolding s(3)
    by (subst unat_sub) (simp_all add: word_le_nat_alt word [of "\<lambda>_. True", simplified] word
        sum_list_filter_le)
  ultimately show "unat (sz_Total s) = (\<Sum>i < length (sz_Layer s). unat (sz_Layer s ! i)) + unat (sz_Other s)"
    using total sum_list_filter_le [of b "\<lambda>t. LayerIndex t \<noteq> None" ts] by (simp add: b_def)
  show "unat (sz_Total s) \<le> unat (f_DataSize f)" using le total by (simp add: b_def)
qed

text \<open>
  The buckets of a parsed file lose nothing. The total is the sum of the tensors' sizes as
  numbers, every block's bucket is the sum over the tensors of that block, and the blocks and the
  remainder add up to the total; no bucket wraps, and the total is at most the length of the data.
\<close>

theorem sizes_account_for_every_byte:
  assumes "Parse opts r n = Inr f" and "n \<le> int MaxInt64"
  defines "ts \<equiv> f_Tensors f" and "s \<equiv> Sizes (f_Tensors f)"
  shows "unat (sz_Total s) = (\<Sum>t\<leftarrow>ts. unat (Bytes t))
    \<and> (\<forall>i < length (sz_Layer s). unat (sz_Layer s ! i)
           = (\<Sum>t\<leftarrow>filter (\<lambda>t. LayerIndex t = Some i) ts. unat (Bytes t)))
    \<and> unat (sz_Total s) = (\<Sum>i < length (sz_Layer s). unat (sz_Layer s ! i)) + unat (sz_Other s)
    \<and> unat (sz_Total s) \<le> unat (f_DataSize f)"
  unfolding s_def ts_def by (intro conjI sizes_account [OF assms(1,2)])

section \<open>Completeness\<close>

lemma finish_fields:
  assumes "finish_header n h off = Inr f"
  shows "f_FileSize f = of_nat n" and "unat (f_DataOffset f) \<le> MaxInt64"
proof -
  obtain version big tc kv ts where h: "h = ((version, big), tc, kv, ts)" by (rule header_cases)
  show "f_FileSize f = of_nat n" "unat (f_DataOffset f) \<le> MaxInt64"
    using assms unfolding h finish_header_eq by auto
qed

lemma sint_i64:
  fixes x :: nat
  shows "x \<le> MaxInt64 \<Longrightarrow> sint (of_nat x :: u64) = int x"
    and "MaxInt64 < x \<Longrightarrow> x < 2 ^ 64 \<Longrightarrow> sint (of_nat x :: u64) < 0"
proof -
  show "x \<le> MaxInt64 \<Longrightarrow> sint (of_nat x :: u64) = int x"
    by (simp add: signed_of_nat signed_take_bit_int_eq_self MaxInt64_def)
  assume x: "MaxInt64 < x" "x < 2 ^ 64"
  then have "x div 2 ^ 63 = 1" by (intro div_nat_eqI) (simp_all add: MaxInt64_def)
  then have "int x div 2 ^ 63 = 1" by (metis of_nat_1 of_nat_numeral of_nat_power zdiv_int)
  then have "bit (int x) 63" by (simp add: bit_iff_odd)
  then show "sint (of_nat x :: u64) < 0" by (simp add: signed_of_nat)
qed

text \<open>
  What \<open>Complete\<close> answers. For a file whose data ends within an \<open>int64\<close> it says whether the
  file is long enough. A header may describe data that ends past that, since the offset and the
  size are only checked apart; their sum then wraps to a negative number and every such file,
  down to the bare header, is called complete.
\<close>

theorem complete_unless_the_end_wraps:
  assumes "Parse opts r n = Inr f" and "n \<le> int MaxInt64"
  shows "Complete f \<longleftrightarrow>
    int (unat (f_DataOffset f) + unat (f_DataSize f)) \<le> n
    \<or> unat (f_DataOffset f) + unat (f_DataSize f) > MaxInt64"
proof -
  from assms(1) obtain bs h where n: "0 \<le> n"
    and rd: "read_header (cursor_for opts bs (nat n)) 0 = Inr (h, f_HeaderBytes f)"
    and fin: "finish_header (nat n) h (f_HeaderBytes f) = Inr f"
    by (rule Parse_parts) auto
  note size = finish_fields(1) [OF fin] and off = finish_fields(2) [OF fin]
  have data: "unat (f_DataSize f) \<le> MaxInt64" using index_consistent(8) [OF assms] by simp
  let ?e = "unat (f_DataOffset f) + unat (f_DataSize f)"
  have e: "f_DataOffset f + f_DataSize f = of_nat ?e" by simp
  have fs: "sint (f_FileSize f) = n" using sint_i64(1) [of "nat n"] size assms(2) n by simp
  show ?thesis
  proof (cases "?e \<le> MaxInt64")
    case True
    then show ?thesis unfolding Complete_def fs e by (simp add: sint_i64(1) del: of_nat_add)
  next
    case False
    moreover have "?e < 2 ^ 64" using off data by (simp add: MaxInt64_def)
    ultimately have "sint (of_nat ?e :: u64) < 0" by (intro sint_i64(2)) simp_all
    then show ?thesis unfolding Complete_def fs e using False n by simp
  qed
qed

section \<open>The array limit\<close>

lemma alignment_of_uint:
  "alignment_of kv = (case map_option AsUint (kv_Get kv KeyAlignment) of None \<Rightarrow> Inr DefaultAlignment
     | Some None \<Rightarrow> Inl ErrCorrupt
     | Some (Some a) \<Rightarrow> if a = 0 \<or> and a (a - 1) \<noteq> 0 then Inl ErrCorrupt else Inr a)"
  by (simp add: alignment_of_def split: option.split)

lemma finish_erase:
  assumes "kv_ok kv" and "kv_ok kv'" and "erase_kv kv' = erase_kv kv"
  shows "map_sum id erase_file (finish_header n ((version, big), tc, kv', ts) off)
       = map_sum id erase_file (finish_header n ((version, big), tc, kv, ts) off)"
proof -
  have "map_option erase (kv_Get kv' KeyAlignment) = map_option erase (kv_Get kv KeyAlignment)"
    using kv_Get_erase [OF assms(1)] kv_Get_erase [OF assms(2)] assms(3) by metis
  moreover have "map_option AsUint (map_option erase x) = map_option AsUint x" for x
    by (cases x) simp_all
  ultimately have "map_option AsUint (kv_Get kv' KeyAlignment)
      = map_option AsUint (kv_Get kv KeyAlignment)" by metis
  then have same: "alignment_of kv' = alignment_of kv" by (simp add: alignment_of_uint)
  show ?thesis
  proof (cases "alignment_of kv")
    case (Inr align)
    then show ?thesis
      by (cases "padUp (of_nat off) align"; cases "layout_loop align ts 0")
        (simp_all add: finish_header_def same erase_file_def assms(3))
  qed (simp add: finish_header_def same)
qed

text \<open>
  \<open>WithArrayLimit\<close> decides which array elements are kept and nothing else. On an object that
  is all there, two parses under different limits fail with the same error or succeed with the same
  tensors, offsets and sizes and with metadata that differs only in the elements of arrays.
\<close>

theorem array_limit_only_drops_elements:
  assumes "n \<le> int MaxInt64" and "n \<le> int (length bs)"
  shows "map_sum id erase_file (Parse (opts\<lparr>op_arrayLimit := x\<rparr>) (Some bs) n)
       = map_sum id erase_file (Parse opts (Some bs) n)"
proof (cases "n < 0")
  case False
  let ?c = "cursor_for opts bs (nat n)"
  have cx: "cursor_for (opts\<lparr>op_arrayLimit := x\<rparr>) bs (nat n) = with_limit ?c x"
    by (simp add: cursor_for_def)
  have ok: "cursor_ok ?c 0" using assms(1) by (intro cursor_for_ok) simp
  have all: "all_there ?c" using assms(2) by (simp add: all_there_def cursor_for_def) linarith
  show ?thesis
  proof (cases "read_header ?c 0")
    case (Inl e)
    then show ?thesis using read_header_erase [OF ok all, of x] False
      by (cases "read_header (with_limit ?c x) 0") (auto simp: Parse_def cx)
  next
    case (Inr p)
    obtain version big tc kv ts off where p: "p = (((version, big), tc, kv, ts), off)"
      by (metis surj_pair)
    obtain kv' where p': "read_header (with_limit ?c x) 0 = Inr (((version, big), tc, kv', ts), off)"
      and e: "erase_kv kv' = erase_kv kv"
      using read_header_erase [OF ok all, of x] Inr p
      by (cases "read_header (with_limit ?c x) 0") (auto simp: erase_header_def)
    have "kv_ok kv" "kv_ok kv'"
      using read_tables_ok(1) [OF Inr [unfolded p]] read_tables_ok(1) [OF p'] by blast+
    from finish_erase [OF this e] show ?thesis using Inr p p' False by (simp add: Parse_def cx)
  qed
qed (simp add: Parse_def)

section \<open>The properties at concrete inputs\<close>

definition demo_bits :: float_bits where
  "demo_bits = \<lparr>fb_32 = (\<lambda>x. case x of Float32frombits w \<Rightarrow> w | _ \<Rightarrow> 0),
     fb_64 = (\<lambda>x. case x of Float64frombits w \<Rightarrow> w | _ \<Rightarrow> 0)\<rparr>"

definition demo_builder :: builder where
  "demo_builder = b_Tensor ''blk.0.w'' 24 [2] (b_Set ''a'' (Arr 0 [U8 7, U8 8]) (b_New []))"

definition demo_bytes :: "u8 list" where
  "demo_bytes = Header demo_bits demo_builder"

lemma demo_length: "length demo_bytes = 90"
  by code_simp

lemma demo_parts:
  "map_sum id (\<lambda>f. (f_HeaderBytes f, f_DataSize f)) (Parse defaults (Some demo_bytes) 200) = Inr (90, 32)"
  by code_simp

lemma demo_parse:
  obtains f where "Parse defaults (Some demo_bytes) 200 = Inr f" and "f_HeaderBytes f = 90"
    and "f_DataSize f = 32"
  using demo_parts by (cases "Parse defaults (Some demo_bytes) 200") auto

text \<open>The last multiple of 32 an \<open>int64\<close> can hold, as the size of one tensor.\<close>

definition huge_bytes :: "u8 list" where
  "huge_bytes = Header demo_bits (b_Tensor ''t'' 24 [9223372036854775776] (b_New []))"

lemma huge_parts:
  "map_sum id (\<lambda>f. (f_DataOffset f, f_DataSize f)) (Parse defaults (Some huge_bytes) 57)
   = Inr (64, 9223372036854775776)"
  by code_simp

theorem header_read_is_local_witness:
  "\<exists>f. Parse defaults (Some (demo_bytes @ [1, 2, 3])) 200 = Inr f \<and> f_HeaderBytes f = 90"
proof -
  obtain f where f: "Parse defaults (Some demo_bytes) 200 = Inr f" "f_HeaderBytes f = 90"
    by (rule demo_parse)
  then show ?thesis
    using header_read_is_local [OF f(1), of "demo_bytes @ [1, 2, 3]"] demo_length
    by (auto simp: MaxInt64_def)
qed

theorem every_strict_prefix_is_truncated_witness:
  "Parse defaults (Some (take 89 demo_bytes)) 89 = Inl ErrTruncated"
proof -
  obtain f where f: "Parse defaults (Some demo_bytes) 200 = Inr f" "f_HeaderBytes f = 90"
    by (rule demo_parse)
  then show ?thesis
    using every_strict_prefix_is_truncated [OF f(1), of 89] by (simp add: MaxInt64_def)
qed

theorem parsed_index_is_consistent_witness:
  "\<exists>f. Parse defaults (Some demo_bytes) 200 = Inr f
     \<and> 32 = data_before (unat (f_Alignment f)) (f_Tensors f) (length (f_Tensors f))"
proof -
  obtain f where f: "Parse defaults (Some demo_bytes) 200 = Inr f" "f_DataSize f = 32"
    by (rule demo_parse)
  then show ?thesis using parsed_index_is_consistent [OF f(1)] by (auto simp: MaxInt64_def)
qed

theorem sizes_account_for_every_byte_witness:
  "\<exists>f. Parse defaults (Some demo_bytes) 200 = Inr f \<and> unat (sz_Total (Sizes (f_Tensors f))) \<le> 32"
proof -
  obtain f where f: "Parse defaults (Some demo_bytes) 200 = Inr f" "f_DataSize f = 32"
    by (rule demo_parse)
  then show ?thesis using sizes_account_for_every_byte [OF f(1)] by (auto simp: MaxInt64_def)
qed

theorem complete_unless_the_end_wraps_witness:
  "\<exists>f. Parse defaults (Some huge_bytes) 57 = Inr f \<and> Complete f"
proof -
  obtain f where f: "Parse defaults (Some huge_bytes) 57 = Inr f"
    "f_DataOffset f = 64" "f_DataSize f = 9223372036854775776"
    using huge_parts by (cases "Parse defaults (Some huge_bytes) 57") auto
  then show ?thesis using complete_unless_the_end_wraps [OF f(1)] by (simp add: MaxInt64_def)
qed

theorem array_limit_only_drops_elements_witness:
  "map_sum id erase_file (Parse (defaults\<lparr>op_arrayLimit := 0\<rparr>) (Some demo_bytes) 90)
   = map_sum id erase_file (Parse defaults (Some demo_bytes) 90)"
  by (rule array_limit_only_drops_elements) (simp_all add: MaxInt64_def demo_length)

lemma demo_builder_ok: "builder_ok demo_bits demo_builder"
proof -
  let ?t = "\<lparr>te_name = ''blk.0.w'', te_typ = 24, te_dims = [2], te_offset = 0, te_overrides = False\<rparr>"
  define e where "e = (''a'', Arr 0 [U8 7, U8 8])"
  have b: "b_version demo_builder = 3" "b_alignment demo_builder = 32" "b_kv demo_builder = [e]" "b_tensors demo_builder = [?t]"
    by (simp_all add: demo_builder_def b_Tensor_def b_Set_def b_New_def e_def)
  have 1: "bytesOf ?t = 2" by code_simp
  have ty: "ggml_valid 24" "BlockSize 24 = 1" "TypeSize 24 = 1" by code_simp+
  have 2: "entry_ok ?t"
    by (simp add: entry_ok_def tensor_ok_def entry_info_def nelems_def dims_fit_def ty MaxInt64_def
        maxTensorDims_def le_Suc_eq all_conj_distrib)
  have 3: "kv_entry_ok demo_bits e" unfolding e_def by code_simp
  have 4: "kv_of demo_builder = Some \<lparr>kv_pairs = [read_back e], kv_index = [''a'' \<mapsto> 0]\<rparr>"
    by (simp add: kv_of_def b kv_add_def empty_kv_def e_def)
  have 5: "alignment_of \<lparr>kv_pairs = [read_back e], kv_index = [''a'' \<mapsto> 0]\<rparr> = Inr 32"
    by (simp add: alignment_of_def kv_Get_def KeyAlignment_def DefaultAlignment_def)
  have 6: "data_of 32 [?t] \<le> MaxInt64"
    by (simp add: data_of_def 1 pad_def MaxInt64_def)
  have 7: "pad 32 90 \<le> MaxInt64" by (simp add: pad_def MaxInt64_def)
  show ?thesis using 2 3 6 7 demo_length by (simp add: builder_ok_def b 4 5 demo_bytes_def)
qed

theorem parse_reads_back_what_was_built_witness:
  "\<exists>f. Parse (defaults\<lparr>op_arrayLimit := -1\<rparr>) (Some (demo_bytes @ [0, 0])) 92 = Inr f
     \<and> kv_pairs (f_KV f) = [(''a'', as_gvalue (Arr 0 [U8 7, U8 8]))]"
proof -
  have "b_kv demo_builder = [(''a'', Arr 0 [U8 7, U8 8])]"
    by (simp add: demo_builder_def b_Tensor_def b_Set_def b_New_def)
  then show ?thesis
    using parse_reads_back_what_was_built [OF demo_builder_ok,
        of "defaults\<lparr>op_arrayLimit := -1\<rparr>" 92 "[0, 0]"] demo_length
    by (auto simp: demo_bytes_def defaults_def DefaultMaxHeaderBytes_def MaxInt64_def)
qed

end
