(* ===== verification/Gguf_Shape.thy ===== *)
theory Gguf_Shape
  imports Gguf_Layout "HOL-Library.Code_Target_Nat"
begin

text \<open>
  The model geometry read out of the metadata table (\<open>internal/gguf/shape.go\<close>). A pointer field
  that is nil when its key is absent is an option; the notes the Go closures append to are threaded
  through. An \<open>int64\<close> is an \<open>int\<close> on the platforms the program is built for, so \<open>int(n)\<close> is the
  identity there, and on a \<open>uint64\<close> it reads the same bits as signed.
\<close>

definition KeyName :: string where "KeyName = ''general.name''"
definition KeyFileType :: string where "KeyFileType = ''general.file_type''"
definition KeyArch :: string where "KeyArch = ''general.architecture''"
definition KeyTokenizerModel :: string where "KeyTokenizerModel = ''tokenizer.ggml.model''"
definition KeyTokenizerTokens :: string where "KeyTokenizerTokens = ''tokenizer.ggml.tokens''"
definition KeySplitNo :: string where "KeySplitNo = ''split.no''"
definition KeySplitCount :: string where "KeySplitCount = ''split.count''"
definition KeySplitTensors :: string where "KeySplitTensors = ''split.tensors.count''"
definition KeyClipVision :: string where "KeyClipVision = ''clip.has_vision_encoder''"
definition KeyClipAudio :: string where "KeyClipAudio = ''clip.has_audio_encoder''"

definition archKey :: "string \<Rightarrow> string \<Rightarrow> string" where
  "archKey arch suffix = arch @ ''.'' @ suffix"

definition subBlockCount :: string where "subBlockCount = ''block_count''"
definition subContextLength :: string where "subContextLength = ''context_length''"
definition subEmbeddingLength :: string where "subEmbeddingLength = ''embedding_length''"
definition subFeedForwardLength :: string where "subFeedForwardLength = ''feed_forward_length''"
definition subVocabSize :: string where "subVocabSize = ''vocab_size''"
definition subExpertCount :: string where "subExpertCount = ''expert_count''"
definition subExpertUsedCount :: string where "subExpertUsedCount = ''expert_used_count''"
definition subPoolingType :: string where "subPoolingType = ''pooling_type''"
definition subHeadCount :: string where "subHeadCount = ''attention.head_count''"
definition subHeadCountKV :: string where "subHeadCountKV = ''attention.head_count_kv''"
definition subKeyLength :: string where "subKeyLength = ''attention.key_length''"
definition subValueLength :: string where "subValueLength = ''attention.value_length''"
definition subSlidingWindow :: string where "subSlidingWindow = ''attention.sliding_window''"
definition subSlidingWindowPattern :: string where
  "subSlidingWindowPattern = ''attention.sliding_window_pattern''"

record shape =
  sh_Architecture :: string
  sh_Name :: string
  sh_BlockCount :: int
  sh_ContextLength :: int
  sh_EmbeddingLength :: int
  sh_FeedForwardLength :: int
  sh_HeadCount :: int
  sh_HeadCountKV :: "int list"
  sh_HeadCountKVPerLayer :: bool
  sh_KeyLength :: int
  sh_ValueLength :: int
  sh_VocabSize :: int
  sh_TokenizerModel :: string
  sh_ExpertCount :: int
  sh_ExpertUsedCount :: int
  sh_SlidingWindow :: "int option"
  sh_SlidingWindowPattern :: "int option"
  sh_PoolingType :: "int option"
  sh_HasVision :: bool
  sh_HasAudio :: bool
  sh_SplitNo :: int
  sh_SplitCount :: int
  sh_SplitTensors :: int
  sh_FileType :: "int option"
  sh_Quantization :: string
  sh_Sizes :: sizes
  sh_Notes :: "string list"

definition per_layer_note :: "string \<Rightarrow> nat \<Rightarrow> string" where
  "per_layer_note key n =
     key @ '' is a per-layer array of '' @ nat_dec n @ ''; using the first entry''"

text \<open>The closures \<open>req\<close> and \<open>opt\<close>; \<open>req\<close> returns its number, 0 where it has none, and the notes.\<close>

definition shape_req :: "kv_table \<Rightarrow> string \<Rightarrow> string \<Rightarrow> string list \<Rightarrow> int \<times> string list" where
  "shape_req kv arch suffix notes =
    (if arch = [] then (0, notes)
     else let key = archKey arch suffix in
       case kv_Get kv key of None \<Rightarrow> (0, notes @ [key @ '' is missing''])
       | Some v \<Rightarrow>
           if v_type v = ValueArray then
             (case AsInts v of
                None \<Rightarrow> (0, notes @ [key @ '' is an array this reader could not use''])
              | Some [] \<Rightarrow> (0, notes @ [key @ '' is an array this reader could not use''])
              | Some (i # is) \<Rightarrow> (i, notes @ [per_layer_note key (length (i # is))]))
           else (case AsInt v of None \<Rightarrow> (0, notes @ [key @ '' is not a number'']) | Some n \<Rightarrow> (n, notes)))"

definition shape_opt :: "kv_table \<Rightarrow> string \<Rightarrow> string \<Rightarrow> int option" where
  "shape_opt kv arch suffix = (if arch = [] then None else kv_Int kv (archKey arch suffix))"

definition or_zero :: "int option \<Rightarrow> int" where
  "or_zero p = (case p of Some n \<Rightarrow> n | None \<Rightarrow> 0)"

definition feed_forward :: "kv_table \<Rightarrow> string \<Rightarrow> string list \<Rightarrow> int \<times> string list" where
  "feed_forward kv arch notes =
    (case shape_opt kv arch subFeedForwardLength of Some n \<Rightarrow> (n, notes)
     | None \<Rightarrow> if arch = [] then (0, notes)
         else (case kv_Get kv (archKey arch subFeedForwardLength) of None \<Rightarrow> (0, notes)
           | Some v \<Rightarrow> (case AsInts v of
               Some (i # is) \<Rightarrow> (i, notes @ [per_layer_note (archKey arch subFeedForwardLength) (length (i # is))])
             | _ \<Rightarrow> (0, notes))))"

definition broadcast :: "int \<Rightarrow> int \<Rightarrow> int list" where
  "broadcast blockCount n = (if blockCount \<le> 0 then [] else replicate (nat blockCount) n)"

definition headCountKV ::
  "kv_table \<Rightarrow> string \<Rightarrow> int \<Rightarrow> int \<Rightarrow> string list \<Rightarrow> (int list \<times> bool) \<times> string list" where
  "headCountKV kv arch headCount blockCount notes =
    (if arch = [] then ((broadcast blockCount headCount, False), notes)
     else let key = archKey arch subHeadCountKV in
       case kv_Get kv key of None \<Rightarrow> ((broadcast blockCount headCount, False), notes)
       | Some v \<Rightarrow>
           if v_type v \<noteq> ValueArray then
             (case AsInt v of
                None \<Rightarrow> ((broadcast blockCount headCount, False), notes @ [key @ '' is not a number''])
              | Some n \<Rightarrow> ((broadcast blockCount n, False), notes))
           else (case AsInts v of
                None \<Rightarrow> ((broadcast blockCount headCount, False),
                         notes @ [key @ '' is an array this reader could not use''])
              | Some out \<Rightarrow>
                  ((out, True),
                   if blockCount > 0 \<and> int (length out) \<noteq> blockCount
                   then notes @ [key @ '' has '' @ nat_dec (length out) @ '' entries for ''
                                 @ int_dec blockCount @ '' layers'']
                   else notes)))"

text \<open>Go's division of integers truncates toward zero.\<close>

definition quot :: "int \<Rightarrow> int \<Rightarrow> int" where
  "quot a b = sgn a * sgn b * (\<bar>a\<bar> div \<bar>b\<bar>)"

definition upper :: "string \<Rightarrow> string" where
  "upper s = map (\<lambda>c. if 97 \<le> (of_char c :: nat) \<and> (of_char c :: nat) \<le> 122
     then char_of ((of_char c :: nat) - 32) else c) s"

definition quantization :: "kv_table \<Rightarrow> sizes \<Rightarrow> string" where
  "quantization kv sz =
    (let named = (case kv_Uint kv KeyFileType of None \<Rightarrow> []
           | Some n \<Rightarrow> (case FileTypeName n of Some name \<Rightarrow> name | None \<Rightarrow> []))
     in if named = [] then (case DominantType sz of Some t \<Rightarrow> upper (ggml_string t) | None \<Rightarrow> [])
        else named)"

definition vocab_size :: "kv_table \<Rightarrow> string \<Rightarrow> int" where
  "vocab_size kv arch = (case shape_opt kv arch subVocabSize of Some n \<Rightarrow> n
     | None \<Rightarrow> (case kv_Get kv KeyTokenizerTokens of Some v \<Rightarrow> sint (Count v) | None \<Rightarrow> 0))"

definition Shape :: "gguf_file \<Rightarrow> shape" where
  "Shape f =
    (let sz = Sizes (f_Tensors f); kv = f_KV f;
         arch = (case kv_String kv KeyArch of Some a \<Rightarrow> a | None \<Rightarrow> []);
         notes0 = (if arch = [] then [''general.architecture is missing''] else []);
         opt = shape_opt kv arch;
         (blocks, notes1) = shape_req kv arch subBlockCount notes0;
         (ctx, notes2) = shape_req kv arch subContextLength notes1;
         (embd, notes3) = shape_req kv arch subEmbeddingLength notes2;
         (heads, notes4) = shape_req kv arch subHeadCount notes3;
         (ff, notes5) = feed_forward kv arch notes4;
         ((kvHeads, perLayer), notes6) = headCountKV kv arch heads blocks notes5;
         keyLen = (case opt subKeyLength of Some n \<Rightarrow> n
           | None \<Rightarrow> if heads > 0 then quot embd heads else 0);
         valLen = (case opt subValueLength of Some n \<Rightarrow> n | None \<Rightarrow> keyLen)
     in \<lparr>sh_Architecture = arch,
         sh_Name = (case kv_String kv KeyName of Some a \<Rightarrow> a | None \<Rightarrow> []),
         sh_BlockCount = blocks, sh_ContextLength = ctx, sh_EmbeddingLength = embd,
         sh_FeedForwardLength = ff, sh_HeadCount = heads, sh_HeadCountKV = kvHeads,
         sh_HeadCountKVPerLayer = perLayer, sh_KeyLength = keyLen, sh_ValueLength = valLen,
         sh_VocabSize = vocab_size kv arch,
         sh_TokenizerModel = (case kv_String kv KeyTokenizerModel of Some a \<Rightarrow> a | None \<Rightarrow> []),
         sh_ExpertCount = or_zero (opt subExpertCount),
         sh_ExpertUsedCount = or_zero (opt subExpertUsedCount),
         sh_SlidingWindow = opt subSlidingWindow,
         sh_SlidingWindowPattern = opt subSlidingWindowPattern,
         sh_PoolingType = opt subPoolingType,
         sh_HasVision = (case kv_Bool kv KeyClipVision of Some b \<Rightarrow> b | None \<Rightarrow> False),
         sh_HasAudio = (case kv_Bool kv KeyClipAudio of Some b \<Rightarrow> b | None \<Rightarrow> False),
         sh_SplitNo = or_zero (kv_Int kv KeySplitNo),
         sh_SplitCount = or_zero (kv_Int kv KeySplitCount),
         sh_SplitTensors = or_zero (kv_Int kv KeySplitTensors),
         sh_FileType = map_option sint (kv_Uint kv KeyFileType),
         sh_Quantization = quantization kv sz, sh_Sizes = sz, sh_Notes = notes6\<rparr>)"

section \<open>What the calculator relies on\<close>

lemma headCountKV_cases:
  assumes "headCountKV kv arch hc bc notes = ((out, per), notes')"
  shows "\<not> per \<Longrightarrow> \<exists>n. out = broadcast bc n"
    and "per \<Longrightarrow> \<exists>v. kv_Get kv (archKey arch subHeadCountKV) = Some v \<and> v_type v = ValueArray
          \<and> AsInts v = Some out"
    and "per \<Longrightarrow> bc > 0 \<Longrightarrow> notes' = notes \<longleftrightarrow> int (length out) = bc"
  using assms
  by (auto simp: headCountKV_def Let_def split: if_splits option.splits)

text \<open>
  The head counts of a shape have one entry for each layer, unless the notes say otherwise.
  With a positive block count the list is the scalar repeated once per layer, or the file's own
  array, and an array of another length is kept only with a note that names it; an array whose
  elements were not retained is never used.
\<close>

theorem head_counts_are_per_layer:
  assumes "sh_BlockCount (Shape f) > 0"
  shows "(\<not> sh_HeadCountKVPerLayer (Shape f) \<longrightarrow>
           (\<exists>n. sh_HeadCountKV (Shape f) = replicate (nat (sh_BlockCount (Shape f))) n))
     \<and> (sh_HeadCountKVPerLayer (Shape f) \<longrightarrow>
           (\<exists>v a. kv_Get (f_KV f) (archKey (sh_Architecture (Shape f)) subHeadCountKV) = Some v
              \<and> v_array v = Some a \<and> \<not> a_elided a
              \<and> length (sh_HeadCountKV (Shape f)) = length (a_values a))
         \<and> (int (length (sh_HeadCountKV (Shape f))) \<noteq> sh_BlockCount (Shape f) \<longrightarrow> sh_Notes (Shape f) \<noteq> []))"
proof -
  define arch where "arch = (case kv_String (f_KV f) KeyArch of Some a \<Rightarrow> a | None \<Rightarrow> [])"
  obtain heads notes5 where
    h: "headCountKV (f_KV f) arch heads (sh_BlockCount (Shape f)) notes5
        = ((sh_HeadCountKV (Shape f), sh_HeadCountKVPerLayer (Shape f)), sh_Notes (Shape f))"
    and a: "sh_Architecture (Shape f) = arch"
    by (simp add: Shape_def Let_def arch_def case_prod_unfold)
  note hc = headCountKV_cases [OF h]
  have "\<exists>v a. kv_Get (f_KV f) (archKey arch subHeadCountKV) = Some v
      \<and> v_array v = Some a \<and> \<not> a_elided a \<and> length (sh_HeadCountKV (Shape f)) = length (a_values a)"
    if per: "sh_HeadCountKVPerLayer (Shape f)"
  proof -
    obtain v where v: "kv_Get (f_KV f) (archKey arch subHeadCountKV) = Some v"
      "v_type v = ValueArray" "AsInts v = Some (sh_HeadCountKV (Shape f))" using hc(2) [OF per] by blast
    then obtain a where "v_array v = Some a" "\<not> a_elided a"
      "all_or_none AsInt (a_values a) = Some (sh_HeadCountKV (Shape f))"
      by (auto simp: AsInts_def as_list_def split: option.splits if_splits)
    then show ?thesis using v all_or_none_length by metis
  qed
  moreover have "sh_Notes (Shape f) \<noteq> []"
    if "sh_HeadCountKVPerLayer (Shape f)" "int (length (sh_HeadCountKV (Shape f))) \<noteq> sh_BlockCount (Shape f)"
    using h that assms by (auto simp: headCountKV_def Let_def split: if_splits option.splits)
  ultimately show ?thesis using hc(1) assms a by (auto simp: broadcast_def)
qed

definition demo_kv :: kv_table where
  "demo_kv = (case kv_add empty_kv KeyArch (string_value ''llama'') of None \<Rightarrow> empty_kv
     | Some kv \<Rightarrow> (case kv_add kv (archKey ''llama'' subBlockCount) (uint_value ValueUint32 2) of
          None \<Rightarrow> kv | Some kv2 \<Rightarrow> kv2))"

definition demo_file :: gguf_file where
  "demo_file = \<lparr>f_Version = 3, f_BigEndian = False, f_TensorCount = 0, f_KV = demo_kv, f_Tensors = [],
     f_Alignment = 32, f_HeaderBytes = 90, f_DataOffset = 96, f_DataSize = 0, f_FileSize = 96\<rparr>"

theorem head_counts_are_per_layer_witness:
  "length (sh_HeadCountKV (Shape demo_file)) = 2"
proof -
  have b: "sh_BlockCount (Shape demo_file) = 2 \<and> \<not> sh_HeadCountKVPerLayer (Shape demo_file)"
    by code_simp
  then show ?thesis using head_counts_are_per_layer [of demo_file] by auto
qed

end
