(* ===== verification/Auth_Store.thy ===== *)
theory Auth_Store
  imports Prelude "HOL-Library.Char_ord" "HOL-Library.List_Lexorder"
begin

text \<open>
  The tables of \<open>internal/store/auth.go\<close> and \<open>setupclaim.go\<close> over the rows of
  \<open>internal/model/identity.go\<close> and \<open>auth.go\<close>: \<open>admin_account\<close> and \<open>setup_claim\<close> hold at most
  one row, \<open>sessions\<close>, \<open>login_attempts\<close> and \<open>lockouts\<close> are lists of rows, and \<open>events\<close> is the
  log the auth service appends to. A statement fails on the constraints of
  \<open>migrations/0001_init.sql\<close> (primary keys, and the unique \<open>token_hash\<close> of \<open>sessions\<close>).
\<close>

section \<open>Rows\<close>

record admin_account =
  aa_PasswordHash :: string
  aa_PasswordSetAt :: unix_ms
  aa_UpdatedAt :: unix_ms

record session =
  ss_ID :: string
  ss_TokenHash :: string
  ss_CSRFSecret :: string
  ss_CreatedAt :: unix_ms
  ss_LastSeenAt :: unix_ms
  ss_ExpiresAt :: unix_ms
  ss_RevokedAt :: "unix_ms option"
  ss_IP :: "string option"
  ss_UserAgent :: "string option"

definition session_live :: "session \<Rightarrow> unix_ms \<Rightarrow> bool" where
  "session_live s now \<longleftrightarrow> ss_RevokedAt s = None \<and> ss_ExpiresAt s > now"

datatype login_reason = LoginOK | LoginBadPassword | LoginLocked | LoginNoAccount | LoginBadSetupToken

record login_attempt =
  la_ID :: string
  la_At :: unix_ms
  la_IP :: string
  la_Success :: bool
  la_Reason :: "login_reason option"

record lockout =
  lk_IP :: string
  lk_LockedUntil :: unix_ms
  lk_Strikes :: int
  lk_UpdatedAt :: unix_ms

definition lockout_locked :: "lockout \<Rightarrow> unix_ms \<Rightarrow> bool" where
  "lockout_locked l now \<longleftrightarrow> lk_LockedUntil l > now"

record setup_claim =
  sc_TokenHash :: string
  sc_TokenPath :: "string option"
  sc_CreatedAt :: unix_ms
  sc_ClaimedAt :: "unix_ms option"
  sc_ClaimedFromIP :: "string option"

definition claim_claimed :: "setup_claim \<Rightarrow> bool" where
  "claim_claimed c \<longleftrightarrow> sc_ClaimedAt c \<noteq> None"

datatype event_level = LevelInfo | LevelWarn
datatype event_actor = ActorAdmin | ActorWizard | ActorCLI

record auth_event_row =
  ev_ID :: string
  ev_At :: unix_ms
  ev_Level :: event_level
  ev_Action :: string
  ev_Actor :: event_actor
  ev_Message :: string

record auth_db =
  d_account :: "admin_account option"
  d_claim :: "setup_claim option"
  d_sessions :: "session list"
  d_attempts :: "login_attempt list"
  d_lockouts :: "lockout list"
  d_events :: "auth_event_row list"

datatype store_error = StNotFound | StConstraint | StBusy

section \<open>\<open>admin_account\<close>\<close>

definition AdminAccount :: "auth_db \<Rightarrow> store_error + admin_account" where
  "AdminAccount db = (case d_account db of None \<Rightarrow> Inl StNotFound | Some a \<Rightarrow> Inr a)"

definition AdminAccountExists :: "auth_db \<Rightarrow> bool" where
  "AdminAccountExists db \<longleftrightarrow> d_account db \<noteq> None"

definition CreateAdminAccount :: "admin_account \<Rightarrow> auth_db \<Rightarrow> auth_db \<times> bool" where
  "CreateAdminAccount a db =
     (case d_account db of None \<Rightarrow> (db\<lparr>d_account := Some a\<rparr>, True) | Some _ \<Rightarrow> (db, False))"

definition SetAdminPassword :: "string \<Rightarrow> unix_ms \<Rightarrow> auth_db \<Rightarrow> auth_db \<times> bool" where
  "SetAdminPassword hash at db =
     (case d_account db of None \<Rightarrow> (db, False)
      | Some a \<Rightarrow> (db\<lparr>d_account := Some (a\<lparr>aa_PasswordHash := hash, aa_PasswordSetAt := at,
                                           aa_UpdatedAt := at\<rparr>)\<rparr>, True))"

section \<open>\<open>sessions\<close>\<close>

definition InsertSession :: "session \<Rightarrow> auth_db \<Rightarrow> store_error + auth_db" where
  "InsertSession v db =
     (if ss_ID v \<in> ss_ID ` set (d_sessions db) \<or> ss_TokenHash v \<in> ss_TokenHash ` set (d_sessions db)
      then Inl StConstraint else Inr (db\<lparr>d_sessions := d_sessions db @ [v]\<rparr>))"

definition Session :: "string \<Rightarrow> auth_db \<Rightarrow> store_error + session" where
  "Session i db = (case find (\<lambda>s. ss_ID s = i) (d_sessions db) of
     None \<Rightarrow> Inl StNotFound | Some s \<Rightarrow> Inr s)"

definition ActiveSessions :: "unix_ms \<Rightarrow> auth_db \<Rightarrow> session list" where
  "ActiveSessions now db =
     rev (sort_key ss_ID (filter (\<lambda>s. ss_RevokedAt s = None \<and> ss_ExpiresAt s > now) (d_sessions db)))"

text \<open>An \<open>UPDATE\<close> of \<open>sessions\<close>; the number of rows the condition selects is \<open>RowsAffected\<close>.\<close>

definition update_sessions :: "(session \<Rightarrow> bool) \<Rightarrow> (session \<Rightarrow> session) \<Rightarrow> auth_db \<Rightarrow> auth_db" where
  "update_sessions p f db = db\<lparr>d_sessions := map (\<lambda>s. if p s then f s else s) (d_sessions db)\<rparr>"

definition TouchSession ::
    "string \<Rightarrow> unix_ms \<Rightarrow> string option \<Rightarrow> string option \<Rightarrow> auth_db \<Rightarrow> auth_db" where
  "TouchSession i at ip ua db = update_sessions (\<lambda>s. ss_ID s = i \<and> ss_RevokedAt s = None)
     (\<lambda>s. s\<lparr>ss_LastSeenAt := at, ss_IP := ip, ss_UserAgent := ua\<rparr>) db"

definition RevokeSession :: "string \<Rightarrow> unix_ms \<Rightarrow> auth_db \<Rightarrow> auth_db \<times> bool" where
  "RevokeSession i at db =
     (update_sessions (\<lambda>s. ss_ID s = i \<and> ss_RevokedAt s = None) (\<lambda>s. s\<lparr>ss_RevokedAt := Some at\<rparr>) db,
      list_ex (\<lambda>s. ss_ID s = i \<and> ss_RevokedAt s = None) (d_sessions db))"

definition RevokeSessionsExcept :: "string \<Rightarrow> unix_ms \<Rightarrow> auth_db \<Rightarrow> auth_db \<times> nat" where
  "RevokeSessionsExcept keep at db =
     (update_sessions (\<lambda>s. ss_RevokedAt s = None \<and> ss_ID s \<noteq> keep) (\<lambda>s. s\<lparr>ss_RevokedAt := Some at\<rparr>) db,
      length (filter (\<lambda>s. ss_RevokedAt s = None \<and> ss_ID s \<noteq> keep) (d_sessions db)))"

definition DeleteExpiredSessions :: "unix_ms \<Rightarrow> auth_db \<Rightarrow> auth_db \<times> nat" where
  "DeleteExpiredSessions before db =
     (db\<lparr>d_sessions := filter (\<lambda>s. \<not> ss_ExpiresAt s < before) (d_sessions db)\<rparr>,
      length (filter (\<lambda>s. ss_ExpiresAt s < before) (d_sessions db)))"

section \<open>\<open>login_attempts\<close>\<close>

definition InsertLoginAttempt :: "login_attempt \<Rightarrow> auth_db \<Rightarrow> store_error + auth_db" where
  "InsertLoginAttempt a db =
     (if la_ID a \<in> la_ID ` set (d_attempts db) then Inl StConstraint
      else Inr (db\<lparr>d_attempts := d_attempts db @ [a]\<rparr>))"

definition CountFailedLoginAttempts ::
    "string \<Rightarrow> unix_ms \<Rightarrow> login_reason list \<Rightarrow> auth_db \<Rightarrow> nat" where
  "CountFailedLoginAttempts ip since reasons db =
     length (filter (\<lambda>a. la_IP a = ip \<and> since \<le> la_At a \<and> \<not> la_Success a
       \<and> (reasons \<noteq> [] \<longrightarrow> (case la_Reason a of None \<Rightarrow> False | Some r \<Rightarrow> r \<in> set reasons)))
       (d_attempts db))"

definition HasLoginAttemptSince :: "string \<Rightarrow> login_reason \<Rightarrow> unix_ms \<Rightarrow> auth_db \<Rightarrow> bool" where
  "HasLoginAttemptSince ip reason since db =
     list_ex (\<lambda>a. la_IP a = ip \<and> since \<le> la_At a \<and> la_Reason a = Some reason) (d_attempts db)"

text \<open>\<open>SELECT MAX(at)\<close>: \<open>None\<close> is the \<open>NULL\<close> of an empty selection.\<close>

definition LastSuccessfulLoginAt :: "string \<Rightarrow> auth_db \<Rightarrow> unix_ms option" where
  "LastSuccessfulLoginAt ip db =
     fold (\<lambda>a m. if la_IP a = ip \<and> la_Success a
                 then Some (case m of None \<Rightarrow> la_At a | Some x \<Rightarrow> max x (la_At a)) else m)
       (d_attempts db) None"

definition DeleteLoginAttemptsBefore :: "unix_ms \<Rightarrow> auth_db \<Rightarrow> auth_db \<times> nat" where
  "DeleteLoginAttemptsBefore before db =
     (db\<lparr>d_attempts := filter (\<lambda>a. \<not> la_At a < before) (d_attempts db)\<rparr>,
      length (filter (\<lambda>a. la_At a < before) (d_attempts db)))"

section \<open>\<open>lockouts\<close>\<close>

definition Lockout :: "string \<Rightarrow> auth_db \<Rightarrow> store_error + lockout" where
  "Lockout ip db = (case find (\<lambda>l. lk_IP l = ip) (d_lockouts db) of
     None \<Rightarrow> Inl StNotFound | Some l \<Rightarrow> Inr l)"

definition PutLockout :: "lockout \<Rightarrow> auth_db \<Rightarrow> auth_db" where
  "PutLockout v db =
     (if lk_IP v \<in> lk_IP ` set (d_lockouts db)
      then db\<lparr>d_lockouts := map (\<lambda>l. if lk_IP l = lk_IP v then v else l) (d_lockouts db)\<rparr>
      else db\<lparr>d_lockouts := d_lockouts db @ [v]\<rparr>)"

definition DeleteLockout :: "string \<Rightarrow> auth_db \<Rightarrow> auth_db" where
  "DeleteLockout ip db = db\<lparr>d_lockouts := filter (\<lambda>l. lk_IP l \<noteq> ip) (d_lockouts db)\<rparr>"

section \<open>\<open>setup_claim\<close> and \<open>events\<close>\<close>

definition SetupClaim :: "auth_db \<Rightarrow> store_error + setup_claim" where
  "SetupClaim db = (case d_claim db of None \<Rightarrow> Inl StNotFound | Some c \<Rightarrow> Inr c)"

definition PutSetupClaim :: "string \<Rightarrow> string \<Rightarrow> unix_ms \<Rightarrow> auth_db \<Rightarrow> auth_db" where
  "PutSetupClaim hash path at db = db\<lparr>d_claim := Some \<lparr>sc_TokenHash = hash, sc_TokenPath = Some path,
     sc_CreatedAt = at, sc_ClaimedAt = None, sc_ClaimedFromIP = None\<rparr>\<rparr>"

definition ClaimSetup :: "unix_ms \<Rightarrow> string \<Rightarrow> auth_db \<Rightarrow> auth_db \<times> bool" where
  "ClaimSetup at ip db =
     (case d_claim db of None \<Rightarrow> (db, False)
      | Some c \<Rightarrow> if sc_ClaimedAt c \<noteq> None then (db, False)
          else (db\<lparr>d_claim := Some (c\<lparr>sc_ClaimedAt := Some at, sc_ClaimedFromIP := Some ip,
                                     sc_TokenPath := None\<rparr>)\<rparr>, True))"

definition ClearSetupTokenPath :: "auth_db \<Rightarrow> auth_db" where
  "ClearSetupTokenPath db = db\<lparr>d_claim := map_option (\<lambda>c. c\<lparr>sc_TokenPath := None\<rparr>) (d_claim db)\<rparr>"

definition AppendEvent :: "auth_event_row \<Rightarrow> auth_db \<Rightarrow> store_error + auth_db" where
  "AppendEvent e db = (if ev_ID e \<in> ev_ID ` set (d_events db) then Inl StConstraint
                       else Inr (db\<lparr>d_events := d_events db @ [e]\<rparr>))"

section \<open>Lookups after updates\<close>

lemma find_append': "find p (xs @ ys) = (case find p xs of None \<Rightarrow> find p ys | Some x \<Rightarrow> Some x)"
  by (induction xs) auto

lemma find_map_keyed:
  assumes "\<And>x. k (f x) = k x"
  shows "find (\<lambda>x. k x = i) (map f xs) = map_option f (find (\<lambda>x. k x = i) xs)"
  by (induction xs) (simp_all add: assms)

lemma Session_update:
  assumes "\<And>s. ss_ID (f s) = ss_ID s"
  shows "Session i (update_sessions p f db)
    = (case Session i db of Inl e \<Rightarrow> Inl e | Inr s \<Rightarrow> Inr (if p s then f s else s))"
proof -
  have "find (\<lambda>s. ss_ID s = i) (map (\<lambda>s. if p s then f s else s) (d_sessions db))
      = map_option (\<lambda>s. if p s then f s else s) (find (\<lambda>s. ss_ID s = i) (d_sessions db))"
    by (rule find_map_keyed) (simp add: assms)
  then show ?thesis by (simp add: Session_def update_sessions_def split: option.splits)
qed

lemma Session_insert:
  "InsertSession v db = Inr db' \<Longrightarrow>
     Session i db' = (if i = ss_ID v then Inr v else Session i db)"
proof -
  assume "InsertSession v db = Inr db'"
  then have db': "d_sessions db' = d_sessions db @ [v]" and "ss_ID v \<notin> ss_ID ` set (d_sessions db)"
    by (auto simp: InsertSession_def split: if_splits)
  then have "find (\<lambda>s. ss_ID s = ss_ID v) (d_sessions db) = None"
    by (auto simp: find_None_iff image_iff)
  then show ?thesis by (simp add: Session_def find_append' db' split: option.splits)
qed

lemma Session_ID: "Session i db = Inr s \<Longrightarrow> ss_ID s = i"
  by (auto simp: Session_def find_Some_iff split: option.splits)

lemma Lockout_IP: "Lockout ip db = Inr l \<Longrightarrow> lk_IP l = ip"
  by (auto simp: Lockout_def find_Some_iff split: option.splits)

lemma find_key_map_replace:
  "find (\<lambda>x. k x = i) (map (\<lambda>x. if k x = k v then v else x) xs)
     = (if i = k v \<and> i \<in> k ` set xs then Some v else find (\<lambda>x. k x = i) xs)"
  by (induction xs) auto

lemma Lockout_Put: "Lockout ip (PutLockout v db) = (if ip = lk_IP v then Inr v else Lockout ip db)"
proof -
  have "find (\<lambda>l. lk_IP l = ip) (d_lockouts db) = None" if "ip \<notin> lk_IP ` set (d_lockouts db)"
    using that by (auto simp: find_None_iff)
  then show ?thesis
    by (auto simp: Lockout_def PutLockout_def find_key_map_replace find_append'
        split: option.splits)
qed

lemma find_filter_keyed: "find (\<lambda>x. k x = i) (filter (\<lambda>x. k x \<noteq> j) xs)
    = (if i = j then None else find (\<lambda>x. k x = i) xs)"
  by (induction xs) auto

lemma Lockout_Delete:
  "Lockout ip (DeleteLockout ip' db) = (if ip = ip' then Inl StNotFound else Lockout ip db)"
  by (simp add: Lockout_def DeleteLockout_def find_filter_keyed)

text \<open>The last success is an upper bound that is reached.\<close>

lemma max_fold:
  fixes at :: "'a \<Rightarrow> int"
  shows "fold (\<lambda>a m. if p a then Some (case m of None \<Rightarrow> at a | Some x \<Rightarrow> max x (at a)) else m) as m0
      = Some t \<longleftrightarrow>
    (m0 = Some t \<or> (\<exists>a\<in>set as. p a \<and> at a = t)) \<and> (\<forall>x. m0 = Some x \<longrightarrow> x \<le> t)
      \<and> (\<forall>a\<in>set as. p a \<longrightarrow> at a \<le> t)"
proof (induction as arbitrary: m0)
  case (Cons a as)
  show ?case
  proof (cases "p a")
    case True
    then show ?thesis by (cases m0) (auto simp: Cons.IH max_def)
  qed (simp add: Cons.IH)
qed auto

lemma max_fold_None:
  "fold (\<lambda>a m. if p a then Some (case m of None \<Rightarrow> at a | Some x \<Rightarrow> max x (at a)) else m) as m0 = None
     \<longleftrightarrow> m0 = None \<and> (\<forall>a\<in>set as. \<not> p a)"
  by (induction as arbitrary: m0) auto

lemma LastSuccess_Some:
  "LastSuccessfulLoginAt ip db = Some t \<longleftrightarrow>
     (\<exists>a\<in>set (d_attempts db). la_IP a = ip \<and> la_Success a \<and> la_At a = t)
   \<and> (\<forall>a\<in>set (d_attempts db). la_IP a = ip \<and> la_Success a \<longrightarrow> la_At a \<le> t)"
  by (simp add: LastSuccessfulLoginAt_def max_fold conj_assoc)

lemma LastSuccess_None:
  "LastSuccessfulLoginAt ip db = None \<longleftrightarrow> (\<forall>a\<in>set (d_attempts db). la_IP a = ip \<longrightarrow> \<not> la_Success a)"
  by (simp add: LastSuccessfulLoginAt_def max_fold_None)

end
