(* ===== verification/Encoding.thy ===== *)
theory Encoding
  imports Prelude "HOL-Library.Code_Target_Nat"
begin

text \<open>
  The text encodings the credentials of the daemon are written in.

  \<open>base58Encode\<close> is the function of \<open>internal/auth/base58.go\<close> and, word for word, of
  \<open>internal/tokens/secret.go\<close>: a big-endian number written in base 58 with one \<open>1\<close> for every
  leading zero byte. The functions of the standard library these packages call are here as
  well: \<open>base64.RawStdEncoding\<close> and \<open>RawURLEncoding\<close> (unpadded; the decoder skips line ends
  and does not look at the unused bits of the last digit), \<open>strings.Split\<close>, the verb \<open>%d\<close> of
  \<open>fmt.Sscanf\<close> and \<open>strconv.ParseUint\<close>.
\<close>

type_synonym bytes = "8 word list"

section \<open>Positional numbers\<close>

text \<open>The digits of a number, least significant first: the loop over \<open>DivMod\<close>.\<close>

function digits_of :: "nat \<Rightarrow> nat \<Rightarrow> nat list" where
  "digits_of b n = (if n = 0 \<or> b < 2 then [] else n mod b # digits_of b (n div b))"
  by auto
termination by (relation "measure snd") auto

declare digits_of.simps [simp del]

definition num :: "nat \<Rightarrow> nat list \<Rightarrow> nat" where
  "num b ds = foldr (\<lambda>d acc. d + b * acc) ds 0"

lemma num_simps [simp]: "num b [] = 0" "num b (d # ds) = d + b * num b ds"
  by (simp_all add: num_def)

lemma digits_of_0 [simp]: "digits_of b 0 = []"
  by (simp add: digits_of.simps)

lemma digits_of_eq_Nil: "digits_of b n = [] \<longleftrightarrow> n = 0 \<or> b < 2"
  by (subst digits_of.simps) simp

lemma num_digits_of [simp]: "2 \<le> b \<Longrightarrow> num b (digits_of b n) = n"
proof (induction b n rule: digits_of.induct)
  case (1 b n)
  then show ?case
    by (cases "n = 0") (simp_all, subst digits_of.simps, simp)
qed

lemma digits_of_less: "d \<in> set (digits_of b n) \<Longrightarrow> d < b"
proof (induction b n rule: digits_of.induct)
  case (1 b n)
  then show ?case
    by (subst (asm) (2) digits_of.simps) (auto split: if_splits)
qed

lemma last_digits_of: "digits_of b n \<noteq> [] \<Longrightarrow> last (digits_of b n) \<noteq> 0"
proof (induction b n rule: digits_of.induct)
  case (1 b n)
  from 1(2) have nz: "n \<noteq> 0" "2 \<le> b" by (simp_all add: digits_of_eq_Nil)
  show ?case
  proof (cases "digits_of b (n div b) = []")
    case True
    with nz have "n div b = 0" by (simp add: digits_of_eq_Nil)
    with nz have "n < b" by (simp add: div_eq_0_iff)
    with nz True show ?thesis by (subst digits_of.simps) simp
  next
    case False
    with 1(1) nz show ?thesis by (subst digits_of.simps) simp
  qed
qed

text \<open>A digit list without a leading zero is the only one of its number.\<close>

lemma num_pos: "0 < b \<Longrightarrow> ds \<noteq> [] \<Longrightarrow> last ds \<noteq> 0 \<Longrightarrow> 0 < num b ds"
  by (induction ds) (auto split: if_splits)

lemma digits_of_num:
  assumes "2 \<le> b" and "\<forall>d\<in>set ds. d < b" and "ds \<noteq> [] \<longrightarrow> last ds \<noteq> 0"
  shows "digits_of b (num b ds) = ds"
  using assms(2,3)
proof (induction ds)
  case (Cons d ds)
  have "0 < d + b * num b ds"
    using num_pos [of b "d # ds"] Cons.prems assms(1) by simp
  moreover have "digits_of b (num b ds) = ds" using Cons by (auto split: if_splits)
  ultimately show ?case
    using Cons.prems assms(1) by (subst digits_of.simps) simp
qed simp

lemma num_append: "num b (xs @ ys) = num b xs + b ^ length xs * num b ys"
  by (induction xs) (simp_all add: algebra_simps)

lemma num_less: "\<forall>d\<in>set ds. d < b \<Longrightarrow> num b ds < b ^ length ds"
proof (induction ds)
  case (Cons d ds)
  then have "num b ds + 1 \<le> b ^ length ds" "d < b" by auto
  then have "d + b * num b ds < b * (num b ds + 1)" by simp
  also have "\<dots> \<le> b * b ^ length ds" using \<open>num b ds + 1 \<le> _\<close> by (intro mult_left_mono) auto
  finally show ?case by simp
qed simp

lemma num_ge: "ds \<noteq> [] \<Longrightarrow> last ds \<noteq> 0 \<Longrightarrow> b ^ (length ds - 1) \<le> num b ds"
proof (induction ds)
  case (Cons d ds)
  show ?case
  proof (cases ds)
    case (Cons e es)
    with Cons.prems Cons.IH have "b ^ (length ds - 1) \<le> num b ds" by simp
    then have "b * b ^ (length ds - 1) \<le> d + b * num b ds" by (simp add: trans_le_add2)
    then show ?thesis using Cons by simp
  qed (use Cons.prems in simp)
qed simp

section \<open>Base 58\<close>

definition base58Alphabet :: string where
  "base58Alphabet = ''123456789ABCDEFGHJKLMNPQRSTUVWXYZabcdefghijkmnopqrstuvwxyz''"

definition leading_zeros :: "bytes \<Rightarrow> nat" where
  "leading_zeros b = length (takeWhile (\<lambda>x. x = 0) b)"

text \<open>\<open>big.Int.SetBytes\<close>: the bytes are big-endian.\<close>

definition set_bytes :: "bytes \<Rightarrow> nat" where
  "set_bytes b = num 256 (rev (map unat b))"

definition base58Encode :: "bytes \<Rightarrow> string" where
  "base58Encode b = rev (map (\<lambda>d. base58Alphabet ! d) (digits_of 58 (set_bytes b))
                         @ replicate (leading_zeros b) (base58Alphabet ! 0))"

lemma length_base58Alphabet: "length base58Alphabet = 58"
  by (simp add: base58Alphabet_def)

lemma distinct_base58Alphabet: "distinct base58Alphabet"
  by (simp add: base58Alphabet_def)

lemma base58_char_inj: "inj_on (\<lambda>d. base58Alphabet ! d) {d. d < 58}"
  using distinct_base58Alphabet
  by (auto simp: inj_on_def nth_eq_iff_index_eq length_base58Alphabet)

lemma leading_zeros_split:
  obtains r where "b = replicate (leading_zeros b) 0 @ r" and "r \<noteq> [] \<longrightarrow> hd r \<noteq> 0"
proof
  show "b = replicate (leading_zeros b) 0 @ dropWhile (\<lambda>x. x = 0) b"
    unfolding leading_zeros_def
    by (metis (mono_tags, lifting) replicate_eqI set_takeWhileD takeWhile_dropWhile_id)
  show "dropWhile (\<lambda>x. x = 0) b \<noteq> [] \<longrightarrow> hd (dropWhile (\<lambda>x. x = 0) b) \<noteq> 0"
    using hd_dropWhile by blast
qed

lemma num_replicate_0 [simp]: "num b (replicate k 0) = 0"
  by (induction k) simp_all

lemma set_bytes_zeros: "set_bytes (replicate k 0 @ r) = set_bytes r"
  by (simp add: set_bytes_def num_append)

lemma unat_u8_lt: "unat (w :: 8 word) < 256"
  using unsigned_less [of w] by simp

lemma set_bytes_inj:
  assumes "set_bytes r = set_bytes s" and "r \<noteq> [] \<longrightarrow> hd r \<noteq> 0" and "s \<noteq> [] \<longrightarrow> hd s \<noteq> 0"
  shows "r = s"
proof -
  have restore: "digits_of 256 (set_bytes x) = rev (map unat x)" if "x \<noteq> [] \<longrightarrow> hd x \<noteq> 0" for x
    unfolding set_bytes_def
  proof (rule digits_of_num)
    show "\<forall>d\<in>set (rev (map unat x)). d < 256"
      by (auto simp: unat_u8_lt)
    show "rev (map unat x) \<noteq> [] \<longrightarrow> last (rev (map unat x)) \<noteq> 0"
      using that by (auto simp: last_rev hd_map unat_eq_0)
  qed simp
  have "rev (map unat r) = rev (map unat s)"
    by (simp only: assms(1) restore [OF assms(2), symmetric] restore [OF assms(3), symmetric])
  then have "map unat r = map unat s" by (simp only: rev_is_rev_conv)
  then show ?thesis by (rule map_injective) (auto intro: injI unsigned_word_eqI)
qed

lemma num_digits_of_58: "num 58 (digits_of 58 n) = n"
  by simp

lemma base58_shape:
  "base58Encode b = replicate (leading_zeros b) CHR ''1''
     @ map (\<lambda>d. base58Alphabet ! d) (rev (digits_of 58 (set_bytes b)))"
  by (simp add: base58Encode_def rev_map base58Alphabet_def)

lemma base58_head:
  "dropWhile (\<lambda>c. c = CHR ''1'') (map (\<lambda>d. base58Alphabet ! d) (rev (digits_of 58 n)))
     = map (\<lambda>d. base58Alphabet ! d) (rev (digits_of 58 n))"
proof (cases "digits_of 58 n = []")
  case False
  let ?d = "last (digits_of 58 n)"
  have "?d < 58" "?d \<noteq> 0"
    using False digits_of_less [of ?d 58 n] last_digits_of [of 58 n] by auto
  then have "base58Alphabet ! ?d \<noteq> CHR ''1''"
    using inj_onD [OF base58_char_inj, of ?d 0] by (auto simp: base58Alphabet_def)
  moreover have "rev (digits_of 58 n) = ?d # rev (butlast (digits_of 58 n))"
    using False by (cases "digits_of 58 n" rule: rev_cases) simp_all
  ultimately show ?thesis by (simp only: list.map dropWhile.simps if_False)
qed simp

lemma takeWhile_ones: "takeWhile (\<lambda>c. c = x) (replicate k x @ m) = replicate k x @ takeWhile (\<lambda>c. c = x) m"
  and dropWhile_ones: "dropWhile (\<lambda>c. c = x) (replicate k x @ m) = dropWhile (\<lambda>c. c = x) m"
  by (induction k) simp_all

lemma takeWhile_base58:
  "takeWhile (\<lambda>c. c = CHR ''1'') (base58Encode b) = replicate (leading_zeros b) CHR ''1''"
  and dropWhile_base58:
  "dropWhile (\<lambda>c. c = CHR ''1'') (base58Encode b)
     = map (\<lambda>d. base58Alphabet ! d) (rev (digits_of 58 (set_bytes b)))"
proof -
  let ?m = "map (\<lambda>d. base58Alphabet ! d) (rev (digits_of 58 (set_bytes b)))"
  have "dropWhile (\<lambda>c. c = CHR ''1'') ?m = ?m" by (rule base58_head)
  then have "takeWhile (\<lambda>c. c = CHR ''1'') ?m = []"
    by (metis append_self_conv2 takeWhile_dropWhile_id)
  then show "takeWhile (\<lambda>c. c = CHR ''1'') (base58Encode b) = replicate (leading_zeros b) CHR ''1''"
    and "dropWhile (\<lambda>c. c = CHR ''1'') (base58Encode b) = ?m"
    using base58_head [of "set_bytes b"]
    by (simp_all only: base58_shape takeWhile_ones dropWhile_ones append_Nil2)
qed

lemma base58Encode_inj:
  assumes "base58Encode a = base58Encode b"
  shows "a = b"
proof -
  have z: "leading_zeros a = leading_zeros b"
    using assms takeWhile_base58 [of a] takeWhile_base58 [of b] by (metis length_replicate)
  have "map (\<lambda>d. base58Alphabet ! d) (rev (digits_of 58 (set_bytes a)))
      = map (\<lambda>d. base58Alphabet ! d) (rev (digits_of 58 (set_bytes b)))"
    using assms dropWhile_base58 [of a] dropWhile_base58 [of b] by metis
  then have "rev (digits_of 58 (set_bytes a)) = rev (digits_of 58 (set_bytes b))"
    by (rule map_inj_on) (rule inj_on_subset [OF base58_char_inj], auto dest: digits_of_less)
  then have "num 58 (digits_of 58 (set_bytes a)) = num 58 (digits_of 58 (set_bytes b))"
    by (simp only: rev_is_rev_conv)
  then have n: "set_bytes a = set_bytes b"
    by (simp only: num_digits_of_58)
  obtain r where r: "a = replicate (leading_zeros a) 0 @ r" "r \<noteq> [] \<longrightarrow> hd r \<noteq> 0"
    using leading_zeros_split by blast
  obtain s where s: "b = replicate (leading_zeros b) 0 @ s" "s \<noteq> [] \<longrightarrow> hd s \<noteq> 0"
    using leading_zeros_split by blast
  have "set_bytes a = set_bytes r" "set_bytes b = set_bytes s"
    using set_bytes_zeros [of "leading_zeros a" r] set_bytes_zeros [of "leading_zeros b" s]
    by (simp_all only: r(1) [symmetric] s(1) [symmetric])
  then have "r = s" using n r(2) s(2) set_bytes_inj [of r s] by simp
  then have "replicate (leading_zeros a) 0 @ r = replicate (leading_zeros b) 0 @ s"
    using z by simp
  then show ?thesis by (simp only: r(1) [symmetric] s(1) [symmetric])
qed

lemma set_base58Encode: "set (base58Encode b) \<subseteq> set base58Alphabet"
  using length_base58Alphabet
  by (auto simp: base58_shape dest: digits_of_less)
    (simp add: base58Alphabet_def)

text \<open>
  How long an encoding gets: \<open>58 ^ 137\<close> exceeds \<open>256 ^ 100\<close>, so the buffers of
  \<open>len * 138 / 100 + 1\<close> and of \<open>len * 137 / 100 + 1\<close> bytes are never outgrown.
\<close>

lemma base58_digits_bound:
  assumes "n < 256 ^ k"
  shows "length (digits_of 58 n) \<le> k * 137 div 100 + 1"
proof (rule ccontr)
  let ?m = "length (digits_of 58 n)" and ?q = "k * 137 div 100 + 1"
  assume "\<not> ?m \<le> ?q"
  then have m: "?q \<le> ?m - 1" "digits_of 58 n \<noteq> []" by auto
  have "(58::nat) ^ ?q \<le> 58 ^ (?m - 1)" using m by (intro power_increasing) auto
  also have "\<dots> \<le> num 58 (digits_of 58 n)" by (rule num_ge [OF m(2) last_digits_of [OF m(2)]])
  also have "\<dots> < 256 ^ k" using assms by simp
  finally have lt: "(58::nat) ^ ?q < 256 ^ k" .
  have "(58::nat) ^ (k * 137) \<le> 58 ^ (100 * ?q)" by (intro power_increasing) auto
  also have "\<dots> = (58 ^ ?q) ^ 100" by (simp only: power_mult [symmetric] mult.commute)
  also have "\<dots> < (256 ^ k) ^ 100" using lt by (intro power_strict_mono) auto
  also have "\<dots> = ((256::nat) ^ 100) ^ k" by (simp only: power_mult [symmetric] mult.commute)
  also have "\<dots> \<le> ((58::nat) ^ 137) ^ k" by (rule power_mono) simp_all
  also have "\<dots> = 58 ^ (k * 137)" by (simp only: power_mult [symmetric] mult.commute)
  finally show False by simp
qed

lemma length_base58Encode: "length (base58Encode b) \<le> length b * 137 div 100 + 1"
proof -
  obtain r where r: "b = replicate (leading_zeros b) 0 @ r" using leading_zeros_split by blast
  then have len: "length b = leading_zeros b + length r"
    by (metis length_append length_replicate)
  have "set_bytes b = set_bytes r"
    using set_bytes_zeros [of "leading_zeros b" r] by (simp only: r [symmetric])
  also have "\<dots> < 256 ^ length r"
    using num_less [of "rev (map unat r)" 256] by (simp add: set_bytes_def unat_u8_lt)
  finally have "length (digits_of 58 (set_bytes b)) \<le> length r * 137 div 100 + 1"
    by (rule base58_digits_bound)
  then show ?thesis by (simp add: base58_shape len)
qed

section \<open>Base 64 without padding\<close>

definition base64Std :: string where
  "base64Std = ''ABCDEFGHIJKLMNOPQRSTUVWXYZabcdefghijklmnopqrstuvwxyz0123456789+/''"

definition base64URL :: string where
  "base64URL = ''ABCDEFGHIJKLMNOPQRSTUVWXYZabcdefghijklmnopqrstuvwxyz0123456789-_''"

fun b64_digits :: "nat list \<Rightarrow> nat list" where
  "b64_digits (a # b # c # r) =
     a div 4 # (a mod 4 * 16 + b div 16) # (b mod 16 * 4 + c div 64) # c mod 64 # b64_digits r"
| "b64_digits [a, b] = [a div 4, a mod 4 * 16 + b div 16, b mod 16 * 4]"
| "b64_digits [a] = [a div 4, a mod 4 * 16]"
| "b64_digits [] = []"

fun b64_undigits :: "nat list \<Rightarrow> nat list option" where
  "b64_undigits (p # q # r # s # t) =
     map_option (\<lambda>rest. (p * 4 + q div 16) # (q mod 16 * 16 + r div 4) # (r mod 4 * 64 + s) # rest)
       (b64_undigits t)"
| "b64_undigits [p, q, r] = Some [p * 4 + q div 16, q mod 16 * 16 + r div 4]"
| "b64_undigits [p, q] = Some [p * 4 + q div 16]"
| "b64_undigits [p] = None"
| "b64_undigits [] = Some []"

definition b64_encode :: "string \<Rightarrow> bytes \<Rightarrow> string" where
  "b64_encode alphabet b = map (\<lambda>d. alphabet ! d) (b64_digits (map unat b))"

fun index_of :: "char \<Rightarrow> string \<Rightarrow> nat option" where
  "index_of c [] = None"
| "index_of c (x # xs) = (if x = c then Some 0 else map_option Suc (index_of c xs))"

fun all_some :: "'a option list \<Rightarrow> 'a list option" where
  "all_some [] = Some []"
| "all_some (None # xs) = None"
| "all_some (Some x # xs) = map_option ((#) x) (all_some xs)"

definition b64_decode :: "string \<Rightarrow> string \<Rightarrow> bytes option" where
  "b64_decode alphabet s =
     (case all_some (map (\<lambda>c. index_of c alphabet)
              (filter (\<lambda>c. c \<noteq> CHR 0x0A \<and> c \<noteq> CHR 0x0D) s)) of
        None \<Rightarrow> None
      | Some ds \<Rightarrow> map_option (map of_nat) (b64_undigits ds))"

lemma b64_digits_less: "\<forall>x\<in>set bs. x < 256 \<Longrightarrow> d \<in> set (b64_digits bs) \<Longrightarrow> d < 64"
  by (induction bs rule: b64_digits.induct) auto

lemma b64_undigits_digits:
  "\<forall>x\<in>set bs. x < 256 \<Longrightarrow> b64_undigits (b64_digits bs) = Some bs"
proof (induction bs rule: b64_digits.induct)
  case (1 a b c r)
  have "a div 4 * 4 + (a mod 4 * 16 + b div 16) div 16 = a"
    "(a mod 4 * 16 + b div 16) mod 16 * 16 + (b mod 16 * 4 + c div 64) div 4 = b"
    "(b mod 16 * 4 + c div 64) mod 4 * 64 + c mod 64 = c"
    using 1(2) by auto
  with 1 show ?case by simp
next
  case (2 a b)
  have "a div 4 * 4 + (a mod 4 * 16 + b div 16) div 16 = a"
    "(a mod 4 * 16 + b div 16) mod 16 * 16 + (b mod 16 * 4) div 4 = b"
    using 2 by auto
  then show ?case by simp
qed auto

lemma index_of_nth: "distinct xs \<Longrightarrow> i < length xs \<Longrightarrow> index_of (xs ! i) xs = Some i"
proof (induction xs arbitrary: i)
  case (Cons x xs)
  then show ?case by (cases i) (auto simp: in_set_conv_nth)
qed simp

lemma all_some_map_Some [simp]: "all_some (map Some xs) = Some xs"
  by (induction xs) simp_all

definition b64_alphabet :: "string \<Rightarrow> bool" where
  "b64_alphabet a \<longleftrightarrow> distinct a \<and> length a = 64 \<and> CHR 0x0A \<notin> set a \<and> CHR 0x0D \<notin> set a
     \<and> CHR ''$'' \<notin> set a \<and> CHR ''.'' \<notin> set a"

lemma b64_alphabets [simp]: "b64_alphabet base64Std" "b64_alphabet base64URL"
  by (simp_all add: b64_alphabet_def base64Std_def base64URL_def)

lemma set_b64_encode:
  assumes "b64_alphabet a"
  shows "set (b64_encode a b) \<subseteq> set a"
proof -
  have "d < length a" if "d \<in> set (b64_digits (map unat b))" for d
    using b64_digits_less [OF _ that] assms by (auto simp: unat_u8_lt b64_alphabet_def)
  then show ?thesis by (auto simp: b64_encode_def)
qed

lemma b64_encode_chars:
  assumes "b64_alphabet a"
  shows "CHR ''$'' \<notin> set (b64_encode a b)" and "CHR ''.'' \<notin> set (b64_encode a b)"
  using set_b64_encode [OF assms] assms by (auto simp: b64_alphabet_def)

lemma b64_decode_encode:
  assumes "b64_alphabet a"
  shows "b64_decode a (b64_encode a b) = Some b"
proof -
  let ?ds = "b64_digits (map unat b)"
  have ds: "d < length a" if "d \<in> set ?ds" for d
    using b64_digits_less [OF _ that] assms by (auto simp: unat_u8_lt b64_alphabet_def)
  have keep: "filter (\<lambda>c. c \<noteq> CHR 0x0A \<and> c \<noteq> CHR 0x0D) (b64_encode a b) = b64_encode a b"
    using set_b64_encode [OF assms, of b] assms
    by (auto simp: filter_id_conv b64_alphabet_def)
  have "map (\<lambda>c. index_of c a) (b64_encode a b) = map Some ?ds"
    using assms ds by (simp add: b64_encode_def b64_alphabet_def index_of_nth)
  moreover have "b64_undigits ?ds = Some (map unat b)"
    by (rule b64_undigits_digits) (auto simp: unat_u8_lt)
  moreover have "map of_nat (map unat b) = b" by (simp add: map_idI)
  ultimately show ?thesis by (simp only: b64_decode_def keep all_some_map_Some option.case option.map)
qed

lemma b64_encode_Nil_iff [simp]: "b64_encode a b = [] \<longleftrightarrow> b = []"
  by (cases b rule: list.exhaust [case_product]) (auto simp: b64_encode_def elim: b64_digits.elims)

lemma Nil_eq_b64_encode [simp]: "[] = b64_encode a b \<longleftrightarrow> b = []"
  using b64_encode_Nil_iff by metis

section \<open>Fields of a text\<close>

text \<open>\<open>strings.Split\<close> at one character.\<close>

fun split_on :: "char \<Rightarrow> string \<Rightarrow> string list" where
  "split_on sep [] = [[]]"
| "split_on sep (c # s) = (if c = sep then [] # split_on sep s
     else case split_on sep s of [] \<Rightarrow> [[c]] | f # fs \<Rightarrow> (c # f) # fs)"

lemma split_on_not_Nil [simp]: "split_on sep s \<noteq> []"
  by (induction s) (auto split: list.splits)

lemma split_on_field: "sep \<notin> set x \<Longrightarrow> split_on sep (x @ sep # y) = x # split_on sep y"
  by (induction x) auto

lemma split_on_last: "sep \<notin> set x \<Longrightarrow> split_on sep x = [x]"
  by (induction x) auto

lemma cut_field: "sep \<notin> set x \<Longrightarrow> cut sep (x @ sep # y) = Some (x, y)"
  by (induction x) auto

text \<open>\<open>strconv.ParseUint\<close> at base 10.\<close>

definition parse_uint :: "nat \<Rightarrow> string \<Rightarrow> nat option" where
  "parse_uint width s = (if s = [] then None
     else case digits_val 0 s of None \<Rightarrow> None
        | Some n \<Rightarrow> if n < 2 ^ width then Some n else None)"

definition is_digit :: "char \<Rightarrow> bool" where
  "is_digit c \<longleftrightarrow> 48 \<le> (of_char c :: nat) \<and> (of_char c :: nat) \<le> 57"

text \<open>
  \<open>fmt.Sscanf\<close> with one \<open>%d\<close> after a literal: blanks before the number are skipped, a sign is
  accepted, and what follows the digits is left unread. Blanks outside ASCII are not modelled.
\<close>

definition scan_blank :: "char \<Rightarrow> bool" where
  "scan_blank c \<longleftrightarrow> c \<in> {CHR '' '', CHR 0x09, CHR 0x0B, CHR 0x0C, CHR 0x0D}"

definition sscanf_d :: "string \<Rightarrow> string \<Rightarrow> int option" where
  "sscanf_d lit s = (case cut_prefix s lit of None \<Rightarrow> None
     | Some r \<Rightarrow> let t = dropWhile scan_blank r;
         neg = (t \<noteq> [] \<and> hd t = CHR ''-'');
         u = (if t \<noteq> [] \<and> (hd t = CHR ''-'' \<or> hd t = CHR ''+'') then tl t else t);
         ds = takeWhile is_digit u
       in if ds = [] then None
          else case digits_val 0 ds of None \<Rightarrow> None
            | Some n \<Rightarrow> let i = (if neg then - int n else int n)
                in if - (2 ^ 63) \<le> i \<and> i < 2 ^ 63 then Some i else None)"

lemma digits_val_append:
  "digits_val acc (x @ y) = (case digits_val acc x of None \<Rightarrow> None | Some n \<Rightarrow> digits_val n y)"
  by (induction acc x rule: digits_val.induct) auto

lemma nat_dec_not_Nil [simp]: "nat_dec n \<noteq> []"
  by (subst nat_dec.simps) simp

lemma of_char_digit: "d < 10 \<Longrightarrow> (of_char (char_of (48 + d) :: char) :: nat) = 48 + d"
  by (simp add: of_char_of)

lemma digits_val_nat_dec: "digits_val 0 (nat_dec n) = Some n"
proof (induction n rule: nat_dec.induct)
  case (1 n)
  show ?case
  proof (cases "n < 10")
    case True
    then show ?thesis by (subst nat_dec.simps) (simp add: of_char_digit)
  next
    case False
    with 1 show ?thesis
      by (subst nat_dec.simps) (simp add: digits_val_append of_char_digit)
  qed
qed

lemma nat_dec_digits: "c \<in> set (nat_dec n) \<Longrightarrow> is_digit c"
proof (induction n rule: nat_dec.induct)
  case (1 n)
  then show ?case
    by (subst (asm) (2) nat_dec.simps)
      (auto simp: is_digit_def of_char_digit split: if_splits)
qed

lemma takeWhile_digits: "takeWhile is_digit (nat_dec n) = nat_dec n"
  using nat_dec_digits by (simp add: takeWhile_eq_all_conv)

lemma parse_uint_nat_dec: "n < 2 ^ w \<Longrightarrow> parse_uint w (nat_dec n) = Some n"
  by (simp add: parse_uint_def digits_val_nat_dec)

end
