(* ===== verification/Auth_Password.thy ===== *)
theory Auth_Password
  imports Encoding
begin

text \<open>
  Password hashing (\<open>internal/auth/password.go\<close>): the argon2id parameters, the PHC string a
  hash is stored as, its parser, and \<open>Params.Hash\<close> and \<open>Params.Verify\<close>. The key derivation
  \<open>argon2.IDKey\<close> comes from another module: it is the parameter \<open>kdf\<close>. The salt that
  \<open>crypto/rand\<close> fills is an argument (\<open>None\<close> when the source of entropy fails), and so is
  \<open>runtime.NumCPU\<close>.
\<close>

record params =
  pr_Memory :: u32
  pr_Time :: u32
  pr_Parallelism :: u8
  pr_SaltLen :: int
  pr_KeyLen :: u32

text \<open>\<open>argon2.IDKey(password, salt, time, memory, threads, keyLen)\<close>.\<close>

type_synonym kdf = "string \<Rightarrow> bytes \<Rightarrow> u32 \<Rightarrow> u32 \<Rightarrow> u8 \<Rightarrow> u32 \<Rightarrow> bytes"

datatype password_error =
    PwMismatch | PwEntropy | PwMalformed string
  | PwTooShort | PwTooLong

definition MinPasswordLen :: nat where "MinPasswordLen = 8"
definition MaxPasswordLen :: nat where "MaxPasswordLen = 1024"

definition ValidatePassword :: "string \<Rightarrow> password_error option" where
  "ValidatePassword password =
     (if length password < MinPasswordLen then Some PwTooShort
      else if length password > MaxPasswordLen then Some PwTooLong
      else None)"

definition DefaultParams :: "int \<Rightarrow> params" where
  "DefaultParams numCPU =
     (let p = (if numCPU < 4 then word_of_int numCPU else 4);
          p = (if p < 1 then 1 else p)
      in \<lparr>pr_Memory = 64 * 1024, pr_Time = 2, pr_Parallelism = p, pr_SaltLen = 16, pr_KeyLen = 32\<rparr>)"

definition withDefaults :: "int \<Rightarrow> params \<Rightarrow> params" where
  "withDefaults numCPU p =
     (let d = DefaultParams numCPU
      in \<lparr>pr_Memory = (if pr_Memory p = 0 then pr_Memory d else pr_Memory p),
          pr_Time = (if pr_Time p = 0 then pr_Time d else pr_Time p),
          pr_Parallelism = (if pr_Parallelism p = 0 then pr_Parallelism d else pr_Parallelism p),
          pr_SaltLen = (if pr_SaltLen p = 0 then pr_SaltLen d else pr_SaltLen p),
          pr_KeyLen = (if pr_KeyLen p = 0 then pr_KeyLen d else pr_KeyLen p)\<rparr>)"

definition weakerThan :: "params \<Rightarrow> params \<Rightarrow> bool" where
  "weakerThan p want \<longleftrightarrow>
     pr_Memory p < pr_Memory want \<or> pr_Time p < pr_Time want \<or> pr_KeyLen p < pr_KeyLen want"

definition params_key :: "kdf \<Rightarrow> params \<Rightarrow> string \<Rightarrow> bytes \<Rightarrow> bytes" where
  "params_key kdf p password salt =
     kdf password salt (pr_Time p) (pr_Memory p) (pr_Parallelism p) (pr_KeyLen p)"

definition phcPrefix :: string where "phcPrefix = ''$argon2id$''"
definition phcVersion :: nat where "phcVersion = 19"

definition phc_encode :: "params \<Rightarrow> bytes \<Rightarrow> bytes \<Rightarrow> string" where
  "phc_encode p salt key =
     phcPrefix @ ''v='' @ nat_dec phcVersion
     @ ''$m='' @ nat_dec (unat (pr_Memory p)) @ '',t='' @ nat_dec (unat (pr_Time p))
     @ '',p='' @ nat_dec (unat (pr_Parallelism p))
     @ ''$'' @ b64_encode base64Std salt @ ''$'' @ b64_encode base64Std key"

text \<open>One \<open>name=value\<close> of the parameter field, into \<open>(mem, t, par)\<close>.\<close>

definition phc_param :: "string \<Rightarrow> nat \<times> nat \<times> nat \<Rightarrow> password_error + nat \<times> nat \<times> nat" where
  "phc_param f acc =
     (case cut CHR ''='' f of
        None \<Rightarrow> Inl (PwMalformed (''unreadable parameter '' @ f))
      | Some (name, v) \<Rightarrow>
         (case parse_uint 32 v of
            None \<Rightarrow> Inl (PwMalformed (''unreadable parameter '' @ name))
          | Some n \<Rightarrow>
             (case acc of (mem, t, par) \<Rightarrow>
                if name = ''m'' then Inr (n, t, par)
                else if name = ''t'' then Inr (mem, n, par)
                else if name = ''p'' then Inr (mem, t, n)
                else Inl (PwMalformed (''unknown parameter '' @ name)))))"

fun phc_params :: "string list \<Rightarrow> nat \<times> nat \<times> nat \<Rightarrow> password_error + nat \<times> nat \<times> nat" where
  "phc_params [] acc = Inr acc"
| "phc_params (f # fs) acc = bind_res (phc_param f acc) (phc_params fs)"

definition phc_key_fields :: "nat \<times> nat \<times> nat \<Rightarrow> string \<Rightarrow> string
    \<Rightarrow> password_error + params \<times> bytes \<times> bytes" where
  "phc_key_fields mtp s k = (case mtp of (mem, t, par) \<Rightarrow>
     if mem = 0 \<or> t = 0 \<or> par = 0 \<or> par > 255
     then Inl (PwMalformed ''a parameter is out of range'')
     else case b64_decode base64Std s of
        None \<Rightarrow> Inl (PwMalformed ''unreadable salt'')
      | Some salt \<Rightarrow> if salt = [] then Inl (PwMalformed ''unreadable salt'')
         else (case b64_decode base64Std k of
            None \<Rightarrow> Inl (PwMalformed ''unreadable hash'')
          | Some key \<Rightarrow> if key = [] then Inl (PwMalformed ''unreadable hash'')
             else Inr (\<lparr>pr_Memory = of_nat mem, pr_Time = of_nat t, pr_Parallelism = of_nat par,
                        pr_SaltLen = int (length salt), pr_KeyLen = of_nat (length key)\<rparr>,
                       salt, key)))"

definition phc_decode :: "string \<Rightarrow> password_error + params \<times> bytes \<times> bytes" where
  "phc_decode encoded =
     (case cut_prefix encoded phcPrefix of
        None \<Rightarrow> Inl (PwMalformed ''not an argon2id PHC string'')
      | Some body \<Rightarrow>
         (case split_on CHR ''$'' body of
            [v, ps, s, k] \<Rightarrow>
             (case sscanf_d ''v='' v of
                None \<Rightarrow> Inl (PwMalformed ''unreadable version'')
              | Some version \<Rightarrow>
                 if version \<noteq> int phcVersion
                 then Inl (PwMalformed (''unsupported argon2 version '' @ int_dec version))
                 else let fields = split_on CHR '','' ps
                  in if length fields \<noteq> 3 then Inl (PwMalformed ''wrong number of parameters'')
                     else bind_res (phc_params fields (0, 0, 0)) (\<lambda>mtp. phc_key_fields mtp s k))
          | _ \<Rightarrow> Inl (PwMalformed ''wrong number of fields'')))"

definition params_Hash ::
    "kdf \<Rightarrow> int \<Rightarrow> params \<Rightarrow> (nat \<Rightarrow> bytes option) \<Rightarrow> string \<Rightarrow> password_error + string" where
  "params_Hash kdf numCPU p0 rand password =
     (let p = withDefaults numCPU p0
      in case rand (nat (pr_SaltLen p)) of
           None \<Rightarrow> Inl PwEntropy
         | Some salt \<Rightarrow> Inr (phc_encode p salt (params_key kdf p password salt)))"

text \<open>The verdict of \<open>Verify\<close>: the error, or whether the hash wants a stronger one.\<close>

definition params_Verify ::
    "kdf \<Rightarrow> int \<Rightarrow> params \<Rightarrow> string \<Rightarrow> string \<Rightarrow> password_error + bool" where
  "params_Verify kdf numCPU p encoded password =
     bind_res (phc_decode encoded) (\<lambda>(stored, salt, key).
       if params_key kdf stored password salt \<noteq> key then Inl PwMismatch
       else Inr (weakerThan stored (withDefaults numCPU p)))"

section \<open>What is encoded is decoded\<close>

lemma sscanf_version: "sscanf_d ''v='' (''v='' @ nat_dec phcVersion) = Some (int phcVersion)"
  by code_simp

lemma phc_param_field:
  assumes "CHR ''='' \<notin> set name" and "n < 2 ^ 32"
  shows "phc_param (name @ CHR ''='' # nat_dec n) (mem, t, par) =
     (if name = ''m'' then Inr (n, t, par)
      else if name = ''t'' then Inr (mem, n, par)
      else if name = ''p'' then Inr (mem, t, n)
      else Inl (PwMalformed (''unknown parameter '' @ name)))"
  using assms by (simp add: phc_param_def cut_field parse_uint_nat_dec)

lemma nat_dec_no: "\<not> is_digit c \<Longrightarrow> c \<notin> set (nat_dec n)"
  using nat_dec_digits by blast

lemma seps_not_digits: "\<not> is_digit CHR ''$''" "\<not> is_digit CHR '',''"
  by code_simp+

definition storable :: "params \<Rightarrow> bytes \<Rightarrow> bytes \<Rightarrow> bool" where
  "storable p salt key \<longleftrightarrow> pr_Memory p \<noteq> 0 \<and> pr_Time p \<noteq> 0 \<and> pr_Parallelism p \<noteq> 0
     \<and> salt \<noteq> [] \<and> key \<noteq> [] \<and> pr_SaltLen p = int (length salt)
     \<and> unat (pr_KeyLen p) = length key"

lemma phc_params_encode:
  assumes "storable p salt key"
  shows "phc_params [''m='' @ nat_dec (unat (pr_Memory p)), ''t='' @ nat_dec (unat (pr_Time p)),
      ''p='' @ nat_dec (unat (pr_Parallelism p))] (0, 0, 0)
    = Inr (unat (pr_Memory p), unat (pr_Time p), unat (pr_Parallelism p))"
proof -
  have b: "unat (pr_Memory p) < 2 ^ 32" "unat (pr_Time p) < 2 ^ 32"
    "unat (pr_Parallelism p) < 2 ^ 32"
    using unsigned_less [of "pr_Memory p", where 'a = nat] unsigned_less [of "pr_Time p", where 'a = nat]
      unat_u8_lt [of "pr_Parallelism p"] by simp_all
  show ?thesis
    using phc_param_field [of "''m''", OF _ b(1)] phc_param_field [of "''t''", OF _ b(2)]
      phc_param_field [of "''p''", OF _ b(3)]
    by simp
qed

lemma unat_back: "word_of_nat (unat w) = w"
  by simp

lemma phc_key_fields_encode:
  assumes "storable p salt key"
  shows "phc_key_fields (unat (pr_Memory p), unat (pr_Time p), unat (pr_Parallelism p))
      (b64_encode base64Std salt) (b64_encode base64Std key) = Inr (p, salt, key)"
proof -
  have "\<not> unat (pr_Parallelism p) > 255" using unat_u8_lt [of "pr_Parallelism p"] by simp
  moreover have "word_of_nat (length key) = pr_KeyLen p"
    using assms unat_back [of "pr_KeyLen p"] by (simp only: storable_def)
  moreover have "unat (pr_Memory p) \<noteq> 0" "unat (pr_Time p) \<noteq> 0" "unat (pr_Parallelism p) \<noteq> 0"
    "salt \<noteq> []" "key \<noteq> []" "int (length salt) = pr_SaltLen p"
    using assms by (simp_all add: storable_def unat_eq_0)
  ultimately show ?thesis
    by (simp only: phc_key_fields_def prod.case b64_decode_encode [OF b64_alphabets(1)]
        option.case if_False unat_back simp_thms not_not) simp
qed

lemma phc_decode_encode:
  assumes "storable p salt key"
  shows "phc_decode (phc_encode p salt key) = Inr (p, salt, key)"
proof -
  let ?v = "''v='' @ nat_dec phcVersion"
  let ?m = "''m='' @ nat_dec (unat (pr_Memory p))"
  let ?t = "''t='' @ nat_dec (unat (pr_Time p))"
  let ?p = "''p='' @ nat_dec (unat (pr_Parallelism p))"
  let ?ps = "?m @ CHR '','' # ?t @ CHR '','' # ?p"
  let ?s = "b64_encode base64Std salt" and ?k = "b64_encode base64Std key"
  note no = nat_dec_no [OF seps_not_digits(1)] nat_dec_no [OF seps_not_digits(2)]
  have commas: "CHR '','' \<notin> set ?m" "CHR '','' \<notin> set ?t" "CHR '','' \<notin> set ?p"
    using no by simp_all
  have dollars: "CHR ''$'' \<notin> set ?v" "CHR ''$'' \<notin> set ?ps" "CHR ''$'' \<notin> set ?s" "CHR ''$'' \<notin> set ?k"
    using no b64_encode_chars(1) [OF b64_alphabets(1)] by simp_all
  have fields: "split_on CHR '','' ?ps = [?m, ?t, ?p]"
    by (simp only: split_on_field [OF commas(1)] split_on_field [OF commas(2)]
        split_on_last [OF commas(3)])
  have body: "split_on CHR ''$'' (?v @ CHR ''$'' # ?ps @ CHR ''$'' # ?s @ CHR ''$'' # ?k)
      = [?v, ?ps, ?s, ?k]"
    by (simp only: split_on_field [OF dollars(1)] split_on_field [OF dollars(2)]
        split_on_field [OF dollars(3)] split_on_last [OF dollars(4)])
  have "phc_encode p salt key = phcPrefix @ ?v @ CHR ''$'' # ?ps @ CHR ''$'' # ?s @ CHR ''$'' # ?k"
    by (simp add: phc_encode_def)
  then have "cut_prefix (phc_encode p salt key) phcPrefix
      = Some (?v @ CHR ''$'' # ?ps @ CHR ''$'' # ?s @ CHR ''$'' # ?k)"
    by (simp only: cut_prefix_eq_Some)
  then show ?thesis
    unfolding phc_decode_def
    by (simp only: option.case body list.case sscanf_version fields Let_def list.size
        phc_params_encode [OF assms] bind_res_simps phc_key_fields_encode [OF assms]) simp
qed

end
