(* ===== verification/Auth_Service.thy ===== *)
theory Auth_Service
  imports Auth_Store Auth_Password
begin

text \<open>
  The authentication service (\<open>internal/auth/service.go\<close>, \<open>session.go\<close>, \<open>setuptoken.go\<close>): the
  policy, sessions and their CSRF tokens, login with its lockout, the one-time setup token and
  the claim.

  SHA-256 and HMAC are the parameters \<open>g_sha\<close> (hex digest of a text) and \<open>g_hmac\<close> (key and
  message), argon2id is \<open>g_kdf\<close>. Whatever differs from one call to the next is the call's
  environment: the clock, the settings, the ids \<open>store.NewID\<close> mints, the random bytes, and
  which of the calls to the database and to the file system fail. A transaction that fails
  leaves the tables as they were. The setup-token file is the second component of the state.
\<close>

section \<open>Configuration and environment\<close>

record auth_cfg =
  g_sha :: "string \<Rightarrow> string"
  g_hmac :: "string \<Rightarrow> string \<Rightarrow> bytes"
  g_kdf :: kdf
  g_cpus :: int
  g_params :: params
  g_touch :: int
  g_stateDir :: string

record auth_env =
  x_now :: unix_ms
  x_settings :: "(string \<Rightarrow> int option) option"
  x_read_ok :: bool
  x_write_ok :: bool
  x_attempt_id :: string
  x_session_id :: string
  x_event_id :: string
  x_salt :: "nat \<Rightarrow> bytes option"
  x_secret :: "bytes option"
  x_csrf :: "bytes option"
  x_token :: "bytes option"
  x_rm_ok :: bool
  x_stat_ok :: bool
  x_open_ok :: bool
  x_put :: "nat option"
  x_close_ok :: bool
  x_chmod_ok :: bool

record auth_state =
  a_db :: auth_db
  a_file :: "string option"

datatype auth_error =
    ENoSession | ESetupTokenRequired | EAlreadyClaimed | EStore store_error
  | EBadCredentials string | ELockedOut int | EPassword password_error | EEntropy
  | EFile string | ENoStateDir

definition read_tx :: "auth_env \<Rightarrow> (auth_db \<Rightarrow> auth_error + 'a) \<Rightarrow> auth_db \<Rightarrow> auth_error + 'a" where
  "read_tx x f db = (if x_read_ok x then f db else Inl (EStore StBusy))"

definition write_tx ::
    "auth_env \<Rightarrow> (auth_db \<Rightarrow> auth_error + auth_db \<times> 'a) \<Rightarrow> auth_db \<Rightarrow> auth_db \<times> (auth_error + 'a)" where
  "write_tx x f db = (if x_write_ok x then transact f db else (db, Inl (EStore StBusy)))"

definition st :: "store_error + 'a \<Rightarrow> auth_error + 'a" where
  "st r = (case r of Inl e \<Rightarrow> Inl (EStore e) | Inr a \<Rightarrow> Inr a)"

text \<open>A row that may be missing: \<open>errors.Is(err, store.ErrNotFound)\<close>.\<close>

definition optional_row :: "store_error + 'a \<Rightarrow> auth_error + 'a option" where
  "optional_row r = (case r of Inr a \<Rightarrow> Inr (Some a) | Inl StNotFound \<Rightarrow> Inr None | Inl e \<Rightarrow> Inl (EStore e))"

section \<open>Policy\<close>

text \<open>A \<open>time.Duration\<close> counts nanoseconds in an \<open>int64\<close>; products wrap.\<close>

definition wrap64 :: "int \<Rightarrow> int" where
  "wrap64 i = signed_take_bit 63 i"

definition Second :: int where "Second = 1000000000"
definition Hour :: int where "Hour = 3600 * Second"

definition tdiv :: "int \<Rightarrow> int \<Rightarrow> int" where
  "tdiv a b = (if a < 0 then - ((- a) div b) else a div b)"

definition millis :: "int \<Rightarrow> int" where
  "millis d = tdiv d 1000000"

record policy =
  p_sessionTTL :: int
  p_idleTimeout :: int
  p_maxAttempts :: int
  p_window :: int
  p_lockout :: int

definition default_policy :: policy where
  "default_policy = \<lparr>p_sessionTTL = 720 * Hour, p_idleTimeout = 168 * Hour, p_maxAttempts = 8,
                     p_window = 300 * Second, p_lockout = 900 * Second\<rparr>"

definition policy_of :: "auth_env \<Rightarrow> policy" where
  "policy_of x = (case x_settings x of
     None \<Rightarrow> default_policy
   | Some get \<Rightarrow>
      (let val = (\<lambda>key fallback. case get key of None \<Rightarrow> fallback | Some v \<Rightarrow> v)
       in \<lparr>p_sessionTTL = wrap64 (val ''security.session_ttl_hours'' 720 * Hour),
           p_idleTimeout = wrap64 (val ''security.idle_timeout_hours'' 168 * Hour),
           p_maxAttempts = val ''security.login_max_attempts'' 8,
           p_window = wrap64 (val ''security.login_window_sec'' 300 * Second),
           p_lockout = wrap64 (val ''security.lockout_sec'' 900 * Second)\<rparr>))"

section \<open>Session secrets\<close>

definition hashSecret :: "auth_cfg \<Rightarrow> string \<Rightarrow> string" where
  "hashSecret c secret = g_sha c secret"

definition randomSecret :: "bytes option \<Rightarrow> auth_error + string" where
  "randomSecret r = (case r of None \<Rightarrow> Inl EEntropy | Some b \<Rightarrow> Inr (b64_encode base64URL b))"

definition composeCookie :: "string \<Rightarrow> string \<Rightarrow> string" where
  "composeCookie i secret = i @ CHR ''.'' # secret"

definition splitCookie :: "string \<Rightarrow> (string \<times> string) option" where
  "splitCookie v = (case cut CHR ''.'' v of None \<Rightarrow> None
     | Some (i, secret) \<Rightarrow> if i = [] \<or> secret = [] then None else Some (i, secret))"

definition CSRFToken :: "auth_cfg \<Rightarrow> string \<Rightarrow> string \<Rightarrow> string" where
  "CSRFToken c sessionID csrfSecret = b64_encode base64URL (g_hmac c csrfSecret sessionID)"

definition verify_csrf :: "auth_cfg \<Rightarrow> string \<Rightarrow> string \<Rightarrow> string \<Rightarrow> string \<Rightarrow> bool" where
  "verify_csrf c sessionID csrfSecret cookie header =
     (if cookie = [] \<or> header = [] then False
      else let want = CSRFToken c sessionID csrfSecret in cookie = want \<and> header = want)"

definition optional :: "string \<Rightarrow> string option" where
  "optional v = (if v = [] then None else Some v)"

section \<open>Sessions\<close>

definition SetupComplete :: "auth_env \<Rightarrow> auth_db \<Rightarrow> auth_error + bool" where
  "SetupComplete x db = read_tx x (\<lambda>db. Inr (AdminAccountExists db)) db"

text \<open>The checks of \<open>ResolveSession\<close> on the row that was read.\<close>

definition session_admits :: "auth_cfg \<Rightarrow> auth_env \<Rightarrow> string \<Rightarrow> session \<Rightarrow> bool" where
  "session_admits c x secret s \<longleftrightarrow>
     hashSecret c secret = ss_TokenHash s
   \<and> session_live s (x_now x)
   \<and> \<not> (0 < p_idleTimeout (policy_of x)
        \<and> ss_LastSeenAt s + millis (p_idleTimeout (policy_of x)) \<le> x_now x)"

definition touched :: "auth_env \<Rightarrow> string \<Rightarrow> string \<Rightarrow> session \<Rightarrow> session" where
  "touched x ip ua s = s\<lparr>ss_LastSeenAt := x_now x, ss_IP := optional ip, ss_UserAgent := optional ua\<rparr>"

definition slide_session ::
    "auth_cfg \<Rightarrow> auth_env \<Rightarrow> string \<Rightarrow> string \<Rightarrow> session \<Rightarrow> auth_db \<Rightarrow> auth_db \<times> session" where
  "slide_session c x ip ua s db =
     (if x_now x - ss_LastSeenAt s \<ge> millis (g_touch c) then
        case write_tx x (\<lambda>db. Inr (TouchSession (ss_ID s) (x_now x) (optional ip) (optional ua) db, ())) db of
          (db', Inl _) \<Rightarrow> (db', s)
        | (db', Inr _) \<Rightarrow> (db', touched x ip ua s)
      else (db, s))"

definition ResolveSession :: "auth_cfg \<Rightarrow> auth_env \<Rightarrow> string \<Rightarrow> string \<Rightarrow> string \<Rightarrow> auth_db
    \<Rightarrow> auth_db \<times> (auth_error + session)" where
  "ResolveSession c x cookie ip ua db =
     (if cookie = [] then (db, Inl ENoSession)
      else case splitCookie cookie of
        None \<Rightarrow> (db, Inl ENoSession)
      | Some (i, secret) \<Rightarrow>
         (case read_tx x (\<lambda>db. optional_row (Session i db)) db of
            Inl e \<Rightarrow> (db, Inl e)
          | Inr None \<Rightarrow> (db, Inl ENoSession)
          | Inr (Some s) \<Rightarrow>
             if \<not> session_admits c x secret s then (db, Inl ENoSession)
             else case slide_session c x ip ua s db of (db', s') \<Rightarrow> (db', Inr s')))"

definition VerifyCSRF :: "auth_cfg \<Rightarrow> auth_env \<Rightarrow> string \<Rightarrow> string \<Rightarrow> string \<Rightarrow> auth_db \<Rightarrow> bool" where
  "VerifyCSRF c x sessionID cookie header db =
     (if sessionID = [] \<or> cookie = [] \<or> header = [] then False
      else case read_tx x (\<lambda>db. st (Session sessionID db)) db of
        Inl _ \<Rightarrow> False
      | Inr s \<Rightarrow> verify_csrf c (ss_ID s) (ss_CSRFSecret s) cookie header)"

record session_state =
  so_Authenticated :: bool
  so_SetupComplete :: bool
  so_ExpiresAt :: "unix_ms option"

definition SessionState ::
    "auth_cfg \<Rightarrow> auth_env \<Rightarrow> string \<Rightarrow> auth_db \<Rightarrow> auth_db \<times> (auth_error + session_state)" where
  "SessionState c x cookie db =
     (case SetupComplete x db of
        Inl e \<Rightarrow> (db, Inl e)
      | Inr complete \<Rightarrow>
         (case ResolveSession c x cookie [] [] db of
            (db', Inl e) \<Rightarrow> (db', if e = ENoSession
               then Inr \<lparr>so_Authenticated = False, so_SetupComplete = complete, so_ExpiresAt = None\<rparr>
               else Inl e)
          | (db', Inr s) \<Rightarrow> (db', Inr \<lparr>so_Authenticated = True, so_SetupComplete = complete,
                                       so_ExpiresAt = Some (ss_ExpiresAt s)\<rparr>)))"

record session_credential =
  cr_SessionID :: string
  cr_SessionCookie :: string
  cr_CSRFToken :: string
  cr_ExpiresAt :: unix_ms

definition minted_session :: "auth_cfg \<Rightarrow> auth_env \<Rightarrow> string \<Rightarrow> string \<Rightarrow> string \<Rightarrow> string \<Rightarrow> session" where
  "minted_session c x ip ua secret csrf =
     \<lparr>ss_ID = x_session_id x, ss_TokenHash = hashSecret c secret, ss_CSRFSecret = csrf,
      ss_CreatedAt = x_now x, ss_LastSeenAt = x_now x,
      ss_ExpiresAt = x_now x + millis (p_sessionTTL (policy_of x)), ss_RevokedAt = None,
      ss_IP = optional ip, ss_UserAgent = optional ua\<rparr>"

definition mintSession :: "auth_cfg \<Rightarrow> auth_env \<Rightarrow> string \<Rightarrow> string \<Rightarrow> auth_db
    \<Rightarrow> auth_error + auth_db \<times> session_credential" where
  "mintSession c x ip ua db =
     bind_res (randomSecret (x_secret x)) (\<lambda>secret.
     bind_res (randomSecret (x_csrf x)) (\<lambda>csrf.
       let row = minted_session c x ip ua secret csrf
       in bind_res (st (InsertSession row db)) (\<lambda>db'.
            Inr (db', \<lparr>cr_SessionID = ss_ID row,
                       cr_SessionCookie = composeCookie (ss_ID row) secret,
                       cr_CSRFToken = CSRFToken c (ss_ID row) csrf,
                       cr_ExpiresAt = ss_ExpiresAt row\<rparr>))))"

section \<open>Login and lockout\<close>

definition attempt :: "auth_env \<Rightarrow> string \<Rightarrow> bool \<Rightarrow> login_reason \<Rightarrow> login_attempt" where
  "attempt x ip success reason = \<lparr>la_ID = x_attempt_id x, la_At = x_now x, la_IP = ip,
     la_Success = success, la_Reason = Some reason\<rparr>"

definition recordAttempt ::
    "auth_env \<Rightarrow> string \<Rightarrow> bool \<Rightarrow> login_reason \<Rightarrow> auth_db \<Rightarrow> auth_db \<times> (auth_error + unit)" where
  "recordAttempt x ip success reason db =
     write_tx x (\<lambda>db. bind_res (st (InsertLoginAttempt (attempt x ip success reason) db))
                        (\<lambda>db'. Inr (db', ()))) db"

definition guessReasons :: "login_reason list" where
  "guessReasons = [LoginBadPassword, LoginNoAccount, LoginBadSetupToken]"

definition MaxLockout :: int where "MaxLockout = 24 * Hour"

fun double_capped :: "nat \<Rightarrow> int \<Rightarrow> int" where
  "double_capped 0 d = d"
| "double_capped (Suc n) d = (if d < MaxLockout then double_capped n (d * 2) else d)"

definition lockoutFor :: "int \<Rightarrow> int \<Rightarrow> int" where
  "lockoutFor base strikes =
     (let d = double_capped (nat (strikes - 1)) (if base \<le> 0 then 900 * Second else base)
      in if d > MaxLockout then MaxLockout else d)"

definition lockedOutError :: "int \<Rightarrow> auth_error" where
  "lockedOutError retry =
     (let secs = tdiv (retry + Second - 1) Second in ELockedOut (if secs < 1 then 1 else secs))"

text \<open>From when on the failures of an address count against it.\<close>

definition guess_window :: "auth_env \<Rightarrow> policy \<Rightarrow> string \<Rightarrow> auth_db \<Rightarrow> unix_ms" where
  "guess_window x pol ip db =
     (let since = x_now x - millis (p_window pol);
          since = (case Lockout ip db of Inl _ \<Rightarrow> since
                   | Inr prev \<Rightarrow> if lk_UpdatedAt prev \<ge> since then lk_UpdatedAt prev + 1 else since)
      in case LastSuccessfulLoginAt ip db of None \<Rightarrow> since
         | Some at \<Rightarrow> if at \<ge> since then at + 1 else since)"

definition fail_tx :: "auth_env \<Rightarrow> policy \<Rightarrow> string \<Rightarrow> login_reason \<Rightarrow> auth_db
    \<Rightarrow> auth_error + auth_db \<times> int" where
  "fail_tx x pol ip reason db =
     bind_res (st (InsertLoginAttempt (attempt x ip False reason) db)) (\<lambda>db1.
       let strikes = (case Lockout ip db1 of Inl _ \<Rightarrow> 0 | Inr prev \<Rightarrow> lk_Strikes prev);
           n = CountFailedLoginAttempts ip (guess_window x pol ip db1) guessReasons db1
       in if p_maxAttempts pol \<le> 0 \<or> int n < p_maxAttempts pol then Inr (db1, 0)
          else let locked = lockoutFor (p_lockout pol) (strikes + 1)
               in Inr (PutLockout \<lparr>lk_IP = ip, lk_LockedUntil = x_now x + millis locked,
                                   lk_Strikes = strikes + 1, lk_UpdatedAt = x_now x\<rparr> db1, locked))"

definition failLogin ::
    "auth_env \<Rightarrow> policy \<Rightarrow> string \<Rightarrow> login_reason \<Rightarrow> auth_db \<Rightarrow> auth_db \<times> auth_error" where
  "failLogin x pol ip reason db =
     (case write_tx x (fail_tx x pol ip reason) db of
        (db', Inl e) \<Rightarrow> (db', e)
      | (db', Inr locked) \<Rightarrow>
          (db', if locked > 0 then lockedOutError locked
                else EBadCredentials ''the password is not correct''))"

text \<open>What the first, reading transaction of \<open>Login\<close> brings back.\<close>

record login_view =
  v_lock :: "lockout option"
  v_recorded :: bool
  v_account :: "admin_account option"

definition login_read :: "auth_env \<Rightarrow> string \<Rightarrow> auth_db \<Rightarrow> auth_error + login_view" where
  "login_read x ip db = read_tx x (\<lambda>db.
     bind_res (optional_row (Lockout ip db)) (\<lambda>lock.
     bind_res (optional_row (AdminAccount db)) (\<lambda>acct.
       Inr \<lparr>v_lock = lock,
            v_recorded = (case lock of None \<Rightarrow> False
               | Some l \<Rightarrow> lockout_locked l (x_now x)
                            \<and> HasLoginAttemptSince ip LoginLocked (lk_UpdatedAt l) db),
            v_account = acct\<rparr>))) db"

definition login_tx :: "auth_cfg \<Rightarrow> auth_env \<Rightarrow> string \<Rightarrow> string \<Rightarrow> string \<Rightarrow> bool \<Rightarrow> auth_db
    \<Rightarrow> auth_error + auth_db \<times> session_credential" where
  "login_tx c x password ip ua rehash db =
     bind_res (st (InsertLoginAttempt (attempt x ip True LoginOK) db)) (\<lambda>db1.
       let db2 = DeleteLockout ip db1;
           db3 = (if rehash then
                    case params_Hash (g_kdf c) (g_cpus c) (g_params c) (x_salt x) password of
                      Inl _ \<Rightarrow> db2
                    | Inr nxt \<Rightarrow> fst (SetAdminPassword nxt (x_now x) db2)
                  else db2)
       in mintSession c x ip ua db3)"

text \<open>
  The rest of \<open>Login\<close>, on the tables as they are by then: \<open>login_open\<close> for an address that is
  not blocked, after \<open>login_finish\<close> has turned a blocked one away.
\<close>

definition login_open :: "auth_cfg \<Rightarrow> auth_env \<Rightarrow> string \<Rightarrow> string \<Rightarrow> string \<Rightarrow> admin_account option
    \<Rightarrow> auth_db \<Rightarrow> auth_db \<times> (auth_error + session_credential)" where
  "login_open c x password ip ua account db =
     (case account of
        None \<Rightarrow> (case failLogin x (policy_of x) ip LoginNoAccount db of (db', e) \<Rightarrow> (db', Inl e))
      | Some acct \<Rightarrow>
         (case params_Verify (g_kdf c) (g_cpus c) (g_params c) (aa_PasswordHash acct) password of
            Inl _ \<Rightarrow> (case failLogin x (policy_of x) ip LoginBadPassword db of (db', e) \<Rightarrow> (db', Inl e))
          | Inr rehash \<Rightarrow> write_tx x (login_tx c x password ip ua rehash) db))"

definition login_finish :: "auth_cfg \<Rightarrow> auth_env \<Rightarrow> string \<Rightarrow> string \<Rightarrow> string \<Rightarrow> login_view \<Rightarrow> auth_db
    \<Rightarrow> auth_db \<times> (auth_error + session_credential)" where
  "login_finish c x password ip ua v db =
     (case v_lock v of
        Some l \<Rightarrow>
          if lockout_locked l (x_now x) then
            let retry = (lk_LockedUntil l - x_now x) * 1000000
            in if v_recorded v then (db, Inl (lockedOutError retry))
               else (case recordAttempt x ip False LoginLocked db of
                       (db', Inl e) \<Rightarrow> (db', Inl e)
                     | (db', Inr _) \<Rightarrow> (db', Inl (lockedOutError retry)))
          else login_open c x password ip ua (v_account v) db
      | None \<Rightarrow> login_open c x password ip ua (v_account v) db)"

definition Login :: "auth_cfg \<Rightarrow> auth_env \<Rightarrow> string \<Rightarrow> string \<Rightarrow> string \<Rightarrow> auth_db
    \<Rightarrow> auth_db \<times> (auth_error + session_credential)" where
  "Login c x password ip ua db =
     (case login_read x ip db of Inl e \<Rightarrow> (db, Inl e)
      | Inr v \<Rightarrow> login_finish c x password ip ua v db)"

section \<open>Logout, password changes and the list of sessions\<close>

definition Logout :: "auth_env \<Rightarrow> string \<Rightarrow> auth_db \<Rightarrow> auth_db \<times> (auth_error + unit)" where
  "Logout x sessionID db =
     (if sessionID = [] then (db, Inl ENoSession)
      else write_tx x (\<lambda>db. Inr (fst (RevokeSession sessionID (x_now x) db), ())) db)"

definition auth_event ::
    "auth_env \<Rightarrow> event_level \<Rightarrow> string \<Rightarrow> event_actor \<Rightarrow> string \<Rightarrow> auth_event_row" where
  "auth_event x level action actor message = \<lparr>ev_ID = x_event_id x, ev_At = x_now x,
     ev_Level = level, ev_Action = action, ev_Actor = actor, ev_Message = message\<rparr>"

definition change_tx :: "auth_env \<Rightarrow> string \<Rightarrow> string \<Rightarrow> auth_db \<Rightarrow> auth_error + auth_db \<times> unit" where
  "change_tx x sessionID hash db =
     (let db1 = fst (SetAdminPassword hash (x_now x) db)
      in case RevokeSessionsExcept sessionID (x_now x) db1 of (db2, revoked) \<Rightarrow>
        bind_res (st (AppendEvent (auth_event x LevelWarn ''password_changed'' ActorAdmin
          (''the admin password was changed; '' @ nat_dec revoked @ '' other session(s) were revoked'')) db2))
          (\<lambda>db3. Inr (db3, ())))"

definition ChangePassword :: "auth_cfg \<Rightarrow> auth_env \<Rightarrow> string \<Rightarrow> string \<Rightarrow> string \<Rightarrow> auth_db
    \<Rightarrow> auth_db \<times> (auth_error + unit)" where
  "ChangePassword c x sessionID current nxt db =
     (case ValidatePassword nxt of Some e \<Rightarrow> (db, Inl (EPassword e))
      | None \<Rightarrow>
     (case read_tx x (\<lambda>db. optional_row (AdminAccount db)) db of
        Inl e \<Rightarrow> (db, Inl e)
      | Inr None \<Rightarrow> (db, Inl (EBadCredentials ''this host has no admin account''))
      | Inr (Some acct) \<Rightarrow>
     (case params_Verify (g_kdf c) (g_cpus c) (g_params c) (aa_PasswordHash acct) current of
        Inl e \<Rightarrow> (db, Inl (if e = PwMismatch
                            then EBadCredentials ''the current password is not correct'' else EPassword e))
      | Inr _ \<Rightarrow>
     (case params_Hash (g_kdf c) (g_cpus c) (g_params c) (x_salt x) nxt of
        Inl e \<Rightarrow> (db, Inl (EPassword e))
      | Inr hash \<Rightarrow> write_tx x (change_tx x sessionID hash) db))))"

record session_info =
  si_ID :: string
  si_IP :: "string option"
  si_UserAgent :: "string option"
  si_CreatedAt :: unix_ms
  si_LastSeenAt :: unix_ms
  si_ExpiresAt :: unix_ms
  si_Current :: bool

definition Sessions :: "auth_env \<Rightarrow> string \<Rightarrow> auth_db \<Rightarrow> auth_error + session_info list" where
  "Sessions x currentID db = read_tx x (\<lambda>db. Inr (map (\<lambda>r.
     \<lparr>si_ID = ss_ID r, si_IP = ss_IP r, si_UserAgent = ss_UserAgent r, si_CreatedAt = ss_CreatedAt r,
      si_LastSeenAt = ss_LastSeenAt r, si_ExpiresAt = ss_ExpiresAt r,
      si_Current = (ss_ID r = currentID)\<rparr>) (ActiveSessions (x_now x) db))) db"

definition RevokeSessionAPI :: "auth_env \<Rightarrow> string \<Rightarrow> auth_db \<Rightarrow> auth_db \<times> (auth_error + unit)" where
  "RevokeSessionAPI x i db =
     (case write_tx x (\<lambda>db. Inr (RevokeSession i (x_now x) db)) db of
        (db', Inl e) \<Rightarrow> (db', Inl e)
      | (db', Inr changed) \<Rightarrow> (db', if changed then Inr () else Inl (EStore StNotFound)))"

definition reset_tx :: "auth_env \<Rightarrow> string \<Rightarrow> auth_db \<Rightarrow> auth_error + auth_db \<times> unit" where
  "reset_tx x hash db =
     (case SetAdminPassword hash (x_now x) db of (db1, updated) \<Rightarrow>
        if \<not> updated then Inl (EStore StNotFound)
        else case RevokeSessionsExcept [] (x_now x) db1 of (db2, revoked) \<Rightarrow>
          bind_res (st (AppendEvent (auth_event x LevelWarn ''password_reset'' ActorCLI
            (''the admin password was reset from the host; '' @ nat_dec revoked @ '' session(s) were revoked'')) db2))
            (\<lambda>db3. Inr (db3, ())))"

definition ResetPassword :: "auth_cfg \<Rightarrow> auth_env \<Rightarrow> string \<Rightarrow> auth_db \<Rightarrow> auth_db \<times> (auth_error + unit)" where
  "ResetPassword c x password db =
     (case ValidatePassword password of Some e \<Rightarrow> (db, Inl (EPassword e))
      | None \<Rightarrow> (case params_Hash (g_kdf c) (g_cpus c) (g_params c) (x_salt x) password of
          Inl e \<Rightarrow> (db, Inl (EPassword e))
        | Inr hash \<Rightarrow> write_tx x (reset_tx x hash) db))"

section \<open>The setup token\<close>

definition SetupTokenPath :: "string \<Rightarrow> string" where
  "SetupTokenPath stateDir = stateDir @ ''/setup-token''"

record setup_token =
  tk_Claimed :: bool
  tk_Minted :: bool
  tk_Token :: string
  tk_Path :: string

text \<open>\<open>os.Remove\<close>: the new file and whether an error other than \<open>ErrNotExist\<close> came back.\<close>

definition os_remove :: "auth_env \<Rightarrow> string option \<Rightarrow> string option \<times> bool" where
  "os_remove x f = (case f of None \<Rightarrow> (None, False)
     | Some t \<Rightarrow> if x_rm_ok x then (None, False) else (Some t, True))"

text \<open>
  \<open>OpenFile\<close> with \<open>O_CREATE|O_EXCL\<close>, \<open>WriteString\<close>, \<open>Close\<close>, \<open>Chmod\<close>: the file and whether all
  of them succeeded. A write that fails may leave a part of the text behind.
\<close>

definition os_put :: "auth_env \<Rightarrow> string \<Rightarrow> string option \<Rightarrow> string option \<times> bool" where
  "os_put x text f =
     (if f \<noteq> None \<or> \<not> x_open_ok x then (f, False)
      else case x_put x of Some n \<Rightarrow> (Some (take n text), False)
         | None \<Rightarrow> (Some text, x_close_ok x \<and> x_chmod_ok x))"

definition mintSetupToken ::
    "auth_cfg \<Rightarrow> auth_env \<Rightarrow> string \<Rightarrow> auth_state \<Rightarrow> auth_state \<times> (auth_error + setup_token)" where
  "mintSetupToken c x path s =
     (case x_token x of None \<Rightarrow> (s, Inl EEntropy)
      | Some raw \<Rightarrow>
         let token = base58Encode raw
         in case write_tx x (\<lambda>db. Inr (PutSetupClaim (hashSecret c token) path (x_now x) db, ())) (a_db s) of
              (db', Inl e) \<Rightarrow> (s\<lparr>a_db := db'\<rparr>, Inl e)
            | (db', Inr _) \<Rightarrow>
               (case os_remove x (a_file s) of (f1, failed) \<Rightarrow>
                  if failed then (s\<lparr>a_db := db', a_file := f1\<rparr>, Inl (EFile path))
                  else case os_put x (token @ [CHR 0x0A]) f1 of (f2, written) \<Rightarrow>
                    (s\<lparr>a_db := db', a_file := f2\<rparr>,
                     if written then Inr \<lparr>tk_Claimed = False, tk_Minted = True, tk_Token = token, tk_Path = path\<rparr>
                     else Inl (EFile path))))"

definition EnsureSetupToken ::
    "auth_cfg \<Rightarrow> auth_env \<Rightarrow> auth_state \<Rightarrow> auth_state \<times> (auth_error + setup_token)" where
  "EnsureSetupToken c x s =
     (if g_stateDir c = [] then (s, Inl ENoStateDir)
      else let path = SetupTokenPath (g_stateDir c)
      in case read_tx x (\<lambda>db. bind_res (optional_row (SetupClaim db)) (\<lambda>cl.
                Inr (AdminAccountExists db, cl))) (a_db s) of
        Inl e \<Rightarrow> (s, Inl e)
      | Inr (haveAcct, row) \<Rightarrow>
         if haveAcct \<or> (case row of None \<Rightarrow> False | Some cl \<Rightarrow> claim_claimed cl) then
           let s1 = s\<lparr>a_file := fst (os_remove x (a_file s))\<rparr>;
               done = Inr \<lparr>tk_Claimed = True, tk_Minted = False, tk_Token = [], tk_Path = []\<rparr>
           in if (case row of None \<Rightarrow> False | Some cl \<Rightarrow> sc_TokenPath cl \<noteq> None) then
                case write_tx x (\<lambda>db. Inr (ClearSetupTokenPath db, ())) (a_db s1) of
                  (db', Inl e) \<Rightarrow> (s1\<lparr>a_db := db'\<rparr>, Inl e)
                | (db', Inr _) \<Rightarrow> (s1\<lparr>a_db := db'\<rparr>, done)
              else (s1, done)
         else if row \<noteq> None \<and> \<not> x_stat_ok x then (s, Inl (EFile path))
         else if row \<noteq> None \<and> a_file s \<noteq> None
         then (s, Inr \<lparr>tk_Claimed = False, tk_Minted = False, tk_Token = [], tk_Path = path\<rparr>)
         else mintSetupToken c x path s)"

definition is_space :: "char \<Rightarrow> bool" where
  "is_space ch \<longleftrightarrow> ch \<in> {CHR '' '', CHR 0x09, CHR 0x0A, CHR 0x0D}"

definition trimToken :: "string \<Rightarrow> string" where
  "trimToken t = rev (dropWhile is_space (rev (dropWhile is_space t)))"

definition ReadSetupTokenFile :: "string option \<Rightarrow> auth_error + string" where
  "ReadSetupTokenFile f = (case f of None \<Rightarrow> Inl (EFile [])
     | Some b \<Rightarrow> let token = trimToken b in if token = [] then Inl (EFile []) else Inr token)"

definition AuthorizeSetup :: "auth_cfg \<Rightarrow> auth_env \<Rightarrow> bool \<Rightarrow> string \<Rightarrow> string \<Rightarrow> auth_db
    \<Rightarrow> auth_db \<times> (auth_error + unit)" where
  "AuthorizeSetup c x loopback presented ip db =
     (if loopback then (db, Inr ())
      else if presented = [] then (db, Inl ESetupTokenRequired)
      else case read_tx x (\<lambda>db. optional_row (SetupClaim db)) db of
        Inl e \<Rightarrow> (db, Inl e)
      | Inr None \<Rightarrow> (db, Inl ESetupTokenRequired)
      | Inr (Some cl) \<Rightarrow>
         if claim_claimed cl then (db, Inl ESetupTokenRequired)
         else if hashSecret c presented \<noteq> sc_TokenHash cl then
           (case recordAttempt x ip False LoginBadSetupToken db of
              (db', Inl e) \<Rightarrow> (db', Inl e)
            | (db', Inr _) \<Rightarrow> (db', Inl ESetupTokenRequired))
         else (db, Inr ()))"

definition claim_tx :: "auth_cfg \<Rightarrow> auth_env \<Rightarrow> string \<Rightarrow> string \<Rightarrow> string \<Rightarrow> auth_db
    \<Rightarrow> auth_error + auth_db \<times> session_credential" where
  "claim_tx c x hash ip ua db =
     (case CreateAdminAccount \<lparr>aa_PasswordHash = hash, aa_PasswordSetAt = x_now x,
                               aa_UpdatedAt = x_now x\<rparr> db of
        (db1, created) \<Rightarrow>
        if \<not> created then Inl EAlreadyClaimed
        else let db2 = fst (ClaimSetup (x_now x) ip db1)
          in bind_res (st (InsertLoginAttempt (attempt x ip True LoginOK) db2)) (\<lambda>db3.
             bind_res (st (AppendEvent (auth_event x LevelInfo ''setup_claimed'' ActorWizard
               ''this host was claimed and the admin account was created'') db3)) (\<lambda>db4.
             mintSession c x ip ua db4)))"

definition Claim :: "auth_cfg \<Rightarrow> auth_env \<Rightarrow> string \<Rightarrow> string \<Rightarrow> string \<Rightarrow> auth_state
    \<Rightarrow> auth_state \<times> (auth_error + session_credential)" where
  "Claim c x password ip ua s =
     (case ValidatePassword password of Some e \<Rightarrow> (s, Inl (EPassword e))
      | None \<Rightarrow> (case params_Hash (g_kdf c) (g_cpus c) (g_params c) (x_salt x) password of
          Inl e \<Rightarrow> (s, Inl (EPassword e))
        | Inr hash \<Rightarrow>
           (case write_tx x (claim_tx c x hash ip ua) (a_db s) of
              (db', Inl e) \<Rightarrow> (s\<lparr>a_db := db'\<rparr>, Inl e)
            | (db', Inr cred) \<Rightarrow>
                (s\<lparr>a_db := db', a_file := (if g_stateDir c = [] then a_file s
                                          else fst (os_remove x (a_file s)))\<rparr>, Inr cred))))"

end
