(* ===== verification/Auth_Machine.thy ===== *)
theory Auth_Machine
  imports Auth_Service
begin

text \<open>
  The authentication service as a machine: one step per call of an operation (or of one of the
  two sweeps retention makes), in its environment. \<open>OpLoginFinish\<close> is the second half of a
  login whose first half read \<open>v\<close> at some earlier moment, so a run may interleave logins with
  everything else. What each operation does to the account, the claim, one session and the
  attempts of one address is collected in \<open>state_simps\<close>.
\<close>

datatype auth_op =
    OpResolve string string string
  | OpLogin string string string
  | OpLoginFinish login_view string string string
  | OpLogout string
  | OpChange string string string
  | OpRevoke string
  | OpReset string
  | OpEnsure
  | OpAuthorize bool string string
  | OpClaim string string string
  | OpSweepSessions unix_ms
  | OpSweepAttempts unix_ms

definition on_db :: "auth_state \<Rightarrow> auth_db \<times> 'r \<Rightarrow> auth_state" where
  "on_db s r = s\<lparr>a_db := fst r\<rparr>"

lemma a_db_on_db [simp]: "a_db (on_db s r) = fst r"
  by (simp add: on_db_def)

fun auth_step :: "auth_cfg \<Rightarrow> auth_env \<times> auth_op \<Rightarrow> auth_state \<Rightarrow> auth_state" where
  "auth_step c (x, OpResolve cookie ip ua) s = on_db s (ResolveSession c x cookie ip ua (a_db s))"
| "auth_step c (x, OpLogin pw ip ua) s = on_db s (Login c x pw ip ua (a_db s))"
| "auth_step c (x, OpLoginFinish v pw ip ua) s = on_db s (login_finish c x pw ip ua v (a_db s))"
| "auth_step c (x, OpLogout i) s = on_db s (Logout x i (a_db s))"
| "auth_step c (x, OpChange i cur nxt) s = on_db s (ChangePassword c x i cur nxt (a_db s))"
| "auth_step c (x, OpRevoke i) s = on_db s (RevokeSessionAPI x i (a_db s))"
| "auth_step c (x, OpReset pw) s = on_db s (ResetPassword c x pw (a_db s))"
| "auth_step c (x, OpEnsure) s = fst (EnsureSetupToken c x s)"
| "auth_step c (x, OpAuthorize lo t ip) s = on_db s (AuthorizeSetup c x lo t ip (a_db s))"
| "auth_step c (x, OpClaim pw ip ua) s = fst (Claim c x pw ip ua s)"
| "auth_step c (x, OpSweepSessions t) s = on_db s (DeleteExpiredSessions t (a_db s))"
| "auth_step c (x, OpSweepAttempts t) s = on_db s (DeleteLoginAttemptsBefore t (a_db s))"

section \<open>Transactions\<close>

text \<open>What a write leaves behind: the tables as they were, or those of a commit.\<close>

lemma write_tx_keeps:
  assumes "P db" and "\<And>db' a. f db = Inr (db', a) \<Longrightarrow> P db'"
  shows "P (fst (write_tx x f db))"
  using assms by (auto simp: write_tx_def transact_def split: sum.splits)

lemma write_tx_Inr: "write_tx x f db = (db', Inr a) \<longleftrightarrow> x_write_ok x \<and> f db = Inr (db', a)"
  by (auto simp: write_tx_def transact_def split: sum.splits)

lemma read_tx_Inr: "read_tx x f db = Inr a \<longleftrightarrow> x_read_ok x \<and> f db = Inr a"
  by (simp add: read_tx_def)

lemma optional_row_Inr:
  "optional_row r = Inr (Some a) \<longleftrightarrow> r = Inr a"
  "optional_row r = Inr None \<longleftrightarrow> r = Inl StNotFound"
  by (auto simp: optional_row_def split: sum.splits store_error.splits)

lemma st_Inr: "st r = Inr a \<longleftrightarrow> r = Inr a"
  by (auto simp: st_def split: sum.splits)

text \<open>
  A property of the tables that every statement keeps is kept by every operation. The
  statements are named once, in the locale; an interpretation discharges one law per statement.
\<close>

locale kept =
  fixes P :: "auth_db \<Rightarrow> bool" and allowed :: "auth_env \<Rightarrow> bool"
  assumes password: "P db \<Longrightarrow> P (fst (SetAdminPassword h t db))"
    and session: "allowed x \<Longrightarrow> P db \<Longrightarrow> InsertSession (minted_session c x ip ua sec cs) db = Inr db' \<Longrightarrow> P db'"
    and touch: "P db \<Longrightarrow> P (TouchSession i t ip' ua' db)"
    and revoke: "P db \<Longrightarrow> P (fst (RevokeSession i t db))"
    and revoke_except: "P db \<Longrightarrow> P (fst (RevokeSessionsExcept i t db))"
    and sweep_sessions: "P db \<Longrightarrow> P (fst (DeleteExpiredSessions t db))"
    and attempt: "P db \<Longrightarrow> InsertLoginAttempt a db = Inr db' \<Longrightarrow> P db'"
    and sweep_attempts: "P db \<Longrightarrow> P (fst (DeleteLoginAttemptsBefore t db))"
    and lock: "P db \<Longrightarrow> P (PutLockout l db)"
    and unlock: "P db \<Longrightarrow> P (DeleteLockout ip db)"
    and clear_path: "P db \<Longrightarrow> P (ClearSetupTokenPath db)"
    and event: "P db \<Longrightarrow> AppendEvent e db = Inr db' \<Longrightarrow> P db'"
    and put_claim: "P db \<Longrightarrow> \<not> AdminAccountExists db \<Longrightarrow> P (PutSetupClaim h p t db)"
    and claim: "P db \<Longrightarrow> CreateAdminAccount acc db = (db', True) \<Longrightarrow> P (fst (ClaimSetup t ip db'))"
begin

lemma tx_keeps:
  "P db \<Longrightarrow> (\<And>db' a. f db = Inr (db', a) \<Longrightarrow> P db') \<Longrightarrow> P (fst (write_tx x f db))"
  by (rule write_tx_keeps)

lemma resolve: "P db \<Longrightarrow> P (fst (ResolveSession c x cookie ip ua db))"
proof -
  assume P: "P db"
  have "P (fst (slide_session c x ip ua s db))" for s
    using P touch [OF P]
    by (auto simp: slide_session_def write_tx_def transact_def)
  with P show ?thesis
    by (auto simp: ResolveSession_def split: option.splits prod.splits sum.splits)
      (metis fst_conv)
qed

lemma record_attempt: "P db \<Longrightarrow> P (fst (recordAttempt x ip ok r db))"
  unfolding recordAttempt_def
  by (rule tx_keeps) (auto simp: bind_Inr st_Inr intro: attempt)

lemma fail: "P db \<Longrightarrow> P (fst (failLogin x pol ip r db))"
proof -
  assume P: "P db"
  have "P db'" if "fail_tx x pol ip r db = Inr (db', k)" for db' k
  proof -
    from that obtain db1 where db1: "InsertLoginAttempt (Auth_Service.attempt x ip False r) db = Inr db1"
      "db' = db1 \<or> (\<exists>l. db' = PutLockout l db1)"
      by (auto simp: fail_tx_def bind_res_eq_Inr st_Inr Let_def split: if_splits)
    show ?thesis using attempt [OF P db1(1)] lock db1(2) by auto
  qed
  then have "P (fst (write_tx x (fail_tx x pol ip r) db))" by (rule tx_keeps [OF P])
  then show ?thesis by (auto simp: failLogin_def split: prod.splits sum.splits)
qed

lemma mint: "allowed x \<Longrightarrow> P db \<Longrightarrow> mintSession c x ip ua db = Inr (db', cr) \<Longrightarrow> P db'"
  by (auto simp: mintSession_def bind_res_eq_Inr st_Inr Let_def intro: session)

lemma login_commit:
  assumes "allowed x" and "P db" and "login_tx c x pw ip ua rehash db = Inr (db', cr)"
  shows "P db'"
proof -
  from assms(3) obtain db1 db3 where 1: "InsertLoginAttempt (Auth_Service.attempt x ip True LoginOK) db = Inr db1"
    and 3: "mintSession c x ip ua db3 = Inr (db', cr)"
    and "db3 = DeleteLockout ip db1 \<or> (\<exists>h. db3 = fst (SetAdminPassword h (x_now x) (DeleteLockout ip db1)))"
    by (auto simp: login_tx_def bind_res_eq_Inr st_Inr Let_def split: if_splits sum.splits)
  then have "P db3" using unlock [OF attempt [OF assms(2) 1]] password by auto
  then show ?thesis using mint [OF assms(1) _ 3] by simp
qed

lemma finish:
  assumes "allowed x" and "P db"
  shows "P (fst (login_finish c x pw ip ua v db))"
proof -
  have f: "P (fst (failLogin x (policy_of x) ip r db))" for r by (rule fail [OF assms(2)])
  have w: "P (fst (write_tx x (login_tx c x pw ip ua rehash) db))" for rehash
    by (rule tx_keeps [OF assms(2)]) (rule login_commit [OF assms])
  have r: "P (fst (recordAttempt x ip False LoginLocked db))" by (rule record_attempt [OF assms(2)])
  have "P (fst (login_open c x pw ip ua a db))" for a
    using f [of LoginNoAccount] f [of LoginBadPassword] w
    by (auto simp: login_open_def split: option.split sum.split prod.split)
  with r assms(2) show ?thesis
    by (auto simp: login_finish_def Let_def split: option.split sum.split prod.split)
qed

lemma login: "allowed x \<Longrightarrow> P db \<Longrightarrow> P (fst (Login c x pw ip ua db))"
  by (auto simp: Login_def finish split: sum.splits)

lemma logout: "P db \<Longrightarrow> P (fst (Logout x i db))"
  by (auto simp: Logout_def intro: tx_keeps revoke)

lemma append: "P db \<Longrightarrow> bind_res (st (AppendEvent e db)) (\<lambda>db3. Inr (db3, ())) = Inr (db', u) \<Longrightarrow> P db'"
  by (auto simp: bind_res_eq_Inr st_Inr intro: event)

lemma change: "P db \<Longrightarrow> P (fst (ChangePassword c x i cur nxt db))"
proof -
  assume P: "P db"
  have "P db'" if "change_tx x i h db = Inr (db', u)" for db' h u
    using that revoke_except [OF password [OF P]] append
    by (auto simp: change_tx_def Let_def split: prod.splits) (metis fst_conv)
  then have "P (fst (write_tx x (change_tx x i h) db))" for h
    by (rule tx_keeps [OF P])
  with P show ?thesis by (simp add: ChangePassword_def split: option.split sum.split)
qed

lemma revoke_api: "P db \<Longrightarrow> P (fst (RevokeSessionAPI x i db))"
proof -
  assume P: "P db"
  have "P (fst (write_tx x (\<lambda>db. Inr (RevokeSession i (x_now x) db)) db))"
    using revoke [OF P] by (intro tx_keeps [OF P]) (metis fst_conv sum.inject(2))
  then show ?thesis by (auto simp: RevokeSessionAPI_def split: prod.splits sum.splits)
qed

lemma reset: "P db \<Longrightarrow> P (fst (ResetPassword c x pw db))"
proof -
  assume P: "P db"
  have "P db'" if "reset_tx x h db = Inr (db', u)" for db' h u
    using that revoke_except [OF password [OF P]] append
    by (auto simp: reset_tx_def split: prod.splits if_splits) (metis fst_conv)
  then have "P (fst (write_tx x (reset_tx x h) db))" for h
    by (rule tx_keeps [OF P])
  with P show ?thesis by (simp add: ResetPassword_def split: option.split sum.split)
qed

lemma authorize: "P db \<Longrightarrow> P (fst (AuthorizeSetup c x lo t ip db))"
  using record_attempt [of db x ip False LoginBadSetupToken]
  by (auto simp: AuthorizeSetup_def split: option.split sum.split prod.split)

lemma mint_token:
  assumes "P (a_db s)" and "\<not> AdminAccountExists (a_db s)"
  shows "P (a_db (fst (mintSetupToken c x path s)))"
proof -
  have "P (fst (write_tx x (\<lambda>db. Inr (PutSetupClaim h path (x_now x) db, ())) (a_db s)))" for h
    by (rule tx_keeps) (use assms put_claim in auto)
  then have "P db'" if "write_tx x (\<lambda>db. Inr (PutSetupClaim h path (x_now x) db, ())) (a_db s) = (db', r)" for h db' r
    using that by (metis fst_conv)
  with assms(1) show ?thesis
    by (auto simp: mintSetupToken_def Let_def split: option.split sum.split prod.split)
qed

lemma ensure: "P (a_db s) \<Longrightarrow> P (a_db (fst (EnsureSetupToken c x s)))"
proof -
  assume P: "P (a_db s)"
  have "P (fst (write_tx x (\<lambda>db. Inr (ClearSetupTokenPath db, ())) (a_db s)))"
    by (rule tx_keeps [OF P]) (use P clear_path in auto)
  moreover have "P (a_db (fst (mintSetupToken c x path s)))" if "\<not> AdminAccountExists (a_db s)" for path
    by (rule mint_token [OF P that])
  ultimately show ?thesis using P
    by (auto simp: EnsureSetupToken_def Let_def read_tx_Inr bind_res_eq_Inr split: option.split sum.split prod.split)
qed

lemma claim_commit:
  assumes "allowed x" and "P db" and "claim_tx c x h ip ua db = Inr (db', cr)"
  shows "P db'"
proof -
  from assms(3) obtain acc db1 db3 db4 where 1: "CreateAdminAccount acc db = (db1, True)"
    and 3: "InsertLoginAttempt (Auth_Service.attempt x ip True LoginOK) (fst (ClaimSetup (x_now x) ip db1)) = Inr db3"
    and 4: "AppendEvent (auth_event x LevelInfo ''setup_claimed'' ActorWizard
               ''this host was claimed and the admin account was created'') db3 = Inr db4"
    and 5: "mintSession c x ip ua db4 = Inr (db', cr)"
    by (auto simp: claim_tx_def bind_res_eq_Inr st_Inr Let_def split: if_splits prod.splits)
  show ?thesis
    by (rule mint [OF assms(1) event [OF attempt [OF claim [OF assms(2) 1] 3] 4] 5])
qed

lemma claim_api:
  assumes "allowed x" and "P (a_db s)"
  shows "P (a_db (fst (Claim c x pw ip ua s)))"
proof -
  have "P (fst (write_tx x (claim_tx c x h ip ua) (a_db s)))" for h
    by (rule tx_keeps [OF assms(2)]) (rule claim_commit [OF assms])
  then have "P db'" if "write_tx x (claim_tx c x h ip ua) (a_db s) = (db', r)" for h db' r
    using that by (metis fst_conv)
  with assms(2) show ?thesis
    by (auto simp: Claim_def split: option.split sum.split prod.split)
qed

lemma step: "allowed (fst e) \<Longrightarrow> P (a_db s) \<Longrightarrow> P (a_db (auth_step c e s))"
  by (cases "(c, e, s)" rule: auth_step.cases)
    (simp_all add: resolve login finish logout change revoke_api reset ensure authorize claim_api
      sweep_sessions sweep_attempts)

end

section \<open>A small host for the examples\<close>

text \<open>A host with toy cryptography: the digest is the text, the key the bytes of the password.\<close>

definition demo_kdf :: kdf where
  "demo_kdf pw sl t m par k = take (unat k) (map (\<lambda>ch. word_of_nat (of_char ch)) pw @ replicate (unat k) 0)"

definition demo_cfg :: auth_cfg where
  "demo_cfg = \<lparr>g_sha = (\<lambda>s. s), g_hmac = (\<lambda>k m. [1]), g_kdf = demo_kdf, g_cpus = 2,
     g_params = \<lparr>pr_Memory = 8, pr_Time = 1, pr_Parallelism = 1, pr_SaltLen = 2, pr_KeyLen = 9\<rparr>,
     g_touch = 60 * Second, g_stateDir = ''/s''\<rparr>"

definition demo_env :: "unix_ms \<Rightarrow> string \<Rightarrow> auth_env" where
  "demo_env t n = \<lparr>x_now = t, x_settings = None, x_read_ok = True, x_write_ok = True,
     x_attempt_id = n, x_session_id = n, x_event_id = n, x_salt = (\<lambda>k. Some (replicate k 7)),
     x_secret = Some [1, 2, 3], x_csrf = Some [4, 5, 6], x_token = Some [0, 9], x_rm_ok = True,
     x_stat_ok = True, x_open_ok = True, x_put = None, x_close_ok = True, x_chmod_ok = True\<rparr>"

definition empty_db :: auth_db where
  "empty_db = \<lparr>d_account = None, d_claim = None, d_sessions = [], d_attempts = [], d_lockouts = [],
     d_events = []\<rparr>"

definition empty_state :: auth_state where
  "empty_state = \<lparr>a_db = empty_db, a_file = None\<rparr>"

end
