(* ===== verification/Auth_Claims.thy ===== *)
theory Auth_Claims
  imports Auth_Machine
begin

text \<open>
  The properties of the authentication service: who stays shut out, what is claimed once, what
  the daemon mints and later accepts.
\<close>

section \<open>A revoked session stays revoked\<close>

text \<open>No row with this id can authenticate a request.\<close>

definition shut :: "string \<Rightarrow> auth_db \<Rightarrow> bool" where
  "shut i db = list_all (\<lambda>s. ss_ID s = i \<longrightarrow> ss_RevokedAt s \<noteq> None) (d_sessions db)"

lemma shut_cong: "d_sessions db' = d_sessions db \<Longrightarrow> shut i db' = shut i db"
  by (simp add: shut_def)

lemma shut_update:
  assumes "\<And>s. ss_ID (f s) = ss_ID s"
    and "\<And>s. p s \<Longrightarrow> ss_RevokedAt s \<noteq> None \<Longrightarrow> ss_RevokedAt (f s) \<noteq> None"
    and "shut i db"
  shows "shut i (update_sessions p f db)"
  using assms by (auto simp: shut_def update_sessions_def list_all_iff)

lemma sessions_unchanged [state_simps]:
  "d_sessions (fst (SetAdminPassword h t db)) = d_sessions db"
  "d_sessions (PutLockout l db) = d_sessions db"
  "d_sessions (DeleteLockout ip db) = d_sessions db"
  "d_sessions (ClearSetupTokenPath db) = d_sessions db"
  "d_sessions (PutSetupClaim h p t db) = d_sessions db"
  "d_sessions (fst (ClaimSetup t ip db)) = d_sessions db"
  "d_sessions (fst (DeleteLoginAttemptsBefore t db)) = d_sessions db"
  "CreateAdminAccount acc db = (db', b) \<Longrightarrow> d_sessions db' = d_sessions db"
  "InsertLoginAttempt a db = Inr db' \<Longrightarrow> d_sessions db' = d_sessions db"
  "AppendEvent e db = Inr db' \<Longrightarrow> d_sessions db' = d_sessions db"
  by (auto simp: SetAdminPassword_def PutLockout_def DeleteLockout_def ClearSetupTokenPath_def
      PutSetupClaim_def ClaimSetup_def DeleteLoginAttemptsBefore_def CreateAdminAccount_def
      InsertLoginAttempt_def AppendEvent_def split: option.splits if_splits)

lemma shut_sessions [state_simps]:
  "shut i db \<Longrightarrow> shut i (TouchSession j t ip ua db)"
  "shut i db \<Longrightarrow> shut i (fst (RevokeSession j t db))"
  "shut i db \<Longrightarrow> shut i (fst (RevokeSessionsExcept j t db))"
  "shut i db \<Longrightarrow> shut i (fst (DeleteExpiredSessions t db))"
  by (auto simp: TouchSession_def RevokeSession_def RevokeSessionsExcept_def
      intro!: shut_update) (auto simp: shut_def DeleteExpiredSessions_def list_all_iff)

lemma shut_insert:
  "x_session_id x \<noteq> i \<Longrightarrow> shut i db \<Longrightarrow> InsertSession (minted_session c x ip ua sec cs) db = Inr db'
     \<Longrightarrow> shut i db'"
  by (auto simp: InsertSession_def shut_def list_all_iff minted_session_def split: if_splits)

interpretation shut: kept "shut i" "\<lambda>x. x_session_id x \<noteq> i" for i
  by unfold_locales
    (auto simp: state_simps shut_cong [OF sessions_unchanged(1)] shut_cong [OF sessions_unchanged(2)]
      shut_cong [OF sessions_unchanged(3)] shut_cong [OF sessions_unchanged(4)]
      shut_cong [OF sessions_unchanged(5)] shut_cong [OF sessions_unchanged(6)]
      shut_cong [OF sessions_unchanged(7)]
      dest: shut_cong [OF sessions_unchanged(8)] shut_cong [OF sessions_unchanged(9)]
      shut_cong [OF sessions_unchanged(10)] intro: shut_insert)

interpretation shut_runs: machine "auth_step c" "\<lambda>e. x_session_id (fst e) \<noteq> i" "\<lambda>s. shut i (a_db s)"
  for c i
  by unfold_locales (rule shut.step)

lemma shut_refuses:
  assumes "shut i db" and "splitCookie cookie = Some (i, secret)"
  shows "snd (ResolveSession c x cookie ip ua db) \<in> {Inl ENoSession, Inl (EStore StBusy)}"
proof -
  have "\<not> session_admits c x secret s" if "Session i db = Inr s" for s
    using assms(1) that Session_ID [OF that]
    by (auto simp: session_admits_def session_live_def shut_def Session_def list_all_iff
        find_Some_iff split: option.splits)
  with assms(2) show ?thesis
    by (auto simp: ResolveSession_def read_tx_def optional_row_def Session_def
        split: option.splits sum.splits store_error.splits)
qed

text \<open>The operations that shut sessions out.\<close>

lemma revoked_is_shut: "shut i (fst (RevokeSession i t db))"
proof -
  have "d_sessions (fst (RevokeSession i t db)) = map (\<lambda>s. if ss_ID s = i \<and> ss_RevokedAt s = None
      then s\<lparr>ss_RevokedAt := Some t\<rparr> else s) (d_sessions db)"
    by (simp add: RevokeSession_def update_sessions_def)
  then show ?thesis by (simp add: shut_def list_all_length)
qed

lemma logout_shuts:
  assumes "Logout x i db = (db', Inr ())"
  shows "shut i db'"
proof -
  from assms have "db' = fst (RevokeSession i (x_now x) db)"
    by (simp add: Logout_def write_tx_Inr split: if_splits)
  then show ?thesis by (simp add: revoked_is_shut)
qed

lemma revoke_shuts:
  assumes "RevokeSessionAPI x i db = (db', Inr ())"
  shows "shut i db'"
proof -
  from assms obtain ch where "RevokeSession i (x_now x) db = (db', ch)"
    by (simp add: RevokeSessionAPI_def split: prod.splits sum.splits) (simp add: write_tx_Inr)
  then show ?thesis using revoked_is_shut [of i "x_now x" db] by simp
qed

lemma except_shuts: "i \<noteq> j \<Longrightarrow> shut i (fst (RevokeSessionsExcept j t db))"
  by (auto simp: RevokeSessionsExcept_def shut_def update_sessions_def list_all_iff)

lemma append_shuts:
  assumes "bind_res (st (AppendEvent e db)) (\<lambda>db3. Inr (db3, ())) = Inr (db', u)" and "shut i db"
  shows "shut i db'"
  by (rule shut.append [OF assms(2,1)])

lemma change_shuts:
  assumes "ChangePassword c x j cur nxt db = (db', Inr ())" and "i \<noteq> j"
  shows "shut i db'"
proof -
  from assms(1) obtain h where "change_tx x j h db = Inr (db', ())"
    by (auto simp: ChangePassword_def write_tx_Inr split: option.splits sum.splits)
  then show ?thesis
    by (simp add: change_tx_def Let_def case_prod_unfold)
      (erule append_shuts [OF _ except_shuts [OF assms(2)]])
qed

lemma reset_shuts:
  assumes "ResetPassword c x pw db = (db', Inr ())" and "i \<noteq> []"
  shows "shut i db'"
proof -
  from assms(1) obtain h where "reset_tx x h db = Inr (db', ())"
    by (auto simp: ResetPassword_def write_tx_Inr split: option.splits sum.splits)
  then show ?thesis
    by (simp add: reset_tx_def case_prod_unfold split: if_splits)
      (erule append_shuts [OF _ except_shuts [OF assms(2)]])
qed

text \<open>
  C23. Eviction is permanent. After a password change, every session but the one it was made
  from - and after a reset every session, after a logout or a revocation the session named -
  is refused for good: whatever operations follow, in any order and with logins that were
  already under way, a cookie of such a session never again resolves to a session, as long as
  its id is not minted a second time.
\<close>

theorem evicted_sessions_stay_out:
  assumes "i \<noteq> sid \<and> ChangePassword c x sid cur nxt (a_db s) = (db, Inr ())
      \<or> ResetPassword c x nxt (a_db s) = (db, Inr ())
      \<or> Logout x i (a_db s) = (db, Inr ())
      \<or> RevokeSessionAPI x i (a_db s) = (db, Inr ())"
    and "list_all (\<lambda>e. x_session_id (fst e) \<noteq> i) es"
    and "splitCookie cookie = Some (i, secret)"
  shows "snd (ResolveSession c y cookie ip ua (a_db (run (auth_step c) es (s\<lparr>a_db := db\<rparr>))))
    \<in> {Inl ENoSession, Inl (EStore StBusy)}"
proof -
  have "i \<noteq> []" using assms(3) by (auto simp: splitCookie_def split: option.splits if_splits)
  with assms(1) have "shut i db"
    by (elim disjE) (auto intro: change_shuts reset_shuts logout_shuts revoke_shuts)
  then have "shut i (a_db (run (auth_step c) es (s\<lparr>a_db := db\<rparr>)))"
    by (intro shut_runs.run_inv [OF assms(2)]) simp
  then show ?thesis by (rule shut_refuses) (rule assms(3))
qed

section \<open>A host is claimed once\<close>

definition claimed :: "auth_db \<Rightarrow> bool" where
  "claimed db \<longleftrightarrow> d_account db \<noteq> None \<and> (\<forall>cl. d_claim db = Some cl \<longrightarrow> claim_claimed cl)"

interpretation claimed: kept claimed "\<lambda>_. True"
  by unfold_locales
    (auto simp: claimed_def claim_claimed_def SetAdminPassword_def InsertSession_def TouchSession_def
      RevokeSession_def RevokeSessionsExcept_def update_sessions_def DeleteExpiredSessions_def
      InsertLoginAttempt_def DeleteLoginAttemptsBefore_def PutLockout_def DeleteLockout_def
      ClearSetupTokenPath_def AppendEvent_def AdminAccountExists_def CreateAdminAccount_def
      ClaimSetup_def split: if_splits option.splits)

interpretation claimed_runs: machine "auth_step c" "\<lambda>_. True" "\<lambda>s. claimed (a_db s)" for c
  by unfold_locales (simp add: claimed.step)

lemma mintSession_account:
  "mintSession c x ip ua db = Inr (db', cr) \<Longrightarrow> d_account db' = d_account db \<and> d_claim db' = d_claim db"
  by (auto simp: mintSession_def bind_res_eq_Inr st_Inr Let_def InsertSession_def split: if_splits)

lemma Claim_claims:
  assumes "Claim c x pw ip ua s = (s', Inr cred)"
  shows "claimed (a_db s')"
proof -
  from assms obtain h where "claim_tx c x h ip ua (a_db s) = Inr (a_db s', cred)"
    by (auto simp: Claim_def write_tx_Inr split: option.splits sum.splits prod.splits)
  then show ?thesis
    by (auto simp: claim_tx_def bind_res_eq_Inr st_Inr Let_def claimed_def claim_claimed_def
        CreateAdminAccount_def ClaimSetup_def InsertLoginAttempt_def AppendEvent_def
        dest!: mintSession_account split: option.splits if_splits prod.splits)
qed

lemma claimed_refuses:
  assumes "claimed (a_db s)"
  shows "\<exists>e. Claim c y pw ip ua s = (s, Inl e) \<and> e \<in> {EAlreadyClaimed, EStore StBusy} \<union> range EPassword"
proof -
  have "write_tx y (claim_tx c y h ip ua) (a_db s)
      = (a_db s, Inl (if x_write_ok y then EAlreadyClaimed else EStore StBusy))" for h
    using assms by (auto simp: write_tx_def transact_def claim_tx_def CreateAdminAccount_def
        claimed_def)
  then show ?thesis by (auto simp: Claim_def split: option.splits sum.splits)
qed

lemma claimed_token_refused:
  assumes "claimed db"
  shows "AuthorizeSetup c y False tok ip db
    = (db, Inl (if tok \<noteq> [] \<and> \<not> x_read_ok y then EStore StBusy else ESetupTokenRequired))"
  using assms
  by (auto simp: AuthorizeSetup_def read_tx_def optional_row_def SetupClaim_def claimed_def
      split: option.splits)

text \<open>
  C24. A host is claimed once. After a claim has succeeded, and after any operations since, boot
  sequence included, another claim changes nothing and is answered with \<open>ErrAlreadyClaimed\<close>
  (or with what kept it from getting that far), and no setup token authorizes a request from
  outside the host, whatever token it presents.
\<close>

theorem a_host_is_claimed_once:
  assumes "Claim c x pw ip ua s = (s1, Inr cred)"
  shows "(let s2 = run (auth_step c) es s1
    in (\<exists>e. Claim c y pw' ip' ua' s2 = (s2, Inl e)
            \<and> e \<in> {EAlreadyClaimed, EStore StBusy} \<union> range EPassword)
       \<and> fst (AuthorizeSetup c y False tok ip' (a_db s2)) = a_db s2
       \<and> snd (AuthorizeSetup c y False tok ip' (a_db s2)) \<noteq> Inr ())"
proof -
  have "claimed (a_db (run (auth_step c) es s1))"
    by (rule claimed_runs.run_inv) (simp_all add: Claim_claims [OF assms] list_all_iff)
  then show ?thesis
    using claimed_refuses claimed_token_refused by (simp add: Let_def)
qed

section \<open>What is minted is accepted\<close>

lemma mintSession_Inr:
  assumes "mintSession c x ip ua db = Inr (db', cred)"
  obtains secret csrf b where "x_secret x = Some b" and "secret = b64_encode base64URL b"
    and "InsertSession (minted_session c x ip ua secret csrf) db = Inr db'"
    and "cred = \<lparr>cr_SessionID = x_session_id x,
           cr_SessionCookie = composeCookie (x_session_id x) secret,
           cr_CSRFToken = CSRFToken c (x_session_id x) csrf,
           cr_ExpiresAt = x_now x + millis (p_sessionTTL (policy_of x))\<rparr>"
  using assms
  by (auto simp: mintSession_def bind_res_eq_Inr st_Inr Let_def randomSecret_def minted_session_def
      split: option.splits)

lemma splitCookie_compose:
  assumes "i \<noteq> []" and "CHR ''.'' \<notin> set i" and "secret \<noteq> []"
  shows "splitCookie (composeCookie i secret) = Some (i, secret)"
  using assms by (simp add: splitCookie_def composeCookie_def cut_field)

lemma resolve_minted:
  assumes "Session i db = Inr s" and "splitCookie cookie = Some (i, secret)" and "x_read_ok y"
  shows "snd (ResolveSession c y cookie ip ua db)
    = (if session_admits c y secret s then Inr (snd (slide_session c y ip ua s db)) else Inl ENoSession)"
  using assms by (auto simp: ResolveSession_def read_tx_def optional_row_def splitCookie_def
      split: prod.splits)

lemma slide_keeps:
  "ss_ID (snd (slide_session c y ip ua s db)) = ss_ID s
   \<and> ss_ExpiresAt (snd (slide_session c y ip ua s db)) = ss_ExpiresAt s"
  by (simp add: slide_session_def touched_def split: prod.split sum.split)

definition idle_ok :: "auth_env \<Rightarrow> unix_ms \<Rightarrow> bool" where
  "idle_ok y seen = (p_idleTimeout (policy_of y) \<le> 0
     \<or> x_now y < seen + millis (p_idleTimeout (policy_of y)))"

lemma mint_resolves:
  assumes "mintSession c x ip ua db = Inr (db', cred)"
    and "x_session_id x \<noteq> []" and "CHR ''.'' \<notin> set (x_session_id x)" and "x_secret x \<noteq> Some []"
    and "x_read_ok y" and "x_now y < cr_ExpiresAt cred" and "idle_ok y (x_now x)"
  shows "\<exists>s. snd (ResolveSession c y (cr_SessionCookie cred) ip' ua' db') = Inr s
      \<and> ss_ID s = cr_SessionID cred \<and> ss_ExpiresAt s = cr_ExpiresAt cred"
    and "\<exists>secret. cr_SessionCookie cred = composeCookie (cr_SessionID cred) secret
      \<and> (\<forall>secret'. secret' \<noteq> [] \<and> hashSecret c secret' \<noteq> hashSecret c secret \<longrightarrow>
        snd (ResolveSession c y (composeCookie (cr_SessionID cred) secret') ip' ua' db') = Inl ENoSession)"
    and "(\<And>k m. g_hmac c k m \<noteq> []) \<Longrightarrow>
      VerifyCSRF c y (cr_SessionID cred) h1 h2 db' \<longleftrightarrow> h1 = cr_CSRFToken cred \<and> h2 = cr_CSRFToken cred"
proof -
  obtain secret csrf b where b: "x_secret x = Some b" "secret = b64_encode base64URL b"
    and ins: "InsertSession (minted_session c x ip ua secret csrf) db = Inr db'"
    and cred: "cred = \<lparr>cr_SessionID = x_session_id x,
           cr_SessionCookie = composeCookie (x_session_id x) secret,
           cr_CSRFToken = CSRFToken c (x_session_id x) csrf,
           cr_ExpiresAt = x_now x + millis (p_sessionTTL (policy_of x))\<rparr>"
    using assms(1) by (rule mintSession_Inr)
  let ?s = "minted_session c x ip ua secret csrf"
  have ne: "secret \<noteq> []" using b assms(4) by auto
  have row: "Session (x_session_id x) db' = Inr ?s"
    using Session_insert [OF ins] by (simp add: minted_session_def)
  note split = splitCookie_compose [OF assms(2,3)]
  have "session_admits c y secret ?s"
    using assms(6,7)
    by (auto simp: session_admits_def minted_session_def session_live_def cred idle_ok_def)
  then show "\<exists>s. snd (ResolveSession c y (cr_SessionCookie cred) ip' ua' db') = Inr s
      \<and> ss_ID s = cr_SessionID cred \<and> ss_ExpiresAt s = cr_ExpiresAt cred"
    using resolve_minted [OF row split [OF ne] assms(5)] slide_keeps [of c y ip' ua' ?s db']
    by (simp add: cred minted_session_def)
  have "snd (ResolveSession c y (composeCookie (x_session_id x) secret') ip' ua' db') = Inl ENoSession"
    if "secret' \<noteq> []" "hashSecret c secret' \<noteq> hashSecret c secret" for secret'
    using that resolve_minted [OF row split [OF that(1)] assms(5)]
    by (simp add: session_admits_def minted_session_def)
  then show "\<exists>secret. cr_SessionCookie cred = composeCookie (cr_SessionID cred) secret
      \<and> (\<forall>secret'. secret' \<noteq> [] \<and> hashSecret c secret' \<noteq> hashSecret c secret \<longrightarrow>
        snd (ResolveSession c y (composeCookie (cr_SessionID cred) secret') ip' ua' db') = Inl ENoSession)"
    by (auto simp: cred)
  show "VerifyCSRF c y (cr_SessionID cred) h1 h2 db' \<longleftrightarrow> h1 = cr_CSRFToken cred \<and> h2 = cr_CSRFToken cred"
    if "\<And>k m. g_hmac c k m \<noteq> []"
    using assms(2,5) row that
    by (auto simp: VerifyCSRF_def read_tx_def cred st_def verify_csrf_def Let_def minted_session_def
        CSRFToken_def)
qed

lemma login_tx_mints:
  "login_tx c x pw ip ua rehash db = Inr r \<Longrightarrow> \<exists>db0. mintSession c x ip ua db0 = Inr r"
  by (auto simp: login_tx_def bind_res_eq_Inr st_Inr Let_def)

lemma Login_mints:
  assumes "Login c x pw ip ua db = (db', Inr cred)"
  obtains db0 where "mintSession c x ip ua db0 = Inr (db', cred)"
  using assms
  by (auto simp: Login_def login_finish_def login_open_def Let_def write_tx_Inr
      dest!: login_tx_mints split: sum.splits option.splits if_splits prod.splits)

lemma Claim_mints:
  assumes "Claim c x pw ip ua s = (s', Inr cred)"
  obtains db0 where "mintSession c x ip ua db0 = Inr (a_db s', cred)"
  using assms
  by (auto simp: Claim_def write_tx_Inr claim_tx_def bind_res_eq_Inr st_Inr Let_def
      split: option.splits sum.splits prod.splits if_splits)

text \<open>
  A login, and a claim, open a session that works. The cookie they answer with resolves to
  the session they name until its absolute expiry, unless it has been idle for too long; the
  same id with a secret of another hash does not resolve; and the double-submit check passes
  exactly for the token they answer with. HMAC is assumed to answer with some bytes, and the id
  to be a ULID: not empty and without a dot.
\<close>

theorem a_login_opens_a_session:
  assumes "Login c x pw ip ua (a_db s) = (a_db s', Inr cred) \<or> Claim c x pw ip ua s = (s', Inr cred)"
    and "x_session_id x \<noteq> []" and "CHR ''.'' \<notin> set (x_session_id x)" and "x_secret x \<noteq> Some []"
    and "\<And>k m. g_hmac c k m \<noteq> []"
    and "x_read_ok y" and "x_now y < cr_ExpiresAt cred" and "idle_ok y (x_now x)"
  shows "(\<exists>r. snd (ResolveSession c y (cr_SessionCookie cred) ip' ua' (a_db s')) = Inr r
            \<and> ss_ID r = cr_SessionID cred \<and> ss_ExpiresAt r = cr_ExpiresAt cred)
    \<and> (\<exists>secret. cr_SessionCookie cred = composeCookie (cr_SessionID cred) secret
          \<and> (\<forall>secret'. secret' \<noteq> [] \<and> hashSecret c secret' \<noteq> hashSecret c secret \<longrightarrow>
            snd (ResolveSession c y (composeCookie (cr_SessionID cred) secret') ip' ua' (a_db s')) = Inl ENoSession))
    \<and> (\<forall>h1 h2. VerifyCSRF c y (cr_SessionID cred) h1 h2 (a_db s')
          \<longleftrightarrow> h1 = cr_CSRFToken cred \<and> h2 = cr_CSRFToken cred)"
proof -
  obtain db0 where m: "mintSession c x ip ua db0 = Inr (a_db s', cred)"
    using assms(1) by (elim disjE) (erule Login_mints, blast, erule Claim_mints, blast)
  note r = mint_resolves [OF m assms(2-4) assms(6-8)]
  show ?thesis using r(1,2) r(3) [OF assms(5)] by blast
qed

lemma base58_not_Nil: "b \<noteq> [] \<Longrightarrow> base58Encode b \<noteq> []"
  using base58Encode_inj [of b "[]"] by (auto simp: base58_shape set_bytes_def leading_zeros_def)

lemma trim_base58: "trimToken (base58Encode b @ [CHR 0x0A]) = base58Encode b"
proof -
  have "list_all (\<lambda>ch. \<not> is_space ch) base58Alphabet"
    by code_simp
  then have no: "\<not> is_space ch" if "ch \<in> set (base58Encode b)" for ch
    using that set_base58Encode [of b] by (auto simp: list_all_iff)
  have nl: "is_space CHR 0x0A" by (simp add: is_space_def)
  show ?thesis
  proof (cases "base58Encode b")
    case Nil
    then show ?thesis using nl by (simp add: trimToken_def)
  next
    case (Cons ch t)
    then have 1: "dropWhile is_space (base58Encode b @ [CHR 0x0A]) = base58Encode b @ [CHR 0x0A]"
      using no by simp
    have "dropWhile is_space (rev (base58Encode b)) = rev (base58Encode b)"
      using no [OF last_in_set] by (auto simp: dropWhile_eq_self_iff hd_rev)
    then show ?thesis using nl by (simp add: trimToken_def 1)
  qed
qed

text \<open>
  The setup token travels through its file alone. When a boot mints a token, the file holds
  it as the readers of the file see it, presenting it from anywhere authorizes the setup
  without a trace, presenting a text with another hash does not, and two different draws of
  random bytes never print as the same token.
\<close>

theorem a_minted_setup_token_opens_the_setup:
  assumes "EnsureSetupToken c x s = (s', Inr tk)" and "tk_Minted tk"
    and "x_token x = Some raw" and "raw \<noteq> []" and "x_read_ok y"
  shows "ReadSetupTokenFile (a_file s') = Inr (tk_Token tk)
    \<and> AuthorizeSetup c y False (tk_Token tk) ip (a_db s') = (a_db s', Inr ())
    \<and> (\<forall>t. hashSecret c t \<noteq> hashSecret c (tk_Token tk) \<longrightarrow>
          snd (AuthorizeSetup c y False t ip (a_db s')) \<noteq> Inr ())
    \<and> (\<forall>raw'. base58Encode raw' = tk_Token tk \<longrightarrow> raw' = raw)"
proof -
  from assms(1,2) have "mintSetupToken c x (SetupTokenPath (g_stateDir c)) s = (s', Inr tk)"
    by (auto simp: EnsureSetupToken_def Let_def split: if_splits sum.splits prod.splits)
  then obtain f1 db' where w: "write_tx x (\<lambda>db. Inr (PutSetupClaim (hashSecret c (base58Encode raw))
        (SetupTokenPath (g_stateDir c)) (x_now x) db, ())) (a_db s) = (db', Inr ())"
    and f: "os_put x (base58Encode raw @ [CHR 0x0A]) f1 = (a_file s', True)"
    and db: "a_db s' = db'" and tk: "tk_Token tk = base58Encode raw"
    using assms(3)
    by (auto simp: mintSetupToken_def Let_def split: sum.splits prod.splits if_splits)
  have fl: "a_file s' = Some (base58Encode raw @ [CHR 0x0A])"
    using f by (auto simp: os_put_def split: if_splits option.splits)
  have "d_claim db' = Some \<lparr>sc_TokenHash = hashSecret c (base58Encode raw),
     sc_TokenPath = Some (SetupTokenPath (g_stateDir c)),
     sc_CreatedAt = x_now x, sc_ClaimedAt = None, sc_ClaimedFromIP = None\<rparr>"
    using w by (auto simp: write_tx_Inr PutSetupClaim_def)
  then have auth: "snd (AuthorizeSetup c y False t ip (a_db s')) = Inr () \<Longrightarrow>
      hashSecret c t = hashSecret c (tk_Token tk)" for t
    using assms(5)
    by (auto simp: AuthorizeSetup_def read_tx_def optional_row_def SetupClaim_def claim_claimed_def
        db tk split: if_splits prod.splits sum.splits)
  moreover have "AuthorizeSetup c y False (tk_Token tk) ip (a_db s') = (a_db s', Inr ())"
    using assms(5) base58_not_Nil [OF assms(4)] \<open>d_claim db' = _\<close>
    by (simp add: AuthorizeSetup_def read_tx_def optional_row_def SetupClaim_def claim_claimed_def
        db tk)
  moreover have "ReadSetupTokenFile (a_file s') = Inr (tk_Token tk)"
    using base58_not_Nil [OF assms(4)]
    by (simp only: ReadSetupTokenFile_def fl option.case trim_base58 tk Let_def if_False)
  moreover have "\<forall>raw'. base58Encode raw' = tk_Token tk \<longrightarrow> raw' = raw"
    using base58Encode_inj unfolding tk by blast
  ultimately show ?thesis by blast
qed

section \<open>Passwords\<close>

lemma withDefaults_storable:
  assumes "length salt = nat (pr_SaltLen (withDefaults n p))" and "0 \<le> pr_SaltLen p"
    and "length key = unat (pr_KeyLen (withDefaults n p))"
  shows "storable (withDefaults n p) salt key"
proof -
  have sl: "0 < pr_SaltLen (withDefaults n p)" and kl: "pr_KeyLen (withDefaults n p) \<noteq> 0"
    using assms(2) by (auto simp: withDefaults_def DefaultParams_def Let_def)
  then have "salt \<noteq> []" "key \<noteq> []" "pr_SaltLen (withDefaults n p) = int (length salt)"
    using assms by (auto simp: unat_eq_0)
  then show ?thesis using assms(3)
    by (auto simp: storable_def) (auto simp: withDefaults_def DefaultParams_def Let_def word_less_1
        split: if_splits)
qed

text \<open>
  C26. What \<open>Hash\<close> stores, \<open>Verify\<close> accepts: the parsed string gives back the parameters, the salt
  and the key that were written, so the password that was hashed is accepted, any other is
  accepted exactly when the key derivation gives it the same key, and a hash is reported for
  renewal exactly when it was made with a weaker cost than the verifier's. The key derivation
  answers with as many bytes as it is asked for, the source of random bytes as well.
\<close>

theorem a_stored_password_verifies:
  assumes "\<And>pw sl t m par k. length (kdf pw sl t m par k) = unat k"
    and "\<And>n b. rand n = Some b \<Longrightarrow> length b = n"
    and "0 \<le> pr_SaltLen p" and "params_Hash kdf cpus p rand pw = Inr enc"
  shows "\<exists>salt. rand (nat (pr_SaltLen (withDefaults cpus p))) = Some salt
    \<and> (\<forall>q cpus' pw'. params_Verify kdf cpus' q enc pw' =
        (if params_key kdf (withDefaults cpus p) pw' salt = params_key kdf (withDefaults cpus p) pw salt
         then Inr (weakerThan (withDefaults cpus p) (withDefaults cpus' q)) else Inl PwMismatch))"
proof -
  let ?p = "withDefaults cpus p"
  obtain salt where salt: "rand (nat (pr_SaltLen ?p)) = Some salt"
    and enc: "enc = phc_encode ?p salt (params_key kdf ?p pw salt)"
    using assms(4) by (auto simp: params_Hash_def Let_def split: option.splits)
  have "phc_decode enc = Inr (?p, salt, params_key kdf ?p pw salt)"
    unfolding enc
    by (rule phc_decode_encode, rule withDefaults_storable)
      (use assms(1-3) salt in \<open>auto simp: params_key_def\<close>)
  with salt show ?thesis by (simp add: params_Verify_def)
qed

section \<open>Witnesses\<close>

definition demo_booted :: auth_state where
  "demo_booted = fst (EnsureSetupToken demo_cfg (demo_env 1 ''A'') empty_state)"

definition demo_claimed :: auth_state where
  "demo_claimed = fst (Claim demo_cfg (demo_env 2 ''B'') ''password'' [] [] demo_booted)"

definition demo_cred :: session_credential where
  "demo_cred = \<lparr>cr_SessionID = ''B'', cr_SessionCookie = ''B.AQID'', cr_CSRFToken = ''AQ'',
     cr_ExpiresAt = 2592000002\<rparr>"

lemma demo_claims: "Claim demo_cfg (demo_env 2 ''B'') ''password'' [] [] demo_booted
    = (demo_claimed, Inr demo_cred)"
proof -
  have "snd (Claim demo_cfg (demo_env 2 ''B'') ''password'' [] [] demo_booted) = Inr demo_cred"
    by code_simp
  then show ?thesis by (simp add: demo_claimed_def prod_eq_iff)
qed

theorem evicted_sessions_stay_out_witness:
  "snd (ResolveSession demo_cfg (demo_env 9 ''E'') ''B.x'' [] []
      (a_db (run (auth_step demo_cfg) [(demo_env 8 ''D'', OpLogin ''password'' [] [])]
        (demo_claimed\<lparr>a_db := fst (Logout (demo_env 7 ''C'') ''B'' (a_db demo_claimed))\<rparr>))))
    \<in> {Inl ENoSession, Inl (EStore StBusy)}"
proof (rule evicted_sessions_stay_out [where secret = "''x''"])
  show "''B'' \<noteq> [] \<and> ChangePassword demo_cfg (demo_env 7 ''C'') [] [] [] (a_db demo_claimed)
        = (fst (Logout (demo_env 7 ''C'') ''B'' (a_db demo_claimed)), Inr ())
      \<or> ResetPassword demo_cfg (demo_env 7 ''C'') [] (a_db demo_claimed)
        = (fst (Logout (demo_env 7 ''C'') ''B'' (a_db demo_claimed)), Inr ())
      \<or> Logout (demo_env 7 ''C'') ''B'' (a_db demo_claimed)
        = (fst (Logout (demo_env 7 ''C'') ''B'' (a_db demo_claimed)), Inr ())
      \<or> RevokeSessionAPI (demo_env 7 ''C'') ''B'' (a_db demo_claimed)
        = (fst (Logout (demo_env 7 ''C'') ''B'' (a_db demo_claimed)), Inr ())"
    by (simp add: Logout_def write_tx_def transact_def demo_env_def)
qed (simp_all add: demo_env_def splitCookie_def)

theorem a_host_is_claimed_once_witness:
  "\<exists>e. Claim demo_cfg (demo_env 9 ''E'') ''other password'' [] [] demo_claimed = (demo_claimed, Inl e)"
proof -
  have "let s2 = run (auth_step demo_cfg) [] demo_claimed
    in (\<exists>e. Claim demo_cfg (demo_env 9 ''E'') ''other password'' [] [] s2 = (s2, Inl e)
            \<and> e \<in> {EAlreadyClaimed, EStore StBusy} \<union> range EPassword)
       \<and> fst (AuthorizeSetup demo_cfg (demo_env 9 ''E'') False [] [] (a_db s2)) = a_db s2
       \<and> snd (AuthorizeSetup demo_cfg (demo_env 9 ''E'') False [] [] (a_db s2)) \<noteq> Inr ()"
    by (rule a_host_is_claimed_once [OF demo_claims])
  then show ?thesis unfolding Let_def run_simps by blast
qed

theorem a_login_opens_a_session_witness:
  "\<exists>cookie r. snd (ResolveSession demo_cfg (demo_env 3 ''C'') cookie [] [] (a_db demo_claimed)) = Inr r"
proof -
  have idle: "idle_ok (demo_env 3 ''C'') (x_now (demo_env 2 ''B''))" by code_simp
  have "\<exists>r. snd (ResolveSession demo_cfg (demo_env 3 ''C'') (cr_SessionCookie demo_cred) [] []
      (a_db demo_claimed)) = Inr r \<and> ss_ID r = cr_SessionID demo_cred
      \<and> ss_ExpiresAt r = cr_ExpiresAt demo_cred"
    by (rule a_login_opens_a_session [OF disjI2, OF demo_claims _ _ _ _ _ _ idle, THEN conjunct1])
      (simp_all add: demo_env_def demo_cfg_def demo_cred_def)
  then show ?thesis by blast
qed

theorem a_minted_setup_token_opens_the_setup_witness:
  "ReadSetupTokenFile (a_file demo_booted) = Inr ''1A''"
proof -
  have "EnsureSetupToken demo_cfg (demo_env 1 ''A'') empty_state
      = (demo_booted, Inr \<lparr>tk_Claimed = False, tk_Minted = True, tk_Token = ''1A'',
                           tk_Path = ''/s/setup-token''\<rparr>)"
    by code_simp
  from a_minted_setup_token_opens_the_setup [OF this, of "[0, 9]" "demo_env 2 ''B''"]
  show ?thesis by (simp add: demo_env_def)
qed

theorem a_stored_password_verifies_witness:
  "\<exists>enc. params_Hash demo_kdf 2 (g_params demo_cfg) (\<lambda>k. Some (replicate k 7)) ''secret12'' = Inr enc
     \<and> params_Verify demo_kdf 2 (g_params demo_cfg) enc ''secret12'' = Inr False
     \<and> params_Verify demo_kdf 2 (g_params demo_cfg) enc ''secret13'' = Inl PwMismatch"
proof -
  let ?rand = "\<lambda>k. Some (replicate k (7 :: u8))"
  obtain enc where enc: "params_Hash demo_kdf 2 (g_params demo_cfg) ?rand ''secret12'' = Inr enc"
    by (simp add: params_Hash_def Let_def)
  have "length (demo_kdf pw sl t m par k) = unat k" for pw sl t m par k by (simp add: demo_kdf_def)
  moreover have "0 \<le> pr_SaltLen (g_params demo_cfg)" by code_simp
  moreover have "\<not> weakerThan (withDefaults 2 (g_params demo_cfg)) (withDefaults 2 (g_params demo_cfg))"
    by code_simp
  moreover have "params_key demo_kdf (withDefaults 2 (g_params demo_cfg)) ''secret13'' salt
      \<noteq> params_key demo_kdf (withDefaults 2 (g_params demo_cfg)) ''secret12'' salt" for salt
    by code_simp
  ultimately show ?thesis
    using a_stored_password_verifies [of demo_kdf ?rand "g_params demo_cfg" 2 "''secret12''" enc] enc
    by auto
qed

end
