(* ===== verification/Auth_Lockout.thy ===== *)
theory Auth_Lockout
  imports Auth_Machine
begin

text \<open>
  The lockout: how many wrong passwords an address gets to present. The invariant speaks of the
  guesses of an address that are still open at a time \<open>t\<close>: younger than the window and younger
  than the address's last success. It is kept by every operation of the machine as long as the
  logins are not interleaved with one another (\<open>Login\<close> in one step) and the clock does not
  run backwards.
\<close>

section \<open>Open guesses\<close>

definition wrong_password :: "string \<Rightarrow> login_attempt \<Rightarrow> bool" where
  "wrong_password ip a \<longleftrightarrow> la_IP a = ip \<and> \<not> la_Success a
     \<and> la_Reason a \<in> {Some LoginBadPassword, Some LoginNoAccount}"

definition after_success :: "string \<Rightarrow> login_attempt list \<Rightarrow> unix_ms \<Rightarrow> bool" where
  "after_success ip as t \<longleftrightarrow> (\<forall>b\<in>set as. la_IP b = ip \<and> la_Success b \<longrightarrow> la_At b < t)"

definition open_guesses :: "string \<Rightarrow> unix_ms \<Rightarrow> auth_db \<Rightarrow> login_attempt list" where
  "open_guesses ip t0 db =
     filter (\<lambda>a. wrong_password ip a \<and> t0 < la_At a \<and> after_success ip (d_attempts db) (la_At a))
       (d_attempts db)"

definition blocked :: "string \<Rightarrow> unix_ms \<Rightarrow> auth_db \<Rightarrow> bool" where
  "blocked ip t db = (case Lockout ip db of Inl _ \<Rightarrow> False | Inr l \<Rightarrow> lockout_locked l t)"

text \<open>A policy whose block lasts at least as long as its window; the defaults are one.\<close>

definition sane_policy :: "policy \<Rightarrow> bool" where
  "sane_policy p \<longleftrightarrow> 0 < p_maxAttempts p \<and> 0 \<le> p_window p \<and> p_window p \<le> p_lockout p
     \<and> p_window p \<le> MaxLockout \<and> 0 < p_lockout p"

lemma default_policy_sane: "sane_policy default_policy"
  by code_simp

lemma double_capped_ge: "0 \<le> d \<Longrightarrow> d \<le> double_capped n d"
proof (induction n arbitrary: d)
  case (Suc n)
  then have "d * 2 \<le> double_capped n (d * 2)" by simp
  with Suc.prems show ?case by simp
qed simp

lemma lockoutFor_ge:
  assumes "sane_policy p"
  shows "p_window p \<le> lockoutFor (p_lockout p) s"
  using assms double_capped_ge [of "p_lockout p" "nat (s - 1)"]
  by (auto simp: lockoutFor_def sane_policy_def Let_def)

lemma millis_mono: "0 \<le> a \<Longrightarrow> a \<le> b \<Longrightarrow> millis a \<le> millis b"
  by (simp add: millis_def tdiv_def zdiv_mono1)

text \<open>Every lockout row blocks for at least the window.\<close>

definition long_locks :: "policy \<Rightarrow> auth_db \<Rightarrow> bool" where
  "long_locks p db \<longleftrightarrow> (\<forall>l\<in>set (d_lockouts db). lk_UpdatedAt l + millis (p_window p) \<le> lk_LockedUntil l)"

definition budget_kept :: "policy \<Rightarrow> unix_ms \<Rightarrow> auth_db \<Rightarrow> bool" where
  "budget_kept p now db \<longleftrightarrow> (\<forall>ip t. now \<le> t \<longrightarrow>
      int (length (open_guesses ip (t - millis (p_window p)) db)) \<le> p_maxAttempts p
    \<and> (\<not> blocked ip t db \<longrightarrow>
        int (length (open_guesses ip (t - millis (p_window p)) db)) < p_maxAttempts p))"

definition lock_inv :: "policy \<Rightarrow> unix_ms \<Rightarrow> auth_db \<Rightarrow> bool" where
  "lock_inv p now db \<longleftrightarrow> (\<forall>a\<in>set (d_attempts db). la_At a \<le> now) \<and> long_locks p db \<and> budget_kept p now db"

lemma lock_inv_later: "lock_inv p now db \<Longrightarrow> now \<le> now' \<Longrightarrow> lock_inv p now' db"
  by (force simp: lock_inv_def budget_kept_def)

lemma lock_inv_cong:
  "d_attempts db' = d_attempts db \<Longrightarrow> d_lockouts db' = d_lockouts db \<Longrightarrow> lock_inv p now db' = lock_inv p now db"
  by (simp add: lock_inv_def long_locks_def budget_kept_def open_guesses_def blocked_def Lockout_def)

section \<open>Statements\<close>

lemma filter_le: "(\<And>x. x \<in> set xs \<Longrightarrow> P x \<Longrightarrow> Q x) \<Longrightarrow> length (filter P xs) \<le> length (filter Q xs)"
  by (induction xs) auto

lemma filter_filter_le:
  "(\<And>x. x \<in> set xs \<Longrightarrow> q x \<Longrightarrow> P x \<Longrightarrow> Q x) \<Longrightarrow> length (filter P (filter q xs)) \<le> length (filter Q xs)"
  by (induction xs) auto

lemma open_guesses_mono: "t \<le> t' \<Longrightarrow> length (open_guesses ip t' db) \<le> length (open_guesses ip t db)"
  unfolding open_guesses_def by (rule filter_le) auto

lemma open_guesses_none:
  assumes "\<forall>a\<in>set (d_attempts db). la_At a \<le> t"
  shows "open_guesses ip t db = []"
  using assms by (auto simp: open_guesses_def filter_empty_conv)

text \<open>A new row opens at most one guess, and none unless it is a wrong password of the address.\<close>

lemma open_guesses_insert:
  assumes "d_attempts db' = d_attempts db @ [a]"
  shows "length (open_guesses ip t db') \<le> length (open_guesses ip t db) + (if wrong_password ip a then 1 else 0)"
proof -
  let ?P = "\<lambda>as b. wrong_password ip b \<and> t < la_At b \<and> after_success ip as (la_At b)"
  have "length (filter (?P (d_attempts db @ [a])) (d_attempts db))
      \<le> length (filter (?P (d_attempts db)) (d_attempts db))"
    by (rule filter_le) (auto simp: after_success_def)
  then show ?thesis using assms by (auto simp: open_guesses_def)
qed

lemma open_guesses_sweep:
  "length (open_guesses ip t (fst (DeleteLoginAttemptsBefore b db))) \<le> length (open_guesses ip t db)"
proof -
  have "length (filter (\<lambda>a. wrong_password ip a \<and> t < la_At a
        \<and> after_success ip (filter (\<lambda>a. \<not> la_At a < b) (d_attempts db)) (la_At a))
      (filter (\<lambda>a. \<not> la_At a < b) (d_attempts db)))
    \<le> length (filter (\<lambda>a. wrong_password ip a \<and> t < la_At a \<and> after_success ip (d_attempts db) (la_At a))
      (d_attempts db))"
proof (rule filter_filter_le)
  fix a
  assume "\<not> la_At a < b" and a: "wrong_password ip a \<and> t < la_At a
    \<and> after_success ip (filter (\<lambda>a. \<not> la_At a < b) (d_attempts db)) (la_At a)"
  then have "after_success ip (d_attempts db) (la_At a)"
    by (force simp: after_success_def)
  with a show "wrong_password ip a \<and> t < la_At a \<and> after_success ip (d_attempts db) (la_At a)" by blast
qed
  then show ?thesis by (simp add: open_guesses_def DeleteLoginAttemptsBefore_def)
qed

lemma InsertLoginAttempt_Inr:
  "InsertLoginAttempt a db = Inr db' \<Longrightarrow> d_attempts db' = d_attempts db @ [a] \<and> d_lockouts db' = d_lockouts db
     \<and> d_account db' = d_account db"
  by (auto simp: InsertLoginAttempt_def split: if_splits)

text \<open>With the locks in place, fewer open guesses keep the budget.\<close>

lemma lock_inv_fewer:
  assumes "lock_inv p now db" and "\<forall>a\<in>set (d_attempts db'). la_At a \<le> now"
    and "d_lockouts db' = d_lockouts db"
    and "\<And>ip t. length (open_guesses ip t db') \<le> length (open_guesses ip t db)"
  shows "lock_inv p now db'"
proof -
  have b: "blocked ip t db' = blocked ip t db" for ip t
    using assms(3) by (simp add: blocked_def Lockout_def)
  have "budget_kept p now db'"
    unfolding budget_kept_def
  proof (intro allI impI)
    fix ip t
    assume "now \<le> t"
    let ?t = "t - millis (p_window p)"
    have "int (length (open_guesses ip ?t db')) \<le> int (length (open_guesses ip ?t db))"
      using assms(4) by simp
    moreover from \<open>now \<le> t\<close> assms(1)
    have "int (length (open_guesses ip ?t db)) \<le> p_maxAttempts p"
      "\<not> blocked ip t db \<Longrightarrow> int (length (open_guesses ip ?t db)) < p_maxAttempts p"
      by (auto simp: lock_inv_def budget_kept_def)
    ultimately show "int (length (open_guesses ip ?t db')) \<le> p_maxAttempts p
        \<and> (\<not> blocked ip t db' \<longrightarrow> int (length (open_guesses ip ?t db')) < p_maxAttempts p)"
      unfolding b by linarith
  qed
  with assms(1-3) show ?thesis by (simp add: lock_inv_def long_locks_def)
qed

lemma lock_inv_insert:
  assumes "lock_inv p now db" and "d_attempts db' = d_attempts db @ [a]" and "d_lockouts db' = d_lockouts db"
    and "la_At a = now" and "\<And>ip. \<not> wrong_password ip a"
  shows "lock_inv p now db'"
proof (rule lock_inv_fewer [OF assms(1) _ assms(3)])
  show "\<forall>a\<in>set (d_attempts db'). la_At a \<le> now"
    using assms(1,2,4) by (auto simp: lock_inv_def)
  show "length (open_guesses ip t db') \<le> length (open_guesses ip t db)" for ip t
    using open_guesses_insert [OF assms(2), of ip t] assms(5) by simp
qed

lemma lock_inv_sweep:
  assumes "lock_inv p now db"
  shows "lock_inv p now (fst (DeleteLoginAttemptsBefore b db))"
  by (rule lock_inv_fewer [OF assms])
    (use assms open_guesses_sweep in \<open>auto simp: lock_inv_def DeleteLoginAttemptsBefore_def\<close>)

section \<open>A failed login\<close>

lemma CountFailed_ge_open:
  assumes "guess_window x p ip db \<le> t + 1
      \<or> (\<exists>b\<in>set (d_attempts db). la_IP b = ip \<and> la_Success b \<and> guess_window x p ip db \<le> la_At b + 1)"
  shows "length (open_guesses ip t db)
    \<le> CountFailedLoginAttempts ip (guess_window x p ip db) guessReasons db"
  unfolding open_guesses_def CountFailedLoginAttempts_def
  by (rule filter_le)
    (use assms in \<open>force simp: wrong_password_def after_success_def guessReasons_def\<close>)

text \<open>
  When the address is not blocked, the window of the count opens no later than the policy's
  window or than right after the last success: the strikes of an earlier block are older.
\<close>

lemma guess_window_bound:
  assumes "long_locks p db" and "\<not> blocked ip (x_now x) db"
  shows "guess_window x p ip db \<le> x_now x - millis (p_window p) + 1
    \<or> (\<exists>b\<in>set (d_attempts db). la_IP b = ip \<and> la_Success b \<and> guess_window x p ip db \<le> la_At b + 1)"
proof -
  let ?w = "x_now x - millis (p_window p)"
  have lock: "lk_UpdatedAt l \<le> ?w" if "Lockout ip db = Inr l" for l
  proof -
    have "l \<in> set (d_lockouts db)"
      using that by (auto simp: Lockout_def find_Some_iff split: option.splits)
    then show ?thesis
      using assms that by (force simp: long_locks_def blocked_def lockout_locked_def)
  qed
  show ?thesis
  proof (cases "LastSuccessfulLoginAt ip db")
    case None
    then show ?thesis
      using lock by (auto simp: guess_window_def Let_def split: sum.split)
  next
    case (Some u)
    then obtain b where "b \<in> set (d_attempts db)" "la_IP b = ip" "la_Success b" "la_At b = u"
      by (auto simp: LastSuccess_Some)
    then show ?thesis
      using lock Some by (auto simp: guess_window_def Let_def split: sum.split)
  qed
qed

lemma lock_inv_fail:
  assumes inv: "lock_inv p (x_now x) db" and sane: "sane_policy p" and free: "\<not> blocked ip (x_now x) db"
    and tx: "fail_tx x p ip r db = Inr (db', k)" and r: "r = LoginBadPassword \<or> r = LoginNoAccount"
  shows "lock_inv p (x_now x) db'"
proof -
  let ?now = "x_now x" and ?w = "millis (p_window p)"
  have w: "0 \<le> ?w" using sane millis_mono [of 0 "p_window p"] by (simp add: sane_policy_def millis_def tdiv_def)
  from tx obtain db1 where ins: "InsertLoginAttempt (attempt x ip False r) db = Inr db1"
    by (auto simp: fail_tx_def bind_res_eq_Inr st_Inr)
  note rows = InsertLoginAttempt_Inr [OF ins]
  have at: "\<forall>a\<in>set (d_attempts db1). la_At a \<le> ?now"
    using inv rows by (auto simp: lock_inv_def attempt_def)
  have same: "Lockout j db1 = Lockout j db" for j using rows by (simp add: Lockout_def)
  have longs: "long_locks p db1" and free1: "\<not> blocked ip ?now db1"
    using inv rows free same by (auto simp: lock_inv_def long_locks_def blocked_def)
  have other: "length (open_guesses j t db1) \<le> length (open_guesses j t db)" if "j \<noteq> ip" for j t
    using open_guesses_insert [of db1 db _ j t] rows that by (force simp: wrong_password_def attempt_def)
  have mine: "length (open_guesses ip t db1) \<le> length (open_guesses ip t db) + 1" for t
    using open_guesses_insert [of db1 db _ ip t] rows by (force split: if_splits)
  have old: "int (length (open_guesses j (t - ?w) db)) \<le> p_maxAttempts p"
    "\<not> blocked j t db \<Longrightarrow> int (length (open_guesses j (t - ?w) db)) < p_maxAttempts p"
    if "?now \<le> t" for j t
    using inv that by (auto simp: lock_inv_def budget_kept_def)
  let ?n = "CountFailedLoginAttempts ip (guess_window x p ip db1) guessReasons db1"
  have count: "length (open_guesses ip (t - ?w) db1) \<le> ?n" if "?now \<le> t" for t
  proof (rule CountFailed_ge_open)
    show "guess_window x p ip db1 \<le> t - ?w + 1 \<or> (\<exists>b\<in>set (d_attempts db1). la_IP b = ip
        \<and> la_Success b \<and> guess_window x p ip db1 \<le> la_At b + 1)"
      using guess_window_bound [OF longs free1] that by auto
  qed
  show ?thesis
  proof (cases "int ?n < p_maxAttempts p")
    case True
    then have db': "db' = db1"
      using tx ins by (auto simp: fail_tx_def st_def Let_def split: if_splits)
    have "budget_kept p ?now db1"
      unfolding budget_kept_def
    proof (intro allI impI)
      fix j t
      assume t: "?now \<le> t"
      have b: "blocked j t db1 = blocked j t db" by (simp add: blocked_def same)
      show "int (length (open_guesses j (t - ?w) db1)) \<le> p_maxAttempts p
          \<and> (\<not> blocked j t db1 \<longrightarrow> int (length (open_guesses j (t - ?w) db1)) < p_maxAttempts p)"
      proof (cases "j = ip")
        case j: True
        then show ?thesis using count [OF t] True by simp
      next
        case False
        then show ?thesis using other [OF False, of "t - ?w"] old [OF t, of j] b by linarith
      qed
    qed
    with at longs db' show ?thesis by (simp add: lock_inv_def)
  next
    case False
    let ?strikes = "(case Lockout ip db1 of Inl _ \<Rightarrow> 0 | Inr prev \<Rightarrow> lk_Strikes prev) + 1"
    let ?L = "millis (lockoutFor (p_lockout p) ?strikes)"
    let ?l = "\<lparr>lk_IP = ip, lk_LockedUntil = ?now + ?L, lk_Strikes = ?strikes, lk_UpdatedAt = ?now\<rparr>"
    have L: "?w \<le> ?L"
      using sane by (intro millis_mono lockoutFor_ge) (auto simp: sane_policy_def)
    have db': "db' = PutLockout ?l db1"
      using tx ins False sane by (auto simp: fail_tx_def st_def Let_def sane_policy_def split: if_splits)
    have at': "d_attempts db' = d_attempts db1" by (simp add: db' PutLockout_def)
    then have og: "open_guesses j t db' = open_guesses j t db1" for j t by (simp add: open_guesses_def)
    have "long_locks p db'"
      using longs L by (auto simp: db' long_locks_def PutLockout_def)
    moreover have "budget_kept p ?now db'"
      unfolding budget_kept_def og
    proof (intro allI impI)
      fix j t
      assume t: "?now \<le> t"
      show "int (length (open_guesses j (t - ?w) db1)) \<le> p_maxAttempts p
          \<and> (\<not> blocked j t db' \<longrightarrow> int (length (open_guesses j (t - ?w) db1)) < p_maxAttempts p)"
      proof (cases "j = ip")
        case j: True
        have "int (length (open_guesses ip (t - ?w) db1)) \<le> p_maxAttempts p"
          using mine [of "t - ?w"] open_guesses_mono [of "?now - ?w" "t - ?w" ip db] t
            old(2) [OF order_refl free] by linarith
        moreover have "open_guesses ip (t - ?w) db1 = []" if "\<not> blocked ip t db'"
          using that L by (intro open_guesses_none)
            (use at in \<open>force simp: db' blocked_def Lockout_Put lockout_locked_def\<close>)
        ultimately show ?thesis using j sane by (auto simp: sane_policy_def)
      next
        case j: False
        have b: "blocked j t db' = blocked j t db"
          using j by (simp add: blocked_def same db' Lockout_Put)
        show ?thesis using other [OF j, of "t - ?w"] old [OF t, of j] b by linarith
      qed
    qed
    ultimately show ?thesis using at at' by (simp add: lock_inv_def)
  qed
qed

section \<open>A successful login, and the rest\<close>

lemma lock_inv_success:
  assumes inv: "lock_inv p now db" and at: "d_attempts db' = d_attempts db @ [a]"
    and a: "la_At a = now" "la_IP a = ip" "la_Success a"
    and lk: "d_lockouts db' = d_lockouts db \<or> d_lockouts db' = filter (\<lambda>l. lk_IP l \<noteq> ip) (d_lockouts db)"
    and pos: "0 < p_maxAttempts p"
  shows "lock_inv p now db'"
proof -
  have le: "\<forall>b\<in>set (d_attempts db'). la_At b \<le> now" using inv at a by (auto simp: lock_inv_def)
  have mine: "open_guesses ip t db' = []" for t
    using le at a by (force simp: open_guesses_def filter_empty_conv after_success_def)
  have other: "length (open_guesses j t db') \<le> length (open_guesses j t db)" for j t
    using open_guesses_insert [OF at, of j t] a by (simp add: wrong_password_def)
  have b: "blocked j t db' = blocked j t db" if "j \<noteq> ip" for j t
    using lk that by (auto simp: blocked_def Lockout_def find_filter_keyed)
  have "budget_kept p now db'"
    unfolding budget_kept_def
  proof (intro allI impI)
    fix j t
    assume t: "now \<le> t"
    let ?t = "t - millis (p_window p)"
    show "int (length (open_guesses j ?t db')) \<le> p_maxAttempts p
        \<and> (\<not> blocked j t db' \<longrightarrow> int (length (open_guesses j ?t db')) < p_maxAttempts p)"
    proof (cases "j = ip")
      case True
      then show ?thesis using mine pos by simp
    next
      case False
      have "int (length (open_guesses j ?t db)) \<le> p_maxAttempts p"
        "\<not> blocked j t db \<Longrightarrow> int (length (open_guesses j ?t db)) < p_maxAttempts p"
        using inv t by (auto simp: lock_inv_def budget_kept_def)
      then show ?thesis using other [of j ?t] b [OF False, of t] by linarith
    qed
  qed
  moreover have "long_locks p db'" using inv lk by (auto simp: lock_inv_def long_locks_def)
  ultimately show ?thesis using le by (simp add: lock_inv_def)
qed

definition same_log :: "auth_db \<Rightarrow> auth_db \<Rightarrow> bool" where
  "same_log db db' \<longleftrightarrow> d_attempts db' = d_attempts db \<and> d_lockouts db' = d_lockouts db"

lemma same_log_refl [simp]: "same_log db db"
  by (simp add: same_log_def)

lemma same_log_inv: "same_log db db' \<Longrightarrow> lock_inv p now db \<Longrightarrow> lock_inv p now db'"
  using lock_inv_cong [of db' db p now] by (simp add: same_log_def)

lemma same_log_tx: "(\<And>db' a. f db = Inr (db', a) \<Longrightarrow> same_log db db') \<Longrightarrow> same_log db (fst (write_tx x f db))"
  by (rule write_tx_keeps) simp_all

lemma same_log_statements:
  "same_log db (TouchSession i t oip oua db)"
  "same_log db (fst (RevokeSession i t db))"
  "same_log db (fst (RevokeSessionsExcept i t db))"
  "same_log db (fst (DeleteExpiredSessions t db))"
  "same_log db (fst (SetAdminPassword h t db))"
  "same_log db (fst (CreateAdminAccount acc db))"
  "same_log db (fst (ClaimSetup t ip db))"
  "same_log db (ClearSetupTokenPath db)"
  "same_log db (PutSetupClaim h pa t db)"
  "AppendEvent e db = Inr db' \<Longrightarrow> same_log db db'"
  "InsertSession v db = Inr db' \<Longrightarrow> same_log db db'"
  by (auto simp: same_log_def TouchSession_def RevokeSession_def RevokeSessionsExcept_def
      update_sessions_def DeleteExpiredSessions_def SetAdminPassword_def CreateAdminAccount_def
      ClaimSetup_def ClearSetupTokenPath_def PutSetupClaim_def AppendEvent_def InsertSession_def
      split: option.splits if_splits)

lemma same_log_trans: "same_log a b \<Longrightarrow> same_log b c \<Longrightarrow> same_log a c"
  by (simp add: same_log_def)

lemma same_log_append:
  "bind_res (st (AppendEvent e db)) (\<lambda>db3. Inr (db3, ())) = Inr (db', u) \<Longrightarrow> same_log db db'"
  by (auto simp: bind_res_eq_Inr st_Inr intro: same_log_statements)

lemma same_log_mint: "mintSession c x ip ua db = Inr (db', cr) \<Longrightarrow> same_log db db'"
  by (auto simp: mintSession_def bind_res_eq_Inr st_Inr Let_def intro: same_log_statements)

lemma same_log_resolve: "same_log db (fst (ResolveSession c x ck ip ua db))"
proof -
  have "same_log db (fst (slide_session c x ip ua s db))" for s
    using same_log_statements(1)
    by (auto simp: slide_session_def write_tx_def transact_def)
  then have "same_log db db'" if "slide_session c x ip ua s db = (db', r)" for s db' r
    using that by (metis fst_conv)
  then show ?thesis
    by (auto simp: ResolveSession_def split: option.split sum.split prod.split)
qed

lemma same_log_change: "same_log db (fst (ChangePassword c x i cur nxt db))"
proof -
  have "same_log db db'" if "change_tx x i h db = Inr (db', u)" for db' h u
    using that same_log_trans [OF same_log_trans [OF same_log_statements(5) same_log_statements(3)] same_log_append]
    by (simp add: change_tx_def Let_def case_prod_unfold)
  then have "same_log db (fst (write_tx x (change_tx x i h) db))" for h by (rule same_log_tx)
  then show ?thesis by (simp add: ChangePassword_def split: option.split sum.split)
qed

lemma same_log_reset: "same_log db (fst (ResetPassword c x pw db))"
proof -
  have "same_log db db'" if "reset_tx x h db = Inr (db', u)" for db' h u
    using that same_log_trans [OF same_log_trans [OF same_log_statements(5) same_log_statements(3)] same_log_append]
    by (simp add: reset_tx_def case_prod_unfold split: if_splits)
  then have "same_log db (fst (write_tx x (reset_tx x h) db))" for h by (rule same_log_tx)
  then show ?thesis by (simp add: ResetPassword_def split: option.split sum.split)
qed

lemma same_log_logout: "same_log db (fst (Logout x i db))"
  using same_log_tx [of "\<lambda>db. Inr (fst (RevokeSession i (x_now x) db), ())"] same_log_statements(2)
  by (simp add: Logout_def)

lemma same_log_revoke: "same_log db (fst (RevokeSessionAPI x i db))"
proof -
  have "same_log db (fst (write_tx x (\<lambda>db. Inr (RevokeSession i (x_now x) db)) db))"
    by (rule same_log_tx) (metis fst_conv same_log_statements(2) sum.inject(2))
  then show ?thesis by (auto simp: RevokeSessionAPI_def split: prod.splits sum.splits)
qed

lemma same_log_ensure: "same_log (a_db s) (a_db (fst (EnsureSetupToken c x s)))"
proof -
  have p: "same_log (a_db s) (fst (write_tx x (\<lambda>db. Inr (PutSetupClaim h pa (x_now x) db, ())) (a_db s)))" for h pa
    by (rule same_log_tx) (auto simp: same_log_statements)
  have cl: "same_log (a_db s) (fst (write_tx x (\<lambda>db. Inr (ClearSetupTokenPath db, ())) (a_db s)))"
    by (rule same_log_tx) (auto simp: same_log_statements)
  have "same_log (a_db s) db'"
    if "write_tx x (\<lambda>db. Inr (PutSetupClaim h pa (x_now x) db, ())) (a_db s) = (db', r)" for h pa db' r
    using that p by (metis fst_conv)
  then have "same_log (a_db s) (a_db (fst (mintSetupToken c x path s)))" for path
    by (auto simp: mintSetupToken_def Let_def split: option.split sum.split prod.split)
  with cl show ?thesis
    by (auto simp: EnsureSetupToken_def Let_def split: option.split sum.split prod.split)
qed

lemma lock_inv_claim:
  assumes "lock_inv p (x_now x) (a_db s)" and "0 < p_maxAttempts p"
  shows "lock_inv p (x_now x) (a_db (fst (Claim c x pw ip ua s)))"
proof -
  have "lock_inv p (x_now x) db'" if tx: "claim_tx c x h ip ua (a_db s) = Inr (db', cr)" for h db' cr
  proof -
    from tx obtain acc db1 db3 db4 where 1: "CreateAdminAccount acc (a_db s) = (db1, True)"
      and 3: "InsertLoginAttempt (attempt x ip True LoginOK) (fst (ClaimSetup (x_now x) ip db1)) = Inr db3"
      and 4: "AppendEvent (auth_event x LevelInfo ''setup_claimed'' ActorWizard
               ''this host was claimed and the admin account was created'') db3 = Inr db4"
      and 5: "mintSession c x ip ua db4 = Inr (db', cr)"
      by (auto simp: claim_tx_def bind_res_eq_Inr st_Inr Let_def split: if_splits prod.splits)
    have "same_log (a_db s) (fst (ClaimSetup (x_now x) ip db1))"
      using same_log_statements(6) [of "a_db s" acc] same_log_statements(7) [of db1] 1
      by (auto intro: same_log_trans)
    then have "lock_inv p (x_now x) (fst (ClaimSetup (x_now x) ip db1))"
      by (rule same_log_inv) (rule assms(1))
    then have "lock_inv p (x_now x) db3"
      using InsertLoginAttempt_Inr [OF 3] assms(2)
      by (elim lock_inv_success [where a = "attempt x ip True LoginOK" and ip = ip])
        (auto simp: attempt_def)
    then show ?thesis
      using same_log_statements(10) [OF 4] same_log_mint [OF 5] same_log_inv by blast
  qed
  then have "lock_inv p (x_now x) (fst (write_tx x (claim_tx c x h ip ua) (a_db s)))" for h
    using assms(1) by (intro write_tx_keeps [where P = "lock_inv p (x_now x)"]) auto
  then have "lock_inv p (x_now x) db'" if "write_tx x (claim_tx c x h ip ua) (a_db s) = (db', r)" for h db' r
    using that by (metis fst_conv)
  with assms(1) show ?thesis
    by (auto simp: Claim_def split: option.split sum.split prod.split)
qed

lemma lock_inv_record:
  assumes "lock_inv p (x_now x) db" and "r \<noteq> LoginBadPassword" and "r \<noteq> LoginNoAccount"
  shows "lock_inv p (x_now x) (fst (recordAttempt x ip False r db))"
  unfolding recordAttempt_def
proof (rule write_tx_keeps)
  fix db' a
  assume "bind_res (st (InsertLoginAttempt (attempt x ip False r) db)) (\<lambda>db'. Inr (db', ())) = Inr (db', a)"
  then have "InsertLoginAttempt (attempt x ip False r) db = Inr db'"
    by (auto simp: bind_res_eq_Inr st_Inr)
  from InsertLoginAttempt_Inr [OF this] show "lock_inv p (x_now x) db'"
    using assms by (intro lock_inv_insert [OF assms(1)]) (auto simp: attempt_def wrong_password_def)
qed (rule assms(1))

lemma lock_inv_login_tx:
  assumes "lock_inv p (x_now x) db" and "0 < p_maxAttempts p"
    and "login_tx c x pw ip ua rehash db = Inr (db', cr)"
  shows "lock_inv p (x_now x) db'"
proof -
  from assms(3) obtain db1 db3 where 1: "InsertLoginAttempt (attempt x ip True LoginOK) db = Inr db1"
    and 3: "mintSession c x ip ua db3 = Inr (db', cr)"
    and db3: "db3 = DeleteLockout ip db1 \<or> (\<exists>h. db3 = fst (SetAdminPassword h (x_now x) (DeleteLockout ip db1)))"
    by (auto simp: login_tx_def bind_res_eq_Inr st_Inr Let_def split: if_splits sum.splits)
  have "lock_inv p (x_now x) (DeleteLockout ip db1)"
    using InsertLoginAttempt_Inr [OF 1] assms(1,2)
    by (intro lock_inv_success [OF assms(1), where a = "attempt x ip True LoginOK" and ip = ip])
      (auto simp: attempt_def DeleteLockout_def)
  then show ?thesis
    using db3 same_log_statements(5) same_log_mint [OF 3] same_log_inv by metis
qed

lemma lock_inv_Login:
  assumes inv: "lock_inv p (x_now x) db" and sane: "sane_policy p" and pol: "policy_of x = p"
  shows "lock_inv p (x_now x) (fst (Login c x pw ip ua db))"
proof -
  have pos: "0 < p_maxAttempts p" using sane by (simp add: sane_policy_def)
  have rec: "lock_inv p (x_now x) db'" if "recordAttempt x ip False LoginLocked db = (db', r)" for db' r
    using lock_inv_record [OF inv, of LoginLocked ip] that by simp
  have login: "lock_inv p (x_now x) (fst (login_open c x pw ip ua acct db))"
    if free: "\<not> blocked ip (x_now x) db" for acct
  proof -
    have "lock_inv p (x_now x) (fst (write_tx x (fail_tx x p ip r) db))"
      if "r = LoginBadPassword \<or> r = LoginNoAccount" for r
      by (rule write_tx_keeps) (use inv lock_inv_fail [OF inv sane free _ that] in auto)
    then have fail: "lock_inv p (x_now x) db'" if "failLogin x p ip r db = (db', e)"
      "r = LoginBadPassword \<or> r = LoginNoAccount" for r db' e
      using that by (fastforce simp: failLogin_def split: prod.splits sum.splits)
    have "lock_inv p (x_now x) (fst (write_tx x (login_tx c x pw ip ua rehash) db))" for rehash
      by (rule write_tx_keeps) (use inv lock_inv_login_tx [OF inv pos] in auto)
    with fail show ?thesis
      unfolding login_open_def pol by (auto split: option.split sum.split prod.split)
  qed
  show ?thesis
  proof (cases "login_read x ip db")
    case (Inr v)
    have v: "v_lock v = (case Lockout ip db of Inl _ \<Rightarrow> None | Inr l \<Rightarrow> Some l)"
      using Inr by (auto simp: login_read_def read_tx_Inr bind_res_eq_Inr optional_row_def Lockout_def
          split: option.splits)
    show ?thesis
    proof (cases "blocked ip (x_now x) db")
      case True
      then obtain l where "v_lock v = Some l" "lockout_locked l (x_now x)"
        by (auto simp: v blocked_def split: sum.splits)
      then show ?thesis using inv rec
        by (auto simp: Login_def Inr login_finish_def Let_def split: prod.split sum.split)
    next
      case False
      then have "login_finish c x pw ip ua v db = login_open c x pw ip ua (v_account v) db"
        by (auto simp: v blocked_def login_finish_def split: sum.splits)
      then show ?thesis using login [OF False] by (simp add: Login_def Inr)
    qed
  qed (simp add: Login_def inv)
qed

lemma lock_inv_authorize:
  assumes "lock_inv p (x_now x) db"
  shows "lock_inv p (x_now x) (fst (AuthorizeSetup c x lo t ip db))"
  using assms lock_inv_record [OF assms, of LoginBadSetupToken ip]
  by (auto simp: AuthorizeSetup_def split: option.split sum.split prod.split)

fun one_piece :: "auth_op \<Rightarrow> bool" where
  "one_piece (OpLoginFinish _ _ _ _) = False"
| "one_piece _ = True"

lemma lock_inv_step:
  assumes "lock_inv p (x_now x) (a_db s)" and "sane_policy p" and "policy_of x = p" and "one_piece op"
  shows "lock_inv p (x_now x) (a_db (auth_step c (x, op) s))"
proof -
  have "0 < p_maxAttempts p" using assms(2) by (simp add: sane_policy_def)
  note each = same_log_inv [OF same_log_resolve assms(1)] same_log_inv [OF same_log_change assms(1)]
    same_log_inv [OF same_log_reset assms(1)] same_log_inv [OF same_log_logout assms(1)]
    same_log_inv [OF same_log_revoke assms(1)] same_log_inv [OF same_log_ensure assms(1)]
    same_log_inv [OF same_log_statements(4) assms(1)] lock_inv_claim [OF assms(1) this]
    lock_inv_Login [OF assms(1-3)] lock_inv_authorize [OF assms(1)] lock_inv_sweep [OF assms(1)]
  show ?thesis using assms(4) by (cases op) (simp_all add: each)
qed

section \<open>Runs\<close>

text \<open>The clock of a run that starts at \<open>t0\<close> and is over by \<open>t\<close>.\<close>

fun timely :: "unix_ms \<Rightarrow> (auth_env \<times> auth_op) list \<Rightarrow> unix_ms \<Rightarrow> bool" where
  "timely t0 [] t = (t0 \<le> t)"
| "timely t0 (e # es) t = (t0 \<le> x_now (fst e) \<and> timely (x_now (fst e)) es t)"

lemma lock_inv_run:
  assumes "sane_policy p" and "list_all (\<lambda>e. policy_of (fst e) = p \<and> one_piece (snd e)) es"
    and "timely t0 es t" and "lock_inv p t0 (a_db s)"
  shows "lock_inv p t (a_db (run (auth_step c) es s))"
  using assms(2-4)
proof (induction es arbitrary: t0 s)
  case (Cons e es)
  obtain x op where e: "e = (x, op)" by (cases e)
  have "lock_inv p (x_now x) (a_db (auth_step c (x, op) s))"
    using Cons.prems e by (intro lock_inv_step lock_inv_later [OF Cons.prems(3)] assms(1)) auto
  then show ?case using Cons.IH [of "x_now x" "auth_step c (x, op) s"] Cons.prems e by simp
qed (use lock_inv_later in auto)

lemma blocked_login_is_blind:
  assumes "blocked ip (x_now x) db"
  shows "Login c x pw ip ua db = Login c x pw' ip ua db"
proof (cases "login_read x ip db")
  case (Inr v)
  then obtain l where "v_lock v = Some l" "lockout_locked l (x_now x)"
    using assms by (auto simp: login_read_def read_tx_Inr bind_res_eq_Inr optional_row_def Lockout_def
        blocked_def split: option.splits)
  then show ?thesis by (simp add: Login_def Inr login_finish_def)
qed (simp add: Login_def)

text \<open>
  C25. The lockout bounds the guesses. From a log without entries, through any run of the
  service whose logins are not interleaved, under any policy whose block outlasts its window:
  no address ever has more than \<open>login_max_attempts\<close> wrong passwords within one window since
  its last success; an address that is not blocked has strictly fewer; and while an address is
  blocked its logins are answered without looking at the password. Wrong setup tokens only
  shorten the budget.
\<close>

theorem lockout_bounds_the_guesses:
  assumes "sane_policy p" and "list_all (\<lambda>e. policy_of (fst e) = p \<and> one_piece (snd e)) es"
    and "timely t0 es t" and "d_attempts (a_db s) = []" and "d_lockouts (a_db s) = []"
  shows "(let db = a_db (run (auth_step c) es s);
              n = int (length (open_guesses ip (t - millis (p_window p)) db))
    in n \<le> p_maxAttempts p \<and> (blocked ip t db \<or> n < p_maxAttempts p)
     \<and> (\<forall>x pw pw' ua. x_now x = t \<and> blocked ip t db \<longrightarrow>
          Login c x pw ip ua db = Login c x pw' ip ua db))"
proof -
  have "lock_inv p t0 (a_db s)"
    using assms(1,4,5)
    by (simp add: lock_inv_def long_locks_def budget_kept_def open_guesses_def sane_policy_def)
  from lock_inv_run [OF assms(1-3) this]
  have "budget_kept p t (a_db (run (auth_step c) es s))" by (simp add: lock_inv_def)
  then show ?thesis using blocked_login_is_blind by (auto simp: budget_kept_def Let_def)
qed

definition two_strikes :: "unix_ms \<Rightarrow> string \<Rightarrow> auth_env" where
  "two_strikes t n = (demo_env t n)\<lparr>x_settings :=
     Some (\<lambda>k. if k = ''security.login_max_attempts'' then Some 2 else None)\<rparr>"

definition knocking :: "(auth_env \<times> auth_op) list" where
  "knocking = [(two_strikes 10 ''A'', OpLogin ''one'' ''ip'' []), (two_strikes 20 ''B'', OpLogin ''two'' ''ip'' []),
     (two_strikes 30 ''C'', OpLogin ''three'' ''ip'' [])]"

theorem lockout_bounds_the_guesses_witness:
  "int (length (open_guesses ''ip'' (30 - 300000) (a_db (run (auth_step demo_cfg) knocking empty_state)))) \<le> 2
   \<and> length (d_attempts (a_db (run (auth_step demo_cfg) knocking empty_state))) = 3
   \<and> blocked ''ip'' 30 (a_db (run (auth_step demo_cfg) knocking empty_state))"
proof -
  let ?p = "policy_of (two_strikes 0 [])"
  have pol: "policy_of (two_strikes t n) = ?p" for t n by (simp add: two_strikes_def policy_of_def)
  have "sane_policy ?p" by code_simp
  moreover have "list_all (\<lambda>e. policy_of (fst e) = ?p \<and> one_piece (snd e)) knocking"
    using pol [of 10] pol [of 20] pol [of 30] by (simp add: knocking_def)
  moreover have "timely 0 knocking 30" by code_simp
  moreover have "d_attempts (a_db empty_state) = []" "d_lockouts (a_db empty_state) = []" by code_simp+
  moreover have "p_maxAttempts ?p = 2" "millis (p_window ?p) = 300000" by code_simp+
  moreover have "length (d_attempts (a_db (run (auth_step demo_cfg) knocking empty_state))) = 3"
    "blocked ''ip'' 30 (a_db (run (auth_step demo_cfg) knocking empty_state))" by code_simp+
  ultimately show ?thesis
    using lockout_bounds_the_guesses [of ?p knocking 0 30 empty_state demo_cfg "''ip''"]
    by (simp add: Let_def)
qed

end
