(* ===== verification/Token_Store.thy ===== *)
theory Token_Store
  imports Prelude "HOL-Library.Char_ord" "HOL-Library.List_Lexorder" "HOL-Library.Product_Lexorder"
begin

text \<open>
  The tables \<open>api_tokens\<close> and \<open>token_instances\<close> (\<open>internal/store/tokens.go\<close>, and the scope
  sweep of \<open>instances.go\<close>), with the keys of \<open>migrations/0001_init.sql\<close>: ids and hashes of
  tokens are unique, and a scope row names a token and an instance that exist. The ids of the
  table \<open>instances\<close> are the component \<open>b_instances\<close>; \<open>b_events\<close> is the log.
\<close>

datatype token_scope = ScopeGlobal | ScopeInstances
datatype token_state = TokenActive | TokenDisabled | TokenRevoked

record api_token =
  at_ID :: string
  at_Name :: string
  at_Prefix :: string
  at_TokenHash :: string
  at_Scope :: token_scope
  at_State :: token_state
  at_RateLimitRPM :: "int option"
  at_ExpiresAt :: "unix_ms option"
  at_CreatedAt :: unix_ms
  at_UpdatedAt :: unix_ms
  at_RevokedAt :: "unix_ms option"
  at_LastUsedAt :: "unix_ms option"
  at_LastUsedIP :: "string option"
  at_RequestCount :: int

definition token_revoked :: "api_token \<Rightarrow> bool" where
  "token_revoked t \<longleftrightarrow> at_State t = TokenRevoked"

record token_event =
  te_ID :: string
  te_At :: unix_ms
  te_SubjectID :: string
  te_Action :: string
  te_Warn :: bool
  te_Message :: string

record token_db =
  b_tokens :: "api_token list"
  b_scopes :: "(string \<times> string) list"
  b_instances :: "string list"
  b_events :: "token_event list"

datatype tstore_error = TsNotFound | TsConstraint | TsBusy

definition InsertAPIToken :: "api_token \<Rightarrow> token_db \<Rightarrow> tstore_error + token_db" where
  "InsertAPIToken t db =
     (if at_ID t \<in> at_ID ` set (b_tokens db) \<or> at_TokenHash t \<in> at_TokenHash ` set (b_tokens db)
      then Inl TsConstraint else Inr (db\<lparr>b_tokens := b_tokens db @ [t]\<rparr>))"

definition APIToken :: "string \<Rightarrow> token_db \<Rightarrow> tstore_error + api_token" where
  "APIToken i db = (case find (\<lambda>t. at_ID t = i) (b_tokens db) of None \<Rightarrow> Inl TsNotFound | Some t \<Rightarrow> Inr t)"

definition APITokenByHash :: "string \<Rightarrow> token_db \<Rightarrow> tstore_error + api_token" where
  "APITokenByHash h db =
     (case find (\<lambda>t. at_TokenHash t = h) (b_tokens db) of None \<Rightarrow> Inl TsNotFound | Some t \<Rightarrow> Inr t)"

definition APITokens :: "token_db \<Rightarrow> api_token list" where
  "APITokens db = rev (sort_key at_ID (b_tokens db))"

definition update_tokens :: "(api_token \<Rightarrow> bool) \<Rightarrow> (api_token \<Rightarrow> api_token) \<Rightarrow> token_db \<Rightarrow> token_db" where
  "update_tokens p f db = db\<lparr>b_tokens := map (\<lambda>t. if p t then f t else t) (b_tokens db)\<rparr>"

definition live_row :: "string \<Rightarrow> api_token \<Rightarrow> bool" where
  "live_row i t \<longleftrightarrow> at_ID t = i \<and> at_State t \<noteq> TokenRevoked"

definition UpdateAPIToken :: "api_token \<Rightarrow> token_db \<Rightarrow> token_db \<times> bool" where
  "UpdateAPIToken t db =
     (update_tokens (live_row (at_ID t)) (\<lambda>r. r\<lparr>at_Name := at_Name t, at_Scope := at_Scope t,
        at_State := at_State t, at_RateLimitRPM := at_RateLimitRPM t, at_ExpiresAt := at_ExpiresAt t,
        at_UpdatedAt := at_UpdatedAt t, at_RevokedAt := at_RevokedAt t\<rparr>) db,
      list_ex (live_row (at_ID t)) (b_tokens db))"

definition RevokeAPIToken :: "string \<Rightarrow> unix_ms \<Rightarrow> token_db \<Rightarrow> token_db \<times> bool" where
  "RevokeAPIToken i at db =
     (update_tokens (live_row i) (\<lambda>r. r\<lparr>at_State := TokenRevoked, at_RevokedAt := Some at,
                                       at_UpdatedAt := at\<rparr>) db,
      list_ex (live_row i) (b_tokens db))"

definition TouchAPIToken ::
    "string \<Rightarrow> unix_ms \<Rightarrow> string option \<Rightarrow> int \<Rightarrow> token_db \<Rightarrow> token_db \<times> bool" where
  "TouchAPIToken i at ip delta db =
     (update_tokens (\<lambda>t. at_ID t = i) (\<lambda>r. r\<lparr>at_LastUsedAt := Some at, at_LastUsedIP := ip,
                                            at_RequestCount := at_RequestCount r + delta\<rparr>) db,
      list_ex (\<lambda>t. at_ID t = i) (b_tokens db))"

definition TokenInstances :: "string \<Rightarrow> token_db \<Rightarrow> string list" where
  "TokenInstances i db = sort (map snd (filter (\<lambda>(t, _). t = i) (b_scopes db)))"

definition AllTokenInstances :: "token_db \<Rightarrow> string \<Rightarrow> string list" where
  "AllTokenInstances db i = map snd (filter (\<lambda>(t, _). t = i) (sort (b_scopes db)))"

text \<open>The ids of the request with repetitions dropped, each at its first place.\<close>

fun first_seen :: "string list \<Rightarrow> string list \<Rightarrow> string list" where
  "first_seen seen [] = []"
| "first_seen seen (i # is) = (if i \<in> set seen then first_seen seen is else i # first_seen (i # seen) is)"

definition SetTokenInstances :: "string \<Rightarrow> string list \<Rightarrow> token_db \<Rightarrow> tstore_error + token_db" where
  "SetTokenInstances i ids db =
     (let kept = filter (\<lambda>(t, _). t \<noteq> i) (b_scopes db)
      in if ids = [] then Inr (db\<lparr>b_scopes := kept\<rparr>)
         else if i \<notin> at_ID ` set (b_tokens db) \<or> \<not> set ids \<subseteq> set (b_instances db) then Inl TsConstraint
         else Inr (db\<lparr>b_scopes := kept @ map (Pair i) (first_seen [] ids)\<rparr>))"

definition DeleteTokenInstances :: "string \<Rightarrow> token_db \<Rightarrow> token_db" where
  "DeleteTokenInstances inst db = db\<lparr>b_scopes := filter (\<lambda>(_, j). j \<noteq> inst) (b_scopes db)\<rparr>"

definition AppendTokenEvent :: "token_event \<Rightarrow> token_db \<Rightarrow> tstore_error + token_db" where
  "AppendTokenEvent e db = (if te_ID e \<in> te_ID ` set (b_events db) then Inl TsConstraint
                            else Inr (db\<lparr>b_events := b_events db @ [e]\<rparr>))"

section \<open>Well-formed tables and lookups\<close>

definition tokens_ok :: "token_db \<Rightarrow> bool" where
  "tokens_ok db \<longleftrightarrow> distinct (map at_ID (b_tokens db)) \<and> distinct (map at_TokenHash (b_tokens db))"

text \<open>No statement changes the id or the hash of a row.\<close>

lemma find_update:
  assumes "\<And>t. k (f t) = k t"
  shows "find (\<lambda>t. k t = i) (map (\<lambda>t. if p t then f t else t) ts)
    = map_option (\<lambda>t. if p t then f t else t) (find (\<lambda>t. k t = i) ts)"
  by (induction ts) (auto simp: assms)

lemma find_app: "find p (xs @ ys) = (case find p xs of None \<Rightarrow> find p ys | Some x \<Rightarrow> Some x)"
  by (induction xs) auto

lemma APIToken_update:
  assumes "\<And>t. at_ID (f t) = at_ID t"
  shows "APIToken i (update_tokens p f db)
    = (case APIToken i db of Inl e \<Rightarrow> Inl e | Inr t \<Rightarrow> Inr (if p t then f t else t))"
  using find_update [of at_ID f, OF assms]
  by (simp add: APIToken_def update_tokens_def split: option.split)

lemma ByHash_update:
  assumes "\<And>t. at_TokenHash (f t) = at_TokenHash t"
  shows "APITokenByHash h (update_tokens p f db)
    = (case APITokenByHash h db of Inl e \<Rightarrow> Inl e | Inr t \<Rightarrow> Inr (if p t then f t else t))"
  using find_update [of at_TokenHash f, OF assms]
  by (simp add: APITokenByHash_def update_tokens_def split: option.split)

lemma ByHash_insert:
  "InsertAPIToken t db = Inr db' \<Longrightarrow> APITokenByHash h db = Inr r \<Longrightarrow> APITokenByHash h db' = Inr r"
  by (auto simp: InsertAPIToken_def APITokenByHash_def find_app split: if_splits option.splits)

lemma ByHash_scopes [simp]: "APITokenByHash h (db\<lparr>b_scopes := x\<rparr>) = APITokenByHash h db"
  "APITokenByHash h (db\<lparr>b_events := y\<rparr>) = APITokenByHash h db"
  by (simp_all add: APITokenByHash_def)

lemma ByHash_hash: "APITokenByHash h db = Inr r \<Longrightarrow> at_TokenHash r = h \<and> r \<in> set (b_tokens db)"
  by (auto simp: APITokenByHash_def find_Some_iff split: option.splits)

lemma APIToken_id: "APIToken i db = Inr r \<Longrightarrow> at_ID r = i \<and> r \<in> set (b_tokens db)"
  by (auto simp: APIToken_def find_Some_iff split: option.splits)

end
