(* ===== verification/Token_Service.thy ===== *)
theory Token_Service
  imports Token_Store Encoding Complex_Main
begin

text \<open>
  The API tokens (\<open>internal/tokens/service.go\<close>, \<open>secret.go\<close>, \<open>ratelimit.go\<close>): minting, editing
  and revoking over the tables, verification over the epoch-guarded cache, the bucket of the rate
  limit, and the batched use counters.

  SHA-256 is the parameter \<open>sha\<close>. The environment of a call holds the clock in nanoseconds, the
  ids, the random bytes (\<open>None\<close> for a short read) and whether the database answers. The texts of
  error messages are left out, their codes are kept. The epoch, a \<open>uint64\<close> bumped once per
  write, is a natural number: \<open>2 ^ 64\<close> writes are not reached. The float arithmetic of the bucket
  is done in rationals.
\<close>

section \<open>State\<close>

record token_env =
  y_ns :: int
  y_id :: string
  y_event_id :: string
  y_secret :: "bytes option"
  y_read_ok :: bool
  y_write_ok :: bool
  y_events :: bool

definition now_ms :: "token_env \<Rightarrow> unix_ms" where
  "now_ms y = y_ns y div 1000000"

record entry =
  en_epoch :: nat
  en_id :: string
  en_prefix :: string
  en_hash :: string
  en_state :: token_state
  en_scope :: token_scope
  en_instances :: "string list"
  en_expiresAt :: "unix_ms option"
  en_rateLimit :: "int option"

record bucket =
  bk_rpm :: int
  bk_tokens :: rat
  bk_lastRefill :: int

record use =
  us_count :: int
  us_lastAt :: unix_ms
  us_lastIP :: "string option"
  us_lastWrite :: unix_ms

record token_svc =
  k_db :: token_db
  k_epoch :: nat
  k_cache :: "string \<Rightarrow> entry option"
  k_limits :: "string \<Rightarrow> bucket option"
  k_uses :: "(string \<times> use) list"
  k_published :: "token_event list"

datatype token_code =
    CodeTokenNameRequired | CodeTokenScopeInvalid | CodeTokenStateInvalid | CodeTokenRevoked
  | CodeTokenRateLimitInvalid

datatype denial_reason =
    DeniedMissing | DeniedUnknown | DeniedDisabled | DeniedRevoked | DeniedExpired | DeniedScope
  | DeniedRateLimited

datatype token_error =
    TeStore tstore_error | TeCode token_code | TeDenied denial_reason | TeEntropy

definition ts :: "tstore_error + 'a \<Rightarrow> token_error + 'a" where
  "ts r = (case r of Inl e \<Rightarrow> Inl (TeStore e) | Inr a \<Rightarrow> Inr a)"

definition token_write :: "token_env \<Rightarrow> (token_db \<Rightarrow> token_error + token_db \<times> 'a) \<Rightarrow> token_db
    \<Rightarrow> token_db \<times> (token_error + 'a)" where
  "token_write y f db = (if y_write_ok y then transact f db else (db, Inl (TeStore TsBusy)))"

section \<open>Secrets\<close>

definition secret_prefix :: string where "secret_prefix = ''lm_''"
definition SecretBytes :: nat where "SecretBytes = 32"
definition prefixChars :: nat where "prefixChars = 6"

text \<open>The package has its own copy of \<open>base58Encode\<close>, with the same alphabet.\<close>

definition token_base58 :: "bytes \<Rightarrow> string" where
  "token_base58 b = (let n = set_bytes b;
     out = map (\<lambda>d. base58Alphabet ! d) (digits_of 58 n) @ replicate (leading_zeros b) (base58Alphabet ! 0)
   in rev out)"

definition NewSecret :: "bytes option \<Rightarrow> token_error + string" where
  "NewSecret r = (case r of None \<Rightarrow> Inl TeEntropy | Some buf \<Rightarrow> Inr (secret_prefix @ token_base58 buf))"

definition DisplayPrefix :: "string \<Rightarrow> string" where
  "DisplayPrefix secret =
     (let body = (case cut_prefix secret secret_prefix of None \<Rightarrow> secret | Some r \<Rightarrow> r)
      in secret_prefix @ (if length body > prefixChars then take prefixChars body else body))"

section \<open>Events and epoch\<close>

definition new_event :: "token_env \<Rightarrow> api_token \<Rightarrow> string \<Rightarrow> bool \<Rightarrow> string \<Rightarrow> token_event" where
  "new_event y row action warn message = \<lparr>te_ID = y_event_id y, te_At = now_ms y,
     te_SubjectID = at_ID row, te_Action = action, te_Warn = warn, te_Message = message\<rparr>"

text \<open>\<open>event\<close>: the row is appended, and what was appended is handed to the sink.\<close>

definition token_event_tx :: "token_env \<Rightarrow> api_token \<Rightarrow> string \<Rightarrow> bool \<Rightarrow> string \<Rightarrow> token_db
    \<Rightarrow> token_error + token_db \<times> token_event list" where
  "token_event_tx y row action warn message db =
     (if \<not> y_events y then Inr (db, [])
      else let ev = new_event y row action warn message
        in bind_res (ts (AppendTokenEvent ev db)) (\<lambda>db'. Inr (db', [ev])))"

definition publish :: "token_env \<Rightarrow> token_event list \<Rightarrow> token_svc \<Rightarrow> token_svc" where
  "publish y sink s = (if y_events y then s\<lparr>k_published := k_published s @ sink\<rparr> else s)"

definition Invalidate :: "token_svc \<Rightarrow> token_svc" where
  "Invalidate s = s\<lparr>k_epoch := k_epoch s + 1\<rparr>"

definition forget :: "string \<Rightarrow> token_svc \<Rightarrow> token_svc" where
  "forget i s = s\<lparr>k_limits := (k_limits s)(i := None)\<rparr>"

section \<open>Mint, read, patch, revoke\<close>

record token_info =
  ti_ID :: string
  ti_Name :: string
  ti_Prefix :: string
  ti_Scope :: token_scope
  ti_State :: token_state
  ti_InstanceIDs :: "string list"
  ti_RateLimitRPM :: "int option"
  ti_ExpiresAt :: "unix_ms option"
  ti_CreatedAt :: unix_ms
  ti_UpdatedAt :: unix_ms
  ti_RevokedAt :: "unix_ms option"
  ti_LastUsedAt :: "unix_ms option"
  ti_LastUsedIP :: "string option"
  ti_RequestCount :: int

definition tokenOf :: "api_token \<Rightarrow> string list \<Rightarrow> token_info" where
  "tokenOf row ids = \<lparr>ti_ID = at_ID row, ti_Name = at_Name row, ti_Prefix = at_Prefix row,
     ti_Scope = at_Scope row, ti_State = at_State row, ti_InstanceIDs = ids,
     ti_RateLimitRPM = at_RateLimitRPM row, ti_ExpiresAt = at_ExpiresAt row,
     ti_CreatedAt = at_CreatedAt row, ti_UpdatedAt = at_UpdatedAt row, ti_RevokedAt = at_RevokedAt row,
     ti_LastUsedAt = at_LastUsedAt row, ti_LastUsedIP = at_LastUsedIP row,
     ti_RequestCount = at_RequestCount row\<rparr>"

definition validRateLimit :: "int option \<Rightarrow> bool" where
  "validRateLimit v = (case v of None \<Rightarrow> True | Some n \<Rightarrow> n \<ge> 0)"

definition parse_scope :: "string \<Rightarrow> token_scope option" where
  "parse_scope s = (if s = [] \<or> s = ''global'' then Some ScopeGlobal
     else if s = ''instances'' then Some ScopeInstances else None)"

definition parse_state :: "string \<Rightarrow> token_state option" where
  "parse_state s = (if s = ''active'' then Some TokenActive else if s = ''disabled'' then Some TokenDisabled
     else if s = ''revoked'' then Some TokenRevoked else None)"

definition state_name :: "token_state \<Rightarrow> string" where
  "state_name s = (case s of TokenActive \<Rightarrow> ''active'' | TokenDisabled \<Rightarrow> ''disabled'' | TokenRevoked \<Rightarrow> ''revoked'')"

record mint_params =
  mp_Name :: string
  mp_Scope :: string
  mp_InstanceIDs :: "string list"
  mp_RateLimitRPM :: "int option"
  mp_ExpiresAt :: "unix_ms option"

definition mint_row :: "(string \<Rightarrow> string) \<Rightarrow> token_env \<Rightarrow> mint_params \<Rightarrow> token_scope \<Rightarrow> string \<Rightarrow> api_token" where
  "mint_row sha y p scope secret =
     \<lparr>at_ID = y_id y, at_Name = mp_Name p, at_Prefix = DisplayPrefix secret, at_TokenHash = sha secret,
      at_Scope = scope, at_State = TokenActive, at_RateLimitRPM = mp_RateLimitRPM p,
      at_ExpiresAt = mp_ExpiresAt p, at_CreatedAt = now_ms y, at_UpdatedAt = now_ms y,
      at_RevokedAt = None, at_LastUsedAt = None, at_LastUsedIP = None, at_RequestCount = 0\<rparr>"

definition mint_tx :: "token_env \<Rightarrow> mint_params \<Rightarrow> api_token \<Rightarrow> token_db
    \<Rightarrow> token_error + token_db \<times> token_event list" where
  "mint_tx y p row db =
     bind_res (ts (InsertAPIToken row db)) (\<lambda>db1.
     bind_res (if at_Scope row = ScopeInstances then ts (SetTokenInstances (at_ID row) (mp_InstanceIDs p) db1)
               else Inr db1) (\<lambda>db2.
     token_event_tx y row ''token_created'' False
       (''API token '' @ at_Name row @ '' ('' @ at_Prefix row @ '') created'') db2))"

text \<open>
  A call that writes is its transaction, with the checks before it, and what it does once the
  transaction has committed: forget the bucket, bump the epoch, publish.
\<close>

definition mint_commit :: "(string \<Rightarrow> string) \<Rightarrow> token_env \<Rightarrow> mint_params \<Rightarrow> token_svc
    \<Rightarrow> token_svc \<times> (token_error + api_token \<times> string \<times> token_event list)" where
  "mint_commit sha y p s =
     (if mp_Name p = [] then (s, Inl (TeCode CodeTokenNameRequired))
      else case parse_scope (mp_Scope p) of
        None \<Rightarrow> (s, Inl (TeCode CodeTokenScopeInvalid))
      | Some scope \<Rightarrow>
         if scope = ScopeInstances \<and> mp_InstanceIDs p = [] then (s, Inl (TeCode CodeTokenScopeInvalid))
         else if \<not> validRateLimit (mp_RateLimitRPM p) then (s, Inl (TeCode CodeTokenRateLimitInvalid))
         else case NewSecret (y_secret y) of
            Inl e \<Rightarrow> (s, Inl e)
          | Inr secret \<Rightarrow>
             let row = mint_row sha y p scope secret
             in case token_write y (mint_tx y p row) (k_db s) of
                  (db', Inl e) \<Rightarrow> (s\<lparr>k_db := db'\<rparr>, Inl e)
                | (db', Inr sink) \<Rightarrow> (s\<lparr>k_db := db'\<rparr>, Inr (row, secret, sink)))"

definition mint_return :: "token_env \<Rightarrow> mint_params \<Rightarrow> token_error + api_token \<times> string \<times> token_event list
    \<Rightarrow> token_svc \<Rightarrow> token_svc \<times> (token_error + token_info \<times> string)" where
  "mint_return y p r s = (case r of
       Inl e \<Rightarrow> (s, Inl e)
     | Inr (row, secret, sink) \<Rightarrow>
         (publish y sink (Invalidate s), Inr (tokenOf row (mp_InstanceIDs p), secret)))"

definition Mint :: "(string \<Rightarrow> string) \<Rightarrow> token_env \<Rightarrow> mint_params \<Rightarrow> token_svc
    \<Rightarrow> token_svc \<times> (token_error + token_info \<times> string)" where
  "Mint sha y p s = (case mint_commit sha y p s of (s1, r) \<Rightarrow> mint_return y p r s1)"

definition List :: "token_env \<Rightarrow> token_svc \<Rightarrow> token_error + token_info list" where
  "List y s = (if \<not> y_read_ok y then Inl (TeStore TsBusy)
     else Inr (map (\<lambda>row. tokenOf row (AllTokenInstances (k_db s) (at_ID row))) (APITokens (k_db s))))"

definition Get :: "token_env \<Rightarrow> string \<Rightarrow> token_svc \<Rightarrow> token_error + token_info" where
  "Get y i s = (if \<not> y_read_ok y then Inl (TeStore TsBusy)
     else bind_res (ts (APIToken i (k_db s))) (\<lambda>row. Inr (tokenOf row (TokenInstances i (k_db s)))))"

record patch_params =
  pp_Name :: "string option"
  pp_State :: "string option"
  pp_InstanceIDs :: "string list option"
  pp_RateLimitRPM :: "int option option"
  pp_ExpiresAt :: "unix_ms option option"

text \<open>The edited columns, in the order of the transaction.\<close>

definition patch_row :: "token_env \<Rightarrow> patch_params \<Rightarrow> token_state option \<Rightarrow> api_token \<Rightarrow> api_token" where
  "patch_row y p to row =
     (let r1 = (case pp_Name p of None \<Rightarrow> row | Some n \<Rightarrow> row\<lparr>at_Name := n\<rparr>);
          r2 = (case pp_RateLimitRPM p of None \<Rightarrow> r1 | Some v \<Rightarrow> r1\<lparr>at_RateLimitRPM := v\<rparr>);
          r3 = (case pp_ExpiresAt p of None \<Rightarrow> r2 | Some v \<Rightarrow> r2\<lparr>at_ExpiresAt := v\<rparr>);
          r4 = (case pp_InstanceIDs p of None \<Rightarrow> r3
                | Some ids \<Rightarrow> r3\<lparr>at_Scope := (if ids = [] then ScopeGlobal else ScopeInstances)\<rparr>);
          r5 = (case to of None \<Rightarrow> r4
                | Some st \<Rightarrow> (let r = r4\<lparr>at_State := st\<rparr>
                             in if st = TokenRevoked then r\<lparr>at_RevokedAt := Some (now_ms y)\<rparr> else r))
      in r5\<lparr>at_UpdatedAt := now_ms y\<rparr>)"

definition patch_tx :: "token_env \<Rightarrow> string \<Rightarrow> patch_params \<Rightarrow> token_state option \<Rightarrow> token_db
    \<Rightarrow> token_error + token_db \<times> token_info \<times> token_event list" where
  "patch_tx y i p to db =
     bind_res (ts (APIToken i db)) (\<lambda>row0.
       if token_revoked row0 then Inl (TeCode CodeTokenRevoked)
       else if pp_Name p = Some [] then Inl (TeCode CodeTokenNameRequired)
       else
         let row = patch_row y p to row0;
             ids = (case pp_InstanceIDs p of None \<Rightarrow> TokenInstances i db | Some ids \<Rightarrow> ids)
         in bind_res (case pp_InstanceIDs p of None \<Rightarrow> Inr db | Some _ \<Rightarrow> ts (SetTokenInstances i ids db)) (\<lambda>db1.
            case UpdateAPIToken row db1 of (db2, changed) \<Rightarrow>
              if \<not> changed then Inl (TeCode CodeTokenRevoked)
              else
                let moved = (to \<noteq> None \<and> to \<noteq> Some (at_State row0));
                    action = (if moved then ''token_'' @ state_name (the to) else ''token_updated'');
                    message = ''API token '' @ at_Name row @ '' ('' @ at_Prefix row @
                      (if moved then '') is now '' @ state_name (the to) else '') updated'')
                in bind_res (token_event_tx y row action (moved \<and> to = Some TokenRevoked) message db2)
                     (\<lambda>(db3, sink). Inr (db3, tokenOf row ids, sink))))"

definition patch_commit :: "token_env \<Rightarrow> string \<Rightarrow> patch_params \<Rightarrow> token_svc
    \<Rightarrow> token_svc \<times> (token_error + token_info \<times> token_event list)" where
  "patch_commit y i p s =
     (case (case pp_State p of None \<Rightarrow> Some None | Some v \<Rightarrow> map_option Some (parse_state v)) of
        None \<Rightarrow> (s, Inl (TeCode CodeTokenStateInvalid))
      | Some to \<Rightarrow>
         if (case pp_RateLimitRPM p of None \<Rightarrow> False | Some v \<Rightarrow> \<not> validRateLimit v)
         then (s, Inl (TeCode CodeTokenRateLimitInvalid))
         else case token_write y (patch_tx y i p to) (k_db s) of (db', r) \<Rightarrow> (s\<lparr>k_db := db'\<rparr>, r))"

definition patch_return :: "token_env \<Rightarrow> string \<Rightarrow> token_error + token_info \<times> token_event list
    \<Rightarrow> token_svc \<Rightarrow> token_svc \<times> (token_error + token_info)" where
  "patch_return y i r s = (case r of
       Inl e \<Rightarrow> (s, Inl e)
     | Inr (out, sink) \<Rightarrow> (publish y sink (Invalidate (forget i s)), Inr out))"

definition Patch :: "token_env \<Rightarrow> string \<Rightarrow> patch_params \<Rightarrow> token_svc
    \<Rightarrow> token_svc \<times> (token_error + token_info)" where
  "Patch y i p s = (case patch_commit y i p s of (s1, r) \<Rightarrow> patch_return y i r s1)"

definition revoke_tx :: "token_env \<Rightarrow> string \<Rightarrow> token_db \<Rightarrow> token_error + token_db \<times> token_event list" where
  "revoke_tx y i db =
     bind_res (ts (APIToken i db)) (\<lambda>row.
       case RevokeAPIToken i (now_ms y) db of (db1, revoked) \<Rightarrow>
         if \<not> revoked then Inr (db1, [])
         else token_event_tx y row ''token_revoked'' True
                (''API token '' @ at_Name row @ '' ('' @ at_Prefix row @ '') revoked'') db1)"

definition revoke_commit :: "token_env \<Rightarrow> string \<Rightarrow> token_svc
    \<Rightarrow> token_svc \<times> (token_error + token_event list)" where
  "revoke_commit y i s = (case token_write y (revoke_tx y i) (k_db s) of (db', r) \<Rightarrow> (s\<lparr>k_db := db'\<rparr>, r))"

definition revoke_return :: "token_env \<Rightarrow> string \<Rightarrow> token_error + token_event list
    \<Rightarrow> token_svc \<Rightarrow> token_svc \<times> (token_error + unit)" where
  "revoke_return y i r s = (case r of
       Inl e \<Rightarrow> (s, Inl e)
     | Inr sink \<Rightarrow> (publish y sink (Invalidate (forget i s)), Inr ()))"

definition Revoke :: "token_env \<Rightarrow> string \<Rightarrow> token_svc \<Rightarrow> token_svc \<times> (token_error + unit)" where
  "Revoke y i s = (case revoke_commit y i s of (s1, r) \<Rightarrow> revoke_return y i r s1)"

section \<open>Verification\<close>

text \<open>The row and the scope a verification reads, \<open>None\<close> when no row has the hash.\<close>

definition read_by_hash :: "string \<Rightarrow> token_db \<Rightarrow> (api_token \<times> string list) option" where
  "read_by_hash h db = (case APITokenByHash h db of Inl _ \<Rightarrow> None
     | Inr row \<Rightarrow> Some (row, if at_Scope row \<noteq> ScopeInstances then [] else TokenInstances (at_ID row) db))"

definition entry_of :: "nat \<Rightarrow> api_token \<times> string list \<Rightarrow> entry" where
  "entry_of epoch r = (case r of (row, ids) \<Rightarrow> \<lparr>en_epoch = epoch, en_id = at_ID row,
     en_prefix = at_Prefix row, en_hash = at_TokenHash row, en_state = at_State row,
     en_scope = at_Scope row, en_instances = ids, en_expiresAt = at_ExpiresAt row,
     en_rateLimit = at_RateLimitRPM row\<rparr>)"

definition cache_hit :: "string \<Rightarrow> token_svc \<Rightarrow> entry option" where
  "cache_hit h s = (case k_cache s h of None \<Rightarrow> None
     | Some e \<Rightarrow> if en_epoch e = k_epoch s then Some e else None)"

text \<open>What is left of \<open>entryFor\<close> once the row has been read at epoch \<open>epoch\<close>.\<close>

definition cache_result :: "string \<Rightarrow> nat \<Rightarrow> (api_token \<times> string list) option \<Rightarrow> token_svc
    \<Rightarrow> token_svc \<times> (token_error + entry)" where
  "cache_result h epoch r s = (case r of
     None \<Rightarrow> (s\<lparr>k_cache := (k_cache s)(h := None)\<rparr>, Inl (TeDenied DeniedUnknown))
   | Some row \<Rightarrow> (let e = entry_of epoch row in (s\<lparr>k_cache := (k_cache s)(h := Some e)\<rparr>, Inr e)))"

definition entryFor :: "token_env \<Rightarrow> string \<Rightarrow> token_svc \<Rightarrow> token_svc \<times> (token_error + entry)" where
  "entryFor y h s = (case cache_hit h s of
     Some e \<Rightarrow> (s, Inr e)
   | None \<Rightarrow> if \<not> y_read_ok y then (s, Inl (TeStore TsBusy))
       else cache_result h (k_epoch s) (read_by_hash h (k_db s)) s)"

definition allow :: "string \<Rightarrow> int \<Rightarrow> int \<Rightarrow> token_svc \<Rightarrow> token_svc \<times> bool" where
  "allow i rpm now s =
     (if rpm \<le> 0 then (s, True)
      else
        let bk = (case k_limits s i of
                    Some b \<Rightarrow> if bk_rpm b = rpm then b
                              else \<lparr>bk_rpm = rpm, bk_tokens = of_int rpm, bk_lastRefill = now\<rparr>
                  | None \<Rightarrow> \<lparr>bk_rpm = rpm, bk_tokens = of_int rpm, bk_lastRefill = now\<rparr>);
            elapsed = now - bk_lastRefill bk;
            bk = (if elapsed > 0
                  then bk\<lparr>bk_tokens := min (of_int rpm)
                             (bk_tokens bk + of_int elapsed / 1000000000 * of_int rpm / 60),
                          bk_lastRefill := now\<rparr>
                  else bk)
        in if bk_tokens bk < 1 then (s\<lparr>k_limits := (k_limits s)(i := Some bk)\<rparr>, False)
           else (s\<lparr>k_limits := (k_limits s)(i := Some (bk\<lparr>bk_tokens := bk_tokens bk - 1\<rparr>))\<rparr>, True))"

record verified =
  ve_TokenID :: string
  ve_Prefix :: string
  ve_Scope :: token_scope

text \<open>The checks on an entry, in their order; the limiter is asked last.\<close>

definition decide :: "token_env \<Rightarrow> string \<Rightarrow> string \<Rightarrow> entry \<Rightarrow> token_svc
    \<Rightarrow> token_svc \<times> (token_error + verified)" where
  "decide y h instanceID e s =
     (if en_hash e \<noteq> h then (s, Inl (TeDenied DeniedUnknown))
      else if en_state e = TokenRevoked then (s, Inl (TeDenied DeniedRevoked))
      else if en_state e = TokenDisabled then (s, Inl (TeDenied DeniedDisabled))
      else if (case en_expiresAt e of None \<Rightarrow> False | Some t \<Rightarrow> now_ms y \<ge> t)
      then (s, Inl (TeDenied DeniedExpired))
      else if en_scope e = ScopeInstances \<and> instanceID \<notin> set (en_instances e)
      then (s, Inl (TeDenied DeniedScope))
      else
        let ok = \<lparr>ve_TokenID = en_id e, ve_Prefix = en_prefix e, ve_Scope = en_scope e\<rparr>
        in case en_rateLimit e of None \<Rightarrow> (s, Inr ok)
           | Some rpm \<Rightarrow> (case allow (en_id e) rpm (y_ns y) s of
                (s', True) \<Rightarrow> (s', Inr ok)
              | (s', False) \<Rightarrow> (s', Inl (TeDenied DeniedRateLimited))))"

definition Verify :: "(string \<Rightarrow> string) \<Rightarrow> token_env \<Rightarrow> string \<Rightarrow> string \<Rightarrow> token_svc
    \<Rightarrow> token_svc \<times> (token_error + verified)" where
  "Verify sha y secret instanceID s =
     (if secret = [] then (s, Inl (TeDenied DeniedMissing))
      else case entryFor y (sha secret) s of
        (s', Inl e) \<Rightarrow> (s', Inl e)
      | (s', Inr e) \<Rightarrow> decide y (sha secret) instanceID e s')"

section \<open>Use counters\<close>

definition TouchInterval :: int where "TouchInterval = 10000"

definition use_of :: "string \<Rightarrow> token_svc \<Rightarrow> use" where
  "use_of i s = (case map_of (k_uses s) i of None \<Rightarrow>
     \<lparr>us_count = 0, us_lastAt = 0, us_lastIP = None, us_lastWrite = 0\<rparr> | Some u \<Rightarrow> u)"

fun put_use :: "string \<Rightarrow> use \<Rightarrow> (string \<times> use) list \<Rightarrow> (string \<times> use) list" where
  "put_use i u [] = [(i, u)]"
| "put_use i u ((j, v) # us) = (if j = i then (i, u) # us else (j, v) # put_use i u us)"

definition RecordUse :: "string \<Rightarrow> unix_ms \<Rightarrow> string \<Rightarrow> token_svc \<Rightarrow> token_svc" where
  "RecordUse i when ip s =
     (if i = [] then s
      else let u = use_of i s;
               u' = u\<lparr>us_count := us_count u + 1, us_lastAt := when,
                      us_lastIP := (if ip \<noteq> [] then Some ip else us_lastIP u)\<rparr>
           in s\<lparr>k_uses := put_use i u' (k_uses s)\<rparr>)"

definition is_due :: "unix_ms \<Rightarrow> bool \<Rightarrow> use \<Rightarrow> bool" where
  "is_due now force u \<longleftrightarrow> us_count u \<noteq> 0 \<and> (force \<or> \<not> now - us_lastWrite u < TouchInterval)"

text \<open>The first half of \<open>Flush\<close>, under the lock: what is due is taken out.\<close>

definition flush_collect :: "unix_ms \<Rightarrow> bool \<Rightarrow> token_svc \<Rightarrow> token_svc \<times> (string \<times> use) list" where
  "flush_collect now force s =
     (s\<lparr>k_uses := map (\<lambda>(i, u). (i, if is_due now force u then u\<lparr>us_count := 0, us_lastWrite := now\<rparr> else u))
                      (k_uses s)\<rparr>,
      filter (\<lambda>(i, u). is_due now force u) (k_uses s))"

fun touch_all :: "(string \<times> use) list \<Rightarrow> token_db \<Rightarrow> token_db" where
  "touch_all [] db = db"
| "touch_all ((i, u) # due) db = touch_all due (fst (TouchAPIToken i (us_lastAt u) (us_lastIP u) (us_count u) db))"

fun put_back :: "(string \<times> use) list \<Rightarrow> (string \<times> use) list \<Rightarrow> (string \<times> use) list" where
  "put_back [] us = us"
| "put_back ((i, p) # due) us = put_back due
     (map (\<lambda>(j, u). (j, if j = i then u\<lparr>us_count := us_count u + us_count p,
                                       us_lastWrite := us_lastWrite p - TouchInterval\<rparr> else u)) us)"

text \<open>The second half: one transaction, and the counts go back when it fails.\<close>

definition flush_write :: "token_env \<Rightarrow> (string \<times> use) list \<Rightarrow> token_svc \<Rightarrow> token_svc \<times> (token_error + unit)" where
  "flush_write y due s =
     (if due = [] then (s, Inr ())
      else case token_write y (\<lambda>db. Inr (touch_all due db, ())) (k_db s) of
        (db', Inr _) \<Rightarrow> (s\<lparr>k_db := db'\<rparr>, Inr ())
      | (db', Inl e) \<Rightarrow> (s\<lparr>k_db := db', k_uses := put_back due (k_uses s)\<rparr>, Inl e))"

definition Flush :: "token_env \<Rightarrow> bool \<Rightarrow> token_svc \<Rightarrow> token_svc \<times> (token_error + unit)" where
  "Flush y force s = (case flush_collect (now_ms y) force s of (s1, due) \<Rightarrow> flush_write y due s1)"

end
