(* ===== verification/Token_Machine.thy ===== *)
theory Token_Machine
  imports Token_Service "HOL-Library.AList"
begin

text \<open>
  Verification beside writes. A verification is three atomic moves of \<open>entryFor\<close>: it loads the
  epoch and looks into the cache, it reads the row, it stores the entry; other verifications and
  other calls go on in between. A call that writes is two: its transaction, and what it does from
  there to its return. Verifications and calls are numbered in the order they begin.
\<close>

record pending =
  pd_ticket :: nat
  pd_hash :: string
  pd_epoch :: nat
  pd_row :: "(api_token \<times> string list) option option"

text \<open>The calls that write the two tables; the last one belongs to the instances.\<close>

datatype token_call =
    CallMint mint_params
  | CallPatch string patch_params
  | CallRevoke string
  | CallTouch "(string \<times> use) list"
  | CallDropScopes string

text \<open>What a call has left to do once its transaction is over.\<close>

datatype call_rest =
    RestMint mint_params "token_error + api_token \<times> string \<times> token_event list"
  | RestPatch string "token_error + token_info \<times> token_event list"
  | RestRevoke string "token_error + token_event list"
  | RestNone "token_error + unit"

fun call_commit :: "(string \<Rightarrow> string) \<Rightarrow> token_env \<Rightarrow> token_call \<Rightarrow> token_svc \<Rightarrow> token_svc \<times> call_rest" where
  "call_commit sha y (CallMint p) s = apsnd (RestMint p) (mint_commit sha y p s)"
| "call_commit sha y (CallPatch i p) s = apsnd (RestPatch i) (patch_commit y i p s)"
| "call_commit sha y (CallRevoke i) s = apsnd (RestRevoke i) (revoke_commit y i s)"
| "call_commit sha y (CallTouch due) s = apsnd RestNone (flush_write y due s)"
| "call_commit sha y (CallDropScopes i) s = (s\<lparr>k_db := DeleteTokenInstances i (k_db s)\<rparr>, RestNone (Inr ()))"

fun call_return :: "token_env \<Rightarrow> call_rest \<Rightarrow> token_svc \<Rightarrow> token_svc \<times> (token_error + unit)" where
  "call_return y (RestMint p r) s = apsnd (map_sum id (\<lambda>_. ())) (mint_return y p r s)"
| "call_return y (RestPatch i r) s = apsnd (map_sum id (\<lambda>_. ())) (patch_return y i r s)"
| "call_return y (RestRevoke i r) s = revoke_return y i r s"
| "call_return y (RestNone r) s = (s, r)"

record vstate =
  w_svc :: token_svc
  w_next :: nat
  w_pending :: "pending list"
  w_log :: "(nat \<times> string \<times> (token_error + entry)) list"
  w_calls :: nat
  w_open :: "(nat \<times> token_env \<times> call_rest) list"
  w_answers :: "(nat \<times> (token_error + unit)) list"

datatype vevent = Begin string | Read nat | End nat | Commit token_env token_call | Return nat

definition drop_nth :: "nat \<Rightarrow> 'a list \<Rightarrow> 'a list" where
  "drop_nth i xs = take i xs @ drop (Suc i) xs"

fun vstep :: "(string \<Rightarrow> string) \<Rightarrow> vevent \<Rightarrow> vstate \<Rightarrow> vstate" where
  "vstep sha (Begin h) w = (case cache_hit h (w_svc w) of
      Some e \<Rightarrow> w\<lparr>w_next := w_next w + 1, w_log := w_log w @ [(w_next w, h, Inr e)]\<rparr>
    | None \<Rightarrow> w\<lparr>w_next := w_next w + 1,
        w_pending := w_pending w @ [\<lparr>pd_ticket = w_next w, pd_hash = h, pd_epoch = k_epoch (w_svc w),
                                     pd_row = None\<rparr>]\<rparr>)"
| "vstep sha (Read i) w = (if i < length (w_pending w) then
      let p = w_pending w ! i
      in w\<lparr>w_pending := (w_pending w)[i := p\<lparr>pd_row := Some (read_by_hash (pd_hash p) (k_db (w_svc w)))\<rparr>]\<rparr>
    else w)"
| "vstep sha (End i) w = (if i < length (w_pending w) then
      let p = w_pending w ! i
      in case pd_row p of None \<Rightarrow> w
         | Some r \<Rightarrow> (case cache_result (pd_hash p) (pd_epoch p) r (w_svc w) of
             (s', res) \<Rightarrow> w\<lparr>w_svc := s', w_pending := drop_nth i (w_pending w),
                            w_log := w_log w @ [(pd_ticket p, pd_hash p, res)]\<rparr>)
    else w)"
| "vstep sha (Commit y c) w = (case call_commit sha y c (w_svc w) of
     (s', r) \<Rightarrow> w\<lparr>w_svc := s', w_calls := w_calls w + 1, w_open := w_open w @ [(w_calls w, y, r)]\<rparr>)"
| "vstep sha (Return n) w = (case map_of (w_open w) n of
     None \<Rightarrow> w
   | Some (y, r) \<Rightarrow> (case call_return y r (w_svc w) of
       (s', a) \<Rightarrow> w\<lparr>w_svc := s', w_open := AList.delete n (w_open w), w_answers := w_answers w @ [(n, a)]\<rparr>))"

text \<open>A verification nothing interrupts is \<open>entryFor\<close>; a call nothing interrupts is the operation.\<close>

lemma entryFor_is_begin_read_end:
  assumes "y_read_ok y"
  shows "let i = length (w_pending w);
             w' = run (vstep sha) (if cache_hit h (w_svc w) = None then [Begin h, Read i, End i] else [Begin h]) w
    in w_svc w' = fst (entryFor y h (w_svc w)) \<and> w_pending w' = w_pending w
     \<and> w_log w' = w_log w @ [(w_next w, h, snd (entryFor y h (w_svc w)))]"
  using assms
  by (auto simp: entryFor_def Let_def drop_nth_def split: option.split prod.split)

lemma commit_return_is_the_operation:
  fixes w sha y
  assumes "map_of (w_open w) (w_calls w) = None"
  defines "after \<equiv> \<lambda>c. w_svc (run (vstep sha) [Commit y c, Return (w_calls w)] w)"
  shows "after (CallMint p) = fst (Mint sha y p (w_svc w))"
    and "after (CallPatch i q) = fst (Patch y i q (w_svc w))"
    and "after (CallRevoke i) = fst (Revoke y i (w_svc w))"
    and "after (CallTouch due) = fst (flush_write y due (w_svc w))"
  using assms(1)
  by (simp_all add: after_def Mint_def Patch_def Revoke_def map_add_def case_prod_unfold)

section \<open>What a call leaves alone\<close>

lemma flush_write_kept [simp]:
  "k_epoch (fst (flush_write y due s)) = k_epoch s" "k_cache (fst (flush_write y due s)) = k_cache s"
  by (simp_all add: flush_write_def split: prod.split sum.split)

lemma flush_write_db: "k_db (fst (flush_write y due s))
    = fst (token_write y (\<lambda>db. Inr (touch_all due db, ())) (k_db s))"
  by (auto simp: flush_write_def token_write_def transact_def split: prod.split sum.split)

lemma call_commit_kept [simp]:
  "k_epoch (fst (call_commit sha y c s)) = k_epoch s" "k_cache (fst (call_commit sha y c s)) = k_cache s"
  by (cases c; auto simp: mint_commit_def patch_commit_def revoke_commit_def Let_def
      split: option.split sum.split prod.split)+

lemma publish_kept [simp]:
  "k_db (publish y k s) = k_db s" "k_cache (publish y k s) = k_cache s" "k_epoch (publish y k s) = k_epoch s"
  by (simp_all add: publish_def)

lemma call_return_kept [simp]:
  "k_db (fst (call_return y r s)) = k_db s" "k_cache (fst (call_return y r s)) = k_cache s"
  by (cases r; auto simp: mint_return_def patch_return_def revoke_return_def Invalidate_def forget_def
      split: sum.split prod.split)+

lemma call_return_epoch: "k_epoch s \<le> k_epoch (fst (call_return y r s))"
  by (cases r) (auto simp: mint_return_def patch_return_def revoke_return_def Invalidate_def forget_def
      split: sum.split prod.split)

section \<open>Commits and the row of a hash\<close>

lemma token_write_cases:
  assumes "P db" and "\<And>db' a. f db = Inr (db', a) \<Longrightarrow> P db'"
  shows "P (fst (token_write y f db))"
  using assms by (auto simp: token_write_def transact_def split: sum.splits)

lemma token_write_Inr: "token_write y f db = (d, Inr a) \<longleftrightarrow> y_write_ok y \<and> f db = Inr (d, a)"
  by (auto simp: token_write_def transact_def split: sum.splits)

lemma ts_Inr: "ts r = Inr a \<longleftrightarrow> r = Inr a"
  by (auto simp: ts_def split: sum.splits)

lemma event_tx_tokens:
  "token_event_tx y row a w m db = Inr (db', k) \<Longrightarrow> b_tokens db' = b_tokens db \<and> b_scopes db' = b_scopes db"
  by (auto simp: token_event_tx_def Let_def bind_res_eq_Inr ts_Inr AppendTokenEvent_def split: if_splits)

lemma set_scopes_tokens: "SetTokenInstances i ids db = Inr db' \<Longrightarrow> b_tokens db' = b_tokens db"
  by (auto simp: SetTokenInstances_def Let_def split: if_splits)

text \<open>
  What a commit can do to the table of tokens: append a row with a fresh id and a fresh hash, or
  rewrite rows keeping their keys, and never move one out of \<open>revoked\<close>.
\<close>

definition grows :: "api_token list \<Rightarrow> api_token list \<Rightarrow> bool" where
  "grows tb us \<longleftrightarrow> us = tb
    \<or> (\<exists>t. us = tb @ [t] \<and> at_ID t \<notin> at_ID ` set tb \<and> at_TokenHash t \<notin> at_TokenHash ` set tb)
    \<or> (\<exists>f. us = map f tb \<and> (\<forall>t\<in>set tb. at_ID (f t) = at_ID t \<and> at_TokenHash (f t) = at_TokenHash t
         \<and> (at_State t = TokenRevoked \<longrightarrow> at_State (f t) = TokenRevoked)))"

lemma grows_refl [simp]: "grows tb tb"
  by (simp add: grows_def)

lemma grows_update:
  assumes "\<And>t. at_ID (f t) = at_ID t" and "\<And>t. at_TokenHash (f t) = at_TokenHash t"
    and "\<And>t. p t \<Longrightarrow> at_State t = TokenRevoked \<Longrightarrow> at_State (f t) = TokenRevoked"
  shows "grows (b_tokens db) (b_tokens (update_tokens p f db))"
  unfolding grows_def update_tokens_def
  by (intro disjI2, rule exI [of _ "\<lambda>t. if p t then f t else t"]) (use assms in auto)

lemma grows_insert: "InsertAPIToken t db = Inr db' \<Longrightarrow> grows (b_tokens db) (b_tokens db')"
  by (auto simp: InsertAPIToken_def grows_def split: if_splits)

lemma touch_all_map:
  "\<exists>f. b_tokens (touch_all due db) = map f (b_tokens db) \<and> (\<forall>t. at_ID (f t) = at_ID t
     \<and> at_TokenHash (f t) = at_TokenHash t \<and> at_State (f t) = at_State t)"
proof (induction due db rule: touch_all.induct)
  case (1 db)
  show ?case by (rule exI [of _ id]) simp
next
  case (2 i u due db)
  let ?g = "\<lambda>t. if at_ID t = i then t\<lparr>at_LastUsedAt := Some (us_lastAt u), at_LastUsedIP := us_lastIP u,
      at_RequestCount := at_RequestCount t + us_count u\<rparr> else t"
  from 2 obtain f where f: "b_tokens (touch_all due (fst (TouchAPIToken i (us_lastAt u) (us_lastIP u) (us_count u) db)))
      = map f (b_tokens (fst (TouchAPIToken i (us_lastAt u) (us_lastIP u) (us_count u) db)))"
    and k: "\<forall>t. at_ID (f t) = at_ID t \<and> at_TokenHash (f t) = at_TokenHash t \<and> at_State (f t) = at_State t"
    by blast
  have "b_tokens (fst (TouchAPIToken i (us_lastAt u) (us_lastIP u) (us_count u) db)) = map ?g (b_tokens db)"
    by (simp add: TouchAPIToken_def update_tokens_def)
  then show ?case
    by (intro exI [of _ "f \<circ> ?g"]) (simp only: touch_all.simps f map_map, simp add: k)
qed

lemma patch_tx_Inr:
  assumes "patch_tx y i p to db = Inr (db', out, sink)"
  obtains row0 db1 db2 a w m where "APIToken i db = Inr row0" and "\<not> token_revoked row0"
    and "case pp_InstanceIDs p of None \<Rightarrow> db1 = db | Some ids \<Rightarrow> SetTokenInstances i ids db = Inr db1"
    and "UpdateAPIToken (patch_row y p to row0) db1 = (db2, True)"
    and "token_event_tx y (patch_row y p to row0) a w m db2 = Inr (db', sink)"
proof -
  obtain row0 where row0: "APIToken i db = Inr row0"
    using assms by (cases "APIToken i db") (simp_all add: patch_tx_def ts_def)
  have live: "\<not> token_revoked row0" "pp_Name p \<noteq> Some []"
    using assms by (auto simp: patch_tx_def ts_def row0 split: if_split_asm)
  obtain db1 where db1: "case pp_InstanceIDs p of None \<Rightarrow> db1 = db | Some ids \<Rightarrow> SetTokenInstances i ids db = Inr db1"
    and res: "(case pp_InstanceIDs p of None \<Rightarrow> Inr db | Some _ \<Rightarrow> ts (SetTokenInstances i
        (case pp_InstanceIDs p of None \<Rightarrow> TokenInstances i db | Some ids \<Rightarrow> ids) db)) = Inr db1"
    using assms live
    by (cases "pp_InstanceIDs p") (auto simp: patch_tx_def ts_Inr row0 Let_def bind_res_eq_Inr)
  obtain db2 ch where u: "UpdateAPIToken (patch_row y p to row0) db1 = (db2, ch)" by force
  have ch: ch
    using assms live by (auto simp: patch_tx_def ts_def [of "Inr row0"] row0 Let_def res u split: if_split_asm)
  show thesis
    using assms live that [OF row0 live(1) db1 u [unfolded ch [THEN eqTrueI]]]
    by (auto simp: patch_tx_def ts_def [of "Inr row0"] row0 Let_def res u ch bind_res_pair_eq_Inr
        split del: if_split)
qed

lemma write_grows:
  assumes "\<And>db' a. f db = Inr (db', a) \<Longrightarrow> grows (b_tokens db) (b_tokens db')"
  shows "grows (b_tokens db) (b_tokens (fst (token_write y f db)))"
  by (rule token_write_cases [where P = "\<lambda>d. grows (b_tokens db) (b_tokens d)"]) (use assms in auto)

lemma mint_grows:
  assumes "mint_tx y p (mint_row sha y p sc secret) db = Inr (db', k)"
  shows "grows (b_tokens db) (b_tokens db')"
  using assms
  by (auto simp: mint_tx_def bind_res_eq_Inr ts_Inr dest!: grows_insert set_scopes_tokens event_tx_tokens
      split: if_splits)

lemma patch_grows:
  assumes tx: "patch_tx y i p to db = Inr (db', k)"
  shows "grows (b_tokens db) (b_tokens db')"
proof -
  obtain row0 db1 db2 a w m sink where
    ids: "case pp_InstanceIDs p of None \<Rightarrow> db1 = db | Some ids \<Rightarrow> SetTokenInstances i ids db = Inr db1"
    and u: "UpdateAPIToken (patch_row y p to row0) db1 = (db2, True)"
    and 3: "token_event_tx y (patch_row y p to row0) a w m db2 = Inr (db', sink)"
    by (cases k) (use tx in \<open>auto elim!: patch_tx_Inr\<close>)
  let ?row = "patch_row y p to row0"
  have 1: "b_tokens db1 = b_tokens db"
    using ids by (auto dest: set_scopes_tokens split: option.splits)
  have 2: "b_tokens db' = b_tokens (fst (UpdateAPIToken ?row db1))"
    using event_tx_tokens [OF 3] u by simp
  have "grows (b_tokens db1) (b_tokens (fst (UpdateAPIToken ?row db1)))"
    by (auto simp: UpdateAPIToken_def live_row_def intro!: grows_update)
  then show ?thesis by (simp add: 1 2)
qed

lemma revoke_grows:
  assumes "revoke_tx y i db = Inr (db', k)"
  shows "grows (b_tokens db) (b_tokens db')"
proof -
  have "grows (b_tokens db) (b_tokens (fst (RevokeAPIToken i (now_ms y) db)))"
    by (auto simp: RevokeAPIToken_def intro!: grows_update)
  then show ?thesis
    using assms
    by (auto simp: revoke_tx_def bind_res_eq_Inr ts_Inr case_prod_unfold dest!: event_tx_tokens
        split: if_split_asm)
qed

lemma touch_grows: "grows (b_tokens db) (b_tokens (touch_all due db))"
  using touch_all_map [of due db] unfolding grows_def by metis

text \<open>The tables after the transaction of a call: as they were, or as one of the writes left them.\<close>

lemma mint_commit_db:
  "k_db (fst (mint_commit sha y p s)) = k_db s
   \<or> (\<exists>sc secret. k_db (fst (mint_commit sha y p s)) = fst (token_write y (mint_tx y p (mint_row sha y p sc secret)) (k_db s)))"
  by (auto simp: mint_commit_def Let_def split: option.split sum.split prod.split
      dest!: arg_cong [of "token_write _ _ _" _ fst]) blast+

lemma patch_commit_db:
  "k_db (fst (patch_commit y i p s)) = k_db s
   \<or> (\<exists>to. k_db (fst (patch_commit y i p s)) = fst (token_write y (patch_tx y i p to) (k_db s)))"
  by (cases "case pp_State p of None \<Rightarrow> Some None | Some v \<Rightarrow> map_option Some (parse_state v)")
    (auto simp: patch_commit_def case_prod_unfold)

lemma revoke_commit_db: "k_db (fst (revoke_commit y i s)) = fst (token_write y (revoke_tx y i) (k_db s))"
  by (simp add: revoke_commit_def split: prod.split)

lemma commit_grows: "grows (b_tokens (k_db s)) (b_tokens (k_db (fst (call_commit sha y c s))))"
proof (cases c)
  case (CallMint p)
  then show ?thesis using mint_commit_db [of sha y p s] by (auto simp: write_grows [OF mint_grows])
next
  case (CallPatch i p)
  then show ?thesis using patch_commit_db [of y i p s] by (auto simp: write_grows [OF patch_grows])
next
  case (CallRevoke i)
  then show ?thesis by (simp add: revoke_commit_db write_grows [OF revoke_grows])
next
  case (CallTouch due)
  then show ?thesis by (auto simp: flush_write_db touch_grows intro!: write_grows)
qed (simp add: DeleteTokenInstances_def)

lemma grows_ok:
  assumes "grows tb us" and "distinct (map at_ID tb)" and "distinct (map at_TokenHash tb)"
  shows "distinct (map at_ID us) \<and> distinct (map at_TokenHash us)"
  using assms(1) unfolding grows_def
proof (elim disjE exE conjE)
  fix f
  assume us: "us = map f tb" and f: "\<forall>t\<in>set tb. at_ID (f t) = at_ID t \<and> at_TokenHash (f t) = at_TokenHash t
    \<and> (at_State t = TokenRevoked \<longrightarrow> at_State (f t) = TokenRevoked)"
  have "map at_ID us = map at_ID tb" "map at_TokenHash us = map at_TokenHash tb"
    using f by (simp_all add: us)
  with assms(2,3) show ?thesis by simp
qed (use assms(2,3) in auto)

lemma commit_ok: "tokens_ok (k_db s) \<Longrightarrow> tokens_ok (k_db (fst (call_commit sha y c s)))"
  using grows_ok [OF commit_grows] by (simp add: tokens_ok_def)

text \<open>The row of a hash stays its row; once revoked, it stays revoked.\<close>

definition revoked_at :: "(api_token \<times> string list) option \<Rightarrow> bool" where
  "revoked_at r \<longleftrightarrow> (case r of None \<Rightarrow> False | Some (row, _) \<Rightarrow> at_State row = TokenRevoked)"

lemma find_map_f:
  assumes "\<forall>t\<in>set tb. k (f t) = k t"
  shows "find (\<lambda>t. k t = h) (map f tb) = map_option f (find (\<lambda>t. k t = h) tb)"
  using assms by (induction tb) auto

lemma grows_revoked:
  assumes "grows tb us" and "find (\<lambda>t. at_TokenHash t = h) tb = Some r" and "at_State r = TokenRevoked"
  shows "\<exists>r'. find (\<lambda>t. at_TokenHash t = h) us = Some r' \<and> at_State r' = TokenRevoked"
  using assms(1) unfolding grows_def
proof (elim disjE exE conjE)
  fix f
  assume us: "us = map f tb" and f: "\<forall>t\<in>set tb. at_ID (f t) = at_ID t \<and> at_TokenHash (f t) = at_TokenHash t
    \<and> (at_State t = TokenRevoked \<longrightarrow> at_State (f t) = TokenRevoked)"
  have "r \<in> set tb" using assms(2) by (auto simp: find_Some_iff)
  with f us assms(2,3) show ?thesis by (simp add: find_map_f)
qed (use assms(2,3) in \<open>auto simp: find_app\<close>)

lemma commit_revoked:
  assumes "revoked_at (read_by_hash h (k_db s))"
  shows "revoked_at (read_by_hash h (k_db (fst (call_commit sha y c s))))"
proof -
  from assms obtain r where "find (\<lambda>t. at_TokenHash t = h) (b_tokens (k_db s)) = Some r" "at_State r = TokenRevoked"
    by (auto simp: revoked_at_def read_by_hash_def APITokenByHash_def split: option.splits sum.splits)
  from grows_revoked [OF commit_grows this, of sha y c] show ?thesis
    by (auto simp: revoked_at_def read_by_hash_def APITokenByHash_def)
qed

end
