(* ===== verification/Token_Claims.thy ===== *)
theory Token_Claims
  imports Token_Machine
begin

text \<open>
  The properties of the API tokens: a revoked token is refused from the next request on, a minted
  secret is accepted for what it was minted for, and no use is lost on the way to its counter.
\<close>

section \<open>The cache after a write\<close>

text \<open>No entry and no verification under way is ahead of the epoch; the keys are unique.\<close>

definition epochs_ok :: "vstate \<Rightarrow> bool" where
  "epochs_ok w \<longleftrightarrow> tokens_ok (k_db (w_svc w))
    \<and> (\<forall>h e. k_cache (w_svc w) h = Some e \<longrightarrow> en_epoch e \<le> k_epoch (w_svc w))
    \<and> (\<forall>p\<in>set (w_pending w). pd_epoch p \<le> k_epoch (w_svc w) \<and> pd_ticket p < w_next w)
    \<and> (\<forall>l\<in>set (w_log w). fst l < w_next w)
    \<and> (\<forall>x\<in>set (w_open w). fst x < w_calls w) \<and> (\<forall>a\<in>set (w_answers w). fst a < w_calls w)"

lemma set_drop_nth: "set (drop_nth i xs) \<subseteq> set xs"
  by (auto simp: drop_nth_def dest: in_set_takeD in_set_dropD)

lemma set_list_update: "x \<in> set (xs[i := y]) \<Longrightarrow> x \<in> set xs \<or> x = y"
  using set_update_subset_insert by fast

lemma cache_result_simps [simp]:
  "k_db (fst (cache_result h ep r s)) = k_db s"
  "k_epoch (fst (cache_result h ep r s)) = k_epoch s"
  "k_cache (fst (cache_result h ep r s)) = (k_cache s)(h := map_option (entry_of ep) r)"
  by (auto simp: cache_result_def Let_def split: option.split)

lemma entry_of_simps [simp]: "en_epoch (entry_of ep r) = ep" "en_hash (entry_of ep r) = at_TokenHash (fst r)"
  "en_state (entry_of ep r) = at_State (fst r)"
  by (simp_all add: entry_of_def case_prod_unfold)

lemma epochs_ok_step: "epochs_ok w \<Longrightarrow> epochs_ok (vstep sha e w)"
proof (cases e)
  case (Begin h)
  assume "epochs_ok w"
  then show ?thesis
    by (auto simp: Begin epochs_ok_def less_Suc_eq split: option.split)
next
  case (Read i)
  assume "epochs_ok w"
  then show ?thesis
    by (auto simp: Read epochs_ok_def Let_def dest!: set_list_update)
next
  case (End i)
  assume ok: "epochs_ok w"
  show ?thesis
  proof (cases "i < length (w_pending w) \<and> pd_row (w_pending w ! i) \<noteq> None")
    case True
    then obtain r where r: "pd_row (w_pending w ! i) = Some r" and i: "i < length (w_pending w)" by auto
    have p: "w_pending w ! i \<in> set (w_pending w)" using i by simp
    obtain s' res where c: "cache_result (pd_hash (w_pending w ! i)) (pd_epoch (w_pending w ! i)) r (w_svc w) = (s', res)"
      by force
    note s' = cache_result_simps [of "pd_hash (w_pending w ! i)" "pd_epoch (w_pending w ! i)" r "w_svc w", unfolded c fst_conv]
    have "\<forall>q\<in>set (drop_nth i (w_pending w)). pd_epoch q \<le> k_epoch (w_svc w) \<and> pd_ticket q < w_next w"
      using ok set_drop_nth [of i "w_pending w"] by (auto simp: epochs_ok_def)
    moreover have "en_epoch e \<le> k_epoch (w_svc w)" if "k_cache s' h = Some e" for h e
      using that ok p s'(3) by (auto simp: epochs_ok_def split: if_splits)
    ultimately show ?thesis
      using ok p i r c s'(1,2) by (auto simp: End epochs_ok_def Let_def)
  next
    case False
    then show ?thesis using ok by (auto simp: End Let_def split: option.split)
  qed
next
  case (Commit y c)
  assume "epochs_ok w"
  then show ?thesis
    by (auto simp: Commit epochs_ok_def case_prod_unfold less_Suc_eq intro: commit_ok)
next
  case (Return n)
  assume ok: "epochs_ok w"
  show ?thesis
  proof (cases "map_of (w_open w) n")
    case (Some x)
    obtain y r where x: "x = (y, r)" by force
    have n: "n < w_calls w" using ok map_of_SomeD [OF Some] by (auto simp: epochs_ok_def)
    have ep: "k_epoch (w_svc w) \<le> k_epoch (fst (call_return y r (w_svc w)))" by (rule call_return_epoch)
    then show ?thesis
      using ok Some n
      by (auto simp: Return x epochs_ok_def case_prod_unfold AList.delete_eq intro: order.trans)
  qed (use ok in \<open>simp add: Return\<close>)
qed

interpretation epochs: machine "vstep sha" "\<lambda>_. True" epochs_ok for sha
  by unfold_locales (rule epochs_ok_step)

text \<open>
  From epoch \<open>E\<close> and ticket \<open>n\<close> on, whatever is cached, under way or answered for the hash \<open>h\<close>
  satisfies \<open>Q\<close>, a property of what the tables say about \<open>h\<close> that no commit ends.
\<close>

definition answers :: "((api_token \<times> string list) option \<Rightarrow> bool) \<Rightarrow> token_error + entry \<Rightarrow> bool" where
  "answers Q res \<longleftrightarrow> (\<exists>r. Q r \<and> (case r of None \<Rightarrow> res = Inl (TeDenied DeniedUnknown)
      | Some x \<Rightarrow> \<exists>ep. res = Inr (entry_of ep x)))"

definition settled_from ::
    "((api_token \<times> string list) option \<Rightarrow> bool) \<Rightarrow> string \<Rightarrow> nat \<Rightarrow> nat \<Rightarrow> vstate \<Rightarrow> bool" where
  "settled_from Q h E n w \<longleftrightarrow> Q (read_by_hash h (k_db (w_svc w))) \<and> E \<le> k_epoch (w_svc w) \<and> n \<le> w_next w
    \<and> (\<forall>e. k_cache (w_svc w) h = Some e \<and> E \<le> en_epoch e \<longrightarrow> answers Q (Inr e))
    \<and> (\<forall>p\<in>set (w_pending w). n \<le> pd_ticket p \<longrightarrow> E \<le> pd_epoch p)
    \<and> (\<forall>p\<in>set (w_pending w). pd_hash p = h \<and> E \<le> pd_epoch p \<longrightarrow> (\<forall>r. pd_row p = Some r \<longrightarrow> Q r))
    \<and> (\<forall>(k, h', res)\<in>set (w_log w). n \<le> k \<and> h' = h \<longrightarrow> answers Q res)"

lemma answers_result: "Q r \<Longrightarrow> answers Q (snd (cache_result h ep r s))"
  unfolding answers_def cache_result_def by (rule exI [of _ r]) (auto simp: Let_def split: option.split)

locale settled =
  fixes sha :: "string \<Rightarrow> string" and h :: string
    and Q :: "(api_token \<times> string list) option \<Rightarrow> bool"
  assumes stable: "Q (read_by_hash h (k_db s)) \<Longrightarrow> Q (read_by_hash h (k_db (fst (call_commit sha y c s))))"
begin

lemma step_settled:
  assumes "settled_from Q h E n w"
  shows "settled_from Q h E n (vstep sha e w)"
proof (cases e)
  case (Begin g)
  show ?thesis
  proof (cases "cache_hit g (w_svc w)")
    case None
    then show ?thesis using assms by (auto simp: Begin settled_from_def)
  next
    case (Some en)
    then have "g = h \<longrightarrow> answers Q (Inr en)"
      using assms by (auto simp: settled_from_def cache_hit_def split: option.splits if_splits)
    then show ?thesis using assms Some by (auto simp: Begin settled_from_def)
  qed
next
  case (Read i)
  then show ?thesis
    using assms by (fastforce simp: settled_from_def Let_def dest!: set_list_update)
next
  case (End i)
  show ?thesis
  proof (cases "i < length (w_pending w) \<and> pd_row (w_pending w ! i) \<noteq> None")
    case True
    let ?p = "w_pending w ! i"
    from True obtain r where r: "pd_row ?p = Some r" and i: "i < length (w_pending w)" by auto
    have p: "?p \<in> set (w_pending w)" using i by simp
    obtain s' res where c: "cache_result (pd_hash ?p) (pd_epoch ?p) r (w_svc w) = (s', res)" by force
    note s' = cache_result_simps [of "pd_hash ?p" "pd_epoch ?p" r "w_svc w", unfolded c fst_conv]
    have q: "Q r" if "pd_hash ?p = h" "E \<le> pd_epoch ?p" using assms p r that by (auto simp: settled_from_def)
    then have res: "answers Q res" if "pd_hash ?p = h" "E \<le> pd_epoch ?p"
      using answers_result [of Q r "pd_hash ?p" "pd_epoch ?p" "w_svc w"] that unfolding c snd_conv by blast
    have "answers Q (Inr en)" if "k_cache s' h = Some en" "E \<le> en_epoch en" for en
    proof (cases "pd_hash ?p = h")
      case True
      with that s'(3) obtain x where "r = Some x" "en = entry_of (pd_epoch ?p) x"
        by (auto split: if_splits)
      with q True that show ?thesis by (fastforce simp: answers_def)
    next
      case False
      with that s'(3) assms show ?thesis by (auto simp: settled_from_def)
    qed
    moreover have "n \<le> pd_ticket ?p \<Longrightarrow> E \<le> pd_epoch ?p" using assms p by (auto simp: settled_from_def)
    moreover have "set (drop_nth i (w_pending w)) \<subseteq> set (w_pending w)" by (rule set_drop_nth)
    ultimately show ?thesis
      using assms i r c s'(1,2) res by (auto simp: End settled_from_def Let_def)
  next
    case False
    then show ?thesis using assms by (auto simp: End Let_def split: option.split)
  qed
next
  case (Commit y c)
  then show ?thesis using assms by (auto simp: settled_from_def case_prod_unfold intro: stable)
next
  case (Return n)
  then show ?thesis
    using assms call_return_epoch order.trans
    by (fastforce simp: settled_from_def case_prod_unfold split: option.split)
qed

lemma run_settled: "settled_from Q h E n w \<Longrightarrow> settled_from Q h E n (run (vstep sha) es w)"
  by (induction es arbitrary: w) (auto intro: step_settled)

lemma run_stable: "Q (read_by_hash h (k_db (w_svc w))) \<Longrightarrow> Q (read_by_hash h (k_db (w_svc (run (vstep sha) es w))))"
proof (induction es arbitrary: w)
  case (Cons e es)
  have "Q (read_by_hash h (k_db (w_svc (vstep sha e w))))"
    using Cons.prems stable
    by (cases e) (auto simp: Let_def case_prod_unfold split: option.split)
  with Cons.IH show ?case by simp
qed simp

text \<open>Once a call has bumped the epoch, everything that begins is decided on settled ground.\<close>

lemma return_settles:
  assumes "Q (read_by_hash h (k_db (w_svc w)))" and "epochs_ok w" and "map_of (w_open w) n = Some (y, r)"
    and "k_epoch (fst (call_return y r (w_svc w))) = k_epoch (w_svc w) + 1"
  shows "settled_from Q h (k_epoch (w_svc w) + 1) (w_next w) (vstep sha (Return n) w)"
  using assms by (fastforce simp: settled_from_def epochs_ok_def case_prod_unfold)

end

section \<open>Revocation\<close>

definition revoked_row :: "string \<Rightarrow> (api_token \<times> string list) option \<Rightarrow> bool" where
  "revoked_row h r \<longleftrightarrow> (\<exists>row ids. r = Some (row, ids) \<and> at_State row = TokenRevoked \<and> at_TokenHash row = h)"

lemma revoked_row_iff: "revoked_row h (read_by_hash h db) \<longleftrightarrow> revoked_at (read_by_hash h db)"
  by (auto simp: revoked_row_def revoked_at_def read_by_hash_def dest: ByHash_hash split: sum.splits)

interpretation revoked: settled sha h "revoked_row h" for sha h
  by unfold_locales (simp add: revoked_row_iff commit_revoked)

lemma by_id_is_by_hash:
  assumes "tokens_ok db" and "APIToken i db = Inr row"
  shows "APITokenByHash (at_TokenHash row) db = Inr row"
proof -
  have row: "row \<in> set (b_tokens db)" using APIToken_id [OF assms(2)] by simp
  then obtain r where r: "find (\<lambda>t. at_TokenHash t = at_TokenHash row) (b_tokens db) = Some r"
    by (cases "find (\<lambda>t. at_TokenHash t = at_TokenHash row) (b_tokens db)") (auto simp: find_None_iff)
  then have "r \<in> set (b_tokens db)" "at_TokenHash r = at_TokenHash row" by (auto simp: find_Some_iff)
  with row assms(1) have "r = row" by (auto simp: tokens_ok_def distinct_map inj_on_def)
  with r show ?thesis by (simp add: APITokenByHash_def)
qed

lemma revoked_by_update:
  assumes "APITokenByHash h db = Inr row" and "b_tokens db' = b_tokens (update_tokens p f db)"
    and "\<And>t. at_TokenHash (f t) = at_TokenHash t" and "at_State row \<noteq> TokenRevoked \<Longrightarrow> p row"
    and "at_State (f row) = TokenRevoked"
  shows "revoked_row h (read_by_hash h db')"
proof -
  have "APITokenByHash h db' = APITokenByHash h (update_tokens p f db)"
    using assms(2) by (simp add: APITokenByHash_def)
  then have "APITokenByHash h db' = Inr (if p row then f row else row)"
    using ByHash_update [of f h p db, OF assms(3)] assms(1) by simp
  then show ?thesis
    using assms(4,5) unfolding revoked_row_iff by (auto simp: revoked_at_def read_by_hash_def)
qed

lemma Revoke_revokes:
  assumes "tokens_ok (k_db s)" and "APIToken i (k_db s) = Inr row"
    and "call_commit sha y (CallRevoke i) s = (s', RestRevoke i (Inr sink))"
  shows "revoked_row (at_TokenHash row) (read_by_hash (at_TokenHash row) (k_db s'))"
proof -
  have tx: "revoke_tx y i (k_db s) = Inr (k_db s', sink)"
    using assms(3) by (auto simp: revoke_commit_def token_write_Inr split: prod.splits)
  have "b_tokens (k_db s') = b_tokens (fst (RevokeAPIToken i (now_ms y) (k_db s)))"
    using tx assms(2)
    by (auto simp: revoke_tx_def ts_def case_prod_unfold dest!: event_tx_tokens split: if_split_asm)
  then show ?thesis
    unfolding RevokeAPIToken_def fst_conv
    by (rule revoked_by_update [OF by_id_is_by_hash [OF assms(1,2)]])
      (use APIToken_id [OF assms(2)] in \<open>simp_all add: live_row_def\<close>)
qed

lemma Patch_revokes:
  assumes "tokens_ok (k_db s)" and "APIToken i (k_db s) = Inr row" and "pp_State p = Some ''revoked''"
    and "call_commit sha y (CallPatch i p) s = (s', RestPatch i (Inr (out, sink)))"
  shows "revoked_row (at_TokenHash row) (read_by_hash (at_TokenHash row) (k_db s'))"
proof -
  have st: "(case pp_State p of None \<Rightarrow> Some None | Some v \<Rightarrow> map_option Some (parse_state v)) = Some (Some TokenRevoked)"
    unfolding assms(3) by code_simp
  have tx: "patch_tx y i p (Some TokenRevoked) (k_db s) = Inr (k_db s', out, sink)"
    using assms(4) by (auto simp: patch_commit_def st token_write_Inr split: prod.splits if_splits)
  obtain row0 db1 db2 a w m where row0: "APIToken i (k_db s) = Inr row0"
    and ids: "case pp_InstanceIDs p of None \<Rightarrow> db1 = k_db s
        | Some ids \<Rightarrow> SetTokenInstances i ids (k_db s) = Inr db1"
    and u0: "UpdateAPIToken (patch_row y p (Some TokenRevoked) row0) db1 = (db2, True)"
    and ev0: "token_event_tx y (patch_row y p (Some TokenRevoked) row0) a w m db2 = Inr (k_db s', sink)"
    using tx by (rule patch_tx_Inr)
  have same: "row0 = row" using row0 assms(2) by simp
  note u = u0 [unfolded same] and ev = ev0 [unfolded same]
  have 1: "b_tokens db1 = b_tokens (k_db s)" using ids by (auto dest: set_scopes_tokens split: option.splits)
  let ?new = "patch_row y p (Some TokenRevoked) row"
  have new: "at_ID ?new = at_ID row" "at_State ?new = TokenRevoked"
    by (simp_all add: patch_row_def Let_def split: option.split)
  have "b_tokens (k_db s') = b_tokens (fst (UpdateAPIToken ?new db1))" using event_tx_tokens [OF ev] u by simp
  then have b: "b_tokens (k_db s') = b_tokens (fst (UpdateAPIToken ?new (k_db s)))"
    by (simp add: UpdateAPIToken_def update_tokens_def 1)
  show ?thesis
    by (rule revoked_by_update [OF by_id_is_by_hash [OF assms(1,2)] b [unfolded UpdateAPIToken_def fst_conv]])
      (simp_all add: new live_row_def)
qed

text \<open>The answer of a call is that of the continuation its commit left, on the state it returns in.\<close>

lemma answers_kept:
  assumes "t < w_calls w" and "map_of (w_open w) t = None" and "(t, b) \<in> set (w_answers (run (vstep sha) es w))"
  shows "(t, b) \<in> set (w_answers w)"
  using assms
proof (induction es arbitrary: w)
  case (Cons e es)
  have "t < w_calls (vstep sha e w) \<and> map_of (w_open (vstep sha e w)) t = None
    \<and> ((t, b) \<in> set (w_answers (vstep sha e w)) \<longrightarrow> (t, b) \<in> set (w_answers w))"
    using Cons.prems(1,2)
    by (cases e) (auto simp: Let_def case_prod_unfold delete_conv map_add_def split: option.split)
  with Cons show ?case by auto
qed simp

lemma answered:
  assumes "t < w_calls w" and "map_of (w_open w) t = Some (y, r)" and "\<forall>a\<in>set (w_answers w). fst a \<noteq> t"
    and "(t, b) \<in> set (w_answers (run (vstep sha) es w))"
  obtains es1 es2 where "es = es1 @ Return t # es2" and "map_of (w_open (run (vstep sha) es1 w)) t = Some (y, r)"
    and "b = snd (call_return y r (w_svc (run (vstep sha) es1 w)))"
  using assms
proof (induction es arbitrary: w thesis)
  case (Cons e es)
  show ?case
  proof (cases "e = Return t")
    case True
    let ?w = "vstep sha (Return t) w"
    have "t < w_calls ?w" "map_of (w_open ?w) t = None"
      using Cons.prems(2,3) by (simp_all add: case_prod_unfold delete_conv)
    from answers_kept [OF this] Cons.prems(5) have "(t, b) \<in> set (w_answers ?w)" by (simp add: True)
    then have "b = snd (call_return y r (w_svc w))" using Cons.prems(3,4) by (auto simp: case_prod_unfold)
    with Cons.prems(3) show ?thesis by (intro Cons.prems(1) [of "[]" es]) (simp_all add: True)
  next
    case False
    let ?w = "vstep sha e w"
    have "t < w_calls ?w" "map_of (w_open ?w) t = Some (y, r)" "\<forall>a\<in>set (w_answers ?w). fst a \<noteq> t"
      using Cons.prems(2,3,4) False
      by (cases e; auto simp: Let_def case_prod_unfold delete_conv map_add_def split: option.split)+
    from Cons.IH [OF _ this] Cons.prems(5) obtain es1 es2 where
      "es = es1 @ Return t # es2" "map_of (w_open (run (vstep sha) es1 ?w)) t = Some (y, r)"
      "b = snd (call_return y r (w_svc (run (vstep sha) es1 ?w)))"
      by auto
    then show ?thesis by (intro Cons.prems(1) [of "e # es1" es2]) simp_all
  qed
qed fastforce

text \<open>A service with these tables and nothing cached, as \<open>New\<close> builds it.\<close>

definition new_service :: "token_db \<Rightarrow> token_svc" where
  "new_service db = \<lparr>k_db = db, k_epoch = 1, k_cache = (\<lambda>_. None), k_limits = (\<lambda>_. None), k_uses = [],
     k_published = []\<rparr>"

definition vstart :: "token_db \<Rightarrow> vstate" where
  "vstart db = \<lparr>w_svc = new_service db, w_next = 0, w_pending = [], w_log = [],
     w_calls = 0, w_open = [], w_answers = []\<rparr>"

lemma vstart_ok: "tokens_ok db \<Longrightarrow> epochs_ok (vstart db)"
  by (simp add: epochs_ok_def vstart_def new_service_def)

text \<open>
  C27. Revocation takes effect within one request. At any point of any run a call of \<open>Revoke\<close>, or
  of \<open>Patch\<close> to \<open>revoked\<close>, runs its transaction; other calls and verifications go on, and at some
  point this call has returned without an error. Of the verifications that begin from there on,
  every one that presents the token's secret is decided on a revoked entry, whatever was cached
  before, whatever reads were already under way and finish later, and whatever is written
  meanwhile: each of them is refused as revoked.
\<close>

theorem revocation_takes_effect_within_one_request:
  assumes "tokens_ok db" and "w = run (vstep sha) es0 (vstart db)"
    and "APIToken i (k_db (w_svc w)) = Inr row"
    and "c = CallRevoke i \<or> c = CallPatch i p \<and> pp_State p = Some ''revoked''"
    and "w1 = run (vstep sha) (Commit y c # es1) w" and "(w_calls w, Inr ()) \<in> set (w_answers w1)"
    and "(n, at_TokenHash row, res) \<in> set (w_log (run (vstep sha) es w1))" and "w_next w1 \<le> n"
  shows "\<exists>e. res = Inr e \<and> (\<forall>y' inst s. decide y' (at_TokenHash row) inst e s = (s, Inl (TeDenied DeniedRevoked)))"
proof -
  let ?h = "at_TokenHash row" and ?t = "w_calls w" and ?wc = "vstep sha (Commit y c) w"
  have ok: "epochs_ok w" using epochs.run_inv [OF _ vstart_ok [OF assms(1)]] assms(2) by (simp add: list_all_iff)
  then have tok: "tokens_ok (k_db (w_svc w))" by (simp add: epochs_ok_def)
  obtain s' r where cc: "call_commit sha y c (w_svc w) = (s', r)" by force
  have fresh: "map_of (w_open w) ?t = None" "\<forall>a\<in>set (w_answers w). fst a \<noteq> ?t"
    using ok by (auto simp: epochs_ok_def map_of_eq_None_iff)
  have open_c: "?t < w_calls ?wc" "map_of (w_open ?wc) ?t = Some (y, r)" "\<forall>a\<in>set (w_answers ?wc). fst a \<noteq> ?t"
    using fresh by (simp_all add: cc map_add_def)
  have "(?t, Inr ()) \<in> set (w_answers (run (vstep sha) es1 ?wc))" using assms(5,6) by simp
  from answered [OF open_c this] obtain esa esb where
    es1: "es1 = esa @ Return ?t # esb" and ob: "map_of (w_open (run (vstep sha) esa ?wc)) ?t = Some (y, r)"
    and ans: "Inr () = snd (call_return y r (w_svc (run (vstep sha) esa ?wc)))" by blast
  let ?wb = "run (vstep sha) esa ?wc"
  have "revoked_row ?h (read_by_hash ?h (k_db s')) \<and> k_epoch (fst (call_return y r (w_svc ?wb))) = k_epoch (w_svc ?wb) + 1"
    using assms(4)
  proof
    assume c: "c = CallRevoke i"
    with cc obtain x where r: "r = RestRevoke i x" by (cases "revoke_commit y i (w_svc w)") auto
    with ans obtain sink where x: "x = Inr sink" by (cases x) (simp_all add: revoke_return_def)
    have "revoked_row ?h (read_by_hash ?h (k_db s'))"
      by (rule Revoke_revokes [OF tok assms(3)]) (use cc c r x in auto)
    then show ?thesis by (simp add: r x revoke_return_def Invalidate_def forget_def)
  next
    assume c: "c = CallPatch i p \<and> pp_State p = Some ''revoked''"
    with cc obtain x where r: "r = RestPatch i x" by (cases "patch_commit y i p (w_svc w)") auto
    with ans obtain out sink where x: "x = Inr (out, sink)" by (cases x) (auto simp: patch_return_def)
    have "revoked_row ?h (read_by_hash ?h (k_db s'))"
      by (rule Patch_revokes [OF tok assms(3)]) (use cc c r x in auto)
    then show ?thesis by (simp add: r x patch_return_def Invalidate_def forget_def)
  qed
  then have rev: "revoked_row ?h (read_by_hash ?h (k_db (w_svc ?wc)))"
    and bump: "k_epoch (fst (call_return y r (w_svc ?wb))) = k_epoch (w_svc ?wb) + 1" by (simp_all add: cc)
  have rb: "revoked_row ?h (read_by_hash ?h (k_db (w_svc ?wb)))" using rev by (rule revoked.run_stable)
  have okb: "epochs_ok ?wb" by (rule epochs.run_inv [OF _ epochs_ok_step [OF ok]]) (simp add: list_all_iff)
  have w1: "w1 = run (vstep sha) esb (vstep sha (Return ?t) ?wb)" using assms(5) by (simp add: es1 run_append)
  note settle = revoked.run_settled [OF revoked.return_settles [OF rb okb ob bump]]
  have "w_next ?wb \<le> w_next w1" using settle [where es = esb] by (simp add: w1 settled_from_def)
  moreover have "settled_from (revoked_row ?h) ?h (k_epoch (w_svc ?wb) + 1) (w_next ?wb) (run (vstep sha) es w1)"
    using settle [where es = "esb @ es"] by (simp add: w1 run_append)
  ultimately have "answers (revoked_row ?h) res" using assms(7,8) by (force simp: settled_from_def)
  then obtain r ep where "res = Inr (entry_of ep r)" "at_State (fst r) = TokenRevoked" "at_TokenHash (fst r) = ?h"
    by (force simp: answers_def revoked_row_def)
  then show ?thesis by (auto simp: decide_def)
qed

section \<open>Minting\<close>

lemma set_first_seen: "set (first_seen seen ids) = set ids - set seen"
  by (induction seen ids rule: first_seen.induct) auto

lemma scopes_set:
  assumes "SetTokenInstances i ids db = Inr db'"
  shows "set (TokenInstances i db') = set ids"
proof -
  have none: "filter (\<lambda>(t, _). t = i) (filter (\<lambda>(t, _). t \<noteq> i) xs) = []" for xs :: "(string \<times> string) list"
    by (induction xs) auto
  have all: "filter (\<lambda>(t, _). t = i) (map (Pair i) xs) = map (Pair i) xs" for xs :: "string list"
    by (induction xs) auto
  have "b_scopes db' = filter (\<lambda>(t, _). t \<noteq> i) (b_scopes db) @ map (Pair i) (first_seen [] ids)"
    using assms by (auto simp: SetTokenInstances_def Let_def split: if_split_asm)
  then have "TokenInstances i db' = sort (map snd (map (Pair i) (first_seen [] ids)))"
    by (simp only: TokenInstances_def filter_append none all append_Nil)
  then show ?thesis by (simp add: set_first_seen comp_def)
qed

lemma Mint_Inr:
  assumes "Mint sha y p s = (s', Inr (info, secret))"
  obtains scope sink where "parse_scope (mp_Scope p) = Some scope" and "\<exists>buf. secret = secret_prefix @ buf"
    and "mint_tx y p (mint_row sha y p scope secret) (k_db s) = Inr (k_db s', sink)"
    and "info = tokenOf (mint_row sha y p scope secret) (mp_InstanceIDs p)"
    and "k_epoch s' = k_epoch s + 1" and "k_cache s' = k_cache s"
proof -
  from assms obtain scope where sc: "parse_scope (mp_Scope p) = Some scope"
    by (auto simp: Mint_def mint_commit_def mint_return_def split: if_split_asm option.split_asm)
  from assms obtain sec where sec: "NewSecret (y_secret y) = Inr sec"
    by (cases "NewSecret (y_secret y)") (auto simp: Mint_def mint_commit_def mint_return_def sc split: if_split_asm)
  obtain d r where w: "token_write y (mint_tx y p (mint_row sha y p scope sec)) (k_db s) = (d, r)" by force
  from assms obtain sink where r: "r = Inr sink"
    by (cases r) (auto simp: Mint_def mint_commit_def mint_return_def sc sec w split: if_split_asm)
  have eq: "secret = sec" "info = tokenOf (mint_row sha y p scope sec) (mp_InstanceIDs p)"
    "s' = publish y sink (Invalidate (s\<lparr>k_db := d\<rparr>))"
    using assms by (auto simp: Mint_def mint_commit_def mint_return_def sc sec w r Let_def split: if_split_asm)
  have tx: "mint_tx y p (mint_row sha y p scope sec) (k_db s) = Inr (d, sink)"
    using w r by (simp only: token_write_Inr)
  have "\<exists>buf. sec = secret_prefix @ buf" using sec by (auto simp: NewSecret_def split: option.split_asm)
  moreover have "k_db s' = d" "k_epoch s' = k_epoch s + 1" "k_cache s' = k_cache s"
    by (simp_all add: eq(3) Invalidate_def)
  ultimately show thesis using that sc tx eq(1,2) by blast
qed

lemma mint_tx_row:
  assumes "mint_tx y p row db = Inr (db', sink)"
  shows "APITokenByHash (at_TokenHash row) db' = Inr row"
    and "at_Scope row = ScopeInstances \<Longrightarrow> set (TokenInstances (at_ID row) db') = set (mp_InstanceIDs p)"
proof -
  from assms obtain db1 db2 where 1: "InsertAPIToken row db = Inr db1"
    and 2: "(if at_Scope row = ScopeInstances then ts (SetTokenInstances (at_ID row) (mp_InstanceIDs p) db1)
             else Inr db1) = Inr db2"
    and 3: "\<exists>a w m. token_event_tx y row a w m db2 = Inr (db', sink)"
    unfolding mint_tx_def bind_res_eq_Inr ts_Inr by blast
  have t2: "b_tokens db2 = b_tokens db1"
    using 2 by (auto simp: ts_Inr dest: set_scopes_tokens split: if_split_asm)
  have t3: "b_tokens db' = b_tokens db2" "b_scopes db' = b_scopes db2" using 3 event_tx_tokens by blast+
  have "b_tokens db1 = b_tokens db @ [row]" "at_TokenHash row \<notin> at_TokenHash ` set (b_tokens db)"
    using 1 by (auto simp: InsertAPIToken_def split: if_split_asm)
  moreover from this(2) have "find (\<lambda>t. at_TokenHash t = at_TokenHash row) (b_tokens db) = None"
    by (auto simp: find_None_iff image_iff)
  ultimately show "APITokenByHash (at_TokenHash row) db' = Inr row"
    by (simp add: APITokenByHash_def t2 t3 find_app)
  show "set (TokenInstances (at_ID row) db') = set (mp_InstanceIDs p)" if "at_Scope row = ScopeInstances"
    using 2 that scopes_set [of "at_ID row" "mp_InstanceIDs p" db1 db2]
    by (simp add: ts_Inr TokenInstances_def t3)
qed

text \<open>
  A minted secret works at once, for what it was minted for. After \<open>Mint\<close> returns, at any
  point of any run, the secret it shows is admitted under the id and scope it answered with:
  until its expiry, on every instance for a global token and on the listed ones otherwise. A
  secret whose hash is in no row is refused as unknown and leaves nothing in the cache.
\<close>

theorem a_minted_secret_verifies:
  assumes "tokens_ok db" and "w = run (vstep sha) es (vstart db)"
    and "Mint sha y p (w_svc w) = (s, Inr (info, secret))" and "mp_RateLimitRPM p = None" and "y_read_ok y'"
  shows "snd (Verify sha y' secret inst s) =
      (if \<exists>t. mp_ExpiresAt p = Some t \<and> t \<le> now_ms y' then Inl (TeDenied DeniedExpired)
       else if mp_Scope p = ''instances'' \<and> inst \<notin> set (mp_InstanceIDs p) then Inl (TeDenied DeniedScope)
       else Inr \<lparr>ve_TokenID = ti_ID info, ve_Prefix = ti_Prefix info, ve_Scope = ti_Scope info\<rparr>)
    \<and> (\<forall>other. other \<noteq> [] \<and> sha other \<notin> at_TokenHash ` set (b_tokens (k_db s)) \<longrightarrow>
        Verify sha y' other inst s = (s\<lparr>k_cache := (k_cache s)(sha other := None)\<rparr>, Inl (TeDenied DeniedUnknown)))"
proof -
  have ok: "epochs_ok w" using epochs.run_inv [OF _ vstart_ok [OF assms(1)]] assms(2) by (simp add: list_all_iff)
  obtain scope sink where sc: "parse_scope (mp_Scope p) = Some scope" and pre: "\<exists>buf. secret = secret_prefix @ buf"
    and tx: "mint_tx y p (mint_row sha y p scope secret) (k_db (w_svc w)) = Inr (k_db s, sink)"
    and info: "info = tokenOf (mint_row sha y p scope secret) (mp_InstanceIDs p)"
    and ep: "k_epoch s = k_epoch (w_svc w) + 1" and ca: "k_cache s = k_cache (w_svc w)"
    using assms(3) by (rule Mint_Inr)
  let ?row = "mint_row sha y p scope secret"
  have miss: "cache_hit h s = None" for h
  proof (cases "k_cache s h")
    case (Some e)
    then have "en_epoch e \<le> k_epoch (w_svc w)" using ok ca by (auto simp: epochs_ok_def)
    then show ?thesis using Some ep by (simp add: cache_hit_def)
  qed (simp add: cache_hit_def)
  have row: "at_TokenHash ?row = sha secret" "at_Scope ?row = scope" "at_State ?row = TokenActive"
    "at_RateLimitRPM ?row = None" "at_ExpiresAt ?row = mp_ExpiresAt p"
    by (simp_all add: mint_row_def assms(4))
  have by_hash: "APITokenByHash (sha secret) (k_db s) = Inr ?row" using mint_tx_row(1) [OF tx] row(1) by simp
  have ne: "secret \<noteq> []" using pre by (auto simp: secret_prefix_def)
  have scope: "scope = ScopeInstances \<longleftrightarrow> mp_Scope p = ''instances''"
    using sc by (auto simp: parse_scope_def split: if_split_asm)
  have first: "snd (Verify sha y' secret inst s) = snd (decide y' (sha secret) inst (entry_of (k_epoch s)
      (?row, if scope \<noteq> ScopeInstances then [] else TokenInstances (at_ID ?row) (k_db s)))
      (s\<lparr>k_cache := (k_cache s)(sha secret := Some (entry_of (k_epoch s)
        (?row, if scope \<noteq> ScopeInstances then [] else TokenInstances (at_ID ?row) (k_db s))))\<rparr>))"
    using ne by (simp add: Verify_def entryFor_def miss assms(5) read_by_hash_def by_hash row(2) cache_result_def Let_def)
  have ids: "scope = ScopeInstances \<Longrightarrow> set (TokenInstances (at_ID ?row) (k_db s)) = set (mp_InstanceIDs p)"
    using mint_tx_row(2) [OF tx] row(2) by simp
  have "Verify sha y' other inst s = (s\<lparr>k_cache := (k_cache s)(sha other := None)\<rparr>, Inl (TeDenied DeniedUnknown))"
    if "other \<noteq> []" "sha other \<notin> at_TokenHash ` set (b_tokens (k_db s))" for other
  proof -
    have "find (\<lambda>t. at_TokenHash t = sha other) (b_tokens (k_db s)) = None"
      using that(2) by (auto simp: find_None_iff image_iff)
    then show ?thesis
      using that(1) by (simp add: Verify_def entryFor_def miss assms(5) read_by_hash_def APITokenByHash_def cache_result_def)
  qed
  moreover have "snd (Verify sha y' secret inst s) =
      (if \<exists>t. mp_ExpiresAt p = Some t \<and> t \<le> now_ms y' then Inl (TeDenied DeniedExpired)
       else if mp_Scope p = ''instances'' \<and> inst \<notin> set (mp_InstanceIDs p) then Inl (TeDenied DeniedScope)
       else Inr \<lparr>ve_TokenID = ti_ID info, ve_Prefix = ti_Prefix info, ve_Scope = ti_Scope info\<rparr>)"
    unfolding first
    using scope ids row
    by (cases "mp_ExpiresAt p") (auto simp: decide_def entry_of_def info tokenOf_def Let_def)
  ultimately show ?thesis by blast
qed

section \<open>Witnesses\<close>

definition demo_tenv :: "int \<Rightarrow> string \<Rightarrow> token_env" where
  "demo_tenv t n = \<lparr>y_ns = t, y_id = n, y_event_id = n, y_secret = Some (map (\<lambda>c. word_of_nat (of_char c)) n),
     y_read_ok = True, y_write_ok = True, y_events = True\<rparr>"

definition demo_mint :: mint_params where
  "demo_mint = \<lparr>mp_Name = ''cli'', mp_Scope = ''instances'', mp_InstanceIDs = [''I''], mp_RateLimitRPM = None,
     mp_ExpiresAt = None\<rparr>"

definition demo_tdb :: token_db where
  "demo_tdb = \<lparr>b_tokens = [], b_scopes = [], b_instances = [''I''], b_events = []\<rparr>"

definition demo_svc :: token_svc where
  "demo_svc = fst (Mint (\<lambda>x. x) (demo_tenv 1 ''T'') demo_mint (new_service demo_tdb))"

text \<open>
  A verification is cached; the token is revoked; the secret is presented again, once between the
  commit and the return and once after it.
\<close>

definition demo_secret :: string where
  "demo_secret = secret_prefix @ token_base58 (map (\<lambda>c. word_of_nat (of_char c)) ''T'')"

definition demo_w :: vstate where
  "demo_w = run (vstep (\<lambda>x. x)) [Commit (demo_tenv 1 ''T'') (CallMint demo_mint), Return 0,
     Begin demo_secret, Read 0, End 0] (vstart demo_tdb)"

definition demo_row :: api_token where
  "demo_row = mint_row (\<lambda>x. x) (demo_tenv 1 ''T'') demo_mint ScopeInstances demo_secret"

definition demo_w1 :: vstate where
  "demo_w1 = run (vstep (\<lambda>x. x)) (Commit (demo_tenv 2 ''R'') (CallRevoke ''T'') # [Begin demo_secret, Return 1]) demo_w"

theorem revocation_takes_effect_within_one_request_witness:
  "\<exists>e. (2, demo_secret, Inr e) \<in> set (w_log (run (vstep (\<lambda>x. x)) [Begin demo_secret, Read 0, End 0] demo_w1))
    \<and> (\<forall>y' inst s. decide y' demo_secret inst e s = (s, Inl (TeDenied DeniedRevoked)))"
proof -
  let ?log = "w_log (run (vstep (\<lambda>x. x)) [Begin demo_secret, Read 0, End 0] demo_w1)"
  have row: "APIToken ''T'' (k_db (w_svc demo_w)) = Inr demo_row" by code_simp
  have hash: "at_TokenHash demo_row = demo_secret" by (simp add: demo_row_def mint_row_def)
  have "map fst ?log = [0, 1, 2] \<and> map (fst \<circ> snd) ?log = [demo_secret, demo_secret, demo_secret]" by code_simp
  then obtain r0 r1 r2 where log: "?log = [(0, demo_secret, r0), (1, demo_secret, r1), (2, demo_secret, r2)]"
    by (auto simp: map_eq_Cons_conv)
  then have mem: "(2, at_TokenHash demo_row, r2) \<in> set ?log" by (simp add: hash)
  have next1: "w_next demo_w1 \<le> 2" by code_simp
  have ans: "(w_calls demo_w, Inr ()) \<in> set (w_answers demo_w1)" by code_simp
  have ok: "tokens_ok demo_tdb" by (simp add: tokens_ok_def demo_tdb_def)
  have "\<exists>e. r2 = Inr e \<and> (\<forall>y' inst s. decide y' (at_TokenHash demo_row) inst e s = (s, Inl (TeDenied DeniedRevoked)))"
    by (rule revocation_takes_effect_within_one_request [OF ok demo_w_def row disjI1 [OF refl] demo_w1_def ans mem next1])
  then show ?thesis using log hash by auto
qed

theorem a_minted_secret_verifies_witness:
  "\<exists>info secret. snd (Mint (\<lambda>x. x) (demo_tenv 1 ''T'') demo_mint (w_svc (vstart demo_tdb))) = Inr (info, secret)
    \<and> snd (Verify (\<lambda>x. x) (demo_tenv 5 []) secret ''I'' demo_svc)
      = Inr \<lparr>ve_TokenID = ti_ID info, ve_Prefix = ti_Prefix info, ve_Scope = ti_Scope info\<rparr>"
proof -
  have svc: "w_svc (vstart demo_tdb) = new_service demo_tdb" by (simp add: vstart_def)
  have "\<not> isl (snd (Mint (\<lambda>x. x) (demo_tenv 1 ''T'') demo_mint (new_service demo_tdb)))" by code_simp
  then obtain info secret where m: "Mint (\<lambda>x. x) (demo_tenv 1 ''T'') demo_mint (w_svc (vstart demo_tdb))
      = (demo_svc, Inr (info, secret))"
    unfolding svc demo_svc_def by (cases "Mint (\<lambda>x. x) (demo_tenv 1 ''T'') demo_mint (new_service demo_tdb)")
      (auto simp: isl_def split: sum.splits, metis prod.exhaust sum.exhaust)
  have ok: "tokens_ok demo_tdb" by (simp add: tokens_ok_def demo_tdb_def)
  from a_minted_secret_verifies [OF ok run_simps(1) [symmetric] m, of "demo_tenv 5 []" "''I''"]
  show ?thesis using m by (simp add: demo_mint_def demo_tenv_def)
qed

end
