(* ===== verification/Token_Uses.thy ===== *)
theory Token_Uses
  imports Token_Machine
begin

text \<open>
  The use counters: uses pile up in memory, a flush takes what is due out of memory under the
  lock, and later writes it in one transaction or puts it back. Other uses, and other flushes,
  go on between the two halves.
\<close>

record ustate =
  z_svc :: token_svc
  z_batches :: "(string \<times> use) list list"

datatype uevent =
    URecord string unix_ms string
  | UCollect unix_ms bool
  | UWrite token_env nat

fun ustep :: "uevent \<Rightarrow> ustate \<Rightarrow> ustate" where
  "ustep (URecord i t ip) z = z\<lparr>z_svc := RecordUse i t ip (z_svc z)\<rparr>"
| "ustep (UCollect now force) z = (case flush_collect now force (z_svc z) of
      (s, due) \<Rightarrow> z\<lparr>z_svc := s, z_batches := z_batches z @ [due]\<rparr>)"
| "ustep (UWrite y k) z = (if k < length (z_batches z)
      then z\<lparr>z_svc := fst (flush_write y (z_batches z ! k) (z_svc z)), z_batches := drop_nth k (z_batches z)\<rparr>
      else z)"

definition mem :: "string \<Rightarrow> (string \<times> use) list \<Rightarrow> int" where
  "mem i us = sum_list (map (\<lambda>(j, u). if j = i then us_count u else 0) us)"

lemma mem_simps [simp]:
  "mem i [] = 0" "mem i ((j, u) # us) = (if j = i then us_count u else 0) + mem i us"
  "mem i (us @ vs) = mem i us + mem i vs"
  by (simp_all add: mem_def)

definition request_count :: "string \<Rightarrow> token_db \<Rightarrow> int" where
  "request_count i db = (case APIToken i db of Inl _ \<Rightarrow> 0 | Inr row \<Rightarrow> at_RequestCount row)"

definition row_exists :: "string \<Rightarrow> token_db \<Rightarrow> bool" where
  "row_exists i db \<longleftrightarrow> (\<exists>row. APIToken i db = Inr row)"

text \<open>Written, waiting in memory, and on its way.\<close>

definition all_uses :: "string \<Rightarrow> ustate \<Rightarrow> int" where
  "all_uses i z = request_count i (k_db (z_svc z)) + mem i (k_uses (z_svc z))
     + sum_list (map (mem i) (z_batches z))"

definition uses_ok :: "ustate \<Rightarrow> bool" where
  "uses_ok z \<longleftrightarrow> distinct (map fst (k_uses (z_svc z)))
     \<and> (\<forall>b\<in>set (z_batches z). fst ` set b \<subseteq> fst ` set (k_uses (z_svc z)))"

lemma mem_absent: "i \<notin> fst ` set us \<Longrightarrow> mem i us = 0"
  by (induction us) auto

lemma mem_lookup: "distinct (map fst us) \<Longrightarrow> mem i us = (case map_of us i of None \<Rightarrow> 0 | Some u \<Rightarrow> us_count u)"
  by (induction us) (auto simp: mem_absent split: option.split)

lemma keys_put_use: "fst ` set (put_use i u us) = insert i (fst ` set us)"
  by (induction i u us rule: put_use.induct) auto

lemma distinct_put_use: "distinct (map fst us) \<Longrightarrow> distinct (map fst (put_use i u us))"
proof (induction i u us rule: put_use.induct)
  case (2 i u j v us)
  then show ?case using keys_put_use [of i u us] by (auto simp: image_iff)
qed simp

lemma mem_put_use: "distinct (map fst us) \<Longrightarrow> mem i (put_use j u us) = (if j = i then us_count u else mem i us)"
  by (induction j u us rule: put_use.induct) (auto simp: mem_absent image_iff)

lemma mem_collect:
  "flush_collect now force s = (s', due) \<Longrightarrow>
     mem i (k_uses s') + mem i due = mem i (k_uses s) \<and> map fst (k_uses s') = map fst (k_uses s)
     \<and> fst ` set due \<subseteq> fst ` set (k_uses s) \<and> k_db s' = k_db s"
proof -
  assume "flush_collect now force s = (s', due)"
  then have s': "s' = fst (flush_collect now force s)" and due: "due = snd (flush_collect now force s)" by auto
  have "mem i (map (\<lambda>(i, u). (i, if is_due now force u then u\<lparr>us_count := 0, us_lastWrite := now\<rparr> else u)) us)
      + mem i (filter (\<lambda>(i, u). is_due now force u) us) = mem i us" for us
    by (induction us) auto
  then show ?thesis by (auto simp: s' due flush_collect_def case_prod_unfold comp_def)
qed

lemma keys_put_back: "map fst (put_back due us) = map fst us"
  by (induction due us rule: put_back.induct) (auto simp: comp_def case_prod_unfold)

lemma mem_bump:
  assumes "distinct (map fst us)" and "j \<in> fst ` set us"
  shows "mem i (map (\<lambda>(k, u). (k, if k = j then u\<lparr>us_count := us_count u + c, us_lastWrite := t\<rparr> else u)) us)
    = mem i us + (if j = i then c else 0)"
  using assms
proof (induction us)
  case (Cons a us)
  obtain k u where a: "a = (k, u)" by (cases a)
  show ?case
  proof (cases "k = j")
    case True
    then have "j \<notin> fst ` set us" using Cons.prems(1) a by simp
    then have "map (\<lambda>(k, u). (k, if k = j then u\<lparr>us_count := us_count u + c, us_lastWrite := t\<rparr> else u)) us = us"
      by (induction us) auto
    then show ?thesis using True a by simp
  next
    case False
    then show ?thesis using Cons a by auto
  qed
qed simp

lemma mem_put_back:
  "distinct (map fst us) \<Longrightarrow> fst ` set due \<subseteq> fst ` set us \<Longrightarrow> mem i (put_back due us) = mem i us + mem i due"
proof (induction due us rule: put_back.induct)
  case (2 j p due us)
  let ?us = "map (\<lambda>(k, u). (k, if k = j then u\<lparr>us_count := us_count u + us_count p,
      us_lastWrite := us_lastWrite p - TouchInterval\<rparr> else u)) us"
  have keys: "map fst ?us = map fst us" by (simp add: comp_def case_prod_unfold)
  have "set (map fst ?us) = set (map fst us)" by (simp only: keys)
  then have img: "fst ` set ?us = fst ` set us" by (simp only: list.set_map)
  have "distinct (map fst ?us)" by (simp only: keys 2(2))
  moreover have "fst ` set due \<subseteq> fst ` set ?us" using 2(3) unfolding img by simp
  ultimately have "mem i (put_back due ?us) = mem i ?us + mem i due" by (rule 2(1))
  moreover have "mem i ?us = mem i us + (if j = i then us_count p else 0)"
    by (rule mem_bump) (use 2(2,3) in auto)
  ultimately show ?case by simp
qed simp

lemma touch_one:
  assumes "row_exists i db"
  shows "row_exists i (fst (TouchAPIToken j t ip c db))
    \<and> request_count i (fst (TouchAPIToken j t ip c db)) = request_count i db + (if j = i then c else 0)"
proof -
  let ?f = "\<lambda>r. r\<lparr>at_LastUsedAt := Some t, at_LastUsedIP := ip, at_RequestCount := at_RequestCount r + c\<rparr>"
  obtain row where row: "APIToken i db = Inr row" using assms by (auto simp: row_exists_def)
  then have "APIToken i (update_tokens (\<lambda>t. at_ID t = j) ?f db) = Inr (if at_ID row = j then ?f row else row)"
    by (subst APIToken_update) simp_all
  with row APIToken_id [OF row] show ?thesis
    by (auto simp: TouchAPIToken_def row_exists_def request_count_def)
qed

lemma touch_all_counts:
  "row_exists i db \<Longrightarrow> row_exists i (touch_all due db) \<and> request_count i (touch_all due db) = request_count i db + mem i due"
proof (induction due db rule: touch_all.induct)
  case (2 j u due db)
  then show ?case using touch_one [OF 2(2), of j] by simp
qed simp

lemma sum_drop_nth: "k < length xs \<Longrightarrow> sum_list (map f (drop_nth k xs)) + (f (xs ! k) :: int) = sum_list (map f xs)"
proof -
  assume "k < length xs"
  then have "xs = take k xs @ xs ! k # drop (Suc k) xs" by (rule id_take_nth_drop)
  then have "sum_list (map f xs) = sum_list (map f (take k xs @ xs ! k # drop (Suc k) xs))" by (rule arg_cong)
  then show ?thesis by (simp add: drop_nth_def)
qed

lemma flush_write_sum:
  assumes "distinct (map fst (k_uses s))" and "fst ` set due \<subseteq> fst ` set (k_uses s)" and "row_exists i (k_db s)"
  shows "row_exists i (k_db (fst (flush_write y due s)))
    \<and> map fst (k_uses (fst (flush_write y due s))) = map fst (k_uses s)
    \<and> request_count i (k_db (fst (flush_write y due s))) + mem i (k_uses (fst (flush_write y due s)))
      = request_count i (k_db s) + mem i (k_uses s) + mem i due"
  using touch_all_counts [OF assms(3), of due] mem_put_back [OF assms(1,2)] assms
  by (auto simp: flush_write_def token_write_def transact_def keys_put_back)

lemma ustep_keeps:
  assumes "uses_ok z" and "row_exists i (k_db (z_svc z))"
  shows "uses_ok (ustep e z) \<and> row_exists i (k_db (z_svc (ustep e z)))
    \<and> all_uses i (ustep e z) = all_uses i z + (case e of URecord j _ _ \<Rightarrow> if j = i \<and> j \<noteq> [] then 1 else 0 | _ \<Rightarrow> 0)"
proof (cases e)
  case (URecord j t ip)
  show ?thesis
  proof (cases "j = []")
    case False
    have "us_count (use_of j (z_svc z)) = mem j (k_uses (z_svc z))"
      using assms(1) by (simp add: uses_ok_def mem_lookup use_of_def split: option.split)
    then show ?thesis
      using assms False
      by (auto simp: URecord RecordUse_def Let_def uses_ok_def all_uses_def mem_put_use
          distinct_put_use keys_put_use)
  qed (use assms URecord in \<open>simp add: RecordUse_def\<close>)
next
  case (UCollect now force)
  obtain s' due where c: "flush_collect now force (z_svc z) = (s', due)" by force
  have "set (map fst (k_uses s')) = set (map fst (k_uses (z_svc z)))" using mem_collect [OF c] by simp
  then have "fst ` set (k_uses s') = fst ` set (k_uses (z_svc z))" by (simp only: list.set_map)
  then show ?thesis
    using assms mem_collect [OF c] by (auto simp: UCollect c uses_ok_def all_uses_def)
next
  case (UWrite y k)
  show ?thesis
  proof (cases "k < length (z_batches z)")
    case True
    let ?due = "z_batches z ! k"
    let ?s' = "fst (flush_write y ?due (z_svc z))"
    have sub: "fst ` set ?due \<subseteq> fst ` set (k_uses (z_svc z))" and d: "distinct (map fst (k_uses (z_svc z)))"
      using assms(1) True by (auto simp: uses_ok_def)
    note w = flush_write_sum [OF d sub assms(2), of y]
    have "set (map fst (k_uses ?s')) = set (map fst (k_uses (z_svc z)))" using w by simp
    then have "fst ` set (k_uses ?s') = fst ` set (k_uses (z_svc z))" by (simp only: list.set_map)
    moreover have "set (drop_nth k (z_batches z)) \<subseteq> set (z_batches z)"
      by (auto simp: drop_nth_def dest: in_set_takeD in_set_dropD)
    ultimately have "\<forall>b\<in>set (drop_nth k (z_batches z)). fst ` set b \<subseteq> fst ` set (k_uses ?s')"
      using assms(1) unfolding uses_ok_def by blast
    then have "uses_ok (ustep (UWrite y k) z)" using d w True by (simp add: uses_ok_def)
    then show ?thesis
      using w True sum_drop_nth [OF True, of "mem i"] by (simp add: UWrite all_uses_def)
  qed (use assms UWrite in simp)
qed

fun records :: "string \<Rightarrow> uevent list \<Rightarrow> nat" where
  "records i [] = 0"
| "records i (URecord j _ _ # es) = (if j = i then 1 else 0) + records i es"
| "records i (_ # es) = records i es"

lemma urun_keeps:
  assumes "uses_ok z" and "row_exists i (k_db (z_svc z))" and "i \<noteq> []"
  shows "uses_ok (run ustep es z) \<and> row_exists i (k_db (z_svc (run ustep es z)))
    \<and> all_uses i (run ustep es z) = all_uses i z + int (records i es)"
  using assms(1,2)
proof (induction es arbitrary: z)
  case (Cons e es)
  note k = ustep_keeps [OF Cons.prems, of e]
  have "records i (e # es) = (case e of URecord j _ _ \<Rightarrow> if j = i \<and> j \<noteq> [] then 1 else 0 | _ \<Rightarrow> 0) + records i es"
    using assms(3) by (cases e) auto
  with Cons.IH [of "ustep e z"] k show ?case by (auto split: uevent.split)
qed simp

text \<open>
  C28. No use is lost. For a token with a row, after any run of uses, of flushes that collect and
  of transactions that write or fail, in any order: what the row counts, what waits in memory and
  what is on its way add up to what was there before plus the uses recorded; and once nothing is
  on its way, a forced flush that commits leaves all of it in the row.
\<close>

theorem no_use_is_lost:
  assumes "row_exists i (k_db s)" and "i \<noteq> []" and "k_uses s = []"
  shows "(let z = run ustep es \<lparr>z_svc = s, z_batches = []\<rparr>
    in all_uses i z = request_count i (k_db s) + int (records i es)
     \<and> (z_batches z = [] \<and> y_write_ok y \<longrightarrow>
          request_count i (k_db (fst (Flush y True (z_svc z)))) = request_count i (k_db s) + int (records i es)))"
proof -
  let ?start = "\<lparr>z_svc = s, z_batches = []\<rparr>"
  let ?z = "run ustep es ?start"
  have start: "uses_ok ?start" "row_exists i (k_db (z_svc ?start))" "all_uses i ?start = request_count i (k_db s)"
    using assms by (simp_all add: uses_ok_def all_uses_def)
  have z: "uses_ok ?z" "row_exists i (k_db (z_svc ?z))"
    "all_uses i ?z = request_count i (k_db s) + int (records i es)"
    using urun_keeps [OF start(1) start(2) assms(2), of es] start(3) by simp_all
  have "request_count i (k_db (fst (Flush y True (z_svc ?z)))) = all_uses i ?z"
    if "z_batches ?z = []" "y_write_ok y"
  proof -
    obtain s1 due where c: "flush_collect (now_ms y) True (z_svc ?z) = (s1, due)" by force
    have "mem i (map (\<lambda>(i, u). (i, if us_count u \<noteq> 0 then u\<lparr>us_count := 0, us_lastWrite := t\<rparr> else u)) us) = 0"
      for us t by (induction us) auto
    then have "mem i (k_uses s1) = 0"
      using c by (auto simp: flush_collect_def is_due_def)
    then have "mem i due = mem i (k_uses (z_svc ?z))" using mem_collect [OF c, of i] by simp
    moreover have "request_count i (k_db (fst (flush_write y due s1))) = request_count i (k_db s1) + mem i due"
      using touch_all_counts [of i "k_db s1" due] z(2) mem_collect [OF c, of i] that(2)
      by (auto simp: flush_write_def token_write_def transact_def)
    ultimately show ?thesis
      using that(1) mem_collect [OF c, of i] by (simp add: Flush_def c all_uses_def)
  qed
  with z(3) show ?thesis by (simp add: Let_def)
qed

definition demo_used :: token_svc where
  "demo_used = \<lparr>k_db = \<lparr>b_tokens = [\<lparr>at_ID = ''T'', at_Name = ''n'', at_Prefix = [], at_TokenHash = ''h'',
       at_Scope = ScopeGlobal, at_State = TokenActive, at_RateLimitRPM = None, at_ExpiresAt = None,
       at_CreatedAt = 0, at_UpdatedAt = 0, at_RevokedAt = None, at_LastUsedAt = None, at_LastUsedIP = None,
       at_RequestCount = 5\<rparr>], b_scopes = [], b_instances = [], b_events = []\<rparr>, k_epoch = 1,
     k_cache = (\<lambda>_. None), k_limits = (\<lambda>_. None), k_uses = [], k_published = []\<rparr>"

definition busy_env :: "bool \<Rightarrow> token_env" where
  "busy_env ok = \<lparr>y_ns = 0, y_id = [], y_event_id = [], y_secret = None, y_read_ok = True, y_write_ok = ok,
     y_events = False\<rparr>"

text \<open>Two uses, a flush that fails while a third comes in, and a flush that works.\<close>

definition demo_flushes :: "uevent list" where
  "demo_flushes = [URecord ''T'' 1 [], URecord ''T'' 2 [], UCollect 20000 False, URecord ''T'' 3 [],
     UWrite (busy_env False) 0]"

theorem no_use_is_lost_witness:
  "all_uses ''T'' (run ustep demo_flushes \<lparr>z_svc = demo_used, z_batches = []\<rparr>) = 8
   \<and> request_count ''T'' (k_db (fst (Flush (busy_env True) True
        (z_svc (run ustep demo_flushes \<lparr>z_svc = demo_used, z_batches = []\<rparr>))))) = 8"
proof -
  have ex: "row_exists ''T'' (k_db demo_used)" "request_count ''T'' (k_db demo_used) = 5" "k_uses demo_used = []"
    by (simp_all add: row_exists_def request_count_def APIToken_def demo_used_def)
  have "z_batches (run ustep demo_flushes \<lparr>z_svc = demo_used, z_batches = []\<rparr>) = []" by code_simp
  then show ?thesis
    using no_use_is_lost [of "''T''" demo_used demo_flushes "busy_env True"] ex
    by (simp add: Let_def busy_env_def demo_flushes_def)
qed

end
