(* ===== verification/Fit_Arith.thy ===== *)
theory Fit_Arith
  imports Prelude Complex_Main "HOL-Library.Log_Nat" "HOL-Library.Signed_Division"
begin

text \<open>
  The arithmetic of the fit calculator (\<open>src/internal/fit\<close>): Go's \<open>int\<close> of 64 bits, whose
  sums and products wrap, its \<open>uint64\<close>, and its \<open>float64\<close>. A finite \<open>float64\<close> is the
  rational it stands for, and every operation rounds its exact result to 53 bits,
  ties to even. Infinities, NaN and subnormal results are left out: the calculator
  starts from byte counts, layer counts and the weights of a tensor split.
\<close>

subsection \<open>Integers\<close>

definition i64 :: "int \<Rightarrow> int" where
  "i64 i = (i + 2 ^ 63) mod 2 ^ 64 - 2 ^ 63"

lemma i64_id: "- (2 ^ 63) \<le> i \<Longrightarrow> i < 2 ^ 63 \<Longrightarrow> i64 i = i"
  by (simp add: i64_def)

lemma i64_range: "- (2 ^ 63) \<le> i64 i" "i64 i < 2 ^ 63"
  using pos_mod_sign [of "2 ^ 64" "i + 2 ^ 63"] pos_mod_bound [of "2 ^ 64" "i + 2 ^ 63"]
  unfolding i64_def by simp_all

lemma i64_le: "- (2 ^ 63) \<le> i \<Longrightarrow> i64 i \<le> i"
  using zmod_le_nonneg_dividend [of "i + 2 ^ 63" "2 ^ 64"] by (simp add: i64_def)

definition u64_of_int :: "int \<Rightarrow> u64" where
  "u64_of_int i = word_of_int i"

lemma unat_u64_of_int: "0 \<le> i \<Longrightarrow> i < 2 ^ 64 \<Longrightarrow> unat (u64_of_int i) = nat i"
  by (simp add: u64_of_int_def unsigned_of_int take_bit_int_eq_self)

subsection \<open>Floating point\<close>

type_synonym f64 = rat

text \<open>The exponent of a positive number: the power of two at or below it.\<close>

definition f_exp :: "rat \<Rightarrow> int" where
  "f_exp x = (if 1 \<le> x then int (floorlog 2 (nat \<lfloor>x\<rfloor>)) - 1
              else - int (floorlog 2 (nat (\<lceil>1 / x\<rceil> - 1))))"

text \<open>The nearest integer, the even one of two.\<close>

definition nearest :: "rat \<Rightarrow> int" where
  "nearest x = (let r = \<lfloor>x\<rfloor>; d = x - of_int r
     in if d < 1 / 2 \<or> (d = 1 / 2 \<and> even r) then r else r + 1)"

definition fl_pos :: "rat \<Rightarrow> f64" where
  "fl_pos x = (let k = f_exp x - 52 in of_int (nearest (x * 2 powi (- k))) * 2 powi k)"

definition fl :: "rat \<Rightarrow> f64" where
  "fl x = (if x = 0 then 0 else if x < 0 then - fl_pos (- x) else fl_pos x)"

definition f_of_u64 :: "u64 \<Rightarrow> f64" where
  "f_of_u64 w = fl (of_nat (unat w))"

definition f_of_int :: "int \<Rightarrow> f64" where
  "f_of_int i = fl (of_int i)"

definition f_add :: "f64 \<Rightarrow> f64 \<Rightarrow> f64" where
  "f_add x y = fl (x + y)"

definition f_mul :: "f64 \<Rightarrow> f64 \<Rightarrow> f64" where
  "f_mul x y = fl (x * y)"

definition f_div :: "f64 \<Rightarrow> f64 \<Rightarrow> f64" where
  "f_div x y = fl (x / y)"

text \<open>\<open>uint64(f)\<close> drops the fraction; Go defines it for values a \<open>uint64\<close> can hold.\<close>

definition u64_of_f :: "f64 \<Rightarrow> u64" where
  "u64_of_f x = word_of_int (if 0 \<le> x then \<lfloor>x\<rfloor> else \<lceil>x\<rceil>)"

subsubsection \<open>Rounding\<close>

lemma pw_add: "(2::rat) powi a * 2 powi b = 2 powi (a + b)"
  by (simp add: power_int_add)

lemma pw_back [simp]: "x * (2::rat) powi a * 2 powi (- a) = x" "x * (2::rat) powi (- a) * 2 powi a = x"
  by (simp_all only: mult.assoc pw_add) simp_all

lemma floorlog2_bounds:
  assumes "0 < n"
  shows "2 ^ (floorlog 2 n - 1) \<le> n" "n < 2 ^ floorlog 2 n" "0 < floorlog 2 n"
  using floorlog_bounds [of n 2] floorlog_eq_zero_iff [of 2 n] assms by (simp_all add: floorlog_ge_SucI)

lemma f_exp_bounds:
  assumes "0 < x"
  shows "2 powi f_exp x \<le> x" "x < 2 powi (f_exp x + 1)"
proof -
  have "2 powi f_exp x \<le> x \<and> x < 2 powi (f_exp x + 1)"
  proof (cases "1 \<le> x")
    case True
    let ?n = "nat \<lfloor>x\<rfloor>" and ?k = "floorlog 2 (nat \<lfloor>x\<rfloor>)"
    have n: "0 < ?n" using True by (simp add: one_le_floor)
    have "of_nat ?n \<le> x" "x < of_nat ?n + 1" using True floor_correct [of x] by simp_all
    moreover from floorlog2_bounds [OF n] have "(2::rat) ^ (?k - 1) \<le> of_nat ?n"
      by (metis of_nat_le_iff of_nat_numeral of_nat_power)
    moreover from floorlog2_bounds(2) [OF n] have "(of_nat ?n :: rat) + 1 \<le> 2 ^ ?k"
      by (metis Suc_leI of_nat_Suc of_nat_le_iff of_nat_numeral of_nat_power add.commute)
    moreover have "(2::rat) powi (int ?k - 1) = 2 ^ (?k - 1)"
      using floorlog2_bounds(3) [OF n] by (metis One_nat_def Suc_leI int_ops(2) of_nat_diff power_int_of_nat)
    moreover have "f_exp x = int ?k - 1" using True by (simp add: f_exp_def)
    moreover have "(2::rat) powi (int ?k - 1 + 1) = 2 ^ ?k" by simp
    ultimately show ?thesis by (metis (no_types, lifting) less_le_trans order_trans)
  next
    case False
    let ?m = "nat (\<lceil>1 / x\<rceil> - 1)" and ?k = "floorlog 2 (nat (\<lceil>1 / x\<rceil> - 1))"
    have y: "1 < 1 / x" using False assms by simp
    then have m: "0 < ?m" by (simp add: less_ceiling_iff)
    have i: "int ?m = \<lceil>1 / x\<rceil> - 1" using m by linarith
    then have "(of_nat ?m :: rat) = of_int \<lceil>1 / x\<rceil> - 1"
      by (metis of_int_1 of_int_diff of_int_of_nat_eq)
    then have c: "1 / x \<le> of_nat ?m + 1" "of_nat ?m < 1 / x"
      using ceiling_correct [of "1 / x"] by simp_all
    from floorlog2_bounds(1) [OF m] have "(2::rat) ^ (?k - 1) \<le> of_nat ?m"
      by (metis of_nat_le_iff of_nat_numeral of_nat_power)
    with c have lo: "2 ^ (?k - 1) < 1 / x" by linarith
    from floorlog2_bounds(2) [OF m] have "(of_nat ?m :: rat) + 1 \<le> 2 ^ ?k"
      by (metis Suc_leI of_nat_Suc of_nat_le_iff of_nat_numeral of_nat_power add.commute)
    with c have hi: "1 / x \<le> 2 ^ ?k" by linarith
    have e: "f_exp x = - int ?k" using False by (simp add: f_exp_def)
    have e1: "(2::rat) powi (- int ?k + 1) = 1 / 2 ^ (?k - 1)"
      using floorlog2_bounds(3) [OF m]
      by (cases ?k) (simp_all add: power_int_minus field_simps)
    have "2 powi f_exp x \<le> x" using hi assms e by (simp add: power_int_minus field_simps)
    moreover have "x < 2 powi (f_exp x + 1)" unfolding e e1 using lo assms by (simp add: field_simps)
    ultimately show ?thesis by simp
  qed
  then show "2 powi f_exp x \<le> x" "x < 2 powi (f_exp x + 1)" by simp_all
qed

lemma nearest_bounds:
  "nearest x = \<lfloor>x\<rfloor> \<or> nearest x = \<lfloor>x\<rfloor> + 1"
  "\<bar>of_int (nearest x) - x\<bar> \<le> 1 / 2"
proof -
  show "nearest x = \<lfloor>x\<rfloor> \<or> nearest x = \<lfloor>x\<rfloor> + 1" by (simp add: nearest_def Let_def)
  have "of_int \<lfloor>x\<rfloor> \<le> x" "x < of_int \<lfloor>x\<rfloor> + 1" using floor_correct [of x] by simp_all
  then show "\<bar>of_int (nearest x) - x\<bar> \<le> 1 / 2" by (auto simp: nearest_def Let_def)
qed

lemma nearest_of_int [simp]: "nearest (of_int i) = i"
  by (simp add: nearest_def)

lemma nearest_mono:
  assumes "x \<le> y"
  shows "nearest x \<le> nearest y"
proof (cases "\<lfloor>x\<rfloor> = \<lfloor>y\<rfloor>")
  case True
  then show ?thesis using assms by (auto simp: nearest_def Let_def)
next
  case False
  with floor_mono [OF assms] have "\<lfloor>x\<rfloor> + 1 \<le> \<lfloor>y\<rfloor>" by simp
  then show ?thesis using nearest_bounds(1) [of x] nearest_bounds(1) [of y] by auto
qed

lemma f_exp_unique:
  assumes "2 powi e \<le> x" "x < 2 powi (e + 1)"
  shows "f_exp x = e"
proof -
  have x: "0 < x" using assms(1) by (meson less_le_trans zero_less_numeral zero_less_power_int)
  have "f_exp x < e + 1" using f_exp_bounds(1) [OF x] assms(2)
    by (metis le_less_trans not_less one_le_numeral power_int_increasing)
  moreover have "e < f_exp x + 1" using f_exp_bounds(2) [OF x] assms(1)
    by (metis le_less_trans not_less one_le_numeral power_int_increasing)
  ultimately show ?thesis by simp
qed

lemma f_exp_mono: "0 < x \<Longrightarrow> x \<le> y \<Longrightarrow> f_exp x \<le> f_exp y"
proof (rule ccontr)
  assume a: "0 < x" "x \<le> y" and "\<not> f_exp x \<le> f_exp y"
  then have "(2::rat) powi (f_exp y + 1) \<le> 2 powi f_exp x" by (intro power_int_increasing) simp_all
  with f_exp_bounds(1) [of x] f_exp_bounds(2) [of y] a show False by simp
qed

text \<open>A number of 53 bits times a power of two is a \<open>float64\<close>, and stays one.\<close>

lemma fl_pos_exact:
  assumes "0 < a" "a \<le> 2 ^ 53"
  shows "fl_pos (of_int a * 2 powi k) = of_int a * 2 powi k"
proof -
  let ?x = "of_int a * 2 powi k :: rat"
  let ?d = "f_exp ?x - 52"
  have x: "0 < ?x" using assms by simp
  have "\<exists>b. ?x = of_int b * 2 powi ?d"
  proof (cases "?d \<le> k")
    case True
    then have "?x = of_int (a * 2 ^ nat (k - ?d)) * 2 powi ?d"
      by (simp add: power_int_of_nat [symmetric] power_int_add [symmetric] mult.assoc)
    then show ?thesis by blast
  next
    case False
    have "?x \<le> 2 ^ 53 * 2 powi k" using assms by (intro mult_right_mono) (simp_all, linarith?)
    also have "\<dots> = 2 powi (53 + k)" by (simp add: power_int_add)
    finally have le: "2 powi f_exp ?x \<le> (2::rat) powi (53 + k)" using f_exp_bounds(1) [OF x] by simp
    then have "f_exp ?x \<le> 53 + k"
      by (meson less_irrefl not_le order.strict_trans2 power_int_strict_increasing one_less_numeral_iff semiring_norm(76))
    with False have d: "f_exp ?x = 53 + k" by simp
    then have "?x = 2 powi (53 + k)"
      using f_exp_bounds(1) [OF x] \<open>?x \<le> 2 ^ 53 * 2 powi k\<close> by (simp add: power_int_add)
    then have "?x = of_int (2 ^ 52) * 2 powi ?d" unfolding d by (simp add: power_int_add)
    then show ?thesis by blast
  qed
  then obtain b where b: "?x = of_int b * 2 powi ?d" by blast
  then have "?x * 2 powi (- ?d) = of_int b" by (metis pw_back(1))
  then have "nearest (?x * 2 powi (- ?d)) = b" by (metis nearest_of_int)
  then have "fl_pos ?x = of_int b * 2 powi ?d" unfolding fl_pos_def Let_def by simp
  then show ?thesis using b by simp
qed

lemma fl_exact:
  assumes "\<bar>a\<bar> \<le> 2 ^ 53"
  shows "fl (of_int a * 2 powi k) = of_int a * 2 powi k"
proof (cases a "0::int" rule: linorder_cases)
  case less
  then have "fl_pos (of_int (- a) * 2 powi k) = of_int (- a) * 2 powi k"
    using assms by (intro fl_pos_exact) simp_all
  then show ?thesis using less by (simp add: fl_def mult_less_0_iff)
next
  case greater
  then have "0 < of_int a * (2::rat) powi k" by simp
  then show ?thesis using greater fl_pos_exact [of a k] assms unfolding fl_def
    by (metis abs_of_pos less_asym less_irrefl)
qed (simp add: fl_def)

lemma fl_of_nat: "n \<le> 2 ^ 53 \<Longrightarrow> fl (of_nat n) = of_nat n"
  using fl_exact [of "int n" 0] by simp

lemma fl_0 [simp]: "fl 0 = 0" and fl_1 [simp]: "fl 1 = 1"
  using fl_of_nat [of 1] by (simp_all add: fl_def)

lemma fl_numeral [simp]: "(numeral w :: nat) \<le> 9007199254740992 \<Longrightarrow> fl (numeral w) = numeral w"
  using fl_of_nat [of "numeral w"] by simp

lemma fl_half: "fl (1 / 2) = 1 / 2"
  using fl_exact [of 1 "- 1"] by (simp add: power_int_minus)

lemma fl_pos_mono:
  assumes "0 < x" "x \<le> y"
  shows "fl_pos x \<le> fl_pos y"
proof (cases "f_exp x = f_exp y")
  case True
  have "nearest (x * 2 powi (- (f_exp y - 52))) \<le> nearest (y * 2 powi (- (f_exp y - 52)))"
    using assms by (intro nearest_mono mult_right_mono) simp_all
  then show ?thesis unfolding fl_pos_def Let_def True by (intro mult_right_mono) simp_all
next
  case False
  let ?c = "f_exp x" and ?d = "f_exp y"
  have d: "?c + 1 \<le> ?d" using f_exp_mono [OF assms] False by simp
  have "x * 2 powi (- (?c - 52)) \<le> 2 powi (?c + 1) * 2 powi (- (?c - 52))"
    using f_exp_bounds(2) [OF assms(1)] by (intro mult_right_mono) simp_all
  also have "\<dots> = of_int (2 ^ 53)" by (simp add: power_int_add [symmetric])
  finally have "nearest (x * 2 powi (- (?c - 52))) \<le> nearest (of_int (2 ^ 53))" by (rule nearest_mono)
  then have "fl_pos x \<le> of_int (2 ^ 53) * 2 powi (?c - 52)"
    unfolding fl_pos_def Let_def nearest_of_int by (intro mult_right_mono) (simp_all only: of_int_le_iff, simp)
  also have "\<dots> = 2 powi (?c + 1)" by (simp add: power_int_add power_int_diff)
  also have "\<dots> \<le> 2 powi ?d" using d by (intro power_int_increasing) simp_all
  also have "\<dots> = of_int (2 ^ 52) * 2 powi (?d - 52)" by (simp add: power_int_diff)
  also have "\<dots> \<le> fl_pos y"
  proof -
    have "of_int (2 ^ 52) = (2::rat) powi ?d * 2 powi (- (?d - 52))" by (simp add: pw_add)
    also have "\<dots> \<le> y * 2 powi (- (?d - 52))"
      using f_exp_bounds(1) [of y] assms by (intro mult_right_mono) simp_all
    finally have "nearest (of_int (2 ^ 52)) \<le> nearest (y * 2 powi (- (?d - 52)))" by (rule nearest_mono)
    then show ?thesis
      unfolding fl_pos_def Let_def nearest_of_int by (intro mult_right_mono) (simp_all only: of_int_le_iff, simp)
  qed
  finally show ?thesis .
qed

lemma fl_pos_nonneg: "0 < x \<Longrightarrow> 0 \<le> fl_pos x"
proof -
  assume "0 < x"
  then have "nearest (of_int 0) \<le> nearest (x * 2 powi (- (f_exp x - 52)))" by (intro nearest_mono) simp
  then have "0 \<le> nearest (x * 2 powi (- (f_exp x - 52)))" by (simp only: nearest_of_int)
  then show ?thesis unfolding fl_pos_def Let_def by (intro mult_nonneg_nonneg) simp_all
qed

lemma fl_mono: "x \<le> y \<Longrightarrow> fl x \<le> fl y"
  using fl_pos_mono [of x y] fl_pos_mono [of "- y" "- x"] fl_pos_nonneg [of "- x"] fl_pos_nonneg [of y]
  by (auto simp: fl_def)

lemma fl_nonneg: "0 \<le> x \<Longrightarrow> 0 \<le> fl x"
  using fl_mono [of 0 x] by simp

lemma fl_error:
  assumes "0 \<le> x"
  shows "\<bar>fl x - x\<bar> \<le> x / 2 ^ 53"
proof (cases "x = 0")
  case False
  let ?k = "f_exp x - 52" and ?m = "x * 2 powi (- (f_exp x - 52))"
  have x: "0 < x" using assms False by simp
  have undo: "?m * 2 powi ?k = x" by (rule pw_back)
  have "fl x - x = (of_int (nearest ?m) - ?m) * 2 powi ?k"
    using x undo by (simp add: fl_def fl_pos_def Let_def algebra_simps)
  then have "\<bar>fl x - x\<bar> = \<bar>of_int (nearest ?m) - ?m\<bar> * 2 powi ?k" by (simp add: abs_mult)
  also have "\<dots> \<le> 1 / 2 * 2 powi ?k" using nearest_bounds(2) [of ?m] by (intro mult_right_mono) simp_all
  also have "\<dots> = 2 powi f_exp x / 2 ^ 53" by (simp add: power_int_diff)
  also have "\<dots> \<le> x / 2 ^ 53" using f_exp_bounds(1) [OF x] by (intro divide_right_mono) simp_all
  finally show ?thesis .
qed simp

end
