(* ===== verification/Fit_Types.thy ===== *)
theory Fit_Types
  imports Fit_Arith
begin

text \<open>
  The inputs of the fit calculator: the cache types of \<open>src/internal/fit/cachetype.go\<close>, the
  model geometry of \<open>shape.go\<close>, the flags of \<open>flags.go\<close> with llama-server's defaults, and
  the devices and the host of \<open>device.go\<close>. A Go \<open>int\<close> is an \<open>int\<close>, the sums and products
  the code forms of them are wrapped by \<open>i64\<close>.
\<close>

subsection \<open>Cache types\<close>

record cache_type =
  ct_Name :: string
  ct_BlockSize :: int
  ct_TypeSize :: int

definition Quantized :: "cache_type \<Rightarrow> bool" where
  "Quantized c \<longleftrightarrow> ct_BlockSize c > 1"

definition CacheTypeF16 :: string where "CacheTypeF16 = ''f16''"
definition CacheTypeQ8_0 :: string where "CacheTypeQ8_0 = ''q8_0''"

text \<open>The table, one entry per name.\<close>

definition cacheTypes :: "(string \<times> int \<times> int) list" where
  "cacheTypes =
     [(''f32'', 1, 4), (''f16'', 1, 2), (''bf16'', 1, 2), (''q8_0'', 32, 34), (''q5_1'', 32, 24),
      (''q5_0'', 32, 22), (''q4_1'', 32, 20), (''q4_0'', 32, 18), (''iq4_nl'', 32, 18)]"

definition BytesPerElement :: "cache_type \<Rightarrow> f64" where
  "BytesPerElement c = (if ct_BlockSize c = 0 then 0
     else f_div (f_of_int (ct_TypeSize c)) (f_of_int (ct_BlockSize c)))"

definition CacheTypeNames :: "string list" where
  "CacheTypeNames = [''f32'', ''f16'', ''bf16'', ''q8_0'', ''q5_1'', ''q5_0'', ''q4_1'', ''q4_0'', ''iq4_nl'']"

definition cache_row :: "string \<Rightarrow> cache_type option" where
  "cache_row n = map_option (\<lambda>(b, t). \<lparr>ct_Name = n, ct_BlockSize = b, ct_TypeSize = t\<rparr>)
     (map_of cacheTypes n)"

text \<open>\<open>strings.TrimSpace\<close> and \<open>strings.ToLower\<close> on ASCII text.\<close>

definition space_char :: "char \<Rightarrow> bool" where
  "space_char c \<longleftrightarrow> c \<in> {CHR '' '', CHR 0x09, CHR 0x0A, CHR 0x0B, CHR 0x0C, CHR 0x0D}"

definition TrimSpace :: "string \<Rightarrow> string" where
  "TrimSpace t = rev (dropWhile space_char (rev (dropWhile space_char t)))"

definition lower_char :: "char \<Rightarrow> char" where
  "lower_char c = (if 65 \<le> (of_char c :: nat) \<and> (of_char c :: nat) \<le> 90
                   then char_of (of_char c + 32 :: nat) else c)"

definition ToLower :: "string \<Rightarrow> string" where
  "ToLower = map lower_char"

text \<open>The entry and whether the name is known; an unknown name leaves Go's zero value.\<close>

definition zero_cache_type :: cache_type where
  "zero_cache_type = \<lparr>ct_Name = [], ct_BlockSize = 0, ct_TypeSize = 0\<rparr>"

definition LookupCacheType :: "string \<Rightarrow> cache_type \<times> bool" where
  "LookupCacheType name = (let n = ToLower (TrimSpace name) in
     case cache_row (if n = [] then CacheTypeF16 else n) of
       Some c \<Rightarrow> (c, True)
     | None \<Rightarrow> (zero_cache_type, False))"

text \<open>The bytes of a row of \<open>n\<close> elements: whole blocks, rounded up.\<close>

definition rowBytes :: "int \<Rightarrow> cache_type \<Rightarrow> u64" where
  "rowBytes n c = (if n \<le> 0 \<or> ct_BlockSize c \<le> 0 then 0
     else let blocks = i64 (i64 (n + ct_BlockSize c) - 1) sdiv ct_BlockSize c
          in u64_of_int blocks * u64_of_int (ct_TypeSize c))"

subsection \<open>Model shape\<close>

text \<open>The draft model of a shape is only read for its own geometry, never for a draft of its own.\<close>

record model_shape =
  m_Arch :: string
  m_NLayer :: int
  m_NEmbd :: int
  m_NFF :: int
  m_NHead :: int
  m_NHeadKV :: "int list"
  m_HeadDimK :: int
  m_HeadDimV :: int
  m_NCtxTrain :: int
  m_NVocab :: int
  m_NExpert :: int
  m_NExpertUsed :: int
  m_SWAWindow :: "int option"
  m_SWAPattern :: "int option"
  m_LayerBytes :: "u64 list"
  m_OtherBytes :: u64
  m_FileBytes :: u64
  m_MmprojBytes :: u64

record main_shape = model_shape +
  m_Draft :: "model_shape option"

definition layerBytesAt :: "'a model_shape_scheme \<Rightarrow> int \<Rightarrow> u64" where
  "layerBytesAt m i = (if m_LayerBytes m = [] then 0
     else let j = if i < 0 then 0 else i;
              k = if j \<ge> int (length (m_LayerBytes m)) then int (length (m_LayerBytes m)) - 1 else j
          in m_LayerBytes m ! nat k)"

text \<open>
  \<open>Layers\<close>: the weight bucket of every layer, the bucket outside them, and whether they are
  exact. A negative layer count makes \<open>make\<close> panic before any list is read; \<open>Estimate\<close> tests it.
\<close>

definition Layers :: "'a model_shape_scheme \<Rightarrow> u64 list \<times> u64 \<times> bool" where
  "Layers m = (if m_LayerBytes m \<noteq> []
     then (map (\<lambda>i. layerBytesAt m (int i)) [0..<nat (m_NLayer m)], m_OtherBytes m, True)
     else let buckets = i64 (m_NLayer m + 1) in
       if buckets \<le> 0 then ([], m_FileBytes m, False)
       else let per = m_FileBytes m div u64_of_int buckets
            in (map (\<lambda>i. per) [0..<nat (m_NLayer m)],
                m_FileBytes m - per * u64_of_int (m_NLayer m), False))"

definition HeadCountKV :: "'a model_shape_scheme \<Rightarrow> int \<Rightarrow> int" where
  "HeadCountKV m i = (if m_NHeadKV m = [] then m_NHead m
     else let j = if i < 0 then 0 else i;
              k = if j \<ge> int (length (m_NHeadKV m)) then int (length (m_NHeadKV m)) - 1 else j
          in m_NHeadKV m ! nat k)"

definition OffloadSteps :: "'a model_shape_scheme \<Rightarrow> int" where
  "OffloadSteps m = i64 (m_NLayer m + 1)"

definition totalOf :: "u64 list \<Rightarrow> u64" where
  "totalOf vs = fold (\<lambda>v out. out + v) vs 0"

definition TotalBytes :: "'a model_shape_scheme \<Rightarrow> u64" where
  "TotalBytes m = (case Layers m of (layer, other, _) \<Rightarrow> fold (\<lambda>b total. total + b) layer other)"

subsection \<open>Flags\<close>

definition NGLAuto :: string where "NGLAuto = ''auto''"
definition NGLAll :: string where "NGLAll = ''all''"
definition NGLNone :: string where "NGLNone = ''none''"
definition NGLCount :: string where "NGLCount = ''count''"
definition SplitNone :: string where "SplitNone = ''none''"
definition SplitLayer :: string where "SplitLayer = ''layer''"
definition SplitRow :: string where "SplitRow = ''row''"
definition FlashOn :: string where "FlashOn = ''on''"
definition FlashOff :: string where "FlashOff = ''off''"
definition FlashAuto :: string where "FlashAuto = ''auto''"

record draft_flags =
  d_CtxSize :: int
  d_NGpuLayers :: "int option"

record flags =
  f_NCtx :: int
  f_NParallel :: int
  f_NBatch :: int
  f_NUbatch :: int
  f_NGL :: string
  f_NGLCount :: int
  f_FlashAttn :: string
  f_TypeK :: string
  f_TypeV :: string
  f_SplitMode :: string
  f_TensorSplit :: "f64 list"
  f_MainGPU :: int
  f_Embedding :: bool
  f_Draft :: draft_flags

definition DefaultNCtx :: int where "DefaultNCtx = 4096"
definition DefaultNParallel :: int where "DefaultNParallel = 1"
definition DefaultNBatch :: int where "DefaultNBatch = 2048"
definition DefaultNUbatch :: int where "DefaultNUbatch = 512"

definition default_when :: "bool \<Rightarrow> 'a \<Rightarrow> 'a \<Rightarrow> 'a" where
  "default_when unset d v = (if unset then d else v)"

definition Normalize :: "flags \<Rightarrow> flags" where
  "Normalize f =
     (let batch = default_when (f_NBatch f \<le> 0) DefaultNBatch (f_NBatch f);
          ubatch = default_when (f_NUbatch f \<le> 0) DefaultNUbatch (f_NUbatch f)
      in f\<lparr>f_NCtx := default_when (f_NCtx f \<le> 0) DefaultNCtx (f_NCtx f),
           f_NParallel := default_when (f_NParallel f \<le> 0) DefaultNParallel (f_NParallel f),
           f_NBatch := batch,
           f_NUbatch := (if ubatch > batch then batch else ubatch),
           f_NGL := default_when (f_NGL f = []) NGLAuto (f_NGL f),
           f_FlashAttn := default_when (f_FlashAttn f = []) FlashAuto (f_FlashAttn f),
           f_TypeK := default_when (f_TypeK f = []) CacheTypeF16 (f_TypeK f),
           f_TypeV := default_when (f_TypeV f = []) CacheTypeF16 (f_TypeV f),
           f_SplitMode := default_when (f_SplitMode f = []) SplitLayer (f_SplitMode f),
           f_MainGPU := default_when (f_MainGPU f < 0) 0 (f_MainGPU f)\<rparr>)"

definition FlashAttnOn :: "flags \<Rightarrow> bool" where
  "FlashAttnOn f \<longleftrightarrow> f_FlashAttn f = FlashOn"

definition PerSlotCtx :: "flags \<Rightarrow> int" where
  "PerSlotCtx f = (if f_NParallel f \<le> 0 then f_NCtx f else i64 (f_NCtx f sdiv f_NParallel f))"

subsection \<open>Devices and host\<close>

record device =
  dv_Index :: int
  dv_UUID :: string
  dv_Name :: string
  dv_TotalBytes :: u64
  dv_FreeBytes :: u64
  dv_Known :: bool

record host =
  h_RAMFreeBytes :: u64
  h_RAMTotalBytes :: u64
  h_RAMKnown :: bool

definition RAMHeadroom :: f64 where "RAMHeadroom = fl (9 / 10)"
definition DefaultMarginMiB :: int where "DefaultMarginMiB = 1024"

subsection \<open>Lemmas\<close>

lemma Normalize_positive [simp]:
  "0 < f_NCtx (Normalize f)" "0 < f_NParallel (Normalize f)" "0 < f_NBatch (Normalize f)"
  "0 < f_NUbatch (Normalize f)" "f_NUbatch (Normalize f) \<le> f_NBatch (Normalize f)"
  "0 \<le> f_MainGPU (Normalize f)"
  by (simp_all add: Normalize_def Let_def default_when_def DefaultNCtx_def DefaultNParallel_def
      DefaultNBatch_def DefaultNUbatch_def)

lemma totalOf_sum: "totalOf vs = sum_list vs"
proof -
  have "fold (\<lambda>v out. out + v) vs a = a + sum_list vs" for a :: u64
    by (induction vs arbitrary: a) (simp_all add: ac_simps)
  then show ?thesis by (simp add: totalOf_def)
qed

lemma length_Layers: "0 \<le> m_NLayer m \<Longrightarrow> m_NLayer m < 2 ^ 63 - 1 \<Longrightarrow> Layers m = (l, w, x) \<Longrightarrow> length l = nat (m_NLayer m)"
  by (auto simp: Layers_def Let_def i64_id split: if_splits)

text \<open>The buckets of the fallback still add up to the file.\<close>

lemma fallback_buckets_sum:
  assumes "m_LayerBytes m = []" "0 \<le> m_NLayer m" "Layers m = (layer, other, x)"
  shows "sum_list layer + other = m_FileBytes m"
proof -
  have "(word_of_int (m_NLayer m) :: u64) = of_nat (nat (m_NLayer m))"
    using assms(2) by (metis of_int_of_nat_eq nat_0_le)
  then show ?thesis
    using assms
    by (auto simp: Layers_def Let_def sum_list_replicate u64_of_int_def map_replicate_const
        split: if_splits)
qed

lemma LookupCacheType_cases:
  "LookupCacheType n = (c, True) \<Longrightarrow> 0 < ct_BlockSize c \<and> 0 < ct_TypeSize c \<and> ct_TypeSize c \<le> 34 \<and> ct_BlockSize c \<le> 32"
  by (auto simp: LookupCacheType_def Let_def cache_row_def cacheTypes_def split: option.splits if_splits)

end
