(* ===== verification/Fit_Memory.thy ===== *)
theory Fit_Memory
  imports Fit_Types
begin

text \<open>
  What a configuration needs: the key-value cache with its sliding window
  (\<open>src/internal/fit/kv.go\<close>), the compute buffers (\<open>compute.go\<close>), the correction learned from
  earlier loads (\<open>calibration.go\<close>) and the draft model and projector (\<open>extras.go\<close>). Every sum of
  bytes is a sum of \<open>uint64\<close>s.
\<close>

subsection \<open>The cache\<close>

definition KVPad :: int where "KVPad = 256"

definition PadCtx :: "int \<Rightarrow> int" where
  "PadCtx c = (if c \<le> 0 then 0 else i64 (i64 (i64 (c + KVPad) - 1) sdiv KVPad * KVPad))"

text \<open>The number of layers with a window, and whether the window was applied.\<close>

definition SWALayers :: "int \<Rightarrow> int option \<Rightarrow> int option \<Rightarrow> int \<times> bool" where
  "SWALayers l window pattern =
     (case window of
        None \<Rightarrow> (0, False)
      | Some w \<Rightarrow>
        if l \<le> 0 \<or> w \<le> 0 then (0, False)
        else (let p = (case pattern of None \<Rightarrow> 1 | Some p \<Rightarrow> p); applied = (pattern \<noteq> None)
              in if p \<le> 1 then (0, applied \<and> p > 1)
                 else (fold (\<lambda>i swa. if (int i + 1) mod p \<noteq> 0 then swa + 1 else swa) [0..<nat l] 0, True)))"

definition IsSWALayer :: "int \<Rightarrow> int option \<Rightarrow> int option \<Rightarrow> bool" where
  "IsSWALayer i window pattern = (case (window, pattern) of
       (Some w, Some p) \<Rightarrow> if w \<le> 0 \<or> p \<le> 1 then False else (i + 1) mod p \<noteq> 0
     | _ \<Rightarrow> False)"

record kv_layer =
  kl_bytes :: u64
  kl_swa :: bool

record kv_plan =
  kp_layers :: "kv_layer list"
  kp_full :: u64
  kp_swa :: u64
  kp_swaLayers :: int
  kp_windowApplied :: bool

definition kp_total :: "kv_plan \<Rightarrow> u64" where
  "kp_total p = kp_full p + kp_swa p"

text \<open>The bytes of a token in a layer, and the tokens a window layer keeps.\<close>

definition per_tok :: "'a model_shape_scheme \<Rightarrow> cache_type \<Rightarrow> cache_type \<Rightarrow> int \<Rightarrow> u64" where
  "per_tok m k v i = (let heads = HeadCountKV m i
     in rowBytes (i64 (heads * m_HeadDimK m)) k + rowBytes (i64 (heads * m_HeadDimV m)) v)"

definition swa_span :: "'a model_shape_scheme \<Rightarrow> flags \<Rightarrow> int \<Rightarrow> int" where
  "swa_span m f kvCtx = (case m_SWAWindow m of
       Some w \<Rightarrow> if w > 0 \<and> i64 (w + f_NUbatch f) < kvCtx then i64 (w + f_NUbatch f) else kvCtx
     | None \<Rightarrow> kvCtx)"

definition kv_step :: "'a model_shape_scheme \<Rightarrow> cache_type \<Rightarrow> cache_type \<Rightarrow> int \<Rightarrow> int \<Rightarrow> bool
    \<Rightarrow> nat \<Rightarrow> kv_plan \<Rightarrow> kv_plan" where
  "kv_step m k v kvCtx swaSpan applied i p =
     (let isSWA = (applied \<and> IsSWALayer (int i) (m_SWAWindow m) (m_SWAPattern m));
          b = per_tok m k v (int i) * u64_of_int (if isSWA then swaSpan else kvCtx);
          q = p\<lparr>kp_layers := kp_layers p @ [\<lparr>kl_bytes = b, kl_swa = isSWA\<rparr>]\<rparr>
      in if isSWA then q\<lparr>kp_swaLayers := kp_swaLayers p + 1, kp_swa := kp_swa p + b\<rparr>
         else q\<lparr>kp_full := kp_full p + b\<rparr>)"

definition planKV :: "'a model_shape_scheme \<Rightarrow> flags \<Rightarrow> cache_type \<Rightarrow> cache_type \<Rightarrow> kv_plan" where
  "planKV m f k v =
     (let kvCtx = PadCtx (f_NCtx f);
          swaSpan = swa_span m f kvCtx;
          applied = snd (SWALayers (m_NLayer m) (m_SWAWindow m) (m_SWAPattern m))
      in fold (kv_step m k v kvCtx swaSpan applied) [0..<nat (m_NLayer m)]
           \<lparr>kp_layers = [], kp_full = 0, kp_swa = 0, kp_swaLayers = 0, kp_windowApplied = applied\<rparr>)"

text \<open>The bytes of a layer, for a plan that may be shorter than the weights.\<close>

definition kv_layerBytes :: "kv_plan \<Rightarrow> int \<Rightarrow> u64" where
  "kv_layerBytes p i = (if i < 0 \<or> i \<ge> int (length (kp_layers p)) then 0 else kl_bytes (kp_layers p ! nat i))"

subsection \<open>Calibration\<close>

definition CalibrationWindow :: nat where "CalibrationWindow = 20"
definition MinSamples :: nat where "MinSamples = 3"
definition MinRatio :: f64 where "MinRatio = 1 / 2"
definition MaxRatio :: f64 where "MaxRatio = 2"

record observation =
  o_PredictedBytes :: u64
  o_ActualBytes :: u64
  o_OOM :: bool

record calibration =
  cb_Ratio :: f64
  cb_Samples :: nat
  cb_Applied :: bool
  cb_Clamped :: bool

definition median :: "f64 list \<Rightarrow> f64" where
  "median xs = (let n = length xs in
     if n = 0 then 0
     else if n mod 2 = 1 then xs ! (n div 2)
     else f_div (f_add (xs ! (n div 2 - 1)) (xs ! (n div 2))) 2)"

definition usable :: "observation \<Rightarrow> bool" where
  "usable ob \<longleftrightarrow> \<not> (o_OOM ob \<or> o_PredictedBytes ob = 0 \<or> o_ActualBytes ob = 0)"

definition ratio_of :: "observation \<Rightarrow> f64" where
  "ratio_of ob = f_div (f_of_u64 (o_ActualBytes ob)) (f_of_u64 (o_PredictedBytes ob))"

definition NewCalibration :: "observation list \<Rightarrow> calibration" where
  "NewCalibration obs =
     (let ratios = map ratio_of (filter usable (take CalibrationWindow obs))
      in if length ratios < MinSamples
         then \<lparr>cb_Ratio = 0, cb_Samples = length ratios, cb_Applied = False, cb_Clamped = False\<rparr>
         else let med = median (sort ratios);
                  c = \<lparr>cb_Ratio = med, cb_Samples = length ratios, cb_Applied = True, cb_Clamped = False\<rparr>
              in if med < MinRatio then c\<lparr>cb_Ratio := MinRatio, cb_Clamped := True\<rparr>
                 else if med > MaxRatio then c\<lparr>cb_Ratio := MaxRatio, cb_Clamped := True\<rparr>
                 else c)"

definition ApplyKAct :: "calibration \<Rightarrow> f64 \<Rightarrow> f64" where
  "ApplyKAct c k = (if \<not> cb_Applied c \<or> cb_Ratio c \<le> 0 then k else f_mul k (cb_Ratio c))"

definition ApplyOverhead :: "calibration \<Rightarrow> u64 \<Rightarrow> u64" where
  "ApplyOverhead c oh = (if \<not> cb_Applied c \<or> cb_Ratio c \<le> 0 then oh
     else u64_of_f (f_mul (f_of_u64 oh) (cb_Ratio c)))"

subsection \<open>Compute buffers\<close>

definition DefaultKAct :: f64 where "DefaultKAct = 6"
definition OverheadPerGPUBytes :: u64 where "OverheadPerGPUBytes = push_bit 20 400"
definition AttnCtxCap :: int where "AttnCtxCap = 4096"

text \<open>The table of multipliers per architecture is empty.\<close>

definition kActByArch :: "(string \<times> f64) list" where "kActByArch = []"

definition kActFor :: "string \<Rightarrow> f64" where
  "kActFor arch = (case map_of kActByArch arch of Some k \<Rightarrow> k | None \<Rightarrow> DefaultKAct)"

record compute_parts =
  cp_logits :: u64
  cp_act :: u64
  cp_attn :: u64
  cp_moe :: u64

definition cp_total :: "compute_parts \<Rightarrow> u64" where
  "cp_total c = cp_logits c + cp_act c + cp_attn c + cp_moe c"

definition mul :: "u64 list \<Rightarrow> u64" where
  "mul vs = fold (\<lambda>v out. out * v) vs 1"

definition computeBuffers :: "'a model_shape_scheme \<Rightarrow> flags \<Rightarrow> calibration \<Rightarrow> compute_parts" where
  "computeBuffers m f cal =
     (let width = (if f_Embedding f then m_NEmbd m else m_NVocab m);
          logitsRows = (if f_NParallel f > f_NUbatch f then f_NParallel f else f_NUbatch f);
          kAct = ApplyKAct cal (kActFor (m_Arch m))
      in \<lparr>cp_logits = mul [u64_of_int width, u64_of_int logitsRows, 4],
          cp_act = u64_of_f (f_mul (f_mul (f_mul kAct (f_of_int (f_NUbatch f))) (f_of_int (m_NEmbd m))) 4),
          cp_attn =
            (if FlashAttnOn f
             then mul [2, u64_of_int (f_NUbatch f), u64_of_int (m_NHead m), u64_of_int (m_HeadDimK m), 4]
             else let span = PadCtx (f_NCtx f);
                      capped = (if span > AttnCtxCap then AttnCtxCap else span)
                  in mul [u64_of_int (m_NHead m), u64_of_int (f_NUbatch f), u64_of_int capped, 4]),
          cp_moe = (if m_NExpert m > 0
             then mul [u64_of_int (m_NExpertUsed m), u64_of_int (f_NUbatch f), u64_of_int (m_NFF m), 4]
             else 0)\<rparr>)"

subsection \<open>Notes\<close>

text \<open>What the notes of a report say, without their wording.\<close>

datatype fit_note =
    UnknownCacheType string
  | VCacheNeedsFlash
  | FlashAutoSizedOff
  | NoTensorIndex
  | WindowIgnored int
  | VRAMNotRead
  | ProjectorAdds u64
  | DraftAllCharged u64 u64 int
  | DraftCharged u64 u64 int
  | AutoResolved int
  | OnlyMainDevice
  | CPUOnly
  | SpillUnmeasured u64
  | SpillTooLarge u64 u64
  | SomeDeviceShort
  | DeviceUnmeasured int string
  | DeviceShort int u64 bool
  | MostLayers int int
  | ShortContext int

subsection \<open>Draft model and projector\<close>

text \<open>How many of the draft's steps are offloaded, and whether the user pinned them.\<close>

definition draft_steps :: "'a model_shape_scheme \<Rightarrow> flags \<Rightarrow> int \<times> bool" where
  "draft_steps d f = (let steps = OffloadSteps d in
     case d_NGpuLayers (f_Draft f) of
       None \<Rightarrow> (steps, False)
     | Some n \<Rightarrow> (let n1 = (if n > steps then steps else n) in (if n1 < 0 then 0 else n1, True)))"

definition draft_flags_of :: "flags \<Rightarrow> flags" where
  "draft_flags_of f = f\<lparr>f_NCtx := (if d_CtxSize (f_Draft f) \<le> 0 then f_NCtx f else d_CtxSize (f_Draft f))\<rparr>"

definition extraCharge :: "main_shape \<Rightarrow> flags \<Rightarrow> cache_type \<Rightarrow> cache_type \<Rightarrow> u64 \<times> fit_note list" where
  "extraCharge m f k v =
     (let base = (if m_MmprojBytes m > 0 then m_MmprojBytes m else 0);
          notes = (if m_MmprojBytes m > 0 then [ProjectorAdds (m_MmprojBytes m)] else [])
      in case m_Draft m of
        None \<Rightarrow> (base, notes)
      | Some d \<Rightarrow>
        (case Layers d of (layer, other, _) \<Rightarrow>
          (case draft_steps d f of (n, pinned) \<Rightarrow>
            (let layer_weights = totalOf (take (nat n) layer);
                 weights = (if n > int (length layer) then layer_weights + other else layer_weights);
                 df = draft_flags_of f;
                 dkv = planKV d df k v;
                 kvBytes = totalOf (map kl_bytes (take (nat n) (kp_layers dkv)))
             in (base + (weights + kvBytes),
                 notes @ [if \<not> pinned then DraftAllCharged weights kvBytes (f_NCtx df)
                          else DraftCharged weights kvBytes n])))))"

end
