(* ===== verification/Fit_Place.thy ===== *)
theory Fit_Place
  imports Fit_Memory
begin

text \<open>
  Which device holds what (\<open>src/internal/fit/place.go\<close>): the three split modes deal the weights
  and the cache of the offloaded layers to the devices and leave the rest to the host. The lemmas
  show that nothing is lost or counted twice, in the arithmetic of the code.
\<close>

record placement =
  pl_weights :: "u64 list"
  pl_kv :: "u64 list"
  pl_extra :: "u64 list"
  pl_ramWeights :: u64
  pl_ramKV :: u64
  pl_ramExtra :: u64

definition deviceBytes :: "placement \<Rightarrow> nat \<Rightarrow> u64" where
  "deviceBytes p i = pl_weights p ! i + pl_kv p ! i + pl_extra p ! i"

definition spill :: "placement \<Rightarrow> u64" where
  "spill p = pl_ramWeights p + pl_ramKV p + pl_ramExtra p"

text \<open>\<open>xs[i] += b\<close>\<close>

definition add_at :: "'a::plus list \<Rightarrow> nat \<Rightarrow> 'a \<Rightarrow> 'a list" where
  "add_at xs i b = xs[i := xs ! i + b]"

subsection \<open>The split\<close>

definition splitWeights :: "nat \<Rightarrow> f64 list \<Rightarrow> f64 list" where
  "splitWeights n ts =
     (let out = map (\<lambda>i. if i < length ts \<and> ts ! i > 0 then ts ! i else 0) [0..<n];
          all = fold (\<lambda>v s. f_add s v) out 0
      in if all \<le> 0 then map (\<lambda>i. f_div 1 (f_of_int (int n))) [0..<n]
         else map (\<lambda>v. f_div v all) out)"

fun running :: "f64 \<Rightarrow> f64 list \<Rightarrow> f64 list" where
  "running acc [] = []"
| "running acc (v # w) = f_add acc v # running (f_add acc v) w"

definition cumulative :: "f64 list \<Rightarrow> f64 list" where
  "cumulative w = (let out = running 0 w in if out = [] then [] else out[length out - 1 := 1])"

fun first_above :: "f64 \<Rightarrow> f64 list \<Rightarrow> nat option" where
  "first_above x [] = None"
| "first_above x (c # cs) = (if x < c then Some 0 else map_option Suc (first_above x cs))"

definition layerDevice :: "int \<Rightarrow> int \<Rightarrow> f64 list \<Rightarrow> nat" where
  "layerDevice i nOffload cum =
     (if cum = [] \<or> nOffload \<le> 0 then 0
      else case first_above (f_div (f_of_int i) (f_of_int nOffload)) cum of
        Some g \<Rightarrow> g
      | None \<Rightarrow> length cum - 1)"

definition share :: "u64 \<Rightarrow> f64 list \<Rightarrow> u64 list" where
  "share t w = (if w = [] then []
     else let parts = map (\<lambda>x. u64_of_f (f_mul (f_of_u64 t) x)) (butlast w)
          in parts @ [t - totalOf parts])"

subsection \<open>Placement\<close>

text \<open>A layer or the rest that stays on the host.\<close>

definition to_ram :: "u64 \<Rightarrow> u64 \<Rightarrow> placement \<Rightarrow> placement" where
  "to_ram w k p = p\<lparr>pl_ramWeights := pl_ramWeights p + w, pl_ramKV := pl_ramKV p + k\<rparr>"

definition row_step :: "u64 list \<Rightarrow> kv_plan \<Rightarrow> int \<Rightarrow> f64 list \<Rightarrow> nat \<Rightarrow> nat \<Rightarrow> placement \<Rightarrow> placement" where
  "row_step lb kv offload w mg i p =
     (if int i < offload
      then p\<lparr>pl_weights := map2 (+) (pl_weights p) (share (lb ! i) w),
             pl_kv := add_at (pl_kv p) mg (kv_layerBytes kv (int i))\<rparr>
      else to_ram (lb ! i) (kv_layerBytes kv (int i)) p)"

definition none_step :: "u64 list \<Rightarrow> kv_plan \<Rightarrow> int \<Rightarrow> nat \<Rightarrow> nat \<Rightarrow> placement \<Rightarrow> placement" where
  "none_step lb kv offload mg i p =
     (if int i < offload
      then p\<lparr>pl_weights := add_at (pl_weights p) mg (lb ! i),
             pl_kv := add_at (pl_kv p) mg (kv_layerBytes kv (int i))\<rparr>
      else to_ram (lb ! i) (kv_layerBytes kv (int i)) p)"

text \<open>The state of the loop of a layer split: the placement and the device of the last layer.\<close>

definition layer_step :: "u64 list \<Rightarrow> kv_plan \<Rightarrow> int \<Rightarrow> f64 list \<Rightarrow> nat
    \<Rightarrow> placement \<times> nat \<Rightarrow> placement \<times> nat" where
  "layer_step lb kv offload cum i ps = (case ps of (p, latest) \<Rightarrow>
     (if int i < offload
      then let g = layerDevice (int i) offload cum
           in (p\<lparr>pl_weights := add_at (pl_weights p) g (lb ! i),
                 pl_kv := add_at (pl_kv p) g (kv_layerBytes kv (int i))\<rparr>, g)
      else (to_ram (lb ! i) (kv_layerBytes kv (int i)) p, latest)))"

definition main_index :: "nat \<Rightarrow> int \<Rightarrow> nat" where
  "main_index nd mg = nat (if mg \<ge> int nd then int nd - 1 else mg)"

definition empty_placement :: "nat \<Rightarrow> placement" where
  "empty_placement nd = \<lparr>pl_weights = replicate nd 0, pl_kv = replicate nd 0, pl_extra = replicate nd 0,
     pl_ramWeights = 0, pl_ramKV = 0, pl_ramExtra = 0\<rparr>"

definition place :: "nat \<Rightarrow> flags \<Rightarrow> u64 list \<Rightarrow> u64 \<Rightarrow> kv_plan \<Rightarrow> int \<Rightarrow> placement" where
  "place nd f lb other kv n =
     (let p0 = empty_placement nd;
          nLayer = length lb;
          offload = min n (int nLayer);
          mg = main_index nd (f_MainGPU f)
      in if nd = 0
         then to_ram other 0 (fold (\<lambda>i. to_ram (lb ! i) (kv_layerBytes kv (int i))) [0..<nLayer] p0)
         else if f_SplitMode f = SplitRow
         then let w = splitWeights nd (f_TensorSplit f);
                  p = fold (row_step lb kv offload w mg) [0..<nLayer] p0
              in if n > int nLayer
                 then p\<lparr>pl_weights := map2 (+) (pl_weights p) (share other w)\<rparr>
                 else to_ram other 0 p
         else if f_SplitMode f = SplitNone
         then let p = fold (none_step lb kv offload mg) [0..<nLayer] p0
              in if n > int nLayer
                 then p\<lparr>pl_weights := add_at (pl_weights p) mg other\<rparr>
                 else to_ram other 0 p
         else let cum = cumulative (splitWeights nd (f_TensorSplit f))
              in (case fold (layer_step lb kv offload cum) [0..<nLayer] (p0, 0) of (p, latest) \<Rightarrow>
                   if n > int nLayer
                   then p\<lparr>pl_weights := add_at (pl_weights p) latest other\<rparr>
                   else to_ram other 0 p))"

subsection \<open>Shapes\<close>

lemma length_add_at [simp]: "length (add_at xs i b) = length xs"
  by (simp add: add_at_def)

lemma sum_add_at:
  fixes xs :: "'a::comm_monoid_add list"
  shows "i < length xs \<Longrightarrow> sum_list (add_at xs i b) = sum_list xs + b"
  by (induction xs arbitrary: i) (auto simp: add_at_def ac_simps split: nat.splits)

lemma length_splitWeights [simp]: "length (splitWeights n ts) = n"
  by (simp add: splitWeights_def Let_def)

lemma length_running [simp]: "length (running acc w) = length w"
  by (induction w arbitrary: acc) simp_all

lemma length_cumulative [simp]: "length (cumulative w) = length w"
  using length_running [of 0 w] by (auto simp: cumulative_def Let_def simp del: length_running)

lemma length_share [simp]: "length (share t w) = length w"
  by (cases w) (simp_all add: share_def Let_def)

lemma first_above_less: "first_above x cs = Some g \<Longrightarrow> g < length cs"
  by (induction cs arbitrary: g) (auto split: if_splits)

lemma layerDevice_less: "cum \<noteq> [] \<Longrightarrow> layerDevice i k cum < length cum"
  by (auto simp: layerDevice_def dest: first_above_less split: option.splits)

lemma main_index_less: "0 < nd \<Longrightarrow> 0 \<le> mg \<Longrightarrow> main_index nd mg < nd"
  by (auto simp: main_index_def)

text \<open>The parts of a share add up to the whole, whatever the rounding.\<close>

lemma sum_share: "w \<noteq> [] \<Longrightarrow> sum_list (share t w) = t"
  by (simp add: share_def Let_def totalOf_sum)

lemma sum_map2_add:
  fixes xs ys :: "'a::comm_monoid_add list"
  shows "length xs = length ys \<Longrightarrow> sum_list (map2 (+) xs ys) = sum_list xs + sum_list ys"
  by (induction xs ys rule: list_induct2) (simp_all add: ac_simps)

subsection \<open>Nothing is lost\<close>

text \<open>Every list has one entry per device, and the weights and the cache dealt so far add up to
  those of the layers seen so far.\<close>

definition dealt :: "nat \<Rightarrow> u64 \<Rightarrow> u64 \<Rightarrow> placement \<Rightarrow> bool" where
  "dealt nd w k p \<longleftrightarrow> length (pl_weights p) = nd \<and> length (pl_kv p) = nd \<and> pl_extra p = replicate nd 0
     \<and> sum_list (pl_weights p) + pl_ramWeights p = w \<and> sum_list (pl_kv p) + pl_ramKV p = k
     \<and> pl_ramExtra p = 0"

lemma dealt_empty: "dealt nd 0 0 (empty_placement nd)"
  by (simp add: dealt_def empty_placement_def sum_list_replicate)

lemma dealt_ram: "dealt nd w k p \<Longrightarrow> dealt nd (w + a) (k + b) (to_ram a b p)"
  by (auto simp: dealt_def to_ram_def ac_simps)

lemma dealt_at:
  assumes "dealt nd w k p" "g < nd" "h < nd"
  shows "dealt nd (w + a) (k + b) (p\<lparr>pl_weights := add_at (pl_weights p) g a, pl_kv := add_at (pl_kv p) h b\<rparr>)"
  using assms by (auto simp: dealt_def sum_add_at ac_simps)

lemma dealt_share:
  assumes "dealt nd w k p" "length v = nd" "h < nd"
  shows "dealt nd (w + a) (k + b)
    (p\<lparr>pl_weights := map2 (+) (pl_weights p) (share a v), pl_kv := add_at (pl_kv p) h b\<rparr>)"
proof -
  have "v \<noteq> []" using assms by auto
  then show ?thesis using assms by (auto simp: dealt_def sum_add_at sum_share sum_map2_add ac_simps)
qed

definition kv_sum :: "kv_plan \<Rightarrow> nat \<Rightarrow> u64" where
  "kv_sum kv n = sum_list (map (\<lambda>i. kv_layerBytes kv (int i)) [0..<n])"

lemma dealt_fold:
  assumes "\<And>i w k p. i < n \<Longrightarrow> dealt nd w k p
      \<Longrightarrow> dealt nd (w + lb ! i) (k + kv_layerBytes kv (int i)) (step i p)"
    and "dealt nd 0 0 p0" and "n \<le> length lb"
  shows "dealt nd (sum_list (take n lb)) (kv_sum kv n) (fold step [0..<n] p0)"
  using assms(1,3)
proof (induction n)
  case 0
  then show ?case using assms(2) by (simp add: kv_sum_def)
next
  case (Suc n)
  then show ?case by (simp add: kv_sum_def take_Suc_conv_app_nth)
qed

lemma dealt_fold_pair:
  assumes "\<And>i w k p l. i < n \<Longrightarrow> dealt nd w k p \<Longrightarrow> l < nd
      \<Longrightarrow> dealt nd (w + lb ! i) (k + kv_layerBytes kv (int i)) (fst (step i (p, l))) \<and> snd (step i (p, l)) < nd"
    and "dealt nd 0 0 p0" "0 < nd" and "n \<le> length lb"
  shows "dealt nd (sum_list (take n lb)) (kv_sum kv n) (fst (fold step [0..<n] (p0, 0)))
    \<and> snd (fold step [0..<n] (p0, 0)) < nd"
  using assms(1,4)
proof (induction n)
  case 0
  then show ?case using assms(2,3) by (simp add: kv_sum_def)
next
  case (Suc n)
  let ?s = "fold step [0..<n] (p0, 0)"
  have "dealt nd (sum_list (take n lb)) (kv_sum kv n) (fst ?s)" "snd ?s < nd"
    using Suc by simp_all
  from Suc.prems(1) [of n "sum_list (take n lb)" "kv_sum kv n" "fst ?s" "snd ?s", OF _ this]
  show ?case using Suc.prems(2) by (simp add: kv_sum_def take_Suc_conv_app_nth)
qed

theorem place_dealt:
  assumes "0 \<le> f_MainGPU f"
  shows "dealt nd (sum_list lb + other) (kv_sum kv (length lb)) (place nd f lb other kv n)"
proof (cases "nd = 0")
  case True
  have "dealt 0 (sum_list (take (length lb) lb)) (kv_sum kv (length lb))
      (fold (\<lambda>i. to_ram (lb ! i) (kv_layerBytes kv (int i))) [0..<length lb] (empty_placement 0))"
    by (rule dealt_fold) (simp_all add: dealt_ram dealt_empty)
  from dealt_ram [OF this, of other 0] True show ?thesis by (simp add: place_def)
next
  case False
  define off where "off = min n (int (length lb))"
  let ?mg = "main_index nd (f_MainGPU f)"
  let ?w = "splitWeights nd (f_TensorSplit f)"
  have mg: "?mg < nd" using False assms by (intro main_index_less) simp_all
  have kv0: "add_at ks g 0 = ks" for ks :: "u64 list" and g by (simp add: add_at_def)
  consider (row) "f_SplitMode f = SplitRow" | (none) "f_SplitMode f = SplitNone"
    | (layer) "f_SplitMode f \<noteq> SplitRow" "f_SplitMode f \<noteq> SplitNone" by blast
  then show ?thesis
  proof cases
    case row
    have "dealt nd (sum_list (take (length lb) lb)) (kv_sum kv (length lb))
        (fold (row_step lb kv off ?w ?mg) [0..<length lb] (empty_placement nd))"
      using mg by (intro dealt_fold) (simp_all add: row_step_def dealt_ram dealt_share dealt_empty)
    from dealt_ram [OF this, of other 0] dealt_share [OF this, of ?w ?mg other 0] mg False row
    show ?thesis by (simp add: place_def Let_def off_def [symmetric] kv0)
  next
    case none
    have "dealt nd (sum_list (take (length lb) lb)) (kv_sum kv (length lb))
        (fold (none_step lb kv off ?mg) [0..<length lb] (empty_placement nd))"
      using mg by (intro dealt_fold) (simp_all add: none_step_def dealt_ram dealt_at dealt_empty)
    from dealt_ram [OF this, of other 0] dealt_at [OF this, of ?mg ?mg other 0] mg False none
    show ?thesis by (simp add: place_def Let_def off_def [symmetric] kv0 SplitRow_def SplitNone_def)
  next
    case layer
    let ?c = "cumulative ?w"
    have c: "layerDevice i k ?c < nd" for i k
      using layerDevice_less [of ?c i k] False by (metis length_0_conv length_cumulative length_splitWeights)
    let ?s = "fold (layer_step lb kv off ?c) [0..<length lb] (empty_placement nd, 0)"
    have "dealt nd (sum_list (take (length lb) lb)) (kv_sum kv (length lb)) (fst ?s) \<and> snd ?s < nd"
      using c False by (intro dealt_fold_pair) (simp_all add: layer_step_def dealt_ram dealt_at dealt_empty Let_def)
    then have s: "dealt nd (sum_list lb) (kv_sum kv (length lb)) (fst ?s)" "snd ?s < nd" by simp_all
    from dealt_ram [OF s(1), of other 0] dealt_at [OF s(1) s(2) s(2), of other 0] False layer
    show ?thesis by (simp add: place_def Let_def off_def [symmetric] kv0 split_beta)
  qed
qed

end
