(* ===== verification/Fit_Eval.thy ===== *)
theory Fit_Eval
  imports Fit_Place
begin

text \<open>
  The verdict (\<open>src/internal/fit/eval.go\<close>) and the whole calculator (\<open>estimate.go\<close>,
  \<open>report.go\<close>): one evaluation charges every device and tests it, the scan and the binary
  search repeat it, and \<open>Estimate\<close> assembles the report. The sentences of the notes and of the
  recommendation's reason are not part of the model; what they depend on is.
\<close>

subsection \<open>Reports\<close>

datatype verdict = VerdictFits | VerdictPartial | VerdictWontRun

datatype confidence = ConfidenceCalibrated | ConfidenceModeled

record device_report =
  dr_Index :: int
  dr_UUID :: string
  dr_Name :: string
  dr_FreeBytes :: "u64 option"
  dr_TotalBytes :: "u64 option"
  dr_AssignedBytes :: u64
  dr_OK :: bool
  dr_ShortByBytes :: u64
  dr_WeightsBytes :: u64
  dr_KVBytes :: u64
  dr_ExtraBytes :: u64
  dr_OverheadBytes :: u64
  dr_MarginBytes :: u64
  dr_ReserveBytes :: u64

record evaluator =
  e_model :: main_shape
  e_flags :: flags
  e_devices :: "device list"
  e_layer :: "u64 list"
  e_other :: u64
  e_kv :: kv_plan
  e_k :: cache_type
  e_v :: cache_type
  e_calibration :: calibration
  e_compute :: u64
  e_overhead :: u64
  e_margin :: u64
  e_reserve :: u64
  e_extra :: u64
  e_host :: host

record evaluation =
  ev_perGPU :: "device_report list"
  ev_required :: u64
  ev_gpuWeights :: u64
  ev_gpuKV :: u64
  ev_spill :: u64
  ev_placeable :: bool
  ev_ramOK :: bool
  ev_worst :: int

subsection \<open>One evaluation\<close>

text \<open>The placement with the draft model and the projector on the main device.\<close>

definition charge :: "evaluator \<Rightarrow> int \<Rightarrow> placement" where
  "charge e n =
     (let nd = length (e_devices e);
          p = place nd (e_flags e) (e_layer e) (e_other e) (e_kv e) n;
          mg = main_index nd (f_MainGPU (e_flags e))
      in if e_extra e > 0
         then if n > 0 \<and> nd > 0
              then p\<lparr>pl_extra := add_at (pl_extra p) mg (e_extra e)\<rparr>
              else p\<lparr>pl_ramExtra := pl_ramExtra p + e_extra e\<rparr>
         else p)"

text \<open>One device: nothing is asked of it when nothing is offloaded, and one that could not be
  measured is never in order otherwise.\<close>

definition budget :: "evaluator \<Rightarrow> u64 \<Rightarrow> u64" where
  "budget e free = (if free > e_reserve e then free - e_reserve e else 0)"

definition device_row :: "evaluator \<Rightarrow> placement \<Rightarrow> bool \<Rightarrow> nat \<Rightarrow> device_report" where
  "device_row e p onGPU i =
     (let d = e_devices e ! i;
          assigned = (if onGPU then deviceBytes p i + e_compute e + e_overhead e + e_margin e else 0);
          ok = (if \<not> onGPU then True else if dv_Known d then assigned \<le> budget e (dv_FreeBytes d) else False)
      in \<lparr>dr_Index = dv_Index d, dr_UUID = dv_UUID d, dr_Name = dv_Name d,
          dr_FreeBytes = (if dv_Known d then Some (dv_FreeBytes d) else None),
          dr_TotalBytes = (if dv_Known d then Some (dv_TotalBytes d) else None),
          dr_AssignedBytes = assigned,
          dr_OK = ok,
          dr_ShortByBytes = (if onGPU \<and> dv_Known d \<and> \<not> ok then assigned - budget e (dv_FreeBytes d) else 0),
          dr_WeightsBytes = pl_weights p ! i,
          dr_KVBytes = pl_kv p ! i,
          dr_ExtraBytes = pl_extra p ! i,
          dr_OverheadBytes = (if onGPU then e_overhead e else 0),
          dr_MarginBytes = (if onGPU then e_margin e else 0),
          dr_ReserveBytes = e_reserve e\<rparr>)"

text \<open>The device that is furthest over, the last of equals.\<close>

fun worst_of :: "int \<Rightarrow> u64 \<Rightarrow> int \<Rightarrow> device_report list \<Rightarrow> int" where
  "worst_of i short worst [] = worst"
| "worst_of i short worst (r # rs) =
     (if \<not> dr_OK r \<and> dr_ShortByBytes r \<ge> short
      then worst_of (i + 1) (dr_ShortByBytes r) i rs
      else worst_of (i + 1) short worst rs)"

definition ramFits :: "evaluator \<Rightarrow> u64 \<Rightarrow> bool" where
  "ramFits e sp = (if sp = 0 then True
     else if \<not> h_RAMKnown (e_host e) then True
     else f_of_u64 sp \<le> f_mul RAMHeadroom (f_of_u64 (h_RAMFreeBytes (e_host e))))"

definition eval_at :: "evaluator \<Rightarrow> int \<Rightarrow> evaluation" where
  "eval_at e n =
     (let p = charge e n;
          rows = map (device_row e p (n > 0)) [0..<length (e_devices e)]
      in \<lparr>ev_perGPU = rows,
          ev_required = totalOf (map dr_AssignedBytes rows),
          ev_gpuWeights = totalOf (pl_weights p),
          ev_gpuKV = totalOf (pl_kv p),
          ev_spill = spill p,
          ev_placeable = list_all dr_OK rows,
          ev_ramOK = ramFits e (spill p),
          ev_worst = worst_of 0 0 (- 1) rows\<rparr>)"

subsection \<open>The largest offload and the largest context\<close>

fun scan_down :: "evaluator \<Rightarrow> nat \<Rightarrow> nat" where
  "scan_down e 0 = 0"
| "scan_down e (Suc n) = (if ev_placeable (eval_at e (int (Suc n))) then Suc n else scan_down e n)"

text \<open>The scan answers 0 whether or not 0 is placeable.\<close>

definition maxPlaceable :: "evaluator \<Rightarrow> int" where
  "maxPlaceable e = (if e_devices e = [] then 0 else int (scan_down e (nat (OffloadSteps (e_model e)))))"

definition forCtx :: "evaluator \<Rightarrow> int \<Rightarrow> evaluator" where
  "forCtx e c = (let f = (e_flags e)\<lparr>f_NCtx := c\<rparr> in
     e\<lparr>e_flags := f, e_kv := planKV (e_model e) f (e_k e) (e_v e),
       e_compute := cp_total (computeBuffers (e_model e) f (e_calibration e))\<rparr>)"

definition forCache :: "evaluator \<Rightarrow> cache_type \<Rightarrow> cache_type \<Rightarrow> bool \<Rightarrow> evaluator" where
  "forCache e k v fa = (let f = (e_flags e)\<lparr>f_TypeK := ct_Name k, f_TypeV := ct_Name v,
       f_FlashAttn := (if fa then FlashOn else FlashOff)\<rparr> in
     e\<lparr>e_k := k, e_v := v, e_flags := f, e_kv := planKV (e_model e) f k v,
       e_compute := cp_total (computeBuffers (e_model e) f (e_calibration e))\<rparr>)"

definition full_at :: "evaluator \<Rightarrow> int \<Rightarrow> bool" where
  "full_at e c \<longleftrightarrow> ev_placeable (eval_at (forCtx e c) (OffloadSteps (e_model e)))"

text \<open>The binary search; the sum of its bounds may wrap, and the midpoint is then negative.\<close>

definition midpoint :: "nat \<Rightarrow> nat \<Rightarrow> int" where
  "midpoint lo hi = i64 (int lo + int hi) sdiv 2 sdiv KVPad * KVPad"

lemma sdiv_nonneg: "(0::int) \<le> a \<Longrightarrow> 0 < b \<Longrightarrow> a sdiv b = a div b"
  by (cases "a = 0") (simp_all add: signed_divide_int_def)

lemma sdiv_neg: "(a::int) \<le> 0 \<Longrightarrow> 0 < b \<Longrightarrow> a sdiv b \<le> 0"
  by (cases "a = 0") (simp_all add: signed_divide_int_def pos_imp_zdiv_nonneg_iff mult_le_0_iff)

lemma midpoint_less:
  assumes "midpoint lo hi > int lo" "lo < hi"
  shows "nat (midpoint lo hi) < hi"
proof -
  let ?s = "i64 (int lo + int hi)"
  have s: "?s \<le> int lo + int hi" by (rule i64_le) simp
  have pos: "0 \<le> ?s"
  proof (rule ccontr)
    assume "\<not> 0 \<le> ?s"
    then have "?s sdiv 2 \<le> 0" by (intro sdiv_neg) simp_all
    then have "?s sdiv 2 sdiv KVPad \<le> 0"
      by (rule sdiv_neg) (simp add: KVPad_def)
    then have "midpoint lo hi \<le> 0" by (simp add: midpoint_def KVPad_def)
    with assms(1) show False by simp
  qed
  then have "midpoint lo hi = ?s div 2 div KVPad * KVPad"
    by (simp add: midpoint_def sdiv_nonneg KVPad_def)
  also have "\<dots> \<le> ?s div 2" using mult_div_mod_eq [of KVPad "?s div 2"] pos_mod_sign [of KVPad "?s div 2"]
    by (simp add: KVPad_def) 
  also have "\<dots> < int hi" using s assms(2) by linarith
  finally show ?thesis using assms(2) by linarith
qed

function ctx_search :: "evaluator \<Rightarrow> nat \<Rightarrow> nat \<Rightarrow> nat" where
  "ctx_search e lo hi =
     (if int hi - int lo > KVPad
      then let mid = midpoint lo hi
           in if mid \<le> int lo then lo
              else if full_at e mid then ctx_search e (nat mid) hi
              else ctx_search e lo (nat mid)
      else lo)"
  by pat_completeness auto
termination
proof (relation "measure (\<lambda>(e, lo, hi). hi - lo)")
  fix e :: evaluator and lo hi :: nat and mid :: int
  assume a: "int hi - int lo > KVPad" and m: "mid = midpoint lo hi" "\<not> mid \<le> int lo"
  then have "nat mid < hi" using midpoint_less [of lo hi] by (simp add: KVPad_def)
  with m show "((e, nat mid, hi), (e, lo, hi)) \<in> measure (\<lambda>(e, lo, hi). hi - lo)"
    and "((e, lo, nat mid), (e, lo, hi)) \<in> measure (\<lambda>(e, lo, hi). hi - lo)"
    by auto
qed simp

declare ctx_search.simps [simp del]

definition ctx_ceiling :: "evaluator \<Rightarrow> int" where
  "ctx_ceiling e =
     (let h1 = (if m_NCtxTrain (e_model e) < f_NCtx (e_flags e) then f_NCtx (e_flags e) else m_NCtxTrain (e_model e));
          h2 = (if h1 < KVPad then KVPad else h1)
      in h2 sdiv KVPad * KVPad)"

definition maxCtxAtFullOffload :: "evaluator \<Rightarrow> int" where
  "maxCtxAtFullOffload e =
     (if e_devices e = [] then 0
      else let hi = ctx_ceiling e
           in if \<not> full_at e KVPad then 0
              else if full_at e hi then hi
              else int (ctx_search e (nat KVPad) (nat hi)))"

subsection \<open>The verdict\<close>

definition ramNote :: "evaluator \<Rightarrow> u64 \<Rightarrow> fit_note" where
  "ramNote e sp = (if \<not> h_RAMKnown (e_host e) then SpillUnmeasured sp
     else SpillTooLarge sp (h_RAMFreeBytes (e_host e)))"

definition shortNote :: "evaluator \<Rightarrow> evaluation \<Rightarrow> fit_note" where
  "shortNote e a =
     (if ev_worst a < 0 \<or> ev_worst a \<ge> int (length (ev_perGPU a)) then SomeDeviceShort
      else let r = ev_perGPU a ! nat (ev_worst a)
           in case dr_FreeBytes r of
                None \<Rightarrow> DeviceUnmeasured (dr_Index r) (dr_Name r)
              | Some _ \<Rightarrow> DeviceShort (dr_Index r) (dr_ShortByBytes r)
                  (length (e_devices e) > 1 \<and> f_SplitMode (e_flags e) \<noteq> SplitNone))"

definition verdict_of :: "evaluator \<Rightarrow> int \<Rightarrow> evaluation \<Rightarrow> fit_note list \<Rightarrow> verdict \<times> fit_note list" where
  "verdict_of e n a notes =
     (let steps = OffloadSteps (e_model e)
      in if e_devices e = []
         then let notes = notes @ [CPUOnly]
              in if ev_ramOK a then (VerdictPartial, notes)
                 else (VerdictWontRun, notes @ [ramNote e (ev_spill a)])
         else if ev_placeable a
         then if n \<ge> steps then (VerdictFits, notes)
              else if ev_ramOK a then (VerdictPartial, notes)
              else (VerdictWontRun, notes @ [ramNote e (ev_spill a)])
         else let notes = notes @ [shortNote e a];
                  best = maxPlaceable e;
                  alt = eval_at e best
              in if best < n \<and> ev_placeable alt \<and> ev_ramOK alt
                 then (VerdictPartial, notes @ [MostLayers best steps])
                 else (VerdictWontRun,
                       if ev_spill a > 0 \<and> \<not> ev_ramOK a then notes @ [ramNote e (ev_spill a)] else notes))"

subsection \<open>The recommendation\<close>

datatype reason = AllFits | QuantizedFits | BestOf int int | ContextReduced int | NothingOffloads

record recommendation =
  rc_NGpuLayers :: int
  rc_FlashAttn :: bool
  rc_TypeK :: string
  rc_TypeV :: string
  rc_NCtx :: int
  rc_Reason :: reason

definition MinRecommendedCtx :: int where "MinRecommendedCtx = 4096"

definition recommend :: "evaluator \<Rightarrow> int \<Rightarrow> cache_type \<Rightarrow> cache_type \<Rightarrow> flags \<Rightarrow> fit_note list
    \<Rightarrow> recommendation \<times> fit_note list" where
  "recommend e maxN k kv f notes =
     (let steps = OffloadSteps (e_model e);
          q8 = fst (LookupCacheType CacheTypeQ8_0);
          quant = forCache e q8 q8 True
      in if ev_placeable (eval_at e steps)
         then (\<lparr>rc_NGpuLayers = steps, rc_FlashAttn = FlashAttnOn f, rc_TypeK = ct_Name k,
                rc_TypeV = ct_Name kv, rc_NCtx = 0, rc_Reason = AllFits\<rparr>, notes)
         else if ev_placeable (eval_at quant steps)
         then (\<lparr>rc_NGpuLayers = steps, rc_FlashAttn = True, rc_TypeK = CacheTypeQ8_0,
                rc_TypeV = CacheTypeQ8_0, rc_NCtx = 0, rc_Reason = QuantizedFits\<rparr>, notes)
         else let qn = maxPlaceable quant; q = (qn > maxN);
                  best = (if q then qn else maxN)
              in if best > 0
                 then (\<lparr>rc_NGpuLayers = best, rc_FlashAttn = (if q then True else FlashAttnOn f),
                        rc_TypeK = (if q then CacheTypeQ8_0 else ct_Name k),
                        rc_TypeV = (if q then CacheTypeQ8_0 else ct_Name kv), rc_NCtx = 0,
                        rc_Reason = BestOf best steps\<rparr>, notes)
                 else let c = maxCtxAtFullOffload quant
                      in if c > 0
                         then (\<lparr>rc_NGpuLayers = steps, rc_FlashAttn = True, rc_TypeK = CacheTypeQ8_0,
                                rc_TypeV = CacheTypeQ8_0, rc_NCtx = c, rc_Reason = ContextReduced c\<rparr>,
                               if c < MinRecommendedCtx then notes @ [ShortContext c] else notes)
                         else (\<lparr>rc_NGpuLayers = 0, rc_FlashAttn = FlashAttnOn f, rc_TypeK = ct_Name k,
                                rc_TypeV = ct_Name kv, rc_NCtx = 0, rc_Reason = NothingOffloads\<rparr>, notes))"

end
