(* ===== verification/Fit_Estimate.thy ===== *)
theory Fit_Estimate
  imports Fit_Eval
begin

text \<open>
  \<open>Estimate\<close> of \<open>src/internal/fit/estimate.go\<close> and the report of \<open>report.go\<close>: the request is
  normalised, every term is sized, and the verdict and the recommendation are read off one
  evaluator.
\<close>

record request =
  rq_Model :: main_shape
  rq_Flags :: flags
  rq_Devices :: "device list"
  rq_Host :: host
  rq_Calibration :: calibration
  rq_ReserveBytesPerGPU :: u64
  rq_MarginMiB :: "int option"

record inputs =
  in_Arch :: string
  in_NLayer :: int
  in_NLayerSWA :: int
  in_NHeadKV :: "int list"
  in_HeadDimK :: int
  in_HeadDimV :: int
  in_NCtx :: int
  in_KVCtx :: int
  in_NUbatch :: int
  in_NBatch :: int
  in_NParallel :: int
  in_TypeK :: string
  in_TypeV :: string
  in_FlashAttn :: bool
  in_NExpert :: int
  in_NExpertUsed :: int
  in_NVocab :: int
  in_NEmbd :: int
  in_NFF :: int
  in_NHead :: int

record report =
  rp_Inputs :: inputs
  rp_WeightsBytes :: u64
  rp_WeightsOffloadedBytes :: u64
  rp_KVBytes :: u64
  rp_KVSWABytes :: u64
  rp_KVOffloadedBytes :: u64
  rp_ComputeBytes :: u64
  rp_ComputeLogitsBytes :: u64
  rp_ComputeActBytes :: u64
  rp_ComputeAttnBytes :: u64
  rp_ComputeMoEBytes :: u64
  rp_BackendOverheadBytes :: u64
  rp_MarginBytesPerGPU :: u64
  rp_MarginBytes :: u64
  rp_ReserveBytesPerGPU :: u64
  rp_ReserveBytes :: u64
  rp_RequiredVRAMBytes :: u64
  rp_PerGPU :: "device_report list"
  rp_SpillToRAMBytes :: u64
  rp_SystemRAMFreeBytes :: u64
  rp_SystemRAMKnown :: bool
  rp_Verdict :: verdict
  rp_NGpuLayers :: int
  rp_MaxNGpuLayers :: int
  rp_MaxCtxAtFullOffload :: int
  rp_PerSlotCtx :: int
  rp_Recommendation :: recommendation
  rp_Confidence :: confidence
  rp_Calibration :: calibration
  rp_VRAMUnknown :: bool
  rp_Notes :: "fit_note list"

definition participating :: "device list \<Rightarrow> flags \<Rightarrow> device list \<times> fit_note list" where
  "participating devs f =
     (if devs = [] \<or> f_SplitMode f \<noteq> SplitNone then (devs, [])
      else ([(devs ! main_index (length devs) (f_MainGPU f))\<lparr>dv_Index := 0\<rparr>], [OnlyMainDevice]))"

definition resolveNGL :: "flags \<Rightarrow> int \<Rightarrow> int \<Rightarrow> int \<times> bool" where
  "resolveNGL f steps maxN =
     (if f_NGL f = NGLAll then (steps, False)
      else if f_NGL f = NGLNone then (0, False)
      else if f_NGL f = NGLCount
      then (if f_NGLCount f > steps then steps else if f_NGLCount f < 0 then 0 else f_NGLCount f, False)
      else (maxN, True))"

definition headCounts :: "'a model_shape_scheme \<Rightarrow> int list" where
  "headCounts m = (if m_NLayer m \<le> 0 then [] else map (\<lambda>i. HeadCountKV m (int i)) [0..<nat (m_NLayer m)])"

text \<open>A cache type by name, with the fallback to f16.\<close>

definition cache_or_f16 :: "string \<Rightarrow> cache_type \<times> fit_note list" where
  "cache_or_f16 name = (case LookupCacheType name of (c, known) \<Rightarrow>
     if known then (c, []) else (fst (LookupCacheType CacheTypeF16), [UnknownCacheType name]))"

definition margin_bytes :: "int option \<Rightarrow> u64" where
  "margin_bytes mm = push_bit 20 (u64_of_int (case mm of
     Some n \<Rightarrow> if n \<ge> 0 then n else DefaultMarginMiB | None \<Rightarrow> DefaultMarginMiB))"

text \<open>The evaluator \<open>Estimate\<close> builds, from flags that are normalised.\<close>

definition evaluator_of :: "request \<Rightarrow> flags \<Rightarrow> cache_type \<Rightarrow> cache_type \<Rightarrow> evaluator" where
  "evaluator_of rq f k v =
     (let m = rq_Model rq in case Layers m of (layer, other, _) \<Rightarrow>
       \<lparr>e_model = m, e_flags = f, e_devices = fst (participating (rq_Devices rq) f), e_layer = layer,
        e_other = other, e_kv = planKV m f k v, e_k = k, e_v = v, e_calibration = rq_Calibration rq,
        e_compute = cp_total (computeBuffers m f (rq_Calibration rq)),
        e_overhead = ApplyOverhead (rq_Calibration rq) OverheadPerGPUBytes,
        e_margin = margin_bytes (rq_MarginMiB rq), e_reserve = rq_ReserveBytesPerGPU rq,
        e_extra = fst (extraCharge m f k v), e_host = rq_Host rq\<rparr>)"

text \<open>The notes before anything is placed, and whether one of them means a guess.\<close>

definition window_ignored :: "'a model_shape_scheme \<Rightarrow> kv_plan \<Rightarrow> fit_note list" where
  "window_ignored m kv = (case m_SWAWindow m of
       Some w \<Rightarrow> if w > 0 \<and> \<not> kp_windowApplied kv then [WindowIgnored w] else []
     | None \<Rightarrow> [])"

definition vram_unknown :: "device list \<Rightarrow> bool" where
  "vram_unknown devs \<longleftrightarrow> list_ex (\<lambda>d. \<not> dv_Known d) devs"

definition early_notes :: "request \<Rightarrow> flags \<Rightarrow> cache_type \<times> fit_note list \<Rightarrow> cache_type \<times> fit_note list
    \<Rightarrow> kv_plan \<Rightarrow> fit_note list" where
  "early_notes rq f k v kv =
     snd k @ snd v
     @ (if Quantized (fst v) \<and> \<not> FlashAttnOn f then [VCacheNeedsFlash] else [])
     @ (if f_FlashAttn f = FlashAuto then [FlashAutoSizedOff] else [])
     @ (if snd (snd (Layers (rq_Model rq))) then [] else [NoTensorIndex])
     @ window_ignored (rq_Model rq) kv
     @ snd (participating (rq_Devices rq) f)
     @ (if vram_unknown (fst (participating (rq_Devices rq) f)) then [VRAMNotRead] else [])
     @ snd (extraCharge (rq_Model rq) f (fst k) (fst v))"

definition guessed :: "request \<Rightarrow> flags \<Rightarrow> cache_type \<times> fit_note list \<Rightarrow> cache_type \<times> fit_note list
    \<Rightarrow> kv_plan \<Rightarrow> bool" where
  "guessed rq f k v kv \<longleftrightarrow> snd k \<noteq> [] \<or> snd v \<noteq> [] \<or> \<not> snd (snd (Layers (rq_Model rq)))
     \<or> window_ignored (rq_Model rq) kv \<noteq> [] \<or> vram_unknown (fst (participating (rq_Devices rq) f))"

definition inputs_of :: "'a model_shape_scheme \<Rightarrow> flags \<Rightarrow> cache_type \<Rightarrow> cache_type \<Rightarrow> kv_plan \<Rightarrow> inputs" where
  "inputs_of m f k v kv =
     \<lparr>in_Arch = m_Arch m, in_NLayer = m_NLayer m, in_NLayerSWA = kp_swaLayers kv,
      in_NHeadKV = headCounts m, in_HeadDimK = m_HeadDimK m, in_HeadDimV = m_HeadDimV m,
      in_NCtx = f_NCtx f, in_KVCtx = PadCtx (f_NCtx f), in_NUbatch = f_NUbatch f, in_NBatch = f_NBatch f,
      in_NParallel = f_NParallel f, in_TypeK = ct_Name k, in_TypeV = ct_Name v,
      in_FlashAttn = FlashAttnOn f, in_NExpert = m_NExpert m, in_NExpertUsed = m_NExpertUsed m,
      in_NVocab = m_NVocab m, in_NEmbd = m_NEmbd m, in_NFF = m_NFF m, in_NHead = m_NHead m\<rparr>"

definition report_of :: "request \<Rightarrow> flags \<Rightarrow> cache_type \<times> fit_note list \<Rightarrow> cache_type \<times> fit_note list \<Rightarrow> report" where
  "report_of rq f k v =
     (let m = rq_Model rq;
          kv = planKV m f (fst k) (fst v);
          cb = computeBuffers m f (rq_Calibration rq);
          e = evaluator_of rq f (fst k) (fst v);
          devs = e_devices e;
          maxN = maxPlaceable e
      in case resolveNGL f (OffloadSteps m) maxN of (n, auto_) \<Rightarrow>
        (let notes = early_notes rq f k v kv @ (if auto_ then [AutoResolved n] else []);
             a = eval_at e n
         in case verdict_of e n a notes of (verd, notes1) \<Rightarrow>
            case recommend e maxN (fst k) (fst v) f notes1 of (rec, notes2) \<Rightarrow>
            \<lparr>rp_Inputs = inputs_of m f (fst k) (fst v) kv,
             rp_WeightsBytes = totalOf (e_layer e) + e_other e,
             rp_WeightsOffloadedBytes = ev_gpuWeights a,
             rp_KVBytes = kp_full kv, rp_KVSWABytes = kp_swa kv, rp_KVOffloadedBytes = ev_gpuKV a,
             rp_ComputeBytes = cp_total cb, rp_ComputeLogitsBytes = cp_logits cb,
             rp_ComputeActBytes = cp_act cb, rp_ComputeAttnBytes = cp_attn cb, rp_ComputeMoEBytes = cp_moe cb,
             rp_BackendOverheadBytes = e_overhead e,
             rp_MarginBytesPerGPU = e_margin e,
             rp_MarginBytes = e_margin e * of_nat (length devs),
             rp_ReserveBytesPerGPU = rq_ReserveBytesPerGPU rq,
             rp_ReserveBytes = rq_ReserveBytesPerGPU rq * of_nat (length devs),
             rp_RequiredVRAMBytes = ev_required a, rp_PerGPU = ev_perGPU a, rp_SpillToRAMBytes = ev_spill a,
             rp_SystemRAMFreeBytes = h_RAMFreeBytes (rq_Host rq), rp_SystemRAMKnown = h_RAMKnown (rq_Host rq),
             rp_Verdict = verd, rp_NGpuLayers = n, rp_MaxNGpuLayers = maxN,
             rp_MaxCtxAtFullOffload = maxCtxAtFullOffload e, rp_PerSlotCtx = PerSlotCtx f,
             rp_Recommendation = rec,
             rp_Confidence = (if cb_Applied (rq_Calibration rq) \<and> \<not> guessed rq f k v kv
                              then ConfidenceCalibrated else ConfidenceModeled),
             rp_Calibration = rq_Calibration rq, rp_VRAMUnknown = vram_unknown devs, rp_Notes = notes2\<rparr>))"

text \<open>\<open>make\<close> panics on a negative layer count, of the model or of its draft.\<close>

definition Estimate :: "request \<Rightarrow> report option" where
  "Estimate rq =
     (if m_NLayer (rq_Model rq) < 0
         \<or> (case m_Draft (rq_Model rq) of None \<Rightarrow> False | Some d \<Rightarrow> m_NLayer d < 0)
      then None
      else let f = Normalize (rq_Flags rq)
           in Some (report_of rq f (cache_or_f16 (f_TypeK f)) (cache_or_f16 (f_TypeV f))))"

end
