(* ===== verification/Fit_Fits.thy ===== *)
theory Fit_Fits
  imports Fit_Estimate
begin

text \<open>
  What a verdict promises. \<open>fits\<close> puts every byte of the model, its cache and its buffers on
  devices that were measured and have the room beside the reserve; what is not on a device is
  counted for the host; the correction learned from earlier loads stays within its bounds.
\<close>

subsection \<open>Calibration\<close>

lemma NewCalibration_ratio:
  "cb_Applied (NewCalibration obs) \<Longrightarrow> MinRatio \<le> cb_Ratio (NewCalibration obs)
     \<and> cb_Ratio (NewCalibration obs) \<le> MaxRatio"
  by (auto simp: NewCalibration_def Let_def MinRatio_def MaxRatio_def split: if_splits)

lemma overhead_const: "unat OverheadPerGPUBytes = 419430400"
  by (simp add: OverheadPerGPUBytes_def push_bit_eq_mult)

text \<open>The corrected overhead is between half and double the default.\<close>

lemma ApplyOverhead_bounds:
  "209715200 \<le> unat (ApplyOverhead (NewCalibration obs) OverheadPerGPUBytes)"
  "unat (ApplyOverhead (NewCalibration obs) OverheadPerGPUBytes) \<le> 838860800"
proof -
  let ?c = "NewCalibration obs" and ?oh = "ApplyOverhead (NewCalibration obs) OverheadPerGPUBytes"
  have "209715200 \<le> unat ?oh \<and> unat ?oh \<le> 838860800"
  proof (cases "cb_Applied ?c \<and> \<not> cb_Ratio ?c \<le> 0")
    case False
    then have "?oh = OverheadPerGPUBytes" by (auto simp: ApplyOverhead_def)
    then show ?thesis by (simp add: overhead_const)
  next
    case True
    then have r: "1 / 2 \<le> cb_Ratio ?c" "cb_Ratio ?c \<le> 2"
      using NewCalibration_ratio [of obs] by (simp_all add: MinRatio_def MaxRatio_def)
    have o1: "f_of_u64 OverheadPerGPUBytes = 419430400"
      unfolding f_of_u64_def overhead_const using fl_of_nat [of 419430400] by simp
    let ?x = "f_mul 419430400 (cb_Ratio ?c)"
    have "fl 209715200 \<le> ?x" "?x \<le> fl 838860800"
      unfolding f_mul_def using r by (intro fl_mono; simp)+
    then have x: "209715200 \<le> ?x" "?x \<le> 838860800"
      using fl_of_nat [of 209715200] fl_of_nat [of 838860800] by simp_all
    then have f: "209715200 \<le> \<lfloor>?x\<rfloor>" "\<lfloor>?x\<rfloor> \<le> 838860800"
      by (simp add: le_floor_iff) (use x in linarith)
    have "?oh = word_of_int \<lfloor>?x\<rfloor>" using True x by (simp add: ApplyOverhead_def o1 u64_of_f_def)
    then have "unat ?oh = nat \<lfloor>?x\<rfloor>" using f unat_u64_of_int [of "\<lfloor>?x\<rfloor>"] by (simp add: u64_of_int_def)
    then show ?thesis using f by linarith
  qed
  then show "209715200 \<le> unat ?oh" "unat ?oh \<le> 838860800" by simp_all
qed

subsection \<open>Full offload\<close>

lemma place_full:
  assumes "int (length lb) < n" "0 < nd"
  shows "pl_ramWeights (place nd f lb other kv n) = 0 \<and> pl_ramKV (place nd f lb other kv n) = 0"
proof -
  define P where "P p \<longleftrightarrow> pl_ramWeights p = 0 \<and> pl_ramKV p = 0" for p :: placement
  define off where "off = min n (int (length lb))"
  have off: "off = int (length lb)" using assms by (simp add: off_def)
  have "P (fold (row_step lb kv off w mg) [0..<length lb] (empty_placement nd))" for w mg
    by (rule fold_invariant [where Q = "\<lambda>i. int i < off"])
      (simp_all add: off P_def row_step_def empty_placement_def)
  moreover have "P (fold (none_step lb kv off mg) [0..<length lb] (empty_placement nd))" for mg
    by (rule fold_invariant [where Q = "\<lambda>i. int i < off"])
      (simp_all add: off P_def none_step_def empty_placement_def)
  moreover have "P (fst (fold (layer_step lb kv off cum) [0..<length lb] (empty_placement nd, 0)))" for cum
    by (rule fold_invariant [where Q = "\<lambda>i. int i < off" and P = "\<lambda>s. P (fst s)"])
      (auto simp: off P_def layer_step_def empty_placement_def Let_def)
  ultimately show ?thesis
    using assms by (simp add: place_def Let_def off_def [symmetric] P_def split_beta)
qed

lemma dealt_place: "0 \<le> f_MainGPU f \<Longrightarrow> dealt nd (sum_list lb + other) (kv_sum kv (length lb)) (place nd f lb other kv n)"
  by (rule place_dealt)

lemma charge_extra_sel [simp]:
  "pl_weights (charge e n) = pl_weights (place (length (e_devices e)) (e_flags e) (e_layer e) (e_other e) (e_kv e) n)"
  "pl_kv (charge e n) = pl_kv (place (length (e_devices e)) (e_flags e) (e_layer e) (e_other e) (e_kv e) n)"
  "pl_ramWeights (charge e n) = pl_ramWeights (place (length (e_devices e)) (e_flags e) (e_layer e) (e_other e) (e_kv e) n)"
  "pl_ramKV (charge e n) = pl_ramKV (place (length (e_devices e)) (e_flags e) (e_layer e) (e_other e) (e_kv e) n)"
  by (simp_all add: charge_def Let_def)

lemma length_charge:
  assumes "0 \<le> f_MainGPU (e_flags e)"
  shows "length (pl_weights (charge e n)) = length (e_devices e)"
    "length (pl_kv (charge e n)) = length (e_devices e)"
    "length (pl_extra (charge e n)) = length (e_devices e)"
  using dealt_place [OF assms, of "length (e_devices e)" "e_layer e" "e_other e" "e_kv e" n]
  by (simp_all add: dealt_def charge_def Let_def)

text \<open>Weights, cache and extras on the devices and on the host are together what was to place.\<close>

lemma charge_conserves:
  assumes "0 \<le> f_MainGPU (e_flags e)"
  shows "sum_list (pl_weights (charge e n)) + pl_ramWeights (charge e n) = sum_list (e_layer e) + e_other e"
    and "sum_list (pl_kv (charge e n)) + pl_ramKV (charge e n) = kv_sum (e_kv e) (length (e_layer e))"
    and "sum_list (pl_extra (charge e n)) + pl_ramExtra (charge e n) = e_extra e"
proof -
  let ?nd = "length (e_devices e)"
  let ?p = "place ?nd (e_flags e) (e_layer e) (e_other e) (e_kv e) n"
  have d: "dealt ?nd (sum_list (e_layer e) + e_other e) (kv_sum (e_kv e) (length (e_layer e))) ?p"
    by (rule dealt_place [OF assms])
  then show "sum_list (pl_weights (charge e n)) + pl_ramWeights (charge e n) = sum_list (e_layer e) + e_other e"
    "sum_list (pl_kv (charge e n)) + pl_ramKV (charge e n) = kv_sum (e_kv e) (length (e_layer e))"
    by (simp_all add: dealt_def)
  have m: "0 < ?nd \<Longrightarrow> main_index ?nd (f_MainGPU (e_flags e)) < ?nd"
    using assms by (rule_tac main_index_less)
  have z: "e_extra e = 0 \<or> e_extra e > 0" by (metis word_neq_0_conv)
  show "sum_list (pl_extra (charge e n)) + pl_ramExtra (charge e n) = e_extra e"
    using d m z by (auto simp: dealt_def charge_def Let_def sum_add_at sum_list_replicate)
qed

lemma charge_full:
  assumes "int (length (e_layer e)) < n" "e_devices e \<noteq> []" "0 \<le> f_MainGPU (e_flags e)"
  shows "spill (charge e n) = 0"
proof -
  have "0 < n" using assms(1) by linarith
  then have "pl_ramExtra (charge e n) = 0"
    using dealt_place [OF assms(3), of "length (e_devices e)" "e_layer e" "e_other e" "e_kv e" n] assms(2)
    by (auto simp: charge_def Let_def dealt_def)
  then show ?thesis
    using place_full [OF assms(1), of "length (e_devices e)"] assms(2) by (simp add: spill_def)
qed

subsection \<open>The cache, layer by layer\<close>

definition kv_layers_of :: "'a model_shape_scheme \<Rightarrow> flags \<Rightarrow> cache_type \<Rightarrow> cache_type \<Rightarrow> nat \<Rightarrow> kv_layer" where
  "kv_layers_of m f k v i =
     (let isSWA = (snd (SWALayers (m_NLayer m) (m_SWAWindow m) (m_SWAPattern m))
                   \<and> IsSWALayer (int i) (m_SWAWindow m) (m_SWAPattern m));
          ctx = PadCtx (f_NCtx f)
      in \<lparr>kl_bytes = per_tok m k v (int i) * u64_of_int (if isSWA then swa_span m f ctx else ctx), kl_swa = isSWA\<rparr>)"

lemma planKV_layers:
  "kp_layers (planKV m f k v) = map (kv_layers_of m f k v) [0..<nat (m_NLayer m)]"
  "kp_full (planKV m f k v) + kp_swa (planKV m f k v) = sum_list (map kl_bytes (kp_layers (planKV m f k v)))"
  "kp_swaLayers (planKV m f k v) = int (length (filter kl_swa (kp_layers (planKV m f k v))))"
proof -
  define ap where "ap = snd (SWALayers (m_NLayer m) (m_SWAWindow m) (m_SWAPattern m))"
  define q where "q n = fold (kv_step m k v (PadCtx (f_NCtx f)) (swa_span m f (PadCtx (f_NCtx f))) ap) [0..<n]
           \<lparr>kp_layers = [], kp_full = 0, kp_swa = 0, kp_swaLayers = 0, kp_windowApplied = ap\<rparr>" for n
  have e: "planKV m f k v = q (nat (m_NLayer m))"
    by (simp add: planKV_def Let_def q_def ap_def)
  have all: "kp_layers (q n) = map (kv_layers_of m f k v) [0..<n]
      \<and> kp_full (q n) + kp_swa (q n) = sum_list (map kl_bytes (kp_layers (q n)))
      \<and> kp_swaLayers (q n) = int (length (filter kl_swa (kp_layers (q n))))" for n
    by (induction n) (auto simp: q_def kv_step_def kv_layers_of_def Let_def ap_def ac_simps)
  then show "kp_layers (planKV m f k v) = map (kv_layers_of m f k v) [0..<nat (m_NLayer m)]"
    "kp_full (planKV m f k v) + kp_swa (planKV m f k v) = sum_list (map kl_bytes (kp_layers (planKV m f k v)))"
    "kp_swaLayers (planKV m f k v) = int (length (filter kl_swa (kp_layers (planKV m f k v))))"
    using all [of "nat (m_NLayer m)"] by (simp_all only: e)
qed

lemma kv_layerBytes_plan:
  "kv_layerBytes (planKV m f k v) (int i) = (if i < nat (m_NLayer m) then kl_bytes (kv_layers_of m f k v i) else 0)"
  by (auto simp: kv_layerBytes_def planKV_layers(1) zless_nat_eq_int_zless)

lemma kv_sum_plan: "kv_sum (planKV m f k v) (nat (m_NLayer m)) = kp_full (planKV m f k v) + kp_swa (planKV m f k v)"
proof -
  have "map (\<lambda>i. kv_layerBytes (planKV m f k v) (int i)) [0..<nat (m_NLayer m)]
      = map kl_bytes (kp_layers (planKV m f k v))"
    unfolding planKV_layers(1) map_map by (rule map_cong) (simp_all add: kv_layerBytes_plan)
  then show ?thesis by (simp only: kv_sum_def planKV_layers(2))
qed

end
