(* ===== verification/Fit_Claims.thy ===== *)
theory Fit_Claims
  imports Fit_Fits
begin

text \<open>
  The report as a whole: it accounts for every byte, and the verdict \<open>fits\<close> is never given to a
  configuration that a device has no room for.
\<close>

subsection \<open>Reading a report\<close>

abbreviation est_flags :: "request \<Rightarrow> flags" where
  "est_flags rq \<equiv> Normalize (rq_Flags rq)"

abbreviation est_k :: "request \<Rightarrow> cache_type" where
  "est_k rq \<equiv> fst (cache_or_f16 (f_TypeK (est_flags rq)))"

abbreviation est_v :: "request \<Rightarrow> cache_type" where
  "est_v rq \<equiv> fst (cache_or_f16 (f_TypeV (est_flags rq)))"

abbreviation est_eval :: "request \<Rightarrow> evaluator" where
  "est_eval rq \<equiv> evaluator_of rq (est_flags rq) (est_k rq) (est_v rq)"

lemma evaluator_of_sel [simp]:
  "e_model (evaluator_of rq f k v) = rq_Model rq"
  "e_flags (evaluator_of rq f k v) = f"
  "e_devices (evaluator_of rq f k v) = fst (participating (rq_Devices rq) f)"
  "e_layer (evaluator_of rq f k v) = fst (Layers (rq_Model rq))"
  "e_other (evaluator_of rq f k v) = fst (snd (Layers (rq_Model rq)))"
  "e_kv (evaluator_of rq f k v) = planKV (rq_Model rq) f k v"
  "e_compute (evaluator_of rq f k v) = cp_total (computeBuffers (rq_Model rq) f (rq_Calibration rq))"
  "e_overhead (evaluator_of rq f k v) = ApplyOverhead (rq_Calibration rq) OverheadPerGPUBytes"
  "e_margin (evaluator_of rq f k v) = margin_bytes (rq_MarginMiB rq)"
  "e_reserve (evaluator_of rq f k v) = rq_ReserveBytesPerGPU rq"
  "e_extra (evaluator_of rq f k v) = fst (extraCharge (rq_Model rq) f k v)"
  "e_host (evaluator_of rq f k v) = rq_Host rq"
  "e_k (evaluator_of rq f k v) = k" "e_v (evaluator_of rq f k v) = v"
  "e_calibration (evaluator_of rq f k v) = rq_Calibration rq"
  by (simp_all add: evaluator_of_def Let_def split_beta)

text \<open>The parts of a report that its properties use.\<close>

lemma Estimate_parts:
  assumes "Estimate rq = Some rp"
  obtains adv where
    "0 \<le> m_NLayer (rq_Model rq)"
    "resolveNGL (est_flags rq) (OffloadSteps (rq_Model rq)) (maxPlaceable (est_eval rq)) = (rp_NGpuLayers rp, adv)"
    "rp_PerGPU rp = ev_perGPU (eval_at (est_eval rq) (rp_NGpuLayers rp))"
    "rp_WeightsBytes rp = totalOf (e_layer (est_eval rq)) + e_other (est_eval rq)"
    "rp_WeightsOffloadedBytes rp = ev_gpuWeights (eval_at (est_eval rq) (rp_NGpuLayers rp))"
    "rp_KVBytes rp = kp_full (e_kv (est_eval rq))" "rp_KVSWABytes rp = kp_swa (e_kv (est_eval rq))"
    "rp_KVOffloadedBytes rp = ev_gpuKV (eval_at (est_eval rq) (rp_NGpuLayers rp))"
    "rp_SpillToRAMBytes rp = ev_spill (eval_at (est_eval rq) (rp_NGpuLayers rp))"
    "\<exists>notes. rp_Verdict rp = fst (verdict_of (est_eval rq) (rp_NGpuLayers rp) (eval_at (est_eval rq) (rp_NGpuLayers rp)) notes)"
    "\<exists>notes. rp_Recommendation rp = fst (recommend (est_eval rq) (maxPlaceable (est_eval rq)) (est_k rq) (est_v rq) (est_flags rq) notes)"
    "rp_MaxNGpuLayers rp = maxPlaceable (est_eval rq)"
    "rp_MaxCtxAtFullOffload rp = maxCtxAtFullOffload (est_eval rq)"
    "rp_ComputeBytes rp = e_compute (est_eval rq)"
proof -
  have n: "0 \<le> m_NLayer (rq_Model rq)" using assms by (auto simp: Estimate_def split: if_splits)
  have rp: "rp = report_of rq (est_flags rq) (cache_or_f16 (f_TypeK (est_flags rq))) (cache_or_f16 (f_TypeV (est_flags rq)))"
    using assms by (auto simp: Estimate_def Let_def split: if_splits)
  obtain na au where r: "resolveNGL (est_flags rq) (OffloadSteps (rq_Model rq)) (maxPlaceable (est_eval rq)) = (na, au)"
    by (cases "resolveNGL (est_flags rq) (OffloadSteps (rq_Model rq)) (maxPlaceable (est_eval rq))")
  obtain verd n1 where v: "verdict_of (est_eval rq) na (eval_at (est_eval rq) na)
      (early_notes rq (est_flags rq) (cache_or_f16 (f_TypeK (est_flags rq))) (cache_or_f16 (f_TypeV (est_flags rq)))
        (planKV (rq_Model rq) (est_flags rq) (est_k rq) (est_v rq)) @ (if au then [AutoResolved na] else [])) = (verd, n1)"
    by (metis surj_pair)
  obtain rc n2 where c: "recommend (est_eval rq) (maxPlaceable (est_eval rq)) (est_k rq) (est_v rq) (est_flags rq) n1 = (rc, n2)"
    by (metis surj_pair)
  note full = rp [unfolded report_of_def Let_def r v c prod.case]
  show thesis
    by (rule that [of au, OF n]) (simp_all add: full r v c, (metis v fst_conv), (metis c fst_conv))
qed

lemma eval_at_sel [simp]:
  "ev_perGPU (eval_at e n) = map (device_row e (charge e n) (n > 0)) [0..<length (e_devices e)]"
  "ev_gpuWeights (eval_at e n) = sum_list (pl_weights (charge e n))"
  "ev_gpuKV (eval_at e n) = sum_list (pl_kv (charge e n))"
  "ev_spill (eval_at e n) = spill (charge e n)"
  "ev_ramOK (eval_at e n) = ramFits e (spill (charge e n))"
  by (simp_all add: eval_at_def Let_def totalOf_sum)

lemma placeable_iff:
  "ev_placeable (eval_at e n) \<longleftrightarrow>
     (\<forall>i < length (e_devices e). dr_OK (device_row e (charge e n) (n > 0) i))"
  by (auto simp: eval_at_def Let_def list_all_iff)

lemma extra_column:
  assumes "0 \<le> f_MainGPU (e_flags e)"
  shows "map dr_ExtraBytes (ev_perGPU (eval_at e n)) = pl_extra (charge e n)"
  by (rule nth_equalityI) (simp_all add: length_charge [OF assms] device_row_def Let_def)

subsection \<open>Every byte is accounted for\<close>

lemma pair_up:
  fixes a b c :: u64
  shows "a + b + c + (x + y + z) = (a + x) + (b + y) + (c + z)"
  by simp

text \<open>
  C21. A report adds up. What it puts on the devices of the weights, the cache and the draft model
  and projector, and what it leaves for system RAM, is together exactly the weights, the two
  parts of the cache and the extras it sized, in every split mode and for every offload, and
  whatever the rounding of the tensor split.
\<close>

theorem a_report_accounts_for_every_byte:
  assumes "Estimate rq = Some rp" "m_NLayer (rq_Model rq) < 2 ^ 63 - 1"
  shows "rp_WeightsOffloadedBytes rp + rp_KVOffloadedBytes rp + sum_list (map dr_ExtraBytes (rp_PerGPU rp))
           + rp_SpillToRAMBytes rp
         = rp_WeightsBytes rp + (rp_KVBytes rp + rp_KVSWABytes rp)
           + fst (extraCharge (rq_Model rq) (est_flags rq) (est_k rq) (est_v rq))"
proof -
  from assms(1) show ?thesis
  proof (rule Estimate_parts)
    fix au
    let ?e = "est_eval rq" and ?n = "rp_NGpuLayers rp"
    assume nl: "0 \<le> m_NLayer (rq_Model rq)"
      and p: "rp_PerGPU rp = ev_perGPU (eval_at ?e ?n)"
      and w: "rp_WeightsBytes rp = totalOf (e_layer ?e) + e_other ?e"
      "rp_WeightsOffloadedBytes rp = ev_gpuWeights (eval_at ?e ?n)"
      and k: "rp_KVBytes rp = kp_full (e_kv ?e)" "rp_KVSWABytes rp = kp_swa (e_kv ?e)"
      "rp_KVOffloadedBytes rp = ev_gpuKV (eval_at ?e ?n)"
      and s: "rp_SpillToRAMBytes rp = ev_spill (eval_at ?e ?n)"
    have mg: "0 \<le> f_MainGPU (e_flags ?e)" by simp
    have len: "length (e_layer ?e) = nat (m_NLayer (rq_Model rq))"
      using length_Layers [OF nl assms(2)] by (cases "Layers (rq_Model rq)") simp
    have kv: "kv_sum (e_kv ?e) (length (e_layer ?e)) = kp_full (e_kv ?e) + kp_swa (e_kv ?e)"
      unfolding len by (simp add: kv_sum_plan)
    note c = charge_conserves [OF mg, of ?n, unfolded kv]
    show ?thesis
      unfolding p extra_column [OF mg] w k s eval_at_sel(2,3,4) totalOf_sum spill_def
      unfolding pair_up c evaluator_of_sel(11) ..
  qed
qed

subsection \<open>A verdict of fits\<close>

text \<open>What one device is charged, as a number.\<close>

definition charged :: "report \<Rightarrow> device_report \<Rightarrow> nat" where
  "charged rp r = unat (dr_WeightsBytes r) + unat (dr_KVBytes r) + unat (dr_ExtraBytes r)
     + unat (rp_ComputeBytes rp) + unat (dr_OverheadBytes r) + unat (dr_MarginBytes r)"

lemma unat_sum6:
  fixes a b c d x y :: u64
  assumes "unat a + unat b + unat c + unat d + unat x + unat y < 2 ^ 64"
  shows "unat (a + b + c + d + x + y) = unat a + unat b + unat c + unat d + unat x + unat y"
proof -
  have "a + b + c + d + x + y = of_nat (unat a + unat b + unat c + unat d + unat x + unat y)" by simp
  also have "unat \<dots> = unat a + unat b + unat c + unat d + unat x + unat y"
    using assms by (subst unat_of_nat) (simp add: take_bit_nat_eq_self)
  finally show ?thesis .
qed

lemma fits_iff:
  "fst (verdict_of e n (eval_at e n) notes) = VerdictFits
     \<longleftrightarrow> e_devices e \<noteq> [] \<and> ev_placeable (eval_at e n) \<and> n \<ge> OffloadSteps (e_model e)"
  by (auto simp: verdict_of_def Let_def)

text \<open>
  C17. The golden rule of the calculator. When a report says \<open>fits\<close>, every participating device was
  measured and has room for its weights, its cache, its share of the draft model and projector,
  the compute buffers, the backend's overhead and the margin, with the reserve left free beside
  them; and everything is on the devices, nothing is left for system RAM. The sums are sums of
  numbers, so no device is charged more than 16 EiB.
\<close>

theorem a_verdict_of_fits_is_true_of_every_device:
  assumes "Estimate rq = Some rp" "rp_Verdict rp = VerdictFits"
    and "m_NLayer (rq_Model rq) < 2 ^ 63 - 1" "rq_Calibration rq = NewCalibration obs"
    and "\<forall>r \<in> set (rp_PerGPU rp). charged rp r < 2 ^ 64"
  shows "list_all2 (\<lambda>d r. dv_Known d
             \<and> charged rp r + unat (rq_ReserveBytesPerGPU rq) \<le> unat (dv_FreeBytes d))
           (fst (participating (rq_Devices rq) (est_flags rq))) (rp_PerGPU rp)
         \<and> rp_WeightsOffloadedBytes rp = rp_WeightsBytes rp
         \<and> rp_KVOffloadedBytes rp = rp_KVBytes rp + rp_KVSWABytes rp
         \<and> rp_SpillToRAMBytes rp = 0"
proof -
  let ?e = "est_eval rq" and ?n = "rp_NGpuLayers rp"
  from assms(1) obtain adv nts where nl: "0 \<le> m_NLayer (rq_Model rq)"
    and p: "rp_PerGPU rp = ev_perGPU (eval_at ?e ?n)"
    and w: "rp_WeightsBytes rp = totalOf (e_layer ?e) + e_other ?e"
      "rp_WeightsOffloadedBytes rp = ev_gpuWeights (eval_at ?e ?n)"
    and k: "rp_KVBytes rp = kp_full (e_kv ?e)" "rp_KVSWABytes rp = kp_swa (e_kv ?e)"
      "rp_KVOffloadedBytes rp = ev_gpuKV (eval_at ?e ?n)"
    and s: "rp_SpillToRAMBytes rp = ev_spill (eval_at ?e ?n)"
    and c: "rp_ComputeBytes rp = e_compute ?e"
    and v: "rp_Verdict rp = fst (verdict_of ?e ?n (eval_at ?e ?n) nts)"
    by (elim Estimate_parts) blast
  have mg: "0 \<le> f_MainGPU (e_flags ?e)" by simp
  have len: "int (length (e_layer ?e)) = m_NLayer (rq_Model rq)"
    using length_Layers [OF nl assms(3)] nl by (cases "Layers (rq_Model rq)") simp
  from v assms(2) have f: "e_devices ?e \<noteq> []" "ev_placeable (eval_at ?e ?n)" "?n \<ge> OffloadSteps (rq_Model rq)"
    using fits_iff [of ?e ?n nts] by simp_all
  then have n: "int (length (e_layer ?e)) < ?n"
    using nl assms(3) by (simp only: len) (simp add: OffloadSteps_def i64_id)
  then have pos: "?n > 0" using len nl by linarith
  have sp: "spill (charge ?e ?n) = 0" by (rule charge_full [OF n f(1) mg])
  have ram: "pl_ramWeights (charge ?e ?n) = 0" "pl_ramKV (charge ?e ?n) = 0"
    using place_full [OF n, of "length (e_devices ?e)"] f(1) by simp_all
  have kv: "kv_sum (e_kv ?e) (length (e_layer ?e)) = kp_full (e_kv ?e) + kp_swa (e_kv ?e)"
    using kv_sum_plan [of "rq_Model rq"] len by (simp flip: len)
  note cons = charge_conserves [OF mg, of ?n, unfolded kv ram]
  have row: "dv_Known (e_devices ?e ! i) \<and> charged rp (device_row ?e (charge ?e ?n) True i)
      + unat (rq_ReserveBytesPerGPU rq) \<le> unat (dv_FreeBytes (e_devices ?e ! i))"
    if i: "i < length (e_devices ?e)" for i
  proof -
    let ?r = "device_row ?e (charge ?e ?n) True i" and ?d = "e_devices ?e ! i"
    have ok: "dr_OK ?r" using f(2) i pos unfolding placeable_iff by simp
    then have kn: "dv_Known ?d" by (auto simp: device_row_def Let_def split: if_splits)
    have "?r \<in> set (rp_PerGPU rp)" using i pos by (simp add: p)
    then have lt: "charged rp ?r < 2 ^ 64" using assms(5) by blast
    have as: "unat (dr_AssignedBytes ?r) = charged rp ?r"
      using unat_sum6 lt unfolding charged_def c by (simp add: device_row_def Let_def deviceBytes_def)
    have "209715200 \<le> unat (dr_OverheadBytes ?r)"
      using ApplyOverhead_bounds(1) [of obs] assms(4) by (simp add: device_row_def Let_def)
    then have big: "0 < charged rp ?r" by (simp add: charged_def)
    have "dr_AssignedBytes ?r \<le> budget ?e (dv_FreeBytes ?d)"
      using ok kn by (simp add: device_row_def Let_def)
    then have le: "charged rp ?r \<le> unat (budget ?e (dv_FreeBytes ?d))"
      using as by (simp add: word_le_nat_alt)
    with big have "e_reserve ?e < dv_FreeBytes ?d" by (auto simp: budget_def split: if_splits)
    then have "unat (budget ?e (dv_FreeBytes ?d)) = unat (dv_FreeBytes ?d) - unat (e_reserve ?e)"
      and "unat (e_reserve ?e) < unat (dv_FreeBytes ?d)"
      by (simp_all add: budget_def unat_sub word_less_nat_alt word_le_nat_alt)
    with le kn show ?thesis by simp
  qed
  have "list_all2 (\<lambda>d r. dv_Known d
             \<and> charged rp r + unat (rq_ReserveBytesPerGPU rq) \<le> unat (dv_FreeBytes d))
           (e_devices ?e) (rp_PerGPU rp)"
    using row pos by (simp add: list_all2_conv_all_nth p)
  then show ?thesis using cons sp w k s by (simp add: totalOf_sum)
qed

end
