(* ===== verification/Fit_Context.thy ===== *)
theory Fit_Context
  imports Fit_Claims
begin

text \<open>
  The binary search of \<open>maxCtxAtFullOffload\<close> against the definition it stands for: the largest
  padded context under the ceiling that fits with everything offloaded. The step from one to the
  other is that no charge shrinks when the context grows, as long as no sum of bytes wraps.
\<close>

subsection \<open>A longer context costs every device at least as much\<close>

lemma fold_upt_rel:
  assumes "R 0 a b" "\<And>i a b. i < n \<Longrightarrow> R i a b \<Longrightarrow> R (Suc i) (s1 i a) (s2 i b)"
  shows "R n (fold s1 [0..<n] a) (fold s2 [0..<n] b)"
  using assms by (induction n) simp_all

lemma to_ram_sel [simp]:
  "pl_weights (to_ram w k p) = pl_weights p" "pl_kv (to_ram w k p) = pl_kv p"
  "pl_extra (to_ram w k p) = pl_extra p"
  by (simp_all add: to_ram_def)

definition kv_le :: "nat \<Rightarrow> nat \<Rightarrow> u64 list \<Rightarrow> u64 list \<Rightarrow> bool" where
  "kv_le nd cap ks ks' \<longleftrightarrow> length ks = nd \<and> length ks' = nd
     \<and> (\<forall>g < nd. unat (ks ! g) \<le> unat (ks' ! g) \<and> unat (ks' ! g) \<le> cap)"

lemma kv_le_more: "kv_le nd cap ks ks' \<Longrightarrow> cap \<le> cap' \<Longrightarrow> kv_le nd cap' ks ks'"
  by (auto simp: kv_le_def intro: le_trans)

lemma unat_add_le: "unat (a + b :: u64) \<le> unat a + unat b"
  by (simp add: unat_word_ariths)

lemma kv_le_add:
  assumes "kv_le nd cap ks ks'" "unat b \<le> unat b'" "cap + unat b' < 2 ^ 64"
  shows "kv_le nd (cap + unat b') (add_at ks g b) (add_at ks' g b')"
proof -
  have "unat (ks ! g + b) \<le> unat (ks' ! g + b') \<and> unat (ks' ! g + b') \<le> cap + unat b'" if "g < nd"
  proof -
    have le: "unat (ks ! g) \<le> unat (ks' ! g)" "unat (ks' ! g) \<le> cap" using assms(1) that by (auto simp: kv_le_def)
    then have "unat (ks' ! g + b') = unat (ks' ! g) + unat b'"
      using assms(3) by (intro unat_add_no_carry) simp
    then show ?thesis using le assms(2) unat_add_le [of "ks ! g" b] by linarith
  qed
  then show ?thesis using assms(1)
    by (cases "g < nd") (auto simp: kv_le_def add_at_def nth_list_update intro: trans_le_add1)
qed

definition kv_top :: "kv_plan \<Rightarrow> nat \<Rightarrow> nat" where
  "kv_top kv n = (\<Sum>i < n. unat (kv_layerBytes kv (int i)))"

lemma kv_top_Suc: "kv_top kv (Suc n) = kv_top kv n + unat (kv_layerBytes kv (int n))"
  by (simp add: kv_top_def)

lemma kv_top_mono: "n \<le> k \<Longrightarrow> kv_top kv n \<le> kv_top kv k"
  unfolding kv_top_def by (rule sum_mono2) auto

lemma place_mono:
  assumes all_le: "\<forall>i < length lb. unat (kv_layerBytes kv (int i)) \<le> unat (kv_layerBytes kv' (int i))"
    and cap: "kv_top kv' (length lb) < 2 ^ 64" and nd: "0 < nd"
  shows "pl_weights (place nd (f\<lparr>f_NCtx := c\<rparr>) lb other kv n) = pl_weights (place nd (f\<lparr>f_NCtx := c'\<rparr>) lb other kv' n)
    \<and> kv_le nd (kv_top kv' (length lb)) (pl_kv (place nd (f\<lparr>f_NCtx := c\<rparr>) lb other kv n))
        (pl_kv (place nd (f\<lparr>f_NCtx := c'\<rparr>) lb other kv' n))
    \<and> pl_extra (place nd (f\<lparr>f_NCtx := c\<rparr>) lb other kv n) = pl_extra (place nd (f\<lparr>f_NCtx := c'\<rparr>) lb other kv' n)"
proof -
  have le: "i < length lb \<Longrightarrow> unat (kv_layerBytes kv (int i)) \<le> unat (kv_layerBytes kv' (int i))" for i
    using all_le by blast
  define off where "off = min n (int (length lb))"
  define R where "R i p p' \<longleftrightarrow> pl_weights p = pl_weights p' \<and> pl_extra p = pl_extra p'
      \<and> kv_le nd (kv_top kv' i) (pl_kv p) (pl_kv p')" for i and p p' :: placement
  have R0: "R 0 (empty_placement nd) (empty_placement nd)"
    by (simp add: R_def empty_placement_def kv_le_def)
  have room: "kv_top kv' i + unat (kv_layerBytes kv' (int i)) < 2 ^ 64" if "i < length lb" for i
    using kv_top_mono [of "Suc i" "length lb" kv'] cap that by (simp add: kv_top_Suc)
  have skip: "kv_le nd (kv_top kv' (Suc i)) ks ks'" if "kv_le nd (kv_top kv' i) ks ks'" for i ks ks'
    using that by (rule kv_le_more) (simp add: kv_top_Suc)
  have take: "kv_le nd (kv_top kv' (Suc i)) (add_at ks g (kv_layerBytes kv (int i))) (add_at ks' g (kv_layerBytes kv' (int i)))"
    if "kv_le nd (kv_top kv' i) ks ks'" "i < length lb" for i ks ks' g
    unfolding kv_top_Suc by (rule kv_le_add [OF that(1) le [OF that(2)] room [OF that(2)]])
  have row: "R (length lb) (fold (row_step lb kv off w mg) [0..<length lb] (empty_placement nd))
      (fold (row_step lb kv' off w mg) [0..<length lb] (empty_placement nd))" for w mg
    by (rule fold_upt_rel [where R = R, OF R0]) (auto simp: row_step_def R_def intro: take skip)
  have none: "R (length lb) (fold (none_step lb kv off mg) [0..<length lb] (empty_placement nd))
      (fold (none_step lb kv' off mg) [0..<length lb] (empty_placement nd))" for mg
    by (rule fold_upt_rel [where R = R, OF R0]) (auto simp: none_step_def R_def intro: take skip)
  have lay: "R (length lb) (fst (fold (layer_step lb kv off cum) [0..<length lb] (empty_placement nd, 0)))
      (fst (fold (layer_step lb kv' off cum) [0..<length lb] (empty_placement nd, 0)))
    \<and> snd (fold (layer_step lb kv off cum) [0..<length lb] (empty_placement nd, 0))
      = snd (fold (layer_step lb kv' off cum) [0..<length lb] (empty_placement nd, 0))" for cum
    by (rule fold_upt_rel [where R = "\<lambda>i s s'. R i (fst s) (fst s') \<and> snd s = snd s'"])
      (use R0 in \<open>auto simp: layer_step_def Let_def R_def intro: take skip split: prod.splits\<close>)
  show ?thesis
    using row none lay nd
    by (simp add: place_def Let_def off_def [symmetric] split_beta R_def to_ram_def)
qed

subsection \<open>The terms that depend on the context\<close>

text \<open>Nothing wraps up to the ceiling: neither the context, nor the window with its micro-batch,
  nor what any device is charged at the ceiling.\<close>

definition kv_need :: "evaluator \<Rightarrow> int \<Rightarrow> nat" where
  "kv_need e c = (\<Sum>i < nat (m_NLayer (e_model e)).
     unat (per_tok (e_model e) (e_k e) (e_v e) (int i)) * nat (PadCtx c))"

definition attn_need :: "evaluator \<Rightarrow> nat" where
  "attn_need e = (if FlashAttnOn (e_flags e) then 0
     else unat (u64_of_int (m_NHead (e_model e))) * unat (u64_of_int (f_NUbatch (e_flags e))) * 4096 * 4)"

definition compute_need :: "evaluator \<Rightarrow> nat" where
  "compute_need e = (let c = computeBuffers (e_model e) (e_flags e) (e_calibration e)
     in unat (cp_logits c) + unat (cp_act c) + unat (cp_moe c)
        + (if FlashAttnOn (e_flags e) then unat (cp_attn c) else attn_need e))"

definition device_need :: "evaluator \<Rightarrow> int \<Rightarrow> nat \<Rightarrow> nat" where
  "device_need e c g = (let p = charge (forCtx e c) (OffloadSteps (e_model e))
     in unat (pl_weights p ! g) + unat (pl_extra p ! g) + unat (e_overhead e) + unat (e_margin e)
        + kv_need e c + compute_need e)"

definition no_wrap :: "evaluator \<Rightarrow> bool" where
  "no_wrap e \<longleftrightarrow> 0 \<le> m_NLayer (e_model e) \<and> m_NLayer (e_model e) < 2 ^ 63 - 1
     \<and> length (e_layer e) = nat (m_NLayer (e_model e)) \<and> 0 \<le> f_MainGPU (e_flags e)
     \<and> ctx_ceiling e < 2 ^ 62 \<and> 0 \<le> f_NUbatch (e_flags e)
     \<and> (case m_SWAWindow (e_model e) of None \<Rightarrow> True | Some w \<Rightarrow> w + f_NUbatch (e_flags e) < 2 ^ 63)
     \<and> list_all (\<lambda>g. device_need e (ctx_ceiling e) g < 2 ^ 64) [0..<length (e_devices e)]"

lemma PadCtx_eq: "0 < c \<Longrightarrow> c < 2 ^ 62 \<Longrightarrow> PadCtx c = (c + 255) div 256 * 256"
proof -
  assume c: "0 < c" "c < 2 ^ 62"
  then have "(c + 255) div 256 * 256 \<le> c + 255" using mult_div_mod_eq [of 256 "c + 255"] by simp
  then show ?thesis using c by (simp add: PadCtx_def KVPad_def i64_id sdiv_nonneg)
qed

lemma PadCtx_mono: "0 < c \<Longrightarrow> c \<le> c' \<Longrightarrow> c' < 2 ^ 62 \<Longrightarrow> PadCtx c \<le> PadCtx c'"
  by (simp add: PadCtx_eq zdiv_mono1)

lemma PadCtx_pos: "0 < c \<Longrightarrow> c < 2 ^ 62 \<Longrightarrow> 0 < PadCtx c"
  by (simp add: PadCtx_eq pos_imp_zdiv_pos_iff)

lemma PadCtx_less: "0 < c \<Longrightarrow> c < 2 ^ 62 \<Longrightarrow> PadCtx c < 2 ^ 63"
  using mult_div_mod_eq [of 256 "c + 255"] pos_mod_sign [of 256 "c + 255"] by (simp add: PadCtx_eq)

lemma unat_mult_no_wrap:
  assumes "unat a = x" "unat b = y" "x * y \<le> room" "room < 2 ^ 64"
  shows "unat (a * b :: u64) = x * y"
  using assms by (simp add: unat_word_ariths)

lemma swa_span_mono:
  assumes "0 \<le> f_NUbatch f" "case m_SWAWindow m of None \<Rightarrow> True | Some w \<Rightarrow> w + f_NUbatch f < 2 ^ 63"
    and "0 \<le> a" "a \<le> b"
  shows "0 \<le> swa_span m (f\<lparr>f_NCtx := c\<rparr>) a \<and> swa_span m (f\<lparr>f_NCtx := c\<rparr>) a \<le> swa_span m (f\<lparr>f_NCtx := d\<rparr>) b
    \<and> swa_span m (f\<lparr>f_NCtx := d\<rparr>) b \<le> b"
  using assms by (auto simp: swa_span_def i64_id split: option.splits)

lemma kv_layers_mono:
  assumes u: "0 \<le> f_NUbatch f" "case m_SWAWindow m of None \<Rightarrow> True | Some w \<Rightarrow> w + f_NUbatch f < 2 ^ 63"
    and c: "0 < c" "c \<le> d" "d < 2 ^ 62"
    and room: "unat (per_tok m k v (int i)) * nat (PadCtx d) < 2 ^ 64"
  shows "unat (kl_bytes (kv_layers_of m (f\<lparr>f_NCtx := c\<rparr>) k v i))
           \<le> unat (kl_bytes (kv_layers_of m (f\<lparr>f_NCtx := d\<rparr>) k v i))
    \<and> unat (kl_bytes (kv_layers_of m (f\<lparr>f_NCtx := d\<rparr>) k v i)) \<le> unat (per_tok m k v (int i)) * nat (PadCtx d)"
proof -
  define sw where "sw \<longleftrightarrow> snd (SWALayers (m_NLayer m) (m_SWAWindow m) (m_SWAPattern m))
      \<and> IsSWALayer (int i) (m_SWAWindow m) (m_SWAPattern m)"
  define sp where "sp x = (if sw then swa_span m (f\<lparr>f_NCtx := x\<rparr>) (PadCtx x) else PadCtx x)" for x
  let ?t = "per_tok m k v (int i)"
  have pad: "0 < PadCtx c" "PadCtx c \<le> PadCtx d" "PadCtx d < 2 ^ 63"
    using c PadCtx_less [of d] by (simp_all add: PadCtx_pos PadCtx_mono)
  have s: "0 \<le> sp c" "sp c \<le> sp d" "sp d \<le> PadCtx d"
    using swa_span_mono [OF u, of "PadCtx c" "PadCtx d" c d] pad by (auto simp: sp_def)
  then have ns: "unat (u64_of_int (sp c)) = nat (sp c)" "unat (u64_of_int (sp d)) = nat (sp d)"
    using pad by (simp_all add: unat_u64_of_int)
  have pd: "unat ?t * nat (sp d) \<le> unat ?t * nat (PadCtx d)" using s by (intro mult_left_mono) simp_all
  have pc: "unat ?t * nat (sp c) \<le> unat ?t * nat (sp d)" using s by (intro mult_left_mono) simp_all
  have "unat (?t * u64_of_int (sp d)) = unat ?t * nat (sp d)" "unat (?t * u64_of_int (sp c)) = unat ?t * nat (sp c)"
    using unat_mult_no_wrap [OF refl ns(2) pd room] unat_mult_no_wrap [OF refl ns(1) le_trans [OF pc pd] room]
    by simp_all
  moreover have "kl_bytes (kv_layers_of m (f\<lparr>f_NCtx := x\<rparr>) k v i) = ?t * u64_of_int (sp x)" for x
    by (simp add: kv_layers_of_def Let_def sp_def sw_def)
  ultimately show ?thesis using pd pc by simp
qed

lemma attn_mono:
  assumes "0 < c" "c \<le> d" "d < 2 ^ 62" "\<not> FlashAttnOn f"
    and "unat (u64_of_int (m_NHead m)) * unat (u64_of_int (f_NUbatch f)) * 4096 * 4 < 2 ^ 64"
  shows "unat (cp_attn (computeBuffers m (f\<lparr>f_NCtx := c\<rparr>) cal)) \<le> unat (cp_attn (computeBuffers m (f\<lparr>f_NCtx := d\<rparr>) cal))
    \<and> unat (cp_attn (computeBuffers m (f\<lparr>f_NCtx := d\<rparr>) cal))
        \<le> unat (u64_of_int (m_NHead m)) * unat (u64_of_int (f_NUbatch f)) * 4096 * 4"
proof -
  let ?h = "unat (u64_of_int (m_NHead m))" and ?u = "unat (u64_of_int (f_NUbatch f))"
  define s where "s x = (if PadCtx x > AttnCtxCap then AttnCtxCap else PadCtx x)" for x
  have pad: "0 < PadCtx c" "PadCtx c \<le> PadCtx d"
    using assms by (simp_all add: PadCtx_pos PadCtx_mono)
  then have sx: "0 < s c" "s c \<le> s d" "s d \<le> 4096" by (auto simp: s_def AttnCtxCap_def)
  have "unat (mul [u64_of_int (m_NHead m), u64_of_int (f_NUbatch f), u64_of_int x, 4]) = ?h * ?u * nat x * 4"
    if "0 \<le> x" "x \<le> 4096" for x
  proof -
    have l: "?h * ?u * nat x * 4 \<le> ?h * ?u * 4096 * 4" using that by (intro mult_le_mono) simp_all
    have x: "unat (u64_of_int x) = nat x" using that by (simp add: unat_u64_of_int)
    have "?h * ?u \<le> ?h * ?u * 4096 * 4" by simp
    note 1 = unat_mult_no_wrap [OF refl refl this assms(5)]
    have "?h * ?u * nat x \<le> ?h * ?u * 4096 * 4" using l by linarith
    note 2 = unat_mult_no_wrap [OF 1 x this assms(5)]
    have "unat (u64_of_int (m_NHead m) * u64_of_int (f_NUbatch f) * u64_of_int x * 4) = ?h * ?u * nat x * 4"
      by (rule unat_mult_no_wrap [OF 2 _ l assms(5)]) simp
    then show ?thesis by (simp add: mul_def)
  qed
  moreover have "cp_attn (computeBuffers m (f\<lparr>f_NCtx := x\<rparr>) cal)
      = mul [u64_of_int (m_NHead m), u64_of_int (f_NUbatch f), u64_of_int (s x), 4]" for x
    using assms(4) by (simp add: computeBuffers_def Let_def s_def FlashAttnOn_def)
  moreover have "?h * ?u * nat (s c) * 4 \<le> ?h * ?u * nat (s d) * 4" "?h * ?u * nat (s d) * 4 \<le> ?h * ?u * 4096 * 4"
    using sx by (auto intro!: mult_le_mono)
  ultimately show ?thesis using sx by simp
qed

subsection \<open>A longer context never fits where a shorter one does not\<close>

lemma forCtx_sel [simp]:
  "e_model (forCtx e c) = e_model e" "e_flags (forCtx e c) = (e_flags e)\<lparr>f_NCtx := c\<rparr>"
  "e_devices (forCtx e c) = e_devices e" "e_layer (forCtx e c) = e_layer e" "e_other (forCtx e c) = e_other e"
  "e_kv (forCtx e c) = planKV (e_model e) ((e_flags e)\<lparr>f_NCtx := c\<rparr>) (e_k e) (e_v e)"
  "e_compute (forCtx e c) = cp_total (computeBuffers (e_model e) ((e_flags e)\<lparr>f_NCtx := c\<rparr>) (e_calibration e))"
  "e_overhead (forCtx e c) = e_overhead e" "e_margin (forCtx e c) = e_margin e"
  "e_reserve (forCtx e c) = e_reserve e" "e_extra (forCtx e c) = e_extra e" "e_host (forCtx e c) = e_host e"
  "e_k (forCtx e c) = e_k e" "e_v (forCtx e c) = e_v e" "e_calibration (forCtx e c) = e_calibration e"
  by (simp_all add: forCtx_def Let_def)

lemma budget_forCtx [simp]: "budget (forCtx e c) free = budget e free"
  by (simp add: budget_def)

lemma compute_mono:
  assumes "0 < c" "c \<le> d" "d < 2 ^ 62" and need: "compute_need e < 2 ^ 64"
  shows "unat (e_compute (forCtx e c)) \<le> unat (e_compute (forCtx e d)) \<and> unat (e_compute (forCtx e d)) \<le> compute_need e"
proof -
  let ?B = "\<lambda>x. computeBuffers (e_model e) ((e_flags e)\<lparr>f_NCtx := x\<rparr>) (e_calibration e)"
  let ?C = "computeBuffers (e_model e) (e_flags e) (e_calibration e)"
  let ?A = "if FlashAttnOn (e_flags e) then unat (cp_attn ?C) else attn_need e"
  have same: "cp_logits (?B x) = cp_logits ?C" "cp_act (?B x) = cp_act ?C" "cp_moe (?B x) = cp_moe ?C" for x
    by (simp_all add: computeBuffers_def Let_def)
  have need': "unat (cp_logits ?C) + unat (cp_act ?C) + ?A + unat (cp_moe ?C) < 2 ^ 64"
    using need by (simp add: compute_need_def Let_def)
  have at: "unat (cp_attn (?B c)) \<le> unat (cp_attn (?B d)) \<and> unat (cp_attn (?B d)) \<le> ?A"
  proof (cases "FlashAttnOn (e_flags e)")
    case True
    then show ?thesis by (simp add: computeBuffers_def Let_def FlashAttnOn_def)
  next
    case False
    have "unat (u64_of_int (m_NHead (e_model e))) * unat (u64_of_int (f_NUbatch (e_flags e))) * 4096 * 4 < 2 ^ 64"
      using False need' unfolding attn_need_def if_not_P [OF False] by linarith
    from attn_mono [OF assms(1,2,3) False this, of "e_calibration e"] False
    show ?thesis by (simp add: attn_need_def)
  qed
  have tot: "unat (cp_total (?B x)) = unat (cp_logits ?C) + unat (cp_act ?C) + unat (cp_attn (?B x)) + unat (cp_moe ?C)"
    if "unat (cp_attn (?B x)) \<le> ?A" for x
    using unat_sum6 [of "cp_logits ?C" "cp_act ?C" "cp_attn (?B x)" "cp_moe ?C" 0 0] need' that
    by (simp add: cp_total_def same)
  have "unat (cp_attn (?B c)) \<le> ?A" using at by linarith
  then show ?thesis using at tot [of c] tot [of d] by (simp add: compute_need_def Let_def)
qed

lemma kv_need_mono: "0 < c \<Longrightarrow> c \<le> d \<Longrightarrow> d < 2 ^ 62 \<Longrightarrow> kv_need e c \<le> kv_need e d"
  unfolding kv_need_def using PadCtx_mono [of c d] by (intro sum_mono mult_left_mono) simp_all

lemma plan_mono:
  assumes nw: "no_wrap e" and c: "0 < c" "c \<le> d" "d < 2 ^ 62" and need: "kv_need e d < 2 ^ 64"
    and i: "i < nat (m_NLayer (e_model e))"
  shows "unat (kv_layerBytes (e_kv (forCtx e c)) (int i)) \<le> unat (kv_layerBytes (e_kv (forCtx e d)) (int i))
    \<and> unat (kv_layerBytes (e_kv (forCtx e d)) (int i))
        \<le> unat (per_tok (e_model e) (e_k e) (e_v e) (int i)) * nat (PadCtx d)"
proof -
  have "unat (per_tok (e_model e) (e_k e) (e_v e) (int i)) * nat (PadCtx d) \<le> kv_need e d"
    unfolding kv_need_def using i by (intro member_le_sum) simp_all
  then have room: "unat (per_tok (e_model e) (e_k e) (e_v e) (int i)) * nat (PadCtx d) < 2 ^ 64" using need by simp
  from nw have u: "0 \<le> f_NUbatch (e_flags e)"
    "case m_SWAWindow (e_model e) of None \<Rightarrow> True | Some w \<Rightarrow> w + f_NUbatch (e_flags e) < 2 ^ 63"
    by (auto simp: no_wrap_def)
  show ?thesis using kv_layers_mono [OF u c room] i by (simp add: kv_layerBytes_plan)
qed

lemma full_at_antimono:
  assumes nw: "no_wrap e" and c: "0 < c" "c \<le> d" "d \<le> ctx_ceiling e" and full: "full_at e d"
  shows "full_at e c"
proof (cases "e_devices e = []")
  case True
  then show ?thesis by (simp add: full_at_def placeable_iff)
next
  case False
  let ?n = "OffloadSteps (e_model e)" and ?nd = "length (e_devices e)" and ?h = "ctx_ceiling e"
  from nw have L: "length (e_layer e) = nat (m_NLayer (e_model e))" and h: "?h < 2 ^ 62"
    and mg: "0 \<le> f_MainGPU (e_flags e)" and pos: "0 < ?n"
    by (auto simp: no_wrap_def OffloadSteps_def i64_id)
  from nw have need: "device_need e ?h g < 2 ^ 64" if "g < ?nd" for g
    using that by (auto simp: no_wrap_def list_all_iff)
  from False have z: "0 < ?nd" by simp
  then have "kv_need e ?h + compute_need e < 2 ^ 64" using need [of 0] by (simp add: device_need_def Let_def)
  then have kn: "kv_need e ?h < 2 ^ 64" and cn: "compute_need e < 2 ^ 64" by linarith+
  have d: "0 < d" "d < 2 ^ 62" using c h by linarith+
  have kd: "kv_need e d \<le> kv_need e ?h" using kv_need_mono [of d ?h e] c d h by simp
  have cap: "kv_top (e_kv (forCtx e x)) (length (e_layer e)) \<le> kv_need e x"
    if x: "0 < x" "x < 2 ^ 62" "kv_need e x < 2 ^ 64" for x
    unfolding kv_top_def kv_need_def L
    using plan_mono [OF nw x(1) order_refl x(2) x(3)] by (intro sum_mono) simp
  have kd': "kv_need e d < 2 ^ 64" using kd kn by linarith
  let ?P = "\<lambda>x. charge (forCtx e x) ?n"
  have rel: "pl_weights (?P x) = pl_weights (?P y) \<and> pl_extra (?P x) = pl_extra (?P y)
      \<and> kv_le ?nd (kv_need e y) (pl_kv (?P x)) (pl_kv (?P y))"
    if x: "0 < x" "x \<le> y" "y < 2 ^ 62" "kv_need e y < 2 ^ 64" for x y
  proof -
    have y: "0 < y" using x by simp
    note t = cap [OF y x(3) x(4)]
    have "\<forall>i < length (e_layer e).
        unat (kv_layerBytes (e_kv (forCtx e x)) (int i)) \<le> unat (kv_layerBytes (e_kv (forCtx e y)) (int i))"
      using plan_mono [OF nw x(1,2,3,4)] L by simp
    from place_mono [OF this _ z, where f = "e_flags e" and c = x and other = "e_other e" and n = ?n and c' = y] t x(4)
    show ?thesis by (auto simp: charge_def Let_def intro: kv_le_more)
  qed
  have cd: "unat (e_compute (forCtx e c)) \<le> unat (e_compute (forCtx e d))" "unat (e_compute (forCtx e d)) \<le> compute_need e"
    using compute_mono [OF c(1,2) d(2) cn] by simp_all
  have "dr_OK (device_row (forCtx e c) (?P c) True g)" if g: "g < ?nd" for g
  proof -
    let ?A = "\<lambda>x. deviceBytes (?P x) g + e_compute (forCtx e x) + e_overhead e + e_margin e"
    have ok: "dv_Known (e_devices e ! g)" "?A d \<le> budget e (dv_FreeBytes (e_devices e ! g))"
      using full g pos by (auto simp: full_at_def placeable_iff device_row_def Let_def split: if_splits)
    from rel [OF c(1,2) d(2) kd'] g have k: "unat (pl_kv (?P c) ! g) \<le> unat (pl_kv (?P d) ! g)"
      "unat (pl_kv (?P d) ! g) \<le> kv_need e d" and we: "pl_weights (?P c) = pl_weights (?P d)" "pl_extra (?P c) = pl_extra (?P d)"
      by (auto simp: kv_le_def)
    from rel [OF d(1) c(3) h kn] have wh: "pl_weights (?P d) = pl_weights (?P ?h)" "pl_extra (?P d) = pl_extra (?P ?h)" by auto
    have sum: "unat (pl_weights (?P d) ! g) + unat (pl_kv (?P d) ! g) + unat (pl_extra (?P d) ! g)
        + unat (e_compute (forCtx e d)) + unat (e_overhead e) + unat (e_margin e) < 2 ^ 64"
      using need [OF g] k(2) kd cd(2) unfolding device_need_def Let_def wh by linarith
    then have sumc: "unat (pl_weights (?P c) ! g) + unat (pl_kv (?P c) ! g) + unat (pl_extra (?P c) ! g)
        + unat (e_compute (forCtx e c)) + unat (e_overhead e) + unat (e_margin e) < 2 ^ 64"
      using k(1) cd(1) unfolding we by linarith
    note Ad = unat_sum6 [OF sum, folded deviceBytes_def] and Ac = unat_sum6 [OF sumc, folded deviceBytes_def]
    have "unat (?A c) \<le> unat (?A d)" unfolding Ad Ac unfolding we using k(1) cd(1) by linarith
    then have "?A c \<le> budget e (dv_FreeBytes (e_devices e ! g))" using ok(2) by (simp add: word_le_nat_alt)
    then show ?thesis using ok(1) by (simp add: device_row_def Let_def)
  qed
  then show ?thesis using pos by (simp add: full_at_def placeable_iff)
qed

subsection \<open>The binary search\<close>

lemma midpoint_eq:
  assumes "KVPad dvd int lo" "KVPad dvd int hi" "int hi - int lo > KVPad" "int hi < 2 ^ 62"
  shows "KVPad dvd midpoint lo hi" "int lo < midpoint lo hi" "midpoint lo hi < int hi"
proof -
  from assms obtain a b where ab: "int lo = 256 * a" "int hi = 256 * b" by (auto simp: KVPad_def dvd_def)
  have "i64 (int lo + int hi) = int lo + int hi" using assms(3,4) by (intro i64_id) (simp_all add: KVPad_def)
  then have "midpoint lo hi = (int lo + int hi) div 2 div 256 * 256"
    by (simp add: midpoint_def KVPad_def sdiv_nonneg)
  also have "(int lo + int hi) div 2 div 256 = (a + b) div 2"
  proof -
    have "(int lo + int hi) div 2 div 256 = (int lo + int hi) div 256 div 2"
      using zdiv_zmult2_eq [of 256 "int lo + int hi" 2] zdiv_zmult2_eq [of 2 "int lo + int hi" 256] by simp
    also have "(int lo + int hi) div 256 = a + b"
      unfolding ab distrib_left [symmetric] by simp
    finally show ?thesis .
  qed
  finally have m: "midpoint lo hi = 256 * ((a + b) div 2)" by simp
  have "a + 1 < b" using assms(3) ab by (simp add: KVPad_def)
  then have "a < (a + b) div 2" "(a + b) div 2 < b" by linarith+
  then show "KVPad dvd midpoint lo hi" "int lo < midpoint lo hi" "midpoint lo hi < int hi"
    unfolding m ab KVPad_def by simp_all
qed

lemma ctx_search_correct:
  assumes "KVPad dvd int lo" "KVPad dvd int hi" "lo < hi" "int hi < 2 ^ 62"
    and "full_at e (int lo)" "\<not> full_at e (int hi)"
  shows "KVPad dvd int (ctx_search e lo hi) \<and> lo \<le> ctx_search e lo hi \<and> ctx_search e lo hi < hi
    \<and> full_at e (int (ctx_search e lo hi)) \<and> \<not> full_at e (int (ctx_search e lo hi) + KVPad)"
  using assms
proof (induction e lo hi rule: ctx_search.induct)
  case (1 e lo hi)
  show ?case
  proof (cases "int hi - int lo > KVPad")
    case True
    note m = midpoint_eq [OF 1(3,4) True 1(6)]
    then have nm: "int (nat (midpoint lo hi)) = midpoint lo hi" "lo < nat (midpoint lo hi)" "nat (midpoint lo hi) < hi"
      by simp_all
    show ?thesis
    proof (cases "full_at e (midpoint lo hi)")
      case full: True
      have "ctx_search e lo hi = ctx_search e (nat (midpoint lo hi)) hi"
        using True m full by (subst ctx_search.simps) (simp add: Let_def)
      then show ?thesis using 1(1) [OF True refl _ full] 1 m nm full by (auto simp: not_le)
    next
      case no: False
      have "ctx_search e lo hi = ctx_search e lo (nat (midpoint lo hi))"
        using True m no by (subst ctx_search.simps) (simp add: Let_def)
      moreover have "KVPad dvd int (ctx_search e lo (nat (midpoint lo hi))) \<and> lo \<le> ctx_search e lo (nat (midpoint lo hi))
          \<and> ctx_search e lo (nat (midpoint lo hi)) < nat (midpoint lo hi)
          \<and> full_at e (int (ctx_search e lo (nat (midpoint lo hi))))
          \<and> \<not> full_at e (int (ctx_search e lo (nat (midpoint lo hi))) + KVPad)"
        using 1(2) [OF True refl _ no] 1(3,6,7) m nm no by (simp add: not_le)
      ultimately show ?thesis using nm(3) by (metis less_trans)
    qed
  next
    case False
    then have "ctx_search e lo hi = lo" by (subst ctx_search.simps) simp
    moreover have "int hi = int lo + KVPad"
    proof -
      from 1(3,4) obtain a b where ab: "int lo = 256 * a" "int hi = 256 * b" by (auto simp: KVPad_def dvd_def)
      then have "b = a + 1" using False 1(5) by (simp add: KVPad_def)
      then show ?thesis using ab by (simp add: KVPad_def)
    qed
    ultimately show ?thesis using 1 by auto
  qed
qed

lemma ctx_ceiling_dvd: "KVPad dvd ctx_ceiling e" "KVPad \<le> ctx_ceiling e"
proof -
  define h where "h = (if m_NCtxTrain (e_model e) < f_NCtx (e_flags e) then f_NCtx (e_flags e) else m_NCtxTrain (e_model e))"
  define g where "g = (if h < KVPad then KVPad else h)"
  have "ctx_ceiling e = g sdiv KVPad * KVPad"
    unfolding ctx_ceiling_def Let_def h_def [symmetric] g_def [symmetric] ..
  moreover have g: "256 \<le> g" by (simp add: g_def KVPad_def)
  ultimately have "ctx_ceiling e = g div 256 * 256" by (simp add: KVPad_def sdiv_nonneg)
  moreover have "1 \<le> g div 256" using g by (simp add: zdiv_mono1 [of 256 g 256, simplified])
  ultimately show "KVPad dvd ctx_ceiling e" "KVPad \<le> ctx_ceiling e" by (simp_all add: KVPad_def)
qed

text \<open>What the search answers is never a context that does not fit, whatever wraps.\<close>

lemma maxCtx_fits:
  assumes "maxCtxAtFullOffload e = c" "0 < c" "ctx_ceiling e < 2 ^ 62"
  shows "full_at e c"
proof (cases "full_at e (ctx_ceiling e) \<or> \<not> full_at e KVPad")
  case True
  then show ?thesis using assms by (auto simp: maxCtxAtFullOffload_def Let_def split: if_splits)
next
  case False
  then have "KVPad < ctx_ceiling e" using ctx_ceiling_dvd(2) [of e] by (cases "KVPad = ctx_ceiling e") auto
  then have "full_at e (int (ctx_search e (nat KVPad) (nat (ctx_ceiling e))))"
    using ctx_search_correct [of "nat KVPad" "nat (ctx_ceiling e)" e] ctx_ceiling_dvd [of e] False assms(3)
    by (simp add: KVPad_def)
  then show ?thesis using assms False by (auto simp: maxCtxAtFullOffload_def Let_def split: if_splits)
qed

text \<open>
  C19. The context limit is exact. As long as no sum of bytes wraps below the ceiling, the binary
  search answers the largest multiple of 256 from 256 up to the ceiling (the trained context, or
  the requested one when it is longer) with which the whole model fits on the devices, and 0 when
  there is none: the answer of a search through all of them.
\<close>

theorem context_limit_is_the_largest_that_fits:
  assumes "e_devices e \<noteq> []" "no_wrap e"
  shows "maxCtxAtFullOffload e
    = Max (insert 0 {c. KVPad dvd c \<and> KVPad \<le> c \<and> c \<le> ctx_ceiling e \<and> full_at e c})"
proof -
  let ?h = "ctx_ceiling e" and ?S = "{c. KVPad dvd c \<and> KVPad \<le> c \<and> c \<le> ctx_ceiling e \<and> full_at e c}"
  let ?r = "maxCtxAtFullOffload e"
  have h: "?h < 2 ^ 62" using assms(2) by (simp add: no_wrap_def)
  have "finite ?S" by (rule finite_subset [of _ "{KVPad..?h}"]) auto
  then have fin: "finite (insert 0 ?S)" by simp
  have K: "0 < KVPad" by (simp add: KVPad_def)
  have upper: "c \<le> ?r" and elem: "?r \<in> insert 0 ?S" if c: "c \<in> insert 0 ?S" for c
  proof -
    have "?r \<in> insert 0 ?S \<and> (\<forall>c \<in> insert 0 ?S. c \<le> ?r)"
    proof (cases "full_at e KVPad")
      case False
      have "\<not> full_at e c" if "KVPad \<le> c" "c \<le> ?h" for c
        using full_at_antimono [OF assms(2) K that] False by blast
      then show ?thesis using False assms(1) by (auto simp: maxCtxAtFullOffload_def)
    next
      case lo: True
      show ?thesis
      proof (cases "full_at e ?h")
        case True
        then show ?thesis using lo assms(1) ctx_ceiling_dvd [of e] K
          by (auto simp: maxCtxAtFullOffload_def Let_def)
      next
        case False
        then have "KVPad < ?h" using ctx_ceiling_dvd(2) [of e] lo by (cases "KVPad = ?h") auto
        then have "?r = int (ctx_search e (nat KVPad) (nat ?h))"
          using False lo assms(1) by (simp add: maxCtxAtFullOffload_def Let_def)
        then have s: "KVPad dvd ?r" "KVPad \<le> ?r" "?r < ?h" "full_at e ?r" "\<not> full_at e (?r + KVPad)"
          using ctx_search_correct [of "nat KVPad" "nat ?h" e] ctx_ceiling_dvd [of e] False h lo \<open>KVPad < ?h\<close> K
          by (simp_all add: nat_less_iff le_nat_iff) linarith+
        have "c \<le> ?r" if c: "KVPad dvd c" "KVPad \<le> c" "c \<le> ?h" "full_at e c" for c
        proof (rule ccontr)
          assume "\<not> c \<le> ?r"
          moreover from c(1) s(1) obtain a b where "c = 256 * a" "?r = 256 * b" by (auto simp: KVPad_def dvd_def)
          ultimately have "?r + KVPad \<le> c" by (simp add: KVPad_def)
          moreover have "0 < ?r + KVPad" using s(2) K by linarith
          ultimately show False using full_at_antimono [OF assms(2) _ _ c(3,4)] s(5) by blast
        qed
        then show ?thesis using s K by auto
      qed
    qed
    then show "c \<le> ?r" "?r \<in> insert 0 ?S" using c by blast+
  qed
  show ?thesis by (rule Max_eqI [symmetric, OF fin upper elem [OF insertI1]])
qed

end
