(* ===== verification/Fit_Recommend.thy ===== *)
theory Fit_Recommend
  imports Fit_Context
begin

text \<open>
  The recommendation against the calculator itself: taking the advice and estimating again. The
  search for an offload answers the largest one that is placeable; the advice built from it holds
  up, except on a host without devices, where it promises a full offload.
\<close>

subsection \<open>The largest offload\<close>

lemma scan_down_placeable: "0 < scan_down e n \<Longrightarrow> ev_placeable (eval_at e (int (scan_down e n)))"
  by (induction n) auto

lemma scan_down_le: "scan_down e n \<le> n"
  by (induction n) auto

lemma scan_down_largest: "scan_down e n < k \<Longrightarrow> k \<le> n \<Longrightarrow> \<not> ev_placeable (eval_at e (int k))"
  by (induction n) (auto split: if_splits simp: le_Suc_eq)

lemma zero_placeable: "ev_placeable (eval_at e 0)"
  by (simp add: placeable_iff device_row_def Let_def)

lemma maxPlaceable_bounds:
  assumes "0 \<le> OffloadSteps (e_model e)"
  shows "0 \<le> maxPlaceable e" "maxPlaceable e \<le> OffloadSteps (e_model e)" "ev_placeable (eval_at e (maxPlaceable e))"
proof -
  show "0 \<le> maxPlaceable e" "maxPlaceable e \<le> OffloadSteps (e_model e)"
    using scan_down_le [of e "nat (OffloadSteps (e_model e))"] assms by (auto simp: maxPlaceable_def)
  show "ev_placeable (eval_at e (maxPlaceable e))"
    using scan_down_placeable [of e "nat (OffloadSteps (e_model e))"] zero_placeable [of e]
    by (cases "scan_down e (nat (OffloadSteps (e_model e))) = 0") (auto simp: maxPlaceable_def)
qed

lemma maxPlaceable_largest:
  assumes "e_devices e \<noteq> []" "maxPlaceable e < n" "n \<le> OffloadSteps (e_model e)"
  shows "\<not> ev_placeable (eval_at e n)"
proof -
  have "0 \<le> maxPlaceable e" by (simp add: maxPlaceable_def)
  then have "int (nat n) = n" using assms(2) by simp
  moreover have "scan_down e (nat (OffloadSteps (e_model e))) < nat n" "nat n \<le> nat (OffloadSteps (e_model e))"
    using assms by (auto simp: maxPlaceable_def)
  ultimately show ?thesis using scan_down_largest by metis
qed

subsection \<open>What an evaluation reads of the flags\<close>

definition same_split :: "flags \<Rightarrow> flags \<Rightarrow> bool" where
  "same_split f g \<longleftrightarrow> f_SplitMode f = f_SplitMode g \<and> f_TensorSplit f = f_TensorSplit g \<and> f_MainGPU f = f_MainGPU g"

lemma placeable_cong:
  assumes "same_split (e_flags e) (e_flags e')" "e_devices e = e_devices e'" "e_layer e = e_layer e'"
    "e_other e = e_other e'" "e_kv e = e_kv e'" "e_compute e = e_compute e'" "e_overhead e = e_overhead e'"
    "e_margin e = e_margin e'" "e_reserve e = e_reserve e'" "e_extra e = e_extra e'"
  shows "ev_placeable (eval_at e n) = ev_placeable (eval_at e' n)"
proof -
  from assms(1) have sp: "f_SplitMode (e_flags e) = f_SplitMode (e_flags e')"
    "f_TensorSplit (e_flags e) = f_TensorSplit (e_flags e')" "f_MainGPU (e_flags e) = f_MainGPU (e_flags e')"
    by (simp_all add: same_split_def)
  have "charge e n = charge e' n" unfolding charge_def place_def by (simp only: sp assms(2-))
  moreover have "device_row e p b i = device_row e' p b i" for p b i
    unfolding device_row_def budget_def by (simp only: assms(2-))
  ultimately show ?thesis using assms(2) by (simp add: placeable_iff)
qed

lemma planKV_cong:
  assumes "f_NCtx f = f_NCtx g" "f_NUbatch f = f_NUbatch g"
  shows "planKV m f k v = planKV m g k v"
  unfolding planKV_def swa_span_def by (simp only: assms)

lemma computeBuffers_cong:
  assumes "f_NCtx f = f_NCtx g" "f_NUbatch f = f_NUbatch g" "f_NParallel f = f_NParallel g"
    "f_Embedding f = f_Embedding g" "FlashAttnOn f = FlashAttnOn g"
  shows "computeBuffers m f cal = computeBuffers m g cal"
  unfolding computeBuffers_def by (simp only: assms)

lemma extraCharge_no_draft: "m_Draft m = None \<Longrightarrow> extraCharge m f k v = extraCharge m g k' v'"
  by (simp add: extraCharge_def)

lemma cache_row_names:
  "cache_row n = Some c \<Longrightarrow> ct_Name c = n \<and> n \<in> set CacheTypeNames"
  by (auto simp: cache_row_def cacheTypes_def CacheTypeNames_def split: if_splits)

lemma names_known: "list_all (\<lambda>n. n \<noteq> [] \<and> ToLower (TrimSpace n) = n) CacheTypeNames"
  by code_simp

lemma lookup_name:
  assumes "LookupCacheType n = (c, True)"
  shows "LookupCacheType (ct_Name c) = (c, True)" "ct_Name c \<noteq> []"
proof -
  obtain x where x: "cache_row x = Some c"
    using assms by (auto simp: LookupCacheType_def Let_def split: option.splits)
  from cache_row_names [OF x] names_known
  have "ct_Name c = x" "x \<noteq> []" "ToLower (TrimSpace x) = x" by (auto simp: list_all_iff)
  then show "LookupCacheType (ct_Name c) = (c, True)" "ct_Name c \<noteq> []"
    using x by (simp_all add: LookupCacheType_def)
qed

lemma f16_known: "LookupCacheType CacheTypeF16 = (\<lparr>ct_Name = ''f16'', ct_BlockSize = 1, ct_TypeSize = 2\<rparr>, True)"
  by code_simp

lemma q8_known: "LookupCacheType CacheTypeQ8_0 = (\<lparr>ct_Name = ''q8_0'', ct_BlockSize = 32, ct_TypeSize = 34\<rparr>, True)"
  by code_simp

lemma cache_or_f16_back:
  "cache_or_f16 (ct_Name (fst (cache_or_f16 n))) = (fst (cache_or_f16 n), []) \<and> ct_Name (fst (cache_or_f16 n)) \<noteq> []"
proof (cases "LookupCacheType n")
  case (Pair c known)
  show ?thesis
  proof (cases known)
    case True
    then show ?thesis using lookup_name [of n c] Pair by (simp add: cache_or_f16_def)
  next
    case False
    then show ?thesis using lookup_name [OF f16_known] Pair by (simp add: cache_or_f16_def f16_known)
  qed
qed

subsection \<open>Taking the advice\<close>

text \<open>The flags a user who follows a recommendation would set.\<close>

definition follow :: "request \<Rightarrow> recommendation \<Rightarrow> request" where
  "follow rq rc = rq\<lparr>rq_Flags := (rq_Flags rq)\<lparr>
     f_NGL := NGLCount, f_NGLCount := rc_NGpuLayers rc,
     f_FlashAttn := (if rc_FlashAttn rc then FlashOn else FlashOff),
     f_TypeK := rc_TypeK rc, f_TypeV := rc_TypeV rc,
     f_NCtx := (if rc_NCtx rc = 0 then f_NCtx (rq_Flags rq) else rc_NCtx rc)\<rparr>\<rparr>"

lemma follow_flags:
  assumes "rc_TypeK rc \<noteq> []" "rc_TypeV rc \<noteq> []" "0 \<le> rc_NCtx rc"
  shows "est_flags (follow rq rc) = (est_flags rq)\<lparr>
     f_NGL := NGLCount, f_NGLCount := rc_NGpuLayers rc,
     f_FlashAttn := (if rc_FlashAttn rc then FlashOn else FlashOff),
     f_TypeK := rc_TypeK rc, f_TypeV := rc_TypeV rc,
     f_NCtx := (if rc_NCtx rc = 0 then f_NCtx (est_flags rq) else rc_NCtx rc)\<rparr>"
  using assms
  by (simp add: follow_def Normalize_def Let_def default_when_def NGLCount_def FlashOn_def FlashOff_def)

abbreviation quantized :: "evaluator \<Rightarrow> evaluator" where
  "quantized e \<equiv> forCache e (fst (LookupCacheType CacheTypeQ8_0)) (fst (LookupCacheType CacheTypeQ8_0)) True"

lemma forCache_sel [simp]:
  "e_model (forCache e k v fa) = e_model e" "e_devices (forCache e k v fa) = e_devices e"
  "e_flags (forCache e k v fa) = (e_flags e)\<lparr>f_TypeK := ct_Name k, f_TypeV := ct_Name v,
     f_FlashAttn := (if fa then FlashOn else FlashOff)\<rparr>"
  "e_layer (forCache e k v fa) = e_layer e" "e_other (forCache e k v fa) = e_other e"
  "e_k (forCache e k v fa) = k" "e_v (forCache e k v fa) = v"
  "e_overhead (forCache e k v fa) = e_overhead e" "e_margin (forCache e k v fa) = e_margin e"
  "e_reserve (forCache e k v fa) = e_reserve e" "e_extra (forCache e k v fa) = e_extra e"
  "e_kv (forCache e k v fa) = planKV (e_model e) (e_flags (forCache e k v fa)) k v"
  "e_compute (forCache e k v fa) = cp_total (computeBuffers (e_model e) (e_flags (forCache e k v fa)) (e_calibration e))"
  "e_host (forCache e k v fa) = e_host e" "e_calibration (forCache e k v fa) = e_calibration e"
  by (simp_all add: forCache_def Let_def)

text \<open>A recommendation that offloads something was read off an evaluation that places it.\<close>

lemma recommend_cases:
  assumes "rc = fst (recommend e (maxPlaceable e) k v f notes)" "0 < rc_NGpuLayers rc"
    and "0 \<le> OffloadSteps (e_model e)" "ctx_ceiling (quantized e) < 2 ^ 62"
  shows "rc_NGpuLayers rc \<le> OffloadSteps (e_model e) \<and>
    (rc_FlashAttn rc = FlashAttnOn f \<and> rc_TypeK rc = ct_Name k \<and> rc_TypeV rc = ct_Name v \<and> rc_NCtx rc = 0
       \<and> ev_placeable (eval_at e (rc_NGpuLayers rc))
     \<or> rc_FlashAttn rc \<and> rc_TypeK rc = CacheTypeQ8_0 \<and> rc_TypeV rc = CacheTypeQ8_0 \<and> rc_NCtx rc = 0
       \<and> ev_placeable (eval_at (quantized e) (rc_NGpuLayers rc))
     \<or> rc_FlashAttn rc \<and> rc_TypeK rc = CacheTypeQ8_0 \<and> rc_TypeV rc = CacheTypeQ8_0 \<and> 0 < rc_NCtx rc
       \<and> ev_placeable (eval_at (forCtx (quantized e) (rc_NCtx rc)) (rc_NGpuLayers rc)))"
proof -
  note b = maxPlaceable_bounds [of e, OF assms(3)] maxPlaceable_bounds [of "quantized e", simplified, OF assms(3)]
  have c: "ev_placeable (eval_at (forCtx (quantized e) (maxCtxAtFullOffload (quantized e))) (OffloadSteps (e_model e)))"
    if "0 < maxCtxAtFullOffload (quantized e)"
    using maxCtx_fits [OF refl that assms(4)] by (simp add: full_at_def)
  show ?thesis using assms(1,2) b c unfolding recommend_def Let_def
    by (auto split: if_splits)
qed

text \<open>
  C22. The advice holds up. On a host with a device and without a draft model, take a recommendation
  that offloads something, set exactly what it names and estimate again: every device has room for
  its share, and when everything was recommended to be offloaded the verdict is \<open>fits\<close>.
\<close>

theorem following_the_recommendation_works:
  assumes "Estimate rq = Some rp" "rc = rp_Recommendation rp" "0 < rc_NGpuLayers rc"
    and "Estimate (follow rq rc) = Some rp'"
    and "rq_Devices rq \<noteq> []" "m_Draft (rq_Model rq) = None" "m_NLayer (rq_Model rq) < 2 ^ 63 - 1"
    and "ctx_ceiling (quantized (est_eval rq)) < 2 ^ 62"
  shows "rp_NGpuLayers rp' = rc_NGpuLayers rc \<and> (\<forall>r \<in> set (rp_PerGPU rp'). dr_OK r)
    \<and> (rc_NGpuLayers rc = m_NLayer (rq_Model rq) + 1 \<longrightarrow> rp_Verdict rp' = VerdictFits)"
proof -
  let ?e = "est_eval rq" and ?q = "follow rq rc" and ?e' = "est_eval (follow rq rc)" and ?n = "rc_NGpuLayers rc"
  let ?q8 = "fst (LookupCacheType CacheTypeQ8_0)" and ?f = "est_flags rq"
  from assms(1) obtain adv nts where nl: "0 \<le> m_NLayer (rq_Model rq)"
    and rc: "rp_Recommendation rp = fst (recommend ?e (maxPlaceable ?e) (est_k rq) (est_v rq) (est_flags rq) nts)"
    by (elim Estimate_parts) blast
  have steps: "OffloadSteps (rq_Model rq) = m_NLayer (rq_Model rq) + 1"
    using nl assms(7) by (simp add: OffloadSteps_def i64_id)
  then have "0 \<le> OffloadSteps (e_model ?e)" using nl by simp
  note cases = recommend_cases [OF assms(2) [unfolded rc] assms(3) this assms(8)]
  have names: "ct_Name (est_k rq) \<noteq> []" "ct_Name (est_v rq) \<noteq> []" "CacheTypeQ8_0 \<noteq> []"
    using cache_or_f16_back by (auto simp: CacheTypeQ8_0_def)
  with cases have "rc_TypeK rc \<noteq> []" "rc_TypeV rc \<noteq> []" "0 \<le> rc_NCtx rc" by auto
  note fl = follow_flags [OF this]
  have q8: "cache_or_f16 CacheTypeQ8_0 = (?q8, [])" by (simp add: cache_or_f16_def q8_known)
  have m: "rq_Model ?q = rq_Model rq" "rq_Devices ?q = rq_Devices rq" "rq_Calibration ?q = rq_Calibration rq"
    "rq_ReserveBytesPerGPU ?q = rq_ReserveBytesPerGPU rq" "rq_MarginMiB ?q = rq_MarginMiB rq"
    by (simp_all add: follow_def)
  have pt: "participating (rq_Devices rq) (est_flags ?q) = participating (rq_Devices rq) ?f"
    by (simp add: fl participating_def)
  define C where "C = extraCharge (rq_Model rq) ?f (est_k rq) (est_v rq)"
  have ex: "extraCharge (rq_Model rq) g k v = C" for g k v
    unfolding C_def by (rule extraCharge_no_draft [OF assms(6)])
  have place: "ev_placeable (eval_at ?e' ?n)"
    using cases
  proof (elim conjE disjE)
    assume a: "rc_FlashAttn rc = FlashAttnOn ?f" "rc_TypeK rc = ct_Name (est_k rq)" "rc_TypeV rc = ct_Name (est_v rq)"
      "rc_NCtx rc = 0" "ev_placeable (eval_at ?e ?n)"
    have k: "est_k ?q = est_k rq" "est_v ?q = est_v rq" using cache_or_f16_back by (simp_all add: fl a)
    have fa: "FlashAttnOn (est_flags ?q) = FlashAttnOn ?f" by (simp add: fl a FlashAttnOn_def FlashOn_def FlashOff_def)
    have kv: "planKV (rq_Model rq) (est_flags ?q) x y = planKV (rq_Model rq) ?f x y" for x y
      by (rule planKV_cong) (simp_all add: fl a)
    have cb: "computeBuffers (rq_Model rq) (est_flags ?q) c = computeBuffers (rq_Model rq) ?f c" for c
      by (rule computeBuffers_cong) (simp_all only: fa, simp_all add: fl a)
    have "ev_placeable (eval_at ?e' ?n) = ev_placeable (eval_at ?e ?n)"
      by (rule placeable_cong) (simp_all add: m pt ex k kv cb same_split_def, simp_all add: fl)
    then show ?thesis using a by simp
  next
    assume a: "rc_FlashAttn rc" "rc_TypeK rc = CacheTypeQ8_0" "rc_TypeV rc = CacheTypeQ8_0"
      "rc_NCtx rc = 0" "ev_placeable (eval_at (quantized ?e) ?n)"
    have k: "est_k ?q = ?q8" "est_v ?q = ?q8" by (simp_all add: fl a q8)
    let ?g = "e_flags (quantized ?e)"
    have kv: "planKV (rq_Model rq) (est_flags ?q) ?q8 ?q8 = planKV (rq_Model rq) ?g ?q8 ?q8"
      by (rule planKV_cong) (simp_all add: fl a)
    have cb: "computeBuffers (rq_Model rq) (est_flags ?q) c = computeBuffers (rq_Model rq) ?g c" for c
      by (rule computeBuffers_cong) (simp_all add: fl a FlashAttnOn_def)
    have "ev_placeable (eval_at ?e' ?n) = ev_placeable (eval_at (quantized ?e) ?n)"
      by (rule placeable_cong) (simp_all add: m pt ex k kv cb same_split_def, simp_all add: fl)
    then show ?thesis using a by simp
  next
    assume a: "rc_FlashAttn rc" "rc_TypeK rc = CacheTypeQ8_0" "rc_TypeV rc = CacheTypeQ8_0"
      "0 < rc_NCtx rc" "ev_placeable (eval_at (forCtx (quantized ?e) (rc_NCtx rc)) ?n)"
    have k: "est_k ?q = ?q8" "est_v ?q = ?q8" by (simp_all add: fl a q8)
    from a(4) have nz: "rc_NCtx rc \<noteq> 0" by simp
    let ?g = "(e_flags (quantized ?e))\<lparr>f_NCtx := rc_NCtx rc\<rparr>"
    have kv: "planKV (rq_Model rq) (est_flags ?q) ?q8 ?q8 = planKV (rq_Model rq) ?g ?q8 ?q8"
      using nz by (intro planKV_cong) (simp_all add: fl a)
    have cb: "computeBuffers (rq_Model rq) (est_flags ?q) c = computeBuffers (rq_Model rq) ?g c" for c
      by (rule computeBuffers_cong) (simp_all add: fl a nz FlashAttnOn_def)
    have "ev_placeable (eval_at ?e' ?n) = ev_placeable (eval_at (forCtx (quantized ?e) (rc_NCtx rc)) ?n)"
      by (rule placeable_cong) (simp_all add: m pt ex k kv cb same_split_def, simp_all add: fl)
    then show ?thesis using a by simp
  qed
  from cases have le: "?n \<le> OffloadSteps (rq_Model rq)" by simp
  from assms(4) obtain adv' nts' where
    r: "resolveNGL (est_flags ?q) (OffloadSteps (rq_Model ?q)) (maxPlaceable ?e') = (rp_NGpuLayers rp', adv')"
    and p: "rp_PerGPU rp' = ev_perGPU (eval_at ?e' (rp_NGpuLayers rp'))"
    and v: "rp_Verdict rp' = fst (verdict_of ?e' (rp_NGpuLayers rp') (eval_at ?e' (rp_NGpuLayers rp')) nts')"
    by (elim Estimate_parts) blast
  have n: "rp_NGpuLayers rp' = ?n"
    using r le assms(3) by (simp add: resolveNGL_def fl m NGLCount_def NGLAll_def NGLNone_def)
  have "e_devices ?e' \<noteq> []" using assms(5) by (simp add: m participating_def)
  then have "?n = m_NLayer (rq_Model rq) + 1 \<Longrightarrow> rp_Verdict rp' = VerdictFits"
    unfolding v n fits_iff using place steps by (simp add: m)
  moreover have "\<forall>r \<in> set (rp_PerGPU rp'). dr_OK r"
    using place unfolding placeable_iff p n eval_at_sel(1) by auto
  ultimately show ?thesis using n by blast
qed

text \<open>Without a device the advice is wrong: nothing is tested, and a full offload is recommended
  to a host that has no device to offload to.\<close>

theorem cpu_only_host_is_told_to_offload_everything:
  assumes "Estimate rq = Some rp" "rq_Devices rq = []"
  shows "rc_NGpuLayers (rp_Recommendation rp) = OffloadSteps (rq_Model rq)
    \<and> rc_Reason (rp_Recommendation rp) = AllFits \<and> rp_MaxNGpuLayers rp = 0"
proof -
  have none: "e_devices (est_eval rq) = []" using assms(2) by (simp add: participating_def)
  from assms(1) obtain adv nts where
    rc: "rp_Recommendation rp = fst (recommend (est_eval rq) (maxPlaceable (est_eval rq)) (est_k rq) (est_v rq) (est_flags rq) nts)"
    and mx: "rp_MaxNGpuLayers rp = maxPlaceable (est_eval rq)"
    by (elim Estimate_parts) blast
  have "ev_placeable (eval_at (est_eval rq) (OffloadSteps (rq_Model rq)))" using none by (simp add: placeable_iff)
  then show ?thesis unfolding rc mx using none by (simp add: recommend_def Let_def maxPlaceable_def)
qed

end
