(* ===== verification/Fit_Examples.thy ===== *)
theory Fit_Examples
  imports Fit_Recommend
begin

text \<open>
  The properties of the fit calculator at a small model on two devices under a layer split, and
  the configurations that show them to hold of something.
\<close>

definition demo_model :: main_shape where
  "demo_model = \<lparr>m_Arch = ''llama'', m_NLayer = 2, m_NEmbd = 64, m_NFF = 128, m_NHead = 4, m_NHeadKV = [2],
     m_HeadDimK = 32, m_HeadDimV = 32, m_NCtxTrain = 1024, m_NVocab = 1000, m_NExpert = 0, m_NExpertUsed = 0,
     m_SWAWindow = None, m_SWAPattern = None, m_LayerBytes = [1000, 2000], m_OtherBytes = 500, m_FileBytes = 3500,
     m_MmprojBytes = 0, m_Draft = None\<rparr>"
definition demo_flags :: flags where
  "demo_flags = \<lparr>f_NCtx = 512, f_NParallel = 1, f_NBatch = 64, f_NUbatch = 16, f_NGL = ''all'', f_NGLCount = 0,
     f_FlashAttn = ''on'', f_TypeK = ''f16'', f_TypeV = ''f16'', f_SplitMode = ''layer'', f_TensorSplit = [],
     f_MainGPU = 0, f_Embedding = False, f_Draft = \<lparr>d_CtxSize = 0, d_NGpuLayers = None\<rparr>\<rparr>"
definition demo_device :: "string \<Rightarrow> device" where
  "demo_device n = \<lparr>dv_Index = 0, dv_UUID = [], dv_Name = n, dv_TotalBytes = 8589934592, dv_FreeBytes = 4294967296, dv_Known = True\<rparr>"
definition demo_rq :: request where
  "demo_rq = \<lparr>rq_Model = demo_model, rq_Flags = demo_flags,
     rq_Devices = [demo_device ''a'', demo_device ''b''],
     rq_Host = \<lparr>h_RAMFreeBytes = 1000000, h_RAMTotalBytes = 2000000, h_RAMKnown = True\<rparr>,
     rq_Calibration = NewCalibration [], rq_ReserveBytesPerGPU = 1000, rq_MarginMiB = Some 0\<rparr>"

lemma demo_cache: "cache_or_f16 ''f16'' = (\<lparr>ct_Name = ''f16'', ct_BlockSize = 1, ct_TypeSize = 2\<rparr>, [])"
  by code_simp

lemma demo_est_flags: "est_flags demo_rq = demo_flags"
  by (simp add: demo_rq_def demo_flags_def Normalize_def default_when_def Let_def)

lemmas demo_sizes = PadCtx_def KVPad_def i64_def swa_span_def SWALayers_def kv_step_def per_tok_def HeadCountKV_def
  rowBytes_def u64_of_int_def IsSWALayer_def upt_rec signed_divide_int_def Let_def

lemma demo_plan:
  "planKV demo_model (demo_flags\<lparr>f_NCtx := 512\<rparr>) (fst (cache_or_f16 ''f16'')) (fst (cache_or_f16 ''f16''))
     = \<lparr>kp_layers = [\<lparr>kl_bytes = 131072, kl_swa = False\<rparr>, \<lparr>kl_bytes = 131072, kl_swa = False\<rparr>],
        kp_full = 262144, kp_swa = 0, kp_swaLayers = 0, kp_windowApplied = False\<rparr>"
  "planKV demo_model (demo_flags\<lparr>f_NCtx := 1024\<rparr>) (fst (cache_or_f16 ''f16'')) (fst (cache_or_f16 ''f16''))
     = \<lparr>kp_layers = [\<lparr>kl_bytes = 262144, kl_swa = False\<rparr>, \<lparr>kl_bytes = 262144, kl_swa = False\<rparr>],
        kp_full = 524288, kp_swa = 0, kp_swaLayers = 0, kp_windowApplied = False\<rparr>"
  by (simp_all add: demo_flags_def demo_model_def demo_cache planKV_def demo_sizes)

lemma demo_compute:
  "computeBuffers demo_model (demo_flags\<lparr>f_NCtx := c\<rparr>) (NewCalibration []) =
     \<lparr>cp_logits = 64000, cp_act = 24576, cp_attn = 16384, cp_moe = 0\<rparr>"
  by (simp add: demo_flags_def demo_model_def computeBuffers_def mul_def FlashAttnOn_def FlashOn_def kActFor_def
      kActByArch_def ApplyKAct_def NewCalibration_def MinSamples_def u64_of_f_def f_mul_def f_of_int_def
      DefaultKAct_def u64_of_int_def Let_def)

lemma demo_overhead: "ApplyOverhead (NewCalibration []) OverheadPerGPUBytes = 419430400"
  by (simp add: ApplyOverhead_def NewCalibration_def MinSamples_def OverheadPerGPUBytes_def push_bit_eq_mult)

lemma demo_eval:
  "e_devices (est_eval demo_rq) = [demo_device ''a'', demo_device ''b'']"
  "e_layer (est_eval demo_rq) = [1000, 2000]" "e_other (est_eval demo_rq) = 500"
  "e_flags (est_eval demo_rq) = demo_flags" "e_model (est_eval demo_rq) = demo_model"
  "e_overhead (est_eval demo_rq) = 419430400" "e_margin (est_eval demo_rq) = 0" "e_reserve (est_eval demo_rq) = 1000"
  "e_extra (est_eval demo_rq) = 0"
  "e_k (est_eval demo_rq) = fst (cache_or_f16 ''f16'')" "e_v (est_eval demo_rq) = fst (cache_or_f16 ''f16'')"
  "e_calibration (est_eval demo_rq) = NewCalibration []"
  using demo_overhead
  by (simp_all only: evaluator_of_sel demo_est_flags)
    (simp_all add: demo_rq_def demo_flags_def demo_model_def participating_def SplitNone_def Layers_def
      layerBytesAt_def upt_rec Let_def margin_bytes_def u64_of_int_def extraCharge_def)

lemma demo_flags_ctx: "demo_flags\<lparr>f_NCtx := 512\<rparr> = demo_flags"
  by (simp add: demo_flags_def)

lemma demo_split: "cumulative (splitWeights 2 []) = [1 / 2, 1]"
  by (simp add: cumulative_def splitWeights_def upt_rec f_add_def f_div_def f_of_int_def fl_half Let_def)

lemma demo_place:
  assumes "kp_layers kv = [\<lparr>kl_bytes = a, kl_swa = s\<rparr>, \<lparr>kl_bytes = b, kl_swa = t\<rparr>]"
  shows "place 2 (demo_flags\<lparr>f_NCtx := c\<rparr>) [1000, 2000] 500 kv 3 =
    \<lparr>pl_weights = [1000, 2500], pl_kv = [a, b], pl_extra = [0, 0], pl_ramWeights = 0, pl_ramKV = 0, pl_ramExtra = 0\<rparr>"
proof -
  have "layerDevice 0 2 [1 / 2, 1] = 0" "layerDevice 1 2 [1 / 2, 1] = 1"
    by (simp_all add: layerDevice_def f_div_def f_of_int_def fl_half)
  moreover have r: "replicate 2 x = [x, x]" for x :: u64 by (simp add: numeral_2_eq_2)
  ultimately show ?thesis
    by (simp add: place_def demo_split demo_flags_def SplitRow_def SplitNone_def upt_rec layer_step_def
        empty_placement_def add_at_def kv_layerBytes_def assms r Let_def)
qed

lemma demo_charge:
  "charge (est_eval demo_rq) 3 = \<lparr>pl_weights = [1000, 2500], pl_kv = [131072, 131072], pl_extra = [0, 0],
     pl_ramWeights = 0, pl_ramKV = 0, pl_ramExtra = 0\<rparr>"
  "charge (forCtx (est_eval demo_rq) 1024) 3 = \<lparr>pl_weights = [1000, 2500], pl_kv = [262144, 262144], pl_extra = [0, 0],
     pl_ramWeights = 0, pl_ramKV = 0, pl_ramExtra = 0\<rparr>"
proof -
  have m: "e_kv (est_eval demo_rq) = planKV demo_model (demo_flags\<lparr>f_NCtx := 512\<rparr>)
      (fst (cache_or_f16 ''f16'')) (fst (cache_or_f16 ''f16''))"
    unfolding evaluator_of_sel demo_est_flags by (simp add: demo_flags_ctx) (simp add: demo_rq_def demo_flags_def)
  have l: "length [demo_device ''a'', demo_device ''b''] = 2" by simp
  show "charge (est_eval demo_rq) 3 = \<lparr>pl_weights = [1000, 2500], pl_kv = [131072, 131072], pl_extra = [0, 0],
     pl_ramWeights = 0, pl_ramKV = 0, pl_ramExtra = 0\<rparr>"
    unfolding charge_def demo_eval m l
    using demo_place [OF demo_plan(1) [THEN arg_cong [where f = kp_layers], simplified], of 512]
    unfolding demo_flags_ctx by (simp add: Let_def)
  show "charge (forCtx (est_eval demo_rq) 1024) 3 = \<lparr>pl_weights = [1000, 2500], pl_kv = [262144, 262144], pl_extra = [0, 0],
     pl_ramWeights = 0, pl_ramKV = 0, pl_ramExtra = 0\<rparr>"
    unfolding charge_def forCtx_sel demo_eval l
    using demo_place [OF demo_plan(2) [THEN arg_cong [where f = kp_layers], simplified], of 1024]
    by (simp add: Let_def)
qed

text \<open>Both devices hold their layer, the second one the rest as well.\<close>

lemma demo_compute_at: "e_compute (est_eval demo_rq) = 104960" "e_compute (forCtx (est_eval demo_rq) c) = 104960"
proof -
  have "computeBuffers demo_model demo_flags (NewCalibration []) =
     \<lparr>cp_logits = 64000, cp_act = 24576, cp_attn = 16384, cp_moe = 0\<rparr>"
    using demo_compute [of 512] by (simp only: demo_flags_ctx)
  moreover have "rq_Model demo_rq = demo_model" "rq_Calibration demo_rq = NewCalibration []" by (simp_all add: demo_rq_def)
  ultimately show "e_compute (est_eval demo_rq) = 104960"
    unfolding evaluator_of_sel demo_est_flags by (simp add: cp_total_def)
  show "e_compute (forCtx (est_eval demo_rq) c) = 104960"
    unfolding forCtx_sel demo_eval demo_compute by (simp add: cp_total_def)
qed

lemma two: "[0..<2] = [0, 1 :: nat]"
  by (simp add: upt_rec)

lemma demo_rows:
  "ev_perGPU (eval_at (est_eval demo_rq) 3) =
    [\<lparr>dr_Index = 0, dr_UUID = [], dr_Name = ''a'', dr_FreeBytes = Some 4294967296, dr_TotalBytes = Some 8589934592,
      dr_AssignedBytes = 419667432, dr_OK = True, dr_ShortByBytes = 0, dr_WeightsBytes = 1000, dr_KVBytes = 131072,
      dr_ExtraBytes = 0, dr_OverheadBytes = 419430400, dr_MarginBytes = 0, dr_ReserveBytes = 1000\<rparr>,
     \<lparr>dr_Index = 0, dr_UUID = [], dr_Name = ''b'', dr_FreeBytes = Some 4294967296, dr_TotalBytes = Some 8589934592,
      dr_AssignedBytes = 419668932, dr_OK = True, dr_ShortByBytes = 0, dr_WeightsBytes = 2500, dr_KVBytes = 131072,
      dr_ExtraBytes = 0, dr_OverheadBytes = 419430400, dr_MarginBytes = 0, dr_ReserveBytes = 1000\<rparr>]"
proof -
  have l: "length [demo_device ''a'', demo_device ''b''] = 2" by simp
  show ?thesis
    unfolding eval_at_sel(1) demo_charge device_row_def deviceBytes_def budget_def demo_eval demo_compute_at l two
    by (simp add: demo_device_def Let_def)
qed

lemma demo_places: "ev_placeable (eval_at (est_eval demo_rq) 3)"
  using demo_rows by (simp add: eval_at_def Let_def)

lemma demo_steps: "OffloadSteps demo_model = 3" "m_NLayer demo_model = 2" "rq_Model demo_rq = demo_model"
  by (simp_all add: OffloadSteps_def demo_model_def demo_rq_def i64_def)

lemma demo_report:
  obtains rp where "Estimate demo_rq = Some rp" "rp_Verdict rp = VerdictFits" "rp_NGpuLayers rp = 3"
    "rp_PerGPU rp = ev_perGPU (eval_at (est_eval demo_rq) 3)" "rp_ComputeBytes rp = 104960"
    "rc_NGpuLayers (rp_Recommendation rp) = 3" "m_Draft (rq_Model demo_rq) = None"
proof -
  have d: "m_Draft demo_model = None" by (simp add: demo_model_def)
  then have "Estimate demo_rq \<noteq> None" by (simp add: Estimate_def demo_steps demo_model_def Let_def)
  then obtain rp where e: "Estimate demo_rq = Some rp" by blast
  then obtain adv nts ntr where
    r: "resolveNGL (est_flags demo_rq) (OffloadSteps (rq_Model demo_rq)) (maxPlaceable (est_eval demo_rq)) = (rp_NGpuLayers rp, adv)"
    and p: "rp_PerGPU rp = ev_perGPU (eval_at (est_eval demo_rq) (rp_NGpuLayers rp))"
    and v: "rp_Verdict rp = fst (verdict_of (est_eval demo_rq) (rp_NGpuLayers rp) (eval_at (est_eval demo_rq) (rp_NGpuLayers rp)) nts)"
    and rc: "rp_Recommendation rp = fst (recommend (est_eval demo_rq) (maxPlaceable (est_eval demo_rq)) (est_k demo_rq) (est_v demo_rq) (est_flags demo_rq) ntr)"
    and c: "rp_ComputeBytes rp = e_compute (est_eval demo_rq)"
    by (elim Estimate_parts) blast
  have n: "rp_NGpuLayers rp = 3"
    using r unfolding demo_est_flags demo_steps by (simp add: resolveNGL_def demo_flags_def NGLAll_def)
  have "rp_Verdict rp = VerdictFits" unfolding v n fits_iff using demo_places by (simp only: demo_eval demo_steps) simp
  moreover have "rc_NGpuLayers (rp_Recommendation rp) = 3"
    unfolding rc recommend_def Let_def demo_eval(5) demo_steps(1) using demo_places by simp
  ultimately show thesis using that e n p c d demo_compute_at by (simp add: demo_steps)
qed

theorem a_report_accounts_for_every_byte_witness:
  "\<exists>rp. Estimate demo_rq = Some rp \<and>
     rp_WeightsOffloadedBytes rp + rp_KVOffloadedBytes rp + sum_list (map dr_ExtraBytes (rp_PerGPU rp))
       + rp_SpillToRAMBytes rp
     = rp_WeightsBytes rp + (rp_KVBytes rp + rp_KVSWABytes rp)
       + fst (extraCharge (rq_Model demo_rq) (est_flags demo_rq) (est_k demo_rq) (est_v demo_rq))"
proof (rule demo_report)
  fix rp
  assume e: "Estimate demo_rq = Some rp"
  have "m_NLayer (rq_Model demo_rq) < 2 ^ 63 - 1" by (simp add: demo_steps)
  from a_report_accounts_for_every_byte [OF e this] e show ?thesis by blast
qed

theorem a_verdict_of_fits_is_true_of_every_device_witness:
  "\<exists>rp. Estimate demo_rq = Some rp \<and> length (rp_PerGPU rp) = 2 \<and>
     list_all2 (\<lambda>d r. dv_Known d
             \<and> charged rp r + unat (rq_ReserveBytesPerGPU demo_rq) \<le> unat (dv_FreeBytes d))
           (fst (participating (rq_Devices demo_rq) (est_flags demo_rq))) (rp_PerGPU rp)
     \<and> rp_WeightsOffloadedBytes rp = rp_WeightsBytes rp
     \<and> rp_KVOffloadedBytes rp = rp_KVBytes rp + rp_KVSWABytes rp
     \<and> rp_SpillToRAMBytes rp = 0"
proof (rule demo_report)
  fix rp
  assume e: "Estimate demo_rq = Some rp" and v: "rp_Verdict rp = VerdictFits"
    and p: "rp_PerGPU rp = ev_perGPU (eval_at (est_eval demo_rq) 3)" and c: "rp_ComputeBytes rp = 104960"
  note p = p [unfolded demo_rows]
  have small: "m_NLayer (rq_Model demo_rq) < 2 ^ 63 - 1" by (simp add: demo_steps)
  have cal: "rq_Calibration demo_rq = NewCalibration []" by (simp add: demo_rq_def)
  have "\<forall>r \<in> set (rp_PerGPU rp). charged rp r < 2 ^ 64" by (simp add: p charged_def c)
  from a_verdict_of_fits_is_true_of_every_device [OF e v small cal this] e p
  show ?thesis by (intro exI [of _ rp]) simp
qed

theorem following_the_recommendation_works_witness:
  "\<exists>rp rp'. Estimate demo_rq = Some rp \<and> Estimate (follow demo_rq (rp_Recommendation rp)) = Some rp'
     \<and> rp_NGpuLayers rp' = 3 \<and> rp_Verdict rp' = VerdictFits"
proof (rule demo_report)
  fix rp
  assume e: "Estimate demo_rq = Some rp" and rc: "rc_NGpuLayers (rp_Recommendation rp) = 3"
    and d: "m_Draft (rq_Model demo_rq) = None"
  have "Estimate (follow demo_rq (rp_Recommendation rp)) \<noteq> None"
    using d by (simp add: Estimate_def follow_def demo_steps Let_def)
  then obtain rp' where f: "Estimate (follow demo_rq (rp_Recommendation rp)) = Some rp'" by blast
  have c: "ctx_ceiling (quantized (est_eval demo_rq)) < 2 ^ 62"
    unfolding ctx_ceiling_def forCache_sel demo_eval
    by (simp add: demo_model_def demo_flags_def KVPad_def signed_divide_int_def)
  have "0 < rc_NGpuLayers (rp_Recommendation rp)" "rq_Devices demo_rq \<noteq> []" "m_NLayer (rq_Model demo_rq) < 2 ^ 63 - 1"
    using rc by (simp_all add: demo_rq_def demo_model_def)
  from following_the_recommendation_works [OF e refl this(1) f this(2) d this(3) c] rc
  have "rp_NGpuLayers rp' = 3 \<and> rp_Verdict rp' = VerdictFits" by (simp add: demo_steps)
  then show ?thesis using e f by blast
qed

lemma demo_no_wrap: "no_wrap (est_eval demo_rq)"
proof -
  have c: "ctx_ceiling (est_eval demo_rq) = 1024"
    unfolding ctx_ceiling_def demo_eval
    by (simp add: demo_model_def demo_flags_def KVPad_def signed_divide_int_def)
  have t: "per_tok demo_model (fst (cache_or_f16 ''f16'')) (fst (cache_or_f16 ''f16'')) i = 256" for i
    by (simp add: demo_model_def demo_cache demo_sizes)
  have kv: "kv_need (est_eval demo_rq) 1024 = 524288"
    unfolding kv_need_def demo_eval t by (simp add: demo_model_def PadCtx_def KVPad_def i64_def signed_divide_int_def)
  have cp: "compute_need (est_eval demo_rq) = 104960"
    using demo_compute [of 512] unfolding compute_need_def demo_eval
    by (simp add: demo_flags_ctx) (simp add: demo_flags_def FlashAttnOn_def FlashOn_def)
  have "device_need (est_eval demo_rq) 1024 g < 2 ^ 64" if "g < 2" for g
  proof -
    have "g = 0 \<or> g = 1" using that by auto
    then show ?thesis unfolding device_need_def demo_eval demo_steps(1) demo_charge kv cp
      by (auto simp: Let_def)
  qed
  then show ?thesis
    unfolding no_wrap_def c demo_eval by (simp add: list_all_iff demo_model_def demo_flags_def)
qed

theorem context_limit_is_the_largest_that_fits_witness:
  "maxCtxAtFullOffload (est_eval demo_rq)
    = Max (insert 0 {c. KVPad dvd c \<and> KVPad \<le> c \<and> c \<le> ctx_ceiling (est_eval demo_rq) \<and> full_at (est_eval demo_rq) c})"
proof -
  have "e_devices (est_eval demo_rq) \<noteq> []" by (simp only: demo_eval) simp
  from context_limit_is_the_largest_that_fits [OF this demo_no_wrap] show ?thesis .
qed

end
