(* ===== verification/Gateway_Usage.thy ===== *)
theory Gateway_Usage
  imports Prelude "HOL-Library.AList"
begin

text \<open>
  The accounting of the gateway: the counters in memory and their flush
  (\<open>src/internal/gateway/accounting.go\<close>) over the three usage tables (\<open>src/internal/store/usage.go\<close>,
  whose foreign keys are enforced), and the watch on refused requests. A Go map is an
  association list; what the loops over a map compute does not depend on its order. Counters
  are numbers far from the ends of an \<open>int64\<close>.
\<close>

subsection \<open>Counters\<close>

datatype auth_mode = AuthToken | AuthNone

text \<open>The two token counts are nil when the upstream reported nothing.\<close>

record counters =
  c_requests :: int
  c_errors :: int
  c_bytesIn :: int
  c_bytesOut :: int
  c_durationMS :: int
  c_promptTokens :: "int option"
  c_completionTokens :: "int option"

definition no_counters :: counters where
  "no_counters = \<lparr>c_requests = 0, c_errors = 0, c_bytesIn = 0, c_bytesOut = 0, c_durationMS = 0,
     c_promptTokens = None, c_completionTokens = None\<rparr>"

record usage =
  u_PromptTokens :: "int option"
  u_CompletionTokens :: "int option"

text \<open>One of the two counts: a count that is nil adds nothing, and leaves nil alone.\<close>

fun add_reported :: "int option \<Rightarrow> int option \<Rightarrow> int option" where
  "add_reported old None = old"
| "add_reported None (Some v) = Some v"
| "add_reported (Some o') (Some v) = Some (v + o')"

definition addTokens :: "counters \<Rightarrow> usage \<Rightarrow> counters" where
  "addTokens c u = c\<lparr>c_promptTokens := add_reported (c_promptTokens c) (u_PromptTokens u),
     c_completionTokens := add_reported (c_completionTokens c) (u_CompletionTokens u)\<rparr>"

text \<open>The five plain counters of one set added to another.\<close>

definition add_plain :: "counters \<Rightarrow> counters \<Rightarrow> counters" where
  "add_plain c v = c\<lparr>c_requests := c_requests c + c_requests v, c_errors := c_errors c + c_errors v,
     c_bytesIn := c_bytesIn c + c_bytesIn v, c_bytesOut := c_bytesOut c + c_bytesOut v,
     c_durationMS := c_durationMS c + c_durationMS v\<rparr>"

definition add_all :: "counters \<Rightarrow> counters \<Rightarrow> counters" where
  "add_all c v = addTokens (add_plain c v)
     \<lparr>u_PromptTokens = c_promptTokens v, u_CompletionTokens = c_completionTokens v\<rparr>"

subsection \<open>Days\<close>

text \<open>The UTC date of a number of days since 1970, and its \<open>2006-01-02\<close> form.\<close>

definition civil :: "int \<Rightarrow> int \<times> int \<times> int" where
  "civil n =
     (let z = n + 719468; era = z div 146097; doe = z - era * 146097;
          yoe = (doe - doe div 1460 + doe div 36524 - doe div 146096) div 365;
          doy = doe - (365 * yoe + yoe div 4 - yoe div 100);
          mp = (5 * doy + 2) div 153;
          d = doy - (153 * mp + 2) div 5 + 1;
          m = (if mp < 10 then mp + 3 else mp - 9);
          y = yoe + era * 400
      in (if m \<le> 2 then y + 1 else y, m, d))"

definition padded :: "nat \<Rightarrow> int \<Rightarrow> string" where
  "padded w n = (let s = int_dec n in replicate (w - length s) CHR ''0'' @ s)"

definition day :: "unix_ms \<Rightarrow> string" where
  "day t = (case civil (t div 86400000) of (y, m, d) \<Rightarrow>
     padded 4 y @ ''-'' @ padded 2 m @ ''-'' @ padded 2 d)"

subsection \<open>The accountant\<close>

type_synonym instance_key = "string \<times> string \<times> auth_mode"
type_synonym token_key = "string \<times> string \<times> string"
type_synonym denial_key = "string \<times> string \<times> string"

record request_record =
  r_instanceID :: string
  r_authMode :: auth_mode
  r_tokenID :: string
  r_at :: unix_ms
  r_duration :: int
  r_bytesIn :: int
  r_bytesOut :: int
  r_failed :: bool
  r_usage :: usage

record accountant =
  a_instances :: "(instance_key \<times> counters) list"
  a_tokens :: "(token_key \<times> counters) list"
  a_denials :: "(denial_key \<times> int) list"

definition newAccountant :: accountant where
  "newAccountant = \<lparr>a_instances = [], a_tokens = [], a_denials = []\<rparr>"

definition counters_at :: "('k \<times> counters) list \<Rightarrow> 'k \<Rightarrow> counters" where
  "counters_at al k = (case map_of al k of None \<Rightarrow> no_counters | Some c \<Rightarrow> c)"

text \<open>What one request adds to a row; \<open>Milliseconds\<close> drops the rest of a nanosecond count.\<close>

definition request_counts :: "request_record \<Rightarrow> counters" where
  "request_counts r = no_counters\<lparr>c_requests := 1, c_errors := (if r_failed r then 1 else 0),
     c_bytesIn := r_bytesIn r, c_bytesOut := r_bytesOut r,
     c_durationMS := sgn (r_duration r) * (\<bar>r_duration r\<bar> div 1000000)\<rparr>"

definition instance_key_of :: "request_record \<Rightarrow> instance_key" where
  "instance_key_of r = (r_instanceID r, day (r_at r), r_authMode r)"

definition token_key_of :: "request_record \<Rightarrow> token_key" where
  "token_key_of r = (r_tokenID r, r_instanceID r, day (r_at r))"

definition acct_add :: "request_record \<Rightarrow> accountant \<Rightarrow> accountant" where
  "acct_add r a =
     (let ik = instance_key_of r; tk = token_key_of r;
          a1 = a\<lparr>a_instances := AList.update ik
                  (add_plain (counters_at (a_instances a) ik) (request_counts r)) (a_instances a)\<rparr>
      in if r_tokenID r = [] then a1
         else a1\<lparr>a_tokens := AList.update tk
                  (addTokens (add_plain (counters_at (a_tokens a) tk) (request_counts r)) (r_usage r)) (a_tokens a)\<rparr>)"

definition denials_at :: "('k \<times> int) list \<Rightarrow> 'k \<Rightarrow> int" where
  "denials_at al k = (case map_of al k of None \<Rightarrow> 0 | Some n \<Rightarrow> n)"

definition acct_deny :: "string \<Rightarrow> string \<Rightarrow> unix_ms \<Rightarrow> accountant \<Rightarrow> accountant" where
  "acct_deny i reason t a = (let k = (i, day t, reason) in
     a\<lparr>a_denials := AList.update k (denials_at (a_denials a) k + 1) (a_denials a)\<rparr>)"

definition pending :: "accountant \<Rightarrow> bool" where
  "pending a \<longleftrightarrow> a_instances a \<noteq> [] \<or> a_tokens a \<noteq> [] \<or> a_denials a \<noteq> []"

definition drain :: "accountant \<Rightarrow> accountant \<times> accountant" where
  "drain a = (newAccountant, a)"

text \<open>One entry of a failed flush put back: new entries go in as they are, others are added up.\<close>

definition restore_instance :: "instance_key \<times> counters \<Rightarrow> (instance_key \<times> counters) list
    \<Rightarrow> (instance_key \<times> counters) list" where
  "restore_instance e al = (case map_of al (fst e) of
       None \<Rightarrow> AList.update (fst e) (snd e) al
     | Some c \<Rightarrow> AList.update (fst e) (add_plain c (snd e)) al)"

definition restore_token :: "token_key \<times> counters \<Rightarrow> (token_key \<times> counters) list
    \<Rightarrow> (token_key \<times> counters) list" where
  "restore_token e al = (case map_of al (fst e) of
       None \<Rightarrow> AList.update (fst e) (snd e) al
     | Some c \<Rightarrow> AList.update (fst e) (add_all c (snd e)) al)"

definition restore_denial :: "denial_key \<times> int \<Rightarrow> (denial_key \<times> int) list \<Rightarrow> (denial_key \<times> int) list" where
  "restore_denial e al = AList.update (fst e) (denials_at al (fst e) + snd e) al"

definition restore :: "accountant \<Rightarrow> accountant \<Rightarrow> accountant" where
  "restore b a = a\<lparr>a_instances := fold restore_instance (a_instances b) (a_instances a),
     a_tokens := fold restore_token (a_tokens b) (a_tokens a),
     a_denials := fold restore_denial (a_denials b) (a_denials a)\<rparr>"

subsection \<open>The usage tables\<close>

text \<open>The tables, and the ids the foreign keys refer to.\<close>

record usage_db =
  g_instance_ids :: "string list"
  g_token_ids :: "string list"
  g_instance_usage :: "(instance_key \<times> counters) list"
  g_token_usage :: "(token_key \<times> counters) list"
  g_denials :: "(denial_key \<times> int) list"

datatype usage_error = ForeignKey | WriteFailed

text \<open>The upserts: a row is inserted, or the delta is added to it; a null token count leaves the
  stored one alone, an insert stores it as it is.\<close>

definition AddInstanceUsage :: "instance_key \<times> counters \<Rightarrow> usage_db \<Rightarrow> usage_error + usage_db" where
  "AddInstanceUsage e db =
     (if fst (fst e) \<notin> set (g_instance_ids db) then Inl ForeignKey
      else Inr (db\<lparr>g_instance_usage := AList.update (fst e)
        (case map_of (g_instance_usage db) (fst e) of None \<Rightarrow> add_plain no_counters (snd e) | Some c \<Rightarrow> add_plain c (snd e))
        (g_instance_usage db)\<rparr>))"

definition AddTokenUsage :: "token_key \<times> counters \<Rightarrow> usage_db \<Rightarrow> usage_error + usage_db" where
  "AddTokenUsage e db =
     (if fst (fst e) \<notin> set (g_token_ids db) \<or> fst (snd (fst e)) \<notin> set (g_instance_ids db) then Inl ForeignKey
      else Inr (db\<lparr>g_token_usage := AList.update (fst e)
        (case map_of (g_token_usage db) (fst e) of None \<Rightarrow> snd e | Some c \<Rightarrow> add_all c (snd e))
        (g_token_usage db)\<rparr>))"

definition AddGatewayDenial :: "denial_key \<times> int \<Rightarrow> usage_db \<Rightarrow> usage_error + usage_db" where
  "AddGatewayDenial e db =
     (if fst (fst e) \<notin> set (g_instance_ids db) then Inl ForeignKey
      else Inr (db\<lparr>g_denials := AList.update (fst e)
        (case map_of (g_denials db) (fst e) of None \<Rightarrow> snd e | Some n \<Rightarrow> n + snd e) (g_denials db)\<rparr>))"

text \<open>The hard delete of an instance takes its rows in all three tables with it.\<close>

definition PurgeInstance :: "string \<Rightarrow> usage_db \<Rightarrow> usage_db" where
  "PurgeInstance i db = db\<lparr>g_instance_ids := filter (\<lambda>j. j \<noteq> i) (g_instance_ids db),
     g_instance_usage := filter (\<lambda>e. fst (fst e) \<noteq> i) (g_instance_usage db),
     g_token_usage := filter (\<lambda>e. fst (snd (fst e)) \<noteq> i) (g_token_usage db),
     g_denials := filter (\<lambda>e. fst (fst e) \<noteq> i) (g_denials db)\<rparr>"

fun write_all :: "('e \<Rightarrow> usage_db \<Rightarrow> usage_error + usage_db) \<Rightarrow> 'e list \<Rightarrow> usage_db \<Rightarrow> usage_error + usage_db" where
  "write_all w [] db = Inr db"
| "write_all w (e # es) db = bind_res (w e db) (write_all w es)"

definition flush_tx :: "accountant \<Rightarrow> usage_db \<Rightarrow> usage_error + usage_db" where
  "flush_tx b db = bind_res (write_all AddInstanceUsage (a_instances b) db) (\<lambda>db1.
     bind_res (write_all AddTokenUsage (a_tokens b) db1) (\<lambda>db2.
     write_all AddGatewayDenial (a_denials b) db2))"

text \<open>\<open>Flush\<close> in its two halves: the deltas are taken out under the lock, and then written in one
  transaction, which may fail for reasons of its own, or put back. The flush of the token
  counters that follows a success is the one of the tokens component.\<close>

definition flush_write :: "bool \<Rightarrow> accountant \<Rightarrow> accountant \<times> usage_db \<Rightarrow> (accountant \<times> usage_db) \<times> usage_error option" where
  "flush_write fails b s = (case if fails then Inl WriteFailed else flush_tx b (snd s) of
       Inl e \<Rightarrow> ((restore b (fst s), snd s), Some e)
     | Inr db \<Rightarrow> ((fst s, db), None))"

definition Flush :: "bool \<Rightarrow> accountant \<times> usage_db \<Rightarrow> (accountant \<times> usage_db) \<times> usage_error option" where
  "Flush fails s = (if \<not> pending (fst s) then (s, None)
     else case drain (fst s) of (a, b) \<Rightarrow> flush_write fails b (a, snd s))"

subsection \<open>The watch on refused requests\<close>

text \<open>Instants and durations in nanoseconds.\<close>

definition DenialBurst :: int where "DenialBurst = 5"
definition DenialWindow :: int where "DenialWindow = 60 * 1000000000"
definition MaxDenialWindows :: nat where "MaxDenialWindows = 8192"
definition denialSweepEvery :: int where "denialSweepEvery = DenialWindow div 2"
definition denialLowWater :: nat where "denialLowWater = MaxDenialWindows * 3 div 4"

record denial_window =
  w_start :: int
  w_count :: int
  w_reported :: bool

type_synonym watch_key = "string \<times> string"

record denial_watch =
  dw_at :: "(watch_key \<times> denial_window) list"
  dw_sweptAt :: int

text \<open>Eviction takes entries in the order of the map, which Go leaves open: the order is an
  argument, any permutation of the keys.\<close>

fun evict :: "watch_key list \<Rightarrow> (watch_key \<times> denial_window) list \<Rightarrow> (watch_key \<times> denial_window) list" where
  "evict [] al = al"
| "evict (k # ks) al = (if length al \<le> denialLowWater then al else evict ks (AList.delete k al))"

definition sweepLocked :: "((watch_key \<times> denial_window) list \<Rightarrow> watch_key list) \<Rightarrow> int \<Rightarrow> denial_watch \<Rightarrow> denial_watch" where
  "sweepLocked order now d =
     (if \<not> length (dw_at d) \<ge> MaxDenialWindows \<and> now - dw_sweptAt d < denialSweepEvery then d
      else let live = filter (\<lambda>e. \<not> now - w_start (snd e) > DenialWindow) (dw_at d)
           in d\<lparr>dw_sweptAt := now, dw_at := evict (order live) live\<rparr>)"

definition note_denial :: "((watch_key \<times> denial_window) list \<Rightarrow> watch_key list) \<Rightarrow> string \<Rightarrow> string \<Rightarrow> int
    \<Rightarrow> denial_watch \<Rightarrow> denial_watch \<times> bool" where
  "note_denial order i ip now d =
     (if ip = [] then (d, False)
      else let d1 = sweepLocked order now d; k = (i, ip);
               fresh = (d1\<lparr>dw_at := AList.update k \<lparr>w_start = now, w_count = 1, w_reported = False\<rparr> (dw_at d1)\<rparr>, False)
           in case map_of (dw_at d1) k of
                None \<Rightarrow> fresh
              | Some w \<Rightarrow>
                if now - w_start w > DenialWindow then fresh
                else let w1 = w\<lparr>w_count := w_count w + 1\<rparr>
                     in if w_count w1 < DenialBurst \<or> w_reported w1
                        then (d1\<lparr>dw_at := AList.update k w1 (dw_at d1)\<rparr>, False)
                        else (d1\<lparr>dw_at := AList.update k (w1\<lparr>w_reported := True\<rparr>) (dw_at d1)\<rparr>, True))"

definition forget :: "string \<Rightarrow> denial_watch \<Rightarrow> denial_watch" where
  "forget i d = d\<lparr>dw_at := filter (\<lambda>e. fst (fst e) \<noteq> i) (dw_at d)\<rparr>"

end
