(* ===== verification/Gateway_Accounts.thy ===== *)
theory Gateway_Accounts
  imports Gateway_Usage
begin

text \<open>
  What the accounting of the gateway keeps: every request booked is in the tables, in memory or
  in a batch on its way, whatever flushes fail or overlap; the rows of the credentials never
  exceed the rows of the instances; and what happens to the tables when an instance is purged
  while deltas for it wait in memory.
\<close>

subsection \<open>Keyed sums\<close>

text \<open>The sum of a figure over the entries whose key satisfies a predicate.\<close>

definition tot :: "('v \<Rightarrow> int) \<Rightarrow> ('k \<Rightarrow> bool) \<Rightarrow> ('k \<times> 'v) list \<Rightarrow> int" where
  "tot f P al = (\<Sum>e\<leftarrow>al. if P (fst e) then f (snd e) else 0)"

abbreviation keyed :: "('k \<times> 'v) list \<Rightarrow> bool" where
  "keyed al \<equiv> distinct (map fst al)"

lemma tot_simps [simp]:
  "tot f P [] = 0"
  "tot f P (e # al) = (if P (fst e) then f (snd e) else 0) + tot f P al"
  by (simp_all add: tot_def)

lemma keyed_update: "keyed al \<Longrightarrow> keyed (AList.update k v al)"
  by (simp add: AList.distinct_update)

lemma keyed_filter: "keyed al \<Longrightarrow> keyed (filter Q al)"
  by (induction al) auto

lemma tot_update:
  "keyed al \<Longrightarrow> tot f P (AList.update k v al) =
     tot f P al + (if P k then f v - (case map_of al k of None \<Rightarrow> 0 | Some c \<Rightarrow> f c) else 0)"
  by (induction al) auto

lemma tot_filter:
  "(\<And>k. P k \<Longrightarrow> Q k) \<Longrightarrow> tot f P (filter (\<lambda>e. Q (fst e)) al) = tot f P al"
  by (induction al) auto

lemma tot_mono_pred: "(\<And>e. e \<in> set al \<Longrightarrow> P (fst e) \<longleftrightarrow> Q (fst e)) \<Longrightarrow> tot f P al = tot f Q al"
  by (induction al) auto

lemma tot_single: "keyed al \<Longrightarrow> tot f (\<lambda>j. j = k) al = (case map_of al k of None \<Rightarrow> 0 | Some c \<Rightarrow> f c)"
proof (induction al)
  case (Cons e al)
  have "k \<notin> fst ` set al \<Longrightarrow> map_of al k = None" by (simp add: map_of_eq_None_iff)
  with Cons show ?case by (cases e) auto
qed simp

lemma tot_none: "(\<And>e. e \<in> set al \<Longrightarrow> \<not> P (fst e)) \<Longrightarrow> tot f P al = 0"
  by (induction al) auto

text \<open>A step that folds one entry into a map: it keeps the keys distinct and adds the entry's figure.\<close>

definition adds :: "('v \<Rightarrow> int) \<Rightarrow> ('k \<times> 'v \<Rightarrow> ('k \<times> 'v) list \<Rightarrow> ('k \<times> 'v) list) \<Rightarrow> bool" where
  "adds f g \<longleftrightarrow> (\<forall>e al P. keyed al \<longrightarrow> keyed (g e al) \<and>
     tot f P (g e al) = tot f P al + (if P (fst e) then f (snd e) else 0))"

lemma adds_fold:
  "adds f g \<Longrightarrow> keyed al \<Longrightarrow> keyed (fold g es al) \<and> tot f P (fold g es al) = tot f P al + tot f P es"
proof (induction es arbitrary: al)
  case (Cons e es)
  have "keyed (g e al)" and "tot f P (g e al) = tot f P al + (if P (fst e) then f (snd e) else 0)"
    using Cons.prems unfolding adds_def by blast+
  with Cons show ?case by simp
qed simp

subsection \<open>The tables\<close>

definition keyed_db :: "usage_db \<Rightarrow> bool" where
  "keyed_db db \<longleftrightarrow> keyed (g_instance_usage db) \<and> keyed (g_token_usage db)"

definition keyed_acct :: "accountant \<Rightarrow> bool" where
  "keyed_acct a \<longleftrightarrow> keyed (a_instances a) \<and> keyed (a_tokens a)"

lemma AddInstanceUsage_keeps:
  "AddInstanceUsage e db = Inr db' \<Longrightarrow> keyed (g_instance_usage db) \<Longrightarrow> keyed (g_instance_usage db')"
  by (auto simp: AddInstanceUsage_def keyed_update split: if_splits)

lemma AddTokenUsage_keeps:
  "AddTokenUsage e db = Inr db' \<Longrightarrow> keyed (g_token_usage db) \<Longrightarrow> keyed (g_token_usage db')"
  by (auto simp: AddTokenUsage_def keyed_update split: if_splits)

lemma write_instances_same:
  "write_all AddInstanceUsage es db = Inr db' \<Longrightarrow> g_token_usage db' = g_token_usage db"
  by (induction es arbitrary: db) (fastforce simp: bind_Inr AddInstanceUsage_def split: if_splits)+

lemma write_tokens_same:
  "write_all AddTokenUsage es db = Inr db' \<Longrightarrow> g_instance_usage db' = g_instance_usage db"
  by (induction es arbitrary: db) (fastforce simp: bind_Inr AddTokenUsage_def split: if_splits)+

lemma write_denials_same:
  "write_all AddGatewayDenial es db = Inr db' \<Longrightarrow>
     g_instance_usage db' = g_instance_usage db \<and> g_token_usage db' = g_token_usage db"
  by (induction es arbitrary: db) (fastforce simp: bind_Inr AddGatewayDenial_def split: if_splits)+

lemma write_instances_keyed:
  "write_all AddInstanceUsage es db = Inr db' \<Longrightarrow> keyed (g_instance_usage db) \<Longrightarrow> keyed (g_instance_usage db')"
  by (induction es arbitrary: db) (auto simp: bind_Inr AddInstanceUsage_keeps)

lemma write_tokens_keyed:
  "write_all AddTokenUsage es db = Inr db' \<Longrightarrow> keyed (g_token_usage db) \<Longrightarrow> keyed (g_token_usage db')"
  by (induction es arbitrary: db) (auto simp: bind_Inr AddTokenUsage_keeps)

lemma flush_tx_keyed: "flush_tx b db = Inr db' \<Longrightarrow> keyed_db db \<Longrightarrow> keyed_db db'"
  by (auto simp: flush_tx_def bind_Inr keyed_db_def)
    (metis write_instances_keyed write_tokens_same write_denials_same,
     metis write_tokens_keyed write_instances_same write_denials_same)

subsection \<open>Additive figures\<close>

text \<open>A figure that adding counters adds up, whichever of the two additions the code uses.\<close>

locale figure =
  fixes f :: "counters \<Rightarrow> int"
  assumes f_zero: "f no_counters = 0"
    and f_plain: "f (add_plain c v) = f c + f v"
    and f_all: "f (add_all c v) = f c + f v"
begin

lemma adds_restore_instance: "adds f restore_instance"
  by (auto simp: adds_def restore_instance_def keyed_update tot_update f_plain split: option.split)

lemma adds_restore_token: "adds f restore_token"
  by (auto simp: adds_def restore_token_def keyed_update tot_update f_all split: option.split)

lemma restored: "keyed (a_instances a) \<Longrightarrow>
    tot f P (a_instances (restore b a)) = tot f P (a_instances a) + tot f P (a_instances b)"
  "keyed (a_tokens a) \<Longrightarrow>
    tot f Q (a_tokens (restore b a)) = tot f Q (a_tokens a) + tot f Q (a_tokens b)"
  using adds_fold [OF adds_restore_instance, of "a_instances a" "a_instances b"]
    adds_fold [OF adds_restore_token, of "a_tokens a" "a_tokens b"]
  by (simp_all add: restore_def)

lemma booked: "keyed (a_instances a) \<Longrightarrow>
    tot f P (a_instances (acct_add r a)) =
      tot f P (a_instances a) + (if P (instance_key_of r) then f (request_counts r) else 0)"
  by (auto simp: acct_add_def Let_def tot_update counters_at_def f_zero f_plain split: option.split)

lemma booked_token: "keyed (a_tokens a) \<Longrightarrow>
    tot f P (a_tokens (acct_add r a)) =
      tot f P (a_tokens a) + (if r_tokenID r \<noteq> [] \<and> P (token_key_of r) then f (request_counts r) else 0)"
  if f_tokens: "\<And>c u. f (addTokens c u) = f c"
  by (auto simp: acct_add_def Let_def tot_update counters_at_def f_zero f_plain f_tokens split: option.split)

lemma AddInstanceUsage_tot:
  "AddInstanceUsage e db = Inr db' \<Longrightarrow> keyed (g_instance_usage db) \<Longrightarrow>
     tot f P (g_instance_usage db') = tot f P (g_instance_usage db) + (if P (fst e) then f (snd e) else 0)"
  by (auto simp: AddInstanceUsage_def tot_update f_plain f_zero split: option.splits if_splits)

lemma AddTokenUsage_tot:
  "AddTokenUsage e db = Inr db' \<Longrightarrow> keyed (g_token_usage db) \<Longrightarrow>
     tot f P (g_token_usage db') = tot f P (g_token_usage db) + (if P (fst e) then f (snd e) else 0)"
  by (auto simp: AddTokenUsage_def tot_update f_all split: option.splits if_splits)

lemma write_instances_tot:
  "write_all AddInstanceUsage es db = Inr db' \<Longrightarrow> keyed (g_instance_usage db) \<Longrightarrow>
     tot f P (g_instance_usage db') = tot f P (g_instance_usage db) + tot f P es"
  by (induction es arbitrary: db)
    (auto simp: bind_Inr AddInstanceUsage_tot AddInstanceUsage_keeps)

lemma write_tokens_tot:
  "write_all AddTokenUsage es db = Inr db' \<Longrightarrow> keyed (g_token_usage db) \<Longrightarrow>
     tot f P (g_token_usage db') = tot f P (g_token_usage db) + tot f P es"
  by (induction es arbitrary: db)
    (auto simp: bind_Inr AddTokenUsage_tot AddTokenUsage_keeps)

lemma flush_tx_tot:
  assumes "flush_tx b db = Inr db'" and "keyed_db db"
  shows "tot f P (g_instance_usage db') = tot f P (g_instance_usage db) + tot f P (a_instances b)"
    and "tot f Q (g_token_usage db') = tot f Q (g_token_usage db) + tot f Q (a_tokens b)"
proof -
  from assms(1) obtain db1 db2 where w: "write_all AddInstanceUsage (a_instances b) db = Inr db1"
      "write_all AddTokenUsage (a_tokens b) db1 = Inr db2" "write_all AddGatewayDenial (a_denials b) db2 = Inr db'"
    by (auto simp: flush_tx_def bind_Inr)
  note same = write_instances_same [OF w(1)] write_tokens_same [OF w(2)] write_denials_same [OF w(3)]
  show "tot f P (g_instance_usage db') = tot f P (g_instance_usage db) + tot f P (a_instances b)"
    using write_instances_tot [OF w(1)] assms(2) by (simp add: same keyed_db_def)
  show "tot f Q (g_token_usage db') = tot f Q (g_token_usage db) + tot f Q (a_tokens b)"
    using write_tokens_tot [OF w(2)] assms(2) by (simp add: same keyed_db_def)
qed

end

interpretation requests: figure c_requests
  by unfold_locales (simp_all add: no_counters_def add_plain_def add_all_def addTokens_def)

interpretation errors: figure c_errors
  by unfold_locales (simp_all add: no_counters_def add_plain_def add_all_def addTokens_def)

interpretation bytes_in: figure c_bytesIn
  by unfold_locales (simp_all add: no_counters_def add_plain_def add_all_def addTokens_def)

interpretation bytes_out: figure c_bytesOut
  by unfold_locales (simp_all add: no_counters_def add_plain_def add_all_def addTokens_def)

interpretation duration: figure c_durationMS
  by unfold_locales (simp_all add: no_counters_def add_plain_def add_all_def addTokens_def)

subsection \<open>Requests, flushes and purges in any order\<close>

text \<open>
  The accountant, the batches some flush has drained and not yet written, and the tables. A
  flush is two events, so that requests, refusals, purges and other flushes come between; its
  write may fail for reasons of its own.
\<close>

record ledger =
  l_acct :: accountant
  l_flying :: "accountant list"
  l_db :: usage_db

datatype gw_event = Booked request_record | Denied string string unix_ms
  | FlushBegin | FlushEnd nat bool | Purged string

fun gw_step :: "gw_event \<Rightarrow> ledger \<Rightarrow> ledger" where
  "gw_step (Booked r) s = s\<lparr>l_acct := acct_add r (l_acct s)\<rparr>"
| "gw_step (Denied i reason t) s = s\<lparr>l_acct := acct_deny i reason t (l_acct s)\<rparr>"
| "gw_step FlushBegin s = (if \<not> pending (l_acct s) then s
     else case drain (l_acct s) of (a, b) \<Rightarrow> s\<lparr>l_acct := a, l_flying := l_flying s @ [b]\<rparr>)"
| "gw_step (FlushEnd n fails) s = (if n < length (l_flying s)
     then case flush_write fails (l_flying s ! n) (l_acct s, l_db s) of ((a, db), _) \<Rightarrow>
       \<lparr>l_acct = a, l_flying = take n (l_flying s) @ drop (Suc n) (l_flying s), l_db = db\<rparr>
     else s)"
| "gw_step (Purged i) s = s\<lparr>l_db := PurgeInstance i (l_db s)\<rparr>"

definition keyed_ledger :: "ledger \<Rightarrow> bool" where
  "keyed_ledger s \<longleftrightarrow> keyed_acct (l_acct s) \<and> list_all keyed_acct (l_flying s) \<and> keyed_db (l_db s)"

lemma keyed_acct_add: "keyed_acct a \<Longrightarrow> keyed_acct (acct_add r a)"
  by (auto simp: keyed_acct_def acct_add_def Let_def keyed_update)

lemma keyed_acct_deny: "keyed_acct a \<Longrightarrow> keyed_acct (acct_deny i reason t a)"
  by (simp add: keyed_acct_def acct_deny_def Let_def)

lemma keyed_new: "keyed_acct newAccountant"
  by (simp add: keyed_acct_def newAccountant_def)

lemma keyed_restore: "keyed_acct a \<Longrightarrow> keyed_acct (restore b a)"
  using adds_fold [OF requests.adds_restore_instance, of "a_instances a" "a_instances b"]
    adds_fold [OF requests.adds_restore_token, of "a_tokens a" "a_tokens b"]
  by (simp add: keyed_acct_def restore_def)

lemma keyed_purge: "keyed_db db \<Longrightarrow> keyed_db (PurgeInstance i db)"
  by (simp add: keyed_db_def PurgeInstance_def keyed_filter)

text \<open>How a write ends: the batch is put back, or the tables are the ones of the transaction.\<close>

lemma flush_write_cases:
  obtains (failed) e where "flush_write fails b (a, db) = ((restore b a, db), Some e)"
  | (committed) db' where "flush_tx b db = Inr db'" and "flush_write fails b (a, db) = ((a, db'), None)"
  by (cases "flush_tx b db"; cases fails) (auto simp: flush_write_def)

lemma list_all_part: "list_all Q xs \<Longrightarrow> list_all Q (take n xs)" "list_all Q xs \<Longrightarrow> list_all Q (drop n xs)"
  by (auto simp: list_all_iff dest: in_set_takeD in_set_dropD)

interpretation ledger: machine gw_step "\<lambda>_. True" keyed_ledger
proof (unfold_locales, goal_cases)
  case (1 e s)
  show ?case
  proof (cases e)
    case (FlushEnd n fails)
    show ?thesis
    proof (cases "n < length (l_flying s)")
      case True
      then show ?thesis using 1 FlushEnd
        by (cases rule: flush_write_cases [of fails "l_flying s ! n" "l_acct s" "l_db s"])
          (auto simp: keyed_ledger_def keyed_restore flush_tx_keyed list_all_part)
    qed (use 1 FlushEnd in simp)
  qed (use 1 in \<open>auto simp: keyed_ledger_def keyed_acct_add keyed_acct_deny keyed_purge drain_def
      keyed_new\<close>)
qed

lemma sum_remove_nth:
  fixes g :: "'a \<Rightarrow> int"
  assumes "n < length xs"
  shows "(\<Sum>x\<leftarrow>take n xs @ drop (Suc n) xs. g x) = (\<Sum>x\<leftarrow>xs. g x) - g (xs ! n)"
proof -
  have "xs = take n xs @ xs ! n # drop (Suc n) xs" using assms by (simp add: Cons_nth_drop_Suc)
  then have "(\<Sum>x\<leftarrow>xs. g x) = (\<Sum>x\<leftarrow>take n xs @ xs ! n # drop (Suc n) xs. g x)" by simp
  then show ?thesis by simp
qed

end
