(* ===== verification/Gateway_Claims.thy ===== *)
theory Gateway_Claims
  imports Gateway_Accounts
begin

text \<open>
  The properties of the accounting of the gateway over its machine (\<open>Gateway_Accounts\<close>).
\<close>

subsection \<open>No request is lost\<close>

definition figures :: "(counters \<Rightarrow> int) list" where
  "figures = [c_requests, c_errors, c_bytesIn, c_bytesOut, c_durationMS]"

lemma figure_of: "f \<in> set figures \<Longrightarrow> figure f"
  unfolding figures_def
  using requests.figure_axioms errors.figure_axioms bytes_in.figure_axioms bytes_out.figure_axioms
    duration.figure_axioms by auto

text \<open>What is booked under a row: in the table, in memory and on its way.\<close>

definition accounted :: "(counters \<Rightarrow> int) \<Rightarrow> instance_key \<Rightarrow> ledger \<Rightarrow> int" where
  "accounted f k s = tot f (\<lambda>j. j = k) (g_instance_usage (l_db s)) + tot f (\<lambda>j. j = k) (a_instances (l_acct s))
     + (\<Sum>b\<leftarrow>l_flying s. tot f (\<lambda>j. j = k) (a_instances b))"

fun books :: "(counters \<Rightarrow> int) \<Rightarrow> instance_key \<Rightarrow> gw_event \<Rightarrow> int" where
  "books f k (Booked r) = (if instance_key_of r = k then f (request_counts r) else 0)"
| "books f k _ = 0"

context figure
begin

lemma accounted_step:
  assumes "keyed_ledger s" and "e \<noteq> Purged (fst k)"
  shows "accounted f k (gw_step e s) = accounted f k s + books f k e"
proof (cases e)
  case (Booked r)
  then show ?thesis using assms by (simp add: accounted_def booked keyed_ledger_def keyed_acct_def)
next
  case (Denied i reason t)
  then show ?thesis by (simp add: accounted_def acct_deny_def Let_def)
next
  case FlushBegin
  then show ?thesis by (simp add: accounted_def drain_def newAccountant_def)
next
  case (FlushEnd n fails)
  show ?thesis
  proof (cases "n < length (l_flying s)")
    case True
    note rest = sum_remove_nth [OF True, of "\<lambda>b. tot f (\<lambda>j. j = k) (a_instances b)", simplified]
    show ?thesis
      using assms(1) FlushEnd True
      by (cases rule: flush_write_cases [of fails "l_flying s ! n" "l_acct s" "l_db s"])
        (auto simp: accounted_def rest restored flush_tx_tot keyed_ledger_def keyed_acct_def)
  qed (use FlushEnd in simp)
next
  case (Purged i)
  with assms(2) have "i \<noteq> fst k" by auto
  then show ?thesis
    using Purged tot_filter [of "\<lambda>j. j = k" "\<lambda>j. fst j \<noteq> i" f "g_instance_usage (l_db s)"]
    by (auto simp: accounted_def PurgeInstance_def)
qed

lemma accounted_run:
  "keyed_ledger s \<Longrightarrow> Purged (fst k) \<notin> set es \<Longrightarrow>
     accounted f k (run gw_step es s) = accounted f k s + (\<Sum>e\<leftarrow>es. books f k e)"
  by (induction es arbitrary: s) (auto simp: accounted_step ledger.step_inv)

end

text \<open>
  C29. For every row of \<open>instance_usage_daily\<close> and every figure of it, what the table holds plus
  what waits in memory plus what a flush has taken and not yet written is what was there at the
  start plus what the requests of that row booked, through failing and overlapping flushes, as
  long as the instance is not purged.
\<close>

theorem no_request_is_lost:
  assumes "keyed_ledger s" and "f \<in> set figures" and "Purged (fst k) \<notin> set es"
  shows "accounted f k (run gw_step es s) = accounted f k s + (\<Sum>e\<leftarrow>es. books f k e)"
  by (rule figure.accounted_run [OF figure_of [OF assms(2)] assms(1,3)])

subsection \<open>The breakdown by credential\<close>

definition credential_share :: "(counters \<Rightarrow> int) \<Rightarrow> string \<Rightarrow> string \<Rightarrow> (token_key \<times> counters) list \<Rightarrow> int" where
  "credential_share f i d al = tot f (\<lambda>k. snd k = (i, d)) al"

definition instance_day :: "(counters \<Rightarrow> int) \<Rightarrow> string \<Rightarrow> string \<Rightarrow> (instance_key \<times> counters) list \<Rightarrow> int" where
  "instance_day f i d al = tot f (\<lambda>k. fst k = i \<and> fst (snd k) = d) al"

definition within :: "(counters \<Rightarrow> int) \<Rightarrow> (token_key \<times> counters) list \<Rightarrow> (instance_key \<times> counters) list \<Rightarrow> bool" where
  "within f ts as \<longleftrightarrow> (\<forall>i d. credential_share f i d ts \<le> instance_day f i d as)"

definition balanced :: "(counters \<Rightarrow> int) \<Rightarrow> ledger \<Rightarrow> bool" where
  "balanced f s \<longleftrightarrow> within f (g_token_usage (l_db s)) (g_instance_usage (l_db s)) \<and>
     within f (a_tokens (l_acct s)) (a_instances (l_acct s)) \<and>
     list_all (\<lambda>b. within f (a_tokens b) (a_instances b)) (l_flying s)"

text \<open>A request moves no bytes backwards and takes no negative time.\<close>

definition sane :: "gw_event \<Rightarrow> bool" where
  "sane e \<longleftrightarrow> (case e of Booked r \<Rightarrow> 0 \<le> r_bytesIn r \<and> 0 \<le> r_bytesOut r \<and> 0 \<le> r_duration r | _ \<Rightarrow> True)"

lemma within_purge:
  "within f (g_token_usage db) (g_instance_usage db) \<Longrightarrow>
     within f (g_token_usage (PurgeInstance i db)) (g_instance_usage (PurgeInstance i db))"
  unfolding within_def
proof (intro allI)
  fix j d
  assume w: "\<forall>i d. credential_share f i d (g_token_usage db) \<le> instance_day f i d (g_instance_usage db)"
  show "credential_share f j d (g_token_usage (PurgeInstance i db)) \<le> instance_day f j d (g_instance_usage (PurgeInstance i db))"
  proof (cases "j = i")
    case True
    have "credential_share f i d (g_token_usage (PurgeInstance i db)) = 0"
      unfolding credential_share_def by (rule tot_none) (auto simp: PurgeInstance_def)
    moreover have "instance_day f i d (g_instance_usage (PurgeInstance i db)) = 0"
      unfolding instance_day_def by (rule tot_none) (auto simp: PurgeInstance_def)
    ultimately show ?thesis using True by simp
  next
    case False
    have "credential_share f j d (g_token_usage (PurgeInstance i db)) = credential_share f j d (g_token_usage db)"
      using tot_filter [of "\<lambda>k. snd k = (j, d)" "\<lambda>k. fst (snd k) \<noteq> i" f "g_token_usage db"] False
      by (auto simp: credential_share_def PurgeInstance_def)
    moreover have "instance_day f j d (g_instance_usage (PurgeInstance i db)) = instance_day f j d (g_instance_usage db)"
      using tot_filter [of "\<lambda>k. fst k = j \<and> fst (snd k) = d" "\<lambda>k. fst k \<noteq> i" f "g_instance_usage db"] False
      by (auto simp: instance_day_def PurgeInstance_def)
    ultimately show ?thesis using w by simp
  qed
qed

context figure
begin

lemma balanced_step:
  assumes k: "keyed_ledger s" and b: "balanced f s" and sane: "sane e"
    and f_tokens: "\<And>c u. f (addTokens c u) = f c"
    and f_request: "\<And>r. sane (Booked r) \<Longrightarrow> 0 \<le> f (request_counts r)"
  shows "balanced f (gw_step e s)"
proof (cases e)
  case (Booked r)
  have nn: "0 \<le> f (request_counts r)" using f_request sane Booked by simp
  have "credential_share f i d (a_tokens (acct_add r (l_acct s)))
      \<le> instance_day f i d (a_instances (acct_add r (l_acct s)))" for i d
  proof -
    have "credential_share f i d (a_tokens (l_acct s)) \<le> instance_day f i d (a_instances (l_acct s))"
      using b by (simp add: balanced_def within_def)
    moreover have "keyed (a_tokens (l_acct s))" "keyed (a_instances (l_acct s))"
      using k by (simp_all add: keyed_ledger_def keyed_acct_def)
    ultimately show ?thesis using nn
      by (simp add: credential_share_def instance_day_def booked booked_token [OF f_tokens]
          instance_key_of_def token_key_of_def)
  qed
  then have "within f (a_tokens (acct_add r (l_acct s))) (a_instances (acct_add r (l_acct s)))"
    by (simp add: within_def)
  then show ?thesis using b Booked by (simp add: balanced_def)
next
  case (Denied i reason t)
  then show ?thesis using b by (simp add: balanced_def acct_deny_def Let_def)
next
  case FlushBegin
  then show ?thesis using b by (auto simp: balanced_def drain_def newAccountant_def within_def
      credential_share_def instance_day_def)
next
  case (FlushEnd n fails)
  show ?thesis
  proof (cases "n < length (l_flying s)")
    case True
    then have "within f (a_tokens (l_flying s ! n)) (a_instances (l_flying s ! n))"
      using b by (simp add: balanced_def list_all_length)
    with True show ?thesis using k b FlushEnd
      by (cases rule: flush_write_cases [of fails "l_flying s ! n" "l_acct s" "l_db s"])
        (auto simp: balanced_def list_all_part restored flush_tx_tot within_def credential_share_def
          instance_day_def keyed_ledger_def keyed_acct_def intro: add_mono)
  qed (use b FlushEnd in simp)
next
  case (Purged i)
  then show ?thesis using b by (simp add: balanced_def within_purge)
qed

lemma balanced_run:
  assumes "\<And>c u. f (addTokens c u) = f c" and "\<And>r. sane (Booked r) \<Longrightarrow> 0 \<le> f (request_counts r)"
  shows "keyed_ledger s \<Longrightarrow> balanced f s \<Longrightarrow> list_all sane es \<Longrightarrow> balanced f (run gw_step es s)"
proof (induction es arbitrary: s)
  case (Cons e es)
  then have "balanced f (gw_step e s)" by (intro balanced_step assms) simp_all
  with Cons show ?case by (simp add: ledger.step_inv)
qed simp

end

text \<open>
  C30. The tables never show more for the credentials of a day than for the instance: the requests,
  the errors, the bytes and the time of the rows by token of an instance and a day add up to no
  more than the rows of the instance for that day, after any requests, refusals, purges and
  flushes, failed or overlapping.
\<close>

theorem credentials_never_exceed_the_instance:
  assumes "keyed_ledger s" and "\<forall>g\<in>set figures. balanced g s" and "list_all sane es" and "f \<in> set figures"
  shows "credential_share f i d (g_token_usage (l_db (run gw_step es s)))
    \<le> instance_day f i d (g_instance_usage (l_db (run gw_step es s)))"
proof -
  have pos: "0 \<le> f (request_counts r)" if "sane (Booked r)" for r
    using that assms(4) unfolding figures_def
    by (auto simp: sane_def request_counts_def no_counters_def sgn_if pos_imp_zdiv_nonneg_iff)
  have same: "f (addTokens c u) = f c" for c u
    using assms(4) unfolding figures_def by (auto simp: addTokens_def)
  have bal: "balanced f s" using assms(2,4) by blast
  have "balanced f (run gw_step es s)"
    by (rule figure.balanced_run [OF figure_of [OF assms(4)] same pos assms(1) bal assms(3)])
  then show ?thesis by (simp add: balanced_def within_def)
qed

subsection \<open>An instance purged while its counts wait\<close>

text \<open>One flusher, as the daemon runs it: booking, refusing, flushing, and the writes to
  \<open>instances\<close> that the flusher does not see.\<close>

datatype daemon_event = Books request_record | Denies string string unix_ms | Flushes bool
  | Purges string | Creates string

definition CreateInstance :: "string \<Rightarrow> usage_db \<Rightarrow> usage_db" where
  "CreateInstance i db = db\<lparr>g_instance_ids := i # g_instance_ids db\<rparr>"

fun daemon_step :: "daemon_event \<Rightarrow> accountant \<times> usage_db \<Rightarrow> accountant \<times> usage_db" where
  "daemon_step (Books r) (a, db) = (acct_add r a, db)"
| "daemon_step (Denies i reason t) (a, db) = (acct_deny i reason t a, db)"
| "daemon_step (Flushes fails) (a, db) = fst (Flush fails (a, db))"
| "daemon_step (Purges i) (a, db) = (a, PurgeInstance i db)"
| "daemon_step (Creates i) (a, db) = (a, CreateInstance i db)"

text \<open>Something about the instance waits to be written.\<close>

definition waits :: "string \<Rightarrow> accountant \<Rightarrow> bool" where
  "waits i a \<longleftrightarrow> (\<exists>k \<in> fst ` set (a_instances a). fst k = i)
     \<or> (\<exists>k \<in> fst ` set (a_tokens a). fst (snd k) = i) \<or> (\<exists>k \<in> fst ` set (a_denials a). fst k = i)"

definition poisoned :: "string \<Rightarrow> accountant \<times> usage_db \<Rightarrow> bool" where
  "poisoned i s \<longleftrightarrow> waits i (fst s) \<and> i \<notin> set (g_instance_ids (snd s))"

definition shrunk :: "usage_db \<Rightarrow> usage_db \<Rightarrow> bool" where
  "shrunk db' db \<longleftrightarrow> set (g_instance_usage db') \<subseteq> set (g_instance_usage db)
     \<and> set (g_token_usage db') \<subseteq> set (g_token_usage db) \<and> set (g_denials db') \<subseteq> set (g_denials db)"

lemma waits_mono:
  "waits i a \<Longrightarrow> fst ` set (a_instances a) \<subseteq> fst ` set (a_instances b) \<Longrightarrow>
     fst ` set (a_tokens a) \<subseteq> fst ` set (a_tokens b) \<Longrightarrow> fst ` set (a_denials a) \<subseteq> fst ` set (a_denials b) \<Longrightarrow>
     waits i b"
  unfolding waits_def by (meson subset_iff)

lemma update_keeps_keys: "fst ` set al \<subseteq> fst ` set (AList.update k v al)"
  by (simp add: AList.dom_update subset_insertI)

lemma waits_add: "waits i a \<Longrightarrow> waits i (acct_add r a)"
  by (erule waits_mono) (simp_all add: acct_add_def Let_def update_keeps_keys)

lemma waits_deny: "waits i a \<Longrightarrow> waits i (acct_deny j reason t a)"
  by (erule waits_mono) (simp_all add: acct_deny_def Let_def update_keeps_keys)

lemma keys_fold:
  assumes "\<And>e al. fst ` set (g e al) = insert (fst e) (fst ` set al)"
  shows "fst ` set (fold g es al) = fst ` set es \<union> fst ` set al"
  by (induction es arbitrary: al) (auto simp: assms)

lemma keys_restored:
  "fst ` set (fold restore_instance es al) = fst ` set es \<union> fst ` set al"
  "fst ` set (fold restore_token es' al') = fst ` set es' \<union> fst ` set al'"
  "fst ` set (fold restore_denial es'' al'') = fst ` set es'' \<union> fst ` set al''"
  by (rule keys_fold, simp add: restore_instance_def restore_token_def restore_denial_def
      AList.dom_update split: option.split)+

lemma waits_restore: "waits i b \<Longrightarrow> waits i (restore b a)"
  by (simp add: waits_def restore_def keys_restored) blast

lemma written_ids:
  assumes "\<And>e db db'. w e db = Inr db' \<Longrightarrow> key e \<in> set (g_instance_ids db) \<and> g_instance_ids db' = g_instance_ids db"
  shows "write_all w es db = Inr db' \<Longrightarrow>
    key ` set es \<subseteq> set (g_instance_ids db) \<and> g_instance_ids db' = g_instance_ids db"
proof (induction es arbitrary: db)
  case (Cons e es)
  then obtain db1 where "w e db = Inr db1" and rest: "write_all w es db1 = Inr db'" by (auto simp: bind_Inr)
  with assms have "key e \<in> set (g_instance_ids db)" and "g_instance_ids db1 = g_instance_ids db" by blast+
  with Cons.IH [OF rest] show ?case by auto
qed simp

lemmas written =
  written_ids [where w = AddInstanceUsage and key = "\<lambda>e. fst (fst e)"]
  written_ids [where w = AddTokenUsage and key = "\<lambda>e. fst (snd (fst e))"]
  written_ids [where w = AddGatewayDenial and key = "\<lambda>e. fst (fst e)"]

lemma a_committed_flush_knows_its_instances:
  assumes "flush_tx b db = Inr db'" and "waits i b"
  shows "i \<in> set (g_instance_ids db)"
proof -
  from assms(1) obtain db1 db2 where w: "write_all AddInstanceUsage (a_instances b) db = Inr db1"
      "write_all AddTokenUsage (a_tokens b) db1 = Inr db2" "write_all AddGatewayDenial (a_denials b) db2 = Inr db'"
    by (auto simp: flush_tx_def bind_Inr)
  have "(\<lambda>e. fst (fst e)) ` set (a_instances b) \<subseteq> set (g_instance_ids db) \<and> g_instance_ids db1 = g_instance_ids db"
    by (rule written(1) [OF _ w(1)]) (auto simp: AddInstanceUsage_def split: if_splits)
  moreover have "(\<lambda>e. fst (snd (fst e))) ` set (a_tokens b) \<subseteq> set (g_instance_ids db1) \<and> g_instance_ids db2 = g_instance_ids db1"
    by (rule written(2) [OF _ w(2)]) (auto simp: AddTokenUsage_def split: if_splits)
  moreover have "(\<lambda>e. fst (fst e)) ` set (a_denials b) \<subseteq> set (g_instance_ids db2) \<and> g_instance_ids db' = g_instance_ids db2"
    by (rule written(3) [OF _ w(3)]) (auto simp: AddGatewayDenial_def split: if_splits)
  ultimately show ?thesis using assms(2) by (auto simp: waits_def)
qed

lemma waits_pending: "waits i a \<Longrightarrow> pending a"
  by (auto simp: waits_def pending_def)

lemma poisoned_flush:
  assumes "poisoned i (a, db)"
  shows "Flush fails (a, db) = ((restore a newAccountant, db), Some (if fails then WriteFailed else projl (flush_tx a db)))" (is ?flush)
    and "\<exists>e. flush_tx a db = Inl e"
proof -
  show "\<exists>e. flush_tx a db = Inl e"
    using assms a_committed_flush_knows_its_instances [of a db _ i]
    by (cases "flush_tx a db") (auto simp: poisoned_def)
  then show ?flush
    using assms waits_pending [of i a] by (auto simp: Flush_def poisoned_def drain_def flush_write_def)
qed

lemma poisoned_step:
  assumes "poisoned i s" and "e \<noteq> Creates i"
  shows "poisoned i (daemon_step e s) \<and> shrunk (snd (daemon_step e s)) (snd s)"
proof -
  obtain a db where s: "s = (a, db)" by (cases s)
  show ?thesis
  proof (cases e)
    case (Flushes fails)
    then show ?thesis using assms poisoned_flush(1) [of i a db fails] s
      by (simp add: poisoned_def waits_restore shrunk_def)
  qed (use assms s in \<open>auto simp: poisoned_def waits_add waits_deny shrunk_def PurgeInstance_def CreateInstance_def\<close>)
qed

lemma poisoned_run:
  "poisoned i s \<Longrightarrow> Creates i \<notin> set es \<Longrightarrow>
     poisoned i (run daemon_step es s) \<and> shrunk (snd (run daemon_step es s)) (snd s)"
proof (induction es arbitrary: s)
  case (Cons e es)
  then have "poisoned i (daemon_step e s) \<and> shrunk (snd (daemon_step e s)) (snd s)"
    by (intro poisoned_step) auto
  with Cons.IH [of "daemon_step e s"] Cons.prems show ?case by (auto simp: shrunk_def)
qed (simp add: shrunk_def)

text \<open>
  C31. When an instance is purged while anything about it waits in memory, the accounting stops for
  every instance: no flush succeeds again as long as the daemon runs, and no request or refusal
  of any instance ever reaches a table, since each flush is one transaction that the missing row
  makes fail, and puts its counts back for the next.
\<close>

theorem a_purge_with_counts_waiting_stops_the_accounting:
  assumes "waits i a" and "Creates i \<notin> set es"
  shows "snd (Flush fails (run daemon_step es (a, PurgeInstance i db))) \<noteq> None
    \<and> shrunk (snd (run daemon_step es (a, PurgeInstance i db))) db"
proof -
  have "poisoned i (a, PurgeInstance i db)" using assms(1) by (simp add: poisoned_def PurgeInstance_def)
  note stuck = poisoned_run [OF this assms(2)]
  moreover obtain a' db' where "run daemon_step es (a, PurgeInstance i db) = (a', db')" by fastforce
  ultimately have "snd (Flush fails (run daemon_step es (a, PurgeInstance i db))) \<noteq> None"
    using poisoned_flush(1) [of i a' db' fails] by simp
  moreover have "shrunk (PurgeInstance i db) db" by (auto simp: shrunk_def PurgeInstance_def)
  ultimately show ?thesis using stuck by (auto simp: shrunk_def)
qed

subsection \<open>The properties at work\<close>

definition r1 :: request_record where
  "r1 = \<lparr>r_instanceID = ''i1'', r_authMode = AuthToken, r_tokenID = ''t1'', r_at = 0, r_duration = 1500000,
     r_bytesIn = 10, r_bytesOut = 20, r_failed = False,
     r_usage = \<lparr>u_PromptTokens = Some 7, u_CompletionTokens = None\<rparr>\<rparr>"

definition ledger0 :: ledger where
  "ledger0 = \<lparr>l_acct = newAccountant, l_flying = [],
     l_db = \<lparr>g_instance_ids = [''i1''], g_token_ids = [''t1''], g_instance_usage = [], g_token_usage = [], g_denials = []\<rparr>\<rparr>"

definition traffic :: "gw_event list" where
  "traffic = [Booked r1, FlushBegin, Booked r1, FlushEnd 0 True, FlushBegin, Purged ''i2'', FlushEnd 0 False]"

lemma ledger0_ok: "keyed_ledger ledger0" "balanced f ledger0"
  by (simp_all add: keyed_ledger_def ledger0_def keyed_acct_def keyed_db_def balanced_def within_def
      credential_share_def instance_day_def newAccountant_def)

theorem no_request_is_lost_witness:
  "accounted c_requests (instance_key_of r1) (run gw_step traffic ledger0) = 2"
  using no_request_is_lost [of ledger0 c_requests "instance_key_of r1" traffic]
  by (simp add: ledger0_ok figures_def traffic_def instance_key_of_def r1_def request_counts_def
      accounted_def) (simp add: ledger0_def newAccountant_def)

theorem credentials_never_exceed_the_instance_witness:
  "credential_share c_bytesOut ''i1'' (day 0) (g_token_usage (l_db (run gw_step traffic ledger0)))
    \<le> instance_day c_bytesOut ''i1'' (day 0) (g_instance_usage (l_db (run gw_step traffic ledger0)))"
  by (rule credentials_never_exceed_the_instance)
    (simp_all add: ledger0_ok figures_def traffic_def sane_def r1_def)

theorem a_purge_with_counts_waiting_stops_the_accounting_witness:
  "snd (Flush False (run daemon_step [Flushes False, Books r1] (acct_add r1 newAccountant, PurgeInstance ''i1'' (l_db ledger0)))) \<noteq> None"
  using a_purge_with_counts_waiting_stops_the_accounting
    [of "''i1''" "acct_add r1 newAccountant" "[Flushes False, Books r1]" False "l_db ledger0"]
  by (simp add: waits_def acct_add_def Let_def r1_def instance_key_of_def newAccountant_def)

end
