(* ===== verification/Gateway_Watch.thy ===== *)
theory Gateway_Watch
  imports Gateway_Usage
begin

text \<open>
  The watch on refused requests, over any run of refusals, sweeps and closed listeners: its size,
  the rate of its warnings, and that a burst is noticed. The order in which a sweep meets the
  entries is any that meets all of them.
\<close>

definition meets_all :: "((watch_key \<times> denial_window) list \<Rightarrow> watch_key list) \<Rightarrow> bool" where
  "meets_all order \<longleftrightarrow> (\<forall>al. set (order al) = fst ` set al)"

datatype watch_event = Noted string string int | Forgotten string

text \<open>A run keeps the warnings it gave, by pair.\<close>

fun watch_step :: "((watch_key \<times> denial_window) list \<Rightarrow> watch_key list) \<Rightarrow> watch_event
    \<Rightarrow> denial_watch \<times> watch_key list \<Rightarrow> denial_watch \<times> watch_key list" where
  "watch_step order (Noted i ip now) (d, ws) =
     (case note_denial order i ip now d of (d', warned) \<Rightarrow> (d', if warned then (i, ip) # ws else ws))"
| "watch_step order (Forgotten i) (d, ws) = (forget i d, ws)"

definition new_watch :: denial_watch where
  "new_watch = \<lparr>dw_at = [], dw_sweptAt = 0\<rparr>"

fun notes_of :: "watch_key \<Rightarrow> watch_event \<Rightarrow> nat" where
  "notes_of k (Noted i ip _) = (if (i, ip) = k then 1 else 0)"
| "notes_of k (Forgotten _) = 0"

subsection \<open>The size\<close>

lemma keys_delete: "fst ` set (AList.delete k al) = fst ` set al - {k}"
  by (induction al) auto

lemma evict_length:
  "fst ` set al \<subseteq> set ks \<Longrightarrow> length (evict ks al) \<le> denialLowWater"
proof (induction ks arbitrary: al)
  case (Cons k ks)
  then have "fst ` set (AList.delete k al) \<subseteq> set ks" unfolding keys_delete by auto
  with Cons.IH show ?case by simp
qed simp

lemma map_of_evict: "map_of (evict ks al) k = Some w \<Longrightarrow> map_of al k = Some w"
proof (induction ks arbitrary: al)
  case (Cons j ks)
  then show ?case by (cases "j = k") (fastforce simp: AList.delete_conv' split: if_splits)+
qed simp

lemma update_length: "length (AList.update k v al) \<le> Suc (length al)"
  by (induction al) auto

lemma map_of_filter_values:
  "map_of (filter (\<lambda>e. Q (snd e)) al) k = Some w \<Longrightarrow> distinct (map fst al) \<Longrightarrow> map_of al k = Some w"
  by (induction al) (auto simp: image_iff split: if_splits dest: map_of_SomeD)

lemma delete_distinct: "distinct (map fst al) \<Longrightarrow> distinct (map fst (AList.delete k al))"
  by (rule AList.distinct_delete)

lemma evict_distinct: "distinct (map fst al) \<Longrightarrow> distinct (map fst (evict ks al))"
  by (induction ks arbitrary: al) (auto simp: delete_distinct)

definition tidy :: "denial_watch \<Rightarrow> bool" where
  "tidy d \<longleftrightarrow> distinct (map fst (dw_at d)) \<and> length (dw_at d) \<le> MaxDenialWindows"

lemma low_water: "denialLowWater < MaxDenialWindows"
  by (simp add: denialLowWater_def MaxDenialWindows_def)

lemma sweep_tidy:
  assumes "meets_all order" and "tidy d"
  shows "distinct (map fst (dw_at (sweepLocked order now d)))"
    and "length (dw_at (sweepLocked order now d)) < MaxDenialWindows"
    and "map_of (dw_at (sweepLocked order now d)) k = Some w \<Longrightarrow> map_of (dw_at d) k = Some w"
proof -
  let ?live = "filter (\<lambda>e. \<not> now - w_start (snd e) > DenialWindow) (dw_at d)"
  have d: "distinct (map fst ?live)" using assms(2) unfolding tidy_def
    by (metis (no_types, lifting) distinct_map_filter)
  have "length (evict (order ?live) ?live) \<le> denialLowWater"
    using assms(1) by (intro evict_length) (simp add: meets_all_def)
  then show "length (dw_at (sweepLocked order now d)) < MaxDenialWindows"
    using low_water by (auto simp: sweepLocked_def Let_def)
  show "distinct (map fst (dw_at (sweepLocked order now d)))"
    using assms(2) d evict_distinct [OF d] by (auto simp: sweepLocked_def Let_def tidy_def)
  show "map_of (dw_at d) k = Some w" if "map_of (dw_at (sweepLocked order now d)) k = Some w"
    using that assms(2) map_of_evict [of "order ?live" ?live k w]
      map_of_filter_values [of "\<lambda>v. \<not> now - w_start v > DenialWindow" "dw_at d" k w]
    by (auto simp: sweepLocked_def Let_def tidy_def split: if_splits)
qed

lemma note_tidy:
  assumes "meets_all order" and "tidy d"
  shows "tidy (fst (note_denial order i ip now d))"
proof (cases "ip = []")
  case False
  let ?d = "sweepLocked order now d"
  note sw = sweep_tidy(1,2) [OF assms, of now]
  have "length (AList.update (i, ip) v (dw_at ?d)) \<le> MaxDenialWindows" for v
    using update_length [of "(i, ip)" v "dw_at ?d"] sw(2) by simp
  with False sw(1) show ?thesis
    by (auto simp: note_denial_def Let_def tidy_def AList.distinct_update split: option.split)
qed (simp add: note_denial_def assms)

lemma tidy_step: "meets_all order \<Longrightarrow> tidy (fst s) \<Longrightarrow> tidy (fst (watch_step order e s))"
proof (cases e)
  case (Noted i ip now)
  assume a: "meets_all order" "tidy (fst s)"
  obtain d ws where "s = (d, ws)" by (cases s)
  with note_tidy [OF a, of i ip now] Noted show ?thesis by (auto split: prod.split)
next
  case (Forgotten i)
  assume "tidy (fst s)"
  then show ?thesis using Forgotten
    by (cases s) (auto simp: forget_def tidy_def distinct_map_filter intro: order.trans [OF length_filter_le])
qed

subsection \<open>The rate of the warnings\<close>

text \<open>What the open window of a pair holds towards its next warning.\<close>

definition towards :: "watch_key \<Rightarrow> denial_watch \<Rightarrow> int" where
  "towards k d = (case map_of (dw_at d) k of Some w \<Rightarrow> if w_reported w then 0 else w_count w | None \<Rightarrow> 0)"

definition counting :: "denial_watch \<Rightarrow> bool" where
  "counting d \<longleftrightarrow> (\<forall>k w. map_of (dw_at d) k = Some w \<longrightarrow>
     0 < w_count w \<and> (\<not> w_reported w \<longrightarrow> w_count w < DenialBurst))"

lemma towards_nonneg: "counting d \<Longrightarrow> 0 \<le> towards k d"
  by (cases k) (fastforce simp: counting_def towards_def split: option.split)

lemma towards_sweep:
  assumes "meets_all order" and "tidy d" and "counting d"
  shows "counting (sweepLocked order now d)" and "towards k (sweepLocked order now d) \<le> towards k d"
proof -
  note back' = sweep_tidy(3) [OF assms(1,2), where now = now]
  show "counting (sweepLocked order now d)"
    using assms(3) back' unfolding counting_def by blast
  show "towards k (sweepLocked order now d) \<le> towards k d"
  proof (cases "map_of (dw_at (sweepLocked order now d)) k")
    case None
    then show ?thesis using towards_nonneg [OF assms(3), of k] by (simp add: towards_def)
  next
    case (Some w)
    then show ?thesis using back' [of k w] by (simp add: towards_def)
  qed
qed

lemma counting_update:
  "counting d \<Longrightarrow> 0 < w_count w \<Longrightarrow> (\<not> w_reported w \<longrightarrow> w_count w < DenialBurst) \<Longrightarrow>
     counting (d\<lparr>dw_at := AList.update k w (dw_at d)\<rparr>)"
  unfolding counting_def by (simp add: update_conv')

lemma note_counts:
  assumes "meets_all order" and "tidy d" and "counting d"
    and n: "note_denial order i ip now d = (d', warned)"
  shows "counting d'"
    and "towards k d' + (if warned \<and> (i, ip) = k then DenialBurst else 0)
      \<le> towards k d + (if (i, ip) = k then 1 else 0)"
proof -
  let ?d = "sweepLocked order now d"
  note sw = towards_sweep [OF assms(1-3), where now = now]
  have nn: "0 \<le> towards k ?d" for k using towards_nonneg [OF sw(1)] .
  have own: "0 < w_count w" "\<not> w_reported w \<Longrightarrow> w_count w < DenialBurst"
    if "map_of (dw_at ?d) (i, ip) = Some w" for w
    using sw(1) that by (auto simp: counting_def)
  show "counting d'"
  proof (cases "ip = []")
    case False
    show ?thesis
    proof (cases "map_of (dw_at ?d) (i, ip)")
      case None
      then show ?thesis using n False counting_update [OF sw(1)]
        by (auto simp: note_denial_def Let_def DenialBurst_def)
    next
      case (Some w)
      then show ?thesis using n False counting_update [OF sw(1)] own [OF Some]
        by (auto simp: note_denial_def Let_def DenialBurst_def split: if_splits)
    qed
  qed (use n assms(3) in \<open>simp add: note_denial_def\<close>)
  show "towards k d' + (if warned \<and> (i, ip) = k then DenialBurst else 0)
      \<le> towards k d + (if (i, ip) = k then 1 else 0)"
  proof (cases "ip = []")
    case False
    show ?thesis
    proof (cases "map_of (dw_at ?d) (i, ip)")
      case None
      then show ?thesis using n False sw(2) [of k] nn [of k]
        by (auto simp: note_denial_def Let_def towards_def update_conv')
    next
      case (Some w)
      then show ?thesis using n False sw(2) [of k] nn [of k] own [OF Some]
        by (auto simp: note_denial_def Let_def towards_def update_conv' DenialBurst_def split: if_splits)
    qed
  qed (use n in \<open>auto simp: note_denial_def\<close>)
qed

lemma towards_forget: "counting d \<Longrightarrow> towards k (forget i d) \<le> towards k d"
proof -
  assume c: "counting d"
  have "map_of (filter (\<lambda>e. fst (fst e) \<noteq> i) al) k = (if fst k \<noteq> i then map_of al k else None)"
    for al :: "(watch_key \<times> denial_window) list"
    by (induction al) auto
  then show ?thesis using towards_nonneg [OF c, of k] by (simp add: towards_def forget_def)
qed

lemma counting_forget: "counting d \<Longrightarrow> counting (forget i d)"
proof -
  assume c: "counting d"
  have "map_of (filter (\<lambda>e. fst (fst e) \<noteq> i) al) k = (if fst k \<noteq> i then map_of al k else None)"
    for al :: "(watch_key \<times> denial_window) list" and k
    by (induction al) auto
  then show ?thesis using c by (simp add: counting_def forget_def)
qed

definition warnings :: "watch_key \<Rightarrow> watch_key list \<Rightarrow> nat" where
  "warnings k ws = count_list ws k"

lemma watch_run:
  assumes "meets_all order"
  shows "tidy d \<Longrightarrow> counting d \<Longrightarrow> run (watch_step order) es (d, ws) = (d', ws') \<Longrightarrow>
    tidy d' \<and> counting d' \<and>
    towards k d' + DenialBurst * int (warnings k ws')
      \<le> towards k d + DenialBurst * int (warnings k ws) + int (\<Sum>e\<leftarrow>es. notes_of k e)"
proof (induction es arbitrary: d ws)
  case (Cons e es)
  obtain d1 ws1 where s1: "watch_step order e (d, ws) = (d1, ws1)" by fastforce
  have t1: "tidy d1" using tidy_step [OF assms, of "(d, ws)" e] Cons.prems(1) s1 by simp
  have "counting d1 \<and> towards k d1 + DenialBurst * int (warnings k ws1)
      \<le> towards k d + DenialBurst * int (warnings k ws) + int (notes_of k e)"
  proof (cases e)
    case (Noted i ip now)
    obtain warned where n: "note_denial order i ip now d = (d1, warned)"
        and "ws1 = (if warned then (i, ip) # ws else ws)"
      using s1 Noted by (auto split: prod.splits)
    then show ?thesis using note_counts(1) [OF assms Cons.prems(1,2) n] note_counts(2) [OF assms Cons.prems(1,2) n, of k] Noted
      by (auto simp: warnings_def DenialBurst_def split: if_splits)
  next
    case (Forgotten i)
    then show ?thesis using s1 Cons.prems(2) towards_forget [of d k i] counting_forget [of d i]
      by (auto simp: DenialBurst_def)
  qed
  with Cons.IH [OF t1] Cons.prems(3) s1 show ?case by fastforce
qed simp

text \<open>
  The watch on refused requests stays small and quiet whoever floods it: it never holds more
  than \<open>MaxDenialWindows\<close> pairs of instance and address, and the warnings about one pair are at
  most a fifth of the refusals of that pair, in every order the sweeps may meet the entries.
\<close>

theorem the_watch_is_bounded:
  assumes "meets_all order"
  shows "length (dw_at (fst (run (watch_step order) es (new_watch, [])))) \<le> MaxDenialWindows
    \<and> 5 * warnings k (snd (run (watch_step order) es (new_watch, []))) \<le> (\<Sum>e\<leftarrow>es. notes_of k e)"
proof -
  obtain d ws where r: "run (watch_step order) es (new_watch, []) = (d, ws)" by fastforce
  have "tidy new_watch" "counting new_watch" "towards k new_watch = 0"
    by (simp_all add: tidy_def counting_def towards_def new_watch_def)
  with watch_run [OF assms _ _ r, of k] towards_nonneg [of d k] r show ?thesis
    by (auto simp: tidy_def DenialBurst_def warnings_def)
qed

theorem the_watch_is_bounded_witness:
  "length (dw_at (fst (run (watch_step (\<lambda>al. map fst al)) [Noted ''i1'' ''::1'' 0, Noted ''i1'' ''::1'' 1] (new_watch, [])))) \<le> 8192
    \<and> 5 * warnings (''i1'', ''::1'') (snd (run (watch_step (\<lambda>al. map fst al)) [Noted ''i1'' ''::1'' 0, Noted ''i1'' ''::1'' 1] (new_watch, []))) \<le> 2"
  using the_watch_is_bounded [of "\<lambda>al. map fst al" "[Noted ''i1'' ''::1'' 0, Noted ''i1'' ''::1'' 1]" "(''i1'', ''::1'')"]
  by (simp add: meets_all_def MaxDenialWindows_def del: run_simps)

end
