(* ===== verification/Gateway_Tap.thy ===== *)
theory Gateway_Tap
  imports Gateway_Usage "HOL-Library.Sublist"
begin

text \<open>
  The bounded tap on a response (\<open>src/internal/gateway/usagetap.go\<close>): the ring that keeps the last
  bytes, the pool it comes from, the reader that feeds it, and the two scans for the \<open>usage\<close>
  object. Bytes are characters. \<open>json.Unmarshal\<close> into the two anonymous structs of the file is
  a parameter: it gives nothing on an error, and the fields it found otherwise.
  \<open>bytes.TrimSpace\<close> trims ASCII space here; the spaces beyond ASCII are not modelled.
\<close>

subsection \<open>The ring\<close>

text \<open>A slice is its visible bytes, and the rest of its capacity.\<close>

record ring =
  rg_buf :: string
  rg_spare :: string
  rg_pos :: nat
  rg_full :: bool

definition empty_ring :: ring where
  "empty_ring = \<lparr>rg_buf = [], rg_spare = [], rg_pos = 0, rg_full = False\<rparr>"

text \<open>The copying loop of \<open>Write\<close>. A position past the buffer would panic, and a buffer of no
  bytes would never end; neither gives a ring.\<close>

partial_function (option) fill :: "string \<Rightarrow> ring \<Rightarrow> ring option" where
  "fill p r = (if p = [] then Some r
     else if rg_pos r > length (rg_buf r) then None
     else let c = min (length (rg_buf r) - rg_pos r) (length p);
              buf = take (rg_pos r) (rg_buf r) @ take c p @ drop (rg_pos r + c) (rg_buf r);
              pos = rg_pos r + c
          in if pos = length buf then fill (drop c p) (r\<lparr>rg_buf := buf, rg_pos := 0, rg_full := True\<rparr>)
             else fill (drop c p) (r\<lparr>rg_buf := buf, rg_pos := pos\<rparr>))"

definition ring_write :: "string \<Rightarrow> ring \<Rightarrow> ring option" where
  "ring_write p r =
     (if length (rg_buf r) = 0 then Some r
      else if length p \<ge> length (rg_buf r)
      then Some (r\<lparr>rg_buf := drop (length p - length (rg_buf r)) p, rg_pos := 0, rg_full := True\<rparr>)
      else fill p r)"

definition ring_bytes :: "ring \<Rightarrow> string" where
  "ring_bytes r = (if \<not> rg_full r then take (rg_pos r) (rg_buf r)
     else drop (rg_pos r) (rg_buf r) @ take (rg_pos r) (rg_buf r))"

text \<open>The pool: \<open>get\<close> resizes whatever ring the pool handed out, \<open>put\<close> keeps one with a buffer.\<close>

definition pool_get :: "nat \<Rightarrow> ring \<Rightarrow> ring" where
  "pool_get n r =
     (let whole = (if length (rg_buf r) + length (rg_spare r) < n
                   then replicate n (CHR 0x00) else rg_buf r @ rg_spare r)
      in \<lparr>rg_buf = take n whole, rg_spare = drop n whole, rg_pos = 0, rg_full = False\<rparr>)"

definition pool_put :: "ring \<Rightarrow> ring list \<Rightarrow> ring list" where
  "pool_put r pool = (if length (rg_buf r) + length (rg_spare r) = 0 then pool
     else r\<lparr>rg_pos := 0, rg_full := False\<rparr> # pool)"

subsection \<open>Finding the object\<close>

definition json_space :: "char \<Rightarrow> bool" where
  "json_space c \<longleftrightarrow> c = CHR '' '' \<or> c = CHR 0x09 \<or> c = CHR 0x0A \<or> c = CHR 0x0D"

text \<open>The brace matcher: the length of the object from the first byte on, if it ends.\<close>

fun match_braces :: "int \<Rightarrow> bool \<Rightarrow> bool \<Rightarrow> string \<Rightarrow> nat option" where
  "match_braces depth inString escaped [] = None"
| "match_braces depth inString escaped (c # s) =
     (if escaped then map_option Suc (match_braces depth inString False s)
      else if inString \<and> c = CHR 0x5C then map_option Suc (match_braces depth inString True s)
      else if c = CHR 0x22 then map_option Suc (match_braces depth (\<not> inString) False s)
      else if inString then map_option Suc (match_braces depth inString False s)
      else if c = CHR ''{'' then map_option Suc (match_braces (depth + 1) inString False s)
      else if c = CHR ''}'' then (if depth - 1 = 0 then Some 1 else map_option Suc (match_braces (depth - 1) inString False s))
      else map_option Suc (match_braces depth inString False s))"

definition objectAfter :: "string \<Rightarrow> nat \<Rightarrow> string option" where
  "objectAfter b i = (case dropWhile json_space (drop i b) of
       [] \<Rightarrow> None
     | c # s \<Rightarrow> if c \<noteq> CHR '':'' then None
       else (case dropWhile json_space s of
          [] \<Rightarrow> None
        | d # t \<Rightarrow> if d \<noteq> CHR ''{'' then None
          else map_option (\<lambda>n. take n (d # t)) (match_braces 0 False False (d # t))))"

subsection \<open>The scans\<close>

definition usageKey :: string where
  "usageKey = CHR 0x22 # ''usage'' @ [CHR 0x22]"

text \<open>\<open>bytes.LastIndex\<close>.\<close>

definition last_index :: "string \<Rightarrow> string \<Rightarrow> nat option" where
  "last_index s k = find (\<lambda>i. prefix k (drop i s)) (rev [0..<Suc (length s)])"

type_synonym token_counts = "int option \<times> int option"

definition decodeUsage :: "(string \<Rightarrow> token_counts option) \<Rightarrow> string \<Rightarrow> usage option" where
  "decodeUsage unm obj = (case unm obj of
       None \<Rightarrow> None
     | Some (p, c) \<Rightarrow> if p = None \<and> c = None then None
                     else Some \<lparr>u_PromptTokens = p, u_CompletionTokens = c\<rparr>)"

definition no_usage :: usage where
  "no_usage = \<lparr>u_PromptTokens = None, u_CompletionTokens = None\<rparr>"

text \<open>The loop of \<open>parseJSONUsage\<close>: the next match is looked for before the last one.\<close>

lemma find_SomeD: "find Q xs = Some x \<Longrightarrow> Q x \<and> x \<in> set xs"
  by (induction xs) (auto split: if_splits)

lemma last_index_prefix: "last_index s k = Some i \<Longrightarrow> prefix k (drop i s)"
  unfolding last_index_def by (drule find_SomeD) simp

lemma last_index_less: "last_index (take n s) usageKey = Some i \<Longrightarrow> i < n"
proof -
  assume "last_index (take n s) usageKey = Some i"
  then have p: "prefix usageKey (drop i (take n s))" by (rule last_index_prefix)
  have "drop i (take n s) \<noteq> []" using p by (auto simp: usageKey_def)
  then show ?thesis by simp
qed

function scan_back :: "(string \<Rightarrow> token_counts option) \<Rightarrow> string \<Rightarrow> nat \<Rightarrow> usage" where
  "scan_back unm tail n = (case last_index (take n tail) usageKey of
       None \<Rightarrow> no_usage
     | Some i \<Rightarrow> (case objectAfter tail (i + length usageKey) of
           None \<Rightarrow> scan_back unm tail i
         | Some obj \<Rightarrow> (case decodeUsage unm obj of
               Some u \<Rightarrow> u
             | None \<Rightarrow> scan_back unm tail i)))"
  by pat_completeness auto
termination
  by (relation "measure (\<lambda>(unm, tail, n). n)") (auto dest: last_index_less)

declare scan_back.simps [simp del]

definition parseJSONUsage :: "(string \<Rightarrow> token_counts option) \<Rightarrow> string \<Rightarrow> usage" where
  "parseJSONUsage unm tail = scan_back unm tail (length tail)"

text \<open>The event stream: lines from the last to the first; \<open>unmf\<close> gives the raw \<open>usage\<close> field of a
  frame, empty when it is absent.\<close>

fun split_at :: "char \<Rightarrow> string \<Rightarrow> string list" where
  "split_at sep [] = [[]]"
| "split_at sep (c # s) = (if c = sep then [] # split_at sep s
     else (case split_at sep s of [] \<Rightarrow> [[c]] | l # ls \<Rightarrow> (c # l) # ls))"

definition trim_right :: "(char \<Rightarrow> bool) \<Rightarrow> string \<Rightarrow> string" where
  "trim_right Q s = rev (dropWhile Q (rev s))"

definition go_space :: "char \<Rightarrow> bool" where
  "go_space c \<longleftrightarrow> json_space c \<or> c = CHR 0x0B \<or> c = CHR 0x0C"

definition trim_space :: "string \<Rightarrow> string" where
  "trim_space s = trim_right go_space (dropWhile go_space s)"

definition frame_payload :: "string \<Rightarrow> string option" where
  "frame_payload l = (case cut_prefix (trim_right (\<lambda>c. c = CHR 0x0D) l) ''data:'' of
       None \<Rightarrow> None
     | Some s \<Rightarrow> (let p = trim_space s in if p = [] \<or> p = ''[DONE]'' then None else Some p))"

fun scan_frames :: "(string \<Rightarrow> string option) \<Rightarrow> (string \<Rightarrow> token_counts option) \<Rightarrow> string list \<Rightarrow> usage" where
  "scan_frames unmf unm [] = no_usage"
| "scan_frames unmf unm (l # ls) = (case frame_payload l of
       None \<Rightarrow> scan_frames unmf unm ls
     | Some p \<Rightarrow> (case unmf p of
         None \<Rightarrow> scan_frames unmf unm ls
       | Some raw \<Rightarrow> if raw = [] \<or> raw = ''null'' then scan_frames unmf unm ls
         else (case decodeUsage unm raw of
           Some u \<Rightarrow> u
         | None \<Rightarrow> scan_frames unmf unm ls)))"

definition parseStreamUsage :: "(string \<Rightarrow> string option) \<Rightarrow> (string \<Rightarrow> token_counts option) \<Rightarrow> string \<Rightarrow> usage" where
  "parseStreamUsage unmf unm tail = scan_frames unmf unm (rev (split_at (CHR 0x0A) tail))"

subsection \<open>The reader\<close>

record tail_tap =
  tp_ring :: ring
  tp_pool :: "ring list"
  tp_stream :: bool
  tp_seen :: usage
  tp_done :: bool

definition new_tap :: "ring \<Rightarrow> ring list \<Rightarrow> bool \<Rightarrow> tail_tap" where
  "new_tap r pool stream = \<lparr>tp_ring = r, tp_pool = pool, tp_stream = stream, tp_seen = no_usage, tp_done = False\<rparr>"

definition tap_finish :: "(string \<Rightarrow> string option) \<Rightarrow> (string \<Rightarrow> token_counts option) \<Rightarrow> tail_tap \<Rightarrow> tail_tap" where
  "tap_finish unmf unm t = (if tp_done t then t
     else let tail = ring_bytes (tp_ring t)
          in t\<lparr>tp_done := True,
               tp_seen := (if tp_stream t then parseStreamUsage unmf unm tail else parseJSONUsage unm tail),
               tp_pool := pool_put (tp_ring t) (tp_pool t), tp_ring := empty_ring\<rparr>)"

text \<open>What the client does with the body: a read hands on the bytes the upstream gave, the last
  one perhaps with the end of the body, and a close ends it.\<close>

datatype tap_event = TapRead string bool | TapClose

fun tap_step :: "(string \<Rightarrow> string option) \<Rightarrow> (string \<Rightarrow> token_counts option) \<Rightarrow> tap_event
    \<Rightarrow> tail_tap \<Rightarrow> (tail_tap \<times> string) option" where
  "tap_step unmf unm (TapRead p eof) t =
     (case if p = [] then Some (tp_ring t) else ring_write p (tp_ring t) of
        None \<Rightarrow> None
      | Some r \<Rightarrow> let t1 = t\<lparr>tp_ring := r\<rparr> in Some (if eof then tap_finish unmf unm t1 else t1, p))"
| "tap_step unmf unm TapClose t = Some (tap_finish unmf unm t, [])"

fun tap_run :: "(string \<Rightarrow> string option) \<Rightarrow> (string \<Rightarrow> token_counts option) \<Rightarrow> tap_event list
    \<Rightarrow> tail_tap \<Rightarrow> (tail_tap \<times> string) option" where
  "tap_run unmf unm [] t = Some (t, [])"
| "tap_run unmf unm (e # es) t = (case tap_step unmf unm e t of
       None \<Rightarrow> None
     | Some (t1, out) \<Rightarrow> map_option (\<lambda>(t2, outs). (t2, out @ outs)) (tap_run unmf unm es t1))"

end
