(* ===== verification/Gateway_Ring.thy ===== *)
theory Gateway_Ring
  imports Gateway_Tap
begin

text \<open>
  The ring keeps exactly the last bytes of what went through, whatever the sizes of the chunks
  and whatever the pool handed out, and its loop ends.
\<close>

definition last_bytes :: "nat \<Rightarrow> string \<Rightarrow> string" where
  "last_bytes n w = drop (length w - n) w"

lemma last_bytes_short: "length w \<le> n \<Longrightarrow> last_bytes n w = w"
  by (simp add: last_bytes_def)

text \<open>The ring holds the tail of what was written to it.\<close>

definition ring_holds :: "nat \<Rightarrow> ring \<Rightarrow> string \<Rightarrow> bool" where
  "ring_holds n r w \<longleftrightarrow> length (rg_buf r) = n \<and> rg_pos r < n \<and> ring_bytes r = last_bytes n w
     \<and> (rg_full r \<longleftrightarrow> n \<le> length w)"

lemma ring_holds_step:
  assumes "ring_holds n r w" and "length p \<le> n - rg_pos r"
  defines "buf \<equiv> take (rg_pos r) (rg_buf r) @ p @ drop (rg_pos r + length p) (rg_buf r)"
  shows "rg_pos r + length p = n \<Longrightarrow> ring_holds n (r\<lparr>rg_buf := buf, rg_pos := 0, rg_full := True\<rparr>) (w @ p)"
    and "rg_pos r + length p < n \<Longrightarrow> ring_holds n (r\<lparr>rg_buf := buf, rg_pos := rg_pos r + length p\<rparr>) (w @ p)"
proof -
  from assms(1) have n: "length (rg_buf r) = n" "rg_pos r < n" by (simp_all add: ring_holds_def)
  have held: "ring_bytes r = last_bytes n w" and fl: "rg_full r \<longleftrightarrow> n \<le> length w"
    using assms(1) by (simp_all add: ring_holds_def)
  have pos: "\<not> rg_full r \<Longrightarrow> rg_pos r = length w"
  proof -
    assume "\<not> rg_full r"
    with held fl n have "take (rg_pos r) (rg_buf r) = w" by (simp add: ring_bytes_def last_bytes_short)
    with n show ?thesis by (metis length_take min.absorb4)
  qed
  have app: "last_bytes n (w @ p) = (if rg_full r then drop (length p) (last_bytes n w) @ p else w @ p)"
    if "rg_pos r + length p \<le> n"
    using that pos fl by (auto simp: last_bytes_def add.commute [of "length w"])
  have rot: "drop (length p) (last_bytes n w) = drop (rg_pos r + length p) (rg_buf r) @ take (rg_pos r) (rg_buf r)"
    if "rg_full r"
    using held that n assms(2) by (simp add: ring_bytes_def flip: held) (simp add: add.commute)
  { assume full: "rg_pos r + length p = n"
    show "ring_holds n (r\<lparr>rg_buf := buf, rg_pos := 0, rg_full := True\<rparr>) (w @ p)"
      using n full app rot pos fl held
      by (cases "rg_full r") (auto simp: ring_holds_def ring_bytes_def buf_def last_bytes_short)
  next
    assume less: "rg_pos r + length p < n"
    show "ring_holds n (r\<lparr>rg_buf := buf, rg_pos := rg_pos r + length p\<rparr>) (w @ p)"
      using n less app rot pos fl held
      by (cases "rg_full r") (auto simp: ring_holds_def ring_bytes_def buf_def last_bytes_short) }
qed

lemma fill_keeps:
  assumes "ring_holds n r w"
  shows "\<exists>r'. fill p r = Some r' \<and> ring_holds n r' (w @ p)"
  using assms
proof (induction "length p" arbitrary: p r w rule: less_induct)
  case less
  show ?case
  proof (cases "p = []")
    case True
    then show ?thesis using less.prems by (simp add: fill.simps)
  next
    case False
    let ?c = "min (n - rg_pos r) (length p)"
    let ?buf = "take (rg_pos r) (rg_buf r) @ take ?c p @ drop (rg_pos r + ?c) (rg_buf r)"
    from less.prems have n: "length (rg_buf r) = n" "rg_pos r < n" by (simp_all add: ring_holds_def)
    with False have c: "0 < ?c" by auto
    have len: "length (take ?c p) = ?c" by simp
    have buf: "length ?buf = n" using n by auto
    let ?r = "if rg_pos r + ?c = n then r\<lparr>rg_buf := ?buf, rg_pos := 0, rg_full := True\<rparr>
              else r\<lparr>rg_buf := ?buf, rg_pos := rg_pos r + ?c\<rparr>"
    have "ring_holds n ?r (w @ take ?c p)"
      using ring_holds_step [OF less.prems, of "take ?c p"] n unfolding len by auto
    moreover have "length (drop ?c p) < length p" using c False by simp
    ultimately obtain r' where "fill (drop ?c p) ?r = Some r'" and "ring_holds n r' ((w @ take ?c p) @ drop ?c p)"
      using less.hyps by blast
    moreover have "fill p r = fill (drop ?c p) ?r"
      using False n buf by (subst fill.simps) (simp add: Let_def)
    ultimately show ?thesis by (metis append.assoc append_take_drop_id)
  qed
qed

lemma write_keeps:
  assumes "ring_holds n r w"
  shows "\<exists>r'. ring_write p r = Some r' \<and> ring_holds n r' (w @ p)"
proof (cases "n \<le> length p")
  case True
  then show ?thesis using assms
    by (auto simp: ring_write_def ring_holds_def ring_bytes_def last_bytes_def)
next
  case False
  with assms show ?thesis using fill_keeps [OF assms, of p] by (auto simp: ring_write_def ring_holds_def)
qed

fun write_chunks :: "string list \<Rightarrow> ring \<Rightarrow> ring option" where
  "write_chunks [] r = Some r"
| "write_chunks (p # ps) r = Option.bind (ring_write p r) (write_chunks ps)"

lemma chunks_keep:
  "ring_holds n r w \<Longrightarrow> \<exists>r'. write_chunks ps r = Some r' \<and> ring_holds n r' (w @ concat ps)"
proof (induction ps arbitrary: r w)
  case (Cons p ps)
  from write_keeps [OF Cons.prems, of p] obtain r1 where "ring_write p r = Some r1" "ring_holds n r1 (w @ p)" by blast
  with Cons.IH [of r1 "w @ p"] show ?case by auto
qed simp

lemma pool_ring_holds: "0 < n \<Longrightarrow> ring_holds n (pool_get n r) []"
  by (simp add: ring_holds_def pool_get_def Let_def ring_bytes_def last_bytes_def)

lemma no_ring_keeps: "rg_buf r = [] \<Longrightarrow> write_chunks ps r = Some r"
  by (induction ps) (simp_all add: ring_write_def)

text \<open>
  C32. A ring of \<open>n\<close> bytes taken from the pool, whatever was in it, holds after any sequence of
  writes exactly the last \<open>n\<close> bytes of all that was written, in order, however it was cut into
  chunks; every write ends and none panics, and the buffer never grows.
\<close>

theorem the_ring_keeps_the_tail:
  "\<exists>r'. write_chunks ps (pool_get n r) = Some r'
    \<and> ring_bytes r' = drop (length (concat ps) - n) (concat ps) \<and> length (rg_buf r') = n"
proof (cases "n = 0")
  case True
  then have "rg_buf (pool_get n r) = []" "\<not> rg_full (pool_get n r)" by (simp_all add: pool_get_def Let_def)
  with no_ring_keeps [of "pool_get n r" ps] True show ?thesis by (simp add: ring_bytes_def)
next
  case False
  then show ?thesis using chunks_keep [OF pool_ring_holds [of n r], of ps]
    by (auto simp: ring_holds_def last_bytes_def)
qed

end
