(* ===== verification/Gateway_Scan.thy ===== *)
theory Gateway_Scan
  imports Gateway_Ring
begin

text \<open>
  What the tap finds. A JSON text is balanced: braces outside of its strings match. The scan
  takes an object out of any text around it, and the tap, which hands every byte on as it came,
  reports the counts of the last \<open>usage\<close> object of a response whose tail fits into the ring.
\<close>

subsection \<open>Balanced text\<close>

text \<open>The inside of a JSON string, where a backslash takes the next byte with it.\<close>

fun str_body :: "string \<Rightarrow> bool" where
  "str_body [] = True"
| "str_body (c # s) = (if c = CHR 0x5C then (case s of [] \<Rightarrow> False | d # t \<Rightarrow> str_body t)
     else c \<noteq> CHR 0x22 \<and> str_body s)"

inductive balanced_text :: "string \<Rightarrow> bool" where
  bal_nil: "balanced_text []"
| bal_plain: "balanced_text s \<Longrightarrow> c \<noteq> CHR 0x22 \<Longrightarrow> c \<noteq> CHR ''{'' \<Longrightarrow> c \<noteq> CHR ''}'' \<Longrightarrow> balanced_text (c # s)"
| bal_string: "str_body t \<Longrightarrow> balanced_text s \<Longrightarrow> balanced_text (CHR 0x22 # t @ CHR 0x22 # s)"
| bal_object: "balanced_text t \<Longrightarrow> balanced_text s \<Longrightarrow> balanced_text (CHR ''{'' # t @ CHR ''}'' # s)"

inductive_cases balanced_ConsE: "balanced_text (c # s)"

lemma match_string:
  "str_body t \<Longrightarrow> match_braces d True False (t @ CHR 0x22 # rest) =
     map_option (\<lambda>k. length t + 1 + k) (match_braces d False False rest)"
proof (induction t rule: str_body.induct)
  case (2 c s)
  show ?case
  proof (cases "c = CHR 0x5C")
    case True
    with 2 show ?thesis by (cases s) (auto simp: option.map_comp o_def)
  next
    case False
    with 2 show ?thesis by (simp add: option.map_comp o_def)
  qed
next
  case 1
  show ?case by (cases "match_braces d False False rest") simp_all
qed

lemma match_balanced:
  "balanced_text s \<Longrightarrow> 0 < d \<Longrightarrow> match_braces d False False (s @ rest) =
     map_option (\<lambda>k. length s + k) (match_braces d False False rest)"
proof (induction arbitrary: d rest rule: balanced_text.induct)
  case bal_nil
  show ?case by (simp add: option.map_ident)
next
  case (bal_plain s c)
  then show ?case by (simp add: option.map_comp o_def)
next
  case (bal_string t s)
  then show ?case by (simp add: match_string option.map_comp o_def add.assoc)
next
  case (bal_object t s)
  then show ?case by (simp add: option.map_comp o_def add.assoc)
qed

lemma match_object:
  "balanced_text s \<Longrightarrow> match_braces 0 False False (CHR ''{'' # s @ CHR ''}'' # rest) = Some (length s + 2)"
  by (simp add: match_balanced)

lemma dropWhile_spaces: "list_all json_space ws \<Longrightarrow> \<not> json_space c \<Longrightarrow> dropWhile json_space (ws @ c # s) = c # s"
  by (induction ws) auto

lemma objectAfter_finds:
  assumes "list_all json_space ws" and "list_all json_space ws'" and "balanced_text s"
    and "drop i b = ws @ CHR '':'' # ws' @ CHR ''{'' # s @ CHR ''}'' # post"
  shows "objectAfter b i = Some (CHR ''{'' # s @ [CHR ''}''])"
  using assms(1-3) match_object [OF assms(3), of post]
  by (simp add: objectAfter_def assms(4) dropWhile_spaces json_space_def)

subsection \<open>Every JSON text is balanced\<close>

datatype json = JWord string | JStr string | JArr "json list" | JObj "(string \<times> json) list"

definition escaped :: "char \<Rightarrow> string" where
  "escaped c = (if c = CHR 0x22 \<or> c = CHR 0x5C then [CHR 0x5C, c] else [c])"

definition quoted :: "string \<Rightarrow> string" where
  "quoted s = CHR 0x22 # concat (map escaped s) @ [CHR 0x22]"

fun commas :: "string list \<Rightarrow> string" where
  "commas [] = []"
| "commas [s] = s"
| "commas (s # ss) = s @ CHR '','' # commas ss"

fun print :: "json \<Rightarrow> string" where
  "print (JWord w) = filter (\<lambda>c. c \<noteq> CHR 0x22 \<and> c \<noteq> CHR ''{'' \<and> c \<noteq> CHR ''}'') w"
| "print (JStr s) = quoted s"
| "print (JArr js) = CHR ''['' # commas (map print js) @ '']''"
| "print (JObj fs) = CHR ''{'' # commas (map (\<lambda>(k, j). quoted k @ CHR '':'' # print j) fs) @ ''}''"

lemma str_body_append: "str_body t \<Longrightarrow> str_body s \<Longrightarrow> str_body (t @ s)"
proof (induction t rule: str_body.induct)
  case (2 c t)
  then show ?case by (cases t) (auto split: if_splits)
qed simp

lemma str_body_escaped: "str_body (concat (map escaped s))"
  by (induction s) (auto simp: escaped_def str_body_append)

lemma balanced_append: "balanced_text t \<Longrightarrow> balanced_text s \<Longrightarrow> balanced_text (t @ s)"
  by (induction rule: balanced_text.induct) (auto intro: balanced_text.intros)

lemma balanced_quoted: "balanced_text (quoted s)"
  unfolding quoted_def by (intro bal_string bal_nil str_body_escaped)

lemma balanced_commas: "list_all balanced_text ss \<Longrightarrow> balanced_text (commas ss)"
  by (induction ss rule: commas.induct) (auto intro!: balanced_append bal_plain bal_nil)

lemma balanced_plain: "list_all (\<lambda>c. c \<noteq> CHR 0x22 \<and> c \<noteq> CHR ''{'' \<and> c \<noteq> CHR ''}'') s \<Longrightarrow> balanced_text s"
  by (induction s) (auto intro: balanced_text.intros)

lemma print_balanced: "balanced_text (print j)"
proof (induction j rule: print.induct)
  case (1 w)
  show ?case by (simp add: balanced_plain list_all_iff)
next
  case (2 s)
  show ?case by (simp add: balanced_quoted)
next
  case (3 js)
  then have "balanced_text (commas (map print js))" by (intro balanced_commas) (simp add: list_all_iff)
  then show ?case by (auto intro!: bal_plain balanced_append bal_nil)
next
  case (4 fs)
  have "balanced_text (commas (map (\<lambda>(k, j). quoted k @ CHR '':'' # print j) fs))"
    by (intro balanced_commas) (auto simp: list_all_iff intro!: balanced_append balanced_quoted bal_plain 4)
  then show ?case by (auto intro!: bal_object bal_nil)
qed

subsection \<open>The last key\<close>

lemma find_rev_upt:
  "find Q (rev [0..<m]) = Some i \<longleftrightarrow> i < m \<and> Q i \<and> (\<forall>j<m. i < j \<longrightarrow> \<not> Q j)"
  by (induction m) (auto simp: less_Suc_eq)

lemma last_index_iff:
  "last_index s k = Some i \<longleftrightarrow> i \<le> length s \<and> prefix k (drop i s) \<and> (\<forall>j\<le>length s. i < j \<longrightarrow> \<not> prefix k (drop j s))"
  unfolding last_index_def find_rev_upt by (simp add: less_Suc_eq_le)

lemma last_index_append: "last_index s k = Some 0 \<Longrightarrow> last_index (p @ s) k = Some (length p)"
  by (auto simp: last_index_iff)

lemma json_found:
  assumes "tail = pre @ usageKey @ rest" and "last_index (usageKey @ rest) usageKey = Some 0"
    and "rest = ws @ CHR '':'' # ws' @ CHR ''{'' # s @ CHR ''}'' # post"
    and "list_all json_space ws" and "list_all json_space ws'" and "balanced_text s"
    and "decodeUsage unm (CHR ''{'' # s @ [CHR ''}'']) = Some u"
  shows "parseJSONUsage unm tail = u"
proof -
  have "drop (length pre + length usageKey) tail = rest" by (simp add: assms(1))
  then have "objectAfter tail (length pre + length usageKey) = Some (CHR ''{'' # s @ [CHR ''}''])"
    using assms(3-6) by (intro objectAfter_finds) simp_all
  moreover have "last_index tail usageKey = Some (length pre)"
    unfolding assms(1) by (rule last_index_append [OF assms(2)])
  ultimately show ?thesis using assms(7) by (simp add: parseJSONUsage_def scan_back.simps)
qed

lemma split_lines: "split_at sep (a @ sep # b) = split_at sep a @ split_at sep b"
proof (induction a)
  case (Cons c a)
  have "split_at sep a \<noteq> []" by (induction a) (auto split: list.split)
  with Cons show ?case by (auto split: list.split)
qed simp

lemma split_one: "sep \<notin> set l \<Longrightarrow> split_at sep l = [l]"
  by (induction l) auto

lemma scan_skips: "list_all (\<lambda>l. frame_payload l = None) ls \<Longrightarrow> scan_frames unmf unm (ls @ ls') = scan_frames unmf unm ls'"
  by (induction ls) auto

lemma stream_found:
  assumes "tail = l @ CHR 0x0A # post \<or> tail = pre @ CHR 0x0A # l @ CHR 0x0A # post"
    and "CHR 0x0A \<notin> set l" and "frame_payload l = Some p" and "unmf p = Some raw"
    and "raw \<noteq> []" and "raw \<noteq> ''null''" and "decodeUsage unm raw = Some u"
    and "list_all (\<lambda>l'. frame_payload l' = None) (split_at (CHR 0x0A) post)"
  shows "parseStreamUsage unmf unm tail = u"
proof -
  obtain ls where "split_at (CHR 0x0A) tail = ls @ [l] @ split_at (CHR 0x0A) post"
    using assms(1) by (auto simp: split_lines split_one [OF assms(2)])
  then have "parseStreamUsage unmf unm tail = scan_frames unmf unm (rev (split_at (CHR 0x0A) post) @ l # rev ls)"
    by (simp add: parseStreamUsage_def)
  then show ?thesis using assms(3-8) by (simp add: scan_skips)
qed

subsection \<open>The tap\<close>

text \<open>A body read to its end, or closed before it.\<close>

definition body_events :: "string list \<Rightarrow> string option \<Rightarrow> tap_event list" where
  "body_events ps fin = map (\<lambda>p. TapRead p False) ps
     @ (case fin of None \<Rightarrow> [TapClose] | Some p \<Rightarrow> [TapRead p True, TapClose])"

definition body_of :: "string list \<Rightarrow> string option \<Rightarrow> string" where
  "body_of ps fin = concat ps @ (case fin of None \<Rightarrow> [] | Some p \<Rightarrow> p)"

definition parse_tail :: "(string \<Rightarrow> string option) \<Rightarrow> (string \<Rightarrow> token_counts option) \<Rightarrow> bool \<Rightarrow> string \<Rightarrow> usage" where
  "parse_tail unmf unm stream s = (if stream then parseStreamUsage unmf unm s else parseJSONUsage unm s)"

lemma write_nothing: "ring_write [] r = Some r"
  by (simp add: ring_write_def fill.simps)

lemma tap_reads:
  "write_chunks ps (tp_ring t) = Some r \<Longrightarrow>
     tap_run unmf unm (map (\<lambda>p. TapRead p False) ps @ es) t =
       map_option (\<lambda>(t', out). (t', concat ps @ out)) (tap_run unmf unm es (t\<lparr>tp_ring := r\<rparr>))"
proof (induction ps arbitrary: t)
  case Nil
  then have "t\<lparr>tp_ring := r\<rparr> = t" by (cases t) auto
  then show ?case by (simp add: case_prod_unfold option.map_ident)
next
  case (Cons p ps)
  then obtain r1 where r1: "ring_write p (tp_ring t) = Some r1" "write_chunks ps r1 = Some r"
    by (auto simp: bind_eq_Some_conv)
  then have "(if p = [] then Some (tp_ring t) else ring_write p (tp_ring t)) = Some r1"
    by (auto simp: write_nothing)
  with Cons.IH [of "t\<lparr>tp_ring := r1\<rparr>"] r1(2) show ?case
    by (simp add: option.map_comp o_def case_prod_unfold)
qed

lemma finish_twice: "tap_finish unmf unm (tap_finish unmf unm t) = tap_finish unmf unm t"
  by (simp add: tap_finish_def Let_def)

lemma tap_sees:
  assumes "0 < n"
  shows "\<exists>t. tap_run unmf unm (body_events ps fin) (new_tap (pool_get n r) pool stream) = Some (t, body_of ps fin)
    \<and> tp_seen t = parse_tail unmf unm stream (last_bytes n (body_of ps fin)) \<and> tp_ring t = empty_ring"
proof -
  obtain r1 where r1: "write_chunks ps (pool_get n r) = Some r1" "ring_holds n r1 (concat ps)"
    using chunks_keep [OF pool_ring_holds [OF assms, of r], of ps] by auto
  note run = tap_reads [of ps "new_tap (pool_get n r) pool stream" r1 unmf unm]
  show ?thesis
  proof (cases fin)
    case None
    with r1 run [of "[TapClose]"] show ?thesis
      by (simp add: new_tap_def body_events_def body_of_def tap_finish_def parse_tail_def Let_def ring_holds_def)
  next
    case (Some p)
    obtain r2 where r2: "ring_write p r1 = Some r2" "ring_holds n r2 (concat ps @ p)"
      using write_keeps [OF r1(2)] by blast
    then have "(if p = [] then Some r1 else ring_write p r1) = Some r2" by (auto simp: write_nothing)
    with r1 r2 run [of "[TapRead p True, TapClose]"] Some show ?thesis
      by (simp add: new_tap_def body_events_def body_of_def finish_twice)
        (simp add: tap_finish_def parse_tail_def Let_def ring_holds_def)
  qed
qed

lemma last_bytes_keep: "length s \<le> n \<Longrightarrow> \<exists>pre'. last_bytes n (pre @ s) = pre' @ s"
  by (simp add: last_bytes_def)

text \<open>
  C33. What the tap reports is what the upstream said: when a body ends in an object under the key
  \<open>"usage"\<close> (the last such key, any text with matching braces before and after it) and the ring
  is long enough to hold the response from that key on, then every byte reaches the client
  unchanged and the counts of that object are reported, however the body was cut into reads,
  whether it was read to its end or closed, and whatever ring the pool handed out.
\<close>

theorem the_tap_reports_the_last_usage:
  assumes "body_of ps fin = pre @ usageKey @ rest" and "last_index (usageKey @ rest) usageKey = Some 0"
    and "rest = ws @ CHR '':'' # ws' @ CHR ''{'' # s @ CHR ''}'' # post"
    and "list_all json_space ws" and "list_all json_space ws'" and "balanced_text s"
    and "unm (CHR ''{'' # s @ [CHR ''}'']) = Some (p, c)" and "p \<noteq> None \<or> c \<noteq> None"
    and "length (usageKey @ rest) \<le> n"
  shows "\<exists>t. tap_run unmf unm (body_events ps fin) (new_tap (pool_get n r) pool False) = Some (t, body_of ps fin)
    \<and> tp_seen t = \<lparr>u_PromptTokens = p, u_CompletionTokens = c\<rparr>"
proof -
  obtain pre' where tail: "last_bytes n (body_of ps fin) = pre' @ usageKey @ rest"
    using last_bytes_keep [OF assms(9)] assms(1) by auto
  have "decodeUsage unm (CHR ''{'' # s @ [CHR ''}'']) = Some \<lparr>u_PromptTokens = p, u_CompletionTokens = c\<rparr>"
    using assms(7,8) by (auto simp: decodeUsage_def)
  note found = json_found [OF tail assms(2-6) this]
  have "0 < n" using assms(9) by (simp add: usageKey_def)
  from tap_sees [OF this, of unmf unm ps fin r pool False] found show ?thesis
    by (auto simp: parse_tail_def)
qed

text \<open>The same of an event stream: the counts of the last frame that carries any.\<close>

theorem the_tap_reports_the_last_frame:
  assumes "body_of ps fin = pre @ CHR 0x0A # l @ CHR 0x0A # post" and "CHR 0x0A \<notin> set l"
    and "frame_payload l = Some f" and "unmf f = Some raw" and "raw \<noteq> []" and "raw \<noteq> ''null''"
    and "unm raw = Some (p, c)" and "p \<noteq> None \<or> c \<noteq> None"
    and "list_all (\<lambda>l'. frame_payload l' = None) (split_at (CHR 0x0A) post)"
    and "length (l @ CHR 0x0A # post) \<le> n"
  shows "\<exists>t. tap_run unmf unm (body_events ps fin) (new_tap (pool_get n r) pool True) = Some (t, body_of ps fin)
    \<and> tp_seen t = \<lparr>u_PromptTokens = p, u_CompletionTokens = c\<rparr>"
proof -
  have dec: "decodeUsage unm raw = Some \<lparr>u_PromptTokens = p, u_CompletionTokens = c\<rparr>"
    using assms(7,8) by (auto simp: decodeUsage_def)
  have "last_bytes n (body_of ps fin) = l @ CHR 0x0A # post
      \<or> (\<exists>pre'. last_bytes n (body_of ps fin) = pre' @ CHR 0x0A # l @ CHR 0x0A # post)"
  proof (cases "length (l @ CHR 0x0A # post) = n")
    case True
    then show ?thesis by (simp add: assms(1) last_bytes_def)
  next
    case False
    with assms(10) have "length (CHR 0x0A # l @ CHR 0x0A # post) \<le> n" by simp
    then show ?thesis unfolding assms(1) using last_bytes_keep by blast
  qed
  then have "parseStreamUsage unmf unm (last_bytes n (body_of ps fin)) = \<lparr>u_PromptTokens = p, u_CompletionTokens = c\<rparr>"
    using stream_found [of _ l post _ f unmf raw unm] assms(2-6,9) dec by metis
  moreover have "0 < n" using assms(10) by simp
  ultimately show ?thesis using tap_sees [of n unmf unm ps fin r pool True] by (auto simp: parse_tail_def)
qed

subsection \<open>The properties at work\<close>

definition demo_object :: string where
  "demo_object = CHR ''{'' # (CHR 0x22 # ''prompt_tokens'' @ CHR 0x22 # '':7'') @ ''}''"

definition demo_json :: string where
  "demo_json = usageKey @ '': '' @ demo_object @ ''}''"

theorem the_tap_reports_the_last_usage_witness:
  "\<exists>t. tap_run (\<lambda>_. None) (\<lambda>obj. if obj = demo_object then Some (Some 7, None) else None)
      (body_events [CHR ''{'' # take 5 demo_json, drop 5 demo_json] None)
      (new_tap (pool_get 64 empty_ring) [] False) = Some (t, CHR ''{'' # demo_json)
    \<and> tp_seen t = \<lparr>u_PromptTokens = Some 7, u_CompletionTokens = None\<rparr>"
proof -
  have body: "body_of [CHR ''{'' # take 5 demo_json, drop 5 demo_json] None = ''{'' @ usageKey @ '': '' @ demo_object @ ''}''"
    unfolding body_of_def by (simp, simp add: demo_json_def)
  have obj: "demo_object = CHR ''{'' # (CHR 0x22 # ''prompt_tokens'' @ CHR 0x22 # '':7'') @ [CHR ''}'']"
    by (simp add: demo_object_def)
  have "balanced_text (CHR 0x22 # ''prompt_tokens'' @ CHR 0x22 # '':7'')"
    by (intro bal_string balanced_plain) simp_all
  moreover have "last_index (usageKey @ '': '' @ demo_object @ ''}'') usageKey = Some 0"
    by (simp add: last_index_def usageKey_def demo_object_def upt_rec)
  moreover have "length (usageKey @ '': '' @ demo_object @ ''}'') \<le> 64"
    by (simp add: usageKey_def demo_object_def)
  ultimately have "\<exists>t. tap_run (\<lambda>_. None) (\<lambda>obj. if obj = demo_object then Some (Some 7, None) else None)
      (body_events [CHR ''{'' # take 5 demo_json, drop 5 demo_json] None)
      (new_tap (pool_get 64 empty_ring) [] False) = Some (t, body_of [CHR ''{'' # take 5 demo_json, drop 5 demo_json] None)
    \<and> tp_seen t = \<lparr>u_PromptTokens = Some 7, u_CompletionTokens = None\<rparr>"
    by (intro the_tap_reports_the_last_usage [OF body, where ws = "[]" and ws' = "'' ''" and post = "''}''"
          and s = "CHR 0x22 # ''prompt_tokens'' @ CHR 0x22 # '':7''"])
      (simp_all add: obj json_space_def)
  then show ?thesis unfolding body by (simp add: demo_json_def)
qed

end
