(* ===== verification/Settings_Registry.thy ===== *)
theory Settings_Registry
  imports Prelude "HOL-Library.List_Lexorder" "HOL-Library.Char_ord"
begin

text \<open>
  The typed registry of settings (\<open>src/internal/settings/registry.go\<close>) and its table
  (\<open>src/internal/store/settings.go\<close>, \<open>src/internal/model/settings.go\<close>). A raw value is JSON by the
  column's check and by the decoder of the request body, so it is taken as the value it denotes:
  \<open>json.Unmarshal\<close> leaves an \<open>int64\<close>, a \<open>bool\<close> or a \<open>string\<close> at its zero when the value is
  \<open>null\<close>, and \<open>json.Marshal\<close> writes what \<open>Unmarshal\<close> reads back. \<open>net.ParseIP\<close> and
  \<open>url.Parse\<close> are parameters.
\<close>

subsection \<open>Values\<close>

datatype kind = KindInt | KindBool | KindString | KindEnum

datatype setting_value = VInt int | VBool bool | VStr string

text \<open>A JSON value: the numbers that are integer literals, and those that are not.\<close>

datatype raw_json = JNull | JInt int | JFraction | JBool bool | JString string | JCompound

definition marshal :: "setting_value \<Rightarrow> raw_json" where
  "marshal v = (case v of VInt n \<Rightarrow> JInt n | VBool b \<Rightarrow> JBool b | VStr s \<Rightarrow> JString s)"

definition fits_int64 :: "int \<Rightarrow> bool" where
  "fits_int64 n \<longleftrightarrow> - (2 ^ 63) \<le> n \<and> n < 2 ^ 63"

datatype extra_check = ValidIPAddress | ValidHTTPURL

record setting_def =
  d_Key :: string
  d_Kind :: kind
  d_Default :: setting_value
  d_Enum :: "string list"
  d_Min :: "int option"
  d_Max :: "int option"
  d_Group :: string
  d_RestartRequired :: bool
  d_Extra :: "extra_check option"

text \<open>What the two checks ask of the libraries: whether an address parses, and the scheme and the
  host of a URL that does.\<close>

record checks =
  ck_parseIP :: "string \<Rightarrow> bool"
  ck_parseURL :: "string \<Rightarrow> (string \<times> string) option"

subsection \<open>Definitions\<close>

definition validIPAddress :: "checks \<Rightarrow> setting_value \<Rightarrow> bool" where
  "validIPAddress ck v = (case v of VStr s \<Rightarrow> ck_parseIP ck s | _ \<Rightarrow> False)"

definition validHTTPURL :: "checks \<Rightarrow> setting_value \<Rightarrow> bool" where
  "validHTTPURL ck v = (case v of
       VStr s \<Rightarrow> (case ck_parseURL ck s of
           None \<Rightarrow> False
         | Some (scheme, host) \<Rightarrow> (scheme = ''http'' \<or> scheme = ''https'') \<and> host \<noteq> [])
     | _ \<Rightarrow> False)"

text \<open>\<open>Validate\<close>, true where it gives no error.\<close>

definition Validate :: "checks \<Rightarrow> setting_def \<Rightarrow> setting_value \<Rightarrow> bool" where
  "Validate ck d v \<longleftrightarrow>
     (case d_Kind d of
        KindInt \<Rightarrow> (case v of
            VInt n \<Rightarrow> \<not> (case d_Min d of None \<Rightarrow> False | Some m \<Rightarrow> n < m) \<and> \<not> (case d_Max d of None \<Rightarrow> False | Some m \<Rightarrow> n > m)
          | _ \<Rightarrow> False)
      | KindBool \<Rightarrow> (case v of VBool b \<Rightarrow> True | _ \<Rightarrow> False)
      | KindString \<Rightarrow> (case v of VStr s \<Rightarrow> True | _ \<Rightarrow> False)
      | KindEnum \<Rightarrow> (case v of VStr s \<Rightarrow> s \<in> set (d_Enum d) | _ \<Rightarrow> False))
     \<and> (case d_Extra d of None \<Rightarrow> True
        | Some ValidIPAddress \<Rightarrow> validIPAddress ck v
        | Some ValidHTTPURL \<Rightarrow> validHTTPURL ck v)"

definition decode :: "setting_def \<Rightarrow> raw_json \<Rightarrow> setting_value option" where
  "decode d raw = (case d_Kind d of
       KindInt \<Rightarrow> (case raw of JInt n \<Rightarrow> if fits_int64 n then Some (VInt n) else None | JNull \<Rightarrow> Some (VInt 0) | _ \<Rightarrow> None)
     | KindBool \<Rightarrow> (case raw of JBool b \<Rightarrow> Some (VBool b) | JNull \<Rightarrow> Some (VBool False) | _ \<Rightarrow> None)
     | _ \<Rightarrow> (case raw of JString s \<Rightarrow> Some (VStr s) | JNull \<Rightarrow> Some (VStr []) | _ \<Rightarrow> None))"

definition groupOf :: "string \<Rightarrow> string" where
  "groupOf key = takeWhile (\<lambda>c. c \<noteq> CHR ''.'') key"

subsection \<open>The registry\<close>

record registry =
  rg_defs :: "string \<Rightarrow> setting_def option"
  rg_keys :: "string list"

text \<open>A duplicate key panics: no registry.\<close>

definition register :: "setting_def \<Rightarrow> registry option \<Rightarrow> registry option" where
  "register d0 rg = (case rg of
       None \<Rightarrow> None
     | Some r \<Rightarrow> let d = (if d_Group d0 = [] then d0\<lparr>d_Group := groupOf (d_Key d0)\<rparr> else d0)
         in (case rg_defs r (d_Key d) of
              Some _ \<Rightarrow> None
            | None \<Rightarrow> Some \<lparr>rg_defs = (rg_defs r)(d_Key d \<mapsto> d), rg_keys = rg_keys r @ [d_Key d]\<rparr>))"

definition NewRegistry :: "setting_def list \<Rightarrow> registry option" where
  "NewRegistry ds = fold register ds (Some \<lparr>rg_defs = Map.empty, rg_keys = []\<rparr>)"

definition Lookup :: "registry \<Rightarrow> string \<Rightarrow> setting_def option" where
  "Lookup r key = rg_defs r key"

definition Keys :: "registry \<Rightarrow> string list" where
  "Keys r = sort (rg_keys r)"

definition Definitions :: "registry \<Rightarrow> setting_def list" where
  "Definitions r = map (\<lambda>k. the (rg_defs r k)) (Keys r)"

definition setting :: "string \<Rightarrow> kind \<Rightarrow> setting_value \<Rightarrow> setting_def" where
  "setting key k v = \<lparr>d_Key = key, d_Kind = k, d_Default = v, d_Enum = [], d_Min = None, d_Max = None,
     d_Group = [], d_RestartRequired = False, d_Extra = None\<rparr>"

definition definitions :: "setting_def list" where
  "definitions = [
     (setting ''ui.port_desired'' KindInt (VInt 5526))\<lparr>d_Min := Some 1024, d_Max := Some 65535, d_RestartRequired := True\<rparr>,
     (setting ''ui.bind'' KindString (VStr ''0.0.0.0''))\<lparr>d_RestartRequired := True, d_Extra := Some ValidIPAddress\<rparr>,
     (setting ''ui.theme'' KindEnum (VStr ''dark''))\<lparr>d_Enum := [''dark'', ''light'', ''system'']\<rparr>,
     (setting ''security.session_ttl_hours'' KindInt (VInt 720))\<lparr>d_Min := Some 1\<rparr>,
     (setting ''security.idle_timeout_hours'' KindInt (VInt 168))\<lparr>d_Min := Some 1\<rparr>,
     (setting ''security.login_max_attempts'' KindInt (VInt 8))\<lparr>d_Min := Some 1\<rparr>,
     (setting ''security.login_window_sec'' KindInt (VInt 300))\<lparr>d_Min := Some 1\<rparr>,
     (setting ''security.lockout_sec'' KindInt (VInt 900))\<lparr>d_Min := Some 1\<rparr>,
     (setting ''hf.endpoint'' KindString (VStr ''https://huggingface.co''))\<lparr>d_Extra := Some ValidHTTPURL\<rparr>,
     setting ''hf.hub_dir'' KindString (VStr []),
     setting ''hf.home'' KindString (VStr []),
     (setting ''hf.download_concurrency'' KindInt (VInt 3))\<lparr>d_Min := Some 1\<rparr>,
     (setting ''hf.rate_limit_bytes_sec'' KindInt (VInt 0))\<lparr>d_Min := Some 0\<rparr>,
     setting ''hf.verify_checksums'' KindBool (VBool True),
     (setting ''llamacpp.channel'' KindEnum (VStr ''stable''))\<lparr>d_Enum := [''stable'', ''nightly'', ''custom'']\<rparr>,
     (setting ''llamacpp.build_jobs'' KindInt (VInt 0))\<lparr>d_Min := Some 0\<rparr>,
     setting ''llamacpp.cuda_arch_list'' KindString (VStr []),
     setting ''llamacpp.prefer_prebuilt_cpu'' KindBool (VBool True),
     setting ''llamacpp.extra_cmake_flags'' KindString (VStr []),
     setting ''llamacpp.keep_previous'' KindBool (VBool True),
     (setting ''instances.internal_port_min'' KindInt (VInt 21000))\<lparr>d_Min := Some 1024, d_Max := Some 65535\<rparr>,
     (setting ''instances.internal_port_max'' KindInt (VInt 21999))\<lparr>d_Min := Some 1024, d_Max := Some 65535\<rparr>,
     (setting ''instances.health_poll_sec'' KindInt (VInt 5))\<lparr>d_Min := Some 1\<rparr>,
     (setting ''instances.start_timeout_sec'' KindInt (VInt 900))\<lparr>d_Min := Some 1\<rparr>,
     (setting ''gateway.bind'' KindString (VStr ''0.0.0.0''))\<lparr>d_RestartRequired := True, d_Extra := Some ValidIPAddress\<rparr>,
     (setting ''gateway.request_timeout_sec'' KindInt (VInt 0))\<lparr>d_Min := Some 0\<rparr>,
     (setting ''gateway.idle_timeout_sec'' KindInt (VInt 300))\<lparr>d_Min := Some 1\<rparr>,
     (setting ''gateway.max_body_mb'' KindInt (VInt 256))\<lparr>d_Min := Some 1\<rparr>,
     (setting ''gateway.usage_parse_kb'' KindInt (VInt 64))\<lparr>d_Min := Some 0\<rparr>,
     (setting ''gateway.drain_sec'' KindInt (VInt 20))\<lparr>d_Min := Some 0\<rparr>,
     (setting ''gpu.poll_active_sec'' KindInt (VInt 2))\<lparr>d_Min := Some 1\<rparr>,
     (setting ''gpu.poll_idle_sec'' KindInt (VInt 30))\<lparr>d_Min := Some 1\<rparr>,
     (setting ''fit.margin_mib'' KindInt (VInt 1024))\<lparr>d_Min := Some 0\<rparr>,
     setting ''fit.use_calibration'' KindBool (VBool True),
     setting ''bench.exclusive_gpu'' KindBool (VBool True),
     (setting ''bench.default_repetitions'' KindInt (VInt 3))\<lparr>d_Min := Some 1\<rparr>,
     (setting ''update.channel'' KindEnum (VStr ''stable''))\<lparr>d_Enum := [''stable'', ''prerelease'']\<rparr>,
     setting ''update.auto_check'' KindBool (VBool True),
     (setting ''update.check_interval_hours'' KindInt (VInt 24))\<lparr>d_Min := Some 1\<rparr>,
     (setting ''retention.events_days'' KindInt (VInt 90))\<lparr>d_Min := Some 1\<rparr>,
     (setting ''retention.events_rows'' KindInt (VInt 200000))\<lparr>d_Min := Some 1\<rparr>,
     (setting ''log.level'' KindEnum (VStr ''info''))\<lparr>d_Enum := [''debug'', ''info'', ''warn'', ''error''], d_RestartRequired := True\<rparr>]"

subsection \<open>The table\<close>

datatype setting_updated_by = UpdatedByAdmin | UpdatedBySystem | UpdatedByWizard

record setting_row =
  st_Key :: string
  st_Value :: raw_json
  st_UpdatedAt :: unix_ms
  st_UpdatedBy :: setting_updated_by

type_synonym settings_table = "string \<Rightarrow> setting_row option"

definition PutSetting :: "setting_row \<Rightarrow> settings_table \<Rightarrow> settings_table" where
  "PutSetting v t = t(st_Key v \<mapsto> v)"

definition PutSettingIfAbsent :: "setting_row \<Rightarrow> settings_table \<Rightarrow> settings_table \<times> bool" where
  "PutSettingIfAbsent v t = (if t (st_Key v) = None then (t(st_Key v \<mapsto> v), True) else (t, False))"

definition DeleteSetting :: "string \<Rightarrow> settings_table \<Rightarrow> settings_table" where
  "DeleteSetting key t = t(key := None)"

subsection \<open>Facts\<close>

lemma decode_marshal:
  "Validate ck d v \<Longrightarrow> (\<And>n. v = VInt n \<Longrightarrow> fits_int64 n) \<Longrightarrow> decode d (marshal v) = Some v"
  by (auto simp: Validate_def decode_def marshal_def split: kind.splits setting_value.splits)

lemma decode_fits: "decode d raw = Some (VInt n) \<Longrightarrow> fits_int64 n"
  by (auto simp: decode_def fits_int64_def split: kind.splits raw_json.splits if_splits)

lemma registered_key:
  assumes "NewRegistry ds = Some r" and "Lookup r key = Some d"
  shows "d_Key d = key \<and> (\<exists>d0\<in>set ds. d = d0\<lparr>d_Group := d_Group d\<rparr>)"
proof -
  have "fold register ds rg = Some r \<Longrightarrow> (\<And>r0 k d. rg = Some r0 \<Longrightarrow> rg_defs r0 k = Some d \<Longrightarrow>
      d_Key d = k \<and> (\<exists>d0\<in>set ds0. d = d0\<lparr>d_Group := d_Group d\<rparr>)) \<Longrightarrow> rg_defs r key = Some d \<Longrightarrow>
      d_Key d = key \<and> (\<exists>d0\<in>set ds0 \<union> set ds. d = d0\<lparr>d_Group := d_Group d\<rparr>)" for rg ds0
  proof (induction ds arbitrary: rg ds0)
    case (Cons d1 ds)
    show ?case
    proof (cases "register d1 rg")
      case None
      then show ?thesis using Cons.prems(1) by (induction ds) (auto simp: register_def)
    next
      case (Some r1)
      have "d_Key d = k \<and> (\<exists>d0\<in>set (d1 # ds0). d = d0\<lparr>d_Group := d_Group d\<rparr>)" if "rg_defs r1 k = Some d" for k d
        using Some that Cons.prems(2)
        by (fastforce simp: register_def Let_def split: option.splits if_splits)
      with Cons.IH [of "Some r1" "d1 # ds0"] Cons.prems Some show ?thesis by auto
    qed
  qed auto
  note steps = this
  have "d_Key d = key \<and> (\<exists>d0\<in>set [] \<union> set ds. d = d0\<lparr>d_Group := d_Group d\<rparr>)"
    by (rule steps [of "Some \<lparr>rg_defs = Map.empty, rg_keys = []\<rparr>"])
      (use assms in \<open>auto simp: NewRegistry_def Lookup_def\<close>)
  then show ?thesis by simp
qed

lemma register_keys:
  "fold register ds rg = Some r \<Longrightarrow> (\<And>r0. rg = Some r0 \<Longrightarrow> set (rg_keys r0) = dom (rg_defs r0)) \<Longrightarrow>
     set (rg_keys r) = dom (rg_defs r)"
proof (induction ds arbitrary: rg)
  case (Cons d ds)
  have "set (rg_keys r1) = dom (rg_defs r1)" if "register d rg = Some r1" for r1
    using that Cons.prems(2) by (auto simp: register_def Let_def split: option.splits if_splits)
  with Cons.IH [of "register d rg"] Cons.prems(1) show ?case by simp
qed simp

lemma Definitions_registered:
  assumes "NewRegistry ds = Some r" and "d \<in> set (Definitions r)"
  shows "Lookup r (d_Key d) = Some d"
proof -
  have "set (rg_keys r) = dom (rg_defs r)"
    by (rule register_keys [OF assms(1) [unfolded NewRegistry_def]]) auto
  with assms(2) obtain k where "rg_defs r k = Some d" by (auto simp: Definitions_def Keys_def)
  then show ?thesis using registered_key [OF assms(1), of k d] by (simp add: Lookup_def)
qed

lemma the_registry_is_built: "\<not> Option.is_none (NewRegistry definitions)"
  by code_simp

end
