(* ===== verification/Settings_Cache.thy ===== *)
theory Settings_Cache
  imports Settings_Registry
begin

text \<open>
  The read-through cache of settings (\<open>src/internal/settings/settings.go\<close>) and the adapter behind
  the settings endpoints (\<open>src/internal/app/apisettings.go\<close>). Whether a read or a write of the
  store goes through is an argument, by key; the generation is a natural number.
\<close>

subsection \<open>The cache\<close>

record settings_cache =
  sc_values :: "string \<Rightarrow> setting_value option"
  sc_gen :: nat
  sc_table :: settings_table

record settings_env =
  se_now :: unix_ms
  se_checks :: checks
  se_read_ok :: "string \<Rightarrow> bool"
  se_write_ok :: "string \<Rightarrow> bool"

text \<open>The errors: the refusal the clients see, with its key, a row that does not decode, and a
  store that failed.\<close>

datatype settings_error = SettingInvalid string | BadRow string | StoreFailed string

definition cached :: "string \<Rightarrow> settings_cache \<Rightarrow> setting_value option \<times> nat" where
  "cached key c = (sc_values c key, sc_gen c)"

definition fill_value :: "string \<Rightarrow> setting_value \<Rightarrow> nat \<Rightarrow> settings_cache \<Rightarrow> settings_cache" where
  "fill_value key v gen c = (if sc_gen c \<noteq> gen then c else c\<lparr>sc_values := (sc_values c)(key \<mapsto> v)\<rparr>)"

text \<open>What the store transaction of \<open>Get\<close> finds.\<close>

definition read_setting :: "setting_def \<Rightarrow> string \<Rightarrow> settings_table \<Rightarrow> settings_error + setting_value" where
  "read_setting d key t = (case t key of
       None \<Rightarrow> Inr (d_Default d)
     | Some row \<Rightarrow> (case decode d (st_Value row) of None \<Rightarrow> Inl (BadRow key) | Some v \<Rightarrow> Inr v))"

definition Get :: "registry \<Rightarrow> settings_env \<Rightarrow> string \<Rightarrow> settings_cache
    \<Rightarrow> settings_cache \<times> (settings_error + setting_value)" where
  "Get rg y key c = (case Lookup rg key of
       None \<Rightarrow> (c, Inl (SettingInvalid key))
     | Some d \<Rightarrow> (case cached key c of
           (Some v, gen) \<Rightarrow> (c, Inr v)
         | (None, gen) \<Rightarrow>
           (case if se_read_ok y key then read_setting d key (sc_table c) else Inl (StoreFailed key) of
              Inl e \<Rightarrow> (c, Inl e)
            | Inr v \<Rightarrow> (fill_value key v gen c, Inr v))))"

definition Invalidate :: "string list \<Rightarrow> settings_cache \<Rightarrow> settings_cache" where
  "Invalidate keys c = c\<lparr>sc_gen := sc_gen c + 1,
     sc_values := (\<lambda>k. if k \<in> set keys then None else sc_values c k)\<rparr>"

definition decodeAndValidate :: "registry \<Rightarrow> checks \<Rightarrow> string \<Rightarrow> raw_json \<Rightarrow> settings_error + setting_def \<times> setting_value" where
  "decodeAndValidate rg ck key raw = (case Lookup rg key of
       None \<Rightarrow> Inl (SettingInvalid key)
     | Some d \<Rightarrow> (case decode d raw of
           None \<Rightarrow> Inl (SettingInvalid key)
         | Some v \<Rightarrow> if Validate ck d v then Inr (d, v) else Inl (SettingInvalid key)))"

definition override_row :: "settings_env \<Rightarrow> setting_def \<Rightarrow> setting_value \<Rightarrow> setting_updated_by \<Rightarrow> setting_row" where
  "override_row y d v by' = \<lparr>st_Key = d_Key d, st_Value = marshal v, st_UpdatedAt = se_now y, st_UpdatedBy = by'\<rparr>"

definition Set :: "registry \<Rightarrow> settings_env \<Rightarrow> string \<Rightarrow> raw_json \<Rightarrow> setting_updated_by \<Rightarrow> settings_cache
    \<Rightarrow> settings_cache \<times> (settings_error + setting_value)" where
  "Set rg y key raw by' c = (case decodeAndValidate rg (se_checks y) key raw of
       Inl e \<Rightarrow> (c, Inl e)
     | Inr (d, v) \<Rightarrow>
       if \<not> se_write_ok y key then (c, Inl (StoreFailed key))
       else (Invalidate [key] (c\<lparr>sc_table := PutSetting (override_row y d v by') (sc_table c)\<rparr>), Inr v))"

definition SeedIfAbsent :: "registry \<Rightarrow> settings_env \<Rightarrow> string \<Rightarrow> raw_json \<Rightarrow> setting_updated_by \<Rightarrow> settings_cache
    \<Rightarrow> settings_cache \<times> (settings_error + bool)" where
  "SeedIfAbsent rg y key raw by' c = (case decodeAndValidate rg (se_checks y) key raw of
       Inl e \<Rightarrow> (c, Inl e)
     | Inr (d, v) \<Rightarrow>
       if \<not> se_write_ok y key then (c, Inl (StoreFailed key))
       else (case PutSettingIfAbsent (override_row y d v by') (sc_table c) of
           (t, wrote) \<Rightarrow> let c1 = c\<lparr>sc_table := t\<rparr> in (if wrote then Invalidate [key] c1 else c1, Inr wrote)))"

definition Reset :: "registry \<Rightarrow> settings_env \<Rightarrow> string list \<Rightarrow> settings_cache \<Rightarrow> settings_cache \<times> settings_error option" where
  "Reset rg y keys c = (case find (\<lambda>k. Lookup rg k = None) keys of
       Some k \<Rightarrow> (c, Some (SettingInvalid k))
     | None \<Rightarrow>
       if \<not> list_all (se_write_ok y) keys then (c, Some (StoreFailed []))
       else (Invalidate keys (c\<lparr>sc_table := fold DeleteSetting keys (sc_table c)\<rparr>), None))"

text \<open>\<open>Load\<close>: every registered key from its row or its default; a row that does not decode fails
  the whole load.\<close>

fun load_values :: "setting_def list \<Rightarrow> settings_table \<Rightarrow> (string \<Rightarrow> setting_value option)
    \<Rightarrow> settings_error + (string \<Rightarrow> setting_value option)" where
  "load_values [] t vs = Inr vs"
| "load_values (d # ds) t vs = bind_res (read_setting d (d_Key d) t) (\<lambda>v. load_values ds t (vs(d_Key d \<mapsto> v)))"

definition Load :: "registry \<Rightarrow> settings_env \<Rightarrow> settings_cache \<Rightarrow> settings_cache \<times> settings_error option" where
  "Load rg y c = (if \<not> se_read_ok y [] then (c, Some (StoreFailed []))
     else case load_values (Definitions rg) (sc_table c) Map.empty of
        Inl e \<Rightarrow> (c, Some e)
      | Inr vs \<Rightarrow> (c\<lparr>sc_values := vs, sc_gen := sc_gen c + 1\<rparr>, None))"

text \<open>The typed accessors; the wrong one for a key is an error of its own.\<close>

datatype accessor_error = GetFailed settings_error | WrongKind string

definition typed :: "(setting_value \<Rightarrow> 'a option) \<Rightarrow> registry \<Rightarrow> settings_env \<Rightarrow> string \<Rightarrow> settings_cache
    \<Rightarrow> settings_cache \<times> (accessor_error + 'a)" where
  "typed f rg y key c = (case Get rg y key c of
       (c', Inl e) \<Rightarrow> (c', Inl (GetFailed e))
     | (c', Inr v) \<Rightarrow> (c', case f v of None \<Rightarrow> Inl (WrongKind key) | Some a \<Rightarrow> Inr a))"

definition GetInt :: "registry \<Rightarrow> settings_env \<Rightarrow> string \<Rightarrow> settings_cache \<Rightarrow> settings_cache \<times> (accessor_error + int)" where
  "GetInt = typed (\<lambda>v. case v of VInt n \<Rightarrow> Some n | _ \<Rightarrow> None)"

definition GetBool :: "registry \<Rightarrow> settings_env \<Rightarrow> string \<Rightarrow> settings_cache \<Rightarrow> settings_cache \<times> (accessor_error + bool)" where
  "GetBool = typed (\<lambda>v. case v of VBool b \<Rightarrow> Some b | _ \<Rightarrow> None)"

definition GetString :: "registry \<Rightarrow> settings_env \<Rightarrow> string \<Rightarrow> settings_cache \<Rightarrow> settings_cache \<times> (accessor_error + string)" where
  "GetString = typed (\<lambda>v. case v of VStr s \<Rightarrow> Some s | _ \<Rightarrow> None)"

subsection \<open>The settings endpoints\<close>

text \<open>\<open>running\<close> is the value each restart-affecting key had when the daemon applied it.\<close>

record settings_api =
  sa_cache :: settings_cache
  sa_running :: "string \<Rightarrow> setting_value option"

definition snapshot_key :: "registry \<Rightarrow> settings_env \<Rightarrow> setting_def \<Rightarrow> settings_api \<Rightarrow> settings_api" where
  "snapshot_key rg y d s = (if \<not> d_RestartRequired d then s
     else case Get rg y (d_Key d) (sa_cache s) of (c, r) \<Rightarrow>
       s\<lparr>sa_cache := c, sa_running := (sa_running s)(d_Key d \<mapsto> (case r of Inl _ \<Rightarrow> d_Default d | Inr v \<Rightarrow> v))\<rparr>)"

definition newSettingsAPI :: "registry \<Rightarrow> settings_env \<Rightarrow> settings_cache \<Rightarrow> settings_api" where
  "newSettingsAPI rg y c = fold (snapshot_key rg y) (Definitions rg) \<lparr>sa_cache = c, sa_running = Map.empty\<rparr>"

fun get_all :: "registry \<Rightarrow> settings_env \<Rightarrow> setting_def list \<Rightarrow> settings_cache
    \<Rightarrow> settings_cache \<times> (settings_error + (string \<times> setting_value) list)" where
  "get_all rg y [] c = (c, Inr [])"
| "get_all rg y (d # ds) c = (case Get rg y (d_Key d) c of
       (c1, Inl e) \<Rightarrow> (c1, Inl e)
     | (c1, Inr v) \<Rightarrow> (case get_all rg y ds c1 of
           (c2, Inl e) \<Rightarrow> (c2, Inl e)
         | (c2, Inr vs) \<Rightarrow> (c2, Inr ((d_Key d, v) # vs))))"

definition api_values :: "registry \<Rightarrow> settings_env \<Rightarrow> settings_cache
    \<Rightarrow> settings_cache \<times> (settings_error + (string \<times> setting_value) list)" where
  "api_values rg y c = get_all rg y (Definitions rg) c"

text \<open>One row of the schema: the restart flag, beside the definition it is made from.\<close>

definition schema_row :: "settings_api \<Rightarrow> (string \<times> setting_value) list \<Rightarrow> setting_def \<Rightarrow> setting_def \<times> bool" where
  "schema_row s values d = (d, d_RestartRequired d \<and>
     (case sa_running s (d_Key d) of None \<Rightarrow> False | Some r \<Rightarrow> map_of values (d_Key d) \<noteq> Some r))"

definition Settings :: "registry \<Rightarrow> settings_env \<Rightarrow> settings_api
    \<Rightarrow> settings_api \<times> (settings_error + (string \<times> setting_value) list \<times> (setting_def \<times> bool) list)" where
  "Settings rg y s = (case api_values rg y (sa_cache s) of
       (c, Inl e) \<Rightarrow> (s\<lparr>sa_cache := c\<rparr>, Inl e)
     | (c, Inr vs) \<Rightarrow> (s\<lparr>sa_cache := c\<rparr>, Inr (vs, map (schema_row s vs) (Definitions rg))))"

definition needsRestart :: "registry \<Rightarrow> settings_env \<Rightarrow> string \<Rightarrow> settings_api \<Rightarrow> settings_api \<times> bool" where
  "needsRestart rg y key s = (case Lookup rg key of
       None \<Rightarrow> (s, False)
     | Some d \<Rightarrow> if \<not> d_RestartRequired d then (s, False)
       else (case Get rg y key (sa_cache s) of
           (c, Inl e) \<Rightarrow> (s\<lparr>sa_cache := c\<rparr>, True)
         | (c, Inr v) \<Rightarrow> (s\<lparr>sa_cache := c\<rparr>, case sa_running s key of None \<Rightarrow> False | Some r \<Rightarrow> v \<noteq> r)))"

text \<open>The second pass of a patch: the keys in order, each set and asked about a restart; the first
  that is refused ends it.\<close>

fun patch_keys :: "registry \<Rightarrow> settings_env \<Rightarrow> (string \<Rightarrow> raw_json option) \<Rightarrow> string list \<Rightarrow> settings_api
    \<Rightarrow> settings_api \<times> (settings_error + string list)" where
  "patch_keys rg y body [] s = (s, Inr [])"
| "patch_keys rg y body (k # ks) s =
     (case Set rg y k (case body k of None \<Rightarrow> JNull | Some r \<Rightarrow> r) UpdatedByAdmin (sa_cache s) of
        (c, Inl e) \<Rightarrow> (s\<lparr>sa_cache := c\<rparr>, Inl e)
      | (c, Inr v) \<Rightarrow> (case needsRestart rg y k (s\<lparr>sa_cache := c\<rparr>) of (s1, owed) \<Rightarrow>
          (case patch_keys rg y body ks s1 of
             (s2, Inl e) \<Rightarrow> (s2, Inl e)
           | (s2, Inr rs) \<Rightarrow> (s2, Inr (if owed then k # rs else rs)))))"

text \<open>\<open>PatchSettings\<close> of a body given as its keys, each once, with their values.\<close>

definition PatchSettings :: "registry \<Rightarrow> settings_env \<Rightarrow> (string \<times> raw_json) list \<Rightarrow> settings_api
    \<Rightarrow> settings_api \<times> (settings_error + (string \<times> setting_value) list \<times> string list)" where
  "PatchSettings rg y body s =
     (let keys = sort (map fst body)
      in case find (\<lambda>k. Lookup rg k = None) keys of
           Some k \<Rightarrow> (s, Inl (SettingInvalid k))
         | None \<Rightarrow> (case patch_keys rg y (map_of body) keys s of
             (s1, Inl e) \<Rightarrow> (s1, Inl e)
           | (s1, Inr rs) \<Rightarrow> (case api_values rg y (sa_cache s1) of
               (c, Inl e) \<Rightarrow> (s1\<lparr>sa_cache := c\<rparr>, Inl e)
             | (c, Inr vs) \<Rightarrow> (s1\<lparr>sa_cache := c\<rparr>, Inr (vs, rs)))))"

definition ResetSettings :: "registry \<Rightarrow> settings_env \<Rightarrow> string list \<Rightarrow> settings_api
    \<Rightarrow> settings_api \<times> (settings_error + (string \<times> setting_value) list \<times> (setting_def \<times> bool) list)" where
  "ResetSettings rg y keys s = (case Reset rg y keys (sa_cache s) of
       (c, Some e) \<Rightarrow> (s\<lparr>sa_cache := c\<rparr>, Inl e)
     | (c, None) \<Rightarrow> Settings rg y (s\<lparr>sa_cache := c\<rparr>))"

end
