(* ===== verification/Settings_Claims.thy ===== *)
theory Settings_Claims
  imports Settings_Cache
begin

text \<open>
  The settings cache under concurrent reads and writes, and the properties of it and of the
  endpoints.
\<close>

subsection \<open>Reads beside writes\<close>

text \<open>
  A \<open>Get\<close> that misses is three moves (the lookup, the read, the fill), a write two (the commit and
  the invalidation), and anything goes on in between. Reads are numbered in the order they begin.
\<close>

record pending_get =
  pg_ticket :: nat
  pg_key :: string
  pg_gen :: nat
  pg_read :: "(settings_error + setting_value) option"

record gets =
  gs_cache :: settings_cache
  gs_next :: nat
  gs_pending :: "pending_get list"
  gs_answers :: "(nat \<times> string \<times> (settings_error + setting_value)) list"
  gs_owed :: "string list list"

text \<open>The committed transactions: an override put, a seed, a reset, and what another service writes
  before it calls \<open>Invalidate\<close>.\<close>

datatype settings_tx = Put setting_row | Seed setting_row | Delete "string list"

fun tx_keys :: "settings_tx \<Rightarrow> settings_table \<Rightarrow> string list" where
  "tx_keys (Put r) t = [st_Key r]"
| "tx_keys (Seed r) t = (if t (st_Key r) = None then [st_Key r] else [])"
| "tx_keys (Delete ks) t = ks"

fun tx_apply :: "settings_tx \<Rightarrow> settings_table \<Rightarrow> settings_table" where
  "tx_apply (Put r) t = PutSetting r t"
| "tx_apply (Seed r) t = fst (PutSettingIfAbsent r t)"
| "tx_apply (Delete ks) t = fold DeleteSetting ks t"

datatype get_event = GetBegin string | GetRead nat bool | GetEnd nat | Committed settings_tx | Invalidated nat

definition without :: "nat \<Rightarrow> 'a list \<Rightarrow> 'a list" where
  "without i xs = take i xs @ drop (Suc i) xs"

definition setting_of :: "registry \<Rightarrow> string \<Rightarrow> settings_table \<Rightarrow> settings_error + setting_value" where
  "setting_of rg key t = (case Lookup rg key of None \<Rightarrow> Inl (SettingInvalid key) | Some d \<Rightarrow> read_setting d key t)"

fun get_step :: "registry \<Rightarrow> get_event \<Rightarrow> gets \<Rightarrow> gets" where
  "get_step rg (GetBegin key) s = (case Lookup rg key of
       None \<Rightarrow> s\<lparr>gs_next := gs_next s + 1, gs_answers := gs_answers s @ [(gs_next s, key, Inl (SettingInvalid key))]\<rparr>
     | Some d \<Rightarrow> (case cached key (gs_cache s) of
           (Some v, gen) \<Rightarrow> s\<lparr>gs_next := gs_next s + 1, gs_answers := gs_answers s @ [(gs_next s, key, Inr v)]\<rparr>
         | (None, gen) \<Rightarrow> s\<lparr>gs_next := gs_next s + 1,
             gs_pending := gs_pending s @ [\<lparr>pg_ticket = gs_next s, pg_key = key, pg_gen = gen, pg_read = None\<rparr>]\<rparr>))"
| "get_step rg (GetRead i ok) s = (if i < length (gs_pending s)
     then let p = gs_pending s ! i
          in s\<lparr>gs_pending := (gs_pending s)[i := p\<lparr>pg_read := Some (if ok
               then setting_of rg (pg_key p) (sc_table (gs_cache s)) else Inl (StoreFailed (pg_key p)))\<rparr>]\<rparr>
     else s)"
| "get_step rg (GetEnd i) s = (if i < length (gs_pending s)
     then let p = gs_pending s ! i
          in case pg_read p of None \<Rightarrow> s
             | Some r \<Rightarrow> s\<lparr>gs_pending := without i (gs_pending s),
                 gs_answers := gs_answers s @ [(pg_ticket p, pg_key p, r)],
                 gs_cache := (case r of Inl _ \<Rightarrow> gs_cache s | Inr v \<Rightarrow> fill_value (pg_key p) v (pg_gen p) (gs_cache s))\<rparr>
     else s)"
| "get_step rg (Committed tx) s = s\<lparr>gs_owed := gs_owed s @ [tx_keys tx (sc_table (gs_cache s))],
     gs_cache := (gs_cache s)\<lparr>sc_table := tx_apply tx (sc_table (gs_cache s))\<rparr>\<rparr>"
| "get_step rg (Invalidated i) s = (if i < length (gs_owed s)
     then s\<lparr>gs_cache := Invalidate (gs_owed s ! i) (gs_cache s), gs_owed := without i (gs_owed s)\<rparr>
     else s)"

text \<open>
  The writes of the service are these moves: a \<open>Set\<close>, a \<open>SeedIfAbsent\<close> or a \<open>Reset\<close> that commits is
  its commit followed by the invalidation it owes, and one that does not leaves the cache alone.
\<close>

lemma without_last [simp]: "without (length xs) (xs @ [x]) = xs"
  by (simp add: without_def)

lemma two_moves:
  "gs_cache (run (get_step rg) [Committed tx, Invalidated (length (gs_owed s))] s)
     = Invalidate (tx_keys tx (sc_table (gs_cache s)))
         ((gs_cache s)\<lparr>sc_table := tx_apply tx (sc_table (gs_cache s))\<rparr>)"
  by simp

lemma writes_are_two_moves:
  fixes s rg
  assumes "NewRegistry ds = Some rg"
  defines "after \<equiv> \<lambda>tx. gs_cache (run (get_step rg) [Committed tx, Invalidated (length (gs_owed s))] s)"
  shows "fst (Set rg y key raw by' (gs_cache s)) = (case snd (Set rg y key raw by' (gs_cache s)) of
       Inl e \<Rightarrow> gs_cache s
     | Inr v \<Rightarrow> after (Put (override_row y (the (Lookup rg key)) v by')))"
    and "fst (SeedIfAbsent rg y key raw by' (gs_cache s)) = (case snd (SeedIfAbsent rg y key raw by' (gs_cache s)) of
       Inl e \<Rightarrow> gs_cache s
     | Inr False \<Rightarrow> gs_cache s
     | Inr True \<Rightarrow> after (Seed (override_row y (the (Lookup rg key))
         (snd (projr (decodeAndValidate rg (se_checks y) key raw))) by')))"
    and "fst (Reset rg y keys (gs_cache s)) = (case snd (Reset rg y keys (gs_cache s)) of
       Some e \<Rightarrow> gs_cache s
     | None \<Rightarrow> after (Delete keys))"
proof -
  have dv: "Lookup rg key = Some d \<and> d_Key d = key" if "decodeAndValidate rg (se_checks y) key raw = Inr (d, v)" for d v
    using that registered_key [OF assms(1)]
    by (auto simp: decodeAndValidate_def split: option.splits if_splits)
  show "fst (Set rg y key raw by' (gs_cache s)) = (case snd (Set rg y key raw by' (gs_cache s)) of
       Inl e \<Rightarrow> gs_cache s
     | Inr v \<Rightarrow> after (Put (override_row y (the (Lookup rg key)) v by')))"
    unfolding after_def two_moves
    by (auto simp: Set_def override_row_def dest: dv split: sum.splits)
  show "fst (SeedIfAbsent rg y key raw by' (gs_cache s)) = (case snd (SeedIfAbsent rg y key raw by' (gs_cache s)) of
       Inl e \<Rightarrow> gs_cache s
     | Inr False \<Rightarrow> gs_cache s
     | Inr True \<Rightarrow> after (Seed (override_row y (the (Lookup rg key))
         (snd (projr (decodeAndValidate rg (se_checks y) key raw))) by')))"
    unfolding after_def two_moves
    by (auto simp: SeedIfAbsent_def PutSettingIfAbsent_def override_row_def Let_def dest: dv split: sum.splits option.splits)
  show "fst (Reset rg y keys (gs_cache s)) = (case snd (Reset rg y keys (gs_cache s)) of
       Some e \<Rightarrow> gs_cache s | None \<Rightarrow> after (Delete keys))"
    unfolding after_def two_moves by (simp add: Reset_def split: option.splits)
qed

text \<open>Whether a commit is still to be followed by its invalidation.\<close>

definition owed :: "string \<Rightarrow> gets \<Rightarrow> bool" where
  "owed key s \<longleftrightarrow> (\<exists>ks \<in> set (gs_owed s). key \<in> set ks)"

text \<open>What is cached is what the table says, for every key no invalidation is owed for, and so is
  what a read would still be allowed to cache.\<close>

definition coherent :: "registry \<Rightarrow> gets \<Rightarrow> bool" where
  "coherent rg s \<longleftrightarrow>
     (\<forall>key v. sc_values (gs_cache s) key = Some v \<longrightarrow> owed key s \<or> setting_of rg key (sc_table (gs_cache s)) = Inr v) \<and>
     (\<forall>p \<in> set (gs_pending s). pg_gen p \<le> sc_gen (gs_cache s) \<and>
        (\<forall>v. pg_gen p = sc_gen (gs_cache s) \<and> pg_read p = Some (Inr v) \<longrightarrow>
           owed (pg_key p) s \<or> setting_of rg (pg_key p) (sc_table (gs_cache s)) = Inr v))"

lemma set_without: "set (without i xs) \<subseteq> set xs"
  by (auto simp: without_def dest: in_set_takeD in_set_dropD)

lemma in_without: "i < length xs \<Longrightarrow> x \<in> set xs \<Longrightarrow> x = xs ! i \<or> x \<in> set (without i xs)"
  by (metis Un_iff append_take_drop_id Cons_nth_drop_Suc set_append set_ConsD without_def)

lemma in_update: "x \<in> set (xs[i := y]) \<Longrightarrow> x = y \<or> x \<in> set xs"
  by (meson insertE set_update_subset_insert subsetD)

lemma fold_delete: "fold DeleteSetting ks t key = (if key \<in> set ks then None else t key)"
  by (induction ks arbitrary: t) (auto simp: DeleteSetting_def)

lemma tx_elsewhere: "key \<notin> set (tx_keys tx t) \<Longrightarrow> tx_apply tx t key = t key"
  by (cases tx) (auto simp: PutSetting_def PutSettingIfAbsent_def fold_delete)

lemma setting_elsewhere: "key \<notin> set (tx_keys tx t) \<Longrightarrow> setting_of rg key (tx_apply tx t) = setting_of rg key t"
  by (simp add: setting_of_def read_setting_def tx_elsewhere split: option.split)

lemma coherent_step:
  assumes "coherent rg s"
  shows "coherent rg (get_step rg e s)"
proof (cases e)
  case (GetBegin key)
  then show ?thesis using assms
    by (auto simp: coherent_def cached_def owed_def split: option.split)
next
  case (GetRead i ok)
  then show ?thesis using assms
    by (fastforce simp: coherent_def owed_def Let_def dest!: in_update split: if_splits)
next
  case (GetEnd i)
  show ?thesis
  proof (cases "i < length (gs_pending s) \<and> pg_read (gs_pending s ! i) \<noteq> None")
    case True
    let ?p = "gs_pending s ! i"
    from True obtain r where r: "pg_read ?p = Some r" and p: "?p \<in> set (gs_pending s)" by auto
    have sub: "set (without i (gs_pending s)) \<subseteq> set (gs_pending s)" by (rule set_without)
    show ?thesis using assms True r p sub GetEnd
      by (cases r) (auto simp: coherent_def owed_def fill_value_def subset_iff Let_def)
  qed (use assms GetEnd in \<open>auto simp: Let_def\<close>)
next
  case (Committed tx)
  then show ?thesis using assms setting_elsewhere [of _ tx "sc_table (gs_cache s)" rg]
    by (fastforce simp: coherent_def owed_def)
next
  case (Invalidated i)
  show ?thesis
  proof (cases "i < length (gs_owed s)")
    case True
    have "owed key (get_step rg e s)" if "owed key s" "key \<notin> set (gs_owed s ! i)" for key
      using that in_without [OF True] Invalidated True unfolding owed_def by fastforce
    with assms True Invalidated show ?thesis
      by (fastforce simp: coherent_def Invalidate_def split: if_splits)
  qed (use assms Invalidated in simp)
qed

definition no_gets :: "settings_table \<Rightarrow> gets" where
  "no_gets t = \<lparr>gs_cache = \<lparr>sc_values = Map.empty, sc_gen = 0, sc_table = t\<rparr>, gs_next = 0,
     gs_pending = [], gs_answers = [], gs_owed = []\<rparr>"

lemma no_gets_coherent: "coherent rg (no_gets t)"
  by (simp add: coherent_def no_gets_def)

interpretation gets: machine "get_step rg" "\<lambda>_. True" "coherent rg" for rg
  by unfold_locales (rule coherent_step)

lemma reached_coherent: "coherent rg (run (get_step rg) es (no_gets t))"
  by (rule gets.run_inv) (simp_all add: no_gets_coherent list_all_iff)

text \<open>
  C34. The cache refines the table: after any reads and writes, in any interleaving of their
  moves, a \<open>Get\<close> of a key that no write is under way for answers what the row of the key, or its
  default, says at that moment, and the cache holds nothing else for the key. It fails only when
  the key is unknown, the row does not decode or the store cannot be read. The writes of the service are
  pairs of these moves by \<open>writes_are_two_moves\<close>; \<open>Load\<close>, which boot calls before the cache is
  shared, is none.
\<close>

theorem a_quiet_get_reads_the_table:
  assumes "\<not> owed key (run (get_step rg) es (no_gets t))"
  shows "snd (Get rg y key (gs_cache (run (get_step rg) es (no_gets t)))) \<in>
     {setting_of rg key (sc_table (gs_cache (run (get_step rg) es (no_gets t)))), Inl (StoreFailed key)}
   \<and> (se_read_ok y key \<longrightarrow> snd (Get rg y key (gs_cache (run (get_step rg) es (no_gets t))))
     = setting_of rg key (sc_table (gs_cache (run (get_step rg) es (no_gets t)))))"
proof -
  let ?s = "run (get_step rg) es (no_gets t)"
  have "sc_values (gs_cache ?s) key = Some v \<Longrightarrow> setting_of rg key (sc_table (gs_cache ?s)) = Inr v" for v
    using reached_coherent [of rg es t] assms unfolding coherent_def by blast
  then show ?thesis
    by (auto simp: Get_def setting_of_def cached_def split: option.splits sum.splits)
qed

subsection \<open>The property at work\<close>

definition flag_registry :: registry where
  "flag_registry = \<lparr>rg_defs = [''f'' \<mapsto> setting ''f'' KindBool (VBool True)], rg_keys = [''f'']\<rparr>"

definition flag_off :: setting_row where
  "flag_off = \<lparr>st_Key = ''f'', st_Value = JBool False, st_UpdatedAt = 0, st_UpdatedBy = UpdatedByAdmin\<rparr>"

text \<open>A read of the old row ends after a write: it must not be cached.\<close>

definition race :: "get_event list" where
  "race = [GetBegin ''f'', GetRead 0 True, Committed (Put flag_off), Invalidated 0, GetEnd 0]"

theorem a_quiet_get_reads_the_table_witness:
  "snd (Get flag_registry \<lparr>se_now = 0, se_checks = \<lparr>ck_parseIP = (\<lambda>_. True), ck_parseURL = (\<lambda>_. None)\<rparr>,
      se_read_ok = (\<lambda>_. True), se_write_ok = (\<lambda>_. True)\<rparr> ''f''
      (gs_cache (run (get_step flag_registry) race (no_gets Map.empty)))) = Inr (VBool False)"
proof -
  have s: "gs_owed (run (get_step flag_registry) race (no_gets Map.empty)) = []"
      "sc_table (gs_cache (run (get_step flag_registry) race (no_gets Map.empty))) = [''f'' \<mapsto> flag_off]"
    by (simp_all add: race_def no_gets_def flag_registry_def Lookup_def cached_def setting_of_def read_setting_def
        without_def Invalidate_def fill_value_def PutSetting_def flag_off_def setting_def Let_def)
  then have "\<not> owed ''f'' (run (get_step flag_registry) race (no_gets Map.empty))" by (simp add: owed_def)
  from a_quiet_get_reads_the_table [OF this] s(2) show ?thesis
    by (simp add: setting_of_def read_setting_def flag_registry_def Lookup_def flag_off_def decode_def setting_def)
qed

end
