(* ===== verification/Settings_Props.thy ===== *)
theory Settings_Props
  imports Settings_Cache
begin

text \<open>
  What the registry promises of every value, over any sequence of operations on the cache; and
  what a patch with one bad value leaves behind.
\<close>

subsection \<open>Valid values\<close>

definition sound_row :: "checks \<Rightarrow> setting_def \<Rightarrow> setting_row \<Rightarrow> bool" where
  "sound_row ck d row \<longleftrightarrow> (\<exists>v. decode d (st_Value row) = Some v \<and> Validate ck d v)"

text \<open>Every row and every cached value satisfies the definition of its key.\<close>

definition sound :: "registry \<Rightarrow> checks \<Rightarrow> settings_cache \<Rightarrow> bool" where
  "sound rg ck c \<longleftrightarrow> (\<forall>key d. Lookup rg key = Some d \<longrightarrow>
     (\<forall>row. sc_table c key = Some row \<longrightarrow> sound_row ck d row) \<and>
     (\<forall>v. sc_values c key = Some v \<longrightarrow> Validate ck d v))"

text \<open>What is assumed of a registry: its keys are its own, and its defaults pass its checks.\<close>

definition proper :: "registry \<Rightarrow> checks \<Rightarrow> bool" where
  "proper rg ck \<longleftrightarrow> (\<forall>key d. Lookup rg key = Some d \<longrightarrow> d_Key d = key \<and> Validate ck d (d_Default d))"

lemma read_sound:
  assumes "proper rg ck" and "sound rg ck c" and "Lookup rg key = Some d" and "read_setting d key (sc_table c) = Inr v"
  shows "Validate ck d v"
  using assms by (force simp: read_setting_def proper_def sound_def sound_row_def split: option.splits)

lemma sound_Get:
  assumes "proper rg ck" and "sound rg ck c"
  shows "sound rg ck (fst (Get rg y key c))"
    and "snd (Get rg y key c) = Inr v \<Longrightarrow> \<exists>d. Lookup rg key = Some d \<and> Validate ck d v"
proof -
  show "sound rg ck (fst (Get rg y key c))"
    using assms(2) read_sound [OF assms]
    by (auto simp: Get_def cached_def fill_value_def sound_def split: option.splits sum.splits if_splits)
  assume "snd (Get rg y key c) = Inr v"
  then show "\<exists>d. Lookup rg key = Some d \<and> Validate ck d v"
    using assms(2) read_sound [OF assms]
    by (auto simp: Get_def cached_def sound_def split: option.splits sum.splits if_splits)
qed

lemma sound_invalidate: "sound rg ck c \<Longrightarrow> sound rg ck (Invalidate keys c)"
  by (auto simp: sound_def Invalidate_def split: if_splits)

lemma accepted_row:
  assumes "proper rg ck" and "decodeAndValidate rg ck key raw = Inr (d, v)"
  shows "Lookup rg key = Some d" and "d_Key d = key" and "sound_row ck d (override_row y d v u)"
proof -
  have l: "Lookup rg key = Some d" and "decode d raw = Some v" and ok: "Validate ck d v"
    using assms(2) by (auto simp: decodeAndValidate_def split: option.splits if_splits)
  then have "decode d (marshal v) = Some v" by (auto intro: decode_marshal decode_fits)
  with ok show "sound_row ck d (override_row y d v u)" by (auto simp: sound_row_def override_row_def)
  from l show "Lookup rg key = Some d" .
  from l assms(1) show "d_Key d = key" by (simp add: proper_def)
qed

lemma sound_put:
  assumes "sound rg ck c" and "Lookup rg (st_Key row) = Some d" and "sound_row ck d row"
  shows "sound rg ck (c\<lparr>sc_table := PutSetting row (sc_table c)\<rparr>)"
  using assms by (auto simp: sound_def PutSetting_def split: if_splits)

lemma sound_Set:
  assumes "proper rg (se_checks y)" and "sound rg (se_checks y) c"
  shows "sound rg (se_checks y) (fst (Set rg y key raw u c))"
proof (cases "decodeAndValidate rg (se_checks y) key raw")
  case (Inr p)
  obtain d v where p: "p = (d, v)" by fastforce
  note ok = accepted_row [OF assms(1) Inr [unfolded p]]
  have "sound rg (se_checks y) (c\<lparr>sc_table := PutSetting (override_row y d v u) (sc_table c)\<rparr>)"
    by (rule sound_put [OF assms(2) _ ok(3)]) (simp add: override_row_def ok)
  then show ?thesis using assms(2) by (simp add: Set_def Inr p sound_invalidate)
qed (simp add: Set_def assms(2))

lemma sound_Seed:
  assumes "proper rg (se_checks y)" and "sound rg (se_checks y) c"
  shows "sound rg (se_checks y) (fst (SeedIfAbsent rg y key raw u c))"
proof (cases "decodeAndValidate rg (se_checks y) key raw")
  case (Inr p)
  obtain d v where p: "p = (d, v)" by fastforce
  note ok = accepted_row [OF assms(1) Inr [unfolded p]]
  have "sound rg (se_checks y) (c\<lparr>sc_table := PutSetting (override_row y d v u) (sc_table c)\<rparr>)"
    by (rule sound_put [OF assms(2) _ ok(3)]) (simp add: override_row_def ok)
  then show ?thesis using assms(2)
    by (auto simp: SeedIfAbsent_def Inr p sound_invalidate PutSettingIfAbsent_def PutSetting_def Let_def)
qed (simp add: SeedIfAbsent_def assms(2))

lemma deleted: "fold DeleteSetting ks t key = (if key \<in> set ks then None else t key)"
  by (induction ks arbitrary: t) (auto simp: DeleteSetting_def)

lemma sound_Reset: "sound rg ck c \<Longrightarrow> sound rg ck (fst (Reset rg y keys c))"
  by (auto simp: Reset_def sound_def Invalidate_def deleted split: option.splits if_splits)

lemma sound_load_values:
  assumes "load_values ds t vs = Inr vs'"
    and "\<And>d v. d \<in> set ds \<Longrightarrow> read_setting d (d_Key d) t = Inr v \<Longrightarrow> P (d_Key d) v"
    and "\<And>k v. vs k = Some v \<Longrightarrow> P k v"
  shows "vs' k = Some v \<Longrightarrow> P k v"
  using assms
proof (induction ds t vs rule: load_values.induct)
  case (2 d ds t vs)
  from 2(3) obtain w where w: "read_setting d (d_Key d) t = Inr w" "load_values ds t (vs(d_Key d \<mapsto> w)) = Inr vs'"
    by (auto simp: bind_Inr)
  show ?case
    by (rule 2(1) [OF w(1) 2(2) w(2)]) (use 2(4,5) w(1) in \<open>auto split: if_splits\<close>)
qed simp

lemma sound_Load:
  assumes "proper rg ck" and "sound rg ck c" and "\<And>d. d \<in> set (Definitions rg) \<Longrightarrow> Lookup rg (d_Key d) = Some d"
  shows "sound rg ck (fst (Load rg y c))"
proof (cases "se_read_ok y [] \<and> (\<exists>vs. load_values (Definitions rg) (sc_table c) Map.empty = Inr vs)")
  case True
  then obtain vs where vs: "load_values (Definitions rg) (sc_table c) Map.empty = Inr vs" by blast
  have "\<forall>d. Lookup rg k = Some d \<longrightarrow> Validate ck d v" if "vs k = Some v" for k v
    by (rule sound_load_values [OF vs _ _ that, where P = "\<lambda>k v. \<forall>d. Lookup rg k = Some d \<longrightarrow> Validate ck d v"])
      (use assms(3) read_sound [OF assms(1,2)] in fastforce)+
  with True vs assms(2) show ?thesis by (auto simp: Load_def sound_def)
qed (use assms(2) in \<open>auto simp: Load_def split: sum.splits\<close>)

subsection \<open>The operations in any order\<close>

datatype settings_op = OpGet settings_env string | OpSet settings_env string raw_json setting_updated_by
  | OpSeed settings_env string raw_json setting_updated_by | OpReset settings_env "string list" | OpLoad settings_env

fun settings_step :: "registry \<Rightarrow> settings_op \<Rightarrow> settings_cache \<Rightarrow> settings_cache" where
  "settings_step rg (OpGet y key) c = fst (Get rg y key c)"
| "settings_step rg (OpSet y key raw u) c = fst (Set rg y key raw u c)"
| "settings_step rg (OpSeed y key raw u) c = fst (SeedIfAbsent rg y key raw u c)"
| "settings_step rg (OpReset y keys) c = fst (Reset rg y keys c)"
| "settings_step rg (OpLoad y) c = fst (Load rg y c)"

fun op_env :: "settings_op \<Rightarrow> settings_env" where
  "op_env (OpGet y key) = y"
| "op_env (OpSet y key raw u) = y"
| "op_env (OpSeed y key raw u) = y"
| "op_env (OpReset y keys) = y"
| "op_env (OpLoad y) = y"

lemma sound_step:
  assumes "NewRegistry ds = Some rg" and "proper rg ck" and "sound rg ck c" and "se_checks (op_env e) = ck"
  shows "sound rg ck (settings_step rg e c)"
proof (cases e)
  case (OpLoad y)
  then show ?thesis using sound_Load [OF assms(2,3) Definitions_registered [OF assms(1)]] by simp
qed (use assms sound_Get(1) sound_Set sound_Seed sound_Reset in auto)

lemma sound_run:
  assumes "NewRegistry ds = Some rg" and "proper rg ck"
  shows "sound rg ck c \<Longrightarrow> list_all (\<lambda>e. se_checks (op_env e) = ck) es \<Longrightarrow> sound rg ck (run (settings_step rg) es c)"
  by (induction es arbitrary: c) (auto simp: sound_step [OF assms])

lemma validate_group: "Validate ck (d\<lparr>d_Group := g\<rparr>) v = Validate ck d v"
  by (cases v; cases "d_Kind d") (simp_all add: Validate_def)

lemma defaults_proper:
  assumes "NewRegistry ds = Some rg" and "list_all (\<lambda>d. Validate ck d (d_Default d)) ds"
  shows "proper rg ck"
  unfolding proper_def
proof (intro allI impI)
  fix key d
  assume "Lookup rg key = Some d"
  from registered_key [OF assms(1) this] obtain d0 where "d_Key d = key" "d0 \<in> set ds" and d: "d = d0\<lparr>d_Group := d_Group d\<rparr>"
    by blast
  then have "Validate ck d0 (d_Default d0)" using assms(2) by (simp add: list_all_iff)
  then have "Validate ck d (d_Default d)" by (subst (1 2) d) (simp add: validate_group)
  with \<open>d_Key d = key\<close> show "d_Key d = key \<and> Validate ck d (d_Default d)" ..
qed

definition fresh_cache :: "settings_table \<Rightarrow> settings_cache" where
  "fresh_cache t = \<lparr>sc_values = Map.empty, sc_gen = 0, sc_table = t\<rparr>"

text \<open>
  C35. Settings are well typed and valid: when the defaults of a registry pass its own checks and
  so do the rows of the table, then after any reads, edits, seeds, resets and loads, refused or
  failing ones among them, every value \<open>Get\<close> answers has the type of its kind and lies within
  the bounds, the choices and the extra check of its definition, and the accessor of the kind
  never finds a value of another.
\<close>

theorem every_setting_is_valid:
  assumes "NewRegistry ds = Some rg" and "list_all (\<lambda>d. Validate ck d (d_Default d)) ds"
    and "sound rg ck (fresh_cache t)" and "list_all (\<lambda>e. se_checks (op_env e) = ck) es" and "Lookup rg key = Some d"
  shows "(\<forall>v. snd (Get rg y key (run (settings_step rg) es (fresh_cache t))) = Inr v \<longrightarrow> Validate ck d v)
    \<and> (d_Kind d = KindInt \<longrightarrow> snd (GetInt rg y key (run (settings_step rg) es (fresh_cache t))) \<noteq> Inl (WrongKind key))
    \<and> (d_Kind d = KindBool \<longrightarrow> snd (GetBool rg y key (run (settings_step rg) es (fresh_cache t))) \<noteq> Inl (WrongKind key))
    \<and> (d_Kind d \<in> {KindString, KindEnum} \<longrightarrow> snd (GetString rg y key (run (settings_step rg) es (fresh_cache t))) \<noteq> Inl (WrongKind key))"
proof -
  let ?c = "run (settings_step rg) es (fresh_cache t)"
  note p = defaults_proper [OF assms(1,2)]
  have valid: "Validate ck d v" if "snd (Get rg y key ?c) = Inr v" for v
    using sound_Get(2) [OF p sound_run [OF assms(1) p assms(3,4)] that] assms(5) by simp
  have typed: "snd (typed f rg y key ?c) \<noteq> Inl (WrongKind key)" if "\<And>v. Validate ck d v \<Longrightarrow> f v \<noteq> None"
    for f :: "setting_value \<Rightarrow> 'a option"
  proof (cases "Get rg y key ?c")
    case (Pair c' r)
    show ?thesis
    proof (cases r)
      case (Inr v)
      with that [OF valid] Pair show ?thesis by (auto simp: typed_def split: option.split)
    qed (simp add: typed_def Pair)
  qed
  show ?thesis
    using valid
    by (auto simp: GetInt_def GetBool_def GetString_def intro!: typed
        simp: Validate_def split: setting_value.splits)
qed

subsection \<open>A patch with one bad value\<close>

lemma set_accepts:
  assumes "decodeAndValidate rg (se_checks y) key raw = Inr (d, v)" and "se_write_ok y key"
  shows "Set rg y key raw u c = (Invalidate [key] (c\<lparr>sc_table := PutSetting (override_row y d v u) (sc_table c)\<rparr>), Inr v)"
  using assms by (simp add: Set_def)

lemma get_keeps_table: "sc_table (fst (Get rg y key c)) = sc_table c"
  by (auto simp: Get_def cached_def fill_value_def split: option.splits sum.splits)

lemma restart_keeps_table: "sc_table (sa_cache (fst (needsRestart rg y key s))) = sc_table (sa_cache s)"
  using get_keeps_table [of rg y key "sa_cache s"]
  by (auto simp: needsRestart_def split: option.splits prod.splits sum.splits)

text \<open>Some row of the key holds what the patch asked for.\<close>

definition written :: "registry \<Rightarrow> settings_env \<Rightarrow> (string \<Rightarrow> raw_json option) \<Rightarrow> string \<Rightarrow> settings_table \<Rightarrow> bool" where
  "written rg y body k t \<longleftrightarrow> (\<exists>raw d v. body k = Some raw \<and> decodeAndValidate rg (se_checks y) k raw = Inr (d, v)
     \<and> t k = Some (override_row y d v UpdatedByAdmin))"

lemma patch_stops:
  assumes "\<And>k. k \<in> set ks1 \<Longrightarrow> \<exists>raw d v. body k = Some raw \<and> decodeAndValidate rg (se_checks y) k raw = Inr (d, v) \<and> d_Key d = k"
    and "\<And>k. se_write_ok y k" and "distinct ks1"
    and "body bad = Some raw" and "decodeAndValidate rg (se_checks y) bad raw = Inl e"
  shows "\<exists>s'. patch_keys rg y body (ks1 @ bad # ks2) s = (s', Inl e)
    \<and> (\<forall>k\<in>set ks1. written rg y body k (sc_table (sa_cache s')))
    \<and> (\<forall>k. k \<notin> set ks1 \<longrightarrow> sc_table (sa_cache s') k = sc_table (sa_cache s) k)"
  using assms
proof (induction ks1 arbitrary: s)
  case Nil
  then show ?case by (simp add: Set_def)
next
  case (Cons k ks1)
  from Cons.prems(1) [of k] obtain raw1 d v where k: "body k = Some raw1"
      "decodeAndValidate rg (se_checks y) k raw1 = Inr (d, v)" "d_Key d = k" by auto
  define c where "c = Invalidate [k] ((sa_cache s)\<lparr>sc_table := PutSetting (override_row y d v UpdatedByAdmin) (sc_table (sa_cache s))\<rparr>)"
  have set: "Set rg y k raw1 UpdatedByAdmin (sa_cache s) = (c, Inr v)"
    unfolding c_def by (rule set_accepts [OF k(2) Cons.prems(2)])
  obtain s1 o' where s1: "needsRestart rg y k (s\<lparr>sa_cache := c\<rparr>) = (s1, o')" by fastforce
  have t1: "sc_table (sa_cache s1) = (sc_table (sa_cache s))(k \<mapsto> override_row y d v UpdatedByAdmin)"
    using restart_keeps_table [of rg y k "s\<lparr>sa_cache := c\<rparr>"] s1 k(3)
    by (simp add: c_def Invalidate_def PutSetting_def override_row_def)
  obtain s' where s': "patch_keys rg y body (ks1 @ bad # ks2) s1 = (s', Inl e)"
      "\<forall>j\<in>set ks1. written rg y body j (sc_table (sa_cache s'))"
      "\<forall>j. j \<notin> set ks1 \<longrightarrow> sc_table (sa_cache s') j = sc_table (sa_cache s1) j"
    using Cons.IH [of s1] Cons.prems by auto
  have "written rg y body k (sc_table (sa_cache s'))"
    using s'(3) Cons.prems(3) k t1 by (auto simp: written_def)
  then show ?case using s' t1 set s1 k(1) Cons.prems(3) by auto
qed

text \<open>
  C36. A patch with a value that its definition refuses is refused naming that key, and yet the
  override of every key before it in the order of the names is written, and stays: only unknown
  keys are found before the first write. Keys behind it, and keys not named, are untouched.
\<close>

theorem a_bad_value_leaves_half_a_patch:
  assumes "NewRegistry ds = Some rg" and "distinct (map fst body)" and "sort (map fst body) = ks1 @ bad # ks2"
    and "\<forall>k\<in>fst ` set body. Lookup rg k \<noteq> None" and "\<forall>k. se_write_ok y k"
    and "\<forall>(k, raw)\<in>set body. k \<in> set ks1 \<longrightarrow> (\<exists>p. decodeAndValidate rg (se_checks y) k raw = Inr p)"
    and "(bad, raw) \<in> set body" and "decodeAndValidate rg (se_checks y) bad raw = Inl e"
  shows "snd (PatchSettings rg y body s) = Inl (SettingInvalid bad)
    \<and> (\<forall>k\<in>set ks1. written rg y (map_of body) k (sc_table (sa_cache (fst (PatchSettings rg y body s)))))
    \<and> (\<forall>k. k \<notin> set ks1 \<longrightarrow> sc_table (sa_cache (fst (PatchSettings rg y body s))) k = sc_table (sa_cache s) k)"
proof -
  have keys: "set (ks1 @ bad # ks2) = fst ` set body" and "distinct (ks1 @ bad # ks2)"
    using assms(2) by (metis list.set_map set_sort assms(3), metis distinct_sort assms(3))
  then have d: "distinct ks1" by simp
  have e: "e = SettingInvalid bad" using assms(8) by (auto simp: decodeAndValidate_def split: option.splits if_splits)
  have "find (\<lambda>k. Lookup rg k = None) (ks1 @ bad # ks2) = None"
    using assms(4) keys by (simp add: find_None_iff)
  note known = this
  have good: "\<exists>raw d v. map_of body k = Some raw \<and> decodeAndValidate rg (se_checks y) k raw = Inr (d, v) \<and> d_Key d = k"
    if k: "k \<in> set ks1" for k
  proof -
    have "k \<in> fst ` set body" using k unfolding keys [symmetric] by simp
    then obtain raw where raw: "(k, raw) \<in> set body" by force
    then obtain d v where dv: "decodeAndValidate rg (se_checks y) k raw = Inr (d, v)"
      using bspec [OF assms(6) raw] k by auto
    then have "Lookup rg k = Some d" by (auto simp: decodeAndValidate_def split: option.splits if_splits)
    then have "d_Key d = k" using registered_key [OF assms(1)] by blast
    with dv map_of_is_SomeI [OF assms(2) raw] show ?thesis by blast
  qed
  have written: "\<exists>s'. patch_keys rg y (map_of body) (ks1 @ bad # ks2) s = (s', Inl e)
      \<and> (\<forall>k\<in>set ks1. written rg y (map_of body) k (sc_table (sa_cache s')))
      \<and> (\<forall>k. k \<notin> set ks1 \<longrightarrow> sc_table (sa_cache s') k = sc_table (sa_cache s) k)"
    by (rule patch_stops [OF good spec [OF assms(5)] d map_of_is_SomeI [OF assms(2,7)] assms(8)])
  then obtain s' where s': "patch_keys rg y (map_of body) (ks1 @ bad # ks2) s = (s', Inl e)"
      "\<forall>k\<in>set ks1. written rg y (map_of body) k (sc_table (sa_cache s'))"
      "\<forall>k. k \<notin> set ks1 \<longrightarrow> sc_table (sa_cache s') k = sc_table (sa_cache s) k" by blast
  have "PatchSettings rg y body s = (s', Inl (SettingInvalid bad))"
    unfolding PatchSettings_def Let_def assms(3) known s'(1) e by simp
  with s'(2,3) show ?thesis by simp
qed

subsection \<open>The properties at work\<close>

definition demo_checks :: checks where
  "demo_checks = \<lparr>ck_parseIP = (\<lambda>s. s = ''0.0.0.0''), ck_parseURL = (\<lambda>s. Some (''https'', ''huggingface.co''))\<rparr>"

definition demo_settings_env :: settings_env where
  "demo_settings_env = \<lparr>se_now = 0, se_checks = demo_checks, se_read_ok = (\<lambda>_. True), se_write_ok = (\<lambda>_. True)\<rparr>"

definition the_registry :: registry where
  "the_registry = the (NewRegistry definitions)"

lemma built: "NewRegistry definitions = Some the_registry"
  using the_registry_is_built by (cases "NewRegistry definitions") (simp_all add: the_registry_def)

lemma definitions_pass: "list_all (\<lambda>d. Validate demo_checks d (d_Default d)) definitions"
  by code_simp

lemma port_registered: "map_option d_Kind (Lookup the_registry ''ui.port_desired'') = Some KindInt"
  unfolding the_registry_def by code_simp

theorem every_setting_is_valid_witness:
  "\<exists>d. Lookup the_registry ''ui.port_desired'' = Some d \<and>
     snd (GetInt the_registry demo_settings_env ''ui.port_desired''
       (run (settings_step the_registry) [OpSet demo_settings_env ''ui.port_desired'' (JInt 80) UpdatedByAdmin,
          OpSet demo_settings_env ''ui.port_desired'' (JInt 8080) UpdatedByAdmin] (fresh_cache Map.empty)))
       \<noteq> Inl (WrongKind ''ui.port_desired'')"
proof -
  obtain d where d: "Lookup the_registry ''ui.port_desired'' = Some d" "d_Kind d = KindInt"
    using port_registered by auto
  have "sound the_registry demo_checks (fresh_cache Map.empty)" by (simp add: sound_def fresh_cache_def)
  with every_setting_is_valid [OF built definitions_pass _ _ d(1), of Map.empty "[OpSet demo_settings_env ''ui.port_desired'' (JInt 80) UpdatedByAdmin,
          OpSet demo_settings_env ''ui.port_desired'' (JInt 8080) UpdatedByAdmin]" demo_settings_env] d
  show ?thesis by (simp add: demo_settings_env_def)
qed

definition demo_body :: "(string \<times> raw_json) list" where
  "demo_body = [(''ui.port_desired'', JInt 80), (''hf.verify_checksums'', JNull)]"

lemma demo_patch_parts:
  "sort (map fst demo_body) = [''hf.verify_checksums''] @ ''ui.port_desired'' # []"
  "list_all (\<lambda>k. \<not> Option.is_none (Lookup the_registry k)) (map fst demo_body)"
  "case decodeAndValidate the_registry demo_checks ''hf.verify_checksums'' JNull of Inl _ \<Rightarrow> False | Inr p \<Rightarrow> snd p = VBool False"
  "case decodeAndValidate the_registry demo_checks ''ui.port_desired'' (JInt 80) of Inl e \<Rightarrow> e = SettingInvalid ''ui.port_desired'' | Inr _ \<Rightarrow> False"
  unfolding the_registry_def by code_simp+

theorem a_bad_value_leaves_half_a_patch_witness:
  "snd (PatchSettings the_registry demo_settings_env demo_body \<lparr>sa_cache = fresh_cache Map.empty, sa_running = Map.empty\<rparr>)
      = Inl (SettingInvalid ''ui.port_desired'')
    \<and> written the_registry demo_settings_env (map_of demo_body) ''hf.verify_checksums''
        (sc_table (sa_cache (fst (PatchSettings the_registry demo_settings_env demo_body
          \<lparr>sa_cache = fresh_cache Map.empty, sa_running = Map.empty\<rparr>))))"
proof -
  have "\<forall>(k, raw)\<in>set demo_body. k \<in> set [''hf.verify_checksums''] \<longrightarrow>
      (\<exists>p. decodeAndValidate the_registry (se_checks demo_settings_env) k raw = Inr p)"
    using demo_patch_parts(3) by (auto simp: demo_body_def demo_settings_env_def split: sum.splits)
  moreover have "decodeAndValidate the_registry (se_checks demo_settings_env) ''ui.port_desired'' (JInt 80)
      = Inl (SettingInvalid ''ui.port_desired'')"
    using demo_patch_parts(4) by (auto simp: demo_settings_env_def split: sum.splits)
  moreover have "\<forall>k\<in>fst ` set demo_body. Lookup the_registry k \<noteq> None"
    using demo_patch_parts(2) by (auto simp: list_all_iff Option.is_none_def)
  ultimately show ?thesis
    using a_bad_value_leaves_half_a_patch [OF built _ demo_patch_parts(1), of demo_settings_env "JInt 80"]
    by (simp add: demo_body_def demo_settings_env_def)
qed

end
