(* ===== verification/Instance_Words.thy ===== *)
theory Instance_Words
  imports Prelude
begin

text \<open>
  The escape hatch \<open>extra_flags\<close> of an instance (\<open>src/internal/instances/extraflags.go\<close>, and
  \<open>flagName\<close> of \<open>render.go\<close>): words split by the quoting rules of a shell and nothing else of one,
  and the flags the renderer owns refused. Every character the splitter treats specially is
  ASCII, so that going through bytes is going through the runes of a valid UTF-8 text.
\<close>

subsection \<open>Splitting\<close>

datatype word_error = UnterminatedSingle | UnterminatedDouble | TrailingBackslash

text \<open>The inside of single and of double quotes: what it stands for, and what follows the quote.\<close>

fun take_single :: "string \<Rightarrow> (string \<times> string) option" where
  "take_single [] = None"
| "take_single (c # s) = (if c = CHR 0x27 then Some ([], s)
     else map_option (\<lambda>(w, r). (c # w, r)) (take_single s))"

fun take_double :: "string \<Rightarrow> (string \<times> string) option" where
  "take_double [] = None"
| "take_double (c # s) = (if c = CHR 0x22 then Some ([], s)
     else if c = CHR 0x5C then
       (case s of
          n # t \<Rightarrow> if n = CHR 0x22 \<or> n = CHR 0x5C \<or> n = CHR 0x0A
            then map_option (\<lambda>(w, r). (n # w, r)) (take_double t)
            else map_option (\<lambda>(w, r). (c # w, r)) (take_double s)
        | [] \<Rightarrow> map_option (\<lambda>(w, r). (c # w, r)) (take_double s))
     else map_option (\<lambda>(w, r). (c # w, r)) (take_double s))"

lemma take_single_shorter: "take_single s = Some (w, r) \<Longrightarrow> length r < length s"
  by (induction s arbitrary: w) (auto split: if_splits)

lemma take_double_shorter: "take_double s = Some (w, r) \<Longrightarrow> length r < length s"
  by (induction s arbitrary: w rule: take_double.induct) (fastforce split: if_splits list.splits)+

definition word_space :: "char \<Rightarrow> bool" where
  "word_space c \<longleftrightarrow> c = CHR 0x20 \<or> c = CHR 0x09 \<or> c = CHR 0x0A \<or> c = CHR 0x0D"

definition flush_word :: "string option \<Rightarrow> string list \<Rightarrow> string list" where
  "flush_word cur ws = (case cur of None \<Rightarrow> ws | Some w \<Rightarrow> w # ws)"

definition grow :: "string option \<Rightarrow> string \<Rightarrow> string option" where
  "grow cur w = Some ((case cur of None \<Rightarrow> [] | Some v \<Rightarrow> v) @ w)"

text \<open>The main loop; \<open>cur\<close> is the word begun, if one is.\<close>

function split_loop :: "string option \<Rightarrow> string \<Rightarrow> word_error + string list" where
  "split_loop cur [] = Inr (flush_word cur [])"
| "split_loop cur (c # s) =
     (if word_space c then (case split_loop None s of Inl e \<Rightarrow> Inl e | Inr ws \<Rightarrow> Inr (flush_word cur ws))
      else if c = CHR 0x27 then (case take_single s of None \<Rightarrow> Inl UnterminatedSingle | Some (w, r) \<Rightarrow> split_loop (grow cur w) r)
      else if c = CHR 0x22 then (case take_double s of None \<Rightarrow> Inl UnterminatedDouble | Some (w, r) \<Rightarrow> split_loop (grow cur w) r)
      else if c = CHR 0x5C then (case s of [] \<Rightarrow> Inl TrailingBackslash | n # t \<Rightarrow> split_loop (grow cur [n]) t)
      else split_loop (grow cur [c]) s)"
  by pat_completeness auto
termination
  by (relation "measure (\<lambda>(cur, s). length s)") (auto dest!: take_single_shorter take_double_shorter)

definition SplitWords :: "string \<Rightarrow> word_error + string list" where
  "SplitWords s = split_loop None s"

subsection \<open>Refusing\<close>

definition isFlagLetter :: "char \<Rightarrow> bool" where
  "isFlagLetter c \<longleftrightarrow> (97 \<le> (of_char c :: nat) \<and> (of_char c :: nat) \<le> 122)
     \<or> (65 \<le> (of_char c :: nat) \<and> (of_char c :: nat) \<le> 90)"

definition flagName :: "string \<Rightarrow> string option" where
  "flagName tok = (if length tok < 2 \<or> hd tok \<noteq> CHR ''-'' then None
     else case dropWhile (\<lambda>c. c = CHR ''-'') tok of
       [] \<Rightarrow> None
     | c # r \<Rightarrow> if \<not> isFlagLetter c then None else Some (takeWhile (\<lambda>c. c \<noteq> CHR ''='') tok))"

definition forbiddenServerFlags :: "string list" where
  "forbiddenServerFlags = [''--host'', ''--port'', ''-m'', ''--model'', ''--api-key'']"

definition forbiddenBenchFlags :: "string list" where
  "forbiddenBenchFlags = [''-m'', ''-o'', ''-r'']"

text \<open>Both refusals are the same code; the flag is in the details of one.\<close>

datatype extra_error = BadWords word_error | ForbiddenFlag string

definition names_forbidden :: "string list \<Rightarrow> string \<Rightarrow> string option" where
  "names_forbidden forbidden w = (case flagName w of None \<Rightarrow> None | Some n \<Rightarrow> if n \<in> set forbidden then Some n else None)"

fun check_words :: "string list \<Rightarrow> string list \<Rightarrow> extra_error option" where
  "check_words forbidden [] = None"
| "check_words forbidden (w # ws) = (case names_forbidden forbidden w of
       Some n \<Rightarrow> Some (ForbiddenFlag n)
     | None \<Rightarrow> check_words forbidden ws)"

definition parseWords :: "string \<Rightarrow> string list \<Rightarrow> extra_error + string list" where
  "parseWords s forbidden = (case SplitWords s of
       Inl e \<Rightarrow> Inl (BadWords e)
     | Inr ws \<Rightarrow> (case check_words forbidden ws of None \<Rightarrow> Inr ws | Some e \<Rightarrow> Inl e))"

definition ParseExtraFlags :: "string \<Rightarrow> extra_error + string list" where
  "ParseExtraFlags s = parseWords s forbiddenServerFlags"

subsection \<open>Quoting and splitting\<close>

text \<open>How a person writes a word: bare, or in either kind of quotes.\<close>

datatype style = Bare | Single | Double

definition special :: "char \<Rightarrow> bool" where
  "special c \<longleftrightarrow> word_space c \<or> c = CHR 0x27 \<or> c = CHR 0x22 \<or> c = CHR 0x5C"

fun quote_word :: "style \<Rightarrow> string \<Rightarrow> string" where
  "quote_word Bare w = concat (map (\<lambda>c. if special c then [CHR 0x5C, c] else [c]) w)"
| "quote_word Single w = CHR 0x27 # concat (map (\<lambda>c. if c = CHR 0x27 then [CHR 0x27, CHR 0x5C, CHR 0x27, CHR 0x27] else [c]) w) @ [CHR 0x27]"
| "quote_word Double w = CHR 0x22 # concat (map (\<lambda>c. if c = CHR 0x22 \<or> c = CHR 0x5C then [CHR 0x5C, c] else [c]) w) @ [CHR 0x22]"

lemma quotes_no_space [simp]:
  "\<not> word_space (CHR 0x27)" "\<not> word_space (CHR 0x22)" "\<not> word_space (CHR 0x5C)"
  by (simp_all add: word_space_def)

lemma bare_split: "split_loop cur (quote_word Bare w @ r) = (if w = [] then split_loop cur r else split_loop (grow cur w) r)"
  by (induction w arbitrary: cur) (auto simp: special_def grow_def)

lemma single_taken:
  "take_single (concat (map (\<lambda>c. if c = CHR 0x27 then [CHR 0x27, CHR 0x5C, CHR 0x27, CHR 0x27] else [c]) w) @ CHR 0x27 # r) =
     Some (takeWhile (\<lambda>c. c \<noteq> CHR 0x27) w,
       (case dropWhile (\<lambda>c. c \<noteq> CHR 0x27) w of
          [] \<Rightarrow> r
        | c # v \<Rightarrow> CHR 0x5C # CHR 0x27 # quote_word Single v @ r))"
  by (induction w) auto

lemma single_split: "split_loop cur (quote_word Single w @ r) = split_loop (grow cur w) r"
proof (induction "length w" arbitrary: w cur rule: less_induct)
  case less
  show ?case
  proof (cases "dropWhile (\<lambda>c. c \<noteq> CHR 0x27) w")
    case Nil
    then have "takeWhile (\<lambda>c. c \<noteq> CHR 0x27) w = w" by (metis append_Nil2 takeWhile_dropWhile_id)
    with single_taken [of w r] Nil
    have "take_single (concat (map (\<lambda>c. if c = CHR 0x27 then [CHR 0x27, CHR 0x5C, CHR 0x27, CHR 0x27] else [c]) w) @ CHR 0x27 # r)
        = Some (w, r)" by (simp only: list.case)
    then show ?thesis by simp
  next
    case (Cons c v)
    then have c: "c = CHR 0x27" by (simp add: dropWhile_eq_Cons_conv)
    have w: "w = takeWhile (\<lambda>c. c \<noteq> CHR 0x27) w @ CHR 0x27 # v"
      using takeWhile_dropWhile_id [of "\<lambda>c. c \<noteq> CHR 0x27" w] by (simp add: Cons c)
    have "length v < length w" by (subst w) simp
    note ih = less.hyps [OF this]
    let ?u = "takeWhile (\<lambda>c. c \<noteq> CHR 0x27) w"
    let ?rest = "CHR 0x5C # CHR 0x27 # quote_word Single v @ r"
    from single_taken [of w r]
    have "take_single (concat (map (\<lambda>c. if c = CHR 0x27 then [CHR 0x27, CHR 0x5C, CHR 0x27, CHR 0x27] else [c]) w) @ CHR 0x27 # r)
        = Some (?u, ?rest)" by (simp only: Cons list.case c)
    then have "split_loop cur (quote_word Single w @ r) = split_loop (grow cur ?u) ?rest"
      by (simp del: split_loop.simps(2) quote_word.simps(2) add: quote_word.simps(2) [of w] split_loop.simps(2) [of cur "CHR 0x27"])
    also have "\<dots> = split_loop (grow (grow cur ?u) [CHR 0x27]) (quote_word Single v @ r)"
      by (simp del: quote_word.simps)
    also have "\<dots> = split_loop (grow (grow (grow cur ?u) [CHR 0x27]) v) r" by (rule ih)
    also have "grow (grow (grow cur ?u) [CHR 0x27]) v = grow cur (?u @ CHR 0x27 # v)" by (simp add: grow_def)
    finally show ?thesis using w by simp
  qed
qed

lemma double_taken:
  "take_double (concat (map (\<lambda>c. if c = CHR 0x22 \<or> c = CHR 0x5C then [CHR 0x5C, c] else [c]) w) @ CHR 0x22 # r) = Some (w, r)"
  by (induction w) auto

lemma double_split: "split_loop cur (quote_word Double w @ r) = split_loop (grow cur w) r"
  by (simp add: double_taken word_space_def)

lemma quoted_split:
  "w = [] \<longrightarrow> st \<noteq> Bare \<Longrightarrow> split_loop cur (quote_word st w @ r) = split_loop (grow cur w) r"
  by (cases st) (simp_all add: bare_split single_split double_split del: quote_word.simps)

text \<open>A line of words, each in its own style, one space between.\<close>

fun quote_line :: "(style \<times> string) list \<Rightarrow> string" where
  "quote_line [] = []"
| "quote_line [(st, w)] = quote_word st w"
| "quote_line ((st, w) # ws) = quote_word st w @ CHR '' '' # quote_line ws"

lemma SplitWords_quote_line:
  "list_all (\<lambda>(st, w). w = [] \<longrightarrow> st \<noteq> Bare) ws \<Longrightarrow> SplitWords (quote_line ws) = Inr (map snd ws)"
  unfolding SplitWords_def
proof (induction ws rule: quote_line.induct)
  case (2 st w)
  then show ?case using quoted_split [of w st None "[]"] by (simp add: flush_word_def grow_def del: quote_word.simps)
next
  case (3 st w p ws)
  then show ?case using quoted_split [of w st None "CHR '' '' # quote_line (p # ws)"]
    by (simp add: flush_word_def grow_def word_space_def del: quote_word.simps)
qed (simp add: flush_word_def)

lemma check_words_None: "check_words forbidden ws = None \<longleftrightarrow> (\<forall>w\<in>set ws. names_forbidden forbidden w = None)"
  by (induction ws) (auto split: option.split)

text \<open>
  C38. What a person quotes is what the program gets: words written bare with backslashes, in single
  or in double quotes, with a space between, are split into exactly those words, empty ones and
  ones full of special characters included; they are accepted when none names a flag the renderer
  owns and refused otherwise, and no accepted line of extra flags, however written, holds a word
  that names one.
\<close>

theorem quoted_words_come_back:
  assumes "list_all (\<lambda>(st, w). w = [] \<longrightarrow> st \<noteq> Bare) ws"
  shows "SplitWords (quote_line ws) = Inr (map snd ws)
    \<and> (ParseExtraFlags (quote_line ws) = Inr (map snd ws)
        \<longleftrightarrow> (\<forall>w\<in>snd ` set ws. names_forbidden forbiddenServerFlags w = None))
    \<and> (\<forall>s us. ParseExtraFlags s = Inr us \<longrightarrow> (\<forall>u\<in>set us. names_forbidden forbiddenServerFlags u = None))"
proof -
  have "\<forall>u\<in>set us. names_forbidden forbiddenServerFlags u = None" if "ParseExtraFlags s = Inr us" for s us
    using that check_words_None [of forbiddenServerFlags us]
    by (auto simp: ParseExtraFlags_def parseWords_def split: sum.splits option.splits)
  then show ?thesis
    using SplitWords_quote_line [OF assms] check_words_None [of forbiddenServerFlags "map snd ws"]
    by (auto simp: ParseExtraFlags_def parseWords_def split: option.split)
qed

theorem quoted_words_come_back_witness:
  "SplitWords (quote_line [(Bare, ''a b''), (Single, []), (Double, ''-x=$HOME'')]) = Inr [''a b'', [], ''-x=$HOME'']"
  using quoted_words_come_back [of "[(Bare, ''a b''), (Single, []), (Double, ''-x=$HOME'')]"] by simp

end
