(* ===== verification/Instance_Ports.thy ===== *)
theory Instance_Ports
  imports Prelude
begin

text \<open>
  The rules for the two ports of an instance (\<open>src/internal/instances/ports.go\<close>) and the places
  where the instance service chooses and changes them (\<open>src/internal/instances/service.go\<close>). The
  live bind probe is a function of the address and the port, given afresh at each call.
\<close>

subsection \<open>The rules\<close>

datatype port_kind = PortPublic | PortInternal

definition DefaultPublicPortBase :: int where "DefaultPublicPortBase = 8080"
definition PortScanLimit :: nat where "PortScanLimit = 2048"
definition LoopbackHost :: string where "LoopbackHost = ''127.0.0.1''"

record port_policy =
  pp_UIPortDesired :: int
  pp_UIPort :: int
  pp_InternalMin :: int
  pp_InternalMax :: int
  pp_GatewayBind :: string

record port_holder =
  ph_InstanceID :: string
  ph_Name :: string
  ph_PublicPort :: int
  ph_InternalPort :: int

datatype port_reason = PortReservedManagement | PortReservedInternalPool | PortOutsideInternalPool
  | PortInUseByInstance | PortBindFailed

text \<open>The refusal with its details; the holder when another instance has the port, and the failed
  walk of a suggestion.\<close>

datatype port_error = PortUnavailable int port_reason | PortHeld int port_holder | NoFreePort port_kind

type_synonym prober = "string \<Rightarrow> int \<Rightarrow> bool"

definition bindFor :: "port_kind \<Rightarrow> port_policy \<Rightarrow> string" where
  "bindFor k pol = (if k = PortPublic then pp_GatewayBind pol else LoopbackHost)"

definition inPool :: "int \<Rightarrow> port_policy \<Rightarrow> bool" where
  "inPool port pol \<longleftrightarrow> port \<ge> pp_InternalMin pol \<and> port \<le> pp_InternalMax pol"

fun holderOf :: "int \<Rightarrow> port_holder list \<Rightarrow> string \<Rightarrow> port_holder option" where
  "holderOf port [] excl = None"
| "holderOf port (h # hs) excl = (if ph_InstanceID h = excl then holderOf port hs excl
     else if ph_PublicPort h = port \<or> ph_InternalPort h = port then Some h
     else holderOf port hs excl)"

definition ValidatePort :: "port_kind \<Rightarrow> int \<Rightarrow> port_policy \<Rightarrow> port_holder list \<Rightarrow> string \<Rightarrow> prober option \<Rightarrow> port_error option" where
  "ValidatePort k port pol hs excl probe =
     (if port < 1024 \<or> port > 65535 then Some (PortUnavailable port PortBindFailed)
      else let rest = (case holderOf port hs excl of
               Some h \<Rightarrow> Some (PortHeld port h)
             | None \<Rightarrow> (case probe of
                 None \<Rightarrow> None
               | Some pr \<Rightarrow> if \<not> pr (bindFor k pol) port then Some (PortUnavailable port PortBindFailed) else None))
      in case k of
           PortPublic \<Rightarrow>
             if port = pp_UIPortDesired pol \<or> (pp_UIPort pol \<noteq> 0 \<and> port = pp_UIPort pol)
             then Some (PortUnavailable port PortReservedManagement)
             else if inPool port pol then Some (PortUnavailable port PortReservedInternalPool)
             else rest
         | PortInternal \<Rightarrow>
             if \<not> inPool port pol then Some (PortUnavailable port PortOutsideInternalPool) else rest)"

text \<open>The walk: \<open>n\<close> ports are still to be tried.\<close>

fun suggest_walk :: "nat \<Rightarrow> port_kind \<Rightarrow> int \<Rightarrow> int \<Rightarrow> port_policy \<Rightarrow> port_holder list \<Rightarrow> prober option \<Rightarrow> int option" where
  "suggest_walk 0 k port hi pol hs probe = None"
| "suggest_walk (Suc n) k port hi pol hs probe =
     (if port > hi then None
      else if ValidatePort k port pol hs [] probe = None then Some port
      else suggest_walk n k (port + 1) hi pol hs probe)"

definition suggest_range :: "port_kind \<Rightarrow> port_policy \<Rightarrow> int \<times> int" where
  "suggest_range k pol = (if k = PortInternal then (pp_InternalMin pol, pp_InternalMax pol) else (DefaultPublicPortBase, 65535))"

definition SuggestPort :: "port_kind \<Rightarrow> port_policy \<Rightarrow> port_holder list \<Rightarrow> prober option \<Rightarrow> port_error + int" where
  "SuggestPort k pol hs probe = (case suggest_range k pol of (first, hi) \<Rightarrow>
     (case suggest_walk PortScanLimit k first hi pol hs probe of
        Some p \<Rightarrow> Inr p
      | None \<Rightarrow> Inl (NoFreePort k)))"

subsection \<open>The service\<close>

definition choosePort :: "port_kind \<Rightarrow> int option \<Rightarrow> port_policy \<Rightarrow> port_holder list \<Rightarrow> string \<Rightarrow> prober option \<Rightarrow> port_error + int" where
  "choosePort k requested pol hs excl probe = (case requested of
       Some p \<Rightarrow> (case ValidatePort k p pol hs excl probe of Some e \<Rightarrow> Inl e | None \<Rightarrow> Inr p)
     | None \<Rightarrow> SuggestPort k pol hs probe)"

definition chooseInternalPort :: "int option \<Rightarrow> port_policy \<Rightarrow> port_holder list \<Rightarrow> string \<Rightarrow> int \<Rightarrow> prober option \<Rightarrow> port_error + int" where
  "chooseInternalPort requested pol hs excl public probe =
     bind_res (choosePort PortInternal requested pol hs excl probe) (\<lambda>p.
       if p = public then Inl (PortUnavailable p PortInUseByInstance) else Inr p)"

text \<open>The ports of \<open>Create\<close>; an empty id is excluded, which no instance has.\<close>

definition create_ports :: "string \<Rightarrow> string \<Rightarrow> int option \<Rightarrow> int option \<Rightarrow> port_policy \<Rightarrow> prober option \<Rightarrow> port_holder list
    \<Rightarrow> port_error + port_holder list" where
  "create_ports i name pub intr pol probe hs =
     bind_res (choosePort PortPublic pub pol hs [] probe) (\<lambda>pp.
     bind_res (chooseInternalPort intr pol hs [] pp probe) (\<lambda>ip.
       Inr (hs @ [\<lparr>ph_InstanceID = i, ph_Name = name, ph_PublicPort = pp, ph_InternalPort = ip\<rparr>])))"

text \<open>The ports of \<open>Update\<close>, on the row of the instance: only what the patch names is validated.\<close>

definition patch_one :: "string \<Rightarrow> int option \<Rightarrow> int option \<Rightarrow> port_policy \<Rightarrow> prober option \<Rightarrow> port_holder list \<Rightarrow> port_holder
    \<Rightarrow> port_error + port_holder" where
  "patch_one i pub intr pol probe hs h =
     (if pub = None \<and> intr = None then Inr h
      else bind_res (case pub of None \<Rightarrow> Inr h
             | Some p \<Rightarrow> (case ValidatePort PortPublic p pol hs i probe of Some e \<Rightarrow> Inl e | None \<Rightarrow> Inr (h\<lparr>ph_PublicPort := p\<rparr>))) (\<lambda>h1.
           bind_res (case intr of None \<Rightarrow> Inr h1
             | Some p \<Rightarrow> (case ValidatePort PortInternal p pol hs i probe of Some e \<Rightarrow> Inl e | None \<Rightarrow> Inr (h1\<lparr>ph_InternalPort := p\<rparr>))) (\<lambda>h2.
             if ph_PublicPort h2 = ph_InternalPort h2 then Inl (PortUnavailable (ph_PublicPort h2) PortInUseByInstance)
             else Inr h2)))"

definition patch_ports :: "string \<Rightarrow> int option \<Rightarrow> int option \<Rightarrow> port_policy \<Rightarrow> prober option \<Rightarrow> port_holder list
    \<Rightarrow> port_error + port_holder list" where
  "patch_ports i pub intr pol probe hs = (case find (\<lambda>h. ph_InstanceID h = i) hs of
       None \<Rightarrow> Inr hs
     | Some h \<Rightarrow> bind_res (patch_one i pub intr pol probe hs h) (\<lambda>h'.
         Inr (map (\<lambda>g. if ph_InstanceID g = i then h' else g) hs)))"

definition delete_ports :: "string \<Rightarrow> port_holder list \<Rightarrow> port_holder list" where
  "delete_ports i hs = filter (\<lambda>h. ph_InstanceID h \<noteq> i) hs"

subsection \<open>What a valid port is\<close>

lemma holderOf_None: "holderOf port hs excl = None \<longleftrightarrow>
    (\<forall>h\<in>set hs. ph_InstanceID h \<noteq> excl \<longrightarrow> ph_PublicPort h \<noteq> port \<and> ph_InternalPort h \<noteq> port)"
  by (induction hs) auto

text \<open>The rule table, as a specification.\<close>

definition port_allowed :: "port_kind \<Rightarrow> int \<Rightarrow> port_policy \<Rightarrow> port_holder list \<Rightarrow> string \<Rightarrow> prober option \<Rightarrow> bool" where
  "port_allowed k port pol hs excl probe \<longleftrightarrow> port \<in> {1024..65535}
     \<and> (k = PortPublic \<longrightarrow> port \<noteq> pp_UIPortDesired pol \<and> (pp_UIPort pol \<noteq> 0 \<longrightarrow> port \<noteq> pp_UIPort pol))
     \<and> (inPool port pol \<longleftrightarrow> k = PortInternal)
     \<and> (\<forall>h\<in>set hs. ph_InstanceID h \<noteq> excl \<longrightarrow> port \<notin> {ph_PublicPort h, ph_InternalPort h})
     \<and> (case probe of None \<Rightarrow> True | Some pr \<Rightarrow> pr (bindFor k pol) port)"

lemma ValidatePort_iff: "ValidatePort k port pol hs excl probe = None \<longleftrightarrow> port_allowed k port pol hs excl probe"
proof (cases "holderOf port hs excl")
  case None
  then show ?thesis
    unfolding ValidatePort_def port_allowed_def Let_def using holderOf_None [of port hs excl]
    by (cases k; cases probe) auto
next
  case (Some h)
  then have "\<not> (\<forall>h\<in>set hs. ph_InstanceID h \<noteq> excl \<longrightarrow> port \<notin> {ph_PublicPort h, ph_InternalPort h})"
    using holderOf_None [of port hs excl] by auto
  with Some show ?thesis unfolding ValidatePort_def port_allowed_def Let_def by (cases k) auto
qed

lemma walk_Some: "suggest_walk n k port hi pol hs probe = Some p \<longleftrightarrow>
    port \<le> p \<and> p \<le> hi \<and> p < port + int n \<and> port_allowed k p pol hs [] probe
    \<and> (\<forall>q. port \<le> q \<and> q < p \<longrightarrow> \<not> port_allowed k q pol hs [] probe)"
proof (induction n arbitrary: port)
  case (Suc n)
  show ?case
  proof (cases "port \<le> hi \<and> \<not> port_allowed k port pol hs [] probe")
    case True
    then have "suggest_walk (Suc n) k port hi pol hs probe = suggest_walk n k (port + 1) hi pol hs probe"
      by (simp add: ValidatePort_iff)
    moreover have "(\<forall>q. port \<le> q \<and> q < p \<longrightarrow> \<not> port_allowed k q pol hs [] probe) \<longleftrightarrow>
        (\<forall>q. port + 1 \<le> q \<and> q < p \<longrightarrow> \<not> port_allowed k q pol hs [] probe)"
      using True by (metis add1_zle_eq order_le_less)
    moreover have "port \<noteq> p" if "port_allowed k p pol hs [] probe" using that True by auto
    ultimately show ?thesis using Suc.IH [of "port + 1"] by auto
  next
    case False
    then show ?thesis by (auto simp: ValidatePort_iff)
  qed
qed auto

lemma walk_None: "suggest_walk n k port hi pol hs probe = None \<longleftrightarrow>
    (\<forall>q. port \<le> q \<and> q \<le> hi \<and> q < port + int n \<longrightarrow> \<not> port_allowed k q pol hs [] probe)"
proof (induction n arbitrary: port)
  case (Suc n)
  have "(\<forall>q. port \<le> q \<and> q \<le> hi \<and> q < port + int (Suc n) \<longrightarrow> \<not> port_allowed k q pol hs [] probe) \<longleftrightarrow>
      (port \<le> hi \<longrightarrow> \<not> port_allowed k port pol hs [] probe) \<and>
      (\<forall>q. port + 1 \<le> q \<and> q \<le> hi \<and> q < port + 1 + int n \<longrightarrow> \<not> port_allowed k q pol hs [] probe)" (is "?l \<longleftrightarrow> ?r")
  proof
    assume ?l
    then show ?r by simp
  next
    assume r: ?r
    show ?l
    proof (intro allI impI)
      fix q assume "port \<le> q \<and> q \<le> hi \<and> q < port + int (Suc n)"
      with r show "\<not> port_allowed k q pol hs [] probe" by (cases "q = port") auto
    qed
  qed
  with Suc.IH [of "port + 1"] show ?case by (auto simp: ValidatePort_iff)
qed auto

lemma a_suggested_port: "SuggestPort k pol hs probe = Inr p \<Longrightarrow> port_allowed k p pol hs [] probe"
  by (auto simp: SuggestPort_def walk_Some split: prod.splits option.splits)

text \<open>
  A suggested port is the least port of its range, among the first \<open>PortScanLimit\<close>, that a save
  would accept: in the range an unprivileged process can bind, not the management interface's,
  inside the pool exactly for an internal port, held by no instance in either column, and free
  when probed; and there is no suggestion exactly when there is no such port.
\<close>

theorem a_suggestion_is_the_least_port_a_save_accepts:
  "case suggest_range k pol of (first, hi) \<Rightarrow>
     (case SuggestPort k pol hs probe of
        Inr p \<Rightarrow> first \<le> p \<and> p \<le> hi \<and> port_allowed k p pol hs [] probe
          \<and> choosePort k (Some p) pol hs [] probe = Inr p
          \<and> (\<forall>q. first \<le> q \<and> q < p \<longrightarrow> \<not> port_allowed k q pol hs [] probe)
      | Inl e \<Rightarrow> e = NoFreePort k \<and> (\<forall>q. first \<le> q \<and> q \<le> hi \<and> q < first + 2048 \<longrightarrow> \<not> port_allowed k q pol hs [] probe))"
proof -
  obtain first hi where r: "suggest_range k pol = (first, hi)" by fastforce
  show ?thesis
  proof (cases "suggest_walk PortScanLimit k first hi pol hs probe")
    case (Some p)
    note w = Some [unfolded walk_Some]
    then have "choosePort k (Some p) pol hs [] probe = Inr p"
      using ValidatePort_iff [of k p pol hs "[]" probe] by (simp add: choosePort_def)
    with w show ?thesis by (simp add: SuggestPort_def r Some)
  next
    case None
    then have "SuggestPort k pol hs probe = Inl (NoFreePort k)" by (simp add: SuggestPort_def r)
    with None [unfolded walk_None] show ?thesis by (simp add: r PortScanLimit_def)
  qed
qed

subsection \<open>No two instances on one port\<close>

text \<open>Every port, of either kind, is one instance's; ids are unique and not empty.\<close>

definition all_ports :: "port_holder list \<Rightarrow> int list" where
  "all_ports hs = concat (map (\<lambda>h. [ph_PublicPort h, ph_InternalPort h]) hs)"

definition ports_ok :: "port_holder list \<Rightarrow> bool" where
  "ports_ok hs \<longleftrightarrow> distinct (all_ports hs) \<and> distinct (map ph_InstanceID hs) \<and> [] \<notin> ph_InstanceID ` set hs"

datatype port_event = CreatePorts string string "int option" "int option" port_policy "prober option"
  | PatchPorts string "int option" "int option" port_policy "prober option" | DeletePorts string

text \<open>A refused request changes nothing; a new instance has an id of its own.\<close>

fun port_step :: "port_event \<Rightarrow> port_holder list \<Rightarrow> port_holder list" where
  "port_step (CreatePorts i name pub intr pol probe) hs =
     (if i = [] \<or> i \<in> ph_InstanceID ` set hs then hs
      else case create_ports i name pub intr pol probe hs of Inl _ \<Rightarrow> hs | Inr hs' \<Rightarrow> hs')"
| "port_step (PatchPorts i pub intr pol probe) hs =
     (case patch_ports i pub intr pol probe hs of Inl _ \<Rightarrow> hs | Inr hs' \<Rightarrow> hs')"
| "port_step (DeletePorts i) hs = delete_ports i hs"

lemma set_all_ports: "set (all_ports hs) = {p. \<exists>h\<in>set hs. p = ph_PublicPort h \<or> p = ph_InternalPort h}"
  by (auto simp: all_ports_def)

lemma all_ports_simps [simp]:
  "all_ports [] = []"
  "all_ports (h # hs) = ph_PublicPort h # ph_InternalPort h # all_ports hs"
  "all_ports (hs @ hs') = all_ports hs @ all_ports hs'"
  by (simp_all add: all_ports_def)

lemma choosePort_allowed:
  "choosePort k req pol hs [] probe = Inr p \<Longrightarrow> port_allowed k p pol hs [] probe"
  using a_suggested_port [of k pol hs probe p]
  by (auto simp: choosePort_def ValidatePort_iff split: option.splits)

lemma allowed_elsewhere:
  "port_allowed k p pol hs excl probe \<Longrightarrow> p \<notin> set (all_ports (filter (\<lambda>h. ph_InstanceID h \<noteq> excl) hs))"
  unfolding set_all_ports port_allowed_def by auto

lemma create_ok:
  assumes "ports_ok hs" and "i \<noteq> []" and "i \<notin> ph_InstanceID ` set hs"
    and "create_ports i name pub intr pol probe hs = Inr hs'"
  shows "ports_ok hs'"
proof -
  from assms(4) obtain pp ip where c: "choosePort PortPublic pub pol hs [] probe = Inr pp"
      "choosePort PortInternal intr pol hs [] probe = Inr ip" "ip \<noteq> pp"
      "hs' = hs @ [\<lparr>ph_InstanceID = i, ph_Name = name, ph_PublicPort = pp, ph_InternalPort = ip\<rparr>]"
    by (auto simp: create_ports_def chooseInternalPort_def bind_Inr split: if_splits)
  have "filter (\<lambda>h. ph_InstanceID h \<noteq> []) hs = hs"
    using assms(1) by (auto simp: ports_ok_def image_iff intro!: filter_True)
  then have "pp \<notin> set (all_ports hs)" "ip \<notin> set (all_ports hs)"
    using allowed_elsewhere [OF choosePort_allowed [OF c(1)]] allowed_elsewhere [OF choosePort_allowed [OF c(2)]] by simp_all
  with assms c(3,4) show ?thesis by (auto simp: ports_ok_def)
qed

lemma ports_replace:
  assumes "distinct (map ph_InstanceID hs)" and "distinct (all_ports hs)"
    and "ph_InstanceID h' = i" and "ph_PublicPort h' \<noteq> ph_InternalPort h'"
    and "ph_PublicPort h' \<notin> set (all_ports (filter (\<lambda>h. ph_InstanceID h \<noteq> i) hs))"
    and "ph_InternalPort h' \<notin> set (all_ports (filter (\<lambda>h. ph_InstanceID h \<noteq> i) hs))"
  shows "distinct (all_ports (map (\<lambda>g. if ph_InstanceID g = i then h' else g) hs))"
  using assms
proof (induction hs)
  case (Cons g hs)
  show ?case
  proof (cases "ph_InstanceID g = i")
    case True
    then have "map (\<lambda>g. if ph_InstanceID g = i then h' else g) hs = hs"
        and "filter (\<lambda>h. ph_InstanceID h \<noteq> i) hs = hs"
      using Cons.prems(1) True by (auto simp: image_iff intro!: filter_True map_idI)
    with True Cons.prems show ?thesis by simp
  next
    case False
    let ?f = "\<lambda>g. if ph_InstanceID g = i then h' else g"
    have sub: "set (all_ports (map ?f hs)) \<subseteq> {ph_PublicPort h', ph_InternalPort h'} \<union> set (all_ports hs)"
      unfolding set_all_ports by auto
    have "ph_PublicPort g \<notin> set (all_ports (map ?f hs))" "ph_InternalPort g \<notin> set (all_ports (map ?f hs))"
      using sub False Cons.prems by auto
    with False Cons show ?thesis by simp
  qed
qed simp

lemma own_ports:
  assumes "h \<in> set hs" and "distinct (map ph_InstanceID hs)" and "distinct (all_ports hs)"
  shows "ph_PublicPort h \<notin> set (all_ports (filter (\<lambda>g. ph_InstanceID g \<noteq> ph_InstanceID h) hs))
    \<and> ph_InternalPort h \<notin> set (all_ports (filter (\<lambda>g. ph_InstanceID g \<noteq> ph_InstanceID h) hs))
    \<and> ph_PublicPort h \<noteq> ph_InternalPort h"
proof -
  obtain us vs where hs: "hs = us @ h # vs" using assms(1) by (meson split_list)
  moreover have "set (all_ports (filter P gs)) \<subseteq> set (all_ports gs)" for P gs
    unfolding set_all_ports by auto
  ultimately show ?thesis using assms(3) by auto
qed

lemma patch_ok:
  assumes ok: "ports_ok hs" and "patch_ports i pub intr pol probe hs = Inr hs'"
  shows "ports_ok hs'"
proof (cases "find (\<lambda>h. ph_InstanceID h = i) hs")
  case None
  with assms show ?thesis by (simp add: patch_ports_def)
next
  case (Some h)
  then have h: "h \<in> set hs" "ph_InstanceID h = i" by (auto simp: find_Some_iff)
  from assms(2) Some obtain h' where p: "patch_one i pub intr pol probe hs h = Inr h'"
      and hs': "hs' = map (\<lambda>g. if ph_InstanceID g = i then h' else g) hs"
    by (auto simp: patch_ports_def bind_Inr)
  let ?others = "filter (\<lambda>g. ph_InstanceID g \<noteq> i) hs"
  have own: "ph_PublicPort h \<notin> set (all_ports ?others)" "ph_InternalPort h \<notin> set (all_ports ?others)"
      "ph_PublicPort h \<noteq> ph_InternalPort h"
    using own_ports [of h hs] ok h by (auto simp: ports_ok_def)
  have "ph_InstanceID h' = i \<and> ph_PublicPort h' \<noteq> ph_InternalPort h'
      \<and> ph_PublicPort h' \<notin> set (all_ports ?others) \<and> ph_InternalPort h' \<notin> set (all_ports ?others)"
    using p own h(2) allowed_elsewhere
    by (auto simp: patch_one_def bind_Inr ValidatePort_iff split: option.splits if_splits)
  note new = this
  have ids: "map ph_InstanceID hs' = map ph_InstanceID hs" using new hs' by simp
  have "distinct (all_ports hs')"
    unfolding hs' by (rule ports_replace) (use ok new in \<open>auto simp: ports_ok_def\<close>)
  with ok ids show ?thesis unfolding ports_ok_def by (metis list.set_map)
qed

lemma delete_ok: "ports_ok hs \<Longrightarrow> ports_ok (delete_ports i hs)"
proof -
  have sub: "set (all_ports (filter P gs)) \<subseteq> set (all_ports gs)" for P gs
    unfolding set_all_ports by auto
  have "distinct (all_ports gs) \<Longrightarrow> distinct (all_ports (filter P gs))" for P gs
  proof (induction gs)
    case (Cons g gs)
    then show ?case using sub [of P gs] by auto
  qed simp
  then show "ports_ok hs \<Longrightarrow> ports_ok (delete_ports i hs)"
    by (auto simp: ports_ok_def delete_ports_def distinct_map_filter)
qed

interpretation ports: machine port_step "\<lambda>_. True" ports_ok
proof (unfold_locales, goal_cases)
  case (1 e hs)
  then have ok: "ports_ok hs" by simp
  show ?case
  proof (cases e)
    case (CreatePorts i name pub intr pol probe)
    show ?thesis
    proof (cases "i = [] \<or> i \<in> ph_InstanceID ` set hs")
      case False
      then show ?thesis using ok create_ok [OF ok, of i name pub intr pol probe] CreatePorts
        by (cases "create_ports i name pub intr pol probe hs") simp_all
    qed (use ok CreatePorts in auto)
  next
    case (PatchPorts i pub intr pol probe)
    then show ?thesis using ok patch_ok [OF ok, of i pub intr pol probe]
      by (cases "patch_ports i pub intr pol probe hs") simp_all
  next
    case (DeletePorts i)
    then show ?thesis by (simp add: delete_ok [OF ok])
  qed
qed

text \<open>
  C39. No two live instances ever meet on a port: starting from no instances, after any creations,
  edits and deletions, with requested and suggested ports, under policies and probes that change
  from call to call, all public and internal ports together are distinct, and every instance that
  has been created with a policy got ports that policy allowed.
\<close>

theorem no_two_instances_share_a_port:
  "ports_ok (run port_step es [])
    \<and> (case create_ports i name pub intr pol probe (run port_step es []) of Inl _ \<Rightarrow> True
        | Inr hs' \<Rightarrow> port_allowed PortPublic (ph_PublicPort (last hs')) pol (run port_step es []) [] probe
            \<and> port_allowed PortInternal (ph_InternalPort (last hs')) pol (run port_step es []) [] probe)"
proof -
  have "ports_ok (run port_step es [])"
    by (rule ports.run_inv) (simp_all add: list_all_iff ports_ok_def)
  moreover have "port_allowed PortPublic (ph_PublicPort (last hs')) pol hs [] probe
      \<and> port_allowed PortInternal (ph_InternalPort (last hs')) pol hs [] probe"
    if "create_ports i name pub intr pol probe hs = Inr hs'" for hs hs'
    using that choosePort_allowed
    by (auto simp: create_ports_def chooseInternalPort_def bind_Inr split: if_splits)
  ultimately show ?thesis by (auto split: sum.split)
qed

text \<open>Two instances created without naming a port.\<close>

definition stock_policy :: port_policy where
  "stock_policy = \<lparr>pp_UIPortDesired = 5526, pp_UIPort = 0, pp_InternalMin = 21000, pp_InternalMax = 21999,
     pp_GatewayBind = ''0.0.0.0''\<rparr>"

lemma two_instances_created:
  "map (\<lambda>h. (ph_PublicPort h, ph_InternalPort h))
     (run port_step [CreatePorts ''a'' ''a'' None None stock_policy None, CreatePorts ''b'' ''b'' None None stock_policy None] [])
   = [(8080, 21000), (8081, 21001)]"
  by code_simp

text \<open>With one instance on 8080, the next one is offered 8081.\<close>

definition one_holder :: "port_holder list" where
  "one_holder = [\<lparr>ph_InstanceID = ''a'', ph_Name = ''a'', ph_PublicPort = 8080, ph_InternalPort = 21000\<rparr>]"

theorem a_suggestion_is_the_least_port_a_save_accepts_witness:
  "choosePort PortPublic (Some 8081) stock_policy one_holder [] None = Inr 8081
    \<and> \<not> port_allowed PortPublic 8080 stock_policy one_holder [] None"
proof -
  have "SuggestPort PortPublic stock_policy one_holder None = Inr 8081" by code_simp
  moreover have "suggest_range PortPublic stock_policy = (8080, 65535)" by code_simp
  ultimately show ?thesis
    using a_suggestion_is_the_least_port_a_save_accepts [of PortPublic stock_policy one_holder None] by simp
qed

end
