(* ===== verification/Instance_Flags.thy ===== *)
theory Instance_Flags
  imports Instance_Words Instance_Ports
begin

text \<open>
  The flags of an instance and the two command lines made from them
  (\<open>src/internal/model/flagset.go\<close>, \<open>src/internal/instances/render.go\<close>): the one of
  \<open>llama-server\<close> and the one of \<open>llama-bench\<close>. A float is the word of its bits, and how
  \<open>strconv.FormatFloat\<close> prints it is a parameter. A closed set of values (a mode, a kind of
  attention) is the string that the column holds, valid or not.
\<close>

subsection \<open>Flags\<close>

type_synonym flt = u64

record ngpu_layers =
  ng_Mode :: string
  ng_Count :: "int option"

record draft_flags =
  df_NMax :: "int option"
  df_NMin :: "int option"
  df_PMin :: "flt option"
  df_CtxSize :: "int option"
  df_NGpuLayers :: "int option"

record flag_set =
  fs_CtxSize :: "int option"
  fs_NGpuLayers :: "ngpu_layers option"
  fs_BatchSize :: "int option"
  fs_UbatchSize :: "int option"
  fs_Parallel :: "int option"
  fs_Threads :: "int option"
  fs_ThreadsBatch :: "int option"
  fs_FlashAttn :: "string option"
  fs_CacheTypeK :: "string option"
  fs_CacheTypeV :: "string option"
  fs_SplitMode :: "string option"
  fs_TensorSplit :: "flt list"
  fs_MainGPU :: "int option"
  fs_DeviceFilter :: "string option"
  fs_DeviceUUIDs :: "string list"
  fs_Mlock :: "bool option"
  fs_NoMmap :: "bool option"
  fs_ContBatching :: "bool option"
  fs_Embedding :: "bool option"
  fs_Pooling :: "string option"
  fs_Rerank :: "bool option"
  fs_Alias :: "string option"
  fs_ChatTemplate :: "string option"
  fs_ChatTemplateFile :: "string option"
  fs_Jinja :: "bool option"
  fs_RopeScaling :: "string option"
  fs_RopeFreqBase :: "flt option"
  fs_RopeFreqScale :: "flt option"
  fs_YarnExtFactor :: "flt option"
  fs_YarnAttnFactor :: "flt option"
  fs_NKeep :: "int option"
  fs_NPredict :: "int option"
  fs_DefragThold :: "flt option"
  fs_CacheReuse :: "int option"
  fs_Numa :: "string option"
  fs_CPUMask :: "string option"
  fs_Prio :: "int option"
  fs_SlotSavePath :: "string option"
  fs_Draft :: "draft_flags option"
  fs_PropsEndpoint :: "bool option"
  fs_SlotsEndpoint :: "bool option"
  fs_MetricsEndpoint :: "bool option"
  fs_LogVerbosity :: "int option"

definition no_flags :: flag_set where
  "no_flags = \<lparr>fs_CtxSize = None, fs_NGpuLayers = None, fs_BatchSize = None, fs_UbatchSize = None, fs_Parallel = None, fs_Threads = None, fs_ThreadsBatch = None, fs_FlashAttn = None, fs_CacheTypeK = None, fs_CacheTypeV = None, fs_SplitMode = None, fs_TensorSplit = [], fs_MainGPU = None, fs_DeviceFilter = None, fs_DeviceUUIDs = [], fs_Mlock = None, fs_NoMmap = None, fs_ContBatching = None, fs_Embedding = None, fs_Pooling = None, fs_Rerank = None, fs_Alias = None, fs_ChatTemplate = None, fs_ChatTemplateFile = None, fs_Jinja = None, fs_RopeScaling = None, fs_RopeFreqBase = None, fs_RopeFreqScale = None, fs_YarnExtFactor = None, fs_YarnAttnFactor = None, fs_NKeep = None, fs_NPredict = None, fs_DefragThold = None, fs_CacheReuse = None, fs_Numa = None, fs_CPUMask = None, fs_Prio = None, fs_SlotSavePath = None, fs_Draft = None, fs_PropsEndpoint = None, fs_SlotsEndpoint = None, fs_MetricsEndpoint = None, fs_LogVerbosity = None\<rparr>"

definition NGLModeValues :: "string list" where
  "NGLModeValues = [''auto'', ''all'', ''none'', ''count'']"

definition FlashAttnValues :: "string list" where
  "FlashAttnValues = [''on'', ''off'', ''auto'']"

definition SplitModeValues :: "string list" where
  "SplitModeValues = [''none'', ''layer'', ''row'']"

text \<open>Below zero: neither a zero of either sign nor a NaN.\<close>

definition flt_negative :: "flt \<Rightarrow> bool" where
  "flt_negative w \<longleftrightarrow> 2 ^ 63 \<le> unat w \<and> unat w - 2 ^ 63 \<noteq> 0 \<and> unat w - 2 ^ 63 \<le> 0x7FF * 2 ^ 52"

datatype flags_error = BadMode string | NoCount | NegativeCount int | BadFlashAttn string | BadSplitMode string
  | NegativeSplit nat | NegativeMainGPU int | NotPositive string int

definition check_ngl :: "ngpu_layers option \<Rightarrow> flags_error option" where
  "check_ngl n = (case n of None \<Rightarrow> None
     | Some g \<Rightarrow> if ng_Mode g \<notin> set NGLModeValues then Some (BadMode (ng_Mode g))
         else if ng_Mode g = ''count'' then (case ng_Count g of None \<Rightarrow> Some NoCount
           | Some c \<Rightarrow> if c < 0 then Some (NegativeCount c) else None)
         else None)"

fun check_split :: "nat \<Rightarrow> flt list \<Rightarrow> flags_error option" where
  "check_split i [] = None"
| "check_split i (v # vs) = (if flt_negative v then Some (NegativeSplit i) else check_split (Suc i) vs)"

fun check_positive :: "(string \<times> int option) list \<Rightarrow> flags_error option" where
  "check_positive [] = None"
| "check_positive ((name, v) # vs) = (case v of
       Some n \<Rightarrow> if n \<le> 0 then Some (NotPositive name n) else check_positive vs
     | None \<Rightarrow> check_positive vs)"

definition or_else :: "'e option \<Rightarrow> 'e option \<Rightarrow> 'e option" where
  "or_else a b = (case a of None \<Rightarrow> b | Some e \<Rightarrow> Some e)"

definition flags_Validate :: "flag_set \<Rightarrow> flags_error option" where
  "flags_Validate f =
     or_else (check_ngl (fs_NGpuLayers f))
    (or_else (case fs_FlashAttn f of None \<Rightarrow> None | Some v \<Rightarrow> if v \<notin> set FlashAttnValues then Some (BadFlashAttn v) else None)
    (or_else (case fs_SplitMode f of None \<Rightarrow> None | Some v \<Rightarrow> if v \<notin> set SplitModeValues then Some (BadSplitMode v) else None)
    (or_else (check_split 0 (fs_TensorSplit f))
    (or_else (case fs_MainGPU f of None \<Rightarrow> None | Some n \<Rightarrow> if n < 0 then Some (NegativeMainGPU n) else None)
      (check_positive [(''ctx_size'', fs_CtxSize f), (''batch_size'', fs_BatchSize f),
         (''ubatch_size'', fs_UbatchSize f), (''parallel'', fs_Parallel f)])))))"

text \<open>\<open>ValidateFlags\<close> adds the one rule across fields.\<close>

datatype save_error = BadFlags flags_error | NGLAutoConflict

definition ValidateFlags :: "flag_set \<Rightarrow> save_error option" where
  "ValidateFlags f = (case flags_Validate f of
       Some e \<Rightarrow> Some (BadFlags e)
     | None \<Rightarrow> (case fs_NGpuLayers f of
         Some g \<Rightarrow> if ng_Mode g = ''auto'' \<and> fs_TensorSplit f \<noteq> [] then Some NGLAutoConflict else None
       | None \<Rightarrow> None))"

subsection \<open>Paths\<close>

text \<open>\<open>filepath.Join\<close> on Unix: the elements that are not empty, joined and cleaned.\<close>

fun split_path :: "string \<Rightarrow> string list" where
  "split_path [] = [[]]"
| "split_path (c # s) = (if c = CHR ''/'' then [] # split_path s
     else (case split_path s of [] \<Rightarrow> [[c]] | l # ls \<Rightarrow> (c # l) # ls))"

fun join_with :: "char \<Rightarrow> string list \<Rightarrow> string" where
  "join_with sep [] = []"
| "join_with sep [s] = s"
| "join_with sep (s # ss) = s @ sep # join_with sep ss"

definition clean_part :: "bool \<Rightarrow> string \<Rightarrow> string list \<Rightarrow> string list" where
  "clean_part rooted p acc = (if p = [] \<or> p = ''.'' then acc
     else if p = ''..'' then
       (case acc of [] \<Rightarrow> if rooted then [] else [p] | q # qs \<Rightarrow> if q = ''..'' then p # acc else qs)
     else p # acc)"

definition path_clean :: "string \<Rightarrow> string" where
  "path_clean s = (let rooted = (s \<noteq> [] \<and> hd s = CHR ''/'');
       body = join_with (CHR ''/'') (rev (fold (clean_part rooted) (split_path s) []))
     in if rooted then CHR ''/'' # body else if body = [] then ''.'' else body)"

definition path_join :: "string list \<Rightarrow> string" where
  "path_join ps = (let qs = filter (\<lambda>p. p \<noteq> []) ps in if qs = [] then [] else path_clean (join_with (CHR ''/'') qs))"

subsection \<open>The parts of a command line\<close>

record runtime =
  rt_ID :: string
  rt_Dir :: string
  rt_SupportsFit :: bool
  rt_Help :: "string list"

record model_file =
  mf_ID :: string
  mf_Path :: string

definition ServerPath :: "runtime \<Rightarrow> string" where
  "ServerPath r = path_join [rt_Dir r, ''bin'', ''llama-server'']"

definition BenchPath :: "runtime \<Rightarrow> string" where
  "BenchPath r = path_join [rt_Dir r, ''bin'', ''llama-bench'']"

definition NGLAllValue :: int where "NGLAllValue = 999"

definition strFlag :: "string \<Rightarrow> string option \<Rightarrow> string list" where
  "strFlag name v = (case v of None \<Rightarrow> [] | Some s \<Rightarrow> [name, s])"

definition intFlag :: "string \<Rightarrow> int option \<Rightarrow> string list" where
  "intFlag name v = (case v of None \<Rightarrow> [] | Some n \<Rightarrow> [name, int_dec n])"

definition floatFlag :: "(flt \<Rightarrow> string) \<Rightarrow> string \<Rightarrow> flt option \<Rightarrow> string list" where
  "floatFlag ff name v = (case v of None \<Rightarrow> [] | Some x \<Rightarrow> [name, ff x])"

definition boolFlag :: "string \<Rightarrow> bool option \<Rightarrow> string list" where
  "boolFlag name v = (if v = Some True then [name] else [])"

definition fileFlag :: "string \<Rightarrow> model_file option \<Rightarrow> string list" where
  "fileFlag name m = (case m of None \<Rightarrow> [] | Some g \<Rightarrow> if mf_Path g = [] then [] else [name, mf_Path g])"

definition splitFlag :: "(flt \<Rightarrow> string) \<Rightarrow> flt list \<Rightarrow> string list" where
  "splitFlag ff vs = (if vs = [] then [] else [''-ts'', join_with (CHR '','') (map ff vs)])"

text \<open>The offload: nothing leaves the choice to the program, where the build can make it.\<close>

definition renderNGL :: "ngpu_layers option \<Rightarrow> bool \<Rightarrow> int option" where
  "renderNGL ngl supportsFit =
     (let mode = (case ngl of None \<Rightarrow> ''auto'' | Some g \<Rightarrow> ng_Mode g);
          count = (case ngl of None \<Rightarrow> None | Some g \<Rightarrow> ng_Count g)
      in if mode = ''all'' then Some NGLAllValue
         else if mode = ''none'' then Some 0
         else if mode = ''count'' then (case count of None \<Rightarrow> Some NGLAllValue | Some c \<Rightarrow> Some c)
         else if \<not> supportsFit then Some NGLAllValue else None)"

subsection \<open>The server\<close>

definition model_group :: "model_file option \<Rightarrow> model_file option \<Rightarrow> string list" where
  "model_group primary mmproj = fileFlag ''-m'' primary @ fileFlag ''--mmproj'' mmproj"

definition load_group :: "(flt \<Rightarrow> string) \<Rightarrow> flag_set \<Rightarrow> runtime \<Rightarrow> string list" where
  "load_group ff f rt = intFlag ''-c'' (fs_CtxSize f)
     @ intFlag ''-ngl'' (renderNGL (fs_NGpuLayers f) (rt_SupportsFit rt))
     @ intFlag ''-b'' (fs_BatchSize f) @ intFlag ''-ub'' (fs_UbatchSize f) @ intFlag ''-np'' (fs_Parallel f)
     @ intFlag ''-t'' (fs_Threads f) @ intFlag ''-tb'' (fs_ThreadsBatch f)
     @ strFlag ''-fa'' (fs_FlashAttn f) @ strFlag ''-ctk'' (fs_CacheTypeK f) @ strFlag ''-ctv'' (fs_CacheTypeV f)
     @ strFlag ''--device'' (fs_DeviceFilter f) @ strFlag ''-sm'' (fs_SplitMode f)
     @ splitFlag ff (fs_TensorSplit f) @ intFlag ''-mg'' (fs_MainGPU f)"

definition mode_group :: "(flt \<Rightarrow> string) \<Rightarrow> flag_set \<Rightarrow> string list" where
  "mode_group ff f = strFlag ''--alias'' (fs_Alias f)
     @ boolFlag ''--jinja'' (fs_Jinja f) @ strFlag ''--chat-template'' (fs_ChatTemplate f)
     @ strFlag ''--chat-template-file'' (fs_ChatTemplateFile f) @ boolFlag ''--embedding'' (fs_Embedding f)
     @ strFlag ''--pooling'' (fs_Pooling f) @ boolFlag ''--reranking'' (fs_Rerank f)
     @ boolFlag ''--mlock'' (fs_Mlock f) @ boolFlag ''--no-mmap'' (fs_NoMmap f)
     @ (case fs_ContBatching f of None \<Rightarrow> [] | Some b \<Rightarrow> if b then [''-cb''] else [''-nocb''])
     @ strFlag ''--rope-scaling'' (fs_RopeScaling f) @ floatFlag ff ''--rope-freq-base'' (fs_RopeFreqBase f)
     @ floatFlag ff ''--rope-freq-scale'' (fs_RopeFreqScale f) @ floatFlag ff ''--yarn-ext-factor'' (fs_YarnExtFactor f)
     @ floatFlag ff ''--yarn-attn-factor'' (fs_YarnAttnFactor f) @ intFlag ''--keep'' (fs_NKeep f)
     @ intFlag ''--predict'' (fs_NPredict f) @ floatFlag ff ''--defrag-thold'' (fs_DefragThold f)
     @ intFlag ''--cache-reuse'' (fs_CacheReuse f) @ strFlag ''--numa'' (fs_Numa f) @ strFlag ''-C'' (fs_CPUMask f)
     @ intFlag ''--prio'' (fs_Prio f) @ strFlag ''--slot-save-path'' (fs_SlotSavePath f)
     @ intFlag ''--verbosity'' (fs_LogVerbosity f)"

definition draft_group :: "(flt \<Rightarrow> string) \<Rightarrow> flag_set \<Rightarrow> model_file option \<Rightarrow> string list" where
  "draft_group ff f draft = fileFlag ''-md'' draft
     @ (case fs_Draft f of None \<Rightarrow> [] | Some d \<Rightarrow>
          intFlag ''--draft-max'' (df_NMax d) @ intFlag ''--draft-min'' (df_NMin d)
          @ floatFlag ff ''--draft-p-min'' (df_PMin d) @ intFlag ''-cd'' (df_CtxSize d) @ intFlag ''-ngld'' (df_NGpuLayers d))"

text \<open>What comes before the listener, the listener, and what comes after it.\<close>

definition server_head :: "(flt \<Rightarrow> string) \<Rightarrow> flag_set \<Rightarrow> model_file option \<Rightarrow> model_file option \<Rightarrow> model_file option
    \<Rightarrow> runtime \<Rightarrow> string list" where
  "server_head ff f primary mmproj draft rt =
     ServerPath rt # model_group primary mmproj @ load_group ff f rt @ mode_group ff f @ draft_group ff f draft"

definition listener_group :: "int \<Rightarrow> string list" where
  "listener_group port = [''--host'', LoopbackHost, ''--port'', int_dec port]"

definition endpoint_group :: "flag_set \<Rightarrow> string list" where
  "endpoint_group f = ''--no-webui'' # boolFlag ''--props'' (fs_PropsEndpoint f) @ boolFlag ''--slots'' (fs_SlotsEndpoint f)
     @ boolFlag ''--metrics'' (fs_MetricsEndpoint f)"

text \<open>What the renderer reads of the row of the instance.\<close>

record inst_row =
  in_InternalPort :: int
  in_ExtraFlags :: string

datatype render_error = ModelMissing | ExtraRefused extra_error

definition has_path :: "model_file option \<Rightarrow> bool" where
  "has_path m \<longleftrightarrow> (case m of None \<Rightarrow> False | Some g \<Rightarrow> mf_Path g \<noteq> [])"

definition RenderArgv :: "(flt \<Rightarrow> string) \<Rightarrow> inst_row \<Rightarrow> flag_set \<Rightarrow> model_file option \<Rightarrow> model_file option
    \<Rightarrow> model_file option \<Rightarrow> runtime \<Rightarrow> render_error + string list" where
  "RenderArgv ff inst f primary mmproj draft rt =
     (if \<not> has_path primary then Inl ModelMissing
      else case ParseExtraFlags (in_ExtraFlags inst) of
        Inl e \<Rightarrow> Inl (ExtraRefused e)
      | Inr extra \<Rightarrow> Inr (server_head ff f primary mmproj draft rt @ listener_group (in_InternalPort inst)
          @ endpoint_group f @ extra))"

subsection \<open>The benchmark\<close>

record bench_point =
  bp_PromptLen :: "int option"
  bp_GenLen :: "int option"
  bp_Depth :: "int option"
  bp_Repetitions :: "int option"
  bp_ExtraFlags :: string

definition benchNGL :: "ngpu_layers option \<Rightarrow> int" where
  "benchNGL ngl = (case renderNGL ngl False of Some n \<Rightarrow> n | None \<Rightarrow> NGLAllValue)"

definition benchFlashAttn :: "string \<Rightarrow> string" where
  "benchFlashAttn v = (if v = ''off'' then ''0'' else ''1'')"

definition RenderBenchArgv :: "(flt \<Rightarrow> string) \<Rightarrow> flag_set \<Rightarrow> model_file option \<Rightarrow> runtime \<Rightarrow> bench_point
    \<Rightarrow> render_error + string list" where
  "RenderBenchArgv ff f primary rt p =
     (if \<not> has_path primary then Inl ModelMissing
      else case parseWords (bp_ExtraFlags p) forbiddenBenchFlags of
        Inl e \<Rightarrow> Inl (ExtraRefused e)
      | Inr extra \<Rightarrow> Inr (BenchPath rt # fileFlag ''-m'' primary @ [''-ngl'', int_dec (benchNGL (fs_NGpuLayers f))]
          @ intFlag ''-b'' (fs_BatchSize f) @ intFlag ''-ub'' (fs_UbatchSize f)
          @ intFlag ''-t'' (fs_Threads f) @ intFlag ''-tb'' (fs_ThreadsBatch f)
          @ strFlag ''-fa'' (map_option benchFlashAttn (fs_FlashAttn f))
          @ strFlag ''-ctk'' (fs_CacheTypeK f) @ strFlag ''-ctv'' (fs_CacheTypeV f)
          @ strFlag ''--device'' (fs_DeviceFilter f) @ strFlag ''-sm'' (fs_SplitMode f)
          @ splitFlag ff (fs_TensorSplit f) @ intFlag ''-mg'' (fs_MainGPU f)
          @ boolFlag ''--mlock'' (fs_Mlock f) @ boolFlag ''--no-mmap'' (fs_NoMmap f)
          @ strFlag ''--numa'' (fs_Numa f) @ strFlag ''-C'' (fs_CPUMask f) @ intFlag ''--prio'' (fs_Prio f)
          @ intFlag ''-p'' (bp_PromptLen p) @ intFlag ''-n'' (bp_GenLen p) @ intFlag ''-d'' (bp_Depth p)
          @ intFlag ''-r'' (bp_Repetitions p) @ [''-o'', ''json''] @ extra))"

datatype bench_note = FlashAttnRanAsOn | NGLRanAsAll

definition BenchNotes :: "flag_set \<Rightarrow> bench_note list" where
  "BenchNotes f = (if fs_FlashAttn f = Some ''auto'' then [FlashAttnRanAsOn] else [])
     @ (case fs_NGpuLayers f of None \<Rightarrow> [] | Some g \<Rightarrow> if ng_Mode g = ''auto'' then [NGLRanAsAll] else [])"

datatype ignore_reason = NoContextFlag | ServerOnly | FixedRope | NoDraft | ServerFlags

definition go_blank :: "string \<Rightarrow> bool" where
  "go_blank s \<longleftrightarrow> list_all (\<lambda>c. word_space c \<or> c = CHR 0x0B \<or> c = CHR 0x0C) s"

definition BenchIgnoredFlags :: "flag_set \<Rightarrow> string \<Rightarrow> (string \<times> ignore_reason) list" where
  "BenchIgnoredFlags f extra = map snd (filter fst [
     (fs_CtxSize f \<noteq> None, ''ctx_size'', NoContextFlag),
     (fs_Alias f \<noteq> None, ''alias'', ServerOnly),
     (fs_Parallel f \<noteq> None, ''parallel'', ServerOnly),
     (fs_ContBatching f \<noteq> None, ''cont_batching'', ServerOnly),
     (fs_Embedding f \<noteq> None, ''embedding'', ServerOnly),
     (fs_Pooling f \<noteq> None, ''pooling'', ServerOnly),
     (fs_Rerank f \<noteq> None, ''rerank'', ServerOnly),
     (fs_Jinja f \<noteq> None, ''jinja'', ServerOnly),
     (fs_ChatTemplate f \<noteq> None, ''chat_template'', ServerOnly),
     (fs_ChatTemplateFile f \<noteq> None, ''chat_template_file'', ServerOnly),
     (fs_NKeep f \<noteq> None, ''n_keep'', ServerOnly),
     (fs_NPredict f \<noteq> None, ''n_predict'', ServerOnly),
     (fs_DefragThold f \<noteq> None, ''defrag_thold'', ServerOnly),
     (fs_CacheReuse f \<noteq> None, ''cache_reuse'', ServerOnly),
     (fs_SlotSavePath f \<noteq> None, ''slot_save_path'', ServerOnly),
     (fs_PropsEndpoint f \<noteq> None, ''props_endpoint'', ServerOnly),
     (fs_SlotsEndpoint f \<noteq> None, ''slots_endpoint'', ServerOnly),
     (fs_MetricsEndpoint f \<noteq> None, ''metrics_endpoint'', ServerOnly),
     (fs_LogVerbosity f \<noteq> None, ''log_verbosity'', ServerOnly),
     (fs_RopeScaling f \<noteq> None, ''rope_scaling'', FixedRope),
     (fs_RopeFreqBase f \<noteq> None, ''rope_freq_base'', FixedRope),
     (fs_RopeFreqScale f \<noteq> None, ''rope_freq_scale'', FixedRope),
     (fs_YarnExtFactor f \<noteq> None, ''yarn_ext_factor'', FixedRope),
     (fs_YarnAttnFactor f \<noteq> None, ''yarn_attn_factor'', FixedRope),
     (fs_Draft f \<noteq> None, ''draft'', NoDraft),
     (\<not> go_blank extra, ''extra_flags'', ServerFlags)])"

subsection \<open>Flags the build does not know\<close>

fun unknown_loop :: "string list \<Rightarrow> string list \<Rightarrow> string list \<Rightarrow> string list" where
  "unknown_loop seen [] help = []"
| "unknown_loop seen (tok # toks) help = (case flagName tok of
       None \<Rightarrow> unknown_loop seen toks help
     | Some n \<Rightarrow> if n \<in> set seen \<or> n \<in> set help then unknown_loop seen toks help
         else n # unknown_loop (n # seen) toks help)"

definition UnknownFlags :: "string list \<Rightarrow> string list \<Rightarrow> string list" where
  "UnknownFlags argv help = (if help = [] then [] else unknown_loop [] argv help)"

end
