(* ===== verification/Instance_Hash.thy ===== *)
theory Instance_Hash
  imports Instance_Flags
begin

text \<open>
  The hash of a configuration (\<open>src/internal/instances/hash.go\<close>): the command line without the
  identity of its listener, the paths of the models and the active version, one tagged line each,
  under SHA-256. The digest, in hexadecimal, is a parameter.
\<close>

subsection \<open>The text that is hashed\<close>

fun elideListener :: "string list \<Rightarrow> string list" where
  "elideListener [] = []"
| "elideListener (t # ts) =
     (if t = ''--host'' then (case ts of [] \<Rightarrow> [] | v # us \<Rightarrow> elideListener us)
      else if t = ''--port'' then ''--port'' # (case ts of [] \<Rightarrow> [] | v # us \<Rightarrow> elideListener us)
      else t # elideListener ts)"

definition tagged :: "string \<Rightarrow> string \<Rightarrow> string" where
  "tagged tag v = tag @ CHR 0x00 # v @ [CHR 0x0A]"

definition file_path :: "model_file option \<Rightarrow> string" where
  "file_path m = (case m of None \<Rightarrow> [] | Some g \<Rightarrow> mf_Path g)"

definition config_text :: "string list \<Rightarrow> model_file option \<Rightarrow> model_file option \<Rightarrow> model_file option \<Rightarrow> string \<Rightarrow> string" where
  "config_text argv primary mmproj draft version =
     concat (map (tagged ''argv'') (elideListener argv))
     @ tagged ''model'' (file_path primary) @ tagged ''mmproj'' (file_path mmproj) @ tagged ''draft'' (file_path draft)
     @ tagged ''version'' version"

definition ConfigHash :: "(string \<Rightarrow> string) \<Rightarrow> string list \<Rightarrow> model_file option \<Rightarrow> model_file option \<Rightarrow> model_file option
    \<Rightarrow> string \<Rightarrow> string" where
  "ConfigHash sha argv primary mmproj draft version = sha (config_text argv primary mmproj draft version)"

definition ConfigHashFor :: "(flt \<Rightarrow> string) \<Rightarrow> (string \<Rightarrow> string) \<Rightarrow> inst_row \<Rightarrow> flag_set \<Rightarrow> model_file option
    \<Rightarrow> model_file option \<Rightarrow> model_file option \<Rightarrow> runtime \<Rightarrow> render_error + string" where
  "ConfigHashFor ff sha inst f primary mmproj draft rt =
     bind_res (RenderArgv ff inst f primary mmproj draft rt) (\<lambda>argv.
       Inr (ConfigHash sha argv primary mmproj draft (rt_ID rt)))"

subsection \<open>The text says what it was made of\<close>

abbreviation nul_free :: "string \<Rightarrow> bool" where
  "nul_free s \<equiv> CHR 0x00 \<notin> set s"

lemma cut_at_nul:
  assumes "x @ CHR 0x00 # r = x' @ CHR 0x00 # r'" and "nul_free x" and "nul_free x'"
  shows "x = x' \<and> r = r'"
  using assms
proof (induction x arbitrary: x')
  case Nil
  then show ?case by (cases x') simp_all
next
  case (Cons c x)
  then show ?case by (cases x') auto
qed

lemma tagged_cut:
  assumes "tagged tag v @ t1 @ CHR 0x00 # r = tagged tag v' @ t1' @ CHR 0x00 # r'"
    and "nul_free v" "nul_free v'" "nul_free t1" "nul_free t1'"
  shows "v @ CHR 0x0A # t1 = v' @ CHR 0x0A # t1' \<and> r = r'"
  using cut_at_nul [of "v @ CHR 0x0A # t1" r "v' @ CHR 0x0A # t1'" r'] assms by (simp add: tagged_def)

text \<open>The lines of the arguments, and the line of the model after them.\<close>

definition next_tag :: "string list \<Rightarrow> string" where
  "next_tag ts = (if ts = [] then ''model'' else ''argv'')"

lemma argv_lines:
  "\<exists>r. concat (map (tagged ''argv'') ts) @ tagged ''model'' p @ q = next_tag ts @ CHR 0x00 # r"
  by (cases ts) (simp_all add: tagged_def next_tag_def)

lemma next_tag_last: "v @ CHR 0x0A # next_tag ts = v' @ CHR 0x0A # next_tag ts' \<Longrightarrow> v = v' \<and> next_tag ts = next_tag ts'"
proof -
  assume eq: "v @ CHR 0x0A # next_tag ts = v' @ CHR 0x0A # next_tag ts'"
  then have "last (v @ CHR 0x0A # next_tag ts) = last (v' @ CHR 0x0A # next_tag ts')" by simp
  then have "next_tag ts = next_tag ts'" by (simp add: next_tag_def split: if_splits)
  with eq show ?thesis by simp
qed

lemma argv_lines_inj:
  assumes "concat (map (tagged ''argv'') ts) @ tagged ''model'' p @ q = concat (map (tagged ''argv'') ts') @ tagged ''model'' p' @ q'"
    and "list_all nul_free ts" and "list_all nul_free ts'"
  shows "ts = ts' \<and> tagged ''model'' p @ q = tagged ''model'' p' @ q'"
  using assms
proof (induction ts arbitrary: ts')
  case Nil
  then show ?case by (cases ts') (simp_all add: tagged_def)
next
  case (Cons t ts)
  show ?case
  proof (cases ts')
    case Nil
    with Cons.prems show ?thesis by (simp add: tagged_def)
  next
    case C: (Cons t' us)
    obtain r r' where r: "concat (map (tagged ''argv'') ts) @ tagged ''model'' p @ q = next_tag ts @ CHR 0x00 # r"
        and r': "concat (map (tagged ''argv'') us) @ tagged ''model'' p' @ q' = next_tag us @ CHR 0x00 # r'"
      using argv_lines by metis
    from Cons.prems(1) have "tagged ''argv'' t @ next_tag ts @ CHR 0x00 # r = tagged ''argv'' t' @ next_tag us @ CHR 0x00 # r'"
      using r r' by (simp add: C)
    moreover have "nul_free (next_tag us)" for us by (simp add: next_tag_def)
    ultimately have "t @ CHR 0x0A # next_tag ts = t' @ CHR 0x0A # next_tag us \<and> r = r'"
      by (intro tagged_cut) (use Cons.prems C in simp_all)
    then have "t = t'" and "next_tag ts @ CHR 0x00 # r = next_tag us @ CHR 0x00 # r'"
      using next_tag_last by auto
    with Cons.IH [of us] Cons.prems r r' C show ?thesis by simp
  qed
qed

definition paths_of :: "model_file option \<Rightarrow> model_file option \<Rightarrow> model_file option \<Rightarrow> string list" where
  "paths_of primary mmproj draft = [file_path primary, file_path mmproj, file_path draft]"

lemma paths_inj:
  assumes "tagged ''model'' p1 @ tagged ''mmproj'' p2 @ tagged ''draft'' p3 @ tagged ''version'' v
      = tagged ''model'' q1 @ tagged ''mmproj'' q2 @ tagged ''draft'' q3 @ tagged ''version'' w"
    and "list_all nul_free [p1, p2, p3, v]" and "list_all nul_free [q1, q2, q3, w]"
  shows "[p1, p2, p3] = [q1, q2, q3] \<and> v = w"
proof -
  have m: "tagged ''mmproj'' p = ''mmproj'' @ CHR 0x00 # p @ [CHR 0x0A]" for p by (simp add: tagged_def)
  have d: "tagged ''draft'' p = ''draft'' @ CHR 0x00 # p @ [CHR 0x0A]" for p by (simp add: tagged_def)
  have e: "tagged ''version'' p = ''version'' @ CHR 0x00 # p @ [CHR 0x0A]" for p by (simp add: tagged_def)
  have 1: "p1 = q1" and r1: "p2 @ CHR 0x0A # tagged ''draft'' p3 @ tagged ''version'' v = q2 @ CHR 0x0A # tagged ''draft'' q3 @ tagged ''version'' w"
    using tagged_cut [of "''model''" p1 "''mmproj''" "p2 @ CHR 0x0A # tagged ''draft'' p3 @ tagged ''version'' v"
        q1 "''mmproj''" "q2 @ CHR 0x0A # tagged ''draft'' q3 @ tagged ''version'' w"] assms by (simp_all add: m)
  have 2: "p2 = q2" and r2: "p3 @ CHR 0x0A # tagged ''version'' v = q3 @ CHR 0x0A # tagged ''version'' w"
    using cut_at_nul [of "p2 @ CHR 0x0A # ''draft''" "p3 @ CHR 0x0A # tagged ''version'' v"
        "q2 @ CHR 0x0A # ''draft''" "q3 @ CHR 0x0A # tagged ''version'' w"] r1 assms(2,3) by (simp_all add: d)
  have 3: "p3 = q3" and "v = w"
    using cut_at_nul [of "p3 @ CHR 0x0A # ''version''" "v @ [CHR 0x0A]" "q3 @ CHR 0x0A # ''version''" "w @ [CHR 0x0A]"]
      r2 assms(2,3) by (simp_all add: e)
  with 1 2 show ?thesis by simp
qed

lemma config_text_inj:
  assumes "config_text argv p m d v = config_text argv' p' m' d' v'"
    and "list_all nul_free (elideListener argv @ v # paths_of p m d)"
    and "list_all nul_free (elideListener argv' @ v' # paths_of p' m' d')"
  shows "elideListener argv = elideListener argv' \<and> paths_of p m d = paths_of p' m' d' \<and> v = v'"
proof -
  note a = argv_lines_inj [OF assms(1) [unfolded config_text_def]]
  then have "elideListener argv = elideListener argv'" using assms(2,3) by simp
  moreover from a assms(2,3) have "paths_of p m d = paths_of p' m' d' \<and> v = v'"
    unfolding paths_of_def by (intro paths_inj) simp_all
  ultimately show ?thesis by simp
qed

lemma config_text_agrees:
  assumes "elideListener argv = elideListener argv'" and "paths_of p m d = paths_of p' m' d'"
  shows "config_text argv p m d v = config_text argv' p' m' d' v"
  using assms by (simp add: config_text_def paths_of_def)

subsection \<open>What the elision keeps\<close>

definition listener_word :: "string \<Rightarrow> bool" where
  "listener_word t \<longleftrightarrow> t = ''--host'' \<or> t = ''--port''"

lemma elide_clean: "\<forall>t\<in>set ts. \<not> listener_word t \<Longrightarrow> elideListener (ts @ us) = ts @ elideListener us"
  by (induction ts) (auto simp: listener_word_def)

lemma elide_clean_end: "\<forall>t\<in>set ts. \<not> listener_word t \<Longrightarrow> elideListener ts = ts"
  using elide_clean [of ts "[]"] by simp

lemma elide_listener: "elideListener (listener_group port @ us) = ''--port'' # elideListener us"
  by (simp add: listener_group_def)

lemma elide_ports_cong: "elideListener (listener_group a @ us) = elideListener (listener_group b @ us)
    \<and> elideListener (tl (listener_group a) @ us) = elideListener (tl (listener_group b) @ us)"
  by (simp add: listener_group_def LoopbackHost_def)

text \<open>Whatever stands before the listener, the number of the port is never kept.\<close>

lemma elide_moves_with_no_port:
  "elideListener (ts @ listener_group a @ us) = elideListener (ts @ listener_group b @ us)"
proof (induction ts rule: elideListener.induct)
  case (2 t ts)
  then show ?case using elide_ports_cong [of a us b] by (cases ts) (auto simp: listener_group_def)
qed (simp only: append_Nil elide_ports_cong)

lemma the_port_is_not_hashed:
  "ConfigHashFor ff sha (inst\<lparr>in_InternalPort := a\<rparr>) f p m d rt = ConfigHashFor ff sha (inst\<lparr>in_InternalPort := b\<rparr>) f p m d rt"
  using elide_moves_with_no_port [of "server_head ff f p m d rt" a _ b]
  by (auto simp: ConfigHashFor_def RenderArgv_def bind_res_def ConfigHash_def config_text_def split: sum.splits)

lemma forbidden_words_are_refused:
  assumes "ParseExtraFlags s = Inr us"
  shows "\<forall>u\<in>set us. \<not> listener_word u"
proof -
  have "\<forall>u\<in>set us. names_forbidden forbiddenServerFlags u = None"
    using assms check_words_None [of forbiddenServerFlags us]
    by (auto simp: ParseExtraFlags_def parseWords_def split: sum.splits option.splits)
  moreover have "names_forbidden forbiddenServerFlags u \<noteq> None" if "listener_word u" for u
    using that unfolding listener_word_def by (elim disjE) (simp_all only: , code_simp+)
  ultimately show ?thesis by blast
qed

lemma endpoint_words: "\<forall>t\<in>set (endpoint_group f). \<not> listener_word t"
  by (auto simp: endpoint_group_def listener_word_def boolFlag_def)

lemma cut_at_word: "x @ l # y = x' @ l # y' \<Longrightarrow> l \<notin> set x \<Longrightarrow> l \<notin> set x' \<Longrightarrow> x = x' \<and> y = y'"
proof (induction x arbitrary: x')
  case Nil
  then show ?case by (cases x') simp_all
next
  case (Cons c x)
  then show ?case by (cases x') auto
qed

text \<open>A command line at the port 0, which no instance has.\<close>

definition argv_less_port :: "(flt \<Rightarrow> string) \<Rightarrow> inst_row \<Rightarrow> flag_set \<Rightarrow> model_file option \<Rightarrow> model_file option
    \<Rightarrow> model_file option \<Rightarrow> runtime \<Rightarrow> render_error + string list" where
  "argv_less_port ff inst f p m d rt = RenderArgv ff (inst\<lparr>in_InternalPort := 0\<rparr>) f p m d rt"

text \<open>No value of the flags or paths is spelled like a flag of the listener.\<close>

definition head_clean :: "(flt \<Rightarrow> string) \<Rightarrow> flag_set \<Rightarrow> model_file option \<Rightarrow> model_file option \<Rightarrow> model_file option
    \<Rightarrow> runtime \<Rightarrow> bool" where
  "head_clean ff f p m d rt \<longleftrightarrow> list_all (\<lambda>t. \<not> listener_word t) (server_head ff f p m d rt)"

lemma rendered:
  assumes "RenderArgv ff inst f p m d rt = Inr argv" and "head_clean ff f p m d rt"
  obtains tail where "argv = server_head ff f p m d rt @ listener_group (in_InternalPort inst) @ tail"
    and "argv_less_port ff inst f p m d rt = Inr (server_head ff f p m d rt @ listener_group 0 @ tail)"
    and "elideListener argv = server_head ff f p m d rt @ ''--port'' # tail"
    and "''--port'' \<notin> set (server_head ff f p m d rt)" "''--host'' \<notin> set (server_head ff f p m d rt)"
proof -
  from assms(1) obtain extra where x: "ParseExtraFlags (in_ExtraFlags inst) = Inr extra" "has_path p"
      and argv: "argv = server_head ff f p m d rt @ listener_group (in_InternalPort inst) @ endpoint_group f @ extra"
    by (auto simp: RenderArgv_def split: if_splits sum.splits)
  let ?tail = "endpoint_group f @ extra"
  have "\<forall>t\<in>set ?tail. \<not> listener_word t"
    using endpoint_words [of f] forbidden_words_are_refused [OF x(1)] by auto
  then have "elideListener argv = server_head ff f p m d rt @ ''--port'' # ?tail"
    using assms(2) by (simp add: argv elide_clean elide_listener elide_clean_end head_clean_def list_all_iff)
  moreover have "argv_less_port ff inst f p m d rt = Inr (server_head ff f p m d rt @ listener_group 0 @ ?tail)"
    using x by (simp add: argv_less_port_def RenderArgv_def)
  ultimately show thesis
    using that [of ?tail] argv assms(2) by (auto simp: head_clean_def list_all_iff listener_word_def)
qed

lemma elided_iff_same_less_port:
  assumes "RenderArgv ff i f p m d rt = Inr argv" and "head_clean ff f p m d rt"
    and "RenderArgv ff i' f' p' m' d' rt' = Inr argv'" and "head_clean ff f' p' m' d' rt'"
  shows "elideListener argv = elideListener argv' \<longleftrightarrow>
    argv_less_port ff i f p m d rt = argv_less_port ff i' f' p' m' d' rt'"
proof -
  let ?h = "server_head ff f p m d rt" and ?h' = "server_head ff f' p' m' d' rt'"
  obtain t where t: "argv_less_port ff i f p m d rt = Inr (?h @ listener_group 0 @ t)" "elideListener argv = ?h @ ''--port'' # t"
      "''--port'' \<notin> set ?h" "''--host'' \<notin> set ?h" using rendered [OF assms(1,2)] by metis
  obtain t' where t': "argv_less_port ff i' f' p' m' d' rt' = Inr (?h' @ listener_group 0 @ t')" "elideListener argv' = ?h' @ ''--port'' # t'"
      "''--port'' \<notin> set ?h'" "''--host'' \<notin> set ?h'" using rendered [OF assms(3,4)] by metis
  have "?h @ ''--port'' # t = ?h' @ ''--port'' # t' \<longleftrightarrow> ?h = ?h' \<and> t = t'"
    using cut_at_word [of ?h "''--port''" t ?h' t'] t(3) t'(3) by blast
  moreover have "?h @ listener_group 0 @ t = ?h' @ listener_group 0 @ t' \<longleftrightarrow> ?h = ?h' \<and> t = t'"
    using cut_at_word [of ?h "''--host''" "tl (listener_group 0) @ t" ?h' "tl (listener_group 0) @ t'"] t(4) t'(4)
    by (auto simp: listener_group_def)
  ultimately show ?thesis using t(1,2) t'(1,2) by simp
qed

subsection \<open>What the hash says\<close>

text \<open>
  C37. The hash of a configuration moves exactly when something a user or a version can change
  moves. Take two configurations that render, whose arguments, paths and version hold no NUL byte
  and whose flags have no value spelled \<open>--host\<close> or \<open>--port\<close>, and a digest that tells their two
  texts apart: the hashes are equal exactly when the command lines are the same but for the
  internal port, the resolved paths are the same and the version is the same.
\<close>

theorem the_hash_is_the_configuration:
  assumes "RenderArgv ff i f p m d rt = Inr argv" and "RenderArgv ff i' f' p' m' d' rt' = Inr argv'"
    and "list_all nul_free (argv @ rt_ID rt # paths_of p m d)"
    and "list_all nul_free (argv' @ rt_ID rt' # paths_of p' m' d')"
    and "head_clean ff f p m d rt" and "head_clean ff f' p' m' d' rt'"
    and "sha (config_text argv p m d (rt_ID rt)) = sha (config_text argv' p' m' d' (rt_ID rt'))
      \<Longrightarrow> config_text argv p m d (rt_ID rt) = config_text argv' p' m' d' (rt_ID rt')"
  shows "ConfigHashFor ff sha i f p m d rt = ConfigHashFor ff sha i' f' p' m' d' rt' \<longleftrightarrow>
    argv_less_port ff i f p m d rt = argv_less_port ff i' f' p' m' d' rt'
    \<and> paths_of p m d = paths_of p' m' d' \<and> rt_ID rt = rt_ID rt'"
proof -
  let ?T = "config_text argv p m d (rt_ID rt)" and ?T' = "config_text argv' p' m' d' (rt_ID rt')"
  have sub: "set (elideListener ts) \<subseteq> set ts" for ts
    by (induction ts rule: elideListener.induct) (auto split: if_splits list.splits)
  have "list_all nul_free (elideListener argv @ rt_ID rt # paths_of p m d)"
      "list_all nul_free (elideListener argv' @ rt_ID rt' # paths_of p' m' d')"
    using assms(3,4) sub [of argv] sub [of argv'] by (auto simp: list_all_iff)
  then have "?T = ?T' \<longleftrightarrow> elideListener argv = elideListener argv' \<and> paths_of p m d = paths_of p' m' d' \<and> rt_ID rt = rt_ID rt'"
    using config_text_inj [of argv p m d "rt_ID rt" argv' p' m' d' "rt_ID rt'"]
      config_text_agrees [of argv argv' p m d p' m' d' "rt_ID rt"] by metis
  moreover have "ConfigHashFor ff sha i f p m d rt = ConfigHashFor ff sha i' f' p' m' d' rt' \<longleftrightarrow> ?T = ?T'"
    using assms(1,2,7) by (auto simp: ConfigHashFor_def bind_res_def ConfigHash_def)
  ultimately show ?thesis
    using elided_iff_same_less_port [OF assms(1,5,2,6)] by simp
qed

text \<open>A configuration, with the flag \<open>--jinja\<close> and without it.\<close>

definition some_runtime :: runtime where
  "some_runtime = \<lparr>rt_ID = ''b10621'', rt_Dir = ''/v/b10621'', rt_SupportsFit = True, rt_Help = []\<rparr>"

definition some_model :: "model_file option" where
  "some_model = Some \<lparr>mf_ID = ''m1'', mf_Path = ''/hub/a.gguf''\<rparr>"

definition some_row :: inst_row where
  "some_row = \<lparr>in_InternalPort = 21000, in_ExtraFlags = ''--seed 7''\<rparr>"

definition some_argv :: "flag_set \<Rightarrow> string list" where
  "some_argv f = (case RenderArgv (\<lambda>_. ''0'') some_row f some_model None None some_runtime of Inl _ \<Rightarrow> [] | Inr a \<Rightarrow> a)"

theorem the_hash_is_the_configuration_witness:
  "ConfigHashFor (\<lambda>_. ''0'') (\<lambda>t. t) some_row (no_flags\<lparr>fs_Jinja := Some True\<rparr>) some_model None None some_runtime
   \<noteq> ConfigHashFor (\<lambda>_. ''0'') (\<lambda>t. t) some_row no_flags some_model None None some_runtime"
proof -
  have "argv_less_port (\<lambda>_. ''0'') some_row (no_flags\<lparr>fs_Jinja := Some True\<rparr>) some_model None None some_runtime
      \<noteq> argv_less_port (\<lambda>_. ''0'') some_row no_flags some_model None None some_runtime" by code_simp
  moreover have "RenderArgv (\<lambda>_. ''0'') some_row (no_flags\<lparr>fs_Jinja := Some True\<rparr>) some_model None None some_runtime
      = Inr (some_argv (no_flags\<lparr>fs_Jinja := Some True\<rparr>))"
    and "RenderArgv (\<lambda>_. ''0'') some_row no_flags some_model None None some_runtime = Inr (some_argv no_flags)"
    by code_simp+
  moreover have "list_all nul_free (some_argv (no_flags\<lparr>fs_Jinja := Some True\<rparr>) @ rt_ID some_runtime # paths_of some_model None None)"
    and "list_all nul_free (some_argv no_flags @ rt_ID some_runtime # paths_of some_model None None)"
    and "head_clean (\<lambda>_. ''0'') (no_flags\<lparr>fs_Jinja := Some True\<rparr>) some_model None None some_runtime"
    and "head_clean (\<lambda>_. ''0'') no_flags some_model None None some_runtime"
    by code_simp+
  ultimately show ?thesis
    using the_hash_is_the_configuration [of "\<lambda>_. ''0''" some_row "no_flags\<lparr>fs_Jinja := Some True\<rparr>" some_model None None some_runtime
      "some_argv (no_flags\<lparr>fs_Jinja := Some True\<rparr>)" some_row no_flags some_model None None some_runtime "some_argv no_flags" "\<lambda>t. t"]
    by blast
qed

text \<open>
  A value spelled like a flag of the listener is taken for one, and the word after it is not
  hashed: with the alias \<open>--port\<close>, serving with \<open>--jinja\<close> and serving with \<open>--embedding\<close> are two
  valid configurations with two command lines and one hash.
\<close>

lemma an_alias_hides_a_flag:
  "let f = no_flags\<lparr>fs_Alias := Some ''--port''\<rparr>; a = f\<lparr>fs_Jinja := Some True\<rparr>; b = f\<lparr>fs_Embedding := Some True\<rparr>
   in ValidateFlags a = None \<and> ValidateFlags b = None \<and> some_argv a \<noteq> some_argv b
     \<and> elideListener (some_argv a) = elideListener (some_argv b)"
  by code_simp

lemma an_alias_hides_a_flag_from_the_hash:
  "let f = no_flags\<lparr>fs_Alias := Some ''--port''\<rparr>; a = f\<lparr>fs_Jinja := Some True\<rparr>; b = f\<lparr>fs_Embedding := Some True\<rparr>
   in ConfigHash sha (some_argv a) p m d v = ConfigHash sha (some_argv b) p m d v"
  using an_alias_hides_a_flag by (simp add: Let_def ConfigHash_def config_text_def)

end
