(* ===== verification/Instance_Env.thy ===== *)
theory Instance_Env
  imports Prelude "HOL-Library.AList" "HOL-Library.Multiset" "HOL-Library.Char_ord" "HOL-Library.List_Lexorder"
begin

text \<open>
  The environment an instance is started with (\<open>src/internal/instances/env.go\<close>), its name and
  unit, and the three-valued check of a draft model (\<open>src/internal/instances/validate.go\<close>). A Go
  map is an association list with distinct keys, in the order one iteration happens to give; keys
  of settings are ASCII.
\<close>

subsection \<open>The environment\<close>

definition EnvHFHubCache :: string where "EnvHFHubCache = ''HF_HUB_CACHE''"
definition EnvHFHome :: string where "EnvHFHome = ''HF_HOME''"
definition EnvLlamaCache :: string where "EnvLlamaCache = ''LLAMA_CACHE''"
definition EnvCUDAVisibleDevices :: string where "EnvCUDAVisibleDevices = ''CUDA_VISIBLE_DEVICES''"
definition GGMLSettingPrefix :: string where "GGMLSettingPrefix = ''ggml.''"

record env_input =
  ei_HubDir :: string
  ei_GGML :: "(string \<times> string) list"

definition cut_suffix :: "string \<Rightarrow> string \<Rightarrow> string option" where
  "cut_suffix s suf = map_option rev (cut_prefix (rev s) (rev suf))"

definition trim_right :: "char \<Rightarrow> string \<Rightarrow> string" where
  "trim_right c s = rev (dropWhile (\<lambda>x. x = c) (rev s))"

definition hfHomeOf :: "string \<Rightarrow> string option" where
  "hfHomeOf hub = (case cut_suffix (trim_right (CHR ''/'') hub) ''/hub'' of
       None \<Rightarrow> None
     | Some home \<Rightarrow> if home = [] then None else Some home)"

definition upper_char :: "char \<Rightarrow> char" where
  "upper_char c = (let n = (of_char c :: nat) in if 97 \<le> n \<and> n \<le> 122 then char_of (n - 32) else c)"

definition GGMLEnvName :: "string \<Rightarrow> string option" where
  "GGMLEnvName key = (case cut_prefix key GGMLSettingPrefix of
       None \<Rightarrow> None
     | Some rest \<Rightarrow> if rest = [] then None
         else Some (''GGML_'' @ map (\<lambda>c. upper_char (if c = CHR ''.'' then CHR ''_'' else c)) rest))"

definition EnvSet :: "env_input \<Rightarrow> (string \<times> string) list" where
  "EnvSet e = (if ei_HubDir e = [] then ei_GGML e
     else let out = AList.update EnvHFHubCache (ei_HubDir e) (ei_GGML e)
       in case hfHomeOf (ei_HubDir e) of None \<Rightarrow> out | Some home \<Rightarrow> AList.update EnvHFHome home out)"

definition EnvUnset :: "string list" where
  "EnvUnset = [EnvLlamaCache, EnvCUDAVisibleDevices]"

definition env_kept :: "(string \<times> string) list \<Rightarrow> string \<Rightarrow> bool" where
  "env_kept kvs kv = (case cut (CHR ''='') kv of
       None \<Rightarrow> False
     | Some (name, _) \<Rightarrow> name \<notin> set EnvUnset \<and> map_of kvs name = None)"

definition env_pair :: "string \<times> string \<Rightarrow> string" where
  "env_pair p = fst p @ CHR ''='' # snd p"

definition Env :: "string list \<Rightarrow> env_input \<Rightarrow> string list" where
  "Env base e = sort (filter (env_kept (EnvSet e)) base @ map env_pair (EnvSet e))"

subsection \<open>What a program reads from it\<close>

text \<open>The values of a name, all of them: a process may inherit one twice.\<close>

definition env_names :: "string \<Rightarrow> string \<Rightarrow> bool" where
  "env_names n kv \<longleftrightarrow> (case cut (CHR ''='') kv of None \<Rightarrow> False | Some (m, _) \<Rightarrow> m = n)"

definition env_value :: "string \<Rightarrow> string" where
  "env_value kv = (case cut (CHR ''='') kv of None \<Rightarrow> [] | Some (_, v) \<Rightarrow> v)"

definition env_values :: "string list \<Rightarrow> string \<Rightarrow> string multiset" where
  "env_values env n = image_mset env_value (filter_mset (env_names n) (mset env))"

lemma cut_pair: "CHR ''='' \<notin> set k \<Longrightarrow> cut (CHR ''='') (k @ CHR ''='' # v) = Some (k, v)"
  by (induction k) auto

lemma values_of_pairs:
  assumes "distinct (map fst kvs)" and "\<forall>k\<in>fst ` set kvs. CHR ''='' \<notin> set k"
  shows "image_mset env_value (filter_mset (env_names n) (mset (map env_pair kvs)))
    = (case map_of kvs n of None \<Rightarrow> {#} | Some v \<Rightarrow> {#v#})"
  using assms
proof (induction kvs)
  case (Cons p kvs)
  have c: "cut (CHR ''='') (env_pair p) = Some p" using Cons.prems by (cases p) (simp add: env_pair_def cut_pair)
  have ih: "image_mset env_value (filter_mset (env_names n) (mset (map env_pair kvs)))
      = (case map_of kvs n of None \<Rightarrow> {#} | Some v \<Rightarrow> {#v#})" using Cons by simp
  have en: "env_names n (env_pair p) \<longleftrightarrow> fst p = n" and ev: "env_value (env_pair p) = snd p"
    using c by (cases p; simp add: env_names_def env_value_def)+
  show ?case
  proof (cases "fst p = n")
    case True
    then have "map_of kvs n = None" using Cons.prems(1) by (auto simp: map_of_eq_None_iff)
    with ih True en ev show ?thesis by (cases p) simp
  next
    case False
    with ih en show ?thesis by (cases p) simp
  qed
qed simp

lemma upper_char_no_eq: "c \<noteq> CHR ''='' \<Longrightarrow> upper_char c \<noteq> CHR ''=''"
proof
  assume c: "c \<noteq> CHR ''=''" and u: "upper_char c = CHR ''=''"
  then have b: "97 \<le> (of_char c :: nat) \<and> (of_char c :: nat) \<le> 122" and "char_of ((of_char c :: nat) - 32) = CHR ''=''"
    by (auto simp: upper_char_def Let_def split: if_splits)
  then have "(of_char (char_of ((of_char c :: nat) - 32)) :: nat) = of_char (CHR ''='')" by simp
  then have "((of_char c :: nat) - 32) mod 256 = 61" by simp
  moreover have "((of_char c :: nat) - 32) mod 256 = (of_char c :: nat) - 32" using b by (intro mod_less) linarith
  ultimately show False using b by linarith
qed

lemma GGML_names:
  assumes "GGMLEnvName key = Some n"
  shows "take 5 n = ''GGML_''" and "CHR ''='' \<notin> set key \<Longrightarrow> CHR ''='' \<notin> set n"
proof -
  obtain rest where r: "cut_prefix key GGMLSettingPrefix = Some rest"
      and n: "n = ''GGML_'' @ map (\<lambda>c. upper_char (if c = CHR ''.'' then CHR ''_'' else c)) rest"
    using assms by (auto simp: GGMLEnvName_def split: option.splits if_splits)
  show "take 5 n = ''GGML_''" by (simp add: n)
  assume "CHR ''='' \<notin> set key"
  then have no: "CHR ''='' \<notin> set rest" using r by (auto simp: cut_prefix_eq_Some)
  show "CHR ''='' \<notin> set n"
  proof
    assume "CHR ''='' \<in> set n"
    then obtain c where c: "c \<in> set rest" and u: "upper_char (if c = CHR ''.'' then CHR ''_'' else c) = CHR ''=''"
      by (fastforce simp: n)
    from c no have "(if c = CHR ''.'' then CHR ''_'' else c) \<noteq> CHR ''=''" by auto
    from upper_char_no_eq [OF this] u show False by contradiction
  qed
qed

text \<open>What the settings give, and what is set with it.\<close>

definition ggml_ok :: "env_input \<Rightarrow> bool" where
  "ggml_ok e \<longleftrightarrow> distinct (map fst (ei_GGML e))
     \<and> list_all (\<lambda>n. take 5 n = ''GGML_'' \<and> CHR ''='' \<notin> set n) (map fst (ei_GGML e))"

lemma ggml_okI:
  assumes "distinct (map fst (ei_GGML e))" and "\<forall>n\<in>fst ` set (ei_GGML e). \<exists>key. CHR ''='' \<notin> set key \<and> GGMLEnvName key = Some n"
  shows "ggml_ok e"
  using assms GGML_names by (auto simp: ggml_ok_def list_all_iff)

lemma EnvSet_keys: "set (map fst (EnvSet e)) \<subseteq> set (map fst (ei_GGML e)) \<union> {EnvHFHubCache, EnvHFHome}"
  by (auto simp: EnvSet_def Let_def dom_update split: option.splits if_splits)

lemma EnvSet_ok:
  assumes "ggml_ok e"
  shows "distinct (map fst (EnvSet e))" and "\<forall>k\<in>fst ` set (EnvSet e). CHR ''='' \<notin> set k"
    and "\<forall>n\<in>set EnvUnset. map_of (EnvSet e) n = None"
proof -
  show "distinct (map fst (EnvSet e))"
    using assms by (auto simp: EnvSet_def Let_def ggml_ok_def distinct_update split: option.splits)
  have sub: "fst ` set (EnvSet e) \<subseteq> fst ` set (ei_GGML e) \<union> {EnvHFHubCache, EnvHFHome}"
    using EnvSet_keys [of e] by simp
  show "\<forall>k\<in>fst ` set (EnvSet e). CHR ''='' \<notin> set k"
    using assms sub by (fastforce simp: ggml_ok_def list_all_iff EnvHFHubCache_def EnvHFHome_def)
  have "n \<notin> fst ` set (EnvSet e)" if "n \<in> set EnvUnset" for n
  proof
    assume "n \<in> fst ` set (EnvSet e)"
    with sub have "n \<in> fst ` set (ei_GGML e) \<or> n = EnvHFHubCache \<or> n = EnvHFHome" by auto
    with that assms show False
      by (fastforce simp: ggml_ok_def list_all_iff EnvUnset_def EnvLlamaCache_def EnvCUDAVisibleDevices_def EnvHFHubCache_def EnvHFHome_def)
  qed
  then show "\<forall>n\<in>set EnvUnset. map_of (EnvSet e) n = None" by (simp add: map_of_eq_None_iff)
qed

lemma EnvSet_of:
  assumes "ggml_ok e"
  shows "map_of (EnvSet e) n = (if ei_HubDir e \<noteq> [] \<and> n = EnvHFHome \<and> hfHomeOf (ei_HubDir e) \<noteq> None then hfHomeOf (ei_HubDir e)
    else if ei_HubDir e \<noteq> [] \<and> n = EnvHFHubCache then Some (ei_HubDir e) else map_of (ei_GGML e) n)"
  by (auto simp: EnvSet_def Let_def update_conv' EnvHFHubCache_def EnvHFHome_def split: option.split)

lemma Env_perm: "mset (EnvSet e) = mset (EnvSet e') \<Longrightarrow> distinct (map fst (EnvSet e)) \<Longrightarrow> Env base e = Env base e'"
proof -
  assume m: "mset (EnvSet e) = mset (EnvSet e')" and d: "distinct (map fst (EnvSet e))"
  then have "distinct (map fst (EnvSet e'))" by (metis mset_map mset_eq_imp_distinct_iff)
  then have "map_of (EnvSet e) = map_of (EnvSet e')" using d m by (metis map_of_inject_set set_mset_mset)
  then have "env_kept (EnvSet e) = env_kept (EnvSet e')" unfolding env_kept_def by (simp only:)
  then show ?thesis unfolding Env_def using m by (intro properties_for_sort) (simp_all add: mset_map)
qed

lemma set_of_map:
  assumes "ggml_ok e" and "ggml_ok e'" and "ei_HubDir e' = ei_HubDir e" and "mset (ei_GGML e') = mset (ei_GGML e)"
  shows "mset (EnvSet e) = mset (EnvSet e')"
proof -
  have "set (EnvSet e) = set (EnvSet e')"
  proof -
    have eq: "map_of (ei_GGML e) = map_of (ei_GGML e')"
      using assms by (metis ggml_ok_def map_of_inject_set set_mset_mset)
    have "map_of (EnvSet e) = map_of (EnvSet e')"
      unfolding fun_eq_iff EnvSet_of [OF assms(1)] EnvSet_of [OF assms(2)] by (simp only: assms(3) eq simp_thms)
    then show ?thesis
      using EnvSet_ok(1) [OF assms(1)] EnvSet_ok(1) [OF assms(2)] map_of_inject_set by blast
  qed
  then show ?thesis
    using EnvSet_ok(1) [OF assms(1)] EnvSet_ok(1) [OF assms(2)] by (metis distinct_map set_eq_iff_mset_eq_distinct)
qed

text \<open>
  C40. The environment is the contract, whatever was inherited: a program started with it reads
  exactly one value for every variable that is set, none for the two that are removed, and for
  every other name what the inherited environment held, in as many copies; the hub directory is
  set when there is one, and its home when it ends in \<open>/hub\<close>; the list is sorted and does not
  depend on the order in which the pass-through settings come out of their map.
\<close>

theorem the_environment_is_the_contract:
  assumes "ggml_ok e" and "ggml_ok e'" and "ei_HubDir e' = ei_HubDir e" and "mset (ei_GGML e') = mset (ei_GGML e)"
  shows "env_values (Env base e) n = (if n \<in> set EnvUnset then {#}
      else case map_of (EnvSet e) n of Some v \<Rightarrow> {#v#} | None \<Rightarrow> env_values base n)
    \<and> map_of (EnvSet e) EnvHFHubCache = (if ei_HubDir e = [] then None else Some (ei_HubDir e))
    \<and> map_of (EnvSet e) EnvHFHome = (if ei_HubDir e = [] then None else hfHomeOf (ei_HubDir e))
    \<and> sorted (Env base e) \<and> Env base e' = Env base e"
proof -
  note ok = EnvSet_ok [OF assms(1)]
  have "filter_mset (env_names n) (filter_mset (env_kept (EnvSet e)) (mset base)) =
      (if n \<in> set EnvUnset \<or> map_of (EnvSet e) n \<noteq> None then {#} else filter_mset (env_names n) (mset base))"
    by (auto simp: env_kept_def env_names_def filter_mset_eq_mempty_iff filter_filter_mset intro!: filter_mset_cong
      split: option.splits)
  then have "env_values (Env base e) n = (if n \<in> set EnvUnset then {#}
      else case map_of (EnvSet e) n of Some v \<Rightarrow> {#v#} | None \<Rightarrow> env_values base n)"
    using values_of_pairs [OF ok(1,2), of n] ok(3)
    by (auto simp: env_values_def Env_def mset_filter split: option.split)
  moreover have "map_of (ei_GGML e) EnvHFHubCache = None" "map_of (ei_GGML e) EnvHFHome = None"
    using assms(1) by (fastforce simp: ggml_ok_def list_all_iff EnvHFHubCache_def EnvHFHome_def map_of_eq_None_iff)+
  then have "map_of (EnvSet e) EnvHFHubCache = (if ei_HubDir e = [] then None else Some (ei_HubDir e))
    \<and> map_of (EnvSet e) EnvHFHome = (if ei_HubDir e = [] then None else hfHomeOf (ei_HubDir e))"
    by (simp add: EnvSet_of [OF assms(1)] EnvHFHubCache_def EnvHFHome_def)
  moreover have "mset (EnvSet e) = mset (EnvSet e')"
    using set_of_map [OF assms] .
  then have "Env base e' = Env base e" using Env_perm ok(1) by metis
  ultimately show ?thesis by (simp add: Env_def)
qed

text \<open>An inherited \<open>CUDA_VISIBLE_DEVICES\<close> and an inherited \<open>HF_HOME\<close>.\<close>

definition some_env :: "bool \<Rightarrow> env_input" where
  "some_env b = \<lparr>ei_HubDir = ''/h/hub'', ei_GGML = (if b then rev else id) [(''GGML_A'', ''1''), (''GGML_B'', ''2'')]\<rparr>"

theorem the_environment_is_the_contract_witness:
  "env_values (Env [''CUDA_VISIBLE_DEVICES=0'', ''HF_HOME=/x'', ''PATH=/bin''] (some_env True)) ''CUDA_VISIBLE_DEVICES'' = {#}
    \<and> map_of (EnvSet (some_env True)) EnvHFHome = Some ''/h''
    \<and> Env [] (some_env False) = Env [] (some_env True)"
proof -
  have "ggml_ok (some_env True)" "ggml_ok (some_env False)" "''CUDA_VISIBLE_DEVICES'' \<in> set EnvUnset" by code_simp+
  moreover have "hfHomeOf ''/h/hub'' = Some ''/h''" by code_simp
  ultimately show ?thesis
    using the_environment_is_the_contract [of "some_env True" "some_env False"
      "[''CUDA_VISIBLE_DEVICES=0'', ''HF_HOME=/x'', ''PATH=/bin'']" "''CUDA_VISIBLE_DEVICES''"]
      the_environment_is_the_contract [of "some_env True" "some_env False" "[]" "[]"]
    by (auto simp: some_env_def)
qed

subsection \<open>Names\<close>

definition name_start :: "char \<Rightarrow> bool" where
  "name_start c \<longleftrightarrow> (97 \<le> (of_char c :: nat) \<and> (of_char c :: nat) \<le> 122) \<or> (48 \<le> (of_char c :: nat) \<and> (of_char c :: nat) \<le> 57)"

text \<open>The pattern \<open>^[a-z0-9][a-z0-9-]{0,31}$\<close>.\<close>

definition ValidateName :: "string \<Rightarrow> bool" where
  "ValidateName name = (case name of [] \<Rightarrow> False
     | c # r \<Rightarrow> name_start c \<and> length r \<le> 31 \<and> list_all (\<lambda>x. name_start x \<or> x = CHR ''-'') r)"

definition UnitName :: "string \<Rightarrow> string" where
  "UnitName name = ''llamaman-instance@'' @ name @ ''.service''"

lemma UnitName_inj: "UnitName a = UnitName b \<longleftrightarrow> a = b"
  by (simp add: UnitName_def)

subsection \<open>Drafts\<close>

record model_meta =
  mm_ID :: string
  mm_Parsed :: bool
  mm_TokenizerModel :: "string option"
  mm_NVocab :: "int option"

definition no_meta :: model_meta where
  "no_meta = \<lparr>mm_ID = [], mm_Parsed = False, mm_TokenizerModel = None, mm_NVocab = None\<rparr>"

datatype draft_validation = DraftOK | DraftDeferred | DraftMismatch

text \<open>The verdict and, when it is deferred, the model that is not parsed; a mismatch is the one refusal.\<close>

definition ValidateDraft :: "model_meta \<Rightarrow> model_meta \<Rightarrow> draft_validation \<times> string option" where
  "ValidateDraft primary draft =
     (if mm_ID draft = [] \<or> mm_ID primary = [] then (DraftOK, None)
      else if \<not> mm_Parsed primary \<or> \<not> mm_Parsed draft
        then (DraftDeferred, Some (if \<not> mm_Parsed primary then mm_ID primary else mm_ID draft))
      else if mm_TokenizerModel primary = mm_TokenizerModel draft \<and> mm_NVocab primary = mm_NVocab draft then (DraftOK, None)
      else (DraftMismatch, None))"

end
