(* ===== verification/Instance_Service.thy ===== *)
theory Instance_Service
  imports Instance_Hash Instance_Env
begin

text \<open>
  The instance service (\<open>src/internal/instances/service.go\<close>, \<open>control.go\<close>) over the tables it
  writes (\<open>src/internal/store/instances.go\<close>, and of \<open>instancestatus.go\<close> the latch): creation,
  edits under the generation guard, deletion, the wanted state, safe start, the reset of a crash
  loop, and the recomputation of hashes that an activation or a moved model makes. A transaction
  that returns an error leaves no trace; the column \<open>flags_json\<close> holds the flags it decodes to, or
  \<open>None\<close> when it decodes to nothing; events are recorded by their action and subject.
\<close>

subsection \<open>Rows\<close>

record inst = inst_row +
  in_ID :: string
  in_Name :: string
  in_DisplayName :: "string option"
  in_Description :: "string option"
  in_ModelID :: "string option"
  in_MmprojModelID :: "string option"
  in_DraftModelID :: "string option"
  in_PublicPort :: int
  in_AuthMode :: string
  in_Autostart :: bool
  in_RestartPolicy :: string
  in_RestartMax :: int
  in_RestartWindowSec :: int
  in_Flags :: "flag_set option"
  in_ConfigHash :: string
  in_DesiredState :: string
  in_DraftValidation :: draft_validation
  in_PendingTrigger :: "string option"
  in_PendingOverride :: "flag_set option"
  in_UnitName :: string
  in_Generation :: int
  in_CreatedAt :: int
  in_UpdatedAt :: int
  in_DeletedAt :: "int option"

definition Deleted :: "inst \<Rightarrow> bool" where
  "Deleted i \<longleftrightarrow> in_DeletedAt i \<noteq> None"

definition the_row :: "inst \<Rightarrow> inst_row" where
  "the_row i = inst_row.truncate i"

record status_row =
  sr_InstanceID :: string
  sr_State :: string
  sr_LastChangeAt :: int
  sr_BackoffUntil :: "int option"
  sr_WindowResetAt :: int

text \<open>What the resolver reads of a model, and the active build as it answers it.\<close>

record local_model =
  lm_ID :: string
  lm_State :: string
  lm_SnapshotDir :: string
  lm_PrimaryFile :: string
  lm_Parsed :: bool
  lm_TokenizerModel :: "string option"
  lm_NVocab :: "int option"

record inst_db =
  db_instances :: "inst list"
  db_status :: "status_row list"
  db_tokens :: "(string \<times> string) list"
  db_models :: "local_model list"
  db_active :: "runtime option"
  db_events :: "(string \<times> string) list"

subsection \<open>The resolver\<close>

record model_info =
  mi_ID :: string
  mi_Path :: string
  mi_Meta :: model_meta

definition resolve_model :: "inst_db \<Rightarrow> string \<Rightarrow> model_info option" where
  "resolve_model db i = map_option (\<lambda>m. \<lparr>mi_ID = lm_ID m,
       mi_Path = (if lm_State m = ''ready'' then path_join [lm_SnapshotDir m, lm_PrimaryFile m] else []),
       mi_Meta = \<lparr>mm_ID = lm_ID m, mm_Parsed = lm_Parsed m, mm_TokenizerModel = lm_TokenizerModel m, mm_NVocab = lm_NVocab m\<rparr>\<rparr>)
     (find (\<lambda>m. lm_ID m = i) (db_models db))"

text \<open>\<open>distinctArgs\<close> drops the empty id, so that it is found nowhere.\<close>

definition found_model :: "inst_db \<Rightarrow> string \<Rightarrow> model_info option" where
  "found_model db i = (if i = [] then None else resolve_model db i)"

definition no_runtime :: runtime where
  "no_runtime = \<lparr>rt_ID = [], rt_Dir = [], rt_SupportsFit = False, rt_Help = []\<rparr>"

definition activeRuntime :: "inst_db \<Rightarrow> runtime" where
  "activeRuntime db = (case db_active db of None \<Rightarrow> no_runtime | Some rt \<Rightarrow> rt)"

definition ref_ids :: "inst \<Rightarrow> string list" where
  "ref_ids i = filter (\<lambda>r. r \<noteq> []) (List.map_filter id [in_ModelID i, in_MmprojModelID i, in_DraftModelID i])"

definition pick_file :: "inst_db \<Rightarrow> string option \<Rightarrow> model_file option" where
  "pick_file db r = (case r of None \<Rightarrow> None
     | Some i \<Rightarrow> map_option (\<lambda>m. \<lparr>mf_ID = mi_ID m, mf_Path = mi_Path m\<rparr>) (found_model db i))"

record model_refs =
  mr_primary :: "model_file option"
  mr_mmproj :: "model_file option"
  mr_draft :: "model_file option"

definition resolveRefs :: "inst_db \<Rightarrow> inst \<Rightarrow> model_refs" where
  "resolveRefs db i = \<lparr>mr_primary = pick_file db (in_ModelID i), mr_mmproj = pick_file db (in_MmprojModelID i),
     mr_draft = pick_file db (in_DraftModelID i)\<rparr>"

subsection \<open>Errors\<close>

datatype svc_error = NameInvalid string | SaveRefused save_error | ExtraBad extra_error | ModelNotFound "string option"
  | NameTaken string | PortRefused port_error | DraftVocabMismatch | ConflictGeneration int int | GoneInstance
  | BadValue string | RenderRefused render_error | NotFound | Constraint

definition lift_err :: "('e \<Rightarrow> svc_error) \<Rightarrow> 'e + 'a \<Rightarrow> svc_error + 'a" where
  "lift_err f r = (case r of Inl e \<Rightarrow> Inl (f e) | Inr a \<Rightarrow> Inr a)"

definition refuse :: "bool \<Rightarrow> svc_error \<Rightarrow> svc_error + unit" where
  "refuse b e = (if b then Inl e else Inr ())"

subsection \<open>Validation and hash of a whole configuration\<close>

definition meta_of :: "inst_db \<Rightarrow> string option \<Rightarrow> model_meta" where
  "meta_of db r = (case r of None \<Rightarrow> no_meta
     | Some i \<Rightarrow> (case found_model db i of None \<Rightarrow> no_meta | Some m \<Rightarrow> mi_Meta m))"

definition resolveAndValidate :: "inst_db \<Rightarrow> inst \<Rightarrow> svc_error + (model_refs \<times> draft_validation \<times> string option)" where
  "resolveAndValidate db i = (case find (\<lambda>r. found_model db r = None) (ref_ids i) of
       Some r \<Rightarrow> Inl (ModelNotFound (Some r))
     | None \<Rightarrow> (case ValidateDraft (meta_of db (in_ModelID i)) (meta_of db (in_DraftModelID i)) of
         (DraftMismatch, _) \<Rightarrow> Inl DraftVocabMismatch
       | (v, w) \<Rightarrow> Inr (resolveRefs db i, v, w)))"

definition withPlaceholder :: "model_file option \<Rightarrow> model_file option" where
  "withPlaceholder m = map_option (\<lambda>f. if mf_Path f \<noteq> [] then f else f\<lparr>mf_Path := ''model-pending:'' @ mf_ID f\<rparr>) m"

definition hash_primary :: "inst \<Rightarrow> model_refs \<Rightarrow> model_file option" where
  "hash_primary i refs = (case mr_primary refs of
       Some f \<Rightarrow> Some f
     | None \<Rightarrow> map_option (\<lambda>m. \<lparr>mf_ID = m, mf_Path = []\<rparr>) (in_ModelID i))"

definition hash_config :: "(flt \<Rightarrow> string) \<Rightarrow> (string \<Rightarrow> string) \<Rightarrow> inst \<Rightarrow> flag_set \<Rightarrow> model_refs \<Rightarrow> runtime \<Rightarrow> svc_error + string" where
  "hash_config ff sha i f refs rt = lift_err RenderRefused (ConfigHashFor ff sha (the_row i) f
     (withPlaceholder (hash_primary i refs)) (withPlaceholder (mr_mmproj refs)) (withPlaceholder (mr_draft refs)) rt)"

subsection \<open>The table\<close>

definition get_instance :: "inst_db \<Rightarrow> string \<Rightarrow> svc_error + inst" where
  "get_instance db i = (case find (\<lambda>r. in_ID r = i) (db_instances db) of None \<Rightarrow> Inl NotFound | Some r \<Rightarrow> Inr r)"

definition InstanceByName :: "inst_db \<Rightarrow> string \<Rightarrow> inst option" where
  "InstanceByName db name = find (\<lambda>r. in_Name r = name \<and> \<not> Deleted r) (db_instances db)"

definition port_claim :: "inst \<Rightarrow> port_holder" where
  "port_claim r = \<lparr>ph_InstanceID = in_ID r, ph_Name = in_Name r, ph_PublicPort = in_PublicPort r, ph_InternalPort = in_InternalPort r\<rparr>"

definition InstancePortHolders :: "inst_db \<Rightarrow> port_holder list" where
  "InstancePortHolders db = sort_key ph_InstanceID (map port_claim (filter (\<lambda>r. \<not> Deleted r) (db_instances db)))"

definition AuthModeValues :: "string list" where "AuthModeValues = [''token'', ''none'']"
definition RestartPolicyValues :: "string list" where "RestartPolicyValues = [''always'', ''on-failure'', ''never'']"
definition DesiredStateValues :: "string list" where "DesiredStateValues = [''running'', ''stopped'']"
definition PendingTriggerValues :: "string list" where
  "PendingTriggerValues = [''user'', ''autostart'', ''supervisor_restart'', ''rolling'', ''bench_restore'', ''safe_start'']"

text \<open>What the schema demands of a row, by itself and beside the others.\<close>

definition references_exist :: "inst_db \<Rightarrow> inst \<Rightarrow> bool" where
  "references_exist db i \<longleftrightarrow> list_all (\<lambda>r. list_ex (\<lambda>m. lm_ID m = r) (db_models db))
     (List.map_filter id [in_ModelID i, in_MmprojModelID i, in_DraftModelID i])"

definition port_number :: "int \<Rightarrow> bool" where "port_number p \<longleftrightarrow> 1024 \<le> p \<and> p \<le> 65535"

definition row_allowed :: "inst_db \<Rightarrow> inst \<Rightarrow> bool" where
  "row_allowed db i \<longleftrightarrow> ValidateName (in_Name i) \<and> references_exist db i
     \<and> port_number (in_PublicPort i) \<and> port_number (in_InternalPort i)
     \<and> in_AuthMode i \<in> set AuthModeValues \<and> in_RestartPolicy i \<in> set RestartPolicyValues
     \<and> in_DesiredState i \<in> set DesiredStateValues
     \<and> (in_DeletedAt i = None \<longrightarrow> list_all (\<lambda>r. Deleted r \<or> in_ID r = in_ID i \<or>
           (in_Name r \<noteq> in_Name i \<and> in_PublicPort r \<noteq> in_PublicPort i \<and> in_InternalPort r \<noteq> in_InternalPort i)) (db_instances db))"

definition update_rows :: "(inst \<Rightarrow> bool) \<Rightarrow> (inst \<Rightarrow> inst) \<Rightarrow> inst_db \<Rightarrow> inst_db" where
  "update_rows p f db = db\<lparr>db_instances := map (\<lambda>r. if p r then f r else r) (db_instances db)\<rparr>"

definition InsertInstance :: "inst \<Rightarrow> inst_db \<Rightarrow> svc_error + inst_db" where
  "InsertInstance i db = (if \<not> row_allowed db i \<or> list_ex (\<lambda>r. in_ID r = in_ID i) (db_instances db) then Inl Constraint
     else Inr (db\<lparr>db_instances := db_instances db @ [i]\<rparr>))"

definition InsertInstanceStatus :: "status_row \<Rightarrow> inst_db \<Rightarrow> svc_error + inst_db" where
  "InsertInstanceStatus st db = (if list_ex (\<lambda>r. sr_InstanceID r = sr_InstanceID st) (db_status db) then Inl Constraint
     else Inr (db\<lparr>db_status := db_status db @ [st]\<rparr>))"

definition config_of :: "inst \<Rightarrow> inst \<Rightarrow> inst" where
  "config_of i r = i\<lparr>in_Autostart := in_Autostart r, in_DesiredState := in_DesiredState r,
     in_PendingTrigger := in_PendingTrigger r, in_PendingOverride := in_PendingOverride r,
     in_Generation := in_Generation r + 1, in_CreatedAt := in_CreatedAt r, in_DeletedAt := in_DeletedAt r\<rparr>"

definition UpdateInstanceConfig :: "inst \<Rightarrow> inst_db \<Rightarrow> svc_error + (bool \<times> inst_db)" where
  "UpdateInstanceConfig i db =
     (let hit = (\<lambda>r. in_ID r = in_ID i \<and> in_Generation r = in_Generation i \<and> \<not> Deleted r)
      in if \<not> list_ex hit (db_instances db) then Inr (False, db)
         else if \<not> row_allowed db i then Inl Constraint
         else Inr (True, update_rows hit (config_of i) db))"

definition SetInstanceDesiredState :: "string \<Rightarrow> string \<Rightarrow> int \<Rightarrow> inst_db \<Rightarrow> inst_db" where
  "SetInstanceDesiredState i d at = update_rows (\<lambda>r. in_ID r = i) (\<lambda>r. r\<lparr>in_DesiredState := d, in_UpdatedAt := at\<rparr>)"

definition StampPendingStart :: "string \<Rightarrow> string \<Rightarrow> flag_set option \<Rightarrow> int \<Rightarrow> inst_db \<Rightarrow> inst_db" where
  "StampPendingStart i trigger ov at = update_rows (\<lambda>r. in_ID r = i)
     (\<lambda>r. r\<lparr>in_PendingTrigger := Some trigger, in_PendingOverride := ov, in_UpdatedAt := at\<rparr>)"

definition TakePendingStart :: "string \<Rightarrow> inst_db \<Rightarrow> svc_error + ((string option \<times> flag_set option) \<times> inst_db)" where
  "TakePendingStart i db = bind_res (get_instance db i) (\<lambda>r.
     if in_PendingTrigger r = None \<and> in_PendingOverride r = None then Inr ((None, None), db)
     else Inr ((in_PendingTrigger r, in_PendingOverride r),
       update_rows (\<lambda>r. in_ID r = i) (\<lambda>r. r\<lparr>in_PendingTrigger := None, in_PendingOverride := None\<rparr>) db))"

definition SetInstanceAutostart :: "string \<Rightarrow> bool \<Rightarrow> int \<Rightarrow> inst_db \<Rightarrow> inst_db" where
  "SetInstanceAutostart i on at = update_rows (\<lambda>r. in_ID r = i \<and> \<not> Deleted r) (\<lambda>r. r\<lparr>in_Autostart := on, in_UpdatedAt := at\<rparr>)"

definition SetInstanceDraftValidation :: "string \<Rightarrow> draft_validation \<Rightarrow> int \<Rightarrow> inst_db \<Rightarrow> inst_db" where
  "SetInstanceDraftValidation i v at = update_rows (\<lambda>r. in_ID r = i) (\<lambda>r. r\<lparr>in_DraftValidation := v, in_UpdatedAt := at\<rparr>)"

definition SetInstanceConfigHash :: "string \<Rightarrow> string \<Rightarrow> int \<Rightarrow> inst_db \<Rightarrow> inst_db" where
  "SetInstanceConfigHash i h at = update_rows (\<lambda>r. in_ID r = i \<and> \<not> Deleted r) (\<lambda>r. r\<lparr>in_ConfigHash := h, in_UpdatedAt := at\<rparr>)"

definition ReassignInternalPort :: "string \<Rightarrow> int \<Rightarrow> int \<Rightarrow> inst_db \<Rightarrow> svc_error + inst_db" where
  "ReassignInternalPort i port at db =
     (if list_ex (\<lambda>r. in_ID r = i \<and> \<not> Deleted r) (db_instances db)
        \<and> (\<not> port_number port \<or> list_ex (\<lambda>r. in_ID r \<noteq> i \<and> \<not> Deleted r \<and> in_InternalPort r = port) (db_instances db))
      then Inl Constraint
      else Inr (update_rows (\<lambda>r. in_ID r = i \<and> \<not> Deleted r) (\<lambda>r. r\<lparr>in_InternalPort := port, in_UpdatedAt := at\<rparr>) db))"

definition SoftDeleteInstance :: "string \<Rightarrow> int \<Rightarrow> inst_db \<Rightarrow> inst_db" where
  "SoftDeleteInstance i at = update_rows (\<lambda>r. in_ID r = i \<and> \<not> Deleted r)
     (\<lambda>r. r\<lparr>in_DeletedAt := Some at, in_DesiredState := ''stopped'', in_UpdatedAt := at\<rparr>)"

definition DeleteTokenInstances :: "string \<Rightarrow> inst_db \<Rightarrow> inst_db" where
  "DeleteTokenInstances i db = db\<lparr>db_tokens := filter (\<lambda>t. snd t \<noteq> i) (db_tokens db)\<rparr>"

text \<open>A hard delete cascades to the status and to the scopes.\<close>

definition PurgeInstance :: "string \<Rightarrow> inst_db \<Rightarrow> inst_db" where
  "PurgeInstance i db = DeleteTokenInstances i (db\<lparr>db_instances := filter (\<lambda>r. in_ID r \<noteq> i) (db_instances db),
     db_status := filter (\<lambda>s. sr_InstanceID s \<noteq> i) (db_status db)\<rparr>)"

definition ClearCrashLoopLatch :: "string \<Rightarrow> int \<Rightarrow> inst_db \<Rightarrow> inst_db" where
  "ClearCrashLoopLatch i now db = db\<lparr>db_status := map (\<lambda>s. if sr_InstanceID s = i
     then (if sr_State s = ''crash-looping'' then s\<lparr>sr_State := ''stopped'', sr_LastChangeAt := now\<rparr> else s)
       \<lparr>sr_BackoffUntil := None, sr_WindowResetAt := now\<rparr> else s) (db_status db)\<rparr>"

definition DefaultInstanceLimit :: nat where "DefaultInstanceLimit = 500"

text \<open>The rows of a filter by ids, an empty list of ids being no filter: live, with a status, by id, the first so many.\<close>

definition InstanceViews :: "string list \<Rightarrow> inst_db \<Rightarrow> inst list" where
  "InstanceViews ids db = take DefaultInstanceLimit (sort_key in_ID
     (filter (\<lambda>r. \<not> Deleted r \<and> (ids = [] \<or> in_ID r \<in> set ids) \<and> list_ex (\<lambda>s. sr_InstanceID s = in_ID r) (db_status db))
       (db_instances db)))"

definition InstancesForModels :: "string list \<Rightarrow> inst_db \<Rightarrow> string list" where
  "InstancesForModels ms db = sort (remdups (map in_ID (filter (\<lambda>r. \<not> Deleted r
     \<and> list_ex (\<lambda>m. m \<in> set ms) (ref_ids r)) (db_instances db))))"

definition svc_event :: "string \<Rightarrow> string \<Rightarrow> inst_db \<Rightarrow> inst_db" where
  "svc_event action i db = db\<lparr>db_events := db_events db @ [(action, i)]\<rparr>"

end
