(* ===== verification/Instance_Ops.thy ===== *)
theory Instance_Ops
  imports Instance_Service
begin

text \<open>
  The operations of the instance service: \<open>Create\<close>, \<open>Patch\<close>, \<open>Delete\<close>, \<open>SetDesiredState\<close> and
  \<open>RecomputeConfigHash\<close> of \<open>service.go\<close>; \<open>SafeStart\<close>, \<open>ResetFailed\<close>, \<open>SetAutostart\<close> and \<open>DryRun\<close> of
  \<open>control.go\<close>; and the three callers of the recomputation: the activation of a build, a write
  of the models service and one of the downloads.
\<close>

text \<open>What a call is given beside its parameters: ports, probe, clock, a new id, the two functions.\<close>

record svc_env =
  se_policy :: port_policy
  se_probe :: "prober option"
  se_now :: int
  se_newID :: string
  se_float :: "flt \<Rightarrow> string"
  se_sha :: "string \<Rightarrow> string"

subsection \<open>Create\<close>

record create_params =
  cp_Name :: string
  cp_DisplayName :: "string option"
  cp_Description :: "string option"
  cp_ModelID :: string
  cp_MmprojModelID :: "string option"
  cp_DraftModelID :: "string option"
  cp_PublicPort :: "int option"
  cp_InternalPort :: "int option"
  cp_AuthMode :: "string option"
  cp_Autostart :: "bool option"
  cp_RestartPolicy :: "string option"
  cp_RestartMax :: "int option"
  cp_RestartWindowSec :: "int option"
  cp_Flags :: flag_set
  cp_ExtraFlags :: string

definition valueOr :: "'a option \<Rightarrow> 'a \<Rightarrow> 'a" where
  "valueOr v d = (case v of None \<Rightarrow> d | Some x \<Rightarrow> x)"

definition DefaultRestartMax :: int where "DefaultRestartMax = 5"
definition DefaultRestartWindowSec :: int where "DefaultRestartWindowSec = 600"

definition check_create :: "create_params \<Rightarrow> svc_error + unit" where
  "check_create p = bind_res (refuse (\<not> ValidateName (cp_Name p)) (NameInvalid (cp_Name p))) (\<lambda>_.
     bind_res (case ValidateFlags (cp_Flags p) of Some e \<Rightarrow> Inl (SaveRefused e) | None \<Rightarrow> Inr ()) (\<lambda>_.
     bind_res (lift_err ExtraBad (ParseExtraFlags (cp_ExtraFlags p))) (\<lambda>_.
       refuse (cp_ModelID p = []) (ModelNotFound None))))"

definition new_row :: "svc_env \<Rightarrow> create_params \<Rightarrow> int \<Rightarrow> int \<Rightarrow> inst" where
  "new_row e p public internal = \<lparr>in_InternalPort = internal, in_ExtraFlags = cp_ExtraFlags p, in_ID = se_newID e,
     in_Name = cp_Name p, in_DisplayName = cp_DisplayName p, in_Description = cp_Description p,
     in_ModelID = Some (cp_ModelID p), in_MmprojModelID = cp_MmprojModelID p, in_DraftModelID = cp_DraftModelID p,
     in_PublicPort = public, in_AuthMode = valueOr (cp_AuthMode p) ''token'', in_Autostart = valueOr (cp_Autostart p) False,
     in_RestartPolicy = valueOr (cp_RestartPolicy p) ''on-failure'', in_RestartMax = valueOr (cp_RestartMax p) DefaultRestartMax,
     in_RestartWindowSec = valueOr (cp_RestartWindowSec p) DefaultRestartWindowSec, in_Flags = Some (cp_Flags p),
     in_ConfigHash = [], in_DesiredState = ''stopped'', in_DraftValidation = DraftOK, in_PendingTrigger = None,
     in_PendingOverride = None, in_UnitName = UnitName (cp_Name p), in_Generation = 1, in_CreatedAt = se_now e,
     in_UpdatedAt = se_now e, in_DeletedAt = None\<rparr>"

definition Create :: "svc_env \<Rightarrow> create_params \<Rightarrow> inst_db \<Rightarrow> svc_error + (inst_db \<times> string option)" where
  "Create e p db = bind_res (check_create p) (\<lambda>_.
     bind_res (refuse (InstanceByName db (cp_Name p) \<noteq> None) (NameTaken (cp_Name p))) (\<lambda>_.
     let hs = InstancePortHolders db in
     bind_res (lift_err PortRefused (choosePort PortPublic (cp_PublicPort p) (se_policy e) hs [] (se_probe e))) (\<lambda>public.
     bind_res (lift_err PortRefused (chooseInternalPort (cp_InternalPort p) (se_policy e) hs [] public (se_probe e))) (\<lambda>internal.
     let row = new_row e p public internal in
     bind_res (resolveAndValidate db row) (\<lambda>(refs, v, w).
     let row = row\<lparr>in_DraftValidation := v\<rparr> in
     bind_res (hash_config (se_float e) (se_sha e) row (cp_Flags p) refs (activeRuntime db)) (\<lambda>h.
     bind_res (InsertInstance (row\<lparr>in_ConfigHash := h\<rparr>) db) (\<lambda>db1.
     bind_res (InsertInstanceStatus \<lparr>sr_InstanceID = in_ID row, sr_State = ''unknown'', sr_LastChangeAt = se_now e,
       sr_BackoffUntil = None, sr_WindowResetAt = 0\<rparr> db1) (\<lambda>db2.
       Inr (svc_event ''instance_created'' (in_ID row) db2, w)))))))))"

subsection \<open>Patch\<close>

record patch_params =
  pt_Generation :: int
  pt_Name :: "string option"
  pt_DisplayName :: "string option option"
  pt_Description :: "string option option"
  pt_ModelID :: "string option"
  pt_MmprojModelID :: "string option option"
  pt_DraftModelID :: "string option option"
  pt_PublicPort :: "int option"
  pt_InternalPort :: "int option"
  pt_AuthMode :: "string option"
  pt_RestartPolicy :: "string option"
  pt_RestartMax :: "int option"
  pt_RestartWindowSec :: "int option"
  pt_Flags :: "flag_set option"
  pt_ExtraFlags :: "string option"

definition patch_name :: "patch_params \<Rightarrow> string \<Rightarrow> inst_db \<Rightarrow> inst \<Rightarrow> svc_error + inst" where
  "patch_name p i db r = (case pt_Name p of
       None \<Rightarrow> Inr r
     | Some n \<Rightarrow> if n = in_Name r then Inr r
         else if \<not> ValidateName n then Inl (NameInvalid n)
         else (case InstanceByName db n of
             Some other \<Rightarrow> if in_ID other \<noteq> i then Inl (NameTaken n) else Inr (r\<lparr>in_Name := n, in_UnitName := UnitName n\<rparr>)
           | None \<Rightarrow> Inr (r\<lparr>in_Name := n, in_UnitName := UnitName n\<rparr>)))"

definition patch_models :: "patch_params \<Rightarrow> inst \<Rightarrow> svc_error + inst" where
  "patch_models p r0 = (let r = r0\<lparr>in_DisplayName := valueOr (pt_DisplayName p) (in_DisplayName r0),
         in_Description := valueOr (pt_Description p) (in_Description r0)\<rparr>
     in if pt_ModelID p = Some [] then Inl (ModelNotFound None)
        else Inr (r\<lparr>in_ModelID := (case pt_ModelID p of None \<Rightarrow> in_ModelID r | Some m \<Rightarrow> Some m),
          in_MmprojModelID := valueOr (pt_MmprojModelID p) (in_MmprojModelID r),
          in_DraftModelID := valueOr (pt_DraftModelID p) (in_DraftModelID r)\<rparr>))"

definition patch_modes :: "patch_params \<Rightarrow> inst \<Rightarrow> svc_error + inst" where
  "patch_modes p r = (let a = valueOr (pt_AuthMode p) (in_AuthMode r); q = valueOr (pt_RestartPolicy p) (in_RestartPolicy r) in
     if pt_AuthMode p \<noteq> None \<and> a \<notin> set AuthModeValues then Inl (BadValue a)
     else if pt_RestartPolicy p \<noteq> None \<and> q \<notin> set RestartPolicyValues then Inl (BadValue q)
     else Inr (r\<lparr>in_AuthMode := a, in_RestartPolicy := q, in_RestartMax := valueOr (pt_RestartMax p) (in_RestartMax r),
       in_RestartWindowSec := valueOr (pt_RestartWindowSec p) (in_RestartWindowSec r)\<rparr>))"

definition patch_flags :: "patch_params \<Rightarrow> inst \<Rightarrow> svc_error + inst" where
  "patch_flags p r = bind_res (case pt_ExtraFlags p of None \<Rightarrow> Inr r
       | Some s \<Rightarrow> bind_res (lift_err ExtraBad (ParseExtraFlags s)) (\<lambda>_. Inr (r\<lparr>in_ExtraFlags := s\<rparr>))) (\<lambda>r1.
     case pt_Flags p of None \<Rightarrow> Inr r1
     | Some f \<Rightarrow> (case ValidateFlags f of Some x \<Rightarrow> Inl (SaveRefused x) | None \<Rightarrow> Inr (r1\<lparr>in_Flags := Some f\<rparr>)))"

definition patch_own_ports :: "svc_env \<Rightarrow> patch_params \<Rightarrow> string \<Rightarrow> inst_db \<Rightarrow> inst \<Rightarrow> svc_error + inst" where
  "patch_own_ports e p i db r = bind_res (lift_err PortRefused
       (patch_one i (pt_PublicPort p) (pt_InternalPort p) (se_policy e) (se_probe e) (InstancePortHolders db) (port_claim r))) (\<lambda>c.
     Inr (r\<lparr>in_PublicPort := ph_PublicPort c, in_InternalPort := ph_InternalPort c\<rparr>))"

definition Patch :: "svc_env \<Rightarrow> string \<Rightarrow> patch_params \<Rightarrow> inst_db \<Rightarrow> svc_error + (inst_db \<times> string option)" where
  "Patch e i p db = bind_res (get_instance db i) (\<lambda>r0.
     bind_res (refuse (Deleted r0) GoneInstance) (\<lambda>_.
     bind_res (refuse (in_Generation r0 \<noteq> pt_Generation p) (ConflictGeneration (in_Generation r0) (pt_Generation p))) (\<lambda>_.
     bind_res (refuse (in_Flags r0 = None) (BadValue [])) (\<lambda>_.
     bind_res (patch_name p i db r0) (\<lambda>r1.
     bind_res (patch_models p r1) (\<lambda>r2.
     bind_res (patch_modes p r2) (\<lambda>r3.
     bind_res (patch_flags p r3) (\<lambda>r4.
     bind_res (patch_own_ports e p i db r4) (\<lambda>r5.
     bind_res (resolveAndValidate db r5) (\<lambda>(refs, v, w).
     bind_res (hash_config (se_float e) (se_sha e) (r5\<lparr>in_DraftValidation := v\<rparr>)
       (valueOr (in_Flags r5) no_flags) refs (activeRuntime db)) (\<lambda>h.
     bind_res (UpdateInstanceConfig (r5\<lparr>in_DraftValidation := v, in_ConfigHash := h, in_UpdatedAt := se_now e\<rparr>) db) (\<lambda>(changed, db').
       if \<not> changed then bind_res (get_instance db' i) (\<lambda>c. Inl (ConflictGeneration (in_Generation c) (pt_Generation p)))
       else Inr (svc_event ''instance_updated'' i db', w)))))))))))))"

subsection \<open>Delete\<close>

text \<open>The read and the write are two transactions, with the calls to systemd between them.\<close>

definition delete_read :: "string \<Rightarrow> bool \<Rightarrow> inst_db \<Rightarrow> svc_error + bool" where
  "delete_read i purge db = bind_res (get_instance db i) (\<lambda>r. Inr (purge \<or> \<not> Deleted r))"

definition delete_write :: "string \<Rightarrow> bool \<Rightarrow> bool \<Rightarrow> int \<Rightarrow> inst_db \<Rightarrow> inst_db" where
  "delete_write i purge keepTokens now db =
     (if purge then svc_event ''instance_purged'' i (PurgeInstance i db)
      else let db1 = SetInstanceDesiredState i ''stopped'' now db;
               db2 = (if keepTokens then db1 else DeleteTokenInstances i db1)
           in svc_event ''instance_deleted'' i (SoftDeleteInstance i now db2))"

definition Delete :: "string \<Rightarrow> bool \<Rightarrow> bool \<Rightarrow> int \<Rightarrow> inst_db \<Rightarrow> svc_error + inst_db" where
  "Delete i purge keepTokens now db = bind_res (delete_read i purge db) (\<lambda>go.
     Inr (if go then delete_write i purge keepTokens now db else db))"

subsection \<open>The wanted state\<close>

definition live_instance :: "inst_db \<Rightarrow> string \<Rightarrow> svc_error + inst" where
  "live_instance db i = bind_res (get_instance db i) (\<lambda>r. if Deleted r then Inl NotFound else Inr r)"

definition SetDesiredState :: "string \<Rightarrow> string \<Rightarrow> string \<Rightarrow> int \<Rightarrow> inst_db \<Rightarrow> svc_error + inst_db" where
  "SetDesiredState i d trigger now db =
     (if d \<notin> set DesiredStateValues then Inl (BadValue d)
      else bind_res (live_instance db i) (\<lambda>_.
        let db1 = SetInstanceDesiredState i d now db;
            db2 = (if d = ''running'' then StampPendingStart i (if trigger \<in> set PendingTriggerValues then trigger else ''user'') None now db1
              else db1)
        in Inr (svc_event ''instance_desired_state'' i db2)))"

definition SafeOverride :: flag_set where
  "SafeOverride = no_flags\<lparr>fs_NGpuLayers := Some \<lparr>ng_Mode = ''none'', ng_Count = None\<rparr>, fs_CtxSize := Some 2048, fs_Parallel := Some 1\<rparr>"

definition SafeStart :: "string \<Rightarrow> int \<Rightarrow> inst_db \<Rightarrow> svc_error + inst_db" where
  "SafeStart i now db = bind_res (live_instance db i) (\<lambda>_.
     Inr (svc_event ''instance_safe_start'' i (ClearCrashLoopLatch i now
       (StampPendingStart i ''safe_start'' (Some SafeOverride) now (SetInstanceDesiredState i ''running'' now db)))))"

definition ResetFailed :: "string \<Rightarrow> int \<Rightarrow> inst_db \<Rightarrow> svc_error + inst_db" where
  "ResetFailed i now db = bind_res (live_instance db i) (\<lambda>_.
     Inr (svc_event ''instance_reset_failed'' i (ClearCrashLoopLatch i now db)))"

definition SetAutostart :: "string \<Rightarrow> bool \<Rightarrow> int \<Rightarrow> inst_db \<Rightarrow> svc_error + inst_db" where
  "SetAutostart i on now db = bind_res (live_instance db i) (\<lambda>_.
     Inr (svc_event ''instance_autostart'' i (SetInstanceAutostart i on now db)))"

subsection \<open>Recomputing hashes\<close>

definition recompute_row :: "svc_env \<Rightarrow> inst \<Rightarrow> inst_db \<Rightarrow> inst_db" where
  "recompute_row e r db = (case in_Flags r of
       None \<Rightarrow> db
     | Some f \<Rightarrow> (case hash_config (se_float e) (se_sha e) r f (resolveRefs db r) (activeRuntime db) of
         Inl _ \<Rightarrow> db
       | Inr h \<Rightarrow> if h = in_ConfigHash r then db else SetInstanceConfigHash (in_ID r) h (se_now e) db))"

definition RecomputeConfigHash :: "svc_env \<Rightarrow> string list \<Rightarrow> inst_db \<Rightarrow> inst_db" where
  "RecomputeConfigHash e ids db = fold (recompute_row e) (InstanceViews ids db) db"

text \<open>The models service finds the instances of its models; the downloads hand over the models.\<close>

definition recomputeFor :: "svc_env \<Rightarrow> string list \<Rightarrow> inst_db \<Rightarrow> inst_db" where
  "recomputeFor e models db = (let ids = InstancesForModels models db in if ids = [] then db else RecomputeConfigHash e ids db)"

definition download_recompute :: "svc_env \<Rightarrow> string list \<Rightarrow> inst_db \<Rightarrow> inst_db" where
  "download_recompute e models db = RecomputeConfigHash e models db"

definition write_model :: "local_model \<Rightarrow> inst_db \<Rightarrow> inst_db" where
  "write_model m db = db\<lparr>db_models := (if list_ex (\<lambda>x. lm_ID x = lm_ID m) (db_models db)
     then map (\<lambda>x. if lm_ID x = lm_ID m then m else x) (db_models db) else db_models db @ [m])\<rparr>"

definition model_moved :: "local_model \<Rightarrow> inst_db \<Rightarrow> bool" where
  "model_moved m db = (case find (\<lambda>x. lm_ID x = lm_ID m) (db_models db) of None \<Rightarrow> False
     | Some x \<Rightarrow> lm_SnapshotDir x \<noteq> lm_SnapshotDir m \<or> lm_PrimaryFile x \<noteq> lm_PrimaryFile m \<or> lm_State x \<noteq> lm_State m)"

text \<open>A model as a scan writes it, and one as a download writes it.\<close>

definition scan_writes :: "svc_env \<Rightarrow> local_model \<Rightarrow> inst_db \<Rightarrow> inst_db" where
  "scan_writes e m db = (if model_moved m db then recomputeFor e [lm_ID m] (write_model m db) else write_model m db)"

definition download_writes :: "svc_env \<Rightarrow> local_model \<Rightarrow> inst_db \<Rightarrow> inst_db" where
  "download_writes e m db = download_recompute e [lm_ID m] (write_model m db)"

definition activate_tx :: "svc_env \<Rightarrow> runtime option \<Rightarrow> inst_db \<Rightarrow> inst_db" where
  "activate_tx e rt db = RecomputeConfigHash e [] (db\<lparr>db_active := rt\<rparr>)"

end
