(* ===== verification/Instance_Machine.thy ===== *)
theory Instance_Machine
  imports Instance_Ops
begin

text \<open>
  The instance service as a machine: one event per call that writes, whoever makes it (the API, the
  supervisor, the launcher, the models service, a download, an activation), and what all of them
  keep of the tables.
\<close>

datatype svc_ev = CreateEv svc_env create_params | PatchEv svc_env string patch_params
  | DeleteEv string bool bool int | DesiredEv string string string int | SafeStartEv string int
  | ResetFailedEv string int | AutostartEv string bool int | TakePendingEv string
  | DraftEv string draft_validation int | ReassignEv string int int
  | ScanEv svc_env local_model | ActivateEv svc_env "runtime option" | DownloadEv svc_env local_model

definition committed :: "('a \<Rightarrow> inst_db) \<Rightarrow> inst_db \<Rightarrow> svc_error + 'a \<Rightarrow> inst_db" where
  "committed f db r = (case r of Inl _ \<Rightarrow> db | Inr a \<Rightarrow> f a)"

fun svc_step :: "svc_ev \<Rightarrow> inst_db \<Rightarrow> inst_db" where
  "svc_step (CreateEv e p) db = committed fst db (Create e p db)"
| "svc_step (PatchEv e i p) db = committed fst db (Patch e i p db)"
| "svc_step (DeleteEv i purge keep now) db = delete_write i purge keep now db"
| "svc_step (DesiredEv i d trigger now) db = committed id db (SetDesiredState i d trigger now db)"
| "svc_step (SafeStartEv i now) db = committed id db (SafeStart i now db)"
| "svc_step (ResetFailedEv i now) db = committed id db (ResetFailed i now db)"
| "svc_step (AutostartEv i on now) db = committed id db (SetAutostart i on now db)"
| "svc_step (TakePendingEv i) db = committed snd db (TakePendingStart i db)"
| "svc_step (DraftEv i v now) db = SetInstanceDraftValidation i v now db"
| "svc_step (ReassignEv i port now) db = committed id db (ReassignInternalPort i port now db)"
| "svc_step (ScanEv e m) db = scan_writes e m db"
| "svc_step (ActivateEv e rt) db = activate_tx e rt db"
| "svc_step (DownloadEv e m) db = download_writes e m db"

definition empty_db :: inst_db where
  "empty_db = \<lparr>db_instances = [], db_status = [], db_tokens = [], db_models = [], db_active = None, db_events = []\<rparr>"

subsection \<open>What an update touches\<close>

lemma committed_inv: "P db \<Longrightarrow> (\<And>a. r = Inr a \<Longrightarrow> P (f a)) \<Longrightarrow> P (committed f db r)"
  by (auto simp: committed_def split: sum.split)

lemma update_rows_fields [simp]:
  "db_instances (update_rows p f db) = map (\<lambda>r. if p r then f r else r) (db_instances db)"
  "db_status (update_rows p f db) = db_status db" "db_tokens (update_rows p f db) = db_tokens db"
  "db_models (update_rows p f db) = db_models db" "db_active (update_rows p f db) = db_active db"
  "db_events (update_rows p f db) = db_events db"
  by (simp_all add: update_rows_def)

lemma svc_event_fields [simp]:
  "db_instances (svc_event a i db) = db_instances db" "db_status (svc_event a i db) = db_status db"
  "db_tokens (svc_event a i db) = db_tokens db" "db_models (svc_event a i db) = db_models db"
  "db_active (svc_event a i db) = db_active db"
  by (simp_all add: svc_event_def)

lemma ClearCrashLoopLatch_fields [simp]:
  "db_instances (ClearCrashLoopLatch i now db) = db_instances db" "db_models (ClearCrashLoopLatch i now db) = db_models db"
  "db_active (ClearCrashLoopLatch i now db) = db_active db"
  "map sr_InstanceID (db_status (ClearCrashLoopLatch i now db)) = map sr_InstanceID (db_status db)"
  by (simp_all add: ClearCrashLoopLatch_def)

lemma DeleteTokenInstances_fields [simp]:
  "db_instances (DeleteTokenInstances i db) = db_instances db" "db_status (DeleteTokenInstances i db) = db_status db"
  "db_models (DeleteTokenInstances i db) = db_models db" "db_active (DeleteTokenInstances i db) = db_active db"
  by (simp_all add: DeleteTokenInstances_def)

lemma refuse_Inr [simp]: "refuse b e = Inr u \<longleftrightarrow> \<not> b"
  by (simp add: refuse_def)

lemma lift_err_Inr [simp]: "lift_err f r = Inr a \<longleftrightarrow> r = Inr a"
  by (cases r) (simp_all add: lift_err_def)

lemmas service_writes = SetInstanceDesiredState_def StampPendingStart_def SetInstanceAutostart_def
  SetInstanceDraftValidation_def SetInstanceConfigHash_def SoftDeleteInstance_def

subsection \<open>What a hash reads\<close>

lemma the_row_simps: "the_row r = \<lparr>in_InternalPort = in_InternalPort r, in_ExtraFlags = in_ExtraFlags r\<rparr>"
  by (simp add: the_row_def inst_row.truncate_def)

text \<open>The columns the hash is a function of.\<close>

definition hash_inputs :: "inst \<Rightarrow> string \<times> string option \<times> string option \<times> string option \<times> flag_set option" where
  "hash_inputs r = (in_ExtraFlags r, in_ModelID r, in_MmprojModelID r, in_DraftModelID r, in_Flags r)"

lemma resolveRefs_cong:
  "hash_inputs r = hash_inputs s \<Longrightarrow> db_models db = db_models db' \<Longrightarrow> resolveRefs db r = resolveRefs db' s"
  by (auto simp: hash_inputs_def resolveRefs_def pick_file_def found_model_def resolve_model_def split: option.split)

lemma hash_config_cong:
  assumes "hash_inputs r = hash_inputs s"
  shows "hash_config ff sha r f refs rt = hash_config ff sha s f refs rt"
proof -
  have "hash_primary r refs = hash_primary s refs" using assms by (simp add: hash_primary_def hash_inputs_def split: option.split)
  moreover have "the_row r = (the_row s)\<lparr>in_InternalPort := in_InternalPort r\<rparr>"
    using assms by (simp add: the_row_simps hash_inputs_def)
  moreover have "the_row s = (the_row s)\<lparr>in_InternalPort := in_InternalPort s\<rparr>" by (simp add: the_row_simps)
  ultimately show ?thesis
    unfolding hash_config_def by (metis the_port_is_not_hashed)
qed

text \<open>Whether there is a hash does not depend on what the references resolve to.\<close>

lemma hash_config_Inr_iff:
  "(\<exists>h. hash_config ff sha r f (resolveRefs db r) rt = Inr h) \<longleftrightarrow>
    in_ModelID r \<noteq> None \<and> (\<exists>ws. ParseExtraFlags (in_ExtraFlags r) = Inr ws)"
proof -
  have "has_path (withPlaceholder (hash_primary r (resolveRefs db r))) \<longleftrightarrow> in_ModelID r \<noteq> None"
    by (auto simp: has_path_def withPlaceholder_def hash_primary_def resolveRefs_def pick_file_def split: option.splits)
  then show ?thesis
    by (auto simp: hash_config_def ConfigHashFor_def RenderArgv_def the_row_simps bind_res_def split: sum.splits)
qed

definition current_row :: "(flt \<Rightarrow> string) \<Rightarrow> (string \<Rightarrow> string) \<Rightarrow> inst_db \<Rightarrow> inst \<Rightarrow> bool" where
  "current_row ff sha db r = (case in_Flags r of None \<Rightarrow> False
     | Some f \<Rightarrow> hash_config ff sha r f (resolveRefs db r) (activeRuntime db) = Inr (in_ConfigHash r))"

lemma current_cong:
  assumes "hash_inputs r = hash_inputs s" and "in_ConfigHash r = in_ConfigHash s"
    and "resolveRefs db r = resolveRefs db' s" and "db_active db = db_active db'"
  shows "current_row ff sha db r \<longleftrightarrow> current_row ff sha db' s"
  using hash_config_cong [OF assms(1)] assms by (auto simp: current_row_def hash_inputs_def activeRuntime_def split: option.split)

text \<open>A row that could be hashed once can be hashed whatever its references become.\<close>

definition hashable :: "inst \<Rightarrow> bool" where
  "hashable r \<longleftrightarrow> in_Flags r \<noteq> None \<and> in_ModelID r \<noteq> None \<and> (\<exists>ws. ParseExtraFlags (in_ExtraFlags r) = Inr ws)"

lemma current_hashable: "current_row ff sha db r \<Longrightarrow> hashable r"
  unfolding current_row_def hashable_def using hash_config_Inr_iff by (fastforce split: option.splits)

section \<open>The recomputation of hashes\<close>

text \<open>
  What the recomputation of hashes reaches, and that the stored hash of a live instance is always
  that of its configuration: the one that the launcher compares with what runs.
\<close>

subsection \<open>The recomputation, row by row\<close>

definition new_hash :: "svc_env \<Rightarrow> inst_db \<Rightarrow> inst \<Rightarrow> string option" where
  "new_hash e db r = (case in_Flags r of None \<Rightarrow> None
     | Some f \<Rightarrow> (case hash_config (se_float e) (se_sha e) r f (resolveRefs db r) (activeRuntime db) of
         Inl _ \<Rightarrow> None | Inr h \<Rightarrow> if h = in_ConfigHash r then None else Some h))"

definition restamp :: "svc_env \<Rightarrow> inst_db \<Rightarrow> inst \<Rightarrow> inst \<Rightarrow> inst" where
  "restamp e db r x = (if in_ID x = in_ID r \<and> \<not> Deleted x then (case new_hash e db r of
       None \<Rightarrow> x | Some h \<Rightarrow> x\<lparr>in_ConfigHash := h, in_UpdatedAt := se_now e\<rparr>) else x)"

lemma new_hash_cong:
  "db_models db = db_models db' \<Longrightarrow> db_active db = db_active db' \<Longrightarrow> new_hash e db r = new_hash e db' r"
proof -
  assume a: "db_models db = db_models db'" "db_active db = db_active db'"
  then have r: "resolveRefs db r = resolveRefs db' r" by (intro resolveRefs_cong) simp_all
  have rt: "activeRuntime db = activeRuntime db'" using a by (simp add: activeRuntime_def)
  show ?thesis unfolding new_hash_def r rt ..
qed

lemma recompute_row_cases: "recompute_row e r db = (case new_hash e db r of None \<Rightarrow> db
    | Some h \<Rightarrow> SetInstanceConfigHash (in_ID r) h (se_now e) db)"
  by (simp add: recompute_row_def new_hash_def split: option.split sum.split)

lemma recompute_row_restamp: "recompute_row e r db = db\<lparr>db_instances := map (restamp e db r) (db_instances db)\<rparr>"
proof (cases "new_hash e db r")
  case None
  then have "map (restamp e db r) (db_instances db) = db_instances db" by (intro map_idI) (simp add: restamp_def)
  with None show ?thesis by (simp add: recompute_row_cases)
next
  case (Some h)
  then have "restamp e db r = (\<lambda>x. if in_ID x = in_ID r \<and> \<not> Deleted x then x\<lparr>in_ConfigHash := h, in_UpdatedAt := se_now e\<rparr> else x)"
    by (simp add: restamp_def fun_eq_iff)
  with Some show ?thesis by (simp add: recompute_row_cases SetInstanceConfigHash_def update_rows_def)
qed

lemma restamp_cong: "db_models db = db_models db' \<Longrightarrow> db_active db = db_active db' \<Longrightarrow> restamp e db = restamp e db'"
  using new_hash_cong [of db db' e] by (simp add: restamp_def fun_eq_iff)

lemma fold_recompute:
  "fold (recompute_row e) rows db = db\<lparr>db_instances := map (fold (restamp e db) rows) (db_instances db)\<rparr>"
proof (induction rows arbitrary: db)
  case (Cons r rows)
  have "restamp e (db\<lparr>db_instances := xs\<rparr>) = restamp e db" for xs by (rule restamp_cong) simp_all
  with Cons show ?case by (simp add: recompute_row_restamp)
qed simp

lemma restamp_other: "in_ID x \<noteq> in_ID r \<Longrightarrow> restamp e db r x = x"
  by (simp add: restamp_def)

lemma restamp_keeps [simp]:
  "in_ID (restamp e db r x) = in_ID x" "in_DeletedAt (restamp e db r x) = in_DeletedAt x" "hash_inputs (restamp e db r x) = hash_inputs x"
  "in_InternalPort (restamp e db r x) = in_InternalPort x" "in_Generation (restamp e db r x) = in_Generation x"
  by (auto simp: restamp_def hash_inputs_def split: option.split)

lemma fold_restamp_other: "in_ID x \<notin> in_ID ` set rows \<Longrightarrow> fold (restamp e db) rows x = x"
  by (induction rows arbitrary: x) (auto simp: restamp_other)

lemma fold_restamp_own:
  "r \<in> set rows \<Longrightarrow> distinct (map in_ID rows) \<Longrightarrow> fold (restamp e db) rows r = restamp e db r r"
proof (induction rows)
  case (Cons s rows)
  show ?case
  proof (cases "r = s")
    case True
    with Cons.prems(2) have "in_ID (restamp e db s r) \<notin> in_ID ` set rows" by simp
    with True show ?thesis by (simp add: fold_restamp_other)
  next
    case False
    with Cons.prems have "r \<in> set rows" "in_ID r \<noteq> in_ID s" by (auto intro: rev_image_eqI)
    with Cons show ?thesis by (simp add: restamp_other)
  qed
qed simp

lemma restamp_current:
  assumes "hashable r" and "\<not> Deleted r" and "se_float e = ff" and "se_sha e = sha"
  shows "current_row ff sha db (restamp e db r r)"
proof -
  from assms(1) obtain f where f: "in_Flags r = Some f" by (auto simp: hashable_def)
  from assms(1) obtain h where h: "hash_config ff sha r f (resolveRefs db r) (activeRuntime db) = Inr h"
    using hash_config_Inr_iff [of ff sha r f db "activeRuntime db"] by (auto simp: hashable_def)
  let ?s = "restamp e db r r"
  have "in_ConfigHash ?s = h" using f h assms by (simp add: restamp_def new_hash_def)
  moreover have "in_Flags ?s = Some f" using f restamp_keeps(3) [of e db r r] by (simp add: hash_inputs_def)
  moreover have "hash_config ff sha ?s f (resolveRefs db ?s) (activeRuntime db) = Inr h"
    using h hash_config_cong [of ?s r] resolveRefs_cong [of ?s r db db] by simp
  ultimately show ?thesis by (simp add: current_row_def)
qed

subsection \<open>Which rows are reached\<close>

definition reached :: "string list \<Rightarrow> inst_db \<Rightarrow> inst \<Rightarrow> bool" where
  "reached ids db r \<longleftrightarrow> \<not> Deleted r \<and> (ids = [] \<or> in_ID r \<in> set ids) \<and> list_ex (\<lambda>s. sr_InstanceID s = in_ID r) (db_status db)"

lemma InstanceViews_set:
  assumes "length (db_instances db) \<le> DefaultInstanceLimit"
  shows "set (InstanceViews ids db) = {r \<in> set (db_instances db). reached ids db r}"
proof -
  let ?P = "\<lambda>r. \<not> Deleted r \<and> (ids = [] \<or> in_ID r \<in> set ids) \<and> list_ex (\<lambda>s. sr_InstanceID s = in_ID r) (db_status db)"
  have "length (filter ?P (db_instances db)) \<le> DefaultInstanceLimit"
    using assms length_filter_le [of ?P "db_instances db"] by linarith
  then have "InstanceViews ids db = sort_key in_ID (filter ?P (db_instances db))" by (simp add: InstanceViews_def)
  then show ?thesis by (auto simp: reached_def)
qed

lemma InstanceViews_distinct: "distinct (map in_ID (db_instances db)) \<Longrightarrow> distinct (map in_ID (InstanceViews ids db))"
proof -
  assume "distinct (map in_ID (db_instances db))"
  then have "distinct (map in_ID (filter P (db_instances db)))" for P by (rule distinct_map_filter)
  then have "distinct (map in_ID (sort_key in_ID (filter P (db_instances db))))" for P
    by (simp only: distinct_map distinct_sort set_sort)
  then show ?thesis by (simp only: InstanceViews_def take_map [symmetric] distinct_take)
qed

text \<open>The recomputation changes exactly the rows it reaches.\<close>

lemma recompute_maps:
  assumes "distinct (map in_ID (db_instances db))" and "length (db_instances db) \<le> DefaultInstanceLimit"
  shows "RecomputeConfigHash e ids db =
    db\<lparr>db_instances := map (\<lambda>r. if reached ids db r then restamp e db r r else r) (db_instances db)\<rparr>"
proof -
  let ?rows = "InstanceViews ids db"
  have "fold (restamp e db) ?rows r = (if reached ids db r then restamp e db r r else r)" if r: "r \<in> set (db_instances db)" for r
  proof (cases "reached ids db r")
    case True
    then have "r \<in> set ?rows" using r InstanceViews_set [OF assms(2)] by simp
    then show ?thesis using True fold_restamp_own InstanceViews_distinct [OF assms(1)] by simp
  next
    case False
    have "in_ID r \<notin> in_ID ` set ?rows"
    proof
      assume "in_ID r \<in> in_ID ` set ?rows"
      then obtain s where "s \<in> set (db_instances db)" "reached ids db s" "in_ID s = in_ID r"
        using InstanceViews_set [OF assms(2)] by auto
      with assms(1) r False show False by (metis distinct_map inj_onD)
    qed
    with False show ?thesis by (simp add: fold_restamp_other)
  qed
  then show ?thesis by (simp add: RecomputeConfigHash_def fold_recompute cong: map_cong)
qed

end
