(* ===== verification/Instance_Current.thy ===== *)
theory Instance_Current
  imports Instance_Machine
begin

text \<open>
  The stored hash is current: an invariant of the machine of the instance service, over all its
  events but the writes of downloads, which recompute nothing; and what that omission leaves.
\<close>

subsection \<open>The invariant\<close>

definition has_status :: "inst_db \<Rightarrow> inst \<Rightarrow> bool" where
  "has_status db r \<longleftrightarrow> list_ex (\<lambda>s. sr_InstanceID s = in_ID r) (db_status db)"

definition tables_ok :: "inst_db \<Rightarrow> bool" where
  "tables_ok db \<longleftrightarrow> distinct (map in_ID (db_instances db)) \<and> list_all (has_status db) (db_instances db)
     \<and> list_all (references_exist db) (db_instances db)"

definition all_current :: "(flt \<Rightarrow> string) \<Rightarrow> (string \<Rightarrow> string) \<Rightarrow> inst_db \<Rightarrow> bool" where
  "all_current ff sha db \<longleftrightarrow> list_all (\<lambda>r. Deleted r \<or> current_row ff sha db r) (db_instances db)"

definition hashes_inv :: "(flt \<Rightarrow> string) \<Rightarrow> (string \<Rightarrow> string) \<Rightarrow> nat \<Rightarrow> inst_db \<Rightarrow> bool" where
  "hashes_inv ff sha n db \<longleftrightarrow> tables_ok db \<and> length (db_instances db) \<le> n \<and> all_current ff sha db"

definition same_ids :: "inst_db \<Rightarrow> inst_db \<Rightarrow> bool" where
  "same_ids db db' \<longleftrightarrow> sr_InstanceID ` set (db_status db) = sr_InstanceID ` set (db_status db')
     \<and> db_models db = db_models db' \<and> db_active db = db_active db'"

lemma has_status_set: "has_status db r \<longleftrightarrow> in_ID r \<in> sr_InstanceID ` set (db_status db)"
  unfolding has_status_def list_ex_iff by (metis image_iff)

lemma references_cong: "hash_inputs r = hash_inputs s \<Longrightarrow> db_models db = db_models db' \<Longrightarrow> references_exist db r = references_exist db' s"
  by (simp add: references_exist_def hash_inputs_def)

lemma current_same_models:
  "db_models db = db_models db' \<Longrightarrow> db_active db = db_active db' \<Longrightarrow> current_row ff sha db r = current_row ff sha db' r"
  by (intro current_cong resolveRefs_cong) simp_all

text \<open>An update of rows that leaves alone what the hash reads.\<close>

lemma inv_map_rows:
  assumes inv: "hashes_inv ff sha n db" and same: "same_ids db db'"
    and rows: "db_instances db' = map g (db_instances db)"
    and keeps: "\<And>r. in_ID (g r) = in_ID r \<and> hash_inputs (g r) = hash_inputs r \<and> (Deleted r \<longrightarrow> Deleted (g r))"
    and cur: "\<And>r. r \<in> set (db_instances db) \<Longrightarrow> \<not> Deleted (g r) \<Longrightarrow> current_row ff sha db r \<Longrightarrow> current_row ff sha db' (g r)"
  shows "hashes_inv ff sha n db'"
proof -
  have "map in_ID (db_instances db') = map in_ID (db_instances db)" by (simp add: rows keeps)
  moreover have "has_status db' (g r) = has_status db r" "references_exist db' (g r) = references_exist db r" for r
    using same keeps [of r] references_cong [of "g r" r db' db] by (simp_all add: has_status_set same_ids_def)
  ultimately have "tables_ok db'" using inv by (simp add: hashes_inv_def tables_ok_def list_all_iff) (simp add: rows)
  moreover have "all_current ff sha db'"
    using inv keeps cur by (auto simp: hashes_inv_def all_current_def rows list_all_iff)
  ultimately show ?thesis using inv rows by (simp add: hashes_inv_def)
qed

lemma inv_update_rows:
  assumes "hashes_inv ff sha n db" and "same_ids db db'" and "db_instances db' = map (\<lambda>r. if p r then g r else r) (db_instances db)"
    and "\<And>r. in_ID (g r) = in_ID r \<and> hash_inputs (g r) = hash_inputs r \<and> in_ConfigHash (g r) = in_ConfigHash r
      \<and> (Deleted r \<longrightarrow> Deleted (g r))"
  shows "hashes_inv ff sha n db'"
proof (rule inv_map_rows [OF assms(1-3)])
  fix r
  let ?g = "if p r then g r else r"
  show "in_ID ?g = in_ID r \<and> hash_inputs ?g = hash_inputs r \<and> (Deleted r \<longrightarrow> Deleted ?g)" using assms(4) [of r] by simp
  have k: "hash_inputs r = hash_inputs ?g" "in_ConfigHash r = in_ConfigHash ?g" using assms(4) [of r] by simp_all
  have m: "db_models db = db_models db'" "db_active db = db_active db'" using assms(2) by (simp_all add: same_ids_def)
  assume "current_row ff sha db r"
  then show "current_row ff sha db' ?g" using current_cong [OF k resolveRefs_cong [OF k(1) m(1)] m(2)] by blast
qed

lemma inv_same_rows:
  "hashes_inv ff sha n db \<Longrightarrow> same_ids db db' \<Longrightarrow> db_instances db' = db_instances db \<Longrightarrow> hashes_inv ff sha n db'"
  using inv_update_rows [of ff sha n db db' "\<lambda>_. False" id] by simp

lemma same_ids_simps [simp]:
  "same_ids db db" "same_ids db (svc_event a i db') = same_ids db db'" "same_ids db (update_rows p f db') = same_ids db db'"
  "same_ids db (DeleteTokenInstances i db') = same_ids db db'" "same_ids db (ClearCrashLoopLatch i now db') = same_ids db db'"
proof -
  have "sr_InstanceID ` set (db_status (ClearCrashLoopLatch i now db')) = sr_InstanceID ` set (db_status db')"
    by (metis ClearCrashLoopLatch_fields(4) list.set_map)
  then show "same_ids db (ClearCrashLoopLatch i now db') = same_ids db db'" by (simp add: same_ids_def)
qed (simp_all add: same_ids_def)

subsection \<open>Create and edit\<close>

lemma resolveAndValidate_refs:
  "resolveAndValidate db i = Inr (refs, v, w) \<Longrightarrow> refs = resolveRefs db i \<and> v \<noteq> DraftMismatch"
  by (auto simp: resolveAndValidate_def split: option.splits prod.splits draft_validation.splits)

lemma hashed_row_current:
  assumes "hash_config ff sha r f (resolveRefs db s) (activeRuntime db) = Inr h" and "hash_inputs r = hash_inputs s"
    and "in_Flags r = Some f" and "hash_inputs t = hash_inputs r" and "in_ConfigHash t = h"
  shows "current_row ff sha db t"
proof -
  have "in_Flags t = Some f" using assms(3,4) by (simp add: hash_inputs_def)
  moreover have "resolveRefs db t = resolveRefs db s" using assms(2,4) by (intro resolveRefs_cong) simp_all
  ultimately show ?thesis using assms hash_config_cong [of t r] by (simp add: current_row_def)
qed

lemma Create_adds:
  assumes "Create e p db = Inr (db', w)"
  obtains row public internal where "db_instances db' = db_instances db @ [row]"
    and "db_status db' = db_status db @ [\<lparr>sr_InstanceID = in_ID row, sr_State = ''unknown'', sr_LastChangeAt = se_now e,
       sr_BackoffUntil = None, sr_WindowResetAt = 0\<rparr>]"
    and "db_models db' = db_models db" "db_active db' = db_active db"
    and "in_ID row \<notin> in_ID ` set (db_instances db)" "row_allowed db row" "check_create p = Inr ()"
    and "\<exists>v h. row = (new_row e p public internal)\<lparr>in_DraftValidation := v, in_ConfigHash := h\<rparr> \<and> v \<noteq> DraftMismatch"
    and "current_row (se_float e) (se_sha e) db row"
proof -
  let ?hs = "InstancePortHolders db"
  from assms obtain public internal refs v h db1 db2 where
      check: "check_create p = Inr ()"
      and rv: "resolveAndValidate db (new_row e p public internal) = Inr (refs, v, w)"
      and h: "hash_config (se_float e) (se_sha e) ((new_row e p public internal)\<lparr>in_DraftValidation := v\<rparr>) (cp_Flags p) refs (activeRuntime db) = Inr h"
      and ins: "InsertInstance ((new_row e p public internal)\<lparr>in_DraftValidation := v, in_ConfigHash := h\<rparr>) db = Inr db1"
      and st: "InsertInstanceStatus \<lparr>sr_InstanceID = se_newID e, sr_State = ''unknown'', sr_LastChangeAt = se_now e,
         sr_BackoffUntil = None, sr_WindowResetAt = 0\<rparr> db1 = Inr db2"
      and db': "db' = svc_event ''instance_created'' (se_newID e) db2"
    unfolding Create_def Let_def by (auto simp: bind_res_eq_Inr new_row_def)
  let ?row = "(new_row e p public internal)\<lparr>in_DraftValidation := v, in_ConfigHash := h\<rparr>"
  have rows: "db1 = db\<lparr>db_instances := db_instances db @ [?row]\<rparr>" "row_allowed db ?row" "in_ID ?row \<notin> in_ID ` set (db_instances db)"
    using ins by (auto simp: InsertInstance_def list_ex_iff split: if_splits)
  have "current_row (se_float e) (se_sha e) db ?row"
    using h resolveAndValidate_refs [OF rv] by (intro hashed_row_current [of _ _ "(new_row e p public internal)\<lparr>in_DraftValidation := v\<rparr>" "cp_Flags p" db "new_row e p public internal" h])
      (simp_all add: hash_inputs_def new_row_def)
  then show thesis
    using that [of ?row public internal] rows st db' check resolveAndValidate_refs [OF rv]
    by (auto simp: InsertInstanceStatus_def new_row_def split: if_splits)
qed

text \<open>What no stage of an edit touches.\<close>

definition stage_keeps :: "inst \<Rightarrow> inst \<Rightarrow> bool" where
  "stage_keeps r r' \<longleftrightarrow> in_ID r' = in_ID r \<and> in_Generation r' = in_Generation r \<and> in_DeletedAt r' = in_DeletedAt r
     \<and> in_DesiredState r' = in_DesiredState r \<and> (in_Flags r \<noteq> None \<longrightarrow> in_Flags r' \<noteq> None)"

lemma stage_keeps_refl [simp]: "stage_keeps r r"
  by (simp add: stage_keeps_def)

lemma stage_keeps_chain:
  "stage_keeps a b \<Longrightarrow> stage_keeps b c \<Longrightarrow> stage_keeps c d \<Longrightarrow> stage_keeps d e \<Longrightarrow> stage_keeps e f \<Longrightarrow> stage_keeps a f"
  by (simp add: stage_keeps_def)

lemma stages_keep:
  "patch_name p i db r = Inr r' \<Longrightarrow> stage_keeps r r'"
  "patch_models p r = Inr r' \<Longrightarrow> stage_keeps r r'"
  "patch_modes p r = Inr r' \<Longrightarrow> stage_keeps r r'"
  "patch_flags p r = Inr r' \<Longrightarrow> stage_keeps r r'"
  "patch_own_ports e p i db r = Inr r' \<Longrightarrow> stage_keeps r r'"
proof -
  show "patch_name p i db r = Inr r' \<Longrightarrow> stage_keeps r r'"
    by (auto simp: patch_name_def stage_keeps_def split: option.splits if_splits)
  show "patch_models p r = Inr r' \<Longrightarrow> stage_keeps r r'"
    by (auto simp: patch_models_def stage_keeps_def Let_def split: if_splits)
  show "patch_modes p r = Inr r' \<Longrightarrow> stage_keeps r r'"
    by (auto simp: patch_modes_def stage_keeps_def Let_def split: if_splits)
  show "patch_flags p r = Inr r' \<Longrightarrow> stage_keeps r r'"
    by (auto simp: patch_flags_def stage_keeps_def bind_res_eq_Inr split: option.splits)
  show "patch_own_ports e p i db r = Inr r' \<Longrightarrow> stage_keeps r r'"
    by (auto simp: patch_own_ports_def stage_keeps_def bind_res_eq_Inr)
qed

definition patch_stages :: "svc_env \<Rightarrow> string \<Rightarrow> patch_params \<Rightarrow> inst_db \<Rightarrow> inst \<Rightarrow> svc_error + inst" where
  "patch_stages e i p db r0 = bind_res (patch_name p i db r0) (\<lambda>r1. bind_res (patch_models p r1) (\<lambda>r2.
     bind_res (patch_modes p r2) (\<lambda>r3. bind_res (patch_flags p r3) (\<lambda>r4. patch_own_ports e p i db r4))))"

lemma patch_stages_keep: "patch_stages e i p db r0 = Inr r5 \<Longrightarrow> stage_keeps r0 r5"
  unfolding patch_stages_def bind_res_eq_Inr
  by (elim exE conjE) (rule stage_keeps_chain [OF stages_keep(1) stages_keep(2) stages_keep(3) stages_keep(4) stages_keep(5)])

lemma get_instance_Inr: "get_instance db i = Inr r \<Longrightarrow> r \<in> set (db_instances db) \<and> in_ID r = i"
  by (auto simp: get_instance_def find_Some_iff split: option.splits)

text \<open>The condition of the guarded update.\<close>

definition edit_hits :: "inst \<Rightarrow> inst \<Rightarrow> bool" where
  "edit_hits row r \<longleftrightarrow> in_ID r = in_ID row \<and> in_Generation r = in_Generation row \<and> \<not> Deleted r"

lemma Patch_writes:
  assumes "Patch e i p db = Inr (db', w)"
  obtains r0 r5 row where "get_instance db i = Inr r0" "\<not> Deleted r0" "in_Generation r0 = pt_Generation p"
    and "patch_stages e i p db r0 = Inr r5" and "\<exists>v h. row = r5\<lparr>in_DraftValidation := v, in_ConfigHash := h, in_UpdatedAt := se_now e\<rparr> \<and> v \<noteq> DraftMismatch"
    and "stage_keeps r0 row" "row_allowed db row" "current_row (se_float e) (se_sha e) db row"
    and "db' = svc_event ''instance_updated'' i (update_rows (edit_hits row) (config_of row) db)"
proof -
  from assms obtain r0 r5 refs v h changed db1 where
      r0: "get_instance db i = Inr r0" "\<not> Deleted r0" "in_Generation r0 = pt_Generation p" "in_Flags r0 \<noteq> None"
      and st: "patch_stages e i p db r0 = Inr r5"
      and rv: "resolveAndValidate db r5 = Inr (refs, v, w)"
      and h: "hash_config (se_float e) (se_sha e) (r5\<lparr>in_DraftValidation := v\<rparr>) (valueOr (in_Flags r5) no_flags) refs (activeRuntime db) = Inr h"
      and up: "UpdateInstanceConfig (r5\<lparr>in_DraftValidation := v, in_ConfigHash := h, in_UpdatedAt := se_now e\<rparr>) db = Inr (changed, db1)"
      and "changed" and db': "db' = svc_event ''instance_updated'' i db1"
    unfolding Patch_def patch_stages_def by (auto simp: bind_res_eq_Inr split: if_splits)
  let ?row = "r5\<lparr>in_DraftValidation := v, in_ConfigHash := h, in_UpdatedAt := se_now e\<rparr>"
  have k: "stage_keeps r0 r5" using patch_stages_keep [OF st] .
  then obtain f where f: "in_Flags r5 = Some f" using r0(4) by (auto simp: stage_keeps_def)
  have "db1 = update_rows (edit_hits ?row) (config_of ?row) db \<and> row_allowed db ?row"
    using up \<open>changed\<close> unfolding UpdateInstanceConfig_def Let_def edit_hits_def [abs_def] by (auto split: if_splits)
  moreover have "current_row (se_float e) (se_sha e) db ?row"
    using h f resolveAndValidate_refs [OF rv]
    by (intro hashed_row_current [of _ _ "r5\<lparr>in_DraftValidation := v\<rparr>" f db r5 h]) (simp_all add: hash_inputs_def valueOr_def)
  moreover have "stage_keeps r0 ?row" using k by (simp add: stage_keeps_def)
  ultimately show thesis
    using that [of r0 r5 ?row] r0 st db' resolveAndValidate_refs [OF rv] by blast
qed

subsection \<open>Every event keeps it\<close>

fun is_create :: "svc_ev \<Rightarrow> bool" where
  "is_create (CreateEv e p) = True"
| "is_create _ = False"

fun is_download :: "svc_ev \<Rightarrow> bool" where
  "is_download (DownloadEv e m) = True"
| "is_download _ = False"

text \<open>All events print floats and digest with the same two functions.\<close>

fun uses :: "(flt \<Rightarrow> string) \<Rightarrow> (string \<Rightarrow> string) \<Rightarrow> svc_ev \<Rightarrow> bool" where
  "uses ff sha (CreateEv e p) = (se_float e = ff \<and> se_sha e = sha)"
| "uses ff sha (PatchEv e i p) = (se_float e = ff \<and> se_sha e = sha)"
| "uses ff sha (ScanEv e m) = (se_float e = ff \<and> se_sha e = sha)"
| "uses ff sha (ActivateEv e rt) = (se_float e = ff \<and> se_sha e = sha)"
| "uses ff sha (DownloadEv e m) = (se_float e = ff \<and> se_sha e = sha)"
| "uses ff sha _ = True"

lemma inv_create:
  assumes inv: "hashes_inv ff sha n db" and "Create e p db = Inr (db', w)" and "se_float e = ff" "se_sha e = sha"
  shows "hashes_inv ff sha (Suc n) db'"
proof -
  obtain row where c: "db_instances db' = db_instances db @ [row]" "db_models db' = db_models db" "db_active db' = db_active db"
      "in_ID row \<notin> in_ID ` set (db_instances db)" "row_allowed db row" "current_row (se_float e) (se_sha e) db row"
      and st0: "db_status db' = db_status db @ [\<lparr>sr_InstanceID = in_ID row, sr_State = ''unknown'', sr_LastChangeAt = se_now e,
       sr_BackoffUntil = None, sr_WindowResetAt = 0\<rparr>]"
    by (rule Create_adds [OF assms(2)], rule that)
  note cur = c(6) [unfolded assms(3,4)]
  have st: "sr_InstanceID ` set (db_status db') = insert (in_ID row) (sr_InstanceID ` set (db_status db))" by (simp add: st0)
  have cong: "current_row ff sha db r \<longleftrightarrow> current_row ff sha db' r" "references_exist db r = references_exist db' r" for r
    using c(2,3) by (intro current_same_models references_cong; simp)+
  have "has_status db r \<Longrightarrow> has_status db' r" "has_status db' row" for r using st by (simp_all add: has_status_set)
  moreover have "references_exist db row" using c(5) by (simp add: row_allowed_def)
  ultimately show ?thesis
    using inv c(1,4) cur cong by (auto simp: hashes_inv_def tables_ok_def all_current_def list_all_iff)
qed

lemma inv_patch:
  assumes inv: "hashes_inv ff sha n db" and "Patch e i p db = Inr (db', w)" and "se_float e = ff" "se_sha e = sha"
  shows "hashes_inv ff sha n db'"
proof -
  obtain row where row: "row_allowed db row" "current_row ff sha db row"
      and db': "db' = svc_event ''instance_updated'' i (update_rows (edit_hits row) (config_of row) db)"
    using Patch_writes [OF assms(2)] assms(3,4) by metis
  let ?g = "\<lambda>r. if edit_hits row r then config_of row r else r"
  have ids: "map in_ID (db_instances db') = map in_ID (db_instances db)"
    by (simp add: db' comp_def edit_hits_def config_of_def)
  have hi: "hash_inputs (config_of row r) = hash_inputs row" "in_ConfigHash (config_of row r) = in_ConfigHash row" for r
    by (simp_all add: config_of_def hash_inputs_def)
  have cong: "current_row ff sha db r \<longleftrightarrow> current_row ff sha db' r" "references_exist db r = references_exist db' r"
      "has_status db r = has_status db' r" for r
    by (intro current_same_models references_cong; simp add: db' has_status_set)+ (simp add: db' has_status_set)
  have "current_row ff sha db' (config_of row r)" "references_exist db' (config_of row r)" for r
  proof -
    show "current_row ff sha db' (config_of row r)"
      using row(2) cong(1) [of row] current_cong [of row "config_of row r" db' db' ff sha] hi [of r] resolveRefs_cong [of row "config_of row r" db' db']
      by simp
    show "references_exist db' (config_of row r)"
      using row(1) references_cong [of row "config_of row r" db db'] hi [of r] by (simp add: row_allowed_def db')
  qed
  moreover have "has_status db' (config_of row r) = has_status db' r" if "edit_hits row r" for r
    using that by (simp add: has_status_set edit_hits_def config_of_def)
  ultimately have "list_all (has_status db') (db_instances db')" "list_all (references_exist db') (db_instances db')" "all_current ff sha db'"
    using inv cong by (auto simp: hashes_inv_def tables_ok_def all_current_def list_all_iff db')
  then show ?thesis using inv ids by (simp add: hashes_inv_def tables_ok_def) (simp add: db')
qed

end
