(* ===== verification/Instance_Claims.thy ===== *)
theory Instance_Claims
  imports Instance_Current
begin

text \<open>
  The properties of the instance service: the stored hash is current, and what a download leaves.
\<close>

subsection \<open>Recomputing keeps the invariant\<close>

lemma recompute_inv:
  assumes tab: "tables_ok db" and len: "length (db_instances db) \<le> DefaultInstanceLimit" and n: "length (db_instances db) \<le> n"
    and e: "se_float e = ff" "se_sha e = sha"
    and rows: "\<And>r. r \<in> set (db_instances db) \<Longrightarrow> \<not> Deleted r \<Longrightarrow>
      if ids = [] \<or> in_ID r \<in> set ids then hashable r else current_row ff sha db r"
  shows "hashes_inv ff sha n (RecomputeConfigHash e ids db)"
proof -
  define g where "g r = (if reached ids db r then restamp e db r r else r)" for r
  let ?db = "db\<lparr>db_instances := map g (db_instances db)\<rparr>"
  have eq: "RecomputeConfigHash e ids db = ?db"
    using tab len by (simp add: recompute_maps tables_ok_def g_def)
  have keeps: "in_ID (g r) = in_ID r" "hash_inputs (g r) = hash_inputs r" "Deleted (g r) = Deleted r" for r
    by (simp_all add: Deleted_def g_def)
  have "current_row ff sha ?db (g r)" if r: "r \<in> set (db_instances db)" "\<not> Deleted r" for r
  proof -
    have "current_row ff sha db (g r)"
    proof (cases "ids = [] \<or> in_ID r \<in> set ids")
      case True
      then have "reached ids db r" using tab r by (simp add: reached_def tables_ok_def list_all_iff has_status_def)
      then show ?thesis using rows [OF r] True e restamp_current [of r e ff sha db] r(2) by (simp add: g_def)
    next
      case False
      then show ?thesis using rows [OF r] by (simp add: reached_def g_def)
    qed
    then show ?thesis using current_same_models [of db ?db ff sha "g r"] by simp
  qed
  then have "all_current ff sha ?db" using keeps(3) by (auto simp: all_current_def list_all_iff)
  moreover have "has_status ?db (g r) = has_status db r" "references_exist ?db (g r) = references_exist db r" for r
    using keeps [of r] references_cong [of "g r" r ?db db] by (simp_all add: has_status_def)
  then have "list_all (has_status ?db) (map g (db_instances db))" "list_all (references_exist ?db) (map g (db_instances db))"
    using tab unfolding tables_ok_def by (simp_all add: list_all_iff)
  moreover have "in_ID \<circ> g = in_ID" using keeps(1) by (simp add: fun_eq_iff)
  ultimately show ?thesis
    using tab n unfolding eq hashes_inv_def tables_ok_def by simp
qed

lemma write_model_find:
  "find (\<lambda>x. lm_ID x = i) (db_models (write_model m db)) = (if lm_ID m = i then Some m else find (\<lambda>x. lm_ID x = i) (db_models db))"
proof -
  have map_eq: "find (\<lambda>x. lm_ID x = j) (map (\<lambda>x. if lm_ID x = lm_ID m then m else x) xs) =
      (if lm_ID m = j then (if list_ex (\<lambda>x. lm_ID x = lm_ID m) xs then Some m else None) else find (\<lambda>x. lm_ID x = j) xs)" for xs j
    by (induction xs) auto
  have app_eq: "find P (xs @ [m]) = (case find P xs of None \<Rightarrow> if P m then Some m else None | Some x \<Rightarrow> Some x)" for P xs
    by (induction xs) auto
  have none: "\<not> list_ex (\<lambda>x. lm_ID x = lm_ID m) xs \<Longrightarrow> find (\<lambda>x. lm_ID x = lm_ID m) xs = None" for xs
    by (induction xs) auto
  show ?thesis using none [of "db_models db"] by (auto simp: write_model_def map_eq app_eq split: option.split)
qed

lemma write_model_fields [simp]:
  "db_instances (write_model m db) = db_instances db" "db_status (write_model m db) = db_status db"
  "db_active (write_model m db) = db_active db"
  by (simp_all add: write_model_def)

lemma write_model_references: "references_exist db r \<Longrightarrow> references_exist (write_model m db) r"
proof -
  have ex: "list_ex P xs \<longleftrightarrow> find P xs \<noteq> None" for P and xs :: "local_model list" by (induction xs) auto
  show "references_exist db r \<Longrightarrow> references_exist (write_model m db) r"
    unfolding references_exist_def list_all_iff ex write_model_find by auto
qed

lemma tables_write_model: "tables_ok db \<Longrightarrow> tables_ok (write_model m db)"
  by (auto simp: tables_ok_def list_all_iff has_status_def write_model_references)

text \<open>A row that does not name the model, and any row when nothing of the path has moved.\<close>

lemma pick_write_other:
  "lm_ID m \<notin> set (ref_ids r) \<Longrightarrow> resolveRefs (write_model m db) r = resolveRefs db r"
  by (auto simp: ref_ids_def resolveRefs_def pick_file_def found_model_def resolve_model_def write_model_find List.map_filter_def split: option.splits if_splits)

lemma path_unmoved:
  assumes "\<not> model_moved m db" and "list_ex (\<lambda>x. lm_ID x = lm_ID m) (db_models db)"
  shows "resolveRefs (write_model m db) r = resolveRefs db r"
proof -
  obtain x where x: "find (\<lambda>x. lm_ID x = lm_ID m) (db_models db) = Some x"
    using assms(2) by (cases "find (\<lambda>x. lm_ID x = lm_ID m) (db_models db)") (auto simp: find_None_iff list_ex_iff)
  then have "lm_ID x = lm_ID m" by (auto simp: find_Some_iff)
  then have "map_option (\<lambda>m. \<lparr>mf_ID = mi_ID m, mf_Path = mi_Path m\<rparr>) (resolve_model (write_model m db) i)
      = map_option (\<lambda>m. \<lparr>mf_ID = mi_ID m, mf_Path = mi_Path m\<rparr>) (resolve_model db i)" for i
    using x assms(1) by (cases "lm_ID m = i") (auto simp: resolve_model_def write_model_find model_moved_def)
  then have "pick_file (write_model m db) q = pick_file db q" for q
    by (simp add: pick_file_def found_model_def split: option.split)
  then show ?thesis by (simp add: resolveRefs_def)
qed

subsection \<open>Every event\<close>

lemma InstancesForModels_set:
  "set (InstancesForModels ms db) = in_ID ` {r \<in> set (db_instances db). \<not> Deleted r \<and> (\<exists>m\<in>set ms. m \<in> set (ref_ids r))}"
  by (auto simp: InstancesForModels_def list_ex_iff)

lemma inv_written_model:
  assumes "hashes_inv ff sha n db" and "\<And>r. r \<in> set (db_instances db) \<Longrightarrow> \<not> Deleted r \<Longrightarrow> resolveRefs (write_model m db) r = resolveRefs db r"
  shows "hashes_inv ff sha n (write_model m db)"
proof -
  have "current_row ff sha (write_model m db) r" if "r \<in> set (db_instances db)" "\<not> Deleted r" "current_row ff sha db r" for r
    using that assms(2) [OF that(1,2)] current_cong [of r r db "write_model m db" ff sha] by simp
  with assms(1) show ?thesis by (auto simp: hashes_inv_def all_current_def list_all_iff tables_write_model)
qed

lemma unknown_unreferenced:
  assumes "references_exist db r" and "\<not> list_ex (\<lambda>x. lm_ID x = i) (db_models db)"
  shows "i \<notin> set (ref_ids r)"
  using assms by (auto simp: references_exist_def ref_ids_def list_all_iff)

lemma inv_scan:
  assumes inv: "hashes_inv ff sha n db" and n: "n \<le> DefaultInstanceLimit" and e: "se_float e = ff" "se_sha e = sha"
  shows "hashes_inv ff sha n (scan_writes e m db)"
proof (cases "model_moved m db")
  case False
  have "resolveRefs (write_model m db) r = resolveRefs db r" if "r \<in> set (db_instances db)" for r
  proof (cases "list_ex (\<lambda>x. lm_ID x = lm_ID m) (db_models db)")
    case True
    then show ?thesis using path_unmoved [OF False] by simp
  next
    case no: False
    have "references_exist db r" using inv that by (simp add: hashes_inv_def tables_ok_def list_all_iff)
    then show ?thesis using pick_write_other unknown_unreferenced no by blast
  qed
  then show ?thesis using inv_written_model [OF inv] False by (simp add: scan_writes_def)
next
  case True
  let ?db = "write_model m db"
  let ?ids = "InstancesForModels [lm_ID m] ?db"
  have other: "resolveRefs ?db r = resolveRefs db r" if "r \<in> set (db_instances db)" "\<not> Deleted r" "in_ID r \<notin> set ?ids" for r
    using that pick_write_other [of m r db] by (auto simp: InstancesForModels_set)
  show ?thesis
  proof (cases "?ids = []")
    case True
    then show ?thesis using inv_written_model [OF inv] other \<open>model_moved m db\<close> by (simp add: scan_writes_def recomputeFor_def)
  next
    case False
    have "hashes_inv ff sha n (RecomputeConfigHash e ?ids ?db)"
    proof (rule recompute_inv)
      fix r assume r: "r \<in> set (db_instances ?db)" "\<not> Deleted r"
      then have cur: "current_row ff sha db r" using inv by (auto simp: hashes_inv_def all_current_def list_all_iff)
      then show "if ?ids = [] \<or> in_ID r \<in> set ?ids then hashable r else current_row ff sha ?db r"
        using r other [of r] current_hashable [OF cur] current_cong [of r r db ?db ff sha] False by auto
    qed (use inv n e in \<open>auto simp: hashes_inv_def tables_write_model\<close>)
    then show ?thesis using True False by (simp add: scan_writes_def recomputeFor_def)
  qed
qed

lemma inv_activate:
  assumes inv: "hashes_inv ff sha n db" and n: "n \<le> DefaultInstanceLimit" and e: "se_float e = ff" "se_sha e = sha"
  shows "hashes_inv ff sha n (activate_tx e rt db)"
  unfolding activate_tx_def
proof (rule recompute_inv)
  fix r assume "r \<in> set (db_instances (db\<lparr>db_active := rt\<rparr>))" "\<not> Deleted r"
  then have "current_row ff sha db r" using inv by (auto simp: hashes_inv_def all_current_def list_all_iff)
  then show "if [] = [] \<or> in_ID r \<in> set [] then hashable r else current_row ff sha (db\<lparr>db_active := rt\<rparr>) r"
    using current_hashable by simp
qed (use inv n e in \<open>auto simp: hashes_inv_def tables_ok_def list_all_iff has_status_def references_exist_def\<close>)

lemma inv_purge:
  assumes "hashes_inv ff sha n db"
  shows "hashes_inv ff sha n (PurgeInstance i db)"
proof -
  let ?db = "PurgeInstance i db"
  have rows: "db_instances ?db = filter (\<lambda>r. in_ID r \<noteq> i) (db_instances db)" by (simp add: PurgeInstance_def)
  have "current_row ff sha db r \<longleftrightarrow> current_row ff sha ?db r" "references_exist db r \<longleftrightarrow> references_exist ?db r" for r
    by (intro current_same_models references_cong; simp add: PurgeInstance_def)+
  moreover have "in_ID r \<noteq> i \<Longrightarrow> has_status db r \<Longrightarrow> has_status ?db r" for r
    by (auto simp: has_status_def list_ex_iff PurgeInstance_def)
  moreover have "length (db_instances ?db) \<le> n"
    using assms by (auto simp: rows hashes_inv_def intro: le_trans [OF length_filter_le])
  ultimately show ?thesis
    using assms by (auto simp: hashes_inv_def tables_ok_def all_current_def list_all_iff rows distinct_map_filter)
qed

lemma inv_rows:
  "hashes_inv ff sha n db \<Longrightarrow> (\<And>r. in_ID (g r) = in_ID r \<and> hash_inputs (g r) = hash_inputs r \<and> in_ConfigHash (g r) = in_ConfigHash r
      \<and> (Deleted r \<longrightarrow> Deleted (g r))) \<Longrightarrow> hashes_inv ff sha n (update_rows p g db)"
  by (erule inv_update_rows [where p = p and g = g]) simp_all

lemma inv_writes:
  assumes "hashes_inv ff sha n db"
  shows "hashes_inv ff sha n (SetInstanceDesiredState i d at db)" "hashes_inv ff sha n (StampPendingStart i trg ov at db)"
    "hashes_inv ff sha n (SetInstanceAutostart i on at db)" "hashes_inv ff sha n (SetInstanceDraftValidation i v at db)"
    "hashes_inv ff sha n (SoftDeleteInstance i at db)"
  unfolding service_writes by (rule inv_rows [OF assms]; simp add: hash_inputs_def Deleted_def)+

lemma inv_records:
  assumes "hashes_inv ff sha n db"
  shows "hashes_inv ff sha n (svc_event a i db)" "hashes_inv ff sha n (DeleteTokenInstances i db)"
    "hashes_inv ff sha n (ClearCrashLoopLatch i at db)"
  by (rule inv_same_rows [OF assms]; simp)+

lemma inv_reassign: "hashes_inv ff sha n db \<Longrightarrow> ReassignInternalPort i port at db = Inr db' \<Longrightarrow> hashes_inv ff sha n db'"
  by (auto simp: ReassignInternalPort_def hash_inputs_def Deleted_def split: if_splits intro!: inv_rows)

lemma inv_take: "hashes_inv ff sha n db \<Longrightarrow> TakePendingStart i db = Inr (x, db') \<Longrightarrow> hashes_inv ff sha n db'"
  by (auto simp: TakePendingStart_def bind_res_eq_Inr hash_inputs_def Deleted_def split: if_splits intro!: inv_rows)

lemma inv_mono: "hashes_inv ff sha n db \<Longrightarrow> n \<le> m \<Longrightarrow> hashes_inv ff sha m db"
  by (simp add: hashes_inv_def)

lemma svc_step_inv:
  assumes "\<not> is_download ev" and "uses ff sha ev" and inv: "hashes_inv ff sha n db"
    and n: "n + (if is_create ev then 1 else 0) \<le> DefaultInstanceLimit"
  shows "hashes_inv ff sha (n + (if is_create ev then 1 else 0)) (svc_step ev db)"
proof (cases ev)
  case (CreateEv e p)
  then show ?thesis using assms inv_create [OF inv] inv_mono [OF inv, of "Suc n"] by (auto simp: committed_def split: sum.split)
next
  case (PatchEv e i p)
  then show ?thesis using assms inv_patch [OF inv] by (auto simp: committed_def split: sum.split)
next
  case (DeleteEv i purge keep now)
  then show ?thesis using inv by (simp add: delete_write_def Let_def inv_writes inv_records inv_purge)
next
  case (ScanEv e m)
  then show ?thesis using assms inv_scan [OF inv] by simp
next
  case (ActivateEv e rt)
  then show ?thesis using assms inv_activate [OF inv] by simp
next
  case (ReassignEv i port now)
  then show ?thesis using inv inv_reassign by (auto simp: committed_def split: sum.split)
next
  case (TakePendingEv i)
  then show ?thesis using inv inv_take by (auto simp: committed_def split: sum.split)
qed (use assms in \<open>auto simp: committed_def SetDesiredState_def SafeStart_def ResetFailed_def SetAutostart_def Let_def
  bind_res_eq_Inr inv_writes inv_records split: sum.split if_splits\<close>)

lemma svc_run_inv:
  "list_all (\<lambda>ev. \<not> is_download ev \<and> uses ff sha ev) es \<Longrightarrow> hashes_inv ff sha n db
    \<Longrightarrow> n + length (filter is_create es) \<le> DefaultInstanceLimit
    \<Longrightarrow> hashes_inv ff sha (n + length (filter is_create es)) (run svc_step es db)"
proof (induction es arbitrary: n db)
  case (Cons ev es)
  from Cons.prems have "hashes_inv ff sha (n + (if is_create ev then 1 else 0)) (svc_step ev db)"
    by (intro svc_step_inv) (auto split: if_splits)
  from Cons.IH [OF _ this] Cons.prems show ?case by (auto split: if_splits)
qed simp

text \<open>
  C1. The stored hash of a live instance is always the hash of its configuration as it is now:
  after any sequence of creations, edits, deletions, starts, port reassignments, catalog scans and
  activations, with at most 500 instances ever created, every live row carries the hash that
  rendering it against the models and the build of this moment gives.
\<close>

theorem the_stored_hash_is_current:
  assumes "list_all (\<lambda>ev. \<not> is_download ev \<and> uses ff sha ev) es" and "length (filter is_create es) \<le> 500"
  shows "list_all (\<lambda>r. Deleted r \<or> current_row ff sha (run svc_step es empty_db) r) (db_instances (run svc_step es empty_db))"
proof -
  have "hashes_inv ff sha 0 empty_db" by (simp add: hashes_inv_def tables_ok_def all_current_def empty_db_def)
  from svc_run_inv [OF assms(1) this] assms(2) show ?thesis
    by (simp add: hashes_inv_def all_current_def DefaultInstanceLimit_def)
qed

end
