(* ===== verification/Instance_Edits.thy ===== *)
theory Instance_Edits
  imports Instance_Current
begin

text \<open>
  What the generation of an instance promises an editor, over all events of the machine.
\<close>

subsection \<open>The row of an instance across an event\<close>

text \<open>The columns an edit may change, but for the internal port, which the supervisor moves too.\<close>

definition edited :: "inst \<Rightarrow> (string \<times> string \<times> string option \<times> string option) \<times>
    (string \<times> string option \<times> string option \<times> string option \<times> flag_set option) \<times> int \<times> string \<times> string \<times> int \<times> int" where
  "edited r = ((in_Name r, in_UnitName r, in_DisplayName r, in_Description r), hash_inputs r, in_PublicPort r,
     in_AuthMode r, in_RestartPolicy r, in_RestartMax r, in_RestartWindowSec r)"

definition row_kept :: "string \<Rightarrow> inst_db \<Rightarrow> inst_db \<Rightarrow> bool" where
  "row_kept i db db' \<longleftrightarrow> (\<forall>r'. get_instance db' i = Inr r' \<longrightarrow>
     (\<exists>r. get_instance db i = Inr r \<and> in_Generation r' = in_Generation r \<and> edited r' = edited r))"

lemma row_kept_refl: "row_kept i db db"
  by (simp add: row_kept_def)

lemma row_kept_trans: "row_kept i db db1 \<Longrightarrow> row_kept i db1 db2 \<Longrightarrow> row_kept i db db2"
  unfolding row_kept_def by metis

lemma get_instance_map:
  assumes "db_instances db' = map g (db_instances db)" and "\<And>r. in_ID (g r) = in_ID r"
  shows "get_instance db' i = (case get_instance db i of Inl e \<Rightarrow> Inl e | Inr r \<Rightarrow> Inr (g r))"
proof -
  have "find (\<lambda>r. in_ID r = i) (map g xs) = map_option g (find (\<lambda>r. in_ID r = i) xs)" for xs
    using assms(2) by (induction xs) auto
  then show ?thesis by (simp add: get_instance_def assms(1) split: option.split)
qed

lemma row_kept_map:
  assumes "db_instances db' = map g (db_instances db)"
    and "\<And>r. in_ID (g r) = in_ID r \<and> in_Generation (g r) = in_Generation r \<and> edited (g r) = edited r"
  shows "row_kept i db db'"
  using get_instance_map [OF assms(1), of i] assms(2) by (auto simp: row_kept_def split: sum.splits)

lemma row_kept_same: "db_instances db' = db_instances db \<Longrightarrow> row_kept i db db'"
  by (simp add: row_kept_def get_instance_def)

lemma row_kept_rows:
  "(\<And>r. in_ID (g r) = in_ID r \<and> in_Generation (g r) = in_Generation r \<and> edited (g r) = edited r) \<Longrightarrow> row_kept i db (update_rows p g db)"
  by (rule row_kept_map [where g = "\<lambda>r. if p r then g r else r"]) simp_all

lemma row_kept_writes:
  "row_kept i db (SetInstanceDesiredState j d at db)" "row_kept i db (StampPendingStart j trg ov at db)"
  "row_kept i db (SetInstanceAutostart j on at db)" "row_kept i db (SetInstanceDraftValidation j v at db)"
  "row_kept i db (SoftDeleteInstance j at db)"
  unfolding service_writes by (rule row_kept_rows; simp add: edited_def hash_inputs_def)+

lemma row_kept_records:
  "row_kept i db (svc_event a j db)" "row_kept i db (DeleteTokenInstances j db)" "row_kept i db (ClearCrashLoopLatch j at db)"
  "row_kept i db (write_model m db)" "row_kept i db (db\<lparr>db_active := rt\<rparr>)"
  by (rule row_kept_same; simp add: write_model_def)+

lemma row_kept_reassign: "ReassignInternalPort j port at db = Inr db' \<Longrightarrow> row_kept i db db'"
  by (auto simp: ReassignInternalPort_def edited_def hash_inputs_def split: if_splits intro!: row_kept_rows)

lemma row_kept_take: "TakePendingStart j db = Inr (x, db') \<Longrightarrow> row_kept i db db'"
  by (auto simp: TakePendingStart_def bind_res_eq_Inr edited_def hash_inputs_def row_kept_refl split: if_splits intro!: row_kept_rows)

lemma row_kept_recompute: "row_kept i db (RecomputeConfigHash e ids db)"
proof -
  have one: "in_ID (restamp e db s r) = in_ID r \<and> in_Generation (restamp e db s r) = in_Generation r \<and> edited (restamp e db s r) = edited r" for s r
    by (auto simp: restamp_def edited_def hash_inputs_def split: option.split)
  have "in_ID (fold (restamp e db) rows r) = in_ID r \<and> in_Generation (fold (restamp e db) rows r) = in_Generation r
      \<and> edited (fold (restamp e db) rows r) = edited r" for rows r
    using one by (induction rows arbitrary: r) simp_all
  then show ?thesis
    by (intro row_kept_map [where g = "fold (restamp e db) (InstanceViews ids db)"]) (simp_all add: RecomputeConfigHash_def fold_recompute)
qed

lemma row_kept_recomputeFor: "row_kept i db (recomputeFor e ms db)"
  by (simp add: recomputeFor_def Let_def row_kept_refl row_kept_recompute)

lemma row_kept_purge: "row_kept i db (PurgeInstance j db)"
proof -
  have "find (\<lambda>r. in_ID r = i) (filter (\<lambda>r. in_ID r \<noteq> j) xs) = (if i = j then None else find (\<lambda>r. in_ID r = i) xs)" for xs :: "inst list"
    by (induction xs) auto
  then show ?thesis by (auto simp: row_kept_def get_instance_def PurgeInstance_def DeleteTokenInstances_def split: if_splits option.splits)
qed

lemmas row_kept_chain = row_kept_trans [OF _ row_kept_writes(1)] row_kept_trans [OF _ row_kept_writes(2)]
  row_kept_trans [OF _ row_kept_writes(5)] row_kept_trans [OF _ row_kept_records(1)] row_kept_trans [OF _ row_kept_records(2)]
  row_kept_trans [OF _ row_kept_records(3)] row_kept_trans [OF _ row_kept_writes(3)] row_kept_trans [OF _ row_kept_purge]

lemma row_kept_delete: "row_kept i db (delete_write j purge keep now db)"
  by (auto simp: delete_write_def Let_def row_kept_refl intro!: row_kept_chain)

lemma row_kept_create:
  assumes "Create e p db = Inr (db', w)" and "se_newID e \<noteq> i"
  shows "row_kept i db db'"
proof -
  obtain row public internal v h where rows: "db_instances db' = db_instances db @ [row]"
      and row: "row = (new_row e p public internal)\<lparr>in_DraftValidation := v, in_ConfigHash := h\<rparr>"
    by (rule Create_adds [OF assms(1)], elim exE conjE, rule that)
  have "in_ID row \<noteq> i" using assms(2) by (simp add: row new_row_def)
  then have "find (\<lambda>r. in_ID r = i) (xs @ [row]) = find (\<lambda>r. in_ID r = i) xs" for xs by (induction xs) auto
  then show ?thesis by (simp add: row_kept_def get_instance_def rows)
qed

subsection \<open>Edits\<close>

fun accepts :: "string \<Rightarrow> svc_ev \<Rightarrow> inst_db \<Rightarrow> bool" where
  "accepts i (PatchEv e j p) db = (j = i \<and> (case Patch e j p db of Inl _ \<Rightarrow> False | Inr _ \<Rightarrow> True))"
| "accepts i _ db = False"

fun read_at :: "svc_ev \<Rightarrow> int" where
  "read_at (PatchEv e j p) = pt_Generation p"
| "read_at _ = 0"

fun mints :: "string \<Rightarrow> svc_ev \<Rightarrow> bool" where
  "mints i (CreateEv e p) = (se_newID e = i)"
| "mints i _ = False"

text \<open>The generations at which the accepted edits of an instance were read, in order.\<close>

fun accepted :: "string \<Rightarrow> svc_ev list \<Rightarrow> inst_db \<Rightarrow> int list" where
  "accepted i [] db = []"
| "accepted i (ev # es) db = (if accepts i ev db then [read_at ev] else []) @ accepted i es (svc_step ev db)"

lemma patch_row:
  assumes "Patch e j p db = Inr (db', w)"
  shows "i \<noteq> j \<Longrightarrow> row_kept i db db'"
    and "\<exists>r r'. get_instance db j = Inr r \<and> in_Generation r = pt_Generation p \<and> get_instance db' j = Inr r'
      \<and> in_Generation r' = in_Generation r + 1"
proof -
  obtain r0 row where r0: "get_instance db j = Inr r0" "\<not> Deleted r0" "in_Generation r0 = pt_Generation p" "stage_keeps r0 row"
      and db': "db' = svc_event ''instance_updated'' j (update_rows (edit_hits row) (config_of row) db)"
    by (rule Patch_writes [OF assms], rule that)
  let ?g = "\<lambda>r. if edit_hits row r then config_of row r else r"
  have idj: "in_ID r0 = j" using get_instance_Inr [OF r0(1)] by simp
  have ids: "in_ID (?g r) = in_ID r" for r by (simp add: edit_hits_def config_of_def)
  note get = get_instance_map [of db' ?g db, OF _ ids]
  have rows: "db_instances db' = map ?g (db_instances db)" by (simp add: db')
  have "edit_hits row r0" using r0 by (simp add: edit_hits_def stage_keeps_def)
  then show "\<exists>r r'. get_instance db j = Inr r \<and> in_Generation r = pt_Generation p \<and> get_instance db' j = Inr r'
      \<and> in_Generation r' = in_Generation r + 1"
    using get [OF rows, of j] r0(1,3) by (simp add: config_of_def)
  assume "i \<noteq> j"
  have "?g r = r" if "get_instance db i = Inr r" for r
    using that get_instance_Inr [of db i r] \<open>i \<noteq> j\<close> r0(4) idj by (auto simp: edit_hits_def stage_keeps_def)
  then show "row_kept i db db'" using get [OF rows, of i] by (auto simp: row_kept_def split: sum.splits)
qed

lemma step_row_kept:
  assumes "\<not> mints i ev" and "\<not> accepts i ev db"
  shows "row_kept i db (svc_step ev db)"
proof (cases ev)
  case (CreateEv e p)
  then show ?thesis using assms row_kept_create by (auto simp: committed_def row_kept_refl split: sum.split)
next
  case (PatchEv e j p)
  show ?thesis
  proof (cases "Patch e j p db")
    case (Inr x)
    then have "i \<noteq> j" using assms(2) PatchEv by auto
    then have "row_kept i db (fst x)" using patch_row(1) [of e j p db "fst x" "snd x" i] Inr by simp
    then show ?thesis by (simp add: PatchEv Inr committed_def)
  qed (simp add: PatchEv committed_def row_kept_refl)
next
  case (ScanEv e m)
  have "row_kept i db (write_model m db)" by (rule row_kept_records)
  then show ?thesis using row_kept_trans row_kept_recomputeFor by (simp add: ScanEv scan_writes_def)
next
  case (ActivateEv e rt)
  then show ?thesis using row_kept_trans [OF row_kept_records(5) row_kept_recompute] by (simp add: activate_tx_def)
next
  case (DownloadEv e m)
  then show ?thesis using row_kept_trans [OF row_kept_records(4) row_kept_recompute]
    by (simp add: download_writes_def download_recompute_def)
next
  case (DeleteEv j purge keep now)
  then show ?thesis by (simp add: row_kept_delete)
next
  case (ReassignEv j port now)
  then show ?thesis using row_kept_reassign by (auto simp: committed_def row_kept_refl split: sum.split)
next
  case (TakePendingEv j)
  then show ?thesis using row_kept_take by (auto simp: committed_def row_kept_refl split: sum.split)
qed (auto simp: committed_def SetDesiredState_def SafeStart_def ResetFailed_def SetAutostart_def Let_def bind_res_eq_Inr
  row_kept_refl row_kept_writes intro!: row_kept_chain split: sum.split if_splits)

lemma step_accepts:
  assumes "accepts i ev db"
  shows "\<exists>r r'. get_instance db i = Inr r \<and> in_Generation r = read_at ev \<and> get_instance (svc_step ev db) i = Inr r'
      \<and> in_Generation r' = in_Generation r + 1"
proof (cases ev)
  case (PatchEv e j p)
  with assms obtain db' w where "Patch e j p db = Inr (db', w)" and "j = i" by (auto split: sum.splits)
  with patch_row(2) [of e j p db db' w] PatchEv show ?thesis by (simp add: committed_def)
qed (use assms in simp_all)

lemma no_row_no_edit:
  "get_instance db i = Inl e \<Longrightarrow> list_all (\<lambda>ev. \<not> mints i ev) es
    \<Longrightarrow> accepted i es db = [] \<and> (\<exists>e'. get_instance (run svc_step es db) i = Inl e')"
proof (induction es arbitrary: db e)
  case (Cons ev es)
  then have na: "\<not> accepts i ev db" using step_accepts by fastforce
  with Cons.prems have "row_kept i db (svc_step ev db)" using step_row_kept by simp
  with Cons.prems(1) obtain e' where "get_instance (svc_step ev db) i = Inl e'"
    unfolding row_kept_def by (metis Inl_Inr_False sum.exhaust)
  with Cons na show ?case by simp
qed auto


end
