(* ===== verification/Instance_Rows.thy ===== *)
theory Instance_Rows
  imports Instance_Edits
begin

text \<open>
  What every row of the instances table is, whatever has been done to it: a configuration that
  passes the checks of a save, so that rendering it needs nothing but a resolved model.
\<close>

subsection \<open>One row\<close>

definition config_good :: "inst \<Rightarrow> bool" where
  "config_good r \<longleftrightarrow> in_UnitName r = UnitName (in_Name r)
     \<and> (case in_Flags r of None \<Rightarrow> False | Some f \<Rightarrow> ValidateFlags f = None)
     \<and> (case ParseExtraFlags (in_ExtraFlags r) of Inl _ \<Rightarrow> False | Inr _ \<Rightarrow> True)
     \<and> (case in_ModelID r of None \<Rightarrow> False | Some m \<Rightarrow> m \<noteq> [])"

definition columns_good :: "inst \<Rightarrow> bool" where
  "columns_good r \<longleftrightarrow> ValidateName (in_Name r) \<and> port_number (in_PublicPort r) \<and> port_number (in_InternalPort r)
     \<and> in_AuthMode r \<in> set AuthModeValues \<and> in_RestartPolicy r \<in> set RestartPolicyValues"

definition wanted_good :: "inst \<Rightarrow> bool" where
  "wanted_good r \<longleftrightarrow> (if Deleted r then in_DesiredState r = ''stopped'' else in_DesiredState r \<in> set DesiredStateValues)"

definition row_good :: "inst \<Rightarrow> bool" where
  "row_good r \<longleftrightarrow> config_good r \<and> columns_good r \<and> wanted_good r"

text \<open>Two rows: different, and no name or port shared while both are live.\<close>

definition apart :: "inst \<Rightarrow> inst \<Rightarrow> bool" where
  "apart r s \<longleftrightarrow> in_ID r \<noteq> in_ID s \<and> (Deleted r \<or> Deleted s
     \<or> (in_Name r \<noteq> in_Name s \<and> in_PublicPort r \<noteq> in_PublicPort s \<and> in_InternalPort r \<noteq> in_InternalPort s))"

definition rows_good :: "inst_db \<Rightarrow> bool" where
  "rows_good db \<longleftrightarrow> list_all row_good (db_instances db) \<and> sorted_wrt apart (db_instances db)"

lemma rows_good_map:
  assumes "rows_good db" and "db_instances db' = map g (db_instances db)"
    and "\<And>r. r \<in> set (db_instances db) \<Longrightarrow> row_good r \<Longrightarrow> row_good (g r)"
    and "\<And>r s. r \<in> set (db_instances db) \<Longrightarrow> s \<in> set (db_instances db) \<Longrightarrow> apart r s \<Longrightarrow> apart (g r) (g s)"
  shows "rows_good db'"
  using assms sorted_wrt_mono_rel [of "db_instances db" apart "\<lambda>r s. apart (g r) (g s)"]
  by (auto simp: rows_good_def list_all_iff sorted_wrt_map)

text \<open>Writes that touch neither the configuration nor a name or port.\<close>

lemma rows_good_update:
  assumes "rows_good db"
    and "\<And>r. in_ID (g r) = in_ID r \<and> edited (g r) = edited r \<and> in_InternalPort (g r) = in_InternalPort r"
    and "\<And>r. wanted_good r \<Longrightarrow> p r \<Longrightarrow> wanted_good (g r)" and "\<And>r. Deleted r \<Longrightarrow> Deleted (g r)"
  shows "rows_good (update_rows p g db)"
proof (rule rows_good_map [OF assms(1)])
  fix r assume "row_good r"
  then show "row_good (if p r then g r else r)"
    using assms(2,3) [of r] by (simp add: row_good_def config_good_def columns_good_def edited_def hash_inputs_def)
next
  fix r s assume "apart r s"
  then show "apart (if p r then g r else r) (if p s then g s else s)"
    using assms(2,4) [of r] assms(2,4) [of s] by (auto simp: apart_def edited_def)
qed simp

lemma rows_good_same: "rows_good db \<Longrightarrow> db_instances db' = db_instances db \<Longrightarrow> rows_good db'"
  by (simp add: rows_good_def)

lemma rows_good_records:
  assumes "rows_good db"
  shows "rows_good (svc_event a i db)" "rows_good (DeleteTokenInstances i db)" "rows_good (ClearCrashLoopLatch i at db)"
    "rows_good (write_model m db)" "rows_good (db\<lparr>db_active := rt\<rparr>)"
  by (rule rows_good_same [OF assms]; simp add: write_model_def)+

lemma stopped_is_wanted: "''stopped'' \<in> set DesiredStateValues"
  by (simp add: DesiredStateValues_def)

lemma rows_good_writes:
  assumes "rows_good db"
  shows "rows_good (StampPendingStart i trg ov at db)" "rows_good (SetInstanceAutostart i on at db)"
    "rows_good (SetInstanceDraftValidation i v at db)" "rows_good (SoftDeleteInstance i at db)"
    "rows_good (SetInstanceDesiredState i ''stopped'' at db)"
  unfolding service_writes
  by (rule rows_good_update [OF assms]; simp add: edited_def hash_inputs_def wanted_good_def Deleted_def stopped_is_wanted)+

text \<open>Only a live instance is asked to run.\<close>

lemma rows_good_desired:
  assumes "rows_good db" and "live_instance db i = Inr r" and "d \<in> set DesiredStateValues"
  shows "rows_good (SetInstanceDesiredState i d at db)"
proof -
  have r: "r \<in> set (db_instances db)" "in_ID r = i" "\<not> Deleted r"
    using assms(2) get_instance_Inr by (auto simp: live_instance_def bind_res_eq_Inr split: if_splits)
  have "s = r" if "s \<in> set (db_instances db)" "in_ID s = i" for s
  proof -
    have "distinct (map in_ID (db_instances db))"
      using assms(1) by (auto simp: rows_good_def distinct_conv_nth sorted_wrt_iff_nth_less apart_def) (metis linorder_neqE_nat)
    then show ?thesis using that r by (metis distinct_map inj_onD)
  qed
  then show ?thesis
    unfolding SetInstanceDesiredState_def using assms(3) r(3)
    by (intro rows_good_map [OF assms(1), where g = "\<lambda>r. if in_ID r = i then r\<lparr>in_DesiredState := d, in_UpdatedAt := at\<rparr> else r"])
      (auto simp: row_good_def config_good_def columns_good_def wanted_good_def apart_def Deleted_def)
qed

lemma rows_good_reassign: "rows_good db \<Longrightarrow> ReassignInternalPort i port at db = Inr db' \<Longrightarrow> rows_good db'"
  by (erule rows_good_map [where g = "\<lambda>r. if in_ID r = i \<and> \<not> Deleted r then r\<lparr>in_InternalPort := port, in_UpdatedAt := at\<rparr> else r"])
    (auto simp: ReassignInternalPort_def row_good_def config_good_def columns_good_def wanted_good_def apart_def Deleted_def list_ex_iff
      split: if_splits)

lemma rows_good_take: "rows_good db \<Longrightarrow> TakePendingStart i db = Inr (x, db') \<Longrightarrow> rows_good db'"
  by (auto simp: TakePendingStart_def bind_res_eq_Inr edited_def hash_inputs_def wanted_good_def Deleted_def split: if_splits
    intro!: rows_good_update)

lemma rows_good_recompute:
  assumes "rows_good db"
  shows "rows_good (RecomputeConfigHash e ids db)"
proof -
  define same where "same r r' \<longleftrightarrow> in_ID r' = in_ID r \<and> edited r' = edited r \<and> in_InternalPort r' = in_InternalPort r
    \<and> in_DeletedAt r' = in_DeletedAt r \<and> in_DesiredState r' = in_DesiredState r" for r r' :: inst
  have one: "same r (restamp e db s r)" for s r
    by (auto simp: same_def restamp_def edited_def hash_inputs_def split: option.split)
  have "same r (fold (restamp e db) rows r)" for rows r
  proof (induction rows arbitrary: r)
    case (Cons s rows)
    from Cons [of "restamp e db s r"] one [of r s] show ?case by (simp add: same_def)
  qed (simp add: same_def)
  then show ?thesis
    by (intro rows_good_map [OF assms, where g = "fold (restamp e db) (InstanceViews ids db)"])
      (simp_all add: RecomputeConfigHash_def fold_recompute same_def edited_def hash_inputs_def row_good_def config_good_def
        columns_good_def wanted_good_def apart_def Deleted_def)
qed

lemma rows_good_purge: "rows_good db \<Longrightarrow> rows_good (PurgeInstance i db)"
  by (simp add: rows_good_def PurgeInstance_def DeleteTokenInstances_def list_all_iff sorted_wrt_filter)

subsection \<open>Creating and editing\<close>

lemma config_good_cong: "edited r = edited s \<Longrightarrow> config_good r = config_good s"
  by (simp add: edited_def hash_inputs_def config_good_def)

lemma check_create_config:
  assumes "check_create p = Inr ()"
  shows "config_good ((new_row e p public internal)\<lparr>in_DraftValidation := v, in_ConfigHash := h\<rparr>)"
proof -
  have "ValidateFlags (cp_Flags p) = None" "\<exists>ws. ParseExtraFlags (cp_ExtraFlags p) = Inr ws" "cp_ModelID p \<noteq> []"
    using assms by (auto simp: check_create_def bind_res_eq_Inr split: option.splits)
  then show ?thesis by (auto simp: config_good_def new_row_def)
qed

lemma allowed_columns: "row_allowed db r \<Longrightarrow> columns_good r"
  by (simp add: row_allowed_def columns_good_def)

lemma allowed_apart:
  assumes "row_allowed db r" and "in_DeletedAt r = None" and "s \<in> set (db_instances db)" and "in_ID s \<noteq> in_ID r"
  shows "apart s r" and "apart r s"
  using assms by (auto simp: row_allowed_def apart_def list_all_iff)

lemma rows_good_create:
  assumes "rows_good db" and "Create e p db = Inr (db', w)"
  shows "rows_good db'"
proof -
  obtain row public internal v h where rows: "db_instances db' = db_instances db @ [row]" and new: "in_ID row \<notin> in_ID ` set (db_instances db)"
      and ok: "row_allowed db row" and p: "check_create p = Inr ()"
      and row: "row = (new_row e p public internal)\<lparr>in_DraftValidation := v, in_ConfigHash := h\<rparr>"
    by (rule Create_adds [OF assms(2)], elim exE conjE, rule that)
  have live: "in_DeletedAt row = None" "in_DesiredState row = ''stopped''" by (simp_all add: row new_row_def)
  then have "row_good row"
    using check_create_config [OF p] allowed_columns [OF ok] by (simp add: row row_good_def wanted_good_def stopped_is_wanted)
  moreover have "apart s row" if "s \<in> set (db_instances db)" for s
  proof -
    have "in_ID s \<noteq> in_ID row" using new that by (metis image_eqI)
    then show ?thesis using allowed_apart(1) [OF ok live(1) that] by simp
  qed
  ultimately show ?thesis using assms(1) by (auto simp: rows_good_def rows sorted_wrt_append)
qed

lemma stages_config:
  "patch_name p i db r = Inr r' \<Longrightarrow> config_good r \<Longrightarrow> config_good r'"
  "patch_models p r = Inr r' \<Longrightarrow> config_good r \<Longrightarrow> config_good r'"
  "patch_modes p r = Inr r' \<Longrightarrow> config_good r \<Longrightarrow> config_good r'"
  "patch_flags p r = Inr r' \<Longrightarrow> config_good r \<Longrightarrow> config_good r'"
  "patch_own_ports e p i db r = Inr r' \<Longrightarrow> config_good r \<Longrightarrow> config_good r'"
proof -
  show "patch_name p i db r = Inr r' \<Longrightarrow> config_good r \<Longrightarrow> config_good r'"
    by (auto simp: patch_name_def config_good_def split: option.splits if_splits)
  show "patch_models p r = Inr r' \<Longrightarrow> config_good r \<Longrightarrow> config_good r'"
    by (auto simp: patch_models_def config_good_def Let_def split: option.splits if_splits)
  show "patch_modes p r = Inr r' \<Longrightarrow> config_good r \<Longrightarrow> config_good r'"
    by (auto simp: patch_modes_def config_good_def Let_def split: if_splits)
  show "patch_flags p r = Inr r' \<Longrightarrow> config_good r \<Longrightarrow> config_good r'"
    by (auto simp: patch_flags_def config_good_def bind_res_eq_Inr split: option.splits)
  show "patch_own_ports e p i db r = Inr r' \<Longrightarrow> config_good r \<Longrightarrow> config_good r'"
    by (auto simp: patch_own_ports_def config_good_def bind_res_eq_Inr)
qed

lemma patch_stages_config: "patch_stages e i p db r0 = Inr r5 \<Longrightarrow> config_good r0 \<Longrightarrow> config_good r5"
  unfolding patch_stages_def bind_res_eq_Inr
  by (elim exE conjE) (rule stages_config(5) [OF _ stages_config(4) [OF _ stages_config(3) [OF _ stages_config(2) [OF _ stages_config(1)]]]])

lemma rows_good_patch:
  assumes good: "rows_good db" and "Patch e i p db = Inr (db', w)"
  shows "rows_good db'"
proof -
  obtain r0 r5 row v h where r0: "get_instance db i = Inr r0" "\<not> Deleted r0" and st: "patch_stages e i p db r0 = Inr r5"
      and row: "row = r5\<lparr>in_DraftValidation := v, in_ConfigHash := h, in_UpdatedAt := se_now e\<rparr>"
      and keep: "stage_keeps r0 row" and ok: "row_allowed db row"
      and db': "db' = svc_event ''instance_updated'' i (update_rows (edit_hits row) (config_of row) db)"
    by (rule Patch_writes [OF assms(2)], elim exE conjE, rule that)
  have "config_good r0" using good get_instance_Inr [OF r0(1)] by (auto simp: rows_good_def list_all_iff row_good_def)
  then have "config_good row"
    using patch_stages_config [OF st] config_good_cong [of row r5] by (simp add: row edited_def hash_inputs_def)
  then have cfg: "config_good (config_of row r)" "columns_good (config_of row r)" for r
    using config_good_cong [of "config_of row r" row] allowed_columns [OF ok]
    by (simp_all add: config_of_def edited_def hash_inputs_def columns_good_def)
  have live: "in_DeletedAt row = None" using keep r0(2) by (simp add: stage_keeps_def Deleted_def)
  let ?g = "\<lambda>r. if edit_hits row r then config_of row r else r"
  have same: "in_ID (?g r) = in_ID r" "Deleted (?g r) = Deleted r" for r
    by (simp_all add: config_of_def edit_hits_def Deleted_def)
  show ?thesis
  proof (rule rows_good_map [OF good, where g = ?g])
    fix r assume "row_good r"
    then show "row_good (?g r)" using cfg [of r] by (auto simp: row_good_def wanted_good_def config_of_def Deleted_def edit_hits_def)
  next
    fix r s assume r: "r \<in> set (db_instances db)" and s: "s \<in> set (db_instances db)" and a: "apart r s"
    then have ne: "in_ID r \<noteq> in_ID s" by (simp add: apart_def)
    have hit: "edit_hits row x \<Longrightarrow> in_ID x = in_ID row" for x by (simp add: edit_hits_def)
    have one: "apart (config_of row x) y = apart row y" "apart y (config_of row x) = apart y row" if "edit_hits row x" for x y
      using that live by (auto simp: apart_def config_of_def edit_hits_def Deleted_def)
    show "apart (?g r) (?g s)"
      using a ne hit [of r] hit [of s] one [of r s] one [of s r] allowed_apart [OF ok live s] allowed_apart [OF ok live r] by auto
  qed (simp add: db')
qed

lemma rows_good_delete: "rows_good db \<Longrightarrow> rows_good (delete_write i purge keep now db)"
  by (simp add: delete_write_def Let_def rows_good_records rows_good_writes rows_good_purge)

lemma rows_good_committed: "rows_good db \<Longrightarrow> (\<And>a. r = Inr a \<Longrightarrow> rows_good (f a)) \<Longrightarrow> rows_good (committed f db r)"
  by (rule committed_inv)

interpretation rows: machine svc_step "\<lambda>_. True" rows_good
proof (unfold_locales, goal_cases)
  case (1 ev db)
  then have good: "rows_good db" by simp
  note up = rows_good_records [OF good] rows_good_writes [OF good]
  show ?case
  proof (cases ev)
    case (CreateEv e p)
    then show ?thesis using good rows_good_create by (auto intro!: rows_good_committed)
  next
    case (PatchEv e i p)
    then show ?thesis using good rows_good_patch by (auto intro!: rows_good_committed)
  next
    case (DesiredEv i d trigger now)
    then show ?thesis using good
      by (auto simp: SetDesiredState_def Let_def bind_res_eq_Inr intro!: rows_good_committed rows_good_records rows_good_writes rows_good_desired
        split: if_splits)
  next
    case (SafeStartEv i now)
    have "''running'' \<in> set DesiredStateValues" by (simp add: DesiredStateValues_def)
    then show ?thesis using good SafeStartEv
      by (auto simp: SafeStart_def bind_res_eq_Inr intro!: rows_good_committed rows_good_records rows_good_writes rows_good_desired)
  next
    case (ScanEv e m)
    have "rows_good (write_model m db)" by (rule rows_good_records [OF good])
    then show ?thesis using rows_good_recompute by (simp add: ScanEv scan_writes_def recomputeFor_def Let_def)
  next
    case (ActivateEv e rt)
    then show ?thesis using rows_good_recompute [OF up(5)] by (simp add: activate_tx_def)
  next
    case (DownloadEv e m)
    then show ?thesis using rows_good_recompute [OF up(4)] by (simp add: download_writes_def download_recompute_def)
  next
    case (ReassignEv i port now)
    then show ?thesis using good rows_good_reassign by (auto intro!: rows_good_committed)
  next
    case (TakePendingEv i)
    then show ?thesis using good rows_good_take by (auto intro!: rows_good_committed)
  qed (use good up rows_good_delete in \<open>auto simp: ResetFailed_def SetAutostart_def bind_res_eq_Inr intro!: rows_good_committed rows_good_records\<close>)
qed

text \<open>
  C4. Every row of the table, live or deleted, is a configuration that a save would accept: its
  flags and extra flags pass their checks, its name, unit, ports and modes are of their types, a
  deleted one is never wanted running, and no two live ones share a name or a port of the same
  kind; so that, whatever the models and the build, its command line renders exactly when its
  model has a path.
\<close>

theorem every_stored_instance_renders:
  "let db = run svc_step es empty_db in rows_good db
    \<and> list_all (\<lambda>r. (case RenderArgv ff (the_row r) f primary mmproj draft rt of Inl _ \<Rightarrow> False | Inr _ \<Rightarrow> True) = has_path primary)
        (db_instances db)"
proof -
  have good: "rows_good (run svc_step es empty_db)"
    by (rule rows.run_inv) (simp_all add: list_all_iff rows_good_def empty_db_def)
  have "(case RenderArgv ff (the_row r) f primary mmproj draft rt of Inl _ \<Rightarrow> False | Inr _ \<Rightarrow> True) = has_path primary"
    if "row_good r" for r
    using that by (auto simp: row_good_def config_good_def RenderArgv_def the_row_simps split: sum.splits)
  with good show ?thesis by (auto simp: Let_def rows_good_def list_all_iff)
qed

end
