(* ===== verification/Instance_Stale.thy ===== *)
theory Instance_Stale
  imports Instance_Claims Instance_Rows
begin

text \<open>
  What a finished download does to the hash of the instances that wait for it: nothing. It hands
  the ids of models to a function that takes the ids of instances.
\<close>

lemma no_views: "ids \<noteq> [] \<Longrightarrow> \<forall>r\<in>set (db_instances db). in_ID r \<notin> set ids \<Longrightarrow> InstanceViews ids db = []"
  by (auto simp: InstanceViews_def filter_empty_conv)

lemma nothing_recomputed: "ids \<noteq> [] \<Longrightarrow> \<forall>r\<in>set (db_instances db). in_ID r \<notin> set ids \<Longrightarrow> download_recompute e ids db = db"
  by (simp add: download_recompute_def RecomputeConfigHash_def no_views)

text \<open>
  C3. A download that makes a model ready leaves every row of the instances table as it was, the
  rows that wait for the model included, since no instance has the id of a model; and the scan
  that follows it, which finds the model where the download says it is, does not mend that.
\<close>

theorem a_finished_download_leaves_the_hashes:
  assumes "\<forall>r\<in>set (db_instances db). in_ID r \<noteq> lm_ID m"
    and "lm_ID m' = lm_ID m" "lm_State m' = lm_State m" "lm_SnapshotDir m' = lm_SnapshotDir m" "lm_PrimaryFile m' = lm_PrimaryFile m"
  shows "db_instances (download_writes e m db) = db_instances db
    \<and> db_instances (scan_writes e' m' (download_writes e m db)) = db_instances db"
proof -
  have d: "download_writes e m db = write_model m db"
    unfolding download_writes_def by (rule nothing_recomputed) (use assms(1) in simp_all)
  have "find (\<lambda>x. lm_ID x = lm_ID m') (db_models (write_model m db)) = Some m"
    using write_model_find [of "lm_ID m" m db] assms(2) by simp
  then have "\<not> model_moved m' (write_model m db)" using assms by (simp add: model_moved_def)
  then show ?thesis by (simp add: d scan_writes_def)
qed

text \<open>An instance made while its model downloads.\<close>

definition demo_env :: "string \<Rightarrow> svc_env" where
  "demo_env i = \<lparr>se_policy = stock_policy, se_probe = None, se_now = 5, se_newID = i,
     se_float = (\<lambda>_. ''0''), se_sha = (\<lambda>t. t)\<rparr>"

definition demo_model :: "string \<Rightarrow> local_model" where
  "demo_model state = \<lparr>lm_ID = ''m1'', lm_State = state, lm_SnapshotDir = ''/hub'', lm_PrimaryFile = ''a.gguf'', lm_Parsed = False,
     lm_TokenizerModel = None, lm_NVocab = None\<rparr>"

definition demo_params :: create_params where
  "demo_params = \<lparr>cp_Name = ''chat'', cp_DisplayName = None, cp_Description = None, cp_ModelID = ''m1'', cp_MmprojModelID = None,
     cp_DraftModelID = None, cp_PublicPort = None, cp_InternalPort = None, cp_AuthMode = None, cp_Autostart = None,
     cp_RestartPolicy = None, cp_RestartMax = None, cp_RestartWindowSec = None, cp_Flags = no_flags, cp_ExtraFlags = []\<rparr>"

definition waiting_db :: inst_db where
  "waiting_db = run svc_step [ScanEv (demo_env ''i1'') (demo_model ''downloading''), CreateEv (demo_env ''i1'') demo_params] empty_db"

definition stale_ids :: "inst_db \<Rightarrow> string list" where
  "stale_ids db = map in_ID (filter (\<lambda>r. \<not> current_row (\<lambda>_. ''0'') (\<lambda>t. t) db r) (db_instances db))"

lemma waiting: "map in_ID (db_instances waiting_db) = [''i1''] \<and> stale_ids waiting_db = []"
  by code_simp

lemma stale_after_the_download:
  "stale_ids (download_writes (demo_env ''x'') (demo_model ''ready'') waiting_db) = [''i1'']
   \<and> stale_ids (scan_writes (demo_env ''x'') (demo_model ''ready'') waiting_db) = []"
  by code_simp

theorem a_finished_download_leaves_the_hashes_witness:
  "db_instances (scan_writes (demo_env ''y'') (demo_model ''ready'') (download_writes (demo_env ''x'') (demo_model ''ready'') waiting_db))
     = db_instances waiting_db
   \<and> stale_ids (download_writes (demo_env ''x'') (demo_model ''ready'') waiting_db) = [''i1'']"
proof -
  have "\<forall>r\<in>set (db_instances waiting_db). in_ID r \<noteq> lm_ID (demo_model ''ready'')"
    using waiting by (auto simp: demo_model_def)
  from a_finished_download_leaves_the_hashes [OF this] stale_after_the_download show ?thesis by blast
qed

text \<open>The hash of an instance created, edited and then given a new build.\<close>

definition demo_events :: "svc_ev list" where
  "demo_events = [ScanEv (demo_env ''x'') (demo_model ''downloading''), CreateEv (demo_env ''i1'') demo_params,
     ScanEv (demo_env ''x'') (demo_model ''ready''), ReassignEv ''i1'' 21007 9, ActivateEv (demo_env ''x'') (Some some_runtime)]"

theorem the_stored_hash_is_current_witness:
  "map in_ID (db_instances (run svc_step demo_events empty_db)) = [''i1'']
   \<and> list_all (\<lambda>r. Deleted r \<or> current_row (\<lambda>_. ''0'') (\<lambda>t. t) (run svc_step demo_events empty_db) r)
      (db_instances (run svc_step demo_events empty_db))"
proof -
  have "map in_ID (db_instances (run svc_step demo_events empty_db)) = [''i1'']" by code_simp
  moreover have "list_all (\<lambda>ev. \<not> is_download ev \<and> uses (\<lambda>_. ''0'') (\<lambda>t. t) ev) demo_events"
    by (simp add: demo_events_def demo_env_def)
  moreover have "length (filter is_create demo_events) \<le> 500" by (simp add: demo_events_def)
  ultimately show ?thesis using the_stored_hash_is_current by blast
qed

text \<open>Two editors of one instance who both read it at its first generation.\<close>

definition rename :: "string \<Rightarrow> int \<Rightarrow> patch_params" where
  "rename n g = \<lparr>pt_Generation = g, pt_Name = Some n, pt_DisplayName = None, pt_Description = None, pt_ModelID = None,
     pt_MmprojModelID = None, pt_DraftModelID = None, pt_PublicPort = None, pt_InternalPort = None, pt_AuthMode = None,
     pt_RestartPolicy = None, pt_RestartMax = None, pt_RestartWindowSec = None, pt_Flags = None, pt_ExtraFlags = None\<rparr>"

definition two_editors :: "svc_ev list" where
  "two_editors = [PatchEv (demo_env ''x'') ''i1'' (rename ''first'' 1), AutostartEv ''i1'' True 6,
     PatchEv (demo_env ''x'') ''i1'' (rename ''second'' 1)]"

definition names_of :: "inst_db \<Rightarrow> (string \<times> int) list" where
  "names_of db = map (\<lambda>r. (in_Name r, in_Generation r)) (db_instances db)"

text \<open>The instance as a row of its own, its model known.\<close>

definition edit_db :: inst_db where
  "edit_db = empty_db\<lparr>db_instances := [new_row (demo_env ''i1'') demo_params 8080 21000], db_models := [demo_model ''downloading'']\<rparr>"

lemma two_editors_run:
  "names_of (run svc_step two_editors edit_db) = [(''first'', 2)]" "accepted ''i1'' two_editors edit_db = [1]"
  by code_simp+


end
