(* ===== verification/Update_Store.thy ===== *)
theory Update_Store
  imports Job_Queue
begin

text \<open>
  The tables of a self-update (\<open>store/selfupdates.go\<close>, \<open>model/selfupdate.go\<close>): the rows of
  \<open>self_updates\<close>, the cards of \<open>notifications\<close> and the \<open>events\<close> the confirmation gate appends.
  They are the domain state of the job tables of \<open>Job_Queue\<close>, so a transaction that writes a
  row and its paired job is a function on both.
\<close>

section \<open>States and rows\<close>

datatype su_state =
    UpdatePlanned | UpdateDownloading | UpdateVerifying | UpdateStaged | UpdateSwapping
  | UpdateSucceeded | UpdateFailed | UpdateCanceled

definition su_state_values :: "su_state list" where
  "su_state_values = [UpdatePlanned, UpdateDownloading, UpdateVerifying, UpdateStaged,
     UpdateSwapping, UpdateSucceeded, UpdateFailed, UpdateCanceled]"

definition su_valid :: "su_state \<Rightarrow> bool" where
  "su_valid s \<longleftrightarrow> s \<in> set su_state_values"

definition su_terminal :: "su_state \<Rightarrow> bool" where
  "su_terminal s \<longleftrightarrow> s = UpdateSucceeded \<or> s = UpdateFailed \<or> s = UpdateCanceled"

definition su_cancelable :: "su_state \<Rightarrow> bool" where
  "su_cancelable s \<longleftrightarrow> s = UpdatePlanned \<or> s = UpdateDownloading \<or> s = UpdateVerifying"

lemma su_terminal_simps [simp]:
  "su_terminal UpdateSucceeded" "su_terminal UpdateFailed" "su_terminal UpdateCanceled"
  "\<not> su_terminal UpdatePlanned" "\<not> su_terminal UpdateDownloading"
  "\<not> su_terminal UpdateVerifying" "\<not> su_terminal UpdateStaged" "\<not> su_terminal UpdateSwapping"
  by (simp_all add: su_terminal_def)

lemma su_valid_all: "su_valid s"
  by (cases s) (simp_all add: su_valid_def su_state_values_def)

record self_update =
  su_ID :: string
  su_FromVersion :: string
  su_ToVersion :: string
  su_Channel :: string
  su_State :: su_state
  su_AssetURL :: "string option"
  su_AssetSHA256 :: "string option"
  su_SignatureOK :: "bool option"
  su_DBBackupPath :: "string option"
  su_BinaryPath :: "string option"
  su_ErrorMessage :: "string option"
  su_CreatedAt :: unix_ms
  su_FinishedAt :: "unix_ms option"

record notification =
  nt_ID :: string
  nt_At :: unix_ms
  nt_Severity :: string
  nt_Code :: string
  nt_Title :: string
  nt_Body :: string
  nt_SubjectType :: "string option"
  nt_SubjectID :: "string option"
  nt_Action :: "(string \<times> string list) list"
  nt_DismissedAt :: "unix_ms option"

record update_event =
  ue_At :: unix_ms
  ue_Level :: string
  ue_Action :: string
  ue_Message :: string
  ue_From :: "su_state option"
  ue_To :: su_state
  ue_SubjectType :: "string option"
  ue_SubjectID :: "string option"

record upd_tables =
  ut_rows :: "self_update list"
  ut_notes :: "notification list"
  ut_events :: "update_event list"

type_synonym updb = "upd_tables jobdb"

definition su_live :: "self_update \<Rightarrow> bool" where
  "su_live u \<longleftrightarrow> \<not> su_terminal (su_State u)"

section \<open>Statements\<close>

text \<open>An \<open>UPDATE\<close> and whether \<open>RowsAffected\<close> is positive.\<close>

definition update_su ::
    "(self_update \<Rightarrow> bool) \<Rightarrow> (self_update \<Rightarrow> self_update) \<Rightarrow> upd_tables \<Rightarrow> upd_tables \<times> bool" where
  "update_su p f t = (t\<lparr>ut_rows := map (\<lambda>u. if p u then f u else u) (ut_rows t)\<rparr>,
                      list_ex p (ut_rows t))"

definition InsertSelfUpdate :: "self_update \<Rightarrow> upd_tables \<Rightarrow> jobs_error + upd_tables" where
  "InsertSelfUpdate u t =
     (if su_ID u \<in> set (map su_ID (ut_rows t)) then Inl ErrConstraint
      else Inr (t\<lparr>ut_rows := ut_rows t @ [u]\<rparr>))"

definition get_self_update :: "string \<Rightarrow> upd_tables \<Rightarrow> jobs_error + self_update" where
  "get_self_update i t =
     (case find (\<lambda>u. su_ID u = i) (ut_rows t) of None \<Rightarrow> Inl ErrNotFound | Some u \<Rightarrow> Inr u)"

text \<open>\<open>ORDER BY created_at DESC, id DESC\<close>.\<close>

definition newest_first :: "self_update list \<Rightarrow> self_update list" where
  "newest_first us = rev (sort_key (\<lambda>u. (su_CreatedAt u, su_ID u)) us)"

definition LiveSelfUpdate :: "upd_tables \<Rightarrow> jobs_error + self_update" where
  "LiveSelfUpdate t = (case newest_first (filter su_live (ut_rows t)) of
     [] \<Rightarrow> Inl ErrNotFound | u # _ \<Rightarrow> Inr u)"

definition SelfUpdates :: "int \<Rightarrow> upd_tables \<Rightarrow> self_update list" where
  "SelfUpdates limit t = take (nat (if limit \<le> 0 then 50 else limit)) (newest_first (ut_rows t))"

definition SetSelfUpdateState :: "string \<Rightarrow> su_state \<Rightarrow> upd_tables \<Rightarrow> upd_tables \<times> bool" where
  "SetSelfUpdateState i st t = update_su (\<lambda>u. su_ID u = i \<and> su_live u) (\<lambda>u. u\<lparr>su_State := st\<rparr>) t"

record artifacts =
  ar_AssetURL :: "string option"
  ar_AssetSHA256 :: "string option"
  ar_SignatureOK :: "bool option"
  ar_DBBackupPath :: "string option"
  ar_BinaryPath :: "string option"

definition or_else :: "'a option \<Rightarrow> 'a option \<Rightarrow> 'a option" where
  "or_else a b = (case a of None \<Rightarrow> b | Some x \<Rightarrow> Some x)"

definition no_artifacts :: artifacts where
  "no_artifacts = \<lparr>ar_AssetURL = None, ar_AssetSHA256 = None, ar_SignatureOK = None,
     ar_DBBackupPath = None, ar_BinaryPath = None\<rparr>"

definition SetSelfUpdateArtifacts :: "string \<Rightarrow> artifacts \<Rightarrow> upd_tables \<Rightarrow> upd_tables \<times> bool" where
  "SetSelfUpdateArtifacts i a t =
     (if a = no_artifacts then (t, False)
      else update_su (\<lambda>u. su_ID u = i)
        (\<lambda>u. u\<lparr>su_AssetURL := or_else (ar_AssetURL a) (su_AssetURL u),
               su_AssetSHA256 := or_else (ar_AssetSHA256 a) (su_AssetSHA256 u),
               su_SignatureOK := or_else (ar_SignatureOK a) (su_SignatureOK u),
               su_DBBackupPath := or_else (ar_DBBackupPath a) (su_DBBackupPath u),
               su_BinaryPath := or_else (ar_BinaryPath a) (su_BinaryPath u)\<rparr>) t)"

definition FinishSelfUpdate ::
    "string \<Rightarrow> su_state \<Rightarrow> string option \<Rightarrow> unix_ms \<Rightarrow> upd_tables \<Rightarrow> jobs_error + upd_tables \<times> bool" where
  "FinishSelfUpdate i st msg at t =
     (if \<not> su_terminal st then Inl ErrNotTerminal
      else Inr (update_su (\<lambda>u. su_ID u = i \<and> su_live u)
             (\<lambda>u. u\<lparr>su_State := st, su_ErrorMessage := msg, su_FinishedAt := Some at\<rparr>) t))"

text \<open>The job states the guard of an update counts as live, \<open>interrupted\<close> included.\<close>

definition counted_live :: "job_state \<Rightarrow> bool" where
  "counted_live s \<longleftrightarrow> s \<in> set [JobQueued, JobLeased, JobRunning, JobInterrupted]"

definition su_job :: "string \<Rightarrow> job \<Rightarrow> bool" where
  "su_job i j \<longleftrightarrow> j_kind j = JobSelfUpdate \<and> j_subject_id j = i"

definition in_flight :: "jobs \<Rightarrow> self_update \<Rightarrow> bool" where
  "in_flight js u \<longleftrightarrow> su_live u \<and> list_ex (\<lambda>j. su_job (su_ID u) j \<and> counted_live (j_state j)) js"

definition CountLiveSelfUpdates :: "updb \<Rightarrow> nat" where
  "CountLiveSelfUpdates db = length (filter (in_flight (db_jobs db)) (ut_rows (db_domain db)))"

text \<open>The rows of the closing pass, each with the job that makes it an orphan.\<close>

definition OrphanedSelfUpdates :: "string \<Rightarrow> updb \<Rightarrow> (string \<times> string) list" where
  "OrphanedSelfUpdates excl db =
     concat (map (\<lambda>u. map (\<lambda>j. (su_ID u, j_id j))
         (filter (\<lambda>j. su_job (su_ID u) j \<and> j_state j = JobInterrupted) (db_jobs db)))
       (sort_key su_CreatedAt
         (filter (\<lambda>u. su_live u \<and> su_ID u \<noteq> excl) (ut_rows (db_domain db)))))"

definition SelfUpdateJob :: "string \<Rightarrow> jobs \<Rightarrow> jobs_error + job" where
  "SelfUpdateJob i js =
     (case jobs_list \<lparr>f_states = [], f_kinds = [JobSelfUpdate],
            f_subject_type = Some SubjectSelfUpdate, f_subject_id = i, f_limit = 1\<rparr> js of
        [] \<Rightarrow> Inl ErrNotFound | j # _ \<Rightarrow> Inr j)"

definition AppendNotification :: "notification \<Rightarrow> upd_tables \<Rightarrow> jobs_error + upd_tables" where
  "AppendNotification n t =
     (if nt_ID n \<in> set (map nt_ID (ut_notes t)) then Inl ErrConstraint
      else Inr (t\<lparr>ut_notes := ut_notes t @ [n\<lparr>nt_DismissedAt := None\<rparr>]\<rparr>))"

section \<open>What the statements do to the rows\<close>

lemma update_su_rows [simp]:
  "ut_rows (fst (update_su p f t)) = map (\<lambda>u. if p u then f u else u) (ut_rows t)"
  "ut_notes (fst (update_su p f t)) = ut_notes t" "ut_events (fst (update_su p f t)) = ut_events t"
  by (simp_all add: update_su_def)

lemma su_sel_updates [simp]:
  "su_live (u\<lparr>su_State := st\<rparr>) \<longleftrightarrow> \<not> su_terminal st"
  "su_live (u\<lparr>su_ErrorMessage := m\<rparr>) \<longleftrightarrow> su_live u"
  "su_live (u\<lparr>su_FinishedAt := a\<rparr>) \<longleftrightarrow> su_live u"
  "su_live (u\<lparr>su_AssetURL := b\<rparr>) \<longleftrightarrow> su_live u"
  "su_live (u\<lparr>su_AssetSHA256 := b\<rparr>) \<longleftrightarrow> su_live u"
  "su_live (u\<lparr>su_SignatureOK := c\<rparr>) \<longleftrightarrow> su_live u"
  "su_live (u\<lparr>su_DBBackupPath := b\<rparr>) \<longleftrightarrow> su_live u"
  "su_live (u\<lparr>su_BinaryPath := b\<rparr>) \<longleftrightarrow> su_live u"
  by (simp_all add: su_live_def)

lemma counted_live_simps [simp]:
  "counted_live JobQueued" "counted_live JobLeased" "counted_live JobRunning"
  "counted_live JobInterrupted" "\<not> counted_live JobSucceeded" "\<not> counted_live JobFailed"
  "\<not> counted_live JobCanceled" "\<not> counted_live JobPaused"
  by (simp_all add: counted_live_def)

lemma counted_live_not_terminal: "is_terminal s \<Longrightarrow> \<not> counted_live s"
  by (auto simp: is_terminal_def)

end
