(* ===== verification/Update_Files.thy ===== *)
theory Update_Files
  imports Update_Store Encoding Instance_Flags Gateway_Tap
begin

unbundle bit_operations_syntax

text \<open>
  The files of a self-update (\<open>internal/selfupdate\<close>: \<open>paths.go\<close>, \<open>marker.go\<close>, \<open>verify.go\<close>,
  \<open>tarball.go\<close>) and the two privileged programs that move them (\<open>actor.go\<close>, \<open>judge.go\<close>).
  A file is its bytes. \<open>update/\<close> belongs to the service identity, so each read of it gets a
  directory of its own: what the identity does between two reads is up to it. \<open>SHA-256\<close>,
  \<open>ed25519.Verify\<close>, \<open>json\<close> and the \<open>tar\<close> and \<open>gzip\<close> readers are parameters.
\<close>

section \<open>Errors, files and parameters\<close>

datatype su_error =
    ErrScope | ErrNoMarker | ErrMarkerUnreadable | ErrSignature | ErrDigest | ErrBadLine nat
  | ErrNamesNothing | ErrDigestRequired | ErrArchive | ErrMemberMissing | ErrMemberTooBig
  | ErrPrefixMismatch | ErrNoRoom | ErrJudgeRefused | ErrFile string | ErrKeys | ErrRetained
  | ErrRestart

record marker =
  mk_Format :: int
  mk_SelfUpdateID :: string
  mk_FromVersion :: string
  mk_TargetVersion :: string
  mk_BinaryPath :: string
  mk_StagedAt :: unix_ms

type_synonym dir = "string \<Rightarrow> string option"

text \<open>An entry of an archive: \<open>te_Data\<close> is \<open>None\<close> when reading its bytes fails.\<close>

record tar_entry =
  te_Regular :: bool
  te_Name :: string
  te_Size :: int
  te_Data :: "string option"

datatype tar_item = TarEntry tar_entry | TarError

record world =
  wd_unmarshal :: "string \<Rightarrow> marker option"
  wd_marshal :: "marker \<Rightarrow> string"
  wd_sha256 :: "string \<Rightarrow> string"
  wd_ed25519 :: "string \<Rightarrow> string \<Rightarrow> string \<Rightarrow> bool"
  wd_untar :: "string \<Rightarrow> tar_item list option"

record layout =
  ly_StateDir :: string
  ly_Prefix :: string

record disk =
  dk_installed :: "string option"
  dk_retained :: "string option"
  dk_retain_tmp :: "string option"
  dk_install_tmp :: "string option"
  dk_update :: dir

definition PendingFileName :: string where "PendingFileName = ''pending''"
definition StagedBinaryName :: string where "StagedBinaryName = ''llamaman.new''"
definition ChecksumsName :: string where "ChecksumsName = ''checksums.txt''"
definition SignatureName :: string where "SignatureName = ''checksums.txt.sig''"
definition BinaryName :: string where "BinaryName = ''llamaman''"
definition RetainedName :: string where "RetainedName = ''llamaman.prev''"

definition UpdateDir :: "layout \<Rightarrow> string" where
  "UpdateDir l = path_join [ly_StateDir l, ''update'']"

definition PendingPath :: "layout \<Rightarrow> string" where
  "PendingPath l = path_join [UpdateDir l, PendingFileName]"

definition InstalledPath :: "layout \<Rightarrow> string" where
  "InstalledPath l = path_join [ly_Prefix l, BinaryName]"

definition RetainedPath :: "layout \<Rightarrow> string" where
  "RetainedPath l = path_join [ly_Prefix l, RetainedName]"

definition TarballName :: "string \<Rightarrow> string \<Rightarrow> string" where
  "TarballName version goarch = ''llamaman_'' @ version @ ''_linux_'' @ goarch @ ''.tar.gz''"

definition version_char :: "char \<Rightarrow> bool" where
  "version_char c \<longleftrightarrow> (let n = of_char c :: nat in 97 \<le> n \<and> n \<le> 122 \<or> 65 \<le> n \<and> n \<le> 90
     \<or> 48 \<le> n \<and> n \<le> 57 \<or> c \<in> {CHR ''.'', CHR ''-'', CHR ''_'', CHR ''+''})"

definition sanitizeVersion :: "string \<Rightarrow> string" where
  "sanitizeVersion v = (let t = trim_space v in if t = [] then ''unknown''
     else map (\<lambda>c. if version_char c then c else CHR ''_'') t)"

definition SnapshotName :: "string \<Rightarrow> int \<Rightarrow> string" where
  "SnapshotName fromVersion secs = ''llamaman-'' @ sanitizeVersion fromVersion @ ''-'' @ int_dec secs @ ''.db''"

text \<open>\<open>ClearScratch\<close>: everything but the marker; \<open>stuck\<close> are the names whose removal fails.\<close>

definition ClearScratch :: "string list \<Rightarrow> dir \<Rightarrow> dir \<times> su_error option" where
  "ClearScratch stuck d =
     ((\<lambda>n. if n = PendingFileName \<or> n \<in> set stuck then d n else None),
      case find (\<lambda>n. n \<noteq> PendingFileName \<and> d n \<noteq> None) stuck of
        None \<Rightarrow> None | Some n \<Rightarrow> Some (ErrFile n))"

section \<open>The marker\<close>

definition MarkerFormat :: int where "MarkerFormat = 1"
definition maxMarkerBytes :: nat where "maxMarkerBytes = 65536"

definition ParseMarker :: "world \<Rightarrow> string \<Rightarrow> su_error + marker" where
  "ParseMarker w b = (case wd_unmarshal w b of
       None \<Rightarrow> Inl ErrMarkerUnreadable
     | Some m \<Rightarrow> if mk_Format m \<noteq> MarkerFormat then Inl ErrMarkerUnreadable
         else if mk_TargetVersion m = [] then Inl ErrMarkerUnreadable
         else Inr m)"

text \<open>\<open>readable\<close> is whether \<open>os.ReadFile\<close> can read a file that is there.\<close>

definition ReadMarker :: "world \<Rightarrow> bool \<Rightarrow> dir \<Rightarrow> su_error + marker" where
  "ReadMarker w readable d = (case d PendingFileName of
       None \<Rightarrow> Inl ErrNoMarker
     | Some b \<Rightarrow> if \<not> readable then Inl ErrMarkerUnreadable
         else if length b > maxMarkerBytes then Inl ErrMarkerUnreadable
         else ParseMarker w b)"

text \<open>
  How a write or an unlink ends: done, refused, or done with the directory not opened for its
  \<open>fsync\<close>, which is an error all the same.
\<close>

datatype file_io = IoDone | IoRefused | IoUnsynced

definition io_error :: "file_io \<Rightarrow> string \<Rightarrow> su_error option" where
  "io_error io n = (if io = IoDone then None else Some (ErrFile n))"

definition WriteMarker :: "world \<Rightarrow> file_io \<Rightarrow> marker \<Rightarrow> dir \<Rightarrow> dir \<times> su_error option" where
  "WriteMarker w io m d =
     (let m1 = (if mk_Format m = 0 then m\<lparr>mk_Format := MarkerFormat\<rparr> else m)
      in (if io = IoRefused then d else d(PendingFileName \<mapsto> wd_marshal w m1 @ [CHR 0x0A]),
          io_error io PendingFileName))"

text \<open>An unlink of a file that is not there is none that fails.\<close>

definition RemoveMarker :: "file_io \<Rightarrow> dir \<Rightarrow> dir \<times> su_error option" where
  "RemoveMarker io d =
     (if d PendingFileName = None then (d, if io = IoUnsynced then io_error io PendingFileName else None)
      else (if io = IoRefused then d else d(PendingFileName := None), io_error io PendingFileName))"

section \<open>Verification\<close>

definition hex_val :: "char \<Rightarrow> nat option" where
  "hex_val c = (let n = of_char c :: nat in
     if 48 \<le> n \<and> n \<le> 57 then Some (n - 48)
     else if 97 \<le> n \<and> n \<le> 102 then Some (n - 87)
     else if 65 \<le> n \<and> n \<le> 70 then Some (n - 55) else None)"

fun hex_decode :: "string \<Rightarrow> string option" where
  "hex_decode [] = Some []"
| "hex_decode [c] = None"
| "hex_decode (a # b # s) = (case (hex_val a, hex_val b) of
       (Some x, Some y) \<Rightarrow> map_option ((#) (char_of (16 * x + y))) (hex_decode s)
     | _ \<Rightarrow> None)"

text \<open>\<open>base64.StdEncoding\<close>: newlines are skipped, and the padding is required.\<close>

definition b64_padded :: "string \<Rightarrow> string option" where
  "b64_padded s =
     (let t = filter (\<lambda>c. c \<noteq> CHR 0x0A \<and> c \<noteq> CHR 0x0D) s;
          body = trim_right (\<lambda>c. c = CHR ''='') t
      in if length t mod 4 \<noteq> 0 \<or> length t > length body + 2 then None
         else map_option (map (\<lambda>x. char_of (unat x))) (b64_decode base64Std body))"

definition decodeSignature :: "string \<Rightarrow> string option" where
  "decodeSignature b =
     (if length b = 64 then Some b
      else let text = trim_space b
      in case b64_padded text of
           Some raw \<Rightarrow> if length raw = 64 then Some raw
             else (case hex_decode text of Some r \<Rightarrow> if length r = 64 then Some r else None | None \<Rightarrow> None)
         | None \<Rightarrow> (case hex_decode text of Some r \<Rightarrow> if length r = 64 then Some r else None | None \<Rightarrow> None))"

definition VerifyChecksums :: "world \<Rightarrow> string \<Rightarrow> string \<Rightarrow> string list \<Rightarrow> su_error option" where
  "VerifyChecksums w checksums signature keys =
     (case decodeSignature signature of
        None \<Rightarrow> Some ErrSignature
      | Some sig \<Rightarrow> if list_ex (\<lambda>k. wd_ed25519 w k checksums sig) keys then None else Some ErrSignature)"

function space_fields :: "string \<Rightarrow> string list" where
  "space_fields [] = []"
| "space_fields (c # s) = (if go_space c then space_fields s
     else (c # takeWhile (\<lambda>x. \<not> go_space x) s) # space_fields (dropWhile (\<lambda>x. \<not> go_space x) s))"
  by pat_completeness auto
termination by (relation "measure length") (auto simp: le_imp_less_Suc length_dropWhile_le)

definition lower_char :: "char \<Rightarrow> char" where
  "lower_char c = (let n = of_char c :: nat in if 65 \<le> n \<and> n \<le> 90 then char_of (n + 32) else c)"

text \<open>One line: \<open>None\<close> is a blank line or a comment.\<close>

definition checksum_line :: "nat \<Rightarrow> string \<Rightarrow> su_error + (string \<times> string) option" where
  "checksum_line n l =
     (let t = trim_space l; fs = space_fields t
      in if t = [] \<or> hd t = CHR ''#'' then Inr None
         else if length fs < 2 then Inl (ErrBadLine n)
         else let digest = map lower_char (hd fs);
                  name = (case cut_prefix (last fs) ''*'' of None \<Rightarrow> last fs | Some r \<Rightarrow> r)
              in if length digest \<noteq> 64 then Inl (ErrBadLine n)
                 else if hex_decode digest = None then Inl (ErrBadLine n)
                 else if name = [] \<or> name = ''.'' \<or> name = ''..'' \<or> CHR ''/'' \<in> set name
                 then Inl (ErrBadLine n)
                 else Inr (Some (name, digest)))"

fun checksum_lines :: "nat \<Rightarrow> string list \<Rightarrow> (string \<times> string) list \<Rightarrow> su_error + (string \<times> string) list" where
  "checksum_lines n [] out = Inr out"
| "checksum_lines n (l # ls) out =
     bind_res (checksum_line n l) (\<lambda>r. case r of
       None \<Rightarrow> checksum_lines (Suc n) ls out
     | Some kv \<Rightarrow> checksum_lines (Suc n) ls (kv # out))"

definition ParseChecksums :: "string \<Rightarrow> su_error + (string \<times> string) list" where
  "ParseChecksums b = bind_res (checksum_lines 1 (split_at (CHR 0x0A) b) []) (\<lambda>out.
     if out = [] then Inl ErrNamesNothing else Inr out)"

definition read_file :: "dir \<Rightarrow> string \<Rightarrow> su_error + string" where
  "read_file d n = (case d n of None \<Rightarrow> Inl (ErrFile n) | Some b \<Rightarrow> Inr b)"

text \<open>
  \<open>VerifyStaged\<close>, the directory as it is at its three reads: the checksums, the signature, the
  tarball. The result is the digest the signed file names.
\<close>

definition VerifyStaged ::
    "world \<Rightarrow> string \<Rightarrow> string list \<Rightarrow> dir \<Rightarrow> dir \<Rightarrow> dir \<Rightarrow> su_error + string" where
  "VerifyStaged w tarball keys d1 d2 d3 =
     bind_res (read_file d1 ChecksumsName) (\<lambda>checksums.
     bind_res (read_file d2 SignatureName) (\<lambda>sig.
       case VerifyChecksums w checksums sig keys of
         Some e \<Rightarrow> Inl e
       | None \<Rightarrow> bind_res (ParseChecksums checksums) (\<lambda>want.
           case map_of want tarball of
             None \<Rightarrow> Inl ErrDigest
           | Some expected \<Rightarrow> bind_res (read_file d3 tarball) (\<lambda>b.
               if wd_sha256 w b \<noteq> expected then Inl ErrDigest else Inr expected))))"

section \<open>Extraction\<close>

definition maxBinaryBytes :: int where "maxBinaryBytes = 536870912"

definition path_base :: "string \<Rightarrow> string" where
  "path_base p = (if p = [] then ''.'' else let q = trim_right (\<lambda>c. c = CHR ''/'') p
     in if q = [] then ''/'' else last (split_path q))"

fun find_member :: "tar_item list \<Rightarrow> su_error + string" where
  "find_member [] = Inl ErrMemberMissing"
| "find_member (TarError # r) = Inl ErrArchive"
| "find_member (TarEntry h # r) =
     (if \<not> te_Regular h \<or> path_base (path_clean (te_Name h)) \<noteq> BinaryName then find_member r
      else if te_Size h > maxBinaryBytes then Inl ErrMemberTooBig
      else case te_Data h of
             None \<Rightarrow> Inl ErrArchive
           | Some b \<Rightarrow> if int (length b) > maxBinaryBytes then Inl ErrMemberTooBig else Inr b)"

text \<open>The bytes that are put at the destination, when the whole file hashes to what was signed.\<close>

definition ExtractBinary :: "world \<Rightarrow> dir \<Rightarrow> string \<Rightarrow> string \<Rightarrow> su_error + string" where
  "ExtractBinary w d tarball expect =
     (if expect = [] then Inl ErrDigestRequired
      else bind_res (read_file d tarball) (\<lambda>b.
        case wd_untar w b of
          None \<Rightarrow> Inl ErrArchive
        | Some items \<Rightarrow> bind_res (find_member items) (\<lambda>member.
            if wd_sha256 w b \<noteq> expect then Inl ErrDigest else Inr member)))"

section \<open>The swap\<close>

text \<open>
  The environment of \<open>Apply\<close>: the directory at each read (marker, checksums, signature, tarball,
  extraction), the compiled-in keys or the failure to load them, the room in the prefix, and
  which writes in the prefix succeed: a rename whose \<open>fsync\<close> fails has happened all the same.
  \<open>pe_copy\<close> is what a read of the retained copy gives back; \<open>pe_restart\<close> is whether the restart is
  accepted, \<open>None\<close> without a restarter.
\<close>

record apply_env =
  pe_scope_ok :: bool
  pe_keys :: "string list option"
  pe_layout :: layout
  pe_goarch :: string
  pe_dirs :: "nat \<Rightarrow> dir"
  pe_marker_readable :: bool
  pe_room :: bool
  pe_copy :: "string \<Rightarrow> string option"
  pe_retain_ok :: bool
  pe_retain_synced :: bool
  pe_extract_ok :: bool
  pe_owner_ok :: bool
  pe_rename_ok :: bool
  pe_rename_synced :: bool
  pe_restart :: "bool option"

definition apply_preflight :: "world \<Rightarrow> apply_env \<Rightarrow> disk \<Rightarrow> su_error + marker \<times> string" where
  "apply_preflight w e dk =
     (case pe_keys e of None \<Rightarrow> Inl ErrKeys | Some keys \<Rightarrow>
      if \<not> pe_scope_ok e then Inl ErrScope
      else bind_res (ReadMarker w (pe_marker_readable e) (pe_dirs e 0)) (\<lambda>m.
        if mk_BinaryPath m \<noteq> [] \<and> mk_BinaryPath m \<noteq> InstalledPath (pe_layout e)
        then Inl ErrPrefixMismatch
        else bind_res (VerifyStaged w (TarballName (mk_TargetVersion m) (pe_goarch e)) keys
                         (pe_dirs e 1) (pe_dirs e 2) (pe_dirs e 3)) (\<lambda>digest.
          if dk_installed dk = None then Inl (ErrFile BinaryName)
          else if \<not> pe_room e then Inl ErrNoRoom
          else Inr (m, digest))))"

text \<open>
  \<open>retain\<close>: the copy, its digest read back from the disk, the rename. A failure leaves no
  temporary file.
\<close>

definition retain :: "world \<Rightarrow> apply_env \<Rightarrow> disk \<Rightarrow> disk \<times> su_error option" where
  "retain w e dk =
     (case dk_installed dk of
        None \<Rightarrow> (dk, Some (ErrFile BinaryName))
      | Some src \<Rightarrow> (case pe_copy e src of
          None \<Rightarrow> (dk\<lparr>dk_retain_tmp := None\<rparr>, Some (ErrFile RetainedName))
        | Some copy \<Rightarrow>
            if wd_sha256 w copy \<noteq> wd_sha256 w src then (dk\<lparr>dk_retain_tmp := None\<rparr>, Some ErrRetained)
            else if \<not> pe_retain_ok e then (dk\<lparr>dk_retain_tmp := None\<rparr>, Some (ErrFile RetainedName))
            else (dk\<lparr>dk_retained := Some copy, dk_retain_tmp := None\<rparr>,
                  if pe_retain_synced e then None else Some (ErrFile RetainedName))))"

definition apply_extract :: "world \<Rightarrow> apply_env \<Rightarrow> marker \<Rightarrow> string \<Rightarrow> disk \<Rightarrow> disk \<times> su_error option" where
  "apply_extract w e m digest dk =
     (case ExtractBinary w (pe_dirs e 4) (TarballName (mk_TargetVersion m) (pe_goarch e)) digest of
        Inl x \<Rightarrow> (dk, Some x)
      | Inr b \<Rightarrow> if \<not> pe_extract_ok e then (dk, Some (ErrFile BinaryName))
                 else (dk\<lparr>dk_install_tmp := Some b\<rparr>, if pe_owner_ok e then None else Some (ErrFile BinaryName)))"

definition apply_rename :: "apply_env \<Rightarrow> disk \<Rightarrow> disk \<times> su_error option" where
  "apply_rename e dk =
     (case dk_install_tmp dk of
        None \<Rightarrow> (dk, Some (ErrFile BinaryName))
      | Some b \<Rightarrow> if \<not> pe_rename_ok e then (dk, Some (ErrFile BinaryName))
                  else (dk\<lparr>dk_installed := Some b, dk_install_tmp := None\<rparr>,
                        if pe_rename_synced e then None else Some (ErrFile BinaryName)))"

definition Apply :: "world \<Rightarrow> apply_env \<Rightarrow> disk \<Rightarrow> disk \<times> (su_error + marker)" where
  "Apply w e dk =
     (case apply_preflight w e dk of
        Inl x \<Rightarrow> (dk, Inl x)
      | Inr (m, digest) \<Rightarrow> (case retain w e dk of
          (dk1, Some x) \<Rightarrow> (dk1, Inl x)
        | (dk1, None) \<Rightarrow> (case apply_extract w e m digest dk1 of
            (dk2, Some x) \<Rightarrow> (dk2, Inl x)
          | (dk2, None) \<Rightarrow> (case apply_rename e dk2 of
              (dk3, Some x) \<Rightarrow> (dk3, Inl x)
            | (dk3, None) \<Rightarrow> (dk3, if pe_restart e = Some False then Inl ErrRestart else Inr m)))))"

section \<open>The judge\<close>

record judge_env =
  je_scope_ok :: bool
  je_stat_ok :: bool
  je_mode :: u32
  je_uids :: "(nat \<times> nat) option"
  je_is_active :: "string option"
  je_rename_ok :: bool
  je_synced :: bool

record verdict =
  vd_UnitState :: string
  vd_Reverted :: bool
  vd_Reason :: string

definition unitStateReason :: "string \<Rightarrow> string" where
  "unitStateReason st =
     (if st = ''active'' then ''a daemon is running, and this is not the judge's business''
      else if st = ''activating'' then ''a start is still in progress''
      else if st = ''inactive'' then ''a human or a shutdown stopped the service deliberately''
      else if st = ''deactivating'' then ''the service is stopping''
      else ''systemd reported a state this judge does not act on'')"

definition checkImages :: "judge_env \<Rightarrow> su_error option" where
  "checkImages e =
     (if \<not> je_stat_ok e then Some (ErrFile RetainedName)
      else if je_mode e AND 18 \<noteq> 0 then Some ErrJudgeRefused
      else case je_uids e of
             None \<Rightarrow> None
           | Some (a, b) \<Rightarrow> if a \<noteq> b then Some ErrJudgeRefused else None)"

text \<open>\<open>je_is_active\<close> is what \<open>systemctl is-active\<close> printed, \<open>None\<close> when it could not be run.\<close>

definition Verify :: "judge_env \<Rightarrow> disk \<Rightarrow> disk \<times> (su_error + verdict)" where
  "Verify e dk =
     (if \<not> je_scope_ok e then (dk, Inl ErrScope)
      else case checkImages e of
        Some x \<Rightarrow> (dk, Inl x)
      | None \<Rightarrow> (case je_is_active e of
          None \<Rightarrow> (dk, Inr \<lparr>vd_UnitState = [], vd_Reverted = False,
                       vd_Reason = ''could not ask systemd for the unit state''\<rparr>)
        | Some st \<Rightarrow>
            if st \<noteq> ''failed'' then (dk, Inr \<lparr>vd_UnitState = st, vd_Reverted = False,
                       vd_Reason = unitStateReason st\<rparr>)
            else (case dk_retained dk of
                None \<Rightarrow> (dk, Inl (ErrFile RetainedName))
              | Some b \<Rightarrow> if \<not> je_rename_ok e then (dk, Inl (ErrFile RetainedName))
                  else (dk\<lparr>dk_installed := Some b, dk_retained := None\<rparr>,
                        if je_synced e then Inr \<lparr>vd_UnitState = st, vd_Reverted = True, vd_Reason = []\<rparr>
                        else Inl (ErrFile BinaryName)))))"

end
