(* ===== verification/Update_Gate.thy ===== *)
theory Update_Gate
  imports Update_Files
begin

text \<open>
  The confirmation gate (\<open>selfupdate/gate.go\<close>): the disarm before a migration, the three branches
  that resolve a marker, and the closing pass. What systemd answers, the journal, the clock and
  whether the store and the file system carry a write out come with each call; the event
  recorder is attached, and an event is appended in the transaction of its branch.
\<close>

section \<open>The gate and what a call meets\<close>

text \<open>\<open>gt_disarmed\<close>: nothing unlinked, an unreadable marker unlinked, or the copy of one.\<close>

record gate =
  gt_Layout :: layout
  gt_Version :: string
  gt_BootID :: string
  gt_disarmed :: "marker option option"

record resolve_env =
  rv_now :: unix_ms
  rv_note_id :: string
  rv_journal :: "(string \<Rightarrow> string option) option"
  rv_units :: "string option"
  rv_readable :: bool
  rv_read_ok :: bool
  rv_write_ok :: bool
  rv_unlink :: file_io
  rv_stuck :: "string list"

datatype branch = BranchNone | BranchConfirmed | BranchDeferred | BranchNotApplied

record resolve_result =
  rr_Branch :: branch
  rr_Marker :: "marker option"
  rr_ActorActive :: bool
  rr_RowResolved :: bool
  rr_ClosedOrphans :: nat
  rr_Notified :: bool

datatype taken = NoMarker | BadMarker | Taken marker

definition NewGate :: "layout \<Rightarrow> string \<Rightarrow> gate" where
  "NewGate l version = \<lparr>gt_Layout = l, gt_Version = version, gt_BootID = [], gt_disarmed = None\<rparr>"

definition Attach :: "string \<Rightarrow> gate \<Rightarrow> gate" where
  "Attach boot g = (if boot = [] then g else g\<lparr>gt_BootID := boot\<rparr>)"

definition DisarmBeforeMigration ::
    "world \<Rightarrow> bool \<Rightarrow> file_io \<Rightarrow> gate \<Rightarrow> dir \<Rightarrow> gate \<times> dir \<times> su_error option" where
  "DisarmBeforeMigration w readable unlink g d =
     (case ReadMarker w readable d of
        Inl ErrNoMarker \<Rightarrow> (g, d, None)
      | Inl ErrMarkerUnreadable \<Rightarrow> (g\<lparr>gt_disarmed := Some None\<rparr>, RemoveMarker unlink d)
      | Inl x \<Rightarrow> (g, d, Some x)
      | Inr m \<Rightarrow> (g\<lparr>gt_disarmed := Some (Some m)\<rparr>, RemoveMarker unlink d))"

definition takeMarker :: "world \<Rightarrow> bool \<Rightarrow> gate \<Rightarrow> dir \<Rightarrow> gate \<times> taken" where
  "takeMarker w readable g d =
     (case gt_disarmed g of
        Some copy \<Rightarrow> (g\<lparr>gt_disarmed := None\<rparr>, case copy of None \<Rightarrow> BadMarker | Some m \<Rightarrow> Taken m)
      | None \<Rightarrow> (g, case ReadMarker w readable d of
          Inl x \<Rightarrow> if x = ErrNoMarker then NoMarker else BadMarker
        | Inr m \<Rightarrow> Taken m))"

definition MarkerExists :: "world \<Rightarrow> bool \<Rightarrow> dir \<Rightarrow> bool" where
  "MarkerExists w readable d \<longleftrightarrow> ReadMarker w readable d \<noteq> Inl ErrNoMarker"

section \<open>Who is applying the update\<close>

definition DaemonUnit :: string where "DaemonUnit = ''llamaman.service''"
definition SwapUnit :: string where "SwapUnit = ''llamaman-selfupdate.service''"
definition JudgeUnit :: string where "JudgeUnit = ''llamaman-update-verify.service''"

definition selfIsApplying :: "resolve_env \<Rightarrow> gate \<Rightarrow> marker \<Rightarrow> updb \<Rightarrow> bool" where
  "selfIsApplying e g m db =
     (if gt_BootID g = [] \<or> mk_SelfUpdateID m = [] then False
      else if \<not> rv_read_ok e then False
      else case SelfUpdateJob (mk_SelfUpdateID m) (db_jobs db) of
             Inl _ \<Rightarrow> False
           | Inr j \<Rightarrow> if is_terminal (j_state j) \<or> j_state j = JobInterrupted then False
                      else j_lease_owner j = Some (gt_BootID g))"

definition unitActorActive :: "resolve_env \<Rightarrow> bool" where
  "unitActorActive e = (case rv_units e of None \<Rightarrow> False | Some st \<Rightarrow> st = ''active'' \<or> st = ''activating'')"

text \<open>\<open>Pending\<close> of the status endpoint: the marker, zero when unreadable, and the actor.\<close>

definition Pending :: "world \<Rightarrow> resolve_env \<Rightarrow> dir \<Rightarrow> (marker option \<times> bool) option" where
  "Pending w e d = (case ReadMarker w (rv_readable e) d of
       Inl x \<Rightarrow> if x = ErrNoMarker then None else Some (None, unitActorActive e)
     | Inr m \<Rightarrow> Some (Some m, unitActorActive e))"

section \<open>The writing branches\<close>

definition CodeUpdateNotApplied :: string where "CodeUpdateNotApplied = ''update_not_applied''"

definition CodeDaemonRestarted :: string where "CodeDaemonRestarted = ''daemon_restarted''"

text \<open>The row and its job, when the row moves; a row that is gone or over is left alone.\<close>

definition finishRow ::
    "string \<Rightarrow> su_state \<Rightarrow> job_state \<Rightarrow> string \<Rightarrow> string option \<Rightarrow> unix_ms \<Rightarrow> updb \<Rightarrow> jobs_error + updb \<times> bool" where
  "finishRow i rowState jobState code msg now db =
     (if i = [] then Inr (db, False)
      else bind_res (FinishSelfUpdate i rowState msg now (db_domain db)) (\<lambda>(t, moved).
        if \<not> moved then Inr (db\<lparr>db_domain := t\<rparr>, False)
        else case SelfUpdateJob i (db_jobs db) of
               Inl x \<Rightarrow> if x = ErrNotFound then Inr (db\<lparr>db_domain := t\<rparr>, True) else Inl x
             | Inr j \<Rightarrow> if is_terminal (j_state j) then Inr (db\<lparr>db_domain := t\<rparr>, True)
                 else bind_res (finish_job (j_id j) jobState (str_ptr code) msg now (db_jobs db)) (\<lambda>js.
                      Inr (db\<lparr>db_jobs := js, db_domain := t\<rparr>, True))))"

definition orphan_message :: string where
  "orphan_message = ''the daemon restarted while this update was in flight, and no update/pending marker names it''"

fun close_all :: "unix_ms \<Rightarrow> (string \<times> string) list \<Rightarrow> updb \<Rightarrow> jobs_error + updb" where
  "close_all now [] db = Inr db"
| "close_all now ((u, j) # os) db =
     bind_res (FinishSelfUpdate u UpdateFailed (Some orphan_message) now (db_domain db)) (\<lambda>(t, _).
     bind_res (finish_job j JobFailed (Some CodeDaemonRestarted) (Some orphan_message) now (db_jobs db)) (\<lambda>js.
       close_all now os (db\<lparr>db_jobs := js, db_domain := t\<rparr>)))"

definition closeOrphans :: "string \<Rightarrow> unix_ms \<Rightarrow> updb \<Rightarrow> jobs_error + updb \<times> nat" where
  "closeOrphans excl now db =
     (let os = OrphanedSelfUpdates excl db
      in bind_res (close_all now os db) (\<lambda>db'. Inr (db', length os)))"

text \<open>\<open>store.Write\<close>: the transaction may fail to begin or to commit.\<close>

definition store_write :: "bool \<Rightarrow> (updb \<Rightarrow> jobs_error + updb \<times> 'a) \<Rightarrow> updb \<Rightarrow> updb \<times> (jobs_error + 'a)" where
  "store_write ok f db = transact (\<lambda>s. if ok then f s else Inl (ErrDomain ''store'')) db"

definition append_event :: "update_event \<Rightarrow> updb \<Rightarrow> updb" where
  "append_event v db = db\<lparr>db_domain := (db_domain db)\<lparr>ut_events := ut_events (db_domain db) @ [v]\<rparr>\<rparr>"

definition subject_of :: "string \<Rightarrow> string option" where
  "subject_of i = (if i = [] then None else Some ''self_update'')"

definition gate_event ::
    "unix_ms \<Rightarrow> string \<Rightarrow> string \<Rightarrow> string \<Rightarrow> su_state option \<Rightarrow> su_state \<Rightarrow> string \<Rightarrow> update_event" where
  "gate_event now i level action from to message = \<lparr>ue_At = now, ue_Level = level, ue_Action = action,
     ue_Message = message, ue_From = from, ue_To = to, ue_SubjectType = subject_of i, ue_SubjectID = str_ptr i\<rparr>"

definition confirmed_event :: "unix_ms \<Rightarrow> marker \<Rightarrow> update_event" where
  "confirmed_event now m = gate_event now (mk_SelfUpdateID m) ''info'' ''update.confirmed''
     (Some UpdateSwapping) UpdateSucceeded
     (''self-update to '' @ mk_TargetVersion m @ '' confirmed by the boot that installed it'')"

definition confirmed_tx :: "unix_ms \<Rightarrow> marker \<Rightarrow> updb \<Rightarrow> jobs_error + updb \<times> resolve_result" where
  "confirmed_tx now m db =
     bind_res (finishRow (mk_SelfUpdateID m) UpdateSucceeded JobSucceeded [] None now db) (\<lambda>(db1, moved).
       let db2 = (if moved then append_event (confirmed_event now m) db1 else db1)
       in bind_res (closeOrphans (mk_SelfUpdateID m) now db2) (\<lambda>(db3, n).
          Inr (db3, \<lparr>rr_Branch = BranchConfirmed, rr_Marker = Some m, rr_ActorActive = False,
             rr_RowResolved = moved, rr_ClosedOrphans = n, rr_Notified = False\<rparr>)))"

definition journalTail :: "(string \<Rightarrow> string option) option \<Rightarrow> string" where
  "journalTail journal = (case journal of None \<Rightarrow> []
     | Some f \<Rightarrow> fold (\<lambda>unit out. case f unit of None \<Rightarrow> out
         | Some t \<Rightarrow> if t = [] then out
             else (if out = [] then [] else out @ [CHR 0x0A]) @ ''-- '' @ unit @ '' --'' @ CHR 0x0A # t)
       [SwapUnit, JudgeUnit] [])"

definition notAppliedMessage :: "gate \<Rightarrow> marker option \<Rightarrow> string" where
  "notAppliedMessage g m = (case m of
       None \<Rightarrow> PendingPath (gt_Layout g)
         @ '' could not be read by this binary and was swept; the installed version is '' @ gt_Version g
     | Some m \<Rightarrow> ''the update from '' @ mk_FromVersion m @ '' to '' @ mk_TargetVersion m
         @ '' did not take: either the swap never happened or it was reverted; the installed version is ''
         @ gt_Version g)"

text \<open>\<open>None\<close> is the marker this binary cannot read: its id is empty, so no row is touched.\<close>

definition marker_id :: "marker option \<Rightarrow> string" where
  "marker_id m = (case m of None \<Rightarrow> [] | Some m \<Rightarrow> mk_SelfUpdateID m)"

definition f24_action :: "gate \<Rightarrow> string \<Rightarrow> marker option \<Rightarrow> (string \<times> string list) list" where
  "f24_action g tail m = [(''installed_version'', [gt_Version g]), (''units'', [SwapUnit, JudgeUnit])]
     @ (if tail = [] then [] else [(''journal_tail'', [tail])])
     @ (case m of None \<Rightarrow> [] | Some m \<Rightarrow>
          [(''from_version'', [mk_FromVersion m]), (''target_version'', [mk_TargetVersion m])])"

definition f24 :: "gate \<Rightarrow> resolve_env \<Rightarrow> marker option \<Rightarrow> notification" where
  "f24 g e m = \<lparr>nt_ID = rv_note_id e, nt_At = rv_now e, nt_Severity = ''error'', nt_Code = CodeUpdateNotApplied,
     nt_Title = ''The self-update did not take'', nt_Body = notAppliedMessage g m,
     nt_SubjectType = subject_of (marker_id m), nt_SubjectID = str_ptr (marker_id m),
     nt_Action = f24_action g (journalTail (rv_journal e)) m, nt_DismissedAt = None\<rparr>"

definition refused_event :: "gate \<Rightarrow> resolve_env \<Rightarrow> marker option \<Rightarrow> update_event" where
  "refused_event g e m = gate_event (rv_now e) (marker_id m) ''warn'' ''update.not_applied'' None UpdateFailed
     (notAppliedMessage g m)"

definition notApplied_tx :: "gate \<Rightarrow> resolve_env \<Rightarrow> marker option \<Rightarrow> updb \<Rightarrow> jobs_error + updb \<times> resolve_result" where
  "notApplied_tx g e m db =
     bind_res (finishRow (marker_id m) UpdateFailed JobFailed CodeUpdateNotApplied
                 (Some (notAppliedMessage g m)) (rv_now e) db) (\<lambda>(db1, moved).
       let db2 = append_event (refused_event g e m) db1
       in bind_res (AppendNotification (f24 g e m) (db_domain db2)) (\<lambda>t.
          bind_res (closeOrphans (marker_id m) (rv_now e) (db2\<lparr>db_domain := t\<rparr>)) (\<lambda>(db3, n).
          Inr (db3, \<lparr>rr_Branch = BranchNotApplied, rr_Marker = m, rr_ActorActive = False,
             rr_RowResolved = moved, rr_ClosedOrphans = n, rr_Notified = True\<rparr>))))"

definition closing_tx :: "branch \<Rightarrow> marker option \<Rightarrow> unix_ms \<Rightarrow> updb \<Rightarrow> jobs_error + updb \<times> resolve_result" where
  "closing_tx b m now db =
     bind_res (closeOrphans (marker_id m) now db) (\<lambda>(db1, n).
       Inr (db1, \<lparr>rr_Branch = b, rr_Marker = m, rr_ActorActive = (b = BranchDeferred),
          rr_RowResolved = False, rr_ClosedOrphans = n, rr_Notified = False\<rparr>))"

section \<open>Resolve\<close>

text \<open>The branch for a marker, its transaction, and whether the marker and the scratch go after it.\<close>

definition branch_of :: "resolve_env \<Rightarrow> gate \<Rightarrow> taken \<Rightarrow> updb \<Rightarrow> branch" where
  "branch_of e g k db = (case k of
       NoMarker \<Rightarrow> BranchNone
     | BadMarker \<Rightarrow> BranchNotApplied
     | Taken m \<Rightarrow> if mk_TargetVersion m = gt_Version g then BranchConfirmed
         else if selfIsApplying e g m db then BranchDeferred
         else if unitActorActive e then BranchDeferred
         else BranchNotApplied)"

definition taken_marker :: "taken \<Rightarrow> marker option" where
  "taken_marker k = (case k of Taken m \<Rightarrow> Some m | _ \<Rightarrow> None)"

definition branch_tx :: "branch \<Rightarrow> gate \<Rightarrow> resolve_env \<Rightarrow> taken \<Rightarrow> updb \<Rightarrow> jobs_error + updb \<times> resolve_result" where
  "branch_tx b g e k db = (case b of
       BranchNone \<Rightarrow> closing_tx BranchNone None (rv_now e) db
     | BranchDeferred \<Rightarrow> closing_tx BranchDeferred (taken_marker k) (rv_now e) db
     | BranchConfirmed \<Rightarrow> (case taken_marker k of
         Some m \<Rightarrow> confirmed_tx (rv_now e) m db | None \<Rightarrow> Inl ErrNotFound)
     | BranchNotApplied \<Rightarrow> notApplied_tx g e (taken_marker k) db)"

definition writing :: "branch \<Rightarrow> bool" where
  "writing b \<longleftrightarrow> b = BranchConfirmed \<or> b = BranchNotApplied"

definition resolve_commit ::
    "world \<Rightarrow> resolve_env \<Rightarrow> gate \<Rightarrow> updb \<Rightarrow> dir \<Rightarrow> gate \<times> updb \<times> (jobs_error + resolve_result)" where
  "resolve_commit w e g db d =
     (case takeMarker w (rv_readable e) g d of
        (g', k) \<Rightarrow> (g', store_write (rv_write_ok e) (branch_tx (branch_of e g k db) g e k) db))"

datatype gate_error = GateStore jobs_error | GateFile su_error

definition resolve_clean :: "resolve_env \<Rightarrow> branch \<Rightarrow> dir \<Rightarrow> dir \<times> su_error option" where
  "resolve_clean e b d =
     (if \<not> writing b then (d, None)
      else case RemoveMarker (rv_unlink e) d of
             (d1, Some x) \<Rightarrow> (d1, Some x)
           | (d1, None) \<Rightarrow> ClearScratch (rv_stuck e) d1)"

definition Resolve ::
    "world \<Rightarrow> resolve_env \<Rightarrow> gate \<Rightarrow> updb \<Rightarrow> dir \<Rightarrow> gate \<times> updb \<times> dir \<times> (gate_error + resolve_result)" where
  "Resolve w e g db d =
     (case resolve_commit w e g db d of
        (g', db', Inl x) \<Rightarrow> (g', db', d, Inl (GateStore x))
      | (g', db', Inr r) \<Rightarrow> (case resolve_clean e (rr_Branch r) d of
          (d', Some x) \<Rightarrow> (g', db', d', Inl (GateFile x))
        | (d', None) \<Rightarrow> (g', db', d', Inr r)))"

end
