(* ===== verification/Update_Service.thy ===== *)
theory Update_Service
  imports Update_Gate
begin

text \<open>
  The daemon's half of a self-update (\<open>selfupdate/service.go\<close>, \<open>worker.go\<close>): the guard and the
  transaction of an apply, the cancel guard and the domain writes the job engine calls, and the
  worker, one step per write, file operation or wait of its \<open>Run\<close>.
\<close>

section \<open>The guard of an apply\<close>

record unit_file =
  uf_Present :: bool
  uf_Masked :: bool
  uf_Content :: string

datatype update_error =
    TagRequired | JobInFlight string | SelfUpdateUnavailable | SelfUpdateUnsupported string
  | RevertUnavailable string | UnitError string | UpdateStore jobs_error | UpdateGate gate_error
  | UpdateFile su_error

definition directive_of :: "string \<Rightarrow> (string \<times> string) option" where
  "directive_of l = (let t = trim_space l in
     if t = [] \<or> hd t = CHR ''#'' \<or> hd t = CHR '';'' \<or> hd t = CHR ''['' then None
     else case cut (CHR ''='') t of None \<Rightarrow> None | Some (k, v) \<Rightarrow> Some (trim_space k, trim_space v))"

definition HasDirective :: "string \<Rightarrow> string \<Rightarrow> string \<Rightarrow> bool" where
  "HasDirective content key value \<longleftrightarrow>
     list_ex (\<lambda>l. directive_of l = Some (key, value)) (split_at (CHR 0x0A) content)"

text \<open>
  What the guard reads beside the tables: the topology, the row of \<open>runtime_info\<close>, and the
  installed units, \<open>None\<close> for a daemon that cannot read them.
\<close>

record guard_env =
  ge_user_scope :: bool
  ge_control :: "string option"
  ge_units :: "(string \<Rightarrow> string + unit_file) option"

definition unit_of :: "guard_env \<Rightarrow> string \<Rightarrow> update_error + unit_file" where
  "unit_of e n = (case ge_units e of
       None \<Rightarrow> Inl (RevertUnavailable n)
     | Some f \<Rightarrow> (case f n of Inl m \<Rightarrow> Inl (UnitError m) | Inr u \<Rightarrow> Inr u))"

definition requireUnit :: "guard_env \<Rightarrow> string \<Rightarrow> (string \<Rightarrow> update_error) \<Rightarrow> update_error option" where
  "requireUnit e n code = (case unit_of e n of
       Inl x \<Rightarrow> Some x
     | Inr u \<Rightarrow> if \<not> uf_Present u then Some (code n) else if uf_Masked u then Some (code n) else None)"

definition guard :: "guard_env \<Rightarrow> updb \<Rightarrow> update_error option" where
  "guard e db =
     (if count_live_jobs_by_kind JobLlamacppInstall (db_jobs db) > 0 then Some (JobInFlight ''build'')
      else if CountLiveSelfUpdates db > 0 then Some (JobInFlight ''update'')
      else if ge_control e = Some ''unavailable'' then Some SelfUpdateUnavailable
      else case (if ge_user_scope e then None else requireUnit e SwapUnit SelfUpdateUnsupported) of
        Some x \<Rightarrow> Some x
      | None \<Rightarrow> (case requireUnit e JudgeUnit RevertUnavailable of
          Some x \<Rightarrow> Some x
        | None \<Rightarrow> (case unit_of e DaemonUnit of
            Inl x \<Rightarrow> Some x
          | Inr u \<Rightarrow> if \<not> uf_Present u \<or> \<not> HasDirective (uf_Content u) ''OnFailure'' JudgeUnit
                     then Some (RevertUnavailable DaemonUnit) else None)))"

section \<open>Apply\<close>

text \<open>
  \<open>ap_job_id\<close> and \<open>ap_id\<close> are the identifiers drawn for the job and the row, \<open>ap_params\<close> the
  encoded parameters; \<open>ap_dir_ok\<close> is whether \<open>EnsureUpdateDir\<close> finds or makes the directory.
\<close>

record apply_request =
  ap_Tag :: string
  ap_Idempotency :: "idempotency option"
  ap_now :: unix_ms
  ap_id :: string
  ap_job_id :: string
  ap_params :: string
  ap_guard :: guard_env
  ap_write_ok :: bool
  ap_dir_ok :: bool

definition update_row :: "gate \<Rightarrow> apply_request \<Rightarrow> self_update" where
  "update_row g r = \<lparr>su_ID = ap_id r, su_FromVersion = gt_Version g, su_ToVersion = ap_Tag r,
     su_Channel = ''stable'', su_State = UpdatePlanned, su_AssetURL = None, su_AssetSHA256 = None,
     su_SignatureOK = None, su_DBBackupPath = None,
     su_BinaryPath = (if ly_Prefix (gt_Layout g) = [] then None else Some (InstalledPath (gt_Layout g))),
     su_ErrorMessage = None, su_CreatedAt = ap_now r, su_FinishedAt = None\<rparr>"

definition apply_params :: "gate \<Rightarrow> apply_request \<Rightarrow> upd_tables enqueue_params" where
  "apply_params g r = \<lparr>e_id = ap_job_id r, e_kind = JobSelfUpdate, e_domain_id = ap_id r,
     e_priority = 0, e_max_attempts = 0, e_run_after = None, e_params = Inr (Some (ap_params r)),
     e_idempotency = ap_Idempotency r,
     e_domain = Some (\<lambda>_ t. case InsertSelfUpdate (update_row g r) t of
                        Inl _ \<Rightarrow> Inl ''insert self_update'' | Inr t' \<Rightarrow> Inr t')\<rparr>"

definition apply_tx ::
    "(string \<Rightarrow> bool) \<Rightarrow> gate \<Rightarrow> apply_request \<Rightarrow> updb \<Rightarrow> updb \<times> (update_error + job \<times> bool)" where
  "apply_tx json_ok g r db = transact (\<lambda>s.
     if \<not> ap_write_ok r then Inl (UpdateStore (ErrDomain ''store''))
     else case guard (ap_guard r) s of
       Some x \<Rightarrow> Inl x
     | None \<Rightarrow> (case enqueue_tx json_ok (apply_params g r) (ap_now r) s of
         Inl x \<Rightarrow> Inl (UpdateStore x) | Inr y \<Rightarrow> Inr y)) db"

text \<open>
  \<open>CompareVersions\<close> (\<open>selfupdate/release.go\<close>): the numbers of a tag, the missing ones zero, then
  what follows the first dash. Go's strings compare by bytes.
\<close>

definition version_part :: "string \<Rightarrow> int option" where
  "version_part p = (case atoi p of None \<Rightarrow> None
     | Some n \<Rightarrow> if n < - (2 ^ 63) \<or> n > 2 ^ 63 - 1 then None else Some n)"

fun version_nums :: "string list \<Rightarrow> int list" where
  "version_nums [] = []"
| "version_nums (p # ps) = (case version_part p of None \<Rightarrow> [] | Some n \<Rightarrow> n # version_nums ps)"

definition splitVersion :: "string \<Rightarrow> int list \<times> string" where
  "splitVersion v0 = (let t = trim_space v0; v = (case cut_prefix t ''v'' of None \<Rightarrow> t | Some r \<Rightarrow> r);
       (core, suffix) = (case cut (CHR ''-'') v of None \<Rightarrow> (v, []) | Some x \<Rightarrow> x)
     in (version_nums (split_at (CHR ''.'') core), suffix))"

fun compare_nums :: "int list \<Rightarrow> int list \<Rightarrow> int" where
  "compare_nums [] [] = 0"
| "compare_nums (x # xs) [] = (if x \<noteq> 0 then (if x < 0 then -1 else 1) else compare_nums xs [])"
| "compare_nums [] (y # ys) = (if 0 \<noteq> y then (if 0 < y then -1 else 1) else compare_nums [] ys)"
| "compare_nums (x # xs) (y # ys) = (if x \<noteq> y then (if x < y then -1 else 1) else compare_nums xs ys)"

definition compare_suffix :: "string \<Rightarrow> string \<Rightarrow> int" where
  "compare_suffix a b = (if a = b then 0 else if a = [] then 1 else if b = [] then -1
     else if a < b then -1 else 1)"

definition CompareVersions :: "string \<Rightarrow> string \<Rightarrow> int" where
  "CompareVersions a b = (case (splitVersion a, splitVersion b) of ((an, asuffix), (bn, bsuffix)) \<Rightarrow>
     let c = compare_nums an bn in if c \<noteq> 0 then c else compare_suffix asuffix bsuffix)"

definition Repo :: string where "Repo = ''jlbyh2o/llamaman''"

definition DowngradeProcedure :: "string \<Rightarrow> string \<Rightarrow> string list" where
  "DowngradeProcedure tag snapshot =
     [''sudo systemctl stop '' @ DaemonUnit,
      ''curl -fsSL https://raw.githubusercontent.com/'' @ Repo @ ''/main/installer/install.sh | ''
        @ ''sudo sh -s -- --version '' @ tag @ '' --no-start'',
      ''sudo llamaman restore-db '' @ snapshot,
      ''sudo systemctl reset-failed '' @ DaemonUnit,
      ''sudo systemctl start '' @ DaemonUnit]"

record stage_result =
  sr_SelfUpdateID :: string
  sr_Job :: job
  sr_Replayed :: bool
  sr_SchemaWarning :: bool
  sr_Procedure :: "string list"

definition stage_result_of :: "gate \<Rightarrow> string \<Rightarrow> job \<Rightarrow> bool \<Rightarrow> stage_result" where
  "stage_result_of g tag j replayed = (let older = CompareVersions tag (gt_Version g) < 0
     in \<lparr>sr_SelfUpdateID = j_subject_id j, sr_Job = j, sr_Replayed = replayed, sr_SchemaWarning = older,
         sr_Procedure = (if older then DowngradeProcedure tag ''<newest db-backups/ snapshot>'' else [])\<rparr>)"

text \<open>The whole endpoint: the resolver, the transaction, and the sweep of \<open>update/\<close> after a commit.\<close>

definition ApplyUpdate ::
    "(string \<Rightarrow> bool) \<Rightarrow> world \<Rightarrow> resolve_env \<Rightarrow> apply_request \<Rightarrow> string list \<Rightarrow> gate \<Rightarrow> updb \<Rightarrow> dir
     \<Rightarrow> gate \<times> updb \<times> dir \<times> (update_error + stage_result)" where
  "ApplyUpdate json_ok w e r stuck g db d =
     (if ap_Tag r = [] then (g, db, d, Inl TagRequired)
      else case Resolve w e g db d of
        (g1, db1, d1, Inl x) \<Rightarrow> (g1, db1, d1, Inl (UpdateGate x))
      | (g1, db1, d1, Inr _) \<Rightarrow> (case apply_tx json_ok g1 r db1 of
          (db2, Inl x) \<Rightarrow> (g1, db2, d1, Inl x)
        | (db2, Inr (j, True)) \<Rightarrow> (g1, db2, d1, Inr (stage_result_of g1 (ap_Tag r) j True))
        | (db2, Inr (j, False)) \<Rightarrow> if \<not> ap_dir_ok r then (g1, db2, d1, Inl (UpdateFile (ErrFile ''update'')))
            else (case ClearScratch stuck d1 of
            (d2, Some x) \<Rightarrow> (g1, db2, d2, Inl (UpdateFile x))
          | (d2, None) \<Rightarrow> (g1, db2, d2, Inr (stage_result_of g1 (ap_Tag r) j False)))))"

section \<open>What the job engine calls\<close>

definition CheckCancel :: "job \<Rightarrow> upd_tables \<Rightarrow> string option" where
  "CheckCancel j t = (case get_self_update (j_subject_id j) t of
       Inl x \<Rightarrow> if x = ErrNotFound then None else Some ''store''
     | Inr u \<Rightarrow> if su_cancelable (su_State u) then None else Some ''selfupdate_not_cancelable'')"

definition cancel_message :: string where
  "cancel_message = ''canceled before the update was staged''"

text \<open>\<open>sweep_ok\<close> is whether \<open>ClearScratch\<close> succeeds; its effect is on the files.\<close>

definition finish_domain :: "string \<Rightarrow> su_state \<Rightarrow> string \<Rightarrow> unix_ms \<Rightarrow> upd_tables \<Rightarrow> string + upd_tables" where
  "finish_domain i st msg now t = (case FinishSelfUpdate i st (Some msg) now t of
     Inl _ \<Rightarrow> Inl ''finish self_update'' | Inr (t', _) \<Rightarrow> Inr t')"

definition SetDomainState :: "unix_ms \<Rightarrow> bool \<Rightarrow> job \<Rightarrow> job_state \<Rightarrow> upd_tables \<Rightarrow> string + upd_tables" where
  "SetDomainState now sweep_ok j st t =
     (case st of
        JobInterrupted \<Rightarrow> Inr t
      | JobCanceled \<Rightarrow> (case finish_domain (j_subject_id j) UpdateCanceled cancel_message now t of
          Inl x \<Rightarrow> Inl x | Inr t' \<Rightarrow> if sweep_ok then Inr t' else Inl ''clear scratch'')
      | JobQueued \<Rightarrow> Inr (fst (SetSelfUpdateState (j_subject_id j) UpdatePlanned t))
      | JobFailed \<Rightarrow> finish_domain (j_subject_id j) UpdateFailed ''the daemon could not run this update'' now t
      | _ \<Rightarrow> Inr t)"

definition update_worker :: "unix_ms \<Rightarrow> bool \<Rightarrow> upd_tables worker" where
  "update_worker now sweep_ok = \<lparr>worker.w_start = None, w_set_domain = Some (SetDomainState now sweep_ok),
     w_check_cancel = Some CheckCancel\<rparr>"

text \<open>The registry of the model: the other kinds have no worker here.\<close>

definition update_registry :: "unix_ms \<Rightarrow> bool \<Rightarrow> upd_tables registry" where
  "update_registry now sweep_ok k = (if k = JobSelfUpdate then Some (update_worker now sweep_ok) else None)"

section \<open>The worker\<close>

datatype phase =
    PhParams | PhDownloading | PhFetch | PhVerifying | PhVerify | PhProbe string | PhArtifacts string
  | PhSnapshot | PhBackup string | PhCancelPoint | PhStaged | PhMarker | PhSwapping | PhBegin | PhWait

text \<open>
  A running worker: the row, the tag of its parameters (\<open>None\<close> when they cannot be decoded) and
  where it is in \<open>Run\<close>. What a step meets: whether its context is cut, whether a write of the row
  and of the progress commits, how the download went, \<open>update/\<close> at each of its reads with the
  compiled-in keys and the text of an error, why the extracted binary could not be put in place
  (\<open>None\<close> when it was), what running a binary prints, how the snapshot and the write of the marker
  went, and whether a swap coordinator takes the hand-off.
\<close>

record work =
  wk_ID :: string
  wk_Tag :: "string option"
  wk_Phase :: phase

datatype swap_answer = NoCoordinator | SwapRefused string | SwapTaken

record work_env =
  we_now :: unix_ms
  we_ctx_done :: bool
  we_url :: string
  we_row_ok :: bool
  we_progress_ok :: bool
  we_fetch :: "string option"
  we_dirs :: "nat \<Rightarrow> dir"
  we_keys :: "string list"
  we_goarch :: string
  we_text :: "su_error \<Rightarrow> string"
  we_placed :: "string option"
  we_printed :: "string \<Rightarrow> string + string"
  we_snapshot :: "string + string"
  we_marker :: file_io
  we_marker_error :: string
  we_swap :: swap_answer
  we_sweep_ok :: bool
  we_writes :: writes

datatype work_result =
    WorkGo work
  | WorkEnd "upd_tables outcome"
  | WorkError run_error

definition failRow :: "string \<Rightarrow> string \<Rightarrow> unix_ms \<Rightarrow> upd_tables commit" where
  "failRow i message now st t =
     (if st \<noteq> JobFailed then Inr (fst (SetSelfUpdateState i UpdatePlanned t))
      else finish_domain i UpdateFailed message now t)"

definition failed_outcome :: "string \<Rightarrow> string \<Rightarrow> upd_tables commit \<Rightarrow> upd_tables outcome" where
  "failed_outcome code msg c = empty_outcome\<lparr>o_state := Some JobFailed, o_error_code := code,
     o_error_message := msg, o_commit := Some c\<rparr>"

definition canceled_commit :: "string \<Rightarrow> unix_ms \<Rightarrow> bool \<Rightarrow> upd_tables commit" where
  "canceled_commit i now sweep_ok st t =
     (case finish_domain i UpdateCanceled cancel_message now t of
        Inl x \<Rightarrow> Inl x | Inr t' \<Rightarrow> if sweep_ok then Inr t' else Inl ''clear scratch'')"

definition work_error :: "work_env \<Rightarrow> work_result" where
  "work_error e = WorkError (if we_ctx_done e then RunCanceled ''context canceled'' else RunOther ''store'')"

text \<open>The transition of the row, then the progress, each in a transaction of its own.\<close>

definition set_phase ::
    "(string \<Rightarrow> bool) \<Rightarrow> (su_state \<Rightarrow> string) \<Rightarrow> work_env \<Rightarrow> string \<Rightarrow> string \<Rightarrow> su_state \<Rightarrow> phase \<Rightarrow> work
     \<Rightarrow> updb \<Rightarrow> updb \<times> work_result" where
  "set_phase json_ok progress e job i st next k db =
     (if \<not> we_row_ok e then (db, work_error e)
      else let db1 = db\<lparr>db_domain := fst (SetSelfUpdateState i st (db_domain db))\<rparr>
      in if \<not> we_progress_ok e then (db1, work_error e)
         else case set_job_progress json_ok job (Some (progress st)) (db_jobs db1) of
           Inl _ \<Rightarrow> (db1, work_error e)
         | Inr js \<Rightarrow> (db1\<lparr>db_jobs := js\<rparr>, WorkGo (k\<lparr>wk_Phase := next\<rparr>)))"

definition record_artifacts ::
    "work_env \<Rightarrow> string \<Rightarrow> artifacts \<Rightarrow> phase \<Rightarrow> work \<Rightarrow> updb \<Rightarrow> updb \<times> work_result" where
  "record_artifacts e i a next k db =
     (if \<not> we_row_ok e then (db, work_error e)
      else (db\<lparr>db_domain := fst (SetSelfUpdateArtifacts i a (db_domain db))\<rparr>, WorkGo (k\<lparr>wk_Phase := next\<rparr>)))"

definition work_failed ::
    "work_env \<Rightarrow> work \<Rightarrow> string \<Rightarrow> string \<Rightarrow> string \<Rightarrow> updb \<Rightarrow> updb \<times> work_result" where
  "work_failed e k code msg row_msg db =
     (db, WorkEnd (failed_outcome code msg (failRow (wk_ID k) row_msg (we_now e))))"

text \<open>The version is the first token of what the binary prints.\<close>

definition firstToken :: "string \<Rightarrow> string" where
  "firstToken out = (let t = trim_space out;
       fs = space_fields (case cut (CHR 0x0A) t of None \<Rightarrow> t | Some (l, _) \<Rightarrow> l)
     in if fs = [] then [] else hd fs)"

definition other_version :: "string \<Rightarrow> string \<Rightarrow> string" where
  "other_version printed tag =
     ''the downloaded binary reports version '' @ [CHR 0x22] @ printed @ [CHR 0x22] @ '', but ''
       @ [CHR 0x22] @ tag @ [CHR 0x22] @ '' was requested''"

definition work_tag :: "work \<Rightarrow> string" where
  "work_tag k = (case wk_Tag k of None \<Rightarrow> [] | Some tag \<Rightarrow> tag)"

definition work_tarball :: "work_env \<Rightarrow> work \<Rightarrow> string" where
  "work_tarball e k = TarballName (work_tag k) (we_goarch e)"

text \<open>\<open>probeVersion\<close> up to the comparison: the binary is extracted, and what running it prints.\<close>

definition probe_version :: "world \<Rightarrow> work_env \<Rightarrow> string \<Rightarrow> string \<Rightarrow> string + string" where
  "probe_version w e tarball digest = (case ExtractBinary w (we_dirs e 3) tarball digest of
       Inl x \<Rightarrow> Inl (we_text e x)
     | Inr b \<Rightarrow> (case we_placed e of Some m \<Rightarrow> Inl m | None \<Rightarrow> we_printed e b))"

definition new_marker :: "gate \<Rightarrow> work \<Rightarrow> string \<Rightarrow> unix_ms \<Rightarrow> marker" where
  "new_marker g k tag now = \<lparr>mk_Format = MarkerFormat, mk_SelfUpdateID = wk_ID k,
     mk_FromVersion = gt_Version g, mk_TargetVersion = tag,
     mk_BinaryPath = InstalledPath (gt_Layout g), mk_StagedAt = now\<rparr>"

text \<open>One step of \<open>Run\<close>; \<open>t\<close> is the task, whose cancel flag the worker reads once.\<close>

fun work_step ::
    "(string \<Rightarrow> bool) \<Rightarrow> (su_state \<Rightarrow> string) \<Rightarrow> world \<Rightarrow> gate \<Rightarrow> work_env \<Rightarrow> task \<Rightarrow> phase \<Rightarrow> work
     \<Rightarrow> updb \<Rightarrow> dir \<Rightarrow> updb \<times> dir \<times> work_result" where
  "work_step json_ok pr w g e t PhParams k db d =
     (case wk_Tag k of
        None \<Rightarrow> (case work_failed e k ''update_stage_failed'' ''unreadable job parameters''
            (''the job'' @ [CHR 0x27] @ ''s parameters could not be read'') db of (a, b) \<Rightarrow> (a, d, b))
      | Some tag \<Rightarrow> if tag = []
          then (case work_failed e k ''update_stage_failed'' ''no release tag'' ''this update names no release tag'' db of (a, b) \<Rightarrow> (a, d, b))
          else (db, d, WorkGo (k\<lparr>wk_Phase := PhDownloading\<rparr>)))"
| "work_step json_ok pr w g e t PhDownloading k db d =
     (case set_phase json_ok pr e (j_id (t_job t)) (wk_ID k) UpdateDownloading PhFetch k db of (a, b) \<Rightarrow> (a, d, b))"
| "work_step json_ok pr w g e t PhFetch k db d =
     (case we_fetch e of
        Some m \<Rightarrow> if we_ctx_done e then (db, d, work_error e)
          else (case work_failed e k ''update_download_failed'' m (''the release could not be downloaded: '' @ m) db of (a, b) \<Rightarrow> (a, d, b))
      | None \<Rightarrow> (db, d, WorkGo (k\<lparr>wk_Phase := PhVerifying\<rparr>)))"
| "work_step json_ok pr w g e t PhVerifying k db d =
     (case set_phase json_ok pr e (j_id (t_job t)) (wk_ID k) UpdateVerifying PhVerify k db of (a, b) \<Rightarrow> (a, d, b))"
| "work_step json_ok pr w g e t PhVerify k db d =
     (case VerifyStaged w (work_tarball e k) (we_keys e) (we_dirs e 0) (we_dirs e 1) (we_dirs e 2) of
        Inl x \<Rightarrow> (let m = we_text e x; db1 = fst (record_artifacts e (wk_ID k) (no_artifacts\<lparr>ar_SignatureOK := Some False\<rparr>) PhVerify k db)
          in case work_failed e k ''update_verify_failed'' m (''the release did not verify: '' @ m) db1 of (a, b) \<Rightarrow> (a, d, b))
      | Inr digest \<Rightarrow> (db, d, WorkGo (k\<lparr>wk_Phase := PhProbe digest\<rparr>)))"
| "work_step json_ok pr w g e t (PhProbe digest) k db d =
     (case probe_version w e (work_tarball e k) digest of
        Inl m \<Rightarrow> (case work_failed e k ''update_verify_failed'' m m db of (a, b) \<Rightarrow> (a, d, b))
      | Inr out \<Rightarrow> if Some (firstToken out) \<noteq> wk_Tag k
          then (let m = other_version (firstToken out) (work_tag k)
            in case work_failed e k ''update_verify_failed'' m m db of (a, b) \<Rightarrow> (a, d, b))
          else (db, d, WorkGo (k\<lparr>wk_Phase := PhArtifacts digest\<rparr>)))"
| "work_step json_ok pr w g e t (PhArtifacts digest) k db d =
     (case record_artifacts e (wk_ID k) (no_artifacts\<lparr>ar_AssetURL := Some (we_url e), ar_AssetSHA256 := Some digest,
         ar_SignatureOK := Some True\<rparr>) PhSnapshot k db of (a, b) \<Rightarrow> (a, d, b))"
| "work_step json_ok pr w g e t PhSnapshot k db d =
     (case we_snapshot e of
        Inl m \<Rightarrow> (case work_failed e k ''update_snapshot_failed'' m (''the pre-update database snapshot failed: '' @ m) db of (a, b) \<Rightarrow> (a, d, b))
      | Inr path \<Rightarrow> (db, d, WorkGo (k\<lparr>wk_Phase := PhBackup path\<rparr>)))"
| "work_step json_ok pr w g e t (PhBackup path) k db d =
     (case record_artifacts e (wk_ID k) (no_artifacts\<lparr>ar_DBBackupPath := Some path\<rparr>) PhCancelPoint k db of
        (a, b) \<Rightarrow> (a, d, b))"
| "work_step json_ok pr w g e t PhCancelPoint k db d =
     (if t_cancel_requested t
      then (db, d, WorkEnd (canceled_outcome (Some (canceled_commit (wk_ID k) (we_now e) (we_sweep_ok e)))))
      else (db, d, WorkGo (k\<lparr>wk_Phase := PhStaged\<rparr>)))"
| "work_step json_ok pr w g e t PhStaged k db d =
     (case set_phase json_ok pr e (j_id (t_job t)) (wk_ID k) UpdateStaged PhMarker k db of (a, b) \<Rightarrow> (a, d, b))"
| "work_step json_ok pr w g e t PhMarker k db d =
     (case WriteMarker w (we_marker e) (new_marker g k (work_tag k) (we_now e)) d of
        (d', Some _) \<Rightarrow> (case work_failed e k ''update_stage_failed'' (we_marker_error e)
            (''the pending marker could not be written: '' @ we_marker_error e) db of (a, b) \<Rightarrow> (a, d', b))
      | (d', None) \<Rightarrow> (db, d', WorkGo (k\<lparr>wk_Phase := PhSwapping\<rparr>)))"
| "work_step json_ok pr w g e t PhSwapping k db d =
     (case set_phase json_ok pr e (j_id (t_job t)) (wk_ID k) UpdateSwapping PhBegin k db of (a, b) \<Rightarrow> (a, d, b))"
| "work_step json_ok pr w g e t PhBegin k db d =
     (case we_swap e of
        NoCoordinator \<Rightarrow> (case work_failed e k ''update_stage_failed'' ''no swap coordinator''
            ''this daemon was built without a swap coordinator'' db of (a, b) \<Rightarrow> (a, d, b))
      | SwapRefused m \<Rightarrow> (case work_failed e k ''update_stage_failed'' m
            (''the swap could not be summoned: '' @ m) db of (a, b) \<Rightarrow> (a, d, b))
      | SwapTaken \<Rightarrow> (db, d, WorkGo (k\<lparr>wk_Phase := PhWait\<rparr>)))"
| "work_step json_ok pr w g e t PhWait k db d =
     (db, d, if we_ctx_done e then work_error e else WorkGo k)"

end
