(* ===== verification/Update_Machine.thy ===== *)
theory Update_Machine
  imports Update_Service Job_Fencing
begin

text \<open>
  A host during self-updates: the database with its schema version, the files, the daemon with its
  gate, its job slots and its workers, the swap actor, and whether the unit of the daemon has
  failed. An event is one transaction, one rename, one file written or removed, or one decision of
  systemd; a process may die between any two of them. The calls of the gate do not overlap. The
  files under \<open>update/\<close> other than the marker may change at any time.
\<close>

section \<open>State\<close>

text \<open>
  What is fixed: the parameters of the code, the version a binary prints, the schema version it
  was built for, and the decoder of a job's parameters.
\<close>

record site =
  st_world :: world
  st_layout :: layout
  st_json :: "string \<Rightarrow> bool"
  st_progress :: "su_state \<Rightarrow> string"
  st_class :: "jobs_error \<Rightarrow> run_error"
  st_version :: "string \<Rightarrow> string"
  st_schema :: "string \<Rightarrow> nat"
  st_tag :: "string \<Rightarrow> string option"
  st_ttl :: int
  st_poll :: int

datatype stage = StOpening | StMigrating | StTriaged | StServing | StSwapping

record daemon =
  dm_image :: string
  dm_boot :: string
  dm_gate :: gate
  dm_stage :: stage
  dm_work :: "nat \<Rightarrow> work option"
  dm_summons :: bool

datatype actor = AcStart | AcReady marker string | AcRetained marker string | AcExtracted | AcDone

record host =
  h_engine :: "upd_tables engine"
  h_schema :: nat
  h_disk :: disk
  h_daemon :: "daemon option"
  h_actor :: "actor option"
  h_failed :: bool

datatype host_event =
    HvStart string
  | HvDisarm bool file_io
  | HvMigrate bool
  | HvTriage unix_ms
  | HvResolve resolve_env bool
  | HvApply resolve_env apply_request "string list"
  | HvJob "upd_tables event" unix_ms bool
  | HvWork nat work_env bool
  | HvDie
  | HvUnitFails
  | HvReset
  | HvScratch dir
  | HvSummon
  | HvActor apply_env
  | HvActorStop
  | HvJudge judge_env

definition h_db :: "host \<Rightarrow> updb" where "h_db h = e_db (h_engine h)"

definition set_db :: "updb \<Rightarrow> host \<Rightarrow> host" where
  "set_db db h = h\<lparr>h_engine := put_db (h_engine h) db\<rparr>"

definition update_dir :: "host \<Rightarrow> dir" where "update_dir h = dk_update (h_disk h)"

definition set_dir :: "dir \<Rightarrow> host \<Rightarrow> host" where
  "set_dir d h = h\<lparr>h_disk := (h_disk h)\<lparr>dk_update := d\<rparr>\<rparr>"

definition queue_of :: "site \<Rightarrow> daemon \<Rightarrow> queue_config" where
  "queue_of st dm = \<lparr>q_boot = dm_boot dm, q_lease_ttl = st_ttl st, q_poll_every = st_poll st\<rparr>"

text \<open>The memory of a process goes with it; what it wrote stays.\<close>

definition die :: "host \<Rightarrow> host" where
  "die h = h\<lparr>h_daemon := None, h_engine := (h_engine h)\<lparr>e_slots := (\<lambda>_. None)\<rparr>\<rparr>"

definition marker_there :: "host \<Rightarrow> bool" where
  "marker_there h \<longleftrightarrow> update_dir h PendingFileName \<noteq> None"

section \<open>The boot of the daemon\<close>

definition start_daemon :: "site \<Rightarrow> string \<Rightarrow> host \<Rightarrow> host" where
  "start_daemon st boot h =
     (case (h_daemon h, dk_installed (h_disk h)) of
        (None, Some img) \<Rightarrow>
          if h_failed h \<or> boot = [] \<or> list_ex (\<lambda>j. j_lease_owner j = Some boot) (db_jobs (h_db h))
             \<or> st_schema st img < h_schema h
          then h
          else h\<lparr>h_daemon := Some \<lparr>dm_image = img, dm_boot = boot,
                 dm_gate = Attach boot (NewGate (st_layout st) (st_version st img)),
                 dm_stage = StOpening, dm_work = (\<lambda>_. None), dm_summons = False\<rparr>,
               h_engine := (h_engine h)\<lparr>e_slots := (\<lambda>_. None)\<rparr>\<rparr>
      | _ \<Rightarrow> h)"

definition disarm :: "site \<Rightarrow> bool \<Rightarrow> file_io \<Rightarrow> daemon \<Rightarrow> host \<Rightarrow> host" where
  "disarm st readable unlink dm h =
     (if dm_stage dm \<noteq> StOpening \<or> h_schema h \<ge> st_schema st (dm_image dm) then h
      else case DisarmBeforeMigration (st_world st) readable unlink (dm_gate dm) (update_dir h) of
        (_, d, Some _) \<Rightarrow> die (set_dir d h)
      | (g, d, None) \<Rightarrow> set_dir d (h\<lparr>h_daemon := Some (dm\<lparr>dm_gate := g, dm_stage := StMigrating\<rparr>)\<rparr>))"

definition migrate :: "site \<Rightarrow> bool \<Rightarrow> daemon \<Rightarrow> host \<Rightarrow> host" where
  "migrate st ok dm h =
     (if dm_stage dm \<noteq> StMigrating \<or> h_schema h \<ge> st_schema st (dm_image dm) then h
      else if ok then h\<lparr>h_schema := Suc (h_schema h)\<rparr> else die h)"

definition triage :: "site \<Rightarrow> unix_ms \<Rightarrow> daemon \<Rightarrow> host \<Rightarrow> host" where
  "triage st now dm h =
     (if dm_stage dm \<notin> {StOpening, StMigrating} \<or> h_schema h \<noteq> st_schema st (dm_image dm) then h
      else case recover_orphans_tx (update_registry now True) (dm_boot dm) now (h_db h) of
        Inl _ \<Rightarrow> die h
      | Inr (db, _) \<Rightarrow> set_db db (h\<lparr>h_daemon := Some (dm\<lparr>dm_stage := StTriaged\<rparr>)\<rparr>))"

section \<open>The gate, the endpoint and the queue\<close>

text \<open>systemd answers for the actor.\<close>

definition systemd_answers :: "host \<Rightarrow> resolve_env \<Rightarrow> resolve_env" where
  "systemd_answers h e =
     e\<lparr>rv_units := Some (if h_actor h = None then ''inactive'' else ''activating'')\<rparr>"

definition after_gate :: "daemon \<Rightarrow> gate \<Rightarrow> updb \<Rightarrow> dir \<Rightarrow> host \<Rightarrow> host" where
  "after_gate dm g db d h = set_dir d (set_db db (h\<lparr>h_daemon := Some (dm\<lparr>dm_gate := g,
     dm_stage := (if dm_stage dm = StTriaged then StServing else dm_stage dm)\<rparr>)\<rparr>))"

text \<open>With \<open>survives\<close> false the daemon dies between the commit and the removal of the marker.\<close>

definition resolve_event :: "site \<Rightarrow> resolve_env \<Rightarrow> bool \<Rightarrow> daemon \<Rightarrow> host \<Rightarrow> host" where
  "resolve_event st e0 survives dm h =
     (let e = systemd_answers h e0
      in if dm_stage dm \<notin> {StTriaged, StServing} then h
         else if survives
         then (case Resolve (st_world st) e (dm_gate dm) (h_db h) (update_dir h) of
                 (g, db, d, _) \<Rightarrow> after_gate dm g db d h)
         else (case resolve_commit (st_world st) e (dm_gate dm) (h_db h) (update_dir h) of
                 (_, db, _) \<Rightarrow> die (set_db db h)))"

definition apply_event :: "site \<Rightarrow> resolve_env \<Rightarrow> apply_request \<Rightarrow> string list \<Rightarrow> daemon \<Rightarrow> host \<Rightarrow> host" where
  "apply_event st e r stuck dm h =
     (if dm_stage dm \<noteq> StServing then h
      else case ApplyUpdate (st_json st) (st_world st) (systemd_answers h e) r stuck (dm_gate dm) (h_db h) (update_dir h) of
        (g, db, d, _) \<Rightarrow> after_gate dm g db d h)"

text \<open>
  What reaches the queue beside the applies: cancels, releases, claims, starts, heartbeats, progress and jobs
  of the other kinds. No request of the API retries, pauses or resumes a self-update.
\<close>

fun queue_event :: "stage \<Rightarrow> upd_tables event \<Rightarrow> bool" where
  "queue_event s (EvEnqueue p _) \<longleftrightarrow> s = StServing \<and> e_kind p \<noteq> JobSelfUpdate \<and> e_domain p = None"
| "queue_event s (EvCancel _ _) \<longleftrightarrow> s = StServing"
| "queue_event s (EvRelease _) \<longleftrightarrow> True"
| "queue_event s (EvProgress _ _) \<longleftrightarrow> True"
| "queue_event s (EvClaim _ _) \<longleftrightarrow> True"
| "queue_event s (EvStart _ _ _ _) \<longleftrightarrow> True"
| "queue_event s (EvHeartbeat _ _) \<longleftrightarrow> True"
| "queue_event s _ \<longleftrightarrow> False"

definition tag_of :: "site \<Rightarrow> job \<Rightarrow> string option" where
  "tag_of st j = (case j_params_json j of None \<Rightarrow> Some [] | Some p \<Rightarrow> st_tag st p)"

text \<open>A slot that begins to run gets a worker, a slot that is emptied loses it.\<close>

definition fit_work :: "site \<Rightarrow> (nat \<Rightarrow> slot option) \<Rightarrow> (nat \<Rightarrow> work option) \<Rightarrow> nat \<Rightarrow> work option" where
  "fit_work st slots ws n = (case slots n of
       None \<Rightarrow> None
     | Some sl \<Rightarrow> if \<not> s_running sl then None
         else case ws n of
           Some k \<Rightarrow> Some k
         | None \<Rightarrow> Some \<lparr>wk_ID = j_subject_id (t_job (s_task sl)), wk_Tag = tag_of st (t_job (s_task sl)),
                         wk_Phase = PhParams\<rparr>)"

definition queue_step :: "site \<Rightarrow> upd_tables event \<Rightarrow> unix_ms \<Rightarrow> bool \<Rightarrow> daemon \<Rightarrow> host \<Rightarrow> host" where
  "queue_step st ev now sweep_ok dm h =
     (let en = job_step (st_json st) (st_class st) (queue_of st dm) (update_registry now sweep_ok) ev (h_engine h)
      in h\<lparr>h_engine := en, h_daemon := Some (dm\<lparr>dm_work := fit_work st (e_slots en) (dm_work dm)\<rparr>)\<rparr>)"

definition queue_request :: "site \<Rightarrow> upd_tables event \<Rightarrow> unix_ms \<Rightarrow> bool \<Rightarrow> daemon \<Rightarrow> host \<Rightarrow> host" where
  "queue_request st ev now sweep_ok dm h =
     (if dm_stage dm \<notin> {StServing, StSwapping} \<or> \<not> queue_event (dm_stage dm) ev then h
      else queue_step st ev now sweep_ok dm h)"

section \<open>The worker\<close>

text \<open>
  The context of a worker is cut by the cancel its heartbeat has seen, by a lost lease and by the
  shutdown. Taking the hand-off stops the endpoints and summons the actor, once.
\<close>

definition hand_off :: "phase \<Rightarrow> work \<Rightarrow> daemon \<Rightarrow> daemon" where
  "hand_off before k dm =
     (if before = PhBegin \<and> wk_Phase k = PhWait \<and> dm_stage dm = StServing
      then dm\<lparr>dm_stage := StSwapping, dm_summons := True\<rparr> else dm)"

definition work_event :: "site \<Rightarrow> nat \<Rightarrow> work_env \<Rightarrow> bool \<Rightarrow> daemon \<Rightarrow> host \<Rightarrow> host" where
  "work_event st n e0 shutting dm h =
     (if dm_stage dm \<notin> {StServing, StSwapping} then h
      else case (dm_work dm n, e_slots (h_engine h) n) of
        (Some k, Some sl) \<Rightarrow>
          (let t = s_task sl;
               e = e0\<lparr>we_ctx_done := (t_cancel_requested t \<or> t_lease_lost t \<or> shutting)\<rparr>
           in case work_step (st_json st) (st_progress st) (st_world st) (dm_gate dm) e t (wk_Phase k) k
                     (h_db h) (update_dir h) of
             (db, d, r) \<Rightarrow> let h1 = set_dir d (set_db db h) in
               (case r of
                  WorkGo k' \<Rightarrow> h1\<lparr>h_daemon := Some (hand_off (wk_Phase k) k'
                                   (dm\<lparr>dm_work := (dm_work dm)(n := Some k')\<rparr>))\<rparr>
                | WorkEnd out \<Rightarrow> queue_step st (EvFinish n shutting (we_writes e) out None (we_now e)) (we_now e) (we_sweep_ok e) dm h1
                | WorkError x \<Rightarrow> queue_step st (EvFinish n shutting (we_writes e) empty_outcome (Some x) (we_now e))
                                  (we_now e) (we_sweep_ok e) dm h1))
      | _ \<Rightarrow> h)"

section \<open>The privileged programs\<close>

definition summon :: "daemon \<Rightarrow> host \<Rightarrow> host" where
  "summon dm h =
     (if \<not> dm_summons dm then h
      else let h1 = h\<lparr>h_daemon := Some (dm\<lparr>dm_summons := False\<rparr>)\<rparr>
           in if h_actor h = None \<and> marker_there h then h1\<lparr>h_actor := Some AcStart\<rparr> else h1)"

definition moved :: "disk \<times> su_error option \<Rightarrow> actor \<Rightarrow> host \<Rightarrow> host" where
  "moved r next h = h\<lparr>h_disk := fst r, h_actor := (if snd r = None then Some next else None)\<rparr>"

definition actor_event :: "site \<Rightarrow> apply_env \<Rightarrow> host \<Rightarrow> host" where
  "actor_event st e0 h =
     (let w = st_world st; dk = h_disk h;
          e = e0\<lparr>pe_layout := st_layout st, pe_dirs := (pe_dirs e0)(0 := dk_update dk)\<rparr>
      in case h_actor h of
        None \<Rightarrow> h
      | Some AcStart \<Rightarrow> (case apply_preflight w e dk of
          Inl _ \<Rightarrow> h\<lparr>h_actor := None\<rparr> | Inr (m, dg) \<Rightarrow> h\<lparr>h_actor := Some (AcReady m dg)\<rparr>)
      | Some (AcReady m dg) \<Rightarrow> moved (retain w e dk) (AcRetained m dg) h
      | Some (AcRetained m dg) \<Rightarrow> moved (apply_extract w e m dg dk) AcExtracted h
      | Some AcExtracted \<Rightarrow> moved (apply_rename e dk) AcDone h
      | Some AcDone \<Rightarrow> h\<lparr>h_actor := None\<rparr>)"

text \<open>The unit of the judge runs when both its conditions hold, and starts the daemon's unit after.\<close>

definition judge_event :: "judge_env \<Rightarrow> host \<Rightarrow> host" where
  "judge_event e h =
     (if h_daemon h \<noteq> None \<or> \<not> h_failed h \<or> \<not> marker_there h \<or> dk_retained (h_disk h) = None then h
      else h\<lparr>h_disk := fst (Verify (e\<lparr>je_is_active := map_option (\<lambda>_. ''failed'') (je_is_active e)\<rparr>) (h_disk h)),
             h_failed := False\<rparr>)"

section \<open>The host\<close>

definition with_daemon :: "(daemon \<Rightarrow> host \<Rightarrow> host) \<Rightarrow> host \<Rightarrow> host" where
  "with_daemon f h = (case h_daemon h of None \<Rightarrow> h | Some dm \<Rightarrow> f dm h)"

fun host_step :: "site \<Rightarrow> host_event \<Rightarrow> host \<Rightarrow> host" where
  "host_step st (HvStart boot) h = start_daemon st boot h"
| "host_step st (HvDisarm readable unlink) h = with_daemon (disarm st readable unlink) h"
| "host_step st (HvMigrate ok) h = with_daemon (migrate st ok) h"
| "host_step st (HvTriage now) h = with_daemon (triage st now) h"
| "host_step st (HvResolve e survives) h = with_daemon (resolve_event st e survives) h"
| "host_step st (HvApply e r stuck) h = with_daemon (apply_event st e r stuck) h"
| "host_step st (HvJob ev now ok) h = with_daemon (queue_request st ev now ok) h"
| "host_step st (HvWork n e shutting) h = with_daemon (work_event st n e shutting) h"
| "host_step st HvDie h = die h"
| "host_step st HvUnitFails h = (if h_daemon h = None then h\<lparr>h_failed := True\<rparr> else h)"
| "host_step st HvReset h = h\<lparr>h_failed := False\<rparr>"
| "host_step st (HvScratch d) h =
     set_dir (\<lambda>n. if n = PendingFileName then update_dir h n else d n) h"
| "host_step st HvSummon h = with_daemon summon h"
| "host_step st (HvActor e) h = actor_event st e h"
| "host_step st HvActorStop h = h\<lparr>h_actor := None\<rparr>"
| "host_step st (HvJudge e) h = judge_event e h"

text \<open>A host with one binary installed and an empty database of its schema.\<close>

definition fresh_host :: "site \<Rightarrow> string \<Rightarrow> host" where
  "fresh_host st img =
     \<lparr>h_engine = empty_engine \<lparr>ut_rows = [], ut_notes = [], ut_events = []\<rparr>,
      h_schema = st_schema st img,
      h_disk = \<lparr>dk_installed = Some img, dk_retained = None, dk_retain_tmp = None, dk_install_tmp = None,
                dk_update = (\<lambda>_. None)\<rparr>,
      h_daemon = None, h_actor = None, h_failed = False\<rparr>"

text \<open>Runs in which only events with some property happen.\<close>

definition guarded :: "('e \<Rightarrow> 's \<Rightarrow> bool) \<Rightarrow> ('e \<Rightarrow> 's \<Rightarrow> 's) \<Rightarrow> 'e \<Rightarrow> 's \<Rightarrow> 's" where
  "guarded ok step e s = (if ok e s then step e s else s)"

end
