(* ===== verification/Update_Flight.thy ===== *)
theory Update_Flight
  imports Update_Machine
begin

text \<open>
  Over all runs of a host: at most one self-update is not over, and a row that is not over has a
  job that is queued, leased, running or interrupted, so the gate, the queue or a worker will see
  it again. The proof compares the tables before and after a transaction: what jobs it keeps alive
  and what rows it ends: every transaction of the queue is such a step, since a self-update loses its live
  job only in a transaction that ends its row.
\<close>

section \<open>What a transaction does to jobs and rows\<close>

definition same_job :: "job \<Rightarrow> job \<Rightarrow> bool" where
  "same_job a b \<longleftrightarrow> j_id a = j_id b \<and> j_kind a = j_kind b \<and> j_subject_id a = j_subject_id b"

definition alive :: "job \<Rightarrow> bool" where
  "alive j \<longleftrightarrow> j_kind j = JobSelfUpdate \<and> counted_live (j_state j)"

text \<open>\<open>X\<close> are the updates whose jobs may end.\<close>

definition keeps_jobs :: "string set \<Rightarrow> jobs \<Rightarrow> jobs \<Rightarrow> bool" where
  "keeps_jobs X js js' \<longleftrightarrow> (\<forall>j \<in> set js. \<exists>j' \<in> set js'. same_job j j' \<and>
     (alive j \<longrightarrow> j_subject_id j \<in> X \<or> alive j'))"

definition ends_rows :: "string set \<Rightarrow> upd_tables \<Rightarrow> upd_tables \<Rightarrow> bool" where
  "ends_rows X t t' \<longleftrightarrow> (\<exists>f. ut_rows t' = map f (ut_rows t) \<and>
     (\<forall>u. su_ID (f u) = su_ID u \<and> (su_live (f u) \<longrightarrow> su_live u \<and> su_ID u \<notin> X)))"

definition flight_step :: "updb \<Rightarrow> updb \<Rightarrow> bool" where
  "flight_step db db' \<longleftrightarrow> (\<exists>X. keeps_jobs X (db_jobs db) (db_jobs db') \<and> ends_rows X (db_domain db) (db_domain db'))"

definition one_flight :: "updb \<Rightarrow> bool" where
  "one_flight db \<longleftrightarrow> length (filter su_live (ut_rows (db_domain db))) \<le> 1 \<and>
     (\<forall>u \<in> set (ut_rows (db_domain db)). su_live u \<longrightarrow> in_flight (db_jobs db) u)"

lemma same_job_refl [simp]: "same_job j j"
  by (simp add: same_job_def)

lemma keeps_jobs_refl [simp, intro]: "keeps_jobs X js js"
  by (auto simp: keeps_jobs_def intro!: bexI)

lemma keeps_jobs_mono: "keeps_jobs X js js' \<Longrightarrow> X \<subseteq> Y \<Longrightarrow> keeps_jobs Y js js'"
  by (fastforce simp: keeps_jobs_def)

lemma keeps_jobs_trans:
  assumes "keeps_jobs X a b" and "keeps_jobs Y b c"
  shows "keeps_jobs (X \<union> Y) a c"
  unfolding keeps_jobs_def
proof
  fix j
  assume "j \<in> set a"
  with assms(1) obtain k where k: "k \<in> set b" "same_job j k" "alive j \<longrightarrow> j_subject_id j \<in> X \<or> alive k"
    by (auto simp: keeps_jobs_def)
  with assms(2) obtain l where "l \<in> set c" "same_job k l" "alive k \<longrightarrow> j_subject_id k \<in> Y \<or> alive l"
    by (auto simp: keeps_jobs_def)
  with k show "\<exists>l \<in> set c. same_job j l \<and> (alive j \<longrightarrow> j_subject_id j \<in> X \<union> Y \<or> alive l)"
    by (auto simp: same_job_def intro!: bexI [of _ l])
qed

lemma ends_rows_refl [simp, intro]: "ends_rows {} t t"
  unfolding ends_rows_def by (rule exI [of _ "\<lambda>u. u"]) simp

lemma ends_rows_trans:
  assumes "ends_rows X a b" and "ends_rows Y b c"
  shows "ends_rows (X \<union> Y) a c"
proof -
  obtain f where f: "ut_rows b = map f (ut_rows a)"
      "\<And>u. su_ID (f u) = su_ID u \<and> (su_live (f u) \<longrightarrow> su_live u \<and> su_ID u \<notin> X)"
    using assms(1) unfolding ends_rows_def by blast
  obtain g where g: "ut_rows c = map g (ut_rows b)"
      "\<And>u. su_ID (g u) = su_ID u \<and> (su_live (g u) \<longrightarrow> su_live u \<and> su_ID u \<notin> Y)"
    using assms(2) unfolding ends_rows_def by blast
  have "su_ID ((g \<circ> f) u) = su_ID u \<and> (su_live ((g \<circ> f) u) \<longrightarrow> su_live u \<and> su_ID u \<notin> X \<union> Y)" for u
    using f(2) [of u] g(2) [of "f u"] by auto
  moreover have "ut_rows c = map (g \<circ> f) (ut_rows a)" using f(1) g(1) by simp
  ultimately show ?thesis unfolding ends_rows_def by blast
qed

lemma flight_step_refl [simp, intro]: "flight_step db db"
  by (auto simp: flight_step_def intro: exI [of _ "{}"])

lemma flight_step_trans: "flight_step a b \<Longrightarrow> flight_step b c \<Longrightarrow> flight_step a c"
  unfolding flight_step_def by (blast intro: keeps_jobs_trans ends_rows_trans)

lemma flight_stepI:
  "keeps_jobs X (db_jobs db) (db_jobs db') \<Longrightarrow> ends_rows X (db_domain db) (db_domain db') \<Longrightarrow> flight_step db db'"
  by (auto simp: flight_step_def)

text \<open>A transaction that keeps the live jobs and touches no row.\<close>

lemma flight_step_jobs:
  "keeps_jobs {} (db_jobs db) (db_jobs db') \<Longrightarrow> db_domain db' = db_domain db \<Longrightarrow> flight_step db db'"
  by (rule flight_stepI) auto

lemma flight_step_live:
  assumes "flight_step db db'" and "one_flight db"
  shows "one_flight db'"
proof -
  obtain X f where k: "keeps_jobs X (db_jobs db) (db_jobs db')"
    and f: "ut_rows (db_domain db') = map f (ut_rows (db_domain db))"
      "\<And>u. su_ID (f u) = su_ID u" "\<And>u. su_live (f u) \<Longrightarrow> su_live u \<and> su_ID u \<notin> X"
    using assms(1) unfolding flight_step_def ends_rows_def by blast
  have "length (filter su_live (map f us)) \<le> length (filter su_live us)" for us
    using f(3) by (induction us) auto
  with assms(2) f(1) have "length (filter su_live (ut_rows (db_domain db'))) \<le> 1"
    by (metis one_flight_def order_trans)
  moreover have "in_flight (db_jobs db') v" if v: "v \<in> set (ut_rows (db_domain db'))" "su_live v" for v
  proof -
    from v f obtain u where u: "u \<in> set (ut_rows (db_domain db))" "v = f u" "su_live u" "su_ID u \<notin> X"
      by auto
    with assms(2) obtain j where j: "j \<in> set (db_jobs db)" "alive j" "j_subject_id j = su_ID u"
      by (auto simp: one_flight_def in_flight_def list_ex_iff su_job_def alive_def)
    with k u obtain j' where "j' \<in> set (db_jobs db')" "same_job j j'" "alive j'"
      by (auto simp: keeps_jobs_def)
    with j u f v show ?thesis
      by (auto simp: in_flight_def list_ex_iff su_job_def alive_def same_job_def intro!: bexI [of _ j'])
  qed
  ultimately show ?thesis by (simp add: one_flight_def)
qed

section \<open>The statements\<close>

lemma keeps_jobs_update:
  assumes "sql_update p f js = Inr (js', n)"
    and "\<And>j. j \<in> set js \<Longrightarrow> p j \<Longrightarrow> same_job j (f j) \<and> (alive j \<longrightarrow> j_subject_id j \<in> X \<or> alive (f j))"
  shows "keeps_jobs X js js'"
  unfolding keeps_jobs_def
proof
  fix j
  assume j: "j \<in> set js"
  have s: "set js' = {j \<in> set js. \<not> p j} \<union> f ` {j \<in> set js. p j}"
    using assms(1) by (simp add: sql_update_Inr set_update_rows)
  show "\<exists>j' \<in> set js'. same_job j j' \<and> (alive j \<longrightarrow> j_subject_id j \<in> X \<or> alive j')"
  proof (cases "p j")
    case True
    with assms(2) [OF j True] j s show ?thesis by (intro bexI [of _ "f j"]) auto
  next
    case False
    with j s show ?thesis by (intro bexI [of _ j]) auto
  qed
qed

lemma drop_lease_subject [simp]: "j_subject_id (drop_lease j) = j_subject_id j"
  by (simp add: drop_lease_def)

lemma take_lease_subject [simp]: "j_subject_id (take_lease p j) = j_subject_id j"
  by (simp add: take_lease_def)

lemmas job_change = same_job_def alive_def

named_theorems flight_rules \<open>the updates a statement keeps alive\<close>

lemma finish_job_flight:
  assumes "finish_job i st c m at js = Inr js'"
    and "\<And>j. j \<in> set js \<Longrightarrow> j_id j = i \<Longrightarrow> j_kind j = JobSelfUpdate \<Longrightarrow> j_subject_id j \<in> X"
  shows "keeps_jobs X js js'"
  using assms by (auto simp: finish_job_def bind_res_eq_Inr job_change intro!: keeps_jobs_update split: if_splits)

lemma requeue_job_flight [flight_rules]: "requeue_job i t c m js = Inr js' \<Longrightarrow> keeps_jobs {} js js'"
  by (auto simp: requeue_job_def bind_res_eq_Inr job_change intro!: keeps_jobs_update)

lemma defer_job_flight [flight_rules]: "defer_job i t js = Inr js' \<Longrightarrow> keeps_jobs {} js js'"
  by (auto simp: defer_job_def bind_res_eq_Inr job_change intro!: keeps_jobs_update)

lemma set_job_interrupted_flight [flight_rules]:
  "set_job_state i JobInterrupted js = Inr js' \<Longrightarrow> keeps_jobs {} js js'"
  by (auto simp: set_job_state_def bind_res_eq_Inr job_change intro!: keeps_jobs_update)

lemma request_job_cancel_flight [flight_rules]:
  "request_job_cancel i js = Inr (js', b) \<Longrightarrow> keeps_jobs {} js js'"
  by (auto simp: request_job_cancel_def bind_res_eq_Inr job_change intro!: keeps_jobs_update)

lemma start_job_flight [flight_rules]: "start_job i ow at js = Inr (js', b) \<Longrightarrow> keeps_jobs {} js js'"
  by (auto simp: start_job_def bind_res_eq_Inr job_change intro!: keeps_jobs_update)

lemma touch_job_lease_flight [flight_rules]: "touch_job_lease i ow e js = Inr (js', b) \<Longrightarrow> keeps_jobs {} js js'"
  by (auto simp: touch_job_lease_def bind_res_eq_Inr job_change split: option.splits)
    (erule keeps_jobs_update, simp add: job_change)+

lemma expire_job_leases_flight [flight_rules]: "expire_job_leases ow at js = Inr (js', n) \<Longrightarrow> keeps_jobs {} js js'"
  unfolding expire_job_leases_def by (auto simp: job_change intro!: keeps_jobs_update)

lemma set_job_progress_flight [flight_rules]: "set_job_progress json_ok i p js = Inr js' \<Longrightarrow> keeps_jobs {} js js'"
  by (auto simp: set_job_progress_def bind_res_eq_Inr job_change intro!: keeps_jobs_update split: if_splits)

lemma lease_next_job_flight [flight_rules]: "lease_next_job p js = Inr (js', r) \<Longrightarrow> keeps_jobs {} js js'"
  by (auto simp: lease_next_job_def Let_def bind_res_eq_Inr job_change intro!: keeps_jobs_update split: list.splits)

lemma insert_job_flight [flight_rules]: "insert_job json_ok j js = Inr js' \<Longrightarrow> keeps_jobs {} js js'"
  by (auto simp: insert_job_def keeps_jobs_def split: if_splits intro!: bexI)

lemma update_su_ends:
  assumes "\<And>u. su_ID (f u) = su_ID u" and "\<And>u. p u \<Longrightarrow> su_live (f u) \<Longrightarrow> su_live u \<and> su_ID u \<notin> X"
    and "\<And>u. su_ID u \<in> X \<Longrightarrow> su_live u \<Longrightarrow> p u"
  shows "ends_rows X t (fst (update_su p f t))"
  unfolding ends_rows_def
  by (rule exI [of _ "\<lambda>u. if p u then f u else u"]) (use assms in auto)

lemma SetSelfUpdateState_ends: "\<not> su_terminal st \<Longrightarrow> ends_rows {} t (fst (SetSelfUpdateState i st t))"
  unfolding SetSelfUpdateState_def by (rule update_su_ends) auto

lemma SetSelfUpdateArtifacts_ends: "ends_rows {} t (fst (SetSelfUpdateArtifacts i a t))"
proof (cases "a = no_artifacts")
  case False
  then show ?thesis unfolding SetSelfUpdateArtifacts_def by simp (rule update_su_ends, auto)
qed (simp add: SetSelfUpdateArtifacts_def)

lemma FinishSelfUpdate_ends: "FinishSelfUpdate i st m at t = Inr (t', b) \<Longrightarrow> ends_rows {i} t t'"
  using update_su_ends [of "\<lambda>u. u\<lparr>su_State := st, su_ErrorMessage := m, su_FinishedAt := Some at\<rparr>"
      "\<lambda>u. su_ID u = i \<and> su_live u" "{i}" t]
  by (auto simp: FinishSelfUpdate_def update_su_def split: if_splits)

lemma finish_domain_ends: "finish_domain i st m at t = Inr t' \<Longrightarrow> ends_rows {i} t t'"
  by (auto simp: finish_domain_def intro: FinishSelfUpdate_ends split: sum.splits)

section \<open>The domain writes of the queue\<close>

lemma commit_domain_other:
  "j_kind j \<noteq> JobSelfUpdate \<Longrightarrow> commit_domain (update_registry now ok) j st d = Inr d' \<Longrightarrow> d' = d"
  by (simp add: commit_domain_def update_registry_def)

lemma commit_domain_ends:
  assumes "j_kind j = JobSelfUpdate" and "commit_domain (update_registry now ok) j st d = Inr d'"
    and "st = JobFailed \<or> st = JobCanceled"
  shows "ends_rows {j_subject_id j} d d'"
  using assms
  by (auto simp: commit_domain_def update_registry_def update_worker_def domain_error_def SetDomainState_def
      intro: finish_domain_ends split: sum.splits if_splits)

lemma commit_domain_keeps:
  assumes "commit_domain (update_registry now ok) j st d = Inr d'"
    and "st = JobInterrupted \<or> st = JobQueued"
  shows "ends_rows {} d d'"
proof (cases "j_kind j = JobSelfUpdate")
  case True
  with assms show ?thesis
    by (auto simp: commit_domain_def update_registry_def update_worker_def domain_error_def SetDomainState_def
        intro!: SetSelfUpdateState_ends)
next
  case False
  then have "d' = d" using assms(1) by (rule commit_domain_other)
  then show ?thesis by simp
qed

text \<open>A job and its row are ended together.\<close>

lemma finish_pair:
  assumes ok: "jobs_ok js" and row: "k \<in> set js" "same_job k j"
    and fin: "finish_job (j_id j) st c m at js = Inr js'"
    and dom: "commit_domain (update_registry now ok') j st d = Inr d'" and st: "st = JobFailed \<or> st = JobCanceled"
  shows "\<exists>X. keeps_jobs X js js' \<and> ends_rows X d d'"
proof (cases "j_kind j = JobSelfUpdate")
  case True
  have "keeps_jobs {j_subject_id j} js js'"
  proof (rule finish_job_flight [OF fin])
    fix l
    assume "l \<in> set js" "j_id l = j_id j"
    with row ok have "l = k" by (auto simp: same_job_def dest: job_id_unique)
    with row show "j_subject_id l \<in> {j_subject_id j}" by (simp add: same_job_def)
  qed
  with commit_domain_ends [OF True dom st] show ?thesis by blast
next
  case False
  have "keeps_jobs {} js js'"
  proof (rule finish_job_flight [OF fin])
    fix l
    assume l: "l \<in> set js" "j_id l = j_id j" "j_kind l = JobSelfUpdate"
    with row ok have "l = k" by (auto simp: same_job_def dest: job_id_unique)
    with row l False show "j_subject_id l \<in> {}" by (simp add: same_job_def)
  qed
  with commit_domain_other [OF False dom] show ?thesis by auto
qed

section \<open>The transactions of the queue\<close>

lemma enqueue_other_flight:
  assumes "enqueue_tx json_ok p now s = Inr (s', r)" and "e_domain p = None"
  shows "flight_step s s'"
  using assms
  by (auto simp: enqueue_tx_def Let_def bind_Inr insert_with_collision_def
      split: option.splits prod.splits if_splits sum.splits intro!: flight_step_jobs)
    (blast intro: insert_job_flight)+

lemma cancel_tx_flight:
  assumes ok: "jobs_ok (db_jobs s)"
    and tx: "cancel_tx (update_registry now' swept) boot i now s = Inr (s', r)"
  shows "flight_step s s'"
proof -
  from tx obtain j js b where j: "job_row i (db_jobs s) = Inr j"
    and rc: "request_job_cancel i (db_jobs s) = Inr (js, b)"
    by (auto simp: cancel_tx_def Let_def bind_Inr split: if_splits option.splits)
  let ?j1 = "j\<lparr>j_cancel_requested := True\<rparr>"
  note keep = request_job_cancel_flight [OF rc]
  consider (held) "s' = s\<lparr>db_jobs := js\<rparr>"
    | (nobody) js2 d where "finish_job i JobCanceled None None now js = Inr js2"
        "commit_domain (update_registry now' swept) ?j1 JobCanceled (db_domain s) = Inr d"
        "s' = s\<lparr>db_jobs := js2, db_domain := d\<rparr>"
    using tx j rc by (auto simp: cancel_tx_def Let_def bind_Inr split: if_splits option.splits)
  then show ?thesis
  proof cases
    case held
    with keep show ?thesis by (intro flight_step_jobs) simp_all
  next
    case nobody
    have ok2: "jobs_ok js" using ok rc by (rule request_job_cancel_ok)
    from keep j obtain k where k: "k \<in> set js" "same_job j k"
      by (auto simp: keeps_jobs_def dest: job_row_Inr)
    then have "same_job k ?j1" by (simp add: same_job_def)
    moreover have "finish_job (j_id ?j1) JobCanceled None None now js = Inr js2"
      using nobody(1) job_row_Inr [OF j] by simp
    ultimately obtain X where "keeps_jobs X js js2" "ends_rows X (db_domain s) d"
      using finish_pair [OF ok2 k(1)] nobody(2) by blast
    with keeps_jobs_trans [OF keep, of X js2] nobody(3) show ?thesis
      by (intro flight_stepI [of X]) simp_all
  qed
qed

lemma triage_loop_flight:
  assumes "triage_loop (update_registry now ok') at os s = Inr (s', out)" and "jobs_ok (db_jobs s)"
    and "\<forall>j \<in> set os. \<exists>k \<in> set (db_jobs s). same_job k j"
  shows "flight_step s s'"
  using assms
proof (induction os arbitrary: s s' out)
  case Nil
  then show ?case by simp
next
  case (Cons j os)
  then obtain js st d out2 where t: "triage_orphaned_job j at (db_jobs s) = Inr (js, st)"
    and c: "commit_domain (update_registry now ok') j st (db_domain s) = Inr d"
    and l: "triage_loop (update_registry now ok') at os (s\<lparr>db_jobs := js, db_domain := d\<rparr>) = Inr (s', out2)"
    by (auto simp: bind_Inr)
  from Cons.prems(3) obtain k where k: "k \<in> set (db_jobs s)" "same_job k j" by auto
  have "\<exists>X. keeps_jobs X (db_jobs s) js \<and> ends_rows X (db_domain s) d"
  proof (cases "st = JobFailed")
    case True
    with t obtain co m where "finish_job (j_id j) JobFailed co m at (db_jobs s) = Inr js"
      by (auto simp: triage_orphaned_job_def bind_res_eq_Inr split: option.splits job_state.splits)
    with finish_pair [OF Cons.prems(2) k] c True show ?thesis by blast
  next
    case False
    with t have st: "st = JobInterrupted \<or> st = JobQueued" and kj: "keeps_jobs {} (db_jobs s) js"
      by (auto simp: triage_orphaned_job_def bind_res_eq_Inr job_change split: option.splits job_state.splits
          intro!: keeps_jobs_update)
    with commit_domain_keeps [OF c] show ?thesis by blast
  qed
  then obtain X where X: "keeps_jobs X (db_jobs s) js" "ends_rows X (db_domain s) d" by blast
  then have "flight_step s (s\<lparr>db_jobs := js, db_domain := d\<rparr>)" by (intro flight_stepI [of X]) simp_all
  moreover have "flight_step (s\<lparr>db_jobs := js, db_domain := d\<rparr>) s'"
  proof (rule Cons.IH [OF l])
    show "jobs_ok (db_jobs (s\<lparr>db_jobs := js, db_domain := d\<rparr>))"
      using triage_orphaned_job_ok [OF Cons.prems(2) t] by simp
    show "\<forall>j \<in> set os. \<exists>k \<in> set (db_jobs (s\<lparr>db_jobs := js, db_domain := d\<rparr>)). same_job k j"
    proof
      fix x
      assume "x \<in> set os"
      with Cons.prems(3) obtain a where "a \<in> set (db_jobs s)" "same_job a x" by auto
      with X(1) obtain b where "b \<in> set js" "same_job a b" by (auto simp: keeps_jobs_def)
      with \<open>same_job a x\<close> show "\<exists>k \<in> set (db_jobs (s\<lparr>db_jobs := js, db_domain := d\<rparr>)). same_job k x"
        by (auto simp: same_job_def intro!: bexI [of _ b])
    qed
  qed
  ultimately show ?case by (rule flight_step_trans)
qed

lemma recover_orphans_flight:
  assumes "jobs_ok (db_jobs s)" and "recover_orphans_tx (update_registry now ok') boot at s = Inr (s', r)"
  shows "flight_step s s'"
proof (rule triage_loop_flight)
  show "triage_loop (update_registry now ok') at (orphaned_jobs boot (db_jobs s)) s = Inr (s', r)"
    using assms(2) by (simp add: recover_orphans_tx_def)
  show "\<forall>j \<in> set (orphaned_jobs boot (db_jobs s)). \<exists>k \<in> set (db_jobs s). same_job k j"
    by (auto simp: orphaned_jobs_def intro!: bexI)
qed (rule assms)

lemma release_leases_flight: "release_leases_tx boot at s = Inr (s', r) \<Longrightarrow> flight_step s s'"
  by (auto simp: release_leases_tx_def bind_Inr intro!: flight_step_jobs intro: flight_rules)

lemma claim_flight: "claim cfg reg now s = (s', r) \<Longrightarrow> flight_step s s'"
  by (auto simp: claim_def split: if_splits sum.splits intro!: flight_step_jobs intro: flight_rules)

lemma heartbeat_flight: "heartbeat cfg t now s = (s', t') \<Longrightarrow> flight_step s s'"
  by (auto simp: heartbeat_def split: sum.splits intro!: flight_step_jobs intro: flight_rules)

lemma defer_tx_flight: "defer_tx cfg i a now s = Inr (s', r) \<Longrightarrow> flight_step s s'"
  by (auto simp: defer_tx_def bind_Inr intro!: flight_step_jobs intro: flight_rules)


section \<open>The life of a task\<close>

text \<open>What a slot holds: a self-update whose row in the table has its identity.\<close>

definition slot_job :: "jobs \<Rightarrow> task \<Rightarrow> bool" where
  "slot_job js t \<longleftrightarrow> j_kind (t_job t) = JobSelfUpdate \<and> (\<exists>j \<in> set js. same_job j (t_job t))"

text \<open>The outcomes a worker of a self-update can end with.\<close>

definition fails_row :: "string \<Rightarrow> upd_tables outcome \<Rightarrow> bool" where
  "fails_row i out \<longleftrightarrow> o_state out = Some JobFailed \<and> \<not> o_retryable out
     \<and> (\<exists>m now. o_commit out = Some (failRow i m now))"

definition cancels_row :: "string \<Rightarrow> upd_tables outcome \<Rightarrow> bool" where
  "cancels_row i out \<longleftrightarrow> o_state out = Some JobCanceled
     \<and> (\<exists>now ok. o_commit out = Some (canceled_commit i now ok))"

definition defaults_row :: "upd_tables outcome \<Rightarrow> bool" where
  "defaults_row out \<longleftrightarrow> o_commit out = None
     \<and> (o_state out = Some JobQueued \<or> o_state out = Some JobFailed \<or> o_state out = Some JobCanceled)"

definition ending :: "string \<Rightarrow> upd_tables outcome \<Rightarrow> bool" where
  "ending i out \<longleftrightarrow> fails_row i out \<or> cancels_row i out \<or> defaults_row out"

lemma failRow_ends: "failRow i m now JobFailed d = Inr d' \<Longrightarrow> ends_rows {i} d d'"
  by (auto simp: failRow_def intro: finish_domain_ends)

lemma canceled_commit_ends: "canceled_commit i now ok st d = Inr d' \<Longrightarrow> ends_rows {i} d d'"
  by (auto simp: canceled_commit_def intro: finish_domain_ends split: sum.splits if_splits)

lemma commit_outcome_ends:
  assumes "commit_outcome (update_registry now ok) j out st d = Inr d'" and "ending (j_subject_id j) out"
    and "j_kind j = JobSelfUpdate" and "o_state out = Some st" and "st = JobFailed \<or> st = JobCanceled"
  shows "ends_rows {j_subject_id j} d d'"
proof (cases "o_commit out")
  case None
  with assms show ?thesis by (auto simp: commit_outcome_def intro: commit_domain_ends)
next
  case (Some f)
  with assms show ?thesis
    by (auto simp: commit_outcome_def ending_def fails_row_def cancels_row_def defaults_row_def domain_error_def
        intro: failRow_ends canceled_commit_ends split: sum.splits)
qed

lemma close_tx_flight:
  assumes ok: "jobs_ok (db_jobs s)" and sj: "slot_job (db_jobs s) t"
    and e: "ending (j_subject_id (t_job t)) out"
    and c: "close_tx cfg (update_registry now' swept) t out now s = Inr (s', r)"
  shows "flight_step s s'"
proof -
  from e obtain st where st: "o_state out = Some st" "st = JobQueued \<or> st = JobFailed \<or> st = JobCanceled"
    by (auto simp: ending_def fails_row_def cancels_row_def defaults_row_def)
  from sj obtain k where k: "k \<in> set (db_jobs s)" "same_job k (t_job t)" "j_kind (t_job t) = JobSelfUpdate"
    by (auto simp: slot_job_def)
  consider (d) "st = JobQueued"
    | (q) "st = JobFailed" "o_retryable out" "j_attempts (t_job t) < j_max_attempts (t_job t)"
    | (f) "st = JobFailed \<or> st = JobCanceled"
        "\<not> (st = JobFailed \<and> o_retryable out \<and> j_attempts (t_job t) < j_max_attempts (t_job t))"
    using st by blast
  then show ?thesis
  proof cases
    case d
    with c st show ?thesis
      by (auto simp: close_tx_def Let_def bind_res_eq_Inr intro!: flight_step_jobs intro: defer_job_flight)
  next
    case q
    with e st have "o_commit out = None" by (auto simp: ending_def fails_row_def cancels_row_def defaults_row_def)
    with c st q show ?thesis
      by (auto simp: close_tx_def Let_def bind_res_eq_Inr commit_outcome_def
          intro!: flight_stepI [of "{}"] intro: requeue_job_flight commit_domain_keeps)
  next
    case f
    with c st obtain js d co m where fin: "finish_job (j_id (t_job t)) st co m now (db_jobs s) = Inr js"
      and dom: "commit_outcome (update_registry now' swept) (t_job t) out st (db_domain s) = Inr d"
      and s': "s' = s\<lparr>db_jobs := js, db_domain := d\<rparr>"
      by (auto simp: close_tx_def Let_def bind_res_eq_Inr split: if_splits)
    have "keeps_jobs {j_subject_id (t_job t)} (db_jobs s) js"
    proof (rule finish_job_flight [OF fin])
      fix l
      assume "l \<in> set (db_jobs s)" "j_id l = j_id (t_job t)"
      with k ok have "l = k" by (auto simp: same_job_def dest: job_id_unique)
      with k show "j_subject_id l \<in> {j_subject_id (t_job t)}" by (simp add: same_job_def)
    qed
    moreover have "ends_rows {j_subject_id (t_job t)} (db_domain s) d"
      by (rule commit_outcome_ends [OF dom e k(3) st(1) f(1)])
    ultimately show ?thesis by (intro flight_stepI) (simp_all add: s')
  qed
qed

lemma recover_unclosed_flight:
  assumes "slot_job (db_jobs s) t"
    and "recover_unclosed_tx (update_registry now' swept) t cause now s = Inr (s', r)"
  shows "flight_step s s'"
  using assms
  by (auto simp: recover_unclosed_tx_def Let_def bind_res_eq_Inr slot_job_def
      intro!: flight_stepI [of "{}"] intro: set_job_interrupted_flight commit_domain_keeps)

lemma resolve_outcome_ending:
  assumes "resolve_outcome t shutting out err = Some o1" and "err = None \<Longrightarrow> ending i out"
    and "err \<noteq> None \<Longrightarrow> o_commit out = None"
  shows "ending i o1"
  using assms
  by (auto simp: resolve_outcome_def Let_def ending_def fails_row_def cancels_row_def defaults_row_def
      deferred_def canceled_outcome_def retryable_failure_def empty_outcome_def
      split: option.splits run_error.splits if_splits)

lemma finish_flight:
  assumes "jobs_ok (db_jobs s)" and "slot_job (db_jobs s) t"
    and "err = None \<Longrightarrow> ending (j_subject_id (t_job t)) out" and "err \<noteq> None \<Longrightarrow> o_commit out = None"
  shows "flight_step s (finish cls cfg (update_registry now' swept) t shutting w out err now s)"
proof (cases "t_lease_lost t")
  case False
  show ?thesis
  proof (cases "resolve_outcome t shutting out err")
    case (Some o1)
    note e = resolve_outcome_ending [OF Some assms(3,4)]
    show ?thesis
    proof (cases "stored (w 0) (close_tx cfg (update_registry now' swept) t o1 now s)")
      case (Inl x)
      with False Some show ?thesis
        by (auto simp: finish_def transact_def intro: recover_unclosed_flight [OF assms(2)] split: sum.splits)
    next
      case (Inr p)
      with False Some close_tx_flight [OF assms(1,2) e] show ?thesis
        by (cases p) (auto simp: finish_def)
    qed
  qed (use False in \<open>simp add: finish_def\<close>)
qed (simp add: finish_def)

text \<open>The worker of a self-update has no start of its own.\<close>

lemma update_start_tx_cases:
  assumes tx: "start_tx cfg (update_registry now' swept) t now s = Inr (s', r)"
  obtains (same) "s' = s" "r = NotStarted"
    | (canceled) cur js d where "cur \<in> set (db_jobs s)"
        "finish_job (j_id cur) JobCanceled None None now (db_jobs s) = Inr js"
        "commit_domain (update_registry now' swept) cur JobCanceled (db_domain s) = Inr d"
        "s' = s\<lparr>db_jobs := js, db_domain := d\<rparr>" "r = CanceledBeforeStart"
    | (raced) cur :: job and js where "start_job (j_id cur) (q_boot cfg) now (db_jobs s) = Inr (js, False)"
        "s' = s\<lparr>db_jobs := js\<rparr>" "r = NotStarted"
    | (started) cur js where "cur \<in> set (db_jobs s)" "j_id cur = j_id (t_job t)"
        "start_job (j_id cur) (q_boot cfg) now (db_jobs s) = Inr (js, True)"
        "s' = s\<lparr>db_jobs := js\<rparr>" "r = Started (cur\<lparr>j_state := JobRunning,
           j_started_at := (case j_started_at cur of None \<Rightarrow> Some now | Some x \<Rightarrow> Some x)\<rparr>)"
proof -
  from tx obtain cur where cur: "job_row (j_id (t_job t)) (db_jobs s) = Inr cur"
    by (auto simp: start_tx_def bind_res_eq_Inr)
  note row = job_row_Inr [OF cur]
  have nostart: "Option.bind (update_registry now' swept (j_kind cur)) worker.w_start = None"
    by (simp add: update_registry_def update_worker_def)
  show thesis
  proof (cases "j_state cur \<noteq> JobLeased \<or> j_lease_owner cur \<noteq> Some (q_boot cfg)")
    case True
    with tx cur show thesis by (intro same) (simp_all add: start_tx_def)
  next
    case mine: False
    show thesis
    proof (cases "j_cancel_requested cur")
      case True
      with tx cur mine row show thesis using canceled [of cur] by (auto simp: start_tx_def bind_res_eq_Inr)
    next
      case False
      with tx cur mine obtain js ok where st: "start_job (j_id cur) (q_boot cfg) now (db_jobs s) = Inr (js, ok)"
        by (cases "start_job (j_id cur) (q_boot cfg) now (db_jobs s)") (auto simp: start_tx_def)
      with tx cur mine False nostart show thesis
        using raced [of cur js] started [of cur js] row
        by (cases ok) (auto simp: start_tx_def Let_def)
    qed
  qed
qed

lemma start_tx_flight:
  assumes ok: "jobs_ok (db_jobs s)"
    and tx: "start_tx cfg (update_registry now' swept) t now s = Inr (s', r)"
  shows "flight_step s s'"
  using tx
proof (cases rule: update_start_tx_cases)
  case (canceled cur js d)
  obtain X where "keeps_jobs X (db_jobs s) js" "ends_rows X (db_domain s) d"
    using finish_pair [OF ok canceled(1) same_job_refl canceled(2,3)] by blast
  with canceled(4) show ?thesis by (intro flight_stepI [of X]) simp_all
next
  case (started cur js)
  then show ?thesis by (intro flight_step_jobs) (auto intro: start_job_flight)
qed (auto intro!: flight_step_jobs intro: start_job_flight)

lemma begin_task_flight:
  assumes ok: "jobs_ok (db_jobs s)" and sj: "slot_job (db_jobs s) t"
    and b: "begin_task cls cfg (update_registry now' swept) t shutting w now s = (s', v)"
  shows "flight_step s s'"
proof -
  have fin: "flight_step s (finish cls cfg (update_registry now' swept) t shutting w1 empty_outcome (Some x) now s)" for x w1
    by (rule finish_flight [OF ok sj]) (simp_all add: empty_outcome_def)
  have reg: "update_registry now' swept (j_kind (t_job t)) \<noteq> None"
    using sj by (simp add: slot_job_def update_registry_def)
  show ?thesis
  proof (cases "stored (w 0) (start_tx cfg (update_registry now' swept) t now s)")
    case (Inl e)
    with b reg fin show ?thesis by (auto simp: begin_task_def)
  next
    case (Inr p)
    then obtain s1 r where p: "start_tx cfg (update_registry now' swept) t now s = Inr (s1, r)" and w: "w 0"
      by (cases p) auto
    note f1 = start_tx_flight [OF ok p]
    have "\<nexists>a. r = DeferFor a" using p by (cases rule: update_start_tx_cases) auto
    with b reg p w f1 show ?thesis by (cases r) (auto simp: begin_task_def)
  qed
qed

end
