(* ===== verification/Update_Invariant.thy ===== *)
theory Update_Invariant
  imports Update_Flight Job_Properties
begin

text \<open>
  The invariant of a host over all its runs: the table of jobs is well formed, at most one
  self-update is not over and its job is live, every slot holds a self-update of the table, and
  every worker works on the row its slot names. Every event of the host keeps it, so at most one
  self-update is ever in flight.
\<close>

section \<open>What every transaction keeps\<close>

definition flight_ok :: "updb \<Rightarrow> bool" where
  "flight_ok db \<longleftrightarrow> jobs_ok (db_jobs db) \<and> one_flight db \<and> list_all (\<lambda>u. su_ID u \<noteq> []) (ut_rows (db_domain db))"

definition moves :: "updb \<Rightarrow> updb \<Rightarrow> bool" where
  "moves a b \<longleftrightarrow> (flight_ok a \<longrightarrow> flight_ok b \<and> keeps_jobs UNIV (db_jobs a) (db_jobs b))"

lemma moves_refl [simp, intro]: "moves a a"
  by (auto simp: moves_def)

lemma moves_trans: "moves a b \<Longrightarrow> moves b c \<Longrightarrow> moves a c"
  by (auto simp: moves_def dest: keeps_jobs_trans)

lemma flight_step_keeps: "flight_step a b \<Longrightarrow> keeps_jobs UNIV (db_jobs a) (db_jobs b)"
  unfolding flight_step_def using keeps_jobs_mono by blast

lemma flight_step_ids:
  assumes "flight_step a b" and "list_all (\<lambda>u. su_ID u \<noteq> []) (ut_rows (db_domain a))"
  shows "list_all (\<lambda>u. su_ID u \<noteq> []) (ut_rows (db_domain b))"
proof -
  from assms(1) obtain f where "ut_rows (db_domain b) = map f (ut_rows (db_domain a))" "\<And>u. su_ID (f u) = su_ID u"
    unfolding flight_step_def ends_rows_def by blast
  with assms(2) show ?thesis by (simp add: list_all_iff)
qed

lemma movesI:
  assumes "jobs_ok (db_jobs a) \<Longrightarrow> jobs_ok (db_jobs b) \<and> flight_step a b"
  shows "moves a b"
  using assms flight_step_live [of a b] flight_step_keeps [of a b] flight_step_ids [of a b]
  by (auto simp: moves_def flight_ok_def)

lemma moves_transact:
  "(\<And>b r. f a = Inr (b, r) \<Longrightarrow> moves a b) \<Longrightarrow> moves a (fst (transact f a))"
  by (auto simp: transact_def split: sum.splits)

lemma moves_domain: "ends_rows {} (db_domain a) d \<Longrightarrow> moves a (a\<lparr>db_domain := d\<rparr>)"
  by (rule movesI) (auto intro!: flight_stepI [of "{}"])

lemma same_job_trans: "same_job a b \<Longrightarrow> same_job b c \<Longrightarrow> same_job a c"
  by (simp add: same_job_def)

lemma slot_job_moves:
  assumes "moves a b" and "flight_ok a" and "slot_job (db_jobs a) t"
  shows "slot_job (db_jobs b) t"
proof -
  from assms(3) obtain j where j: "j \<in> set (db_jobs a)" "same_job j (t_job t)" "j_kind (t_job t) = JobSelfUpdate"
    by (auto simp: slot_job_def)
  with assms(1,2) obtain k where "k \<in> set (db_jobs b)" "same_job j k"
    by (auto simp: moves_def keeps_jobs_def)
  with j show ?thesis by (auto simp: slot_job_def same_job_def intro!: bexI [of _ k])
qed

section \<open>The gate\<close>

lemma finishRow_cases:
  assumes "finishRow i rs st c m now db = Inr (db', r)"
  obtains (none) "i = []" and "db' = db"
  | (rows) t b where "i \<noteq> []" and "FinishSelfUpdate i rs m now (db_domain db) = Inr (t, b)"
      and "db' = db\<lparr>db_domain := t\<rparr>"
  | (both) t b j js where "i \<noteq> []" and "FinishSelfUpdate i rs m now (db_domain db) = Inr (t, b)"
      and "SelfUpdateJob i (db_jobs db) = Inr j" and "\<not> is_terminal (j_state j)"
      and "finish_job (j_id j) st (str_ptr c) m now (db_jobs db) = Inr js"
      and "db' = db\<lparr>db_jobs := js, db_domain := t\<rparr>"
proof (cases "i = []")
  case True
  with assms show thesis by (intro none) (simp_all add: finishRow_def)
next
  case False
  with assms obtain t b where f: "FinishSelfUpdate i rs m now (db_domain db) = Inr (t, b)"
    by (auto simp: finishRow_def bind_res_eq_Inr)
  show thesis
    using assms f False rows [OF False f] both [OF False f]
    by (cases b) (auto simp: finishRow_def bind_res_eq_Inr split: sum.splits if_splits)
qed

lemma SelfUpdateJob_row:
  assumes "SelfUpdateJob i js = Inr j" and "i \<noteq> []"
  shows "j \<in> set js" and "j_subject_id j = i" and "j_kind j = JobSelfUpdate"
proof -
  from assms(1) have "j \<in> set (jobs_list \<lparr>f_states = [], f_kinds = [JobSelfUpdate],
        f_subject_type = Some SubjectSelfUpdate, f_subject_id = i, f_limit = 1\<rparr> js)"
    by (auto simp: SelfUpdateJob_def split: list.splits)
  with assms(2) show "j \<in> set js" and "j_subject_id j = i" and "j_kind j = JobSelfUpdate"
    by (auto simp: jobs_list_def Let_def dest!: in_set_takeD)
qed

lemma finishRow_moves:
  assumes "finishRow i rs st c m now db = Inr (db', r)"
  shows "moves db db'"
proof (rule movesI)
  assume ok: "jobs_ok (db_jobs db)"
  from assms show "jobs_ok (db_jobs db') \<and> flight_step db db'"
  proof (cases rule: finishRow_cases)
    case none
    with ok show ?thesis by simp
  next
    case (rows t b)
    with FinishSelfUpdate_ends [OF rows(2)] ok show ?thesis by (auto intro!: flight_stepI [of "{i}"])
  next
    case (both t b j js)
    have "keeps_jobs {i} (db_jobs db) js"
      by (rule finish_job_flight [OF both(5)])
        (use SelfUpdateJob_row [OF both(3,1)] job_id_unique [OF ok] in blast)
    with FinishSelfUpdate_ends [OF both(2)] both(5,6) ok show ?thesis
      by (auto intro!: flight_stepI [of "{i}"] intro: finish_job_ok)
  qed
qed

lemma close_all_moves:
  assumes "close_all now os db = Inr db'"
    and "\<forall>(u, i) \<in> set os. \<exists>k \<in> set (db_jobs db). j_id k = i \<and> j_subject_id k = u"
  shows "moves db db'"
proof (rule movesI)
  assume "jobs_ok (db_jobs db)"
  with assms show "jobs_ok (db_jobs db') \<and> flight_step db db'"
  proof (induction os arbitrary: db)
    case Nil
    then show ?case by simp
  next
    case (Cons p os)
    obtain u i where p: "p = (u, i)" by fastforce
    with Cons.prems(1) obtain t b js
      where f: "FinishSelfUpdate u UpdateFailed (Some orphan_message) now (db_domain db) = Inr (t, b)"
        and fj: "finish_job i JobFailed (Some CodeDaemonRestarted) (Some orphan_message) now (db_jobs db) = Inr js"
        and rest: "close_all now os (db\<lparr>db_jobs := js, db_domain := t\<rparr>) = Inr db'"
      by (auto simp: bind_res_eq_Inr)
    from Cons.prems(2) p obtain k where k: "k \<in> set (db_jobs db)" "j_id k = i" "j_subject_id k = u" by auto
    have kj: "keeps_jobs {u} (db_jobs db) js"
      by (rule finish_job_flight [OF fj]) (use k job_id_unique [OF Cons.prems(3)] in blast)
    have "\<forall>(u, i) \<in> set os. \<exists>k \<in> set js. j_id k = i \<and> j_subject_id k = u"
    proof safe
      fix v l
      assume "(v, l) \<in> set os"
      with Cons.prems(2) obtain a where "a \<in> set (db_jobs db)" "j_id a = l" "j_subject_id a = v" by auto
      with kj show "\<exists>k \<in> set js. j_id k = l \<and> j_subject_id k = v"
        unfolding keeps_jobs_def same_job_def by metis
    qed
    moreover have "jobs_ok js" using finish_job_ok [OF Cons.prems(3) fj] .
    ultimately have "jobs_ok (db_jobs db') \<and> flight_step (db\<lparr>db_jobs := js, db_domain := t\<rparr>) db'"
      using Cons.IH [OF rest] by simp
    moreover have "flight_step db (db\<lparr>db_jobs := js, db_domain := t\<rparr>)"
      using kj FinishSelfUpdate_ends [OF f] by (intro flight_stepI [of "{u}"]) simp_all
    ultimately show ?case by (blast intro: flight_step_trans)
  qed
qed

lemma closeOrphans_moves: "closeOrphans excl now db = Inr (db', n) \<Longrightarrow> moves db db'"
  unfolding closeOrphans_def Let_def bind_res_eq_Inr
  by (auto intro!: close_all_moves) (auto simp: OrphanedSelfUpdates_def su_job_def)

lemma append_event_moves: "moves db (append_event v db)"
  unfolding append_event_def
  by (rule moves_domain) (auto simp: ends_rows_def intro!: exI [of _ "\<lambda>u. u"])

lemma notification_moves: "AppendNotification n (db_domain db) = Inr t \<Longrightarrow> moves db (db\<lparr>db_domain := t\<rparr>)"
  by (rule moves_domain) (auto simp: AppendNotification_def ends_rows_def split: if_splits intro!: exI [of _ "\<lambda>u. u"])

lemma branch_tx_moves:
  assumes "branch_tx b g e k db = Inr (db', r)"
  shows "moves db db'"
proof (cases b)
  case BranchConfirmed
  with assms obtain m db1 moved db2 n where "taken_marker k = Some m"
    and 1: "finishRow (mk_SelfUpdateID m) UpdateSucceeded JobSucceeded [] None (rv_now e) db = Inr (db1, moved)"
    and 2: "db2 = (if moved then append_event (confirmed_event (rv_now e) m) db1 else db1)"
    and 3: "closeOrphans (mk_SelfUpdateID m) (rv_now e) db2 = Inr (db', n)"
    by (auto simp: branch_tx_def confirmed_tx_def Let_def bind_res_eq_Inr split: option.splits)
  have "moves db1 db2" using 2 by (simp add: append_event_moves)
  with finishRow_moves [OF 1] closeOrphans_moves [OF 3] show ?thesis by (auto intro: moves_trans)
next
  case BranchNotApplied
  with assms obtain db1 moved db2 t n
    where 1: "finishRow (marker_id (taken_marker k)) UpdateFailed JobFailed CodeUpdateNotApplied
                 (Some (notAppliedMessage g (taken_marker k))) (rv_now e) db = Inr (db1, moved)"
    and 2: "db2 = append_event (refused_event g e (taken_marker k)) db1"
    and 3: "AppendNotification (f24 g e (taken_marker k)) (db_domain db2) = Inr t"
    and 4: "closeOrphans (marker_id (taken_marker k)) (rv_now e) (db2\<lparr>db_domain := t\<rparr>) = Inr (db', n)"
    by (auto simp: branch_tx_def notApplied_tx_def Let_def bind_res_eq_Inr)
  have "moves db1 db2" using 2 by (simp add: append_event_moves)
  with finishRow_moves [OF 1] notification_moves [OF 3] closeOrphans_moves [OF 4]
  show ?thesis by (auto intro: moves_trans)
qed (use assms in \<open>auto simp: branch_tx_def closing_tx_def bind_res_eq_Inr intro: closeOrphans_moves\<close>)

lemma resolve_commit_moves: "resolve_commit w e g db d = (g', db', r) \<Longrightarrow> moves db db'"
  by (auto simp: resolve_commit_def store_write_def transact_def intro: branch_tx_moves
      split: prod.splits sum.splits if_splits)

lemma Resolve_moves: "Resolve w e g db d = (g', db', d', r) \<Longrightarrow> moves db db'"
  by (auto simp: Resolve_def intro: resolve_commit_moves split: prod.splits sum.splits option.splits)

section \<open>The endpoint\<close>

text \<open>The guard lets an apply through when no row is live: the new row is the only one, and its job is queued.\<close>

lemma apply_tx_moves:
  assumes "apply_tx json_ok g r db = (db', res)"
  shows "moves db db'"
proof (cases res)
  case (Inl x)
  with assms have "db' = db" by (auto simp: apply_tx_def transact_def split: sum.splits)
  then show ?thesis by simp
next
  case (Inr p)
  with assms have g: "guard (ap_guard r) db = None"
    and e: "enqueue_tx json_ok (apply_params g r) (ap_now r) db = Inr (db', p)"
    by (auto simp: apply_tx_def transact_def split: sum.splits if_splits option.splits)
  obtain j b where p: "p = (j, b)" by (cases p)
  show ?thesis
  proof (cases b)
    case True
    with e p have "db' = db"
      by (auto simp: enqueue_tx_def Let_def bind_res_eq_Inr split: option.splits prod.splits if_splits sum.splits)
    then show ?thesis by simp
  next
    case False
    with e p obtain d where j: "j_kind j = JobSelfUpdate" "j_subject_id j = ap_id r" "j_state j = JobQueued"
      and js: "db_jobs db' = db_jobs db @ [j]"
      and d: "InsertSelfUpdate (update_row g r) (db_domain db) = Inr d" "db_domain db' = d" and id: "ap_id r \<noteq> []"
      by (auto simp: enqueue_tx_def Let_def bind_res_eq_Inr apply_params_def domain_error_def new_job_def
          dest!: insert_with_collision_row(1)
          split: option.splits prod.splits if_splits sum.splits)
    show ?thesis unfolding moves_def
    proof
      assume ok: "flight_ok db"
      have "CountLiveSelfUpdates db = 0" using g by (simp add: guard_def split: if_splits)
      with ok have dead: "\<forall>u \<in> set (ut_rows (db_domain db)). \<not> su_live u"
        by (auto simp: CountLiveSelfUpdates_def flight_ok_def one_flight_def filter_empty_conv)
      have rows: "ut_rows d = ut_rows (db_domain db) @ [update_row g r]"
        using d(1) by (auto simp: InsertSelfUpdate_def split: if_splits)
      have "in_flight (db_jobs db') (update_row g r)"
        using j by (auto simp: in_flight_def js su_job_def su_live_def update_row_def)
      with dead have "one_flight db'"
        by (auto simp: one_flight_def d(2) rows filter_empty_conv cong: filter_cong)
      moreover have "list_all (\<lambda>u. su_ID u \<noteq> []) (ut_rows (db_domain db'))"
        using ok id by (simp add: flight_ok_def d(2) rows update_row_def)
      moreover have "jobs_ok (db_jobs db')" using ok e by (auto simp: flight_ok_def intro: enqueue_tx_ok)
      moreover have "keeps_jobs UNIV (db_jobs db) (db_jobs db')"
        by (auto simp: keeps_jobs_def js intro!: bexI)
      ultimately show "flight_ok db' \<and> keeps_jobs UNIV (db_jobs db) (db_jobs db')" by (simp add: flight_ok_def)
    qed
  qed
qed

lemma ApplyUpdate_moves:
  assumes "ApplyUpdate json_ok w e r stuck g db d = (g', db', d', res)"
  shows "moves db db'"
proof (cases "ap_Tag r = []")
  case True
  with assms show ?thesis by (auto simp: ApplyUpdate_def)
next
  case False
  obtain g1 db1 d1 x where r: "Resolve w e g db d = (g1, db1, d1, x)" by (metis prod_cases4)
  obtain db2 y where a: "apply_tx json_ok g1 r db1 = (db2, y)" by fastforce
  have "db' = db1 \<or> db' = db2"
    using assms False r a by (auto simp: ApplyUpdate_def split: sum.splits prod.splits option.splits bool.splits if_splits)
  with Resolve_moves [OF r] apply_tx_moves [OF a] show ?thesis by (auto intro: moves_trans)
qed

section \<open>The worker\<close>

lemma set_phase_moves:
  assumes "set_phase json_ok pr e job i st next k db = (db', r)" and "\<not> su_terminal st"
  shows "moves db db'"
proof -
  let ?d = "db\<lparr>db_domain := fst (SetSelfUpdateState i st (db_domain db))\<rparr>"
  have 1: "moves db ?d" by (rule moves_domain) (rule SetSelfUpdateState_ends [OF assms(2)])
  have 2: "moves ?d (?d\<lparr>db_jobs := js\<rparr>)" if "set_job_progress json_ok job (Some (pr st)) (db_jobs ?d) = Inr js" for js
    by (rule movesI) (use that in \<open>auto intro: set_job_progress_ok intro!: flight_step_jobs set_job_progress_flight\<close>)
  show ?thesis
  proof (cases "we_row_ok e \<and> we_progress_ok e")
    case True
    show ?thesis
    proof (cases "set_job_progress json_ok job (Some (pr st)) (db_jobs ?d)")
      case (Inl x)
      with assms(1) True have "db' = ?d" by (simp add: set_phase_def)
      with 1 show ?thesis by simp
    next
      case (Inr js)
      with assms(1) True have "db' = ?d\<lparr>db_jobs := js\<rparr>" by (simp add: set_phase_def)
      with moves_trans [OF 1 2 [OF Inr]] show ?thesis by simp
    qed
  next
    case False
    with assms(1) have "db' = db \<or> db' = ?d" by (auto simp: set_phase_def Let_def split: if_splits)
    with 1 show ?thesis by auto
  qed
qed

lemma record_artifacts_moves: "record_artifacts e i a next k db = (db', r) \<Longrightarrow> moves db db'"
  by (auto simp: record_artifacts_def intro!: moves_domain SetSelfUpdateArtifacts_ends split: if_splits)

lemma set_phase_result:
  "set_phase json_ok pr e job i st next k db = (db', r) \<Longrightarrow> r = work_error e \<or> r = WorkGo (k\<lparr>wk_Phase := next\<rparr>)"
  by (auto simp: set_phase_def Let_def split: if_splits sum.splits)

lemma record_artifacts_result:
  "record_artifacts e i a next k db = (db', r) \<Longrightarrow> r = work_error e \<or> r = WorkGo (k\<lparr>wk_Phase := next\<rparr>)"
  by (auto simp: record_artifacts_def split: if_splits)

text \<open>What a step of the worker on the row \<open>i\<close> may return.\<close>

definition fair_result :: "string \<Rightarrow> work_result \<Rightarrow> bool" where
  "fair_result i r = (case r of WorkGo k \<Rightarrow> wk_ID k = i | WorkEnd out \<Rightarrow> ending i out | WorkError _ \<Rightarrow> True)"

lemma fair_simps [simp]:
  "fair_result i (WorkGo k) \<longleftrightarrow> wk_ID k = i" "fair_result i (WorkEnd out) \<longleftrightarrow> ending i out"
  "fair_result i (WorkError x)" "fair_result i (work_error e)"
  by (simp_all add: fair_result_def work_error_def)

lemma failed_ends: "ending i (failed_outcome code msg (failRow i m now))"
proof -
  have "fails_row i (failed_outcome code msg (failRow i m now))"
    by (auto simp: fails_row_def failed_outcome_def empty_outcome_def)
  then show ?thesis by (simp add: ending_def)
qed

lemma work_failed_fair: "work_failed e k code msg row_msg db = (db', r) \<Longrightarrow> db' = db \<and> fair_result (wk_ID k) r"
  by (auto simp: work_failed_def failed_ends)

lemma canceled_fair:
  "fair_result i (WorkEnd (canceled_outcome (Some (canceled_commit i now ok))))"
proof -
  have "cancels_row i (canceled_outcome (Some (canceled_commit i now ok)))"
    by (auto simp: cancels_row_def canceled_outcome_def empty_outcome_def)
  then show ?thesis by (simp add: ending_def)
qed

lemma work_step_moves:
  assumes "work_step json_ok pr w g e t ph k db d = (db', d', r)"
  shows "moves db db' \<and> fair_result (wk_ID k) r"
proof -
  note failed = work_failed_fair [of e k _ _ _ _ db' r]
  note phase = set_phase_moves [of json_ok pr e _ "wk_ID k" _ _ k db db' r]
    set_phase_result [of json_ok pr e _ "wk_ID k" _ _ k db db' r]
  note arts = record_artifacts_moves [of e "wk_ID k" _ _ k db db' r]
    record_artifacts_result [of e "wk_ID k" _ _ k db db' r]
  show ?thesis
  proof (cases ph)
    case PhVerify
    show ?thesis
    proof (cases "VerifyStaged w (work_tarball e k) (we_keys e) (we_dirs e 0) (we_dirs e 1) (we_dirs e 2)")
      case (Inl x)
      let ?r = "record_artifacts e (wk_ID k) (no_artifacts\<lparr>ar_SignatureOK := Some False\<rparr>) PhVerify k db"
      have "moves db (fst ?r)" by (rule record_artifacts_moves [of _ _ _ _ _ _ _ "snd ?r"]) simp
      with assms PhVerify Inl work_failed_fair [of e k _ _ _ "fst ?r" db' r] show ?thesis
        by (auto simp: Let_def split: prod.splits)
    qed (use assms PhVerify in auto)
  next
    case PhCancelPoint
    with assms show ?thesis by (auto split: if_splits intro: canceled_fair)
  next
    case PhFetch
    with assms show ?thesis by (auto split: option.splits if_splits prod.splits dest: failed)
  next
    case (PhProbe digest)
    with assms show ?thesis by (auto simp: Let_def split: sum.splits if_splits prod.splits dest: failed)
  next
    case PhMarker
    with assms show ?thesis by (auto split: option.splits prod.splits dest: failed)
  next
    case PhBegin
    with assms show ?thesis by (cases "we_swap e") (auto split: prod.splits dest: failed)
  qed (use assms in \<open>auto split: option.splits sum.splits prod.splits if_splits dest: failed phase arts\<close>)
qed

section \<open>The queue\<close>

definition slots_fit :: "upd_tables engine \<Rightarrow> bool" where
  "slots_fit en \<longleftrightarrow> (\<forall>n sl. e_slots en n = Some sl \<longrightarrow> slot_job (db_jobs (e_db en)) (s_task sl))"

definition engine_fit :: "upd_tables engine \<Rightarrow> bool" where
  "engine_fit en \<longleftrightarrow> flight_ok (e_db en) \<and> slots_fit en"

lemma engine_fit_put_db: "engine_fit en \<Longrightarrow> moves (e_db en) db \<Longrightarrow> engine_fit (put_db en db)"
  by (auto simp: engine_fit_def slots_fit_def intro: slot_job_moves) (simp add: moves_def)

lemma engine_fit_slot:
  assumes "engine_fit en" and "moves (e_db en) db" and "\<And>sl. v = Some sl \<Longrightarrow> slot_job (db_jobs db) (s_task sl)"
  shows "engine_fit (put_slot n v (put_db en db))"
  using engine_fit_put_db [OF assms(1,2)] assms(3) by (simp add: engine_fit_def slots_fit_def)

lemma update_kinds [simp]: "registered_kinds (update_registry now ok) = [JobSelfUpdate]"
  by (simp add: registered_kinds_def update_registry_def job_kind_values_def)

lemma claim_slot:
  assumes ok: "jobs_ok (db_jobs db)" and c: "claim cfg (update_registry now' ok') now db = (db', Inr (Some t))"
  shows "slot_job (db_jobs db') t"
proof -
  let ?p = "\<lparr>p_owner = q_boot cfg, p_kinds = registered_kinds (update_registry now' ok'),
     p_now = now, p_lease_expires_at = now + q_lease_ttl cfg\<rparr>"
  from c obtain js where l: "lease_next_job ?p (db_jobs db) = Inr (js, t_job t)" and d: "db_jobs db' = js"
    by (auto simp: claim_def split: if_splits sum.splits)
  from l obtain x xs n where f: "filter (leasable ?p) (db_jobs db) = x # xs"
    and u: "sql_update (\<lambda>j. j_id j = j_id (arg_min_list lease_order (x # xs))) (take_lease ?p) (db_jobs db) = Inr (js, n)"
    and t: "t_job t = take_lease ?p (arg_min_list lease_order (x # xs))"
    by (auto simp: lease_next_job_def Let_def bind_res_eq_Inr split: list.splits)
  let ?w = "arg_min_list lease_order (x # xs)"
  have "?w \<in> set (filter (leasable ?p) (db_jobs db))"
    unfolding f using arg_min_list_correct [of "x # xs" lease_order] by simp
  then have w: "?w \<in> set (db_jobs db)" "leasable ?p ?w" by simp_all
  then have "j_kind ?w = JobSelfUpdate" by (simp add: leasable_def)
  moreover have "take_lease ?p ?w \<in> set js"
    using u w(1) by (auto simp: sql_update_Inr set_update_rows)
  ultimately show ?thesis
    unfolding slot_job_def d t by (auto simp: same_job_def take_lease_def intro!: bexI [of _ "take_lease ?p ?w"])
qed

lemma begin_task_slot:
  assumes ok: "jobs_ok (db_jobs s)" and sj: "slot_job (db_jobs s) t"
    and b: "begin_task cls cfg (update_registry now' swept) t shutting w now s = (s', Some sl)"
  shows "slot_job (db_jobs s') (s_task sl)"
proof -
  from b obtain j where st: "start_tx cfg (update_registry now' swept) t now s = Inr (s', Started j)"
    and sl: "sl = \<lparr>s_task = t\<lparr>t_job := j\<rparr>, s_running = True\<rparr>"
    by (auto simp: begin_task_def split: option.splits sum.splits start_outcome_tx.splits)
  from st show ?thesis
  proof (cases rule: update_start_tx_cases)
    case (started cur js)
    from sj obtain k where k: "k \<in> set (db_jobs s)" "same_job k (t_job t)" "j_kind (t_job t) = JobSelfUpdate"
      by (auto simp: slot_job_def)
    with started(1,2) have "cur = k" using job_id_unique [OF ok] by (auto simp: same_job_def)
    moreover from start_job_flight [OF started(3)] started(1) obtain l where "l \<in> set js" "same_job cur l"
      by (auto simp: keeps_jobs_def)
    ultimately show ?thesis using k started(4,5) sl
      by (auto simp: slot_job_def same_job_def intro!: bexI [of _ l])
  qed simp_all
qed

text \<open>What a worker may hand to \<open>finish\<close>.\<close>

definition fair_end :: "task \<Rightarrow> upd_tables outcome \<Rightarrow> run_error option \<Rightarrow> bool" where
  "fair_end t out err \<longleftrightarrow> (err = None \<longrightarrow> ending (j_subject_id (t_job t)) out) \<and> (err \<noteq> None \<longrightarrow> o_commit out = None)"

fun queued_event :: "upd_tables engine \<Rightarrow> upd_tables event \<Rightarrow> bool" where
  "queued_event en (EvFinish n shutting w out err now) \<longleftrightarrow>
     (\<forall>sl. e_slots en n = Some sl \<longrightarrow> fair_end (s_task sl) out err)"
| "queued_event en ev \<longleftrightarrow> queue_event StServing ev"

lemma queue_event_queued: "queue_event s ev \<Longrightarrow> queued_event en ev"
  by (cases ev) auto

lemma flight_moves: "(jobs_ok (db_jobs a) \<Longrightarrow> flight_step a b) \<Longrightarrow> (jobs_ok (db_jobs a) \<Longrightarrow> jobs_ok (db_jobs b)) \<Longrightarrow> moves a b"
  by (rule movesI) simp

lemma job_step_fit:
  assumes en: "engine_fit en" and ev: "queued_event en ev"
  shows "engine_fit (job_step json_ok cls cfg (update_registry now' swept) ev en)"
proof -
  have ok: "jobs_ok (db_jobs (e_db en))" using en by (simp add: engine_fit_def flight_ok_def)
  have sj: "slot_job (db_jobs (e_db en)) (s_task sl)" if "e_slots en n = Some sl" for n sl
    using en that by (auto simp: engine_fit_def slots_fit_def)
  note put = engine_fit_put_db [OF en] and slot = engine_fit_slot [OF en]
  show ?thesis
  proof (cases ev)
    case (EvEnqueue p now)
    then have "e_domain p = None" using ev by simp
    with EvEnqueue show ?thesis
      by (auto intro!: put moves_transact flight_moves intro: enqueue_other_flight enqueue_tx_ok)
  next
    case (EvCancel i now)
    then show ?thesis
      by (auto intro!: put moves_transact flight_moves intro: cancel_tx_flight cancel_tx_ok)
  next
    case (EvRelease now)
    then show ?thesis
      by (auto intro!: put moves_transact flight_moves intro: release_leases_flight release_leases_tx_ok)
  next
    case (EvProgress i p)
    have "moves (e_db en) ((e_db en)\<lparr>db_jobs := js\<rparr>)" if "set_job_progress json_ok i (Some p) (db_jobs (e_db en)) = Inr js" for js
      by (rule flight_moves) (use that in \<open>auto intro!: flight_step_jobs intro: set_job_progress_ok set_job_progress_flight\<close>)
    with EvProgress en show ?thesis by (auto intro!: put split: sum.splits)
  next
    case (EvClaim n now)
    have "moves (e_db en) d" if "claim cfg (update_registry now' swept) now (e_db en) = (d, r)" for d r
      by (rule flight_moves) (use that in \<open>auto intro: claim_flight claim_ok\<close>)
    with EvClaim en show ?thesis
      by (auto intro!: slot intro: claim_slot [OF ok] split: option.splits prod.splits sum.splits)
  next
    case (EvStart n shutting w now)
    show ?thesis
    proof (cases "e_slots en n")
      case (Some sl)
      obtain d v where b: "begin_task cls cfg (update_registry now' swept) (s_task sl) shutting w now (e_db en) = (d, v)"
        by fastforce
      have "moves (e_db en) d"
        by (rule flight_moves) (use b begin_task_flight [OF ok sj [OF Some]] begin_task_ok in auto)
      then have "engine_fit (put_slot n v (put_db en d))"
        by (rule slot) (use b begin_task_slot [OF ok sj [OF Some]] in auto)
      with EvStart Some b en show ?thesis by simp
    qed (use en EvStart in simp)
  next
    case (EvHeartbeat n now)
    have "engine_fit (put_slot n (Some (sl\<lparr>s_task := t\<rparr>)) (put_db en d))"
      if s: "e_slots en n = Some sl" and h: "heartbeat cfg (s_task sl) now (e_db en) = (d, t)" for sl d t
    proof -
      have m: "moves (e_db en) d" by (rule flight_moves) (use h in \<open>auto intro: heartbeat_flight heartbeat_ok\<close>)
      moreover have "t_job t = t_job (s_task sl)" using h by (auto simp: heartbeat_def split: sum.splits if_splits)
      moreover have "slot_job (db_jobs d) (s_task sl)"
        using slot_job_moves [OF m _ sj [OF s]] en by (simp add: engine_fit_def)
      ultimately show ?thesis by (intro slot) (auto simp: slot_job_def)
    qed
    with EvHeartbeat en show ?thesis by (auto split: option.splits prod.splits)
  next
    case (EvFinish n shutting w out err now)
    have "engine_fit (put_slot n None (put_db en (finish cls cfg (update_registry now' swept) (s_task sl) shutting w out err now (e_db en))))"
      if s: "e_slots en n = Some sl" for sl
    proof (rule slot)
      have "fair_end (s_task sl) out err" using ev EvFinish s by simp
      then show "moves (e_db en) (finish cls cfg (update_registry now' swept) (s_task sl) shutting w out err now (e_db en))"
        by (intro flight_moves finish_flight sj [OF s] finish_ok) (auto simp: fair_end_def)
    qed simp
    with EvFinish en show ?thesis by (auto split: option.splits)
  qed (use ev in simp_all)
qed

section \<open>The workers\<close>

definition works_fit :: "(nat \<Rightarrow> slot option) \<Rightarrow> (nat \<Rightarrow> work option) \<Rightarrow> bool" where
  "works_fit slots ws \<longleftrightarrow> (\<forall>n k. ws n = Some k \<longrightarrow>
     (\<exists>sl. slots n = Some sl \<and> s_running sl \<and> wk_ID k = j_subject_id (t_job (s_task sl))))"

lemma works_fit_none [simp]: "works_fit slots (\<lambda>_. None)"
  by (simp add: works_fit_def)

text \<open>A slot that runs keeps its job until it is emptied.\<close>

lemma job_step_running:
  assumes "e_slots en n = Some sl" and "s_running sl"
    and "e_slots (job_step json_ok cls cfg reg ev en) n = Some sl'"
  shows "t_job (s_task sl') = t_job (s_task sl)"
proof (cases ev)
  case (EvClaim m now)
  with assms show ?thesis by (cases "m = n") (auto split: option.splits prod.splits sum.splits)
next
  case (EvStart m shutting w now)
  with assms show ?thesis by (cases "m = n") (auto split: option.splits prod.splits if_splits)
next
  case (EvHeartbeat m now)
  with assms show ?thesis
    by (cases "m = n") (auto simp: heartbeat_def split: option.splits prod.splits if_splits sum.splits)
next
  case (EvFinish m shutting w out err now)
  with assms show ?thesis by (cases "m = n") (auto split: option.splits if_splits)
next
  case (EvProgress i p)
  with assms show ?thesis by (auto split: sum.splits)
qed (use assms in simp_all)

lemma works_fit_step:
  assumes "works_fit (e_slots en) ws"
  shows "works_fit (e_slots (job_step json_ok cls cfg reg ev en))
           (fit_work st (e_slots (job_step json_ok cls cfg reg ev en)) ws)"
  unfolding works_fit_def
proof (intro allI impI)
  fix n k
  let ?slots = "e_slots (job_step json_ok cls cfg reg ev en)"
  assume k: "fit_work st ?slots ws n = Some k"
  then obtain sl where sl: "?slots n = Some sl" "s_running sl" by (auto simp: fit_work_def split: option.splits if_splits)
  show "\<exists>sl. ?slots n = Some sl \<and> s_running sl \<and> wk_ID k = j_subject_id (t_job (s_task sl))"
  proof (cases "ws n")
    case None
    with k sl show ?thesis by (auto simp: fit_work_def)
  next
    case (Some k0)
    with k sl have "k = k0" by (simp add: fit_work_def)
    moreover from assms Some obtain sl0 where "e_slots en n = Some sl0" "s_running sl0"
        "wk_ID k0 = j_subject_id (t_job (s_task sl0))"
      by (auto simp: works_fit_def)
    ultimately show ?thesis using sl job_step_running [of en n sl0] by auto
  qed
qed

section \<open>The host\<close>

definition host_fit :: "host \<Rightarrow> bool" where
  "host_fit h \<longleftrightarrow> engine_fit (h_engine h)
     \<and> (\<forall>dm. h_daemon h = Some dm \<longrightarrow> works_fit (e_slots (h_engine h)) (dm_work dm))"

lemma host_fit_same:
  "h_engine h' = h_engine h \<Longrightarrow> h_daemon h' = h_daemon h \<Longrightarrow> host_fit h \<Longrightarrow> host_fit h'"
  by (simp add: host_fit_def)

lemma engine_fit_no_slots: "engine_fit en \<Longrightarrow> engine_fit (en\<lparr>e_slots := (\<lambda>_. None)\<rparr>)"
  by (simp add: engine_fit_def slots_fit_def)

lemma die_fit: "host_fit h \<Longrightarrow> host_fit (die h)"
  by (simp add: host_fit_def die_def engine_fit_no_slots)

lemma set_db_fit: "host_fit h \<Longrightarrow> moves (h_db h) db \<Longrightarrow> host_fit (set_db db h)"
  by (auto simp: host_fit_def set_db_def h_db_def intro: engine_fit_put_db)

lemma set_dir_fit [simp]: "host_fit (set_dir d h) \<longleftrightarrow> host_fit h"
  by (simp add: host_fit_def set_dir_def)

lemma set_daemon_fit:
  "host_fit h \<Longrightarrow> works_fit (e_slots (h_engine h)) (dm_work dm) \<Longrightarrow> host_fit (h\<lparr>h_daemon := Some dm\<rparr>)"
  by (simp add: host_fit_def)

lemma host_fit_works: "host_fit h \<Longrightarrow> h_daemon h = Some dm \<Longrightarrow> works_fit (e_slots (h_engine h)) (dm_work dm)"
  by (simp add: host_fit_def)

lemma start_fit: "host_fit h \<Longrightarrow> host_fit (start_daemon st boot h)"
  by (auto simp: start_daemon_def host_fit_def engine_fit_no_slots split: option.splits)

lemma disarm_fit: "host_fit h \<Longrightarrow> h_daemon h = Some dm \<Longrightarrow> host_fit (disarm st r ok dm h)"
  by (auto simp: disarm_def intro: die_fit intro!: set_daemon_fit dest: host_fit_works split: prod.splits option.splits)

lemma migrate_fit: "host_fit h \<Longrightarrow> host_fit (migrate st ok dm h)"
  by (auto simp: migrate_def host_fit_def intro: die_fit [unfolded host_fit_def, THEN conjunct1] split: if_splits)
    (auto simp: die_def engine_fit_no_slots)

lemma triage_fit:
  assumes "host_fit h" and "h_daemon h = Some dm"
  shows "host_fit (triage st now dm h)"
proof -
  have m: "moves (h_db h) db" if "recover_orphans_tx (update_registry now True) (dm_boot dm) now (h_db h) = Inr (db, r)" for db r
    by (rule flight_moves)
      (use that in \<open>auto intro: recover_orphans_flight simp: recover_orphans_tx_def intro: triage_loop_ok\<close>)
  have w: "works_fit (e_slots (h_engine h)) (dm_work dm)" using assms by (rule host_fit_works)
  have "host_fit (set_db db (h\<lparr>h_daemon := Some (dm\<lparr>dm_stage := StTriaged\<rparr>)\<rparr>))"
    if "recover_orphans_tx (update_registry now True) (dm_boot dm) now (h_db h) = Inr (db, r)" for db r
    using assms(1) w m [OF that] by (intro set_db_fit set_daemon_fit) (simp_all add: h_db_def)
  with assms(1) show ?thesis by (auto simp: triage_def intro: die_fit split: sum.splits)
qed

lemma after_gate_fit:
  assumes "host_fit h" and "h_daemon h = Some dm" and "moves (h_db h) db"
  shows "host_fit (after_gate dm g db d h)"
proof -
  have "works_fit (e_slots (h_engine h)) (dm_work dm)" using assms(1,2) by (rule host_fit_works)
  with assms show ?thesis
    unfolding after_gate_def set_dir_fit by (intro set_db_fit set_daemon_fit) (simp_all add: h_db_def)
qed

lemma resolve_fit:
  assumes "host_fit h" and "h_daemon h = Some dm"
  shows "host_fit (resolve_event st e survives dm h)"
proof -
  have "host_fit (case Resolve w e g (h_db h) d of (g, db, d, r) \<Rightarrow> after_gate dm g db d h)" for w e g d
    using assms by (auto intro!: after_gate_fit intro: Resolve_moves split: prod.splits)
  moreover have "host_fit (case resolve_commit w e g (h_db h) d of (g, db, r) \<Rightarrow> die (set_db db h))" for w e g d
    using assms by (auto intro!: die_fit set_db_fit intro: resolve_commit_moves split: prod.splits)
  ultimately show ?thesis using assms(1) unfolding resolve_event_def Let_def by simp
qed

lemma apply_fit:
  assumes "host_fit h" and "h_daemon h = Some dm"
  shows "host_fit (apply_event st e r stuck dm h)"
proof -
  have "host_fit (case ApplyUpdate j w e r stuck g (h_db h) d of (g, db, d, x) \<Rightarrow> after_gate dm g db d h)" for j w e g d
    using assms by (auto intro!: after_gate_fit intro: ApplyUpdate_moves split: prod.splits)
  with assms(1) show ?thesis unfolding apply_event_def by simp
qed

lemma queue_step_fit:
  assumes "host_fit h" and "works_fit (e_slots (h_engine h)) (dm_work dm)" and "queued_event (h_engine h) ev"
  shows "host_fit (queue_step st ev now ok dm h)"
  using assms unfolding queue_step_def Let_def host_fit_def
  by (simp add: job_step_fit works_fit_step)

lemma works_fit_go:
  assumes "works_fit slots ws" and "ws n = Some k" and "wk_ID k' = wk_ID k"
  shows "works_fit slots (ws(n := Some k'))"
  using assms by (auto simp: works_fit_def)

lemma hand_off_works [simp]: "dm_work (hand_off ph k dm) = dm_work dm"
  by (simp add: hand_off_def)

lemma work_fit:
  assumes h: "host_fit h" and dm: "h_daemon h = Some dm"
  shows "host_fit (work_event st n e shutting dm h)"
proof (cases "dm_stage dm \<in> {StServing, StSwapping} \<and> dm_work dm n \<noteq> None \<and> e_slots (h_engine h) n \<noteq> None")
  case False
  with h show ?thesis by (auto simp: work_event_def split: option.splits)
next
  case True
  then obtain k sl where k: "dm_work dm n = Some k" and sl: "e_slots (h_engine h) n = Some sl" by blast
  define t where "t = s_task sl"
  define e1 where "e1 = e\<lparr>we_ctx_done := (t_cancel_requested t \<or> t_lease_lost t \<or> shutting)\<rparr>"
  obtain db d r where s: "work_step (st_json st) (st_progress st) (st_world st) (dm_gate dm) e1 t (wk_Phase k) k
      (h_db h) (update_dir h) = (db, d, r)" by (metis prod_cases3)
  define h1 where "h1 = set_dir d (set_db db h)"
  note w = host_fit_works [OF h dm]
  have mv: "moves (h_db h) db" and fr: "fair_result (wk_ID k) r" using work_step_moves [OF s] by simp_all
  have id: "wk_ID k = j_subject_id (t_job t)" using w k sl unfolding works_fit_def t_def by fastforce
  have h1: "host_fit h1" unfolding h1_def set_dir_fit by (rule set_db_fit [OF h mv])
  have sl1: "e_slots (h_engine h1) = e_slots (h_engine h)" by (simp add: h1_def set_dir_def set_db_def)
  have fin: "host_fit (queue_step st (EvFinish n shutting wr out err now) now ok dm h1)" if "fair_end t out err" for wr out err now ok
    using h1 w sl1 that sl by (intro queue_step_fit) (simp_all add: t_def)
  have ev: "work_event st n e shutting dm h = (case r of
      WorkGo k' \<Rightarrow> h1\<lparr>h_daemon := Some (hand_off (wk_Phase k) k' (dm\<lparr>dm_work := (dm_work dm)(n := Some k')\<rparr>))\<rparr>
    | WorkEnd out \<Rightarrow> queue_step st (EvFinish n shutting (we_writes e) out None (we_now e)) (we_now e) (we_sweep_ok e) dm h1
    | WorkError x \<Rightarrow> queue_step st (EvFinish n shutting (we_writes e) empty_outcome (Some x) (we_now e)) (we_now e) (we_sweep_ok e) dm h1)"
    using True k sl s unfolding h1_def e1_def t_def by (auto simp: work_event_def Let_def)
  show ?thesis
  proof (cases r)
    case (WorkGo k')
    then have "works_fit (e_slots (h_engine h1)) (dm_work (hand_off (wk_Phase k) k' (dm\<lparr>dm_work := (dm_work dm)(n := Some k')\<rparr>)))"
      using works_fit_go [OF w k] fr sl1 by simp
    with WorkGo h1 show ?thesis unfolding ev by (simp add: set_daemon_fit)
  next
    case (WorkEnd out)
    with fr id show ?thesis unfolding ev by (simp add: fin fair_end_def)
  next
    case (WorkError x)
    show ?thesis unfolding ev WorkError by (simp add: fin fair_end_def empty_outcome_def)
  qed
qed

lemma summon_fit: "host_fit h \<Longrightarrow> h_daemon h = Some dm \<Longrightarrow> host_fit (summon dm h)"
  by (auto simp: summon_def Let_def host_fit_def)

lemma actor_fit: "host_fit h \<Longrightarrow> host_fit (actor_event st e h)"
  by (erule host_fit_same [rotated 2])
    (auto simp: actor_event_def Let_def moved_def split: option.splits actor.splits sum.splits)

lemma judge_fit: "host_fit h \<Longrightarrow> host_fit (judge_event e h)"
  by (auto simp: judge_event_def host_fit_def)

lemma queue_request_fit:
  assumes "host_fit h" and "h_daemon h = Some dm"
  shows "host_fit (queue_request st ev now ok dm h)"
  using assms by (auto simp: queue_request_def intro!: queue_step_fit queue_event_queued intro: host_fit_works)

lemma host_step_fit:
  assumes "host_fit h"
  shows "host_fit (host_step st ev h)"
  using assms
  by (cases ev)
    (auto simp: with_daemon_def start_fit die_fit disarm_fit migrate_fit triage_fit resolve_fit apply_fit
      queue_request_fit work_fit summon_fit actor_fit judge_fit split: option.splits
      intro: host_fit_same)

interpretation hx: machine "host_step st" "\<lambda>_. True" host_fit
  by unfold_locales (rule host_step_fit)

lemma fresh_host_fit: "host_fit (fresh_host st img)"
  by (simp add: host_fit_def fresh_host_def engine_fit_def slots_fit_def flight_ok_def one_flight_def empty_engine_def)

lemma host_run_fit: "host_fit (run (host_step st) evs (fresh_host st img))"
  by (rule hx.run_inv) (simp_all add: fresh_host_fit list_all_iff)

text \<open>
  C5. Whatever happens to a host, in any order (applies, cancels, crashes between any two writes,
  failing migrations, an actor killed halfway, reverts, binaries of any version started on the
  same database), at most one self-update is not over, and one that is not over has a job that is
  queued, leased, running or interrupted. So the guard of the endpoint never lets a second update
  in, and no update is left that neither the queue nor the gate will see again. The host starts from
  an empty database, calls of the gate do not overlap, and no database is restored from a backup.
\<close>

theorem one_update_in_flight:
  "let db = h_db (run (host_step st) evs (fresh_host st img)) in
     length (filter su_live (ut_rows (db_domain db))) \<le> 1
   \<and> list_all (in_flight (db_jobs db)) (filter su_live (ut_rows (db_domain db)))"
  using host_run_fit [of st evs img]
  by (auto simp: Let_def host_fit_def engine_fit_def flight_ok_def one_flight_def h_db_def list_all_iff)

end
