(* ===== verification/Update_Claims.thy ===== *)
theory Update_Claims
  imports Update_Invariant
begin

text \<open>
  What a boot makes of the updates it finds, and what the privileged program installs.
\<close>

section \<open>What the gate leaves alone\<close>

text \<open>
  A transaction of the gate only ends: a job it changes is over, a row that is live after it is
  as it was, and a row that was over stays as it is.
\<close>

definition narrows :: "updb \<Rightarrow> updb \<Rightarrow> bool" where
  "narrows a b \<longleftrightarrow> (\<forall>j \<in> set (db_jobs b). j \<in> set (db_jobs a) \<or> is_terminal (j_state j))
     \<and> (\<forall>u \<in> set (ut_rows (db_domain b)). su_live u \<longrightarrow> u \<in> set (ut_rows (db_domain a)))
     \<and> (\<forall>u \<in> set (ut_rows (db_domain a)). \<not> su_live u \<longrightarrow> u \<in> set (ut_rows (db_domain b)))"

lemma narrows_refl [simp, intro]: "narrows a a"
  by (simp add: narrows_def)

lemma narrows_trans: "narrows a b \<Longrightarrow> narrows b c \<Longrightarrow> narrows a c"
  unfolding narrows_def by blast

lemma finish_job_narrows: "finish_job i st c m at js = Inr js' \<Longrightarrow> j \<in> set js' \<Longrightarrow> j \<in> set js \<or> is_terminal (j_state j)"
  by (auto simp: finish_job_def bind_res_eq_Inr sql_update_Inr set_update_rows split: if_splits)

lemma FinishSelfUpdate_narrows:
  assumes "FinishSelfUpdate i st m at t = Inr (t', b)"
  shows "\<And>u. u \<in> set (ut_rows t') \<Longrightarrow> su_live u \<Longrightarrow> u \<in> set (ut_rows t) \<and> su_ID u \<noteq> i"
    and "\<And>u. u \<in> set (ut_rows t) \<Longrightarrow> \<not> su_live u \<Longrightarrow> u \<in> set (ut_rows t')"
    and "\<And>u. u \<in> set (ut_rows t) \<Longrightarrow> su_live u \<Longrightarrow> su_ID u = i \<Longrightarrow>
           u\<lparr>su_State := st, su_ErrorMessage := m, su_FinishedAt := Some at\<rparr> \<in> set (ut_rows t')"
    and "b \<longleftrightarrow> (\<exists>u \<in> set (ut_rows t). su_live u \<and> su_ID u = i)"
  using assms by (auto simp: FinishSelfUpdate_def update_su_def list_ex_iff image_iff split: if_splits)

lemma finishRow_narrows:
  assumes "finishRow i rs st c m now db = Inr (db', r)"
  shows "narrows db db'"
  using assms
proof (cases rule: finishRow_cases)
  case (rows t b)
  from FinishSelfUpdate_narrows [OF rows(2)] rows(3) show ?thesis by (auto simp: narrows_def)
next
  case (both t b j js)
  from FinishSelfUpdate_narrows [OF both(2)] finish_job_narrows [OF both(5)] both(6) show ?thesis
    by (auto simp: narrows_def)
qed simp

text \<open>The row of the marker is over after it, in the state of its branch.\<close>

lemma finishRow_ends_row:
  assumes "finishRow i rs st c m now db = Inr (db', r)" and "i \<noteq> []"
  shows "u \<in> set (ut_rows (db_domain db')) \<Longrightarrow> su_live u \<Longrightarrow> su_ID u \<noteq> i"
    and "u \<in> set (ut_rows (db_domain db)) \<Longrightarrow> su_live u \<Longrightarrow> su_ID u = i \<Longrightarrow>
      u\<lparr>su_State := rs, su_ErrorMessage := m, su_FinishedAt := Some now\<rparr> \<in> set (ut_rows (db_domain db'))"
proof -
  from assms obtain t b where f: "FinishSelfUpdate i rs m now (db_domain db) = Inr (t, b)" and d: "db_domain db' = t"
    by (cases rule: finishRow_cases) auto
  show "u \<in> set (ut_rows (db_domain db')) \<Longrightarrow> su_live u \<Longrightarrow> su_ID u \<noteq> i"
    using FinishSelfUpdate_narrows(1) [OF f] d by blast
  show "u \<in> set (ut_rows (db_domain db)) \<Longrightarrow> su_live u \<Longrightarrow> su_ID u = i \<Longrightarrow>
      u\<lparr>su_State := rs, su_ErrorMessage := m, su_FinishedAt := Some now\<rparr> \<in> set (ut_rows (db_domain db'))"
    using FinishSelfUpdate_narrows(3) [OF f] d by blast
qed

lemma close_all_narrows:
  "close_all now os db = Inr db' \<Longrightarrow> narrows db db'
     \<and> (\<forall>(i, j) \<in> set os. \<forall>u \<in> set (ut_rows (db_domain db')). su_live u \<longrightarrow> su_ID u \<noteq> i)"
proof (induction os arbitrary: db)
  case (Cons p os)
  obtain i l where p: "p = (i, l)" by fastforce
  with Cons.prems obtain t b js where f: "FinishSelfUpdate i UpdateFailed (Some orphan_message) now (db_domain db) = Inr (t, b)"
    and fj: "finish_job l JobFailed (Some CodeDaemonRestarted) (Some orphan_message) now (db_jobs db) = Inr js"
    and rest: "close_all now os (db\<lparr>db_jobs := js, db_domain := t\<rparr>) = Inr db'"
    by (auto simp: bind_res_eq_Inr)
  note ih = Cons.IH [OF rest]
  have "narrows db (db\<lparr>db_jobs := js, db_domain := t\<rparr>)"
    using FinishSelfUpdate_narrows [OF f] finish_job_narrows [OF fj] by (auto simp: narrows_def)
  with ih have "narrows db db'" by (blast intro: narrows_trans)
  moreover have "\<forall>u \<in> set (ut_rows (db_domain db')). su_live u \<longrightarrow> su_ID u \<noteq> i"
    using ih FinishSelfUpdate_narrows(1) [OF f] by (auto simp: narrows_def)
  ultimately show ?case using ih p by auto
qed simp

lemma closeOrphans_narrows:
  assumes "closeOrphans excl now db = Inr (db', n)"
  shows "narrows db db'"
    and "u \<in> set (ut_rows (db_domain db')) \<Longrightarrow> su_live u \<Longrightarrow> su_ID u \<noteq> excl \<Longrightarrow> j \<in> set (db_jobs db')
           \<Longrightarrow> su_job (su_ID u) j \<Longrightarrow> j_state j \<noteq> JobInterrupted"
proof -
  from assms have c: "close_all now (OrphanedSelfUpdates excl db) db = Inr db'"
    by (auto simp: closeOrphans_def Let_def bind_res_eq_Inr)
  note n = close_all_narrows [OF c]
  then show "narrows db db'" by simp
  show "j_state j \<noteq> JobInterrupted"
    if u: "u \<in> set (ut_rows (db_domain db'))" "su_live u" "su_ID u \<noteq> excl"
      and j: "j \<in> set (db_jobs db')" "su_job (su_ID u) j"
  proof
    assume s: "j_state j = JobInterrupted"
    have "u \<in> set (ut_rows (db_domain db))" "j \<in> set (db_jobs db)"
      using n u j s by (auto simp: narrows_def is_terminal_def)
    with u j s have "(su_ID u, j_id j) \<in> set (OrphanedSelfUpdates excl db)"
      by (force simp: OrphanedSelfUpdates_def)
    with n u show False by auto
  qed
qed

lemma append_event_narrows [simp]: "narrows db (append_event v db)"
  by (simp add: narrows_def append_event_def)

lemma notification_narrows: "AppendNotification n (db_domain db) = Inr t \<Longrightarrow> narrows db (db\<lparr>db_domain := t\<rparr>)"
  by (auto simp: narrows_def AppendNotification_def split: if_splits)

section \<open>What is still in flight after the gate\<close>

definition settled :: "updb \<Rightarrow> bool" where
  "settled db \<longleftrightarrow> list_all (\<lambda>u. list_ex (\<lambda>j. su_job (su_ID u) j \<and> j_state j = JobQueued) (db_jobs db))
     (filter su_live (ut_rows (db_domain db)))"

definition no_leases :: "jobs \<Rightarrow> bool" where
  "no_leases js \<longleftrightarrow> list_all (\<lambda>j. \<not> holds_lease (j_state j)) js"

lemma no_leases_narrows: "no_leases (db_jobs a) \<Longrightarrow> narrows a b \<Longrightarrow> no_leases (db_jobs b)"
  by (fastforce simp: no_leases_def list_all_iff narrows_def is_terminal_def holds_lease_def)

lemma closing_settles:
  assumes ok: "flight_ok a" and nl: "no_leases (db_jobs a)" and n: "narrows a b"
    and dead: "excl \<noteq> [] \<longrightarrow> (\<forall>u \<in> set (ut_rows (db_domain b)). su_live u \<longrightarrow> su_ID u \<noteq> excl)"
    and c: "closeOrphans excl now b = Inr (db, k)" and m: "moves a db"
  shows "settled db"
  unfolding settled_def list_all_iff
proof
  fix u
  assume u: "u \<in> set (filter su_live (ut_rows (db_domain db)))"
  have ok': "flight_ok db" using ok m by (simp add: moves_def)
  have nl': "no_leases (db_jobs db)"
    using no_leases_narrows [OF nl narrows_trans [OF n closeOrphans_narrows(1) [OF c]]] .
  have "u \<in> set (ut_rows (db_domain b))" using u closeOrphans_narrows(1) [OF c] by (auto simp: narrows_def)
  with u dead ok' have x: "su_ID u \<noteq> excl" by (auto simp: flight_ok_def list_all_iff)
  from u ok' obtain j where j: "j \<in> set (db_jobs db)" "su_job (su_ID u) j" "counted_live (j_state j)"
    by (auto simp: flight_ok_def one_flight_def in_flight_def list_ex_iff)
  moreover have "j_state j \<noteq> JobInterrupted"
    using closeOrphans_narrows(2) [OF c _ _ x j(1,2)] u by simp
  moreover have "\<not> holds_lease (j_state j)" using nl' j(1) by (simp add: no_leases_def list_all_iff)
  ultimately have "j_state j = JobQueued" by (cases "j_state j") simp_all
  with j show "list_ex (\<lambda>j. su_job (su_ID u) j \<and> j_state j = JobQueued) (db_jobs db)"
    by (auto simp: list_ex_iff)
qed

text \<open>The branches that write, split at the closing pass.\<close>

definition branch_state :: "branch \<Rightarrow> su_state" where
  "branch_state b = (if b = BranchConfirmed then UpdateSucceeded else UpdateFailed)"

lemma branch_tx_closing:
  assumes t: "branch_tx b g e k db = Inr (db', r)" and b: "b \<noteq> BranchDeferred"
    and k: "b = BranchNone \<Longrightarrow> taken_marker k = None"
  obtains mid n where "closeOrphans (marker_id (taken_marker k)) (rv_now e) mid = Inr (db', n)"
    and "narrows db mid" and "rr_Branch r = b"
    and "marker_id (taken_marker k) \<noteq> [] \<longrightarrow>
      (\<forall>u \<in> set (ut_rows (db_domain mid)). su_live u \<longrightarrow> su_ID u \<noteq> marker_id (taken_marker k))
    \<and> (\<forall>u \<in> set (ut_rows (db_domain db)). su_live u \<longrightarrow> su_ID u = marker_id (taken_marker k) \<longrightarrow>
        (\<exists>u' \<in> set (ut_rows (db_domain mid)). su_ID u' = su_ID u \<and> su_State u' = branch_state b))"
proof -
  let ?i = "marker_id (taken_marker k)"
  note closed = that
  have fin: thesis
    if fr: "finishRow ?i rs js c m (rv_now e) db = Inr (db1, moved)" and rs: "rs = branch_state b"
      and rows: "ut_rows (db_domain mid) = ut_rows (db_domain db1)" and nr: "narrows db1 mid"
      and cl: "closeOrphans ?i (rv_now e) mid = Inr (db', n)" and br: "rr_Branch r = b"
    for rs js c m db1 moved mid n
  proof (rule closed [OF cl narrows_trans [OF finishRow_narrows [OF fr] nr] br], rule impI)
    assume "?i \<noteq> []"
    note e = finishRow_ends_row [OF fr this]
    have "\<exists>u' \<in> set (ut_rows (db_domain mid)). su_ID u' = su_ID u \<and> su_State u' = branch_state b"
      if "u \<in> set (ut_rows (db_domain db))" "su_live u" "su_ID u = ?i" for u
      using e(2) [OF that] by (intro bexI) (auto simp: rows rs)
    with e(1) show "(\<forall>u \<in> set (ut_rows (db_domain mid)). su_live u \<longrightarrow> su_ID u \<noteq> ?i)
      \<and> (\<forall>u \<in> set (ut_rows (db_domain db)). su_live u \<longrightarrow> su_ID u = ?i \<longrightarrow>
          (\<exists>u' \<in> set (ut_rows (db_domain mid)). su_ID u' = su_ID u \<and> su_State u' = branch_state b))"
      by (auto simp: rows)
  qed
  show thesis
  proof (cases b)
    case BranchNone
    with t k closed [of db] show thesis by (auto simp: branch_tx_def closing_tx_def bind_res_eq_Inr marker_id_def)
  next
    case BranchConfirmed
    with t obtain m db1 moved db2 n where tk: "taken_marker k = Some m"
      and 1: "finishRow (mk_SelfUpdateID m) UpdateSucceeded JobSucceeded [] None (rv_now e) db = Inr (db1, moved)"
      and 2: "db2 = (if moved then append_event (confirmed_event (rv_now e) m) db1 else db1)"
      and 3: "closeOrphans (mk_SelfUpdateID m) (rv_now e) db2 = Inr (db', n)" and r: "rr_Branch r = b"
      by (auto simp: branch_tx_def confirmed_tx_def Let_def bind_res_eq_Inr split: option.splits)
    then have "ut_rows (db_domain db2) = ut_rows (db_domain db1)" "narrows db1 db2"
      by (simp_all add: append_event_def) (simp add: append_event_def [symmetric])
    with tk 1 3 r BranchConfirmed show thesis by (intro fin [of UpdateSucceeded _ _ _ db1 _ db2])
      (simp_all add: marker_id_def branch_state_def)
  next
    case BranchNotApplied
    with t obtain db1 moved db2 tt n
      where 1: "finishRow ?i UpdateFailed JobFailed CodeUpdateNotApplied
                   (Some (notAppliedMessage g (taken_marker k))) (rv_now e) db = Inr (db1, moved)"
      and 2: "db2 = append_event (refused_event g e (taken_marker k)) db1"
      and 3: "AppendNotification (f24 g e (taken_marker k)) (db_domain db2) = Inr tt"
      and 4: "closeOrphans ?i (rv_now e) (db2\<lparr>db_domain := tt\<rparr>) = Inr (db', n)" and r: "rr_Branch r = b"
      by (auto simp: branch_tx_def notApplied_tx_def Let_def bind_res_eq_Inr)
    have "ut_rows tt = ut_rows (db_domain db1)"
      using 2 3 by (auto simp: append_event_def AppendNotification_def split: if_splits)
    moreover have "narrows db1 (db2\<lparr>db_domain := tt\<rparr>)"
      using narrows_trans [OF append_event_narrows notification_narrows [OF 3 [unfolded 2]]] 2 by simp
    ultimately show thesis using 1 4 r BranchNotApplied
      by (intro fin [of UpdateFailed _ _ _ db1 _ "db2\<lparr>db_domain := tt\<rparr>"]) (simp_all add: branch_state_def)
  qed (use b in simp)
qed

lemma branch_settles:
  assumes t: "branch_tx b g e k db = Inr (db', r)" and b: "b \<noteq> BranchDeferred"
    and k: "b = BranchNone \<Longrightarrow> taken_marker k = None" and ok: "flight_ok db" and nl: "no_leases (db_jobs db)"
  shows "settled db'"
    and "u \<in> set (ut_rows (db_domain db)) \<Longrightarrow> su_live u \<Longrightarrow> taken_marker k = Some m \<Longrightarrow> su_ID u = mk_SelfUpdateID m \<Longrightarrow>
      \<exists>u' \<in> set (ut_rows (db_domain db')). su_ID u' = su_ID u \<and> su_State u' = branch_state b"
proof -
  let ?i = "marker_id (taken_marker k)"
  obtain mid n where c: "closeOrphans ?i (rv_now e) mid = Inr (db', n)" and n: "narrows db mid"
    and br: "rr_Branch r = b" and i: "?i \<noteq> [] \<longrightarrow>
      (\<forall>u \<in> set (ut_rows (db_domain mid)). su_live u \<longrightarrow> su_ID u \<noteq> ?i)
    \<and> (\<forall>u \<in> set (ut_rows (db_domain db)). su_live u \<longrightarrow> su_ID u = ?i \<longrightarrow>
        (\<exists>u' \<in> set (ut_rows (db_domain mid)). su_ID u' = su_ID u \<and> su_State u' = branch_state b))"
    by (rule branch_tx_closing [OF t b k])
  show "settled db'"
    by (rule closing_settles [OF ok nl n _ c branch_tx_moves [OF t]]) (use i in blast)
  assume u: "u \<in> set (ut_rows (db_domain db))" "su_live u" "taken_marker k = Some m" "su_ID u = mk_SelfUpdateID m"
  then have "?i \<noteq> []" using ok by (auto simp: marker_id_def flight_ok_def list_all_iff)
  with i u obtain u' where u': "u' \<in> set (ut_rows (db_domain mid))" "su_ID u' = su_ID u" "su_State u' = branch_state b"
    by (fastforce simp: marker_id_def)
  then have "\<not> su_live u'" by (simp add: su_live_def branch_state_def)
  with u' closeOrphans_narrows(1) [OF c]
  show "\<exists>u' \<in> set (ut_rows (db_domain db')). su_ID u' = su_ID u \<and> su_State u' = branch_state b"
    by (auto simp: narrows_def)
qed

section \<open>The gate gets its way\<close>

lemma finish_job_total:
  assumes "jobs_ok js" and "is_terminal st"
  shows "\<exists>js'. finish_job i st c m at js = Inr js'"
proof -
  define f where "f = (\<lambda>j. drop_lease (j\<lparr>j_state := st, j_error_code := c, j_error_message := m, j_finished_at := Some at\<rparr>))"
  have "sql_update (\<lambda>j. j_id j = i) f js = Inr (update_rows (\<lambda>j. j_id j = i) f js, length (filter (\<lambda>j. j_id j = i) js))"
    by (rule sql_update_total [OF assms(1)]) (use assms(2) in \<open>auto simp: f_def is_live_def is_terminal_def live_job_states_def\<close>)
  with assms(2) show ?thesis by (simp add: finish_job_def f_def)
qed

lemma finishRow_total:
  assumes "jobs_ok (db_jobs db)" and "su_terminal rs" and "is_terminal st"
  shows "\<exists>db' b. finishRow i rs st c m now db = Inr (db', b) \<and> ut_notes (db_domain db') = ut_notes (db_domain db)
    \<and> jobs_ok (db_jobs db')"
proof -
  obtain t b where f: "FinishSelfUpdate i rs m now (db_domain db) = Inr (t, b)" "ut_notes t = ut_notes (db_domain db)"
    using assms(2) by (auto simp: FinishSelfUpdate_def update_su_def)
  show ?thesis
  proof (cases "SelfUpdateJob i (db_jobs db)")
    case (Inl x)
    then have "x = ErrNotFound" by (auto simp: SelfUpdateJob_def split: list.splits)
    with f Inl assms(1) show ?thesis by (auto simp: finishRow_def)
  next
    case (Inr j)
    obtain js where "finish_job (j_id j) st (str_ptr c) m now (db_jobs db) = Inr js"
      using finish_job_total [OF assms(1,3)] by blast
    with f Inr assms(1) finish_job_ok show ?thesis by (auto simp: finishRow_def)
  qed
qed

lemma close_all_total: "jobs_ok (db_jobs db) \<Longrightarrow> \<exists>db'. close_all now os db = Inr db'"
proof (induction os arbitrary: db)
  case (Cons p os)
  obtain i l where p: "p = (i, l)" by fastforce
  obtain t b where f: "FinishSelfUpdate i UpdateFailed (Some orphan_message) now (db_domain db) = Inr (t, b)"
    by (auto simp: FinishSelfUpdate_def update_su_def)
  obtain js where j: "finish_job l JobFailed (Some CodeDaemonRestarted) (Some orphan_message) now (db_jobs db) = Inr js"
    using finish_job_total [OF Cons.prems, of JobFailed l "Some CodeDaemonRestarted" "Some orphan_message" now]
    by (auto simp: is_terminal_def)
  with Cons.prems have "jobs_ok js" by (rule finish_job_ok)
  with Cons.IH [of "db\<lparr>db_jobs := js, db_domain := t\<rparr>"] f j p show ?case by simp
qed simp

lemma closeOrphans_total: "jobs_ok (db_jobs db) \<Longrightarrow> \<exists>db' n. closeOrphans excl now db = Inr (db', n)"
  using close_all_total [of db now "OrphanedSelfUpdates excl db"] by (auto simp: closeOrphans_def Let_def)

lemma branch_tx_total:
  assumes ok: "jobs_ok (db_jobs db)" and k: "b = BranchConfirmed \<Longrightarrow> taken_marker k \<noteq> None"
    and note_new: "rv_note_id e \<notin> set (map nt_ID (ut_notes (db_domain db)))"
  shows "\<exists>db' r. branch_tx b g e k db = Inr (db', r) \<and> rr_Branch r = b"
proof (cases b)
  case BranchConfirmed
  with k obtain m where m: "taken_marker k = Some m" by auto
  obtain db1 mv where 1: "finishRow (mk_SelfUpdateID m) UpdateSucceeded JobSucceeded [] None (rv_now e) db = Inr (db1, mv)"
      "jobs_ok (db_jobs db1)"
    using finishRow_total [OF ok, of UpdateSucceeded JobSucceeded "mk_SelfUpdateID m" "[]" None "rv_now e"]
    by (auto simp: is_terminal_def)
  define db2 where "db2 = (if mv then append_event (confirmed_event (rv_now e) m) db1 else db1)"
  have "jobs_ok (db_jobs db2)" using 1(2) by (simp add: db2_def append_event_def)
  with closeOrphans_total obtain db3 n where "closeOrphans (mk_SelfUpdateID m) (rv_now e) db2 = Inr (db3, n)" by blast
  with BranchConfirmed m 1 show ?thesis by (simp add: branch_tx_def confirmed_tx_def Let_def flip: db2_def)
next
  case BranchNotApplied
  let ?i = "marker_id (taken_marker k)"
  obtain db1 mv where 1: "finishRow ?i UpdateFailed JobFailed CodeUpdateNotApplied
      (Some (notAppliedMessage g (taken_marker k))) (rv_now e) db = Inr (db1, mv)"
      "jobs_ok (db_jobs db1)" "ut_notes (db_domain db1) = ut_notes (db_domain db)"
    using finishRow_total [OF ok, of UpdateFailed JobFailed ?i CodeUpdateNotApplied
        "Some (notAppliedMessage g (taken_marker k))" "rv_now e"]
    by (auto simp: is_terminal_def)
  define db2 where "db2 = append_event (refused_event g e (taken_marker k)) db1"
  obtain t where t: "AppendNotification (f24 g e (taken_marker k)) (db_domain db2) = Inr t"
    using note_new 1(3) by (auto simp: AppendNotification_def f24_def db2_def append_event_def)
  have "jobs_ok (db_jobs (db2\<lparr>db_domain := t\<rparr>))" using 1(2) by (simp add: db2_def append_event_def)
  with closeOrphans_total obtain db3 n where "closeOrphans ?i (rv_now e) (db2\<lparr>db_domain := t\<rparr>) = Inr (db3, n)" by blast
  with BranchNotApplied t 1 show ?thesis by (simp add: branch_tx_def notApplied_tx_def Let_def flip: db2_def)
next
  case BranchNone
  obtain db1 n where "closeOrphans (marker_id None) (rv_now e) db = Inr (db1, n)" using closeOrphans_total [OF ok] by blast
  with BranchNone show ?thesis by (simp add: branch_tx_def closing_tx_def)
next
  case BranchDeferred
  obtain db1 n where "closeOrphans (marker_id (taken_marker k)) (rv_now e) db = Inr (db1, n)"
    using closeOrphans_total [OF ok] by blast
  with BranchDeferred show ?thesis by (simp add: branch_tx_def closing_tx_def)
qed

lemma ReadMarker_none: "ReadMarker w r d = Inl ErrNoMarker \<longleftrightarrow> d PendingFileName = None"
  by (auto simp: ReadMarker_def ParseMarker_def split: option.splits)

lemma takeMarker_none: "takeMarker w r g d = (g', NoMarker) \<Longrightarrow> d PendingFileName = None"
  by (auto simp: takeMarker_def ReadMarker_none split: option.splits sum.splits if_splits)

text \<open>With no lease in the table and no actor, nothing is deferred.\<close>

lemma nothing_deferred:
  assumes "jobs_ok (db_jobs db)" and "no_leases (db_jobs db)" and "\<not> unitActorActive e"
  shows "branch_of e g k db \<noteq> BranchDeferred"
proof -
  have "\<not> selfIsApplying e g m db" for m
  proof
    assume s: "selfIsApplying e g m db"
    then obtain j where j: "SelfUpdateJob (mk_SelfUpdateID m) (db_jobs db) = Inr j" "j_lease_owner j = Some (gt_BootID g)"
        "mk_SelfUpdateID m \<noteq> []"
      by (auto simp: selfIsApplying_def split: if_splits sum.splits)
    then have "j \<in> set (db_jobs db)" by (intro SelfUpdateJob_row)
    with assms(1,2) j(2) show False by (auto simp: jobs_ok_def row_ok_def no_leases_def list_all_iff)
  qed
  with assms(3) show ?thesis by (auto simp: branch_of_def split: taken.splits)
qed

lemma Resolve_settles:
  assumes ok: "flight_ok db" and nl: "no_leases (db_jobs db)" and na: "\<not> unitActorActive e"
    and io: "rv_write_ok e" "rv_unlink e = IoDone" "rv_stuck e = []" and note_new: "rv_note_id e \<notin> set (map nt_ID (ut_notes (db_domain db)))"
    and k: "takeMarker w (rv_readable e) g d = (g', k)"
  obtains db' d' r where "Resolve w e g db d = (g', db', d', Inr r)" and "settled db'" and "d' PendingFileName = None"
    and "\<forall>u \<in> set (ut_rows (db_domain db)). \<forall>m. su_live u \<longrightarrow> k = Taken m \<longrightarrow> su_ID u = mk_SelfUpdateID m \<longrightarrow>
      (\<exists>u' \<in> set (ut_rows (db_domain db')). su_ID u' = su_ID u
        \<and> su_State u' = (if mk_TargetVersion m = gt_Version g then UpdateSucceeded else UpdateFailed))"
proof -
  let ?b = "branch_of e g k db"
  have jo: "jobs_ok (db_jobs db)" using ok by (simp add: flight_ok_def)
  note nd = nothing_deferred [OF jo nl na, of g k]
  have kc: "?b = BranchConfirmed \<Longrightarrow> taken_marker k \<noteq> None" and kn: "?b = BranchNone \<Longrightarrow> taken_marker k = None"
    by (auto simp: branch_of_def taken_marker_def split: taken.splits if_splits)
  obtain db' r where t: "branch_tx ?b g e k db = Inr (db', r)" and r: "rr_Branch r = ?b"
    using branch_tx_total [OF jo kc note_new] by blast
  have c: "resolve_commit w e g db d = (g', db', Inr r)"
    using k t io(1) by (simp add: resolve_commit_def store_write_def transact_def)
  obtain d' where d: "resolve_clean e ?b d = (d', None)" and p: "d' PendingFileName = None"
  proof (cases "writing ?b")
    case True
    with io that show thesis by (cases "d PendingFileName") (auto simp: resolve_clean_def RemoveMarker_def io_error_def ClearScratch_def)
  next
    case False
    with nd have "k = NoMarker" by (auto simp: branch_of_def writing_def split: taken.splits if_splits)
    with takeMarker_none [of w "rv_readable e" g d g'] k False that show thesis by (simp add: resolve_clean_def)
  qed
  have "Resolve w e g db d = (g', db', d', Inr r)" using c r d by (simp add: Resolve_def)
  moreover have "settled db'" by (rule branch_settles(1) [OF t nd _ ok nl]) (rule kn)
  moreover have "\<exists>u' \<in> set (ut_rows (db_domain db')). su_ID u' = su_ID u
        \<and> su_State u' = (if mk_TargetVersion m = gt_Version g then UpdateSucceeded else UpdateFailed)"
    if "u \<in> set (ut_rows (db_domain db))" "su_live u" "k = Taken m" "su_ID u = mk_SelfUpdateID m" for u m
  proof -
    have "branch_state ?b = (if mk_TargetVersion m = gt_Version g then UpdateSucceeded else UpdateFailed)"
      using that(3) nd by (auto simp: branch_of_def branch_state_def)
    moreover have "\<exists>u' \<in> set (ut_rows (db_domain db')). su_ID u' = su_ID u \<and> su_State u' = branch_state ?b"
      by (rule branch_settles(2) [OF t nd _ ok nl that(1,2) _ that(4)]) (use kn that(3) in \<open>simp_all add: taken_marker_def\<close>)
    ultimately show ?thesis by simp
  qed
  ultimately show thesis using p that by blast
qed

section \<open>The daemon before it serves\<close>

text \<open>Until its triage no job carries the identity of the boot, and from then to the first pass of the gate no lease is held.\<close>

definition boot_fit :: "host \<Rightarrow> bool" where
  "boot_fit h \<longleftrightarrow> (case h_daemon h of None \<Rightarrow> True | Some dm \<Rightarrow>
     (dm_stage dm \<in> {StOpening, StMigrating} \<longrightarrow>
        list_all (\<lambda>j. j_lease_owner j \<noteq> Some (dm_boot dm)) (db_jobs (h_db h)))
   \<and> (dm_stage dm = StTriaged \<longrightarrow> no_leases (db_jobs (h_db h))))"

lemma boot_fit_serving:
  "(\<And>dm. h_daemon h = Some dm \<Longrightarrow> dm_stage dm \<in> {StServing, StSwapping}) \<Longrightarrow> boot_fit h"
  by (auto simp: boot_fit_def split: option.splits)

lemma h_db_simps [simp]:
  "h_db (set_dir d h) = h_db h" "h_db (h\<lparr>h_daemon := x\<rparr>) = h_db h" "h_daemon (set_dir d h) = h_daemon h"
  "h_daemon (set_db db h) = h_daemon h" "h_db (set_db db h) = db" "h_daemon (die h) = None"
  by (simp_all add: h_db_def set_dir_def set_db_def die_def)

lemma after_gate_simps [simp]:
  "h_db (after_gate dm g db d h) = db" "update_dir (after_gate dm g db d h) = d"
  "dm_stage dm = StTriaged \<Longrightarrow> map_option dm_stage (h_daemon (after_gate dm g db d h)) = Some StServing"
  by (simp_all add: after_gate_def update_dir_def) (simp add: set_dir_def)

lemma boot_fit_die [simp]: "boot_fit (die h)"
  by (simp add: boot_fit_def)

lemma SetDomainState_total: "\<exists>d'. commit_domain (update_registry now True) j st d = Inr d'"
  by (auto simp: commit_domain_def update_registry_def update_worker_def domain_error_def SetDomainState_def
      finish_domain_def FinishSelfUpdate_def update_su_def split: sum.splits job_state.splits)

lemma triage_no_leases:
  assumes ok: "jobs_ok (db_jobs db)" and fresh: "list_all (\<lambda>j. j_lease_owner j \<noteq> Some boot) (db_jobs db)"
    and t: "recover_orphans_tx (update_registry now True) boot now db = Inr (db', r)"
  shows "no_leases (db_jobs db')"
proof -
  let ?os = "orphaned_jobs boot (db_jobs db)"
  have os: "set ?os = {j \<in> set (db_jobs db). orphaned boot j}" by (auto simp: orphaned_jobs_def)
  have "distinct (map j_id ?os)"
    using ok by (auto simp: orphaned_jobs_def distinct_map jobs_ok_def intro: inj_on_subset)
  moreover have "\<forall>j \<in> set ?os. is_live (j_state j)"
    by (auto simp: os orphaned_def holds_lease_def is_live_def live_job_states_def)
  ultimately obtain s' out where "triage_loop (update_registry now True) now ?os db = Inr (s', out)"
    and js: "db_jobs s' = map (\<lambda>r. if r \<in> set ?os then triaged now r else r) (db_jobs db)"
    using triage_loop_rows [OF SetDomainState_total ok, of ?os now now] os by auto
  with t have "db' = s'" by (simp add: recover_orphans_tx_def)
  moreover have "\<not> holds_lease (j_state (triaged now j))" if "j \<in> set ?os" for j
  proof -
    have "job_kind_valid (j_kind j)" using ok that by (simp add: os jobs_ok_def row_ok_def)
    then show ?thesis by (rule triaged_state(3))
  qed
  moreover have "\<not> holds_lease (j_state j)" if "j \<in> set (db_jobs db)" "j \<notin> set ?os" for j
    using that fresh by (auto simp: os orphaned_def list_all_iff split: option.splits)
  ultimately show ?thesis by (auto simp: js no_leases_def list_all_iff)
qed

lemma boot_fit_same:
  "h_daemon h' = h_daemon h \<Longrightarrow> h_engine h' = h_engine h \<Longrightarrow> boot_fit h \<Longrightarrow> boot_fit h'"
  by (cases "h_daemon h") (auto simp: boot_fit_def h_db_def)

lemma host_step_boot_fit:
  assumes h: "host_fit h" and b: "boot_fit h"
  shows "boot_fit (host_step st ev h)"
proof (cases ev)
  case (HvStart boot)
  with b show ?thesis
    by (auto simp: start_daemon_def boot_fit_def h_db_def list_all_iff list_ex_iff split: option.splits)
next
  case (HvDisarm r ok)
  with b show ?thesis
    by (auto simp: with_daemon_def disarm_def boot_fit_def split: option.splits sum.splits prod.splits)
next
  case (HvMigrate ok)
  with b show ?thesis
    by (auto simp: with_daemon_def migrate_def boot_fit_def h_db_def split: option.splits)
next
  case (HvTriage now)
  have "jobs_ok (db_jobs (h_db h))" using h by (simp add: host_fit_def engine_fit_def flight_ok_def h_db_def)
  then have "boot_fit (triage st now dm h)" if "h_daemon h = Some dm" for dm
    using b that by (auto simp: triage_def boot_fit_def split: sum.splits dest: triage_no_leases)
  with HvTriage b show ?thesis by (auto simp: with_daemon_def split: option.splits)
next
  case (HvResolve e survives)
  have "boot_fit (resolve_event st e survives dm h)" if "h_daemon h = Some dm" for dm
    using b by (auto simp: resolve_event_def Let_def after_gate_def intro!: boot_fit_serving split: prod.splits if_splits)
  with HvResolve b show ?thesis by (auto simp: with_daemon_def split: option.splits)
next
  case (HvApply e r stuck)
  have "boot_fit (apply_event st e r stuck dm h)" if "h_daemon h = Some dm" for dm
    using b by (auto simp: apply_event_def after_gate_def intro!: boot_fit_serving split: prod.splits if_splits)
  with HvApply b show ?thesis by (auto simp: with_daemon_def split: option.splits)
next
  case (HvJob ev' now ok)
  have "boot_fit (queue_request st ev' now ok dm h)" if "h_daemon h = Some dm" for dm
    using b by (auto simp: queue_request_def queue_step_def Let_def intro!: boot_fit_serving split: if_splits)
  with HvJob b show ?thesis by (auto simp: with_daemon_def split: option.splits)
next
  case (HvWork n e shutting)
  have "boot_fit (work_event st n e shutting dm h)" if "h_daemon h = Some dm" for dm
    using b by (auto simp: work_event_def queue_step_def Let_def hand_off_def intro!: boot_fit_serving
        split: prod.splits if_splits option.splits work_result.splits)
  with HvWork b show ?thesis by (auto simp: with_daemon_def split: option.splits)
next
  case (HvActor e)
  have "h_daemon (actor_event st e h) = h_daemon h" "h_engine (actor_event st e h) = h_engine h"
    by (auto simp: actor_event_def Let_def moved_def split: option.splits actor.splits sum.splits)
  with HvActor boot_fit_same [OF _ _ b] show ?thesis by simp
next
  case HvSummon
  with b show ?thesis by (auto simp: with_daemon_def summon_def boot_fit_def h_db_def Let_def split: option.splits)
qed (use b in \<open>auto simp: boot_fit_def h_db_def judge_event_def set_dir_def die_def split: option.splits\<close>)

interpretation bx: machine "host_step st" "\<lambda>_. True" "\<lambda>h. host_fit h \<and> boot_fit h"
  by unfold_locales (auto intro: host_step_fit host_step_boot_fit)

lemma host_run_boot_fit: "boot_fit (run (host_step st) evs (fresh_host st img))"
proof -
  have "boot_fit (fresh_host st img)" by (simp add: boot_fit_def fresh_host_def)
  with bx.run_inv [of evs "fresh_host st img" st] fresh_host_fit show ?thesis by (simp add: list_all_iff)
qed

text \<open>
  C6. A boot settles every update it finds. Whatever a host has been through, when a new daemon
  has recovered the queue and no actor is at work, the first pass of the gate, if its writes go
  through, leaves no marker and lets the daemon serve; every update still in flight has a job
  waiting in the queue; and the update the marker names has succeeded when its target is the
  version that runs and has failed otherwise.
\<close>

theorem a_boot_settles_every_update:
  assumes "h = run (host_step st) evs (fresh_host st img)"
    and "h_daemon h = Some dm" and "dm_stage dm = StTriaged" and "h_actor h = None"
    and "rv_write_ok e" and "rv_unlink e = IoDone" and "rv_stuck e = []"
    and "rv_note_id e \<notin> set (map nt_ID (ut_notes (db_domain (h_db h))))"
  shows "let h' = host_step st (HvResolve e True) h; rows = (\<lambda>x. ut_rows (db_domain (h_db x)))
    in \<not> marker_there h' \<and> map_option dm_stage (h_daemon h') = Some StServing
     \<and> (\<forall>u \<in> set (rows h'). su_live u \<longrightarrow> (\<exists>j \<in> set (db_jobs (h_db h')). su_job (su_ID u) j \<and> j_state j = JobQueued))
     \<and> (\<forall>m u. snd (takeMarker (st_world st) (rv_readable e) (dm_gate dm) (update_dir h)) = Taken m
          \<longrightarrow> u \<in> set (rows h) \<longrightarrow> su_live u \<longrightarrow> su_ID u = mk_SelfUpdateID m
          \<longrightarrow> (\<exists>u' \<in> set (rows h'). su_ID u' = su_ID u
               \<and> su_State u' = (if mk_TargetVersion m = gt_Version (dm_gate dm) then UpdateSucceeded else UpdateFailed)))"
proof -
  have ok: "flight_ok (h_db h)" using host_run_fit assms(1) by (simp add: host_fit_def engine_fit_def h_db_def)
  have nl: "no_leases (db_jobs (h_db h))" using host_run_boot_fit [of st evs img] assms(1-3) by (auto simp: boot_fit_def)
  let ?e = "systemd_answers h e"
  have na: "\<not> unitActorActive ?e" using assms(4) by (simp add: unitActorActive_def systemd_answers_def)
  obtain g' k where k: "takeMarker (st_world st) (rv_readable ?e) (dm_gate dm) (update_dir h) = (g', k)" by fastforce
  have io: "rv_write_ok ?e" "rv_unlink ?e = IoDone" "rv_stuck ?e = []"
      "rv_note_id ?e \<notin> set (map nt_ID (ut_notes (db_domain (h_db h))))"
    using assms(5-8) by (simp_all add: systemd_answers_def)
  obtain db' d' r where res: "Resolve (st_world st) ?e (dm_gate dm) (h_db h) (update_dir h) = (g', db', d', Inr r)"
    and s: "settled db'" and p: "d' PendingFileName = None"
    and m: "\<forall>u \<in> set (ut_rows (db_domain (h_db h))). \<forall>m. su_live u \<longrightarrow> k = Taken m \<longrightarrow> su_ID u = mk_SelfUpdateID m \<longrightarrow>
      (\<exists>u' \<in> set (ut_rows (db_domain db')). su_ID u' = su_ID u
        \<and> su_State u' = (if mk_TargetVersion m = gt_Version (dm_gate dm) then UpdateSucceeded else UpdateFailed))"
    by (rule Resolve_settles [OF ok nl na io k])
  have h': "host_step st (HvResolve e True) h = after_gate dm g' db' d' h"
    using assms(2,3) res by (simp add: with_daemon_def resolve_event_def Let_def)
  have kk: "snd (takeMarker (st_world st) (rv_readable e) (dm_gate dm) (update_dir h)) = k"
    using k by (simp add: systemd_answers_def)
  show ?thesis
    unfolding Let_def h' kk
    using s p m assms(3)
    by (auto simp: marker_there_def settled_def list_all_iff list_ex_iff)
qed

section \<open>What the privileged program installs\<close>

text \<open>
  A binary that is the \<open>llamaman\<close> member of an archive whose digest a checksums file lists under
  the name of the tarball, where that file carries a signature by one of the keys.
\<close>

definition vouched :: "world \<Rightarrow> string list \<Rightarrow> string \<Rightarrow> string \<Rightarrow> bool" where
  "vouched w keys tarball b \<longleftrightarrow> (\<exists>checksums sig k want archive items.
     k \<in> set keys \<and> wd_ed25519 w k checksums sig \<and> ParseChecksums checksums = Inr want
   \<and> map_of want tarball = Some (wd_sha256 w archive) \<and> wd_untar w archive = Some items
   \<and> find_member items = Inr b)"

lemma VerifyStaged_signed:
  assumes "VerifyStaged w tarball keys d1 d2 d3 = Inr digest"
  obtains checksums sig k want where "k \<in> set keys" and "wd_ed25519 w k checksums sig"
    and "ParseChecksums checksums = Inr want" and "map_of want tarball = Some digest"
proof -
  from assms obtain checksums sig0 want where c: "read_file d1 ChecksumsName = Inr checksums"
    and s: "read_file d2 SignatureName = Inr sig0" and v: "VerifyChecksums w checksums sig0 keys = None"
    and p: "ParseChecksums checksums = Inr want" and m: "map_of want tarball = Some digest"
    by (auto simp: VerifyStaged_def bind_res_eq_Inr split: option.splits if_splits)
  from v obtain sig k where "decodeSignature sig0 = Some sig" "k \<in> set keys" "wd_ed25519 w k checksums sig"
    by (auto simp: VerifyChecksums_def list_ex_iff split: option.splits if_splits)
  with p m that show thesis by blast
qed

lemma ExtractBinary_bound:
  "ExtractBinary w d tarball expect = Inr b \<Longrightarrow>
     \<exists>archive items. wd_sha256 w archive = expect \<and> wd_untar w archive = Some items \<and> find_member items = Inr b"
  by (auto simp: ExtractBinary_def bind_res_eq_Inr split: if_splits option.splits)

text \<open>
  C7. The privileged program installs nothing that is not signed. Whatever the service identity
  puts into \<open>update/\<close> before and between its five reads, either the installed binary stays as it
  is, or the marker it read names a release, the new binary is the member of an archive whose
  digest a checksums file signed by a compiled-in key lists under the tarball of that release,
  and the retained copy has the digest of the binary it replaces.
\<close>

theorem only_a_signed_binary_is_installed:
  "dk_installed (fst (Apply w e dk)) = dk_installed dk
   \<or> (\<exists>keys m old new copy. pe_keys e = Some keys \<and> ReadMarker w (pe_marker_readable e) (pe_dirs e 0) = Inr m
       \<and> dk_installed dk = Some old \<and> dk_installed (fst (Apply w e dk)) = Some new
       \<and> vouched w keys (TarballName (mk_TargetVersion m) (pe_goarch e)) new
       \<and> dk_retained (fst (Apply w e dk)) = Some copy \<and> wd_sha256 w copy = wd_sha256 w old)"
proof (cases "apply_preflight w e dk")
  case (Inl x)
  then show ?thesis by (simp add: Apply_def)
next
  case (Inr p)
  obtain m digest where p: "p = (m, digest)" by fastforce
  let ?tar = "TarballName (mk_TargetVersion m) (pe_goarch e)"
  from Inr p obtain keys where keys: "pe_keys e = Some keys"
    and m: "ReadMarker w (pe_marker_readable e) (pe_dirs e 0) = Inr m"
    and v: "VerifyStaged w ?tar keys (pe_dirs e 1) (pe_dirs e 2) (pe_dirs e 3) = Inr digest"
    by (auto simp: apply_preflight_def bind_res_eq_Inr split: option.splits if_splits)
  obtain dk1 x1 where r: "retain w e dk = (dk1, x1)" by fastforce
  then have i1: "dk_installed dk1 = dk_installed dk"
    by (auto simp: retain_def split: option.splits if_splits)
  obtain dk2 x2 where ex: "apply_extract w e m digest dk1 = (dk2, x2)" by fastforce
  then have i2: "dk_installed dk2 = dk_installed dk1" "dk_retained dk2 = dk_retained dk1"
    by (auto simp: apply_extract_def split: sum.splits if_splits)
  obtain dk3 x3 where rn: "apply_rename e dk2 = (dk3, x3)" by fastforce
  have f: "dk_installed (fst (Apply w e dk)) = dk_installed dk
    \<or> x1 = None \<and> x2 = None \<and> fst (Apply w e dk) = dk3"
    using Inr p r ex rn i1 i2 by (cases x1; cases x2; cases x3) (simp_all add: Apply_def)
  show ?thesis
  proof (cases "dk_installed (fst (Apply w e dk)) = dk_installed dk")
    case False
    with f have x: "x1 = None" "x2 = None" and a: "fst (Apply w e dk) = dk3" by auto
    from r x obtain old copy where ret: "dk_installed dk = Some old" "dk_retained dk1 = Some copy"
        "wd_sha256 w copy = wd_sha256 w old"
      by (auto simp: retain_def split: option.splits if_splits)
    from ex x obtain b where b: "ExtractBinary w (pe_dirs e 4) ?tar digest = Inr b" "dk_install_tmp dk2 = Some b"
      by (auto simp: apply_extract_def split: sum.splits if_splits)
    have "dk_installed dk3 \<noteq> dk_installed dk2" using False a i1 i2 by simp
    with rn b(2) have n: "dk_installed dk3 = Some b" "dk_retained dk3 = dk_retained dk2"
      by (auto simp: apply_rename_def split: if_splits)
    from ExtractBinary_bound [OF b(1)] VerifyStaged_signed [OF v] have "vouched w keys ?tar b"
      unfolding vouched_def by metis
    with keys m ret n i2 show ?thesis by (simp add: a)
  qed simp
qed

section \<open>The order of versions\<close>

lemma compare_nums_range: "compare_nums xs ys \<in> {-1, 0, 1}"
  by (induction xs ys rule: compare_nums.induct) auto

lemma compare_nums_swap: "compare_nums ys xs = - compare_nums xs ys"
  by (induction xs ys rule: compare_nums.induct) auto

lemma compare_nums_trans:
  "compare_nums xs ys \<le> 0 \<Longrightarrow> compare_nums ys zs \<le> 0 \<Longrightarrow> compare_nums xs zs \<le> 0
     \<and> (compare_nums xs zs = 0 \<longrightarrow> compare_nums xs ys = 0 \<and> compare_nums ys zs = 0)"
proof (induction xs ys arbitrary: zs rule: compare_nums.induct)
  case 1
  then show ?case by simp
next
  case (2 x xs)
  then show ?case by (cases zs) (auto split: if_splits)
next
  case (3 y ys)
  then show ?case by (cases zs) (auto split: if_splits)
next
  case (4 x xs y ys)
  then show ?case by (cases zs) (auto split: if_splits)
qed

lemma compare_suffix_swap: "compare_suffix b a = - compare_suffix a b"
  by (auto simp: compare_suffix_def)

lemma compare_suffix_trans: "compare_suffix a b \<le> 0 \<Longrightarrow> compare_suffix b c \<le> 0 \<Longrightarrow> compare_suffix a c \<le> 0"
  by (auto simp: compare_suffix_def split: if_splits)

text \<open>
  Versions are totally preordered: comparing the other way round gives the opposite answer,
  the order is transitive, and a release outranks its own prereleases. So "an update is
  available" and "this tag is older" never contradict each other.
\<close>

theorem versions_are_ordered:
  "CompareVersions b a = - CompareVersions a b \<and> CompareVersions a b \<in> {-1, 0, 1}
   \<and> (CompareVersions a b \<le> 0 \<longrightarrow> CompareVersions b c \<le> 0 \<longrightarrow> CompareVersions a c \<le> 0)
   \<and> (fst (splitVersion a) = fst (splitVersion b) \<longrightarrow> snd (splitVersion a) = [] \<longrightarrow> snd (splitVersion b) \<noteq> []
        \<longrightarrow> CompareVersions a b = 1)"
proof -
  have zero: "compare_nums xs xs = 0" for xs by (induction xs) auto
  have eq: "CompareVersions x y = (if compare_nums (fst (splitVersion x)) (fst (splitVersion y)) \<noteq> 0
      then compare_nums (fst (splitVersion x)) (fst (splitVersion y))
      else compare_suffix (snd (splitVersion x)) (snd (splitVersion y)))" for x y
    by (simp add: CompareVersions_def Let_def split_beta)
  have sw: "CompareVersions b a = - CompareVersions a b"
    unfolding eq using compare_nums_swap [of "fst (splitVersion b)" "fst (splitVersion a)"]
      compare_suffix_swap [of "snd (splitVersion b)" "snd (splitVersion a)"] by simp
  have rg: "CompareVersions a b \<in> {-1, 0, 1}"
    unfolding eq using compare_nums_range [of "fst (splitVersion a)" "fst (splitVersion b)"]
    by (auto simp: compare_suffix_def)
  have tr: "CompareVersions a c \<le> 0" if "CompareVersions a b \<le> 0" "CompareVersions b c \<le> 0"
    using that compare_nums_trans [of "fst (splitVersion a)" "fst (splitVersion b)" "fst (splitVersion c)"]
      compare_suffix_trans [of "snd (splitVersion a)" "snd (splitVersion b)" "snd (splitVersion c)"]
    unfolding eq by (simp split: if_splits)
  have rel: "CompareVersions a b = 1" if "fst (splitVersion a) = fst (splitVersion b)" "snd (splitVersion a) = []"
      "snd (splitVersion b) \<noteq> []"
    using that zero unfolding eq by (simp add: compare_suffix_def)
  from sw rg tr rel show ?thesis by blast
qed

theorem versions_are_ordered_witness:
  "CompareVersions ''v1.1.9'' ''v1.2.0'' = -1 \<and> CompareVersions ''v1.2.0-rc.1'' ''v1.2.0'' = -1"
proof -
  have "CompareVersions ''v1.1.9'' ''v1.2.0-rc.1'' = -1" "CompareVersions ''v1.2.0'' ''v1.1.9'' \<noteq> 0"
    "fst (splitVersion ''v1.2.0'') = fst (splitVersion ''v1.2.0-rc.1'')"
    "snd (splitVersion ''v1.2.0'') = []" "snd (splitVersion ''v1.2.0-rc.1'') \<noteq> []"
    by code_simp+
  with versions_are_ordered [of "''v1.2.0''" "''v1.2.0-rc.1''"]
    versions_are_ordered [of "''v1.2.0-rc.1''" "''v1.2.0''"]
    versions_are_ordered [of "''v1.2.0''" "''v1.1.9''" "''v1.2.0-rc.1''"]
    versions_are_ordered [of "''v1.2.0-rc.1''" "''v1.1.9''" "''v1.2.0''"]
  show ?thesis by auto
qed

end
