(* ===== verification/Update_Scenarios.thy ===== *)
theory Update_Scenarios
  imports Update_Claims
begin

text \<open>
  Concrete runs of a host: an update from \<open>v1\<close> to \<open>v2\<close> that migrates the database, and the runs
  in which the code does not do what it says.
\<close>

section \<open>A small site\<close>

text \<open>
  A binary is its version; a marker is its four strings; every archive holds its own bytes. The
  digest tells the archives of the two releases apart.
\<close>

definition bar :: "string list \<Rightarrow> string" where
  "bar ss = concat (map (\<lambda>s. s @ ''|'') ss)"

definition demo_unmarshal :: "string \<Rightarrow> marker option" where
  "demo_unmarshal b = (case split_at (CHR ''|'') b of
       [i, f, t, p, _] \<Rightarrow> Some \<lparr>mk_Format = 1, mk_SelfUpdateID = i, mk_FromVersion = f, mk_TargetVersion = t,
          mk_BinaryPath = p, mk_StagedAt = 0\<rparr>
     | _ \<Rightarrow> None)"

definition demo_digest :: "string \<Rightarrow> string" where
  "demo_digest b = replicate 64 (if b = ''v2'' then CHR ''a'' else if b = ''v3'' then CHR ''b'' else CHR ''c'')"

definition demo_world :: world where
  "demo_world = \<lparr>wd_unmarshal = demo_unmarshal,
     wd_marshal = (\<lambda>m. bar [mk_SelfUpdateID m, mk_FromVersion m, mk_TargetVersion m, mk_BinaryPath m]),
     wd_sha256 = demo_digest, wd_ed25519 = (\<lambda>k c s. True),
     wd_untar = (\<lambda>b. Some [TarEntry \<lparr>te_Regular = True, te_Name = ''llamaman'', te_Size = 2, te_Data = Some b\<rparr>])\<rparr>"

definition demo_layout :: layout where
  "demo_layout = \<lparr>ly_StateDir = ''/var/lib/llamaman'', ly_Prefix = ''/opt/llamaman''\<rparr>"

definition demo_site :: site where
  "demo_site = \<lparr>st_world = demo_world, st_layout = demo_layout, st_json = (\<lambda>_. True), st_progress = (\<lambda>_. ''{}''),
     st_class = (\<lambda>_. RunOther ''error''), st_version = (\<lambda>b. b),
     st_schema = (\<lambda>b. if b = ''v1'' then 1 else if b = ''v2'' then 2 else 3),
     st_tag = (\<lambda>p. Some p), st_ttl = 60000, st_poll = 1000\<rparr>"

definition calm :: "string \<Rightarrow> resolve_env" where
  "calm note = \<lparr>rv_now = 9, rv_note_id = note, rv_journal = None, rv_units = None, rv_readable = True, rv_read_ok = True,
     rv_write_ok = True, rv_unlink = IoDone, rv_stuck = []\<rparr>"

definition demo_guard :: guard_env where
  "demo_guard = \<lparr>ge_user_scope = False, ge_control = None,
     ge_units = Some (\<lambda>_. Inr \<lparr>uf_Present = True, uf_Masked = False, uf_Content = ''OnFailure=llamaman-update-verify.service''\<rparr>)\<rparr>"

definition demo_apply :: "string \<Rightarrow> string \<Rightarrow> string \<Rightarrow> apply_request" where
  "demo_apply tag i job = \<lparr>ap_Tag = tag, ap_Idempotency = Some \<lparr>i_key = ''k'' @ i, i_route = ''apply'', i_fingerprint = tag\<rparr>,
     ap_now = 5, ap_id = i, ap_job_id = job, ap_params = tag, ap_guard = demo_guard, ap_write_ok = True, ap_dir_ok = True\<rparr>"

definition staged_dir :: "string \<Rightarrow> dir" where
  "staged_dir tag n = (if n = ''checksums.txt'' then Some (demo_digest tag @ ''  '' @ TarballName tag ''amd64'')
     else if n = ''checksums.txt.sig'' then Some (replicate 64 (CHR ''s''))
     else if n = TarballName tag ''amd64'' then Some tag else None)"

definition demo_work :: "string \<Rightarrow> work_env" where
  "demo_work tag = \<lparr>we_now = 7, we_ctx_done = False, we_url = ''https://x'', we_row_ok = True, we_progress_ok = True,
     we_fetch = None, we_dirs = (\<lambda>_. staged_dir tag), we_keys = [''key''], we_goarch = ''amd64'', we_text = (\<lambda>_. ''error''),
     we_placed = None, we_printed = (\<lambda>b. Inr (b @ '' (commit 1f)'')), we_snapshot = Inr ''/s.db'',
     we_marker = IoDone, we_marker_error = [], we_swap = SwapTaken, we_sweep_ok = True, we_writes = all_written\<rparr>"

definition demo_actor :: "string \<Rightarrow> bool \<Rightarrow> apply_env" where
  "demo_actor tag room = \<lparr>pe_scope_ok = True, pe_keys = Some [''key''], pe_layout = demo_layout, pe_goarch = ''amd64'',
     pe_dirs = (\<lambda>_. staged_dir tag), pe_marker_readable = True, pe_room = room, pe_copy = (\<lambda>b. Some b),
     pe_retain_ok = True, pe_retain_synced = True, pe_extract_ok = True, pe_owner_ok = True, pe_rename_ok = True,
     pe_rename_synced = True, pe_restart = Some True\<rparr>"

text \<open>A boot without a migration, and a worker that is taken through \<open>n\<close> steps.\<close>

definition boots :: "string \<Rightarrow> host_event list" where
  "boots b = [HvStart b, HvTriage 3, HvResolve (calm b) True]"

definition works :: "nat \<Rightarrow> string \<Rightarrow> host_event list" where
  "works n tag = replicate n (HvWork 0 (demo_work tag) False)"

definition stages :: "string \<Rightarrow> string \<Rightarrow> string \<Rightarrow> host_event list" where
  "stages tag i job = [HvApply (calm (''a'' @ i)) (demo_apply tag i job) [], HvJob (EvClaim 0 6) 6 True,
     HvJob (EvStart 0 False all_written 6) 6 True]"

definition swaps :: "string \<Rightarrow> host_event list" where
  "swaps tag = HvSummon # replicate 5 (HvActor (demo_actor tag True))"

definition after :: "host_event list \<Rightarrow> host" where
  "after evs = run (host_step demo_site) evs (fresh_host demo_site ''v1'')"

definition rows_of :: "host \<Rightarrow> (string \<times> su_state) list" where
  "rows_of h = map (\<lambda>u. (su_ID u, su_State u)) (ut_rows (db_domain (h_db h)))"

definition jobs_of :: "host \<Rightarrow> (string \<times> job_state) list" where
  "jobs_of h = map (\<lambda>j. (j_id j, j_state j)) (db_jobs (h_db h))"

definition seen :: "host \<Rightarrow> string option \<times> string option \<times> nat \<times> bool" where
  "seen h = (dk_installed (h_disk h), map_option dm_image (h_daemon h), h_schema h, marker_there h)"

definition migrates :: "string \<Rightarrow> host_event list" where
  "migrates b = [HvStart b, HvDisarm True IoDone, HvMigrate True, HvTriage 3]"

section \<open>An update\<close>

definition applied_v2 :: "host_event list" where
  "applied_v2 = boots ''b1'' @ stages ''v2'' ''u1'' ''j1'' @ works 14 ''v2'' @ swaps ''v2'' @ [HvDie] @ migrates ''b2''"

lemma applied_v2_run:
  "let h = after applied_v2 in rows_of h = [(''u1'', UpdateSwapping)] \<and> jobs_of h = [(''j1'', JobInterrupted)]
     \<and> seen h = (Some ''v2'', Some ''v2'', 2, False) \<and> map_option dm_stage (h_daemon h) = Some StTriaged
     \<and> h_actor h = None \<and> ut_notes (db_domain (h_db h)) = []"
  by code_simp

lemma confirmed_v2_run:
  "let h = host_step demo_site (HvResolve (calm ''n'') True) (after applied_v2) in
     rows_of h = [(''u1'', UpdateSucceeded)] \<and> jobs_of h = [(''j1'', JobSucceeded)]
     \<and> seen h = (Some ''v2'', Some ''v2'', 2, False)"
  by code_simp

theorem a_boot_settles_every_update_witness:
  "let h = host_step demo_site (HvResolve (calm ''n'') True) (after applied_v2) in
     \<not> marker_there h \<and> map_option dm_stage (h_daemon h) = Some StServing
     \<and> rows_of h = [(''u1'', UpdateSucceeded)]"
proof -
  obtain dm where dm: "h_daemon (after applied_v2) = Some dm" "dm_stage dm = StTriaged"
    using applied_v2_run by (auto simp: Let_def)
  have "h_actor (after applied_v2) = None"
    "rv_note_id (calm ''n'') \<notin> set (map nt_ID (ut_notes (db_domain (h_db (after applied_v2)))))"
    using applied_v2_run by (simp_all add: Let_def)
  moreover have "rv_write_ok (calm ''n'')" "rv_unlink (calm ''n'') = IoDone" "rv_stuck (calm ''n'') = []"
    by (simp_all add: calm_def)
  ultimately show ?thesis
    using a_boot_settles_every_update [of "after applied_v2" demo_site applied_v2 "''v1''" dm "calm ''n''"] dm
      confirmed_v2_run
    unfolding after_def by (simp add: Let_def)
qed

section \<open>Runs against the documented protocol\<close>

text \<open>
  A cancel accepted while the release is verified, which the heartbeat sees only after the
  hand-off: the row and its job say canceled, and the update is applied.
\<close>

definition late_cancel :: "host_event list" where
  "late_cancel = boots ''b1'' @ stages ''v2'' ''u1'' ''j1'' @ works 4 ''v2'' @ [HvJob (EvCancel ''j1'' 8) 8 True]
     @ works 10 ''v2'' @ [HvSummon, HvActor (demo_actor ''v2'' True), HvJob (EvHeartbeat 0 15000) 15000 True]
     @ works 1 ''v2'' @ replicate 4 (HvActor (demo_actor ''v2'' True)) @ [HvDie] @ migrates ''b2''
     @ [HvResolve (calm ''n'') True]"

theorem a_late_cancel_is_reported_and_applied:
  "let h = after late_cancel in
     rows_of h = [(''u1'', UpdateCanceled)] \<and> jobs_of h = [(''j1'', JobCanceled)]
     \<and> seen h = (Some ''v2'', Some ''v2'', 2, False)"
  by code_simp

text \<open>
  The copy of a marker that was unlinked before the migration is gone when the transaction of the
  first pass fails: the next pass finds no marker and fails an update that took.
\<close>

theorem a_failed_pass_loses_the_marker:
  "let h = after (applied_v2 @ [HvResolve ((calm ''n1'')\<lparr>rv_write_ok := False\<rparr>) True, HvResolve (calm ''n2'') True]) in
     rows_of h = [(''u1'', UpdateFailed)] \<and> jobs_of h = [(''j1'', JobFailed)]
     \<and> seen h = (Some ''v2'', Some ''v2'', 2, False)"
  by code_simp

text \<open>
  The binary an earlier update replaced is still there when the next update refuses before it
  retains its own: if the daemon fails then, the judge installs a binary whose schema is behind
  the database, and it does not start.
\<close>

definition demo_judge :: judge_env where
  "demo_judge = \<lparr>je_scope_ok = True, je_stat_ok = True, je_mode = 0x1ED, je_uids = Some (0, 0),
     je_is_active = Some ''failed'', je_rename_ok = True, je_synced = True\<rparr>"

definition stale_revert :: "host_event list" where
  "stale_revert = applied_v2 @ [HvResolve (calm ''n'') True] @ stages ''v3'' ''u2'' ''j2'' @ works 14 ''v3''
     @ [HvSummon, HvActor (demo_actor ''v3'' False), HvDie, HvUnitFails, HvJudge demo_judge]"

theorem a_stale_retained_binary_is_installed:
  "let h = after stale_revert in seen h = (Some ''v1'', None, 2, True) \<and> start_daemon demo_site ''b3'' h = h"
proof -
  have "seen (after stale_revert) = (Some ''v1'', None, 2, True)" by code_simp
  moreover from this have "start_daemon demo_site ''b3'' (after stale_revert) = after stale_revert"
    by (simp add: seen_def start_daemon_def demo_site_def)
  ultimately show ?thesis by (simp add: Let_def)
qed

text \<open>A pass that cannot unlink the marker raises its card again on the next pass.\<close>

definition twice_refused :: "host_event list" where
  "twice_refused = boots ''b1'' @ stages ''v2'' ''u1'' ''j1'' @ works 14 ''v2'' @ [HvDie, HvStart ''b2'', HvTriage 3,
     HvResolve ((calm ''n1'')\<lparr>rv_unlink := IoRefused\<rparr>) True, HvResolve (calm ''n2'') True]"

theorem a_refused_update_raises_two_cards:
  "map nt_Code (ut_notes (db_domain (h_db (after twice_refused)))) = [''update_not_applied'', ''update_not_applied'']
   \<and> rows_of (after twice_refused) = [(''u1'', UpdateFailed)]"
  by code_simp

text \<open>A replayed apply is answered by the guard, not by the job it made.\<close>

definition answer_of :: "gate \<times> updb \<times> dir \<times> (update_error + stage_result) \<Rightarrow> update_error + string" where
  "answer_of r = (case snd (snd (snd r)) of Inl x \<Rightarrow> Inl x | Inr a \<Rightarrow> Inr (j_id (sr_Job a)))"

theorem a_replayed_apply_is_refused:
  "let h = after (boots ''b1'' @ stages ''v2'' ''u1'' ''j1''); r = demo_apply ''v2'' ''u1'' ''j2'' in
     answer_of (ApplyUpdate (\<lambda>_. True) demo_world (systemd_answers h (calm ''n'')) r []
       (NewGate demo_layout ''v1'') (h_db h) (update_dir h)) = Inl (JobInFlight ''update'')"
  by code_simp

text \<open>A tag with a part that is no number is taken for the release before that part.\<close>

theorem an_unreadable_tag_equals_a_release: "CompareVersions ''v1.2.x'' ''v1.2.0'' = 0"
  by code_simp

end
