(* ===== verification/Spec2Isabelle.thy ===== *)
theory Spec2Isabelle
  imports Job_Properties Supervisor_Claims Gguf_Claims Gguf_Shape Auth_Claims Auth_Lockout Token_Claims Token_Uses Fit_Examples Gateway_Claims Gateway_Watch Gateway_Scan Settings_Claims Settings_Props Instance_Stale Update_Scenarios
begin

text \<open>
  A verification library for llamaman, a daemon that runs \<open>llama-server\<close> instances on one host:
  it downloads models, builds or installs llama.cpp, decides what fits on the GPUs, keeps the
  instances running under systemd, and puts a gateway with access tokens in front of them. All of
  its state is in one SQLite database; the packages under \<open>src/internal\<close> are services over it.

  \<^bold>\<open>How the parts meet.\<close>
  The supervisor reads a row of \<open>instances\<close> with its status and its ledger of starts, asks systemd
  what the unit does, writes down what it saw and takes at most one action. The job engine runs
  the long tasks (downloads, builds, benchmarks) from a table of leases. The GGUF reader turns the
  header of a model file into the shape the fit calculator needs; the calculator says where the
  layers go and what to run the instance with. A request reaches an instance through the gateway,
  which asks the token service whether its credential may pass, taps the end of the response for
  token counts, and books the request. The admin interface opens sessions with the authentication
  service. Every service reads its knobs from the settings cache.

  \<^bold>\<open>Which theory models what.\<close> Paths are relative to \<open>src/internal\<close>.
    \<^item> \<open>Prelude\<close>: Go's types, results, decimal numbers and the few string functions used by several
      parts; runs of a machine, with the locale \<open>machine\<close> that lifts what a step keeps to a run;
      transactions that commit or leave the state.
    \<^item> \<open>Job_Model\<close> (\<open>model/jobs.go\<close>), \<open>Job_Store\<close> (\<open>store/jobs.go\<close>: each statement with the unique
      index and the checks of its table), \<open>Job_Queue\<close> (\<open>jobs/enqueue.go\<close>, \<open>control.go\<close>,
      \<open>runner.go\<close>, \<open>worker.go\<close>: the transactions of the engine), \<open>Job_Engine\<close> (the engine as one
      machine: tables, slots and tasks, one event per transaction). \<open>Job_Fencing\<close> shows who may work
      on a job, \<open>Job_Properties\<close> what the operations promise their callers.
    \<^item> \<open>Restart_Policy\<close> (\<open>supervisor/policy.go\<close>, the badge of \<open>model/instances.go\<close>), \<open>Start_Ledger\<close>
      (\<open>store/instancestarts.go\<close>), \<open>Supervisor\<close> (\<open>supervisor/reconcile.go\<close>, \<open>act.go\<close>,
      \<open>health.go\<close>, \<open>contract.go\<close>, \<open>store/instancestatus.go\<close>: one pass). \<open>Supervisor_Props\<close> and \<open>Supervisor_Claims\<close> speak of runs of
      passes with arbitrary observations and transactions that may fail.
    \<^item> \<open>Gguf_Types\<close>, \<open>Gguf_Tensor\<close>, \<open>Gguf_Value\<close>, \<open>Gguf_Parse\<close> (\<open>gguf/types.go\<close>, \<open>errors.go\<close>,
      \<open>tensor.go\<close>, \<open>value.go\<close>, \<open>parse.go\<close>), \<open>Gguf_Shape\<close> (\<open>gguf/shape.go\<close>), \<open>Gguf_Build\<close>
      (\<open>gguf/ggufbuild\<close>). \<open>Gguf_Reads\<close> characterises what a decoder may look at, \<open>Gguf_Layout\<close> the
      index of a parsed file, \<open>Gguf_Elision\<close> the two walks over an array, \<open>Gguf_Roundtrip\<close> the
      writer against the reader, \<open>Gguf_Claims\<close> collects the properties.
    \<^item> \<open>Encoding\<close>, \<open>Auth_Password\<close>, \<open>Auth_Store\<close>, \<open>Auth_Service\<close>, \<open>Auth_Machine\<close> (\<open>auth/password.go\<close>,
      \<open>auth/service.go\<close>, \<open>session.go\<close>, \<open>setuptoken.go\<close>, \<open>store/auth.go\<close>, \<open>store/setupclaim.go\<close>);
      \<open>Auth_Claims\<close> and \<open>Auth_Lockout\<close> hold the properties.
    \<^item> \<open>Token_Store\<close>, \<open>Token_Service\<close>, \<open>Token_Machine\<close> (\<open>store/tokens.go\<close>, \<open>tokens/service.go\<close>,
      \<open>secret.go\<close>, \<open>ratelimit.go\<close>); \<open>Token_Claims\<close> treats verification beside writes, \<open>Token_Uses\<close>
      the counters.
    \<^item> \<open>Fit_Arith\<close> (Go's \<open>int64\<close> and \<open>float64\<close>), \<open>Fit_Types\<close>, \<open>Fit_Memory\<close>, \<open>Fit_Place\<close>, \<open>Fit_Eval\<close>,
      \<open>Fit_Estimate\<close> (all of \<open>fit\<close>); \<open>Fit_Fits\<close>, \<open>Fit_Claims\<close>, \<open>Fit_Context\<close>, \<open>Fit_Recommend\<close> are
      about its reports, its binary search and its advice, \<open>Fit_Examples\<close> evaluates them.
    \<^item> \<open>Gateway_Usage\<close> (\<open>gateway/accounting.go\<close>, \<open>store/usage.go\<close>), \<open>Gateway_Tap\<close>
      (\<open>gateway/usagetap.go\<close>); \<open>Gateway_Accounts\<close> and \<open>Gateway_Claims\<close> are about the accounting under
      overlapping flushes and purges, \<open>Gateway_Watch\<close> about the watch on refusals, \<open>Gateway_Ring\<close> and
      \<open>Gateway_Scan\<close> about the ring and what the scans find.
    \<^item> \<open>Settings_Registry\<close>, \<open>Settings_Cache\<close> (\<open>settings\<close>, \<open>store/settings.go\<close>, \<open>model/settings.go\<close>,
      \<open>app/apisettings.go\<close>); \<open>Settings_Claims\<close> treats reads beside writes, \<open>Settings_Props\<close> valid
      values and refused patches.
    \<^item> \<open>Instance_Words\<close> (\<open>instances/extraflags.go\<close>: the word splitter and the forbidden flags),
      \<open>Instance_Flags\<close> (\<open>instances/render.go\<close>, \<open>validate.go\<close>, \<open>model/flagset.go\<close>: the flag
      set and the command lines made of it), \<open>Instance_Ports\<close> (\<open>instances/ports.go\<close>),
      \<open>Instance_Hash\<close> (\<open>instances/hash.go\<close>), \<open>Instance_Env\<close> (\<open>instances/env.go\<close>, names and the draft
      check of \<open>validate.go\<close>). \<open>Instance_Service\<close> and \<open>Instance_Ops\<close> model \<open>instances/service.go\<close>,
      \<open>control.go\<close> and \<open>store/instances.go\<close> with the writers of other services that an instance's
      configuration hash depends on (downloads, scans, the active llama.cpp version);
      \<open>Instance_Machine\<close> has one event per transaction and says what a recomputation of hashes
      reaches; \<open>Instance_Current\<close> and
      \<open>Instance_Claims\<close> show that a stored hash is the hash of what the row would run with,
      \<open>Instance_Stale\<close> the writer that breaks it, \<open>Instance_Edits\<close> that revisions lose no edit,
      \<open>Instance_Rows\<close> that every stored row renders.
    \<^item> \<open>Update_Store\<close> (\<open>store/selfupdates.go\<close>, \<open>model/selfupdate.go\<close>), \<open>Update_Files\<close> (\<open>selfupdate\<close>:
      \<open>paths.go\<close>, \<open>marker.go\<close>, \<open>verify.go\<close>, \<open>tarball.go\<close>, and the privileged programs of \<open>actor.go\<close>
      and \<open>judge.go\<close>), \<open>Update_Gate\<close> (\<open>gate.go\<close>: the confirmation of an update by the next boot),
      \<open>Update_Service\<close> (\<open>service.go\<close>, \<open>worker.go\<close>, the order of versions of \<open>release.go\<close>).
      \<open>Update_Machine\<close> is a host: the job engine, the daemon's boot, the files, the actor, the judge
      and the failures of the unit, with a crash possible between any two writes. \<open>Update_Flight\<close>
      and \<open>Update_Invariant\<close> show that one update is in flight at a time, \<open>Update_Claims\<close> what a boot
      settles and what the actor installs, \<open>Update_Scenarios\<close> runs a host and finds the protocol
      broken in five ways.

  \<^bold>\<open>How state and effects are modelled.\<close>
  A table is a list of records or a map by its key, a statement a function on it that fails where
  the schema refuses (\<open>CHECK\<close>, unique index, foreign key). A transaction either commits or
  leaves the tables; whether the store lets it commit is part of the environment of the call,
  as are clocks, random bytes and what systemd answers. A service with memory is a record, and its
  operations are steps of a machine; where goroutines interleave, an operation is cut into its
  atomic moves, at its locks and its transactions, and the events come in any order. Two steps are
  coarser than the code: a pass of the supervisor is one step, so what the launcher or the API
  writes between its read and its record transaction is outside of the properties about passes,
  and the bound of the lockout is about logins that do not overlap. The transactions of a job's
  start and end may each fail in the store. Errors are
  values on the left of a sum. Integers that can wrap are words or have the wrap written out; the
  others (Unix milliseconds, row counts) are \<open>int\<close>.

  \<^bold>\<open>What the lemmas show.\<close>
  Invariants over all runs: the job tables stay well formed and no job has two workers without a
  pause; a ledger row is closed once; no login address gets more guesses than the lockout
  allows, as long as logins do not overlap; at most one self-update is not over; no request or token use is lost between memory and table; the breakdown by credential
  stays within the totals of its instance. Refinement and equivalence: the settings cache answers
  as the table does, the binary search of the calculator as an exhaustive one, the two array walks
  of the parser as each other. Round trips: what the builder writes the parser reads, what is
  minted opens, what a response ends in the tap reports, and the extra flags of an instance survive
  quoting. Safety of decisions: a verdict of
  \<open>fits\<close> holds of every device, a revoked token is refused from the next request on, a latched
  instance is never started, a stored instance has a port, a name and flags that render, nothing but
  a signed binary is installed, a boot settles every update it finds. Several theorems state behaviour that the comments of the code deny:
  two runners after a pause and resume, a synthesized ledger row lost after a rollback, a patch of
  settings that is half applied, accounting that stops after a purge, a finished download that
  leaves the hashes of its instances as they were, an update that is reported canceled and applied,
  a retained binary that is too old for its database.

  \<^bold>\<open>Bounds and fuel.\<close>
  The parser's loops recurse on counts read from the file and are bounded by the bytes that are
  left, so they are total; the nesting of arrays is bounded by the code's own limit. The walk over the
  policy's backoff and the calculator's searches carry termination measures. The ring's copying
  loop is a partial function, and its theorem shows that it gives a result on every ring that
  the pool can hand out. Nothing uses fuel.

  \<^bold>\<open>Idealisations.\<close>
  The rate-limit bucket counts in rationals instead of \<open>float64\<close>; the epoch of the token cache and the
  generation of the settings cache are natural numbers instead of \<open>uint64\<close>. The recomputation of
  configuration hashes reads at most 500 instances, and the property about them is stated for tables
  within that bound. The calculator's \<open>float64\<close>
  is a rational rounded to 53 bits with ties to even, without infinities, NaN and subnormal
  numbers, which none of its inputs reach. SHA-256, HMAC, argon2id and ed25519, \<open>json.Unmarshal\<close> of a
  usage object and of a marker, the \<open>tar\<close> and \<open>gzip\<close> readers, \<open>net.ParseIP\<close> and \<open>url.Parse\<close> are
  parameters. Messages, human-readable sizes and log lines
  are left out; a note or an error is a constructor with what the message is made of.

  \<^bold>\<open>Not modelled.\<close>
  HTTP handlers, middleware, the OpenAPI document and the proxying of requests: they decode, call one
  operation modelled here and encode. The composition root and the command line: construction and
  wiring. Clients of remote services, builds, installs, downloads, probes and the hub cache: what
  they do is done by child processes, the network and the file system, and their results are
  inputs of the models (the transfer of a release and what its binary prints are inputs of the
  worker of an update). Boot reconciliation of the supervisor and the observation of GPU use read the
  state of processes on the host. Benchmarks, the setup wizard and the event hub aggregate or
  forward what other components decide.
\<close>

end
